(* ===== verification/Prelude.thy ===== *)
theory Prelude
  imports Complex_Main
begin

text \<open>
  Shared vocabulary of the development: the exceptions a Python function can raise and the
  result type that carries them, Python's \<open>range\<close> with a step, slices, the chunked
  accumulation loops of the tensor code, element-wise vector operations, and the generic lemmas
  about them that the component theories use.

  Numbers. A tensor entry and a Python float are modelled as a real number, so rounding,
  overflow to infinity and NaN entries are not modelled; a guard that tests the finiteness of a
  tensor of reals is vacuous and is not written. A host float whose finiteness the code tests
  explicitly is a \<open>pyfloat\<close>, with infinities and NaN, and its guard is written out. Where
  finite operands can still give a non-finite result (a division by zero, the logarithm of an
  empty sum) the model writes the case out.
\<close>

section \<open>Results and errors\<close>

datatype err =
    ValueError string
  | TypeError string
  | RuntimeError string
  | UnboundLocalError string
  | KeyError string
  | AssertionError string
  | OverflowError string
  | FileNotFoundError string
  | ModuleNotFoundError string
  | ZeroDivisionError string
  | IndexError string
  | AttributeError string
  | NotImplementedError string

type_synonym 'a res = "err + 'a"

fun rbind :: "'a res \<Rightarrow> ('a \<Rightarrow> 'b res) \<Rightarrow> 'b res" where
  "rbind (Inl e) k = Inl e"
| "rbind (Inr x) k = k x"

lemma rbind_Inr_iff [simp]: "rbind m k = Inr y \<longleftrightarrow> (\<exists>x. m = Inr x \<and> k x = Inr y)"
  by (cases m) auto

lemma rbind_Inl_iff: "rbind m k = Inl e \<longleftrightarrow> m = Inl e \<or> (\<exists>x. m = Inr x \<and> k x = Inl e)"
  by (cases m) auto

text \<open>A comprehension whose body may raise: the first error ends it.\<close>

fun rmap :: "('a \<Rightarrow> 'b res) \<Rightarrow> 'a list \<Rightarrow> 'b list res" where
  "rmap f [] = Inr []"
| "rmap f (x # xs) = rbind (f x) (\<lambda>y. rbind (rmap f xs) (\<lambda>ys. Inr (y # ys)))"

lemma rmap_nth:
  "rmap f xs = Inr ys \<Longrightarrow> length ys = length xs \<and> (\<forall>i < length xs. f (xs ! i) = Inr (ys ! i))"
proof (induction xs arbitrary: ys)
  case (Cons x xs)
  then show ?case
    by (cases "f x"; cases "rmap f xs") (auto simp: nth_Cons split: nat.split)
qed simp

section \<open>Host floats\<close>

datatype pyfloat = Fin real | PosInf | NegInf | NaN

fun isfinite :: "pyfloat \<Rightarrow> bool" where
  "isfinite (Fin x) = True"
| "isfinite x = False"

text \<open>\<open>the_real\<close> is only applied after an \<open>isfinite\<close> guard.\<close>

fun the_real :: "pyfloat \<Rightarrow> real" where
  "the_real (Fin x) = x"
| "the_real x = 0"

lemma isfinite_iff: "isfinite x \<longleftrightarrow> (\<exists>r. x = Fin r)"
  by (cases x) auto

section \<open>Named collections\<close>

named_theorems vec_defs \<open>definitions of the element-wise vector operations\<close>
named_theorems slice_simps \<open>element-wise operations commute with slicing\<close>
named_theorems vec_len \<open>lengths of vectors the model builds\<close>

section \<open>Python ranges and slices\<close>

text \<open>\<open>range(s, n, c)\<close> for a positive step.\<close>

function range_from :: "nat \<Rightarrow> nat \<Rightarrow> nat \<Rightarrow> nat list" where
  "range_from s n c = (if 0 < c \<and> s < n then s # range_from (s + c) n c else [])"
  by pat_completeness auto
termination
  by (relation "measure (\<lambda>(s, n, c). n - s)") auto

declare range_from.simps [simp del]

text \<open>\<open>xs[a:b]\<close> for \<open>a \<le> b\<close>.\<close>

definition slice :: "nat \<Rightarrow> nat \<Rightarrow> 'a list \<Rightarrow> 'a list" where
  "slice a b xs = take (b - a) (drop a xs)"

lemma slice_Nil [simp]: "slice a b [] = []"
  by (simp add: slice_def)

lemma slice_map [slice_simps]: "map f (slice a b xs) = slice a b (map f xs)"
  by (simp add: slice_def take_map drop_map)

lemma slice_zip [slice_simps]: "zip (slice a b xs) (slice a b ys) = slice a b (zip xs ys)"
  by (simp add: slice_def take_zip drop_zip)

lemma slice_map2 [slice_simps]:
  "map2 f (slice a b xs) (slice a b ys) = slice a b (map2 f xs ys)"
  by (simp add: slice_map slice_zip)

section \<open>Chunked accumulation\<close>

text \<open>
  \<^verbatim>\<open>
  acc = 0
  for start in range(0, n, c):
      stop = min(start + c, n)
      acc = acc + body(start, stop)
  \<close>
  A loop of the source that updates several independent accumulators is modelled by one such
  loop per accumulator.
\<close>

definition chunk_sum :: "nat \<Rightarrow> nat \<Rightarrow> (nat \<Rightarrow> nat \<Rightarrow> real) \<Rightarrow> real" where
  "chunk_sum n c body = foldl (\<lambda>acc s. acc + body s (min (s + c) n)) 0 (range_from 0 n c)"

text \<open>
  \<^verbatim>\<open>torch.cat([body(start, stop) for start in range(0, n, c)], dim=-1)\<close>
\<close>

definition chunk_cat :: "nat \<Rightarrow> nat \<Rightarrow> (nat \<Rightarrow> nat \<Rightarrow> 'a list) \<Rightarrow> 'a list" where
  "chunk_cat n c body = concat (map (\<lambda>s. body s (min (s + c) n)) (range_from 0 n c))"

lemma slice_split:
  assumes "a \<le> b" and "b \<le> n"
  shows "slice a b xs @ slice b n xs = slice a n xs"
proof -
  have take_n: "take n xs = take b xs @ slice b n xs"
    using assms(2) by (metis le_add_diff_inverse slice_def take_add)
  have "drop a (take b xs @ slice b n xs) = drop a (take b xs) @ slice b n xs"
    using assms(1) by (cases "b \<le> length xs") (auto simp: slice_def)
  then have "drop a (take n xs) = drop a (take b xs) @ slice b n xs"
    by (simp only: take_n)
  then show ?thesis
    by (simp only: slice_def drop_take)
qed

lemma foldl_plus_start: "foldl (\<lambda>acc s. acc + f s) (x :: real) ss = x + foldl (\<lambda>acc s. acc + f s) 0 ss"
proof (induction ss arbitrary: x)
  case (Cons s ss)
  show ?case using Cons [of "x + f s"] Cons [of "f s"] by simp
qed simp

lemma chunk_sum_slice_from:
  assumes "0 < c"
  shows "foldl (\<lambda>acc s. acc + sum_list (slice s (min (s + c) n) xs)) 0 (range_from a n c)
    = sum_list (slice a n (xs :: real list))"
  using assms
proof (induction a n c rule: range_from.induct)
  case (1 s n c)
  show ?case
  proof (cases "s < n")
    case True
    let ?m = "min (s + c) n"
    have split: "slice s n xs = slice s ?m xs @ slice ?m n xs"
      using True by (subst slice_split) auto
    have rest: "slice ?m n xs = slice (s + c) n xs"
      by (cases "s + c \<le> n") (simp_all add: slice_def min_def)
    show ?thesis
      using True 1
      by (subst range_from.simps, simp, subst foldl_plus_start) (simp add: split rest)
  next
    case False
    then show ?thesis by (subst range_from.simps) (simp add: slice_def)
  qed
qed

lemma chunk_sum_slice:
  assumes "0 < c" and "length xs \<le> n"
  shows "chunk_sum n c (\<lambda>a b. sum_list (slice a b xs)) = sum_list (xs :: real list)"
  using chunk_sum_slice_from [OF assms(1), of n xs 0] assms(2)
  by (simp add: chunk_sum_def slice_def)

lemma chunk_cat_slice_from:
  assumes "0 < c"
  shows "concat (map (\<lambda>s. slice s (min (s + c) n) xs) (range_from a n c)) = slice a n xs"
  using assms
proof (induction a n c rule: range_from.induct)
  case (1 s n c)
  show ?case
  proof (cases "s < n")
    case True
    let ?m = "min (s + c) n"
    have split: "slice s n xs = slice s ?m xs @ slice ?m n xs"
      using True by (subst slice_split) auto
    have rest: "slice ?m n xs = slice (s + c) n xs"
      by (cases "s + c \<le> n") (simp_all add: slice_def min_def)
    show ?thesis
      using True 1 by (subst range_from.simps) (simp add: split rest)
  next
    case False
    then show ?thesis by (subst range_from.simps) (simp add: slice_def)
  qed
qed

lemma chunk_cat_slice:
  assumes "0 < c" and "length xs \<le> n"
  shows "chunk_cat n c (\<lambda>a b. slice a b xs) = xs"
  using chunk_cat_slice_from [OF assms(1), of n xs 0] assms(2)
  by (simp add: chunk_cat_def slice_def)

lemma foldl_plus_scale:
  "foldl (\<lambda>acc x. acc + s * f x) (s * (a :: real)) xs = s * foldl (\<lambda>acc x. acc + f x) a xs"
proof (induction xs arbitrary: a)
  case (Cons x xs)
  then show ?case using Cons [of "a + f x"] by (simp add: distrib_left)
qed simp

lemma chunk_sum_scale: "chunk_sum n c (\<lambda>a b. s * f a b) = s * chunk_sum n c f"
  using foldl_plus_scale [of s "\<lambda>x. f x (min (x + c) n)" 0] by (simp add: chunk_sum_def)

lemma chunk_sum_neg: "chunk_sum n c (\<lambda>a b. - (s * f a b)) = - s * chunk_sum n c f"
  using chunk_sum_scale [of n c "- s" f] by simp

section \<open>Vectors\<close>

type_synonym vec = "real list"

definition vadd :: "vec \<Rightarrow> vec \<Rightarrow> vec" where
  [vec_defs]: "vadd xs ys = map2 (+) xs ys"

definition vsub :: "vec \<Rightarrow> vec \<Rightarrow> vec" where
  [vec_defs]: "vsub xs ys = map2 (-) xs ys"

definition vmul :: "vec \<Rightarrow> vec \<Rightarrow> vec" where
  [vec_defs]: "vmul xs ys = map2 (*) xs ys"

definition vscale :: "real \<Rightarrow> vec \<Rightarrow> vec" where
  [vec_defs]: "vscale c xs = map (\<lambda>x. c * x) xs"

definition vshift :: "vec \<Rightarrow> real \<Rightarrow> vec" where
  [vec_defs]: "vshift xs c = map (\<lambda>x. x - c) xs"

definition vsquare :: "vec \<Rightarrow> vec" where
  [vec_defs]: "vsquare xs = map (\<lambda>x. x * x) xs"

definition vexp :: "vec \<Rightarrow> vec" where
  [vec_defs]: "vexp xs = map exp xs"

definition vsum :: "vec \<Rightarrow> real" where
  [vec_defs]: "vsum xs = sum_list xs"

text \<open>\<open>clamp(min=0.0)\<close> and \<open>clamp(min=lo, max=hi)\<close> on one entry.\<close>

definition clamp_min :: "real \<Rightarrow> real \<Rightarrow> real" where
  "clamp_min lo x = max lo x"

definition clamp :: "real \<Rightarrow> real \<Rightarrow> real \<Rightarrow> real" where
  "clamp lo hi x = min (max x lo) hi"

lemma vec_slice [slice_simps]:
  "vadd (slice a b xs) (slice a b ys) = slice a b (vadd xs ys)"
  "vsub (slice a b xs) (slice a b ys) = slice a b (vsub xs ys)"
  "vmul (slice a b xs) (slice a b ys) = slice a b (vmul xs ys)"
  "vscale c (slice a b xs) = slice a b (vscale c xs)"
  "vshift (slice a b xs) c = slice a b (vshift xs c)"
  "vsquare (slice a b xs) = slice a b (vsquare xs)"
  "vexp (slice a b xs) = slice a b (vexp xs)"
  by (simp_all only: vec_defs slice_simps)

lemma length_vec [simp, vec_len]:
  "length (vadd xs ys) = min (length xs) (length ys)"
  "length (vsub xs ys) = min (length xs) (length ys)"
  "length (vmul xs ys) = min (length xs) (length ys)"
  "length (vscale c xs) = length xs"
  "length (vshift xs c) = length xs"
  "length (vsquare xs) = length xs"
  "length (vexp xs) = length xs"
  by (simp_all add: vec_defs)

lemma nth_vec [simp]:
  "i < length xs \<Longrightarrow> i < length ys \<Longrightarrow> vadd xs ys ! i = xs ! i + ys ! i"
  "i < length xs \<Longrightarrow> i < length ys \<Longrightarrow> vsub xs ys ! i = xs ! i - ys ! i"
  "i < length xs \<Longrightarrow> i < length ys \<Longrightarrow> vmul xs ys ! i = xs ! i * ys ! i"
  "i < length xs \<Longrightarrow> vscale c xs ! i = c * xs ! i"
  "i < length xs \<Longrightarrow> vshift xs c ! i = xs ! i - c"
  "i < length xs \<Longrightarrow> vsquare xs ! i = xs ! i * xs ! i"
  "i < length xs \<Longrightarrow> vexp xs ! i = exp (xs ! i)"
  by (simp_all add: vec_defs)

lemma vsum_nth: "vsum xs = (\<Sum>i<length xs. xs ! i)"
  by (simp add: vsum_def sum_list_sum_nth atLeast0LessThan)

lemma vsum_vmul:
  "length xs = length ys \<Longrightarrow> vsum (vmul xs ys) = (\<Sum>i<length xs. xs ! i * ys ! i)"
  by (simp add: vsum_nth)

lemma chunk_vsum_slice [simp]:
  "0 < c \<Longrightarrow> length xs \<le> n \<Longrightarrow> chunk_sum n c (\<lambda>a b. vsum (slice a b xs)) = vsum xs"
  by (simp add: vsum_def chunk_sum_slice)

lemma chunk_vsum_nth:
  "0 < c \<Longrightarrow> length xs = n \<Longrightarrow> chunk_sum n c (\<lambda>a b. vsum (slice a b xs)) = (\<Sum>k<n. xs ! k)"
  by (simp add: vsum_nth [of xs])

lemma vsum_vsub: "length xs = length ys \<Longrightarrow> vsum (vsub xs ys) = vsum xs - vsum ys"
  by (simp add: vsum_nth sum_subtractf)

lemma vsum_vadd: "length xs = length ys \<Longrightarrow> vsum (vadd xs ys) = vsum xs + vsum ys"
  by (simp add: vsum_nth sum.distrib)

lemma vsum_vscale: "vsum (vscale c xs) = c * vsum xs"
  by (simp add: vsum_nth sum_distrib_left)

lemma clamp_min_id: "lo \<le> x \<Longrightarrow> clamp_min lo x = x"
  by (simp add: clamp_min_def)

lemma clamp_min_ge: "lo \<le> clamp_min lo x"
  by (simp add: clamp_min_def)

lemma clamp_id: "lo \<le> x \<Longrightarrow> x \<le> hi \<Longrightarrow> clamp lo hi x = x"
  by (simp add: clamp_def)

lemma vec_eqI: "length xs = length ys \<Longrightarrow> (\<And>i. i < length xs \<Longrightarrow> xs ! i = ys ! i) \<Longrightarrow> xs = ys"
  by (rule nth_equalityI) auto

end
