(* ===== verification/Fisher.thy ===== *)
theory Fisher
  imports Prelude
begin

text \<open>
  The Student-local Fisher geometry that every evidence statistic of the controller uses: the
  centred bilinear form of two displacement functions under Student probabilities, restricted to
  a finite set of vocabulary coordinates (the whole vocabulary, or a selected support). The
  contract a row of probabilities offers (nonnegative entries of total mass at most one, or
  exactly one) is the interface \<open>mass_row\<close> / \<open>full_mass_row\<close>; the facts every statistic
  relies on (a variance is nonnegative, Cauchy-Schwarz, the regularised projection never raises
  the movement cost, centred alignments average to zero) are proved once inside it. The
  providers are the full Softmax row (theory \<open>Softmax\<close>) and the selected support
  (theory \<open>TopkGather\<close>).
\<close>

section \<open>Weighted moments on a set of coordinates\<close>

definition wmean :: "nat set \<Rightarrow> (nat \<Rightarrow> real) \<Rightarrow> (nat \<Rightarrow> real) \<Rightarrow> real" where
  "wmean A p f = (\<Sum>k\<in>A. p k * f k)"

definition wcov :: "nat set \<Rightarrow> (nat \<Rightarrow> real) \<Rightarrow> (nat \<Rightarrow> real) \<Rightarrow> (nat \<Rightarrow> real) \<Rightarrow> real" where
  "wcov A p f g = (\<Sum>k\<in>A. p k * f k * g k) - wmean A p f * wmean A p g"

text \<open>The residual \<open>f - alpha g\<close>, and the regularised projection coefficient.\<close>

definition resid :: "(nat \<Rightarrow> real) \<Rightarrow> real \<Rightarrow> (nat \<Rightarrow> real) \<Rightarrow> nat \<Rightarrow> real" where
  "resid f alpha g k = f k - alpha * g k"

definition ridge_coeff :: "real \<Rightarrow> real \<Rightarrow> real \<Rightarrow> real" where
  "ridge_coeff eps cov var = cov / (var + eps)"

lemma wcov_commute: "wcov A p f g = wcov A p g f"
  by (simp add: wcov_def mult_ac)

lemma wmean_resid: "wmean A p (resid f a g) = wmean A p f - a * wmean A p g"
  by (simp add: wmean_def resid_def right_diff_distrib sum_subtractf sum_distrib_left mult_ac)

lemma wcov_resid_left: "wcov A p (resid f a g) h = wcov A p f h - a * wcov A p g h"
proof -
  have "(\<Sum>k\<in>A. p k * resid f a g k * h k)
      = (\<Sum>k\<in>A. p k * f k * h k) - a * (\<Sum>k\<in>A. p k * g k * h k)"
    by (simp add: resid_def algebra_simps sum_subtractf sum_distrib_left)
  then show ?thesis
    by (simp only: wcov_def wmean_resid) (simp add: algebra_simps)
qed

lemma wcov_resid:
  "wcov A p (resid f a g) (resid f a g) = wcov A p f f - 2 * a * wcov A p f g + a * a * wcov A p g g"
  by (simp only: wcov_resid_left wcov_commute [of A p _ "resid f a g"])
    (simp add: wcov_commute [of A p g f] algebra_simps)

lemma ridge_resid_cov:
  assumes "0 \<le> var" "0 < eps"
  shows "cov - ridge_coeff eps cov var * var = cov * (eps / (var + eps))"
proof -
  have "var + eps \<noteq> 0" using assms by linarith
  then show ?thesis by (simp add: ridge_coeff_def field_simps)
qed

lemma ridge_resid_cov_le:
  assumes "0 \<le> var" "0 < eps"
  shows "\<bar>cov - ridge_coeff eps cov var * var\<bar> \<le> \<bar>cov\<bar>"
proof -
  have "\<bar>eps / (var + eps)\<bar> \<le> 1" using assms by (simp add: divide_le_eq_1)
  then have "\<bar>cov\<bar> * \<bar>eps / (var + eps)\<bar> \<le> \<bar>cov\<bar> * 1"
    by (rule mult_left_mono) simp
  then show ?thesis
    by (simp only: ridge_resid_cov [OF assms] abs_mult mult_1_right)
qed

lemma centred_square_sum:
  "(\<Sum>k\<in>A. p k * (f k - m)\<^sup>2)
    = (\<Sum>k\<in>A. p k * f k * f k) - 2 * m * (\<Sum>k\<in>A. p k * f k) + m * m * (\<Sum>k\<in>A. p k :: real)"
proof -
  have "p k * (f k - m)\<^sup>2 = p k * f k * f k - 2 * m * (p k * f k) + m * m * p k" for k
    by (simp add: power2_eq_square algebra_simps)
  then show ?thesis
    by (simp only: sum.distrib sum_subtractf sum_distrib_left [symmetric])
qed

text \<open>A quadratic that is never negative has no positive discriminant.\<close>

lemma quadratic_cs:
  fixes ff fg gg :: real
  assumes q: "\<And>a. 0 \<le> ff - 2 * a * fg + a * a * gg" and vg: "0 \<le> gg"
  shows "fg\<^sup>2 \<le> ff * gg"
proof (cases "gg = 0")
  case True
  have "fg = 0"
  proof (rule ccontr)
    assume nz: "fg \<noteq> 0"
    have "ff - 2 * ((ff + 1) / (2 * fg)) * fg = -1"
      using nz by (simp add: field_simps)
    then show False using q [of "(ff + 1) / (2 * fg)"] True by simp
  qed
  then show ?thesis using True by simp
next
  case False
  then have pos: "0 < gg" using vg by simp
  have "0 \<le> gg * (ff - 2 * (fg / gg) * fg + fg / gg * (fg / gg) * gg)"
    using q [of "fg / gg"] vg by (rule mult_nonneg_nonneg [rotated])
  also have "\<dots> = gg * ff - fg\<^sup>2"
    using pos by (simp add: field_simps power2_eq_square)
  finally show ?thesis by (simp add: mult.commute)
qed

section \<open>The interface of a probability row\<close>

locale mass_row =
  fixes supp :: "'x \<Rightarrow> nat set" and row :: "'x \<Rightarrow> nat \<Rightarrow> real" and ok :: "'x \<Rightarrow> bool"
  assumes row_nonneg: "ok x \<Longrightarrow> k \<in> supp x \<Longrightarrow> 0 \<le> row x k"
    and row_mass: "ok x \<Longrightarrow> (\<Sum>k\<in>supp x. row x k) \<le> 1"
begin

lemma var_nonneg:
  assumes "ok x"
  shows "0 \<le> wcov (supp x) (row x) f f"
proof -
  let ?A = "supp x" and ?p = "row x" and ?m = "wmean (supp x) (row x) f"
  let ?S = "\<Sum>k\<in>?A. ?p k * f k * f k"
  have "0 \<le> (\<Sum>k\<in>?A. ?p k * (f k - ?m)\<^sup>2)"
    using row_nonneg [OF assms] by (intro sum_nonneg mult_nonneg_nonneg) auto
  also have "\<dots> = ?S - 2 * ?m * (\<Sum>k\<in>?A. ?p k * f k) + ?m * ?m * (\<Sum>k\<in>?A. ?p k)"
    by (rule centred_square_sum)
  also have "\<dots> = ?S - 2 * ?m\<^sup>2 + ?m\<^sup>2 * (\<Sum>k\<in>?A. ?p k)"
    by (simp add: wmean_def [symmetric] power2_eq_square)
  also have "\<dots> \<le> ?S - 2 * ?m\<^sup>2 + ?m\<^sup>2 * 1"
    using row_mass [OF assms] by (intro add_left_mono mult_left_mono) auto
  finally show ?thesis
    by (simp add: wcov_def power2_eq_square)
qed

lemma cauchy_schwarz:
  assumes "ok x"
  shows "(wcov (supp x) (row x) f g)\<^sup>2 \<le> wcov (supp x) (row x) f f * wcov (supp x) (row x) g g"
proof (rule quadratic_cs)
  let ?B = "wcov (supp x) (row x)"
  show "0 \<le> ?B f f - 2 * a * ?B f g + a * a * ?B g g" for a
    using var_nonneg [OF assms, of "resid f a g"] by (simp add: wcov_resid)
  show "0 \<le> ?B g g" by (rule var_nonneg [OF assms])
qed

text \<open>The regularised cosine needs no clamping.\<close>

lemma cosine_bounds:
  assumes "ok x" "0 < eps"
  shows "\<bar>wcov (supp x) (row x) f g
    / sqrt ((wcov (supp x) (row x) f f + eps) * (wcov (supp x) (row x) g g + eps))\<bar> \<le> 1"
proof -
  let ?B = "wcov (supp x) (row x)"
  let ?d = "(?B f f + eps) * (?B g g + eps)"
  have v: "0 \<le> ?B f f" "0 \<le> ?B g g" using var_nonneg assms by auto
  then have d: "0 < ?d" using assms(2) by (intro mult_pos_pos) auto
  have "(?B f g)\<^sup>2 \<le> ?B f f * ?B g g" by (rule cauchy_schwarz [OF assms(1)])
  also have "\<dots> \<le> ?d" using v assms(2) by (intro mult_mono) auto
  finally have "\<bar>?B f g\<bar> \<le> sqrt ?d" by (rule real_le_rsqrt [of "\<bar>?B f g\<bar>", simplified])
  then show ?thesis using d by (simp add: abs_divide)
qed

lemma resid_var_le:
  fixes f g :: "nat \<Rightarrow> real"
  assumes "ok x" "0 < eps"
  defines "alpha \<equiv> ridge_coeff eps (wcov (supp x) (row x) f g) (wcov (supp x) (row x) g g)"
  shows "wcov (supp x) (row x) (resid f alpha g) (resid f alpha g) \<le> wcov (supp x) (row x) f f"
proof -
  let ?c = "wcov (supp x) (row x) f g" and ?v = "wcov (supp x) (row x) g g"
  have v: "0 \<le> ?v" using var_nonneg assms by auto
  then have pos: "0 < ?v + eps" using assms(2) by simp
  have "alpha * alpha * ?v \<le> alpha * alpha * (?v + eps)"
    using assms(2) by (intro mult_left_mono) auto
  also have "\<dots> = alpha * ?c"
    using pos by (simp add: alpha_def ridge_coeff_def)
  finally have "- 2 * alpha * ?c + alpha * alpha * ?v \<le> - (alpha * ?c)" by simp
  also have "\<dots> \<le> 0" using pos by (simp add: alpha_def ridge_coeff_def)
  finally show ?thesis by (simp add: wcov_resid)
qed

end

locale full_mass_row = mass_row +
  assumes row_total: "ok x \<Longrightarrow> (\<Sum>k\<in>supp x. row x k) = 1"
begin

lemma centred_mean_zero:
  assumes "ok x"
  shows "(\<Sum>k\<in>supp x. row x k * (f k - wmean (supp x) (row x) f)) = 0"
  using row_total [OF assms]
  by (simp add: right_diff_distrib sum_subtractf sum_distrib_right [symmetric])
    (simp add: wmean_def)

lemma var_centred:
  assumes "ok x"
  shows "wcov (supp x) (row x) f f
    = (\<Sum>k\<in>supp x. row x k * (f k - wmean (supp x) (row x) f)\<^sup>2)"
proof -
  let ?A = "supp x" and ?p = "row x" and ?m = "wmean (supp x) (row x) f"
  have "(\<Sum>k\<in>?A. ?p k * (f k - ?m)\<^sup>2)
    = (\<Sum>k\<in>?A. ?p k * f k * f k) - 2 * ?m * (\<Sum>k\<in>?A. ?p k * f k) + ?m * ?m * (\<Sum>k\<in>?A. ?p k)"
    by (rule centred_square_sum)
  also have "\<dots> = wcov ?A ?p f f"
    using row_total [OF assms] by (simp add: wcov_def wmean_def [symmetric])
  finally show ?thesis by simp
qed

end

section \<open>Reference statistics of a residual direction\<close>

text \<open>
  The statistics both the exact and the selected-support controllers are meant to compute: the
  residual of a task direction after the regularised projection on a nuisance direction, its
  Fisher cost, its norm and its alignment with the sampled token \<open>y\<close> scaled by the advantage.
\<close>

record fec_stats =
  fs_benefit :: real
  fs_fisher_cost :: real
  fs_displacement_norm :: real
  fs_task_norm :: real
  fs_nuisance_norm :: real
  fs_cosine :: real
  fs_projection :: real
  fs_residual_cov :: real
  fs_alignment :: real

definition fec_ref ::
  "nat set \<Rightarrow> (nat \<Rightarrow> real) \<Rightarrow> (nat \<Rightarrow> real) \<Rightarrow> (nat \<Rightarrow> real) \<Rightarrow> real \<Rightarrow> nat \<Rightarrow> real \<Rightarrow> fec_stats" where
  "fec_ref A p task nuisance eps y adv =
     (let tt = wcov A p task task; nn = wcov A p nuisance nuisance; tn = wcov A p task nuisance;
          alpha = ridge_coeff eps tn nn;
          d = resid task alpha nuisance;
          alignment = d y - wmean A p d
      in \<lparr>fs_benefit = adv * alignment, fs_fisher_cost = wcov A p d d,
          fs_displacement_norm = sqrt (\<Sum>k\<in>A. d k * d k),
          fs_task_norm = sqrt (\<Sum>k\<in>A. task k * task k),
          fs_nuisance_norm = sqrt (\<Sum>k\<in>A. nuisance k * nuisance k),
          fs_cosine = tn / sqrt ((tt + eps) * (nn + eps)),
          fs_projection = alpha, fs_residual_cov = wcov A p d nuisance,
          fs_alignment = alignment\<rparr>)"

lemma fec_ref_record:
  "fec_ref A p f g e y adv = (let R = fec_ref A p f g e y adv in
    \<lparr>fs_benefit = adv * fs_alignment R, fs_fisher_cost = fs_fisher_cost R,
     fs_displacement_norm = fs_displacement_norm R, fs_task_norm = fs_task_norm R,
     fs_nuisance_norm = fs_nuisance_norm R, fs_cosine = fs_cosine R,
     fs_projection = fs_projection R, fs_residual_cov = fs_residual_cov R,
     fs_alignment = fs_alignment R\<rparr>)"
  by (simp add: fec_ref_def Let_def)

lemma fec_ref_norms:
  "fs_displacement_norm (fec_ref A p f g e y adv)
    = (let d = resid f (fs_projection (fec_ref A p f g e y adv)) g in sqrt (\<Sum>k\<in>A. d k * d k))"
  "fs_task_norm (fec_ref A p f g e y adv) = sqrt (\<Sum>k\<in>A. f k * f k)"
  "fs_nuisance_norm (fec_ref A p f g e y adv) = sqrt (\<Sum>k\<in>A. g k * g k)"
  by (simp_all add: fec_ref_def Let_def)

lemma wmean_cong: "(\<And>k. k \<in> A \<Longrightarrow> p k = q k \<and> f k = g k) \<Longrightarrow> wmean A p f = wmean A q g"
  by (simp add: wmean_def)

lemma wcov_cong:
  "(\<And>k. k \<in> A \<Longrightarrow> p k = q k \<and> f k = f' k \<and> g k = g' k) \<Longrightarrow> wcov A p f g = wcov A q f' g'"
  unfolding wcov_def by (intro arg_cong2 [where f = minus] arg_cong2 [where f = times] wmean_cong sum.cong) auto

lemma fec_ref_cong:
  assumes "\<And>k. k \<in> A \<Longrightarrow> f k = f' k \<and> g k = g' k" "f y = f' y" "g y = g' y"
  shows "fec_ref A p f g e y adv = fec_ref A p f' g' e y adv"
proof -
  have c: "wcov A p f f = wcov A p f' f'" "wcov A p g g = wcov A p g' g'" "wcov A p f g = wcov A p f' g'"
    using assms(1) by (intro wcov_cong; simp)+
  have r: "wcov A p (resid f a g) (resid f a g) = wcov A p (resid f' a g') (resid f' a g')"
    "wcov A p (resid f a g) g = wcov A p (resid f' a g') g'"
    "wmean A p (resid f a g) = wmean A p (resid f' a g')" for a
    using assms(1) by (intro wcov_cong wmean_cong; simp add: resid_def)+
  have s: "(\<Sum>k\<in>A. resid f a g k * resid f a g k) = (\<Sum>k\<in>A. resid f' a g' k * resid f' a g' k)"
    "(\<Sum>k\<in>A. f k * f k) = (\<Sum>k\<in>A. f' k * f' k)" "(\<Sum>k\<in>A. g k * g k) = (\<Sum>k\<in>A. g' k * g' k)" for a
    using assms(1) by (intro sum.cong; simp add: resid_def)+
  show ?thesis
    using assms(2,3) by (simp add: fec_ref_def Let_def c r s) (simp add: resid_def)
qed

text \<open>Without a nuisance direction: benefit, Fisher cost and norm of the task direction.\<close>

definition disp_ref ::
  "nat set \<Rightarrow> (nat \<Rightarrow> real) \<Rightarrow> (nat \<Rightarrow> real) \<Rightarrow> nat \<Rightarrow> real \<Rightarrow> real \<times> real \<times> real" where
  "disp_ref A p task y adv =
     (adv * (task y - wmean A p task), wcov A p task task, sqrt (\<Sum>k\<in>A. task k * task k))"

text \<open>The tangent \<open>xi = F(p) r\<close> of a log-density direction \<open>r\<close>.\<close>

definition tangent :: "nat set \<Rightarrow> (nat \<Rightarrow> real) \<Rightarrow> (nat \<Rightarrow> real) \<Rightarrow> nat \<Rightarrow> real" where
  "tangent A p r k = p k * (r k - wmean A p r)"

context mass_row
begin

lemma var_clamp:
  assumes "ok x"
  shows "clamp_min 0 ((\<Sum>k\<in>supp x. row x k * (f k * f k)) - wmean (supp x) (row x) f * wmean (supp x) (row x) f)
    = wcov (supp x) (row x) f f"
  using var_nonneg [OF assms, of f] by (simp add: clamp_min_def wcov_def mult.assoc)

text \<open>What the code computes from the six moments, clamps included, is the reference.\<close>

lemma fec_moments_ref:
  fixes task nuis :: "nat \<Rightarrow> real" and adv :: real and y :: nat
  assumes "ok x" "0 < eps"
  defines "A \<equiv> supp x" and "p \<equiv> row x"
  defines "tv \<equiv> clamp_min 0 ((\<Sum>k\<in>A. p k * (task k * task k)) - wmean A p task * wmean A p task)"
    and "nv \<equiv> clamp_min 0 ((\<Sum>k\<in>A. p k * (nuis k * nuis k)) - wmean A p nuis * wmean A p nuis)"
    and "cv \<equiv> (\<Sum>k\<in>A. p k * task k * nuis k) - wmean A p task * wmean A p nuis"
  defines "al \<equiv> cv / (nv + eps)"
  defines "R \<equiv> fec_ref A p task nuis eps y adv"
  shows "al = fs_projection R"
    and "clamp_min 0 (tv - 2 * al * cv + al * al * nv) = fs_fisher_cost R"
    and "clamp (-1) 1 (cv / sqrt ((tv + eps) * (nv + eps))) = fs_cosine R"
    and "cv - al * nv = fs_residual_cov R"
    and "(task y - al * nuis y) - (wmean A p task - al * wmean A p nuis) = fs_alignment R"
proof -
  have tv: "tv = wcov A p task task" and nv: "nv = wcov A p nuis nuis"
    using var_nonneg [OF assms(1), of task] var_nonneg [OF assms(1), of nuis]
    by (simp_all add: tv_def nv_def A_def p_def clamp_min_def wcov_def mult.assoc)
  have cv: "cv = wcov A p task nuis" by (simp add: cv_def wcov_def)
  show al: "al = fs_projection R"
    by (simp add: al_def R_def fec_ref_def Let_def ridge_coeff_def cv nv)
  have "tv - 2 * al * cv + al * al * nv = wcov A p (resid task al nuis) (resid task al nuis)"
    by (simp add: wcov_resid tv nv cv)
  moreover have "0 \<le> \<dots>"
    using var_nonneg [OF assms(1)] by (simp add: A_def p_def)
  ultimately show "clamp_min 0 (tv - 2 * al * cv + al * al * nv) = fs_fisher_cost R"
    by (simp add: clamp_min_id R_def fec_ref_def Let_def al [unfolded R_def fec_ref_def Let_def])
  have "\<bar>cv / sqrt ((tv + eps) * (nv + eps))\<bar> \<le> 1"
    using cosine_bounds [OF assms(1,2), of task nuis] by (simp add: tv nv cv A_def p_def)
  then have "clamp (-1) 1 (cv / sqrt ((tv + eps) * (nv + eps))) = cv / sqrt ((tv + eps) * (nv + eps))"
    by (intro clamp_id) linarith+
  then show "clamp (-1) 1 (cv / sqrt ((tv + eps) * (nv + eps))) = fs_cosine R"
    by (simp add: R_def fec_ref_def Let_def tv nv cv)
  show "cv - al * nv = fs_residual_cov R"
    by (simp add: R_def fec_ref_def Let_def wcov_resid_left cv nv
        al [unfolded R_def fec_ref_def Let_def, simplified])
  show "(task y - al * nuis y) - (wmean A p task - al * wmean A p nuis) = fs_alignment R"
    by (simp add: R_def fec_ref_def Let_def wmean_resid resid_def
        al [unfolded R_def fec_ref_def Let_def, simplified])
qed

lemma fec_ref_bounds:
  fixes task nuis :: "nat \<Rightarrow> real" and adv :: real and y :: nat
  assumes "ok x" "0 < eps"
  defines "R \<equiv> fec_ref (supp x) (row x) task nuis eps y adv"
  shows "0 \<le> fs_fisher_cost R"
    and "fs_fisher_cost R \<le> wcov (supp x) (row x) task task"
    and "\<bar>fs_cosine R\<bar> \<le> 1"
    and "\<bar>fs_residual_cov R\<bar> \<le> \<bar>wcov (supp x) (row x) task nuis\<bar>"
proof -
  show "0 \<le> fs_fisher_cost R"
    using var_nonneg [OF assms(1)] by (simp add: R_def fec_ref_def Let_def)
  show "fs_fisher_cost R \<le> wcov (supp x) (row x) task task"
    using resid_var_le [OF assms(1,2)] by (simp add: R_def fec_ref_def Let_def)
  show "\<bar>fs_cosine R\<bar> \<le> 1"
    using cosine_bounds [OF assms(1,2)] by (simp add: R_def fec_ref_def Let_def)
  show "\<bar>fs_residual_cov R\<bar> \<le> \<bar>wcov (supp x) (row x) task nuis\<bar>"
    using ridge_resid_cov_le [OF var_nonneg [OF assms(1)] assms(2)]
    by (simp add: R_def fec_ref_def Let_def wcov_resid_left)
qed

end

end
