(* ===== verification/Softmax.thy ===== *)
theory Softmax
  imports Fisher
begin

text \<open>
  Logit tensors and the tempered Softmax of \<open>risk_aware_opsd/verpo_zpd.py\<close>. A tensor of shape
  \<open>[n_rows, seq_len, vocab]\<close> is a record of its three sizes and its \<open>n_rows * seq_len\<close>
  vocabulary rows in row-major order; a tensor of shape \<open>[n_rows, seq_len]\<close> is a \<open>tok\<close>
  record. \<open>detach\<close>, \<open>float\<close> and device moves are the identity on values.
  \<open>torch.logsumexp\<close>, \<open>torch.log_softmax\<close> and \<open>torch.logaddexp\<close> are the functions of
  the reals they document.
\<close>

section \<open>Tensors\<close>

record logits =
  lg_n :: nat
  lg_s :: nat
  lg_v :: nat
  lg_rows :: "vec list"

definition lg_shape :: "logits \<Rightarrow> nat list" where
  "lg_shape L = [lg_n L, lg_s L, lg_v L]"

definition token_shape :: "logits \<Rightarrow> nat list" where
  "token_shape L = [lg_n L, lg_s L]"

definition wf_logits :: "logits \<Rightarrow> bool" where
  "wf_logits L \<longleftrightarrow> length (lg_rows L) = lg_n L * lg_s L \<and> (\<forall>z \<in> set (lg_rows L). length z = lg_v L)"

record 'a tok =
  tk_n :: nat
  tk_s :: nat
  tk_vals :: "'a list"

definition tok_shape :: "('a, 'm) tok_scheme \<Rightarrow> nat list" where
  "tok_shape T = [tk_n T, tk_s T]"

definition wf_tok :: "('a, 'm) tok_scheme \<Rightarrow> bool" where
  "wf_tok T \<longleftrightarrow> length (tk_vals T) = tk_n T * tk_s T"

text \<open>A token tensor of the token shape of a logits tensor, one entry per position.\<close>

definition tok_of :: "logits \<Rightarrow> (nat \<Rightarrow> 'a) \<Rightarrow> 'a tok" where
  "tok_of L f = \<lparr>tk_n = lg_n L, tk_s = lg_s L, tk_vals = map f [0..<lg_n L * lg_s L]\<rparr>"

definition tok_map :: "('a \<Rightarrow> 'b) \<Rightarrow> 'a tok \<Rightarrow> 'b tok" where
  "tok_map f T = \<lparr>tk_n = tk_n T, tk_s = tk_s T, tk_vals = map f (tk_vals T)\<rparr>"

text \<open>\<open>advantages.unsqueeze(-1)\<close> broadcast to the token shape: position \<open>t\<close> is in row
  \<open>t div seq_len\<close>.\<close>

definition row_at :: "nat \<Rightarrow> 'a list \<Rightarrow> nat \<Rightarrow> 'a" where
  "row_at s xs t = xs ! (t div s)"

text \<open>\<open>tensor.gather(-1, ids)\<close> accepts indices inside the gathered axis only.\<close>

definition ids_in_range :: "nat \<Rightarrow> int list \<Rightarrow> bool" where
  "ids_in_range v ids \<longleftrightarrow> list_all (\<lambda>k. 0 \<le> k \<and> k < int v) ids"

lemma tok_of_simps [simp]:
  "tk_n (tok_of L f) = lg_n L" "tk_s (tok_of L f) = lg_s L"
  "tok_shape (tok_of L f) = token_shape L" "wf_tok (tok_of L f)"
  "length (tk_vals (tok_of L f)) = lg_n L * lg_s L"
  "t < lg_n L * lg_s L \<Longrightarrow> tk_vals (tok_of L f) ! t = f t"
  by (simp_all add: tok_of_def tok_shape_def token_shape_def wf_tok_def)

lemma tok_of_eqI:
  "(\<And>t. t < lg_n L * lg_s L \<Longrightarrow> f t = g t) \<Longrightarrow> tok_of L f = tok_of L g"
  by (simp add: tok_of_def)

lemma wf_logits_row: "wf_logits L \<Longrightarrow> t < lg_n L * lg_s L \<Longrightarrow> length (lg_rows L ! t) = lg_v L"
  by (auto simp: wf_logits_def)

lemma lg_shape_eq_iff:
  "lg_shape L = lg_shape M \<longleftrightarrow> lg_n L = lg_n M \<and> lg_s L = lg_s M \<and> lg_v L = lg_v M"
  by (auto simp: lg_shape_def)

section \<open>Softmax rows\<close>

definition logsumexp :: "vec \<Rightarrow> real" where
  "logsumexp xs = ln (vsum (vexp xs))"

definition logaddexp :: "real \<Rightarrow> real \<Rightarrow> real" where
  "logaddexp a b = ln (exp a + exp b)"

definition scaled :: "real \<Rightarrow> vec \<Rightarrow> vec" where
  "scaled scale z = map (\<lambda>x. x / scale) z"

definition log_norm :: "real \<Rightarrow> vec \<Rightarrow> real" where
  "log_norm scale z = logsumexp (scaled scale z)"

definition log_probs :: "real \<Rightarrow> vec \<Rightarrow> vec" where
  "log_probs scale z = vshift (scaled scale z) (log_norm scale z)"

definition probs :: "real \<Rightarrow> vec \<Rightarrow> vec" where
  "probs scale z = vexp (log_probs scale z)"

lemma length_softmax [simp, vec_len]:
  "length (scaled T z) = length z" "length (log_probs T z) = length z" "length (probs T z) = length z"
  by (simp_all add: scaled_def log_probs_def probs_def)

lemma nth_scaled [simp]: "i < length z \<Longrightarrow> scaled T z ! i = z ! i / T"
  by (simp add: scaled_def)

lemma nth_log_probs: "i < length z \<Longrightarrow> log_probs T z ! i = z ! i / T - log_norm T z"
  by (simp add: log_probs_def)

lemma nth_probs: "i < length z \<Longrightarrow> probs T z ! i = exp (log_probs T z ! i)"
  by (simp add: probs_def)

lemma probs_pos: "i < length z \<Longrightarrow> 0 < probs T z ! i"
  by (simp add: nth_probs)

lemma ln_probs: "i < length z \<Longrightarrow> ln (probs T z ! i) = log_probs T z ! i"
  by (simp add: nth_probs)

lemma sum_exp_pos: "z \<noteq> [] \<Longrightarrow> 0 < (\<Sum>i<length z. exp (f i :: real))"
  by (intro sum_pos) auto

lemma log_norm_sum: "log_norm T z = ln (\<Sum>i<length z. exp (z ! i / T))"
  by (simp add: log_norm_def logsumexp_def vsum_nth)

lemma exp_log_norm: "z \<noteq> [] \<Longrightarrow> exp (log_norm T z) = (\<Sum>i<length z. exp (z ! i / T))"
  by (simp add: log_norm_sum sum_exp_pos)

lemma exp_logsumexp: "xs \<noteq> [] \<Longrightarrow> exp (logsumexp xs) = vsum (vexp xs)"
  using sum_exp_pos [of xs "\<lambda>i. xs ! i"] by (simp add: logsumexp_def vsum_nth)

lemma nth_probs_quotient:
  "i < length z \<Longrightarrow> probs T z ! i = exp (z ! i / T) / (\<Sum>j<length z. exp (z ! j / T))"
proof -
  assume i: "i < length z"
  then have "z \<noteq> []" by auto
  then show ?thesis
    using i by (simp add: nth_probs nth_log_probs exp_diff exp_log_norm)
qed

lemma probs_total: "z \<noteq> [] \<Longrightarrow> vsum (probs T z) = 1"
  using sum_exp_pos [of z "\<lambda>j. z ! j / T"]
  by (simp add: vsum_nth nth_probs_quotient sum_divide_distrib [symmetric])

lemma probs_le_1: "i < length z \<Longrightarrow> probs T z ! i \<le> 1"
proof -
  assume i: "i < length z"
  then have "probs T z ! i \<le> (\<Sum>j<length z. probs T z ! j)"
    by (intro member_le_sum) (auto intro: less_imp_le [OF probs_pos])
  moreover have "(\<Sum>j<length z. probs T z ! j) = 1"
    using i probs_total [of z T] by (cases "z = []") (simp_all add: vsum_nth)
  ultimately show ?thesis by simp
qed

lemma probs_total_sum: "z \<noteq> [] \<Longrightarrow> (\<Sum>k<length z. probs T z ! k) = 1"
  using probs_total [of z T] by (simp add: vsum_nth)

interpretation softmax: full_mass_row "\<lambda>(T, z). {..<length z}" "\<lambda>(T, z) k. probs T z ! k" "\<lambda>(T, z). z \<noteq> []"
  by unfold_locales (auto simp: probs_total_sum intro: less_imp_le [OF probs_pos])

section \<open>Chunked normalisation\<close>

text \<open>\<open>_chunked_vocab_logsumexp\<close>: the loop variable \<open>log_norm\<close> starts as \<open>None\<close>.\<close>

definition chunked_vocab_logsumexp :: "logits \<Rightarrow> real \<Rightarrow> int \<Rightarrow> vec res" where
  "chunked_vocab_logsumexp L scale vocab_chunk_size =
     (if vocab_chunk_size \<le> 0 then Inl (ValueError ''vocab_chunk_size must be positive'')
      else let
        c = nat vocab_chunk_size;
        n = lg_v L;
        log_norm = foldl (\<lambda>log_norm start.
            let stop = min (start + c) n;
                chunk_log_norm = map (\<lambda>z. logsumexp (scaled scale (slice start stop z))) (lg_rows L)
            in case log_norm of
                 None \<Rightarrow> Some chunk_log_norm
               | Some acc \<Rightarrow> Some (map2 logaddexp acc chunk_log_norm))
          None (range_from 0 n c)
      in case log_norm of
           None \<Rightarrow> Inl (ValueError ''vocabulary dimension must be nonempty'')
         | Some r \<Rightarrow> Inr r)"

lemma logaddexp_logsumexp:
  assumes "xs \<noteq> []" "ys \<noteq> []"
  shows "logaddexp (logsumexp xs) (logsumexp ys) = logsumexp (xs @ ys)"
proof -
  have "0 < vsum (vexp xs)" "0 < vsum (vexp ys)"
    using assms by (simp_all add: vsum_nth sum_exp_pos)
  then show ?thesis
    by (simp add: logaddexp_def logsumexp_def vsum_def vexp_def)
qed

lemma scaled_slice: "scaled T (slice a b z) = slice a b (scaled T z)"
  by (simp add: scaled_def slice_map)

lemma slice_nonempty: "a < b \<Longrightarrow> b \<le> length z \<Longrightarrow> slice a b z \<noteq> []"
  by (auto simp: slice_def)

lemma lse_chunk_step:
  assumes "0 < s" "s < e" "e \<le> n" "\<forall>z \<in> set rows. length z = n"
  shows "map2 logaddexp (map (\<lambda>z. logsumexp (scaled T (slice 0 s z))) rows)
      (map (\<lambda>z. logsumexp (scaled T (slice s e z))) rows)
    = map (\<lambda>z. logsumexp (scaled T (slice 0 e z))) rows"
proof (rule nth_equalityI)
  fix i assume "i < length (map2 logaddexp (map (\<lambda>z. logsumexp (scaled T (slice 0 s z))) rows)
      (map (\<lambda>z. logsumexp (scaled T (slice s e z))) rows))"
  then have i: "i < length rows" by simp
  then have "length (rows ! i) = n" using assms(4) by auto
  then have "slice 0 s (scaled T (rows ! i)) \<noteq> []" "slice s e (scaled T (rows ! i)) \<noteq> []"
    using assms by (intro slice_nonempty; simp)+
  then show "map2 logaddexp (map (\<lambda>z. logsumexp (scaled T (slice 0 s z))) rows)
      (map (\<lambda>z. logsumexp (scaled T (slice s e z))) rows) ! i
    = map (\<lambda>z. logsumexp (scaled T (slice 0 e z))) rows ! i"
    using i assms by (simp add: scaled_slice logaddexp_logsumexp slice_split)
qed simp

lemma lse_loop:
  assumes "0 < c" "s \<le> n" "\<forall>z \<in> set rows. length z = n" "0 < s"
  shows "foldl (\<lambda>log_norm start.
            let stop = min (start + c) n;
                chunk_log_norm = map (\<lambda>z. logsumexp (scaled T (slice start stop z))) rows
            in case log_norm of
                 None \<Rightarrow> Some chunk_log_norm
               | Some acc \<Rightarrow> Some (map2 logaddexp acc chunk_log_norm))
          (Some (map (\<lambda>z. logsumexp (scaled T (slice 0 s z))) rows)) (range_from s n c)
    = Some (map (\<lambda>z. logsumexp (scaled T (slice 0 n z))) rows)"
  using assms
proof (induction s n c rule: range_from.induct)
  case (1 s n c)
  show ?case
  proof (cases "s < n")
    case True
    let ?m = "min (s + c) n"
    have step: "map2 logaddexp (map (\<lambda>z. logsumexp (scaled T (slice 0 s z))) rows)
        (map (\<lambda>z. logsumexp (scaled T (slice s ?m z))) rows)
      = map (\<lambda>z. logsumexp (scaled T (slice 0 ?m z))) rows"
      using 1 True by (intro lse_chunk_step [where n = n]) auto
    show ?thesis
    proof (cases "s + c \<le> n")
      case True2: True
      then show ?thesis
        using 1 True step by (subst range_from.simps) (simp add: Let_def min_def)
    next
      case False
      then have m: "?m = n" by simp
      from False have "range_from (s + c) n c = []" by (subst range_from.simps) simp
      then show ?thesis
        using 1 True step [unfolded m] by (subst range_from.simps) (simp add: Let_def m)
    qed
  next
    case False
    then show ?thesis using 1 by (subst range_from.simps) simp
  qed
qed

lemma chunked_vocab_logsumexp_eq:
  assumes "wf_logits L" "0 < lg_v L" "0 < c"
  shows "chunked_vocab_logsumexp L scale c = Inr (map (log_norm scale) (lg_rows L))"
proof -
  let ?c = "nat c" and ?n = "lg_v L"
  have rows: "\<forall>z \<in> set (lg_rows L). length z = ?n" using assms(1) by (simp add: wf_logits_def)
  have full: "map (\<lambda>z. logsumexp (scaled scale (slice 0 ?n z))) (lg_rows L)
      = map (log_norm scale) (lg_rows L)"
    using rows by (auto simp: log_norm_def slice_def)
  have first: "range_from 0 ?n ?c = 0 # range_from ?c ?n ?c"
    using assms by (subst range_from.simps) simp
  show ?thesis
  proof (cases "?c \<le> ?n")
    case True
    then show ?thesis
      using assms lse_loop [of ?c ?c ?n "lg_rows L" scale] rows full
      by (simp add: chunked_vocab_logsumexp_def first Let_def)
  next
    case False
    then have "range_from ?c ?n ?c = []" by (subst range_from.simps) simp
    then show ?thesis
      using assms full False by (simp add: chunked_vocab_logsumexp_def first Let_def)
  qed
qed

text \<open>The slices \<open>logits[..., a:b].float() / scale - log_norm\<close> of a chunk.\<close>

definition log_probs_chunk :: "real \<Rightarrow> real \<Rightarrow> vec \<Rightarrow> nat \<Rightarrow> nat \<Rightarrow> vec" where
  "log_probs_chunk scale lnz z a b = vshift (scaled scale (slice a b z)) lnz"

lemma log_probs_chunk_slice [slice_simps]:
  "log_probs_chunk T (log_norm T z) z a b = slice a b (log_probs T z)"
  by (simp add: log_probs_chunk_def log_probs_def scaled_slice vec_slice)

lemma vexp_log_probs [simp]: "vexp (log_probs T z) = probs T z"
  by (simp add: probs_def)

text \<open>A gathered entry of the same normalised row.\<close>

definition log_prob_at :: "real \<Rightarrow> real \<Rightarrow> vec \<Rightarrow> nat \<Rightarrow> real" where
  "log_prob_at scale lnz z k = z ! k / scale - lnz"

lemma log_prob_at_eq: "k < length z \<Longrightarrow> log_prob_at T (log_norm T z) z k = log_probs T z ! k"
  by (simp add: log_prob_at_def nth_log_probs)

section \<open>Marginalised Teachers\<close>

text \<open>\<open>marginalize_teacher_logits\<close>: a tensor of shape \<open>[K, n_rows, seq_len, vocab]\<close> is the
  list of its \<open>K\<close> logits tensors (its rank is at least two by construction).\<close>

definition marginalize_row :: "real \<Rightarrow> vec list \<Rightarrow> vec" where
  "marginalize_row scale zs =
     map (\<lambda>v. (logsumexp (map (\<lambda>z. log_probs scale z ! v) zs) - ln (real (length zs))) * scale)
       [0..<length (hd zs)]"

definition marginalize_teacher_logits :: "logits list \<Rightarrow> real \<Rightarrow> logits res" where
  "marginalize_teacher_logits Ls temperature =
     (case Ls of
        [] \<Rightarrow> Inl (ValueError ''teacher_logits must include at least one Teacher'')
      | L # _ \<Rightarrow>
          if temperature \<le> 0 then Inl (ValueError ''temperature must be positive'')
          else Inr \<lparr>lg_n = lg_n L, lg_s = lg_s L, lg_v = lg_v L,
                lg_rows = map (\<lambda>t. marginalize_row temperature (map (\<lambda>M. lg_rows M ! t) Ls))
                  [0..<lg_n L * lg_s L]\<rparr>)"

lemma marginalize_row_log:
  assumes "zs \<noteq> []" "T \<noteq> 0" "v < length (hd zs)" "\<forall>z \<in> set zs. length z = length (hd zs)"
  shows "exp (marginalize_row T zs ! v / T) = (\<Sum>z\<leftarrow>zs. probs T z ! v) / real (length zs)"
proof -
  have vz: "\<forall>z \<in> set zs. v < length z"
    using assms(3,4) by metis
  have "vexp (map (\<lambda>z. log_probs T z ! v) zs) = map (\<lambda>z. probs T z ! v) zs"
    using vz by (simp add: nth_probs vexp_def)
  then have lse: "exp (logsumexp (map (\<lambda>z. log_probs T z ! v) zs)) = (\<Sum>z\<leftarrow>zs. probs T z ! v)"
    using assms(1) by (simp add: exp_logsumexp vsum_def)
  have "marginalize_row T zs ! v / T
      = logsumexp (map (\<lambda>z. log_probs T z ! v) zs) - ln (real (length zs))"
    using assms(2,3) by (simp add: marginalize_row_def)
  then show ?thesis
    using assms(1) by (simp add: exp_diff lse)
qed

end
