(* ===== verification/TopkSupport.thy ===== *)
theory TopkSupport
  imports Softmax
begin

text \<open>
  The truncated vocabulary support of \<open>risk_aware_opsd/verpo_topk.py\<close>: validation of the
  vocabulary configuration, the sorted union of the sources' Top-K coordinates and the sampled
  token with duplicates masked, the gather of full-Softmax log-probabilities on that support,
  masked sums and the retained mass. \<open>torch.topk\<close> is a parameter of the model; the interface
  \<open>topk_select\<close> states what its documentation promises and leaves ties open.
\<close>

section \<open>Vocabulary configuration\<close>

text \<open>The values \<open>top_k: object\<close> can take: the booleans, the (Python or NumPy) integers, a
  zero-dimensional integral CPU tensor, \<open>None\<close>, and everything else. The f-string of an error
  message is modelled by its fixed part.\<close>

datatype top_k_arg = TkBool bool | TkInt int | TkCpuScalar int | TkNone | TkOther

definition bad_top_k :: err where
  "bad_top_k = ValueError ''top_k must be a positive integer''"

fun validated_top_k :: "top_k_arg \<Rightarrow> nat res" where
  "validated_top_k (TkBool b) = Inl bad_top_k"
| "validated_top_k (TkInt k) = (if k \<le> 0 then Inl bad_top_k else Inr (nat k))"
| "validated_top_k (TkCpuScalar k) = (if k \<le> 0 then Inl bad_top_k else Inr (nat k))"
| "validated_top_k TkNone = Inl bad_top_k"
| "validated_top_k TkOther = Inl bad_top_k"

definition validate_verpo_vocab_config :: "string \<Rightarrow> top_k_arg \<Rightarrow> unit res" where
  "validate_verpo_vocab_config vocab_mode top_k =
     (if vocab_mode \<noteq> ''full'' \<and> vocab_mode \<noteq> ''topk_truncated''
      then Inl (ValueError ''vocab_mode must be one of full, topk_truncated'')
      else rbind (validated_top_k top_k) (\<lambda>_. Inr ()))"

definition should_use_full_vocab :: "string \<Rightarrow> top_k_arg \<Rightarrow> nat \<Rightarrow> bool res" where
  "should_use_full_vocab vocab_mode top_k vocab_size =
     rbind (validate_verpo_vocab_config vocab_mode top_k) (\<lambda>_.
       if vocab_size = 0 then Inl (ValueError ''vocab_size must be positive'')
       else if vocab_mode = ''full'' then Inr True
       else rbind (validated_top_k top_k) (\<lambda>k. Inr (vocab_size \<le> k)))"

lemma validated_top_k_pos: "validated_top_k a = Inr k \<Longrightarrow> 0 < k"
  by (cases a) (auto split: if_splits)

lemma should_use_full_vocab_Inr:
  "should_use_full_vocab mode a v = Inr b \<Longrightarrow> 0 < v"
  by (auto simp: should_use_full_vocab_def split: if_splits)

section \<open>The interface of torch.topk\<close>

locale topk_select =
  fixes topk :: "nat \<Rightarrow> vec \<Rightarrow> nat list"
  assumes topk_length: "k \<le> length z \<Longrightarrow> length (topk k z) = k"
    and topk_distinct: "k \<le> length z \<Longrightarrow> distinct (topk k z)"
    and topk_range: "k \<le> length z \<Longrightarrow> i \<in> set (topk k z) \<Longrightarrow> i < length z"
    and topk_largest: "k \<le> length z \<Longrightarrow> i \<in> set (topk k z) \<Longrightarrow> j < length z
      \<Longrightarrow> j \<notin> set (topk k z) \<Longrightarrow> z ! j \<le> z ! i"
begin

lemma topk_all: "set (topk (length z) z) = {..<length z}"
proof (rule card_subset_eq)
  show "set (topk (length z) z) \<subseteq> {..<length z}"
    using topk_range [of "length z" z] by auto
  show "card (set (topk (length z) z)) = card {..<length z}"
    by (simp add: distinct_card topk_distinct topk_length)
qed simp

end

definition topk_by_sort :: "nat \<Rightarrow> vec \<Rightarrow> nat list" where
  "topk_by_sort k z = take k (sort_key (\<lambda>i. - (z ! i)) [0..<length z])"

interpretation topk_sort: topk_select topk_by_sort
proof
  fix k i j and z :: vec
  assume k: "k \<le> length z"
  let ?s = "sort_key (\<lambda>i. - (z ! i)) [0..<length z]"
  show "length (topk_by_sort k z) = k" "distinct (topk_by_sort k z)"
    using k by (simp_all add: topk_by_sort_def)
  assume i: "i \<in> set (topk_by_sort k z)"
  then show "i < length z" by (auto simp: topk_by_sort_def dest: in_set_takeD)
  assume j: "j < length z" "j \<notin> set (topk_by_sort k z)"
  have "set (take k ?s) \<union> set (drop k ?s) = {..<length z}"
    by (simp add: set_append [symmetric] atLeast0LessThan del: set_append)
  then have "j \<in> set (drop k ?s)" using j by (auto simp: topk_by_sort_def)
  moreover have "sorted (map (\<lambda>i. - (z ! i)) (take k ?s @ drop k ?s))"
    by (simp del: map_append)
  ultimately show "z ! j \<le> z ! i"
    using i unfolding map_append sorted_append by (auto simp: topk_by_sort_def)
qed

section \<open>Building the support\<close>

record token_ids = "int tok" +
  ids_long :: bool

record support =
  sp_n :: nat
  sp_s :: nat
  sp_w :: nat
  sp_ids :: "nat list list"
  sp_valid :: "bool list list"

definition sp_shape :: "support \<Rightarrow> nat list" where
  "sp_shape S = [sp_n S, sp_s S, sp_w S]"

definition sp_token_shape :: "support \<Rightarrow> nat list" where
  "sp_token_shape S = [sp_n S, sp_s S]"

text \<open>One position: candidates of every source, the sampled ID once, sorted; an entry equal to
  its left neighbour is invalid and its ID is replaced by 0.\<close>

definition new_flags :: "'a list \<Rightarrow> bool list" where
  "new_flags xs = (case xs of [] \<Rightarrow> [] | _ \<Rightarrow> True # map2 (\<noteq>) (tl xs) (butlast xs))"

definition where_else :: "'a \<Rightarrow> bool list \<Rightarrow> 'a list \<Rightarrow> 'a list" where
  "where_else d valid xs = map2 (\<lambda>v x. if v then x else d) valid xs"

definition support_row :: "(nat \<Rightarrow> vec \<Rightarrow> nat list) \<Rightarrow> nat \<Rightarrow> vec list \<Rightarrow> nat \<Rightarrow> nat list \<times> bool list" where
  "support_row topk k sources y =
     (let sorted_ids = sort (concat (map (topk k) sources) @ [y]);
          valid_mask = new_flags sorted_ids
      in (where_else 0 valid_mask sorted_ids, valid_mask))"

definition build_truncated_topk_support ::
  "(nat \<Rightarrow> vec \<Rightarrow> nat list) \<Rightarrow> logits list \<Rightarrow> token_ids \<Rightarrow> top_k_arg \<Rightarrow> logits option \<Rightarrow> support res" where
  "build_truncated_topk_support topk teacher_logits sampled_token_ids top_k student_logits =
     (case teacher_logits of
        [] \<Rightarrow> Inl (ValueError ''teacher_logits must contain at least one tensor'')
      | first # _ \<Rightarrow>
        rbind (validated_top_k top_k) (\<lambda>top_k_value.
          if lg_v first = 0
          then Inl (ValueError ''teacher_logits must have a non-empty vocabulary dimension'')
          else if \<not> list_all (\<lambda>L. lg_shape L = lg_shape first) teacher_logits
          then Inl (ValueError ''teacher_logits tensors must have identical shapes'')
          else if (case student_logits of None \<Rightarrow> False | Some S \<Rightarrow> lg_shape S \<noteq> lg_shape first)
          then Inl (ValueError ''student_logits must match teacher_logits shape'')
          else if tok_shape sampled_token_ids \<noteq> token_shape first
          then Inl (ValueError ''sampled_token_ids must match the logits token dimensions'')
          else if \<not> ids_long sampled_token_ids
          then Inl (ValueError ''sampled_token_ids must have dtype torch.long'')
          else if list_ex (\<lambda>y. y < 0 \<or> int (lg_v first) \<le> y) (tk_vals sampled_token_ids)
          then Inl (ValueError ''sampled_token_ids must contain vocabulary IDs'')
          else let
            sources = teacher_logits @ (case student_logits of None \<Rightarrow> [] | Some S \<Rightarrow> [S]);
            source_top_k = min top_k_value (lg_v first);
            rows = map (\<lambda>t. support_row topk source_top_k (map (\<lambda>L. lg_rows L ! t) sources)
                (nat (tk_vals sampled_token_ids ! t))) [0..<lg_n first * lg_s first]
          in Inr \<lparr>sp_n = lg_n first, sp_s = lg_s first,
               sp_w = length sources * source_top_k + 1,
               sp_ids = map fst rows, sp_valid = map snd rows\<rparr>))"

text \<open>The valid coordinates of one position.\<close>

definition valid_ids :: "nat list \<Rightarrow> bool list \<Rightarrow> nat list" where
  "valid_ids ids valid = map fst (filter snd (zip ids valid))"

definition support_ok :: "nat \<Rightarrow> nat list \<Rightarrow> bool list \<Rightarrow> bool" where
  "support_ok n ids valid \<longleftrightarrow> length ids = length valid \<and> distinct (valid_ids ids valid)
     \<and> set (valid_ids ids valid) \<subseteq> {..<n}"

lemma length_new_flags [simp, vec_len]: "length (new_flags xs) = length xs"
  by (cases xs) (simp_all add: new_flags_def)

lemma length_where_else [simp, vec_len]: "length (where_else d v xs) = min (length v) (length xs)"
  by (simp add: where_else_def)

lemma nth_where_else [simp]:
  "i < length v \<Longrightarrow> i < length xs \<Longrightarrow> where_else d v xs ! i = (if v ! i then xs ! i else d)"
  by (simp add: where_else_def)

lemma new_flags_Cons:
  "new_flags (x # xs) = True # (case xs of [] \<Rightarrow> [] | y # _ \<Rightarrow> (y \<noteq> x) # tl (new_flags xs))"
  by (cases xs) (simp_all add: new_flags_def)

lemma valid_ids_where_else: "valid_ids (where_else 0 v xs) v = valid_ids xs v"
  unfolding valid_ids_def where_else_def
proof (induction xs arbitrary: v)
  case (Cons x xs)
  then show ?case by (cases v) auto
qed simp

lemma valid_ids_Cons: "valid_ids (x # xs) (v # vs) = (if v then x # valid_ids xs vs else valid_ids xs vs)"
  by (simp add: valid_ids_def)

lemma valid_ids_Nil [simp]: "valid_ids [] vs = []" "valid_ids xs [] = []"
  by (simp_all add: valid_ids_def)

lemma valid_ids_new_flags: "valid_ids xs (new_flags xs) = remdups_adj xs"
proof (induction xs rule: remdups_adj.induct)
  case (3 x y xs)
  obtain fs where fs: "new_flags (y # xs) = True # fs" by (auto simp: new_flags_Cons)
  then have "new_flags (x # y # xs) = True # (y \<noteq> x) # fs"
    by (simp add: new_flags_Cons [of x])
  then show ?case
    using 3 fs by (cases "x = y") (auto simp: valid_ids_Cons)
qed (simp_all add: new_flags_def valid_ids_Cons)

lemma support_row_valid:
  assumes "support_row topk k sources y = (ids, valid)"
  shows "length ids = length valid"
    and "valid_ids ids valid = remdups_adj (sort (concat (map (topk k) sources) @ [y]))"
    and "length valid = length (concat (map (topk k) sources)) + 1"
  using assms
  by (auto simp: support_row_def Let_def valid_ids_where_else valid_ids_new_flags)

lemma distinct_remdups_adj_sorted: "sorted xs \<Longrightarrow> distinct (remdups_adj (xs :: nat list))"
  by (induction xs rule: remdups_adj.induct) fastforce+

lemma support_row_ok:
  assumes "topk_select topk" "k \<le> n" "\<forall>z \<in> set sources. length z = n" "y < n"
    and "support_row topk k sources y = (ids, valid)"
  shows "support_ok n ids valid"
    and "set (valid_ids ids valid) = insert y (\<Union>z \<in> set sources. set (topk k z))"
    and "length valid = length sources * k + 1"
proof -
  note row = support_row_valid [OF assms(5)]
  have range: "set (topk k z) \<subseteq> {..<n}" if "z \<in> set sources" for z
    using topk_select.topk_range [OF assms(1)] assms(2,3) that by force
  have len: "length (topk k z) = k" if "z \<in> set sources" for z
    using topk_select.topk_length [OF assms(1)] assms(2,3) that by simp
  show set: "set (valid_ids ids valid) = insert y (\<Union>z \<in> set sources. set (topk k z))"
    by (simp add: row(2))
  have "distinct (valid_ids ids valid)"
    unfolding row(2) by (rule distinct_remdups_adj_sorted) simp
  then show "support_ok n ids valid"
    using row(1) range assms(4) by (auto simp: support_ok_def set)
  have "map length (map (topk k) sources) = map (\<lambda>_. k) sources"
    using len by simp
  then have "length (concat (map (topk k) sources)) = length sources * k"
    by (simp only: length_concat) (simp add: map_replicate_const sum_list_replicate)
  then show "length valid = length sources * k + 1"
    by (simp add: row(3))
qed


text \<open>What \<open>build_truncated_topk_support\<close> guarantees.\<close>

definition wf_support :: "nat \<Rightarrow> support \<Rightarrow> bool" where
  "wf_support v S \<longleftrightarrow> length (sp_ids S) = sp_n S * sp_s S \<and> length (sp_valid S) = sp_n S * sp_s S
     \<and> (\<forall>t < sp_n S * sp_s S. support_ok v (sp_ids S ! t) (sp_valid S ! t)
          \<and> length (sp_valid S ! t) = sp_w S)"

lemma build_support_spec:
  assumes topk: "topk_select topk"
    and build: "build_truncated_topk_support topk (L # Ls) y top_k student = Inr S"
    and wf: "\<forall>M \<in> set (L # Ls) \<union> set_option student. wf_logits M"
    and wfy: "wf_tok y"
  shows "wf_support (lg_v L) S" and "sp_token_shape S = token_shape L"
    and "0 < lg_v L"
    and "\<And>t. t < lg_n L * lg_s L \<Longrightarrow>
      set (valid_ids (sp_ids S ! t) (sp_valid S ! t)) = insert (nat (tk_vals y ! t))
        (\<Union>M \<in> set (L # Ls) \<union> set_option student.
          set (topk (min (case validated_top_k top_k of Inl e \<Rightarrow> 0 | Inr k \<Rightarrow> k) (lg_v L)) (lg_rows M ! t)))"
    and "\<And>t. t < lg_n L * lg_s L \<Longrightarrow> 0 \<le> tk_vals y ! t \<and> tk_vals y ! t < int (lg_v L)"
    and "length (tk_vals y) = lg_n L * lg_s L"
    and "\<And>M. M \<in> set (L # Ls) \<union> set_option student \<Longrightarrow> lg_shape M = lg_shape L"
proof -
  obtain k where k: "validated_top_k top_k = Inr k"
    using build by (auto simp: build_truncated_topk_support_def)
  define srcs where "srcs = (L # Ls) @ (case student of None \<Rightarrow> [] | Some M \<Rightarrow> [M])"
  define kk where "kk = min k (lg_v L)"
  define rows where "rows = map (\<lambda>t. support_row topk kk (map (\<lambda>L. lg_rows L ! t) srcs)
                (nat (tk_vals y ! t))) [0..<lg_n L * lg_s L]"
  have set_srcs: "set srcs = set (L # Ls) \<union> set_option student"
    by (cases student) (auto simp: srcs_def)
  have checks: "0 < lg_v L" "\<forall>M \<in> set (L # Ls). lg_shape M = lg_shape L"
      "case student of None \<Rightarrow> True | Some M \<Rightarrow> lg_shape M = lg_shape L"
      "tok_shape y = token_shape L"
      "\<forall>k \<in> set (tk_vals y). 0 \<le> k \<and> k < int (lg_v L)"
    using build
    by (auto simp: build_truncated_topk_support_def k list_all_iff list_ex_iff Let_def not_less not_le
        split: if_splits option.splits)
  have S: "S = \<lparr>sp_n = lg_n L, sp_s = lg_s L, sp_w = length srcs * kk + 1,
      sp_ids = map fst rows, sp_valid = map snd rows\<rparr>"
    using build
    by (auto simp: build_truncated_topk_support_def k Let_def srcs_def kk_def rows_def
        split: if_splits option.splits)
  show shapes: "lg_shape M = lg_shape L" if "M \<in> set (L # Ls) \<union> set_option student" for M
    using that checks(2,3) by (cases student) auto
  show leny: "length (tk_vals y) = lg_n L * lg_s L"
    using wfy checks(4) by (simp add: wf_tok_def tok_shape_def token_shape_def)
  show y: "0 \<le> tk_vals y ! t \<and> tk_vals y ! t < int (lg_v L)" if "t < lg_n L * lg_s L" for t
    using checks(5) that leny by simp
  have row: "support_ok (lg_v L) (fst (rows ! t)) (snd (rows ! t))"
      "set (valid_ids (fst (rows ! t)) (snd (rows ! t)))
        = insert (nat (tk_vals y ! t)) (\<Union>M \<in> set srcs. set (topk kk (lg_rows M ! t)))"
      "length (snd (rows ! t)) = length srcs * kk + 1"
    if t: "t < lg_n L * lg_s L" for t
  proof -
    have "length (lg_rows M ! t) = lg_v L" if "M \<in> set srcs" for M
      using shapes [of M] wf that t by (auto simp: set_srcs lg_shape_eq_iff wf_logits_row)
    then have len: "\<forall>z \<in> set (map (\<lambda>L. lg_rows L ! t) srcs). length z = lg_v L" by auto
    have eq: "support_row topk kk (map (\<lambda>L. lg_rows L ! t) srcs) (nat (tk_vals y ! t))
        = (fst (rows ! t), snd (rows ! t))"
      using t by (simp add: rows_def)
    have yt: "nat (tk_vals y ! t) < lg_v L" using y [OF t] by linarith
    show "support_ok (lg_v L) (fst (rows ! t)) (snd (rows ! t))"
      "set (valid_ids (fst (rows ! t)) (snd (rows ! t)))
        = insert (nat (tk_vals y ! t)) (\<Union>M \<in> set srcs. set (topk kk (lg_rows M ! t)))"
      "length (snd (rows ! t)) = length srcs * kk + 1"
      using support_row_ok [OF topk _ len yt eq] by (simp_all add: kk_def)
  qed
  show "wf_support (lg_v L) S"
    using row by (auto simp: wf_support_def S rows_def)
  show "sp_token_shape S = token_shape L" by (simp add: sp_token_shape_def token_shape_def S)
  show "0 < lg_v L" by (rule checks(1))
  show "set (valid_ids (sp_ids S ! t) (sp_valid S ! t)) = insert (nat (tk_vals y ! t))
        (\<Union>M \<in> set (L # Ls) \<union> set_option student.
          set (topk (min (case validated_top_k top_k of Inl e \<Rightarrow> 0 | Inr k \<Rightarrow> k) (lg_v L)) (lg_rows M ! t)))"
    if "t < lg_n L * lg_s L" for t
    using row(2) [OF that] that by (simp only: set_srcs) (simp add: S k kk_def rows_def)
qed

end
