(* ===== verification/TopkGather.thy ===== *)
theory TopkGather
  imports TopkSupport
begin

text \<open>
  Reading a logits tensor on a truncated support (\<open>risk_aware_opsd/verpo_topk.py\<close>): the
  full-vocabulary normalisation, the gather of selected log-probabilities, masked sums, the
  retained mass, the index of the sampled token and the support diagnostics. The lemmas reduce a
  masked sum over the fixed-width row to a sum over the set of selected coordinates, and
  interpret the interface \<open>mass_row\<close> for the masked Student row.
\<close>

section \<open>Tensor operations\<close>

definition lg_map :: "(vec \<Rightarrow> vec) \<Rightarrow> logits \<Rightarrow> logits" where
  "lg_map f A = A\<lparr>lg_rows := map f (lg_rows A)\<rparr>"

definition lg_map2 :: "(vec \<Rightarrow> vec \<Rightarrow> vec) \<Rightarrow> logits \<Rightarrow> logits \<Rightarrow> logits" where
  "lg_map2 f A B = A\<lparr>lg_rows := map2 f (lg_rows A) (lg_rows B)\<rparr>"

lemma lg_map_simps [simp]:
  "lg_shape (lg_map f A) = lg_shape A" "token_shape (lg_map f A) = token_shape A"
  "lg_n (lg_map f A) = lg_n A" "lg_s (lg_map f A) = lg_s A" "lg_v (lg_map f A) = lg_v A"
  "length (lg_rows (lg_map f A)) = length (lg_rows A)"
  "t < length (lg_rows A) \<Longrightarrow> lg_rows (lg_map f A) ! t = f (lg_rows A ! t)"
  by (simp_all add: lg_map_def lg_shape_def token_shape_def)

lemma lg_map2_simps [simp]:
  "lg_shape (lg_map2 f2 A B) = lg_shape A" "token_shape (lg_map2 f2 A B) = token_shape A"
  "lg_n (lg_map2 f2 A B) = lg_n A" "lg_s (lg_map2 f2 A B) = lg_s A" "lg_v (lg_map2 f2 A B) = lg_v A"
  "length (lg_rows (lg_map2 f2 A B)) = min (length (lg_rows A)) (length (lg_rows B))"
  "t < length (lg_rows A) \<Longrightarrow> t < length (lg_rows B) \<Longrightarrow>
    lg_rows (lg_map2 f2 A B) ! t = f2 (lg_rows A ! t) (lg_rows B ! t)"
  by (simp_all add: lg_map2_def lg_shape_def token_shape_def)

section \<open>Normalisation and gather\<close>

record softmax_normalization =
  sn_scaled :: logits
  sn_log_z :: vec

definition full_softmax_normalization :: "logits \<Rightarrow> real \<Rightarrow> softmax_normalization res" where
  "full_softmax_normalization L temperature =
     (if temperature \<le> 0 then Inl (ValueError ''temperature must be positive and finite'')
      else if lg_v L = 0
      then Inl (ValueError ''logits must have a non-empty vocabulary dimension'')
      else let scaled_logits = lg_map (scaled temperature) L
      in Inr \<lparr>sn_scaled = scaled_logits, sn_log_z = map logsumexp (lg_rows scaled_logits)\<rparr>)"

definition gather_row :: "vec \<Rightarrow> real \<Rightarrow> nat list \<Rightarrow> bool list \<Rightarrow> vec" where
  "gather_row z log_z ids valid =
     (let safe_token_ids = where_else 0 valid ids;
          selected = map (\<lambda>k. z ! k - log_z) safe_token_ids
      in where_else 0 valid selected)"

definition gather_from_normalization :: "softmax_normalization \<Rightarrow> support \<Rightarrow> logits res" where
  "gather_from_normalization nz S =
     (let scaled_logits = sn_scaled nz in
      if sp_token_shape S \<noteq> token_shape scaled_logits
      then Inl (ValueError ''support must match the logits token dimensions'')
      else if list_ex (\<lambda>(ids, valid). list_ex (\<lambda>(k, v). v \<and> lg_v scaled_logits \<le> k) (zip ids valid))
        (zip (sp_ids S) (sp_valid S))
      then Inl (ValueError ''support token_ids must be valid vocabulary IDs'')
      else Inr \<lparr>lg_n = sp_n S, lg_s = sp_s S, lg_v = sp_w S,
        lg_rows = map (\<lambda>t. gather_row (lg_rows scaled_logits ! t) (sn_log_z nz ! t)
          (sp_ids S ! t) (sp_valid S ! t)) [0..<sp_n S * sp_s S]\<rparr>)"

definition gather_full_softmax_log_probs :: "logits \<Rightarrow> support \<Rightarrow> real \<Rightarrow> logits res" where
  "gather_full_softmax_log_probs L S temperature =
     rbind (full_softmax_normalization L temperature) (\<lambda>nz. gather_from_normalization nz S)"

text \<open>\<open>_selected_log_probs\<close> and \<open>_selected_log_probs_from_normalization\<close>: detaching keeps
  the values.\<close>

definition selected_log_probs :: "logits \<Rightarrow> support \<Rightarrow> real \<Rightarrow> bool \<Rightarrow> logits res" where
  "selected_log_probs L S temperature detach =
     rbind (gather_full_softmax_log_probs L S temperature)
       (\<lambda>values. Inr (if detach then values else values))"

definition selected_log_probs_from_normalization ::
  "softmax_normalization \<Rightarrow> support \<Rightarrow> bool \<Rightarrow> logits res" where
  "selected_log_probs_from_normalization nz S detach =
     rbind (gather_from_normalization nz S) (\<lambda>values. Inr (if detach then values else values))"

definition masked_sum :: "logits \<Rightarrow> support \<Rightarrow> real tok res" where
  "masked_sum values S =
     (if lg_shape values \<noteq> sp_shape S
      then Inl (ValueError ''values must match the support shape'')
      else Inr (tok_of values (\<lambda>t. vsum (where_else 0 (sp_valid S ! t) (lg_rows values ! t)))))"

definition support_mass :: "logits \<Rightarrow> support \<Rightarrow> real tok res" where
  "support_mass selected S = masked_sum (lg_map vexp selected) S"

text \<open>\<open>matches.any(dim=-1)\<close> and the first matching column.\<close>

definition match_flags :: "nat list \<Rightarrow> bool list \<Rightarrow> int \<Rightarrow> bool list" where
  "match_flags ids valid y = map2 (\<lambda>v k. v \<and> y = int k) valid ids"

fun argmax_flags :: "bool list \<Rightarrow> nat" where
  "argmax_flags [] = 0"
| "argmax_flags (b # bs) = (if b \<or> True \<notin> set bs then 0 else Suc (argmax_flags bs))"

definition sampled_support_index :: "token_ids \<Rightarrow> support \<Rightarrow> nat tok res" where
  "sampled_support_index y S =
     (let flags = map (\<lambda>t. match_flags (sp_ids S ! t) (sp_valid S ! t) (tk_vals y ! t))
        [0..<sp_n S * sp_s S]
      in if \<not> list_all (\<lambda>m. True \<in> set m) flags
      then Inl (ValueError ''sampled token must be present in truncated support'')
      else Inr \<lparr>tk_n = sp_n S, tk_s = sp_s S, tk_vals = map argmax_flags flags\<rparr>)"

section \<open>Masked rows as sums over the selected coordinates\<close>

lemma masked_sum_list:
  "length ids = length valid \<Longrightarrow>
   sum_list (map2 (\<lambda>v k. if v then f k else (0::real)) valid ids) = sum_list (map f (valid_ids ids valid))"
proof (induction valid arbitrary: ids)
  case (Cons v vs)
  then show ?case by (cases ids) (auto simp: valid_ids_Cons)
qed simp

lemma vsum_where_else:
  assumes "support_ok n ids valid" "length xs = length valid"
    and "\<And>i. i < length valid \<Longrightarrow> valid ! i \<Longrightarrow> xs ! i = f (ids ! i)"
  shows "vsum (where_else 0 valid xs) = (\<Sum>k \<in> set (valid_ids ids valid). f k)"
proof -
  have len: "length ids = length valid" using assms(1) by (simp add: support_ok_def)
  have "where_else 0 valid xs = map2 (\<lambda>v k. if v then f k else 0) valid ids"
    using assms(2,3) len by (intro nth_equalityI) auto
  then have "vsum (where_else 0 valid xs) = sum_list (map f (valid_ids ids valid))"
    by (simp add: vsum_def masked_sum_list [OF len])
  also have "\<dots> = (\<Sum>k \<in> set (valid_ids ids valid). f k)"
    using assms(1) by (simp add: support_ok_def sum_list_distinct_conv_sum_set)
  finally show ?thesis .
qed

text \<open>The row of selected log-probabilities, and its masked exponential.\<close>

definition sel_log_probs :: "real \<Rightarrow> vec \<Rightarrow> nat list \<Rightarrow> bool list \<Rightarrow> vec" where
  "sel_log_probs T z ids valid = gather_row (scaled T z) (log_norm T z) ids valid"

definition sel_probs :: "real \<Rightarrow> vec \<Rightarrow> nat list \<Rightarrow> bool list \<Rightarrow> vec" where
  "sel_probs T z ids valid = where_else 0 valid (vexp (sel_log_probs T z ids valid))"

lemma length_sel [simp, vec_len]:
  "length ids = length valid \<Longrightarrow> length (sel_log_probs T z ids valid) = length valid"
  "length ids = length valid \<Longrightarrow> length (sel_probs T z ids valid) = length valid"
  by (simp_all add: sel_log_probs_def sel_probs_def gather_row_def Let_def)

lemma nth_sel_log_probs:
  assumes "support_ok (length z) ids valid" "i < length valid"
  shows "sel_log_probs T z ids valid ! i = (if valid ! i then log_probs T z ! (ids ! i) else 0)"
proof -
  have len: "length ids = length valid" using assms(1) by (simp add: support_ok_def)
  have "ids ! i < length z" if "valid ! i"
  proof -
    have "ids ! i \<in> set (valid_ids ids valid)"
      using assms(2) len that by (auto simp: valid_ids_def in_set_zip image_iff Bex_def)
    then show ?thesis using assms(1) by (auto simp: support_ok_def)
  qed
  then show ?thesis
    using assms(2) len by (simp add: sel_log_probs_def gather_row_def Let_def nth_log_probs)
qed

lemma valid_ids_nth:
  assumes "support_ok n ids valid" "i < length valid" "valid ! i"
  shows "ids ! i \<in> set (valid_ids ids valid)" and "ids ! i < n"
proof -
  show "ids ! i \<in> set (valid_ids ids valid)"
    using assms by (auto simp: support_ok_def valid_ids_def in_set_zip image_iff Bex_def)
  then show "ids ! i < n" using assms(1) by (auto simp: support_ok_def)
qed

lemma nth_sel_probs:
  assumes "support_ok (length z) ids valid" "i < length valid"
  shows "sel_probs T z ids valid ! i = (if valid ! i then probs T z ! (ids ! i) else 0)"
proof -
  have "length ids = length valid" using assms(1) by (simp add: support_ok_def)
  then show ?thesis
    using assms valid_ids_nth(2) [OF assms]
    by (simp add: sel_probs_def nth_sel_log_probs nth_probs)
qed

lemma sel_probs_mass:
  assumes "support_ok (length z) ids valid"
  shows "vsum (sel_probs T z ids valid) = (\<Sum>k \<in> set (valid_ids ids valid). probs T z ! k)"
proof -
  have len: "length ids = length valid" using assms by (simp add: support_ok_def)
  have "sel_probs T z ids valid = where_else 0 valid (sel_probs T z ids valid)"
    using len by (intro nth_equalityI) (auto simp: nth_sel_probs [OF assms])
  then show ?thesis
    using vsum_where_else [OF assms, of "sel_probs T z ids valid" "\<lambda>k. probs T z ! k"] len
    by (simp add: nth_sel_probs [OF assms])
qed

lemma sel_probs_mass_le:
  assumes "support_ok (length z) ids valid" "z \<noteq> []"
  shows "vsum (sel_probs T z ids valid) \<le> 1"
proof -
  have "(\<Sum>k \<in> set (valid_ids ids valid). probs T z ! k) \<le> (\<Sum>k<length z. probs T z ! k)"
    using assms(1) by (intro sum_mono2) (auto simp: support_ok_def intro: less_imp_le [OF probs_pos])
  also have "\<dots> = 1" using probs_total [OF assms(2), of T] by (simp add: vsum_nth)
  finally show ?thesis by (simp add: sel_probs_mass [OF assms(1)])
qed

interpretation selected: mass_row "\<lambda>(T, z, ids, valid). set (valid_ids ids valid)"
  "\<lambda>(T, z, ids, valid) k. probs T z ! k"
  "\<lambda>(T, z, ids, valid). z \<noteq> [] \<and> support_ok (length z) ids valid"
  by unfold_locales
    (auto simp: sel_probs_mass [symmetric] sel_probs_mass_le support_ok_def
      intro!: less_imp_le [OF probs_pos])

end
