(* ===== verification/TopkMoments.thy ===== *)
theory TopkMoments
  imports TopkGather
begin

text \<open>
  The Fisher moments on a selected support (\<open>risk_aware_opsd/verpo_topk.py\<close>):
  \<open>forward_moments\<close> for probability displacements and \<open>reverse_tangent_moments\<close> for
  log-density tangents, with and without a nuisance direction. The lemmas read a masked row as a
  function on the set of selected coordinates and reduce both to the reference statistics
  \<open>fec_ref\<close> of theory \<open>Fisher\<close> on that set.
\<close>

section \<open>The moments\<close>

record forward_moment_row =
  fm_projection :: real
  fm_residual_mean :: real
  fm_fisher_cost :: real
  fm_displacement_norm :: real
  fm_task_norm :: real
  fm_nuisance_norm :: real
  fm_cosine :: real
  fm_residual_cov :: real
  fm_residual :: vec

definition forward_moments_at :: "vec \<Rightarrow> vec \<Rightarrow> bool list \<Rightarrow> vec option \<Rightarrow> real \<Rightarrow> forward_moment_row" where
  "forward_moments_at student_log_probs task0 valid nuisance0 epsilon =
     (let probabilities = where_else 0 valid (vexp student_log_probs);
          task = where_else 0 valid task0;
          mean_task = vsum (vmul probabilities task);
          task_second = vsum (vmul probabilities (vsquare task));
          task_variance = clamp_min 0 (task_second - mean_task * mean_task);
          task_norm = sqrt (vsum (vsquare task))
      in case nuisance0 of
        None \<Rightarrow> \<lparr>fm_projection = 0, fm_residual_mean = mean_task, fm_fisher_cost = task_variance,
          fm_displacement_norm = task_norm, fm_task_norm = task_norm, fm_nuisance_norm = 0,
          fm_cosine = 0, fm_residual_cov = 0, fm_residual = task\<rparr>
      | Some nuisance1 \<Rightarrow>
        (let nuisance = where_else 0 valid nuisance1;
             mean_nuisance = vsum (vmul probabilities nuisance);
             nuisance_second = vsum (vmul probabilities (vsquare nuisance));
             nuisance_variance = clamp_min 0 (nuisance_second - mean_nuisance * mean_nuisance);
             covariance = vsum (vmul (vmul probabilities task) nuisance) - mean_task * mean_nuisance;
             projection = covariance / (nuisance_variance + epsilon);
             residual = vsub task (vscale projection nuisance);
             residual_mean = mean_task - projection * mean_nuisance;
             residual_variance = clamp_min 0 (task_variance - 2 * projection * covariance
               + projection * projection * nuisance_variance);
             nuisance_norm = sqrt (vsum (vsquare nuisance));
             displacement_norm = sqrt (vsum (vsquare residual));
             fisher_cosine = clamp (-1) 1
               (covariance / sqrt ((task_variance + epsilon) * (nuisance_variance + epsilon)));
             residual_nuisance_covariance = covariance - projection * nuisance_variance
         in \<lparr>fm_projection = projection, fm_residual_mean = residual_mean,
              fm_fisher_cost = residual_variance, fm_displacement_norm = displacement_norm,
              fm_task_norm = task_norm, fm_nuisance_norm = nuisance_norm,
              fm_cosine = fisher_cosine, fm_residual_cov = residual_nuisance_covariance,
              fm_residual = residual\<rparr>))"

definition row_opt :: "logits option \<Rightarrow> nat \<Rightarrow> vec option" where
  "row_opt A t = map_option (\<lambda>L. lg_rows L ! t) A"

definition forward_moments ::
  "logits \<Rightarrow> logits \<Rightarrow> support \<Rightarrow> logits option \<Rightarrow> pyfloat \<Rightarrow> forward_moment_row tok res" where
  "forward_moments student_log_probs task S nuisance projection_epsilon =
     (if lg_shape student_log_probs \<noteq> sp_shape S
      then Inl (ValueError ''student_log_probs must match the support shape'')
      else if lg_shape task \<noteq> sp_shape S
      then Inl (ValueError ''task must match the support shape'')
      else if (case nuisance of None \<Rightarrow> False | Some N \<Rightarrow> lg_shape N \<noteq> sp_shape S)
      then Inl (ValueError ''nuisance must match the support shape'')
      else if \<not> isfinite projection_epsilon \<or> the_real projection_epsilon \<le> 0
      then Inl (ValueError ''projection_epsilon must be finite and positive'')
      else Inr (tok_of student_log_probs (\<lambda>t. forward_moments_at (lg_rows student_log_probs ! t)
        (lg_rows task ! t) (sp_valid S ! t) (row_opt nuisance t) (the_real projection_epsilon))))"

record tangent_moments =
  tm_projection :: real
  tm_task_ratio_mean :: real
  tm_nuisance_ratio_mean :: real
  tm_task_tangent_mean :: real
  tm_nuisance_tangent_mean :: real
  tm_residual_mean :: real
  tm_fisher_cost :: real
  tm_displacement_norm :: real
  tm_task_norm :: real
  tm_nuisance_norm :: real
  tm_cosine :: real
  tm_residual_cov :: real
  tm_task_tangent :: vec
  tm_nuisance_tangent :: vec
  tm_residual :: vec

definition reverse_tangent_moments_at ::
  "vec \<Rightarrow> vec \<Rightarrow> bool list \<Rightarrow> vec option \<Rightarrow> real \<Rightarrow> tangent_moments" where
  "reverse_tangent_moments_at student_log_probs task_log_ratio valid nuisance_log_ratio epsilon =
     (let probabilities = where_else 0 valid (vexp student_log_probs);
          task_ratio = where_else 0 valid task_log_ratio;
          task_ratio_mean = vsum (vmul probabilities task_ratio);
          task_tangent = where_else 0 valid (vmul probabilities (vshift task_ratio task_ratio_mean));
          task_tangent_mean = vsum (vmul probabilities task_tangent);
          task_fisher = clamp_min 0 (vsum (vmul probabilities (vsquare task_tangent))
            - task_tangent_mean * task_tangent_mean);
          task_norm = sqrt (vsum (vsquare task_tangent))
      in case nuisance_log_ratio of
        None \<Rightarrow> \<lparr>tm_projection = 0, tm_task_ratio_mean = task_ratio_mean, tm_nuisance_ratio_mean = 0,
          tm_task_tangent_mean = task_tangent_mean, tm_nuisance_tangent_mean = 0,
          tm_residual_mean = task_tangent_mean, tm_fisher_cost = task_fisher,
          tm_displacement_norm = task_norm, tm_task_norm = task_norm, tm_nuisance_norm = 0,
          tm_cosine = 0, tm_residual_cov = 0, tm_task_tangent = task_tangent,
          tm_nuisance_tangent = map (\<lambda>_. 0) task_tangent, tm_residual = task_tangent\<rparr>
      | Some nuisance1 \<Rightarrow>
        (let nuisance_ratio = where_else 0 valid nuisance1;
             nuisance_ratio_mean = vsum (vmul probabilities nuisance_ratio);
             nuisance_tangent =
               where_else 0 valid (vmul probabilities (vshift nuisance_ratio nuisance_ratio_mean));
             nuisance_tangent_mean = vsum (vmul probabilities nuisance_tangent);
             nuisance_fisher = clamp_min 0 (vsum (vmul probabilities (vsquare nuisance_tangent))
               - nuisance_tangent_mean * nuisance_tangent_mean);
             covariance = vsum (vmul (vmul probabilities task_tangent) nuisance_tangent)
               - task_tangent_mean * nuisance_tangent_mean;
             projection = covariance / (nuisance_fisher + epsilon);
             residual = vsub task_tangent (vscale projection nuisance_tangent);
             residual_mean = task_tangent_mean - projection * nuisance_tangent_mean;
             residual_fisher = clamp_min 0 (task_fisher - 2 * projection * covariance
               + projection * projection * nuisance_fisher);
             nuisance_norm = sqrt (vsum (vsquare nuisance_tangent));
             residual_norm = sqrt (vsum (vsquare residual));
             fisher_cosine = clamp (-1) 1
               (covariance / sqrt ((task_fisher + epsilon) * (nuisance_fisher + epsilon)));
             residual_nuisance_covariance = covariance - projection * nuisance_fisher
         in \<lparr>tm_projection = projection, tm_task_ratio_mean = task_ratio_mean,
              tm_nuisance_ratio_mean = nuisance_ratio_mean,
              tm_task_tangent_mean = task_tangent_mean,
              tm_nuisance_tangent_mean = nuisance_tangent_mean, tm_residual_mean = residual_mean,
              tm_fisher_cost = residual_fisher, tm_displacement_norm = residual_norm,
              tm_task_norm = task_norm, tm_nuisance_norm = nuisance_norm,
              tm_cosine = fisher_cosine, tm_residual_cov = residual_nuisance_covariance,
              tm_task_tangent = task_tangent, tm_nuisance_tangent = nuisance_tangent,
              tm_residual = residual\<rparr>))"

definition reverse_tangent_moments ::
  "logits \<Rightarrow> logits \<Rightarrow> support \<Rightarrow> logits option \<Rightarrow> pyfloat \<Rightarrow> tangent_moments tok res" where
  "reverse_tangent_moments student_log_probs task_log_ratio S nuisance_log_ratio projection_epsilon =
     (if lg_shape student_log_probs \<noteq> sp_shape S
      then Inl (ValueError ''student_log_probs must match the support shape'')
      else if lg_shape task_log_ratio \<noteq> sp_shape S
      then Inl (ValueError ''task_log_ratio must match the support shape'')
      else if (case nuisance_log_ratio of None \<Rightarrow> False | Some N \<Rightarrow> lg_shape N \<noteq> sp_shape S)
      then Inl (ValueError ''nuisance_log_ratio must match the support shape'')
      else if \<not> isfinite projection_epsilon \<or> the_real projection_epsilon \<le> 0
      then Inl (ValueError ''projection_epsilon must be finite and positive'')
      else Inr (tok_of student_log_probs (\<lambda>t. reverse_tangent_moments_at
        (lg_rows student_log_probs ! t) (lg_rows task_log_ratio ! t) (sp_valid S ! t)
        (row_opt nuisance_log_ratio t) (the_real projection_epsilon))))"

section \<open>Masked rows as functions on the selected coordinates\<close>

definition srow :: "nat list \<Rightarrow> bool list \<Rightarrow> (nat \<Rightarrow> real) \<Rightarrow> vec" where
  "srow ids valid f = map2 (\<lambda>v k. if v then f k else 0) valid ids"

named_theorems srow_simps \<open>arithmetic on masked rows\<close>

lemma length_srow [simp, vec_len]: "length (srow ids valid f) = min (length valid) (length ids)"
  by (simp add: srow_def)

lemma nth_srow [simp]:
  "i < length valid \<Longrightarrow> i < length ids \<Longrightarrow> srow ids valid f ! i = (if valid ! i then f (ids ! i) else 0)"
  by (simp add: srow_def)

lemma srow_arith [srow_simps]:
  "vmul (srow ids valid f) (srow ids valid g) = srow ids valid (\<lambda>k. f k * g k)"
  "vsub (srow ids valid f) (srow ids valid g) = srow ids valid (\<lambda>k. f k - g k)"
  "vscale c (srow ids valid f) = srow ids valid (\<lambda>k. c * f k)"
  "vsquare (srow ids valid f) = srow ids valid (\<lambda>k. f k * f k)"
  by (auto intro!: vec_eqI)

lemma where_else_srow:
  assumes "length ids = length valid" "length xs = length valid"
    and "\<And>i. i < length valid \<Longrightarrow> valid ! i \<Longrightarrow> xs ! i = f (ids ! i)"
  shows "where_else 0 valid xs = srow ids valid f"
  using assms by (intro vec_eqI) auto

lemma where_else_tangent [srow_simps]:
  "length ids = length valid \<Longrightarrow>
   where_else 0 valid (vmul (srow ids valid p) (vshift (srow ids valid r) m))
     = srow ids valid (\<lambda>k. p k * (r k - m))"
  by (auto intro!: vec_eqI)

lemma vsum_srow [srow_simps]:
  "support_ok n ids valid \<Longrightarrow> vsum (srow ids valid f) = (\<Sum>k \<in> set (valid_ids ids valid). f k)"
proof -
  assume ok: "support_ok n ids valid"
  then have len: "length ids = length valid" by (simp add: support_ok_def)
  have "vsum (srow ids valid f) = vsum (where_else 0 valid (map f ids))"
    using len by (intro arg_cong [where f = vsum] vec_eqI) auto
  also have "\<dots> = (\<Sum>k \<in> set (valid_ids ids valid). f k)"
    using len by (intro vsum_where_else [OF ok]) auto
  finally show ?thesis .
qed

lemma sel_probs_srow:
  assumes "support_ok (length z) ids valid"
  shows "where_else 0 valid (vexp (sel_log_probs T z ids valid)) = srow ids valid (\<lambda>k. probs T z ! k)"
  using assms
  by (intro where_else_srow)
    (auto simp: support_ok_def nth_sel_log_probs [OF assms] nth_probs valid_ids_nth(2) [OF assms])

lemma srow_nth_valid:
  "length ids = length valid \<Longrightarrow> j < length valid \<Longrightarrow> valid ! j \<Longrightarrow> srow ids valid f ! j = f (ids ! j)"
  by simp

section \<open>The index of the sampled token\<close>

lemma argmax_flags_nth: "True \<in> set bs \<Longrightarrow> argmax_flags bs < length bs \<and> bs ! argmax_flags bs"
  by (induction bs) auto

lemma match_index:
  assumes "length ids = length valid" "True \<in> set (match_flags ids valid y)"
  defines "j \<equiv> argmax_flags (match_flags ids valid y)"
  shows "j < length valid" "valid ! j" "int (ids ! j) = y"
  using argmax_flags_nth [OF assms(2)] assms(1) by (auto simp: j_def match_flags_def)

lemma valid_ids_iff:
  "length ids = length valid \<Longrightarrow>
   k \<in> set (valid_ids ids valid) \<longleftrightarrow> (\<exists>i < length valid. valid ! i \<and> ids ! i = k)"
  by (induction ids valid rule: list_induct2) (auto simp: valid_ids_Cons less_Suc_eq_0_disj)

lemma match_flags_ex:
  assumes "support_ok n ids valid" "nat y \<in> set (valid_ids ids valid)" "0 \<le> y"
  shows "True \<in> set (match_flags ids valid y)"
proof -
  have len: "length ids = length valid" using assms(1) by (simp add: support_ok_def)
  obtain i where i: "i < length valid" "valid ! i" "ids ! i = nat y"
    using assms(2) by (auto simp: valid_ids_iff [OF len])
  then have "match_flags ids valid y ! i" "i < length (match_flags ids valid y)"
    using assms(3) len by (auto simp: match_flags_def)
  then show ?thesis by (metis nth_mem)
qed

section \<open>The moments refine the reference statistics\<close>

lemma forward_moments_at_ref:
  fixes T adv eps :: real
  assumes z: "z \<noteq> []" and ok: "support_ok (length z) ids valid" and eps: "0 < eps"
    and task: "length task = length valid"
      "\<And>i. i < length valid \<Longrightarrow> valid ! i \<Longrightarrow> task ! i = ft (ids ! i)"
    and nuis: "length nuis = length valid"
      "\<And>i. i < length valid \<Longrightarrow> valid ! i \<Longrightarrow> nuis ! i = fn (ids ! i)"
    and j: "j < length valid" "valid ! j"
  defines "A \<equiv> set (valid_ids ids valid)" and "p \<equiv> \<lambda>k. probs T z ! k"
  defines "M \<equiv> forward_moments_at (sel_log_probs T z ids valid) task valid (Some nuis) eps"
    and "R \<equiv> fec_ref A p ft fn eps (ids ! j) adv"
  shows "fm_projection M = fs_projection R" and "fm_fisher_cost M = fs_fisher_cost R"
    and "fm_displacement_norm M = fs_displacement_norm R" and "fm_task_norm M = fs_task_norm R"
    and "fm_nuisance_norm M = fs_nuisance_norm R" and "fm_cosine M = fs_cosine R"
    and "fm_residual_cov M = fs_residual_cov R"
    and "fm_residual M ! j - fm_residual_mean M = fs_alignment R"
proof -
  have len: "length ids = length valid" using ok by (simp add: support_ok_def)
  note P = sel_probs_srow [OF ok, of T]
  note rows = where_else_srow [OF len task(1), of ft] where_else_srow [OF len nuis(1), of fn]
  have T1: "where_else 0 valid task = srow ids valid ft" by (rule rows(1)) (rule task(2))
  have N1: "where_else 0 valid nuis = srow ids valid fn" by (rule rows(2)) (rule nuis(2))
  note sums = vsum_srow [OF ok]
  have x: "(\<lambda>(T, z, ids, valid). z \<noteq> [] \<and> support_ok (length z) ids valid) (T, z, ids, valid)"
    using z ok by simp
  note core = selected.fec_moments_ref [OF x eps, unfolded prod.case, folded A_def p_def]
  note unf = M_def forward_moments_at_def Let_def P T1 N1 srow_arith sums A_def [symmetric]
    p_def [symmetric] wmean_def [symmetric]
  show proj: "fm_projection M = fs_projection R"
    using core(1) [where task = ft and nuis = fn and y = "ids ! j" and adv = adv] by (simp add: unf R_def)
  show "fm_fisher_cost M = fs_fisher_cost R" "fm_cosine M = fs_cosine R"
    "fm_residual_cov M = fs_residual_cov R"
    using core(2-4) [where task = ft and nuis = fn and y = "ids ! j" and adv = adv] by (simp_all add: unf R_def)
  show "fm_task_norm M = fs_task_norm R" "fm_nuisance_norm M = fs_nuisance_norm R"
    by (simp_all add: unf R_def fec_ref_def)
  have residual: "fm_residual M = srow ids valid (resid ft (fs_projection R) fn)"
    unfolding proj [symmetric] by (simp add: unf resid_def [abs_def])
  have "fm_displacement_norm M = sqrt (vsum (vsquare (fm_residual M)))"
    by (simp add: M_def forward_moments_at_def Let_def)
  then show "fm_displacement_norm M = fs_displacement_norm R"
    by (simp add: residual srow_arith sums A_def [symmetric]) (simp add: R_def fec_ref_def Let_def)
  have "fm_residual M ! j = ft (ids ! j) - fm_projection M * fn (ids ! j)"
    using j len by (simp add: residual proj resid_def)
  then show "fm_residual M ! j - fm_residual_mean M = fs_alignment R"
    using core(5) [where task = ft and nuis = fn and y = "ids ! j" and adv = adv] by (simp add: unf R_def)
qed


lemma forward_moments_at_none:
  fixes T adv eps :: real
  assumes z: "z \<noteq> []" and ok: "support_ok (length z) ids valid"
    and task: "length task = length valid"
      "\<And>i. i < length valid \<Longrightarrow> valid ! i \<Longrightarrow> task ! i = ft (ids ! i)"
    and j: "j < length valid" "valid ! j"
  defines "A \<equiv> set (valid_ids ids valid)" and "p \<equiv> \<lambda>k. probs T z ! k"
  defines "M \<equiv> forward_moments_at (sel_log_probs T z ids valid) task valid None eps"
  shows "(adv * (task ! j - fm_residual_mean M), fm_fisher_cost M, fm_displacement_norm M)
    = disp_ref A p ft (ids ! j) adv"
proof -
  have len: "length ids = length valid" using ok by (simp add: support_ok_def)
  have T1: "where_else 0 valid task = srow ids valid ft"
    by (rule where_else_srow [OF len task(1)]) (rule task(2))
  have x: "(\<lambda>(T, z, ids, valid). z \<noteq> [] \<and> support_ok (length z) ids valid) (T, z, ids, valid)"
    using z ok by simp
  note unf = M_def forward_moments_at_def Let_def sel_probs_srow [OF ok, of T] T1 srow_arith
    vsum_srow [OF ok] A_def [symmetric] p_def [symmetric] wmean_def [symmetric]
  show ?thesis
    using selected.var_clamp [OF x, of ft, unfolded prod.case, folded A_def p_def] task(2) [OF j]
    by (simp add: unf disp_ref_def)
qed

lemma reverse_tangent_moments_at_ref:
  fixes T adv eps :: real
  assumes z: "z \<noteq> []" and ok: "support_ok (length z) ids valid" and eps: "0 < eps"
    and task: "length rt = length valid"
      "\<And>i. i < length valid \<Longrightarrow> valid ! i \<Longrightarrow> rt ! i = ft (ids ! i)"
    and nuis: "length rn = length valid"
      "\<And>i. i < length valid \<Longrightarrow> valid ! i \<Longrightarrow> rn ! i = fn (ids ! i)"
    and j: "j < length valid" "valid ! j"
  defines "A \<equiv> set (valid_ids ids valid)" and "p \<equiv> \<lambda>k. probs T z ! k"
  defines "M \<equiv> reverse_tangent_moments_at (sel_log_probs T z ids valid) rt valid (Some rn) eps"
    and "R \<equiv> fec_ref A p (tangent A p ft) (tangent A p fn) eps (ids ! j) adv"
  shows "tm_projection M = fs_projection R" and "tm_fisher_cost M = fs_fisher_cost R"
    and "tm_displacement_norm M = fs_displacement_norm R" and "tm_task_norm M = fs_task_norm R"
    and "tm_nuisance_norm M = fs_nuisance_norm R" and "tm_cosine M = fs_cosine R"
    and "tm_residual_cov M = fs_residual_cov R"
    and "tm_residual M ! j - tm_residual_mean M = fs_alignment R"
proof -
  let ?t = "tangent A p ft" and ?n = "tangent A p fn"
  have len: "length ids = length valid" using ok by (simp add: support_ok_def)
  note P = sel_probs_srow [OF ok, of T]
  have T0: "where_else 0 valid rt = srow ids valid ft"
    by (rule where_else_srow [OF len task(1)]) (rule task(2))
  have N0: "where_else 0 valid rn = srow ids valid fn"
    by (rule where_else_srow [OF len nuis(1)]) (rule nuis(2))
  note sums = vsum_srow [OF ok]
  have T1: "where_else 0 valid (vmul (srow ids valid p) (vshift (srow ids valid ft) (wmean A p ft)))
      = srow ids valid ?t"
    and N1: "where_else 0 valid (vmul (srow ids valid p) (vshift (srow ids valid fn) (wmean A p fn)))
      = srow ids valid ?n"
    by (simp_all add: where_else_tangent [OF len] tangent_def [abs_def])
  have x: "(\<lambda>(T, z, ids, valid). z \<noteq> [] \<and> support_ok (length z) ids valid) (T, z, ids, valid)"
    using z ok by simp
  note core = selected.fec_moments_ref [OF x eps, unfolded prod.case, folded A_def p_def,
      where task = ?t and nuis = ?n and y = "ids ! j" and adv = adv]
  note unf = M_def reverse_tangent_moments_at_def Let_def P T0 N0 T1 N1 srow_arith sums
    A_def [symmetric] p_def [symmetric] wmean_def [symmetric]
  show proj: "tm_projection M = fs_projection R"
    using core(1) by (simp add: unf R_def)
  show "tm_fisher_cost M = fs_fisher_cost R" "tm_cosine M = fs_cosine R"
    "tm_residual_cov M = fs_residual_cov R"
    using core(2-4) by (simp_all add: unf R_def)
  show "tm_task_norm M = fs_task_norm R" "tm_nuisance_norm M = fs_nuisance_norm R"
    by (simp_all add: unf R_def fec_ref_def)
  have residual: "tm_residual M = srow ids valid (resid ?t (fs_projection R) ?n)"
    unfolding proj [symmetric] by (simp add: unf resid_def [abs_def])
  have "tm_displacement_norm M = sqrt (vsum (vsquare (tm_residual M)))"
    by (simp add: M_def reverse_tangent_moments_at_def Let_def)
  then show "tm_displacement_norm M = fs_displacement_norm R"
    by (simp add: residual srow_arith sums A_def [symmetric]) (simp add: R_def fec_ref_def Let_def)
  have "tm_residual M ! j = ?t (ids ! j) - tm_projection M * ?n (ids ! j)"
    using j len by (simp add: residual proj resid_def)
  then show "tm_residual M ! j - tm_residual_mean M = fs_alignment R"
    using core(5) by (simp add: unf R_def)
qed

lemma reverse_tangent_moments_at_none:
  fixes T adv eps :: real
  assumes z: "z \<noteq> []" and ok: "support_ok (length z) ids valid"
    and task: "length rt = length valid"
      "\<And>i. i < length valid \<Longrightarrow> valid ! i \<Longrightarrow> rt ! i = ft (ids ! i)"
    and j: "j < length valid" "valid ! j"
  defines "A \<equiv> set (valid_ids ids valid)" and "p \<equiv> \<lambda>k. probs T z ! k"
  defines "M \<equiv> reverse_tangent_moments_at (sel_log_probs T z ids valid) rt valid None eps"
  shows "(adv * (tm_residual M ! j - tm_residual_mean M), tm_fisher_cost M, tm_displacement_norm M)
    = disp_ref A p (tangent A p ft) (ids ! j) adv"
proof -
  let ?t = "tangent A p ft"
  have len: "length ids = length valid" using ok by (simp add: support_ok_def)
  have T0: "where_else 0 valid rt = srow ids valid ft"
    by (rule where_else_srow [OF len task(1)]) (rule task(2))
  have T1: "where_else 0 valid (vmul (srow ids valid p) (vshift (srow ids valid ft) (wmean A p ft)))
      = srow ids valid ?t"
    by (simp add: where_else_tangent [OF len] tangent_def [abs_def])
  have x: "(\<lambda>(T, z, ids, valid). z \<noteq> [] \<and> support_ok (length z) ids valid) (T, z, ids, valid)"
    using z ok by simp
  note unf = M_def reverse_tangent_moments_at_def Let_def sel_probs_srow [OF ok, of T] T0 T1 srow_arith
    vsum_srow [OF ok] A_def [symmetric] p_def [symmetric] wmean_def [symmetric]
  show ?thesis
    using selected.var_clamp [OF x, of ?t, unfolded prod.case, folded A_def p_def] j len
    by (simp add: unf disp_ref_def)
qed

end
