(* ===== verification/TopkStatsRef.thy ===== *)
theory TopkStatsRef
  imports TopkStats
begin

text \<open>
  The truncated statistics refine the reference statistics: under the calling contract each
  function of theory \<open>TopkStats\<close> returns, at every position, the reference statistics of theory
  \<open>Fisher\<close> on the set of selected coordinates.
\<close>

section \<open>Teacher displacements at a position\<close>

definition task_prob :: "real \<Rightarrow> logits \<Rightarrow> logits \<Rightarrow> nat \<Rightarrow> nat \<Rightarrow> real" where
  "task_prob T P N t k = probs T (lg_rows P ! t) ! k - probs T (lg_rows N ! t) ! k"

definition nuis_prob :: "real \<Rightarrow> logits \<Rightarrow> logits \<Rightarrow> logits \<Rightarrow> nat \<Rightarrow> nat \<Rightarrow> real" where
  "nuis_prob T P N Z t k = 1/2 * (probs T (lg_rows P ! t) ! k + probs T (lg_rows N ! t) ! k)
     - probs T (lg_rows Z ! t) ! k"

definition task_log :: "real \<Rightarrow> logits \<Rightarrow> logits \<Rightarrow> nat \<Rightarrow> nat \<Rightarrow> real" where
  "task_log T P N t k = log_probs T (lg_rows P ! t) ! k - log_probs T (lg_rows N ! t) ! k"

definition nuis_log :: "real \<Rightarrow> logits \<Rightarrow> logits \<Rightarrow> logits \<Rightarrow> nat \<Rightarrow> nat \<Rightarrow> real" where
  "nuis_log T P N Z t k = 1/2 * (log_probs T (lg_rows P ! t) ! k + log_probs T (lg_rows N ! t) ! k)
     - log_probs T (lg_rows Z ! t) ! k"

definition stu_prob :: "real \<Rightarrow> logits \<Rightarrow> nat \<Rightarrow> nat \<Rightarrow> real" where
  "stu_prob T S t k = probs T (lg_rows S ! t) ! k"

section \<open>The shared set-up of the truncated functions\<close>

definition sel_tensor :: "real \<Rightarrow> logits \<Rightarrow> support \<Rightarrow> logits" where
  "sel_tensor T L S = \<lparr>lg_n = lg_n L, lg_s = lg_s L, lg_v = sp_w S,
     lg_rows = map (\<lambda>t. sel_log_probs T (lg_rows L ! t) (sp_ids S ! t) (sp_valid S ! t))
       [0..<lg_n L * lg_s L]\<rparr>"

definition sampled_index :: "logits \<Rightarrow> token_ids \<Rightarrow> support \<Rightarrow> nat tok" where
  "sampled_index L y S =
     tok_of L (\<lambda>t. argmax_flags (match_flags (sp_ids S ! t) (sp_valid S ! t) (tk_vals y ! t)))"

text \<open>What a position of a support offers to the per-position lemmas.\<close>

definition good_at :: "logits \<Rightarrow> token_ids \<Rightarrow> support \<Rightarrow> nat \<Rightarrow> bool" where
  "good_at L y S t \<longleftrightarrow>
     (let ids = sp_ids S ! t; valid = sp_valid S ! t; j = tk_vals (sampled_index L y S) ! t
      in support_ok (lg_v L) ids valid \<and> length valid = sp_w S
         \<and> j < length valid \<and> valid ! j \<and> ids ! j = token_at y t)"

lemma sel_tensor_simps [simp]:
  "lg_n (sel_tensor T L S) = lg_n L" "lg_s (sel_tensor T L S) = lg_s L" "lg_v (sel_tensor T L S) = sp_w S"
  "lg_shape (sel_tensor T L S) = [lg_n L, lg_s L, sp_w S]"
  "length (lg_rows (sel_tensor T L S)) = lg_n L * lg_s L"
  "t < lg_n L * lg_s L \<Longrightarrow>
    lg_rows (sel_tensor T L S) ! t = sel_log_probs T (lg_rows L ! t) (sp_ids S ! t) (sp_valid S ! t)"
  by (simp_all add: sel_tensor_def lg_shape_def)

definition support_for ::
  "(nat \<Rightarrow> vec \<Rightarrow> nat list) \<Rightarrow> nat \<Rightarrow> real \<Rightarrow> logits \<Rightarrow> logits list \<Rightarrow> token_ids \<Rightarrow> support \<Rightarrow> bool" where
  "support_for topk k T L sources y S \<longleftrightarrow>
     sp_shape S = [lg_n L, lg_s L, sp_w S] \<and> sp_token_shape S = token_shape L
     \<and> (\<forall>M d. wf_logits M \<longrightarrow> lg_shape M = lg_shape L \<longrightarrow> selected_log_probs M S T d = Inr (sel_tensor T M S))
     \<and> sampled_support_index y S = Inr (sampled_index L y S)
     \<and> (\<forall>t < lg_n L * lg_s L. good_at L y S t
          \<and> set (valid_ids (sp_ids S ! t) (sp_valid S ! t)) = support_set topk k sources y t)"

lemma truncated_setup:
  assumes topk: "topk_select topk" and ten: "tensors_ok (L # Ls @ (case student of None \<Rightarrow> [] | Some M \<Rightarrow> [M]))"
    and ids: "ids_ok L y" and k: "validated_top_k top_k = Inr k" and T: "0 < T"
  shows "\<exists>S. build_truncated_topk_support topk (L # Ls) y top_k student = Inr S
    \<and> support_for topk k T L (L # Ls @ (case student of None \<Rightarrow> [] | Some M \<Rightarrow> [M])) y S"
proof -
  let ?all = "L # Ls @ (case student of None \<Rightarrow> [] | Some M \<Rightarrow> [M])"
  obtain S where S: "build_truncated_topk_support topk (L # Ls) y top_k student = Inr S"
    and wf: "wf_support (lg_v L) S" and sh: "sp_token_shape S = token_shape L"
    and set: "\<And>t. t < lg_n L * lg_s L \<Longrightarrow>
      set (valid_ids (sp_ids S ! t) (sp_valid S ! t)) = support_set topk k ?all y t"
    using build_support_ok [OF topk ten ids k] by blast
  have dims: "sp_n S = lg_n L" "sp_s S = lg_s L"
    using sh by (simp_all add: sp_token_shape_def token_shape_def)
  have v: "0 < lg_v L" using ten by (simp add: tensors_ok_def)
  have sel: "selected_log_probs M S T d = Inr (sel_tensor T M S)"
    if "wf_logits M" "lg_shape M = lg_shape L" for M d
    unfolding sel_tensor_def
    by (rule selected_log_probs_ok [OF that(1)])
      (use that v T wf sh in \<open>simp_all add: lg_shape_eq_iff token_shape_def\<close>)
  have pos: "0 \<le> tk_vals y ! t" if "t < lg_n L * lg_s L" for t
    using ids that by (auto simp: ids_ok_def list_all_iff wf_tok_def tok_shape_def token_shape_def)
  have ok: "support_ok (lg_v L) (sp_ids S ! t) (sp_valid S ! t)" "length (sp_valid S ! t) = sp_w S"
    if "t < lg_n L * lg_s L" for t
    using wf that by (auto simp: wf_support_def dims)
  have found: "True \<in> set (match_flags (sp_ids S ! t) (sp_valid S ! t) (tk_vals y ! t))"
    if t: "t < lg_n L * lg_s L" for t
    by (rule match_flags_ex [OF ok(1) [OF t] _ pos [OF t]])
      (simp add: set [OF t] support_set_def)
  have idx: "sampled_support_index y S = Inr (sampled_index L y S)"
    using found by (simp add: sampled_support_index_def sampled_index_def tok_of_def Let_def
        dims list_all_iff)
  have "good_at L y S t" if t: "t < lg_n L * lg_s L" for t
    using match_index [OF _ found [OF t]] ok [OF t] pos [OF t] t
    by (auto simp: good_at_def Let_def sampled_index_def support_ok_def token_at_def)
  moreover have "sp_shape S = [lg_n L, lg_s L, sp_w S]" by (simp add: sp_shape_def dims)
  ultimately have "support_for topk k T L ?all y S"
    using sh sel idx set by (simp add: support_for_def)
  then show ?thesis using S by blast
qed

lemma support_forD:
  assumes "support_for topk k T L sources y S"
  shows "sp_shape S = [lg_n L, lg_s L, sp_w S]"
    and "\<And>M d. wf_logits M \<Longrightarrow> lg_shape M = lg_shape L \<Longrightarrow> selected_log_probs M S T d = Inr (sel_tensor T M S)"
    and "sampled_support_index y S = Inr (sampled_index L y S)"
    and "\<And>t. t < lg_n L * lg_s L \<Longrightarrow> support_ok (lg_v L) (sp_ids S ! t) (sp_valid S ! t)"
    and "\<And>t. t < lg_n L * lg_s L \<Longrightarrow> length (sp_valid S ! t) = sp_w S"
    and "\<And>t. t < lg_n L * lg_s L \<Longrightarrow> length (sp_ids S ! t) = sp_w S"
    and "\<And>t. t < lg_n L * lg_s L \<Longrightarrow> tk_vals (sampled_index L y S) ! t < sp_w S"
    and "\<And>t. t < lg_n L * lg_s L \<Longrightarrow> sp_valid S ! t ! (tk_vals (sampled_index L y S) ! t)"
    and "\<And>t. t < lg_n L * lg_s L \<Longrightarrow> sp_ids S ! t ! (tk_vals (sampled_index L y S) ! t) = token_at y t"
    and "\<And>t. t < lg_n L * lg_s L \<Longrightarrow>
      set (valid_ids (sp_ids S ! t) (sp_valid S ! t)) = support_set topk k sources y t"
proof -
  have good: "good_at L y S t" if "t < lg_n L * lg_s L" for t
    using assms that by (simp add: support_for_def)
  note g = good [unfolded good_at_def Let_def]
  show "sp_shape S = [lg_n L, lg_s L, sp_w S]"
    "sampled_support_index y S = Inr (sampled_index L y S)"
    using assms by (simp_all add: support_for_def)
  show "selected_log_probs M S T d = Inr (sel_tensor T M S)"
    if "wf_logits M" "lg_shape M = lg_shape L" for M d
    using assms that by (simp add: support_for_def)
  fix t assume t: "t < lg_n L * lg_s L"
  show ok: "support_ok (lg_v L) (sp_ids S ! t) (sp_valid S ! t)" and len: "length (sp_valid S ! t) = sp_w S"
    and "sp_valid S ! t ! (tk_vals (sampled_index L y S) ! t)"
    and "sp_ids S ! t ! (tk_vals (sampled_index L y S) ! t) = token_at y t"
    using g [OF t] by blast+
  show "length (sp_ids S ! t) = sp_w S"
    using ok len by (simp add: support_ok_def)
  show "tk_vals (sampled_index L y S) ! t < sp_w S"
    using g [OF t] len by simp
  show "set (valid_ids (sp_ids S ! t) (sp_valid S ! t)) = support_set topk k sources y t"
    using assms t by (simp add: support_for_def)
qed

section \<open>Refinement\<close>

lemma sel_row_nth:
  assumes "tensors_ok Ls" "M \<in> set Ls" "L \<in> set Ls" "support_for topk k T L sources y S"
    "t < lg_n L * lg_s L" "i < sp_w S" "sp_valid S ! t ! i"
  shows "sel_log_probs T (lg_rows M ! t) (sp_ids S ! t) (sp_valid S ! t) ! i
      = log_probs T (lg_rows M ! t) ! (sp_ids S ! t ! i)"
    and "sp_ids S ! t ! i < length (lg_rows M ! t)"
proof -
  have len: "length (lg_rows M ! t) = lg_v L" by (rule tensors_ok_row(1) [OF assms(1-3,5)])
  note D = support_forD [OF assms(4)]
  have ok: "support_ok (length (lg_rows M ! t)) (sp_ids S ! t) (sp_valid S ! t)"
    using D(4) [OF assms(5)] by (simp add: len)
  show "sel_log_probs T (lg_rows M ! t) (sp_ids S ! t) (sp_valid S ! t) ! i
      = log_probs T (lg_rows M ! t) ! (sp_ids S ! t ! i)"
    using nth_sel_log_probs [OF ok, of i T] assms(6,7) D(5) [OF assms(5)] by simp
  show "sp_ids S ! t ! i < length (lg_rows M ! t)"
    using valid_ids_nth(2) [OF ok, of i] assms(6,7) D(5) [OF assms(5)] by simp
qed

lemma tensors_ok_eqs:
  assumes "tensors_ok (L # Ls)"
  shows "\<And>M. M \<in> set Ls \<Longrightarrow> wf_logits M" and "wf_logits L" and "0 < lg_v L"
    and "\<And>M. M \<in> set Ls \<Longrightarrow> lg_shape M = lg_shape L"
  using assms by (auto simp: tensors_ok_def list_all_iff)

lemma forward_fec_at:
  fixes T adv eps :: real
  assumes "z \<noteq> []" "support_ok (length z) ids valid" "0 < eps"
    and "length task = length valid" "\<And>i. i < length valid \<Longrightarrow> valid ! i \<Longrightarrow> task ! i = ft (ids ! i)"
    and "length nuis = length valid" "\<And>i. i < length valid \<Longrightarrow> valid ! i \<Longrightarrow> nuis ! i = fn (ids ! i)"
    and "j < length valid" "valid ! j" and "ids ! j = yt" "set (valid_ids ids valid) = A"
    and "lp = sel_log_probs T z ids valid" "p = (\<lambda>k. probs T z ! k)"
  defines "M \<equiv> forward_moments_at lp task valid (Some nuis) eps"
  shows "\<lparr>fs_benefit = adv * (fm_residual M ! j - fm_residual_mean M),
      fs_fisher_cost = fm_fisher_cost M, fs_displacement_norm = fm_displacement_norm M,
      fs_task_norm = fm_task_norm M, fs_nuisance_norm = fm_nuisance_norm M,
      fs_cosine = fm_cosine M, fs_projection = fm_projection M,
      fs_residual_cov = fm_residual_cov M, fs_alignment = fm_residual M ! j - fm_residual_mean M\<rparr>
    = fec_ref A p ft fn eps yt adv"
  using forward_moments_at_ref [OF assms(1-9), where T = T and adv = adv]
  by (subst fec_ref_record) (simp add: assms(10-13) M_def Let_def)

lemma reverse_fec_at:
  fixes T adv eps :: real
  assumes "z \<noteq> []" "support_ok (length z) ids valid" "0 < eps"
    and "length task = length valid" "\<And>i. i < length valid \<Longrightarrow> valid ! i \<Longrightarrow> task ! i = ft (ids ! i)"
    and "length nuis = length valid" "\<And>i. i < length valid \<Longrightarrow> valid ! i \<Longrightarrow> nuis ! i = fn (ids ! i)"
    and "j < length valid" "valid ! j" and "ids ! j = yt" "set (valid_ids ids valid) = A"
    and "lp = sel_log_probs T z ids valid" "p = (\<lambda>k. probs T z ! k)"
  defines "M \<equiv> reverse_tangent_moments_at lp task valid (Some nuis) eps"
  shows "\<lparr>fs_benefit = adv * (tm_residual M ! j - tm_residual_mean M),
      fs_fisher_cost = tm_fisher_cost M, fs_displacement_norm = tm_displacement_norm M,
      fs_task_norm = tm_task_norm M, fs_nuisance_norm = tm_nuisance_norm M,
      fs_cosine = tm_cosine M, fs_projection = tm_projection M,
      fs_residual_cov = tm_residual_cov M, fs_alignment = tm_residual M ! j - tm_residual_mean M\<rparr>
    = fec_ref A p (tangent A p ft) (tangent A p fn) eps yt adv"
  using reverse_tangent_moments_at_ref [OF assms(1-9), where T = T and adv = adv]
  by (subst fec_ref_record) (simp add: assms(10-13) M_def Let_def)

text \<open>What the proofs need at one position of a support built from well-formed tensors.\<close>

lemma sel_facts:
  assumes "tensors_ok Ls" "support_for topk k T L sources y S" "L \<in> set Ls" "t < lg_n L * lg_s L"
  shows "length (sp_ids S ! t) = length (sp_valid S ! t)"
    and "M \<in> set Ls \<Longrightarrow> lg_rows M ! t \<noteq> []"
    and "M \<in> set Ls \<Longrightarrow> support_ok (length (lg_rows M ! t)) (sp_ids S ! t) (sp_valid S ! t)"
    and "M \<in> set Ls \<Longrightarrow> i < length (sp_valid S ! t) \<Longrightarrow> sp_valid S ! t ! i \<Longrightarrow>
      sel_log_probs T (lg_rows M ! t) (sp_ids S ! t) (sp_valid S ! t) ! i
        = log_probs T (lg_rows M ! t) ! (sp_ids S ! t ! i)"
    and "M \<in> set Ls \<Longrightarrow> i < length (sp_valid S ! t) \<Longrightarrow> sp_valid S ! t ! i \<Longrightarrow>
      exp (log_probs T (lg_rows M ! t) ! (sp_ids S ! t ! i)) = probs T (lg_rows M ! t) ! (sp_ids S ! t ! i)"
    and "tk_vals (sampled_index L y S) ! t < length (sp_valid S ! t)"
    and "sp_valid S ! t ! (tk_vals (sampled_index L y S) ! t)"
    and "sp_ids S ! t ! (tk_vals (sampled_index L y S) ! t) = token_at y t"
    and "set (valid_ids (sp_ids S ! t) (sp_valid S ! t)) = support_set topk k sources y t"
proof -
  note D = support_forD [OF assms(2)]
  show "length (sp_ids S ! t) = length (sp_valid S ! t)"
    "tk_vals (sampled_index L y S) ! t < length (sp_valid S ! t)"
    "sp_valid S ! t ! (tk_vals (sampled_index L y S) ! t)"
    "sp_ids S ! t ! (tk_vals (sampled_index L y S) ! t) = token_at y t"
    "set (valid_ids (sp_ids S ! t) (sp_valid S ! t)) = support_set topk k sources y t"
    using D(5-10) [OF assms(4)] by simp_all
  assume M: "M \<in> set Ls"
  note R = tensors_ok_row [OF assms(1) M assms(3,4)]
  show "lg_rows M ! t \<noteq> []" "support_ok (length (lg_rows M ! t)) (sp_ids S ! t) (sp_valid S ! t)"
    using R D(4) [OF assms(4)] by simp_all
  assume i: "i < length (sp_valid S ! t)" "sp_valid S ! t ! i"
  then have "i < sp_w S" using D(5) [OF assms(4)] by simp
  note row = sel_row_nth [OF assms(1) M assms(3,2,4) this i(2)]
  show "sel_log_probs T (lg_rows M ! t) (sp_ids S ! t) (sp_valid S ! t) ! i
        = log_probs T (lg_rows M ! t) ! (sp_ids S ! t ! i)" by (rule row(1))
  show "exp (log_probs T (lg_rows M ! t) ! (sp_ids S ! t ! i)) = probs T (lg_rows M ! t) ! (sp_ids S ! t ! i)"
    using nth_probs [OF row(2)] by simp
qed

text \<open>The two supports the functions build: from the Teachers only, and with the Student.\<close>

lemma frames:
  assumes topk: "topk_select topk" and ten: "tensors_ok (P # Ls @ [S])" and ids: "ids_ok S y"
    and k: "validated_top_k top_k = Inr k" and T: "0 < T"
  shows "\<exists>U. build_truncated_topk_support topk (P # Ls) y top_k None = Inr U
      \<and> support_for topk k T P (P # Ls) y U"
    and "\<exists>U. build_truncated_topk_support topk (P # Ls) y top_k (Some S) = Inr U
      \<and> support_for topk k T P (P # Ls @ [S]) y U"
proof -
  have "lg_shape S = lg_shape P" using ten by (simp add: tensors_ok_def)
  then have idsP: "ids_ok P y" using ids by (simp add: ids_ok_def token_shape_def lg_shape_eq_iff)
  have "tensors_ok (P # Ls)" using ten by (simp add: tensors_ok_def)
  then show "\<exists>U. build_truncated_topk_support topk (P # Ls) y top_k None = Inr U
      \<and> support_for topk k T P (P # Ls) y U"
    using truncated_setup [OF topk _ idsP k T, of Ls None] by simp
  show "\<exists>U. build_truncated_topk_support topk (P # Ls) y top_k (Some S) = Inr U
      \<and> support_for topk k T P (P # Ls @ [S]) y U"
    using truncated_setup [OF topk _ idsP k T, of Ls "Some S"] ten by simp
qed

lemma tensors_ok_dims:
  assumes "tensors_ok (P # Ls)" "M \<in> set Ls"
  shows "wf_logits M" "lg_shape M = lg_shape P" "lg_n M = lg_n P" "lg_s M = lg_s P" "lg_v M = lg_v P"
  using assms by (auto simp: tensors_ok_def list_all_iff lg_shape_eq_iff)

lemma tok_of_sel [simp]: "tok_of (sel_tensor T L S) f = tok_of L f"
  by (simp add: tok_of_def)

lemma tok_map_tok_of [simp]: "tok_map f (tok_of L g) = tok_of L (\<lambda>t. f (g t))"
  by (simp add: tok_map_def tok_of_def)

lemma tok_of_tripleI:
  assumes "\<And>t. t < lg_n L * lg_s L \<Longrightarrow> (a t, b t, c t) = R t"
  shows "tok_of L a = tok_of L (\<lambda>t. fst (R t)) \<and> tok_of L b = tok_of L (\<lambda>t. fst (snd (R t)))
    \<and> tok_of L c = tok_of L (\<lambda>t. snd (snd (R t)))"
  using assms by (auto intro!: tok_of_eqI simp: prod_eq_iff)

lemma truncated_forward_fec_stats_eq:
  assumes topk: "topk_select topk" and ten: "tensors_ok [P, N, Z, S]" and ids: "ids_ok S y"
    and k: "validated_top_k top_k = Inr k" and T: "0 < T" and e: "0 < e" and adv: "length adv = lg_n S"
  shows "truncated_forward_fec_stats topk P N Z S y adv top_k T (Fin e) = Inr (tok_of S (\<lambda>t.
    fec_ref (support_set topk k [P, N, Z] y t) (stu_prob T S t) (task_prob T P N t)
      (nuis_prob T P N Z t) e (token_at y t) (row_at (lg_s S) adv t)))"
proof -
  obtain U where U: "build_truncated_topk_support topk [P, N, Z] y top_k None = Inr U"
    and sf: "support_for topk k T P [P, N, Z] y U"
    using frames(1) [OF topk _ ids k T, of P "[N, Z]"] ten by auto
  have wf: "wf_logits P" using ten by (simp add: tensors_ok_def)
  note D = support_forD [OF sf]
  note dims = tensors_ok_dims [OF ten, of N, simplified] tensors_ok_dims [OF ten, of Z, simplified]
    tensors_ok_dims [OF ten, of S, simplified]
  note sels = D(2) [OF wf refl] D(2) [OF dims(1,2)] D(2) [OF dims(6,7)] D(2) [OF dims(11,12)]
  show ?thesis
    apply (simp add: truncated_forward_fec_stats_def U D(1,3) sels dims adv forward_moments_def e Let_def not_le)
  proof (rule tok_of_eqI, goal_cases)
    case (1 t)
    then have t: "t < lg_n P * lg_s P" using dims by simp
    note F = sel_facts [OF ten sf _ t, simplified]
    show ?case
      using t F F(2-5) [of S] F(4,5) [of P] F(4,5) [of N] F(4,5) [of Z]
      by (simp add: dims row_opt_def,
        intro forward_fec_at [where T = T and z = "lg_rows S ! t" and ids = "sp_ids U ! t"])
        (auto simp: e task_prob_def nuis_prob_def stu_prob_def fun_eq_iff)
  qed
qed

lemma truncated_reverse_fec_stats_eq:
  assumes topk: "topk_select topk" and ten: "tensors_ok [P, N, Z, S]" and ids: "ids_ok S y"
    and k: "validated_top_k top_k = Inr k" and T: "0 < T" and e: "0 < e" and adv: "length adv = lg_n S"
  defines "A \<equiv> support_set topk k [P, N, Z, S] y"
  shows "truncated_reverse_fec_stats topk P N Z S y adv top_k T (Fin e) = Inr (tok_of S (\<lambda>t.
    fec_ref (A t) (stu_prob T S t) (tangent (A t) (stu_prob T S t) (task_log T P N t))
      (tangent (A t) (stu_prob T S t) (nuis_log T P N Z t)) e (token_at y t) (row_at (lg_s S) adv t)))"
proof -
  obtain U where U: "build_truncated_topk_support topk [P, N, Z] y top_k (Some S) = Inr U"
    and sf: "support_for topk k T P [P, N, Z, S] y U"
    using frames(2) [OF topk _ ids k T, of P "[N, Z]"] ten by auto
  have wf: "wf_logits P" using ten by (simp add: tensors_ok_def)
  note D = support_forD [OF sf]
  note dims = tensors_ok_dims [OF ten, of N, simplified] tensors_ok_dims [OF ten, of Z, simplified]
    tensors_ok_dims [OF ten, of S, simplified]
  note sels = D(2) [OF wf refl] D(2) [OF dims(1,2)] D(2) [OF dims(6,7)] D(2) [OF dims(11,12)]
  show ?thesis
    apply (simp add: truncated_reverse_fec_stats_def U D(1,3) sels dims adv reverse_tangent_moments_def e Let_def not_le)
  proof (rule tok_of_eqI, goal_cases)
    case (1 t)
    then have t: "t < lg_n P * lg_s P" using dims by simp
    note F = sel_facts [OF ten sf _ t, simplified]
    show ?case
      using t F F(2-5) [of S] F(4,5) [of P] F(4,5) [of N] F(4,5) [of Z]
      by (simp add: dims row_opt_def,
        intro reverse_fec_at [where T = T and z = "lg_rows S ! t" and ids = "sp_ids U ! t"])
        (auto simp: e task_log_def nuis_log_def stu_prob_def fun_eq_iff A_def)
  qed
qed

lemma truncated_forward_displacement_stats_eq:
  assumes topk: "topk_select topk" and ten: "tensors_ok [E, B, S]" and ids: "ids_ok S y"
    and k: "validated_top_k top_k = Inr k" and T: "0 < T" and adv: "length adv = lg_n S"
  defines "R \<equiv> \<lambda>t. disp_ref (support_set topk k [E, B] y t) (stu_prob T S t) (task_prob T E B t)
      (token_at y t) (row_at (lg_s S) adv t)"
  shows "truncated_forward_displacement_stats topk E B S y adv top_k T
    = Inr (tok_of S (\<lambda>t. fst (R t)), tok_of S (\<lambda>t. fst (snd (R t))), tok_of S (\<lambda>t. snd (snd (R t))))"
proof -
  obtain U where U: "build_truncated_topk_support topk [E, B] y top_k None = Inr U"
    and sf: "support_for topk k T E [E, B] y U"
    using frames(1) [OF topk _ ids k T, of E "[B]"] ten by auto
  have wf: "wf_logits E" using ten by (simp add: tensors_ok_def)
  note D = support_forD [OF sf]
  note dims = tensors_ok_dims [OF ten, of B, simplified] tensors_ok_dims [OF ten, of S, simplified]
  note sels = D(2) [OF wf refl] D(2) [OF dims(1,2)] D(2) [OF dims(6,7)]
  show ?thesis
    apply (simp add: truncated_forward_displacement_stats_def U D(1,3) sels dims adv forward_moments_def Let_def not_le)
  proof (rule tok_of_tripleI, goal_cases)
    case (1 t)
    then have t: "t < lg_n E * lg_s E" using dims by simp
    note F = sel_facts [OF ten sf _ t, simplified]
    let ?task = "vsub (vexp (sel_log_probs T (lg_rows E ! t) (sp_ids U ! t) (sp_valid U ! t)))
        (vexp (sel_log_probs T (lg_rows B ! t) (sp_ids U ! t) (sp_valid U ! t)))"
    have j: "?task ! i = task_prob T E B t (sp_ids U ! t ! i)"
      if "i < length (sp_valid U ! t)" "sp_valid U ! t ! i" for i
      using that F(1) F(4,5) [of E] F(4,5) [of B] by (simp add: task_prob_def)
    have "(adv' * (?task ! i - fm_residual_mean M), fm_fisher_cost M, fm_displacement_norm M)
      = disp_ref (support_set topk k [E, B] y t) (stu_prob T S t) (task_prob T E B t) (token_at y t) adv'"
      if "i = tk_vals (sampled_index E y U) ! t"
        "M = forward_moments_at (sel_log_probs T (lg_rows S ! t) (sp_ids U ! t) (sp_valid U ! t))
          ?task (sp_valid U ! t) None e" for M i adv' e
      unfolding that F(9) [symmetric] F(8) [symmetric] stu_prob_def [abs_def]
      by (rule forward_moments_at_none) (use F j in auto)
    then show ?case
      using t F(1) by (simp add: dims row_opt_def R_def gather_col_def)
  qed
qed

lemma truncated_reverse_displacement_stats_eq:
  assumes topk: "topk_select topk" and ten: "tensors_ok [B, E, S]" and ids: "ids_ok S y"
    and k: "validated_top_k top_k = Inr k" and T: "0 < T" and adv: "length adv = lg_n S"
  defines "A \<equiv> support_set topk k [B, E, S] y"
  defines "R \<equiv> \<lambda>t. disp_ref (A t) (stu_prob T S t) (tangent (A t) (stu_prob T S t) (task_log T E B t))
      (token_at y t) (row_at (lg_s S) adv t)"
  shows "truncated_reverse_displacement_stats topk E B S y adv top_k T
    = Inr (tok_of S (\<lambda>t. fst (R t)), tok_of S (\<lambda>t. fst (snd (R t))), tok_of S (\<lambda>t. snd (snd (R t))))"
proof -
  obtain U where U: "build_truncated_topk_support topk [B, E] y top_k (Some S) = Inr U"
    and sf: "support_for topk k T B [B, E, S] y U"
    using frames(2) [OF topk _ ids k T, of B "[E]"] ten by auto
  have wf: "wf_logits B" using ten by (simp add: tensors_ok_def)
  note D = support_forD [OF sf]
  note dims = tensors_ok_dims [OF ten, of E, simplified] tensors_ok_dims [OF ten, of S, simplified]
  note sels = D(2) [OF wf refl] D(2) [OF dims(1,2)] D(2) [OF dims(6,7)]
  show ?thesis
    apply (simp add: truncated_reverse_displacement_stats_def U D(1,3) sels dims adv
        reverse_tangent_moments_def Let_def not_le)
  proof (rule tok_of_tripleI, goal_cases)
    case (1 t)
    then have t: "t < lg_n B * lg_s B" using dims by simp
    note F = sel_facts [OF ten sf _ t, simplified]
    let ?task = "vsub (sel_log_probs T (lg_rows E ! t) (sp_ids U ! t) (sp_valid U ! t))
        (sel_log_probs T (lg_rows B ! t) (sp_ids U ! t) (sp_valid U ! t))"
    have j: "?task ! i = task_log T E B t (sp_ids U ! t ! i)"
      if "i < length (sp_valid U ! t)" "sp_valid U ! t ! i" for i
      using that F(1) F(4,5) [of E] F(4,5) [of B] by (simp add: task_log_def)
    have "(adv' * (tm_residual M ! i - tm_residual_mean M), tm_fisher_cost M, tm_displacement_norm M)
      = disp_ref (A t) (stu_prob T S t) (tangent (A t) (stu_prob T S t) (task_log T E B t)) (token_at y t) adv'"
      if "i = tk_vals (sampled_index B y U) ! t"
        "M = reverse_tangent_moments_at (sel_log_probs T (lg_rows S ! t) (sp_ids U ! t) (sp_valid U ! t))
          ?task (sp_valid U ! t) None e" for M i adv' e
      unfolding that A_def F(9) [symmetric] F(8) [symmetric] stu_prob_def [abs_def]
      by (rule reverse_tangent_moments_at_none) (use F j in auto)
    then show ?case
      using t F(1) by (simp add: dims row_opt_def R_def)
  qed
qed

end
