(* ===== verification/TopkLosses.thy ===== *)
theory TopkLosses
  imports TopkStatsRef
begin

text \<open>
  The losses on a truncated support (\<open>risk_aware_opsd/verpo_topk.py\<close>): the restricted Forward
  and Reverse KL anchors, the signed Forward-KL corrections, the geometric Reverse-KL correction,
  and the entry points of the Fixed, CTR and FEC controllers. Evidence weights are a token tensor
  of reals. A coordinate filled with minus infinity is \<open>None\<close>.
\<close>

section \<open>Token tensors\<close>

definition tok_map2 :: "('a \<Rightarrow> 'b \<Rightarrow> 'c) \<Rightarrow> 'a tok \<Rightarrow> 'b tok \<Rightarrow> 'c tok" where
  "tok_map2 f A B = \<lparr>tk_n = tk_n A, tk_s = tk_s A, tk_vals = map2 f (tk_vals A) (tk_vals B)\<rparr>"

text \<open>\<open>residual = task - alpha.unsqueeze(-1) * nuisance\<close> on every row.\<close>

definition lg_residual :: "logits \<Rightarrow> real tok \<Rightarrow> logits \<Rightarrow> logits" where
  "lg_residual task alpha nuisance = task\<lparr>lg_rows := map
     (\<lambda>t. vsub (lg_rows task ! t) (vscale (tk_vals alpha ! t) (lg_rows nuisance ! t)))
     [0..<length (lg_rows task)]\<rparr>"

section \<open>Restricted divergences and corrections\<close>

definition restricted_forward_kl :: "logits \<Rightarrow> logits \<Rightarrow> support \<Rightarrow> real \<Rightarrow> real tok res" where
  "restricted_forward_kl teacher_log_probs student_log_probs S temperature =
     (let teacher_probs = lg_map vexp teacher_log_probs in
      rbind (masked_sum (lg_map2 vmul teacher_probs (lg_map2 vsub teacher_log_probs student_log_probs)) S)
        (\<lambda>m. Inr (tok_map (\<lambda>x. temperature * x) m)))"

definition restricted_reverse_kl :: "logits \<Rightarrow> logits \<Rightarrow> support \<Rightarrow> real \<Rightarrow> real tok res" where
  "restricted_reverse_kl student_log_probs teacher_log_probs S temperature =
     rbind (masked_sum (lg_map2 vmul (lg_map vexp student_log_probs)
        (lg_map2 vsub student_log_probs teacher_log_probs)) S)
       (\<lambda>m. Inr (tok_map (\<lambda>x. temperature * x) m))"

text \<open>\<open>-float(temperature) * weights * masked_sum(displacement * student, support)\<close>, shared by
  every Forward-KL correction.\<close>

definition signed_correction :: "real \<Rightarrow> real tok \<Rightarrow> logits \<Rightarrow> logits \<Rightarrow> support \<Rightarrow> real tok res" where
  "signed_correction temperature weights displacement student_log_probs S =
     rbind (masked_sum (lg_map2 vmul displacement student_log_probs) S)
       (\<lambda>m. Inr (tok_map2 (\<lambda>w x. - temperature * w * x) weights m))"

text \<open>\<open>torch.logsumexp\<close> of a row with entries at minus infinity.\<close>

definition masked_logsumexp :: "bool list \<Rightarrow> vec \<Rightarrow> real option" where
  "masked_logsumexp valid xs =
     (let kept = map fst (filter snd (zip xs valid)) in if kept = [] then None else Some (logsumexp kept))"

text \<open>One position of the geometric correction; \<open>None\<close> is a non-finite value (both
  partitions minus infinity).\<close>

definition geometric_correction_at :: "real \<Rightarrow> vec \<Rightarrow> vec \<Rightarrow> vec \<Rightarrow> real \<Rightarrow> bool list \<Rightarrow> real option" where
  "geometric_correction_at scale student_log_probs base_log_probs log_ratio weight valid =
     (let ratio = where_else 0 valid log_ratio;
          base_log_z = masked_logsumexp valid base_log_probs;
          log_z = masked_logsumexp valid (vadd base_log_probs (vscale weight ratio));
          retained_mass = vsum (where_else 0 valid (vexp student_log_probs));
          expected_ratio = vsum (where_else 0 valid (vmul (vexp student_log_probs) ratio))
      in case (log_z, base_log_z) of
           (Some a, Some b) \<Rightarrow> Some (scale * (retained_mass * (a - b) - weight * expected_ratio))
         | _ \<Rightarrow> None)"

definition reverse_geometric_correction ::
  "logits \<Rightarrow> logits \<Rightarrow> logits \<Rightarrow> real tok \<Rightarrow> support \<Rightarrow> real \<Rightarrow> real tok res" where
  "reverse_geometric_correction student_log_probs base_log_probs log_ratio weights S temperature =
     (if lg_shape student_log_probs \<noteq> sp_shape S
      then Inl (ValueError ''student_log_probs must match the support shape'')
      else if lg_shape base_log_probs \<noteq> sp_shape S
      then Inl (ValueError ''base_log_probs must match the support shape'')
      else if lg_shape log_ratio \<noteq> sp_shape S
      then Inl (ValueError ''log_ratio must match the support shape'')
      else if tok_shape weights \<noteq> sp_token_shape S
      then Inl (ValueError ''weights must match the support token dimensions'')
      else if temperature \<le> 0 then Inl (ValueError ''temperature must be positive and finite'')
      else let correction = tok_of student_log_probs (\<lambda>t. geometric_correction_at temperature
          (lg_rows student_log_probs ! t) (lg_rows base_log_probs ! t) (lg_rows log_ratio ! t)
          (tk_vals weights ! t) (sp_valid S ! t))
      in if None \<in> set (tk_vals correction)
      then Inl (ValueError ''Reverse-KL correction must be finite'')
      else Inr (tok_map the correction))"

section \<open>Reverse-KL entry points\<close>

text \<open>The shape checks \<open>student and <name> Teacher logits must have identical shapes\<close>.\<close>

fun check_teachers :: "logits \<Rightarrow> (string \<times> logits) list \<Rightarrow> unit res" where
  "check_teachers student [] = Inr ()"
| "check_teachers student ((name, L) # rest) =
     (if lg_shape student \<noteq> lg_shape L
      then Inl (ValueError (''student and '' @ name @ '' Teacher logits must have identical shapes''))
      else check_teachers student rest)"

definition truncated_reverse_teacher_losses ::
  "(nat \<Rightarrow> vec \<Rightarrow> nat list) \<Rightarrow> logits \<Rightarrow> logits \<Rightarrow> logits \<Rightarrow> logits \<Rightarrow> token_ids \<Rightarrow> real tok \<Rightarrow> top_k_arg \<Rightarrow> real
    \<Rightarrow> (real tok \<times> real tok) res" where
  "truncated_reverse_teacher_losses topk student reference base evidence y weights top_k temperature =
     rbind (check_teachers student [(''reference'', reference), (''base'', base), (''evidence'', evidence)]) (\<lambda>_.
     if tok_shape weights \<noteq> token_shape student
     then Inl (ValueError ''evidence_weights must match the token dimensions'')
     else
       rbind (build_truncated_topk_support topk [reference] y top_k (Some student)) (\<lambda>reference_support.
       rbind (build_truncated_topk_support topk [base, evidence] y top_k (Some student)) (\<lambda>correction_support.
       rbind (full_softmax_normalization student temperature) (\<lambda>student_normalization.
       rbind (selected_log_probs_from_normalization student_normalization reference_support False)
         (\<lambda>student_reference.
       rbind (selected_log_probs_from_normalization student_normalization correction_support False)
         (\<lambda>student_correction.
       rbind (selected_log_probs reference reference_support temperature True) (\<lambda>reference_log_probs.
       rbind (selected_log_probs base correction_support temperature True) (\<lambda>base_log_probs.
       rbind (selected_log_probs evidence correction_support temperature True) (\<lambda>evidence_log_probs.
       rbind (restricted_reverse_kl student_reference reference_log_probs reference_support temperature)
         (\<lambda>reference_loss.
       rbind (reverse_geometric_correction student_correction base_log_probs
           (lg_map2 vsub evidence_log_probs base_log_probs) weights correction_support temperature)
         (\<lambda>correction. Inr (reference_loss, correction))))))))))))"

definition truncated_reverse_fixed_losses ::
  "(nat \<Rightarrow> vec \<Rightarrow> nat list) \<Rightarrow> logits \<Rightarrow> logits \<Rightarrow> logits \<Rightarrow> token_ids \<Rightarrow> real tok \<Rightarrow> top_k_arg \<Rightarrow> real
    \<Rightarrow> (real tok \<times> real tok) res" where
  "truncated_reverse_fixed_losses topk student no_evidence evidence y weights top_k temperature =
     truncated_reverse_teacher_losses topk student no_evidence no_evidence evidence y weights top_k temperature"

definition truncated_reverse_ctr_losses ::
  "(nat \<Rightarrow> vec \<Rightarrow> nat list) \<Rightarrow> logits \<Rightarrow> logits \<Rightarrow> logits \<Rightarrow> logits \<Rightarrow> token_ids \<Rightarrow> real tok \<Rightarrow> top_k_arg \<Rightarrow> real
    \<Rightarrow> (real tok \<times> real tok) res" where
  "truncated_reverse_ctr_losses topk student no_evidence positive negative y weights top_k temperature =
     truncated_reverse_teacher_losses topk student no_evidence negative positive y weights top_k temperature"

definition truncated_reverse_correction_loss ::
  "(nat \<Rightarrow> vec \<Rightarrow> nat list) \<Rightarrow> logits \<Rightarrow> logits \<Rightarrow> logits \<Rightarrow> token_ids \<Rightarrow> real tok \<Rightarrow> top_k_arg \<Rightarrow> real
    \<Rightarrow> string \<Rightarrow> real tok res" where
  "truncated_reverse_correction_loss topk student base evidence y weights top_k temperature vocab_mode =
     rbind (validate_verpo_vocab_config vocab_mode top_k) (\<lambda>_.
     if vocab_mode \<noteq> ''topk_truncated''
     then Inl (ValueError ''truncated correction requires vocab_mode=topk_truncated'')
     else rbind (check_teachers student [(''base'', base), (''evidence'', evidence)]) (\<lambda>_.
     if tok_shape weights \<noteq> token_shape student
     then Inl (ValueError ''evidence_weights must match the token dimensions'')
     else
       rbind (build_truncated_topk_support topk [base, evidence] y top_k (Some student)) (\<lambda>S.
       rbind (selected_log_probs student S temperature False) (\<lambda>student_log_probs.
       rbind (selected_log_probs base S temperature True) (\<lambda>base_log_probs.
       rbind (selected_log_probs evidence S temperature True) (\<lambda>evidence_log_probs.
         reverse_geometric_correction student_log_probs base_log_probs
           (lg_map2 vsub evidence_log_probs base_log_probs) weights S temperature))))))"

definition truncated_reverse_fixed_loss ::
  "(nat \<Rightarrow> vec \<Rightarrow> nat list) \<Rightarrow> logits \<Rightarrow> logits \<Rightarrow> logits \<Rightarrow> token_ids \<Rightarrow> real tok \<Rightarrow> top_k_arg \<Rightarrow> real
    \<Rightarrow> string \<Rightarrow> real tok res" where
  "truncated_reverse_fixed_loss topk student no_evidence evidence y weights top_k temperature vocab_mode =
     truncated_reverse_correction_loss topk student no_evidence evidence y weights top_k temperature vocab_mode"

definition truncated_reverse_ctr_loss ::
  "(nat \<Rightarrow> vec \<Rightarrow> nat list) \<Rightarrow> logits \<Rightarrow> logits \<Rightarrow> logits \<Rightarrow> token_ids \<Rightarrow> real tok \<Rightarrow> top_k_arg \<Rightarrow> real
    \<Rightarrow> string \<Rightarrow> real tok res" where
  "truncated_reverse_ctr_loss topk student positive negative y weights top_k temperature vocab_mode =
     truncated_reverse_correction_loss topk student negative positive y weights top_k temperature vocab_mode"

definition check_fec_inputs :: "logits \<Rightarrow> logits \<Rightarrow> logits \<Rightarrow> logits \<Rightarrow> real tok \<Rightarrow> real tok \<Rightarrow> unit res" where
  "check_fec_inputs student positive negative no_evidence weights projection =
     rbind (check_teachers student
       [(''positive'', positive), (''negative'', negative), (''no-evidence'', no_evidence)]) (\<lambda>_.
     if tok_shape weights \<noteq> token_shape student
     then Inl (ValueError ''evidence_weights must match the token dimensions'')
     else if tok_shape projection \<noteq> token_shape student
     then Inl (ValueError ''nuisance_projection_coefficient must match the token dimensions'')
     else Inr ())"

definition truncated_reverse_fec_loss ::
  "(nat \<Rightarrow> vec \<Rightarrow> nat list) \<Rightarrow> logits \<Rightarrow> logits \<Rightarrow> logits \<Rightarrow> logits \<Rightarrow> token_ids \<Rightarrow> real tok \<Rightarrow> real tok
    \<Rightarrow> top_k_arg \<Rightarrow> real \<Rightarrow> real tok res" where
  "truncated_reverse_fec_loss topk student positive negative no_evidence y weights projection top_k temperature =
     rbind (check_fec_inputs student positive negative no_evidence weights projection) (\<lambda>_.
       rbind (build_truncated_topk_support topk [positive, negative, no_evidence] y top_k (Some student)) (\<lambda>S.
       rbind (full_softmax_normalization student temperature) (\<lambda>student_normalization.
       rbind (selected_log_probs_from_normalization student_normalization S False) (\<lambda>student_log_probs.
       rbind (selected_log_probs positive S temperature True) (\<lambda>positive_log_probs.
       rbind (selected_log_probs negative S temperature True) (\<lambda>negative_log_probs.
       rbind (selected_log_probs no_evidence S temperature True) (\<lambda>no_evidence_log_probs.
       let task_log_ratio = lg_map2 vsub positive_log_probs negative_log_probs;
           nuisance_log_ratio = lg_map2 vsub
             (lg_map (vscale (1/2)) (lg_map2 vadd positive_log_probs negative_log_probs))
             no_evidence_log_probs;
           fec_log_ratio = lg_residual task_log_ratio projection nuisance_log_ratio
       in reverse_geometric_correction student_log_probs negative_log_probs fec_log_ratio weights S
            temperature)))))))"

section \<open>Forward-KL entry points\<close>

definition truncated_forward_fixed_losses ::
  "(nat \<Rightarrow> vec \<Rightarrow> nat list) \<Rightarrow> logits \<Rightarrow> logits \<Rightarrow> logits \<Rightarrow> logits \<Rightarrow> token_ids \<Rightarrow> real tok \<Rightarrow> top_k_arg \<Rightarrow> real
    \<Rightarrow> (real tok \<times> real tok) res" where
  "truncated_forward_fixed_losses topk student reference no_evidence evidence y weights top_k temperature =
     rbind (check_teachers student [(''reference'', reference), (''base'', no_evidence), (''evidence'', evidence)])
       (\<lambda>_.
     if tok_shape weights \<noteq> token_shape student
     then Inl (ValueError ''evidence_weights must match the token dimensions'')
     else
       rbind (build_truncated_topk_support topk [reference] y top_k None) (\<lambda>reference_support.
       rbind (build_truncated_topk_support topk [no_evidence, evidence] y top_k None) (\<lambda>correction_support.
       rbind (full_softmax_normalization student temperature) (\<lambda>student_normalization.
       rbind (selected_log_probs_from_normalization student_normalization reference_support False)
         (\<lambda>student_reference.
       rbind (selected_log_probs_from_normalization student_normalization correction_support False)
         (\<lambda>student_correction.
       rbind (selected_log_probs reference reference_support temperature True) (\<lambda>reference_log_probs.
       rbind (selected_log_probs no_evidence correction_support temperature True) (\<lambda>base_log_probs.
       rbind (selected_log_probs evidence correction_support temperature True) (\<lambda>evidence_log_probs.
       let displacement = lg_map2 vsub (lg_map vexp evidence_log_probs) (lg_map vexp base_log_probs) in
       rbind (restricted_forward_kl reference_log_probs student_reference reference_support temperature)
         (\<lambda>reference_loss.
       rbind (signed_correction temperature weights displacement student_correction correction_support)
         (\<lambda>correction. Inr (reference_loss, correction))))))))))))"

definition truncated_forward_fixed_loss ::
  "(nat \<Rightarrow> vec \<Rightarrow> nat list) \<Rightarrow> logits \<Rightarrow> logits \<Rightarrow> logits \<Rightarrow> token_ids \<Rightarrow> real tok \<Rightarrow> top_k_arg \<Rightarrow> real
    \<Rightarrow> string \<Rightarrow> real tok res" where
  "truncated_forward_fixed_loss topk student no_evidence evidence y weights top_k temperature vocab_mode =
     rbind (validate_verpo_vocab_config vocab_mode top_k) (\<lambda>_.
     if vocab_mode \<noteq> ''topk_truncated''
     then Inl (ValueError ''truncated correction requires vocab_mode=topk_truncated'')
     else rbind (check_teachers student [(''base'', no_evidence), (''evidence'', evidence)]) (\<lambda>_.
     if tok_shape weights \<noteq> token_shape student
     then Inl (ValueError ''evidence_weights must match the token dimensions'')
     else
       rbind (build_truncated_topk_support topk [no_evidence, evidence] y top_k None) (\<lambda>S.
       rbind (selected_log_probs student S temperature False) (\<lambda>student_log_probs.
       rbind (selected_log_probs no_evidence S temperature True) (\<lambda>base_log_probs.
       rbind (selected_log_probs evidence S temperature True) (\<lambda>evidence_log_probs.
         signed_correction temperature weights
           (lg_map2 vsub (lg_map vexp evidence_log_probs) (lg_map vexp base_log_probs))
           student_log_probs S))))))"

definition truncated_forward_reference_loss ::
  "(nat \<Rightarrow> vec \<Rightarrow> nat list) \<Rightarrow> logits \<Rightarrow> logits \<Rightarrow> token_ids \<Rightarrow> top_k_arg \<Rightarrow> real \<Rightarrow> real tok res" where
  "truncated_forward_reference_loss topk student reference y top_k temperature =
     rbind (check_teachers student [(''reference'', reference)]) (\<lambda>_.
       rbind (build_truncated_topk_support topk [reference] y top_k None) (\<lambda>reference_support.
       rbind (full_softmax_normalization student temperature) (\<lambda>student_normalization.
       rbind (selected_log_probs_from_normalization student_normalization reference_support False)
         (\<lambda>student_reference.
       rbind (selected_log_probs reference reference_support temperature True) (\<lambda>reference_log_probs.
         restricted_forward_kl reference_log_probs student_reference reference_support temperature)))))"

definition truncated_forward_ctr_losses ::
  "(nat \<Rightarrow> vec \<Rightarrow> nat list) \<Rightarrow> logits \<Rightarrow> logits \<Rightarrow> logits \<Rightarrow> logits \<Rightarrow> token_ids \<Rightarrow> real tok \<Rightarrow> top_k_arg \<Rightarrow> real
    \<Rightarrow> (real tok \<times> real tok) res" where
  "truncated_forward_ctr_losses topk student reference positive negative y weights top_k temperature =
     rbind (check_teachers student
       [(''reference'', reference), (''positive'', positive), (''negative'', negative)]) (\<lambda>_.
     if tok_shape weights \<noteq> token_shape student
     then Inl (ValueError ''evidence_weights must match the token dimensions'')
     else
       rbind (build_truncated_topk_support topk [reference] y top_k None) (\<lambda>reference_support.
       rbind (build_truncated_topk_support topk [positive, negative] y top_k None) (\<lambda>correction_support.
       rbind (full_softmax_normalization student temperature) (\<lambda>student_normalization.
       rbind (selected_log_probs_from_normalization student_normalization reference_support False)
         (\<lambda>student_reference.
       rbind (selected_log_probs_from_normalization student_normalization correction_support False)
         (\<lambda>student_correction.
       rbind (selected_log_probs reference reference_support temperature True) (\<lambda>reference_log_probs.
       rbind (selected_log_probs positive correction_support temperature True) (\<lambda>positive_log_probs.
       rbind (selected_log_probs negative correction_support temperature True) (\<lambda>negative_log_probs.
       let displacement = lg_map2 vsub (lg_map vexp positive_log_probs) (lg_map vexp negative_log_probs) in
       rbind (restricted_forward_kl reference_log_probs student_reference reference_support temperature)
         (\<lambda>reference_loss.
       rbind (signed_correction temperature weights displacement student_correction correction_support)
         (\<lambda>correction. Inr (reference_loss, correction))))))))))))"

definition truncated_forward_ctr_loss ::
  "(nat \<Rightarrow> vec \<Rightarrow> nat list) \<Rightarrow> logits \<Rightarrow> logits \<Rightarrow> logits \<Rightarrow> token_ids \<Rightarrow> real tok \<Rightarrow> top_k_arg \<Rightarrow> real
    \<Rightarrow> string \<Rightarrow> real tok res" where
  "truncated_forward_ctr_loss topk student positive negative y weights top_k temperature vocab_mode =
     rbind (validate_verpo_vocab_config vocab_mode top_k) (\<lambda>_.
     if vocab_mode \<noteq> ''topk_truncated''
     then Inl (ValueError ''truncated correction requires vocab_mode=topk_truncated'')
     else rbind (check_teachers student [(''positive'', positive), (''negative'', negative)]) (\<lambda>_.
     if tok_shape weights \<noteq> token_shape student
     then Inl (ValueError ''evidence_weights must match the token dimensions'')
     else
       rbind (build_truncated_topk_support topk [positive, negative] y top_k None) (\<lambda>correction_support.
       rbind (full_softmax_normalization student temperature) (\<lambda>student_normalization.
       rbind (selected_log_probs_from_normalization student_normalization correction_support False)
         (\<lambda>student_correction.
       rbind (selected_log_probs positive correction_support temperature True) (\<lambda>positive_log_probs.
       rbind (selected_log_probs negative correction_support temperature True) (\<lambda>negative_log_probs.
         signed_correction temperature weights
           (lg_map2 vsub (lg_map vexp positive_log_probs) (lg_map vexp negative_log_probs))
           student_correction correction_support)))))))"

definition truncated_forward_fec_loss ::
  "(nat \<Rightarrow> vec \<Rightarrow> nat list) \<Rightarrow> logits \<Rightarrow> logits \<Rightarrow> logits \<Rightarrow> logits \<Rightarrow> token_ids \<Rightarrow> real tok \<Rightarrow> real tok
    \<Rightarrow> top_k_arg \<Rightarrow> real \<Rightarrow> real tok res" where
  "truncated_forward_fec_loss topk student positive negative no_evidence y weights projection top_k temperature =
     rbind (check_fec_inputs student positive negative no_evidence weights projection) (\<lambda>_.
       rbind (build_truncated_topk_support topk [positive, negative, no_evidence] y top_k None) (\<lambda>S.
       rbind (selected_log_probs student S temperature False) (\<lambda>student_log_probs.
       rbind (selected_log_probs positive S temperature True) (\<lambda>positive_log_probs.
       rbind (selected_log_probs negative S temperature True) (\<lambda>negative_log_probs.
       rbind (selected_log_probs no_evidence S temperature True) (\<lambda>no_evidence_log_probs.
       let positive_probs = lg_map vexp positive_log_probs;
           negative_probs = lg_map vexp negative_log_probs;
           no_evidence_probs = lg_map vexp no_evidence_log_probs;
           task = lg_map2 vsub positive_probs negative_probs;
           nuisance = lg_map2 vsub (lg_map (vscale (1/2)) (lg_map2 vadd positive_probs negative_probs))
             no_evidence_probs;
           residual = lg_residual task projection nuisance
       in signed_correction temperature weights residual student_log_probs S))))))"

end
