(* ===== verification/TopkLossesRef.thy ===== *)
theory TopkLossesRef
  imports TopkLosses
begin

text \<open>
  The truncated losses refine reference losses on the set of selected coordinates: a restricted
  KL divergence, a signed first-order correction and the geometric-path correction. A tensor on a
  support \<open>represents\<close> a function of position and vocabulary coordinate; the tensor operations
  of the code preserve it, and a masked sum is the sum of that function over the coordinates.
\<close>

section \<open>Reference losses\<close>

definition kl_ref :: "real \<Rightarrow> nat set \<Rightarrow> (nat \<Rightarrow> real) \<Rightarrow> (nat \<Rightarrow> real) \<Rightarrow> real" where
  "kl_ref T A la lb = T * (\<Sum>k\<in>A. exp (la k) * (la k - lb k))"

definition corr_ref :: "real \<Rightarrow> real \<Rightarrow> nat set \<Rightarrow> (nat \<Rightarrow> real) \<Rightarrow> (nat \<Rightarrow> real) \<Rightarrow> real" where
  "corr_ref T w A d lp = - T * w * (\<Sum>k\<in>A. d k * lp k)"

definition geo_ref ::
  "real \<Rightarrow> real \<Rightarrow> nat set \<Rightarrow> (nat \<Rightarrow> real) \<Rightarrow> (nat \<Rightarrow> real) \<Rightarrow> (nat \<Rightarrow> real) \<Rightarrow> real" where
  "geo_ref T w A lp lb r =
     T * ((\<Sum>k\<in>A. exp (lp k)) * (ln (\<Sum>k\<in>A. exp (lb k + w * r k)) - ln (\<Sum>k\<in>A. exp (lb k)))
       - w * (\<Sum>k\<in>A. exp (lp k) * r k))"

definition log_row :: "real \<Rightarrow> logits \<Rightarrow> nat \<Rightarrow> nat \<Rightarrow> real" where
  "log_row T L t k = log_probs T (lg_rows L ! t) ! k"

text \<open>Probability displacements in terms of log-probabilities.\<close>

definition task_exp :: "real \<Rightarrow> logits \<Rightarrow> logits \<Rightarrow> nat \<Rightarrow> nat \<Rightarrow> real" where
  "task_exp T P N t k = exp (log_row T P t k) - exp (log_row T N t k)"

definition fec_exp :: "real \<Rightarrow> logits \<Rightarrow> logits \<Rightarrow> logits \<Rightarrow> real tok \<Rightarrow> nat \<Rightarrow> nat \<Rightarrow> real" where
  "fec_exp T P N Z alpha t k = task_exp T P N t k - tk_vals alpha ! t *
     (1/2 * (exp (log_row T P t k) + exp (log_row T N t k)) - exp (log_row T Z t k))"

definition fec_log :: "real \<Rightarrow> logits \<Rightarrow> logits \<Rightarrow> logits \<Rightarrow> real tok \<Rightarrow> nat \<Rightarrow> nat \<Rightarrow> real" where
  "fec_log T P N Z alpha t k = task_log T P N t k - tk_vals alpha ! t * nuis_log T P N Z t k"

section \<open>Tensors on a support as functions\<close>

definition represents :: "logits \<Rightarrow> support \<Rightarrow> logits \<Rightarrow> (nat \<Rightarrow> nat \<Rightarrow> real) \<Rightarrow> bool" where
  "represents L U X f \<longleftrightarrow> lg_n X = lg_n L \<and> lg_s X = lg_s L \<and> lg_v X = sp_w U
     \<and> length (lg_rows X) = lg_n L * lg_s L
     \<and> (\<forall>t < lg_n L * lg_s L. length (lg_rows X ! t) = sp_w U
          \<and> (\<forall>i < sp_w U. sp_valid U ! t ! i \<longrightarrow> lg_rows X ! t ! i = f t (sp_ids U ! t ! i)))"

named_theorems repr_intros \<open>closure of the representation relation\<close>

lemma represents_arith [repr_intros]:
  "represents L U X f \<Longrightarrow> represents L U Y g \<Longrightarrow> represents L U (lg_map2 vsub X Y) (\<lambda>t k. f t k - g t k)"
  "represents L U X f \<Longrightarrow> represents L U Y g \<Longrightarrow> represents L U (lg_map2 vadd X Y) (\<lambda>t k. f t k + g t k)"
  "represents L U X f \<Longrightarrow> represents L U Y g \<Longrightarrow> represents L U (lg_map2 vmul X Y) (\<lambda>t k. f t k * g t k)"
  "represents L U X f \<Longrightarrow> represents L U (lg_map (vscale c) X) (\<lambda>t k. c * f t k)"
  "represents L U X f \<Longrightarrow> represents L U (lg_map vexp X) (\<lambda>t k. exp (f t k))"
  by (simp_all add: represents_def)

lemma represents_residual [repr_intros]:
  "represents L U X f \<Longrightarrow> represents L U Y g \<Longrightarrow>
    represents L U (lg_residual X a Y) (\<lambda>t k. f t k - tk_vals a ! t * g t k)"
  by (simp add: represents_def lg_residual_def)

lemma represents_sel:
  assumes "tensors_ok Ls" "support_for topk k T L sources y U" "L \<in> set Ls" "M \<in> set Ls"
  shows "represents L U (sel_tensor T M U) (log_row T M)"
proof -
  have dims: "lg_n M = lg_n L" "lg_s M = lg_s L"
    using tensors_ok_shape [OF assms(1,4,3)] by (simp_all add: lg_shape_eq_iff)
  note D = support_forD [OF assms(2)]
  note F = sel_facts [OF assms(1-3)]
  show ?thesis
    unfolding represents_def
    using dims D(5) F(1) F(4) [OF _ assms(4)]
    by (simp add: log_row_def)
qed

lemma masked_sum_repr:
  assumes "represents L U X f" "support_for topk k T L sources y U"
  shows "masked_sum X U = Inr (tok_of L (\<lambda>t. \<Sum>k \<in> support_set topk k sources y t. f t k))"
proof -
  note D = support_forD [OF assms(2)]
  have shape: "lg_shape X = sp_shape U"
    using assms(1) D(1) by (simp add: represents_def lg_shape_def)
  have "tok_of X (\<lambda>t. vsum (where_else 0 (sp_valid U ! t) (lg_rows X ! t)))
      = tok_of L (\<lambda>t. \<Sum>k \<in> support_set topk k sources y t. f t k)"
  proof -
    have "vsum (where_else 0 (sp_valid U ! t) (lg_rows X ! t)) = (\<Sum>k \<in> support_set topk k sources y t. f t k)"
      if t: "t < lg_n L * lg_s L" for t
      unfolding D(10) [OF t, symmetric]
      by (rule vsum_where_else [OF D(4) [OF t]])
        (use assms(1) t D(5) [OF t] in \<open>auto simp: represents_def\<close>)
    then show ?thesis
      using assms(1) by (simp add: tok_of_def represents_def)
  qed
  then show ?thesis by (simp add: masked_sum_def shape)
qed

lemma masked_logsumexp_sum:
  assumes "support_ok n ids valid" "length xs = length valid"
    and "\<And>i. i < length valid \<Longrightarrow> valid ! i \<Longrightarrow> xs ! i = f (ids ! i)" and "set (valid_ids ids valid) \<noteq> {}"
  shows "masked_logsumexp valid xs = Some (ln (\<Sum>k \<in> set (valid_ids ids valid). exp (f k)))"
proof -
  let ?kept = "map fst (filter snd (zip xs valid))"
  have len: "length ids = length valid" using assms(1) by (simp add: support_ok_def)
  have kept: "?kept = map f (valid_ids ids valid)"
    unfolding valid_ids_def map_map
    using assms(2,3) len
  proof (induction valid arbitrary: xs ids)
    case (Cons v vs)
    obtain x xs' i js where xs: "xs = x # xs'" and ids: "ids = i # js"
      using Cons.prems by (cases xs; cases ids) auto
    have "map fst (filter snd (zip xs' vs)) = map (f \<circ> fst) (filter snd (zip js vs))"
      using Cons.prems xs ids by (intro Cons.IH) (force dest: spec [of _ "Suc _"])+
    moreover have "v \<Longrightarrow> x = f i"
      using Cons.prems(2) [of 0] xs ids by simp
    ultimately show ?case by (simp add: xs ids)
  qed simp
  have "vsum (vexp ?kept) = (\<Sum>k\<leftarrow>valid_ids ids valid. exp (f k))"
    by (simp only: kept vexp_def vsum_def map_map o_def)
  also have "\<dots> = (\<Sum>k \<in> set (valid_ids ids valid). exp (f k))"
    using assms(1) by (simp add: support_ok_def sum_list_distinct_conv_sum_set)
  finally have "logsumexp ?kept = ln (\<Sum>k \<in> set (valid_ids ids valid). exp (f k))"
    by (simp only: logsumexp_def)
  moreover have "?kept \<noteq> []" using assms(4) kept by simp
  ultimately show ?thesis by (simp add: masked_logsumexp_def Let_def)
qed

lemma geometric_correction_at_ref:
  assumes ok: "support_ok n ids valid" and ne: "set (valid_ids ids valid) \<noteq> {}"
    and len: "length lp = length valid" "length lb = length valid" "length lr = length valid"
    and at: "\<And>i. i < length valid \<Longrightarrow> valid ! i \<Longrightarrow> lp ! i = fp (ids ! i) \<and> lb ! i = fb (ids ! i) \<and> lr ! i = fr (ids ! i)"
  shows "geometric_correction_at T lp lb lr w valid = Some (geo_ref T w (set (valid_ids ids valid)) fp fb fr)"
proof -
  let ?A = "set (valid_ids ids valid)"
  have s1: "masked_logsumexp valid lb = Some (ln (\<Sum>k\<in>?A. exp (fb k)))"
    by (rule masked_logsumexp_sum [OF ok]) (use len at ne in auto)
  have s2: "masked_logsumexp valid (vadd lb (vscale w (where_else 0 valid lr)))
      = Some (ln (\<Sum>k\<in>?A. exp (fb k + w * fr k)))"
    by (rule masked_logsumexp_sum [OF ok]) (use len at ne in auto)
  have s3: "vsum (where_else 0 valid (vexp lp)) = (\<Sum>k\<in>?A. exp (fp k))"
    by (rule vsum_where_else [OF ok]) (use len at in auto)
  have s4: "vsum (where_else 0 valid (vmul (vexp lp) (where_else 0 valid lr))) = (\<Sum>k\<in>?A. exp (fp k) * fr k)"
    by (rule vsum_where_else [OF ok]) (use len at in auto)
  show ?thesis by (simp add: geometric_correction_at_def s1 s2 s3 s4 geo_ref_def)
qed

lemma geometric_correction_ref:
  assumes ten: "tensors_ok Ls" and sf: "support_for topk k T L sources y U" and L: "L \<in> set Ls"
    and P: "represents L U P fp" and B: "represents L U B fb" and R: "represents L U R fr"
    and W: "tok_shape W = token_shape L" and T: "0 < T"
  shows "reverse_geometric_correction P B R W U T = Inr (tok_of L (\<lambda>t.
    geo_ref T (tk_vals W ! t) (support_set topk k sources y t) (fp t) (fb t) (fr t)))"
proof -
  note D = support_forD [OF sf]
  have dimsU: "sp_token_shape U = token_shape L" using sf by (simp add: support_for_def)
  have shapes: "lg_shape P = sp_shape U" "lg_shape B = sp_shape U" "lg_shape R = sp_shape U"
    using P B R D(1) by (simp_all add: represents_def lg_shape_def)
  have at: "geometric_correction_at T (lg_rows P ! t) (lg_rows B ! t) (lg_rows R ! t) (tk_vals W ! t)
      (sp_valid U ! t)
    = Some (geo_ref T (tk_vals W ! t) (support_set topk k sources y t) (fp t) (fb t) (fr t))"
    if t: "t < lg_n L * lg_s L" for t
  proof -
    note ok = D(4) [OF t]
    have ne: "set (valid_ids (sp_ids U ! t) (sp_valid U ! t)) \<noteq> {}"
      by (simp add: D(10) [OF t] support_set_def)
    have row: "length (lg_rows X ! t) = length (sp_valid U ! t)"
      "\<And>i. i < length (sp_valid U ! t) \<Longrightarrow> sp_valid U ! t ! i \<Longrightarrow> lg_rows X ! t ! i = f t (sp_ids U ! t ! i)"
      if "represents L U X f" for X f
      using that t D(5) [OF t] by (simp_all add: represents_def)
    show ?thesis
      using geometric_correction_at_ref [OF ok ne row(1) [OF P] row(1) [OF B] row(1) [OF R], of "fp t" "fb t" "fr t"]
        row(2) [OF P] row(2) [OF B] row(2) [OF R]
      by (simp add: D(10) [OF t])
  qed
  have tok: "tok_of P f = tok_of L f" for f :: "nat \<Rightarrow> 'x"
    using P by (simp add: tok_of_def represents_def)
  have vals: "tok_of L (\<lambda>t. geometric_correction_at T (lg_rows P ! t) (lg_rows B ! t) (lg_rows R ! t)
      (tk_vals W ! t) (sp_valid U ! t))
    = tok_of L (\<lambda>t. Some (geo_ref T (tk_vals W ! t) (support_set topk k sources y t) (fp t) (fb t) (fr t)))"
    by (rule tok_of_eqI) (rule at)
  have fin: "None \<notin> set (tk_vals (tok_of L (\<lambda>t. Some (g t))))" for g :: "nat \<Rightarrow> real"
    by (auto simp: tok_of_def)
  show ?thesis
    using T by (simp add: reverse_geometric_correction_def shapes dimsU W tok vals fin Let_def not_le)
qed

section \<open>The entry points\<close>

lemma tensors_ok_iff:
  "tensors_ok Ls \<longleftrightarrow>
    (\<forall>M \<in> set Ls. wf_logits M \<and> 0 < lg_v M \<and> (\<forall>N \<in> set Ls. lg_shape N = lg_shape M))"
proof
  assume ok: "tensors_ok Ls"
  show "\<forall>M \<in> set Ls. wf_logits M \<and> 0 < lg_v M \<and> (\<forall>N \<in> set Ls. lg_shape N = lg_shape M)"
  proof
    fix M assume M: "M \<in> set Ls"
    have "wf_logits M" using ok M by (simp add: tensors_ok_def list_all_iff)
    moreover have "0 < lg_v M"
      using ok M tensors_ok_shape [OF ok M, of "hd Ls"]
      by (cases Ls) (simp_all add: tensors_ok_def lg_shape_eq_iff)
    ultimately show "wf_logits M \<and> 0 < lg_v M \<and> (\<forall>N \<in> set Ls. lg_shape N = lg_shape M)"
      using tensors_ok_shape [OF ok] M by blast
  qed
next
  assume R: "\<forall>M \<in> set Ls. wf_logits M \<and> 0 < lg_v M \<and> (\<forall>N \<in> set Ls. lg_shape N = lg_shape M)"
  show "tensors_ok Ls"
  proof (cases Ls)
    case (Cons L Ms)
    then have "L \<in> set Ls" "set Ms \<subseteq> set Ls" by auto
    then show ?thesis
      unfolding tensors_ok_def list_all_iff Cons list.case using R Cons by blast
  qed (simp add: tensors_ok_def)
qed

lemma tensors_ok_sub: "tensors_ok Ls \<Longrightarrow> set Ms \<subseteq> set Ls \<Longrightarrow> tensors_ok Ms"
  unfolding tensors_ok_iff by blast

text \<open>One Student normalisation shared by two gathers is the same as normalising twice.\<close>

definition nz_of :: "logits \<Rightarrow> real \<Rightarrow> softmax_normalization" where
  "nz_of L T = \<lparr>sn_scaled = lg_map (scaled T) L, sn_log_z = map logsumexp (lg_rows (lg_map (scaled T) L))\<rparr>"

lemma full_softmax_normalization_ok:
  "0 < T \<Longrightarrow> 0 < lg_v L \<Longrightarrow> full_softmax_normalization L T = Inr (nz_of L T)"
  by (simp add: full_softmax_normalization_def nz_of_def Let_def)

lemma selected_from_nz:
  "0 < T \<Longrightarrow> 0 < lg_v L \<Longrightarrow>
    selected_log_probs_from_normalization (nz_of L T) S d = selected_log_probs L S T d"
  by (simp add: selected_log_probs_def selected_log_probs_from_normalization_def
      gather_full_softmax_log_probs_def full_softmax_normalization_ok)

lemma check_teachers_ok:
  "\<forall>(name, L) \<in> set xs. lg_shape L = lg_shape S \<Longrightarrow> check_teachers S xs = Inr ()"
  by (induction xs) auto

text \<open>A weight tensor of the right shape.\<close>

definition weights_ok :: "logits \<Rightarrow> real tok \<Rightarrow> bool" where
  "weights_ok L W \<longleftrightarrow> wf_tok W \<and> tok_shape W = token_shape L"

lemma tok_map2_of:
  "weights_ok L W \<Longrightarrow> tok_map2 f W (tok_of L g) = tok_of L (\<lambda>t. f (tk_vals W ! t) (g t))"
  by (auto simp: weights_ok_def tok_map2_def tok_of_def wf_tok_def tok_shape_def token_shape_def
      intro!: nth_equalityI)

text \<open>A support built from \<open>sources\<close> is read by every tensor of the call.\<close>

definition reads ::
  "(nat \<Rightarrow> vec \<Rightarrow> nat list) \<Rightarrow> nat \<Rightarrow> real \<Rightarrow> logits list \<Rightarrow> logits \<Rightarrow> logits \<Rightarrow> logits list \<Rightarrow> token_ids
    \<Rightarrow> support \<Rightarrow> bool" where
  "reads topk k T Ls S L sources y U \<longleftrightarrow> tensors_ok Ls \<and> L \<in> set Ls \<and> S \<in> set Ls
     \<and> support_for topk k T L sources y U"

lemma readsD:
  assumes "reads topk k T Ls S L sources y U"
  shows "lg_shape L = lg_shape S" and "M \<in> set Ls \<Longrightarrow> represents L U (sel_tensor T M U) (log_row T M)"
    and "support_for topk k T L sources y U" and "tok_of L f = tok_of S f"
    and "weights_ok S W \<Longrightarrow> weights_ok L W"
proof -
  note A = assms [unfolded reads_def]
  show sh: "lg_shape L = lg_shape S" using A tensors_ok_shape by blast
  show "support_for topk k T L sources y U" using A by blast
  show "M \<in> set Ls \<Longrightarrow> represents L U (sel_tensor T M U) (log_row T M)" using A represents_sel by blast
  show "tok_of L f = tok_of S f" "weights_ok S W \<Longrightarrow> weights_ok L W"
    using sh by (simp_all add: tok_of_def lg_shape_eq_iff weights_ok_def token_shape_def)
qed

lemma reads_sel:
  assumes "reads topk k T Ls S L sources y U" "M \<in> set Ls"
  shows "selected_log_probs M U T d = Inr (sel_tensor T M U)"
proof -
  have "wf_logits M" "lg_shape M = lg_shape L"
    using assms tensors_ok_shape unfolding reads_def tensors_ok_def list_all_iff by blast+
  then show ?thesis by (rule support_forD(2) [OF readsD(3) [OF assms(1)]])
qed

lemma reads_kl:
  assumes r: "reads topk k T Ls S L sources y U" and A: "A \<in> set Ls" and B: "B \<in> set Ls"
  shows "restricted_forward_kl (sel_tensor T A U) (sel_tensor T B U) U c
      = Inr (tok_of S (\<lambda>t. kl_ref c (support_set topk k sources y t) (log_row T A t) (log_row T B t)))"
    and "restricted_reverse_kl (sel_tensor T A U) (sel_tensor T B U) U c
      = Inr (tok_of S (\<lambda>t. kl_ref c (support_set topk k sources y t) (log_row T A t) (log_row T B t)))"
proof -
  note D = readsD [OF r]
  note m = masked_sum_repr [OF represents_arith(3) [OF represents_arith(5) [OF D(2) [OF A]]
        represents_arith(1) [OF D(2) [OF A] D(2) [OF B]]] D(3)]
  show "restricted_forward_kl (sel_tensor T A U) (sel_tensor T B U) U c
      = Inr (tok_of S (\<lambda>t. kl_ref c (support_set topk k sources y t) (log_row T A t) (log_row T B t)))"
    "restricted_reverse_kl (sel_tensor T A U) (sel_tensor T B U) U c
      = Inr (tok_of S (\<lambda>t. kl_ref c (support_set topk k sources y t) (log_row T A t) (log_row T B t)))"
    by (simp_all add: restricted_forward_kl_def restricted_reverse_kl_def kl_ref_def m D(4) tok_map_tok_of)
qed

lemma reads_corr:
  assumes r: "reads topk k T Ls S L sources y U" and M: "M \<in> set Ls" and W: "weights_ok S W"
    and d: "represents L U D fd"
  shows "signed_correction c W D (sel_tensor T M U) U = Inr (tok_of S (\<lambda>t.
    corr_ref c (tk_vals W ! t) (support_set topk k sources y t) (fd t) (log_row T M t)))"
proof -
  note D = readsD [OF r]
  show ?thesis
    by (simp add: signed_correction_def corr_ref_def
        masked_sum_repr [OF represents_arith(3) [OF d D(2) [OF M]] D(3)] tok_map2_of [OF W] D(4))
qed

lemma reads_geo:
  assumes r: "reads topk k T Ls S L sources y U" and M: "M \<in> set Ls" "B \<in> set Ls" and W: "weights_ok S W"
    and R: "represents L U R fr" and T: "0 < T"
  shows "reverse_geometric_correction (sel_tensor T M U) (sel_tensor T B U) R W U T = Inr (tok_of S (\<lambda>t.
    geo_ref T (tk_vals W ! t) (support_set topk k sources y t) (log_row T M t) (log_row T B t) (fr t)))"
proof -
  note D = readsD [OF r]
  have "tok_shape W = token_shape L" using D(5) [OF W] by (simp add: weights_ok_def)
  then show ?thesis
    using geometric_correction_ref [OF _ D(3) _ D(2) [OF M(1)] D(2) [OF M(2)] R _ T, of Ls] r
    by (simp add: reads_def D(4))
qed

lemma frame:
  assumes topk: "topk_select topk" and ten: "tensors_ok Ls" and ids: "ids_ok S y"
    and k: "validated_top_k top_k = Inr k" and T: "0 < T"
    and sub: "set (P # Ps) \<subseteq> set Ls" "S \<in> set Ls"
  shows "\<exists>U. build_truncated_topk_support topk (P # Ps) y top_k None = Inr U
      \<and> reads topk k T Ls S P (P # Ps) y U"
    and "\<exists>U. build_truncated_topk_support topk (P # Ps) y top_k (Some S) = Inr U
      \<and> reads topk k T Ls S P (P # Ps @ [S]) y U"
proof -
  have ten': "tensors_ok (P # Ps @ [S])" by (rule tensors_ok_sub [OF ten]) (use sub in auto)
  show "\<exists>U. build_truncated_topk_support topk (P # Ps) y top_k None = Inr U
      \<and> reads topk k T Ls S P (P # Ps) y U"
    "\<exists>U. build_truncated_topk_support topk (P # Ps) y top_k (Some S) = Inr U
      \<and> reads topk k T Ls S P (P # Ps @ [S]) y U"
    using frames [OF topk ten' ids k T] ten sub by (simp_all add: reads_def)
qed

lemma reads_displacement:
  assumes r: "reads topk k T Ls S L sources y U" and P: "P \<in> set Ls" and N: "N \<in> set Ls"
  shows "represents L U (lg_map2 vsub (lg_map vexp (sel_tensor T P U)) (lg_map vexp (sel_tensor T N U)))
      (task_exp T P N)"
    and "represents L U (lg_map2 vsub (sel_tensor T P U) (sel_tensor T N U)) (task_log T P N)"
    and "Z \<in> set Ls \<Longrightarrow> represents L U
      (lg_residual (lg_map2 vsub (lg_map vexp (sel_tensor T P U)) (lg_map vexp (sel_tensor T N U))) alpha
        (lg_map2 vsub (lg_map (vscale (1/2)) (lg_map2 vadd (lg_map vexp (sel_tensor T P U))
          (lg_map vexp (sel_tensor T N U)))) (lg_map vexp (sel_tensor T Z U))))
      (fec_exp T P N Z alpha)"
    and "Z \<in> set Ls \<Longrightarrow> represents L U
      (lg_residual (lg_map2 vsub (sel_tensor T P U) (sel_tensor T N U)) alpha
        (lg_map2 vsub (lg_map (vscale (1/2)) (lg_map2 vadd (sel_tensor T P U) (sel_tensor T N U)))
          (sel_tensor T Z U)))
      (fec_log T P N Z alpha)"
  unfolding task_exp_def [abs_def] fec_exp_def [abs_def] task_log_def [abs_def] fec_log_def [abs_def]
    nuis_log_def [abs_def] log_row_def [symmetric]
  by (intro repr_intros readsD(2) [OF r] P N; assumption)+

lemma truncated_forward_fixed_losses_eq:
  assumes topk: "topk_select topk" and ten: "tensors_ok [R, B, E, S]" and ids: "ids_ok S y"
    and k: "validated_top_k top_k = Inr k" and T: "0 < T" and W: "weights_ok S W"
  shows "truncated_forward_fixed_losses topk S R B E y W top_k T = Inr
    (tok_of S (\<lambda>t. kl_ref T (support_set topk k [R] y t) (log_row T R t) (log_row T S t)),
     tok_of S (\<lambda>t. corr_ref T (tk_vals W ! t) (support_set topk k [B, E] y t) (task_exp T E B t) (log_row T S t)))"
proof -
  obtain U where U: "build_truncated_topk_support topk [R] y top_k None = Inr U"
    "reads topk k T [R, B, E, S] S R [R] y U"
    using frame(1) [OF topk ten ids k T, of R "[]"] by auto
  obtain V where V: "build_truncated_topk_support topk [B, E] y top_k None = Inr V"
    "reads topk k T [R, B, E, S] S B [B, E] y V"
    using frame(1) [OF topk ten ids k T, of B "[E]"] by auto
  have dims: "lg_shape R = lg_shape S" "lg_shape B = lg_shape S" "lg_shape E = lg_shape S"
    by (rule tensors_ok_shape [OF ten]; simp)+
  have v: "0 < lg_v S" using ten by (simp add: tensors_ok_iff)
  note nz = full_softmax_normalization_ok [OF T v] selected_from_nz [OF T v]
  have w: "tok_shape W = token_shape S" using W by (simp add: weights_ok_def)
  show ?thesis
    by (simp add: truncated_forward_fixed_losses_def U(1) V(1) nz dims w Let_def
      reads_sel [OF U(2)] reads_sel [OF V(2)] reads_kl [OF U(2)] reads_corr [OF V(2) _ W reads_displacement(1) [OF V(2)]])
qed

lemma truncated_forward_fixed_loss_eq:
  assumes topk: "topk_select topk" and ten: "tensors_ok [B, E, S]" and ids: "ids_ok S y"
    and k: "validated_top_k top_k = Inr k" and T: "0 < T" and W: "weights_ok S W"
  shows "truncated_forward_fixed_loss topk S B E y W top_k T ''topk_truncated'' = Inr
    (tok_of S (\<lambda>t. corr_ref T (tk_vals W ! t) (support_set topk k [B, E] y t) (task_exp T E B t) (log_row T S t)))"
proof -
  obtain V where V: "build_truncated_topk_support topk [B, E] y top_k None = Inr V"
    "reads topk k T [B, E, S] S B [B, E] y V"
    using frame(1) [OF topk ten ids k T, of B "[E]"] by auto
  have dims: "lg_shape B = lg_shape S" "lg_shape E = lg_shape S"
    by (rule tensors_ok_shape [OF ten]; simp)+
  have v: "0 < lg_v S" using ten by (simp add: tensors_ok_iff)
  note nz = full_softmax_normalization_ok [OF T v] selected_from_nz [OF T v]
  have w: "tok_shape W = token_shape S" using W by (simp add: weights_ok_def)
  show ?thesis
    by (simp add: truncated_forward_fixed_loss_def V(1) nz dims w validate_verpo_vocab_config_def k Let_def
      reads_sel [OF V(2)] reads_corr [OF V(2) _ W reads_displacement(1) [OF V(2)]])
qed

lemma truncated_forward_reference_loss_eq:
  assumes topk: "topk_select topk" and ten: "tensors_ok [R, S]" and ids: "ids_ok S y"
    and k: "validated_top_k top_k = Inr k" and T: "0 < T"
  shows "truncated_forward_reference_loss topk S R y top_k T = Inr
    (tok_of S (\<lambda>t. kl_ref T (support_set topk k [R] y t) (log_row T R t) (log_row T S t)))"
proof -
  obtain U where U: "build_truncated_topk_support topk [R] y top_k None = Inr U"
    "reads topk k T [R, S] S R [R] y U"
    using frame(1) [OF topk ten ids k T, of R "[]"] by auto
  have dims: "lg_shape R = lg_shape S"
    by (rule tensors_ok_shape [OF ten]; simp)+
  have v: "0 < lg_v S" using ten by (simp add: tensors_ok_iff)
  note nz = full_softmax_normalization_ok [OF T v] selected_from_nz [OF T v]
  show ?thesis
    by (simp add: truncated_forward_reference_loss_def U(1) nz dims Let_def
      reads_sel [OF U(2)] reads_kl [OF U(2)])
qed

lemma truncated_forward_ctr_losses_eq:
  assumes topk: "topk_select topk" and ten: "tensors_ok [R, P, N, S]" and ids: "ids_ok S y"
    and k: "validated_top_k top_k = Inr k" and T: "0 < T" and W: "weights_ok S W"
  shows "truncated_forward_ctr_losses topk S R P N y W top_k T = Inr
    (tok_of S (\<lambda>t. kl_ref T (support_set topk k [R] y t) (log_row T R t) (log_row T S t)),
     tok_of S (\<lambda>t. corr_ref T (tk_vals W ! t) (support_set topk k [P, N] y t) (task_exp T P N t) (log_row T S t)))"
proof -
  obtain U where U: "build_truncated_topk_support topk [R] y top_k None = Inr U"
    "reads topk k T [R, P, N, S] S R [R] y U"
    using frame(1) [OF topk ten ids k T, of R "[]"] by auto
  obtain V where V: "build_truncated_topk_support topk [P, N] y top_k None = Inr V"
    "reads topk k T [R, P, N, S] S P [P, N] y V"
    using frame(1) [OF topk ten ids k T, of P "[N]"] by auto
  have dims: "lg_shape R = lg_shape S" "lg_shape P = lg_shape S" "lg_shape N = lg_shape S"
    by (rule tensors_ok_shape [OF ten]; simp)+
  have v: "0 < lg_v S" using ten by (simp add: tensors_ok_iff)
  note nz = full_softmax_normalization_ok [OF T v] selected_from_nz [OF T v]
  have w: "tok_shape W = token_shape S" using W by (simp add: weights_ok_def)
  show ?thesis
    by (simp add: truncated_forward_ctr_losses_def U(1) V(1) nz dims w Let_def
      reads_sel [OF U(2)] reads_sel [OF V(2)] reads_kl [OF U(2)] reads_corr [OF V(2) _ W reads_displacement(1) [OF V(2)]])
qed

lemma truncated_forward_ctr_loss_eq:
  assumes topk: "topk_select topk" and ten: "tensors_ok [P, N, S]" and ids: "ids_ok S y"
    and k: "validated_top_k top_k = Inr k" and T: "0 < T" and W: "weights_ok S W"
  shows "truncated_forward_ctr_loss topk S P N y W top_k T ''topk_truncated'' = Inr
    (tok_of S (\<lambda>t. corr_ref T (tk_vals W ! t) (support_set topk k [P, N] y t) (task_exp T P N t) (log_row T S t)))"
proof -
  obtain V where V: "build_truncated_topk_support topk [P, N] y top_k None = Inr V"
    "reads topk k T [P, N, S] S P [P, N] y V"
    using frame(1) [OF topk ten ids k T, of P "[N]"] by auto
  have dims: "lg_shape P = lg_shape S" "lg_shape N = lg_shape S"
    by (rule tensors_ok_shape [OF ten]; simp)+
  have v: "0 < lg_v S" using ten by (simp add: tensors_ok_iff)
  note nz = full_softmax_normalization_ok [OF T v] selected_from_nz [OF T v]
  have w: "tok_shape W = token_shape S" using W by (simp add: weights_ok_def)
  show ?thesis
    by (simp add: truncated_forward_ctr_loss_def V(1) nz dims w validate_verpo_vocab_config_def k Let_def
      reads_sel [OF V(2)] reads_corr [OF V(2) _ W reads_displacement(1) [OF V(2)]])
qed

lemma truncated_forward_fec_loss_eq:
  assumes topk: "topk_select topk" and ten: "tensors_ok [P, N, Z, S]" and ids: "ids_ok S y"
    and k: "validated_top_k top_k = Inr k" and T: "0 < T" and W: "weights_ok S W" and A: "weights_ok S alpha"
  shows "truncated_forward_fec_loss topk S P N Z y W alpha top_k T = Inr
    (tok_of S (\<lambda>t. corr_ref T (tk_vals W ! t) (support_set topk k [P, N, Z] y t) (fec_exp T P N Z alpha t) (log_row T S t)))"
proof -
  obtain V where V: "build_truncated_topk_support topk [P, N, Z] y top_k None = Inr V"
    "reads topk k T [P, N, Z, S] S P [P, N, Z] y V"
    using frame(1) [OF topk ten ids k T, of P "[N, Z]"] by auto
  have dims: "lg_shape P = lg_shape S" "lg_shape N = lg_shape S" "lg_shape Z = lg_shape S"
    by (rule tensors_ok_shape [OF ten]; simp)+
  have v: "0 < lg_v S" using ten by (simp add: tensors_ok_iff)
  note nz = full_softmax_normalization_ok [OF T v] selected_from_nz [OF T v]
  have w: "tok_shape W = token_shape S" using W by (simp add: weights_ok_def)
  have al: "tok_shape alpha = token_shape S" using A by (simp add: weights_ok_def)
  show ?thesis
    by (simp add: truncated_forward_fec_loss_def V(1) nz dims w al check_fec_inputs_def Let_def Let_def
      reads_sel [OF V(2)] reads_corr [OF V(2) _ W reads_displacement(3) [OF V(2)]])
qed

lemma truncated_reverse_teacher_losses_eq:
  assumes topk: "topk_select topk" and ten: "tensors_ok [R, B, E, S]" and ids: "ids_ok S y"
    and k: "validated_top_k top_k = Inr k" and T: "0 < T" and W: "weights_ok S W"
  shows "truncated_reverse_teacher_losses topk S R B E y W top_k T = Inr
    (tok_of S (\<lambda>t. kl_ref T (support_set topk k [R, S] y t) (log_row T S t) (log_row T R t)),
     tok_of S (\<lambda>t. geo_ref T (tk_vals W ! t) (support_set topk k [B, E, S] y t) (log_row T S t) (log_row T B t) (task_log T E B t)))"
proof -
  obtain U where U: "build_truncated_topk_support topk [R] y top_k (Some S) = Inr U"
    "reads topk k T [R, B, E, S] S R [R, S] y U"
    using frame(2) [OF topk ten ids k T, of R "[]"] by auto
  obtain V where V: "build_truncated_topk_support topk [B, E] y top_k (Some S) = Inr V"
    "reads topk k T [R, B, E, S] S B [B, E, S] y V"
    using frame(2) [OF topk ten ids k T, of B "[E]"] by auto
  have dims: "lg_shape R = lg_shape S" "lg_shape B = lg_shape S" "lg_shape E = lg_shape S"
    by (rule tensors_ok_shape [OF ten]; simp)+
  have v: "0 < lg_v S" using ten by (simp add: tensors_ok_iff)
  note nz = full_softmax_normalization_ok [OF T v] selected_from_nz [OF T v]
  have w: "tok_shape W = token_shape S" using W by (simp add: weights_ok_def)
  show ?thesis
    by (simp add: truncated_reverse_teacher_losses_def U(1) V(1) nz dims w Let_def
      reads_sel [OF U(2)] reads_sel [OF V(2)] reads_kl [OF U(2)] reads_geo [OF V(2) _ _ W reads_displacement(2) [OF V(2)] T])
qed

lemma truncated_reverse_correction_loss_eq:
  assumes topk: "topk_select topk" and ten: "tensors_ok [B, E, S]" and ids: "ids_ok S y"
    and k: "validated_top_k top_k = Inr k" and T: "0 < T" and W: "weights_ok S W"
  shows "truncated_reverse_correction_loss topk S B E y W top_k T ''topk_truncated'' = Inr
    (tok_of S (\<lambda>t. geo_ref T (tk_vals W ! t) (support_set topk k [B, E, S] y t) (log_row T S t) (log_row T B t) (task_log T E B t)))"
proof -
  obtain V where V: "build_truncated_topk_support topk [B, E] y top_k (Some S) = Inr V"
    "reads topk k T [B, E, S] S B [B, E, S] y V"
    using frame(2) [OF topk ten ids k T, of B "[E]"] by auto
  have dims: "lg_shape B = lg_shape S" "lg_shape E = lg_shape S"
    by (rule tensors_ok_shape [OF ten]; simp)+
  have v: "0 < lg_v S" using ten by (simp add: tensors_ok_iff)
  note nz = full_softmax_normalization_ok [OF T v] selected_from_nz [OF T v]
  have w: "tok_shape W = token_shape S" using W by (simp add: weights_ok_def)
  show ?thesis
    by (simp add: truncated_reverse_correction_loss_def V(1) nz dims w validate_verpo_vocab_config_def k Let_def
      reads_sel [OF V(2)] reads_geo [OF V(2) _ _ W reads_displacement(2) [OF V(2)] T])
qed

lemma truncated_reverse_fec_loss_eq:
  assumes topk: "topk_select topk" and ten: "tensors_ok [P, N, Z, S]" and ids: "ids_ok S y"
    and k: "validated_top_k top_k = Inr k" and T: "0 < T" and W: "weights_ok S W" and A: "weights_ok S alpha"
  shows "truncated_reverse_fec_loss topk S P N Z y W alpha top_k T = Inr
    (tok_of S (\<lambda>t. geo_ref T (tk_vals W ! t) (support_set topk k [P, N, Z, S] y t) (log_row T S t) (log_row T N t) (fec_log T P N Z alpha t)))"
proof -
  obtain V where V: "build_truncated_topk_support topk [P, N, Z] y top_k (Some S) = Inr V"
    "reads topk k T [P, N, Z, S] S P [P, N, Z, S] y V"
    using frame(2) [OF topk ten ids k T, of P "[N, Z]"] by auto
  have dims: "lg_shape P = lg_shape S" "lg_shape N = lg_shape S" "lg_shape Z = lg_shape S"
    by (rule tensors_ok_shape [OF ten]; simp)+
  have v: "0 < lg_v S" using ten by (simp add: tensors_ok_iff)
  note nz = full_softmax_normalization_ok [OF T v] selected_from_nz [OF T v]
  have w: "tok_shape W = token_shape S" using W by (simp add: weights_ok_def)
  have al: "tok_shape alpha = token_shape S" using A by (simp add: weights_ok_def)
  show ?thesis
    by (simp add: truncated_reverse_fec_loss_def V(1) nz dims w al check_fec_inputs_def Let_def Let_def
      reads_sel [OF V(2)] reads_geo [OF V(2) _ _ W reads_displacement(4) [OF V(2)] T])
qed

end
