(* ===== verification/FullForward.thy ===== *)
theory FullForward
  imports TopkStatsRef
begin

text \<open>
  The exact-vocabulary evidence statistics of the Forward-KL controllers
  (\<open>risk_aware_opsd/verpo_zpd.py\<close>): the dispatch between the full and the truncated
  vocabulary, \<open>compute_evidence_displacement_stats\<close> and \<open>compute_fec_evidence_stats\<close>, with
  their chunked accumulation loops. Each is shown to return the reference statistics of theory
  \<open>Fisher\<close> on the whole vocabulary, whatever the chunk size, or on the selected support when
  the call is dispatched to the truncated functions.
\<close>

section \<open>Dispatch\<close>

definition should_use_full_vocab_compat :: "string \<Rightarrow> top_k_arg \<Rightarrow> nat \<Rightarrow> bool res" where
  "should_use_full_vocab_compat vocab_mode top_k vocab_size =
     (if top_k = TkNone \<and> vocab_mode = ''full'' then should_use_full_vocab vocab_mode (TkInt 1) vocab_size
      else should_use_full_vocab vocab_mode top_k vocab_size)"

text \<open>\<open>logits.gather(-1, token_ids)\<close> needs 64-bit indices inside the vocabulary.\<close>

definition gather_error :: err where
  "gather_error = RuntimeError ''gather index''"

definition gather_ok :: "logits \<Rightarrow> token_ids \<Rightarrow> bool" where
  "gather_ok L y \<longleftrightarrow> ids_long y \<and> ids_in_range (lg_v L) (tk_vals y)"

section \<open>Fixed and CTR displacement statistics\<close>

text \<open>One position: the three chunked accumulators, then the read-out at the sampled token.\<close>

definition evidence_displacement_at ::
  "nat \<Rightarrow> nat \<Rightarrow> real \<Rightarrow> vec \<Rightarrow> vec \<Rightarrow> vec \<Rightarrow> nat \<Rightarrow> real \<Rightarrow> real \<times> real \<times> real" where
  "evidence_displacement_at n c scale evidence base student token advantage =
     (let evidence_log_norm = log_norm scale evidence;
          base_log_norm = log_norm scale base;
          student_log_norm = log_norm scale student;
          delta = (\<lambda>start stop. vsub (vexp (log_probs_chunk scale evidence_log_norm evidence start stop))
                     (vexp (log_probs_chunk scale base_log_norm base start stop)));
          p_student = (\<lambda>start stop. vexp (log_probs_chunk scale student_log_norm student start stop));
          mean_delta = chunk_sum n c (\<lambda>a b. vsum (vmul (p_student a b) (delta a b)));
          second_moment = chunk_sum n c (\<lambda>a b. vsum (vmul (vmul (p_student a b) (delta a b)) (delta a b)));
          displacement_norm_sq = chunk_sum n c (\<lambda>a b. vsum (vmul (delta a b) (delta a b)));
          fisher_cost = clamp_min 0 (second_moment - mean_delta * mean_delta);
          delta_at_token = exp (log_prob_at scale evidence_log_norm evidence token)
            - exp (log_prob_at scale base_log_norm base token);
          centered = delta_at_token - mean_delta
      in (advantage * centered, fisher_cost, sqrt displacement_norm_sq))"

definition compute_evidence_displacement_stats ::
  "(nat \<Rightarrow> vec \<Rightarrow> nat list) \<Rightarrow> logits \<Rightarrow> logits \<Rightarrow> logits \<Rightarrow> token_ids \<Rightarrow> vec \<Rightarrow> top_k_arg \<Rightarrow> real \<Rightarrow> int
    \<Rightarrow> string \<Rightarrow> displacement_stats res" where
  "compute_evidence_displacement_stats topk evidence no_evidence student y advantages top_k temperature
     vocab_chunk_size vocab_mode =
     rbind (should_use_full_vocab_compat vocab_mode top_k (lg_v student)) (\<lambda>use_full.
     if \<not> use_full
     then truncated_forward_displacement_stats topk evidence no_evidence student y advantages top_k temperature
     else if lg_shape evidence \<noteq> lg_shape no_evidence
     then Inl (ValueError ''evidence and base Teacher logits must have identical shapes'')
     else if lg_shape evidence \<noteq> lg_shape student
     then Inl (ValueError ''Teacher and Student logits must have identical shapes'')
     else if tok_shape y \<noteq> token_shape student
     then Inl (ValueError ''sampled_token_ids must match the token dimensions'')
     else if length advantages \<noteq> lg_n student
     then Inl (ValueError ''advantages must have shape [n_rows]'')
     else if temperature \<le> 0 then Inl (ValueError ''temperature must be positive'')
     else if vocab_chunk_size \<le> 0 then Inl (ValueError ''vocab_chunk_size must be positive'')
     else if \<not> gather_ok student y then Inl gather_error
     else let r = (\<lambda>t. evidence_displacement_at (lg_v student) (nat vocab_chunk_size) temperature
              (lg_rows evidence ! t) (lg_rows no_evidence ! t) (lg_rows student ! t)
              (nat (tk_vals y ! t)) (row_at (lg_s student) advantages t))
       in Inr (tok_of student (\<lambda>t. fst (r t)), tok_of student (\<lambda>t. fst (snd (r t))),
            tok_of student (\<lambda>t. snd (snd (r t)))))"

section \<open>FEC statistics\<close>

text \<open>The task and the nuisance displacement of one chunk.\<close>

definition fec_chunk :: "real \<Rightarrow> vec \<times> real \<Rightarrow> vec \<times> real \<Rightarrow> vec \<times> real \<Rightarrow> nat \<Rightarrow> nat \<Rightarrow> vec \<times> vec" where
  "fec_chunk scale positive negative no_evidence start stop =
     (let positive_probs = vexp (log_probs_chunk scale (snd positive) (fst positive) start stop);
          negative_probs = vexp (log_probs_chunk scale (snd negative) (fst negative) start stop);
          no_evidence_probs = vexp (log_probs_chunk scale (snd no_evidence) (fst no_evidence) start stop)
      in (vsub positive_probs negative_probs,
          vsub (vscale (1/2) (vadd positive_probs negative_probs)) no_evidence_probs))"

text \<open>The first loop and the moments it gives.\<close>

record fec_moments =
  fx_mean_task :: real
  fx_mean_nuisance :: real
  fx_task_variance :: real
  fx_nuisance_variance :: real
  fx_covariance :: real
  fx_task_norm_sq :: real
  fx_nuisance_norm_sq :: real

definition fec_first_pass ::
  "nat \<Rightarrow> nat \<Rightarrow> (nat \<Rightarrow> nat \<Rightarrow> vec) \<Rightarrow> (nat \<Rightarrow> nat \<Rightarrow> vec) \<Rightarrow> (nat \<Rightarrow> nat \<Rightarrow> vec) \<Rightarrow> fec_moments" where
  "fec_first_pass n c student_probs task nuisance =
     (let mean_task = chunk_sum n c (\<lambda>a b. vsum (vmul (student_probs a b) (task a b)));
          mean_nuisance = chunk_sum n c (\<lambda>a b. vsum (vmul (student_probs a b) (nuisance a b)));
          second_task = chunk_sum n c (\<lambda>a b. vsum (vmul (student_probs a b) (vsquare (task a b))));
          second_nuisance = chunk_sum n c (\<lambda>a b. vsum (vmul (student_probs a b) (vsquare (nuisance a b))));
          cross_moment = chunk_sum n c
            (\<lambda>a b. vsum (vmul (vmul (student_probs a b) (task a b)) (nuisance a b)));
          task_norm_sq = chunk_sum n c (\<lambda>a b. vsum (vsquare (task a b)));
          nuisance_norm_sq = chunk_sum n c (\<lambda>a b. vsum (vsquare (nuisance a b)))
      in \<lparr>fx_mean_task = mean_task, fx_mean_nuisance = mean_nuisance,
          fx_task_variance = clamp_min 0 (second_task - mean_task * mean_task),
          fx_nuisance_variance = clamp_min 0 (second_nuisance - mean_nuisance * mean_nuisance),
          fx_covariance = cross_moment - mean_task * mean_nuisance,
          fx_task_norm_sq = task_norm_sq, fx_nuisance_norm_sq = nuisance_norm_sq\<rparr>)"

text \<open>The second loop needs the projection, then the statistics are read at the sampled token.\<close>

definition fec_second_pass ::
  "nat \<Rightarrow> nat \<Rightarrow> real \<Rightarrow> (nat \<Rightarrow> nat \<Rightarrow> vec) \<Rightarrow> (nat \<Rightarrow> nat \<Rightarrow> vec) \<Rightarrow> fec_moments
    \<Rightarrow> real \<Rightarrow> real \<Rightarrow> real \<Rightarrow> fec_stats" where
  "fec_second_pass n c epsilon task nuisance m task_at_token nuisance_at_token advantage =
     (let covariance = fx_covariance m;
          task_variance = fx_task_variance m;
          nuisance_variance = fx_nuisance_variance m;
          projection = covariance / (nuisance_variance + epsilon);
          fec_mean = fx_mean_task m - projection * fx_mean_nuisance m;
          fec_fisher_cost = clamp_min 0 (task_variance - 2 * projection * covariance
            + projection * projection * nuisance_variance);
          fisher_cosine = clamp (-1) 1
            (covariance / sqrt ((task_variance + epsilon) * (nuisance_variance + epsilon)));
          residual_nuisance_covariance = covariance - projection * nuisance_variance;
          fec_norm_sq = chunk_sum n c
            (\<lambda>a b. vsum (vsquare (vsub (task a b) (vscale projection (nuisance a b)))));
          fec_at_token = task_at_token - projection * nuisance_at_token;
          centered_alignment = fec_at_token - fec_mean
      in \<lparr>fs_benefit = advantage * centered_alignment, fs_fisher_cost = fec_fisher_cost,
          fs_displacement_norm = sqrt fec_norm_sq, fs_task_norm = sqrt (fx_task_norm_sq m),
          fs_nuisance_norm = sqrt (fx_nuisance_norm_sq m), fs_cosine = fisher_cosine,
          fs_projection = projection, fs_residual_cov = residual_nuisance_covariance,
          fs_alignment = centered_alignment\<rparr>)"

definition fec_evidence_at ::
  "nat \<Rightarrow> nat \<Rightarrow> real \<Rightarrow> real \<Rightarrow> vec \<times> real \<Rightarrow> vec \<times> real \<Rightarrow> vec \<times> real \<Rightarrow> vec \<times> real \<Rightarrow> nat \<Rightarrow> real \<Rightarrow> fec_stats" where
  "fec_evidence_at n c scale epsilon positive negative no_evidence student token advantage =
     (let task = (\<lambda>a b. fst (fec_chunk scale positive negative no_evidence a b));
          nuisance = (\<lambda>a b. snd (fec_chunk scale positive negative no_evidence a b));
          student_probs = (\<lambda>a b. vexp (log_probs_chunk scale (snd student) (fst student) a b));
          m = fec_first_pass n c student_probs task nuisance;
          positive_at_token = exp (log_prob_at scale (snd positive) (fst positive) token);
          negative_at_token = exp (log_prob_at scale (snd negative) (fst negative) token);
          no_evidence_at_token = exp (log_prob_at scale (snd no_evidence) (fst no_evidence) token);
          task_at_token = positive_at_token - negative_at_token;
          nuisance_at_token = 1/2 * (positive_at_token + negative_at_token) - no_evidence_at_token
      in fec_second_pass n c epsilon task nuisance m task_at_token nuisance_at_token advantage)"

definition compute_fec_evidence_stats ::
  "(nat \<Rightarrow> vec \<Rightarrow> nat list) \<Rightarrow> logits \<Rightarrow> logits \<Rightarrow> logits \<Rightarrow> logits \<Rightarrow> token_ids \<Rightarrow> vec \<Rightarrow> real \<Rightarrow> int
    \<Rightarrow> pyfloat \<Rightarrow> string \<Rightarrow> top_k_arg \<Rightarrow> fec_stats tok res" where
  "compute_fec_evidence_stats topk positive negative no_evidence student y advantages temperature
     vocab_chunk_size projection_epsilon vocab_mode top_k =
     rbind (should_use_full_vocab_compat vocab_mode top_k (lg_v student)) (\<lambda>use_full.
     if \<not> use_full
     then truncated_forward_fec_stats topk positive negative no_evidence student y advantages top_k
       temperature projection_epsilon
     else if lg_shape positive \<noteq> lg_shape negative
     then Inl (ValueError ''positive and negative Teacher logits must have identical shapes'')
     else if lg_shape positive \<noteq> lg_shape no_evidence
     then Inl (ValueError ''positive and no-evidence Teacher logits must have identical shapes'')
     else if lg_shape positive \<noteq> lg_shape student
     then Inl (ValueError ''Teacher and Student logits must have identical shapes'')
     else if tok_shape y \<noteq> token_shape student
     then Inl (ValueError ''sampled_token_ids must match the token dimensions'')
     else if length advantages \<noteq> lg_n student
     then Inl (ValueError ''advantages must have shape [n_rows]'')
     else if temperature \<le> 0 then Inl (ValueError ''temperature must be positive'')
     else if vocab_chunk_size \<le> 0 then Inl (ValueError ''vocab_chunk_size must be positive'')
     else if \<not> isfinite projection_epsilon \<or> the_real projection_epsilon \<le> 0
     then Inl (ValueError ''projection_epsilon must be finite and positive'')
     else
       rbind (chunked_vocab_logsumexp positive temperature vocab_chunk_size) (\<lambda>positive_log_norm.
       rbind (chunked_vocab_logsumexp negative temperature vocab_chunk_size) (\<lambda>negative_log_norm.
       rbind (chunked_vocab_logsumexp no_evidence temperature vocab_chunk_size) (\<lambda>no_evidence_log_norm.
       rbind (chunked_vocab_logsumexp student temperature vocab_chunk_size) (\<lambda>student_log_norm.
       if \<not> gather_ok student y then Inl gather_error
       else Inr (tok_of student (\<lambda>t. fec_evidence_at (lg_v student) (nat vocab_chunk_size) temperature
         (the_real projection_epsilon)
         (lg_rows positive ! t, positive_log_norm ! t) (lg_rows negative ! t, negative_log_norm ! t)
         (lg_rows no_evidence ! t, no_evidence_log_norm ! t) (lg_rows student ! t, student_log_norm ! t)
         (nat (tk_vals y ! t)) (row_at (lg_s student) advantages t))))))))"

section \<open>The exact statistics are the reference statistics\<close>

lemma fec_chunk_slice:
  "fec_chunk T (P, log_norm T P) (N, log_norm T N) (Z, log_norm T Z) a b
    = (slice a b (vsub (probs T P) (probs T N)),
       slice a b (vsub (vscale (1/2) (vadd (probs T P) (probs T N))) (probs T Z)))"
  by (simp add: fec_chunk_def Let_def slice_simps)

lemma fec_first_pass_slice:
  assumes "0 < c" "length p = n" "length f = n" "length g = n"
  shows "fec_first_pass n c (\<lambda>a b. slice a b p) (\<lambda>a b. slice a b f) (\<lambda>a b. slice a b g)
    = (let m = \<lambda>h. (\<Sum>k<n. p ! k * h k); ff = \<lambda>k. f ! k; gg = \<lambda>k. g ! k in
      \<lparr>fx_mean_task = m ff, fx_mean_nuisance = m gg,
       fx_task_variance = clamp_min 0 (m (\<lambda>k. ff k * ff k) - m ff * m ff),
       fx_nuisance_variance = clamp_min 0 (m (\<lambda>k. gg k * gg k) - m gg * m gg),
       fx_covariance = (\<Sum>k<n. p ! k * ff k * gg k) - m ff * m gg,
       fx_task_norm_sq = (\<Sum>k<n. ff k * ff k), fx_nuisance_norm_sq = (\<Sum>k<n. gg k * gg k)\<rparr>)"
  using assms by (simp add: fec_first_pass_def Let_def vec_slice chunk_vsum_nth del: chunk_vsum_slice)

lemma fec_second_pass_ref:
  fixes adv e T :: real
  assumes z: "z \<noteq> []" and e: "0 < e" and c: "0 < c" and len: "length f = length z" "length g = length z"
    and k: "k < length z"
  shows "fec_second_pass (length z) c e (\<lambda>a b. slice a b f) (\<lambda>a b. slice a b g)
      (fec_first_pass (length z) c (\<lambda>a b. slice a b (probs T z)) (\<lambda>a b. slice a b f) (\<lambda>a b. slice a b g))
      (f ! k) (g ! k) adv
    = fec_ref {..<length z} (\<lambda>k. probs T z ! k) (\<lambda>k. f ! k) (\<lambda>k. g ! k) e k adv" (is "?L = ?R")
proof -
  note core = softmax.fec_moments_ref [where x = "(T, z)" and eps = e and task = "\<lambda>k. f ! k"
      and nuis = "\<lambda>k. g ! k" and y = k and adv = adv, unfolded prod.case, OF z e]
  note first = fec_first_pass_slice [OF c, of "probs T z" "length z" f g, simplified, OF len]
  have norm: "chunk_sum (length z) c (\<lambda>a b. vsum (vsquare (vsub (slice a b f) (vscale x (slice a b g)))))
      = (\<Sum>k<length z. resid (\<lambda>k. f ! k) x (\<lambda>k. g ! k) k * resid (\<lambda>k. f ! k) x (\<lambda>k. g ! k) k)" for x
    using len c by (simp add: vec_slice chunk_vsum_nth resid_def del: chunk_vsum_slice)
  have proj: "fs_projection ?L = fs_projection ?R"
    using core(1) by (simp add: fec_second_pass_def first Let_def wmean_def)
  show ?thesis
    using core proj
    by (subst fec_ref_record) (simp add: fec_second_pass_def first Let_def wmean_def norm
        fec_ref_norms del: times_divide_eq_left times_divide_eq_right)
qed

lemma fec_evidence_at_ref:
  fixes adv e T :: real
  assumes z: "S \<noteq> []" and e: "0 < e" and c: "0 < c"
    and len: "length P = length S" "length N = length S" "length Z = length S" and k: "k < length S"
  shows "fec_evidence_at (length S) c T e (P, log_norm T P) (N, log_norm T N) (Z, log_norm T Z)
      (S, log_norm T S) k adv
    = fec_ref {..<length S} (\<lambda>k. probs T S ! k) (\<lambda>k. probs T P ! k - probs T N ! k)
        (\<lambda>k. 1/2 * (probs T P ! k + probs T N ! k) - probs T Z ! k) e k adv"
proof -
  let ?f = "vsub (probs T P) (probs T N)"
  let ?g = "vsub (vscale (1/2) (vadd (probs T P) (probs T N))) (probs T Z)"
  have at: "exp (log_prob_at T (log_norm T P) P k) = probs T P ! k"
    "exp (log_prob_at T (log_norm T N) N k) = probs T N ! k"
    "exp (log_prob_at T (log_norm T Z) Z k) = probs T Z ! k"
    using k len by (simp_all add: log_prob_at_eq nth_probs)
  have "fec_evidence_at (length S) c T e (P, log_norm T P) (N, log_norm T N) (Z, log_norm T Z)
      (S, log_norm T S) k adv
    = fec_ref {..<length S} (\<lambda>k. probs T S ! k) (\<lambda>k. ?f ! k) (\<lambda>k. ?g ! k) e k adv"
    using fec_second_pass_ref [OF z e c, of ?f ?g k T adv] len k
    by (simp add: fec_evidence_at_def fec_chunk_slice Let_def slice_simps at)
  also have "\<dots> = fec_ref {..<length S} (\<lambda>k. probs T S ! k) (\<lambda>k. probs T P ! k - probs T N ! k)
        (\<lambda>k. 1/2 * (probs T P ! k + probs T N ! k) - probs T Z ! k) e k adv"
    by (rule fec_ref_cong) (use len k in auto)
  finally show ?thesis .
qed

lemma evidence_displacement_at_ref:
  fixes adv T :: real
  assumes z: "S \<noteq> []" and c: "0 < c" and len: "length E = length S" "length B = length S" and k: "k < length S"
  shows "evidence_displacement_at (length S) c T E B S k adv
    = disp_ref {..<length S} (\<lambda>k. probs T S ! k) (\<lambda>k. probs T E ! k - probs T B ! k) k adv"
proof -
  note var = softmax.var_clamp [where x = "(T, S)" and f = "\<lambda>k. probs T E ! k - probs T B ! k",
      unfolded prod.case, OF z]
  show ?thesis
    using var len k c
    by (simp add: evidence_displacement_at_def disp_ref_def Let_def slice_simps chunk_vsum_nth wmean_def
        log_prob_at_eq nth_probs mult.assoc del: chunk_vsum_slice)
qed

section \<open>The functions, for either vocabulary mode\<close>

text \<open>The coordinates a call uses: the whole vocabulary, or the support of the truncated
  functions.\<close>

definition coords :: "(nat \<Rightarrow> vec \<Rightarrow> nat list) \<Rightarrow> bool \<Rightarrow> nat \<Rightarrow> logits list \<Rightarrow> token_ids \<Rightarrow> nat \<Rightarrow> nat set" where
  "coords topk use_full k Ls y t = (if use_full then {..<lg_v (hd Ls)} else support_set topk k Ls y t)"

definition top_k_value :: "top_k_arg \<Rightarrow> nat" where
  "top_k_value top_k = (case validated_top_k top_k of Inl e \<Rightarrow> 0 | Inr k \<Rightarrow> k)"

lemma use_full_vocab_k:
  assumes "should_use_full_vocab_compat mode top_k v = Inr False"
  shows "validated_top_k top_k = Inr (top_k_value top_k)" and "top_k_value top_k < v" "0 < top_k_value top_k"
  using assms validated_top_k_pos
  by (cases "validated_top_k top_k";
    force simp: should_use_full_vocab_compat_def should_use_full_vocab_def validate_verpo_vocab_config_def
      top_k_value_def split: if_splits)+

lemma ids_ok_gather: "ids_ok L y \<Longrightarrow> gather_ok L y"
  by (simp add: ids_ok_def gather_ok_def ids_in_range_def)

lemma ids_ok_at:
  assumes "ids_ok L y" "t < lg_n L * lg_s L"
  shows "token_at y t < lg_v L"
proof -
  have "tk_vals y ! t \<in> set (tk_vals y)"
    using assms by (simp add: ids_ok_def wf_tok_def tok_shape_def token_shape_def)
  then have "0 \<le> tk_vals y ! t" "tk_vals y ! t < int (lg_v L)"
    using assms(1) by (auto simp: ids_ok_def list_all_iff)
  then show ?thesis by (simp add: token_at_def)
qed

lemma tensors_ok_nth:
  assumes "tensors_ok Ls" "M \<in> set Ls" "t < lg_n M * lg_s M"
  shows "L \<in> set Ls \<Longrightarrow> length (lg_rows L ! t) = length (lg_rows M ! t)" "lg_rows M ! t \<noteq> []"
    "L \<in> set Ls \<Longrightarrow> t < length (lg_rows L)" "lg_v M = length (lg_rows M ! t)"
  using tensors_ok_row [OF assms(1) _ assms(2,3)] tensors_ok_row [OF assms(1,2,2,3)] by simp_all

lemma compute_fec_evidence_stats_eq:
  assumes topk: "topk_select topk" and ten: "tensors_ok [P, N, Z, S]" and ids: "ids_ok S y"
    and mode: "should_use_full_vocab_compat vocab_mode top_k (lg_v S) = Inr full"
    and T: "0 < T" and c: "0 < c" and e: "0 < e" and adv: "length adv = lg_n S"
  shows "compute_fec_evidence_stats topk P N Z S y adv T c (Fin e) vocab_mode top_k = Inr (tok_of S (\<lambda>t.
    fec_ref (coords topk full (top_k_value top_k) [P, N, Z] y t) (stu_prob T S t) (task_prob T P N t)
      (nuis_prob T P N Z t) e (token_at y t) (row_at (lg_s S) adv t)))"
proof (cases full)
  case False
  then show ?thesis
    using truncated_forward_fec_stats_eq [OF topk ten ids use_full_vocab_k(1) T e adv] mode
    by (simp add: compute_fec_evidence_stats_def coords_def)
next
  case True
  have wf: "wf_logits P" "0 < lg_v P" using ten by (simp_all add: tensors_ok_def)
  note dims = tensors_ok_dims [OF ten, of N, simplified] tensors_ok_dims [OF ten, of Z, simplified]
    tensors_ok_dims [OF ten, of S, simplified]
  note lse = chunked_vocab_logsumexp_eq [OF _ _ c]
  have tok: "tok_shape y = token_shape S" using ids by (simp add: ids_ok_def)
  have at: "fec_evidence_at (lg_v P) (nat c) T e
      (lg_rows P ! t, map (log_norm T) (lg_rows P) ! t) (lg_rows N ! t, map (log_norm T) (lg_rows N) ! t)
      (lg_rows Z ! t, map (log_norm T) (lg_rows Z) ! t) (lg_rows S ! t, map (log_norm T) (lg_rows S) ! t)
      (nat (tk_vals y ! t)) adv'
    = fec_ref {..<lg_v P} (stu_prob T S t) (task_prob T P N t) (nuis_prob T P N Z t) e (token_at y t) adv'"
    if t: "t < lg_n S * lg_s S" for t adv'
  proof -
    note R = tensors_ok_nth [OF ten _ t, simplified]
    have v: "lg_v P = length (lg_rows S ! t)" using R(4) dims by simp
    have y: "nat (tk_vals y ! t) < length (lg_rows S ! t)"
      using ids_ok_at [OF ids t] R(4) by (simp add: token_at_def)
    have m: "map (log_norm T) (lg_rows M) ! t = log_norm T (lg_rows M ! t)" if "M \<in> {P, N, Z, S}" for M
      using that R(3) [of M] by auto
    show ?thesis
      unfolding v m [of P, simplified] m [of N, simplified] m [of Z, simplified] m [of S, simplified]
        token_at_def stu_prob_def [abs_def] task_prob_def [abs_def] nuis_prob_def [abs_def]
      by (rule fec_evidence_at_ref) (use R(1) [of P] R(1) [of N] R(1) [of Z] R(2) c e y in auto)
  qed
  show ?thesis
    using True mode at
    by (simp add: compute_fec_evidence_stats_def dims wf adv tok lse T c e not_le
        coords_def ids_ok_gather [OF ids]) (rule tok_of_eqI, simp add: dims)
qed

lemma compute_evidence_displacement_stats_eq:
  assumes topk: "topk_select topk" and ten: "tensors_ok [E, B, S]" and ids: "ids_ok S y"
    and mode: "should_use_full_vocab_compat vocab_mode top_k (lg_v S) = Inr full"
    and T: "0 < T" and c: "0 < c" and adv: "length adv = lg_n S"
  defines "R \<equiv> \<lambda>t. disp_ref (coords topk full (top_k_value top_k) [E, B] y t) (stu_prob T S t)
      (task_prob T E B t) (token_at y t) (row_at (lg_s S) adv t)"
  shows "compute_evidence_displacement_stats topk E B S y adv top_k T c vocab_mode
    = Inr (tok_of S (\<lambda>t. fst (R t)), tok_of S (\<lambda>t. fst (snd (R t))), tok_of S (\<lambda>t. snd (snd (R t))))"
proof (cases full)
  case False
  then show ?thesis
    using truncated_forward_displacement_stats_eq [OF topk ten ids use_full_vocab_k(1) T adv] mode
    by (simp add: compute_evidence_displacement_stats_def coords_def R_def)
next
  case True
  note dims = tensors_ok_dims [OF ten, of B, simplified] tensors_ok_dims [OF ten, of S, simplified]
  have tok: "tok_shape y = token_shape S" using ids by (simp add: ids_ok_def)
  have at: "evidence_displacement_at (lg_v S) (nat c) T (lg_rows E ! t) (lg_rows B ! t) (lg_rows S ! t)
      (nat (tk_vals y ! t)) (row_at (lg_s S) adv t) = R t" if t: "t < lg_n S * lg_s S" for t
  proof -
    note R = tensors_ok_nth [OF ten _ t, simplified]
    have y: "nat (tk_vals y ! t) < length (lg_rows S ! t)"
      using ids_ok_at [OF ids t] R(4) by (simp add: token_at_def)
    have R_eq: "R t = disp_ref {..<length (lg_rows S ! t)} (stu_prob T S t) (task_prob T E B t)
        (nat (tk_vals y ! t)) (row_at (lg_s S) adv t)"
      using True dims(5,10) R(4) by (simp add: R_def coords_def token_at_def)
    show ?thesis
      unfolding R_eq R(4) stu_prob_def [abs_def] task_prob_def [abs_def]
      by (rule evidence_displacement_at_ref) (use R(1) [of E] R(1) [of B] R(2) c y in auto)
  qed
  show ?thesis
    using True mode at
    by (simp add: compute_evidence_displacement_stats_def dims adv tok T c not_le Let_def
        ids_ok_gather [OF ids]) (intro conjI tok_of_eqI; simp add: dims)
qed

end
