(* ===== verification/FullReverse.thy ===== *)
theory FullReverse
  imports FullForward
begin

text \<open>
  The exact-vocabulary evidence statistics of the Reverse-KL controllers
  (\<open>risk_aware_opsd/verpo_zpd.py\<close>): \<open>compute_reverse_kl_evidence_stats\<close> and
  \<open>compute_reverse_kl_fec_evidence_stats\<close>. A log-density direction \<open>r\<close> is first mapped to
  the tangent \<open>xi = F(p) r\<close> (theory \<open>Fisher\<close>); both functions return the reference
  statistics of these tangents.
\<close>

section \<open>Fixed and CTR tangent statistics\<close>

definition reverse_kl_evidence_at ::
  "nat \<Rightarrow> nat \<Rightarrow> real \<Rightarrow> vec \<Rightarrow> vec \<Rightarrow> vec \<Rightarrow> nat \<Rightarrow> real \<Rightarrow> real \<times> real \<times> real" where
  "reverse_kl_evidence_at n c scale evidence base student token advantage =
     (let evidence_log_norm = log_norm scale evidence;
          base_log_norm = log_norm scale base;
          student_log_norm = log_norm scale student;
          student_probs = (\<lambda>a b. vexp (log_probs_chunk scale student_log_norm student a b));
          log_ratio = (\<lambda>a b. vsub (log_probs_chunk scale evidence_log_norm evidence a b)
            (log_probs_chunk scale base_log_norm base a b));
          mean_log_ratio = chunk_sum n c (\<lambda>a b. vsum (vmul (student_probs a b) (log_ratio a b)));
          tangent = (\<lambda>a b. vmul (student_probs a b) (vshift (log_ratio a b) mean_log_ratio));
          mean_xi = chunk_sum n c (\<lambda>a b. vsum (vmul (student_probs a b) (tangent a b)));
          second_moment_xi = chunk_sum n c
            (\<lambda>a b. vsum (vmul (vmul (student_probs a b) (tangent a b)) (tangent a b)));
          tangent_norm_sq = chunk_sum n c (\<lambda>a b. vsum (vmul (tangent a b) (tangent a b)));
          base_log_prob_at_token = log_prob_at scale base_log_norm base token;
          evidence_log_prob_at_token = log_prob_at scale evidence_log_norm evidence token;
          student_prob_at_token = exp (log_prob_at scale student_log_norm student token);
          tangent_at_token = student_prob_at_token *
            (evidence_log_prob_at_token - base_log_prob_at_token - mean_log_ratio);
          centered_alignment = tangent_at_token - mean_xi;
          fisher_cost = clamp_min 0 (second_moment_xi - mean_xi * mean_xi)
      in (advantage * centered_alignment, fisher_cost, sqrt tangent_norm_sq))"

definition compute_reverse_kl_evidence_stats ::
  "(nat \<Rightarrow> vec \<Rightarrow> nat list) \<Rightarrow> logits \<Rightarrow> logits \<Rightarrow> logits \<Rightarrow> token_ids \<Rightarrow> vec \<Rightarrow> top_k_arg \<Rightarrow> real \<Rightarrow> int
    \<Rightarrow> string \<Rightarrow> displacement_stats res" where
  "compute_reverse_kl_evidence_stats topk evidence no_evidence student y advantages top_k temperature
     vocab_chunk_size vocab_mode =
     rbind (should_use_full_vocab_compat vocab_mode top_k (lg_v student)) (\<lambda>use_full.
     if \<not> use_full
     then truncated_reverse_displacement_stats topk evidence no_evidence student y advantages top_k temperature
     else if lg_shape evidence \<noteq> lg_shape no_evidence
     then Inl (ValueError ''evidence and base Teacher logits must have identical shapes'')
     else if lg_shape evidence \<noteq> lg_shape student
     then Inl (ValueError ''Teacher and Student logits must have identical shapes'')
     else if tok_shape y \<noteq> token_shape student
     then Inl (ValueError ''sampled_token_ids must match the token dimensions'')
     else if length advantages \<noteq> lg_n student
     then Inl (ValueError ''advantages must have shape [n_rows]'')
     else if temperature \<le> 0 then Inl (ValueError ''temperature must be positive'')
     else if (case top_k of TkInt k \<Rightarrow> k \<le> 0 | TkCpuScalar k \<Rightarrow> k \<le> 0 | _ \<Rightarrow> False)
     then Inl (ValueError ''top_k must be positive when provided'')
     else if vocab_chunk_size \<le> 0 then Inl (ValueError ''vocab_chunk_size must be positive'')
     else if \<not> gather_ok student y then Inl gather_error
     else let r = (\<lambda>t. reverse_kl_evidence_at (lg_v student) (nat vocab_chunk_size) temperature
              (lg_rows evidence ! t) (lg_rows no_evidence ! t) (lg_rows student ! t)
              (nat (tk_vals y ! t)) (row_at (lg_s student) advantages t))
       in Inr (tok_of student (\<lambda>t. fst (r t)), tok_of student (\<lambda>t. fst (snd (r t))),
            tok_of student (\<lambda>t. snd (snd (r t)))))"

section \<open>Reverse-KL FEC tangent statistics\<close>

text \<open>The task and the nuisance log-ratio of one chunk.\<close>

definition reverse_fec_chunk :: "real \<Rightarrow> vec \<Rightarrow> vec \<Rightarrow> vec \<Rightarrow> nat \<Rightarrow> nat \<Rightarrow> vec \<times> vec" where
  "reverse_fec_chunk scale positive negative no_evidence start stop =
     (let positive_log_probs = log_probs_chunk scale (log_norm scale positive) positive start stop;
          negative_log_probs = log_probs_chunk scale (log_norm scale negative) negative start stop;
          no_evidence_log_probs = log_probs_chunk scale (log_norm scale no_evidence) no_evidence start stop
      in (vsub positive_log_probs negative_log_probs,
          vsub (vscale (1/2) (vadd positive_log_probs negative_log_probs)) no_evidence_log_probs))"

text \<open>The second loop: the six moments and the L2 cross term of the tangents.\<close>

record tangent_pass = fec_moments +
  fx_l2_cross :: real

definition reverse_fec_pass ::
  "nat \<Rightarrow> nat \<Rightarrow> (nat \<Rightarrow> nat \<Rightarrow> vec) \<Rightarrow> (nat \<Rightarrow> nat \<Rightarrow> vec) \<Rightarrow> (nat \<Rightarrow> nat \<Rightarrow> vec) \<Rightarrow> tangent_pass" where
  "reverse_fec_pass n c student_probs task_tangent nuisance_tangent =
     (let mean_task = chunk_sum n c (\<lambda>a b. vsum (vmul (student_probs a b) (task_tangent a b)));
          mean_nuisance = chunk_sum n c (\<lambda>a b. vsum (vmul (student_probs a b) (nuisance_tangent a b)));
          second_task = chunk_sum n c (\<lambda>a b. vsum (vmul (student_probs a b) (vsquare (task_tangent a b))));
          second_nuisance =
            chunk_sum n c (\<lambda>a b. vsum (vmul (student_probs a b) (vsquare (nuisance_tangent a b))));
          cross_tangent_moment = chunk_sum n c
            (\<lambda>a b. vsum (vmul (vmul (student_probs a b) (task_tangent a b)) (nuisance_tangent a b)));
          task_norm_sq = chunk_sum n c (\<lambda>a b. vsum (vsquare (task_tangent a b)));
          nuisance_norm_sq = chunk_sum n c (\<lambda>a b. vsum (vsquare (nuisance_tangent a b)));
          task_nuisance_l2_cross =
            chunk_sum n c (\<lambda>a b. vsum (vmul (task_tangent a b) (nuisance_tangent a b)))
      in \<lparr>fx_mean_task = mean_task, fx_mean_nuisance = mean_nuisance,
          fx_task_variance = clamp_min 0 (second_task - mean_task * mean_task),
          fx_nuisance_variance = clamp_min 0 (second_nuisance - mean_nuisance * mean_nuisance),
          fx_covariance = cross_tangent_moment - mean_task * mean_nuisance,
          fx_task_norm_sq = task_norm_sq, fx_nuisance_norm_sq = nuisance_norm_sq,
          fx_l2_cross = task_nuisance_l2_cross\<rparr>)"

definition reverse_fec_result :: "real \<Rightarrow> tangent_pass \<Rightarrow> real \<Rightarrow> real \<Rightarrow> real \<Rightarrow> fec_stats" where
  "reverse_fec_result epsilon m task_tangent_at_token nuisance_tangent_at_token advantage =
     (let task_fisher = fx_task_variance m;
          nuisance_fisher = fx_nuisance_variance m;
          covariance = fx_covariance m;
          projection = covariance / (nuisance_fisher + epsilon);
          residual_mean = fx_mean_task m - projection * fx_mean_nuisance m;
          residual_fisher = clamp_min 0 (task_fisher - 2 * projection * covariance
            + projection * projection * nuisance_fisher);
          residual_nuisance_covariance = covariance - projection * nuisance_fisher;
          fisher_cosine = clamp (-1) 1
            (covariance / sqrt ((task_fisher + epsilon) * (nuisance_fisher + epsilon)));
          residual_tangent_norm_sq = clamp_min 0 (fx_task_norm_sq m - 2 * projection * fx_l2_cross m
            + projection * projection * fx_nuisance_norm_sq m);
          residual_tangent_at_token = task_tangent_at_token - projection * nuisance_tangent_at_token;
          centered_alignment = residual_tangent_at_token - residual_mean
      in \<lparr>fs_benefit = advantage * centered_alignment, fs_fisher_cost = residual_fisher,
          fs_displacement_norm = sqrt residual_tangent_norm_sq,
          fs_task_norm = sqrt (fx_task_norm_sq m), fs_nuisance_norm = sqrt (fx_nuisance_norm_sq m),
          fs_cosine = fisher_cosine, fs_projection = projection,
          fs_residual_cov = residual_nuisance_covariance, fs_alignment = centered_alignment\<rparr>)"

definition reverse_kl_fec_evidence_at ::
  "nat \<Rightarrow> nat \<Rightarrow> real \<Rightarrow> real \<Rightarrow> vec \<Rightarrow> vec \<Rightarrow> vec \<Rightarrow> vec \<Rightarrow> nat \<Rightarrow> real \<Rightarrow> fec_stats" where
  "reverse_kl_fec_evidence_at n c scale epsilon positive negative no_evidence student token advantage =
     (let student_probs = (\<lambda>a b. vexp (log_probs_chunk scale (log_norm scale student) student a b));
          task_log_ratio = (\<lambda>a b. fst (reverse_fec_chunk scale positive negative no_evidence a b));
          nuisance_log_ratio = (\<lambda>a b. snd (reverse_fec_chunk scale positive negative no_evidence a b));
          mean_task_log_ratio = chunk_sum n c (\<lambda>a b. vsum (vmul (student_probs a b) (task_log_ratio a b)));
          mean_nuisance_log_ratio =
            chunk_sum n c (\<lambda>a b. vsum (vmul (student_probs a b) (nuisance_log_ratio a b)));
          task_tangent = (\<lambda>a b. vmul (student_probs a b) (vshift (task_log_ratio a b) mean_task_log_ratio));
          nuisance_tangent =
            (\<lambda>a b. vmul (student_probs a b) (vshift (nuisance_log_ratio a b) mean_nuisance_log_ratio));
          m = reverse_fec_pass n c student_probs task_tangent nuisance_tangent;
          positive_at_token = log_prob_at scale (log_norm scale positive) positive token;
          negative_at_token = log_prob_at scale (log_norm scale negative) negative token;
          no_evidence_at_token = log_prob_at scale (log_norm scale no_evidence) no_evidence token;
          student_prob_at_token = exp (log_prob_at scale (log_norm scale student) student token);
          task_log_ratio_at_token = positive_at_token - negative_at_token;
          nuisance_log_ratio_at_token =
            1/2 * (positive_at_token + negative_at_token) - no_evidence_at_token;
          task_tangent_at_token = student_prob_at_token * (task_log_ratio_at_token - mean_task_log_ratio);
          nuisance_tangent_at_token =
            student_prob_at_token * (nuisance_log_ratio_at_token - mean_nuisance_log_ratio)
      in reverse_fec_result epsilon m task_tangent_at_token nuisance_tangent_at_token advantage)"

definition compute_reverse_kl_fec_evidence_stats ::
  "(nat \<Rightarrow> vec \<Rightarrow> nat list) \<Rightarrow> logits \<Rightarrow> logits \<Rightarrow> logits \<Rightarrow> logits \<Rightarrow> token_ids \<Rightarrow> vec \<Rightarrow> real \<Rightarrow> int
    \<Rightarrow> pyfloat \<Rightarrow> string \<Rightarrow> top_k_arg \<Rightarrow> fec_stats tok res" where
  "compute_reverse_kl_fec_evidence_stats topk positive negative no_evidence student y advantages temperature
     vocab_chunk_size projection_epsilon vocab_mode top_k =
     rbind (should_use_full_vocab_compat vocab_mode top_k (lg_v student)) (\<lambda>use_full.
     if \<not> use_full
     then truncated_reverse_fec_stats topk positive negative no_evidence student y advantages top_k
       temperature projection_epsilon
     else if lg_shape positive \<noteq> lg_shape negative
     then Inl (ValueError ''positive and negative Teacher logits must have identical shapes'')
     else if lg_shape positive \<noteq> lg_shape no_evidence
     then Inl (ValueError ''positive and no-evidence Teacher logits must have identical shapes'')
     else if lg_shape positive \<noteq> lg_shape student
     then Inl (ValueError ''Teacher and Student logits must have identical shapes'')
     else if tok_shape y \<noteq> token_shape student
     then Inl (ValueError ''sampled_token_ids must match the token dimensions'')
     else if length advantages \<noteq> lg_n student
     then Inl (ValueError ''advantages must have shape [n_rows]'')
     else if temperature \<le> 0 then Inl (ValueError ''temperature must be positive'')
     else if vocab_chunk_size \<le> 0 then Inl (ValueError ''vocab_chunk_size must be positive'')
     else if \<not> isfinite projection_epsilon \<or> the_real projection_epsilon \<le> 0
     then Inl (ValueError ''projection_epsilon must be finite and positive'')
     else if \<not> gather_ok student y then Inl gather_error
     else Inr (tok_of student (\<lambda>t. reverse_kl_fec_evidence_at (lg_v student) (nat vocab_chunk_size)
       temperature (the_real projection_epsilon) (lg_rows positive ! t) (lg_rows negative ! t)
       (lg_rows no_evidence ! t) (lg_rows student ! t) (nat (tk_vals y ! t))
       (row_at (lg_s student) advantages t))))"

section \<open>The tangent statistics are the reference statistics\<close>

lemma disp_ref_cong:
  assumes "\<And>k. k \<in> A \<Longrightarrow> f k = f' k" "f y = f' y"
  shows "disp_ref A p f y adv = disp_ref A p f' y adv"
proof -
  have "wmean A p f = wmean A p f'" "wcov A p f f = wcov A p f' f'"
    "(\<Sum>k\<in>A. f k * f k) = (\<Sum>k\<in>A. f' k * f' k)"
    using assms(1) by (intro wmean_cong wcov_cong sum.cong; simp)+
  then show ?thesis using assms(2) by (simp add: disp_ref_def)
qed

lemma tangent_cong:
  "(\<And>k. k \<in> A \<Longrightarrow> f k = f' k) \<Longrightarrow> f k = f' k \<Longrightarrow> tangent A p f k = tangent A p f' k"
  unfolding tangent_def by (subst wmean_cong [of A p p f f']) auto

text \<open>The tangent of a log-ratio row.\<close>

definition tangent_row :: "vec \<Rightarrow> vec \<Rightarrow> vec" where
  "tangent_row p r = vmul p (vshift r (vsum (vmul p r)))"

lemma length_tangent_row [simp]: "length p = length r \<Longrightarrow> length (tangent_row p r) = length r"
  by (simp add: tangent_row_def)

lemma nth_tangent_row:
  assumes "length r = length p" "k < length p"
  shows "tangent_row p r ! k = tangent {..<length p} (\<lambda>k. p ! k) (\<lambda>k. r ! k) k"
  using assms by (simp add: tangent_row_def tangent_def wmean_def vsum_vmul)

lemma reverse_fec_chunk_slice:
  "reverse_fec_chunk T P N Z a b
    = (slice a b (vsub (log_probs T P) (log_probs T N)),
       slice a b (vsub (vscale (1/2) (vadd (log_probs T P) (log_probs T N))) (log_probs T Z)))"
  by (simp add: reverse_fec_chunk_def Let_def slice_simps)

lemma reverse_kl_evidence_at_ref:
  fixes adv T :: real
  assumes z: "S \<noteq> []" and c: "0 < c" and len: "length E = length S" "length B = length S" and k: "k < length S"
  shows "reverse_kl_evidence_at (length S) c T E B S k adv
    = disp_ref {..<length S} (\<lambda>k. probs T S ! k)
        (tangent {..<length S} (\<lambda>k. probs T S ! k) (\<lambda>k. log_probs T E ! k - log_probs T B ! k)) k adv"
proof -
  let ?r = "vsub (log_probs T E) (log_probs T B)"
  let ?x = "tangent_row (probs T S) ?r"
  have mean: "chunk_sum (length S) c (\<lambda>a b. vsum (slice a b (vmul (probs T S) ?r))) = vsum (vmul (probs T S) ?r)"
    using c len by simp
  have at: "?x ! k = probs T S ! k * (log_probs T E ! k - log_probs T B ! k - vsum (vmul (probs T S) ?r))"
    using k len by (simp add: tangent_row_def)
  note var = softmax.var_clamp [where x = "(T, S)" and f = "\<lambda>k. ?x ! k", unfolded prod.case, OF z]
  have "reverse_kl_evidence_at (length S) c T E B S k adv
    = disp_ref {..<length S} (\<lambda>k. probs T S ! k) (\<lambda>k. ?x ! k) k adv"
    using var len k c
    by (simp add: reverse_kl_evidence_at_def disp_ref_def Let_def slice_simps mean tangent_row_def [symmetric]
        chunk_vsum_nth wmean_def log_prob_at_eq nth_probs [symmetric] at mult.assoc del: chunk_vsum_slice)
  also have "\<dots> = disp_ref {..<length S} (\<lambda>k. probs T S ! k)
        (tangent {..<length S} (\<lambda>k. probs T S ! k) (\<lambda>k. log_probs T E ! k - log_probs T B ! k)) k adv"
    by (rule disp_ref_cong) (use len k in \<open>auto simp: nth_tangent_row intro!: tangent_cong\<close>)
  finally show ?thesis .
qed

lemma reverse_fec_pass_slice:
  assumes "0 < c" "length p = n" "length f = n" "length g = n"
  shows "reverse_fec_pass n c (\<lambda>a b. slice a b p) (\<lambda>a b. slice a b f) (\<lambda>a b. slice a b g)
    = (let m = \<lambda>h. (\<Sum>k<n. p ! k * h k); ff = \<lambda>k. f ! k; gg = \<lambda>k. g ! k in
      \<lparr>fx_mean_task = m ff, fx_mean_nuisance = m gg,
       fx_task_variance = clamp_min 0 (m (\<lambda>k. ff k * ff k) - m ff * m ff),
       fx_nuisance_variance = clamp_min 0 (m (\<lambda>k. gg k * gg k) - m gg * m gg),
       fx_covariance = (\<Sum>k<n. p ! k * ff k * gg k) - m ff * m gg,
       fx_task_norm_sq = (\<Sum>k<n. ff k * ff k), fx_nuisance_norm_sq = (\<Sum>k<n. gg k * gg k),
       fx_l2_cross = (\<Sum>k<n. ff k * gg k)\<rparr>)"
  using assms by (simp add: reverse_fec_pass_def Let_def vec_slice chunk_vsum_nth del: chunk_vsum_slice)

text \<open>The expanded residual norm is the norm of the residual, so its clamp changes nothing.\<close>

lemma resid_square_sum:
  "(\<Sum>k\<in>A. f k * f k) - 2 * a * (\<Sum>k\<in>A. f k * g k) + a * a * (\<Sum>k\<in>A. g k * g k)
    = (\<Sum>k\<in>A. resid f a g k * resid f a g k)"
proof -
  have "resid f a g k * resid f a g k = f k * f k - 2 * a * (f k * g k) + a * a * (g k * g k)" for k
    by (simp add: resid_def algebra_simps)
  then show ?thesis by (simp only: sum.distrib sum_subtractf sum_distrib_left)
qed

lemma reverse_fec_result_ref:
  fixes adv e T :: real
  assumes z: "z \<noteq> []" and e: "0 < e" and c: "0 < c" and len: "length f = length z" "length g = length z"
    and k: "k < length z"
  shows "reverse_fec_result e (reverse_fec_pass (length z) c (\<lambda>a b. slice a b (probs T z))
      (\<lambda>a b. slice a b f) (\<lambda>a b. slice a b g)) (f ! k) (g ! k) adv
    = fec_ref {..<length z} (\<lambda>k. probs T z ! k) (\<lambda>k. f ! k) (\<lambda>k. g ! k) e k adv" (is "?L = ?R")
proof -
  note core = softmax.fec_moments_ref [where x = "(T, z)" and eps = e and task = "\<lambda>k. f ! k"
      and nuis = "\<lambda>k. g ! k" and y = k and adv = adv, unfolded prod.case, OF z e]
  note pass = reverse_fec_pass_slice [OF c, of "probs T z" "length z" f g, simplified, OF len]
  have norm: "clamp_min 0 ((\<Sum>k<length z. f ! k * f ! k) - 2 * x * (\<Sum>k<length z. f ! k * g ! k)
        + x * x * (\<Sum>k<length z. g ! k * g ! k))
      = (\<Sum>k<length z. resid (\<lambda>k. f ! k) x (\<lambda>k. g ! k) k * resid (\<lambda>k. f ! k) x (\<lambda>k. g ! k) k)" for x
    unfolding resid_square_sum by (intro clamp_min_id sum_nonneg) simp
  have proj: "fs_projection ?L = fs_projection ?R"
    using core(1) by (simp add: reverse_fec_result_def pass Let_def wmean_def)
  show ?thesis
    using core proj
    by (subst fec_ref_record) (simp add: reverse_fec_result_def pass Let_def wmean_def norm
        fec_ref_norms del: times_divide_eq_left times_divide_eq_right)
qed

lemma reverse_kl_fec_evidence_at_ref:
  fixes adv e T :: real
  assumes z: "S \<noteq> []" and e: "0 < e" and c: "0 < c"
    and len: "length P = length S" "length N = length S" "length Z = length S" and k: "k < length S"
  defines "A \<equiv> {..<length S}" and "p \<equiv> \<lambda>k. probs T S ! k"
  shows "reverse_kl_fec_evidence_at (length S) c T e P N Z S k adv
    = fec_ref A p (tangent A p (\<lambda>k. log_probs T P ! k - log_probs T N ! k))
        (tangent A p (\<lambda>k. 1/2 * (log_probs T P ! k + log_probs T N ! k) - log_probs T Z ! k)) e k adv"
proof -
  let ?p = "probs T S"
  let ?r = "vsub (log_probs T P) (log_probs T N)"
  let ?n = "vsub (vscale (1/2) (vadd (log_probs T P) (log_probs T N))) (log_probs T Z)"
  let ?f = "tangent_row ?p ?r" and ?g = "tangent_row ?p ?n"
  have mean: "chunk_sum (length S) c (\<lambda>a b. vsum (slice a b (vmul ?p ?r))) = vsum (vmul ?p ?r)"
    "chunk_sum (length S) c (\<lambda>a b. vsum (slice a b (vmul ?p ?n))) = vsum (vmul ?p ?n)"
    using c len by simp_all
  have at: "?p ! k * (log_probs T P ! k - log_probs T N ! k - vsum (vmul ?p ?r)) = ?f ! k"
    "?p ! k * (1/2 * (log_probs T P ! k + log_probs T N ! k) - log_probs T Z ! k - vsum (vmul ?p ?n)) = ?g ! k"
    using k len by (simp_all add: tangent_row_def)
  have "reverse_kl_fec_evidence_at (length S) c T e P N Z S k adv
    = fec_ref {..<length S} (\<lambda>k. probs T S ! k) (\<lambda>k. ?f ! k) (\<lambda>k. ?g ! k) e k adv"
    using reverse_fec_result_ref [OF z e c, of ?f ?g k T adv] len k at
    by (simp add: reverse_kl_fec_evidence_at_def reverse_fec_chunk_slice Let_def slice_simps mean
        tangent_row_def [symmetric] log_prob_at_eq nth_probs [symmetric])
  also have "\<dots> = fec_ref A p (tangent A p (\<lambda>k. log_probs T P ! k - log_probs T N ! k))
        (tangent A p (\<lambda>k. 1/2 * (log_probs T P ! k + log_probs T N ! k) - log_probs T Z ! k)) e k adv"
    unfolding A_def p_def
    by (rule fec_ref_cong) (use len k in \<open>auto simp: nth_tangent_row intro!: tangent_cong\<close>)
  finally show ?thesis .
qed

section \<open>The functions, for either vocabulary mode\<close>

lemma top_k_guard:
  "should_use_full_vocab_compat mode top_k v = Inr b \<Longrightarrow>
    \<not> (case top_k of TkInt k \<Rightarrow> k \<le> 0 | TkCpuScalar k \<Rightarrow> k \<le> 0 | _ \<Rightarrow> False)"
  by (cases top_k) (auto simp: should_use_full_vocab_compat_def should_use_full_vocab_def
      validate_verpo_vocab_config_def split: if_splits)

lemma compute_reverse_kl_evidence_stats_eq:
  assumes topk: "topk_select topk" and ten: "tensors_ok [B, E, S]" and ids: "ids_ok S y"
    and mode: "should_use_full_vocab_compat vocab_mode top_k (lg_v S) = Inr full"
    and T: "0 < T" and c: "0 < c" and adv: "length adv = lg_n S"
  defines "A \<equiv> coords topk full (top_k_value top_k) [B, E, S] y"
  defines "R \<equiv> \<lambda>t. disp_ref (A t) (stu_prob T S t) (tangent (A t) (stu_prob T S t) (task_log T E B t))
      (token_at y t) (row_at (lg_s S) adv t)"
  shows "compute_reverse_kl_evidence_stats topk E B S y adv top_k T c vocab_mode
    = Inr (tok_of S (\<lambda>t. fst (R t)), tok_of S (\<lambda>t. fst (snd (R t))), tok_of S (\<lambda>t. snd (snd (R t))))"
proof (cases full)
  case False
  then show ?thesis
    using truncated_reverse_displacement_stats_eq [OF topk ten ids use_full_vocab_k(1) T adv] mode
    by (simp add: compute_reverse_kl_evidence_stats_def coords_def R_def A_def)
next
  case True
  note dims = tensors_ok_dims [OF ten, of E, simplified] tensors_ok_dims [OF ten, of S, simplified]
  have tok: "tok_shape y = token_shape S" using ids by (simp add: ids_ok_def)
  have at: "reverse_kl_evidence_at (lg_v S) (nat c) T (lg_rows E ! t) (lg_rows B ! t) (lg_rows S ! t)
      (nat (tk_vals y ! t)) (row_at (lg_s S) adv t) = R t" if t: "t < lg_n S * lg_s S" for t
  proof -
    note W = tensors_ok_nth [OF ten _ t, simplified]
    have y: "nat (tk_vals y ! t) < length (lg_rows S ! t)"
      using ids_ok_at [OF ids t] W(4) by (simp add: token_at_def)
    have A: "A t = {..<length (lg_rows S ! t)}"
      using True dims(5,10) W(4) by (simp add: A_def coords_def)
    show ?thesis
      unfolding R_def A W(4) stu_prob_def [abs_def] task_log_def [abs_def] token_at_def
      by (rule reverse_kl_evidence_at_ref) (use W(1) [of E] W(1) [of B] W(2) c y in auto)
  qed
  show ?thesis
    using True mode at top_k_guard [OF mode]
    by (simp add: compute_reverse_kl_evidence_stats_def dims adv tok T c not_le Let_def
        ids_ok_gather [OF ids]) (intro conjI tok_of_eqI; simp add: dims)
qed

lemma compute_reverse_kl_fec_evidence_stats_eq:
  assumes topk: "topk_select topk" and ten: "tensors_ok [P, N, Z, S]" and ids: "ids_ok S y"
    and mode: "should_use_full_vocab_compat vocab_mode top_k (lg_v S) = Inr full"
    and T: "0 < T" and c: "0 < c" and e: "0 < e" and adv: "length adv = lg_n S"
  defines "A \<equiv> coords topk full (top_k_value top_k) [P, N, Z, S] y"
  shows "compute_reverse_kl_fec_evidence_stats topk P N Z S y adv T c (Fin e) vocab_mode top_k
    = Inr (tok_of S (\<lambda>t. fec_ref (A t) (stu_prob T S t) (tangent (A t) (stu_prob T S t) (task_log T P N t))
      (tangent (A t) (stu_prob T S t) (nuis_log T P N Z t)) e (token_at y t) (row_at (lg_s S) adv t)))"
proof (cases full)
  case False
  then show ?thesis
    using truncated_reverse_fec_stats_eq [OF topk ten ids use_full_vocab_k(1) T e adv] mode
    by (simp add: compute_reverse_kl_fec_evidence_stats_def coords_def A_def)
next
  case True
  note dims = tensors_ok_dims [OF ten, of N, simplified] tensors_ok_dims [OF ten, of Z, simplified]
    tensors_ok_dims [OF ten, of S, simplified]
  have tok: "tok_shape y = token_shape S" using ids by (simp add: ids_ok_def)
  have at: "reverse_kl_fec_evidence_at (lg_v S) (nat c) T e (lg_rows P ! t) (lg_rows N ! t) (lg_rows Z ! t)
      (lg_rows S ! t) (nat (tk_vals y ! t)) adv'
    = fec_ref (A t) (stu_prob T S t) (tangent (A t) (stu_prob T S t) (task_log T P N t))
      (tangent (A t) (stu_prob T S t) (nuis_log T P N Z t)) e (token_at y t) adv'"
    if t: "t < lg_n S * lg_s S" for t adv'
  proof -
    note W = tensors_ok_nth [OF ten _ t, simplified]
    have y: "nat (tk_vals y ! t) < length (lg_rows S ! t)"
      using ids_ok_at [OF ids t] W(4) by (simp add: token_at_def)
    have A: "A t = {..<length (lg_rows S ! t)}"
      using True dims(15) W(4) by (simp add: A_def coords_def)
    show ?thesis
      unfolding A W(4) stu_prob_def [abs_def] task_log_def [abs_def] nuis_log_def [abs_def] token_at_def
      by (rule reverse_kl_fec_evidence_at_ref)
        (use W(1) [of P] W(1) [of N] W(1) [of Z] W(2) c e y in auto)
  qed
  show ?thesis
    using True mode at
    by (simp add: compute_reverse_kl_fec_evidence_stats_def dims adv tok T c e not_le Let_def
        ids_ok_gather [OF ids]) (rule tok_of_eqI, simp add: dims)
qed

end
