(* ===== verification/FullLosses.thy ===== *)
theory FullLosses
  imports FullReverse TopkLossesRef
begin

text \<open>
  The loss functions of \<open>risk_aware_opsd/verpo_zpd.py\<close>: the Forward-KL losses of the Fixed, CTR
  and FEC controllers, the Reverse-KL losses with their geometric Teacher path, their dispatch to
  the truncated losses, and the composition with the GRPO loss.
\<close>

section \<open>Forward-KL losses on the whole vocabulary\<close>

text \<open>One position of \<open>reference_loss\<close> and of a correction along a displacement, accumulated
  over chunks.\<close>

definition reference_kl_at :: "nat \<Rightarrow> nat \<Rightarrow> real \<Rightarrow> vec \<Rightarrow> vec \<Rightarrow> real" where
  "reference_kl_at n c scale reference student =
     (let reference_log_norm = log_norm scale reference;
          student_log_norm = log_norm scale student
      in chunk_sum n c (\<lambda>a b.
        let student_log_probs = log_probs_chunk scale student_log_norm student a b;
            reference_log_probs = log_probs_chunk scale reference_log_norm reference a b;
            reference_probs = vexp reference_log_probs
        in scale * vsum (vmul reference_probs (vsub reference_log_probs student_log_probs))))"

definition displacement_loss_at :: "nat \<Rightarrow> nat \<Rightarrow> real \<Rightarrow> real \<Rightarrow> vec \<Rightarrow> vec \<Rightarrow> vec \<Rightarrow> real" where
  "displacement_loss_at n c scale weight positive negative student =
     (let positive_log_norm = log_norm scale positive;
          negative_log_norm = log_norm scale negative;
          student_log_norm = log_norm scale student
      in chunk_sum n c (\<lambda>a b.
        let student_log_probs = log_probs_chunk scale student_log_norm student a b;
            positive_probs = vexp (log_probs_chunk scale positive_log_norm positive a b);
            negative_probs = vexp (log_probs_chunk scale negative_log_norm negative a b);
            displacement = vsub positive_probs negative_probs
        in - (scale * weight * vsum (vmul displacement student_log_probs))))"

definition compute_contrastive_teacher_token_losses ::
  "(nat \<Rightarrow> vec \<Rightarrow> nat list) \<Rightarrow> logits \<Rightarrow> logits \<Rightarrow> logits \<Rightarrow> logits \<Rightarrow> real tok \<Rightarrow> real \<Rightarrow> int \<Rightarrow> string
    \<Rightarrow> top_k_arg \<Rightarrow> token_ids option \<Rightarrow> (real tok \<times> real tok) res" where
  "compute_contrastive_teacher_token_losses topk student reference positive negative weights temperature
     vocab_chunk_size vocab_mode top_k sampled_token_ids =
     rbind (should_use_full_vocab_compat vocab_mode top_k (lg_v student)) (\<lambda>use_full.
     if \<not> use_full
     then (case sampled_token_ids of
         None \<Rightarrow> Inl (ValueError ''sampled_token_ids is required for topk_truncated Forward-KL'')
       | Some y \<Rightarrow> truncated_forward_ctr_losses topk student reference positive negative y weights top_k temperature)
     else rbind (check_teachers student
         [(''reference'', reference), (''positive'', positive), (''negative'', negative)]) (\<lambda>_.
       if tok_shape weights \<noteq> token_shape student
       then Inl (ValueError ''evidence_weights must match the token dimensions'')
       else if temperature \<le> 0 then Inl (ValueError ''temperature must be positive'')
       else if vocab_chunk_size \<le> 0 then Inl (ValueError ''vocab_chunk_size must be positive'')
       else let n = lg_v student; c = nat vocab_chunk_size in
         Inr (tok_of student (\<lambda>t. reference_kl_at n c temperature (lg_rows reference ! t) (lg_rows student ! t)),
              tok_of student (\<lambda>t. displacement_loss_at n c temperature (tk_vals weights ! t)
                (lg_rows positive ! t) (lg_rows negative ! t) (lg_rows student ! t)))))"

definition fec_loss_at ::
  "nat \<Rightarrow> nat \<Rightarrow> real \<Rightarrow> real \<Rightarrow> real \<Rightarrow> vec \<times> real \<Rightarrow> vec \<times> real \<Rightarrow> vec \<times> real \<Rightarrow> vec \<times> real \<Rightarrow> real" where
  "fec_loss_at n c scale weight projection positive negative no_evidence student =
     chunk_sum n c (\<lambda>a b.
       let student_log_probs = log_probs_chunk scale (snd student) (fst student) a b;
           chunk = fec_chunk scale positive negative no_evidence a b;
           fec_displacement = vsub (fst chunk) (vscale projection (snd chunk))
       in - (scale * weight * vsum (vmul fec_displacement student_log_probs)))"

definition compute_fec_teacher_token_losses ::
  "(nat \<Rightarrow> vec \<Rightarrow> nat list) \<Rightarrow> logits \<Rightarrow> logits \<Rightarrow> logits \<Rightarrow> logits \<Rightarrow> real tok \<Rightarrow> real tok \<Rightarrow> real \<Rightarrow> int
    \<Rightarrow> string \<Rightarrow> top_k_arg \<Rightarrow> token_ids option \<Rightarrow> real tok res" where
  "compute_fec_teacher_token_losses topk student positive negative no_evidence weights projection temperature
     vocab_chunk_size vocab_mode top_k sampled_token_ids =
     rbind (should_use_full_vocab_compat vocab_mode top_k (lg_v student)) (\<lambda>use_full.
     if \<not> use_full
     then (case sampled_token_ids of
         None \<Rightarrow> Inl (ValueError ''sampled_token_ids is required for topk_truncated Forward-KL'')
       | Some y \<Rightarrow> truncated_forward_fec_loss topk student positive negative no_evidence y weights projection
           top_k temperature)
     else rbind (check_fec_inputs student positive negative no_evidence weights projection) (\<lambda>_.
       if temperature \<le> 0 then Inl (ValueError ''temperature must be positive'')
       else if vocab_chunk_size \<le> 0 then Inl (ValueError ''vocab_chunk_size must be positive'')
       else
         rbind (chunked_vocab_logsumexp positive temperature vocab_chunk_size) (\<lambda>positive_log_norm.
         rbind (chunked_vocab_logsumexp negative temperature vocab_chunk_size) (\<lambda>negative_log_norm.
         rbind (chunked_vocab_logsumexp no_evidence temperature vocab_chunk_size) (\<lambda>no_evidence_log_norm.
         rbind (chunked_vocab_logsumexp student temperature vocab_chunk_size) (\<lambda>student_log_norm.
           Inr (tok_of student (\<lambda>t. fec_loss_at (lg_v student) (nat vocab_chunk_size) temperature
             (tk_vals weights ! t) (tk_vals projection ! t)
             (lg_rows positive ! t, positive_log_norm ! t) (lg_rows negative ! t, negative_log_norm ! t)
             (lg_rows no_evidence ! t, no_evidence_log_norm ! t)
             (lg_rows student ! t, student_log_norm ! t)))))))))"

text \<open>The interpolated distribution is the concatenation of the chunks.\<close>

definition interpolated_at :: "nat \<Rightarrow> nat \<Rightarrow> real \<Rightarrow> real \<Rightarrow> vec \<Rightarrow> vec \<Rightarrow> vec" where
  "interpolated_at n c scale weight base evidence =
     (let base_log_norm = log_norm scale base; evidence_log_norm = log_norm scale evidence in
      chunk_cat n c (\<lambda>a b.
        let base_probs = vexp (log_probs_chunk scale base_log_norm base a b);
            evidence_probs = vexp (log_probs_chunk scale evidence_log_norm evidence a b)
        in vadd (vscale (1 - weight) base_probs) (vscale weight evidence_probs)))"

type_synonym teacher_losses = "real tok \<times> real tok \<times> logits option"

definition compute_fixed_teacher_token_losses ::
  "(nat \<Rightarrow> vec \<Rightarrow> nat list) \<Rightarrow> logits \<Rightarrow> logits \<Rightarrow> logits \<Rightarrow> logits \<Rightarrow> real tok \<Rightarrow> real \<Rightarrow> int \<Rightarrow> bool
    \<Rightarrow> string \<Rightarrow> top_k_arg \<Rightarrow> token_ids option \<Rightarrow> teacher_losses res" where
  "compute_fixed_teacher_token_losses topk student reference base evidence weights temperature
     vocab_chunk_size return_interpolated_probs vocab_mode top_k sampled_token_ids =
     rbind (should_use_full_vocab_compat vocab_mode top_k (lg_v student)) (\<lambda>use_full.
     if \<not> use_full
     then (case sampled_token_ids of
         None \<Rightarrow> Inl (ValueError ''sampled_token_ids is required for topk_truncated Forward-KL'')
       | Some y \<Rightarrow>
           if return_interpolated_probs
           then Inl (ValueError ''topk_truncated Forward-KL cannot return a full-vocabulary interpolated distribution'')
           else rbind (truncated_forward_fixed_losses topk student reference base evidence y weights top_k temperature)
             (\<lambda>(reference_loss, correction). Inr (reference_loss, correction, None)))
     else rbind (check_teachers student
         [(''reference'', reference), (''base'', base), (''evidence'', evidence)]) (\<lambda>_.
       if tok_shape weights \<noteq> token_shape student
       then Inl (ValueError ''evidence_weights must match the token dimensions'')
       else if temperature \<le> 0 then Inl (ValueError ''temperature must be positive'')
       else if vocab_chunk_size \<le> 0 then Inl (ValueError ''vocab_chunk_size must be positive'')
       else if return_interpolated_probs \<and> list_ex (\<lambda>w. w < 0 \<or> 1 < w) (tk_vals weights)
       then Inl (ValueError ''interpolated probability diagnostics require weights in [0, 1]'')
       else let n = lg_v student; c = nat vocab_chunk_size;
           interpolated = (if return_interpolated_probs
             then Some (student\<lparr>lg_rows := map (\<lambda>t. interpolated_at n c temperature (tk_vals weights ! t)
               (lg_rows base ! t) (lg_rows evidence ! t)) [0..<lg_n student * lg_s student]\<rparr>)
             else None)
         in Inr (tok_of student (\<lambda>t. reference_kl_at n c temperature (lg_rows reference ! t) (lg_rows student ! t)),
              tok_of student (\<lambda>t. displacement_loss_at n c temperature (tk_vals weights ! t)
                (lg_rows evidence ! t) (lg_rows base ! t) (lg_rows student ! t)), interpolated)))"

text \<open>The compatibility alias.\<close>

definition compute_interpolated_teacher_token_losses ::
  "(nat \<Rightarrow> vec \<Rightarrow> nat list) \<Rightarrow> logits \<Rightarrow> logits \<Rightarrow> logits \<Rightarrow> logits \<Rightarrow> real tok \<Rightarrow> real \<Rightarrow> int \<Rightarrow> bool
    \<Rightarrow> string \<Rightarrow> top_k_arg \<Rightarrow> token_ids option \<Rightarrow> teacher_losses res" where
  "compute_interpolated_teacher_token_losses = compute_fixed_teacher_token_losses"

section \<open>Reverse-KL losses on the whole vocabulary\<close>

text \<open>\<open>log_norm = full_like(-inf)\<close> updated by \<open>logaddexp(log_norm, logsumexp(chunk))\<close>:
  minus infinity (\<open>None\<close>) is the unit of \<open>logaddexp\<close>.\<close>

definition chunk_lse :: "nat \<Rightarrow> nat \<Rightarrow> (nat \<Rightarrow> nat \<Rightarrow> vec) \<Rightarrow> real option" where
  "chunk_lse n c body = foldl (\<lambda>acc start.
       let chunk = logsumexp (body start (min (start + c) n))
       in case acc of None \<Rightarrow> Some chunk | Some x \<Rightarrow> Some (logaddexp x chunk))
     None (range_from 0 n c)"

definition geometric_log_norm_at :: "nat \<Rightarrow> nat \<Rightarrow> real \<Rightarrow> real \<Rightarrow> vec \<Rightarrow> vec \<Rightarrow> real option" where
  "geometric_log_norm_at n c scale weight base evidence =
     (let base_log_norm = log_norm scale base; evidence_log_norm = log_norm scale evidence in
      chunk_lse n c (\<lambda>a b.
        let base_log_probs = log_probs_chunk scale base_log_norm base a b;
            evidence_log_probs = log_probs_chunk scale evidence_log_norm evidence a b
        in vadd base_log_probs (vscale weight (vsub evidence_log_probs base_log_probs))))"

definition reverse_reference_at :: "nat \<Rightarrow> nat \<Rightarrow> real \<Rightarrow> vec \<Rightarrow> vec \<Rightarrow> real" where
  "reverse_reference_at n c scale reference student =
     (let reference_log_norm = log_norm scale reference; student_log_norm = log_norm scale student in
      chunk_sum n c (\<lambda>a b.
        let student_log_probs = log_probs_chunk scale student_log_norm student a b;
            student_probs = vexp student_log_probs;
            reference_log_probs = log_probs_chunk scale reference_log_norm reference a b
        in scale * vsum (vmul student_probs (vsub student_log_probs reference_log_probs))))"

definition reverse_correction_at :: "nat \<Rightarrow> nat \<Rightarrow> real \<Rightarrow> real \<Rightarrow> vec \<Rightarrow> vec \<Rightarrow> vec \<Rightarrow> real option" where
  "reverse_correction_at n c scale weight base evidence student =
     (let base_log_norm = log_norm scale base; evidence_log_norm = log_norm scale evidence;
          student_log_norm = log_norm scale student;
          expected_log_ratio = chunk_sum n c (\<lambda>a b.
            let student_probs = vexp (log_probs_chunk scale student_log_norm student a b);
                log_ratio = vsub (log_probs_chunk scale evidence_log_norm evidence a b)
                  (log_probs_chunk scale base_log_norm base a b)
            in vsum (vmul student_probs log_ratio))
      in map_option (\<lambda>geometric_log_norm. scale * (geometric_log_norm - weight * expected_log_ratio))
           (geometric_log_norm_at n c scale weight base evidence))"

definition geometric_probs_at :: "nat \<Rightarrow> nat \<Rightarrow> real \<Rightarrow> real \<Rightarrow> real \<Rightarrow> vec \<Rightarrow> vec \<Rightarrow> vec" where
  "geometric_probs_at n c scale weight geometric_log_norm base evidence =
     (let base_log_norm = log_norm scale base; evidence_log_norm = log_norm scale evidence in
      chunk_cat n c (\<lambda>a b.
        let base_log_probs = log_probs_chunk scale base_log_norm base a b;
            log_ratio = vsub (log_probs_chunk scale evidence_log_norm evidence a b) base_log_probs
        in vexp (vshift (vadd base_log_probs (vscale weight log_ratio)) geometric_log_norm)))"

text \<open>The vocabulary is nonempty here, so the accumulated \<open>log_norm\<close> is a number.\<close>

definition compute_reverse_kl_teacher_token_losses ::
  "(nat \<Rightarrow> vec \<Rightarrow> nat list) \<Rightarrow> logits \<Rightarrow> logits \<Rightarrow> logits \<Rightarrow> logits \<Rightarrow> real tok \<Rightarrow> real \<Rightarrow> int \<Rightarrow> bool
    \<Rightarrow> string \<Rightarrow> top_k_arg \<Rightarrow> token_ids option \<Rightarrow> teacher_losses res" where
  "compute_reverse_kl_teacher_token_losses topk student reference base evidence weights temperature
     vocab_chunk_size return_interpolated_probs vocab_mode top_k sampled_token_ids =
     rbind (should_use_full_vocab_compat vocab_mode top_k (lg_v student)) (\<lambda>use_full.
     if \<not> use_full
     then (case sampled_token_ids of
         None \<Rightarrow> Inl (ValueError ''sampled_token_ids is required for topk_truncated Reverse-KL'')
       | Some y \<Rightarrow>
           if return_interpolated_probs
           then Inl (ValueError ''return_interpolated_probs=True is unsupported for topk_truncated Reverse-KL'')
           else rbind (truncated_reverse_teacher_losses topk student reference base evidence y weights top_k temperature)
             (\<lambda>(reference_loss, correction). Inr (reference_loss, correction, None)))
     else rbind (check_teachers student
         [(''reference'', reference), (''base'', base), (''evidence'', evidence)]) (\<lambda>_.
       if tok_shape weights \<noteq> token_shape student
       then Inl (ValueError ''evidence_weights must match the token dimensions'')
       else if temperature \<le> 0 then Inl (ValueError ''temperature must be positive'')
       else if vocab_chunk_size \<le> 0 then Inl (ValueError ''vocab_chunk_size must be positive'')
       else let n = lg_v student; c = nat vocab_chunk_size;
           geometric = (if return_interpolated_probs
             then Some (student\<lparr>lg_rows := map (\<lambda>t. geometric_probs_at n c temperature (tk_vals weights ! t)
               (the (geometric_log_norm_at n c temperature (tk_vals weights ! t) (lg_rows base ! t)
                 (lg_rows evidence ! t)))
               (lg_rows base ! t) (lg_rows evidence ! t)) [0..<lg_n student * lg_s student]\<rparr>)
             else None)
         in Inr (tok_of student (\<lambda>t. reverse_reference_at n c temperature (lg_rows reference ! t) (lg_rows student ! t)),
              tok_of student (\<lambda>t. the (reverse_correction_at n c temperature (tk_vals weights ! t)
                (lg_rows base ! t) (lg_rows evidence ! t) (lg_rows student ! t))), geometric)))"

definition compute_reverse_kl_fixed_teacher_token_losses ::
  "(nat \<Rightarrow> vec \<Rightarrow> nat list) \<Rightarrow> logits \<Rightarrow> logits \<Rightarrow> logits \<Rightarrow> real tok \<Rightarrow> real \<Rightarrow> int \<Rightarrow> bool
    \<Rightarrow> string \<Rightarrow> top_k_arg \<Rightarrow> token_ids option \<Rightarrow> teacher_losses res" where
  "compute_reverse_kl_fixed_teacher_token_losses topk student no_evidence evidence weights temperature
     vocab_chunk_size return_interpolated_probs vocab_mode top_k sampled_token_ids =
     rbind (should_use_full_vocab_compat vocab_mode top_k (lg_v student)) (\<lambda>use_full.
     if \<not> use_full
     then (case sampled_token_ids of
         None \<Rightarrow> Inl (ValueError ''sampled_token_ids is required for topk_truncated Reverse-KL Fixed'')
       | Some y \<Rightarrow>
           if return_interpolated_probs
           then Inl (ValueError ''return_interpolated_probs=True is unsupported for topk_truncated Reverse-KL'')
           else rbind (truncated_reverse_fixed_losses topk student no_evidence evidence y weights top_k temperature)
             (\<lambda>(reference_loss, correction). Inr (reference_loss, correction, None)))
     else compute_reverse_kl_teacher_token_losses topk student no_evidence no_evidence evidence weights
       temperature vocab_chunk_size return_interpolated_probs vocab_mode top_k sampled_token_ids)"

definition compute_reverse_kl_ctr_teacher_token_losses ::
  "(nat \<Rightarrow> vec \<Rightarrow> nat list) \<Rightarrow> logits \<Rightarrow> logits \<Rightarrow> logits \<Rightarrow> logits \<Rightarrow> real tok \<Rightarrow> real \<Rightarrow> int \<Rightarrow> bool
    \<Rightarrow> string \<Rightarrow> top_k_arg \<Rightarrow> token_ids option \<Rightarrow> teacher_losses res" where
  "compute_reverse_kl_ctr_teacher_token_losses topk student no_evidence positive negative weights temperature
     vocab_chunk_size return_interpolated_probs vocab_mode top_k sampled_token_ids =
     rbind (should_use_full_vocab_compat vocab_mode top_k (lg_v student)) (\<lambda>use_full.
     if \<not> use_full
     then (case sampled_token_ids of
         None \<Rightarrow> Inl (ValueError ''sampled_token_ids is required for topk_truncated Reverse-KL CTR'')
       | Some y \<Rightarrow>
           if return_interpolated_probs
           then Inl (ValueError ''return_interpolated_probs=True is unsupported for topk_truncated Reverse-KL'')
           else rbind (truncated_reverse_ctr_losses topk student no_evidence positive negative y weights top_k temperature)
             (\<lambda>(reference_loss, correction). Inr (reference_loss, correction, None)))
     else compute_reverse_kl_teacher_token_losses topk student no_evidence negative positive weights
       temperature vocab_chunk_size return_interpolated_probs vocab_mode top_k sampled_token_ids)"

definition reverse_fec_correction_at ::
  "nat \<Rightarrow> nat \<Rightarrow> real \<Rightarrow> real \<Rightarrow> real \<Rightarrow> vec \<Rightarrow> vec \<Rightarrow> vec \<Rightarrow> vec \<Rightarrow> real option" where
  "reverse_fec_correction_at n c scale weight projection positive negative no_evidence student =
     (let fec_log_ratio = (\<lambda>a b. let chunk = reverse_fec_chunk scale positive negative no_evidence a b
            in vsub (fst chunk) (vscale projection (snd chunk)));
          negative_log_probs = log_probs_chunk scale (log_norm scale negative) negative;
          student_probs = (\<lambda>a b. vexp (log_probs_chunk scale (log_norm scale student) student a b));
          geometric_log_norm = chunk_lse n c
            (\<lambda>a b. vadd (negative_log_probs a b) (vscale weight (fec_log_ratio a b)));
          expected_fec_log_ratio = chunk_sum n c (\<lambda>a b. vsum (vmul (student_probs a b) (fec_log_ratio a b)))
      in map_option (\<lambda>z. scale * (z - weight * expected_fec_log_ratio)) geometric_log_norm)"

definition compute_reverse_kl_fec_teacher_token_losses ::
  "(nat \<Rightarrow> vec \<Rightarrow> nat list) \<Rightarrow> logits \<Rightarrow> logits \<Rightarrow> logits \<Rightarrow> logits \<Rightarrow> real tok \<Rightarrow> real tok \<Rightarrow> real \<Rightarrow> int
    \<Rightarrow> string \<Rightarrow> top_k_arg \<Rightarrow> token_ids option \<Rightarrow> real tok res" where
  "compute_reverse_kl_fec_teacher_token_losses topk student positive negative no_evidence weights projection
     temperature vocab_chunk_size vocab_mode top_k sampled_token_ids =
     rbind (should_use_full_vocab_compat vocab_mode top_k (lg_v student)) (\<lambda>use_full.
     if \<not> use_full
     then (case sampled_token_ids of
         None \<Rightarrow> Inl (ValueError ''sampled_token_ids is required for topk_truncated Reverse-KL FEC'')
       | Some y \<Rightarrow> truncated_reverse_fec_loss topk student positive negative no_evidence y weights projection
           top_k temperature)
     else rbind (check_fec_inputs student positive negative no_evidence weights projection) (\<lambda>_.
       if temperature \<le> 0 then Inl (ValueError ''temperature must be positive'')
       else if vocab_chunk_size \<le> 0 then Inl (ValueError ''vocab_chunk_size must be positive'')
       else let correction = tok_of student (\<lambda>t. reverse_fec_correction_at (lg_v student) (nat vocab_chunk_size)
              temperature (tk_vals weights ! t) (tk_vals projection ! t) (lg_rows positive ! t)
              (lg_rows negative ! t) (lg_rows no_evidence ! t) (lg_rows student ! t))
         in if None \<in> set (tk_vals correction)
            then Inl (ValueError ''Reverse-KL FEC correction must be finite'')
            else Inr (tok_map the correction)))"

section \<open>Composition\<close>

definition compose_dual_decoupled_verpo_loss :: "real \<Rightarrow> real \<Rightarrow> real \<Rightarrow> real \<Rightarrow> real \<Rightarrow> real res" where
  "compose_dual_decoupled_verpo_loss grpo_loss reference_loss evidence_correction_loss lambda_ref lambda_evi =
     (if lambda_ref < 0 \<or> lambda_evi < 0
      then Inl (ValueError ''VERPO coefficients must be nonnegative'')
      else Inr (grpo_loss + lambda_ref * reference_loss + lambda_evi * evidence_correction_loss))"

end
