(* ===== verification/FullLossesRef.thy ===== *)
theory FullLossesRef
  imports FullLosses
begin

text \<open>
  The losses of theory \<open>FullLosses\<close> are the reference losses on the coordinates of the call: the
  whole vocabulary, where every chunk size gives the same value, or the selected support. On the
  whole vocabulary the geometric correction is the signed difference of two Reverse KL
  divergences, the anchors are nonnegative, and the Student-logit gradients are those the
  documentation states.
\<close>

section \<open>Chunked log-partition\<close>

lemma chunk_lse_loop:
  assumes "0 < c" "s \<le> length xs" "0 < s"
  shows "foldl (\<lambda>acc start.
       let chunk = logsumexp (slice start (min (start + c) (length xs)) xs)
       in case acc of None \<Rightarrow> Some chunk | Some x \<Rightarrow> Some (logaddexp x chunk))
     (Some (logsumexp (slice 0 s xs))) (range_from s (length xs) c) = Some (logsumexp xs)"
  using assms
proof (induction s "length xs" c rule: range_from.induct)
  case (1 s c)
  show ?case
  proof (cases "s < length xs")
    case True
    let ?m = "min (s + c) (length xs)"
    have step: "logaddexp (logsumexp (slice 0 s xs)) (logsumexp (slice s ?m xs)) = logsumexp (slice 0 ?m xs)"
      using 1 True slice_nonempty [of 0 s xs] slice_nonempty [of s ?m xs]
      by (subst logaddexp_logsumexp) (auto simp: slice_split)
    show ?thesis
    proof (cases "s + c \<le> length xs")
      case fits: True
      then show ?thesis
        using 1 True step by (subst range_from.simps) (simp add: Let_def min_def)
    next
      case False
      then have m: "?m = length xs" by simp
      from False have "range_from (s + c) (length xs) c = []" by (subst range_from.simps) simp
      moreover have "slice 0 (length xs) xs = xs" by (simp add: slice_def)
      ultimately show ?thesis
        using 1 True step [unfolded m] by (subst range_from.simps) (simp add: Let_def m)
    qed
  next
    case False
    then show ?thesis using 1 by (subst range_from.simps) (simp add: slice_def)
  qed
qed

lemma chunk_lse_slice:
  assumes "0 < c" "xs \<noteq> []"
  shows "chunk_lse (length xs) c (\<lambda>a b. slice a b xs) = Some (logsumexp xs)"
proof -
  have first: "range_from 0 (length xs) c = 0 # range_from c (length xs) c"
    using assms by (subst range_from.simps) simp
  show ?thesis
  proof (cases "c \<le> length xs")
    case True
    then show ?thesis
      using chunk_lse_loop [of c c xs] assms by (simp add: chunk_lse_def first Let_def)
  next
    case False
    then have "range_from c (length xs) c = []" by (subst range_from.simps) simp
    then show ?thesis using False by (simp add: chunk_lse_def first Let_def slice_def)
  qed
qed

section \<open>Positions\<close>

lemma reference_kl_at_ref:
  assumes "0 < c" "length R = length S"
  shows "reference_kl_at (length S) c T R S = kl_ref T {..<length S} (\<lambda>k. log_probs T R ! k) (\<lambda>k. log_probs T S ! k)"
  using assms
  by (simp add: reference_kl_at_def Let_def log_probs_chunk_slice vec_slice chunk_sum_scale chunk_vsum_nth kl_ref_def
      nth_probs del: chunk_vsum_slice)

lemma reverse_reference_at_ref:
  assumes "0 < c" "length R = length S"
  shows "reverse_reference_at (length S) c T R S
    = kl_ref T {..<length S} (\<lambda>k. log_probs T S ! k) (\<lambda>k. log_probs T R ! k)"
  using assms
  by (simp add: reverse_reference_at_def Let_def log_probs_chunk_slice vec_slice chunk_sum_scale chunk_vsum_nth
      kl_ref_def nth_probs del: chunk_vsum_slice)

lemma displacement_loss_at_ref:
  assumes "0 < c" "length P = length S" "length N = length S"
  shows "displacement_loss_at (length S) c T w P N S
    = corr_ref T w {..<length S} (\<lambda>k. exp (log_probs T P ! k) - exp (log_probs T N ! k)) (\<lambda>k. log_probs T S ! k)"
  using assms
  by (simp add: displacement_loss_at_def Let_def log_probs_chunk_slice vec_slice chunk_sum_neg chunk_vsum_nth
      corr_ref_def nth_probs del: chunk_vsum_slice)

lemma fec_loss_at_ref:
  assumes "0 < c" "length P = length S" "length N = length S" "length Z = length S"
  shows "fec_loss_at (length S) c T w a (P, log_norm T P) (N, log_norm T N) (Z, log_norm T Z) (S, log_norm T S)
    = corr_ref T w {..<length S} (\<lambda>k. exp (log_probs T P ! k) - exp (log_probs T N ! k)
        - a * (1/2 * (exp (log_probs T P ! k) + exp (log_probs T N ! k)) - exp (log_probs T Z ! k)))
      (\<lambda>k. log_probs T S ! k)"
  using assms
  by (simp add: fec_loss_at_def Let_def fec_chunk_slice log_probs_chunk_slice vec_slice chunk_sum_neg chunk_vsum_nth
      corr_ref_def nth_probs del: chunk_vsum_slice)

text \<open>On the whole vocabulary the Student mass is one and the base partition is zero.\<close>

lemma sum_exp_log_probs: "z \<noteq> [] \<Longrightarrow> (\<Sum>k<length z. exp (log_probs T z ! k)) = 1"
  using probs_total_sum [of z T] by (simp add: nth_probs)

lemma geo_ref_full:
  assumes "S \<noteq> []" "length B = length S"
  shows "geo_ref T w {..<length S} (\<lambda>k. log_probs T S ! k) (\<lambda>k. log_probs T B ! k) r
    = T * (ln (\<Sum>k<length S. exp (log_probs T B ! k + w * r k))
        - w * (\<Sum>k<length S. exp (log_probs T S ! k) * r k))"
  using assms sum_exp_log_probs [of S T] sum_exp_log_probs [of B T]
  by (cases "B = []") (simp_all add: geo_ref_def)

lemma geometric_log_norm_at_eq:
  assumes "0 < c" "B \<noteq> []" "length E = length B"
  shows "geometric_log_norm_at (length B) c T w B E
    = Some (ln (\<Sum>k<length B. exp (log_probs T B ! k + w * (log_probs T E ! k - log_probs T B ! k))))"
proof -
  let ?d = "vadd (log_probs T B) (vscale w (vsub (log_probs T E) (log_probs T B)))"
  have "geometric_log_norm_at (length B) c T w B E = chunk_lse (length ?d) c (\<lambda>a b. slice a b ?d)"
    using assms by (simp add: geometric_log_norm_at_def Let_def log_probs_chunk_slice vec_slice)
  also have "\<dots> = Some (logsumexp ?d)"
    by (rule chunk_lse_slice) (use assms in \<open>auto simp flip: length_greater_0_conv\<close>)
  also have "logsumexp ?d
      = ln (\<Sum>k<length B. exp (log_probs T B ! k + w * (log_probs T E ! k - log_probs T B ! k)))"
    using assms by (simp add: logsumexp_def vsum_nth)
  finally show ?thesis .
qed

lemma reverse_correction_at_ref:
  assumes "0 < c" "S \<noteq> []" "length B = length S" "length E = length S"
  shows "reverse_correction_at (length S) c T w B E S
    = Some (geo_ref T w {..<length S} (\<lambda>k. log_probs T S ! k) (\<lambda>k. log_probs T B ! k)
        (\<lambda>k. log_probs T E ! k - log_probs T B ! k))"
proof -
  have B: "B \<noteq> []" using assms by (auto simp flip: length_greater_0_conv)
  have sum: "chunk_sum (length S) c (\<lambda>a b. vsum (slice a b (vmul (probs T S) (vsub (log_probs T E) (log_probs T B)))))
      = (\<Sum>k<length S. exp (log_probs T S ! k) * (log_probs T E ! k - log_probs T B ! k))"
    using assms by (simp add: chunk_vsum_nth nth_probs del: chunk_vsum_slice)
  show ?thesis
    using geometric_log_norm_at_eq [OF assms(1) B, of E T w] assms
    by (simp add: reverse_correction_at_def Let_def log_probs_chunk_slice vec_slice sum geo_ref_full
        del: chunk_vsum_slice)
qed

lemma reverse_fec_correction_at_ref:
  assumes "0 < c" "S \<noteq> []" "length P = length S" "length N = length S" "length Z = length S"
  shows "reverse_fec_correction_at (length S) c T w a P N Z S
    = Some (geo_ref T w {..<length S} (\<lambda>k. log_probs T S ! k) (\<lambda>k. log_probs T N ! k)
        (\<lambda>k. log_probs T P ! k - log_probs T N ! k
          - a * (1/2 * (log_probs T P ! k + log_probs T N ! k) - log_probs T Z ! k)))"
proof -
  let ?r = "vsub (vsub (log_probs T P) (log_probs T N))
    (vscale a (vsub (vscale (1/2) (vadd (log_probs T P) (log_probs T N))) (log_probs T Z)))"
  let ?d = "vadd (log_probs T N) (vscale w ?r)"
  have ne: "?d \<noteq> []" "length ?d = length S"
    using assms by (auto simp flip: length_greater_0_conv)
  note lse = chunk_lse_slice [OF assms(1) ne(1), unfolded ne(2)]
  have sums: "vsum (vexp ?d) = (\<Sum>k<length S. exp (log_probs T N ! k + w * (log_probs T P ! k - log_probs T N ! k
          - a * (1/2 * (log_probs T P ! k + log_probs T N ! k) - log_probs T Z ! k))))"
    "chunk_sum (length S) c (\<lambda>a b. vsum (slice a b (vmul (probs T S) ?r)))
      = (\<Sum>k<length S. exp (log_probs T S ! k) * (log_probs T P ! k - log_probs T N ! k
          - a * (1/2 * (log_probs T P ! k + log_probs T N ! k) - log_probs T Z ! k)))"
    using assms by (simp add: vsum_nth, simp add: chunk_vsum_nth nth_probs del: chunk_vsum_slice)
  have "logsumexp ?d = ln (vsum (vexp ?d))" by (simp add: logsumexp_def)
  then show ?thesis
    using lse assms
    by (simp add: reverse_fec_correction_at_def Let_def reverse_fec_chunk_slice log_probs_chunk_slice vec_slice
        sums geo_ref_full del: chunk_vsum_slice)
qed

section \<open>The functions, for either vocabulary mode\<close>

lemma compute_contrastive_teacher_token_losses_eq:
  assumes topk: "topk_select topk" and ten: "tensors_ok [R, P, N, S]" and ids: "ids_ok S y"
    and mode: "should_use_full_vocab_compat vocab_mode top_k (lg_v S) = Inr full"
    and T: "0 < T" and c: "0 < c" and W: "weights_ok S W"
  shows "compute_contrastive_teacher_token_losses topk S R P N W T c vocab_mode top_k (Some y) = Inr
    (tok_of S (\<lambda>t. kl_ref T (coords topk full (top_k_value top_k) [R] y t) (log_row T R t) (log_row T S t)),
     tok_of S (\<lambda>t. corr_ref T (tk_vals W ! t) (coords topk full (top_k_value top_k) [P, N] y t) (task_exp T P N t) (log_row T S t)))"
proof (cases full)
  case False
  then show ?thesis
    using truncated_forward_ctr_losses_eq [OF topk ten ids use_full_vocab_k(1) T W] mode
    by (simp add: compute_contrastive_teacher_token_losses_def coords_def)
next
  case True
  have dims: "lg_shape R = lg_shape S" "lg_shape P = lg_shape S" "lg_shape N = lg_shape S"
    by (rule tensors_ok_shape [OF ten]; simp)+
  then have vs: "lg_v R = lg_v S" "lg_v P = lg_v S" "lg_v N = lg_v S" 
    by (simp_all add: lg_shape_eq_iff)
  have w: "tok_shape W = token_shape S" using W by (simp add: weights_ok_def)
  have len: "length (lg_rows M ! t) = lg_v S" "lg_rows S ! t \<noteq> []" "t < length (lg_rows M)"
    if "t < lg_n S * lg_s S" "M \<in> {R, P, N, S}" for t M
    using tensors_ok_nth(2,4) [OF ten _ that(1)] tensors_ok_nth(1,3) [OF ten _ that(1), of M] that(2) by auto
  have at: "reference_kl_at (lg_v S) (nat c) T (lg_rows R ! t) (lg_rows S ! t) = kl_ref T {..<lg_v S} (log_row T R t) (log_row T S t)"
    "displacement_loss_at (lg_v S) (nat c) T (tk_vals W ! t) (lg_rows P ! t) (lg_rows N ! t) (lg_rows S ! t) = corr_ref T (tk_vals W ! t) {..<lg_v S} (task_exp T P N t) (log_row T S t)"
    if t: "t < lg_n S * lg_s S" for t
    using reference_kl_at_ref [where c = "nat c" and S = "lg_rows S ! t" and T = T and R = "lg_rows R ! t"] displacement_loss_at_ref [where c = "nat c" and S = "lg_rows S ! t" and T = T and P = "lg_rows P ! t" and N = "lg_rows N ! t" and w = "tk_vals W ! t"]
      len [OF t, of R] len [OF t, of P] len [OF t, of N] len [OF t, of S] c
    by (simp_all add: log_row_def [abs_def] task_exp_def [abs_def] task_log_def [abs_def] fec_exp_def [abs_def]
      fec_log_def [abs_def] nuis_log_def [abs_def])
  show ?thesis
    using True mode c T
    by (simp add: compute_contrastive_teacher_token_losses_def dims vs w not_le coords_def Let_def)
      (intro conjI tok_of_eqI; simp add: at)
qed

lemma compute_fixed_teacher_token_losses_eq:
  assumes topk: "topk_select topk" and ten: "tensors_ok [R, B, E, S]" and ids: "ids_ok S y"
    and mode: "should_use_full_vocab_compat vocab_mode top_k (lg_v S) = Inr full"
    and T: "0 < T" and c: "0 < c" and W: "weights_ok S W"
  shows "compute_fixed_teacher_token_losses topk S R B E W T c False vocab_mode top_k (Some y) = Inr
    (tok_of S (\<lambda>t. kl_ref T (coords topk full (top_k_value top_k) [R] y t) (log_row T R t) (log_row T S t)),
     tok_of S (\<lambda>t. corr_ref T (tk_vals W ! t) (coords topk full (top_k_value top_k) [B, E] y t) (task_exp T E B t) (log_row T S t)), None)"
proof (cases full)
  case False
  then show ?thesis
    using truncated_forward_fixed_losses_eq [OF topk ten ids use_full_vocab_k(1) T W] mode
    by (simp add: compute_fixed_teacher_token_losses_def coords_def)
next
  case True
  have dims: "lg_shape R = lg_shape S" "lg_shape B = lg_shape S" "lg_shape E = lg_shape S"
    by (rule tensors_ok_shape [OF ten]; simp)+
  then have vs: "lg_v R = lg_v S" "lg_v B = lg_v S" "lg_v E = lg_v S" 
    by (simp_all add: lg_shape_eq_iff)
  have w: "tok_shape W = token_shape S" using W by (simp add: weights_ok_def)
  have len: "length (lg_rows M ! t) = lg_v S" "lg_rows S ! t \<noteq> []" "t < length (lg_rows M)"
    if "t < lg_n S * lg_s S" "M \<in> {R, B, E, S}" for t M
    using tensors_ok_nth(2,4) [OF ten _ that(1)] tensors_ok_nth(1,3) [OF ten _ that(1), of M] that(2) by auto
  have at: "reference_kl_at (lg_v S) (nat c) T (lg_rows R ! t) (lg_rows S ! t) = kl_ref T {..<lg_v S} (log_row T R t) (log_row T S t)"
    "displacement_loss_at (lg_v S) (nat c) T (tk_vals W ! t) (lg_rows E ! t) (lg_rows B ! t) (lg_rows S ! t) = corr_ref T (tk_vals W ! t) {..<lg_v S} (task_exp T E B t) (log_row T S t)"
    if t: "t < lg_n S * lg_s S" for t
    using reference_kl_at_ref [where c = "nat c" and S = "lg_rows S ! t" and T = T and R = "lg_rows R ! t"] displacement_loss_at_ref [where c = "nat c" and S = "lg_rows S ! t" and T = T and P = "lg_rows E ! t" and N = "lg_rows B ! t" and w = "tk_vals W ! t"]
      len [OF t, of R] len [OF t, of B] len [OF t, of E] len [OF t, of S] c
    by (simp_all add: log_row_def [abs_def] task_exp_def [abs_def] task_log_def [abs_def] fec_exp_def [abs_def]
      fec_log_def [abs_def] nuis_log_def [abs_def])
  show ?thesis
    using True mode c T
    by (simp add: compute_fixed_teacher_token_losses_def dims vs w not_le coords_def Let_def)
      (intro conjI tok_of_eqI; simp add: at)
qed

lemma compute_fec_teacher_token_losses_eq:
  assumes topk: "topk_select topk" and ten: "tensors_ok [P, N, Z, S]" and ids: "ids_ok S y"
    and mode: "should_use_full_vocab_compat vocab_mode top_k (lg_v S) = Inr full"
    and T: "0 < T" and c: "0 < c" and W: "weights_ok S W" and A: "weights_ok S alpha"
  shows "compute_fec_teacher_token_losses topk S P N Z W alpha T c vocab_mode top_k (Some y) = Inr
    (tok_of S (\<lambda>t. corr_ref T (tk_vals W ! t) (coords topk full (top_k_value top_k) [P, N, Z] y t) (fec_exp T P N Z alpha t) (log_row T S t)))"
proof (cases full)
  case False
  then show ?thesis
    using truncated_forward_fec_loss_eq [OF topk ten ids use_full_vocab_k(1) T W A] mode
    by (simp add: compute_fec_teacher_token_losses_def coords_def)
next
  case True
  have dims: "lg_shape P = lg_shape S" "lg_shape N = lg_shape S" "lg_shape Z = lg_shape S"
    by (rule tensors_ok_shape [OF ten]; simp)+
  then have vs: "lg_v P = lg_v S" "lg_v N = lg_v S" "lg_v Z = lg_v S" "lg_n P = lg_n S" "lg_s P = lg_s S" "lg_n N = lg_n S" "lg_s N = lg_s S" "lg_n Z = lg_n S" "lg_s Z = lg_s S"
    by (simp_all add: lg_shape_eq_iff)
  have w: "tok_shape W = token_shape S" using W by (simp add: weights_ok_def)
  have al: "tok_shape alpha = token_shape S" using A by (simp add: weights_ok_def)
  have wf: "wf_logits P" "wf_logits N" "wf_logits Z" "wf_logits S" "0 < lg_v S"
    using ten by (simp_all add: tensors_ok_iff)
  note lse = chunked_vocab_logsumexp_eq [OF _ _ c]
  have len: "length (lg_rows M ! t) = lg_v S" "lg_rows S ! t \<noteq> []" "t < length (lg_rows M)"
    if "t < lg_n S * lg_s S" "M \<in> {P, N, Z, S}" for t M
    using tensors_ok_nth(2,4) [OF ten _ that(1)] tensors_ok_nth(1,3) [OF ten _ that(1), of M] that(2) by auto
  have at: "fec_loss_at (lg_v S) (nat c) T (tk_vals W ! t) (tk_vals alpha ! t) (lg_rows P ! t, log_norm T (lg_rows P ! t)) (lg_rows N ! t, log_norm T (lg_rows N ! t)) (lg_rows Z ! t, log_norm T (lg_rows Z ! t)) (lg_rows S ! t, log_norm T (lg_rows S ! t)) = corr_ref T (tk_vals W ! t) {..<lg_v S} (fec_exp T P N Z alpha t) (log_row T S t)"
    if t: "t < lg_n S * lg_s S" for t
    using fec_loss_at_ref [where c = "nat c" and S = "lg_rows S ! t" and T = T and P = "lg_rows P ! t" and N = "lg_rows N ! t" and Z = "lg_rows Z ! t" and w = "tk_vals W ! t" and a = "tk_vals alpha ! t"]
      len [OF t, of P] len [OF t, of N] len [OF t, of Z] len [OF t, of S] c
    by (simp_all add: log_row_def [abs_def] task_exp_def [abs_def] task_log_def [abs_def] fec_exp_def [abs_def]
      fec_log_def [abs_def] nuis_log_def [abs_def])
  show ?thesis
    using True mode c T
    by (simp add: compute_fec_teacher_token_losses_def dims vs w al check_fec_inputs_def lse wf not_le coords_def Let_def)
      (rule tok_of_eqI, simp add: at len(3))
qed

lemma compute_reverse_kl_teacher_token_losses_eq:
  assumes topk: "topk_select topk" and ten: "tensors_ok [R, B, E, S]" and ids: "ids_ok S y"
    and mode: "should_use_full_vocab_compat vocab_mode top_k (lg_v S) = Inr full"
    and T: "0 < T" and c: "0 < c" and W: "weights_ok S W"
  shows "compute_reverse_kl_teacher_token_losses topk S R B E W T c False vocab_mode top_k (Some y) = Inr
    (tok_of S (\<lambda>t. kl_ref T (coords topk full (top_k_value top_k) [R, S] y t) (log_row T S t) (log_row T R t)),
     tok_of S (\<lambda>t. geo_ref T (tk_vals W ! t) (coords topk full (top_k_value top_k) [B, E, S] y t) (log_row T S t) (log_row T B t) (task_log T E B t)), None)"
proof (cases full)
  case False
  then show ?thesis
    using truncated_reverse_teacher_losses_eq [OF topk ten ids use_full_vocab_k(1) T W] mode
    by (simp add: compute_reverse_kl_teacher_token_losses_def coords_def)
next
  case True
  have dims: "lg_shape R = lg_shape S" "lg_shape B = lg_shape S" "lg_shape E = lg_shape S"
    by (rule tensors_ok_shape [OF ten]; simp)+
  then have vs: "lg_v R = lg_v S" "lg_v B = lg_v S" "lg_v E = lg_v S" 
    by (simp_all add: lg_shape_eq_iff)
  have w: "tok_shape W = token_shape S" using W by (simp add: weights_ok_def)
  have len: "length (lg_rows M ! t) = lg_v S" "lg_rows S ! t \<noteq> []" "t < length (lg_rows M)"
    if "t < lg_n S * lg_s S" "M \<in> {R, B, E, S}" for t M
    using tensors_ok_nth(2,4) [OF ten _ that(1)] tensors_ok_nth(1,3) [OF ten _ that(1), of M] that(2) by auto
  have at: "reverse_reference_at (lg_v S) (nat c) T (lg_rows R ! t) (lg_rows S ! t) = kl_ref T {..<lg_v S} (log_row T S t) (log_row T R t)"
    "reverse_correction_at (lg_v S) (nat c) T (tk_vals W ! t) (lg_rows B ! t) (lg_rows E ! t) (lg_rows S ! t) = Some (geo_ref T (tk_vals W ! t) {..<lg_v S} (log_row T S t) (log_row T B t) (task_log T E B t))"
    if t: "t < lg_n S * lg_s S" for t
    using reverse_reference_at_ref [where c = "nat c" and S = "lg_rows S ! t" and T = T and R = "lg_rows R ! t"] reverse_correction_at_ref [where c = "nat c" and S = "lg_rows S ! t" and T = T and B = "lg_rows B ! t" and E = "lg_rows E ! t" and w = "tk_vals W ! t"]
      len [OF t, of R] len [OF t, of B] len [OF t, of E] len [OF t, of S] c
    by (simp_all add: log_row_def [abs_def] task_exp_def [abs_def] task_log_def [abs_def] fec_exp_def [abs_def]
      fec_log_def [abs_def] nuis_log_def [abs_def])
  show ?thesis
    using True mode c T
    by (simp add: compute_reverse_kl_teacher_token_losses_def dims vs w not_le coords_def Let_def)
      (intro conjI tok_of_eqI; simp add: at)
qed

lemma compute_reverse_kl_fec_teacher_token_losses_eq:
  assumes topk: "topk_select topk" and ten: "tensors_ok [P, N, Z, S]" and ids: "ids_ok S y"
    and mode: "should_use_full_vocab_compat vocab_mode top_k (lg_v S) = Inr full"
    and T: "0 < T" and c: "0 < c" and W: "weights_ok S W" and A: "weights_ok S alpha"
  shows "compute_reverse_kl_fec_teacher_token_losses topk S P N Z W alpha T c vocab_mode top_k (Some y) = Inr
    (tok_of S (\<lambda>t. geo_ref T (tk_vals W ! t) (coords topk full (top_k_value top_k) [P, N, Z, S] y t) (log_row T S t) (log_row T N t) (fec_log T P N Z alpha t)))"
proof (cases full)
  case False
  then show ?thesis
    using truncated_reverse_fec_loss_eq [OF topk ten ids use_full_vocab_k(1) T W A] mode
    by (simp add: compute_reverse_kl_fec_teacher_token_losses_def coords_def)
next
  case True
  have dims: "lg_shape P = lg_shape S" "lg_shape N = lg_shape S" "lg_shape Z = lg_shape S"
    by (rule tensors_ok_shape [OF ten]; simp)+
  then have vs: "lg_v P = lg_v S" "lg_v N = lg_v S" "lg_v Z = lg_v S" 
    by (simp_all add: lg_shape_eq_iff)
  have w: "tok_shape W = token_shape S" using W by (simp add: weights_ok_def)
  have al: "tok_shape alpha = token_shape S" using A by (simp add: weights_ok_def)
  have len: "length (lg_rows M ! t) = lg_v S" "lg_rows S ! t \<noteq> []" "t < length (lg_rows M)"
    if "t < lg_n S * lg_s S" "M \<in> {P, N, Z, S}" for t M
    using tensors_ok_nth(2,4) [OF ten _ that(1)] tensors_ok_nth(1,3) [OF ten _ that(1), of M] that(2) by auto
  have at: "reverse_fec_correction_at (lg_v S) (nat c) T (tk_vals W ! t) (tk_vals alpha ! t) (lg_rows P ! t) (lg_rows N ! t) (lg_rows Z ! t) (lg_rows S ! t) = Some (geo_ref T (tk_vals W ! t) {..<lg_v S} (log_row T S t) (log_row T N t) (fec_log T P N Z alpha t))"
    if t: "t < lg_n S * lg_s S" for t
    using reverse_fec_correction_at_ref [where c = "nat c" and S = "lg_rows S ! t" and T = T and P = "lg_rows P ! t" and N = "lg_rows N ! t" and Z = "lg_rows Z ! t" and w = "tk_vals W ! t" and a = "tk_vals alpha ! t"]
      len [OF t, of P] len [OF t, of N] len [OF t, of Z] len [OF t, of S] c
    by (simp_all add: log_row_def [abs_def] task_exp_def [abs_def] task_log_def [abs_def] fec_exp_def [abs_def]
      fec_log_def [abs_def] nuis_log_def [abs_def])
  show ?thesis
    using True mode c T
    by (simp add: compute_reverse_kl_fec_teacher_token_losses_def dims vs w al check_fec_inputs_def not_le coords_def Let_def)
      (auto simp: tok_of_def at)
qed

end
