(* ===== verification/Diagnostics.thy ===== *)
theory Diagnostics
  imports TopkLossesRef FullLossesRef
begin

text \<open>
  \<open>compute_verpo_topk_support_diagnostics\<close> of \<open>risk_aware_opsd/verpo_topk.py\<close>: the size of the
  correction support and the full-Softmax mass each role keeps on it, without renormalising. Every
  reported mass lies in \<open>(0, 1]\<close>.
\<close>

record support_diagnostics =
  sd_support_size :: "real tok"
  sd_reference_mass :: "real tok"
  sd_evidence_mass :: "real tok"
  sd_student_mass :: "real tok"
  sd_negative_mass :: "real tok option"

definition truncated_support_diagnostics ::
  "(nat \<Rightarrow> vec \<Rightarrow> nat list) \<Rightarrow> logits list \<Rightarrow> logits \<Rightarrow> logits \<Rightarrow> logits \<Rightarrow> token_ids \<Rightarrow> top_k_arg \<Rightarrow> real
    \<Rightarrow> bool \<Rightarrow> logits option \<Rightarrow> support_diagnostics res" where
  "truncated_support_diagnostics topk teacher_logits reference evidence student y top_k temperature
     reverse_kl negative =
     rbind (build_truncated_topk_support topk teacher_logits y top_k (if reverse_kl then Some student else None))
       (\<lambda>S.
     rbind (build_truncated_topk_support topk [reference] y top_k None) (\<lambda>reference_support.
     rbind (rbind (selected_log_probs reference reference_support temperature True)
         (\<lambda>s. support_mass s reference_support)) (\<lambda>reference_mass.
     rbind (rbind (selected_log_probs evidence S temperature True) (\<lambda>s. support_mass s S)) (\<lambda>evidence_mass.
     rbind (rbind (selected_log_probs student S temperature True) (\<lambda>s. support_mass s S)) (\<lambda>student_mass.
     rbind (case negative of None \<Rightarrow> Inr None
         | Some N \<Rightarrow> rbind (rbind (selected_log_probs N S temperature True) (\<lambda>s. support_mass s S))
             (\<lambda>m. Inr (Some m))) (\<lambda>negative_mass.
       Inr \<lparr>sd_support_size = \<lparr>tk_n = sp_n S, tk_s = sp_s S,
              tk_vals = map (\<lambda>valid. real (length (filter id valid))) (sp_valid S)\<rparr>,
            sd_reference_mass = reference_mass, sd_evidence_mass = evidence_mass,
            sd_student_mass = student_mass, sd_negative_mass = negative_mass\<rparr>))))))"

definition compute_verpo_topk_support_diagnostics ::
  "(nat \<Rightarrow> vec \<Rightarrow> nat list) \<Rightarrow> logits \<Rightarrow> logits \<Rightarrow> logits \<Rightarrow> token_ids \<Rightarrow> string \<Rightarrow> top_k_arg \<Rightarrow> real
    \<Rightarrow> bool \<Rightarrow> logits option \<Rightarrow> logits list \<Rightarrow> support_diagnostics res" where
  "compute_verpo_topk_support_diagnostics topk reference evidence student y vocab_mode top_k temperature
     reverse_kl negative additional =
     (let teacher_logits = evidence # (case negative of None \<Rightarrow> [] | Some N \<Rightarrow> [N]) @ additional;
          vocab_size = lg_v reference in
      if lg_shape evidence \<noteq> lg_shape reference
      then Inl (ValueError ''reference and evidence logits must have identical shapes'')
      else if lg_shape student \<noteq> lg_shape reference
      then Inl (ValueError ''reference and student logits must have identical shapes'')
      else if (case negative of None \<Rightarrow> False | Some N \<Rightarrow> lg_shape N \<noteq> lg_shape reference)
      then Inl (ValueError ''reference and negative logits must have identical shapes'')
      else if list_ex (\<lambda>L. lg_shape L \<noteq> lg_shape reference) additional
      then Inl (ValueError ''additional Teacher logits must match reference logits'')
      else if tok_shape y \<noteq> token_shape reference
      then Inl (ValueError ''sampled_token_ids must match the logits token dimensions'')
      else rbind (should_use_full_vocab vocab_mode top_k vocab_size) (\<lambda>use_full.
        if use_full
        then let ones = tok_of reference (\<lambda>_. 1) in
          Inr \<lparr>sd_support_size = tok_of reference (\<lambda>_. real vocab_size), sd_reference_mass = ones,
            sd_evidence_mass = ones, sd_student_mass = ones,
            sd_negative_mass = map_option (\<lambda>_. ones) negative\<rparr>
        else truncated_support_diagnostics topk teacher_logits reference evidence student y top_k temperature
          reverse_kl negative))"

section \<open>Retained mass\<close>

definition mass_on :: "real \<Rightarrow> nat set \<Rightarrow> logits \<Rightarrow> nat \<Rightarrow> real" where
  "mass_on T A M t = (\<Sum>k\<in>A. exp (log_row T M t k))"

lemma reads_mass:
  assumes r: "reads topk k T Ls S L sources y U" and M: "M \<in> set Ls"
  shows "rbind (selected_log_probs M U T d) (\<lambda>s. support_mass s U)
    = Inr (tok_of S (\<lambda>t. mass_on T (support_set topk k sources y t) M t))"
proof -
  note D = readsD [OF r]
  show ?thesis
    by (simp add: reads_sel [OF r M] support_mass_def masked_sum_repr [OF represents_arith(5) [OF D(2) [OF M]] D(3)]
        D(4) mass_on_def)
qed

lemma support_set_bounds:
  assumes topk: "topk_select topk" and ten: "tensors_ok Ls" and sub: "set sources \<subseteq> set Ls" and S: "S \<in> set Ls"
    and ids: "ids_ok S y" and t: "t < lg_n S * lg_s S"
  shows "support_set topk k sources y t \<subseteq> {..<lg_v S}" and "token_at y t \<in> support_set topk k sources y t"
    and "finite (support_set topk k sources y t)"
proof -
  have row: "length (lg_rows M ! t) = lg_v M \<and> lg_v M = lg_v S" if "M \<in> set sources" for M
  proof -
    have "M \<in> set Ls" using that sub by blast
    then show ?thesis
      using tensors_ok_row(1) [OF ten _ S t] tensors_ok_shape [OF ten _ S] by (simp add: lg_shape_eq_iff)
  qed
  have "set (topk (min k (lg_v M)) (lg_rows M ! t)) \<subseteq> {..<lg_v S}" if "M \<in> set sources" for M
    using topk_select.topk_range [OF topk, of "min k (lg_v M)" "lg_rows M ! t"] row [OF that] by fastforce
  moreover have "nat (tk_vals y ! t) < lg_v S"
    using ids_ok_at [OF ids t] by (simp add: token_at_def)
  ultimately show sub: "support_set topk k sources y t \<subseteq> {..<lg_v S}"
    by (auto simp: support_set_def)
  then show "finite (support_set topk k sources y t)" by (rule finite_subset) simp
  show "token_at y t \<in> support_set topk k sources y t" by (simp add: support_set_def token_at_def)
qed

text \<open>A support that selects at least the vocabulary size from one source is the vocabulary.\<close>

lemma support_set_all:
  assumes topk: "topk_select topk" and ten: "tensors_ok Ls" and sub: "M \<in> set sources" "set sources \<subseteq> set Ls"
    and S: "S \<in> set Ls" and ids: "ids_ok S y" and t: "t < lg_n S * lg_s S" and k: "lg_v S \<le> k"
  shows "support_set topk k sources y t = {..<lg_v S}"
proof
  show "support_set topk k sources y t \<subseteq> {..<lg_v S}"
    by (rule support_set_bounds(1) [OF topk ten sub(2) S ids t])
  have M: "M \<in> set Ls" using sub by blast
  have len: "length (lg_rows M ! t) = lg_v S" by (rule tensors_ok_row(1) [OF ten M S t])
  have v: "lg_v M = lg_v S" using tensors_ok_shape [OF ten M S] by (simp add: lg_shape_eq_iff)
  have "min k (lg_v M) = lg_v S" using v k by simp
  then have "set (topk (min k (lg_v M)) (lg_rows M ! t)) = {..<lg_v S}"
    using topk_select.topk_all [OF topk, of "lg_rows M ! t"] len by simp
  then show "{..<lg_v S} \<subseteq> support_set topk k sources y t"
    using sub(1) unfolding support_set_def by blast
qed

lemma mass_on_bounds:
  assumes "A \<subseteq> {..<lg_v M}" "A \<noteq> {}" "wf_logits M" "t < lg_n M * lg_s M"
  shows "0 < mass_on T A M t" and "mass_on T A M t \<le> 1" and "A = {..<lg_v M} \<Longrightarrow> mass_on T A M t = 1"
proof -
  have len: "length (lg_rows M ! t) = lg_v M" by (rule wf_logits_row [OF assms(3,4)])
  have "0 < lg_v M" using assms(1,2) by (cases "lg_v M") auto
  then have ne: "lg_rows M ! t \<noteq> []" using len by auto
  have fin: "finite A" using assms(1) finite_subset by blast
  show "0 < mass_on T A M t" unfolding mass_on_def using fin assms(2) by (intro sum_pos) auto
  have total: "(\<Sum>k<lg_v M. exp (log_row T M t k)) = 1"
    using sum_exp_log_probs [OF ne, of T] by (simp add: log_row_def len)
  have "mass_on T A M t \<le> (\<Sum>k<lg_v M. exp (log_row T M t k))"
    unfolding mass_on_def using assms(1) by (intro sum_mono2) auto
  then show "mass_on T A M t \<le> 1" using total by simp
  show "A = {..<lg_v M} \<Longrightarrow> mass_on T A M t = 1" using total by (simp add: mass_on_def)
qed

end
