(* ===== verification/LossFacts.thy ===== *)
theory LossFacts
  imports FullLossesRef
begin

text \<open>
  What the reference losses mean on the whole vocabulary: the anchors are Kullback-Leibler
  divergences and hence nonnegative, the geometric correction is a difference of two of them,
  and the derivatives of the losses in one Student logit are the directions the controller
  scores (the probability displacement for Forward KL, the tangent of the log-ratio for
  Reverse KL).
\<close>

section \<open>Divergences\<close>

lemma kl_ref_nonneg:
  assumes "0 \<le> T" "(\<Sum>k\<in>A. exp (la k)) = 1" "(\<Sum>k\<in>A. exp (lb k)) \<le> 1"
  shows "0 \<le> kl_ref T A la lb"
proof -
  have "exp (la k) - exp (lb k) \<le> exp (la k) * (la k - lb k)" for k
  proof -
    have "exp (la k) * (1 + (lb k - la k)) \<le> exp (la k) * exp (lb k - la k)"
      using exp_ge_add_one_self [of "lb k - la k"] by (intro mult_left_mono) auto
    then show ?thesis by (simp add: exp_diff algebra_simps)
  qed
  then have "(\<Sum>k\<in>A. exp (la k) - exp (lb k)) \<le> (\<Sum>k\<in>A. exp (la k) * (la k - lb k))"
    by (intro sum_mono) auto
  then have "0 \<le> (\<Sum>k\<in>A. exp (la k) * (la k - lb k))"
    using assms(2,3) by (simp add: sum_subtractf)
  then show ?thesis using assms(1) by (simp add: kl_ref_def)
qed

lemma kl_ref_self [simp]: "kl_ref T A la la = 0"
  by (simp add: kl_ref_def)

text \<open>The geometric path: \<open>log q_w = log q_0 + w r - log Z(w)\<close>.\<close>

definition geo_path :: "real \<Rightarrow> nat set \<Rightarrow> (nat \<Rightarrow> real) \<Rightarrow> (nat \<Rightarrow> real) \<Rightarrow> nat \<Rightarrow> real" where
  "geo_path w A lb r k = lb k + w * r k - ln (\<Sum>j\<in>A. exp (lb j + w * r j))"

lemma geo_path_total:
  assumes "finite A" "A \<noteq> {}"
  shows "(\<Sum>k\<in>A. exp (geo_path w A lb r k)) = 1"
proof -
  have "0 < (\<Sum>j\<in>A. exp (lb j + w * r j))" using assms by (intro sum_pos) auto
  then show ?thesis
    by (simp add: geo_path_def exp_diff sum_divide_distrib [symmetric])
qed

lemma geo_ref_difference:
  assumes "(\<Sum>k\<in>A. exp (lp k)) = 1" "(\<Sum>k\<in>A. exp (lb k)) = 1"
  shows "geo_ref T w A lp lb r = kl_ref T A lp (geo_path w A lb r) - kl_ref T A lp lb"
proof -
  let ?z = "ln (\<Sum>j\<in>A. exp (lb j + w * r j))"
  have "kl_ref T A lp (geo_path w A lb r) - kl_ref T A lp lb
    = T * (\<Sum>k\<in>A. exp (lp k) * (lp k - geo_path w A lb r k) - exp (lp k) * (lp k - lb k))"
    by (simp add: kl_ref_def sum_subtractf right_diff_distrib)
  also have "(\<Sum>k\<in>A. exp (lp k) * (lp k - geo_path w A lb r k) - exp (lp k) * (lp k - lb k))
    = (\<Sum>k\<in>A. exp (lp k) * ?z - w * (exp (lp k) * r k))"
    by (rule sum.cong) (simp_all add: geo_path_def algebra_simps)
  also have "\<dots> = ?z - w * (\<Sum>k\<in>A. exp (lp k) * r k)"
    using assms(1) by (simp add: sum_subtractf sum_distrib_left sum_distrib_right [symmetric])
  finally show ?thesis using assms by (simp add: geo_ref_def)
qed

section \<open>Derivatives in one Student logit\<close>

lemma log_norm_update:
  assumes "v < length z"
  shows "log_norm T (z[v := x]) = ln ((\<Sum>j\<in>{..<length z} - {v}. exp (z ! j / T)) + exp (x / T))"
proof -
  have "(\<Sum>j<length z. exp (z[v := x] ! j / T))
      = (\<Sum>j\<in>{..<length z} - {v}. exp (z[v := x] ! j / T)) + exp (z[v := x] ! v / T)"
    using assms by (subst sum.remove [of _ v]) auto
  also have "(\<Sum>j\<in>{..<length z} - {v}. exp (z[v := x] ! j / T)) = (\<Sum>j\<in>{..<length z} - {v}. exp (z ! j / T))"
    by (rule sum.cong) auto
  finally show ?thesis using assms by (simp add: log_norm_sum)
qed

lemma probs_split:
  assumes "v < length z"
  shows "probs T z ! v = exp (z ! v / T) / ((\<Sum>j\<in>{..<length z} - {v}. exp (z ! j / T)) + exp (z ! v / T))"
  using assms by (simp add: nth_probs_quotient sum.remove [of "{..<length z}" v] add.commute)

lemma log_norm_deriv:
  assumes "v < length z" "T \<noteq> 0"
  shows "((\<lambda>x. log_norm T (z[v := x])) has_real_derivative probs T z ! v / T) (at (z ! v))"
proof -
  let ?C = "\<Sum>j\<in>{..<length z} - {v}. exp (z ! j / T)"
  have pos: "0 < ?C + exp (z ! v / T)" by (simp add: add_nonneg_pos sum_nonneg)
  have "((\<lambda>x. ln (?C + exp (x / T))) has_real_derivative
      (exp (z ! v / T) / T) / (?C + exp (z ! v / T))) (at (z ! v))"
    by (rule derivative_eq_intros refl | use pos assms(2) in \<open>simp add: field_simps\<close>)+
  then show ?thesis
    by (simp add: log_norm_update [OF assms(1)] probs_split [OF assms(1)] field_simps)
qed

lemma log_probs_deriv:
  assumes "v < length z" "k < length z" "T \<noteq> 0"
  shows "((\<lambda>x. log_probs T (z[v := x]) ! k) has_real_derivative (of_bool (k = v) - probs T z ! v) / T) (at (z ! v))"
proof -
  have eq: "log_probs T (z[v := x]) ! k = (if k = v then x else z ! k) / T - log_norm T (z[v := x])" for x
    using assms(1,2) by (simp add: nth_log_probs)
  have "((\<lambda>x. (if k = v then x else z ! k) / T) has_real_derivative of_bool (k = v) / T) (at (z ! v))"
    using assms(3) by (cases "k = v") (auto intro!: derivative_eq_intros)
  then show ?thesis
    unfolding eq using DERIV_diff [OF _ log_norm_deriv [OF assms(1,3)]] by (simp add: diff_divide_distrib)
qed

lemma weighted_sum_deriv:
  assumes "\<And>k. k \<in> A \<Longrightarrow> (f k has_real_derivative f' k) (at a)"
  shows "((\<lambda>x. \<Sum>k\<in>A. c k * f k x) has_real_derivative (\<Sum>k\<in>A. c k * f' k)) (at a)"
  using assms by (intro DERIV_sum DERIV_cmult) auto

lemma sum_delta_direction:
  fixes v n :: nat
  assumes "v < n" "T \<noteq> (0::real)"
  shows "(\<Sum>k<n. c k * ((of_bool (k = v) - p) / T)) = (c v - p * (\<Sum>k<n. c k)) / T"
proof -
  have "(\<Sum>k<n. c k * ((of_bool (k = v) - p) / T)) = (\<Sum>k<n. (if k = v then c k else 0) / T - p * c k / T)"
    by (rule sum.cong) (auto simp: diff_divide_distrib right_diff_distrib mult.commute)
  also have "\<dots> = (\<Sum>k<n. if k = v then c k else 0) / T - p * (\<Sum>k<n. c k) / T"
    by (simp only: sum_subtractf sum_divide_distrib sum_distrib_left)
  also have "(\<Sum>k<n. if k = v then c k else 0) = c v" using assms(1) by simp
  finally show ?thesis by (simp add: diff_divide_distrib)
qed

text \<open>Forward KL: the correction descends along the displacement, the anchor towards the Teacher.\<close>

lemma corr_ref_deriv:
  assumes "v < length z" "T \<noteq> 0" "(\<Sum>k<length z. d k) = 0"
  shows "((\<lambda>x. corr_ref T w {..<length z} d (\<lambda>k. log_probs T (z[v := x]) ! k)) has_real_derivative - (w * d v))
    (at (z ! v))"
proof -
  have "((\<lambda>x. \<Sum>k<length z. d k * log_probs T (z[v := x]) ! k) has_real_derivative
      (\<Sum>k<length z. d k * ((of_bool (k = v) - probs T z ! v) / T))) (at (z ! v))"
    by (rule weighted_sum_deriv, rule log_probs_deriv) (use assms in auto)
  from DERIV_cmult [OF this [unfolded sum_delta_direction [OF assms(1,2)]], of "- T * w"] show ?thesis
    using assms(2,3) by (simp add: corr_ref_def)
qed

lemma kl_ref_deriv:
  assumes "v < length z" "T \<noteq> 0" "(\<Sum>k<length z. exp (la k)) = 1"
  shows "((\<lambda>x. kl_ref T {..<length z} la (\<lambda>k. log_probs T (z[v := x]) ! k)) has_real_derivative
      probs T z ! v - exp (la v)) (at (z ! v))"
proof -
  have "((\<lambda>x. \<Sum>k<length z. exp (la k) * (la k - log_probs T (z[v := x]) ! k)) has_real_derivative
      (\<Sum>k<length z. exp (la k) * (0 - (of_bool (k = v) - probs T z ! v) / T))) (at (z ! v))"
    by (rule weighted_sum_deriv, rule DERIV_diff [OF DERIV_const log_probs_deriv]) (use assms in auto)
  moreover have "(\<Sum>k<length z. exp (la k) * (0 - (of_bool (k = v) - probs T z ! v) / T))
      = - ((exp (la v) - probs T z ! v * 1) / T)"
    by (simp only: diff_0 mult_minus_right sum_negf sum_delta_direction [OF assms(1,2)] assms(3))
  ultimately show ?thesis
    using DERIV_cmult [of _ _ _ _ T] assms(2) by (fastforce simp: kl_ref_def)
qed

text \<open>Reverse KL: the geometric correction descends along the tangent of the log-ratio.\<close>

lemma expectation_deriv:
  assumes "v < length z" "T \<noteq> 0"
  shows "((\<lambda>x. \<Sum>k<length z. exp (log_probs T (z[v := x]) ! k) * r k) has_real_derivative
      tangent {..<length z} (\<lambda>k. probs T z ! k) r v / T) (at (z ! v))"
proof -
  have at: "((\<lambda>x. exp (log_probs T (z[v := x]) ! k)) has_real_derivative
      probs T z ! k * ((of_bool (k = v) - probs T z ! v) / T)) (at (z ! v))" if "k < length z" for k
    using DERIV_fun_exp [OF log_probs_deriv [OF assms(1) that assms(2)]] that
    by (simp add: nth_probs)
  have "((\<lambda>x. \<Sum>k<length z. r k * exp (log_probs T (z[v := x]) ! k)) has_real_derivative
      (\<Sum>k<length z. r k * (probs T z ! k * ((of_bool (k = v) - probs T z ! v) / T)))) (at (z ! v))"
    by (rule weighted_sum_deriv) (use at in auto)
  moreover have "(\<Sum>k<length z. r k * (probs T z ! k * ((of_bool (k = v) - probs T z ! v) / T)))
      = tangent {..<length z} (\<lambda>k. probs T z ! k) r v / T"
    using sum_delta_direction [OF assms, of "\<lambda>k. r k * probs T z ! k" "probs T z ! v"]
    by (simp add: mult.assoc tangent_def wmean_def algebra_simps)
  ultimately show ?thesis by (simp add: mult.commute)
qed

lemma geo_ref_deriv:
  assumes "v < length z" "T \<noteq> 0" "(\<Sum>k<length z. exp (lb k)) = 1"
  shows "((\<lambda>x. geo_ref T w {..<length z} (\<lambda>k. log_probs T (z[v := x]) ! k) lb r) has_real_derivative
      - (w * tangent {..<length z} (\<lambda>k. probs T z ! k) r v)) (at (z ! v))"
proof -
  let ?lz = "ln (\<Sum>k<length z. exp (lb k + w * r k))"
  have z: "z[v := x] \<noteq> []" for x using assms(1) by auto
  have eq: "geo_ref T w {..<length z} (\<lambda>k. log_probs T (z[v := x]) ! k) lb r
      = T * (?lz - w * (\<Sum>k<length z. exp (log_probs T (z[v := x]) ! k) * r k))" for x
    using sum_exp_log_probs [OF z, where x1 = x and T = T] assms(3) by (simp add: geo_ref_def)
  have "((\<lambda>x. T * (?lz - w * (\<Sum>k<length z. exp (log_probs T (z[v := x]) ! k) * r k))) has_real_derivative
      T * (0 - w * (tangent {..<length z} (\<lambda>k. probs T z ! k) r v / T))) (at (z ! v))"
    by (intro DERIV_cmult DERIV_diff DERIV_const expectation_deriv assms)
  then show ?thesis using assms(2) by (simp add: eq)
qed

end
