(* ===== verification/LengthReward.thy ===== *)
theory LengthReward
  imports Prelude
begin

text \<open>
  The outcome reward of \<open>risk_aware_opsd/length_aware_reward.py\<close>: the soft overlong penalty,
  the length-aware reward, and the classification of prompt groups for the reward-ranked gate.
  Group identifiers only matter up to equality: the identifiers \<open>str(index // num_rollouts)\<close> the
  code makes up when none are given are modelled by the quotients themselves.
\<close>

section \<open>Soft overlong penalty\<close>

definition soft_overlong_penalty :: "real list \<Rightarrow> int \<Rightarrow> int \<Rightarrow> real \<Rightarrow> real list res" where
  "soft_overlong_penalty response_lengths max_response_length buffer_length penalty_factor =
     (if max_response_length \<le> 0 then Inl (ValueError ''max_response_length must be positive'')
      else if buffer_length \<le> 0 \<or> max_response_length < buffer_length
      then Inl (ValueError ''buffer_length must lie in [1, max_response_length]'')
      else if \<not> 0 \<le> penalty_factor then Inl (ValueError ''penalty_factor must be nonnegative'')
      else let free_length = real_of_int (max_response_length - buffer_length)
      in Inr (map (\<lambda>l. clamp 0 1 ((l - free_length) / real_of_int buffer_length) * penalty_factor)
           response_lengths))"

definition length_aware_outcome_rewards ::
  "bool list \<Rightarrow> real list \<Rightarrow> int \<Rightarrow> int \<Rightarrow> real \<Rightarrow> real list res" where
  "length_aware_outcome_rewards correct_rows response_lengths max_response_length buffer_length penalty_factor =
     (if length correct_rows \<noteq> length response_lengths
      then Inl (ValueError ''correct_rows and response_lengths must have the same shape'')
      else let accuracy = map of_bool correct_rows in
        rbind (soft_overlong_penalty response_lengths max_response_length buffer_length penalty_factor)
          (\<lambda>penalty. Inr (vsub accuracy penalty)))"

section \<open>Reward groups\<close>

text \<open>\<open>groups.setdefault(group_id, []).append(row)\<close>: a dictionary in insertion order.\<close>

fun setdefault_append :: "'k \<Rightarrow> 'v \<Rightarrow> ('k \<times> 'v list) list \<Rightarrow> ('k \<times> 'v list) list" where
  "setdefault_append k v [] = [(k, [v])]"
| "setdefault_append k v ((k', vs) # rest) =
     (if k = k' then (k', vs @ [v]) # rest else (k', vs) # setdefault_append k v rest)"

definition group_rows :: "'k list \<Rightarrow> ('k \<times> nat list) list" where
  "group_rows ids = foldl (\<lambda>groups (row, k). setdefault_append k row groups) [] (enumerate 0 ids)"

record row_state =
  rs_zpd_gate :: bool
  rs_all_one :: bool
  rs_all_zero :: bool
  rs_all_negative_one :: bool
  rs_zero_variance :: bool

definition mean_of :: "real list \<Rightarrow> real" where
  "mean_of xs = sum_list xs / real (length xs)"

definition variance_of :: "real list \<Rightarrow> real" where
  "variance_of xs = mean_of (map (\<lambda>x. (x - mean_of xs) ^ 2) xs)"

text \<open>\<open>torch.isclose(values, c, atol=1e-6, rtol=0).all()\<close>.\<close>

definition all_close :: "real list \<Rightarrow> real \<Rightarrow> bool" where
  "all_close xs c = list_all (\<lambda>x. \<bar>x - c\<bar> \<le> 1 / 10 ^ 6) xs"

text \<open>The state of one group, given the rewards of its rows.\<close>

definition group_state :: "real list \<Rightarrow> real \<Rightarrow> row_state" where
  "group_state values epsilon =
     (let variance = (if 1 < length values then variance_of values else 0);
          all_one = all_close values 1;
          all_zero = all_close values 0;
          all_negative_one = all_close values (-1);
          zero_variance = (variance \<le> epsilon)
      in \<lparr>rs_zpd_gate = \<not> (all_one \<or> all_zero \<or> all_negative_one \<or> zero_variance),
          rs_all_one = all_one, rs_all_zero = all_zero, rs_all_negative_one = all_negative_one,
          rs_zero_variance = zero_variance\<rparr>)"

definition closed_row :: row_state where
  "closed_row = \<lparr>rs_zpd_gate = False, rs_all_one = False, rs_all_zero = False,
     rs_all_negative_one = False, rs_zero_variance = False\<rparr>"

text \<open>\<open>outputs[...][indices] = state\<close> for every group.\<close>

definition assign_rows :: "row_state \<Rightarrow> nat list \<Rightarrow> row_state list \<Rightarrow> row_state list" where
  "assign_rows st indices out = foldl (\<lambda>out i. out[i := st]) out indices"

definition classify_groups :: "real list \<Rightarrow> 'k list \<Rightarrow> real \<Rightarrow> row_state list" where
  "classify_groups rewards group_ids epsilon =
     foldl (\<lambda>out (k, indices). assign_rows (group_state (map (\<lambda>i. rewards ! i) indices) epsilon) indices out)
       (map (\<lambda>_. closed_row) rewards) (group_rows group_ids)"

definition classify_reward_ranked_groups ::
  "real list \<Rightarrow> string list option \<Rightarrow> int option \<Rightarrow> real \<Rightarrow> row_state list res" where
  "classify_reward_ranked_groups raw_rewards group_ids num_rollouts epsilon =
     (if epsilon < 0 then Inl (ValueError ''epsilon must be nonnegative'')
      else case group_ids of
        None \<Rightarrow>
          (case num_rollouts of
             None \<Rightarrow> Inl (ValueError ''num_rollouts must be positive when group_ids are omitted'')
           | Some n \<Rightarrow>
               if n \<le> 0 then Inl (ValueError ''num_rollouts must be positive when group_ids are omitted'')
               else Inr (classify_groups raw_rewards (map (\<lambda>i. i div nat n) [0..<length raw_rewards]) epsilon))
      | Some ids \<Rightarrow>
          if length ids \<noteq> length raw_rewards
          then Inl (ValueError ''group_ids and raw_rewards must have the same length'')
          else Inr (classify_groups raw_rewards ids epsilon))"

section \<open>Grouping\<close>

text \<open>The rows of a group, in row order.\<close>

definition rows_of :: "'k list \<Rightarrow> 'k \<Rightarrow> nat list" where
  "rows_of ids k = filter (\<lambda>i. ids ! i = k) [0..<length ids]"

lemma map_of_setdefault_append:
  "map_of (setdefault_append k v d) k' =
    (if k' = k then Some ((case map_of d k of None \<Rightarrow> [] | Some vs \<Rightarrow> vs) @ [v]) else map_of d k')"
  by (induction d) auto

lemma keys_setdefault_append:
  "map fst (setdefault_append k v d) = (if k \<in> fst ` set d then map fst d else map fst d @ [k])"
  by (induction d) force+

lemma group_rows_snoc:
  "group_rows (ids @ [k]) = setdefault_append k (length ids) (group_rows ids)"
  by (simp add: group_rows_def enumerate_append_eq)

lemma group_rows_spec:
  "distinct (map fst (group_rows ids)) \<and> fst ` set (group_rows ids) = set ids
    \<and> (\<forall>k. map_of (group_rows ids) k = (if k \<in> set ids then Some (rows_of ids k) else None))"
proof (induction ids rule: rev_induct)
  case Nil
  show ?case by (simp add: group_rows_def)
next
  case (snoc x ids)
  have rows: "rows_of (ids @ [x]) k = (if k = x then rows_of ids k @ [length ids] else rows_of ids k)" for k
    by (auto simp: rows_of_def nth_append intro!: filter_cong)
  have empty: "x \<notin> set ids \<Longrightarrow> rows_of ids x = []"
    by (auto simp: rows_of_def filter_empty_conv)
  have "distinct (map fst (group_rows (ids @ [x])))"
    using snoc by (simp add: group_rows_snoc keys_setdefault_append)
  moreover have "fst ` set (group_rows (ids @ [x])) = set (ids @ [x])"
  proof -
    have "fst ` set (group_rows (ids @ [x])) = set (map fst (group_rows (ids @ [x])))" by simp
    then show ?thesis
      using snoc by (simp only: group_rows_snoc keys_setdefault_append) auto
  qed
  ultimately show ?case
    using snoc empty by (auto simp: group_rows_snoc map_of_setdefault_append rows)
qed

lemma assign_rows_spec:
  "length (assign_rows st js out) = length out"
  "i < length out \<Longrightarrow> assign_rows st js out ! i = (if i \<in> set js then st else out ! i)"
  by (induction js arbitrary: out) (auto simp: assign_rows_def nth_list_update)

lemma classify_loop:
  assumes "distinct (map fst gs)" "\<And>k js. (k, js) \<in> set gs \<Longrightarrow> js = rows_of ids k" "i < length out"
    "length ids = length out"
  shows "foldl (\<lambda>out (k, indices). assign_rows (f indices) indices out) out gs ! i
    = (if ids ! i \<in> fst ` set gs then f (rows_of ids (ids ! i)) else out ! i)"
  using assms
proof (induction gs arbitrary: out)
  case (Cons g gs)
  obtain k js where g: "g = (k, js)" by force
  have js: "js = rows_of ids k" using Cons.prems(2) g by simp
  have mem: "i \<in> set js \<longleftrightarrow> ids ! i = k"
    using Cons.prems(3,4) by (auto simp: rows_of_def js)
  let ?out = "assign_rows (f js) js out"
  have "foldl (\<lambda>out (k, indices). assign_rows (f indices) indices out) ?out gs ! i
      = (if ids ! i \<in> fst ` set gs then f (rows_of ids (ids ! i)) else ?out ! i)"
    by (rule Cons.IH) (use Cons.prems in \<open>simp_all add: assign_rows_spec\<close>)
  moreover have "?out ! i = (if ids ! i = k then f js else out ! i)"
    using Cons.prems(3) mem by (simp add: assign_rows_spec(2))
  ultimately show ?case by (simp add: g js)
qed simp

lemma classify_groups_nth:
  assumes "i < length rewards" "length ids = length rewards"
  shows "classify_groups rewards ids epsilon ! i
    = group_state (map (\<lambda>j. rewards ! j) (rows_of ids (ids ! i))) epsilon"
proof -
  note spec = group_rows_spec [of ids]
  have rows: "js = rows_of ids k" if "(k, js) \<in> set (group_rows ids)" for k js
    using spec that map_of_eq_Some_iff [of "group_rows ids" k js] by (auto split: if_splits)
  have "ids ! i \<in> set ids" using assms by simp
  then show ?thesis
    unfolding classify_groups_def
    using classify_loop [OF conjunct1 [OF spec] rows, where i = i
        and f = "\<lambda>js. group_state (map (\<lambda>j. rewards ! j) js) epsilon" and out = "map (\<lambda>_. closed_row) rewards"]
      spec assms by simp
qed

lemma length_assign_loop:
  "length (foldl (\<lambda>out (k, indices). assign_rows (f indices) indices out) out gs) = length out"
  by (induction gs arbitrary: out) (auto simp: assign_rows_spec)

lemma length_classify_groups [simp]: "length (classify_groups rewards ids epsilon) = length rewards"
  by (simp add: classify_groups_def length_assign_loop)

section \<open>Variance\<close>

lemma variance_of_nonneg: "0 \<le> variance_of xs"
  by (auto simp: variance_of_def mean_of_def intro!: divide_nonneg_nonneg sum_list_nonneg)

lemma variance_of_zero_iff:
  "xs \<noteq> [] \<Longrightarrow> variance_of xs = 0 \<longleftrightarrow> (\<forall>x \<in> set xs. \<forall>y \<in> set xs. x = y)"
proof
  assume ne: "xs \<noteq> []" and "variance_of xs = 0"
  then have "sum_list (map (\<lambda>x. (x - mean_of xs) ^ 2) xs) = 0"
    by (auto simp: variance_of_def mean_of_def)
  then have "\<forall>x \<in> set xs. (x - mean_of xs) ^ 2 = 0"
    by (subst (asm) sum_list_nonneg_eq_0_iff) auto
  then have "\<forall>x \<in> set xs. x = mean_of xs" by simp
  then show "\<forall>x \<in> set xs. \<forall>y \<in> set xs. x = y" by metis
next
  assume ne: "xs \<noteq> []" and eq: "\<forall>x \<in> set xs. \<forall>y \<in> set xs. x = y"
  let ?c = "hd xs"
  have all: "\<forall>x \<in> set xs. x = ?c" using ne eq by simp
  then have "xs = replicate (length xs) ?c" by (simp add: replicate_eqI)
  then have "sum_list xs = real (length xs) * ?c" by (metis sum_list_replicate of_nat_mult)
  then have "mean_of xs = ?c" using ne by (simp add: mean_of_def)
  then have "map (\<lambda>x. (x - mean_of xs) ^ 2) xs = map (\<lambda>_. 0) xs" using all by simp
  then show "variance_of xs = 0"
    unfolding variance_of_def by (simp only:) (simp add: mean_of_def)
qed

end
