(* ===== verification/Controller.thy ===== *)
theory Controller
  imports Softmax LengthReward
begin

text \<open>
  The gates and the token weights of the controller (\<open>risk_aware_opsd/verpo_zpd.py\<close>):
  \<open>compute_group_zpd_gate\<close>, \<open>apply_evidence_rollout_scope\<close> and
  \<open>compute_verpo_token_weights\<close>.
\<close>

section \<open>Group gate\<close>

definition compute_group_zpd_gate ::
  "real list \<Rightarrow> int \<Rightarrow> string \<Rightarrow> real \<Rightarrow> pyfloat \<Rightarrow> bool list res" where
  "compute_group_zpd_gate raw_rewards num_rollouts mode positive_reward epsilon =
     (if \<not> isfinite epsilon \<or> the_real epsilon < 0
      then Inl (ValueError ''epsilon must be finite and nonnegative'')
      else if mode \<noteq> ''binary_mixed'' \<and> mode \<noteq> ''reward_ranked''
      then Inl (ValueError ''group ZPD mode must be binary_mixed or reward_ranked'')
      else if num_rollouts \<le> 1 \<or> raw_rewards = [] then Inr (map (\<lambda>_. False) raw_rewards)
      else let rewards = (if mode = ''binary_mixed''
             then map (\<lambda>r. of_bool (positive_reward - 1 / 10 ^ 6 \<le> r)) raw_rewards else raw_rewards)
      in rbind (classify_reward_ranked_groups rewards None (Some num_rollouts) (the_real epsilon))
           (\<lambda>states. Inr (map rs_zpd_gate states)))"

definition apply_evidence_rollout_scope :: "bool list \<Rightarrow> bool list \<Rightarrow> string \<Rightarrow> bool list res" where
  "apply_evidence_rollout_scope group_gate outcome_positive_rows scope =
     (if length group_gate \<noteq> length outcome_positive_rows
      then Inl (ValueError ''group_gate and outcome_positive_rows must have the same shape'')
      else if scope \<noteq> ''all'' \<and> scope \<noteq> ''wrong_only''
      then Inl (ValueError ''scope must be all or wrong_only'')
      else Inr (if scope = ''wrong_only'' then map2 (\<lambda>g p. g \<and> \<not> p) group_gate outcome_positive_rows
                else group_gate))"

section \<open>Token weights\<close>

text \<open>Host float arithmetic, up to the kind of a non-finite result: every use below is guarded
  by a finiteness test.\<close>

fun pf_mul :: "pyfloat \<Rightarrow> pyfloat \<Rightarrow> pyfloat" where
  "pf_mul (Fin a) (Fin b) = Fin (a * b)"
| "pf_mul a b = NaN"

fun pf_add :: "pyfloat \<Rightarrow> pyfloat \<Rightarrow> pyfloat" where
  "pf_add (Fin a) (Fin b) = Fin (a + b)"
| "pf_add a b = NaN"

text \<open>The effective and the legacy cost parameters.\<close>

record cost_params =
  cp_cost_alpha :: "pyfloat option"
  cp_cost_epsilon :: "pyfloat option"
  cp_tau :: "pyfloat option"
  cp_rho :: "pyfloat option"
  cp_cost_floor :: "pyfloat option"
  cp_cost_beta :: "pyfloat option"

definition resolve_cost :: "cost_params \<Rightarrow> (pyfloat \<times> pyfloat) res" where
  "resolve_cost C =
     (case (cp_cost_alpha C, cp_cost_epsilon C) of
        (Some a, Some e) \<Rightarrow> Inr (a, e)
      | _ \<Rightarrow>
          (case (cp_tau C, cp_rho C, cp_cost_floor C, cp_cost_beta C) of
             (Some tau, Some rho, Some cost_floor, Some cost_beta) \<Rightarrow>
               Inr (pf_mul tau cost_beta, pf_mul tau (pf_add rho cost_floor))
           | _ \<Rightarrow> Inl (ValueError ''cost_alpha and cost_epsilon are required'')))"

text \<open>A weight \<open>h / (h + c)\<close>; \<open>None\<close> is the non-finite quotient of a division by zero.\<close>

definition token_weight :: "bool \<Rightarrow> real \<Rightarrow> real \<Rightarrow> bool \<Rightarrow> real \<Rightarrow> real \<Rightarrow> real option" where
  "token_weight active cost_alpha cost_epsilon allow_negative_benefit benefit fisher_cost =
     (let h = (if allow_negative_benefit then benefit else clamp_min 0 benefit);
          c = cost_alpha * fisher_cost + cost_epsilon
      in if \<not> active then Some 0 else if h + c = 0 then None else Some (h / (h + c)))"

definition compute_verpo_token_weights ::
  "real tok \<Rightarrow> real tok \<Rightarrow> bool list \<Rightarrow> bool tok \<Rightarrow> cost_params \<Rightarrow> string \<Rightarrow> bool \<Rightarrow> real tok res" where
  "compute_verpo_token_weights benefit fisher_cost group_gate token_mask C token_weight_mode
     allow_negative_benefit =
     (if tok_shape benefit \<noteq> tok_shape fisher_cost
      then Inl (ValueError ''benefit and fisher_cost must have identical shapes'')
      else if tok_shape token_mask \<noteq> tok_shape benefit
      then Inl (ValueError ''token_mask must match the token dimensions'')
      else if length group_gate \<noteq> tk_n benefit
      then Inl (ValueError ''group_gate must have shape [n_rows]'')
      else if token_weight_mode \<noteq> ''paper'' \<and> token_weight_mode \<noteq> ''uniform''
      then Inl (ValueError ''token_weight_mode must be paper or uniform'')
      else rbind (resolve_cost C) (\<lambda>(cost_alpha, cost_epsilon).
        if \<not> isfinite cost_alpha \<or> \<not> isfinite cost_epsilon
        then Inl (ValueError ''VERPO token-weight hyperparameters must be finite'')
        else if the_real cost_alpha < 0 \<or> the_real cost_epsilon \<le> 0
        then Inl (ValueError ''cost_alpha must be nonnegative and cost_epsilon positive'')
        else let
          active_mask = map (\<lambda>t. row_at (tk_s benefit) group_gate t \<and> tk_vals token_mask ! t)
            [0..<length (tk_vals benefit)]
        in if token_weight_mode = ''uniform''
           then Inr \<lparr>tk_n = tk_n benefit, tk_s = tk_s benefit, tk_vals = map of_bool active_mask\<rparr>
           else let weights = map (\<lambda>t. token_weight (active_mask ! t) (the_real cost_alpha) (the_real cost_epsilon)
                allow_negative_benefit (tk_vals benefit ! t) (tk_vals fisher_cost ! t))
              [0..<length (tk_vals benefit)]
           in if None \<in> set weights
              then Inl (ValueError ''VERPO paper token weights must be finite'')
              else if \<not> allow_negative_benefit \<and> list_ex (\<lambda>w. w < 0 \<or> 1 \<le> w) (map the weights)
              then Inl (ValueError ''VERPO paper token weights must lie in [0, 1)'')
              else Inr \<lparr>tk_n = tk_n benefit, tk_s = tk_s benefit, tk_vals = map the weights\<rparr>))"

section \<open>Weights are probabilities below one\<close>

lemma token_weight_bounds:
  assumes "0 \<le> alpha" "0 < eps" "0 \<le> cost"
  shows "\<exists>w. token_weight active alpha eps False b cost = Some w \<and> 0 \<le> w \<and> w < 1
    \<and> w = (if active then max 0 b / (max 0 b + (alpha * cost + eps)) else 0)"
proof -
  have c: "0 < alpha * cost + eps" using assms by (simp add: add_nonneg_pos)
  then have "0 \<le> max 0 b / (max 0 b + (alpha * cost + eps))" "max 0 b / (max 0 b + (alpha * cost + eps)) < 1"
    "max 0 b + (alpha * cost + eps) \<noteq> 0"
    by (auto simp: divide_less_eq max_def)
  then show ?thesis by (auto simp: token_weight_def Let_def clamp_min_def)
qed

lemma weight_ratio_mono:
  assumes "0 \<le> h" "h \<le> h'" "0 < c'" "c' \<le> (c :: real)"
  shows "h / (h + c) \<le> h' / (h' + c')"
proof -
  have "h * c' \<le> h' * c" using assms by (intro mult_mono) auto
  then have "h * (h' + c') \<le> h' * (h + c)" by (simp add: distrib_left mult.commute)
  moreover have "0 < h + c" "0 < h' + c'" using assms by auto
  ultimately show ?thesis by (simp add: pos_divide_le_eq pos_le_divide_eq mult.commute)
qed

text \<open>What the function returns under its calling contract.\<close>

definition weight_inputs_ok ::
  "real tok \<Rightarrow> real tok \<Rightarrow> bool list \<Rightarrow> bool tok \<Rightarrow> cost_params \<Rightarrow> real \<Rightarrow> real \<Rightarrow> bool" where
  "weight_inputs_ok benefit cost gate tmask C alpha eps \<longleftrightarrow>
     wf_tok benefit \<and> wf_tok cost \<and> wf_tok tmask \<and> tok_shape benefit = tok_shape cost
     \<and> tok_shape tmask = tok_shape benefit \<and> length gate = tk_n benefit
     \<and> resolve_cost C = Inr (Fin alpha, Fin eps) \<and> 0 \<le> alpha \<and> 0 < eps
     \<and> list_all (\<lambda>c. 0 \<le> c) (tk_vals cost)"

definition weight_ref :: "real tok \<Rightarrow> real tok \<Rightarrow> bool list \<Rightarrow> bool tok \<Rightarrow> real \<Rightarrow> real \<Rightarrow> nat \<Rightarrow> real" where
  "weight_ref benefit cost gate tmask alpha eps t =
     (let h = max 0 (tk_vals benefit ! t) in
      if row_at (tk_s benefit) gate t \<and> tk_vals tmask ! t
      then h / (h + (alpha * tk_vals cost ! t + eps)) else 0)"

lemma compute_verpo_token_weights_eq:
  assumes "weight_inputs_ok benefit cost gate tmask C alpha eps"
  shows "compute_verpo_token_weights benefit cost gate tmask C ''paper'' False
    = Inr \<lparr>tk_n = tk_n benefit, tk_s = tk_s benefit,
        tk_vals = map (weight_ref benefit cost gate tmask alpha eps) [0..<length (tk_vals benefit)]\<rparr>"
proof -
  note W = assms [unfolded weight_inputs_ok_def]
  have len: "length (tk_vals cost) = length (tk_vals benefit)"
    using W by (simp add: wf_tok_def tok_shape_def)
  have at: "token_weight (row_at (tk_s benefit) gate t \<and> tk_vals tmask ! t) alpha eps False
      (tk_vals benefit ! t) (tk_vals cost ! t) = Some (weight_ref benefit cost gate tmask alpha eps t)"
    "0 \<le> weight_ref benefit cost gate tmask alpha eps t" "weight_ref benefit cost gate tmask alpha eps t < 1"
    if "t < length (tk_vals benefit)" for t
  proof -
    have "0 \<le> tk_vals cost ! t" using W that len by (simp add: list_all_iff)
    then show "token_weight (row_at (tk_s benefit) gate t \<and> tk_vals tmask ! t) alpha eps False
      (tk_vals benefit ! t) (tk_vals cost ! t) = Some (weight_ref benefit cost gate tmask alpha eps t)"
      "0 \<le> weight_ref benefit cost gate tmask alpha eps t" "weight_ref benefit cost gate tmask alpha eps t < 1"
      using W token_weight_bounds [of alpha eps "tk_vals cost ! t"
          "row_at (tk_s benefit) gate t \<and> tk_vals tmask ! t" "tk_vals benefit ! t"]
      by (auto simp: weight_ref_def Let_def split: if_splits)
  qed
  have "map (\<lambda>t. token_weight (map (\<lambda>t. row_at (tk_s benefit) gate t \<and> tk_vals tmask ! t)
        [0..<length (tk_vals benefit)] ! t) alpha eps False (tk_vals benefit ! t) (tk_vals cost ! t))
      [0..<length (tk_vals benefit)]
    = map (\<lambda>t. Some (weight_ref benefit cost gate tmask alpha eps t)) [0..<length (tk_vals benefit)]"
    by (rule map_cong) (simp_all add: at(1))
  then show ?thesis
    using W at(2) at(3) [unfolded not_le [symmetric]]
    by (auto simp: compute_verpo_token_weights_def Let_def list_ex_iff not_less o_def)
qed

end
