(* ===== verification/Trainer.thy ===== *)
theory Trainer
  imports FullLosses Controller
begin

text \<open>
  The backend-neutral trainer (\<open>risk_aware_opsd/verpo_trainer.py\<close>): the masked mean, the clipped
  policy loss and \<open>VERPOTrainer.compute_verpo_loss\<close>, which dispatches on the displacement mode
  and the divergence. A local variable that a branch never assigns is an \<open>UnboundLocalError\<close>.
\<close>

section \<open>Policy loss\<close>

definition masked_mean :: "real tok \<Rightarrow> bool tok \<Rightarrow> real res" where
  "masked_mean values tmask =
     (if tok_shape values \<noteq> tok_shape tmask
      then Inl (ValueError ''values and mask must have identical shapes'')
      else let mask_f = map of_bool (tk_vals tmask);
               denominator = max (vsum mask_f) 1
      in Inr (vsum (vmul (tk_vals values) mask_f) / denominator))"

definition clipped_objective :: "real \<Rightarrow> real \<Rightarrow> real \<Rightarrow> real \<Rightarrow> real \<Rightarrow> real" where
  "clipped_objective clip_low clip_high log_prob old_log_prob advantage =
     (let ratio = exp (log_prob - old_log_prob);
          clipped = clamp (1 - clip_low) (1 + clip_high) ratio
      in min (ratio * advantage) (clipped * advantage))"

definition grpo_policy_loss ::
  "real tok \<Rightarrow> real tok \<Rightarrow> real tok \<Rightarrow> bool tok \<Rightarrow> real \<Rightarrow> real \<Rightarrow> real res" where
  "grpo_policy_loss new_log_probs old_log_probs advantages response_mask clip_low clip_high =
     (if \<not> (tok_shape new_log_probs = tok_shape old_log_probs \<and> tok_shape old_log_probs = tok_shape advantages
         \<and> tok_shape advantages = tok_shape response_mask)
      then Inl (ValueError ''GRPO tensors must have identical shapes'')
      else let objective = new_log_probs\<lparr>tk_vals := map (\<lambda>t. clipped_objective clip_low clip_high
             (tk_vals new_log_probs ! t) (tk_vals old_log_probs ! t) (tk_vals advantages ! t))
             [0..<length (tk_vals new_log_probs)]\<rparr>
      in rbind (masked_mean objective response_mask) (\<lambda>m. Inr (- m)))"

section \<open>The VERPO loss\<close>

text \<open>The fields of \<open>VERPOConfig\<close> the loss reads, and the optional inputs of a batch.\<close>

record loss_config =
  lc_displacement_mode :: string
  lc_divergence :: string
  lc_temperature :: real
  lc_vocab_chunk_size :: int
  lc_vocab_mode :: string
  lc_top_k :: top_k_arg
  lc_lambda_ref :: real
  lc_lambda_evi :: real

record loss_batch =
  lb_reference :: logits
  lb_base :: "logits option"
  lb_evidence :: "logits option"
  lb_positive :: "logits option"
  lb_negative :: "logits option"
  lb_no_evidence :: "logits option"
  lb_sampled_token_ids :: "token_ids option"
  lb_evidence_weights :: "real tok option"
  lb_nuisance_projection :: "real tok option"

record loss_metrics =
  lm_reference_loss :: real
  lm_evidence_loss :: real
  lm_total_loss :: real

text \<open>The local variables \<open>ref\<close> and \<open>correction\<close> after the dispatch; \<open>ref\<close> may be unassigned.\<close>

definition drop_probs :: "teacher_losses res \<Rightarrow> (real tok option \<times> real tok) res" where
  "drop_probs r = rbind r (\<lambda>(ref, correction, _). Inr (Some ref, correction))"

definition fixed_branch ::
  "(nat \<Rightarrow> vec \<Rightarrow> nat list) \<Rightarrow> loss_config \<Rightarrow> logits \<Rightarrow> loss_batch \<Rightarrow> real tok \<Rightarrow> (real tok option \<times> real tok) res" where
  "fixed_branch topk cfg student B weights =
     (case (lb_base B, lb_evidence B) of
        (Some base, Some evidence) \<Rightarrow>
          if lc_divergence cfg = ''forward_kl''
          then drop_probs (compute_fixed_teacher_token_losses topk student (lb_reference B) base evidence weights
            (lc_temperature cfg) (lc_vocab_chunk_size cfg) False (lc_vocab_mode cfg) (lc_top_k cfg)
            (lb_sampled_token_ids B))
          else drop_probs (compute_reverse_kl_fixed_teacher_token_losses topk student base evidence weights
            (lc_temperature cfg) (lc_vocab_chunk_size cfg) True (lc_vocab_mode cfg) (lc_top_k cfg)
            (lb_sampled_token_ids B))
      | _ \<Rightarrow> Inl (ValueError ''Fixed VERPO requires base and evidence Teacher logits''))"

definition contrastive_branch ::
  "(nat \<Rightarrow> vec \<Rightarrow> nat list) \<Rightarrow> loss_config \<Rightarrow> logits \<Rightarrow> loss_batch \<Rightarrow> real tok \<Rightarrow> (real tok option \<times> real tok) res" where
  "contrastive_branch topk cfg student B weights =
     (case (lb_positive B, lb_negative B) of
        (Some positive, Some negative) \<Rightarrow>
          if lc_divergence cfg = ''forward_kl''
          then rbind (compute_contrastive_teacher_token_losses topk student (lb_reference B) positive negative
              weights (lc_temperature cfg) (lc_vocab_chunk_size cfg) (lc_vocab_mode cfg) (lc_top_k cfg)
              (lb_sampled_token_ids B)) (\<lambda>(ref, correction). Inr (Some ref, correction))
          else drop_probs (compute_reverse_kl_ctr_teacher_token_losses topk student (lb_reference B) positive
            negative weights (lc_temperature cfg) (lc_vocab_chunk_size cfg) True (lc_vocab_mode cfg)
            (lc_top_k cfg) (lb_sampled_token_ids B))
      | _ \<Rightarrow> Inl (ValueError ''Contrastive VERPO requires positive and negative Teacher logits''))"

definition fec_branch ::
  "(nat \<Rightarrow> vec \<Rightarrow> nat list) \<Rightarrow> loss_config \<Rightarrow> logits \<Rightarrow> loss_batch \<Rightarrow> real tok \<Rightarrow> (real tok option \<times> real tok) res" where
  "fec_branch topk cfg student B weights =
     (case (lb_positive B, lb_negative B, lb_no_evidence B) of
        (Some positive, Some negative, Some no_evidence) \<Rightarrow>
          let projection = (case lb_nuisance_projection B of
                None \<Rightarrow> tok_of student (\<lambda>_. 0) | Some p \<Rightarrow> p)
          in if lc_divergence cfg = ''forward_kl''
             then rbind (compute_fec_teacher_token_losses topk student positive negative no_evidence weights
                 projection (lc_temperature cfg) (lc_vocab_chunk_size cfg) (lc_vocab_mode cfg) (lc_top_k cfg)
                 (lb_sampled_token_ids B))
               (\<lambda>correction. Inr (Some (tok_map (\<lambda>_. 0) correction), correction))
             else rbind (compute_reverse_kl_fec_teacher_token_losses topk student positive negative no_evidence
                 weights projection (lc_temperature cfg) (lc_vocab_chunk_size cfg) (lc_vocab_mode cfg)
                 (lc_top_k cfg) (lb_sampled_token_ids B)) (\<lambda>correction. Inr (None, correction))
      | _ \<Rightarrow> Inl (ValueError ''FEC VERPO requires positive, negative, and no-evidence Teacher logits''))"

definition all_true :: "'a tok \<Rightarrow> bool tok" where
  "all_true values = tok_map (\<lambda>_. True) values"

definition compute_verpo_loss ::
  "(nat \<Rightarrow> vec \<Rightarrow> nat list) \<Rightarrow> loss_config \<Rightarrow> logits \<Rightarrow> loss_batch \<Rightarrow> (real \<times> loss_metrics) res" where
  "compute_verpo_loss topk cfg student B =
     (let weights = (case lb_evidence_weights B of None \<Rightarrow> tok_of student (\<lambda>_. 1) | Some w \<Rightarrow> w);
          mode = lc_displacement_mode cfg
      in if tok_shape weights \<noteq> token_shape student
         then Inl (ValueError ''evidence_weights must match student token dimensions'')
         else rbind
           (if mode = ''evidence_vs_none'' then fixed_branch topk cfg student B weights
            else if mode = ''correct_vs_incorrect'' \<or> mode = ''reward_ranked''
            then contrastive_branch topk cfg student B weights
            else if mode = ''fec'' then fec_branch topk cfg student B weights
            else Inl (ValueError ''unsupported displacement mode'')) (\<lambda>(ref, correction).
         case ref of
           None \<Rightarrow> Inl (UnboundLocalError ''ref'')
         | Some ref \<Rightarrow>
             rbind (masked_mean ref (all_true ref)) (\<lambda>reference.
             rbind (masked_mean correction (all_true correction)) (\<lambda>evidence.
             let total = lc_lambda_ref cfg * reference + lc_lambda_evi cfg * evidence in
             Inr (total, \<lparr>lm_reference_loss = reference, lm_evidence_loss = evidence, lm_total_loss = total\<rparr>)))))"

section \<open>Facts\<close>

lemma masked_mean_all:
  assumes "tk_vals values \<noteq> []"
  shows "masked_mean values (all_true values) = Inr (vsum (tk_vals values) / real (length (tk_vals values)))"
proof -
  let ?n = "length (tk_vals values)"
  have ones: "map of_bool (tk_vals (all_true values)) = (replicate ?n 1 :: real list)"
    by (simp add: all_true_def tok_map_def map_replicate_const)
  have "vmul (tk_vals values) (replicate ?n 1) = tk_vals values" by (rule vec_eqI) simp_all
  moreover have "vsum (replicate ?n 1) = real ?n" by (simp add: vsum_def sum_list_replicate)
  moreover have "1 \<le> real ?n" using assms by (cases "tk_vals values") auto
  ultimately show ?thesis
    by (simp only: masked_mean_def ones Let_def)
      (simp add: all_true_def tok_map_def tok_shape_def max_def)
qed

lemma clipped_objective_le:
  assumes "0 \<le> clip_low" "0 \<le> clip_high"
  shows "clipped_objective clip_low clip_high lp old a
    \<le> (if 0 \<le> a then 1 + clip_high else 1 - clip_low) * a"
proof -
  let ?r = "exp (lp - old)"
  have "clamp (1 - clip_low) (1 + clip_high) ?r \<le> 1 + clip_high"
    "1 - clip_low \<le> clamp (1 - clip_low) (1 + clip_high) ?r"
    using assms by (auto simp: clamp_def)
  then show ?thesis
    by (auto simp: clipped_objective_def Let_def min_le_iff_disj intro: mult_right_mono mult_right_mono_neg)
qed

end
