(* ===== verification/Fixtures.thy ===== *)
theory Fixtures
  imports Diagnostics LossFacts Trainer
begin

text \<open>
  Concrete one-position inputs at which the properties are instantiated: logits with one row and
  one token, a sampled token, a weight.
\<close>

definition one_pos :: "vec \<Rightarrow> logits" where
  "one_pos z = \<lparr>lg_n = 1, lg_s = 1, lg_v = length z, lg_rows = [z]\<rparr>"

definition one_id :: "int \<Rightarrow> token_ids" where
  "one_id k = \<lparr>tk_n = 1, tk_s = 1, tk_vals = [k], ids_long = True\<rparr>"

definition one_tok :: "'a \<Rightarrow> 'a tok" where
  "one_tok x = \<lparr>tk_n = 1, tk_s = 1, tk_vals = [x]\<rparr>"

lemma one_pos_simps [simp]:
  "lg_n (one_pos z) = 1" "lg_s (one_pos z) = 1" "lg_v (one_pos z) = length z" "lg_rows (one_pos z) = [z]"
  "lg_shape (one_pos z) = [1, 1, length z]" "token_shape (one_pos z) = [1, 1]" "wf_logits (one_pos z)"
  by (simp_all add: one_pos_def lg_shape_def token_shape_def wf_logits_def)

lemma one_pos_ok [simp]:
  "tensors_ok (one_pos z # Ls) \<longleftrightarrow> z \<noteq> [] \<and> list_all (\<lambda>L. wf_logits L \<and> lg_shape L = [1, 1, length z]) Ls"
  by (auto simp: tensors_ok_def list_all_iff)

lemma one_id_ok [simp]:
  "ids_ok (one_pos z) (one_id k) \<longleftrightarrow> 0 \<le> k \<and> k < int (length z)"
  "ids_long (one_id k)" "tk_vals (one_id k) = [k]"
  by (auto simp: ids_ok_def one_id_def wf_tok_def tok_shape_def)

lemma one_tok_simps [simp]:
  "tok_shape (one_tok x) = [1, 1]" "wf_tok (one_tok x)"
  "tk_vals (one_tok x) = [x]" "tk_n (one_tok x) = 1" "tk_s (one_tok x) = 1"
  by (simp_all add: one_tok_def wf_tok_def tok_shape_def)

lemma one_tok_weights [simp]: "weights_ok (one_pos z) (one_tok x)"
  by (simp add: weights_ok_def)

lemma tok_of_one_pos [simp]: "tok_of (one_pos z) f = one_tok (f 0)"
  by (simp add: tok_of_def one_tok_def)

text \<open>A call on the whole vocabulary, and a truncated call.\<close>

lemma full_mode [simp]: "0 < v \<Longrightarrow> should_use_full_vocab_compat ''full'' (TkInt 1) v = Inr True"
  by (simp add: should_use_full_vocab_compat_def should_use_full_vocab_def validate_verpo_vocab_config_def)

lemma truncated_mode [simp]:
  "2 \<le> v \<Longrightarrow> should_use_full_vocab_compat ''topk_truncated'' (TkInt 1) v = Inr False"
  by (simp add: should_use_full_vocab_compat_def should_use_full_vocab_def validate_verpo_vocab_config_def)

lemmas topk_sort_ok [simp] = topk_sort.topk_select_axioms

end
