(* ===== verification/StatsProps.thy ===== *)
theory StatsProps
  imports Fixtures
begin

text \<open>
  Properties of the evidence statistics: what they compute in either vocabulary mode, their
  independence of the chunk size, the agreement of the truncated with the exact statistics, and
  the bounds the token controller relies on.
\<close>

text \<open>C1: \<open>compute_fec_evidence_stats\<close> returns, at every position, the statistics of the
  residual of the task displacement \<open>q_+ - q_-\<close> after its regularised projection on the nuisance
  displacement \<open>(q_+ + q_-)/2 - q_0\<close>, in the Student-local Fisher geometry of the coordinates
  used: the whole vocabulary in full mode, the Teachers' Top-K union with the sampled token in
  truncated mode. It never raises under its calling contract.\<close>

theorem fec_stats_functional:
  assumes topk: "topk_select topk" and ten: "tensors_ok [P, N, Z, S]" and ids: "ids_ok S y"
    and mode: "should_use_full_vocab_compat vocab_mode top_k (lg_v S) = Inr full"
    and T: "0 < T" and c: "0 < c" and e: "0 < e" and adv: "length adv = lg_n S"
  shows "compute_fec_evidence_stats topk P N Z S y adv T c (Fin e) vocab_mode top_k = Inr (tok_of S (\<lambda>t.
    fec_ref (coords topk full (top_k_value top_k) [P, N, Z] y t) (stu_prob T S t) (task_prob T P N t)
      (nuis_prob T P N Z t) e (token_at y t) (row_at (lg_s S) adv t)))"
  by (rule compute_fec_evidence_stats_eq [OF assms])

theorem fec_stats_functional_witness:
  "compute_fec_evidence_stats topk_by_sort (one_pos [1, 0, 2]) (one_pos [0, 0, 1]) (one_pos [0, 3, 0])
     (one_pos [0, 0, 0]) (one_id 2) [1] 1 2 (Fin 1) ''topk_truncated'' (TkInt 1)
   = Inr (one_tok (fec_ref (support_set topk_by_sort 1 [one_pos [1, 0, 2], one_pos [0, 0, 1], one_pos [0, 3, 0]]
       (one_id 2) 0) (stu_prob 1 (one_pos [0, 0, 0]) 0)
       (task_prob 1 (one_pos [1, 0, 2]) (one_pos [0, 0, 1]) 0)
       (nuis_prob 1 (one_pos [1, 0, 2]) (one_pos [0, 0, 1]) (one_pos [0, 3, 0]) 0) 1 2 1))"
  using fec_stats_functional [of topk_by_sort "one_pos [1, 0, 2]" "one_pos [0, 0, 1]" "one_pos [0, 3, 0]"
      "one_pos [0, 0, 0]" "one_id 2" "''topk_truncated''" "TkInt 1" False 1 2 1 "[1]"]
  by (simp add: coords_def top_k_value_def token_at_def row_at_def)

text \<open>C2: \<open>compute_reverse_kl_fec_evidence_stats\<close> returns the statistics of the residual of the
  task tangent after its regularised projection on the nuisance tangent, where a log-density
  direction \<open>r\<close> is mapped to its tangent \<open>F(p) r\<close> on the coordinates used (the whole
  vocabulary, or the Top-K union of the Teachers and the Student with the sampled token).\<close>

theorem reverse_fec_stats_functional:
  assumes topk: "topk_select topk" and ten: "tensors_ok [P, N, Z, S]" and ids: "ids_ok S y"
    and mode: "should_use_full_vocab_compat vocab_mode top_k (lg_v S) = Inr full"
    and T: "0 < T" and c: "0 < c" and e: "0 < e" and adv: "length adv = lg_n S"
  shows "compute_reverse_kl_fec_evidence_stats topk P N Z S y adv T c (Fin e) vocab_mode top_k
    = Inr (tok_of S (\<lambda>t.
        let A = coords topk full (top_k_value top_k) [P, N, Z, S] y t; p = stu_prob T S t
        in fec_ref A p (tangent A p (task_log T P N t)) (tangent A p (nuis_log T P N Z t)) e
             (token_at y t) (row_at (lg_s S) adv t)))"
  unfolding Let_def by (rule compute_reverse_kl_fec_evidence_stats_eq [OF assms])

theorem reverse_fec_stats_functional_witness:
  "compute_reverse_kl_fec_evidence_stats topk_by_sort (one_pos [1, 0]) (one_pos [0, 0]) (one_pos [0, 3])
     (one_pos [0, 0]) (one_id 1) [1] 1 2 (Fin 1) ''full'' (TkInt 1)
   = Inr (one_tok (fec_ref {..<2} (stu_prob 1 (one_pos [0, 0]) 0)
       (tangent {..<2} (stu_prob 1 (one_pos [0, 0]) 0) (task_log 1 (one_pos [1, 0]) (one_pos [0, 0]) 0))
       (tangent {..<2} (stu_prob 1 (one_pos [0, 0]) 0)
         (nuis_log 1 (one_pos [1, 0]) (one_pos [0, 0]) (one_pos [0, 3]) 0)) 1 1 1))"
  using reverse_fec_stats_functional [of topk_by_sort "one_pos [1, 0]" "one_pos [0, 0]" "one_pos [0, 3]"
      "one_pos [0, 0]" "one_id 1" "''full''" "TkInt 1" True 1 2 1 "[1]"]
  by (simp add: coords_def top_k_value_def token_at_def row_at_def Let_def numeral_2_eq_2)

text \<open>the Fixed and CTR statistics. \<open>compute_evidence_displacement_stats\<close> returns benefit,
  Fisher cost and norm of the probability displacement \<open>q_e - q_0\<close>, and
  \<open>compute_reverse_kl_evidence_stats\<close> those of the tangent of \<open>log q_e - log q_0\<close>, on the
  coordinates used, in either vocabulary mode.\<close>

theorem displacement_stats_functional:
  assumes topk: "topk_select topk" and ten: "tensors_ok [E, B, S]" and ids: "ids_ok S y"
    and mode: "should_use_full_vocab_compat vocab_mode top_k (lg_v S) = Inr full"
    and T: "0 < T" and c: "0 < c" and adv: "length adv = lg_n S"
  defines "F \<equiv> \<lambda>t. disp_ref (coords topk full (top_k_value top_k) [E, B] y t) (stu_prob T S t)
      (task_prob T E B t) (token_at y t) (row_at (lg_s S) adv t)"
    and "A \<equiv> coords topk full (top_k_value top_k) [B, E, S] y"
  defines "R \<equiv> \<lambda>t. disp_ref (A t) (stu_prob T S t) (tangent (A t) (stu_prob T S t) (task_log T E B t))
      (token_at y t) (row_at (lg_s S) adv t)"
  shows "compute_evidence_displacement_stats topk E B S y adv top_k T c vocab_mode
      = Inr (tok_of S (\<lambda>t. fst (F t)), tok_of S (\<lambda>t. fst (snd (F t))), tok_of S (\<lambda>t. snd (snd (F t))))
    \<and> compute_reverse_kl_evidence_stats topk E B S y adv top_k T c vocab_mode
      = Inr (tok_of S (\<lambda>t. fst (R t)), tok_of S (\<lambda>t. fst (snd (R t))), tok_of S (\<lambda>t. snd (snd (R t))))"
proof
  have ten': "tensors_ok [B, E, S]" by (rule tensors_ok_sub [OF ten]) auto
  show "compute_reverse_kl_evidence_stats topk E B S y adv top_k T c vocab_mode
      = Inr (tok_of S (\<lambda>t. fst (R t)), tok_of S (\<lambda>t. fst (snd (R t))), tok_of S (\<lambda>t. snd (snd (R t))))"
    unfolding R_def A_def by (rule compute_reverse_kl_evidence_stats_eq [OF topk ten' ids mode T c adv])
  show "compute_evidence_displacement_stats topk E B S y adv top_k T c vocab_mode
      = Inr (tok_of S (\<lambda>t. fst (F t)), tok_of S (\<lambda>t. fst (snd (F t))), tok_of S (\<lambda>t. snd (snd (F t))))"
    unfolding F_def by (rule compute_evidence_displacement_stats_eq [OF topk ten ids mode T c adv])
qed

theorem displacement_stats_functional_witness:
  "compute_evidence_displacement_stats topk_by_sort (one_pos [1, 0]) (one_pos [0, 0]) (one_pos [0, 3]) (one_id 1)
     [2] (TkInt 1) 1 1 ''full''
   = (let r = disp_ref {..<2} (stu_prob 1 (one_pos [0, 3]) 0) (task_prob 1 (one_pos [1, 0]) (one_pos [0, 0]) 0) 1 2
      in Inr (one_tok (fst r), one_tok (fst (snd r)), one_tok (snd (snd r))))"
  using displacement_stats_functional [of topk_by_sort "one_pos [1, 0]" "one_pos [0, 0]" "one_pos [0, 3]"
      "one_id 1" "''full''" "TkInt 1" True 1 1 "[2]"]
  by (simp add: coords_def token_at_def row_at_def Let_def numeral_2_eq_2)

section \<open>Chunks and supports\<close>

text \<open>the exact statistics do not depend on \<open>vocab_chunk_size\<close>: accumulating the moments over
  chunks of any two positive sizes gives the same statistics, for all four functions.\<close>

theorem stats_chunk_invariant:
  assumes "topk_select topk" and "tensors_ok [P, N, Z, S]" and "ids_ok S y"
    and "should_use_full_vocab_compat vocab_mode top_k (lg_v S) = Inr True"
    and "0 < T" and "0 < c" and "0 < c'" and "0 < e" and "length adv = lg_n S"
  shows "compute_fec_evidence_stats topk P N Z S y adv T c (Fin e) vocab_mode top_k
        = compute_fec_evidence_stats topk P N Z S y adv T c' (Fin e) vocab_mode top_k
    \<and> compute_reverse_kl_fec_evidence_stats topk P N Z S y adv T c (Fin e) vocab_mode top_k
        = compute_reverse_kl_fec_evidence_stats topk P N Z S y adv T c' (Fin e) vocab_mode top_k
    \<and> compute_evidence_displacement_stats topk P N S y adv top_k T c vocab_mode
        = compute_evidence_displacement_stats topk P N S y adv top_k T c' vocab_mode
    \<and> compute_reverse_kl_evidence_stats topk P N S y adv top_k T c vocab_mode
        = compute_reverse_kl_evidence_stats topk P N S y adv top_k T c' vocab_mode"
proof -
  have "tensors_ok [P, N, S]" "tensors_ok [N, P, S]"
    by (rule tensors_ok_sub [OF assms(2)]; auto)+
  then show ?thesis
    using assms by (simp add: compute_fec_evidence_stats_eq compute_reverse_kl_fec_evidence_stats_eq
        compute_evidence_displacement_stats_eq compute_reverse_kl_evidence_stats_eq)
qed

theorem stats_chunk_invariant_witness:
  "compute_fec_evidence_stats topk_by_sort (one_pos [1, 0, 2]) (one_pos [0, 0, 1]) (one_pos [0, 3, 0])
     (one_pos [0, 0, 0]) (one_id 2) [1] 1 2 (Fin 1) ''full'' (TkInt 1)
   = compute_fec_evidence_stats topk_by_sort (one_pos [1, 0, 2]) (one_pos [0, 0, 1]) (one_pos [0, 3, 0])
     (one_pos [0, 0, 0]) (one_id 2) [1] 1 4096 (Fin 1) ''full'' (TkInt 1)"
  using stats_chunk_invariant [of topk_by_sort "one_pos [1, 0, 2]" "one_pos [0, 0, 1]" "one_pos [0, 3, 0]"
      "one_pos [0, 0, 0]" "one_id 2" "''full''" "TkInt 1" 1 2 4096 1 "[1]"] by simp

text \<open>C3: with \<open>K\<close> at least the vocabulary size the truncated FEC statistics are the exact ones,
  for both divergences: the selected-support geometry then is the full-vocabulary geometry.\<close>

theorem truncated_stats_exact:
  assumes topk: "topk_select topk" and ten: "tensors_ok [P, N, Z, S]" and ids: "ids_ok S y"
    and k: "validated_top_k top_k = Inr k" "lg_v S \<le> k"
    and T: "0 < T" and c: "0 < c" and e: "0 < e" and adv: "length adv = lg_n S"
  shows "truncated_forward_fec_stats topk P N Z S y adv top_k T (Fin e)
      = compute_fec_evidence_stats topk P N Z S y adv T c (Fin e) ''full'' top_k
    \<and> truncated_reverse_fec_stats topk P N Z S y adv top_k T (Fin e)
      = compute_reverse_kl_fec_evidence_stats topk P N Z S y adv T c (Fin e) ''full'' top_k"
proof -
  have "top_k \<noteq> TkNone" using k(1) by auto
  moreover have "0 < lg_v S" using ten by (simp add: tensors_ok_iff)
  ultimately have mode: "should_use_full_vocab_compat ''full'' top_k (lg_v S) = Inr True"
    using k(1) by (simp add: should_use_full_vocab_compat_def should_use_full_vocab_def
        validate_verpo_vocab_config_def)
  have v: "lg_v P = lg_v S" using tensors_ok_shape [OF ten, of P S] by (simp add: lg_shape_eq_iff)
  have A: "support_set topk k [P, N, Z] y t = {..<lg_v S}" "support_set topk k [P, N, Z, S] y t = {..<lg_v S}"
    if "t < lg_n S * lg_s S" for t
    by (rule support_set_all [OF topk ten, of P]; use that ids k(2) in simp)+
  show ?thesis
    unfolding truncated_forward_fec_stats_eq [OF topk ten ids k(1) T e adv]
      truncated_reverse_fec_stats_eq [OF topk ten ids k(1) T e adv]
      compute_fec_evidence_stats_eq [OF topk ten ids mode T c e adv]
      compute_reverse_kl_fec_evidence_stats_eq [OF topk ten ids mode T c e adv]
    by (auto simp: A coords_def v intro!: tok_of_eqI)
qed

theorem truncated_stats_exact_witness:
  "truncated_forward_fec_stats topk_by_sort (one_pos [1, 0]) (one_pos [0, 0]) (one_pos [0, 3]) (one_pos [0, 0])
     (one_id 1) [1] (TkInt 5) 1 (Fin 1)
   = compute_fec_evidence_stats topk_by_sort (one_pos [1, 0]) (one_pos [0, 0]) (one_pos [0, 3]) (one_pos [0, 0])
     (one_id 1) [1] 1 1 (Fin 1) ''full'' (TkInt 5)"
  using truncated_stats_exact [of topk_by_sort "one_pos [1, 0]" "one_pos [0, 0]" "one_pos [0, 3]"
      "one_pos [0, 0]" "one_id 1" "TkInt 5" 5 1 1 1 "[1]"] by simp

section \<open>Bounds\<close>

text \<open>Any set of vocabulary coordinates carries at most the mass of the Student row.\<close>

interpretation subrow: mass_row "\<lambda>(T, z, A). A" "\<lambda>(T, z, A) k. probs T z ! k"
  "\<lambda>(T, z, A). z \<noteq> [] \<and> A \<subseteq> {..<length z}"
proof
  fix x :: "real \<times> vec \<times> nat set" and k
  assume ok: "case x of (T, z, A) \<Rightarrow> z \<noteq> [] \<and> A \<subseteq> {..<length z}"
  obtain T z A where x: "x = (T, z, A)" by (cases x)
  have sub: "A \<subseteq> {..<length z}" and ne: "z \<noteq> []" using ok x by auto
  show "(\<Sum>k \<in> (case x of (T, z, A) \<Rightarrow> A). (case x of (T, z, A) \<Rightarrow> \<lambda>k. probs T z ! k) k) \<le> 1"
  proof -
    have "(\<Sum>k\<in>A. probs T z ! k) \<le> (\<Sum>k<length z. probs T z ! k)"
      using sub by (intro sum_mono2) (auto intro: less_imp_le [OF probs_pos])
    then show ?thesis using probs_total_sum [OF ne, of T] x by simp
  qed
  assume "k \<in> (case x of (T, z, A) \<Rightarrow> A)"
  then show "0 \<le> (case x of (T, z, A) \<Rightarrow> \<lambda>k. probs T z ! k) k"
    using sub x by (auto intro: less_imp_le [OF probs_pos])
qed

lemma coords_sub:
  assumes topk: "topk_select topk" and ten: "tensors_ok Ls" and sub: "sources \<noteq> []" "set sources \<subseteq> set Ls"
    and S: "S \<in> set Ls" and ids: "ids_ok S y" and t: "t < lg_n S * lg_s S"
  shows "coords topk full k sources y t \<subseteq> {..<length (lg_rows S ! t)}" "lg_rows S ! t \<noteq> []"
proof -
  have "hd sources \<in> set Ls" using sub by (cases sources) auto
  then have "lg_v (hd sources) = lg_v S"
    using tensors_ok_shape [OF ten _ S] by (simp add: lg_shape_eq_iff)
  then show "coords topk full k sources y t \<subseteq> {..<length (lg_rows S ! t)}"
    using support_set_bounds(1) [OF topk ten sub(2) S ids t] tensors_ok_row(1) [OF ten S S t]
    by (simp add: coords_def)
  show "lg_rows S ! t \<noteq> []" by (rule tensors_ok_row(2) [OF ten S S t])
qed

text \<open>C4: in either vocabulary mode and for either divergence the statistics are usable by the
  controller: the Fisher cost of the residual direction is nonnegative and at most that of the task
  direction, the cosine lies in \<open>[-1, 1]\<close>, and the projection never increases the covariance with
  the nuisance direction.\<close>

theorem fec_stats_bounds:
  assumes topk: "topk_select topk" and ten: "tensors_ok [P, N, Z, S]" and ids: "ids_ok S y"
    and mode: "should_use_full_vocab_compat vocab_mode top_k (lg_v S) = Inr full"
    and T: "0 < T" and c: "0 < c" and e: "0 < e" and adv: "length adv = lg_n S"
  defines "A \<equiv> coords topk full (top_k_value top_k) [P, N, Z] y"
    and "B \<equiv> coords topk full (top_k_value top_k) [P, N, Z, S] y"
  shows "\<exists>F R. compute_fec_evidence_stats topk P N Z S y adv T c (Fin e) vocab_mode top_k = Inr F
    \<and> compute_reverse_kl_fec_evidence_stats topk P N Z S y adv T c (Fin e) vocab_mode top_k = Inr R
    \<and> (\<forall>t < lg_n S * lg_s S. let p = stu_prob T S t; f = tk_vals F ! t; r = tk_vals R ! t;
          ft = task_prob T P N t; fn = nuis_prob T P N Z t;
          rt = tangent (B t) p (task_log T P N t); rn = tangent (B t) p (nuis_log T P N Z t) in
        0 \<le> fs_fisher_cost f \<and> fs_fisher_cost f \<le> wcov (A t) p ft ft \<and> \<bar>fs_cosine f\<bar> \<le> 1
        \<and> \<bar>fs_residual_cov f\<bar> \<le> \<bar>wcov (A t) p ft fn\<bar>
        \<and> 0 \<le> fs_fisher_cost r \<and> fs_fisher_cost r \<le> wcov (B t) p rt rt \<and> \<bar>fs_cosine r\<bar> \<le> 1
        \<and> \<bar>fs_residual_cov r\<bar> \<le> \<bar>wcov (B t) p rt rn\<bar>)"
proof -
  have A: "A t \<subseteq> {..<length (lg_rows S ! t)}" and B: "B t \<subseteq> {..<length (lg_rows S ! t)}"
    if "t < lg_n S * lg_s S" for t
    unfolding A_def B_def by (rule coords_sub(1) [OF topk ten _ _ _ ids that]; auto)+
  have ne: "lg_rows S ! t \<noteq> []" if "t < lg_n S * lg_s S" for t
    by (rule tensors_ok_row(2) [OF ten _ _ that]) simp_all
  have bounds: "0 \<le> fs_fisher_cost (fec_ref X (stu_prob T S t) f g e k a)"
    "fs_fisher_cost (fec_ref X (stu_prob T S t) f g e k a) \<le> wcov X (stu_prob T S t) f f"
    "\<bar>fs_cosine (fec_ref X (stu_prob T S t) f g e k a)\<bar> \<le> 1"
    "\<bar>fs_residual_cov (fec_ref X (stu_prob T S t) f g e k a)\<bar> \<le> \<bar>wcov X (stu_prob T S t) f g\<bar>"
    if "t < lg_n S * lg_s S" "X \<subseteq> {..<length (lg_rows S ! t)}" for t X f g k a
    using subrow.fec_ref_bounds [of "(T, lg_rows S ! t, X)" e f g k a] ne [OF that(1)] that(2) e
    by (simp_all add: stu_prob_def [abs_def])
  show ?thesis
    by (rule exI, rule exI, rule conjI [OF compute_fec_evidence_stats_eq [OF topk ten ids mode T c e adv]],
      rule conjI [OF compute_reverse_kl_fec_evidence_stats_eq [OF topk ten ids mode T c e adv]])
      (simp add: Let_def A_def [symmetric] B_def [symmetric] bounds A B)
qed

theorem fec_stats_bounds_witness:
  "\<exists>F. compute_fec_evidence_stats topk_by_sort (one_pos [1, 0, 2]) (one_pos [0, 0, 1]) (one_pos [0, 3, 0])
     (one_pos [0, 0, 0]) (one_id 2) [1] 1 2 (Fin 1) ''topk_truncated'' (TkInt 1) = Inr F
   \<and> 0 \<le> fs_fisher_cost (tk_vals F ! 0) \<and> \<bar>fs_cosine (tk_vals F ! 0)\<bar> \<le> 1"
  using fec_stats_bounds [of topk_by_sort "one_pos [1, 0, 2]" "one_pos [0, 0, 1]" "one_pos [0, 3, 0]"
      "one_pos [0, 0, 0]" "one_id 2" "''topk_truncated''" "TkInt 1" False 1 2 1 "[1]"]
  by (auto simp: Let_def)

text \<open>The sampled-token tensor with the same ID everywhere.\<close>

definition all_ids :: "logits \<Rightarrow> nat \<Rightarrow> token_ids" where
  "all_ids L v = \<lparr>tk_n = lg_n L, tk_s = lg_s L, tk_vals = replicate (lg_n L * lg_s L) (int v), ids_long = True\<rparr>"

lemma all_ids_ok: "v < lg_v L \<Longrightarrow> ids_ok L (all_ids L v)"
  by (simp add: ids_ok_def all_ids_def wf_tok_def tok_shape_def token_shape_def list_all_iff)

text \<open>in full mode the alignment of the residual direction with the sampled token has mean
  zero under the Student: centring removes the common logit shift the Softmax is blind to, so a token
  drawn by the Student carries no benefit on average.\<close>

theorem fec_alignment_centred:
  assumes topk: "topk_select topk" and ten: "tensors_ok [P, N, Z, S]"
    and mode: "should_use_full_vocab_compat vocab_mode top_k (lg_v S) = Inr True"
    and T: "0 < T" and c: "0 < c" and e: "0 < e" and adv: "length adv = lg_n S" and t: "t < lg_n S * lg_s S"
  shows "\<exists>F R. (\<forall>v < lg_v S.
      compute_fec_evidence_stats topk P N Z S (all_ids S v) adv T c (Fin e) vocab_mode top_k = Inr (F v)
      \<and> compute_reverse_kl_fec_evidence_stats topk P N Z S (all_ids S v) adv T c (Fin e) vocab_mode top_k
        = Inr (R v))
    \<and> (\<Sum>v<lg_v S. stu_prob T S t v * fs_alignment (tk_vals (F v) ! t)) = 0
    \<and> (\<Sum>v<lg_v S. stu_prob T S t v * fs_alignment (tk_vals (R v) ! t)) = 0"
proof -
  let ?A = "{..<lg_v S}" and ?p = "stu_prob T S t"
  define F where "F v = tok_of S (\<lambda>t. fec_ref ?A (stu_prob T S t) (task_prob T P N t) (nuis_prob T P N Z t) e
      (token_at (all_ids S v) t) (row_at (lg_s S) adv t))" for v
  define R where "R v = tok_of S (\<lambda>t. fec_ref ?A (stu_prob T S t) (tangent ?A (stu_prob T S t) (task_log T P N t))
      (tangent ?A (stu_prob T S t) (nuis_log T P N Z t)) e (token_at (all_ids S v) t) (row_at (lg_s S) adv t))" for v
  have v: "lg_v P = lg_v S" using tensors_ok_shape [OF ten, of P S] by (simp add: lg_shape_eq_iff)
  have len: "length (lg_rows S ! t) = lg_v S" "lg_rows S ! t \<noteq> []"
    using tensors_ok_row [OF ten _ _ t, of S] by simp_all
  have id: "token_at (all_ids S v) t = v" for v using t by (simp add: token_at_def all_ids_def)
  have zero: "(\<Sum>v<lg_v S. ?p v * fs_alignment (fec_ref ?A ?p f g e v a)) = 0" for f g a
    using softmax.centred_mean_zero [of "(T, lg_rows S ! t)"] len
    by (simp add: fec_ref_def Let_def stu_prob_def [abs_def])
  have "\<forall>v < lg_v S. compute_fec_evidence_stats topk P N Z S (all_ids S v) adv T c (Fin e) vocab_mode top_k = Inr (F v)
      \<and> compute_reverse_kl_fec_evidence_stats topk P N Z S (all_ids S v) adv T c (Fin e) vocab_mode top_k
        = Inr (R v)"
    using compute_fec_evidence_stats_eq [OF topk ten all_ids_ok mode T c e adv]
      compute_reverse_kl_fec_evidence_stats_eq [OF topk ten all_ids_ok mode T c e adv]
    by (simp add: coords_def v F_def R_def)
  moreover have "(\<Sum>v<lg_v S. ?p v * fs_alignment (tk_vals (F v) ! t)) = 0"
    "(\<Sum>v<lg_v S. ?p v * fs_alignment (tk_vals (R v) ! t)) = 0"
    using t by (simp_all add: F_def R_def id zero)
  ultimately show ?thesis by blast
qed

theorem fec_alignment_centred_witness:
  "\<exists>F. (\<forall>v < 2. compute_fec_evidence_stats topk_by_sort (one_pos [1, 0]) (one_pos [0, 0]) (one_pos [0, 3])
      (one_pos [0, 5]) (all_ids (one_pos [0, 5]) v) [1] 1 1 (Fin 1) ''full'' (TkInt 1) = Inr (F v))
    \<and> (\<Sum>v<2. stu_prob 1 (one_pos [0, 5]) 0 v * fs_alignment (tk_vals (F v) ! 0)) = 0"
  using fec_alignment_centred [of topk_by_sort "one_pos [1, 0]" "one_pos [0, 0]" "one_pos [0, 3]"
      "one_pos [0, 5]" "''full''" "TkInt 1" 1 1 1 "[1]" 0] by (fastforce simp: numeral_2_eq_2)

section \<open>Normalisation, mixtures and supports\<close>

text \<open>\<open>_chunked_vocab_logsumexp\<close> is \<open>torch.logsumexp\<close> of the whole tempered row for every
  positive chunk size, and the probabilities it normalises sum to one; with a chunk size that is not
  positive it raises.\<close>

theorem chunked_logsumexp_exact:
  assumes "wf_logits L" "0 < lg_v L"
  shows "chunked_vocab_logsumexp L scale c
      = (if 0 < c then Inr (map (\<lambda>z. ln (\<Sum>v<lg_v L. exp (z ! v / scale))) (lg_rows L))
         else Inl (ValueError ''vocab_chunk_size must be positive''))
    \<and> (\<forall>z \<in> set (lg_rows L). (\<Sum>v<lg_v L. exp (z ! v / scale - log_norm scale z)) = 1)"
proof -
  have len: "length z = lg_v L" if "z \<in> set (lg_rows L)" for z
    using assms(1) that by (simp add: wf_logits_def)
  have "map (log_norm scale) (lg_rows L) = map (\<lambda>z. ln (\<Sum>v<lg_v L. exp (z ! v / scale))) (lg_rows L)"
    by (simp add: len log_norm_sum)
  then have "chunked_vocab_logsumexp L scale c
      = (if 0 < c then Inr (map (\<lambda>z. ln (\<Sum>v<lg_v L. exp (z ! v / scale))) (lg_rows L))
         else Inl (ValueError ''vocab_chunk_size must be positive''))"
    using chunked_vocab_logsumexp_eq [OF assms, of c scale] by (simp add: chunked_vocab_logsumexp_def)
  moreover have "(\<Sum>v<lg_v L. exp (z ! v / scale - log_norm scale z)) = 1" if "z \<in> set (lg_rows L)" for z
  proof -
    have "z \<noteq> []" using len [OF that] assms(2) by auto
    then show ?thesis using sum_exp_log_probs [of z scale] len [OF that] by (simp add: nth_log_probs)
  qed
  ultimately show ?thesis by blast
qed

theorem chunked_logsumexp_exact_witness:
  "chunked_vocab_logsumexp (one_pos [0, 0, 0]) 1 2 = Inr [ln 3]"
  using chunked_logsumexp_exact [of "one_pos [0, 0, 0]" 1 2] by (simp add: lessThan_Suc numeral_3_eq_3)

lemma sum_probs_teachers:
  fixes Ls :: "logits list"
  assumes "\<And>X. X \<in> set Ls \<Longrightarrow> lg_rows X ! t \<noteq> [] \<and> length (lg_rows X ! t) = n"
  shows "(\<Sum>u<n. \<Sum>L\<leftarrow>Ls. probs T (lg_rows L ! t) ! u) = real (length Ls)"
proof -
  have one: "(\<Sum>u<n. probs T (lg_rows X ! t) ! u) = 1" if "X \<in> set Ls" for X
    using probs_total_sum [of "lg_rows X ! t" T] assms [OF that] by simp
  have "(\<Sum>u<n. \<Sum>L\<leftarrow>Xs. f L u) = (\<Sum>L\<leftarrow>Xs. \<Sum>u<n. f L u)" for f :: "logits \<Rightarrow> nat \<Rightarrow> real" and Xs
    by (induction Xs) (simp_all add: sum.distrib)
  then have "(\<Sum>u<n. \<Sum>L\<leftarrow>Ls. probs T (lg_rows L ! t) ! u) = (\<Sum>L\<leftarrow>Ls. \<Sum>u<n. probs T (lg_rows L ! t) ! u)" .
  also have "\<dots> = (\<Sum>L\<leftarrow>Ls. 1)" using one by (intro arg_cong [where f = sum_list] map_cong) auto
  finally show ?thesis by (simp add: sum_list_triv)
qed

text \<open>\<open>marginalize_teacher_logits\<close> returns logits whose Softmax is the average of the Teachers'
  probabilities, not of their logits.\<close>

theorem marginalize_is_mixture:
  assumes ten: "tensors_ok Ls" and ne: "Ls \<noteq> []" and T: "0 < T"
  shows "\<exists>M. marginalize_teacher_logits Ls T = Inr M \<and> lg_shape M = lg_shape (hd Ls) \<and> wf_logits M
    \<and> (\<forall>t < lg_n M * lg_s M. \<forall>v < lg_v M.
        probs T (lg_rows M ! t) ! v = (\<Sum>L\<leftarrow>Ls. probs T (lg_rows L ! t) ! v) / real (length Ls))"
proof -
  let ?L = "hd Ls"
  have L: "?L \<in> set Ls" using ne by simp
  define M where "M = \<lparr>lg_n = lg_n ?L, lg_s = lg_s ?L, lg_v = lg_v ?L,
    lg_rows = map (\<lambda>t. marginalize_row T (map (\<lambda>M. lg_rows M ! t) Ls)) [0..<lg_n ?L * lg_s ?L]\<rparr>"
  have res: "marginalize_teacher_logits Ls T = Inr M"
    using ne T by (cases Ls) (simp_all add: marginalize_teacher_logits_def M_def)
  have row: "length (lg_rows X ! t) = lg_v ?L" "lg_rows X ! t \<noteq> []"
    if "t < lg_n ?L * lg_s ?L" "X \<in> set Ls" for t X
    using tensors_ok_row(1,2) [OF ten that(2) L that(1)] by simp_all
  have len: "length (marginalize_row T (map (\<lambda>M. lg_rows M ! t) Ls)) = lg_v ?L"
    if "t < lg_n ?L * lg_s ?L" for t
    using row(1) [OF that L] ne by (simp add: marginalize_row_def hd_map)
  have wf: "lg_shape M = lg_shape ?L" "wf_logits M"
    using len by (auto simp: M_def lg_shape_def wf_logits_def)
  have "probs T (lg_rows M ! t) ! v = (\<Sum>L\<leftarrow>Ls. probs T (lg_rows L ! t) ! v) / real (length Ls)"
    if t: "t < lg_n ?L * lg_s ?L" and v: "v < lg_v ?L" for t v
  proof -
    let ?zs = "map (\<lambda>M. lg_rows M ! t) Ls"
    let ?z = "marginalize_row T ?zs"
    have zs: "?zs \<noteq> []" "hd ?zs = lg_rows ?L ! t" "\<forall>z \<in> set ?zs. length z = length (hd ?zs)"
      using ne row(1) [OF t] L by (auto simp: hd_map)
    have ex: "exp (?z ! u / T) = (\<Sum>L\<leftarrow>Ls. probs T (lg_rows L ! t) ! u) / real (length Ls)" if "u < lg_v ?L" for u
      using marginalize_row_log [OF zs(1) _ _ zs(3), of T u] T that zs(2) row(1) [OF t L]
      by (simp add: o_def)
    have tot: "(\<Sum>u<lg_v ?L. \<Sum>L\<leftarrow>Ls. probs T (lg_rows L ! t) ! u) = real (length Ls)"
    proof (rule sum_probs_teachers)
      fix X assume "X \<in> set Ls"
      then show "lg_rows X ! t \<noteq> [] \<and> length (lg_rows X ! t) = lg_v ?L" using row [OF t] by blast
    qed
    have "(\<Sum>u<length ?z. exp (?z ! u / T)) = (\<Sum>u<lg_v ?L. (\<Sum>L\<leftarrow>Ls. probs T (lg_rows L ! t) ! u) / real (length Ls))"
      using len [OF t] ex by simp
    also have "\<dots> = 1" using tot ne by (simp add: sum_divide_distrib [symmetric])
    finally show ?thesis
      using ex [OF v] v len [OF t] t by (simp add: M_def nth_probs_quotient)
  qed
  then show ?thesis using res wf by (auto simp: lg_shape_eq_iff)
qed

theorem marginalize_is_mixture_witness:
  "\<exists>M. marginalize_teacher_logits [one_pos [0, 1], one_pos [2, 0]] 1 = Inr M
    \<and> probs 1 (lg_rows M ! 0) ! 1 = (probs 1 [0, 1] ! 1 + probs 1 [2, 0] ! 1) / 2"
proof -
  obtain M where M: "marginalize_teacher_logits [one_pos [0, 1], one_pos [2, 0]] 1 = Inr M"
    "lg_shape M = [1, 1, 2]" "\<forall>t < lg_n M * lg_s M. \<forall>v < lg_v M. probs 1 (lg_rows M ! t) ! v
      = (\<Sum>L\<leftarrow>[one_pos [0, 1], one_pos [2, 0]]. probs 1 (lg_rows L ! t) ! v) / 2"
    using marginalize_is_mixture [of "[one_pos [0, 1], one_pos [2, 0]]" 1] by auto
  then show ?thesis by (auto simp: lg_shape_def)
qed

text \<open>The Student's logits are a source of the support when they are given.\<close>

definition sources_of :: "logits option \<Rightarrow> logits list" where
  "sources_of student = (case student of None \<Rightarrow> [] | Some M \<Rightarrow> [M])"

text \<open>C22: \<open>build_truncated_topk_support\<close> returns, at every position, a fixed-width row of
  \<open>len(sources) * min(K, V) + 1\<close> columns, where the sources are the Teachers and, when they are
  given, the Student's logits. Its valid entries are distinct vocabulary IDs: exactly the Top-K
  coordinates of every source and the sampled token. Every coordinate left out is, for every source,
  no larger than any of its selected ones.\<close>

theorem support_spec:
  assumes topk: "topk_select topk" and ten: "tensors_ok (teachers @ sources_of student)" and ne: "teachers \<noteq> []"
    and ids: "ids_ok (hd teachers) y" and k: "validated_top_k top_k = Inr k"
  defines "L \<equiv> hd teachers" and "sources \<equiv> teachers @ sources_of student"
  shows "\<exists>U. build_truncated_topk_support topk teachers y top_k student = Inr U
    \<and> sp_shape U = [lg_n L, lg_s L, length sources * min k (lg_v L) + 1]
    \<and> (\<forall>t < lg_n L * lg_s L. let A = valid_ids (sp_ids U ! t) (sp_valid U ! t) in
        length (sp_ids U ! t) = sp_w U \<and> length (sp_valid U ! t) = sp_w U
        \<and> distinct A \<and> set A \<subseteq> {..<lg_v L}
        \<and> set A = insert (token_at y t) (\<Union>M \<in> set sources. set (topk (min k (lg_v L)) (lg_rows M ! t)))
        \<and> (\<forall>M \<in> set sources. \<forall>i \<in> set (topk (min k (lg_v L)) (lg_rows M ! t)). \<forall>j < lg_v L.
            j \<notin> set A \<longrightarrow> lg_rows M ! t ! j \<le> lg_rows M ! t ! i))"
proof -
  obtain Ls where tl: "teachers = L # Ls" using ne by (cases teachers) (simp_all add: L_def)
  have src: "sources = L # Ls @ (case student of None \<Rightarrow> [] | Some M \<Rightarrow> [M])"
    by (simp add: sources_def tl sources_of_def)
  note ten' = ten [folded sources_def]
  obtain U where U: "build_truncated_topk_support topk teachers y top_k student = Inr U"
    and wf: "wf_support (lg_v L) U" and sh: "sp_token_shape U = token_shape L"
    and set: "\<And>t. t < lg_n L * lg_s L \<Longrightarrow>
      set (valid_ids (sp_ids U ! t) (sp_valid U ! t)) = support_set topk k sources y t"
    using build_support_ok [OF topk ten' [unfolded src] ids [folded L_def] k] unfolding tl src by blast
  have w: "sp_w U = length sources * min k (lg_v L) + 1"
    using U by (auto simp: build_truncated_topk_support_def tl src k Let_def split: if_splits)
  have dims: "sp_n U = lg_n L" "sp_s U = lg_s L"
    using sh by (simp_all add: sp_token_shape_def token_shape_def)
  have row: "length (sp_ids U ! t) = sp_w U" "length (sp_valid U ! t) = sp_w U"
      "distinct (valid_ids (sp_ids U ! t) (sp_valid U ! t))"
      "set (valid_ids (sp_ids U ! t) (sp_valid U ! t)) \<subseteq> {..<lg_v L}"
    if "t < lg_n L * lg_s L" for t
    using wf that unfolding wf_support_def support_ok_def dims by metis+
  have mem: "L \<in> set sources" by (simp add: src)
  have v: "lg_v M = lg_v L" if "M \<in> set sources" for M
    using tensors_ok_shape [OF ten' that mem] by (simp add: lg_shape_eq_iff)
  have sup: "support_set topk k sources y t
      = insert (token_at y t) (\<Union>M \<in> set sources. set (topk (min k (lg_v L)) (lg_rows M ! t)))" for t
    by (auto simp: support_set_def token_at_def v)
  have out: "lg_rows M ! t ! j \<le> lg_rows M ! t ! i"
    if "t < lg_n L * lg_s L" "M \<in> set sources" "i \<in> set (topk (min k (lg_v L)) (lg_rows M ! t))" "j < lg_v L"
      "j \<notin> support_set topk k sources y t" for t M i j
  proof -
    have len: "length (lg_rows M ! t) = lg_v L" using tensors_ok_row(1) [OF ten' that(2) mem that(1)] .
    have "j \<notin> set (topk (min k (lg_v L)) (lg_rows M ! t))" using that(2,5) unfolding sup by blast
    then show ?thesis
      using topk_select.topk_largest [OF topk _ that(3)] that(4) len by simp
  qed
  show ?thesis unfolding Let_def
    by (rule exI [of _ U]) (use U row w dims out set in \<open>simp add: sp_shape_def sup\<close>)
qed

theorem support_spec_witness:
  "\<exists>U. build_truncated_topk_support topk_by_sort [one_pos [5, 1, 3]] (one_id 2) (TkInt 1) (Some (one_pos [0, 9, 0]))
      = Inr U \<and> sp_shape U = [1, 1, 3] \<and> {0, 1, 2} = set (valid_ids (sp_ids U ! 0) (sp_valid U ! 0))"
proof -
  have tops: "topk_by_sort (Suc 0) [5, 1, 3] = [0]" "topk_by_sort (Suc 0) [0, 9, 0] = [1]" "token_at (one_id 2) 0 = 2"
    by (simp_all add: topk_by_sort_def upt_rec insort_key_def token_at_def one_id_def)
  have "tensors_ok ([one_pos [5, 1, 3]] @ sources_of (Some (one_pos [0, 9, 0])))" by (simp add: sources_of_def)
  from support_spec [OF topk_sort_ok this, of "one_id 2" "TkInt 1" 1] show ?thesis
    by (auto simp: sources_of_def Let_def tops simp del: topk_sort_ok)
qed

lemma use_full_vocab_compat:
  assumes "should_use_full_vocab vocab_mode top_k v = Inr False"
  shows "should_use_full_vocab_compat vocab_mode top_k v = Inr False"
proof (cases "top_k = TkNone")
  case True
  then show ?thesis using assms
    by (auto simp: should_use_full_vocab_def validate_verpo_vocab_config_def split: if_splits sum.splits)
qed (use assms in \<open>simp add: should_use_full_vocab_compat_def\<close>)

lemma support_size_card:
  assumes "support_ok v (sp_ids U ! t) (sp_valid U ! t)"
    and "set (valid_ids (sp_ids U ! t) (sp_valid U ! t)) = A"
  shows "length (filter id (sp_valid U ! t)) = card A"
proof -
  have "length (valid_ids xs bs) = length (filter id bs)" if "length xs = length bs" for xs :: "nat list" and bs
    using that by (induction xs bs rule: list_induct2) (auto simp: valid_ids_Cons)
  then have "length (filter id (sp_valid U ! t)) = length (valid_ids (sp_ids U ! t) (sp_valid U ! t))"
    using assms(1) by (simp add: support_ok_def)
  also have "\<dots> = card A"
    using assms by (metis support_ok_def distinct_card)
  finally show ?thesis .
qed

lemma support_mass_bounds:
  assumes topk: "topk_select topk" and ten: "tensors_ok Ms" and ids: "ids_ok S y" and S: "S \<in> set Ms"
    and L: "set L \<subseteq> set Ms" and T: "0 < T" and t: "t < lg_n S * lg_s S" and M: "M \<in> set Ms"
  shows "0 < mass_on T (support_set topk k L y t) M t" "mass_on T (support_set topk k L y t) M t \<le> 1"
    "1 \<le> card (support_set topk k L y t)"
proof -
  let ?X = "support_set topk k L y t"
  have X: "?X \<subseteq> {..<lg_v S}" "finite ?X" "?X \<noteq> {}"
    using support_set_bounds [OF topk ten L S ids t, of k] by auto
  then show "1 \<le> card ?X" by (simp add: Suc_le_eq card_gt_0_iff)
  have "wf_logits M" "lg_v M = lg_v S" "lg_n M * lg_s M = lg_n S * lg_s S"
    using ten M tensors_ok_shape [OF ten M S] by (auto simp: tensors_ok_def list_all_iff lg_shape_eq_iff)
  then show "0 < mass_on T ?X M t" "mass_on T ?X M t \<le> 1"
    using mass_on_bounds [of ?X M t T] X t by simp_all
qed

text \<open>in truncated mode \<open>compute_verpo_topk_support_diagnostics\<close> reports the number of
  selected coordinates and the full-Softmax mass every role keeps on its support; every mass is
  positive and at most one, and the support holds at least the sampled token.\<close>

theorem diagnostics_mass:
  assumes topk: "topk_select topk" and ten: "tensors_ok [R, E, N, S]" and ids: "ids_ok S y"
    and mode: "should_use_full_vocab vocab_mode top_k (lg_v S) = Inr False" and T: "0 < T"
  defines "A \<equiv> support_set topk (top_k_value top_k) [E, N] y"
    and "Q \<equiv> support_set topk (top_k_value top_k) [R] y"
  shows "\<exists>D. compute_verpo_topk_support_diagnostics topk R E S y vocab_mode top_k T False (Some N) [] = Inr D
    \<and> sd_reference_mass D = tok_of S (\<lambda>t. mass_on T (Q t) R t)
    \<and> sd_evidence_mass D = tok_of S (\<lambda>t. mass_on T (A t) E t)
    \<and> sd_student_mass D = tok_of S (\<lambda>t. mass_on T (A t) S t)
    \<and> sd_negative_mass D = Some (tok_of S (\<lambda>t. mass_on T (A t) N t))
    \<and> (\<forall>t < lg_n S * lg_s S. tk_vals (sd_support_size D) ! t = real (card (A t)) \<and> 1 \<le> card (A t)
        \<and> (\<forall>M \<in> {E, S, N}. 0 < mass_on T (A t) M t \<and> mass_on T (A t) M t \<le> 1)
        \<and> 0 < mass_on T (Q t) R t \<and> mass_on T (Q t) R t \<le> 1)"
proof -
  let ?k = "top_k_value top_k"
  note full = use_full_vocab_compat [OF mode]
  note k = use_full_vocab_k(1) [OF full]
  obtain U where U: "build_truncated_topk_support topk [E, N] y top_k None = Inr U"
    "reads topk ?k T [R, E, N, S] S E [E, N] y U"
    using frame(1) [OF topk ten ids k T, of E "[N]"] by auto
  obtain V where V: "build_truncated_topk_support topk [R] y top_k None = Inr V"
    "reads topk ?k T [R, E, N, S] S R [R] y V"
    using frame(1) [OF topk ten ids k T, of R "[]"] by auto
  have dims: "lg_shape E = lg_shape R" "lg_shape S = lg_shape R" "lg_shape N = lg_shape R"
    by (rule tensors_ok_shape [OF ten]; simp)+
  then have vs: "lg_v R = lg_v S" "token_shape R = token_shape S" "lg_n E = lg_n S" "lg_s E = lg_s S"
    by (simp_all add: lg_shape_eq_iff token_shape_def)
  have y: "tok_shape y = token_shape S" using ids by (simp add: ids_ok_def)
  note DU = support_forD [OF readsD(3) [OF U(2)]]
  have size: "real (length (filter id (sp_valid U ! t))) = real (card (A t))" "t < length (sp_valid U)"
    if "t < lg_n S * lg_s S" for t
  proof -
    have t: "t < lg_n E * lg_s E" using that vs by simp
    show "real (length (filter id (sp_valid U ! t))) = real (card (A t))"
      using support_size_card [OF DU(4) [OF t], of "A t"] DU(10) [OF t] by (simp add: A_def)
    show "t < length (sp_valid U)"
      using U(1) that vs by (auto simp: build_truncated_topk_support_def k Let_def split: if_splits)
  qed
  have bnd: "0 < mass_on T (X t) M t" "mass_on T (X t) M t \<le> 1" "1 \<le> card (X t)"
    if "t < lg_n S * lg_s S" "M \<in> {R, E, N, S}" "X = A \<or> X = Q" for t M X
    using that(3) support_mass_bounds [OF topk ten ids _ _ T that(1), of "[E, N]" M ?k]
      support_mass_bounds [OF topk ten ids _ _ T that(1), of "[R]" M ?k] that(2)
    by (auto simp: A_def Q_def)
  have card: "Suc 0 \<le> card (A t)" if "t < lg_n S * lg_s S" for t
    using bnd(3) [of t S A] that by simp
  show ?thesis
    using mode
    by (simp add: compute_verpo_topk_support_diagnostics_def truncated_support_diagnostics_def dims vs y Let_def U(1) V(1)
        reads_mass [OF U(2)] reads_mass [OF V(2)] size bnd card A_def [symmetric] Q_def [symmetric])
qed

theorem diagnostics_mass_witness:
  "\<exists>D. compute_verpo_topk_support_diagnostics topk_by_sort (one_pos [1, 0]) (one_pos [0, 0]) (one_pos [0, 3])
     (one_id 1) ''topk_truncated'' (TkInt 1) 1 False (Some (one_pos [2, 0])) [] = Inr D
   \<and> 0 < tk_vals (sd_student_mass D) ! 0 \<and> tk_vals (sd_student_mass D) ! 0 \<le> 1"
  using diagnostics_mass [of topk_by_sort "one_pos [1, 0]" "one_pos [0, 0]" "one_pos [2, 0]" "one_pos [0, 3]"
      "one_id 1" "''topk_truncated''" "TkInt 1" 1]
  by (auto simp: should_use_full_vocab_def validate_verpo_vocab_config_def)

end
