(* ===== verification/LossProps.thy ===== *)
theory LossProps
  imports Fixtures
begin

text \<open>
  Properties of the losses: what every entry point computes in either vocabulary mode, the
  agreement of truncated with exact losses, the gradients on the Student logits, and the meaning
  of the Reverse-KL correction and of the returned distributions.
\<close>

section \<open>Functional behaviour\<close>

text \<open>C23: \<open>compute_contrastive_teacher_token_losses\<close> returns, at every position, the Forward KL
  from the reference Teacher to the Student and the correction
  \<open>-T w sum_v (q_+ - q_-)(v) log p(v)\<close>, each over the coordinates used (the whole vocabulary, or
  separate Top-K supports for the anchor and for the correction). It never raises under its
  calling contract.\<close>

theorem contrastive_losses_functional:
  assumes "topk_select topk" and "tensors_ok [R, P, N, S]" and "ids_ok S y"
    and "should_use_full_vocab_compat vocab_mode top_k (lg_v S) = Inr full"
    and "0 < T" and "0 < c" and "weights_ok S W"
  shows "compute_contrastive_teacher_token_losses topk S R P N W T c vocab_mode top_k (Some y) = Inr
    (tok_of S (\<lambda>t. kl_ref T (coords topk full (top_k_value top_k) [R] y t) (log_row T R t) (log_row T S t)),
     tok_of S (\<lambda>t. corr_ref T (tk_vals W ! t) (coords topk full (top_k_value top_k) [P, N] y t)
       (task_exp T P N t) (log_row T S t)))"
  by (rule compute_contrastive_teacher_token_losses_eq [OF assms])

theorem contrastive_losses_functional_witness:
  "compute_contrastive_teacher_token_losses topk_by_sort (one_pos [0, 0]) (one_pos [1, 0]) (one_pos [1, 0])
     (one_pos [0, 3]) (one_tok (1/2)) 1 2 ''full'' (TkInt 1) (Some (one_id 1))
   = Inr (one_tok (kl_ref 1 {..<2} (log_row 1 (one_pos [1, 0]) 0) (log_row 1 (one_pos [0, 0]) 0)),
       one_tok (corr_ref 1 (1/2) {..<2} (task_exp 1 (one_pos [1, 0]) (one_pos [0, 3]) 0)
         (log_row 1 (one_pos [0, 0]) 0)))"
  using contrastive_losses_functional [of topk_by_sort "one_pos [1, 0]" "one_pos [1, 0]" "one_pos [0, 3]"
      "one_pos [0, 0]" "one_id 1" "''full''" "TkInt 1" True 1 2 "one_tok (1/2)"]
  by (simp add: coords_def numeral_2_eq_2)

text \<open>the Fixed controller is the contrastive one with the evidence Teacher as positive and
  the base Teacher as negative: \<open>compute_fixed_teacher_token_losses\<close> without its diagnostic
  distribution returns exactly the losses of \<open>compute_contrastive_teacher_token_losses\<close>, in
  either vocabulary mode.\<close>

theorem fixed_is_contrastive:
  assumes topk: "topk_select topk" and ten: "tensors_ok [R, B, E, S]" and ids: "ids_ok S y"
    and mode: "should_use_full_vocab_compat vocab_mode top_k (lg_v S) = Inr full"
    and T: "0 < T" and c: "0 < c" and W: "weights_ok S W"
  shows "compute_fixed_teacher_token_losses topk S R B E W T c False vocab_mode top_k (Some y)
    = rbind (compute_contrastive_teacher_token_losses topk S R E B W T c vocab_mode top_k (Some y))
        (\<lambda>(reference_loss, correction). Inr (reference_loss, correction, None))"
proof -
  have ten': "tensors_ok [R, E, B, S]" by (rule tensors_ok_sub [OF ten]) auto
  have v: "lg_v E = lg_v B" using tensors_ok_shape [OF ten, of E B] by (simp add: lg_shape_eq_iff)
  have swap: "coords topk full k [B, E] y t = coords topk full k [E, B] y t" for k t
    using v by (auto simp: coords_def support_set_def)
  show ?thesis
    by (simp add: compute_fixed_teacher_token_losses_eq [OF topk ten ids mode T c W] swap
        compute_contrastive_teacher_token_losses_eq [OF topk ten' ids mode T c W])
qed

theorem fixed_is_contrastive_witness:
  "compute_fixed_teacher_token_losses topk_by_sort (one_pos [0, 0]) (one_pos [1, 0]) (one_pos [2, 0])
     (one_pos [0, 3]) (one_tok (1/2)) 1 2 False ''topk_truncated'' (TkInt 1) (Some (one_id 1))
   = rbind (compute_contrastive_teacher_token_losses topk_by_sort (one_pos [0, 0]) (one_pos [1, 0])
       (one_pos [0, 3]) (one_pos [2, 0]) (one_tok (1/2)) 1 2 ''topk_truncated'' (TkInt 1) (Some (one_id 1)))
       (\<lambda>(reference_loss, correction). Inr (reference_loss, correction, None))"
  by (rule fixed_is_contrastive [of topk_by_sort "one_pos [1, 0]" "one_pos [2, 0]" "one_pos [0, 3]"
      "one_pos [0, 0]" "one_id 1" "''topk_truncated''" "TkInt 1" False 1 2 "one_tok (1/2)"]) simp_all

text \<open>\<open>compute_fec_teacher_token_losses\<close> returns the correction along the FEC displacement
  \<open>(q_+ - q_-) - alpha ((q_+ + q_-)/2 - q_0)\<close> with the projection coefficient \<open>alpha\<close> and the
  weight of each position, over the coordinates used.\<close>

theorem fec_losses_functional:
  assumes "topk_select topk" and "tensors_ok [P, N, Z, S]" and "ids_ok S y"
    and "should_use_full_vocab_compat vocab_mode top_k (lg_v S) = Inr full"
    and "0 < T" and "0 < c" and "weights_ok S W" and "weights_ok S alpha"
  shows "compute_fec_teacher_token_losses topk S P N Z W alpha T c vocab_mode top_k (Some y) = Inr (tok_of S (\<lambda>t.
    corr_ref T (tk_vals W ! t) (coords topk full (top_k_value top_k) [P, N, Z] y t) (fec_exp T P N Z alpha t)
      (log_row T S t)))"
  by (rule compute_fec_teacher_token_losses_eq [OF assms])

theorem fec_losses_functional_witness:
  "compute_fec_teacher_token_losses topk_by_sort (one_pos [0, 0]) (one_pos [1, 0]) (one_pos [0, 3])
     (one_pos [2, 0]) (one_tok (1/2)) (one_tok 3) 1 2 ''full'' (TkInt 1) (Some (one_id 1))
   = Inr (one_tok (corr_ref 1 (1/2) {..<2}
       (fec_exp 1 (one_pos [1, 0]) (one_pos [0, 3]) (one_pos [2, 0]) (one_tok 3) 0)
       (log_row 1 (one_pos [0, 0]) 0)))"
  using fec_losses_functional [of topk_by_sort "one_pos [1, 0]" "one_pos [0, 3]" "one_pos [2, 0]"
      "one_pos [0, 0]" "one_id 1" "''full''" "TkInt 1" True 1 2 "one_tok (1/2)" "one_tok 3"]
  by (simp add: coords_def numeral_2_eq_2)

text \<open>C24: \<open>compute_reverse_kl_teacher_token_losses\<close> returns the Reverse KL from the Student to
  the reference Teacher, and the geometric correction
  \<open>T (p(A) (log Z_w - log Z_0) - w E_p[log q_e / q_0])\<close> over the coordinates used, where in
  truncated mode every support also holds the Student's Top-K; the Fixed and CTR wrappers return
  the same values for their roles.\<close>

theorem reverse_losses_functional:
  assumes topk: "topk_select topk" and ten: "tensors_ok [R, B, E, S]" and ids: "ids_ok S y"
    and mode: "should_use_full_vocab_compat vocab_mode top_k (lg_v S) = Inr full"
    and T: "0 < T" and c: "0 < c" and W: "weights_ok S W"
  defines "ref \<equiv> \<lambda>R. tok_of S (\<lambda>t. kl_ref T (coords topk full (top_k_value top_k) [R, S] y t)
      (log_row T S t) (log_row T R t))"
    and "cor \<equiv> tok_of S (\<lambda>t. geo_ref T (tk_vals W ! t) (coords topk full (top_k_value top_k) [B, E, S] y t)
      (log_row T S t) (log_row T B t) (task_log T E B t))"
  shows "compute_reverse_kl_teacher_token_losses topk S R B E W T c False vocab_mode top_k (Some y)
      = Inr (ref R, cor, None)
    \<and> compute_reverse_kl_fixed_teacher_token_losses topk S B E W T c False vocab_mode top_k (Some y)
      = Inr (ref B, cor, None)
    \<and> compute_reverse_kl_ctr_teacher_token_losses topk S R E B W T c False vocab_mode top_k (Some y)
      = Inr (ref R, cor, None)"
proof -
  have ten': "tensors_ok [B, B, E, S]" by (rule tensors_ok_sub [OF ten]) auto
  note eqs = compute_reverse_kl_teacher_token_losses_eq [OF topk ten ids mode T c W]
    compute_reverse_kl_teacher_token_losses_eq [OF topk ten' ids mode T c W]
  have fixed: "compute_reverse_kl_fixed_teacher_token_losses topk S B E W T c False vocab_mode top_k (Some y)
    = compute_reverse_kl_teacher_token_losses topk S B B E W T c False vocab_mode top_k (Some y)"
    by (simp add: compute_reverse_kl_fixed_teacher_token_losses_def compute_reverse_kl_teacher_token_losses_def
        truncated_reverse_fixed_losses_def mode)
  have ctr: "compute_reverse_kl_ctr_teacher_token_losses topk S R E B W T c False vocab_mode top_k (Some y)
    = compute_reverse_kl_teacher_token_losses topk S R B E W T c False vocab_mode top_k (Some y)"
    by (simp add: compute_reverse_kl_ctr_teacher_token_losses_def compute_reverse_kl_teacher_token_losses_def
        truncated_reverse_ctr_losses_def mode)
  show ?thesis by (simp add: fixed ctr eqs ref_def cor_def)
qed

theorem reverse_losses_functional_witness:
  "compute_reverse_kl_fixed_teacher_token_losses topk_by_sort (one_pos [0, 0]) (one_pos [1, 0]) (one_pos [0, 3])
     (one_tok (1/2)) 1 2 False ''full'' (TkInt 1) (Some (one_id 1))
   = Inr (one_tok (kl_ref 1 {..<2} (log_row 1 (one_pos [0, 0]) 0) (log_row 1 (one_pos [1, 0]) 0)),
       one_tok (geo_ref 1 (1/2) {..<2} (log_row 1 (one_pos [0, 0]) 0) (log_row 1 (one_pos [1, 0]) 0)
         (task_log 1 (one_pos [0, 3]) (one_pos [1, 0]) 0)), None)"
  using reverse_losses_functional [of topk_by_sort "one_pos [2, 0]" "one_pos [1, 0]" "one_pos [0, 3]"
      "one_pos [0, 0]" "one_id 1" "''full''" "TkInt 1" True 1 2 "one_tok (1/2)"]
  by (simp add: coords_def numeral_2_eq_2)

text \<open>\<open>compute_reverse_kl_fec_teacher_token_losses\<close> returns the geometric correction from
  the negative Teacher along the FEC log-ratio, over the coordinates used; its finiteness check
  never fires under the calling contract.\<close>

theorem reverse_fec_losses_functional:
  assumes "topk_select topk" and "tensors_ok [P, N, Z, S]" and "ids_ok S y"
    and "should_use_full_vocab_compat vocab_mode top_k (lg_v S) = Inr full"
    and "0 < T" and "0 < c" and "weights_ok S W" and "weights_ok S alpha"
  shows "compute_reverse_kl_fec_teacher_token_losses topk S P N Z W alpha T c vocab_mode top_k (Some y)
    = Inr (tok_of S (\<lambda>t. geo_ref T (tk_vals W ! t) (coords topk full (top_k_value top_k) [P, N, Z, S] y t)
        (log_row T S t) (log_row T N t) (fec_log T P N Z alpha t)))"
  by (rule compute_reverse_kl_fec_teacher_token_losses_eq [OF assms])

theorem reverse_fec_losses_functional_witness:
  "compute_reverse_kl_fec_teacher_token_losses topk_by_sort (one_pos [0, 0]) (one_pos [1, 0]) (one_pos [0, 3])
     (one_pos [2, 0]) (one_tok (1/2)) (one_tok 3) 1 2 ''full'' (TkInt 1) (Some (one_id 1))
   = Inr (one_tok (geo_ref 1 (1/2) {..<2} (log_row 1 (one_pos [0, 0]) 0) (log_row 1 (one_pos [0, 3]) 0)
       (fec_log 1 (one_pos [1, 0]) (one_pos [0, 3]) (one_pos [2, 0]) (one_tok 3) 0)))"
  using reverse_fec_losses_functional [of topk_by_sort "one_pos [1, 0]" "one_pos [0, 3]" "one_pos [2, 0]"
      "one_pos [0, 0]" "one_id 1" "''full''" "TkInt 1" True 1 2 "one_tok (1/2)" "one_tok 3"]
  by (simp add: coords_def numeral_2_eq_2)

text \<open>with \<open>K\<close> at least the vocabulary size every truncated loss is the exact loss: Forward
  and Reverse anchors and corrections, and both FEC corrections.\<close>

theorem truncated_losses_exact:
  assumes topk: "topk_select topk" and ten: "tensors_ok [P, N, Z, S]" and ids: "ids_ok S y"
    and k: "validated_top_k top_k = Inr k" "lg_v S \<le> k"
    and T: "0 < T" and c: "0 < c" and W: "weights_ok S W" and A: "weights_ok S alpha"
  shows "truncated_forward_ctr_losses topk S Z P N y W top_k T
      = compute_contrastive_teacher_token_losses topk S Z P N W T c ''full'' top_k (Some y)
    \<and> rbind (truncated_reverse_teacher_losses topk S Z N P y W top_k T)
        (\<lambda>(reference_loss, correction). Inr (reference_loss, correction, None))
      = compute_reverse_kl_teacher_token_losses topk S Z N P W T c False ''full'' top_k (Some y)
    \<and> truncated_forward_fec_loss topk S P N Z y W alpha top_k T
      = compute_fec_teacher_token_losses topk S P N Z W alpha T c ''full'' top_k (Some y)
    \<and> truncated_reverse_fec_loss topk S P N Z y W alpha top_k T
      = compute_reverse_kl_fec_teacher_token_losses topk S P N Z W alpha T c ''full'' top_k (Some y)"
proof -
  have "top_k \<noteq> TkNone" using k(1) by auto
  moreover have "0 < lg_v S" using ten by (simp add: tensors_ok_iff)
  ultimately have mode: "should_use_full_vocab_compat ''full'' top_k (lg_v S) = Inr True"
    using k(1) by (simp add: should_use_full_vocab_compat_def should_use_full_vocab_def
        validate_verpo_vocab_config_def)
  have tens: "tensors_ok [Z, P, N, S]" "tensors_ok [Z, N, P, S]"
    by (rule tensors_ok_sub [OF ten]; auto)+
  have v: "lg_v P = lg_v S" "lg_v N = lg_v S" "lg_v Z = lg_v S"
    using tensors_ok_shape [OF ten, of P S] tensors_ok_shape [OF ten, of N S] tensors_ok_shape [OF ten, of Z S]
    by (simp_all add: lg_shape_eq_iff)
  have A': "support_set topk k Ms y t = {..<lg_v S}"
    if "t < lg_n S * lg_s S" "set Ms \<subseteq> {P, N, Z, S}" "Ms \<noteq> []" for t Ms
    using support_set_all [OF topk ten, of "hd Ms"] that ids k(2) by (cases Ms) auto
  show ?thesis
    unfolding truncated_forward_ctr_losses_eq [OF topk tens(1) ids k(1) T W]
      truncated_reverse_teacher_losses_eq [OF topk tens(2) ids k(1) T W]
      truncated_forward_fec_loss_eq [OF topk ten ids k(1) T W A]
      truncated_reverse_fec_loss_eq [OF topk ten ids k(1) T W A]
      compute_contrastive_teacher_token_losses_eq [OF topk tens(1) ids mode T c W]
      compute_reverse_kl_teacher_token_losses_eq [OF topk tens(2) ids mode T c W]
      compute_fec_teacher_token_losses_eq [OF topk ten ids mode T c W A]
      compute_reverse_kl_fec_teacher_token_losses_eq [OF topk ten ids mode T c W A]
    by (auto simp: A' coords_def v intro!: tok_of_eqI)
qed

theorem truncated_losses_exact_witness:
  "truncated_forward_ctr_losses topk_by_sort (one_pos [0, 0]) (one_pos [2, 0]) (one_pos [1, 0]) (one_pos [0, 3])
     (one_id 1) (one_tok (1/2)) (TkInt 5) 1
   = compute_contrastive_teacher_token_losses topk_by_sort (one_pos [0, 0]) (one_pos [2, 0]) (one_pos [1, 0])
     (one_pos [0, 3]) (one_tok (1/2)) 1 1 ''full'' (TkInt 5) (Some (one_id 1))"
  using truncated_losses_exact [of topk_by_sort "one_pos [1, 0]" "one_pos [0, 3]" "one_pos [2, 0]"
      "one_pos [0, 0]" "one_id 1" "TkInt 5" 5 1 1 "one_tok (1/2)" "one_tok 3"] by simp

section \<open>Anchors and gradients\<close>

text \<open>on the whole vocabulary both anchors are KL divergences: nonnegative, and zero when
  the Student row is the reference row.\<close>

theorem anchor_nonneg:
  assumes c: "0 < c" and T: "0 < T" and S: "S \<noteq> []" and len: "length R = length S"
  shows "0 \<le> reference_kl_at (length S) c T R S \<and> 0 \<le> reverse_reference_at (length S) c T R S
    \<and> reference_kl_at (length S) c T S S = 0 \<and> reverse_reference_at (length S) c T S S = 0"
proof -
  have R: "R \<noteq> []" using S len by auto
  note one = sum_exp_log_probs [OF S, of T] sum_exp_log_probs [OF R, of T, unfolded len]
  show ?thesis
    using kl_ref_nonneg [of T "\<lambda>k. log_probs T R ! k" "{..<length S}" "\<lambda>k. log_probs T S ! k"]
      kl_ref_nonneg [of T "\<lambda>k. log_probs T S ! k" "{..<length S}" "\<lambda>k. log_probs T R ! k"] one c T len
    by (simp add: reference_kl_at_ref reverse_reference_at_ref)
qed

theorem anchor_nonneg_witness:
  "0 \<le> reference_kl_at 2 1 1 [1, 0] [0, 3] \<and> reverse_reference_at 2 1 1 [0, 3] [0, 3] = 0"
  using anchor_nonneg [of 1 1 "[0, 3]" "[1, 0]"] by (simp add: numeral_2_eq_2)

text \<open>C25: the gradients of the exact Forward-KL losses, over the full vocabulary, at one position, on the
  Student logits, as autograd takes them (Teachers, weights and projection coefficients constant):
  the anchor pulls \<open>p\<close> to the reference, and the Fixed or CTR and the FEC correction move the
  logits along the weighted displacement, independently of \<open>p\<close> and with no factor of the temperature. Losses
  restricted to a Top-K support are not covered: their direction is an approximation of this one.\<close>

theorem forward_gradients:
  fixes T :: real
  assumes c: "0 < c" and T: "T \<noteq> 0" and v: "v < length z"
    and len: "length R = length z" "length P = length z" "length N = length z" "length Z = length z"
  defines "q \<equiv> \<lambda>X. probs T X ! v"
  shows "((\<lambda>x. reference_kl_at (length z) c T R (z[v := x])) has_real_derivative q z - q R) (at (z ! v))
    \<and> ((\<lambda>x. displacement_loss_at (length z) c T w P N (z[v := x])) has_real_derivative
        - (w * (q P - q N))) (at (z ! v))
    \<and> ((\<lambda>x. fec_loss_at (length z) c T w a (P, log_norm T P) (N, log_norm T N) (Z, log_norm T Z)
          (z[v := x], log_norm T (z[v := x]))) has_real_derivative
        - (w * (q P - q N - a * ((q P + q N) / 2 - q Z)))) (at (z ! v))"
proof -
  have one: "(\<Sum>k<length z. exp (log_probs T X ! k)) = 1" if "length X = length z" for X
    using sum_exp_log_probs [of X T] that v by (cases "X = []") auto
  have q: "exp (log_probs T X ! v) = q X" if "length X = length z" for X
    using that v by (simp add: q_def nth_probs)
  have len': "length (z[v := x]) = length z" for x by simp
  have zero: "(\<Sum>k<length z. exp (log_probs T P ! k) - exp (log_probs T N ! k)) = 0"
    using one len by (simp add: sum_subtractf)
  have half: "(\<Sum>k<length z. 1/2 * (exp (log_probs T P ! k) + exp (log_probs T N ! k)) - exp (log_probs T Z ! k)) = 0"
    using one len by (simp add: sum_subtractf sum.distrib flip: sum_distrib_left sum_divide_distrib)
  have resid: "(\<Sum>k<length z. exp (log_probs T P ! k) - exp (log_probs T N ! k)
      - a * (1/2 * (exp (log_probs T P ! k) + exp (log_probs T N ! k)) - exp (log_probs T Z ! k))) = 0"
    by (subst sum_subtractf) (simp only: zero sum_distrib_left [symmetric] half mult_zero_right diff_zero)
  have "((\<lambda>x. reference_kl_at (length z) c T R (z[v := x])) has_real_derivative q z - q R) (at (z ! v))"
    using kl_ref_deriv [OF v T one [OF len(1)]] reference_kl_at_ref [OF c, of R "z[v := x]" T for x] len(1)
    by (simp add: q [OF len(1)] q_def)
  moreover have "((\<lambda>x. displacement_loss_at (length z) c T w P N (z[v := x])) has_real_derivative
      - (w * (q P - q N))) (at (z ! v))"
    using corr_ref_deriv [OF v T zero, of w] displacement_loss_at_ref [OF c, of P "z[v := x]" N T w for x] len
    by (simp add: q)
  moreover have "((\<lambda>x. fec_loss_at (length z) c T w a (P, log_norm T P) (N, log_norm T N) (Z, log_norm T Z)
        (z[v := x], log_norm T (z[v := x]))) has_real_derivative
      - (w * (q P - q N - a * ((q P + q N) / 2 - q Z)))) (at (z ! v))"
    using corr_ref_deriv [OF v T resid, of w] fec_loss_at_ref [OF c, of P "z[v := x]" N Z T w a for x] len
    by (simp add: q)
  ultimately show ?thesis by blast
qed

theorem forward_gradients_witness:
  "((\<lambda>x. displacement_loss_at 2 1 1 (1/2) [1, 0] [0, 3] [0, x]) has_real_derivative
     - (1/2 * (probs 1 [1, 0] ! 1 - probs 1 [0, 3] ! 1))) (at 2)"
  using forward_gradients [of 1 1 1 "[0, 2]" "[1, 0]" "[1, 0]" "[0, 3]" "[1, 1]" "1/2" 0] by (simp add: numeral_2_eq_2)

text \<open>C26: the gradient of the exact Reverse-KL corrections, over the full vocabulary, at one position, on
  the Student logits is minus the weighted tangent \<open>F(p) r\<close> of the log-density direction \<open>r\<close>
  they interpolate along: the Fixed and CTR direction \<open>log q_e / q_0\<close>, or the FEC log-ratio.
  Corrections restricted to a Top-K support are not covered.\<close>

theorem reverse_gradients:
  fixes T :: real
  assumes c: "0 < c" and T: "T \<noteq> 0" and v: "v < length z"
    and len: "length B = length z" "length E = length z" "length Z = length z"
  defines "l \<equiv> \<lambda>X k. log_probs T X ! k"
  shows "((\<lambda>x. the (reverse_correction_at (length z) c T w B E (z[v := x]))) has_real_derivative
      - (w * tangent {..<length z} (\<lambda>k. probs T z ! k) (\<lambda>k. l E k - l B k) v)) (at (z ! v))
    \<and> ((\<lambda>x. the (reverse_fec_correction_at (length z) c T w a E B Z (z[v := x]))) has_real_derivative
      - (w * tangent {..<length z} (\<lambda>k. probs T z ! k)
          (\<lambda>k. l E k - l B k - a * (1/2 * (l E k + l B k) - l Z k)) v)) (at (z ! v))"
proof -
  have B: "B \<noteq> []" using v len by auto
  have one: "(\<Sum>k<length z. exp (log_probs T B ! k)) = 1" using sum_exp_log_probs [OF B, of T] len by simp
  have ne: "z[v := x] \<noteq> []" for x using v by auto
  show ?thesis
    using geo_ref_deriv [OF v T one] reverse_correction_at_ref [OF c ne, of B _ E T w]
      reverse_fec_correction_at_ref [OF c ne, of E _ B Z T w a] len
    by (simp add: l_def)
qed

theorem reverse_gradients_witness:
  "((\<lambda>x. the (reverse_correction_at 2 1 1 (1/2) [0, 3] [1, 0] [0, x])) has_real_derivative
     - (1/2 * tangent {..<2} (\<lambda>k. probs 1 [0, 2] ! k) (\<lambda>k. log_probs 1 [1, 0] ! k - log_probs 1 [0, 3] ! k) 1))
     (at 2)"
  using reverse_gradients [of 1 1 1 "[0, 2]" "[0, 3]" "[1, 0]" "[1, 1]" "1/2" 0] by (simp add: numeral_2_eq_2)

section \<open>The geometric Teacher path\<close>

text \<open>the Reverse-KL correction is the change of the Student's Reverse KL when the Teacher
  moves from \<open>q_0\<close> along the normalised geometric path \<open>q_w \<propto> q_0 (q_e/q_0)^w\<close>: zero at
  weight 0, and \<open>T KL(p || q_e) - T KL(p || q_0)\<close> at weight 1.\<close>

theorem reverse_correction_is_kl_change:
  fixes T :: real
  assumes c: "0 < c" and S: "S \<noteq> []" and len: "length B = length S" "length E = length S"
  defines "A \<equiv> {..<length S}" and "l \<equiv> \<lambda>X k. log_probs T X ! k"
  shows "reverse_correction_at (length S) c T w B E S
      = Some (kl_ref T A (l S) (geo_path w A (l B) (\<lambda>k. l E k - l B k)) - kl_ref T A (l S) (l B))
    \<and> reverse_correction_at (length S) c T 0 B E S = Some 0
    \<and> reverse_correction_at (length S) c T 1 B E S
      = Some (reverse_reference_at (length S) c T E S - reverse_reference_at (length S) c T B S)"
proof -
  have ne: "B \<noteq> []" "E \<noteq> []" using S len by auto
  note one = sum_exp_log_probs [OF S, of T] sum_exp_log_probs [OF ne(1), of T, unfolded len]
    sum_exp_log_probs [OF ne(2), of T, unfolded len]
  have path: "geo_path 0 A (l B) r k = l B k" "geo_path 1 A (l B) (\<lambda>k. l E k - l B k) k = l E k" for r k
    using one by (simp_all add: geo_path_def A_def l_def)
  have eq: "reverse_correction_at (length S) c T w B E S
      = Some (kl_ref T A (l S) (geo_path w A (l B) (\<lambda>k. l E k - l B k)) - kl_ref T A (l S) (l B))" for w
    using reverse_correction_at_ref [OF c S len, of T w]
      geo_ref_difference [OF one(1,2), of T w "\<lambda>k. l E k - l B k"] by (simp add: A_def l_def)
  have "kl_ref T A (l S) (geo_path 0 A (l B) r) = kl_ref T A (l S) (l B)"
    "kl_ref T A (l S) (geo_path 1 A (l B) (\<lambda>k. l E k - l B k)) = kl_ref T A (l S) (l E)" for r
    by (simp_all add: kl_ref_def path)
  then show ?thesis
    using eq c len by (simp add: reverse_reference_at_ref A_def l_def)
qed

theorem reverse_correction_is_kl_change_witness:
  "reverse_correction_at 2 1 1 1 [0, 3] [1, 0] [0, 2]
    = Some (reverse_reference_at 2 1 1 [1, 0] [0, 2] - reverse_reference_at 2 1 1 [0, 3] [0, 2])"
  using reverse_correction_is_kl_change [of 1 "[0, 2]" "[0, 3]" "[1, 0]" 1 1, THEN conjunct2, THEN conjunct2]
  by (simp add: numeral_2_eq_2)

text \<open>the diagnostic distributions returned with \<open>return_interpolated_probs\<close> are probability
  rows: the arithmetic mixture \<open>(1-w) q_0 + w q_e\<close> for a weight in [0, 1], and the normalised
  geometric mixture for any weight.\<close>

theorem interpolated_is_distribution:
  fixes T :: real
  assumes c: "0 < c" and B: "B \<noteq> []" and len: "length E = length B"
  defines "mix \<equiv> \<lambda>w. interpolated_at (length B) c T w B E"
    and "geo \<equiv> \<lambda>w. geometric_probs_at (length B) c T w (the (geometric_log_norm_at (length B) c T w B E)) B E"
  shows "vsum (mix w) = 1 \<and> (\<forall>k<length B. mix w ! k = (1 - w) * probs T B ! k + w * probs T E ! k)
    \<and> (0 \<le> w \<longrightarrow> w \<le> 1 \<longrightarrow> (\<forall>k<length B. 0 < mix w ! k))
    \<and> vsum (geo w) = 1 \<and> (\<forall>k<length B. 0 < geo w ! k
        \<and> geo w ! k = exp (geo_path w {..<length B} (\<lambda>k. log_probs T B ! k)
            (\<lambda>k. log_probs T E ! k - log_probs T B ! k) k))"
proof -
  have E: "E \<noteq> []" using B len by auto
  note one = sum_exp_log_probs [OF B, of T] sum_exp_log_probs [OF E, of T, unfolded len]
  have mix: "mix w = vadd (vscale (1 - w) (probs T B)) (vscale w (probs T E))"
    using c len by (simp add: mix_def interpolated_at_def Let_def log_probs_chunk_slice vec_slice chunk_cat_slice)
  have mixk: "mix w ! k = (1 - w) * probs T B ! k + w * probs T E ! k" if "k < length B" for k
    using that len by (simp add: mix)
  have mix_len: "length (mix w) = length B" using len by (simp add: mix)
  have pos: "0 < mix w ! k" if "k < length B" "0 \<le> w" "w \<le> 1" for k
  proof (cases "w = 0")
    case False
    then show ?thesis
      using that len probs_pos [of k B T] probs_pos [of k E T] mixk [OF that(1)]
      by (simp add: add_nonneg_pos)
  qed (use that probs_pos [of k B T] mixk [OF that(1)] in simp)
  have geok: "geo w ! k = exp (geo_path w {..<length B} (\<lambda>k. log_probs T B ! k)
      (\<lambda>k. log_probs T E ! k - log_probs T B ! k) k)" if "k < length B" for k
    using c len that geometric_log_norm_at_eq [OF c B len, of T w]
    by (simp add: geo_def geometric_probs_at_def Let_def log_probs_chunk_slice vec_slice chunk_cat_slice geo_path_def)
  have geo_len: "length (geo w) = length B"
    using c len by (simp add: geo_def geometric_probs_at_def Let_def log_probs_chunk_slice vec_slice chunk_cat_slice)
  have "vsum (mix w) = 1"
    using probs_total_sum [OF B, of T] probs_total_sum [OF E, of T] len
    by (simp add: vsum_nth mix_len mixk sum.distrib flip: sum_distrib_left)
  moreover have "vsum (geo w) = 1"
    using geo_path_total [of "{..<length B}"] B by (simp add: vsum_nth geo_len geok lessThan_empty_iff)
  ultimately show ?thesis using mixk pos geok by simp
qed

theorem interpolated_is_distribution_witness:
  "vsum (interpolated_at 2 1 1 (1/4) [0, 3] [1, 0]) = 1"
  using interpolated_is_distribution [of 1 "[0, 3]" "[1, 0]" 1 "1/4"] by (simp add: numeral_2_eq_2)

end
