(* ===== verification/ControlProps.thy ===== *)
theory ControlProps
  imports Fixtures
begin

text \<open>
  Properties of the controller around the losses: token weights, group gates and the length-aware
  outcome reward.
\<close>

section \<open>Token weights\<close>

text \<open>under its calling contract \<open>compute_verpo_token_weights\<close> in paper mode never raises: it
  returns \<open>h/(h + alpha c + eps)\<close> with \<open>h = max(0, benefit)\<close> on the open rows of the mask and
  zero elsewhere, and every weight lies in [0, 1), positive exactly at an open position with
  positive benefit.\<close>

theorem token_weights_functional:
  assumes "weight_inputs_ok benefit cost gate tmask C alpha eps"
  shows "\<exists>W. compute_verpo_token_weights benefit cost gate tmask C ''paper'' False = Inr W
    \<and> tok_shape W = tok_shape benefit \<and> length (tk_vals W) = length (tk_vals benefit)
    \<and> (\<forall>t < length (tk_vals benefit).
        let open = (row_at (tk_s benefit) gate t \<and> tk_vals tmask ! t); h = max 0 (tk_vals benefit ! t)
        in tk_vals W ! t = (if open then h / (h + (alpha * tk_vals cost ! t + eps)) else 0)
          \<and> 0 \<le> tk_vals W ! t \<and> tk_vals W ! t < 1 \<and> (0 < tk_vals W ! t \<longleftrightarrow> open \<and> 0 < tk_vals benefit ! t))"
proof -
  note W = assms [unfolded weight_inputs_ok_def]
  have "0 \<le> alpha * tk_vals cost ! t" if "t < length (tk_vals benefit)" for t
    using W that by (auto simp: list_all_iff wf_tok_def tok_shape_def)
  then have c: "0 < alpha * tk_vals cost ! t + eps" if "t < length (tk_vals benefit)" for t
    using W that by (metis add_nonneg_pos)
  have "0 \<le> h / (h + c)" "h / (h + c) < 1" "0 < h / (h + c) \<longleftrightarrow> 0 < h" if "0 \<le> h" "0 < c" for h c :: real
    using that by (auto simp: divide_less_eq zero_less_divide_iff)
  note ratio = this [OF _ c]
  show ?thesis
    unfolding compute_verpo_token_weights_eq [OF assms]
    using ratio [where h = "max 0 x" for x]
    by (auto simp: weight_ref_def Let_def tok_shape_def)
qed

theorem token_weights_functional_witness:
  "\<exists>W. compute_verpo_token_weights (one_tok 3) (one_tok 2) [True] (one_tok True)
     \<lparr>cp_cost_alpha = Some (Fin (1/2)), cp_cost_epsilon = Some (Fin 1), cp_tau = None, cp_rho = None,
       cp_cost_floor = None, cp_cost_beta = None\<rparr> ''paper'' False = Inr W \<and> tk_vals W ! 0 = 3/5"
  using token_weights_functional [of "one_tok 3" "one_tok 2" "[True]" "one_tok True"
      "\<lparr>cp_cost_alpha = Some (Fin (1/2)), cp_cost_epsilon = Some (Fin 1), cp_tau = None, cp_rho = None,
       cp_cost_floor = None, cp_cost_beta = None\<rparr>" "1/2" 1]
  by (auto simp: weight_inputs_ok_def resolve_cost_def row_at_def)

text \<open>the token weight grows with the benefit and falls with the Fisher cost, at every
  position, for the same gate, mask and cost parameters.\<close>

theorem token_weights_monotone:
  assumes ok: "weight_inputs_ok b1 c1 gate tmask C alpha eps" "weight_inputs_ok b2 c2 gate tmask C alpha eps"
    and le: "list_all2 (\<le>) (tk_vals b1) (tk_vals b2)" "list_all2 (\<le>) (tk_vals c2) (tk_vals c1)"
  shows "\<exists>W1 W2. compute_verpo_token_weights b1 c1 gate tmask C ''paper'' False = Inr W1
    \<and> compute_verpo_token_weights b2 c2 gate tmask C ''paper'' False = Inr W2
    \<and> list_all2 (\<le>) (tk_vals W1) (tk_vals W2)"
proof -
  note A = ok(1) [unfolded weight_inputs_ok_def]
  note B = ok(2) [unfolded weight_inputs_ok_def]
  have len: "length (tk_vals c1) = length (tk_vals b1)" "length (tk_vals b2) = length (tk_vals b1)"
    "length (tk_vals c2) = length (tk_vals b1)" "tk_s b2 = tk_s b1"
    using A B le by (auto simp: wf_tok_def tok_shape_def list_all2_lengthD)
  have "weight_ref b1 c1 gate tmask alpha eps t \<le> weight_ref b2 c2 gate tmask alpha eps t"
    if t: "t < length (tk_vals b1)" for t
  proof -
    have c: "0 \<le> tk_vals c1 ! t" "0 \<le> tk_vals c2 ! t" "tk_vals c2 ! t \<le> tk_vals c1 ! t"
        "tk_vals b1 ! t \<le> tk_vals b2 ! t"
      using A B le t len by (auto simp: list_all_iff list_all2_conv_all_nth)
    have "max 0 (tk_vals b1 ! t) / (max 0 (tk_vals b1 ! t) + (alpha * tk_vals c1 ! t + eps))
        \<le> max 0 (tk_vals b2 ! t) / (max 0 (tk_vals b2 ! t) + (alpha * tk_vals c2 ! t + eps))"
      using A c by (intro weight_ratio_mono) (auto simp: mult_left_mono add_nonneg_pos)
    then show ?thesis by (simp add: weight_ref_def Let_def len)
  qed
  then show ?thesis
    unfolding compute_verpo_token_weights_eq [OF ok(1)] compute_verpo_token_weights_eq [OF ok(2)]
    by (simp add: list_all2_conv_all_nth len)
qed

theorem token_weights_monotone_witness:
  "\<exists>W1 W2. compute_verpo_token_weights (one_tok 1) (one_tok 2) [True] (one_tok True)
     \<lparr>cp_cost_alpha = Some (Fin 1), cp_cost_epsilon = Some (Fin 1), cp_tau = None, cp_rho = None,
       cp_cost_floor = None, cp_cost_beta = None\<rparr> ''paper'' False = Inr W1
   \<and> compute_verpo_token_weights (one_tok 3) (one_tok 0) [True] (one_tok True)
     \<lparr>cp_cost_alpha = Some (Fin 1), cp_cost_epsilon = Some (Fin 1), cp_tau = None, cp_rho = None,
       cp_cost_floor = None, cp_cost_beta = None\<rparr> ''paper'' False = Inr W2
   \<and> list_all2 (\<le>) (tk_vals W1) (tk_vals W2)"
  by (rule token_weights_monotone [of _ _ _ _ _ 1 1]) (simp_all add: weight_inputs_ok_def resolve_cost_def)

section \<open>Group gates\<close>

text \<open>The rewards of the group of row \<open>i\<close> when groups are runs of \<open>n\<close> rollouts.\<close>

definition group_rewards :: "real list \<Rightarrow> nat \<Rightarrow> nat \<Rightarrow> real list" where
  "group_rewards rewards n i = map (\<lambda>j. rewards ! j) (filter (\<lambda>j. j div n = i div n) [0..<length rewards])"

lemma rows_of_quotients:
  "rows_of (map (\<lambda>i. i div n) [0..<m]) k = filter (\<lambda>j. j div n = k) [0..<m]"
  by (auto simp: rows_of_def intro!: filter_cong)

lemma compute_group_zpd_gate_eq:
  fixes p :: real
  assumes "mode = ''reward_ranked'' \<or> mode = ''binary_mixed''" "1 < n" "rewards \<noteq> []" "0 \<le> eps"
  defines "rs \<equiv> (if mode = ''binary_mixed'' then map (\<lambda>r. of_bool (p - 1 / 10 ^ 6 \<le> r)) rewards else rewards)"
  shows "compute_group_zpd_gate rewards n mode p (Fin eps)
    = Inr (map (\<lambda>i. rs_zpd_gate (group_state (group_rewards rs (nat n) i) eps)) [0..<length rewards])"
proof -
  have len: "length rs = length rewards" by (simp add: rs_def)
  have "classify_groups rs (map (\<lambda>i. i div nat n) [0..<length rs]) eps
      = map (\<lambda>i. group_state (group_rewards rs (nat n) i) eps) [0..<length rs]"
    by (rule nth_equalityI) (simp_all add: classify_groups_nth rows_of_quotients group_rewards_def)
  then have "classify_reward_ranked_groups rs None (Some n) eps
      = Inr (map (\<lambda>i. group_state (group_rewards rs (nat n) i) eps) [0..<length rewards])"
    using assms(2,4) len by (simp add: classify_reward_ranked_groups_def)
  moreover have "compute_group_zpd_gate rewards n mode p (Fin eps)
      = rbind (classify_reward_ranked_groups rs None (Some n) eps) (\<lambda>states. Inr (map rs_zpd_gate states))"
    using assms(1-4) by (auto simp: compute_group_zpd_gate_def rs_def)
  ultimately show ?thesis by (simp add: o_def)
qed

lemma zpd_gate_iff:
  "rs_zpd_gate (group_state g eps) \<longleftrightarrow> eps < (if 1 < length g then variance_of g else 0)
    \<and> (\<forall>c \<in> {1, 0, -1}. \<not> all_close g c)"
  by (auto simp: group_state_def Let_def not_le)

lemma not_all_close: "\<not> all_close g c \<longleftrightarrow> (\<exists>r \<in> set g. 1 / 10 ^ 6 < \<bar>r - c\<bar>)"
  by (simp only: all_close_def list_all_iff not_le ball_simps)

lemma variance_short: "\<not> 1 < length g \<Longrightarrow> variance_of g = 0"
  by (cases g) (simp_all add: variance_of_def mean_of_def)

lemma if_variance: "(if 1 < length g then variance_of g else 0) = variance_of g"
  using variance_short [of g] by simp

lemma group_rewards_self: "i < length rewards \<Longrightarrow> rewards ! i \<in> set (group_rewards rewards n i)"
  by (force simp: group_rewards_def)

text \<open>C30: in reward-ranked mode the gate of a row is open exactly when the rewards of its prompt
  group are not all (within 1e-6) equal to 1, to 0 or to -1 and their variance exceeds
  \<open>epsilon\<close>; all rows of a group share their gate.\<close>

theorem reward_ranked_gate:
  assumes "1 < n" and "rewards \<noteq> []" and "0 \<le> eps"
  shows "\<exists>gates. compute_group_zpd_gate rewards n ''reward_ranked'' p (Fin eps) = Inr gates
    \<and> length gates = length rewards
    \<and> (\<forall>i < length rewards. let g = group_rewards rewards (nat n) i in
        gates ! i = (eps < variance_of g \<and> (\<forall>c \<in> {1, 0, -1}. \<exists>r \<in> set g. 1 / 10 ^ 6 < \<bar>r - c\<bar>)))
    \<and> (\<forall>i < length rewards. \<forall>j < length rewards. i div nat n = j div nat n \<longrightarrow> gates ! i = gates ! j)"
proof -
  have gate: "rs_zpd_gate (group_state g eps)
      \<longleftrightarrow> eps < variance_of g \<and> (\<forall>c \<in> {1, 0, -1}. \<exists>r \<in> set g. 1 / 10 ^ 6 < \<bar>r - c\<bar>)" for g
    unfolding zpd_gate_iff not_all_close if_variance by (rule refl)
  let ?gate = "\<lambda>i. rs_zpd_gate (group_state (group_rewards rewards (nat n) i) eps)"
  have same: "?gate i = ?gate j" if "i div nat n = j div nat n" for i j
    using that by (simp only: group_rewards_def)
  have res: "compute_group_zpd_gate rewards n ''reward_ranked'' p (Fin eps) = Inr (map ?gate [0..<length rewards])"
    using compute_group_zpd_gate_eq [of "''reward_ranked''" n rewards eps p] assms by simp
  have at: "map ?gate [0..<length rewards] ! i = ?gate i" if "i < length rewards" for i
    using that by simp
  show ?thesis
  proof (intro exI [of _ "map ?gate [0..<length rewards]"] conjI res allI impI)
    show "map ?gate [0..<length rewards] ! i = map ?gate [0..<length rewards] ! j"
      if "i < length rewards" "j < length rewards" "i div nat n = j div nat n" for i j
      unfolding at [OF that(1)] at [OF that(2)] by (rule same [OF that(3)])
  qed (simp_all only: Let_def gate length_map length_upt diff_zero nth_map_upt add_0)
qed

theorem reward_ranked_gate_witness:
  "\<exists>gates. compute_group_zpd_gate [1, 0, 1, 1] 2 ''reward_ranked'' 1 (Fin 0) = Inr gates \<and> gates ! 0 \<and> \<not> gates ! 2"
proof -
  have len: "length [1, 0, 1, 1 :: real] = 4" by simp
  have g: "group_rewards [1, 0, 1, 1] 2 0 = [1, 0]" "group_rewards [1, 0, 1, 1] 2 2 = [1, 1]"
    by (simp_all add: group_rewards_def upt_rec)
  obtain gates where G: "compute_group_zpd_gate [1, 0, 1, 1] 2 ''reward_ranked'' 1 (Fin 0) = Inr gates"
    "\<And>i. i < 4 \<Longrightarrow> gates ! i = (0 < variance_of (group_rewards [1, 0, 1, 1] 2 i)
      \<and> (\<forall>c \<in> {1, 0, -1}. \<exists>r \<in> set (group_rewards [1, 0, 1, 1] 2 i). 1 / 10 ^ 6 < \<bar>r - c\<bar>))"
    using reward_ranked_gate [of 2 "[1, 0, 1, 1]" 0 1, unfolded len Let_def nat_numeral] by auto
  show ?thesis using G(1) G(2) [of 0] G(2) [of 2] by (simp add: g variance_of_def mean_of_def)
qed

lemma binary_group_gate:
  assumes "set g \<subseteq> {0, 1}" "g \<noteq> []"
  shows "rs_zpd_gate (group_state g 0) \<longleftrightarrow> 1 \<in> set g \<and> 0 \<in> set g"
proof -
  have var: "variance_of g = 0 \<longleftrightarrow> \<not> (1 \<in> set g \<and> 0 \<in> set g)"
    using assms variance_of_zero_iff [OF assms(2)] by (cases g) auto
  have near: "\<bar>r - c\<bar> \<le> 1 / 10 ^ 6 \<longleftrightarrow> r = c" if "c \<in> {1, 0, -1}" "r \<in> {0, 1}" for c r :: real
    using that by auto
  have close: "all_close g c \<longleftrightarrow> (\<forall>r \<in> set g. r = c)" if "c \<in> {1, 0, -1}" for c
    unfolding all_close_def list_all_iff
    by (intro ball_cong refl near that) (use \<open>set g \<subseteq> {0, 1}\<close> in blast)
  have gt: "0 < variance_of g \<longleftrightarrow> 1 \<in> set g \<and> 0 \<in> set g"
    using var variance_of_nonneg [of g] by (simp add: less_le)
  have "(\<forall>c \<in> {1, 0, -1}. \<not> all_close g c) \<longleftrightarrow> (\<forall>c \<in> {1, 0, -1}. \<not> (\<forall>r \<in> set g. r = c))"
    using close by blast
  moreover have "\<forall>c \<in> {1, 0, -1}. \<not> (\<forall>r \<in> set g. r = c)" if "1 \<in> set g" "0 \<in> set g"
  proof (intro ballI notI)
    fix c :: real assume "\<forall>r \<in> set g. r = c"
    then have "1 = c" "0 = c" using that by blast+
    then show False by simp
  qed
  ultimately show ?thesis unfolding zpd_gate_iff if_variance gt by blast
qed

text \<open>in binary mode with a zero tolerance the gate of a row is open exactly when its prompt
  group is mixed: it holds a rollout that earned the positive reward and one that did not.\<close>

theorem binary_mixed_gate:
  assumes "1 < n" and "rewards \<noteq> []"
  shows "\<exists>gates. compute_group_zpd_gate rewards n ''binary_mixed'' p (Fin 0) = Inr gates
    \<and> length gates = length rewards
    \<and> (\<forall>i < length rewards. gates ! i \<longleftrightarrow>
        (\<exists>j < length rewards. j div nat n = i div nat n \<and> p - 1 / 10 ^ 6 \<le> rewards ! j)
        \<and> (\<exists>j < length rewards. j div nat n = i div nat n \<and> rewards ! j < p - 1 / 10 ^ 6))"
proof -
  define bit where "bit r = (of_bool (p - 1 / 10 ^ 6 \<le> r) :: real)" for r
  have bits: "bit r \<in> {0, 1}" for r by (simp add: bit_def)
  have grp: "set (group_rewards (map bit rewards) (nat n) i) = bit ` {rewards ! j | j. j < length rewards \<and> j div nat n = i div nat n}"
    for i by (force simp: group_rewards_def)
  have "rs_zpd_gate (group_state (group_rewards (map bit rewards) (nat n) i) 0) \<longleftrightarrow>
      (\<exists>j < length rewards. j div nat n = i div nat n \<and> p - 1 / 10 ^ 6 \<le> rewards ! j)
      \<and> (\<exists>j < length rewards. j div nat n = i div nat n \<and> rewards ! j < p - 1 / 10 ^ 6)"
    if i: "i < length rewards" for i
  proof -
    have "group_rewards (map bit rewards) (nat n) i \<noteq> []"
      using group_rewards_self [of i "map bit rewards" "nat n"] i by auto
    then have "rs_zpd_gate (group_state (group_rewards (map bit rewards) (nat n) i) 0)
      \<longleftrightarrow> 1 \<in> set (group_rewards (map bit rewards) (nat n) i) \<and> 0 \<in> set (group_rewards (map bit rewards) (nat n) i)"
      by (intro binary_group_gate) (use bits in \<open>auto simp: grp\<close>)
    then show ?thesis unfolding grp by (auto simp: bit_def image_iff not_le)
  qed
  then show ?thesis
    using assms by (subst compute_group_zpd_gate_eq) (simp_all add: bit_def [abs_def])
qed

theorem binary_mixed_gate_witness:
  "\<exists>gates. compute_group_zpd_gate [1, 0, 1, 1] 2 ''binary_mixed'' 1 (Fin 0) = Inr gates \<and> gates ! 0 \<and> \<not> gates ! 2"
proof -
  have len: "length [1, 0, 1, 1 :: real] = 4" by simp
  obtain gates where G: "compute_group_zpd_gate [1, 0, 1, 1] 2 ''binary_mixed'' 1 (Fin 0) = Inr gates"
    "\<forall>i < 4. gates ! i \<longleftrightarrow>
        (\<exists>j < 4. j div 2 = i div 2 \<and> 1 - 1 / 10 ^ 6 \<le> ([1, 0, 1, 1] ! j :: real))
        \<and> (\<exists>j < 4. j div 2 = i div 2 \<and> [1, 0, 1, 1] ! j < (1 - 1 / 10 ^ 6 :: real))"
    using binary_mixed_gate [of 2 "[1, 0, 1, 1]" 1, unfolded len] by auto
  have "gates ! 0" using G(2) [rule_format, of 0]
    by (simp del: G(2)) (intro conjI exI [of _ 0] exI [of _ 1]; simp)
  moreover have "\<not> gates ! 2" using G(2) [rule_format, of 2] by (auto simp: less_Suc_eq numeral_eq_Suc)
  ultimately show ?thesis using G(1) by blast
qed

section \<open>Length-aware rewards\<close>

text \<open>\<open>length_aware_outcome_rewards\<close> keeps the outcome reward up to a penalty that is zero
  while the response leaves the overlong buffer untouched, linear inside the buffer, equal to the
  penalty factor from the maximal length on, and monotone in the length; so with a factor of at
  most one a correct response never scores below an incorrect one of the same or a larger length.\<close>

theorem length_aware_rewards_spec:
  assumes len: "length correct = length lengths" and bounds: "0 < buffer" "buffer \<le> limit" and f: "0 \<le> factor"
  defines "over \<equiv> \<lambda>l. l - real_of_int (limit - buffer)"
  shows "\<exists>rs. length_aware_outcome_rewards correct lengths limit buffer factor = Inr rs
    \<and> length rs = length lengths
    \<and> (\<forall>i < length lengths. let l = lengths ! i; a = of_bool (correct ! i) in
        (over l \<le> 0 \<longrightarrow> rs ! i = a) \<and> (real_of_int limit \<le> l \<longrightarrow> rs ! i = a - factor)
        \<and> (0 \<le> over l \<and> l \<le> real_of_int limit \<longrightarrow> rs ! i = a - over l / real_of_int buffer * factor)
        \<and> a - factor \<le> rs ! i \<and> rs ! i \<le> a)
    \<and> (\<forall>i < length lengths. \<forall>j < length lengths. lengths ! i \<le> lengths ! j \<longrightarrow>
        (correct ! i \<longleftrightarrow> correct ! j) \<or> (correct ! i \<and> factor \<le> 1) \<longrightarrow> rs ! j \<le> rs ! i)"
proof -
  let ?c = "\<lambda>l. clamp 0 1 (over l / real_of_int buffer)"
  have b: "0 < real_of_int buffer" using bounds by simp
  have res: "length_aware_outcome_rewards correct lengths limit buffer factor
      = Inr (vsub (map of_bool correct) (map (\<lambda>l. ?c l * factor) lengths))"
    using assms(1-4) by (simp add: length_aware_outcome_rewards_def soft_overlong_penalty_def Let_def over_def)
  have at: "vsub (map of_bool correct) (map (\<lambda>l. ?c l * factor) lengths) ! i
      = of_bool (correct ! i) - ?c (lengths ! i) * factor" if "i < length lengths" for i
    using that len by simp
  have range: "0 \<le> ?c l" "?c l \<le> 1" for l by (simp_all add: clamp_def)
  have bnd: "0 \<le> ?c l * factor" "?c l * factor \<le> factor" for l
    using range [of l] f by (auto simp: mult_left_le_one_le)
  have mono: "?c l * factor \<le> ?c l' * factor" if "l \<le> l'" for l l'
  proof -
    have "over l / real_of_int buffer \<le> over l' / real_of_int buffer"
      using that b by (simp add: over_def divide_right_mono)
    then have "?c l \<le> ?c l'" by (auto simp: clamp_def)
    then show ?thesis using f by (rule mult_right_mono)
  qed
  have low: "?c l = 0" if "over l \<le> 0" for l using that b by (simp add: clamp_def divide_le_0_iff)
  have high: "?c l = 1" if "real_of_int limit \<le> l" for l
    using that b by (simp add: clamp_def over_def le_divide_eq)
  have mid: "?c l = over l / real_of_int buffer" if "0 \<le> over l" "l \<le> real_of_int limit" for l
    using that b by (simp add: clamp_def over_def divide_le_eq)
  define pen where "pen l = ?c l * factor" for l
  have facts: "0 \<le> pen l" "pen l \<le> factor" "over l \<le> 0 \<Longrightarrow> pen l = 0"
      "real_of_int limit \<le> l \<Longrightarrow> pen l = factor" "l \<le> l' \<Longrightarrow> pen l \<le> pen l'"
      "0 \<le> over l \<Longrightarrow> l \<le> real_of_int limit \<Longrightarrow> pen l = over l / real_of_int buffer * factor" for l l'
    using bnd mono low high mid by (simp_all add: pen_def)
  have order: "- pen l' \<le> 1 - pen l" if "factor \<le> 1" for l l'
    using facts(1) [of l'] facts(2) [of l] that by simp
  show ?thesis
    unfolding res using facts order by (simp add: at len Let_def flip: pen_def)
qed

theorem length_aware_rewards_spec_witness:
  "\<exists>rs. length_aware_outcome_rewards [True, False] [90, 110] 100 20 (1/2) = Inr rs
    \<and> rs ! 0 = 3/4 \<and> rs ! 1 = - 1/2"
  using length_aware_rewards_spec [of "[True, False]" "[90, 110]" 20 100 "1/2"]
  by (auto simp: Let_def less_Suc_eq numeral_eq_Suc)

end
