(* ===== verification/PyStrings.thy ===== *)
theory PyStrings
  imports Prelude "HOL-Library.Char_ord" "HOL-Library.List_Lexorder" "HOL-Library.Sublist"
begin

text \<open>
  The string operations of Python the components share. Strings are lists of 8-bit characters
  (the first 256 code points); there the decimal characters are the ten digits. The digit-count
  limit of \<open>int\<close> on a string is not modelled.
\<close>

section \<open>Characters, strip and split\<close>

definition is_digit :: "char \<Rightarrow> bool" where
  "is_digit c \<longleftrightarrow> CHR ''0'' \<le> c \<and> c \<le> CHR ''9''"

definition isdecimal :: "string \<Rightarrow> bool" where
  "isdecimal s \<longleftrightarrow> s \<noteq> [] \<and> list_all is_digit s"

definition int_of_decimal :: "string \<Rightarrow> nat" where
  "int_of_decimal s = foldl (\<lambda>n c. 10 * n + (of_char c - 48)) 0 s"

text \<open>The characters \<open>str.strip\<close> removes.\<close>

definition is_space :: "char \<Rightarrow> bool" where
  "is_space c \<longleftrightarrow> (let n = (of_char c :: nat) in (9 \<le> n \<and> n \<le> 13) \<or> (28 \<le> n \<and> n \<le> 32) \<or> n = 133 \<or> n = 160)"

definition strip :: "string \<Rightarrow> string" where
  "strip s = rev (dropWhile is_space (rev (dropWhile is_space s)))"

text \<open>\<open>str.lower\<close>.\<close>

definition lower_char :: "char \<Rightarrow> char" where
  "lower_char c = (let n = (of_char c :: nat) in
     if (65 \<le> n \<and> n \<le> 90) \<or> (192 \<le> n \<and> n \<le> 222 \<and> n \<noteq> 215) then char_of (n + 32) else c)"

definition lower :: "string \<Rightarrow> string" where
  "lower s = map lower_char s"

text \<open>\<open>s.split("_")\<close>, and \<open>s.rsplit("_", 2)\<close>, which keeps the two rightmost cuts.\<close>

fun split_underscore :: "string \<Rightarrow> string list" where
  "split_underscore [] = [[]]"
| "split_underscore (c # s) =
     (if c = CHR ''_'' then [] # split_underscore s
      else case split_underscore s of [] \<Rightarrow> [[c]] | p # ps \<Rightarrow> (c # p) # ps)"

definition join_underscore :: "string list \<Rightarrow> string" where
  "join_underscore ps = (case ps of [] \<Rightarrow> [] | p # qs \<Rightarrow> p @ concat (map (\<lambda>q. CHR ''_'' # q) qs))"

definition rsplit2 :: "string \<Rightarrow> string list" where
  "rsplit2 s = (let ps = split_underscore s; n = length ps in
     if n \<le> 3 then ps else [join_underscore (take (n - 2) ps), ps ! (n - 2), ps ! (n - 1)])"

text \<open>Python's \<open>int\<close> on a string.\<close>

definition py_int :: "string \<Rightarrow> int option" where
  "py_int s =
     (let t = strip s;
          (negative, digits) = (case t of [] \<Rightarrow> (False, []) | c # cs \<Rightarrow>
             if c = CHR ''-'' then (True, cs) else if c = CHR ''+'' then (False, cs) else (False, t));
          parts = split_underscore digits
      in if list_all isdecimal parts
         then Some ((if negative then -1 else 1) * int (int_of_decimal (concat parts))) else None)"

fun find_sub :: "string \<Rightarrow> string \<Rightarrow> nat option" where
  "find_sub pat [] = (if pat = [] then Some 0 else None)"
| "find_sub pat (c # s) = (if prefix pat (c # s) then Some 0 else map_option Suc (find_sub pat s))"

text \<open>\<open>s.split(sep)\<close> for a non-empty separator.\<close>

function split_on :: "string \<Rightarrow> string \<Rightarrow> string list" where
  "split_on sep s =
     (if sep = [] then [s] else case find_sub sep s of None \<Rightarrow> [s]
      | Some i \<Rightarrow> take i s # split_on sep (drop (i + length sep) s))"
  by pat_completeness auto

lemma find_sub_Some: "find_sub pat s = Some i \<Longrightarrow> i \<le> length s \<and> prefix pat (drop i s)"
  by (induction pat s arbitrary: i rule: find_sub.induct) (auto split: if_splits)

termination split_on
proof (relation "measure (\<lambda>(_, s). length s)")
  fix sep s i
  assume "sep \<noteq> []" "find_sub sep s = Some i"
  then show "((sep, drop (i + length sep) s), sep, s) \<in> measure (\<lambda>(_, s). length s)"
    using find_sub_Some [of sep s i] prefix_length_le [of sep "drop i s"] by (cases sep) auto
qed simp

declare split_on.simps [simp del]

section \<open>Lines\<close>

text \<open>The line boundaries of \<open>str.splitlines\<close>; a carriage return swallows a following line feed.\<close>

definition is_break :: "char \<Rightarrow> bool" where
  "is_break c \<longleftrightarrow> (let n = (of_char c :: nat) in (10 \<le> n \<and> n \<le> 13) \<or> (28 \<le> n \<and> n \<le> 30) \<or> n = 133)"

definition newline :: char where "newline = char_of (10 :: nat)"
definition carriage_return :: char where "carriage_return = char_of (13 :: nat)"

definition skip_newline :: "char \<Rightarrow> string \<Rightarrow> string" where
  "skip_newline c s = (case s of d # s' \<Rightarrow> if c = carriage_return \<and> d = newline then s' else s | [] \<Rightarrow> s)"

function split_lines :: "string \<Rightarrow> string \<Rightarrow> string list" where
  "split_lines line [] = (if line = [] then [] else [rev line])"
| "split_lines line (c # s) =
     (if is_break c then rev line # split_lines [] (skip_newline c s) else split_lines (c # line) s)"
  by pat_completeness auto
termination
  by (relation "measure (\<lambda>(_, s). length s)") (auto simp: skip_newline_def split: list.splits)

definition splitlines :: "string \<Rightarrow> string list" where
  "splitlines s = split_lines [] s"

definition rstrip :: "string \<Rightarrow> string" where
  "rstrip s = rev (dropWhile is_space (rev s))"

text \<open>\<open>"\n".join(lines)\<close>.\<close>

definition join_lines :: "string list \<Rightarrow> string" where
  "join_lines ls = (case ls of [] \<Rightarrow> [] | l # rest \<Rightarrow> l @ concat (map (\<lambda>l. newline # l) rest))"

section \<open>Facts about stripped strings and lines\<close>

lemma breaks_are_spaces: "is_break c \<Longrightarrow> is_space c"
  by (auto simp: is_break_def is_space_def Let_def)

lemma newline_break: "is_break newline"
  by (simp add: is_break_def newline_def)

lemma split_lines_no_break:
  "\<forall>l \<in> set (split_lines line s). \<forall>c \<in> set l. \<not> is_break c" if "\<forall>c \<in> set line. \<not> is_break c"
  using that
proof (induction line s rule: split_lines.induct)
  case (2 line c s)
  show ?case
  proof (cases "is_break c")
    case True
    show ?thesis using 2(1) [OF True] 2(3) True by simp
  next
    case False
    show ?thesis using 2(2) [OF False] 2(3) False by simp
  qed
qed simp

lemma split_lines_last:
  assumes "s \<noteq> [] \<or> line \<noteq> []" "s \<noteq> [] \<Longrightarrow> \<not> is_break (last s)"
  shows "split_lines line s \<noteq> [] \<and> last (split_lines line s) \<noteq> []
    \<and> last (last (split_lines line s)) = (if s = [] then hd line else last s)"
  using assms
proof (induction line s rule: split_lines.induct)
  case (1 line)
  then show ?case by (simp add: last_rev)
next
  case (2 line c s)
  show ?case
  proof (cases "is_break c")
    case True
    then have ne: "s \<noteq> []" using 2(4) by auto
    have skip: "skip_newline c s \<noteq> [] \<and> last (skip_newline c s) = last s"
      using ne 2(4) newline_break by (auto simp: skip_newline_def split: list.splits)
    show ?thesis using 2(1) True skip ne 2(4) by auto
  next
    case False
    show ?thesis using 2(2) False 2(4) by (cases "s = []") auto
  qed
qed

lemma split_lines_run:
  "\<forall>c \<in> set l. \<not> is_break c \<Longrightarrow> split_lines line (l @ s) = split_lines (rev l @ line) s"
  by (induction l arbitrary: line) auto

lemma not_carriage: "is_break newline" "newline \<noteq> carriage_return"
  by (simp_all add: is_break_def newline_def carriage_return_def)

lemma split_join_lines:
  assumes "\<forall>l \<in> set ls. \<forall>c \<in> set l. \<not> is_break c" "ls \<noteq> [] \<Longrightarrow> last ls \<noteq> []"
  shows "splitlines (join_lines ls) = ls"
  using assms
proof (induction ls)
  case (Cons l ls)
  have skip: "skip_newline newline s = s" for s
    using not_carriage by (simp add: skip_newline_def split: list.splits)
  show ?case
  proof (cases ls)
    case Nil
    then show ?thesis using Cons.prems split_lines_run [of l "[]" "[]"] by (simp add: join_lines_def splitlines_def)
  next
    case (Cons k ks)
    have "splitlines (join_lines (l # ls)) = split_lines [] (l @ newline # join_lines ls)"
      by (simp add: join_lines_def splitlines_def Cons)
    also have "\<dots> = l # split_lines [] (join_lines ls)"
      using Cons.prems by (simp add: split_lines_run not_carriage skip)
    also have "split_lines [] (join_lines ls) = ls"
      using Cons.IH Cons.prems Cons by (simp add: splitlines_def)
    finally show ?thesis .
  qed
qed (simp add: join_lines_def splitlines_def)

lemma split_lines_hd:
  "line \<noteq> [] \<Longrightarrow> split_lines line s \<noteq> [] \<and> hd (split_lines line s) \<noteq> []
    \<and> hd (hd (split_lines line s)) = last line"
proof (induction line s rule: split_lines.induct)
  case (2 line c s)
  then show ?case by (cases "is_break c") (simp_all add: hd_rev)
qed (simp add: hd_rev)

lemma rstrip_facts:
  "l = [] \<or> \<not> is_space (last l) \<Longrightarrow> rstrip l = l"
  "rstrip (rstrip l) = rstrip l" "set (rstrip l) \<subseteq> set l"
  "l \<noteq> [] \<Longrightarrow> \<not> is_space (hd l) \<Longrightarrow> rstrip l \<noteq> [] \<and> hd (rstrip l) = hd l"
proof -
  show "l = [] \<or> \<not> is_space (last l) \<Longrightarrow> rstrip l = l"
    by (cases "rev l") (auto simp: rstrip_def)
  show "rstrip (rstrip l) = rstrip l" by (simp add: rstrip_def)
  show "set (rstrip l) \<subseteq> set l" by (auto simp: rstrip_def dest: set_dropWhileD)
  show "rstrip l \<noteq> [] \<and> hd (rstrip l) = hd l" if "l \<noteq> []" "\<not> is_space (hd l)"
    using that by (cases l) (auto simp: rstrip_def dropWhile_append)
qed

lemma strip_id: "s = [] \<or> (\<not> is_space (hd s) \<and> \<not> is_space (last s)) \<Longrightarrow> strip s = s"
  by (cases "s = []") (simp_all add: strip_def hd_rev dropWhile_eq_self_iff [THEN iffD2])

lemma strip_ends:
  assumes "strip s \<noteq> []"
  shows "\<not> is_space (hd (strip s))" "\<not> is_space (last (strip s))"
proof -
  let ?l = "dropWhile is_space s"
  have strip: "strip s = rstrip ?l" by (simp add: strip_def rstrip_def)
  have ne: "?l \<noteq> []" using assms strip rstrip_facts(1) by metis
  then have "\<not> is_space (hd ?l)" by (rule hd_dropWhile)
  then show "\<not> is_space (hd (strip s))" using rstrip_facts(4) [OF ne] strip by simp
  have "dropWhile is_space (rev ?l) \<noteq> []" using assms strip by (simp add: rstrip_def)
  then show "\<not> is_space (last (strip s))"
    unfolding strip rstrip_def last_rev by (rule hd_dropWhile)
qed

lemma join_lines_ends:
  assumes "ls \<noteq> []"
  shows "hd ls \<noteq> [] \<Longrightarrow> join_lines ls \<noteq> [] \<and> hd (join_lines ls) = hd (hd ls)"
    and "last ls \<noteq> [] \<Longrightarrow> last (join_lines ls) = last (last ls)"
proof -
  show "hd ls \<noteq> [] \<Longrightarrow> join_lines ls \<noteq> [] \<and> hd (join_lines ls) = hd (hd ls)"
    using assms by (cases ls) (auto simp: join_lines_def)
  have "join_lines (ks @ [l]) = (if ks = [] then l else join_lines ks @ newline # l)" for ks l
    by (cases ks) (auto simp: join_lines_def)
  then show "last ls \<noteq> [] \<Longrightarrow> last (join_lines ls) = last (last ls)"
    using assms by (cases ls rule: rev_cases) auto
qed

end
