(* ===== verification/Evidence.thy ===== *)
theory Evidence
  imports LengthReward PyStrings "HOL-Library.Product_Lexorder"
begin

text \<open>
  Target-excluded evidence selection within a rollout batch
  (\<open>risk_aware_opsd/rollout_evidence.py\<close>). Group identifiers are compared for equality only.
\<close>

section \<open>Selection\<close>

record evidence_selection =
  es_positive :: "int list"
  es_negative :: "int list list"
  es_reason :: "int list"

definition es_available :: "evidence_selection \<Rightarrow> bool list" where
  "es_available E = map (\<lambda>code. code = 0) (es_reason E)"

definition rollout_order :: "string \<Rightarrow> nat \<times> string" where
  "rollout_order rollout_id =
     (let parts = rsplit2 rollout_id;
          ordinal = (if length parts = 3 \<and> isdecimal (parts ! 1) then parts ! 1 else last parts)
      in (if isdecimal ordinal then int_of_decimal ordinal else 0, rollout_id))"

definition eligible_rows ::
  "string list \<Rightarrow> bool list \<Rightarrow> string list \<Rightarrow> nat list \<Rightarrow> nat \<Rightarrow> nat list" where
  "eligible_rows rollout_ids format_valid responses members target =
     sort_key (\<lambda>i. rollout_order (rollout_ids ! i))
       (filter (\<lambda>i. i \<noteq> target \<and> format_valid ! i \<and> strip (responses ! i) \<noteq> []) members)"

definition select_for_target ::
  "string list \<Rightarrow> bool list \<Rightarrow> bool list \<Rightarrow> string list \<Rightarrow> bool \<Rightarrow> nat \<Rightarrow> nat list \<Rightarrow> nat
    \<Rightarrow> int \<times> int list \<times> int" where
  "select_for_target rollout_ids correct format_valid responses require_negative num_negative members target =
     (let eligible = eligible_rows rollout_ids format_valid responses members target;
          pos = (case filter (\<lambda>i. correct ! i) eligible of [] \<Rightarrow> -1 | i # _ \<Rightarrow> int i);
          neg = filter (\<lambda>i. \<not> correct ! i) eligible;
          negatives = map (\<lambda>k. if neg = [] then -1 else int (neg ! (k mod length neg))) [0..<num_negative]
      in (pos, negatives, if pos < 0 then 1 else if require_negative \<and> neg = [] then 2 else 0))"

definition select_rollout_evidence ::
  "'g list \<Rightarrow> string list \<Rightarrow> bool list \<Rightarrow> bool list \<Rightarrow> string list \<Rightarrow> bool \<Rightarrow> int
    \<Rightarrow> evidence_selection res" where
  "select_rollout_evidence group_ids rollout_ids correct format_valid responses require_negative num_negative =
     (let size = length group_ids in
      if length rollout_ids \<noteq> size \<or> length correct \<noteq> size \<or> length format_valid \<noteq> size
        \<or> length responses \<noteq> size
      then Inl (ValueError ''evidence metadata must have one entry per rollout'')
      else if \<not> distinct rollout_ids \<or> [] \<in> set rollout_ids
      then Inl (ValueError ''rollout IDs must be nonempty and unique within the batch'')
      else if num_negative < 1 then Inl (ValueError ''num_negative must be positive'')
      else let
        groups = group_rows group_ids;
        chosen = map (\<lambda>target. select_for_target rollout_ids correct format_valid responses require_negative
            (nat num_negative) (the (map_of groups (group_ids ! target))) target) [0..<size]
      in Inr \<lparr>es_positive = map fst chosen, es_negative = map (fst \<circ> snd) chosen,
           es_reason = map (snd \<circ> snd) chosen\<rparr>)"

section \<open>Eligibility\<close>

text \<open>A row that may serve as evidence for a target.\<close>

definition sibling ::
  "'g list \<Rightarrow> bool list \<Rightarrow> string list \<Rightarrow> nat \<Rightarrow> nat \<Rightarrow> bool" where
  "sibling group_ids format_valid responses target i \<longleftrightarrow>
     i < length group_ids \<and> i \<noteq> target \<and> group_ids ! i = group_ids ! target
     \<and> format_valid ! i \<and> strip (responses ! i) \<noteq> []"

lemma the_group_rows:
  "t < length ids \<Longrightarrow> the (map_of (group_rows ids) (ids ! t)) = rows_of ids (ids ! t)"
  using group_rows_spec [of ids] by simp

lemma set_eligible_rows:
  "set (eligible_rows rids fv rs (rows_of ids (ids ! t)) t) = {i. sibling ids fv rs t i}"
  by (auto simp: eligible_rows_def rows_of_def sibling_def)

lemma rollout_order_inj: "rollout_order a = rollout_order b \<Longrightarrow> a = b"
  by (simp add: rollout_order_def Let_def)

lemma sorted_eligible_rows:
  "sorted (map (\<lambda>i. rollout_order (rids ! i)) (eligible_rows rids fv rs g t))"
  by (simp add: eligible_rows_def)

text \<open>The checks of the function.\<close>

definition batch_ok :: "'g list \<Rightarrow> string list \<Rightarrow> bool list \<Rightarrow> bool list \<Rightarrow> string list \<Rightarrow> bool" where
  "batch_ok ids rids cor fv rs \<longleftrightarrow> length rids = length ids \<and> length cor = length ids
     \<and> length fv = length ids \<and> length rs = length ids \<and> distinct rids \<and> [] \<notin> set rids"

lemma select_rollout_evidence_eq:
  assumes "batch_ok ids rids cor fv rs" "1 \<le> m"
  shows "select_rollout_evidence ids rids cor fv rs req m = Inr
    (let sel = select_for_target rids cor fv rs req (nat m);
         chosen = map (\<lambda>t. sel (rows_of ids (ids ! t)) t) [0..<length ids]
     in \<lparr>es_positive = map fst chosen, es_negative = map (fst \<circ> snd) chosen, es_reason = map (snd \<circ> snd) chosen\<rparr>)"
  using assms by (auto simp: select_rollout_evidence_def batch_ok_def Let_def the_group_rows)

lemma first_filter_least:
  assumes "filter P xs = i # is'" "sorted (map f xs)"
  shows "i \<in> set xs \<and> P i \<and> (\<forall>j \<in> set xs. P j \<longrightarrow> f i \<le> f j)"
proof -
  have "sorted (map f (filter P xs))" using assms(2) by (simp add: sorted_filter)
  then have least: "\<forall>j \<in> set (filter P xs). f i \<le> f j" by (simp only: assms(1)) auto
  have "i \<in> set (filter P xs)" by (simp only: assms(1) list.set_intros)
  then show ?thesis using least by auto
qed

text \<open>The three components of a selection.\<close>

lemma select_for_target_positive:
  assumes "select_for_target rids cor fv rs req m (rows_of ids (ids ! t)) t = (p, ns, r)"
  shows "p = -1 \<and> (\<forall>i. sibling ids fv rs t i \<longrightarrow> \<not> cor ! i)
    \<or> (\<exists>i. p = int i \<and> sibling ids fv rs t i \<and> cor ! i
        \<and> (\<forall>j. sibling ids fv rs t j \<and> cor ! j \<longrightarrow> rollout_order (rids ! i) \<le> rollout_order (rids ! j)))"
proof -
  let ?el = "eligible_rows rids fv rs (rows_of ids (ids ! t)) t"
  note mem = set_eligible_rows [of rids fv rs ids t]
  have p: "p = (case filter (\<lambda>i. cor ! i) ?el of [] \<Rightarrow> -1 | i # _ \<Rightarrow> int i)"
    using assms by (simp add: select_for_target_def Let_def)
  show ?thesis
  proof (cases "filter (\<lambda>i. cor ! i) ?el")
    case Nil
    then have "\<forall>i \<in> set ?el. \<not> cor ! i" by (simp add: filter_empty_conv)
    then show ?thesis using p Nil mem by auto
  next
    case (Cons i js)
    then show ?thesis
      using first_filter_least [OF Cons sorted_eligible_rows] p mem by auto
  qed
qed

lemma select_for_target_negative:
  assumes "select_for_target rids cor fv rs req m (rows_of ids (ids ! t)) t = (p, ns, r)"
  shows "length ns = m"
    and "n \<in> set ns \<Longrightarrow> n = -1 \<and> (\<forall>i. sibling ids fv rs t i \<longrightarrow> cor ! i)
      \<or> (\<exists>i. n = int i \<and> sibling ids fv rs t i \<and> \<not> cor ! i)"
proof -
  let ?el = "eligible_rows rids fv rs (rows_of ids (ids ! t)) t"
  let ?neg = "filter (\<lambda>i. \<not> cor ! i) ?el"
  note mem = set_eligible_rows [of rids fv rs ids t]
  have ns: "ns = map (\<lambda>k. if ?neg = [] then -1 else int (?neg ! (k mod length ?neg))) [0..<m]"
    using assms by (simp add: select_for_target_def Let_def)
  then show "length ns = m" by simp
  assume n: "n \<in> set ns"
  show "n = -1 \<and> (\<forall>i. sibling ids fv rs t i \<longrightarrow> cor ! i)
      \<or> (\<exists>i. n = int i \<and> sibling ids fv rs t i \<and> \<not> cor ! i)"
  proof (cases "?neg = []")
    case True
    then have "\<forall>i \<in> set ?el. cor ! i" by (simp add: filter_empty_conv)
    then show ?thesis using n ns True mem by auto
  next
    case False
    then obtain k where "n = int (?neg ! (k mod length ?neg))" using n ns by auto
    moreover have "?neg ! (k mod length ?neg) \<in> set ?neg" using False by (intro nth_mem) simp
    ultimately show ?thesis using mem by auto
  qed
qed

lemma select_for_target_reason:
  assumes "select_for_target rids cor fv rs req m (rows_of ids (ids ! t)) t = (p, ns, r)"
  shows "r = (if \<not> (\<exists>i. sibling ids fv rs t i \<and> cor ! i) then 1
    else if req \<and> \<not> (\<exists>i. sibling ids fv rs t i \<and> \<not> cor ! i) then 2 else 0)"
proof -
  let ?el = "eligible_rows rids fv rs (rows_of ids (ids ! t)) t"
  let ?neg = "filter (\<lambda>i. \<not> cor ! i) ?el"
  have r: "r = (if p < 0 then 1 else if req \<and> ?neg = [] then 2 else 0)"
    using assms by (auto simp: select_for_target_def Let_def)
  have "?neg = [] \<longleftrightarrow> (\<forall>i \<in> set ?el. cor ! i)" by (auto simp: filter_empty_conv)
  then have "?neg = [] \<longleftrightarrow> \<not> (\<exists>i. sibling ids fv rs t i \<and> \<not> cor ! i)"
    using set_eligible_rows [of rids fv rs ids t] by auto
  moreover have "p < 0 \<longleftrightarrow> \<not> (\<exists>i. sibling ids fv rs t i \<and> cor ! i)"
    using select_for_target_positive [OF assms] by auto
  ultimately show ?thesis using r by simp
qed

end
