(* ===== verification/ZpdDataset.thy ===== *)
theory ZpdDataset
  imports Evidence "HOL-Library.Sublist"
begin

text \<open>
  The ZPD prompt profiles of \<open>risk_aware_opsd/zpd_dataset.py\<close>: recovering the problem of a
  rollout, grouping rollouts into profiles, and selecting profiles. Strings are lists of 8-bit
  characters. The digest (SHA-256, hexadecimal) only orders profiles and is an argument, as is the
  callback \<open>format_valid\<close>.
\<close>

section \<open>Canonical problems\<close>

definition canonical_problem :: "string \<Rightarrow> string" where
  "canonical_problem text = join_lines (map rstrip (splitlines (strip text)))"

section \<open>The problem of a row\<close>

text \<open>A source row: \<open>extra_info["problem"]\<close>, and the contents of the prompt messages (\<open>None\<close>
  for a missing or non-dictionary entry; the empty list when there is no prompt list).\<close>

record source_row =
  sr_problem :: "string option"
  sr_prompt :: "string option list"

definition or_empty :: "string option \<Rightarrow> string" where
  "or_empty v = (case v of None \<Rightarrow> [] | Some s \<Rightarrow> s)"

definition problem_from_source_row :: "source_row \<Rightarrow> string res" where
  "problem_from_source_row row =
     (if strip (or_empty (sr_problem row)) \<noteq> [] then Inr (canonical_problem (or_empty (sr_problem row)))
      else case sr_prompt row of
        content # _ \<Rightarrow>
          if strip (or_empty content) \<noteq> [] then Inr (canonical_problem (or_empty content))
          else Inl (ValueError ''source row has no canonical problem'')
      | [] \<Rightarrow> Inl (ValueError ''source row has no canonical problem''))"

text \<open>A rollout row; a missing key is \<open>None\<close>, and \<open>a or b\<close> takes \<open>b\<close> when \<open>a\<close> is missing or
  empty. A missing score is 0.\<close>

record rollout_row =
  rr_uid :: string
  rr_problem :: "string option"
  rr_raw_user_text :: "string option"
  rr_input :: "string option"
  rr_rendered_prompt :: "string option"
  rr_score :: pyfloat
  rr_step :: "int option"

definition py_or :: "string option \<Rightarrow> string option \<Rightarrow> string option" where
  "py_or a b = (if or_empty a = [] then b else a)"

text \<open>\<open>^pre(?P<problem>.*)post\n?$\<close> with DOTALL, where \<open>post\<close> does not end in a line feed: the
  optional line feed and \<open>$\<close> let at most two line feeds follow.\<close>

definition match_between :: "string \<Rightarrow> string \<Rightarrow> string \<Rightarrow> string option" where
  "match_between pre post s =
     (if \<not> prefix pre s then None
      else let rest = drop (length pre) s;
               body = dropWhile (\<lambda>c. c = newline) (rev rest)
           in if length rest - length body \<le> 2 \<and> prefix (rev post) body
              then Some (rev (drop (length post) body)) else None)"

definition qwen_chat_patterns :: "(string \<times> string) list" where
  "qwen_chat_patterns =
     [(''user'' @ [newline], newline # ''assistant''),
      (''<|im_start|>user'' @ [newline], ''<|im_end|>'' @ [newline] @ ''<|im_start|>assistant'')]"

fun first_match :: "(string \<times> string) list \<Rightarrow> string \<Rightarrow> string option" where
  "first_match [] s = None"
| "first_match ((pre, post) # ps) s =
     (case match_between pre post s of Some m \<Rightarrow> Some m | None \<Rightarrow> first_match ps s)"

definition problem_from_rollout_row :: "rollout_row \<Rightarrow> string res" where
  "problem_from_rollout_row row =
     (let direct = or_empty (py_or (rr_problem row) (rr_raw_user_text row));
          rendered = or_empty (py_or (rr_input row) (rr_rendered_prompt row))
      in if strip direct \<noteq> [] then Inr (canonical_problem direct)
         else if strip rendered = [] then Inl (ValueError ''rollout row has no non-empty prompt'')
         else case first_match qwen_chat_patterns rendered of
           Some m \<Rightarrow> Inr (canonical_problem m)
         | None \<Rightarrow> Inl (ValueError ''unsupported rendered rollout prompt format''))"

definition problem_digest :: "(string \<Rightarrow> string) \<Rightarrow> string \<Rightarrow> string" where
  "problem_digest sha256 problem = sha256 (canonical_problem problem)"

section \<open>Profiles\<close>

record zpd_profile =
  zp_problem :: string
  zp_rollout_count :: nat
  zp_correct_count :: nat
  zp_valid_wrong_count :: nat
  zp_invalid_count :: nat
  zp_available_rollout_count :: nat
  zp_first_step :: "int option"
  zp_last_step :: "int option"

text \<open>The properties divide by the rollout count, which is positive for every built profile.\<close>

definition empirical_accuracy :: "zpd_profile \<Rightarrow> real" where
  "empirical_accuracy p = real (zp_correct_count p) / real (zp_rollout_count p)"

definition format_valid_rate :: "zpd_profile \<Rightarrow> real" where
  "format_valid_rate p = real (zp_correct_count p + zp_valid_wrong_count p) / real (zp_rollout_count p)"

definition available_rollout_rate :: "zpd_profile \<Rightarrow> real" where
  "available_rollout_rate p = real (zp_available_rollout_count p) / real (zp_rollout_count p)"

definition has_bilateral_valid_siblings :: "zpd_profile \<Rightarrow> bool" where
  "has_bilateral_valid_siblings p \<longleftrightarrow> 0 < zp_correct_count p \<and> 0 < zp_valid_wrong_count p"

definition target_excluded_available_count :: "nat \<Rightarrow> nat \<Rightarrow> nat \<Rightarrow> nat" where
  "target_excluded_available_count correct valid_wrong invalid =
     (if 2 \<le> correct \<and> 1 \<le> valid_wrong then correct else 0)
     + (if 1 \<le> correct \<and> 2 \<le> valid_wrong then valid_wrong else 0)
     + (if 1 \<le> correct \<and> 1 \<le> valid_wrong then invalid else 0)"

fun positive_score :: "pyfloat \<Rightarrow> bool" where
  "positive_score (Fin x) = (0 < x)"
| "positive_score PosInf = True"
| "positive_score _ = False"

fun map_res :: "('a \<Rightarrow> 'b res) \<Rightarrow> 'a list \<Rightarrow> 'b list res" where
  "map_res f [] = Inr []"
| "map_res f (x # xs) = rbind (f x) (\<lambda>y. rbind (map_res f xs) (\<lambda>ys. Inr (y # ys)))"

definition kept_row :: "rollout_row \<Rightarrow> bool" where
  "kept_row row \<longleftrightarrow> \<not> prefix ''pad'' (rr_uid row) \<and> strip (or_empty (py_or (rr_input row) (rr_problem row))) \<noteq> []"

definition build_profile :: "(rollout_row \<Rightarrow> bool) \<Rightarrow> string \<Rightarrow> rollout_row list \<Rightarrow> zpd_profile res" where
  "build_profile format_valid problem rows =
     (let correct = length (filter (\<lambda>row. positive_score (rr_score row)) rows);
          valid = length (filter format_valid rows);
          valid_wrong = int valid - int correct;
          invalid = length rows - valid;
          steps = map the (filter (\<lambda>s. s \<noteq> None) (map rr_step rows))
      in if valid_wrong < 0 then Inl (ValueError ''a correct rollout was marked format-invalid'')
         else Inr \<lparr>zp_problem = problem, zp_rollout_count = length rows, zp_correct_count = correct,
           zp_valid_wrong_count = nat valid_wrong, zp_invalid_count = invalid,
           zp_available_rollout_count = target_excluded_available_count correct (nat valid_wrong) invalid,
           zp_first_step = (if steps = [] then None else Some (Min (set steps))),
           zp_last_step = (if steps = [] then None else Some (Max (set steps)))\<rparr>)"

definition build_profiles ::
  "(string \<Rightarrow> string) \<Rightarrow> (rollout_row \<Rightarrow> bool) \<Rightarrow> rollout_row list \<Rightarrow> zpd_profile list res" where
  "build_profiles sha256 format_valid rows =
     (let kept = filter kept_row rows in
      rbind (map_res problem_from_rollout_row kept) (\<lambda>problems.
      rbind (map_res (\<lambda>(problem, indices). build_profile format_valid problem (map (\<lambda>i. kept ! i) indices))
          (group_rows problems)) (\<lambda>profiles.
        Inr (sort_key (\<lambda>p. problem_digest sha256 (zp_problem p)) profiles))))"

definition select_zpd_profiles ::
  "zpd_profile list \<Rightarrow> int \<Rightarrow> real \<Rightarrow> real \<Rightarrow> real \<Rightarrow> zpd_profile list res" where
  "select_zpd_profiles profiles min_rollouts min_accuracy max_accuracy min_format_valid_rate =
     (if min_rollouts < 2 then Inl (ValueError ''min_rollouts must be at least two'')
      else if \<not> (0 \<le> min_accuracy \<and> min_accuracy \<le> max_accuracy \<and> max_accuracy \<le> 1)
      then Inl (ValueError ''accuracy bounds must satisfy 0 <= min <= max <= 1'')
      else if \<not> (0 \<le> min_format_valid_rate \<and> min_format_valid_rate \<le> 1)
      then Inl (ValueError ''min_format_valid_rate must be in [0, 1]'')
      else Inr (filter (\<lambda>profile. min_rollouts \<le> int (zp_rollout_count profile)
          \<and> has_bilateral_valid_siblings profile
          \<and> min_accuracy \<le> empirical_accuracy profile \<and> empirical_accuracy profile \<le> max_accuracy
          \<and> min_format_valid_rate \<le> format_valid_rate profile) profiles))"

section \<open>Facts\<close>

lemma map_res_Inr: "map_res f xs = Inr ys \<longleftrightarrow> list_all2 (\<lambda>x y. f x = Inr y) xs ys"
  by (induction xs arbitrary: ys) (auto simp: list_all2_Cons1)

lemma map_res_total: "(\<And>x. x \<in> set xs \<Longrightarrow> f x = Inr (g x)) \<Longrightarrow> map_res f xs = Inr (map g xs)"
  by (induction xs) auto

text \<open>A profile whose counts partition its rollouts.\<close>

definition profile_ok :: "zpd_profile \<Rightarrow> bool" where
  "profile_ok p \<longleftrightarrow> 0 < zp_rollout_count p
     \<and> zp_correct_count p + zp_valid_wrong_count p + zp_invalid_count p = zp_rollout_count p
     \<and> zp_available_rollout_count p
       = target_excluded_available_count (zp_correct_count p) (zp_valid_wrong_count p) (zp_invalid_count p)"

lemma build_profile_ok:
  assumes "build_profile fv problem rows = Inr p" "rows \<noteq> []"
  shows "profile_ok p" "zp_problem p = problem" "zp_rollout_count p = length rows"
    "zp_correct_count p = length (filter (\<lambda>row. positive_score (rr_score row)) rows)"
    "zp_correct_count p + zp_valid_wrong_count p = length (filter fv rows)"
  using assms length_filter_le [of fv rows]
  by (auto simp: build_profile_def Let_def profile_ok_def split: if_splits)

lemma available_le:
  "target_excluded_available_count c w i \<le> c + w + i"
  by (simp add: target_excluded_available_count_def)

lemma available_pos_iff:
  "0 < target_excluded_available_count c w i \<longleftrightarrow> 1 \<le> c \<and> 1 \<le> w \<and> 3 \<le> c + w + i"
  by (auto simp: target_excluded_available_count_def)

end
