(* ===== verification/EvidenceProps.thy ===== *)
theory EvidenceProps
  imports ZpdDataset
begin

text \<open>
  Properties of the evidence selection within a rollout batch and of the ZPD prompt profiles.
\<close>

section \<open>Evidence selection\<close>

lemma select_sound:
  assumes ok: "batch_ok ids rids cor fv rs" and m: "1 \<le> m"
  shows "\<exists>E. select_rollout_evidence ids rids cor fv rs req m = Inr E
    \<and> length (es_positive E) = length ids \<and> length (es_negative E) = length ids \<and> length (es_reason E) = length ids
    \<and> (\<forall>t < length ids. let S = {i. sibling ids fv rs t i} in
        (es_positive E ! t = -1 \<and> (\<forall>i \<in> S. \<not> cor ! i)
          \<or> (\<exists>i \<in> S. es_positive E ! t = int i \<and> cor ! i
              \<and> (\<forall>j \<in> S. cor ! j \<longrightarrow> rollout_order (rids ! i) \<le> rollout_order (rids ! j))))
        \<and> length (es_negative E ! t) = nat m
        \<and> (\<forall>n \<in> set (es_negative E ! t). n = -1 \<and> (\<forall>i \<in> S. cor ! i) \<or> (\<exists>i \<in> S. n = int i \<and> \<not> cor ! i))
        \<and> es_reason E ! t = (if \<forall>i \<in> S. \<not> cor ! i then 1 else if req \<and> (\<forall>i \<in> S. cor ! i) then 2 else 0))"
proof -
  let ?sel = "\<lambda>t. select_for_target rids cor fv rs req (nat m) (rows_of ids (ids ! t)) t"
  define E where "E = \<lparr>es_positive = map (\<lambda>t. fst (?sel t)) [0..<length ids],
    es_negative = map (\<lambda>t. fst (snd (?sel t))) [0..<length ids],
    es_reason = map (\<lambda>t. snd (snd (?sel t))) [0..<length ids]\<rparr>"
  have res: "select_rollout_evidence ids rids cor fv rs req m = Inr E"
    by (simp add: select_rollout_evidence_eq [OF ok m] E_def Let_def o_def)
  have at: "?sel t = (es_positive E ! t, es_negative E ! t, es_reason E ! t)" if "t < length ids" for t
    using that by (simp add: E_def)
  have pos: "es_positive E ! t = -1 \<and> (\<forall>i \<in> {i. sibling ids fv rs t i}. \<not> cor ! i)
      \<or> (\<exists>i \<in> {i. sibling ids fv rs t i}. es_positive E ! t = int i \<and> cor ! i
        \<and> (\<forall>j \<in> {i. sibling ids fv rs t i}. cor ! j \<longrightarrow> rollout_order (rids ! i) \<le> rollout_order (rids ! j)))"
    if "t < length ids" for t
    using select_for_target_positive [OF at [OF that]] by blast
  have neg: "length (es_negative E ! t) = nat m"
    "\<forall>n \<in> set (es_negative E ! t). n = -1 \<and> (\<forall>i \<in> {i. sibling ids fv rs t i}. cor ! i)
      \<or> (\<exists>i \<in> {i. sibling ids fv rs t i}. n = int i \<and> \<not> cor ! i)" if "t < length ids" for t
    using select_for_target_negative [OF at [OF that]] by blast+
  have reason: "es_reason E ! t = (if \<forall>i \<in> {i. sibling ids fv rs t i}. \<not> cor ! i then 1
      else if req \<and> (\<forall>i \<in> {i. sibling ids fv rs t i}. cor ! i) then 2 else 0)" if "t < length ids" for t
    using select_for_target_reason [OF at [OF that]] by simp
  show ?thesis
    unfolding Let_def
    by (intro exI [of _ E] conjI res allI impI pos neg reason) (simp_all add: E_def)
qed

text \<open>C32: \<open>select_rollout_evidence\<close> is sound and target-excluded: the positive of a target is the
  correct sibling with the least stable rollout order, or -1 when there is none; every negative is
  an incorrect sibling, or -1 when there is none; and the reason code says exactly which kind of
  sibling is missing. A sibling is another row of the same prompt group with a valid format and a
  non-blank response.\<close>

theorem evidence_sound:
  assumes ok: "batch_ok ids rids cor fv rs" and m: "1 \<le> m"
  shows "\<exists>E. select_rollout_evidence ids rids cor fv rs req m = Inr E
    \<and> length (es_positive E) = length ids \<and> length (es_negative E) = length ids \<and> length (es_reason E) = length ids
    \<and> (\<forall>t < length ids. let S = {i. sibling ids fv rs t i} in
        (es_positive E ! t = -1 \<and> (\<forall>i \<in> S. \<not> cor ! i)
          \<or> (\<exists>i \<in> S. es_positive E ! t = int i \<and> cor ! i
              \<and> (\<forall>j \<in> S. cor ! j \<longrightarrow> rollout_order (rids ! i) \<le> rollout_order (rids ! j))))
        \<and> length (es_negative E ! t) = nat m
        \<and> (\<forall>n \<in> set (es_negative E ! t). n = -1 \<and> (\<forall>i \<in> S. cor ! i) \<or> (\<exists>i \<in> S. n = int i \<and> \<not> cor ! i))
        \<and> es_reason E ! t = (if \<forall>i \<in> S. \<not> cor ! i then 1 else if req \<and> (\<forall>i \<in> S. cor ! i) then 2 else 0))"
  by (rule select_sound [OF ok m])

theorem evidence_sound_witness:
  "\<exists>E. select_rollout_evidence [''p'', ''p''] [''p_0'', ''p_1''] [True, False] [True, True] [''a'', ''b''] True 1 = Inr E
    \<and> length (es_positive E) = 2"
  using evidence_sound [of "[''p'', ''p'']" "[''p_0'', ''p_1'']" "[True, False]" "[True, True]" "[''a'', ''b'']" 1 True]
  by (auto simp: batch_ok_def)

text \<open>A selected row under a renumbering of the batch.\<close>

definition relabel :: "(nat \<Rightarrow> nat) \<Rightarrow> int \<Rightarrow> int" where
  "relabel f p = (if p < 0 then p else int (f (nat p)))"

definition permute :: "(nat \<Rightarrow> nat) \<Rightarrow> 'a list \<Rightarrow> 'a list" where
  "permute f xs = map (\<lambda>i. xs ! f i) [0..<length xs]"

lemma length_permute [simp]: "length (permute f xs) = length xs"
  by (simp add: permute_def)

lemma nth_permute [simp]: "i < length xs \<Longrightarrow> permute f xs ! i = xs ! f i"
  by (simp add: permute_def)

lemma eligible_permute:
  assumes ok: "batch_ok ids rids cor fv rs" and f: "bij_betw f {..<length ids} {..<length ids}"
    and t: "t < length ids"
  shows "eligible_rows rids fv rs (rows_of ids (ids ! f t)) (f t)
    = map f (eligible_rows (permute f rids) (permute f fv) (permute f rs)
        (rows_of (permute f ids) (permute f ids ! t)) t)"
    (is "?el = map f ?el'")
proof (rule map_sorted_distinct_set_unique [where f = "\<lambda>i. rollout_order (rids ! i)"])
  have len: "length rids = length ids" "length fv = length ids" "length rs = length ids" "distinct rids"
    using ok by (simp_all add: batch_ok_def)
  have f_lt: "i < length ids \<Longrightarrow> f i < length ids" and inj: "inj_on f {..<length ids}"
    and surj: "f ` {..<length ids} = {..<length ids}" for i
    using f by (auto simp: bij_betw_def)
  have set': "set ?el' = {i. sibling (permute f ids) (permute f fv) (permute f rs) t i}"
    by (rule set_eligible_rows)
  have in_range: "i < length ids" if "i \<in> set ?el'" for i using that unfolding set' by (simp add: sibling_def)
  have sib: "sibling (permute f ids) (permute f fv) (permute f rs) t i \<longleftrightarrow> i < length ids \<and> sibling ids fv rs (f t) (f i)"
    for i
  proof (cases "i < length ids")
    case True
    then have "f i = f t \<longleftrightarrow> i = t" using inj_on_eq_iff [OF inj, of i t] t by simp
    then show ?thesis using True f_lt [OF True] t len by (simp add: sibling_def)
  qed (simp add: sibling_def)
  show seteq: "set ?el = set (map f ?el')"
  proof -
    have "{i. sibling ids fv rs (f t) i} = f ` {i. i < length ids \<and> sibling ids fv rs (f t) (f i)}"
    proof -
      have "i \<in> f ` {i. i < length ids \<and> sibling ids fv rs (f t) (f i)}" if "sibling ids fv rs (f t) i" for i
      proof -
        have "i \<in> f ` {..<length ids}" using that unfolding surj by (simp add: sibling_def)
        then show ?thesis using that by blast
      qed
      then show ?thesis by auto
    qed
    then show ?thesis by (simp only: set_eligible_rows sib set_map)
  qed
  have inj_key: "inj_on (\<lambda>i. rollout_order (rids ! i)) {..<length ids}"
    using len by (auto intro!: inj_onI dest!: rollout_order_inj simp: nth_eq_iff_index_eq)
  have sub: "set ?el \<subseteq> {..<length ids}" "set (map f ?el') \<subseteq> {..<length ids}"
    unfolding seteq using in_range f_lt by auto
  show "inj_on (\<lambda>i. rollout_order (rids ! i)) (set ?el \<union> set (map f ?el'))"
    by (rule inj_on_subset [OF inj_key]) (use sub in blast)
  have d: "distinct ?el" "distinct ?el'" by (simp_all add: eligible_rows_def rows_of_def)
  show "distinct (map (\<lambda>i. rollout_order (rids ! i)) ?el)"
    using d(1) inj_on_subset [OF inj_key sub(1)] by (simp add: distinct_map)
  have "distinct (map f ?el')" using d(2) inj_on_subset [OF inj] in_range by (auto simp: distinct_map)
  then show "distinct (map (\<lambda>i. rollout_order (rids ! i)) (map f ?el'))"
    using inj_on_subset [OF inj_key sub(2)] by (simp add: distinct_map [of "\<lambda>i. rollout_order (rids ! i)"] del: map_map)
  show "sorted (map (\<lambda>i. rollout_order (rids ! i)) ?el)" by (rule sorted_eligible_rows)
  have "map (\<lambda>i. rollout_order (rids ! i)) (map f ?el') = map (\<lambda>i. rollout_order (permute f rids ! i)) ?el'"
    using in_range len by simp
  then show "sorted (map (\<lambda>i. rollout_order (rids ! i)) (map f ?el'))"
    by (simp only: sorted_eligible_rows)
qed

text \<open>the selection does not depend on the position of the rows in the batch: permuting the
  batch permutes the targets and renumbers the chosen rows, and changes nothing else. Choices
  follow the stable rollout identifiers.\<close>

theorem evidence_batch_order:
  assumes ok: "batch_ok ids rids cor fv rs" and f: "bij_betw f {..<length ids} {..<length ids}" and m: "1 \<le> m"
  shows "\<exists>E E'. select_rollout_evidence ids rids cor fv rs req m = Inr E
    \<and> select_rollout_evidence (permute f ids) (permute f rids) (permute f cor) (permute f fv) (permute f rs) req m = Inr E'
    \<and> (\<forall>t < length ids. es_positive E ! f t = relabel f (es_positive E' ! t)
        \<and> es_negative E ! f t = map (relabel f) (es_negative E' ! t)
        \<and> es_reason E ! f t = es_reason E' ! t)"
proof -
  have f_lt: "i < length ids \<Longrightarrow> f i < length ids" and surj: "f ` {..<length ids} = {..<length ids}"
    and inj: "inj_on f {..<length ids}" for i
    using f by (auto simp: bij_betw_def)
  have len: "length rids = length ids" "length cor = length ids" using ok by (simp_all add: batch_ok_def)
  have ok': "batch_ok (permute f ids) (permute f rids) (permute f cor) (permute f fv) (permute f rs)"
  proof -
    have "permute f rids = map (\<lambda>i. rids ! f i) [0..<length ids]" using len by (simp add: permute_def)
    moreover have "inj_on (\<lambda>i. rids ! f i) {..<length ids}"
      using ok inj f_lt by (auto simp: batch_ok_def inj_on_def nth_eq_iff_index_eq)
    moreover have "[] \<notin> set (permute f rids)"
      using ok f_lt len by (auto simp: batch_ok_def permute_def) (metis nth_mem)
    ultimately show ?thesis using ok by (simp add: batch_ok_def distinct_map atLeast_upt)
  qed
  let ?sel = "\<lambda>t. select_for_target rids cor fv rs req (nat m) (rows_of ids (ids ! t)) t"
  let ?sel' = "\<lambda>t. select_for_target (permute f rids) (permute f cor) (permute f fv) (permute f rs) req (nat m)
    (rows_of (permute f ids) (permute f ids ! t)) t"
  have rel: "?sel (f t) = (case ?sel' t of (p, ns, r) \<Rightarrow> (relabel f p, map (relabel f) ns, r))"
    if t: "t < length ids" for t
  proof -
    let ?el = "eligible_rows (permute f rids) (permute f fv) (permute f rs) (rows_of (permute f ids) (permute f ids ! t)) t"
    have "i < length ids" if "i \<in> set ?el" for i
      using that unfolding set_eligible_rows by (simp add: sibling_def)
    then have filt: "filter (\<lambda>i. P (cor ! i)) (map f ?el) = map f (filter (\<lambda>i. P (permute f cor ! i)) ?el)" for P
      using len by (simp add: filter_map o_def cong: filter_cong)
    show ?thesis
      using filt [of "\<lambda>b. b"] filt [of Not]
      by (simp add: select_for_target_def Let_def eligible_permute [OF ok f t] relabel_def split: list.split)
  qed
  show ?thesis
    using rel f_lt
    by (simp add: select_rollout_evidence_eq [OF ok m] select_rollout_evidence_eq [OF ok' m] Let_def split_def)
qed

theorem evidence_batch_order_witness:
  "\<exists>E E'. select_rollout_evidence [''p'', ''p''] [''p_0'', ''p_1''] [True, False] [True, True] [''a'', ''b''] True 1 = Inr E
    \<and> select_rollout_evidence [''p'', ''p''] [''p_1'', ''p_0''] [False, True] [True, True] [''b'', ''a''] True 1 = Inr E'
    \<and> es_reason E ! 1 = es_reason E' ! 0"
  using evidence_batch_order [of "[''p'', ''p'']" "[''p_0'', ''p_1'']" "[True, False]" "[True, True]" "[''a'', ''b'']"
      "\<lambda>i. 1 - i" 1 True]
  by (auto simp: batch_ok_def permute_def bij_betw_def inj_on_def lessThan_Suc insert_commute)

end
