(* ===== verification/ZpdProps.thy ===== *)
theory ZpdProps
  imports ZpdDataset
begin

text \<open>
  Properties of the ZPD prompt profiles, and their agreement with the evidence selection.
\<close>

section \<open>Availability\<close>

lemma card_union3:
  assumes "finite A" "finite B" "finite C" "A \<inter> B = {}" "(A \<union> B) \<inter> C = {}"
  shows "card (A \<union> B \<union> C) = card A + card B + card C"
  using assms by (simp add: card_Un_disjoint)

lemma card_if: "finite A \<Longrightarrow> card {t \<in> A. P} = (if P then card A else 0)"
  by auto

lemma other_member: "finite A \<Longrightarrow> t \<in> A \<Longrightarrow> (\<exists>i \<in> A. i \<noteq> t) \<longleftrightarrow> 2 \<le> card A"
proof
  assume "finite A" "t \<in> A" "2 \<le> card A"
  then have "A - {t} \<noteq> {}" using card_Diff_singleton [of t A] by (metis card.empty diff_is_0_eq not_less_eq_eq numeral_2_eq_2 Suc_1)
  then show "\<exists>i \<in> A. i \<noteq> t" by auto
next
  assume A: "finite A" "t \<in> A" and "\<exists>i \<in> A. i \<noteq> t"
  then obtain i where "i \<in> A" "i \<noteq> t" by blast
  then have "card {i, t} \<le> card A" using A by (intro card_mono) auto
  then show "2 \<le> card A" using \<open>i \<noteq> t\<close> by simp
qed

lemma card_pos: "finite A \<Longrightarrow> (\<exists>i. i \<in> A) \<longleftrightarrow> 1 \<le> card A"
  by (metis One_nat_def Suc_leI card_gt_0_iff empty_iff ex_in_conv not_one_le_zero card.empty)

lemma other_count: "finite A \<Longrightarrow> (\<exists>i \<in> A. i \<noteq> t) \<longleftrightarrow> (if t \<in> A then 2 else 1) \<le> card A"
  using other_member [of A t] card_pos [of A] by (cases "t \<in> A") auto

lemma available_count:
  assumes fin: "finite C" "finite W" "finite I" and dis: "C \<inter> W = {}" "(C \<union> W) \<inter> I = {}"
  shows "card {t \<in> C \<union> W \<union> I. (\<exists>i \<in> C. i \<noteq> t) \<and> (\<exists>i \<in> W. i \<noteq> t)}
    = target_excluded_available_count (card C) (card W) (card I)"
proof -
  let ?P = "\<lambda>t. (\<exists>i \<in> C. i \<noteq> t) \<and> (\<exists>i \<in> W. i \<noteq> t)"
  have "{t \<in> C \<union> W \<union> I. ?P t} = {t \<in> C. ?P t} \<union> {t \<in> W. ?P t} \<union> {t \<in> I. ?P t}" by blast
  then have "card {t \<in> C \<union> W \<union> I. ?P t} = card {t \<in> C. ?P t} + card {t \<in> W. ?P t} + card {t \<in> I. ?P t}"
    using card_union3 [of "{t \<in> C. ?P t}" "{t \<in> W. ?P t}" "{t \<in> I. ?P t}"] fin dis by auto
  moreover have "{t \<in> C. ?P t} = {t \<in> C. 2 \<le> card C \<and> 1 \<le> card W}"
    "{t \<in> W. ?P t} = {t \<in> W. 1 \<le> card C \<and> 2 \<le> card W}"
    "{t \<in> I. ?P t} = {t \<in> I. 1 \<le> card C \<and> 1 \<le> card W}"
    unfolding other_count [OF fin(1)] other_count [OF fin(2)] using dis by (auto split: if_splits)
  ultimately show ?thesis using fin by (simp add: card_if target_excluded_available_count_def)
qed

text \<open>\<open>target_excluded_available_count\<close> is exactly the number of available targets
  \<open>select_rollout_evidence\<close> finds in a prompt group when it requires a negative, counted from the
  correct, valid wrong and invalid rows of the group, where correct rows have a valid format and
  valid rows a non-blank response.\<close>

theorem available_count_agrees:
  fixes ids :: "'g list" and g :: 'g
  assumes ok: "batch_ok ids rids cor fv rs" and m: "1 \<le> m"
    and valid: "\<forall>i < length ids. cor ! i \<longrightarrow> fv ! i" and words: "\<forall>i < length ids. fv ! i \<longrightarrow> strip (rs ! i) \<noteq> []"
  defines "G \<equiv> {i. i < length ids \<and> ids ! i = g}"
  shows "\<exists>E. select_rollout_evidence ids rids cor fv rs True m = Inr E
    \<and> card {t \<in> G. es_available E ! t} = target_excluded_available_count
        (card {i \<in> G. cor ! i}) (card {i \<in> G. fv ! i \<and> \<not> cor ! i}) (card {i \<in> G. \<not> fv ! i})"
proof -
  let ?C = "{i \<in> G. cor ! i}" and ?W = "{i \<in> G. fv ! i \<and> \<not> cor ! i}" and ?I = "{i \<in> G. \<not> fv ! i}"
  let ?sel = "\<lambda>t. select_for_target rids cor fv rs True (nat m) (rows_of ids (ids ! t)) t"
  obtain E where E: "select_rollout_evidence ids rids cor fv rs True m = Inr E"
    "es_reason E = map (\<lambda>t. snd (snd (?sel t))) [0..<length ids]"
    by (simp add: select_rollout_evidence_eq [OF ok m] Let_def o_def)
  have fin: "finite G" unfolding G_def by simp
  have avail: "es_available E ! t \<longleftrightarrow> (\<exists>i \<in> ?C. i \<noteq> t) \<and> (\<exists>i \<in> ?W. i \<noteq> t)" if t: "t \<in> G" for t
  proof -
    have tl: "t < length ids" "ids ! t = g" using t by (simp_all add: G_def)
    obtain p ns r where s: "?sel t = (p, ns, r)" by (cases "?sel t") auto
    have sib: "sibling ids fv rs t i \<longleftrightarrow> i \<in> G \<and> i \<noteq> t \<and> fv ! i" for i
      using words tl by (auto simp: sibling_def G_def)
    have "es_available E ! t \<longleftrightarrow> r = 0" using E(2) tl s by (simp add: es_available_def)
    also have "\<dots> \<longleftrightarrow> (\<exists>i. sibling ids fv rs t i \<and> cor ! i) \<and> (\<exists>i. sibling ids fv rs t i \<and> \<not> cor ! i)"
      unfolding select_for_target_reason [OF s] by auto
    also have "\<dots> \<longleftrightarrow> (\<exists>i \<in> ?C. i \<noteq> t) \<and> (\<exists>i \<in> ?W. i \<noteq> t)"
      unfolding sib using valid by (auto simp: G_def)
    finally show ?thesis .
  qed
  have parts: "G = ?C \<union> ?W \<union> ?I" using valid by (auto simp: G_def)
  have "{t \<in> G. es_available E ! t} = {t \<in> ?C \<union> ?W \<union> ?I. (\<exists>i \<in> ?C. i \<noteq> t) \<and> (\<exists>i \<in> ?W. i \<noteq> t)}"
    using avail parts by blast
  moreover have "(?C \<union> ?W) \<inter> ?I = {}" using valid by (auto simp: G_def)
  ultimately show ?thesis
    using E(1) available_count [of ?C ?W ?I] fin by fastforce
qed

theorem available_count_agrees_witness:
  "\<exists>E. select_rollout_evidence [''p'', ''p'', ''p''] [''p_0'', ''p_1'', ''p_2''] [True, False, False]
      [True, True, True] [''a'', ''b'', ''c''] True 1 = Inr E
    \<and> card {t \<in> {i. i < 3 \<and> [''p'', ''p'', ''p''] ! i = ''p''}. es_available E ! t}
      = target_excluded_available_count
        (card {i \<in> {i. i < 3 \<and> [''p'', ''p'', ''p''] ! i = ''p''}. [True, False, False] ! i})
        (card {i \<in> {i. i < 3 \<and> [''p'', ''p'', ''p''] ! i = ''p''}. [True, True, True] ! i \<and> \<not> [True, False, False] ! i})
        (card {i \<in> {i. i < 3 \<and> [''p'', ''p'', ''p''] ! i = ''p''}. \<not> [True, True, True] ! i})"
  using available_count_agrees [of "[''p'', ''p'', ''p'']" "[''p_0'', ''p_1'', ''p_2'']" "[True, False, False]"
      "[True, True, True]" "[''a'', ''b'', ''c'']" 1 "''p''"]
  by (simp add: batch_ok_def less_Suc_eq all_conj_distrib strip_def is_space_def numeral_eq_Suc)

section \<open>Canonical problems\<close>

text \<open>\<open>canonical_problem\<close> is a normal form: it is idempotent, and its result has no blank at
  either end, so the problem stored in a profile is the one its digest hashes.\<close>

theorem canonical_problem_idempotent:
  "canonical_problem (canonical_problem s) = canonical_problem s \<and> strip (canonical_problem s) = canonical_problem s
    \<and> problem_digest sha256 (canonical_problem s) = problem_digest sha256 s"
proof -
  define u where "u = strip s"
  define rs where "rs = map rstrip (splitlines u)"
  have canon: "canonical_problem s = join_lines rs" by (simp add: canonical_problem_def u_def rs_def)
  have "strip (join_lines rs) = join_lines rs \<and> canonical_problem (join_lines rs) = join_lines rs"
  proof (cases "u = []")
    case True
    then show ?thesis by (simp add: rs_def splitlines_def join_lines_def canonical_problem_def strip_def)
  next
    case False
    then obtain c w where cw: "u = c # w" by (cases u) auto
    have ends: "\<not> is_space c" "\<not> is_space (last u)" using strip_ends [of s] False cw by (simp_all add: u_def)
    have lines: "splitlines u = split_lines [c] w"
      using ends(1) breaks_are_spaces by (auto simp: splitlines_def cw)
    note first = split_lines_hd [of "[c]" w]
    have lst: "splitlines u \<noteq> []" "last (splitlines u) \<noteq> []" "last (last (splitlines u)) = last u"
      using split_lines_last [of u "[]"] False ends(2) breaks_are_spaces by (auto simp: splitlines_def)
    have rs: "rs \<noteq> []" "last rs = last (splitlines u)" "hd rs \<noteq> []" "hd (hd rs) = c"
      using lst ends first rstrip_facts(1) [of "last (splitlines u)"] rstrip_facts(4) [of "hd (splitlines u)"] lines
      by (simp_all add: rs_def last_map hd_map)
    have "\<forall>l \<in> set rs. \<forall>x \<in> set l. \<not> is_break x"
      using split_lines_no_break [of "[]" u] rstrip_facts(3) by (fastforce simp: rs_def splitlines_def)
    then have "splitlines (join_lines rs) = rs" using split_join_lines [of rs] rs lst by simp
    moreover have "strip (join_lines rs) = join_lines rs"
      using strip_id [of "join_lines rs"] join_lines_ends [OF rs(1)] rs lst ends by simp
    moreover have "map rstrip rs = rs" by (simp add: rs_def rstrip_facts(2))
    ultimately show ?thesis by (simp add: canonical_problem_def)
  qed
  then show ?thesis by (simp add: canon problem_digest_def)
qed

section \<open>Profiles\<close>

lemma rows_of_map:
  "map (\<lambda>i. xs ! i) (rows_of (map f xs) k) = filter (\<lambda>x. f x = k) xs"
proof -
  have "rows_of (map f xs) k = filter (\<lambda>i. f (xs ! i) = k) [0..<length xs]"
    by (auto simp: rows_of_def intro!: filter_cong)
  moreover have "map (\<lambda>i. xs ! i) (filter (\<lambda>i. f (xs ! i) = k) [0..<length xs]) = filter (\<lambda>x. f x = k) xs"
    by (subst (3) map_nth [symmetric]) (simp add: filter_map o_def)
  ultimately show ?thesis by simp
qed

lemma map_res_fails:
  "\<exists>x \<in> set xs. \<exists>e'. f x = Inl e' \<Longrightarrow> (\<And>x e'. x \<in> set xs \<Longrightarrow> f x = Inl e' \<Longrightarrow> e' = e) \<Longrightarrow> map_res f xs = Inl e"
proof (induction xs)
  case (Cons x xs)
  show ?case
  proof (cases "f x")
    case (Inl e')
    then show ?thesis using Cons.prems(2) [of x] by simp
  next
    case (Inr y)
    have "map_res f xs = Inl e" by (rule Cons.IH) (use Cons.prems Inr in auto)
    then show ?thesis using Inr by simp
  qed
qed simp

text \<open>The groups of the kept rows.\<close>

lemma kept_groups:
  assumes "problems = map prob kept" "(x, js) \<in> set (group_rows problems)"
  shows "map (\<lambda>i. kept ! i) js = filter (\<lambda>row. prob row = x) kept" "filter (\<lambda>row. prob row = x) kept \<noteq> []"
proof -
  note spec = group_rows_spec [of problems]
  have "map_of (group_rows problems) x = Some js"
    by (rule map_of_is_SomeI [OF conjunct1 [OF spec] assms(2)])
  then have js: "js = rows_of problems x" "x \<in> set problems" using spec by (auto split: if_splits)
  show "map (\<lambda>i. kept ! i) js = filter (\<lambda>row. prob row = x) kept"
    unfolding js assms(1) by (rule rows_of_map)
  show "filter (\<lambda>row. prob row = x) kept \<noteq> []"
    using js(2) by (auto simp: assms(1) filter_empty_conv)
qed

text \<open>The kept rollouts of a problem.\<close>

definition rollouts_of :: "(rollout_row \<Rightarrow> string) \<Rightarrow> rollout_row list \<Rightarrow> string \<Rightarrow> rollout_row list" where
  "rollouts_of prob rows x = filter (\<lambda>row. kept_row row \<and> prob row = x) rows"

definition has_score :: "rollout_row \<Rightarrow> bool" where
  "has_score row \<longleftrightarrow> positive_score (rr_score row)"

lemma build_profile_Inl:
  "build_profile fv x rows = Inl e \<longleftrightarrow> length (filter fv rows) < length (filter has_score rows)
    \<and> e = ValueError ''a correct rollout was marked format-invalid''"
  by (auto simp: build_profile_def Let_def has_score_def [abs_def])

lemma build_profiles_groups:
  assumes prob: "\<forall>row \<in> set rows. kept_row row \<longrightarrow> problem_from_rollout_row row = Inr (prob row)"
  obtains groups where "build_profiles sha fv rows
      = rbind (map_res (\<lambda>x. build_profile fv x (rollouts_of prob rows x)) groups)
          (\<lambda>profiles. Inr (sort_key (\<lambda>p. problem_digest sha (zp_problem p)) profiles))"
    and "distinct groups" and "set groups = prob ` {row \<in> set rows. kept_row row}"
    and "\<And>x. x \<in> set groups \<longleftrightarrow> rollouts_of prob rows x \<noteq> []"
proof
  define kept where "kept = filter kept_row rows"
  define problems where "problems = map prob kept"
  let ?groups = "map fst (group_rows problems)"
  note spec = group_rows_spec [of problems]
  have of: "rollouts_of prob rows x = filter (\<lambda>row. prob row = x) kept" for x
    by (simp add: rollouts_of_def kept_def conj_commute)
  have map_res_map: "map_res f (map h xs) = map_res (\<lambda>x. f (h x)) xs" for f h and xs :: "(string \<times> nat list) list"
    by (induction xs) simp_all
  have map_res_cong: "(\<And>x. x \<in> set xs \<Longrightarrow> f x = g x) \<Longrightarrow> map_res f xs = map_res g xs"
    for f g and xs :: "(string \<times> nat list) list"
    by (induction xs) simp_all
  have "map_res problem_from_rollout_row kept = Inr problems"
    unfolding problems_def by (rule map_res_total) (use prob in \<open>simp add: kept_def\<close>)
  moreover have "map_res (\<lambda>(problem, indices). build_profile fv problem (map (\<lambda>i. kept ! i) indices)) (group_rows problems)
      = map_res (\<lambda>x. build_profile fv x (rollouts_of prob rows x)) ?groups"
    unfolding map_res_map
    by (rule map_res_cong) (use kept_groups(1) [OF problems_def] in \<open>auto simp: of\<close>)
  ultimately show "build_profiles sha fv rows
      = rbind (map_res (\<lambda>x. build_profile fv x (rollouts_of prob rows x)) ?groups)
          (\<lambda>profiles. Inr (sort_key (\<lambda>p. problem_digest sha (zp_problem p)) profiles))"
    by (simp add: build_profiles_def kept_def Let_def)
  show "distinct ?groups" using spec by blast
  have set: "set ?groups = set problems" using spec by simp
  then show "set ?groups = prob ` {row \<in> set rows. kept_row row}" by (simp add: problems_def kept_def)
  show "x \<in> set ?groups \<longleftrightarrow> rollouts_of prob rows x \<noteq> []" for x
    unfolding set of by (auto simp: problems_def filter_empty_conv)
qed

text \<open>when every kept rollout carries a problem, \<open>build_profiles\<close> fails exactly when some
  prompt has more correct than format-valid rollouts; otherwise it returns one profile per
  problem, in digest order, whose correct, valid wrong and invalid counts partition the kept
  rollouts of the problem.\<close>

theorem build_profiles_spec:
  assumes prob: "\<forall>row \<in> set rows. kept_row row \<longrightarrow> problem_from_rollout_row row = Inr (prob row)"
  defines "R \<equiv> rollouts_of prob rows"
  shows "if \<exists>x. length (filter fv (R x)) < length (filter has_score (R x))
    then build_profiles sha fv rows = Inl (ValueError ''a correct rollout was marked format-invalid'')
    else \<exists>ps. build_profiles sha fv rows = Inr ps
      \<and> distinct (map zp_problem ps) \<and> zp_problem ` set ps = prob ` {row \<in> set rows. kept_row row}
      \<and> sorted (map (\<lambda>p. problem_digest sha (zp_problem p)) ps)
      \<and> (\<forall>p \<in> set ps. profile_ok p \<and> zp_rollout_count p = length (R (zp_problem p))
          \<and> zp_correct_count p = length (filter has_score (R (zp_problem p)))
          \<and> zp_correct_count p + zp_valid_wrong_count p = length (filter fv (R (zp_problem p))))"
proof -
  let ?bad = "\<lambda>x. length (filter fv (R x)) < length (filter has_score (R x))"
  obtain groups where build: "build_profiles sha fv rows = rbind (map_res (\<lambda>x. build_profile fv x (R x)) groups)
        (\<lambda>profiles. Inr (sort_key (\<lambda>p. problem_digest sha (zp_problem p)) profiles))"
    and dist: "distinct groups" and set: "set groups = prob ` {row \<in> set rows. kept_row row}"
    and mem: "\<And>x. x \<in> set groups \<longleftrightarrow> R x \<noteq> []"
    unfolding R_def by (rule build_profiles_groups [OF prob, where sha = sha and fv = fv]) blast
  show ?thesis
  proof (cases "\<exists>x. ?bad x")
    case True
    then obtain x where x: "?bad x" by blast
    then have "x \<in> set groups" unfolding mem by auto
    then have "map_res (\<lambda>x. build_profile fv x (R x)) groups
        = Inl (ValueError ''a correct rollout was marked format-invalid'')"
      using x by (intro map_res_fails) (auto simp: build_profile_Inl)
    then show ?thesis using True by (simp add: build)
  next
    case False
    define val where "val x = projr (build_profile fv x (R x))" for x
    have val: "build_profile fv x (R x) = Inr (val x)" for x
      using False build_profile_Inl [of fv x "R x"] by (cases "build_profile fv x (R x)") (auto simp: val_def)
    have at: "profile_ok (val x) \<and> zp_problem (val x) = x \<and> zp_rollout_count (val x) = length (R x)
        \<and> zp_correct_count (val x) = length (filter has_score (R x))
        \<and> zp_correct_count (val x) + zp_valid_wrong_count (val x) = length (filter fv (R x))"
      if "x \<in> set groups" for x
      using build_profile_ok [OF val] that by (simp add: mem has_score_def [abs_def])
    let ?sorted = "sort_key (\<lambda>p. problem_digest sha (zp_problem p)) (map val groups)"
    have keys: "map zp_problem (map val groups) = groups" using at by (simp add: map_idI)
    then have "distinct (map zp_problem (map val groups))" using dist by (simp only:)
    then have "distinct (map zp_problem ?sorted)"
      unfolding distinct_map [of zp_problem] distinct_sort set_sort .
    moreover have "zp_problem ` set ?sorted = set groups"
      unfolding set_sort set_map [symmetric] keys ..
    moreover have "build_profiles sha fv rows = Inr ?sorted"
      unfolding build by (subst map_res_total [where g = val]) (simp_all add: val)
    moreover have "\<forall>p \<in> set ?sorted. profile_ok p \<and> zp_rollout_count p = length (R (zp_problem p))
          \<and> zp_correct_count p = length (filter has_score (R (zp_problem p)))
          \<and> zp_correct_count p + zp_valid_wrong_count p = length (filter fv (R (zp_problem p)))"
      using at by fastforce
    ultimately show ?thesis
      unfolding if_not_P [OF False] set [symmetric] by (intro exI [of _ ?sorted] conjI) (simp_all only: sorted_sort_key)
  qed
qed

definition sample_row :: "string \<Rightarrow> real \<Rightarrow> rollout_row" where
  "sample_row problem score = \<lparr>rr_uid = ''u'', rr_problem = Some problem, rr_raw_user_text = None, rr_input = None,
     rr_rendered_prompt = None, rr_score = Fin score, rr_step = None\<rparr>"

lemma sample_row_ok:
  "kept_row (sample_row ''x'' r)" "problem_from_rollout_row (sample_row ''x'' r) = Inr ''x''"
  "rr_score (sample_row p r) = Fin r"
  by (simp_all add: sample_row_def kept_row_def problem_from_rollout_row_def py_or_def or_empty_def strip_def
      is_space_def canonical_problem_def splitlines_def is_break_def rstrip_def join_lines_def)

theorem build_profiles_spec_witness:
  "build_profiles (\<lambda>s. s) (\<lambda>_. False) [sample_row ''x'' 1]
    = Inl (ValueError ''a correct rollout was marked format-invalid'')"
proof -
  have "length (filter (\<lambda>_. False) (rollouts_of (\<lambda>_. ''x'') [sample_row ''x'' 1] ''x''))
    < length (filter has_score (rollouts_of (\<lambda>_. ''x'') [sample_row ''x'' 1] ''x''))"
    by (simp add: rollouts_of_def has_score_def sample_row_ok)
  then have "\<exists>x. length (filter (\<lambda>_. False) (rollouts_of (\<lambda>_. ''x'') [sample_row ''x'' 1] x))
    < length (filter has_score (rollouts_of (\<lambda>_. ''x'') [sample_row ''x'' 1] x))" by (rule exI)
  then show ?thesis
    using build_profiles_spec [of "[sample_row ''x'' 1]" "\<lambda>_. ''x''" "\<lambda>_. False" "\<lambda>s. s"]
    by (simp only: if_True) (simp add: sample_row_ok)
qed

text \<open>\<open>select_zpd_profiles\<close> keeps, in order, exactly the profiles inside the requested
  accuracy, format and size bounds that hold both a correct and a valid wrong rollout. So the
  accuracy of a kept profile is strictly between 0 and 1, and it offers at least one available
  rollout exactly when it has three rollouts: at the smallest admitted size of two it offers
  none.\<close>

theorem select_profiles_spec:
  assumes ok: "\<forall>p \<in> set ps. profile_ok p" and n: "2 \<le> min_rollouts"
    and acc: "0 \<le> lo" "lo \<le> hi" "hi \<le> 1" and fmt: "0 \<le> rate" "rate \<le> 1"
  shows "\<exists>qs. select_zpd_profiles ps min_rollouts lo hi rate = Inr qs \<and> subseq qs ps
    \<and> set qs = {p \<in> set ps. min_rollouts \<le> int (zp_rollout_count p) \<and> 0 < zp_correct_count p
        \<and> 0 < zp_valid_wrong_count p \<and> empirical_accuracy p \<in> {lo..hi} \<and> rate \<le> format_valid_rate p}
    \<and> (\<forall>p \<in> set qs. 0 < empirical_accuracy p \<and> empirical_accuracy p < 1 \<and> format_valid_rate p \<le> 1
        \<and> available_rollout_rate p \<le> 1 \<and> (0 < available_rollout_rate p \<longleftrightarrow> 3 \<le> zp_rollout_count p))"
proof -
  have rates: "0 < empirical_accuracy p \<and> empirical_accuracy p < 1 \<and> format_valid_rate p \<le> 1
      \<and> available_rollout_rate p \<le> 1 \<and> (0 < available_rollout_rate p \<longleftrightarrow> 3 \<le> zp_rollout_count p)"
    if "p \<in> set ps" "has_bilateral_valid_siblings p" for p
  proof -
    have P: "0 < zp_rollout_count p"
      "zp_correct_count p + zp_valid_wrong_count p + zp_invalid_count p = zp_rollout_count p"
      "zp_available_rollout_count p
        = target_excluded_available_count (zp_correct_count p) (zp_valid_wrong_count p) (zp_invalid_count p)"
      "0 < zp_correct_count p" "0 < zp_valid_wrong_count p"
      using ok that by (auto simp: profile_ok_def has_bilateral_valid_siblings_def)
    have "zp_available_rollout_count p \<le> zp_rollout_count p"
      "0 < zp_available_rollout_count p \<longleftrightarrow> 3 \<le> zp_rollout_count p"
      using P available_le [of "zp_correct_count p" "zp_valid_wrong_count p" "zp_invalid_count p"]
        available_pos_iff [of "zp_correct_count p" "zp_valid_wrong_count p" "zp_invalid_count p"] by simp_all
    then show ?thesis
      using P by (simp add: empirical_accuracy_def format_valid_rate_def available_rollout_rate_def divide_less_eq
          divide_le_eq zero_less_divide_iff)
  qed
  show ?thesis
    using rates n acc fmt by (auto simp: select_zpd_profiles_def has_bilateral_valid_siblings_def)
qed

theorem select_profiles_spec_witness:
  "\<exists>qs. select_zpd_profiles [\<lparr>zp_problem = ''x'', zp_rollout_count = 2, zp_correct_count = 1, zp_valid_wrong_count = 1,
      zp_invalid_count = 0, zp_available_rollout_count = 0, zp_first_step = None, zp_last_step = None\<rparr>] 2 0 1 0 = Inr qs
    \<and> (\<forall>p \<in> set qs. \<not> 0 < available_rollout_rate p \<or> 3 \<le> zp_rollout_count p)"
proof -
  let ?p = "\<lparr>zp_problem = ''x'', zp_rollout_count = 2, zp_correct_count = 1, zp_valid_wrong_count = 1,
      zp_invalid_count = 0, zp_available_rollout_count = 0, zp_first_step = None, zp_last_step = None\<rparr>"
  have "profile_ok ?p" by (simp add: profile_ok_def target_excluded_available_count_def)
  then obtain qs where "select_zpd_profiles [?p] 2 0 1 0 = Inr qs"
    "\<forall>p \<in> set qs. 0 < available_rollout_rate p \<longleftrightarrow> 3 \<le> zp_rollout_count p"
    using select_profiles_spec [of "[?p]" 2 0 1 0] by auto
  then show ?thesis by blast
qed

end
