(* ===== verification/ActorTeacher.thy ===== *)
theory ActorTeacher
  imports PyStrings "HOL-Library.AList"
begin

text \<open>
  The actor-side Teacher of the native trainer
  (\<open>verl/verl/trainer/distillation/snapshot_teacher.py\<close>): a shadow copy of the trainable actor
  parameters, refreshed from the actor after optimizer updates (every \<open>sync_interval\<close> updates
  in \<open>snapshot\<close> mode, by an exponential moving average in \<open>ema\<close> mode), swapped into the actor
  for a Teacher forward, and checkpointed.

  A tensor is its shape and its flat data; device and dtype moves are identities. A Python dict is
  an association list in insertion order. Every operation returns its result together with the
  state it leaves behind, also when it raises. The parameter shapes of a module are fixed, so the
  in-place updates \<open>mul_\<close>, \<open>add_\<close> and \<open>copy_\<close> combine tensors of one shape and broadcasting is
  not modelled. SHA-256 over the encoded samples is an argument, as is the file system.
\<close>

section \<open>Parameters\<close>

record tensor =
  tn_shape :: "nat list"
  tn_data :: vec

record parameter =
  pa_requires_grad :: bool
  pa_data :: tensor

text \<open>\<open>engine.module.named_parameters()\<close>, and a \<open>dict[str, Tensor]\<close>.\<close>

type_synonym actor = "(string \<times> parameter) list"
type_synonym tensor_dict = "(string \<times> tensor) list"

definition named_trainable_parameters :: "actor \<Rightarrow> tensor_dict" where
  "named_trainable_parameters A = map (\<lambda>(name, p). (name, pa_data p)) (filter (\<lambda>(name, p). pa_requires_grad p) A)"

definition clone_trainable_parameters :: "actor \<Rightarrow> tensor_dict" where
  "clone_trainable_parameters A = foldl (\<lambda>d (name, v). AList.update name v d) [] (named_trainable_parameters A)"

section \<open>The Teacher\<close>

record actor_teacher =
  te_mode :: string
  te_sync_interval :: int
  te_ema_decay :: real
  te_update_count :: int
  te_last_sync :: int
  te_shadow :: tensor_dict

definition init_teacher :: "actor \<Rightarrow> string \<Rightarrow> int \<Rightarrow> pyfloat \<Rightarrow> actor_teacher res" where
  "init_teacher A mode0 sync_interval ema_decay =
     (let mode = lower (strip mode0) in
      if mode \<noteq> ''snapshot'' \<and> mode \<noteq> ''ema''
      then Inl (ValueError ''actor-side Teacher mode must be snapshot or ema'')
      else if sync_interval \<le> 0
      then Inl (ValueError ''actor-side Teacher sync_interval must be positive'')
      else if \<not> (isfinite ema_decay \<and> 0 < the_real ema_decay \<and> the_real ema_decay < 1)
      then Inl (ValueError ''EMA Teacher decay must be in (0, 1)'')
      else let shadow = clone_trainable_parameters A in
        if shadow = [] then Inl (ValueError ''actor-side Teacher requires at least one trainable actor parameter'')
        else Inr \<lparr>te_mode = mode, te_sync_interval = sync_interval, te_ema_decay = the_real ema_decay,
          te_update_count = 0, te_last_sync = 0, te_shadow = shadow\<rparr>)"

text \<open>The two refresh loops over the trainable parameters; a missing name stops the loop with the
  entries before it already refreshed.\<close>

definition ema_tensor :: "real \<Rightarrow> tensor \<Rightarrow> tensor \<Rightarrow> tensor" where
  "ema_tensor decay v p = v\<lparr>tn_data := vadd (vscale decay (tn_data v)) (vscale (1 - decay) (tn_data p))\<rparr>"

definition copy_tensor :: "tensor \<Rightarrow> tensor \<Rightarrow> tensor" where
  "copy_tensor v p = v\<lparr>tn_data := tn_data p\<rparr>"

fun refresh :: "string \<Rightarrow> (tensor \<Rightarrow> tensor \<Rightarrow> tensor) \<Rightarrow> tensor_dict \<Rightarrow> tensor_dict \<Rightarrow> unit res \<times> tensor_dict" where
  "refresh msg f [] shadow = (Inr (), shadow)"
| "refresh msg f ((name, p) # ps) shadow =
     (case map_of shadow name of
        None \<Rightarrow> (Inl (KeyError msg), shadow)
      | Some v \<Rightarrow> refresh msg f ps (AList.update name (f v p) shadow))"

definition after_optimizer_step :: "bool \<Rightarrow> actor \<Rightarrow> actor_teacher \<Rightarrow> bool res \<times> actor_teacher" where
  "after_optimizer_step update_applied A S0 =
     (if \<not> update_applied then (Inr False, S0)
      else let S = S0\<lparr>te_update_count := te_update_count S0 + 1\<rparr> in
        if te_mode S = ''ema''
        then (case refresh ''EMA Teacher is missing actor parameter'' (ema_tensor (te_ema_decay S))
            (named_trainable_parameters A) (te_shadow S) of
            (Inl e, shadow) \<Rightarrow> (Inl e, S\<lparr>te_shadow := shadow\<rparr>)
          | (Inr _, shadow) \<Rightarrow> (Inr True, S\<lparr>te_shadow := shadow, te_last_sync := te_update_count S\<rparr>))
        else if te_update_count S mod te_sync_interval S \<noteq> 0 then (Inr False, S)
        else (case refresh ''actor-side Teacher is missing actor parameter'' copy_tensor
            (named_trainable_parameters A) (te_shadow S) of
            (Inl e, shadow) \<Rightarrow> (Inl e, S\<lparr>te_shadow := shadow\<rparr>)
          | (Inr _, shadow) \<Rightarrow> (Inr True, S\<lparr>te_shadow := shadow, te_last_sync := te_update_count S\<rparr>)))"

section \<open>Swapping the Teacher into the actor\<close>

text \<open>\<open>parameter.data.copy_(value)\<close> for the parameter of a name.\<close>

definition set_param :: "string \<Rightarrow> tensor \<Rightarrow> actor \<Rightarrow> actor" where
  "set_param name v A = map (\<lambda>(n, p). (n, if n = name then p\<lparr>pa_data := copy_tensor (pa_data p) v\<rparr> else p)) A"

fun enter_teacher :: "tensor_dict \<Rightarrow> tensor_dict \<Rightarrow> tensor_dict \<Rightarrow> actor \<Rightarrow> unit res \<times> tensor_dict \<times> actor" where
  "enter_teacher shadow [] backup A = (Inr (), backup, A)"
| "enter_teacher shadow ((name, p) # ps) backup A =
     (case map_of shadow name of
        None \<Rightarrow> (Inl (KeyError ''actor-side Teacher is missing actor parameter''), backup, A)
      | Some v \<Rightarrow> enter_teacher shadow ps (AList.update name p backup) (set_param name v A))"

fun restore_params :: "tensor_dict \<Rightarrow> tensor_dict \<Rightarrow> actor \<Rightarrow> actor" where
  "restore_params backup [] A = A"
| "restore_params backup ((name, p) # ps) A =
     restore_params backup ps (case map_of backup name of None \<Rightarrow> A | Some v \<Rightarrow> set_param name v A)"

text \<open>\<open>with teacher.forward_context(): body\<close>. The body may raise and may change the actor; the
  \<open>finally\<close> clause runs in every case.\<close>

definition forward_context ::
  "actor_teacher \<Rightarrow> (actor \<Rightarrow> 'r res \<times> actor) \<Rightarrow> actor \<Rightarrow> 'r res \<times> actor" where
  "forward_context S body A =
     (case enter_teacher (te_shadow S) (named_trainable_parameters A) [] A of
        (Inl e, backup, A1) \<Rightarrow> (Inl e, restore_params backup (named_trainable_parameters A1) A1)
      | (Inr _, backup, A1) \<Rightarrow>
          (let (r, A2) = body A1 in (r, restore_params backup (named_trainable_parameters A2) A2)))"

section \<open>Fingerprint and checkpoints\<close>

text \<open>At most 16 evenly spaced entries of a flat tensor.\<close>

definition sample_indices :: "nat \<Rightarrow> nat list" where
  "sample_indices n =
     (if n = 0 then []
      else let sample_count = min n 16 in
        if sample_count = 1 then [0]
        else map (\<lambda>i. i * (n - 1) div (sample_count - 1)) [0..<sample_count])"

type_synonym fp_entry = "string \<times> nat list \<times> vec"

definition fingerprint :: "(fp_entry list \<Rightarrow> string) \<Rightarrow> tensor_dict \<Rightarrow> string" where
  "fingerprint sha256 shadow =
     sha256 (map (\<lambda>(name, t). (name, tn_shape t, map (\<lambda>i. tn_data t ! i) (sample_indices (length (tn_data t)))))
       (sort_key fst shadow))"

text \<open>A saved payload; a field of \<open>payload.get\<close> that is absent is \<open>None\<close>. The path of a
  checkpoint is its directory, the world size and the rank.\<close>

record payload =
  pl_version :: "int option"
  pl_mode :: "string option"
  pl_sync_interval :: "int option"
  pl_ema_decay :: "real option"
  pl_update_count :: "int option"
  pl_last_sync :: "int option"
  pl_shadow :: "tensor_dict option"
  pl_fingerprint :: "string option"

type_synonym ckpt_path = "string \<times> nat \<times> nat"
type_synonym ckpt_files = "ckpt_path \<Rightarrow> payload option"

definition state_version :: int where "state_version = 2"

definition save_teacher ::
  "(fp_entry list \<Rightarrow> string) \<Rightarrow> string \<Rightarrow> nat \<Rightarrow> nat \<Rightarrow> actor_teacher \<Rightarrow> ckpt_files \<Rightarrow> ckpt_path \<times> ckpt_files" where
  "save_teacher sha256 dir world_size rank S files =
     (let state_path = (dir, world_size, rank) in
      (state_path, files(state_path \<mapsto>
        \<lparr>pl_version = Some state_version, pl_mode = Some (te_mode S), pl_sync_interval = Some (te_sync_interval S),
         pl_ema_decay = Some (te_ema_decay S), pl_update_count = Some (te_update_count S),
         pl_last_sync = Some (te_last_sync S), pl_shadow = Some (te_shadow S),
         pl_fingerprint = Some (fingerprint sha256 (te_shadow S))\<rparr>)))"

fun load_shadow :: "tensor_dict \<Rightarrow> tensor_dict \<Rightarrow> tensor_dict \<Rightarrow> unit res \<times> tensor_dict" where
  "load_shadow loaded [] shadow = (Inr (), shadow)"
| "load_shadow loaded ((name, current) # rest) shadow =
     (let value = the (map_of loaded name) in
      if tn_shape value \<noteq> tn_shape current
      then (Inl (ValueError ''actor-side Teacher shape mismatch''), shadow)
      else load_shadow loaded rest (AList.update name value shadow))"

definition load_counters ::
  "(fp_entry list \<Rightarrow> string) \<Rightarrow> ckpt_path \<Rightarrow> payload \<Rightarrow> actor_teacher \<Rightarrow> ckpt_path res \<times> actor_teacher" where
  "load_counters sha256 state_path pl S =
     (case pl_update_count pl of
        None \<Rightarrow> (Inl (KeyError ''optimizer_update_count''), S)
      | Some count \<Rightarrow>
        let S = S\<lparr>te_update_count := count\<rparr> in
        (case pl_last_sync pl of
           None \<Rightarrow> (Inl (KeyError ''last_sync_update''), S)
         | Some last_update \<Rightarrow>
           let S = S\<lparr>te_last_sync := last_update\<rparr> in
           if pl_fingerprint pl \<noteq> Some (fingerprint sha256 (te_shadow S))
           then (Inl (ValueError ''actor-side Teacher fingerprint mismatch''), S)
           else (Inr state_path, S)))"

definition load_teacher ::
  "(fp_entry list \<Rightarrow> string) \<Rightarrow> string \<Rightarrow> nat \<Rightarrow> nat \<Rightarrow> ckpt_files \<Rightarrow> actor_teacher \<Rightarrow> ckpt_path res \<times> actor_teacher" where
  "load_teacher sha256 dir world_size rank files S =
     (let state_path = (dir, world_size, rank) in
      case files state_path of
        None \<Rightarrow> (Inl (FileNotFoundError ''actor-side Teacher checkpoint is required for resume''), S)
      | Some pl \<Rightarrow>
        if pl_version pl \<noteq> Some state_version
        then (Inl (ValueError ''unsupported actor-side Teacher checkpoint version''), S)
        else if (case pl_mode pl of None \<Rightarrow> [] | Some m \<Rightarrow> m) \<noteq> te_mode S
        then (Inl (ValueError ''actor-side Teacher mode mismatch''), S)
        else if (case pl_sync_interval pl of None \<Rightarrow> -1 | Some i \<Rightarrow> i) \<noteq> te_sync_interval S
        then (Inl (ValueError ''actor-side Teacher sync interval mismatch''), S)
        else if pl_ema_decay pl \<noteq> Some (te_ema_decay S)
        then (Inl (ValueError ''EMA Teacher decay mismatch''), S)
        else (case pl_shadow pl of
            None \<Rightarrow> (Inl (ValueError ''actor-side Teacher parameter names do not match the current actor''), S)
          | Some loaded \<Rightarrow>
            if set (map fst loaded) \<noteq> set (map fst (te_shadow S))
            then (Inl (ValueError ''actor-side Teacher parameter names do not match the current actor''), S)
            else (case load_shadow loaded (te_shadow S) (te_shadow S) of
                (Inl e, shadow) \<Rightarrow> (Inl e, S\<lparr>te_shadow := shadow\<rparr>)
              | (Inr _, shadow) \<Rightarrow> load_counters sha256 state_path pl (S\<lparr>te_shadow := shadow\<rparr>))))"

end
