(* ===== verification/TeacherProps.thy ===== *)
theory TeacherProps
  imports ActorTeacher
begin

text \<open>
  What the actor-side Teacher guarantees: the refresh loops replace exactly the shadow, the schedule
  of \<open>snapshot\<close> mode and the closed form of \<open>ema\<close> mode over every run, the actor is left untouched
  by a Teacher forward whatever happens inside it, and a checkpoint restores what it saved.
\<close>

section \<open>Well-formed actors\<close>

text \<open>The part of the actor that training never changes: names, \<open>requires_grad\<close> flags, shapes.\<close>

definition frame_of :: "actor \<Rightarrow> (string \<times> bool \<times> nat list) list" where
  "frame_of A = map (\<lambda>(name, p). (name, pa_requires_grad p, tn_shape (pa_data p))) A"

definition wf_actor :: "actor \<Rightarrow> bool" where
  "wf_actor A \<longleftrightarrow> distinct (map fst A)
     \<and> list_all (\<lambda>(name, p). length (tn_data (pa_data p)) = prod_list (tn_shape (pa_data p))) A"

definition same_frame :: "actor \<Rightarrow> actor \<Rightarrow> bool" where
  "same_frame A B \<longleftrightarrow> wf_actor A \<and> wf_actor B \<and> frame_of A = frame_of B"

definition shapes_of :: "tensor_dict \<Rightarrow> (string \<times> nat list) list" where
  "shapes_of d = map (\<lambda>(name, t). (name, tn_shape t)) d"

lemma names_frame: "map fst A = map fst (frame_of A)"
  by (simp add: frame_of_def case_prod_beta o_def)

lemma shapes_trainable:
  "shapes_of (named_trainable_parameters A)
    = map (\<lambda>(name, g, sh). (name, sh)) (filter (\<lambda>(name, g, sh). g) (frame_of A))"
  by (simp add: shapes_of_def named_trainable_parameters_def frame_of_def filter_map o_def case_prod_beta')

lemma names_shapes: "map fst d = map fst (shapes_of d)"
  by (simp add: shapes_of_def case_prod_beta o_def)

lemma distinct_trainable: "wf_actor A \<Longrightarrow> distinct (map fst (named_trainable_parameters A))"
proof -
  assume "wf_actor A"
  then have "distinct (map fst (filter (\<lambda>(name, p). pa_requires_grad p) A))"
    by (simp add: wf_actor_def distinct_map_filter)
  then show ?thesis by (simp add: named_trainable_parameters_def case_prod_beta o_def)
qed

lemma lengths_trainable:
  "wf_actor A \<Longrightarrow> (name, t) \<in> set (named_trainable_parameters A) \<Longrightarrow> length (tn_data t) = prod_list (tn_shape t)"
  by (auto simp: wf_actor_def named_trainable_parameters_def list_all_iff)

lemma same_frame_shapes:
  "same_frame A B \<Longrightarrow> shapes_of (named_trainable_parameters A) = shapes_of (named_trainable_parameters B)"
  by (simp add: same_frame_def shapes_trainable)

section \<open>The refresh loops\<close>

lemma update_append: "k \<notin> fst ` set d \<Longrightarrow> AList.update k v (d @ (k, x) # rest) = d @ (k, v) # rest"
  by (induction d) auto

lemma update_snoc: "k \<notin> fst ` set d \<Longrightarrow> AList.update k v d = d @ [(k, v)]"
  by (induction d) auto

lemma map_of_append_notin: "k \<notin> fst ` set d \<Longrightarrow> map_of (d @ (k, x) # rest) k = Some x"
  by (induction d) auto

lemma clone_trainable:
  assumes "wf_actor A"
  shows "clone_trainable_parameters A = named_trainable_parameters A"
proof -
  have "distinct (map fst (d @ xs)) \<Longrightarrow> foldl (\<lambda>d (name, v). AList.update name v d) d xs = d @ xs" for d xs :: tensor_dict
  proof (induction xs arbitrary: d)
    case (Cons x xs)
    then show ?case using Cons.IH [of "d @ [x]"] by (cases x) (simp add: update_snoc)
  qed simp
  from this [of "[]"] show ?thesis
    using distinct_trainable [OF assms] by (simp add: clone_trainable_parameters_def)
qed

lemma refresh_all:
  assumes "map fst ps = map fst rest" "distinct (map fst (d @ rest))"
  shows "refresh msg f ps (d @ rest) = (Inr (), d @ map2 (\<lambda>(name, v) (_, p). (name, f v p)) rest ps)"
  using assms
proof (induction ps arbitrary: d rest)
  case (Cons x ps)
  obtain name p where x: "x = (name, p)" by force
  obtain v rest' where rest: "rest = (name, v) # rest'"
    using Cons.prems(1) x by (cases rest) auto
  have "name \<notin> fst ` set d" using Cons.prems(2) rest by auto
  then show ?case
    using Cons.IH [of rest' "d @ [(name, f v p)]"] Cons.prems x rest
    by (simp add: map_of_append_notin update_append del: map_of_append)
qed simp

lemma refresh_copy:
  assumes "shapes_of ps = shapes_of shadow" "distinct (map fst shadow)"
  shows "refresh msg copy_tensor ps shadow = (Inr (), ps)"
proof -
  have names: "map fst ps = map fst shadow" using assms(1) names_shapes by metis
  have "map2 (\<lambda>(name, v) (_, p). (name, copy_tensor v p)) shadow ps = ps"
    using assms(1)
  proof (induction ps arbitrary: shadow)
    case (Cons x ps)
    then show ?case by (cases shadow; cases x) (auto simp: shapes_of_def copy_tensor_def)
  qed simp
  then show ?thesis using refresh_all [OF names, of "[]"] assms(2) by simp
qed

section \<open>Runs\<close>

text \<open>The trainer calls \<open>after_optimizer_step\<close> after every optimizer step; \<open>As\<close> are the actors
  after the successful ones.\<close>

inductive teacher_run :: "actor \<Rightarrow> actor_teacher \<Rightarrow> actor list \<Rightarrow> actor_teacher \<Rightarrow> bool" for A0 S0 where
  start: "teacher_run A0 S0 [] S0"
| skipped: "teacher_run A0 S0 As S \<Longrightarrow> after_optimizer_step False A S = (r, S') \<Longrightarrow> teacher_run A0 S0 As S'"
| applied: "teacher_run A0 S0 As S \<Longrightarrow> same_frame A A0 \<Longrightarrow> after_optimizer_step True A S = (r, S')
    \<Longrightarrow> teacher_run A0 S0 (As @ [A]) S'"

lemma init_teacherD:
  assumes "init_teacher A0 m i d = Inr S0" "wf_actor A0"
  shows "te_mode S0 = ''snapshot'' \<or> te_mode S0 = ''ema''" and "0 < te_sync_interval S0"
    and "0 < te_ema_decay S0" "te_ema_decay S0 < 1" and "te_update_count S0 = 0" "te_last_sync S0 = 0"
    and "te_shadow S0 = named_trainable_parameters A0"
  using assms by (auto simp: init_teacher_def Let_def clone_trainable split: if_splits)

lemma run_fixed:
  "teacher_run A0 S0 As S \<Longrightarrow> te_mode S = te_mode S0 \<and> te_sync_interval S = te_sync_interval S0
    \<and> te_ema_decay S = te_ema_decay S0"
  by (induction rule: teacher_run.induct)
    (auto simp: after_optimizer_step_def Let_def split: if_splits prod.splits sum.splits)

lemma run_frames: "teacher_run A0 S0 As S \<Longrightarrow> \<forall>A \<in> set As. same_frame A A0"
  by (induction rule: teacher_run.induct) auto

lemma nth_snoc_history: "n \<le> length As \<Longrightarrow> (A0 # As @ [A]) ! n = (A0 # As) ! n"
  using nth_append [of "A0 # As" "[A]" n] by simp

lemma mod_step:
  assumes "0 < (i :: int)" "0 \<le> n"
  shows "(n + 1) mod i \<noteq> 0 \<Longrightarrow> n + 1 - (n + 1) mod i = n - n mod i"
proof -
  assume nz: "(n + 1) mod i \<noteq> 0"
  have m: "(n + 1) mod i = (n mod i + 1) mod i" by (simp add: mod_add_left_eq)
  have "0 \<le> n mod i" "n mod i < i" using assms by simp_all
  moreover from this nz m have "n mod i + 1 \<noteq> i" by auto
  ultimately have "(n mod i + 1) mod i = n mod i + 1" by (simp add: mod_pos_pos_trivial)
  then show ?thesis using m by simp
qed

text \<open>C34: in \<open>snapshot\<close> mode, after any run the Teacher has counted the successful updates, its last
  synchronisation is the last multiple of the interval, and its shadow holds exactly the trainable
  parameters the actor had at that update (the initial ones before the first synchronisation).\<close>

theorem snapshot_schedule:
  assumes wf: "wf_actor A0" and init: "init_teacher A0 mode i d = Inr S0" and mode: "te_mode S0 = ''snapshot''"
    and run: "teacher_run A0 S0 As S"
  shows "te_update_count S = int (length As)
    \<and> te_last_sync S = int (length As) - int (length As) mod te_sync_interval S
    \<and> te_shadow S = named_trainable_parameters ((A0 # As) ! nat (te_last_sync S))"
proof -
  note I = init_teacherD [OF init wf]
  show ?thesis
    using run
  proof (induction rule: teacher_run.induct)
    case start
    then show ?case using I by simp
  next
    case (skipped As S A r S')
    then show ?case by (simp add: after_optimizer_step_def)
  next
    case (applied As S A r S')
    let ?i = "te_sync_interval S" and ?n = "int (length As)"
    have i: "0 < ?i" "te_mode S = ''snapshot''" using run_fixed [OF applied(1)] I mode by simp_all
    have last: "nat (?n - ?n mod ?i) \<le> length As" using i pos_mod_sign [OF i(1), of ?n] by linarith
    show ?case
    proof (cases "(?n + 1) mod ?i = 0")
      case False
      then have S': "S' = S\<lparr>te_update_count := te_update_count S + 1\<rparr>"
        using applied i by (simp add: after_optimizer_step_def Let_def add.commute)
      show ?thesis
        using applied(4) mod_step [OF i(1) _ False] last False nth_snoc_history [OF last, of A0 A] by (simp add: S' add.commute)
    next
      case True
      have "same_frame A ((A0 # As) ! nat (te_last_sync S))"
        using applied(2) run_frames [OF applied(1)] last applied(4)
        by (cases "nat (te_last_sync S)") (auto simp: same_frame_def)
      then have shapes: "shapes_of (named_trainable_parameters A) = shapes_of (te_shadow S)"
        and dist: "distinct (map fst (te_shadow S))"
        using same_frame_shapes applied(4) distinct_trainable by (auto simp: same_frame_def)
      note copy = refresh_copy [OF shapes dist]
      have S': "S' = S\<lparr>te_update_count := te_update_count S + 1, te_shadow := named_trainable_parameters A,
          te_last_sync := te_update_count S + 1\<rparr>"
        using applied(3,4) True i copy by (simp add: after_optimizer_step_def Let_def add.commute)
      show ?thesis using applied(4) True by (simp add: S' add.commute nat_add_distrib)
    qed
  qed
qed

section \<open>The moving average\<close>

lemma map_of_map2:
  "map fst d = map fst ps \<Longrightarrow> map_of (map2 (\<lambda>(name, v) (_, p). (name, f v p)) d ps) k
    = (case map_of d k of None \<Rightarrow> None | Some v \<Rightarrow> Some (f v (the (map_of ps k))))"
proof (induction d arbitrary: ps)
  case (Cons x d)
  then show ?case by (cases ps; cases x) (auto split: option.splits)
qed simp

lemma shapes_map2:
  "map fst d = map fst ps \<Longrightarrow> (\<And>v p. tn_shape (f v p) = tn_shape v) \<Longrightarrow>
   shapes_of (map2 (\<lambda>(name, v) (_, p). (name, f v p)) d ps) = shapes_of d"
proof (induction d arbitrary: ps)
  case (Cons x d)
  then show ?case by (cases ps; cases x) (auto simp: shapes_of_def)
qed (simp add: shapes_of_def)

lemma ema_tensor_simps [simp]:
  "tn_shape (ema_tensor d v p) = tn_shape v"
  "length (tn_data v) = length (tn_data p) \<Longrightarrow> length (tn_data (ema_tensor d v p)) = length (tn_data v)"
  "j < length (tn_data v) \<Longrightarrow> length (tn_data v) = length (tn_data p)
    \<Longrightarrow> tn_data (ema_tensor d v p) ! j = d * tn_data v ! j + (1 - d) * tn_data p ! j"
  by (simp_all add: ema_tensor_def)

text \<open>Entry \<open>j\<close> of a named tensor, and the average a run of actors is meant to give.\<close>

definition entry :: "tensor_dict \<Rightarrow> string \<Rightarrow> nat \<Rightarrow> real" where
  "entry d name j = tn_data (the (map_of d name)) ! j"

definition ema_of :: "real \<Rightarrow> actor \<Rightarrow> actor list \<Rightarrow> string \<Rightarrow> nat \<Rightarrow> real" where
  "ema_of d A0 As name j = d ^ length As * entry (named_trainable_parameters A0) name j
     + (1 - d) * (\<Sum>k<length As. d ^ (length As - 1 - k) * entry (named_trainable_parameters (As ! k)) name j)"

lemma ema_of_snoc:
  "ema_of d A0 (As @ [A]) name j = d * ema_of d A0 As name j + (1 - d) * entry (named_trainable_parameters A) name j"
proof -
  let ?n = "length As"
  have pow: "d ^ (?n - k) = d * d ^ (?n - 1 - k)" if "k < ?n" for k
  proof -
    have "?n - k = Suc (?n - 1 - k)" using that by simp
    then show ?thesis by (metis power_Suc)
  qed
  have "(\<Sum>k<Suc ?n. d ^ (Suc ?n - 1 - k) * entry (named_trainable_parameters ((As @ [A]) ! k)) name j)
      = (\<Sum>k<?n. d * (d ^ (?n - 1 - k) * entry (named_trainable_parameters (As ! k)) name j))
        + entry (named_trainable_parameters A) name j"
    using pow by (simp add: nth_append mult.assoc)
  then show ?thesis
    by (simp add: ema_of_def sum_distrib_left [symmetric] algebra_simps)
qed

text \<open>The tensors two actors of one frame hold under one name.\<close>

lemma map_of_shapes: "map_option tn_shape (map_of d k) = map_of (shapes_of d) k"
  by (induction d) (auto simp: shapes_of_def)

lemma same_shape_lengths:
  assumes "same_frame A B" "map_of (named_trainable_parameters A) k = Some t"
  obtains t' where "map_of (named_trainable_parameters B) k = Some t'" "tn_shape t' = tn_shape t"
    "length (tn_data t') = length (tn_data t)"
proof -
  have "map_option tn_shape (map_of (named_trainable_parameters B) k) = Some (tn_shape t)"
    using assms map_of_shapes [of "named_trainable_parameters A" k] map_of_shapes [of "named_trainable_parameters B" k]
    by (simp add: same_frame_shapes)
  then obtain t' where t': "map_of (named_trainable_parameters B) k = Some t'" "tn_shape t' = tn_shape t" by auto
  then show thesis
    using that assms map_of_SomeD [OF t'(1)] map_of_SomeD [OF assms(2)] by (auto simp: same_frame_def dest!: lengths_trainable)
qed

lemma ema_step:
  assumes "after_optimizer_step True A S = (r, S')" "te_mode S = ''ema''"
    and "shapes_of (te_shadow S) = shapes_of (named_trainable_parameters A)" "wf_actor A"
  shows "r = Inr True" and "S' = S\<lparr>te_update_count := te_update_count S + 1, te_shadow := map2 (\<lambda>(name, v) (_, p).
      (name, ema_tensor (te_ema_decay S) v p)) (te_shadow S) (named_trainable_parameters A),
    te_last_sync := te_update_count S + 1\<rparr>"
proof -
  have names: "map fst (named_trainable_parameters A) = map fst (te_shadow S)"
    using assms(3) names_shapes by metis
  have "refresh m (ema_tensor (te_ema_decay S)) (named_trainable_parameters A) (te_shadow S)
    = (Inr (), map2 (\<lambda>(name, v) (_, p). (name, ema_tensor (te_ema_decay S) v p)) (te_shadow S) (named_trainable_parameters A))" for m
    using refresh_all [OF names, of "[]"] distinct_trainable [OF assms(4)] names by simp
  then show "r = Inr True" "S' = S\<lparr>te_update_count := te_update_count S + 1, te_shadow := map2 (\<lambda>(name, v) (_, p).
      (name, ema_tensor (te_ema_decay S) v p)) (te_shadow S) (named_trainable_parameters A),
    te_last_sync := te_update_count S + 1\<rparr>"
    using assms(1,2) by (simp_all add: after_optimizer_step_def Let_def)
qed

text \<open>in \<open>ema\<close> mode every successful update synchronises, and after any run each entry of the
  shadow is the exponentially weighted average of the initial parameter and the parameters after
  the successful updates, with weights that sum to one.\<close>

theorem ema_closed_form:
  assumes wf: "wf_actor A0" and init: "init_teacher A0 mode i d = Inr S0" and mode: "te_mode S0 = ''ema''"
    and run: "teacher_run A0 S0 As S"
  shows "te_update_count S = int (length As) \<and> te_last_sync S = int (length As)
    \<and> shapes_of (te_shadow S) = shapes_of (named_trainable_parameters A0)
    \<and> (\<forall>(name, t) \<in> set (named_trainable_parameters A0). \<forall>j < length (tn_data t).
        entry (te_shadow S) name j = ema_of (the_real d) A0 As name j)"
proof -
  note I = init_teacherD [OF init wf]
  have d: "te_ema_decay S0 = the_real d" using init by (auto simp: init_teacher_def Let_def split: if_splits)
  define P where "P = named_trainable_parameters A0"
  have "te_update_count S = int (length As) \<and> te_last_sync S = int (length As) \<and> shapes_of (te_shadow S) = shapes_of P
    \<and> (\<forall>name t. map_of P name = Some t \<longrightarrow> (\<exists>v. map_of (te_shadow S) name = Some v \<and> length (tn_data v) = length (tn_data t)
        \<and> (\<forall>j < length (tn_data t). tn_data v ! j = ema_of (the_real d) A0 As name j)))"
    using run
  proof (induction rule: teacher_run.induct)
    case start
    then show ?case using I by (simp add: P_def ema_of_def entry_def)
  next
    case (skipped As S A r S')
    then show ?case by (simp add: after_optimizer_step_def)
  next
    case (applied As S A r S')
    have A: "shapes_of (te_shadow S) = shapes_of (named_trainable_parameters A)"
      using applied(4) same_frame_shapes [OF applied(2)] by (simp add: P_def)
    have em: "te_mode S = ''ema''" "te_ema_decay S = the_real d" using run_fixed [OF applied(1)] mode d by simp_all
    note S' = ema_step(2) [OF applied(3) em(1) A]
    have wfA: "wf_actor A" using applied(2) by (simp add: same_frame_def)
    have names: "map fst (te_shadow S) = map fst (named_trainable_parameters A)" using A names_shapes by metis
    have at: "\<exists>v. map_of (te_shadow S') name = Some v \<and> length (tn_data v) = length (tn_data t)
        \<and> (\<forall>j < length (tn_data t). tn_data v ! j = ema_of (the_real d) A0 (As @ [A]) name j)"
      if t: "map_of P name = Some t" for name t
    proof -
      obtain v where v: "map_of (te_shadow S) name = Some v" "length (tn_data v) = length (tn_data t)"
        "\<forall>j < length (tn_data t). tn_data v ! j = ema_of (the_real d) A0 As name j"
        using applied(4) t by blast
      have "same_frame A0 A" using applied(2) by (simp add: same_frame_def)
      then obtain p where p: "map_of (named_trainable_parameters A) name = Some p" "length (tn_data p) = length (tn_data t)"
        using same_shape_lengths t unfolding P_def by metis
      show ?thesis
        using v p by (auto simp: S' [OF wfA] map_of_map2 [OF names] em ema_of_snoc entry_def)
    qed
    have "shapes_of (te_shadow S') = shapes_of P"
      using applied(4) by (simp add: S' [OF wfA] shapes_map2 [OF names])
    then show ?case using at applied(4) by (simp add: S' [OF wfA])
  qed
  moreover have "map_of P name = Some t" if "(name, t) \<in> set P" for name t
    using that distinct_trainable [OF wf] by (simp add: P_def map_of_is_SomeI)
  ultimately show ?thesis by (fastforce simp: P_def entry_def)
qed

section \<open>Bounded staleness\<close>

definition run_updates :: "actor list \<Rightarrow> actor_teacher \<Rightarrow> actor_teacher" where
  "run_updates As S = foldl (\<lambda>S A. snd (after_optimizer_step True A S)) S As"

lemma run_updates_run:
  "teacher_run A0 S0 As S \<Longrightarrow> \<forall>B \<in> set Bs. same_frame B A0 \<Longrightarrow> teacher_run A0 S0 (As @ Bs) (run_updates Bs S)"
proof (induction Bs rule: rev_induct)
  case (snoc B Bs)
  then show ?case
    using teacher_run.applied [of A0 S0 "As @ Bs" "run_updates Bs S" B] by (simp add: run_updates_def prod_eq_iff)
qed (simp add: run_updates_def)

lemma run_updates_Suc:
  "k < length Bs \<Longrightarrow> run_updates (take (Suc k) Bs) S = snd (after_optimizer_step True (Bs ! k) (run_updates (take k Bs) S))"
  by (simp add: run_updates_def take_Suc_conv_app_nth)

lemma snapshot_result:
  assumes wf: "wf_actor A0" and init: "init_teacher A0 mode i d = Inr S0" and mode: "te_mode S0 = ''snapshot''"
    and run: "teacher_run A0 S0 As S" and A: "same_frame A A0"
  shows "fst (after_optimizer_step True A S) = Inr ((int (length As) + 1) mod te_sync_interval S0 = 0)"
    and "(int (length As) + 1) mod te_sync_interval S0 = 0 \<Longrightarrow>
      te_shadow (snd (after_optimizer_step True A S)) = named_trainable_parameters A"
proof -
  note I = init_teacherD [OF init wf] and sched = snapshot_schedule [OF wf init mode run]
  have kept: "te_mode S = ''snapshot''" "te_sync_interval S = te_sync_interval S0" using run_fixed [OF run] mode by simp_all
  have "te_last_sync S = int (length As) - int (length As) mod te_sync_interval S0" using sched kept by simp
  then have "nat (te_last_sync S) \<le> length As"
    using I(2) pos_mod_sign [of "te_sync_interval S0" "int (length As)"] by linarith
  then have "same_frame A ((A0 # As) ! nat (te_last_sync S))"
    using A run_frames [OF run] by (cases "nat (te_last_sync S)") (auto simp: same_frame_def)
  then have "shapes_of (named_trainable_parameters A) = shapes_of (te_shadow S)" "distinct (map fst (te_shadow S))"
    using same_frame_shapes sched distinct_trainable by (auto simp: same_frame_def)
  note copy = refresh_copy [OF this]
  show "fst (after_optimizer_step True A S) = Inr ((int (length As) + 1) mod te_sync_interval S0 = 0)"
    "(int (length As) + 1) mod te_sync_interval S0 = 0 \<Longrightarrow>
      te_shadow (snd (after_optimizer_step True A S)) = named_trainable_parameters A"
    using sched kept copy by (simp_all add: after_optimizer_step_def Let_def add.commute)
qed

text \<open>C35: whatever happened before, among any \<open>sync_interval\<close> consecutive successful updates in
  \<open>snapshot\<close> mode exactly one synchronises, and it leaves the Teacher equal to the actor.\<close>

theorem snapshot_sync_live:
  assumes wf: "wf_actor A0" and init: "init_teacher A0 mode i d = Inr S0" and mode: "te_mode S0 = ''snapshot''"
    and run: "teacher_run A0 S0 As S" and Bs: "\<forall>B \<in> set Bs. same_frame B A0" "length Bs = nat (te_sync_interval S0)"
  shows "\<exists>k < length Bs. (\<forall>j < length Bs. fst (after_optimizer_step True (Bs ! j) (run_updates (take j Bs) S)) = Inr (j = k))
    \<and> te_shadow (run_updates (take (Suc k) Bs) S) = named_trainable_parameters (Bs ! k)"
proof -
  let ?i = "te_sync_interval S0" and ?n = "int (length As)"
  have i: "0 < ?i" "int (length Bs) = ?i" using init_teacherD [OF init wf] Bs(2) by simp_all
  have r: "0 \<le> ?n mod ?i" "?n mod ?i < ?i" using i by simp_all
  define k where "k = nat (?i - 1 - ?n mod ?i)"
  have k: "k < length Bs" "int k = ?i - 1 - ?n mod ?i" using i r by (simp_all add: k_def)
  have hit: "(?n + int j + 1) mod ?i = 0 \<longleftrightarrow> j = k" if j: "j < length Bs" for j
  proof -
    have "(?n + int j + 1) mod ?i = (?n mod ?i + int j + 1) mod ?i" by (simp add: mod_add_left_eq add.assoc)
    moreover have "(?n mod ?i + int j + 1) mod ?i = 0 \<longleftrightarrow> ?n mod ?i + int j + 1 = ?i"
    proof
      assume "(?n mod ?i + int j + 1) mod ?i = 0"
      then obtain q where q: "?n mod ?i + int j + 1 = ?i * q" by (auto simp: dvd_eq_mod_eq_0 [symmetric] dvd_def)
      have "0 < ?i * q" "?i * q < ?i * 2" using q r j i by linarith+
      then have "q = 1" using i(1) by (simp add: zero_less_mult_iff)
      then show "?n mod ?i + int j + 1 = ?i" using q by simp
    qed simp
    ultimately show ?thesis using k(2) by linarith
  qed
  have reach: "teacher_run A0 S0 (As @ take j Bs) (run_updates (take j Bs) S)" for j
    using run_updates_run [OF run, of "take j Bs"] Bs(1) by (auto dest: in_set_takeD)
  have at: "fst (after_optimizer_step True (Bs ! j) (run_updates (take j Bs) S)) = Inr (j = k)"
    "j = k \<Longrightarrow> te_shadow (snd (after_optimizer_step True (Bs ! j) (run_updates (take j Bs) S)))
      = named_trainable_parameters (Bs ! j)" if j: "j < length Bs" for j
  proof -
    have "same_frame (Bs ! j) A0" "int (length (As @ take j Bs)) + 1 = ?n + int j + 1" using Bs(1) j by simp_all
    then show "fst (after_optimizer_step True (Bs ! j) (run_updates (take j Bs) S)) = Inr (j = k)"
      "j = k \<Longrightarrow> te_shadow (snd (after_optimizer_step True (Bs ! j) (run_updates (take j Bs) S)))
        = named_trainable_parameters (Bs ! j)"
      using snapshot_result [OF wf init mode reach, of "Bs ! j" j] hit [OF j] by simp_all
  qed
  then show ?thesis using k(1) by (auto simp: run_updates_Suc)
qed

section \<open>The Teacher forward leaves the actor as it was\<close>

definition overwrite :: "(string \<Rightarrow> tensor option) \<Rightarrow> actor \<Rightarrow> actor" where
  "overwrite m A = map (\<lambda>(n, p). (n, case m n of None \<Rightarrow> p | Some v \<Rightarrow> p\<lparr>pa_data := copy_tensor (pa_data p) v\<rparr>)) A"

lemma copy_tensor_twice [simp]: "copy_tensor (copy_tensor x v) w = copy_tensor x w"
  by (simp add: copy_tensor_def)

lemma set_param_overwrite: "set_param name v (overwrite m A) = overwrite (m(name \<mapsto> v)) A"
  by (auto simp: set_param_def overwrite_def split: option.splits)

lemma overwrite_none [simp]: "overwrite (\<lambda>_. None) A = A"
  by (simp add: overwrite_def case_prod_beta')

lemma frame_overwrite [simp]: "frame_of (overwrite m A) = frame_of A"
  by (auto simp: frame_of_def overwrite_def copy_tensor_def split: option.splits)

text \<open>Entering backs up and overwrites the parameters up to the first one the shadow misses.\<close>

lemma enter_teacher_prefix:
  fixes shadow :: tensor_dict
  assumes "distinct (map fst (bk @ ps))"
  defines "m \<equiv> \<lambda>bk n. if n \<in> fst ` set bk then map_of shadow n else None"
    and "qs \<equiv> takeWhile (\<lambda>(n, _). n \<in> fst ` set shadow) ps"
  shows "enter_teacher shadow ps bk (overwrite (m bk) A)
      = (if qs = ps then Inr () else Inl (KeyError ''actor-side Teacher is missing actor parameter''), bk @ qs,
         overwrite (m (bk @ qs)) A)"
  using assms(1) unfolding qs_def
proof (induction ps arbitrary: bk)
  case Nil
  then show ?case by simp
next
  case (Cons x ps)
  obtain n p where x: "x = (n, p)" by force
  show ?case
  proof (cases "map_of shadow n")
    case None
    then have "n \<notin> fst ` set shadow" by (simp add: map_of_eq_None_iff)
    then show ?thesis using None x by simp
  next
    case (Some v)
    then have n: "n \<in> fst ` set shadow" by (metis domI dom_map_of_conv_image_fst)
    have new: "n \<notin> fst ` set bk" using Cons.prems x by auto
    have "(m bk)(n \<mapsto> v) = m (bk @ [(n, p)])" using Some by (auto simp: m_def)
    then show ?thesis
      using Cons.IH [of "bk @ [(n, p)]"] Cons.prems x Some n new
      by (simp add: update_snoc set_param_overwrite)
  qed
qed

lemma restore_params_eq:
  "restore_params bk ps (overwrite m A) = overwrite (\<lambda>n. if n \<in> fst ` set ps \<and> map_of bk n \<noteq> None then map_of bk n else m n) A"
proof (induction ps arbitrary: m)
  case (Cons x ps)
  obtain n p where x: "x = (n, p)" by force
  show ?case
  proof (cases "map_of bk n")
    case None
    then show ?thesis using Cons [of m] x
      by simp (rule arg_cong [where f = "\<lambda>m. overwrite m A"], use None in \<open>auto intro!: ext\<close>)
  next
    case (Some v)
    then have step: "restore_params bk (x # ps) (overwrite m A) = restore_params bk ps (overwrite (m(n \<mapsto> v)) A)"
      using x by (simp add: set_param_overwrite)
    show ?thesis unfolding step Cons [of "m(n \<mapsto> v)"]
      by (rule arg_cong [where f = "\<lambda>m. overwrite m A"]) (use Some x in \<open>auto intro!: ext\<close>)
  qed
qed simp

text \<open>A forward may change parameter values, but neither the frame nor the frozen parameters.\<close>

definition frozen :: "actor \<Rightarrow> actor" where
  "frozen A = filter (\<lambda>(name, p). \<not> pa_requires_grad p) A"

definition keeps_frozen :: "(actor \<Rightarrow> 'r res \<times> actor) \<Rightarrow> bool" where
  "keeps_frozen body \<longleftrightarrow> (\<forall>A. frame_of (snd (body A)) = frame_of A \<and> frozen (snd (body A)) = frozen A)"

lemma frozen_positions:
  "frame_of B = frame_of A \<Longrightarrow> frozen B = frozen A \<Longrightarrow> list_all2 (\<lambda>(n, q) (k, p). n = k
    \<and> pa_requires_grad q = pa_requires_grad p \<and> tn_shape (pa_data q) = tn_shape (pa_data p)
    \<and> (\<not> pa_requires_grad p \<longrightarrow> q = p)) B A"
proof (induction A arbitrary: B)
  case (Cons x A)
  then obtain y B' where B: "B = y # B'" by (cases B) (auto simp: frame_of_def)
  obtain n p q where x: "x = (n, p)" "y = (n, q)"
    using Cons.prems(1) B by (cases x; cases y) (auto simp: frame_of_def)
  have "frame_of B' = frame_of A" "pa_requires_grad q = pa_requires_grad p" "tn_shape (pa_data q) = tn_shape (pa_data p)"
    using Cons.prems(1) B x by (simp_all add: frame_of_def)
  moreover have "frozen B' = frozen A" "\<not> pa_requires_grad p \<longrightarrow> q = p"
    using Cons.prems(2) B x calculation(2) by (auto simp: frozen_def split: if_splits)
  ultimately show ?case using Cons.IH [of B'] B x by simp
qed (simp add: frame_of_def)

lemma overwrite_back:
  "list_all2 (\<lambda>(n, q) (k, p). n = k \<and> pa_requires_grad q = pa_requires_grad p
      \<and> tn_shape (pa_data q) = tn_shape (pa_data p) \<and> (\<not> pa_requires_grad p \<longrightarrow> q = p)) B A
    \<Longrightarrow> \<forall>(n, p) \<in> set A. m n = (if pa_requires_grad p then Some (pa_data p) else None) \<Longrightarrow> overwrite m B = A"
  by (induction rule: list_all2_induct) (auto simp: overwrite_def copy_tensor_def split: if_splits)

lemma map_of_trainable:
  assumes "wf_actor A" "(n, p) \<in> set A"
  shows "map_of (named_trainable_parameters A) n = (if pa_requires_grad p then Some (pa_data p) else None)"
proof (cases "pa_requires_grad p")
  case True
  then have "(n, pa_data p) \<in> set (named_trainable_parameters A)"
    using assms(2) by (force simp: named_trainable_parameters_def)
  then show ?thesis using True distinct_trainable [OF assms(1)] by (simp add: map_of_is_SomeI)
next
  case False
  have "n \<notin> fst ` set (named_trainable_parameters A)"
    using assms False by (force simp: named_trainable_parameters_def wf_actor_def distinct_map inj_on_def)
  then show ?thesis using False by (simp add: map_of_eq_None_iff)
qed

lemma overwrite_restores:
  assumes "wf_actor A" "frame_of B = frame_of A" "frozen B = frozen A"
  shows "overwrite (map_of (named_trainable_parameters A)) B = A"
  by (rule overwrite_back [OF frozen_positions [OF assms(2,3)]]) (use map_of_trainable [OF assms(1)] in auto)

lemma frozen_overwrite:
  "\<forall>(n, p) \<in> set A. \<not> pa_requires_grad p \<longrightarrow> m n = None \<Longrightarrow> frozen (overwrite m A) = frozen A"
  by (induction A) (auto simp: frozen_def overwrite_def split: option.splits)

lemma overwrite_same:
  "\<forall>(n, p) \<in> set A. m n = None \<or> m n = Some (pa_data p) \<Longrightarrow> overwrite m A = A"
  by (induction A) (auto simp: overwrite_def copy_tensor_def split: option.splits)

lemma forward_context_eq:
  assumes wf: "wf_actor A" and body: "keeps_frozen body"
  shows "snd (forward_context S body A) = A
    \<and> fst (forward_context S body A) =
        (if fst ` set (named_trainable_parameters A) \<subseteq> fst ` set (te_shadow S)
         then fst (body (overwrite (map_of (te_shadow S) |` (fst ` set (named_trainable_parameters A))) A))
         else Inl (KeyError ''actor-side Teacher is missing actor parameter''))"
proof -
  let ?P = "named_trainable_parameters A" and ?sh = "te_shadow S"
  define qs where "qs = takeWhile (\<lambda>(n, _). n \<in> fst ` set ?sh) ?P"
  define m where "m n = (if n \<in> fst ` set qs then map_of ?sh n else None)" for n
  have enter: "enter_teacher ?sh ?P [] A = (if qs = ?P then Inr ()
      else Inl (KeyError ''actor-side Teacher is missing actor parameter''), qs, overwrite m A)"
    using enter_teacher_prefix [of "[]" ?P ?sh A] distinct_trainable [OF wf]
    by (simp add: qs_def [symmetric] m_def [abs_def])
  have names: "fst ` set (named_trainable_parameters B) = fst ` set ?P" if "frame_of B = frame_of A" for B
  proof -
    have "shapes_of (named_trainable_parameters B) = shapes_of ?P" using that by (simp add: shapes_trainable)
    then have "map fst (named_trainable_parameters B) = map fst ?P" by (subst (1 2) names_shapes) simp
    then show ?thesis by (metis list.set_map)
  qed
  have sub: "fst ` set qs \<subseteq> fst ` set ?P" unfolding qs_def by (auto dest: set_takeWhileD)
  have all: "qs = ?P \<longleftrightarrow> fst ` set ?P \<subseteq> fst ` set ?sh"
    unfolding qs_def takeWhile_eq_all_conv by (auto simp: image_subset_iff case_prod_beta)
  show ?thesis
  proof (cases "qs = ?P")
    case True
    let ?B = "snd (body (overwrite m A))"
    have B: "frame_of ?B = frame_of A" "frozen ?B = frozen A"
    proof -
      have "frozen (overwrite m A) = frozen A"
      proof (rule frozen_overwrite, clarify)
        fix n p assume n: "(n, p) \<in> set A" "\<not> pa_requires_grad p"
        then have "n \<notin> fst ` set ?P" using map_of_trainable [OF wf n(1)] by (simp add: map_of_eq_None_iff)
        then show "m n = None" using sub by (auto simp: m_def)
      qed
      then show "frame_of ?B = frame_of A" "frozen ?B = frozen A" using body by (simp_all add: keeps_frozen_def)
    qed
    have "(\<lambda>n. if n \<in> fst ` set ?P \<and> map_of ?P n \<noteq> None then map_of ?P n else None) = map_of ?P"
      by (intro ext) (metis map_of_eq_None_iff)
    then have "restore_params ?P (named_trainable_parameters ?B) ?B = overwrite (map_of ?P) ?B"
      using restore_params_eq [of ?P "named_trainable_parameters ?B" "\<lambda>_. None" ?B] names [OF B(1)] by simp
    then have "restore_params ?P (named_trainable_parameters ?B) ?B = A"
      using overwrite_restores [OF wf B] by simp
    moreover have "m = map_of ?sh |` (fst ` set ?P)" using True by (auto simp: m_def [abs_def] restrict_map_def)
    ultimately show ?thesis
      using True enter all by (simp add: forward_context_def case_prod_beta Let_def)
  next
    case False
    define m2 where "m2 n = (if n \<in> fst ` set (named_trainable_parameters (overwrite m A)) \<and> map_of qs n \<noteq> None
      then map_of qs n else m n)" for n
    have frame: "frame_of (overwrite m A) = frame_of A" by simp
    have orig: "m2 n = None \<or> m2 n = Some (pa_data p)" if n: "(n, p) \<in> set A" for n p
    proof (cases "n \<in> fst ` set qs")
      case True
      then obtain v where v: "map_of qs n = Some v" by (metis domD dom_map_of_conv_image_fst)
      then have "(n, v) \<in> set ?P" unfolding qs_def by (auto dest!: map_of_SomeD set_takeWhileD)
      then have "map_of ?P n = Some v" using distinct_trainable [OF wf] by (simp add: map_of_is_SomeI)
      then have "v = pa_data p" using map_of_trainable [OF wf n] by (simp split: if_splits)
      moreover have "n \<in> fst ` set ?P" using True sub by blast
      ultimately show ?thesis using v names [OF frame] by (simp add: m2_def)
    next
      case False
      then show ?thesis by (simp add: m2_def m_def map_of_eq_None_iff)
    qed
    have restored: "restore_params qs (named_trainable_parameters (overwrite m A)) (overwrite m A) = A"
      unfolding restore_params_eq m2_def [symmetric]
      by (rule overwrite_same) (use orig in blast)
    show ?thesis using False enter all restored by (simp add: forward_context_def)
  qed
qed

text \<open>C36: a Teacher forward leaves the actor exactly as it was, whether the forward returns, raises,
  or is never reached because the shadow misses a parameter; when it is reached it sees the actor
  with every trainable parameter replaced by the shadow's value, and its result is passed on.\<close>

theorem forward_context_restores:
  assumes wf: "wf_actor A" and body: "keeps_frozen body"
  shows "snd (forward_context S body A) = A
    \<and> fst (forward_context S body A) =
        (if fst ` set (named_trainable_parameters A) \<subseteq> fst ` set (te_shadow S)
         then fst (body (overwrite (map_of (te_shadow S) |` (fst ` set (named_trainable_parameters A))) A))
         else Inl (KeyError ''actor-side Teacher is missing actor parameter''))"
  by (rule forward_context_eq [OF wf body])

section \<open>Fingerprints and checkpoints\<close>

lemma sample_indices_spec:
  shows "k < length (sample_indices n) \<Longrightarrow> sample_indices n ! k < n"
    and "0 < n \<Longrightarrow> hd (sample_indices n) = 0 \<and> last (sample_indices n) = n - 1"
    and "length (sample_indices n) = min n 16"
proof -
  have bound: "i * (n - 1) div (min n 16 - 1) < n" if "1 < n" "i < min n 16" for i
  proof -
    have "i \<le> min n 16 - 1" using that(2) by linarith
    then have "i * (n - 1) \<le> (min n 16 - 1) * (n - 1)" by (rule mult_le_mono1)
    then have "i * (n - 1) div (min n 16 - 1) \<le> (min n 16 - 1) * (n - 1) div (min n 16 - 1)" by (rule div_le_mono)
    also have "\<dots> = n - 1" using that(1) by simp
    finally show ?thesis using that(1) by simp
  qed
  show "length (sample_indices n) = min n 16" by (auto simp: sample_indices_def Let_def)
  show "k < length (sample_indices n) \<Longrightarrow> sample_indices n ! k < n"
    using bound [of k] by (auto simp: sample_indices_def Let_def split: if_splits)
  show "0 < n \<Longrightarrow> hd (sample_indices n) = 0 \<and> last (sample_indices n) = n - 1"
    by (auto simp: sample_indices_def Let_def hd_map last_map)
qed

lemma load_shadow_all:
  assumes "distinct (map fst (bk @ rest))" "\<forall>(name, v) \<in> set rest. \<exists>w. map_of loaded name = Some w \<and> tn_shape w = tn_shape v"
  shows "load_shadow loaded rest (bk @ rest) = (Inr (), bk @ map (\<lambda>(name, v). (name, the (map_of loaded name))) rest)"
  using assms
proof (induction rest arbitrary: bk)
  case (Cons x rest)
  obtain name v where x: "x = (name, v)" by force
  then obtain w where w: "map_of loaded name = Some w" "tn_shape w = tn_shape v" using Cons.prems(2) by auto
  have "name \<notin> fst ` set bk" using Cons.prems(1) x by auto
  then show ?case
    using Cons.IH [of "bk @ [(name, w)]"] Cons.prems w x by (simp add: update_append)
qed simp

lemma load_same_shapes:
  assumes "shapes_of loaded = shapes_of shadow" "distinct (map fst shadow)"
  shows "load_shadow loaded shadow shadow = (Inr (), loaded)"
proof -
  have names: "map fst loaded = map fst shadow" using assms(1) names_shapes by metis
  have "\<exists>w. map_of loaded name = Some w \<and> tn_shape w = tn_shape v" if "(name, v) \<in> set shadow" for name v
  proof -
    have "map_of shadow name = Some v" using that assms(2) by (simp add: map_of_is_SomeI)
    then have "map_option tn_shape (map_of loaded name) = Some (tn_shape v)"
      using assms(1) map_of_shapes [of loaded name] map_of_shapes [of shadow name] by simp
    then show ?thesis by auto
  qed
  moreover have "map (\<lambda>(name, v). (name, the (map_of loaded name))) shadow = loaded"
  proof -
    have "map (\<lambda>(name, v). (name, the (map_of loaded name))) shadow
        = map (\<lambda>name. (name, the (map_of loaded name))) (map fst shadow)"
      by (simp add: case_prod_beta)
    also have "\<dots> = map (\<lambda>name. (name, the (map_of loaded name))) (map fst loaded)" by (simp only: names)
    also have "\<dots> = map (\<lambda>x. (fst x, the (map_of loaded (fst x)))) loaded" by simp
    also have "\<dots> = loaded"
      by (rule map_idI) (use assms(2) names in \<open>auto simp: map_of_is_SomeI\<close>)
    finally show ?thesis .
  qed
  ultimately show ?thesis using load_shadow_all [of "[]" shadow loaded] assms(2) by auto
qed

definition same_setup :: "actor_teacher \<Rightarrow> actor_teacher \<Rightarrow> bool" where
  "same_setup S F \<longleftrightarrow> te_mode S = te_mode F \<and> te_sync_interval S = te_sync_interval F \<and> te_ema_decay S = te_ema_decay F"

text \<open>resuming from a saved checkpoint restores the Teacher exactly (counters, schedule and
  shadow) in a fresh Teacher of the same configuration and parameters, and a Teacher of another
  mode, interval, decay or parameter set is refused with its state untouched.\<close>

theorem checkpoint_roundtrip:
  assumes saved: "save_teacher sha256 dir w r S files = (path, files')"
    and F: "distinct (map fst (te_shadow F))"
  shows "if same_setup S F \<and> shapes_of (te_shadow S) = shapes_of (te_shadow F)
    then load_teacher sha256 dir w r files' F = (Inr path, S)
    else \<not> same_setup S F \<or> set (map fst (te_shadow S)) \<noteq> set (map fst (te_shadow F))
      \<longrightarrow> (\<exists>msg. load_teacher sha256 dir w r files' F = (Inl (ValueError msg), F))"
proof (cases "same_setup S F \<and> shapes_of (te_shadow S) = shapes_of (te_shadow F)")
  case True
  then have names: "map fst (te_shadow S) = map fst (te_shadow F)" using names_shapes by metis
  have "F\<lparr>te_shadow := te_shadow S, te_update_count := te_update_count S, te_last_sync := te_last_sync S\<rparr> = S"
    using True by (simp add: same_setup_def)
  then show ?thesis
    using True saved load_same_shapes [OF _ F, of "te_shadow S"] arg_cong [OF names, of set]
    by (auto simp: save_teacher_def load_teacher_def load_counters_def same_setup_def Let_def)
next
  case False
  define pl where "pl = \<lparr>pl_version = Some state_version, pl_mode = Some (te_mode S),
    pl_sync_interval = Some (te_sync_interval S), pl_ema_decay = Some (te_ema_decay S),
    pl_update_count = Some (te_update_count S), pl_last_sync = Some (te_last_sync S),
    pl_shadow = Some (te_shadow S), pl_fingerprint = Some (fingerprint sha256 (te_shadow S))\<rparr>"
  have "files' (dir, w, r) = Some pl" using saved by (auto simp: save_teacher_def Let_def pl_def)
  then show ?thesis
    using False by (simp add: load_teacher_def same_setup_def Let_def pl_def)
qed

section \<open>Witnesses\<close>

definition sample_actor :: "real \<Rightarrow> actor" where
  "sample_actor x = [(''w'', \<lparr>pa_requires_grad = True, pa_data = \<lparr>tn_shape = [1], tn_data = [x]\<rparr>\<rparr>),
     (''b'', \<lparr>pa_requires_grad = False, pa_data = \<lparr>tn_shape = [], tn_data = [7]\<rparr>\<rparr>)]"

definition sample_teacher :: "string \<Rightarrow> int \<Rightarrow> real \<Rightarrow> actor_teacher" where
  "sample_teacher mode i x = \<lparr>te_mode = mode, te_sync_interval = i, te_ema_decay = 1/2, te_update_count = 0,
     te_last_sync = 0, te_shadow = [(''w'', \<lparr>tn_shape = [1], tn_data = [x]\<rparr>)]\<rparr>"

lemma sample_actor_ok:
  "wf_actor (sample_actor x)" "same_frame (sample_actor x) (sample_actor y)"
  "named_trainable_parameters (sample_actor x) = [(''w'', \<lparr>tn_shape = [1], tn_data = [x]\<rparr>)]"
  by (simp_all add: sample_actor_def wf_actor_def same_frame_def frame_of_def named_trainable_parameters_def)

lemma sample_teacher_init:
  assumes "mode = ''snapshot'' \<or> mode = ''ema''" "0 < i"
  shows "init_teacher (sample_actor x) mode i (Fin (1/2)) = Inr (sample_teacher mode i x)"
proof -
  have "lower (strip mode) = mode"
    using assms(1) by (auto simp: strip_def is_space_def lower_def lower_char_def)
  then show ?thesis
    using assms by (auto simp: init_teacher_def clone_trainable sample_actor_ok sample_teacher_def)
qed

lemma sample_run:
  assumes "mode = ''snapshot'' \<or> mode = ''ema''"
  shows "teacher_run (sample_actor 1) (sample_teacher mode 2 1) [sample_actor 2, sample_actor 3]
    (run_updates [sample_actor 2, sample_actor 3] (sample_teacher mode 2 1))"
  using run_updates_run [OF teacher_run.start, of "[sample_actor 2, sample_actor 3]" "sample_actor 1"]
  by (simp add: sample_actor_ok)

theorem snapshot_schedule_witness:
  "te_update_count (run_updates [sample_actor 2, sample_actor 3] (sample_teacher ''snapshot'' 2 1)) = 2
    \<and> te_shadow (run_updates [sample_actor 2, sample_actor 3] (sample_teacher ''snapshot'' 2 1))
      = [(''w'', \<lparr>tn_shape = [1], tn_data = [3]\<rparr>)]"
proof -
  have run: "teacher_run (sample_actor 1) (sample_teacher ''snapshot'' 2 1) [sample_actor 2, sample_actor 3]
    (run_updates [sample_actor 2, sample_actor 3] (sample_teacher ''snapshot'' 2 1))" by (rule sample_run) simp
  show ?thesis
    using snapshot_schedule [OF sample_actor_ok(1) sample_teacher_init [of "''snapshot''" 2 1] _ run] run_fixed [OF run]
    by (simp add: sample_actor_ok sample_teacher_def)
qed

theorem ema_closed_form_witness:
  "entry (te_shadow (run_updates [sample_actor 2, sample_actor 3] (sample_teacher ''ema'' 2 1))) ''w'' 0 = 9/4"
proof -
  have run: "teacher_run (sample_actor 1) (sample_teacher ''ema'' 2 1) [sample_actor 2, sample_actor 3]
    (run_updates [sample_actor 2, sample_actor 3] (sample_teacher ''ema'' 2 1))" by (rule sample_run) simp
  show ?thesis
    using ema_closed_form [OF sample_actor_ok(1) sample_teacher_init [of "''ema''" 2 1] _ run]
    by (simp add: sample_actor_ok sample_teacher_def ema_of_def entry_def)
qed

theorem snapshot_sync_live_witness:
  "\<exists>k < 2. te_shadow (run_updates (take (Suc k) [sample_actor 5, sample_actor 6]) (sample_teacher ''snapshot'' 2 1))
    = named_trainable_parameters ([sample_actor 5, sample_actor 6] ! k)"
proof -
  have t: "te_mode (sample_teacher ''snapshot'' 2 1) = ''snapshot''" "te_sync_interval (sample_teacher ''snapshot'' 2 1) = 2"
    by (simp_all add: sample_teacher_def)
  have "\<forall>B \<in> set [sample_actor 5, sample_actor 6]. same_frame B (sample_actor 1)" by (simp add: sample_actor_ok)
  from snapshot_sync_live [OF sample_actor_ok(1) sample_teacher_init [of "''snapshot''" 2 1] t(1) teacher_run.start this]
  show ?thesis unfolding t(2) by (auto simp: numeral_2_eq_2)
qed

text \<open>A forward that reads the parameters, overwrites them with zeros and returns what it read.\<close>

definition zeroing_forward :: "actor \<Rightarrow> tensor_dict res \<times> actor" where
  "zeroing_forward A = (Inr (named_trainable_parameters A),
     map (\<lambda>(n, p). (n, if pa_requires_grad p
       then p\<lparr>pa_data := (pa_data p)\<lparr>tn_data := map (\<lambda>_. 0) (tn_data (pa_data p))\<rparr>\<rparr> else p)) A)"

lemma zeroing_keeps_frozen: "keeps_frozen zeroing_forward"
proof -
  have "frame_of (snd (zeroing_forward A)) = frame_of A \<and> frozen (snd (zeroing_forward A)) = frozen A" for A
    by (induction A) (auto simp: zeroing_forward_def frame_of_def frozen_def)
  then show ?thesis by (simp add: keeps_frozen_def)
qed

theorem forward_context_restores_witness:
  "forward_context (sample_teacher ''snapshot'' 2 9) zeroing_forward (sample_actor 1)
    = (Inr [(''w'', \<lparr>tn_shape = [1], tn_data = [9]\<rparr>)], sample_actor 1)"
proof -
  have "fst (zeroing_forward (overwrite (map_of (te_shadow (sample_teacher ''snapshot'' 2 9)) |` {''w''}) (sample_actor 1)))
    = Inr [(''w'', \<lparr>tn_shape = [1], tn_data = [9]\<rparr>)]"
    by (simp add: zeroing_forward_def overwrite_def sample_actor_def sample_teacher_def named_trainable_parameters_def
        copy_tensor_def)
  then show ?thesis
    using forward_context_restores [OF sample_actor_ok(1) zeroing_keeps_frozen, of "sample_teacher ''snapshot'' 2 9" 1]
    by (auto simp: prod_eq_iff sample_actor_ok sample_teacher_def)
qed

theorem checkpoint_roundtrip_witness:
  "load_teacher (\<lambda>xs. concat (map fst xs)) ''ckpt'' 1 0
      (snd (save_teacher (\<lambda>xs. concat (map fst xs)) ''ckpt'' 1 0 (sample_teacher ''ema'' 2 9) (\<lambda>_. None)))
      (sample_teacher ''ema'' 2 1)
    = (Inr (''ckpt'', 1, 0), sample_teacher ''ema'' 2 9)"
proof -
  obtain path files where saved: "save_teacher (\<lambda>xs. concat (map fst xs)) ''ckpt'' 1 0 (sample_teacher ''ema'' 2 9)
    (\<lambda>_. None) = (path, files)" by (rule prod.exhaust)
  then have "path = (''ckpt'', 1, 0)" by (simp add: save_teacher_def Let_def)
  then show ?thesis
    using checkpoint_roundtrip [OF saved, of "sample_teacher ''ema'' 2 1"] saved
    by (simp add: sample_teacher_def same_setup_def shapes_of_def)
qed

end
