(* ===== verification/NativeTopk.thy ===== *)
theory NativeTopk
  imports FullLosses
begin

text \<open>
  The truncated vocabulary of the native trainer
  (\<open>verl/verl/trainer/distillation/verpo_topk.py\<close>): the chunked log-partition with its custom
  backward pass, the explicit support, the gathers, the moments and the geometric correction on
  flattened token rows. A tensor of shape \<open>[N, V]\<close> is its width and its rows. The functions of
  one row that this module shares with the package (the moments, the duplicate mask) are those of
  the theories \<open>TopkSupport\<close> and \<open>TopkMoments\<close>; the token IDs of a support are integers
  because their range is only checked by the gathers.
\<close>

section \<open>Flattened tensors\<close>

record flat =
  ft_v :: nat
  ft_rows :: "vec list"

definition flat_shape :: "flat \<Rightarrow> nat list" where
  "flat_shape L = [length (ft_rows L), ft_v L]"

definition wf_flat :: "flat \<Rightarrow> bool" where
  "wf_flat L \<longleftrightarrow> (\<forall>z \<in> set (ft_rows L). length z = ft_v L)"

definition flat_map2 :: "(vec \<Rightarrow> vec \<Rightarrow> vec) \<Rightarrow> flat \<Rightarrow> flat \<Rightarrow> flat" where
  "flat_map2 f A B = A\<lparr>ft_rows := map2 f (ft_rows A) (ft_rows B)\<rparr>"

section \<open>Chunked log-partition\<close>

definition chunked_logsumexp_at :: "nat \<Rightarrow> nat \<Rightarrow> real \<Rightarrow> vec \<Rightarrow> real option" where
  "chunked_logsumexp_at n c scale z = chunk_lse n c (\<lambda>a b. scaled scale (slice a b z))"

definition chunked_logsumexp :: "flat \<Rightarrow> pyfloat \<Rightarrow> int \<Rightarrow> vec res" where
  "chunked_logsumexp L temperature vocab_chunk_size =
     (if \<not> isfinite temperature \<or> the_real temperature \<le> 0
      then Inl (ValueError ''temperature must be positive and finite'')
      else if vocab_chunk_size \<le> 0 then Inl (ValueError ''vocab_chunk_size must be positive'')
      else if ft_v L = 0 then Inl (ValueError ''logits must have a non-empty vocabulary dimension'')
      else Inr (map (\<lambda>z. the (chunked_logsumexp_at (ft_v L) (nat vocab_chunk_size) (the_real temperature) z))
        (ft_rows L)))"

text \<open>\<open>_ChunkedLogsumexp.backward\<close> on one row: the gradient of the loss in the logits, from the
  saved \<open>log_z\<close> and the gradient in the result.\<close>

definition chunked_logsumexp_backward :: "nat \<Rightarrow> nat \<Rightarrow> real \<Rightarrow> vec \<Rightarrow> real \<Rightarrow> real \<Rightarrow> vec" where
  "chunked_logsumexp_backward n c scale z log_z grad_output =
     chunk_cat n c (\<lambda>a b.
       let probabilities = vexp (vshift (scaled scale (slice a b z)) log_z)
       in map (\<lambda>p. grad_output * p / scale) probabilities)"

section \<open>Vocabulary configuration\<close>

definition native_validate_vocab :: "string \<Rightarrow> int \<Rightarrow> unit res" where
  "native_validate_vocab vocab_mode top_k =
     (if vocab_mode \<noteq> ''full'' \<and> vocab_mode \<noteq> ''topk_truncated''
      then Inl (ValueError ''VERPO vocab_mode must be full or topk_truncated'')
      else if top_k \<le> 0 then Inl (ValueError ''VERPO top_k must be positive'')
      else Inr ())"

definition native_use_full_vocab :: "string \<Rightarrow> int \<Rightarrow> nat \<Rightarrow> bool res" where
  "native_use_full_vocab vocab_mode top_k vocab_size =
     rbind (native_validate_vocab vocab_mode top_k) (\<lambda>_.
       Inr (vocab_mode = ''full'' \<or> int vocab_size \<le> top_k))"

section \<open>Support\<close>

record flat_support =
  fu_w :: nat
  fu_ids :: "int list list"
  fu_valid :: "bool list list"

definition flat_support_row ::
  "(nat \<Rightarrow> vec \<Rightarrow> nat list) \<Rightarrow> nat \<Rightarrow> vec list \<Rightarrow> int \<Rightarrow> int list \<times> bool list" where
  "flat_support_row topk k sources y =
     (let sorted_ids = sort (map int (concat (map (topk k) sources)) @ [y]);
          valid = new_flags sorted_ids
      in (where_else 0 valid sorted_ids, valid))"

definition native_topk_support ::
  "(nat \<Rightarrow> vec \<Rightarrow> nat list) \<Rightarrow> flat list \<Rightarrow> int list \<Rightarrow> int \<Rightarrow> flat option \<Rightarrow> flat_support res" where
  "native_topk_support topk teacher_logits sampled_token_ids top_k student_logits =
     (case teacher_logits of
        [] \<Rightarrow> Inl (ValueError ''teacher_logits must not be empty'')
      | first # _ \<Rightarrow>
        if \<not> list_all (\<lambda>L. flat_shape L = flat_shape first) teacher_logits
        then Inl (ValueError ''Teacher logits must have identical shapes'')
        else if (case student_logits of None \<Rightarrow> False | Some S \<Rightarrow> flat_shape S \<noteq> flat_shape first)
        then Inl (ValueError ''Student and Teacher logits must match'')
        else if length sampled_token_ids \<noteq> length (ft_rows first)
        then Inl (ValueError ''sampled_token_ids must match token dimensions'')
        else let
          sources = teacher_logits @ (case student_logits of None \<Rightarrow> [] | Some S \<Rightarrow> [S]);
          k = min (nat top_k) (ft_v first);
          rows = map (\<lambda>t. flat_support_row topk k (map (\<lambda>L. ft_rows L ! t) sources) (sampled_token_ids ! t))
            [0..<length (ft_rows first)]
        in Inr \<lparr>fu_w = length sources * k + 1, fu_ids = map fst rows, fu_valid = map snd rows\<rparr>)"

section \<open>Gathers\<close>

text \<open>The two guards the gathers share: token dimensions, and valid IDs inside the vocabulary.\<close>

definition check_gather :: "string \<Rightarrow> flat \<Rightarrow> flat_support \<Rightarrow> unit res" where
  "check_gather msg L U =
     (if length (fu_ids U) \<noteq> length (ft_rows L) then Inl (ValueError msg)
      else if list_ex (\<lambda>(ids, valid). list_ex (\<lambda>(k, v). v \<and> (k < 0 \<or> int (ft_v L) \<le> k)) (zip ids valid))
        (zip (fu_ids U) (fu_valid U))
      then Inl (ValueError ''support token_ids must be valid vocabulary IDs'')
      else Inr ())"

definition flat_gather_row :: "real \<Rightarrow> vec \<Rightarrow> real \<Rightarrow> int list \<Rightarrow> bool list \<Rightarrow> vec" where
  "flat_gather_row scale z log_z ids valid =
     (let safe_ids = where_else 0 valid ids;
          selected = map (\<lambda>k. z ! nat k / scale - log_z) safe_ids
      in where_else 0 valid selected)"

definition native_gather_log_probs :: "flat \<Rightarrow> flat_support \<Rightarrow> pyfloat \<Rightarrow> int \<Rightarrow> flat res" where
  "native_gather_log_probs L U temperature vocab_chunk_size =
     rbind (check_gather ''support must match the logits token dimensions'' L U) (\<lambda>_.
     rbind (chunked_logsumexp L temperature vocab_chunk_size) (\<lambda>log_z.
       Inr \<lparr>ft_v = fu_w U, ft_rows = map (\<lambda>t. flat_gather_row (the_real temperature) (ft_rows L ! t) (log_z ! t)
         (fu_ids U ! t) (fu_valid U ! t)) [0..<length (ft_rows L)]\<rparr>))"

text \<open>\<open>torch.finfo(torch.float32).tiny\<close>.\<close>

definition float32_tiny :: real where
  "float32_tiny = 1 / 2 ^ 126"

definition pre_normalized_row :: "vec \<Rightarrow> int list \<Rightarrow> bool list \<Rightarrow> vec" where
  "pre_normalized_row q ids valid =
     (let safe_ids = where_else 0 valid ids;
          selected = map (\<lambda>k. ln (clamp_min float32_tiny (q ! nat k))) safe_ids
      in where_else 0 valid selected)"

definition gather_pre_normalized_log_probs :: "flat \<Rightarrow> flat_support \<Rightarrow> flat res" where
  "gather_pre_normalized_log_probs Q U =
     rbind (check_gather ''support must match the probability token dimensions'' Q U) (\<lambda>_.
       Inr \<lparr>ft_v = fu_w U, ft_rows = map (\<lambda>t. pre_normalized_row (ft_rows Q ! t) (fu_ids U ! t) (fu_valid U ! t))
         [0..<length (ft_rows Q)]\<rparr>)"

definition flat_masked_sum :: "vec list \<Rightarrow> flat_support \<Rightarrow> vec" where
  "flat_masked_sum values U = map2 (\<lambda>valid xs. vsum (where_else 0 valid xs)) (fu_valid U) values"

definition flat_support_mass :: "flat \<Rightarrow> flat_support \<Rightarrow> vec" where
  "flat_support_mass selected U = flat_masked_sum (map vexp (ft_rows selected)) U"

section \<open>Moments\<close>

definition support_shape :: "flat_support \<Rightarrow> nat list" where
  "support_shape U = [length (fu_ids U), fu_w U]"

text \<open>The guards on the operands of the moments: the support shape and the epsilon.\<close>

definition check_moments ::
  "string \<Rightarrow> string \<Rightarrow> flat \<Rightarrow> flat \<Rightarrow> flat_support \<Rightarrow> flat option \<Rightarrow> pyfloat \<Rightarrow> unit res" where
  "check_moments task_msg nuisance_msg student_log_probs task U nuisance projection_epsilon =
     (if flat_shape student_log_probs \<noteq> support_shape U
      then Inl (ValueError ''student_log_probs must match the support shape'')
      else if flat_shape task \<noteq> support_shape U then Inl (ValueError task_msg)
      else if (case nuisance of None \<Rightarrow> False | Some N \<Rightarrow> flat_shape N \<noteq> support_shape U)
      then Inl (ValueError nuisance_msg)
      else if \<not> isfinite projection_epsilon \<or> the_real projection_epsilon \<le> 0
      then Inl (ValueError ''projection_epsilon must be finite and positive'')
      else Inr ())"

definition flat_row_opt :: "flat option \<Rightarrow> nat \<Rightarrow> vec option" where
  "flat_row_opt A t = map_option (\<lambda>L. ft_rows L ! t) A"

definition native_forward_moments ::
  "flat \<Rightarrow> flat \<Rightarrow> flat_support \<Rightarrow> flat option \<Rightarrow> pyfloat \<Rightarrow> forward_moment_row list res" where
  "native_forward_moments student_log_probs task U nuisance projection_epsilon =
     rbind (check_moments ''task must match the support shape'' ''nuisance must match the support shape''
         student_log_probs task U nuisance projection_epsilon) (\<lambda>_.
       Inr (map (\<lambda>t. forward_moments_at (ft_rows student_log_probs ! t) (ft_rows task ! t) (fu_valid U ! t)
         (flat_row_opt nuisance t) (the_real projection_epsilon)) [0..<length (ft_rows student_log_probs)]))"

definition native_reverse_tangent_moments ::
  "flat \<Rightarrow> flat \<Rightarrow> flat_support \<Rightarrow> flat option \<Rightarrow> pyfloat \<Rightarrow> tangent_moments list res" where
  "native_reverse_tangent_moments student_log_probs task_log_ratio U nuisance_log_ratio projection_epsilon =
     rbind (check_moments ''task_log_ratio must match the support shape''
         ''nuisance_log_ratio must match the support shape''
         student_log_probs task_log_ratio U nuisance_log_ratio projection_epsilon) (\<lambda>_.
       Inr (map (\<lambda>t. reverse_tangent_moments_at (ft_rows student_log_probs ! t) (ft_rows task_log_ratio ! t)
         (fu_valid U ! t) (flat_row_opt nuisance_log_ratio t) (the_real projection_epsilon))
         [0..<length (ft_rows student_log_probs)]))"

section \<open>Geometric correction\<close>

definition native_geometric_at :: "real \<Rightarrow> vec \<Rightarrow> vec \<Rightarrow> vec \<Rightarrow> real \<Rightarrow> bool list \<Rightarrow> real option" where
  "native_geometric_at scale student_log_probs base_log_probs log_ratio weight valid =
     (let detached_weight = clamp 0 1 weight;
          detached_ratio = where_else 0 valid log_ratio;
          base_density = masked_logsumexp valid base_log_probs;
          geometric_density = masked_logsumexp valid (vadd base_log_probs (vscale detached_weight detached_ratio));
          student_probabilities = where_else 0 valid (vexp student_log_probs);
          retained_mass = vsum student_probabilities;
          expected_ratio = vsum (vmul student_probabilities detached_ratio)
      in case (geometric_density, base_density) of
           (Some a, Some b) \<Rightarrow> Some (scale * (retained_mass * (a - b) - detached_weight * expected_ratio))
         | _ \<Rightarrow> None)"

definition native_geometric_correction ::
  "flat \<Rightarrow> flat \<Rightarrow> flat \<Rightarrow> vec \<Rightarrow> flat_support \<Rightarrow> real \<Rightarrow> vec res" where
  "native_geometric_correction student_log_probs base_log_probs log_ratio weights U temperature =
     (let correction = map (\<lambda>t. native_geometric_at temperature (ft_rows student_log_probs ! t)
          (ft_rows base_log_probs ! t) (ft_rows log_ratio ! t) (weights ! t) (fu_valid U ! t))
          [0..<length (ft_rows student_log_probs)]
      in if None \<in> set correction then Inl (ValueError ''Reverse-KL correction must be finite'')
         else Inr (map the correction))"

end
