(* ===== verification/NativeLosses.thy ===== *)
theory NativeLosses
  imports NativeTopk Controller
begin

text \<open>
  The losses of the native trainer (\<open>verl/verl/trainer/distillation/verpo_zpd.py\<close>): the
  controller guards, the group gate by UID, \<open>_compute_flat_verpo_losses_full\<close>,
  \<open>_compute_flat_truncated_verpo_losses\<close> and their dispatch \<open>compute_flat_verpo_losses\<close>, on
  flattened token rows. The two moment passes and the two anchors that this module shares with the
  package token for token are the definitions \<open>fec_first_pass\<close>, \<open>fec_second_pass\<close>,
  \<open>reverse_fec_pass\<close>, \<open>reverse_fec_result\<close>, \<open>reference_kl_at\<close>, \<open>reverse_reference_at\<close> and
  \<open>token_weight\<close>. A token tensor of another length than \<open>N\<close> is refused by the exact loss; in
  the truncated loss, where PyTorch would broadcast or raise, it is a \<open>RuntimeError\<close>.
\<close>

section \<open>Controller guards\<close>

text \<open>Comparisons of a host float with zero; they are false on NaN.\<close>

fun pf_neg :: "pyfloat \<Rightarrow> bool" where
  "pf_neg (Fin x) \<longleftrightarrow> x < 0"
| "pf_neg NegInf \<longleftrightarrow> True"
| "pf_neg x \<longleftrightarrow> False"

fun pf_nonpos :: "pyfloat \<Rightarrow> bool" where
  "pf_nonpos (Fin x) \<longleftrightarrow> x \<le> 0"
| "pf_nonpos NegInf \<longleftrightarrow> True"
| "pf_nonpos x \<longleftrightarrow> False"

record verpo_args =
  va_tau :: pyfloat
  va_rho :: pyfloat
  va_cost_floor :: pyfloat
  va_cost_beta :: pyfloat
  va_cost_alpha :: "pyfloat option"
  va_cost_epsilon :: "pyfloat option"
  va_allow_negative_benefit :: bool
  va_temperature :: pyfloat
  va_vocab_chunk_size :: int
  va_divergence :: string
  va_displacement_mode :: string
  va_projection_epsilon :: pyfloat
  va_vocab_mode :: string
  va_top_k :: int

definition validate_verpo_controller :: "verpo_args \<Rightarrow> unit res" where
  "validate_verpo_controller P =
     (if list_ex (\<lambda>x. \<not> isfinite x) [va_tau P, va_rho P, va_cost_floor P, va_cost_beta P, va_temperature P]
      then Inl (ValueError ''VERPO controller values must be finite'')
      else if the_real (va_tau P) \<le> 0 \<or> the_real (va_temperature P) \<le> 0
      then Inl (ValueError ''temperature and tau must be positive'')
      else case (va_cost_alpha P, va_cost_epsilon P) of
        (None, None) \<Rightarrow>
          if min (the_real (va_rho P)) (min (the_real (va_cost_floor P)) (the_real (va_cost_beta P))) < 0
          then Inl (ValueError ''VERPO cost parameters must be nonnegative'')
          else if the_real (va_rho P) + the_real (va_cost_floor P) \<le> 0
          then Inl (ValueError ''rho + cost_floor must define a positive movement-cost term'')
          else Inr ()
      | (Some alpha, Some epsilon) \<Rightarrow>
          if pf_neg alpha \<or> pf_nonpos epsilon
          then Inl (ValueError ''cost_alpha must be nonnegative and cost_epsilon positive'')
          else Inr ()
      | _ \<Rightarrow> Inl (ValueError ''cost_alpha and cost_epsilon must be set together''))"

definition resolve_cost_parameters :: "verpo_args \<Rightarrow> (real \<times> real) res" where
  "resolve_cost_parameters P =
     rbind (case (va_cost_alpha P, va_cost_epsilon P) of
         (None, None) \<Rightarrow> Inr (pf_mul (va_tau P) (va_cost_beta P),
           pf_mul (va_tau P) (pf_add (va_rho P) (va_cost_floor P)))
       | (Some alpha, Some epsilon) \<Rightarrow> Inr (alpha, epsilon)
       | _ \<Rightarrow> Inl (ValueError ''cost_alpha and cost_epsilon must be set together''))
     (\<lambda>(alpha, epsilon).
       if \<not> isfinite alpha \<or> \<not> isfinite epsilon
       then Inl (ValueError ''VERPO effective cost parameters must be finite'')
       else if the_real alpha < 0 \<or> the_real epsilon \<le> 0
       then Inl (ValueError ''cost_alpha must be nonnegative and cost_epsilon positive'')
       else Inr (the_real alpha, the_real epsilon))"

section \<open>Group gate and rollout scope\<close>

definition compute_group_zpd_gate_by_uid ::
  "real list \<Rightarrow> string list \<Rightarrow> string \<Rightarrow> real \<Rightarrow> real \<Rightarrow> bool list res" where
  "compute_group_zpd_gate_by_uid raw_rewards uids mode positive_reward epsilon =
     (if mode \<noteq> ''binary_mixed'' \<and> mode \<noteq> ''reward_ranked''
      then Inl (ValueError ''group ZPD mode must be binary_mixed or reward_ranked'')
      else let rewards = (if mode = ''binary_mixed''
             then map (\<lambda>r. of_bool (positive_reward - 1 / 10 ^ 6 \<le> r)) raw_rewards else raw_rewards)
      in rbind (classify_reward_ranked_groups rewards (Some uids) None epsilon)
           (\<lambda>states. Inr (map rs_zpd_gate states)))"

section \<open>The exact loss on one row\<close>

text \<open>The loops of one chunk: task and nuisance displacement (Forward KL), task and nuisance
  log-ratio (Reverse KL). The negative Teacher is present whenever the mode reads it.\<close>

definition contrastive_mode :: "string \<Rightarrow> bool" where
  "contrastive_mode mode \<longleftrightarrow> mode = ''correct_vs_incorrect'' \<or> mode = ''reward_ranked'' \<or> mode = ''fec''"

definition flat_displacement ::
  "string \<Rightarrow> real \<Rightarrow> vec \<Rightarrow> vec \<Rightarrow> vec option \<Rightarrow> nat \<Rightarrow> nat \<Rightarrow> vec \<times> vec" where
  "flat_displacement mode scale base evidence negative a b =
     (let q0 = vexp (log_probs_chunk scale (log_norm scale base) base a b);
          qe = vexp (log_probs_chunk scale (log_norm scale evidence) evidence a b)
      in if mode = ''evidence_vs_none'' then (vsub qe q0, map (\<lambda>_. 0) (vsub qe q0))
         else let qn = vexp (log_probs_chunk scale (log_norm scale (the negative)) (the negative) a b);
                  task = vsub qe qn
           in (task, if mode = ''fec'' then vsub (vscale (1/2) (vadd qe qn)) q0 else map (\<lambda>_. 0) task))"

definition flat_log_ratio ::
  "string \<Rightarrow> real \<Rightarrow> vec \<Rightarrow> vec \<Rightarrow> vec option \<Rightarrow> nat \<Rightarrow> nat \<Rightarrow> vec \<times> vec" where
  "flat_log_ratio mode scale base evidence negative a b =
     (let reverse_base = (if contrastive_mode mode then the negative else base);
          reverse_base_log_probs = log_probs_chunk scale (log_norm scale reverse_base) reverse_base a b;
          qe_log_probs = log_probs_chunk scale (log_norm scale evidence) evidence a b;
          task_log_ratio = vsub qe_log_probs reverse_base_log_probs;
          q0_log_probs = log_probs_chunk scale (log_norm scale base) base a b
      in (task_log_ratio,
          if mode = ''fec'' then vsub (vscale (1/2) (vadd qe_log_probs reverse_base_log_probs)) q0_log_probs
          else map (\<lambda>_. 0) task_log_ratio))"

text \<open>The statistics when no nuisance direction is projected out.\<close>

definition task_only_stats :: "('a) fec_moments_scheme \<Rightarrow> real \<Rightarrow> real \<Rightarrow> fec_stats" where
  "task_only_stats m task_at_sample advantage =
     (let alignment = task_at_sample - fx_mean_task m in
      \<lparr>fs_benefit = advantage * alignment, fs_fisher_cost = fx_task_variance m,
       fs_displacement_norm = sqrt (fx_task_norm_sq m), fs_task_norm = sqrt (fx_task_norm_sq m),
       fs_nuisance_norm = sqrt (fx_nuisance_norm_sq m), fs_cosine = 0, fs_projection = 0,
       fs_residual_cov = 0, fs_alignment = alignment\<rparr>)"

definition flat_forward_stats ::
  "string \<Rightarrow> nat \<Rightarrow> nat \<Rightarrow> real \<Rightarrow> real \<Rightarrow> vec \<Rightarrow> vec \<Rightarrow> vec option \<Rightarrow> vec \<Rightarrow> nat \<Rightarrow> real \<Rightarrow> fec_stats" where
  "flat_forward_stats mode n c scale epsilon base evidence negative student token advantage =
     (let displacement = flat_displacement mode scale base evidence negative;
          task = (\<lambda>a b. fst (displacement a b));
          nuisance = (\<lambda>a b. snd (displacement a b));
          p = (\<lambda>a b. vexp (log_probs_chunk scale (log_norm scale student) student a b));
          m = fec_first_pass n c p task nuisance;
          qe_at_sample = exp (log_prob_at scale (log_norm scale evidence) evidence token);
          q0_at_sample = exp (log_prob_at scale (log_norm scale base) base token);
          qn_at_sample = exp (log_prob_at scale (log_norm scale (the negative)) (the negative) token)
      in if mode = ''evidence_vs_none'' then task_only_stats m (qe_at_sample - q0_at_sample) advantage
         else let task_at_sample = qe_at_sample - qn_at_sample in
           if mode = ''fec''
           then fec_second_pass n c epsilon task nuisance m task_at_sample
             (1/2 * (qe_at_sample + qn_at_sample) - q0_at_sample) advantage
           else task_only_stats m task_at_sample advantage)"

definition flat_reverse_stats ::
  "string \<Rightarrow> nat \<Rightarrow> nat \<Rightarrow> real \<Rightarrow> real \<Rightarrow> vec \<Rightarrow> vec \<Rightarrow> vec option \<Rightarrow> vec \<Rightarrow> nat \<Rightarrow> real \<Rightarrow> fec_stats" where
  "flat_reverse_stats mode n c scale epsilon base evidence negative student token advantage =
     (let reverse_base = (if contrastive_mode mode then the negative else base);
          ratio = flat_log_ratio mode scale base evidence negative;
          p = (\<lambda>a b. vexp (log_probs_chunk scale (log_norm scale student) student a b));
          mean_task_log_ratio = chunk_sum n c (\<lambda>a b. vsum (vmul (p a b) (fst (ratio a b))));
          mean_nuisance_log_ratio = chunk_sum n c (\<lambda>a b. vsum (vmul (p a b) (snd (ratio a b))));
          task_tangent = (\<lambda>a b. vmul (p a b) (vshift (fst (ratio a b)) mean_task_log_ratio));
          nuisance_tangent = (\<lambda>a b. vmul (p a b) (vshift (snd (ratio a b)) mean_nuisance_log_ratio));
          m = reverse_fec_pass n c p task_tangent nuisance_tangent;
          p_at_sample = exp (log_prob_at scale (log_norm scale student) student token);
          qe_sample_log_prob = log_prob_at scale (log_norm scale evidence) evidence token;
          reverse_base_sample_log_prob = log_prob_at scale (log_norm scale reverse_base) reverse_base token;
          q0_sample_log_prob = log_prob_at scale (log_norm scale base) base token;
          task_log_ratio_at_sample = qe_sample_log_prob - reverse_base_sample_log_prob;
          task_tangent_at_sample = p_at_sample * (task_log_ratio_at_sample - mean_task_log_ratio)
      in if mode = ''fec''
         then let nuisance_log_ratio_at_sample =
                    1/2 * (qe_sample_log_prob + reverse_base_sample_log_prob) - q0_sample_log_prob;
                  nuisance_tangent_at_sample =
                    p_at_sample * (nuisance_log_ratio_at_sample - mean_nuisance_log_ratio)
              in reverse_fec_result epsilon m task_tangent_at_sample nuisance_tangent_at_sample advantage
         else task_only_stats m task_tangent_at_sample advantage)"

definition flat_forward_correction ::
  "string \<Rightarrow> nat \<Rightarrow> nat \<Rightarrow> real \<Rightarrow> real \<Rightarrow> real \<Rightarrow> vec \<Rightarrow> vec \<Rightarrow> vec option \<Rightarrow> vec \<Rightarrow> real" where
  "flat_forward_correction mode n c scale weight projection base evidence negative student =
     chunk_sum n c (\<lambda>a b.
       let student_log_probs = log_probs_chunk scale (log_norm scale student) student a b;
           displacement = flat_displacement mode scale base evidence negative a b;
           delta = (if mode = ''fec'' then vsub (fst displacement) (vscale projection (snd displacement))
             else fst displacement)
       in - (scale * weight * vsum (vmul delta student_log_probs)))"

definition flat_reverse_correction ::
  "string \<Rightarrow> nat \<Rightarrow> nat \<Rightarrow> real \<Rightarrow> real \<Rightarrow> real \<Rightarrow> vec \<Rightarrow> vec \<Rightarrow> vec option \<Rightarrow> vec \<Rightarrow> real option" where
  "flat_reverse_correction mode n c scale weight projection base evidence negative student =
     (let reverse_base = (if contrastive_mode mode then the negative else base);
          log_ratio = (\<lambda>a b. let ratio = flat_log_ratio mode scale base evidence negative a b in
            if mode = ''fec'' then vsub (fst ratio) (vscale projection (snd ratio)) else fst ratio);
          geometric_log_z = chunk_lse n c (\<lambda>a b.
            vadd (log_probs_chunk scale (log_norm scale reverse_base) reverse_base a b)
              (vscale weight (log_ratio a b)));
          expected_log_ratio = chunk_sum n c (\<lambda>a b.
            vsum (vmul (vexp (log_probs_chunk scale (log_norm scale student) student a b)) (log_ratio a b)))
      in map_option (\<lambda>z. scale * (z - weight * expected_log_ratio)) geometric_log_z)"

section \<open>The exact loss\<close>

record flat_batch =
  fb_student :: flat
  fb_base :: flat
  fb_evidence :: flat
  fb_sampled_token_ids :: "int list"
  fb_token_advantages :: vec
  fb_active_token_mask :: "bool list"
  fb_negative_logits :: "flat option"
  fb_negative_probabilities :: "flat option"

text \<open>The result dictionary; a key that is not set is \<open>None\<close>. \<open>fr_stats\<close> holds the keys
  \<open>benefit\<close> to \<open>alignment\<close>.\<close>

record flat_result =
  fr_reference_loss :: vec
  fr_evidence_loss :: vec
  fr_weights :: vec
  fr_stats :: "fec_stats list"
  fr_q0_sample_log_prob :: vec
  fr_reference_support_size :: "vec option"
  fr_support_size :: vec
  fr_reference_support_mass :: vec
  fr_evidence_support_mass :: vec
  fr_student_support_mass :: vec
  fr_negative_support_mass :: "vec option"

definition flat_weights :: "verpo_args \<Rightarrow> real \<Rightarrow> real \<Rightarrow> bool list \<Rightarrow> fec_stats list \<Rightarrow> vec res" where
  "flat_weights P cost_alpha cost_epsilon active stats =
     (let weights = map2 (\<lambda>act s. token_weight act cost_alpha cost_epsilon (va_allow_negative_benefit P)
          (fs_benefit s) (fs_fisher_cost s)) active stats
      in if None \<in> set weights then Inl (ValueError ''VERPO token weights must be finite'')
         else Inr (map the weights))"

text \<open>The Top-K diagnostics that a direct call of the exact loss attaches when the vocabulary is
  configured as truncated (default \<open>vocab_chunk_size\<close> 4096).\<close>

definition full_diagnostics ::
  "(nat \<Rightarrow> vec \<Rightarrow> nat list) \<Rightarrow> verpo_args \<Rightarrow> flat_batch \<Rightarrow> flat_result \<Rightarrow> flat_result res" where
  "full_diagnostics topk P B R =
     rbind (native_use_full_vocab (va_vocab_mode P) (va_top_k P) (ft_v (fb_student B))) (\<lambda>use_full.
     if use_full
     then let N = length (ft_rows (fb_student B));
              size = replicate N (real (ft_v (fb_student B))); ones = replicate N 1
       in Inr (R\<lparr>fr_reference_support_size := Some size, fr_support_size := size,
         fr_reference_support_mass := ones, fr_evidence_support_mass := ones, fr_student_support_mass := ones,
         fr_negative_support_mass := (if va_displacement_mode P \<noteq> ''evidence_vs_none'' then Some ones else None)\<rparr>)
     else
       rbind (native_topk_support topk
           ([fb_base B, fb_evidence B] @ (case fb_negative_logits B of None \<Rightarrow> [] | Some L \<Rightarrow> [L]))
           (fb_sampled_token_ids B) (va_top_k P)
           (if va_divergence P = ''reverse_kl'' then Some (fb_student B) else None)) (\<lambda>U.
       let mass = (\<lambda>L. rbind (native_gather_log_probs L U (va_temperature P) 4096)
             (\<lambda>selected. Inr (flat_support_mass selected U))) in
       rbind (mass (fb_base B)) (\<lambda>reference_mass.
       rbind (mass (fb_evidence B)) (\<lambda>evidence_mass.
       rbind (mass (fb_student B)) (\<lambda>student_mass.
       rbind (case fb_negative_logits B of None \<Rightarrow> Inr None | Some L \<Rightarrow> rbind (mass L) (\<lambda>m. Inr (Some m)))
         (\<lambda>negative_mass.
         Inr (R\<lparr>fr_support_size := map (\<lambda>valid. real (count_list valid True)) (fu_valid U),
           fr_reference_support_mass := reference_mass, fr_evidence_support_mass := evidence_mass,
           fr_student_support_mass := student_mass, fr_negative_support_mass := negative_mass\<rparr>)))))))"

definition check_flat_full :: "verpo_args \<Rightarrow> flat_batch \<Rightarrow> (real \<times> real) res" where
  "check_flat_full P B =
     (let S = fb_student B; N = length (ft_rows S); mode = va_displacement_mode P in
      if flat_shape S \<noteq> flat_shape (fb_base B) \<or> flat_shape S \<noteq> flat_shape (fb_evidence B)
      then Inl (ValueError ''Student, q0, and qe logits must have identical shapes'')
      else if length (fb_sampled_token_ids B) \<noteq> N then Inl (ValueError ''sampled_token_ids must have shape [N]'')
      else if length (fb_token_advantages B) \<noteq> N then Inl (ValueError ''token_advantages must have shape [N]'')
      else if length (fb_active_token_mask B) \<noteq> N then Inl (ValueError ''active_token_mask must have shape [N]'')
      else rbind (validate_verpo_controller P) (\<lambda>_.
        rbind (resolve_cost_parameters P) (\<lambda>cost.
        if va_vocab_chunk_size P \<le> 0 then Inl (ValueError ''vocab_chunk_size must be positive'')
        else if va_divergence P \<noteq> ''forward_kl'' \<and> va_divergence P \<noteq> ''reverse_kl''
        then Inl (ValueError ''divergence must be forward_kl or reverse_kl'')
        else if mode \<noteq> ''evidence_vs_none'' \<and> \<not> contrastive_mode mode
        then Inl (ValueError ''displacement_mode must be evidence_vs_none, correct_vs_incorrect, reward_ranked, or fec'')
        else if mode \<noteq> ''evidence_vs_none'' \<and> fb_negative_logits B = None
        then Inl (ValueError (mode @ '' requires negative_teacher_logits''))
        else if mode \<noteq> ''evidence_vs_none'' \<and> flat_shape (the (fb_negative_logits B)) \<noteq> flat_shape S
        then Inl (ValueError ''Student and negative Teacher logits must have identical shapes'')
        else if \<not> isfinite (va_projection_epsilon P) \<or> the_real (va_projection_epsilon P) \<le> 0
        then Inl (ValueError ''projection_epsilon must be finite and positive'')
        else rbind (native_validate_vocab (va_vocab_mode P) (va_top_k P)) (\<lambda>_. Inr cost))))"

definition compute_flat_full ::
  "(nat \<Rightarrow> vec \<Rightarrow> nat list) \<Rightarrow> verpo_args \<Rightarrow> flat_batch \<Rightarrow> flat_result res" where
  "compute_flat_full topk P B =
     rbind (check_flat_full P B) (\<lambda>(cost_alpha, cost_epsilon).
     if \<not> ids_in_range (ft_v (fb_student B)) (fb_sampled_token_ids B) then Inl gather_error
     else let
       S = fb_student B; N = length (ft_rows S); n = ft_v S; c = nat (va_vocab_chunk_size P);
       scale = the_real (va_temperature P); mode = va_displacement_mode P;
       epsilon = the_real (va_projection_epsilon P);
       student = (\<lambda>t. ft_rows S ! t); base = (\<lambda>t. ft_rows (fb_base B) ! t);
       evidence = (\<lambda>t. ft_rows (fb_evidence B) ! t);
       negative = (\<lambda>t. flat_row_opt (fb_negative_logits B) t);
       token = (\<lambda>t. nat (fb_sampled_token_ids B ! t));
       forward = (va_divergence P = ''forward_kl'');
       stats = map (\<lambda>t. (if forward then flat_forward_stats else flat_reverse_stats) mode n c scale epsilon
         (base t) (evidence t) (negative t) (student t) (token t) (fb_token_advantages B ! t)) [0..<N]
     in rbind (flat_weights P cost_alpha cost_epsilon (fb_active_token_mask B) stats) (\<lambda>weights.
       full_diagnostics topk P B
         \<lparr>fr_reference_loss = map (\<lambda>t. if forward then reference_kl_at n c scale (base t) (student t)
            else reverse_reference_at n c scale (base t) (student t)) [0..<N],
          fr_evidence_loss = map (\<lambda>t. if forward
            then flat_forward_correction mode n c scale (weights ! t) (fs_projection (stats ! t))
              (base t) (evidence t) (negative t) (student t)
            else the (flat_reverse_correction mode n c scale (weights ! t) (fs_projection (stats ! t))
              (base t) (evidence t) (negative t) (student t))) [0..<N],
          fr_weights = weights, fr_stats = stats,
          fr_q0_sample_log_prob = map (\<lambda>t. log_prob_at scale (log_norm scale (base t)) (base t) (token t)) [0..<N],
          fr_reference_support_size = None, fr_support_size = [], fr_reference_support_mass = [],
          fr_evidence_support_mass = [], fr_student_support_mass = [], fr_negative_support_mass = None\<rparr>))"

end
