(* ===== verification/NativeTruncated.thy ===== *)
theory NativeTruncated
  imports NativeLosses
begin

text \<open>
  The truncated loss of the native trainer (\<open>_compute_flat_truncated_verpo_losses\<close> in
  \<open>verl/verl/trainer/distillation/verpo_zpd.py\<close>) and the dispatch \<open>compute_flat_verpo_losses\<close>
  between it and the exact loss.
\<close>

section \<open>One row\<close>

definition row_where :: "bool list list \<Rightarrow> flat \<Rightarrow> flat" where
  "row_where valid A = A\<lparr>ft_rows := map2 (where_else 0) valid (ft_rows A)\<rparr>"

definition flat_map :: "(vec \<Rightarrow> vec) \<Rightarrow> flat \<Rightarrow> flat" where
  "flat_map f A = A\<lparr>ft_rows := map f (ft_rows A)\<rparr>"

text \<open>The fields of the Reverse-KL moments the loss reads.\<close>

definition tangent_controller :: "tangent_moments \<Rightarrow> forward_moment_row" where
  "tangent_controller m =
     \<lparr>fm_projection = tm_projection m, fm_residual_mean = tm_residual_mean m, fm_fisher_cost = tm_fisher_cost m,
      fm_displacement_norm = tm_displacement_norm m, fm_task_norm = tm_task_norm m,
      fm_nuisance_norm = tm_nuisance_norm m, fm_cosine = tm_cosine m, fm_residual_cov = tm_residual_cov m,
      fm_residual = tm_residual m\<rparr>"

definition controller_stats :: "forward_moment_row \<Rightarrow> int list \<Rightarrow> bool list \<Rightarrow> int \<Rightarrow> real \<Rightarrow> fec_stats" where
  "controller_stats m ids valid y advantage =
     (let sampled_match = map2 (\<lambda>v k. v \<and> k = y) valid ids;
          sampled_direction = vsum (where_else 0 sampled_match (fm_residual m));
          alignment = sampled_direction - fm_residual_mean m
      in \<lparr>fs_benefit = advantage * alignment, fs_fisher_cost = fm_fisher_cost m,
          fs_displacement_norm = fm_displacement_norm m, fs_task_norm = fm_task_norm m,
          fs_nuisance_norm = fm_nuisance_norm m, fs_cosine = fm_cosine m, fs_projection = fm_projection m,
          fs_residual_cov = fm_residual_cov m, fs_alignment = alignment\<rparr>)"

text \<open>\<open>(teacher * (teacher_log - other_log)).sum(-1)\<close> with the masked exponential of the first.\<close>

definition masked_kl_at :: "real \<Rightarrow> bool list \<Rightarrow> vec \<Rightarrow> vec \<Rightarrow> real" where
  "masked_kl_at scale valid la lb = scale * vsum (vmul (where_else 0 valid (vexp la)) (vsub la lb))"

section \<open>The gathered rows of a call\<close>

record flat_gathered =
  fg_ref_support :: flat_support
  fg_support :: flat_support
  fg_lp_ref :: flat
  fg_l0_ref :: flat
  fg_lp :: flat
  fg_l0 :: flat
  fg_le :: flat
  fg_ln :: flat

definition negative_source :: "flat_batch \<Rightarrow> flat option" where
  "negative_source B = (case fb_negative_probabilities B of None \<Rightarrow> fb_negative_logits B | Some q \<Rightarrow> Some q)"

definition correction_teachers :: "string \<Rightarrow> flat_batch \<Rightarrow> flat list res" where
  "correction_teachers mode B =
     (if mode = ''evidence_vs_none'' then Inr [fb_base B, fb_evidence B]
      else if mode = ''correct_vs_incorrect'' \<or> mode = ''reward_ranked''
      then (case negative_source B of
          None \<Rightarrow> Inl (ValueError (mode @ '' requires a negative Teacher''))
        | Some negative \<Rightarrow> Inr [fb_evidence B, negative])
      else (case negative_source B of
          None \<Rightarrow> Inl (ValueError ''fec requires a negative Teacher'')
        | Some negative \<Rightarrow> Inr [fb_base B, fb_evidence B, negative]))"

definition check_flat_truncated :: "verpo_args \<Rightarrow> flat_batch \<Rightarrow> (real \<times> real) res" where
  "check_flat_truncated P B =
     rbind (validate_verpo_controller P) (\<lambda>_.
     rbind (resolve_cost_parameters P) (\<lambda>cost.
     if va_vocab_chunk_size P \<le> 0 then Inl (ValueError ''vocab_chunk_size must be positive'')
     else if va_divergence P \<noteq> ''forward_kl'' \<and> va_divergence P \<noteq> ''reverse_kl''
     then Inl (ValueError ''divergence must be forward_kl or reverse_kl'')
     else if fb_negative_logits B \<noteq> None \<and> fb_negative_probabilities B \<noteq> None
     then Inl (ValueError ''negative Teacher logits and probabilities are mutually exclusive'')
     else if (case fb_negative_probabilities B of None \<Rightarrow> False
         | Some q \<Rightarrow> flat_shape q \<noteq> flat_shape (fb_student B))
     then Inl (ValueError ''Student and negative Teacher probabilities must have identical shapes'')
     else Inr cost))"

definition gather_flat :: "(nat \<Rightarrow> vec \<Rightarrow> nat list) \<Rightarrow> verpo_args \<Rightarrow> flat_batch \<Rightarrow> flat_gathered res" where
  "gather_flat topk P B =
     (let student = (if va_divergence P = ''reverse_kl'' then Some (fb_student B) else None);
          gather = (\<lambda>L U. native_gather_log_probs L U (va_temperature P) (va_vocab_chunk_size P))
      in rbind (native_topk_support topk [fb_base B] (fb_sampled_token_ids B) (va_top_k P) student) (\<lambda>R.
      rbind (correction_teachers (va_displacement_mode P) B) (\<lambda>teachers.
      rbind (native_topk_support topk teachers (fb_sampled_token_ids B) (va_top_k P) student) (\<lambda>U.
      rbind (gather (fb_student B) R) (\<lambda>lp_ref.
      rbind (gather (fb_base B) R) (\<lambda>l0_ref.
      rbind (gather (fb_student B) U) (\<lambda>lp.
      rbind (gather (fb_base B) U) (\<lambda>l0.
      rbind (gather (fb_evidence B) U) (\<lambda>le.
      rbind (case fb_negative_probabilities B of
           Some q \<Rightarrow> gather_pre_normalized_log_probs q U
         | None \<Rightarrow> (case fb_negative_logits B of Some L \<Rightarrow> gather L U | None \<Rightarrow> Inr l0)) (\<lambda>ln.
        Inr \<lparr>fg_ref_support = R, fg_support = U, fg_lp_ref = lp_ref, fg_l0_ref = l0_ref, fg_lp = lp,
          fg_l0 = l0, fg_le = le, fg_ln = ln\<rparr>))))))))))"

text \<open>\<open>reverse_base_log_probs\<close>, and the two log-ratios, zero outside the support.\<close>

definition reverse_base_of :: "string \<Rightarrow> flat_gathered \<Rightarrow> flat" where
  "reverse_base_of mode G = (if mode = ''evidence_vs_none'' then fg_l0 G else fg_ln G)"

definition task_ratio_of :: "string \<Rightarrow> flat_gathered \<Rightarrow> flat" where
  "task_ratio_of mode G = row_where (fu_valid (fg_support G)) (flat_map2 vsub (fg_le G) (reverse_base_of mode G))"

definition nuisance_ratio_of :: "flat_gathered \<Rightarrow> flat" where
  "nuisance_ratio_of G = row_where (fu_valid (fg_support G))
     (flat_map2 vsub (flat_map (vscale (1/2)) (flat_map2 vadd (fg_le G) (fg_ln G))) (fg_l0 G))"

definition flat_moments :: "verpo_args \<Rightarrow> flat_gathered \<Rightarrow> forward_moment_row list res" where
  "flat_moments P G =
     (let U = fg_support G; mode = va_displacement_mode P;
          probs_of = (\<lambda>L. row_where (fu_valid U) (flat_map vexp L));
          q0 = probs_of (fg_l0 G); qe = probs_of (fg_le G); qn = probs_of (fg_ln G)
      in if va_divergence P = ''forward_kl''
         then let task = flat_map2 vsub qe (if mode = ''evidence_vs_none'' then q0 else qn);
                  nuisance = flat_map2 vsub (flat_map (vscale (1/2)) (flat_map2 vadd qe qn)) q0
              in native_forward_moments (fg_lp G) task U (if mode = ''fec'' then Some nuisance else None)
                   (va_projection_epsilon P)
         else rbind (native_reverse_tangent_moments (fg_lp G) (task_ratio_of mode G) U
             (if mode = ''fec'' then Some (nuisance_ratio_of G) else None) (va_projection_epsilon P))
           (\<lambda>ms. Inr (map tangent_controller ms)))"

section \<open>The loss\<close>

definition compute_flat_truncated ::
  "(nat \<Rightarrow> vec \<Rightarrow> nat list) \<Rightarrow> verpo_args \<Rightarrow> flat_batch \<Rightarrow> flat_result res" where
  "compute_flat_truncated topk P B =
     rbind (check_flat_truncated P B) (\<lambda>(cost_alpha, cost_epsilon).
     rbind (gather_flat topk P B) (\<lambda>G.
     rbind (flat_moments P G) (\<lambda>moments.
     let R = fg_ref_support G; U = fg_support G; N = length moments; scale = the_real (va_temperature P);
         mode = va_displacement_mode P; y = fb_sampled_token_ids B
     in if length (fb_token_advantages B) \<noteq> N \<or> length (fb_active_token_mask B) \<noteq> N
     then Inl (RuntimeError ''broadcast'')
     else let stats = map (\<lambda>t. controller_stats (moments ! t) (fu_ids U ! t) (fu_valid U ! t) (y ! t)
           (fb_token_advantages B ! t)) [0..<N]
     in rbind (flat_weights P cost_alpha cost_epsilon (fb_active_token_mask B) stats) (\<lambda>weights.
     rbind (if va_divergence P = ''forward_kl''
       then Inr (map (\<lambda>t. masked_kl_at scale (fu_valid R ! t) (ft_rows (fg_l0_ref G) ! t) (ft_rows (fg_lp_ref G) ! t))
              [0..<N],
            map (\<lambda>t. - scale * weights ! t * vsum (vmul (fm_residual (moments ! t)) (ft_rows (fg_lp G) ! t))) [0..<N])
       else let log_ratio = task_ratio_of mode G;
              log_ratio = (if mode = ''fec''
                then log_ratio\<lparr>ft_rows := map (\<lambda>t. vsub (ft_rows log_ratio ! t)
                  (vscale (fm_projection (moments ! t)) (ft_rows (nuisance_ratio_of G) ! t))) [0..<N]\<rparr>
                else log_ratio)
         in rbind (native_geometric_correction (fg_lp G) (reverse_base_of mode G) log_ratio weights U scale)
           (\<lambda>evidence. Inr (map (\<lambda>t. masked_kl_at scale (fu_valid R ! t) (ft_rows (fg_lp_ref G) ! t)
              (ft_rows (fg_l0_ref G) ! t)) [0..<N], evidence))) (\<lambda>(reference_loss, evidence_loss).
       Inr \<lparr>fr_reference_loss = reference_loss, fr_evidence_loss = evidence_loss, fr_weights = weights,
         fr_stats = stats,
         fr_q0_sample_log_prob = map (\<lambda>t. vsum (where_else 0 (map2 (\<lambda>v k. v \<and> k = y ! t) (fu_valid R ! t)
           (fu_ids R ! t)) (ft_rows (fg_l0_ref G) ! t))) [0..<N],
         fr_reference_support_size = Some (map (\<lambda>valid. real (count_list valid True)) (fu_valid R)),
         fr_support_size = map (\<lambda>valid. real (count_list valid True)) (fu_valid U),
         fr_reference_support_mass = flat_support_mass (fg_l0_ref G) R,
         fr_evidence_support_mass = flat_support_mass (fg_le G) U,
         fr_student_support_mass = flat_support_mass (fg_lp G) U,
         fr_negative_support_mass = (case negative_source B of None \<Rightarrow> None
           | Some _ \<Rightarrow> Some (flat_support_mass (fg_ln G) U))\<rparr>)))))"

definition compute_flat_verpo_losses ::
  "(nat \<Rightarrow> vec \<Rightarrow> nat list) \<Rightarrow> verpo_args \<Rightarrow> flat_batch \<Rightarrow> flat_result res" where
  "compute_flat_verpo_losses topk P B =
     rbind (native_validate_vocab (va_vocab_mode P) (va_top_k P)) (\<lambda>_.
     rbind (native_use_full_vocab (va_vocab_mode P) (va_top_k P) (ft_v (fb_student B))) (\<lambda>use_full.
     if \<not> use_full then compute_flat_truncated topk P B
     else if fb_negative_probabilities B \<noteq> None
     then Inl (ValueError ''pre-normalized negative Teacher probabilities require topk_truncated'')
     else compute_flat_full topk P B))"

end
