(* ===== verification/NativeRef.thy ===== *)
theory NativeRef
  imports NativeTruncated LossFacts
begin

text \<open>
  The rows of the native losses are the reference statistics and losses of the package: for every
  displacement mode and divergence, on the whole vocabulary and on a selected support.
\<close>

section \<open>Directions of a mode\<close>

text \<open>Without a projected nuisance direction.\<close>

definition task_ref :: "nat set \<Rightarrow> (nat \<Rightarrow> real) \<Rightarrow> (nat \<Rightarrow> real) \<Rightarrow> nat \<Rightarrow> real \<Rightarrow> fec_stats" where
  "task_ref A p task y adv =
     (let d = disp_ref A p task y adv in
      \<lparr>fs_benefit = fst d, fs_fisher_cost = fst (snd d), fs_displacement_norm = snd (snd d),
       fs_task_norm = snd (snd d), fs_nuisance_norm = 0, fs_cosine = 0, fs_projection = 0,
       fs_residual_cov = 0, fs_alignment = task y - wmean A p task\<rparr>)"

definition mode_ref ::
  "string \<Rightarrow> nat set \<Rightarrow> (nat \<Rightarrow> real) \<Rightarrow> (nat \<Rightarrow> real) \<Rightarrow> (nat \<Rightarrow> real) \<Rightarrow> real \<Rightarrow> nat \<Rightarrow> real \<Rightarrow> fec_stats" where
  "mode_ref mode A p task nuisance e y adv =
     (if mode = ''fec'' then fec_ref A p task nuisance e y adv else task_ref A p task y adv)"

text \<open>The base Teacher of the displacement, and the two directions, as functions of the row.\<close>

definition base_row :: "string \<Rightarrow> vec \<Rightarrow> vec option \<Rightarrow> vec" where
  "base_row mode base negative = (if mode = ''evidence_vs_none'' then base else the negative)"

definition prob_task :: "real \<Rightarrow> vec \<Rightarrow> vec \<Rightarrow> nat \<Rightarrow> real" where
  "prob_task T e b k = probs T e ! k - probs T b ! k"

definition prob_nuis :: "real \<Rightarrow> vec \<Rightarrow> vec \<Rightarrow> vec \<Rightarrow> nat \<Rightarrow> real" where
  "prob_nuis T e n z k = 1/2 * (probs T e ! k + probs T n ! k) - probs T z ! k"

definition log_task :: "real \<Rightarrow> vec \<Rightarrow> vec \<Rightarrow> nat \<Rightarrow> real" where
  "log_task T e b k = log_probs T e ! k - log_probs T b ! k"

definition log_nuis :: "real \<Rightarrow> vec \<Rightarrow> vec \<Rightarrow> vec \<Rightarrow> nat \<Rightarrow> real" where
  "log_nuis T e n z k = 1/2 * (log_probs T e ! k + log_probs T n ! k) - log_probs T z ! k"

section \<open>The exact loss\<close>

definition valid_mode :: "string \<Rightarrow> bool" where
  "valid_mode mode \<longleftrightarrow> mode = ''evidence_vs_none'' \<or> contrastive_mode mode"

lemma mode_base: "valid_mode mode \<Longrightarrow> (if contrastive_mode mode then the N else z) = base_row mode z N"
  by (auto simp: valid_mode_def contrastive_mode_def base_row_def)

lemma vzeros: "map (\<lambda>_. 0) (xs :: vec) = replicate (length xs) 0"
  by (simp add: map_replicate_const)

definition displacement_rows :: "string \<Rightarrow> real \<Rightarrow> vec \<Rightarrow> vec \<Rightarrow> vec option \<Rightarrow> vec \<times> vec" where
  "displacement_rows mode T z e N =
     (let task = vsub (probs T e) (probs T (base_row mode z N)) in
      (task, if mode = ''fec'' then vsub (vscale (1/2) (vadd (probs T e) (probs T (the N)))) (probs T z)
        else map (\<lambda>_. 0) task))"

definition ratio_rows :: "string \<Rightarrow> real \<Rightarrow> vec \<Rightarrow> vec \<Rightarrow> vec option \<Rightarrow> vec \<times> vec" where
  "ratio_rows mode T z e N =
     (let task = vsub (log_probs T e) (log_probs T (base_row mode z N)) in
      (task, if mode = ''fec'' then vsub (vscale (1/2) (vadd (log_probs T e) (log_probs T (the N)))) (log_probs T z)
        else map (\<lambda>_. 0) task))"

lemma flat_displacement_slice:
  "valid_mode mode \<Longrightarrow> flat_displacement mode T z e N a b
    = (slice a b (fst (displacement_rows mode T z e N)), slice a b (snd (displacement_rows mode T z e N)))"
  by (simp add: flat_displacement_def displacement_rows_def base_row_def Let_def slice_simps)

lemma flat_log_ratio_slice:
  "valid_mode mode \<Longrightarrow> flat_log_ratio mode T z e N a b
    = (slice a b (fst (ratio_rows mode T z e N)), slice a b (snd (ratio_rows mode T z e N)))"
  by (auto simp: flat_log_ratio_def ratio_rows_def mode_base base_row_def valid_mode_def contrastive_mode_def
      Let_def slice_simps)

definition rows_fit :: "string \<Rightarrow> vec \<Rightarrow> vec \<Rightarrow> vec \<Rightarrow> vec option \<Rightarrow> bool" where
  "rows_fit mode s z e N \<longleftrightarrow> valid_mode mode \<and> s \<noteq> [] \<and> length z = length s \<and> length e = length s
     \<and> (mode \<noteq> ''evidence_vs_none'' \<longrightarrow> length (the N) = length s)"

lemma rows_fitD:
  assumes "rows_fit mode s z e N"
  shows "length (base_row mode z N) = length s" "length (fst (displacement_rows mode T z e N)) = length s"
    "length (snd (displacement_rows mode T z e N)) = length s" "length (fst (ratio_rows mode T z e N)) = length s"
    "length (snd (ratio_rows mode T z e N)) = length s"
  using assms by (auto simp: rows_fit_def base_row_def displacement_rows_def ratio_rows_def Let_def)

lemma nth_direction_rows:
  assumes "rows_fit mode s z e N" "k < length s"
  shows "fst (displacement_rows mode T z e N) ! k = prob_task T e (base_row mode z N) k"
    "mode = ''fec'' \<Longrightarrow> snd (displacement_rows mode T z e N) ! k = prob_nuis T e (the N) z k"
    "fst (ratio_rows mode T z e N) ! k = log_task T e (base_row mode z N) k"
    "mode = ''fec'' \<Longrightarrow> snd (ratio_rows mode T z e N) ! k = log_nuis T e (the N) z k"
    "mode \<noteq> ''fec'' \<Longrightarrow> snd (displacement_rows mode T z e N) ! k = 0"
    "mode \<noteq> ''fec'' \<Longrightarrow> snd (ratio_rows mode T z e N) ! k = 0"
  using assms rows_fitD(1) [OF assms(1)]
  by (auto simp: rows_fit_def displacement_rows_def ratio_rows_def prob_task_def prob_nuis_def log_task_def
      log_nuis_def base_row_def Let_def)

lemma task_only_ref:
  fixes adv e T :: real
  assumes z: "z \<noteq> []" and c: "0 < c" and len: "length f = length z" "length g = length z" and zero: "\<forall>k < length z. g ! k = 0"
    and k: "k < length z"
    and m: "m = fec_first_pass (length z) c (\<lambda>a b. slice a b (probs T z)) (\<lambda>a b. slice a b f) (\<lambda>a b. slice a b g)"
  shows "task_only_stats m (f ! k) adv = task_ref {..<length z} (\<lambda>k. probs T z ! k) (\<lambda>k. f ! k) k adv"
proof -
  note first = fec_first_pass_slice [OF c, of "probs T z" "length z" f g, simplified, OF len]
  note var = softmax.var_clamp [where x = "(T, z)" and f = "\<lambda>k. f ! k", unfolded prod.case, OF z]
  have "(\<Sum>k<length z. g ! k * g ! k) = 0" using zero by simp
  then show ?thesis
    using var by (simp add: m first task_only_stats_def task_ref_def disp_ref_def Let_def wmean_def)
qed

lemma task_ref_cong:
  "(\<And>k. k \<in> A \<Longrightarrow> f k = f' k) \<Longrightarrow> f y = f' y \<Longrightarrow> task_ref A p f y adv = task_ref A p f' y adv"
  using disp_ref_cong [of A f f' y p adv] wmean_cong [of A p p f f'] by (simp add: task_ref_def)

lemma flat_forward_stats_ref:
  fixes adv eps T :: real
  assumes fit: "rows_fit mode s z e N" and c: "0 < c" and eps: "0 < eps" and k: "k < length s"
  shows "flat_forward_stats mode (length s) c T eps z e N s k adv
    = mode_ref mode {..<length s} (\<lambda>k. probs T s ! k) (prob_task T e (base_row mode z N))
        (prob_nuis T e (the N) z) eps k adv"
proof -
  let ?f = "fst (displacement_rows mode T z e N)" and ?g = "snd (displacement_rows mode T z e N)"
  have s: "s \<noteq> []" and vm: "valid_mode mode" using fit by (simp_all add: rows_fit_def)
  note len = rows_fitD(2,3) [OF fit, of T]
  note at = nth_direction_rows(1,2,5) [OF fit k]
  have tok: "exp (log_prob_at T (log_norm T e) e k) = probs T e ! k"
    "exp (log_prob_at T (log_norm T z) z k) = probs T z ! k"
    "mode \<noteq> ''evidence_vs_none'' \<Longrightarrow> exp (log_prob_at T (log_norm T (the N)) (the N) k) = probs T (the N) ! k"
    using fit k by (simp_all add: rows_fit_def log_prob_at_eq nth_probs)
  have slices: "(\<lambda>a b. fst (flat_displacement mode T z e N a b)) = (\<lambda>a b. slice a b ?f)"
    "(\<lambda>a b. snd (flat_displacement mode T z e N a b)) = (\<lambda>a b. slice a b ?g)"
    "(\<lambda>a b. vexp (log_probs_chunk T (log_norm T s) s a b)) = (\<lambda>a b. slice a b (probs T s))"
    by (simp_all add: flat_displacement_slice [OF vm] slice_simps)
  let ?m = "fec_first_pass (length s) c (\<lambda>a b. slice a b (probs T s)) (\<lambda>a b. slice a b ?f) (\<lambda>a b. slice a b ?g)"
  have gen: "flat_forward_stats mode (length s) c T eps z e N s k adv
    = (if mode = ''fec'' then fec_second_pass (length s) c eps (\<lambda>a b. slice a b ?f) (\<lambda>a b. slice a b ?g) ?m
        (prob_task T e (base_row mode z N) k) (prob_nuis T e (the N) z k) adv
       else task_only_stats ?m (prob_task T e (base_row mode z N) k) adv)"
    unfolding flat_forward_stats_def Let_def slices
    using tok by (simp add: prob_task_def prob_nuis_def base_row_def)
  show ?thesis
  proof (cases "mode = ''fec''")
    case True
    have "flat_forward_stats mode (length s) c T eps z e N s k adv
      = fec_ref {..<length s} (\<lambda>k. probs T s ! k) (\<lambda>k. ?f ! k) (\<lambda>k. ?g ! k) eps k adv"
      unfolding gen if_P [OF True] at(1) [symmetric] at(2) [OF True, symmetric]
      by (rule fec_second_pass_ref [OF s eps c len k])
    also have "\<dots> = fec_ref {..<length s} (\<lambda>k. probs T s ! k) (prob_task T e (base_row mode z N))
        (prob_nuis T e (the N) z) eps k adv"
      by (rule fec_ref_cong) (use nth_direction_rows [OF fit] True k in auto)
    finally show ?thesis using True by (simp add: mode_ref_def)
  next
    case False
    have "flat_forward_stats mode (length s) c T eps z e N s k adv = task_only_stats ?m (?f ! k) adv"
      unfolding gen if_not_P [OF False] at(1) ..
    also have "\<dots> = task_ref {..<length s} (\<lambda>k. probs T s ! k) (\<lambda>k. ?f ! k) k adv"
      by (rule task_only_ref [OF s c len _ k refl]) (use nth_direction_rows(5) [OF fit _ False] in auto)
    also have "\<dots> = task_ref {..<length s} (\<lambda>k. probs T s ! k) (prob_task T e (base_row mode z N)) k adv"
      by (rule task_ref_cong) (use nth_direction_rows(1) [OF fit] k in auto)
    finally show ?thesis using False by (simp add: mode_ref_def)
  qed
qed

text \<open>The Reverse-KL pass accumulates the same moments and one cross term more.\<close>

lemma task_only_tangent:
  "task_only_stats (reverse_fec_pass n c p f g) x adv = task_only_stats (fec_first_pass n c p f g) x adv"
  by (simp add: task_only_stats_def reverse_fec_pass_def fec_first_pass_def Let_def)

lemma tangent_row_zero: "(\<forall>k < length r. r ! k = 0) \<Longrightarrow> k < length p \<Longrightarrow> length p = length r \<Longrightarrow> tangent_row p r ! k = 0"
  by (simp add: nth_tangent_row tangent_def wmean_def)

lemma flat_reverse_stats_ref:
  fixes adv eps T :: real
  assumes fit: "rows_fit mode s z e N" and c: "0 < c" and eps: "0 < eps" and k: "k < length s"
  defines "A \<equiv> {..<length s}" and "p \<equiv> \<lambda>k. probs T s ! k"
  shows "flat_reverse_stats mode (length s) c T eps z e N s k adv
    = mode_ref mode A p (tangent A p (log_task T e (base_row mode z N)))
        (tangent A p (log_nuis T e (the N) z)) eps k adv"
proof -
  let ?r = "fst (ratio_rows mode T z e N)" and ?n = "snd (ratio_rows mode T z e N)" and ?p = "probs T s"
  let ?f = "tangent_row ?p ?r" and ?g = "tangent_row ?p ?n"
  have s: "s \<noteq> []" and vm: "valid_mode mode" using fit by (simp_all add: rows_fit_def)
  note len = rows_fitD(4,5) [OF fit, of T]
  have len2: "length ?f = length s" "length ?g = length s" using len by simp_all
  note rows = nth_direction_rows(3,4,6) [OF fit]
  have tok: "log_prob_at T (log_norm T e) e k = log_probs T e ! k"
    "log_prob_at T (log_norm T z) z k = log_probs T z ! k" "log_prob_at T (log_norm T s) s k = log_probs T s ! k"
    "log_prob_at T (log_norm T (base_row mode z N)) (base_row mode z N) k = log_probs T (base_row mode z N) ! k"
    using fit k rows_fitD(1) [OF fit] by (simp_all add: rows_fit_def log_prob_at_eq)
  have mean: "chunk_sum (length s) c (\<lambda>a b. vsum (slice a b (vmul ?p ?r))) = vsum (vmul ?p ?r)"
    "chunk_sum (length s) c (\<lambda>a b. vsum (slice a b (vmul ?p ?n))) = vsum (vmul ?p ?n)"
    using c len by simp_all
  have at: "?p ! k * (log_probs T e ! k - log_probs T (base_row mode z N) ! k - vsum (vmul ?p ?r)) = ?f ! k"
    "mode = ''fec'' \<Longrightarrow> ?p ! k * (1/2 * (log_probs T e ! k + log_probs T (base_row mode z N) ! k)
      - log_probs T z ! k - vsum (vmul ?p ?n)) = ?g ! k"
    using k len rows [OF k] by (simp_all add: tangent_row_def log_task_def log_nuis_def base_row_def)
  let ?m = "reverse_fec_pass (length s) c (\<lambda>a b. slice a b ?p) (\<lambda>a b. slice a b ?f) (\<lambda>a b. slice a b ?g)"
  have gen: "flat_reverse_stats mode (length s) c T eps z e N s k adv
    = (if mode = ''fec'' then reverse_fec_result eps ?m
          (?p ! k * (log_probs T e ! k - log_probs T (base_row mode z N) ! k - vsum (vmul ?p ?r)))
          (?p ! k * (1/2 * (log_probs T e ! k + log_probs T (base_row mode z N) ! k)
            - log_probs T z ! k - vsum (vmul ?p ?n))) adv
       else task_only_stats ?m
          (?p ! k * (log_probs T e ! k - log_probs T (base_row mode z N) ! k - vsum (vmul ?p ?r))) adv)"
    unfolding flat_reverse_stats_def Let_def mode_base [OF vm] flat_log_ratio_slice [OF vm] fst_conv snd_conv
      log_probs_chunk_slice vexp_log_probs vec_slice mean tangent_row_def [symmetric] tok nth_probs [OF k, symmetric] ..
  have tang: "?f ! j = tangent A p (log_task T e (base_row mode z N)) j"
    "mode = ''fec'' \<Longrightarrow> ?g ! j = tangent A p (log_nuis T e (the N) z) j" if j: "j < length s" for j
    using len j rows
    by (simp_all add: A_def p_def nth_tangent_row) (rule tangent_cong; simp)+
  show ?thesis
  proof (cases "mode = ''fec''")
    case True
    have "flat_reverse_stats mode (length s) c T eps z e N s k adv
      = fec_ref A p (\<lambda>k. ?f ! k) (\<lambda>k. ?g ! k) eps k adv"
      unfolding gen if_P [OF True] at(1) at(2) [OF True] A_def p_def
      by (rule reverse_fec_result_ref [OF s eps c len2 k])
    also have "\<dots> = fec_ref A p (tangent A p (log_task T e (base_row mode z N)))
        (tangent A p (log_nuis T e (the N) z)) eps k adv"
      by (rule fec_ref_cong) (use tang True k in \<open>auto simp: A_def\<close>)
    finally show ?thesis using True by (simp add: mode_ref_def)
  next
    case False
    have "flat_reverse_stats mode (length s) c T eps z e N s k adv
      = task_only_stats (fec_first_pass (length s) c (\<lambda>a b. slice a b ?p) (\<lambda>a b. slice a b ?f)
          (\<lambda>a b. slice a b ?g)) (?f ! k) adv"
      unfolding gen if_not_P [OF False] at(1) task_only_tangent ..
    also have "\<dots> = task_ref A p (\<lambda>k. ?f ! k) k adv"
      unfolding A_def p_def
      by (rule task_only_ref [OF s c len2 _ k refl]) (use rows(3) False len in \<open>auto intro!: tangent_row_zero\<close>)
    also have "\<dots> = task_ref A p (tangent A p (log_task T e (base_row mode z N))) k adv"
      by (rule task_ref_cong) (use tang k in \<open>auto simp: A_def\<close>)
    finally show ?thesis using False by (simp add: mode_ref_def)
  qed
qed

definition mode_resid :: "string \<Rightarrow> (nat \<Rightarrow> real) \<Rightarrow> real \<Rightarrow> (nat \<Rightarrow> real) \<Rightarrow> nat \<Rightarrow> real" where
  "mode_resid mode task a nuisance = (if mode = ''fec'' then resid task a nuisance else task)"

lemma flat_forward_correction_ref:
  assumes fit: "rows_fit mode s z e N" and c: "0 < c"
  shows "flat_forward_correction mode (length s) c T w a z e N s
    = corr_ref T w {..<length s} (mode_resid mode (prob_task T e (base_row mode z N)) a (prob_nuis T e (the N) z))
        (\<lambda>k. log_probs T s ! k)"
proof -
  let ?f = "fst (displacement_rows mode T z e N)" and ?g = "snd (displacement_rows mode T z e N)"
  let ?d = "if mode = ''fec'' then vsub ?f (vscale a ?g) else ?f"
  have vm: "valid_mode mode" using fit by (simp add: rows_fit_def)
  note len = rows_fitD(2,3) [OF fit, of T]
  have slice: "(if mode = ''fec'' then slice x y (vsub ?f (vscale a ?g)) else slice x y ?f) = slice x y ?d" for x y
    by simp
  have d: "length ?d = length s" using len by (cases "mode = ''fec''") auto
  have nth: "?d ! k = mode_resid mode (prob_task T e (base_row mode z N)) a (prob_nuis T e (the N) z) k"
    if "k < length s" for k
    using nth_direction_rows(1,2) [OF fit that] len that by (auto simp: mode_resid_def resid_def)
  have "flat_forward_correction mode (length s) c T w a z e N s
    = - (T * w) * chunk_sum (length s) c (\<lambda>x y. vsum (slice x y (vmul ?d (log_probs T s))))"
    unfolding flat_forward_correction_def Let_def flat_displacement_slice [OF vm] fst_conv snd_conv slice
      log_probs_chunk_slice vec_slice chunk_sum_neg ..
  also have "chunk_sum (length s) c (\<lambda>x y. vsum (slice x y (vmul ?d (log_probs T s))))
    = (\<Sum>k<length s. vmul ?d (log_probs T s) ! k)"
    by (rule chunk_vsum_nth [OF c]) (use d in simp)
  also have "\<dots> = (\<Sum>k<length s. mode_resid mode (prob_task T e (base_row mode z N)) a (prob_nuis T e (the N) z) k
      * log_probs T s ! k)"
    by (rule sum.cong) (use d nth in \<open>simp_all del: if_split_asm add: nth_vec\<close>)
  finally show ?thesis by (simp add: corr_ref_def)
qed

lemma flat_reverse_correction_ref:
  assumes fit: "rows_fit mode s z e N" and c: "0 < c"
  shows "flat_reverse_correction mode (length s) c T w a z e N s
    = Some (geo_ref T w {..<length s} (\<lambda>k. log_probs T s ! k) (\<lambda>k. log_probs T (base_row mode z N) ! k)
        (mode_resid mode (log_task T e (base_row mode z N)) a (log_nuis T e (the N) z)))"
proof -
  let ?f = "fst (ratio_rows mode T z e N)" and ?g = "snd (ratio_rows mode T z e N)" and ?b = "base_row mode z N"
  let ?r = "if mode = ''fec'' then vsub ?f (vscale a ?g) else ?f"
  have vm: "valid_mode mode" and s: "s \<noteq> []" using fit by (simp_all add: rows_fit_def)
  note len = rows_fitD(4,5) [OF fit, of T] rows_fitD(1) [OF fit]
  have slice: "(if mode = ''fec'' then slice x y (vsub ?f (vscale a ?g)) else slice x y ?f) = slice x y ?r" for x y
    by simp
  have r: "length ?r = length s" using len by (cases "mode = ''fec''") auto
  have nth: "?r ! k = mode_resid mode (log_task T e ?b) a (log_nuis T e (the N) z) k" if "k < length s" for k
    using nth_direction_rows(3,4) [OF fit that] len that by (auto simp: mode_resid_def resid_def)
  define d where "d = vadd (log_probs T ?b) (vscale w ?r)"
  have d: "length d = length s" "d \<noteq> []" using r len s by (auto simp: d_def simp flip: length_greater_0_conv)
  have lse: "chunk_lse (length s) c (\<lambda>x y. slice x y d) = Some (logsumexp d)"
    using chunk_lse_slice [OF c d(2)] by (simp add: d(1))
  have z: "logsumexp d = ln (\<Sum>k<length s. exp (log_probs T ?b ! k + w * mode_resid mode (log_task T e ?b) a (log_nuis T e (the N) z) k))"
    unfolding logsumexp_def vsum_nth
    by (rule arg_cong [where f = ln], rule sum.cong) (use d(1) r len nth in \<open>simp_all add: d_def\<close>)
  have e: "chunk_sum (length s) c (\<lambda>x y. vsum (slice x y (vmul (probs T s) ?r)))
      = (\<Sum>k<length s. exp (log_probs T s ! k) * mode_resid mode (log_task T e ?b) a (log_nuis T e (the N) z) k)"
    by (subst chunk_vsum_nth [OF c]) (use r nth in \<open>simp_all add: nth_probs\<close>)
  have "flat_reverse_correction mode (length s) c T w a z e N s
    = map_option (\<lambda>x. T * (x - w * chunk_sum (length s) c (\<lambda>x y. vsum (slice x y (vmul (probs T s) ?r)))))
        (chunk_lse (length s) c (\<lambda>x y. slice x y d))"
    unfolding flat_reverse_correction_def Let_def mode_base [OF vm] flat_log_ratio_slice [OF vm] fst_conv snd_conv slice
      log_probs_chunk_slice vec_slice vexp_log_probs d_def ..
  also have "\<dots> = Some (geo_ref T w {..<length s} (\<lambda>k. log_probs T s ! k) (\<lambda>k. log_probs T ?b ! k)
        (mode_resid mode (log_task T e ?b) a (log_nuis T e (the N) z)))"
    unfolding lse e using geo_ref_full [OF s rows_fitD(1) [OF fit], of T w] z by simp
  finally show ?thesis .
qed

end
