(* ===== verification/NativeTruncRef.thy ===== *)
theory NativeTruncRef
  imports NativeRef
begin

text \<open>
  The rows of the native truncated loss (theory \<open>NativeTruncated\<close>) are the reference statistics
  and losses on the set of selected coordinates.
\<close>

section \<open>Support and gather of one row\<close>

lemma new_flags_map: "inj f \<Longrightarrow> new_flags (map f xs) = new_flags xs"
proof (induction xs)
  case (Cons x xs)
  then show ?case by (cases xs) (auto simp: new_flags_Cons inj_eq split: list.splits)
qed (simp add: new_flags_def)

lemma where_else_map: "where_else (f d) v (map f xs) = map f (where_else d v xs)"
  by (auto intro!: nth_equalityI)

lemma sort_map_int: "sort (map int xs) = map int (sort xs)"
proof (induction xs)
  case (Cons x xs)
  have "map int (insort x ys) = insort (int x) (map int ys)" for ys by (induction ys) auto
  then show ?case using Cons by simp
qed simp

lemma flat_support_row_int:
  assumes "0 \<le> y" "support_row topk k sources (nat y) = (ids, valid)"
  shows "flat_support_row topk k sources y = (map int ids, valid)"
proof -
  let ?xs = "concat (map (topk k) sources) @ [nat y]"
  have "map int (concat (map (topk k) sources)) @ [y] = map int ?xs" using assms(1) by simp
  then have "sort (map int (concat (map (topk k) sources)) @ [y]) = map int (sort ?xs)" using sort_map_int by metis
  then show ?thesis
    using assms(2) where_else_map [of int 0 "new_flags (sort ?xs)" "sort ?xs"]
    by (auto simp: flat_support_row_def support_row_def Let_def new_flags_map)
qed

lemma chunked_logsumexp_at_eq:
  "0 < c \<Longrightarrow> z \<noteq> [] \<Longrightarrow> chunked_logsumexp_at (length z) c T z = Some (log_norm T z)"
proof -
  assume a: "0 < c" "z \<noteq> []"
  then have "scaled T z \<noteq> []" by (simp add: scaled_def)
  from chunk_lse_slice [OF a(1) this] show ?thesis
    by (simp add: chunked_logsumexp_at_def scaled_slice log_norm_def)
qed

lemma flat_gather_row_eq:
  assumes z: "z \<noteq> []" and ok: "support_ok (length z) ids valid"
  shows "flat_gather_row T z (log_norm T z) (map int ids) valid = sel_log_probs T z ids valid"
proof -
  have len: "length ids = length valid" using ok by (simp add: support_ok_def)
  show ?thesis
  proof (rule nth_equalityI)
    show "length (flat_gather_row T z (log_norm T z) (map int ids) valid) = length (sel_log_probs T z ids valid)"
      using len by (simp add: flat_gather_row_def Let_def)
    fix i assume "i < length (flat_gather_row T z (log_norm T z) (map int ids) valid)"
    then have i: "i < length valid" using len by (simp add: flat_gather_row_def Let_def)
    then show "flat_gather_row T z (log_norm T z) (map int ids) valid ! i = sel_log_probs T z ids valid ! i"
      using len valid_ids_nth(2) [OF ok i] nth_sel_log_probs [OF ok i, of T]
      by (auto simp: flat_gather_row_def Let_def nth_log_probs)
  qed
qed

lemma valid_ids_inj:
  "length ids = length valid \<Longrightarrow> distinct (valid_ids ids valid) \<Longrightarrow> i < length valid \<Longrightarrow> j < length valid
    \<Longrightarrow> valid ! i \<Longrightarrow> valid ! j \<Longrightarrow> ids ! i = ids ! j \<Longrightarrow> i = j"
proof (induction ids valid arbitrary: i j rule: list_induct2)
  case (Cons x xs v vs)
  have no: "x \<noteq> xs ! m" if "v" "m < length vs" "vs ! m" for m
    using Cons.prems(1) that Cons.hyps by (auto simp: valid_ids_Cons valid_ids_iff)
  show ?case
    using Cons no by (cases i; cases j) (auto simp: valid_ids_Cons split: if_splits)
qed simp

lemma sampled_direction:
  assumes ok: "support_ok n ids valid" and j: "j < length valid" "valid ! j" and xs: "length xs = length valid"
  shows "vsum (where_else 0 (map2 (\<lambda>v k. v \<and> k = int (ids ! j)) valid (map int ids)) xs) = xs ! j"
proof -
  have len: "length ids = length valid" and dist: "distinct (valid_ids ids valid)"
    using ok by (simp_all add: support_ok_def)
  have "where_else 0 (map2 (\<lambda>v k. v \<and> k = int (ids ! j)) valid (map int ids)) xs
      = map (\<lambda>i. if i = j then xs ! j else 0) [0..<length valid]"
    using len xs j valid_ids_inj [OF len dist _ j(1) _ j(2)] by (intro nth_equalityI) auto
  then show ?thesis using j(1) by (simp add: vsum_nth)
qed

lemma masked_kl_at_ref:
  assumes ok: "support_ok n ids valid" and len: "length la = length valid" "length lb = length valid"
    and at: "\<And>i. i < length valid \<Longrightarrow> valid ! i \<Longrightarrow> la ! i = fa (ids ! i) \<and> lb ! i = fb (ids ! i)"
  shows "masked_kl_at T valid la lb = kl_ref T (set (valid_ids ids valid)) fa fb"
proof -
  have "vmul (where_else 0 valid (vexp la)) (vsub la lb) = where_else 0 valid (vmul (vexp la) (vsub la lb))"
    using len by (intro vec_eqI) auto
  also have "vsum \<dots> = (\<Sum>k \<in> set (valid_ids ids valid). exp (fa k) * (fa k - fb k))"
    by (rule vsum_where_else [OF ok]) (use len at in auto)
  finally show ?thesis by (simp add: masked_kl_at_def kl_ref_def)
qed

lemma native_geometric_at_eq:
  assumes "length lp = length valid" "length lr = length valid"
  shows "native_geometric_at T lp lb lr w valid = geometric_correction_at T lp lb lr (clamp 0 1 w) valid"
proof -
  have "vmul (where_else 0 valid (vexp lp)) (where_else 0 valid lr)
      = where_else 0 valid (vmul (vexp lp) (where_else 0 valid lr))"
    using assms by (intro vec_eqI) auto
  then show ?thesis
    by (simp add: native_geometric_at_def geometric_correction_at_def Let_def split: option.splits)
qed

lemma geometric_clamp:
  "0 \<le> w \<Longrightarrow> w \<le> 1 \<Longrightarrow> clamp 0 1 w = w"
  by (simp add: clamp_def)

section \<open>Residual and statistics of one row\<close>

lemma fm_residual_nth:
  fixes lp :: vec and e :: real
  assumes "length task = length valid" "\<forall>ns. nuis = Some ns \<longrightarrow> length ns = length valid"
  defines "M \<equiv> forward_moments_at lp task valid nuis e"
  shows "length (fm_residual M) = length valid"
    and "i < length valid \<Longrightarrow> fm_residual M ! i = (if valid ! i
      then task ! i - (case nuis of None \<Rightarrow> 0 | Some ns \<Rightarrow> fm_projection M * ns ! i) else 0)"
  using assms(1,2) by (auto simp: M_def forward_moments_at_def Let_def split: option.splits)

lemma tm_residual_length:
  "length rt = length valid \<Longrightarrow> length lp = length valid \<Longrightarrow> \<forall>ns. nuis = Some ns \<longrightarrow> length ns = length valid
    \<Longrightarrow> length (tm_residual (reverse_tangent_moments_at lp rt valid nuis e)) = length valid"
  by (auto simp: reverse_tangent_moments_at_def Let_def split: option.splits)

lemma forward_none_fields:
  "fm_projection (forward_moments_at lp task valid None e) = 0"
  "fm_nuisance_norm (forward_moments_at lp task valid None e) = 0"
  "fm_cosine (forward_moments_at lp task valid None e) = 0"
  "fm_residual_cov (forward_moments_at lp task valid None e) = 0"
  "fm_task_norm (forward_moments_at lp task valid None e) = fm_displacement_norm (forward_moments_at lp task valid None e)"
  "tm_projection (reverse_tangent_moments_at lp task valid None e) = 0"
  "tm_nuisance_norm (reverse_tangent_moments_at lp task valid None e) = 0"
  "tm_cosine (reverse_tangent_moments_at lp task valid None e) = 0"
  "tm_residual_cov (reverse_tangent_moments_at lp task valid None e) = 0"
  "tm_task_norm (reverse_tangent_moments_at lp task valid None e)
    = tm_displacement_norm (reverse_tangent_moments_at lp task valid None e)"
  by (simp_all add: forward_moments_at_def reverse_tangent_moments_at_def Let_def)

lemma task_ref_alignment: "fs_alignment (task_ref A p f y adv) = f y - wmean A p f"
  "fst (disp_ref A p f y adv) = adv * (f y - wmean A p f)"
  by (simp_all add: task_ref_def disp_ref_def Let_def)

lemma fec_record_eqI:
  "fs_benefit R = fs_benefit Q \<Longrightarrow> fs_fisher_cost R = fs_fisher_cost Q \<Longrightarrow>
   fs_displacement_norm R = fs_displacement_norm Q \<Longrightarrow> fs_task_norm R = fs_task_norm Q \<Longrightarrow>
   fs_nuisance_norm R = fs_nuisance_norm Q \<Longrightarrow> fs_cosine R = fs_cosine Q \<Longrightarrow>
   fs_projection R = fs_projection Q \<Longrightarrow> fs_residual_cov R = fs_residual_cov Q \<Longrightarrow>
   fs_alignment R = fs_alignment Q \<Longrightarrow> R = (Q :: fec_stats)"
  by (cases R; cases Q) simp

lemma controller_statsI:
  assumes ok: "support_ok n ids valid" and j: "j < length valid" "valid ! j"
    and len: "length (fm_residual M) = length valid"
    and R: "fm_projection M = fs_projection R" "fm_fisher_cost M = fs_fisher_cost R"
      "fm_displacement_norm M = fs_displacement_norm R" "fm_task_norm M = fs_task_norm R"
      "fm_nuisance_norm M = fs_nuisance_norm R" "fm_cosine M = fs_cosine R" "fm_residual_cov M = fs_residual_cov R"
      "fm_residual M ! j - fm_residual_mean M = fs_alignment R" "fs_benefit R = adv * fs_alignment R"
  shows "controller_stats M (map int ids) valid (int (ids ! j)) adv = R"
  by (rule fec_record_eqI) (simp_all add: controller_stats_def Let_def sampled_direction [OF ok j len] R)

lemma benefit_alignment:
  "fs_benefit (fec_ref A p f g e y adv) = adv * fs_alignment (fec_ref A p f g e y adv)"
  "fs_benefit (task_ref A p f y adv) = adv * fs_alignment (task_ref A p f y adv)"
  by (simp_all add: fec_ref_def task_ref_def disp_ref_def Let_def)

text \<open>The moments of a row carry the reference statistics, also in the Reverse-KL reading.\<close>

definition carries :: "forward_moment_row \<Rightarrow> nat \<Rightarrow> fec_stats \<Rightarrow> bool" where
  "carries M j R \<longleftrightarrow> fm_projection M = fs_projection R \<and> fm_fisher_cost M = fs_fisher_cost R
     \<and> fm_displacement_norm M = fs_displacement_norm R \<and> fm_task_norm M = fs_task_norm R
     \<and> fm_nuisance_norm M = fs_nuisance_norm R \<and> fm_cosine M = fs_cosine R \<and> fm_residual_cov M = fs_residual_cov R
     \<and> fm_residual M ! j - fm_residual_mean M = fs_alignment R"

lemma forward_none_residual:
  "fm_residual (forward_moments_at lp task valid None e) = where_else 0 valid task"
  by (simp add: forward_moments_at_def Let_def)

lemma carries_forward:
  fixes T adv eps :: real
  assumes z: "z \<noteq> []" and ok: "support_ok (length z) ids valid" and eps: "0 < eps"
    and task: "length task = length valid" "\<And>i. i < length valid \<Longrightarrow> valid ! i \<Longrightarrow> task ! i = ft (ids ! i)"
    and nuis: "length ns = length valid" "\<And>i. i < length valid \<Longrightarrow> valid ! i \<Longrightarrow> ns ! i = fn (ids ! i)"
    and j: "j < length valid" "valid ! j"
  shows "carries (forward_moments_at (sel_log_probs T z ids valid) task valid
      (if mode = ''fec'' then Some ns else None) eps) j
    (mode_ref mode (set (valid_ids ids valid)) (\<lambda>k. probs T z ! k) ft fn eps (ids ! j) adv)"
proof (cases "mode = ''fec''")
  case True
  note F = forward_moments_at_ref [OF z ok eps task(1) _ nuis(1) _ j, of ft fn T adv]
  show ?thesis
    unfolding carries_def mode_ref_def if_P [OF True] by (intro conjI F) (erule (1) task nuis)+
next
  case False
  have len: "length ids = length valid" using ok by (simp add: support_ok_def)
  have row: "where_else 0 valid task = srow ids valid ft" by (rule where_else_srow [OF len task])
  note N = forward_moments_at_none [OF z ok task j, of adv T eps, unfolded disp_ref_def prod.inject]
  have "fm_residual_mean (forward_moments_at (sel_log_probs T z ids valid) task valid None eps)
      = wmean (set (valid_ids ids valid)) (\<lambda>k. probs T z ! k) ft"
    by (simp add: forward_moments_at_def Let_def sel_probs_srow [OF ok] row srow_arith vsum_srow [OF ok] wmean_def)
  then show ?thesis
    using False N j task(1) task(2) [OF j]
    by (simp add: carries_def mode_ref_def task_ref_def disp_ref_def forward_none_fields forward_none_residual)
qed

lemma carries_reverse:
  fixes T adv eps :: real
  assumes z: "z \<noteq> []" and ok: "support_ok (length z) ids valid" and eps: "0 < eps"
    and task: "length rt = length valid" "\<And>i. i < length valid \<Longrightarrow> valid ! i \<Longrightarrow> rt ! i = ft (ids ! i)"
    and nuis: "length rn = length valid" "\<And>i. i < length valid \<Longrightarrow> valid ! i \<Longrightarrow> rn ! i = fn (ids ! i)"
    and j: "j < length valid" "valid ! j"
  defines "A \<equiv> set (valid_ids ids valid)" and "p \<equiv> \<lambda>k. probs T z ! k"
  shows "carries (tangent_controller (reverse_tangent_moments_at (sel_log_probs T z ids valid) rt valid
      (if mode = ''fec'' then Some rn else None) eps)) j
    (mode_ref mode A p (tangent A p ft) (tangent A p fn) eps (ids ! j) adv)"
proof (cases "mode = ''fec''")
  case True
  note F = reverse_tangent_moments_at_ref [OF z ok eps task(1) _ nuis(1) _ j, of ft fn T adv]
  show ?thesis
    unfolding carries_def mode_ref_def if_P [OF True] tangent_controller_def forward_moment_row.simps A_def p_def
    by (intro conjI F) (erule (1) task nuis)+
next
  case False
  have len: "length ids = length valid" using ok by (simp add: support_ok_def)
  let ?M = "reverse_tangent_moments_at (sel_log_probs T z ids valid) rt valid None eps"
  note N = reverse_tangent_moments_at_none [OF z ok task j, of 1 T eps, unfolded disp_ref_def prod.inject,
      folded A_def p_def]
  show ?thesis
    using False N
    by (simp add: carries_def mode_ref_def task_ref_def disp_ref_def forward_none_fields tangent_controller_def)
qed

lemma controller_stats_ref:
  assumes "support_ok n ids valid" "j < length valid" "valid ! j" "length (fm_residual M) = length valid"
    and "carries M j (mode_ref mode A p f g e (ids ! j) adv)"
  shows "controller_stats M (map int ids) valid (int (ids ! j)) adv = mode_ref mode A p f g e (ids ! j) adv"
  by (rule controller_statsI [OF assms(1-4)])
    (use assms(5) in \<open>simp_all add: carries_def mode_ref_def benefit_alignment split: if_splits\<close>)

end
