(* ===== verification/NativeEquiv.thy ===== *)
theory NativeEquiv
  imports NativeTruncRef
begin

text \<open>
  The native loss as a whole: for logits of one shape, the exact and the truncated native loss
  return, at every token row, the reference statistics, weights, anchors and corrections on the
  coordinates of the call. This is the specification the package functions refine as well.
\<close>

section \<open>Flattening\<close>

definition flat_of :: "logits \<Rightarrow> flat" where
  "flat_of L = \<lparr>ft_v = lg_v L, ft_rows = lg_rows L\<rparr>"

lemma flat_of_simps [simp]: "ft_v (flat_of L) = lg_v L" "ft_rows (flat_of L) = lg_rows L"
  by (simp_all add: flat_of_def)

lemma flat_shape_of: "wf_logits L \<Longrightarrow> flat_shape (flat_of L) = [lg_n L * lg_s L, lg_v L]"
  by (simp add: flat_shape_def wf_logits_def)

lemma tensors_ok_flat:
  assumes "tensors_ok Ls" "L \<in> set Ls" "M \<in> set Ls"
  shows "flat_shape (flat_of L) = flat_shape (flat_of M)" "length (lg_rows L) = lg_n M * lg_s M" "lg_v L = lg_v M"
    "0 < lg_v L"
proof -
  have "wf_logits L" "wf_logits M" "lg_shape L = lg_shape M" "0 < lg_v L"
    using assms(1) [unfolded tensors_ok_iff] assms(2,3) by blast+
  then show "flat_shape (flat_of L) = flat_shape (flat_of M)" "length (lg_rows L) = lg_n M * lg_s M" "lg_v L = lg_v M"
    "0 < lg_v L"
    by (simp_all add: flat_shape_of lg_shape_eq_iff wf_logits_def)
qed

section \<open>Supports\<close>

definition supports :: "flat_support \<Rightarrow> nat \<Rightarrow> nat \<Rightarrow> (nat \<Rightarrow> nat set) \<Rightarrow> bool" where
  "supports U n v X \<longleftrightarrow> length (fu_ids U) = n \<and> length (fu_valid U) = n
     \<and> (\<forall>t < n. \<exists>ids. fu_ids U ! t = map int ids \<and> support_ok v ids (fu_valid U ! t)
          \<and> length (fu_valid U ! t) = fu_w U \<and> set (valid_ids ids (fu_valid U ! t)) = X t)"

definition ids_at :: "flat_support \<Rightarrow> nat \<Rightarrow> nat list" where
  "ids_at U t = map nat (fu_ids U ! t)"

lemma supportsD:
  assumes "supports U n v X" "t < n"
  shows "fu_ids U ! t = map int (ids_at U t)" "support_ok v (ids_at U t) (fu_valid U ! t)"
    "length (fu_valid U ! t) = fu_w U" "set (valid_ids (ids_at U t) (fu_valid U ! t)) = X t"
    "length (ids_at U t) = fu_w U"
proof -
  obtain ids where ids: "fu_ids U ! t = map int ids" "support_ok v ids (fu_valid U ! t)"
    "length (fu_valid U ! t) = fu_w U" "set (valid_ids ids (fu_valid U ! t)) = X t"
    using assms by (auto simp: supports_def)
  have "ids_at U t = ids" by (simp add: ids_at_def ids(1) o_def)
  then show "fu_ids U ! t = map int (ids_at U t)" "support_ok v (ids_at U t) (fu_valid U ! t)"
    "length (fu_valid U ! t) = fu_w U" "set (valid_ids (ids_at U t) (fu_valid U ! t)) = X t"
    "length (ids_at U t) = fu_w U"
    using ids by (simp_all add: support_ok_def)
qed

lemma native_topk_support_eq:
  assumes topk: "topk_select topk"
    and ten: "tensors_ok (L # Ls @ (case student of None \<Rightarrow> [] | Some M \<Rightarrow> [M]))"
    and ids: "ids_ok L y"
  defines "all \<equiv> L # Ls @ (case student of None \<Rightarrow> [] | Some M \<Rightarrow> [M])"
  shows "\<exists>U. native_topk_support topk (map flat_of (L # Ls)) (tk_vals y) k (map_option flat_of student) = Inr U
    \<and> supports U (lg_n L * lg_s L) (lg_v L) (support_set topk (nat k) all y)"
proof -
  let ?n = "lg_n L * lg_s L" and ?v = "lg_v L"
  have L: "L \<in> set all" by (simp add: all_def)
  note T = tensors_ok_flat [OF ten [folded all_def] _ L]
  have leny: "length (tk_vals y) = ?n" using ids by (simp add: ids_ok_def wf_tok_def tok_shape_def token_shape_def)
  have lenL: "length (lg_rows L) = ?n" using T(2) [OF L] .
  define kk where "kk = min (nat k) ?v"
  define row where "row t = support_row topk kk (map (\<lambda>M. lg_rows M ! t) all) (nat (tk_vals y ! t))" for t
  define U where "U = \<lparr>fu_w = length all * kk + 1, fu_ids = map (\<lambda>t. map int (fst (row t))) [0..<?n],
      fu_valid = map (\<lambda>t. snd (row t)) [0..<?n]\<rparr>"
  have y0: "0 \<le> tk_vals y ! t" if "t < ?n" for t
    using ids that leny by (auto simp: ids_ok_def list_all_iff)
  have rows: "flat_support_row topk kk (map (\<lambda>L. ft_rows L ! t) (map flat_of all)) (tk_vals y ! t)
      = (map int (fst (row t)), snd (row t))" if t: "t < ?n" for t
    using flat_support_row_int [OF y0 [OF t], of topk kk "map (\<lambda>M. lg_rows M ! t) all" "fst (row t)" "snd (row t)"]
    by (simp add: row_def o_def)
  define srcs where "srcs = map flat_of (L # Ls) @ (case map_option flat_of student of None \<Rightarrow> [] | Some M \<Rightarrow> [M])"
  have srcs: "srcs = map flat_of all" by (cases student) (simp_all add: all_def srcs_def)
  have "native_topk_support topk (map flat_of (L # Ls)) (tk_vals y) k (map_option flat_of student)
      = (let rows = map (\<lambda>t. flat_support_row topk kk (map (\<lambda>L. ft_rows L ! t) srcs) (tk_vals y ! t)) [0..<?n]
         in Inr \<lparr>fu_w = length srcs * kk + 1, fu_ids = map fst rows, fu_valid = map snd rows\<rparr>)"
  proof -
    have c1: "list_all (\<lambda>M. flat_shape M = flat_shape (flat_of L)) (flat_of L # map flat_of Ls)"
      by (auto simp: list_all_iff all_def intro!: T(1))
    have c2: "(case map_option flat_of student of None \<Rightarrow> False | Some S \<Rightarrow> flat_shape S \<noteq> flat_shape (flat_of L)) = False"
      by (cases student) (auto simp: all_def intro!: T(1))
    have c3: "(length (tk_vals y) \<noteq> length (ft_rows (flat_of L))) = False" by (simp add: leny lenL)
    show ?thesis
      unfolding native_topk_support_def list.map list.case c2 c3 if_False
      using c1 by (simp only: not_True_eq_False if_False Let_def srcs_def kk_def list.map flat_of_simps lenL)
  qed
  also have "\<dots> = Inr U"
  proof -
    have "map (\<lambda>t. flat_support_row topk kk (map (\<lambda>L. ft_rows L ! t) srcs) (tk_vals y ! t)) [0..<?n]
        = map (\<lambda>t. (map int (fst (row t)), snd (row t))) [0..<?n]"
      unfolding srcs by (rule map_cong) (simp_all add: rows del: map_map)
    then show ?thesis by (simp add: srcs U_def o_def)
  qed
  finally have "native_topk_support topk (map flat_of (L # Ls)) (tk_vals y) k (map_option flat_of student) = Inr U" .
  moreover have "supports U ?n ?v (support_set topk (nat k) all y)"
    unfolding supports_def
  proof (intro conjI allI impI)
    show "length (fu_ids U) = ?n" "length (fu_valid U) = ?n" by (simp_all add: U_def)
    fix t assume t: "t < ?n"
    have rl: "\<forall>z \<in> set (map (\<lambda>M. lg_rows M ! t) all). length z = ?v"
    proof clarsimp
      fix M assume M: "M \<in> set all"
      have "wf_logits M" using ten M unfolding all_def tensors_ok_iff by blast
      then show "length (lg_rows M ! t) = ?v"
        using T(2,3) [OF M] t wf_logits_row by (auto simp: wf_logits_def)
    qed
    have yv: "nat (tk_vals y ! t) < ?v" using ids_ok_at [OF ids t] by (simp add: token_at_def)
    note R = support_row_ok [OF topk _ rl yv, of kk "fst (row t)" "snd (row t)"]
    have kk: "kk \<le> ?v" by (simp add: kk_def)
    have eq: "support_row topk kk (map (\<lambda>M. lg_rows M ! t) all) (nat (tk_vals y ! t)) = (fst (row t), snd (row t))"
      by (simp add: row_def)
    have "(\<Union>z \<in> set (map (\<lambda>M. lg_rows M ! t) all). set (topk kk z))
        = (\<Union>M \<in> set all. set (topk (min (nat k) (lg_v M)) (lg_rows M ! t)))"
      using T(3) by (auto simp: kk_def)
    then have X: "set (valid_ids (fst (row t)) (snd (row t))) = support_set topk (nat k) all y t"
      using R(2) [OF kk eq] by (simp add: support_set_def)
    show "\<exists>ids. fu_ids U ! t = map int ids \<and> support_ok ?v ids (fu_valid U ! t)
          \<and> length (fu_valid U ! t) = fu_w U \<and> set (valid_ids ids (fu_valid U ! t)) = support_set topk (nat k) all y t"
      using R(1,3) [OF kk eq] X t by (intro exI [of _ "fst (row t)"]) (simp add: U_def)
  qed
  ultimately show ?thesis by blast
qed

section \<open>Gathered rows\<close>

definition sel_flat :: "real \<Rightarrow> logits \<Rightarrow> flat_support \<Rightarrow> flat" where
  "sel_flat T L U = \<lparr>ft_v = fu_w U, ft_rows = map (\<lambda>t. sel_log_probs T (lg_rows L ! t) (ids_at U t) (fu_valid U ! t))
     [0..<length (lg_rows L)]\<rparr>"

definition rows_ok :: "logits \<Rightarrow> nat \<Rightarrow> nat \<Rightarrow> bool" where
  "rows_ok L n v \<longleftrightarrow> length (lg_rows L) = n \<and> lg_v L = v \<and> 0 < v \<and> (\<forall>t < n. length (lg_rows L ! t) = v)"

lemma tensors_rows_ok:
  assumes "tensors_ok Ls" "L \<in> set Ls" "M \<in> set Ls"
  shows "rows_ok L (lg_n M * lg_s M) (lg_v M)"
proof -
  have "wf_logits L" using assms(1,2) by (simp add: tensors_ok_iff)
  then show ?thesis
    using tensors_ok_flat(2-4) [OF assms] by (auto simp: rows_ok_def wf_logits_def)
qed

lemma rows_ok_row: "rows_ok L n v \<Longrightarrow> t < n \<Longrightarrow> length (lg_rows L ! t) = v \<and> lg_rows L ! t \<noteq> []"
  by (auto simp: rows_ok_def)

lemma native_gather_eq:
  assumes U: "supports U n v X" and L: "rows_ok L n v" and T: "0 < T" and c: "0 < c"
  shows "native_gather_log_probs (flat_of L) U (Fin T) c = Inr (sel_flat T L U)"
proof -
  have n: "length (fu_ids U) = n" "length (fu_valid U) = n" "length (lg_rows L) = n" "lg_v L = v" "0 < v"
    using U L by (simp_all add: supports_def rows_ok_def)
  have "\<not> list_ex (\<lambda>(k, w). w \<and> (k < 0 \<or> int v \<le> k)) (zip (fu_ids U ! t) (fu_valid U ! t))" if t: "t < n" for t
  proof -
    note D = supportsD [OF U t]
    have "\<not> (valid \<and> (k < 0 \<or> int v \<le> k))" if "(k, valid) \<in> set (zip (map int (ids_at U t)) (fu_valid U ! t))" for k valid
    proof -
      from that obtain i where "i < length (fu_valid U ! t)" "k = int (ids_at U t ! i)" "valid = fu_valid U ! t ! i"
        using D(3,5) by (auto simp: in_set_zip)
      then show ?thesis using valid_ids_nth(2) [OF D(2), of i] by (auto simp: not_le)
    qed
    then show ?thesis unfolding D(1) by (auto simp: list_ex_iff)
  qed
  then have "\<not> list_ex (\<lambda>(ids, valid). list_ex (\<lambda>(k, w). w \<and> (k < 0 \<or> int v \<le> k)) (zip ids valid))
      (zip (fu_ids U) (fu_valid U))"
    using n by (simp add: list_ex_length [of _ "zip (fu_ids U) (fu_valid U)"])
  then have check: "check_gather msg (flat_of L) U = Inr ()" for msg using n by (simp add: check_gather_def)
  have lse: "chunked_logsumexp (flat_of L) (Fin T) c = Inr (map (log_norm T) (lg_rows L))"
  proof -
    have "the (chunked_logsumexp_at v (nat c) T z) = log_norm T z" if z: "z \<in> set (lg_rows L)" for z
    proof -
      obtain t where "t < n" "z = lg_rows L ! t" using z n by (auto simp: in_set_conv_nth)
      then have "length z = v" "z \<noteq> []" using rows_ok_row [OF L] by auto
      then show ?thesis using c chunked_logsumexp_at_eq [of "nat c" z T] by simp
    qed
    then show ?thesis using T c n by (simp add: chunked_logsumexp_def not_le)
  qed
  have "flat_gather_row T (lg_rows L ! t) (log_norm T (lg_rows L ! t)) (fu_ids U ! t) (fu_valid U ! t)
      = sel_log_probs T (lg_rows L ! t) (ids_at U t) (fu_valid U ! t)" if t: "t < n" for t
    using flat_gather_row_eq [of "lg_rows L ! t" "ids_at U t" "fu_valid U ! t" T] rows_ok_row [OF L t] supportsD(1,2) [OF U t]
    by simp
  then show ?thesis
    by (simp add: native_gather_log_probs_def check lse sel_flat_def n)
qed

text \<open>A tensor on a support as a function of row and vocabulary coordinate.\<close>

definition frep :: "flat_support \<Rightarrow> nat \<Rightarrow> flat \<Rightarrow> (nat \<Rightarrow> nat \<Rightarrow> real) \<Rightarrow> bool" where
  "frep U n A f \<longleftrightarrow> ft_v A = fu_w U \<and> length (ft_rows A) = n
     \<and> (\<forall>t < n. length (ft_rows A ! t) = fu_w U
          \<and> (\<forall>i < fu_w U. fu_valid U ! t ! i \<longrightarrow> ft_rows A ! t ! i = f t (ids_at U t ! i)))"

named_theorems frep_intros \<open>closure of the flat representation relation\<close>

lemma frep_arith [frep_intros]:
  "frep U n A f \<Longrightarrow> frep U n B g \<Longrightarrow> frep U n (flat_map2 vsub A B) (\<lambda>t k. f t k - g t k)"
  "frep U n A f \<Longrightarrow> frep U n B g \<Longrightarrow> frep U n (flat_map2 vadd A B) (\<lambda>t k. f t k + g t k)"
  "frep U n A f \<Longrightarrow> frep U n (flat_map (vscale c) A) (\<lambda>t k. c * f t k)"
  "frep U n A f \<Longrightarrow> frep U n (flat_map vexp A) (\<lambda>t k. exp (f t k))"
  by (simp_all add: frep_def flat_map2_def flat_map_def)

lemma frep_where [frep_intros]:
  "supports U n v X \<Longrightarrow> frep U n A f \<Longrightarrow> frep U n (row_where (fu_valid U) A) f"
  by (auto simp: frep_def row_where_def supports_def)

lemma frep_sel [frep_intros]:
  assumes U: "supports U n v X" and L: "rows_ok L n v"
  shows "frep U n (sel_flat T L U) (log_row T L)"
  unfolding frep_def
proof (intro conjI allI impI)
  have n: "length (lg_rows L) = n" using L by (simp add: rows_ok_def)
  show "ft_v (sel_flat T L U) = fu_w U" "length (ft_rows (sel_flat T L U)) = n" by (simp_all add: sel_flat_def n)
  fix t assume t: "t < n"
  note D = supportsD [OF U t]
  show "length (ft_rows (sel_flat T L U) ! t) = fu_w U" using t D(3,5) by (simp add: sel_flat_def n)
  fix i assume "i < fu_w U" "fu_valid U ! t ! i"
  then show "ft_rows (sel_flat T L U) ! t ! i = log_row T L t (ids_at U t ! i)"
    using t D(2,3) rows_ok_row [OF L t] nth_sel_log_probs [of "lg_rows L ! t" "ids_at U t" "fu_valid U ! t" i T]
    by (simp add: sel_flat_def n log_row_def)
qed

lemma frep_row:
  assumes "frep U n A f" "supports U n v X" "t < n"
  shows "length (ft_rows A ! t) = length (fu_valid U ! t)"
    "\<And>i. i < length (fu_valid U ! t) \<Longrightarrow> fu_valid U ! t ! i \<Longrightarrow> ft_rows A ! t ! i = f t (ids_at U t ! i)"
  using assms(1,3) supportsD(3) [OF assms(2,3)] by (auto simp: frep_def)

lemma frep_shape: "frep U n A f \<Longrightarrow> supports U n v X \<Longrightarrow> flat_shape A = support_shape U"
  by (simp add: frep_def supports_def flat_shape_def support_shape_def)

section \<open>The specification of a call\<close>

record vcall =
  vc_student :: logits
  vc_base :: logits
  vc_evidence :: logits
  vc_negative :: "logits option"
  vc_tokens :: token_ids
  vc_advantages :: vec
  vc_active :: "bool list"

definition batch_of :: "vcall \<Rightarrow> flat_batch" where
  "batch_of C = \<lparr>fb_student = flat_of (vc_student C), fb_base = flat_of (vc_base C),
     fb_evidence = flat_of (vc_evidence C), fb_sampled_token_ids = tk_vals (vc_tokens C),
     fb_token_advantages = vc_advantages C, fb_active_token_mask = vc_active C,
     fb_negative_logits = map_option flat_of (vc_negative C), fb_negative_probabilities = None\<rparr>"

definition rows_of_call :: "vcall \<Rightarrow> nat" where
  "rows_of_call C = lg_n (vc_student C) * lg_s (vc_student C)"

definition call_ok :: "string \<Rightarrow> vcall \<Rightarrow> bool" where
  "call_ok mode C \<longleftrightarrow> valid_mode mode
     \<and> tensors_ok ([vc_student C, vc_base C, vc_evidence C] @ (case vc_negative C of None \<Rightarrow> [] | Some N \<Rightarrow> [N]))
     \<and> ids_ok (vc_student C) (vc_tokens C) \<and> length (vc_advantages C) = rows_of_call C
     \<and> length (vc_active C) = rows_of_call C \<and> (mode \<noteq> ''evidence_vs_none'' \<longrightarrow> vc_negative C \<noteq> None)"

text \<open>The numeric arguments: temperature \<open>T\<close>, projection epsilon \<open>e\<close>, resolved costs.\<close>

definition args_ok :: "verpo_args \<Rightarrow> real \<Rightarrow> real \<Rightarrow> real \<Rightarrow> real \<Rightarrow> bool" where
  "args_ok A T e ca ce \<longleftrightarrow> validate_verpo_controller A = Inr () \<and> resolve_cost_parameters A = Inr (ca, ce)
     \<and> va_temperature A = Fin T \<and> 0 < T \<and> va_projection_epsilon A = Fin e \<and> 0 < e
     \<and> 0 < va_vocab_chunk_size A \<and> (va_divergence A = ''forward_kl'' \<or> va_divergence A = ''reverse_kl'')"

definition reversed :: "verpo_args \<Rightarrow> bool" where
  "reversed A \<longleftrightarrow> va_divergence A = ''reverse_kl''"

definition call_base :: "string \<Rightarrow> vcall \<Rightarrow> logits" where
  "call_base mode C = (if mode = ''evidence_vs_none'' then vc_base C else the (vc_negative C))"

definition call_sources :: "string \<Rightarrow> bool \<Rightarrow> vcall \<Rightarrow> logits list" where
  "call_sources mode rv C =
     (if mode = ''evidence_vs_none'' then [vc_base C, vc_evidence C]
      else if mode = ''fec'' then [vc_base C, vc_evidence C, the (vc_negative C)]
      else [vc_evidence C, the (vc_negative C)]) @ (if rv then [vc_student C] else [])"

definition call_coords ::
  "(nat \<Rightarrow> vec \<Rightarrow> nat list) \<Rightarrow> bool \<Rightarrow> nat \<Rightarrow> logits list \<Rightarrow> vcall \<Rightarrow> nat \<Rightarrow> nat set" where
  "call_coords topk full k Ls C t =
     (if full then {..<lg_v (vc_student C)} else support_set topk k Ls (vc_tokens C) t)"

definition call_stats ::
  "(nat \<Rightarrow> vec \<Rightarrow> nat list) \<Rightarrow> bool \<Rightarrow> verpo_args \<Rightarrow> real \<Rightarrow> real \<Rightarrow> vcall \<Rightarrow> nat \<Rightarrow> fec_stats" where
  "call_stats topk full A T e C t =
     (let mode = va_displacement_mode A; rv = reversed A;
          X = call_coords topk full (nat (va_top_k A)) (call_sources mode rv C) C t;
          p = stu_prob T (vc_student C) t;
          base = call_base mode C; neg = the (vc_negative C);
          task = (if rv then tangent X p (task_log T (vc_evidence C) base t) else task_prob T (vc_evidence C) base t);
          nuis = (if rv then tangent X p (nuis_log T (vc_evidence C) neg (vc_base C) t)
                  else nuis_prob T (vc_evidence C) neg (vc_base C) t)
      in mode_ref mode X p task nuis e (token_at (vc_tokens C) t) (vc_advantages C ! t))"

definition call_reference ::
  "(nat \<Rightarrow> vec \<Rightarrow> nat list) \<Rightarrow> bool \<Rightarrow> verpo_args \<Rightarrow> real \<Rightarrow> vcall \<Rightarrow> nat \<Rightarrow> real" where
  "call_reference topk full A T C t =
     (let rv = reversed A; S = vc_student C;
          X = call_coords topk full (nat (va_top_k A)) (vc_base C # (if rv then [S] else [])) C t
      in if rv then kl_ref T X (log_row T S t) (log_row T (vc_base C) t)
         else kl_ref T X (log_row T (vc_base C) t) (log_row T S t))"

definition call_evidence ::
  "(nat \<Rightarrow> vec \<Rightarrow> nat list) \<Rightarrow> bool \<Rightarrow> verpo_args \<Rightarrow> real \<Rightarrow> vcall \<Rightarrow> real \<Rightarrow> real \<Rightarrow> nat \<Rightarrow> real" where
  "call_evidence topk full A T C w a t =
     (let mode = va_displacement_mode A; rv = reversed A; S = vc_student C; base = call_base mode C;
          neg = the (vc_negative C); E = vc_evidence C; Z = vc_base C;
          X = call_coords topk full (nat (va_top_k A)) (call_sources mode rv C) C t
      in if rv then geo_ref T (if full then w else clamp 0 1 w) X (log_row T S t) (log_row T base t)
             (mode_resid mode (task_log T E base t) a (nuis_log T E neg Z t))
         else corr_ref T w X (mode_resid mode (task_prob T E base t) a (nuis_prob T E neg Z t)) (log_row T S t))"

lemma tensor_rows:
  "task_prob T P N t = prob_task T (lg_rows P ! t) (lg_rows N ! t)"
  "nuis_prob T P N Z t = prob_nuis T (lg_rows P ! t) (lg_rows N ! t) (lg_rows Z ! t)"
  "task_log T P N t = log_task T (lg_rows P ! t) (lg_rows N ! t)"
  "nuis_log T P N Z t = log_nuis T (lg_rows P ! t) (lg_rows N ! t) (lg_rows Z ! t)"
  "stu_prob T S t = (\<lambda>k. probs T (lg_rows S ! t) ! k)" "log_row T S t = (\<lambda>k. log_probs T (lg_rows S ! t) ! k)"
  by (auto simp: task_prob_def prob_task_def nuis_prob_def prob_nuis_def task_log_def log_task_def nuis_log_def
      log_nuis_def stu_prob_def log_row_def)

lemma call_okD:
  assumes ok: "call_ok mode C"
  defines "n \<equiv> rows_of_call C" and "v \<equiv> lg_v (vc_student C)"
  shows "rows_ok (vc_student C) n v" "rows_ok (vc_base C) n v" "rows_ok (vc_evidence C) n v"
    "vc_negative C = Some N \<Longrightarrow> rows_ok N n v" "0 < v" "length (tk_vals (vc_tokens C)) = n"
    "\<And>t. t < n \<Longrightarrow> token_at (vc_tokens C) t < v" "\<And>t. t < n \<Longrightarrow> int (token_at (vc_tokens C) t) = tk_vals (vc_tokens C) ! t"
    "ids_in_range v (tk_vals (vc_tokens C))" "mode \<noteq> ''evidence_vs_none'' \<Longrightarrow> \<exists>N. vc_negative C = Some N"
proof -
  let ?Ls = "[vc_student C, vc_base C, vc_evidence C] @ (case vc_negative C of None \<Rightarrow> [] | Some N \<Rightarrow> [N])"
  have ten: "tensors_ok ?Ls" and ids: "ids_ok (vc_student C) (vc_tokens C)" using ok by (simp_all add: call_ok_def)
  have S: "vc_student C \<in> set ?Ls" by simp
  note R = tensors_rows_ok [OF ten _ S, folded rows_of_call_def, folded n_def v_def]
  show "rows_ok (vc_student C) n v" "rows_ok (vc_base C) n v" "rows_ok (vc_evidence C) n v" by (rule R; simp)+
  show "vc_negative C = Some N \<Longrightarrow> rows_ok N n v" by (rule R) simp
  show v: "0 < v" using \<open>rows_ok (vc_student C) n v\<close> by (simp add: rows_ok_def)
  show len: "length (tk_vals (vc_tokens C)) = n"
    using ids by (simp add: ids_ok_def wf_tok_def tok_shape_def token_shape_def n_def rows_of_call_def)
  show tok: "token_at (vc_tokens C) t < v" if "t < n" for t
    using ids_ok_at [OF ids] that by (simp add: n_def rows_of_call_def v_def)
  show "int (token_at (vc_tokens C) t) = tk_vals (vc_tokens C) ! t" if "t < n" for t
    using ids that len by (auto simp: ids_ok_def list_all_iff token_at_def)
  show "ids_in_range v (tk_vals (vc_tokens C))" using ids by (simp add: ids_ok_def ids_in_range_def v_def)
  show "mode \<noteq> ''evidence_vs_none'' \<Longrightarrow> \<exists>N. vc_negative C = Some N" using ok by (auto simp: call_ok_def)
qed

section \<open>The exact loss meets the specification\<close>

lemma call_fit:
  assumes ok: "call_ok mode C" and t: "t < rows_of_call C"
  shows "rows_fit mode (lg_rows (vc_student C) ! t) (lg_rows (vc_base C) ! t) (lg_rows (vc_evidence C) ! t)
      (flat_row_opt (map_option flat_of (vc_negative C)) t)"
    and "base_row mode (lg_rows (vc_base C) ! t) (flat_row_opt (map_option flat_of (vc_negative C)) t)
      = lg_rows (call_base mode C) ! t"
    and "mode \<noteq> ''evidence_vs_none'' \<Longrightarrow>
      the (flat_row_opt (map_option flat_of (vc_negative C)) t) = lg_rows (the (vc_negative C)) ! t"
proof -
  note D = call_okD [OF ok]
  have lens: "length (lg_rows L ! t) = lg_v (vc_student C)" "lg_rows L ! t \<noteq> []"
    if "rows_ok L (rows_of_call C) (lg_v (vc_student C))" for L
    using rows_ok_row [OF that t] by simp_all
  show neg: "the (flat_row_opt (map_option flat_of (vc_negative C)) t) = lg_rows (the (vc_negative C)) ! t"
    if "mode \<noteq> ''evidence_vs_none''"
    using D(10) [OF that] by (auto simp: flat_row_opt_def)
  show "base_row mode (lg_rows (vc_base C) ! t) (flat_row_opt (map_option flat_of (vc_negative C)) t)
      = lg_rows (call_base mode C) ! t"
    using neg by (simp add: base_row_def call_base_def)
  have "length (lg_rows (the (vc_negative C)) ! t) = lg_v (vc_student C)" if "mode \<noteq> ''evidence_vs_none''"
    using D(10) [OF that] D(4) lens(1) by auto
  moreover have "valid_mode mode" using ok by (simp add: call_ok_def)
  ultimately show "rows_fit mode (lg_rows (vc_student C) ! t) (lg_rows (vc_base C) ! t) (lg_rows (vc_evidence C) ! t)
      (flat_row_opt (map_option flat_of (vc_negative C)) t)"
    using lens(1) [OF D(1)] lens(2) [OF D(1)] lens(1) [OF D(2)] lens(1) [OF D(3)] neg by (simp add: rows_fit_def)
qed

lemma mode_nuis:
  "(mode = ''fec'' \<Longrightarrow> g = g') \<Longrightarrow> mode_ref mode A p f g e y adv = mode_ref mode A p f g' e y adv"
  "(mode = ''fec'' \<Longrightarrow> g = g') \<Longrightarrow> mode_resid mode f a g = mode_resid mode f a g'"
  by (auto simp: mode_ref_def mode_resid_def)

text \<open>One row of the exact loss.\<close>

lemma exact_row:
  fixes A :: verpo_args and C :: vcall and topk :: "nat \<Rightarrow> vec \<Rightarrow> nat list" and T e ca ce :: real and t :: nat
  assumes ok: "call_ok (va_displacement_mode A) C" and args: "args_ok A T e ca ce" and t: "t < rows_of_call C"
  defines "mode \<equiv> va_displacement_mode A" and "n \<equiv> lg_v (vc_student C)" and "c \<equiv> nat (va_vocab_chunk_size A)"
    and "s \<equiv> lg_rows (vc_student C) ! t" and "z \<equiv> lg_rows (vc_base C) ! t" and "ev \<equiv> lg_rows (vc_evidence C) ! t"
    and "N \<equiv> flat_row_opt (map_option flat_of (vc_negative C)) t" and "y \<equiv> token_at (vc_tokens C) t"
  shows "(if \<not> reversed A then flat_forward_stats else flat_reverse_stats) mode n c T e z ev N s y (vc_advantages C ! t)
      = call_stats topk True A T e C t"
    and "(if \<not> reversed A then reference_kl_at n c T z s else reverse_reference_at n c T z s)
      = call_reference topk True A T C t"
    and "(if \<not> reversed A then flat_forward_correction mode n c T w a z ev N s
        else the (flat_reverse_correction mode n c T w a z ev N s)) = call_evidence topk True A T C w a t"
proof -
  note ok' = ok [folded mode_def]
  note fit = call_fit [OF ok' t, folded s_def z_def ev_def N_def]
  note D = call_okD [OF ok']
  have n: "n = length s" "length z = length s"
    using rows_ok_row [OF D(1) t] rows_ok_row [OF D(2) t] by (simp_all add: n_def s_def z_def)
  have c: "0 < c" and e: "0 < e" using args by (simp_all add: args_ok_def c_def)
  have y: "y < length s" using D(7) [OF t] n by (simp add: y_def n_def)
  have nuis: "mode = ''fec'' \<Longrightarrow> the N = lg_rows (the (vc_negative C)) ! t" using fit(3) by auto
  note eqs = call_stats_def call_reference_def call_evidence_def call_coords_def Let_def mode_def [symmetric]
    tensor_rows s_def [symmetric] z_def [symmetric] ev_def [symmetric] n_def [symmetric] y_def [symmetric] fit(2) [symmetric]
  show "(if \<not> reversed A then flat_forward_stats else flat_reverse_stats) mode n c T e z ev N s y (vc_advantages C ! t)
      = call_stats topk True A T e C t"
  proof -
    have "mode_ref mode X p f (prob_nuis T ev (the N) z) e k adv
        = mode_ref mode X p f (prob_nuis T ev (lg_rows (the (vc_negative C)) ! t) z) e k adv"
      "mode_ref mode X p f (tangent X p (log_nuis T ev (the N) z)) e k adv
        = mode_ref mode X p f (tangent X p (log_nuis T ev (lg_rows (the (vc_negative C)) ! t) z)) e k adv" for X p f k adv
      by (rule mode_nuis(1), simp add: nuis)+
    then show ?thesis
      using flat_forward_stats_ref [OF fit(1) c e y, of T "vc_advantages C ! t"]
        flat_reverse_stats_ref [OF fit(1) c e y, of T "vc_advantages C ! t"]
      by (simp add: eqs n(1) [symmetric])
  qed
  show "(if \<not> reversed A then reference_kl_at n c T z s else reverse_reference_at n c T z s)
      = call_reference topk True A T C t"
    using reference_kl_at_ref [OF c n(2), of T] reverse_reference_at_ref [OF c n(2), of T] by (simp add: eqs n(1) [symmetric])
  show "(if \<not> reversed A then flat_forward_correction mode n c T w a z ev N s
        else the (flat_reverse_correction mode n c T w a z ev N s)) = call_evidence topk True A T C w a t"
  proof -
    have "mode_resid mode (prob_task T ev (base_row mode z N)) a (prob_nuis T ev (the N) z)
        = mode_resid mode (prob_task T ev (base_row mode z N)) a (prob_nuis T ev (lg_rows (the (vc_negative C)) ! t) z)"
      "mode_resid mode (log_task T ev (base_row mode z N)) a (log_nuis T ev (the N) z)
        = mode_resid mode (log_task T ev (base_row mode z N)) a (log_nuis T ev (lg_rows (the (vc_negative C)) ! t) z)"
      by (rule mode_nuis(2), simp add: nuis)+
    then show ?thesis
      using flat_forward_correction_ref [OF fit(1) c, of T w a] flat_reverse_correction_ref [OF fit(1) c, of T w a]
      by (simp add: eqs n(1) [symmetric])
  qed
qed

text \<open>A result meets the specification of the call.\<close>

definition meets ::
  "(nat \<Rightarrow> vec \<Rightarrow> nat list) \<Rightarrow> bool \<Rightarrow> verpo_args \<Rightarrow> real \<Rightarrow> real \<Rightarrow> real \<Rightarrow> real \<Rightarrow> vcall \<Rightarrow> flat_result res \<Rightarrow> bool" where
  "meets topk full A T e ca ce C r \<longleftrightarrow>
     (let n = rows_of_call C; stats = map (call_stats topk full A T e C) [0..<n] in
      case flat_weights A ca ce (vc_active C) stats of
        Inl err \<Rightarrow> r = Inl err
      | Inr w \<Rightarrow> (\<exists>R. r = Inr R \<and> fr_stats R = stats \<and> fr_weights R = w
          \<and> fr_reference_loss R = map (call_reference topk full A T C) [0..<n]
          \<and> fr_evidence_loss R
            = map (\<lambda>t. call_evidence topk full A T C (w ! t) (fs_projection (stats ! t)) t) [0..<n]))"

lemma check_flat_full_ok:
  assumes ok: "call_ok (va_displacement_mode A) C" and args: "args_ok A T e ca ce"
    and vocab: "native_validate_vocab (va_vocab_mode A) (va_top_k A) = Inr ()"
  shows "check_flat_full A (batch_of C) = Inr (ca, ce)"
proof -
  note D = call_okD [OF ok]
  have shapes: "flat_shape (flat_of L) = [rows_of_call C, lg_v (vc_student C)]"
    if "rows_ok L (rows_of_call C) (lg_v (vc_student C))" for L
    using that by (simp add: rows_ok_def flat_shape_def)
  have n: "length (lg_rows (vc_student C)) = rows_of_call C" using D(1) by (simp add: rows_ok_def)
  have neg: "va_displacement_mode A \<noteq> ''evidence_vs_none'' \<Longrightarrow> vc_negative C \<noteq> None
      \<and> flat_shape (flat_of (the (vc_negative C))) = [rows_of_call C, lg_v (vc_student C)]"
    using D(10) D(4) shapes by auto
  have mode: "va_displacement_mode A = ''evidence_vs_none'' \<or> contrastive_mode (va_displacement_mode A)"
    using ok by (simp add: call_ok_def valid_mode_def)
  show ?thesis
    using args ok neg mode vocab shapes [OF D(1)] shapes [OF D(2)] shapes [OF D(3)] D(6) n
    by (auto simp: check_flat_full_def batch_of_def args_ok_def Let_def call_ok_def not_le option.map_sel)
qed

lemma compute_flat_full_meets:
  assumes ok: "call_ok (va_displacement_mode A) C" and args: "args_ok A T e ca ce"
    and full: "native_use_full_vocab (va_vocab_mode A) (va_top_k A) (lg_v (vc_student C)) = Inr True"
  shows "meets topk True A T e ca ce C (compute_flat_full topk A (batch_of C))"
proof -
  let ?n = "rows_of_call C" and ?v = "lg_v (vc_student C)" and ?c = "nat (va_vocab_chunk_size A)"
  let ?mode = "va_displacement_mode A"
  note D = call_okD [OF ok]
  have n: "length (lg_rows (vc_student C)) = ?n" using D(1) by (simp add: rows_ok_def)
  have vocab: "native_validate_vocab (va_vocab_mode A) (va_top_k A) = Inr ()"
    using full by (cases "native_validate_vocab (va_vocab_mode A) (va_top_k A)") (auto simp: native_use_full_vocab_def)
  have vals: "the_real (va_temperature A) = T" "the_real (va_projection_epsilon A) = e"
    "(va_divergence A = ''forward_kl'') = (\<not> reversed A)"
    using args by (auto simp: args_ok_def reversed_def)
  note row = exact_row [OF ok args]
  define stats where "stats = map (call_stats topk True A T e C) [0..<?n]"
  define mk where "mk w = \<lparr>fr_reference_loss = map (call_reference topk True A T C) [0..<?n],
      fr_evidence_loss = map (\<lambda>t. call_evidence topk True A T C (w ! t) (fs_projection (stats ! t)) t) [0..<?n],
      fr_weights = w, fr_stats = stats,
      fr_q0_sample_log_prob = map (\<lambda>t. log_prob_at T (log_norm T (lg_rows (vc_base C) ! t)) (lg_rows (vc_base C) ! t)
        (token_at (vc_tokens C) t)) [0..<?n],
      fr_reference_support_size = None, fr_support_size = [], fr_reference_support_mass = [],
      fr_evidence_support_mass = [], fr_student_support_mass = [], fr_negative_support_mass = None\<rparr>" for w
  have stats_eq: "map (\<lambda>t. (if \<not> reversed A then flat_forward_stats else flat_reverse_stats) ?mode ?v ?c T e
      (lg_rows (vc_base C) ! t) (lg_rows (vc_evidence C) ! t) (flat_row_opt (map_option flat_of (vc_negative C)) t)
      (lg_rows (vc_student C) ! t) (nat (tk_vals (vc_tokens C) ! t)) (vc_advantages C ! t)) [0..<?n] = stats"
    unfolding stats_def using row(1) by (intro map_cong refl) (simp add: token_at_def)
  have refs: "map (\<lambda>t. if \<not> reversed A then reference_kl_at ?v ?c T (lg_rows (vc_base C) ! t) (lg_rows (vc_student C) ! t)
        else reverse_reference_at ?v ?c T (lg_rows (vc_base C) ! t) (lg_rows (vc_student C) ! t)) [0..<?n]
      = map (call_reference topk True A T C) [0..<?n]"
    using row(2) by (intro map_cong refl) simp
  have evis: "map (\<lambda>t. if \<not> reversed A
        then flat_forward_correction ?mode ?v ?c T (w ! t) (fs_projection (stats ! t)) (lg_rows (vc_base C) ! t)
          (lg_rows (vc_evidence C) ! t) (flat_row_opt (map_option flat_of (vc_negative C)) t) (lg_rows (vc_student C) ! t)
        else the (flat_reverse_correction ?mode ?v ?c T (w ! t) (fs_projection (stats ! t)) (lg_rows (vc_base C) ! t)
          (lg_rows (vc_evidence C) ! t) (flat_row_opt (map_option flat_of (vc_negative C)) t)
          (lg_rows (vc_student C) ! t))) [0..<?n]
      = map (\<lambda>t. call_evidence topk True A T C (w ! t) (fs_projection (stats ! t)) t) [0..<?n]" for w
    using row(3) by (intro map_cong refl) simp
  have fb: "fb_student (batch_of C) = flat_of (vc_student C)" "fb_base (batch_of C) = flat_of (vc_base C)"
    "fb_evidence (batch_of C) = flat_of (vc_evidence C)" "fb_sampled_token_ids (batch_of C) = tk_vals (vc_tokens C)"
    "fb_token_advantages (batch_of C) = vc_advantages C" "fb_active_token_mask (batch_of C) = vc_active C"
    "fb_negative_logits (batch_of C) = map_option flat_of (vc_negative C)"
    by (simp_all add: batch_of_def)
  have ids: "(\<not> ids_in_range ?v (tk_vals (vc_tokens C))) = False" using D(9) by simp
  have eq: "compute_flat_full topk A (batch_of C) = rbind (flat_weights A ca ce (vc_active C) stats)
      (\<lambda>w. full_diagnostics topk A (batch_of C) (mk w))"
    unfolding compute_flat_full_def check_flat_full_ok [OF ok args vocab] rbind.simps prod.case fb flat_of_simps ids
      if_False Let_def n vals stats_eq refs evis mk_def token_at_def ..
  have diag: "\<exists>R. full_diagnostics topk A (batch_of C) (mk w) = Inr R \<and> fr_stats R = stats \<and> fr_weights R = w
      \<and> fr_reference_loss R = fr_reference_loss (mk w) \<and> fr_evidence_loss R = fr_evidence_loss (mk w)" for w
    using full by (simp add: full_diagnostics_def fb Let_def mk_def)
  show ?thesis
  proof (cases "flat_weights A ca ce (vc_active C) stats")
    case (Inl err)
    then show ?thesis using eq by (simp add: meets_def stats_def [symmetric] Let_def)
  next
    case (Inr w)
    then show ?thesis
      using eq diag [of w] by (auto simp: meets_def stats_def [symmetric] Let_def mk_def)
  qed
qed

end
