(* ===== verification/NativeTruncEquiv.thy ===== *)
theory NativeTruncEquiv
  imports NativeEquiv
begin

text \<open>
  The truncated native loss meets the same specification as the exact one (theory
  \<open>NativeEquiv\<close>), on the coordinates its supports select.
\<close>

section \<open>Gathering\<close>

lemma ids_ok_shape: "lg_shape L = lg_shape M \<Longrightarrow> ids_ok L y = ids_ok M y"
  by (simp add: ids_ok_def lg_shape_eq_iff token_shape_def)

definition call_tensors :: "vcall \<Rightarrow> logits list" where
  "call_tensors C = [vc_student C, vc_base C, vc_evidence C] @ (case vc_negative C of None \<Rightarrow> [] | Some N \<Rightarrow> [N])"

lemma call_support:
  assumes topk: "topk_select topk" and ok: "call_ok mode C"
    and Ls: "set (L # Ls) \<subseteq> set (call_tensors C)"
  shows "\<exists>U. native_topk_support topk (map flat_of (L # Ls)) (tk_vals (vc_tokens C)) k
      (if rv then Some (flat_of (vc_student C)) else None) = Inr U
    \<and> supports U (rows_of_call C) (lg_v (vc_student C))
      (support_set topk (nat k) (L # Ls @ (if rv then [vc_student C] else [])) (vc_tokens C))"
proof -
  let ?st = "if rv then Some (vc_student C) else None"
  have ten: "tensors_ok (call_tensors C)" using ok by (simp add: call_ok_def call_tensors_def)
  have S: "vc_student C \<in> set (call_tensors C)" by (simp add: call_tensors_def)
  have L: "L \<in> set (call_tensors C)" using Ls by simp
  have sh: "lg_shape L = lg_shape (vc_student C)" by (rule tensors_ok_shape [OF ten L S])
  have ids: "ids_ok L (vc_tokens C)" using ok ids_ok_shape [OF sh] by (simp add: call_ok_def)
  have sub: "tensors_ok (L # Ls @ (case ?st of None \<Rightarrow> [] | Some M \<Rightarrow> [M]))"
    by (rule tensors_ok_sub [OF ten]) (use Ls S in auto)
  have st: "(case ?st of None \<Rightarrow> [] | Some M \<Rightarrow> [M]) = (if rv then [vc_student C] else [])"
    "map_option flat_of ?st = (if rv then Some (flat_of (vc_student C)) else None)" by simp_all
  show ?thesis
    using native_topk_support_eq [OF topk sub ids, of k] sh
    by (simp add: st rows_of_call_def lg_shape_eq_iff)
qed

definition gathered :: "real \<Rightarrow> vcall \<Rightarrow> flat_support \<Rightarrow> flat_support \<Rightarrow> flat_gathered" where
  "gathered T C R U = \<lparr>fg_ref_support = R, fg_support = U, fg_lp_ref = sel_flat T (vc_student C) R,
     fg_l0_ref = sel_flat T (vc_base C) R, fg_lp = sel_flat T (vc_student C) U, fg_l0 = sel_flat T (vc_base C) U,
     fg_le = sel_flat T (vc_evidence C) U,
     fg_ln = sel_flat T (case vc_negative C of None \<Rightarrow> vc_base C | Some N \<Rightarrow> N) U\<rparr>"

lemma batch_fields [simp]:
  "fb_student (batch_of C) = flat_of (vc_student C)" "fb_base (batch_of C) = flat_of (vc_base C)"
  "fb_evidence (batch_of C) = flat_of (vc_evidence C)" "fb_sampled_token_ids (batch_of C) = tk_vals (vc_tokens C)"
  "fb_token_advantages (batch_of C) = vc_advantages C" "fb_active_token_mask (batch_of C) = vc_active C"
  "fb_negative_logits (batch_of C) = map_option flat_of (vc_negative C)" "fb_negative_probabilities (batch_of C) = None"
  by (simp_all add: batch_of_def)

lemma gather_flat_eq:
  assumes topk: "topk_select topk" and ok: "call_ok (va_displacement_mode A) C" and args: "args_ok A T e ca ce"
  shows "\<exists>R U. gather_flat topk A (batch_of C) = Inr (gathered T C R U)
    \<and> supports R (rows_of_call C) (lg_v (vc_student C))
      (call_coords topk False (nat (va_top_k A)) (vc_base C # (if reversed A then [vc_student C] else [])) C)
    \<and> supports U (rows_of_call C) (lg_v (vc_student C))
      (call_coords topk False (nat (va_top_k A)) (call_sources (va_displacement_mode A) (reversed A) C) C)"
proof -
  let ?mode = "va_displacement_mode A" and ?n = "rows_of_call C" and ?v = "lg_v (vc_student C)"
  let ?k = "va_top_k A" and ?st = "if reversed A then Some (flat_of (vc_student C)) else None"
  note D = call_okD [OF ok]
  obtain R where R: "native_topk_support topk [flat_of (vc_base C)] (tk_vals (vc_tokens C)) ?k ?st = Inr R"
    "supports R ?n ?v (support_set topk (nat ?k) (vc_base C # (if reversed A then [vc_student C] else [])) (vc_tokens C))"
    using call_support [OF topk ok, of "vc_base C" "[]" ?k "reversed A"] by (auto simp: call_tensors_def)
  define teachers where "teachers = (if ?mode = ''evidence_vs_none'' then [vc_base C, vc_evidence C]
      else if ?mode = ''fec'' then [vc_base C, vc_evidence C, the (vc_negative C)]
      else [vc_evidence C, the (vc_negative C)])"
  have src: "call_sources ?mode (reversed A) C = teachers @ (if reversed A then [vc_student C] else [])"
    by (simp add: call_sources_def teachers_def)
  have ct: "correction_teachers ?mode (batch_of C) = Inr (map flat_of teachers)"
    using ok D(10)
    by (auto simp: correction_teachers_def teachers_def negative_source_def call_ok_def valid_mode_def contrastive_mode_def)
  have "\<exists>L Ls. teachers = L # Ls \<and> set (L # Ls) \<subseteq> set (call_tensors C)"
    using D(10) by (auto simp: teachers_def call_tensors_def)
  then obtain L Ls where L: "teachers = L # Ls" "set (L # Ls) \<subseteq> set (call_tensors C)" by blast
  obtain U where U: "native_topk_support topk (map flat_of teachers) (tk_vals (vc_tokens C)) ?k ?st = Inr U"
    "supports U ?n ?v (support_set topk (nat ?k) (teachers @ (if reversed A then [vc_student C] else [])) (vc_tokens C))"
    using call_support [OF topk ok L(2), of ?k "reversed A"] unfolding L(1) append_Cons by blast
  have T: "0 < T" "va_temperature A = Fin T" "0 < va_vocab_chunk_size A" using args by (simp_all add: args_ok_def)
  note G = native_gather_eq [OF R(2) _ T(1,3)] native_gather_eq [OF U(2) _ T(1,3)]
  have neg: "native_gather_log_probs (flat_of N) U (Fin T) (va_vocab_chunk_size A) = Inr (sel_flat T N U)"
    if "vc_negative C = Some N" for N
    by (rule G(2)) (rule D(4) [OF that])
  have st: "(if va_divergence A = ''reverse_kl'' then Some (fb_student (batch_of C)) else None) = ?st"
    by (simp add: reversed_def)
  have "gather_flat topk A (batch_of C) = Inr (gathered T C R U)"
    unfolding gather_flat_def Let_def st
    using R(1) U(1) G(1) [OF D(1)] G(1) [OF D(2)] G(2) [OF D(1)] G(2) [OF D(2)] G(2) [OF D(3)] neg
    by (simp add: ct T(2) gathered_def split: option.split)
  then show ?thesis
    using R(2) U(2) by (intro exI [of _ R] exI [of _ U]) (simp add: call_coords_def [abs_def] src)
qed

section \<open>Moments\<close>

lemma gathered_simps [simp]:
  "fg_ref_support (gathered T C R U) = R" "fg_support (gathered T C R U) = U"
  "fg_lp_ref (gathered T C R U) = sel_flat T (vc_student C) R" "fg_l0_ref (gathered T C R U) = sel_flat T (vc_base C) R"
  "fg_lp (gathered T C R U) = sel_flat T (vc_student C) U" "fg_l0 (gathered T C R U) = sel_flat T (vc_base C) U"
  "fg_le (gathered T C R U) = sel_flat T (vc_evidence C) U"
  "fg_ln (gathered T C R U) = sel_flat T (case vc_negative C of None \<Rightarrow> vc_base C | Some N \<Rightarrow> N) U"
  by (simp_all add: gathered_def)

definition call_neg :: "vcall \<Rightarrow> logits" where
  "call_neg C = (case vc_negative C of None \<Rightarrow> vc_base C | Some N \<Rightarrow> N)"

lemma call_neg_ok:
  assumes ok: "call_ok mode C"
  shows "rows_ok (call_neg C) (rows_of_call C) (lg_v (vc_student C))"
    and "mode \<noteq> ''evidence_vs_none'' \<Longrightarrow> call_neg C = the (vc_negative C)"
    and "(if mode = ''evidence_vs_none'' then vc_base C else call_neg C) = call_base mode C"
  using call_okD(2,4,10) [OF ok] by (auto simp: call_neg_def call_base_def split: option.splits)

text \<open>The rows the moments read, as functions.\<close>

lemma moment_rows:
  fixes T :: real
  assumes ok: "call_ok mode C" and U: "supports U (rows_of_call C) (lg_v (vc_student C)) X"
  defines "n \<equiv> rows_of_call C"
    and "pr \<equiv> \<lambda>L. row_where (fu_valid U) (flat_map vexp (sel_flat T L U))"
  shows "frep U n (flat_map2 vsub (pr (vc_evidence C)) (if mode = ''evidence_vs_none'' then pr (vc_base C) else pr (call_neg C)))
      (\<lambda>t k. exp (log_row T (vc_evidence C) t k) - exp (log_row T (call_base mode C) t k))"
    and "frep U n (flat_map2 vsub (flat_map (vscale (1/2)) (flat_map2 vadd (pr (vc_evidence C)) (pr (call_neg C)))) (pr (vc_base C)))
      (\<lambda>t k. 1/2 * (exp (log_row T (vc_evidence C) t k) + exp (log_row T (call_neg C) t k)) - exp (log_row T (vc_base C) t k))"
    and "frep U n (task_ratio_of mode (gathered T C R U)) (\<lambda>t k. log_row T (vc_evidence C) t k - log_row T (call_base mode C) t k)"
    and "frep U n (nuisance_ratio_of (gathered T C R U))
      (\<lambda>t k. 1/2 * (log_row T (vc_evidence C) t k + log_row T (call_neg C) t k) - log_row T (vc_base C) t k)"
    and "frep U n (reverse_base_of mode (gathered T C R U)) (log_row T (call_base mode C))"
proof -
  note D = call_okD [OF ok]
  note N = call_neg_ok [OF ok]
  have sel: "frep U n (sel_flat T L U) (log_row T L)" if "rows_ok L n (lg_v (vc_student C))" for L
    using frep_sel [OF U that [unfolded n_def]] by (simp add: n_def)
  note S = sel [OF D(2) [folded n_def]] sel [OF D(3) [folded n_def]] sel [OF N(1) [folded n_def]]
  have p: "frep U n (pr L) (\<lambda>t k. exp (log_row T L t k))" if "frep U n (sel_flat T L U) (log_row T L)" for L
    unfolding pr_def by (rule frep_where [OF U [folded n_def]], rule frep_arith(4), rule that)
  have base: "frep U n (if mode = ''evidence_vs_none'' then pr (vc_base C) else pr (call_neg C))
      (\<lambda>t k. exp (log_row T (call_base mode C) t k))"
    using p [OF S(1)] p [OF S(3)] N(3) by (auto split: if_splits)
  show "frep U n (flat_map2 vsub (pr (vc_evidence C)) (if mode = ''evidence_vs_none'' then pr (vc_base C) else pr (call_neg C)))
      (\<lambda>t k. exp (log_row T (vc_evidence C) t k) - exp (log_row T (call_base mode C) t k))"
    by (rule frep_arith(1) [OF p [OF S(2)] base])
  show "frep U n (flat_map2 vsub (flat_map (vscale (1/2)) (flat_map2 vadd (pr (vc_evidence C)) (pr (call_neg C)))) (pr (vc_base C)))
      (\<lambda>t k. 1/2 * (exp (log_row T (vc_evidence C) t k) + exp (log_row T (call_neg C) t k)) - exp (log_row T (vc_base C) t k))"
    by (rule frep_arith(1) [OF frep_arith(3) [OF frep_arith(2) [OF p [OF S(2)] p [OF S(3)]]] p [OF S(1)]])
  show rb: "frep U n (reverse_base_of mode (gathered T C R U)) (log_row T (call_base mode C))"
    using S(1,3) N(3) by (auto simp: reverse_base_of_def call_neg_def [symmetric] split: if_splits)
  show "frep U n (task_ratio_of mode (gathered T C R U)) (\<lambda>t k. log_row T (vc_evidence C) t k - log_row T (call_base mode C) t k)"
    unfolding task_ratio_of_def gathered_simps
    by (rule frep_where [OF U [folded n_def]], rule frep_arith(1) [OF S(2) rb])
  show "frep U n (nuisance_ratio_of (gathered T C R U))
      (\<lambda>t k. 1/2 * (log_row T (vc_evidence C) t k + log_row T (call_neg C) t k) - log_row T (vc_base C) t k)"
    unfolding nuisance_ratio_of_def gathered_simps call_neg_def [symmetric]
    by (rule frep_where [OF U [folded n_def]],
        rule frep_arith(1) [OF frep_arith(3) [OF frep_arith(2) [OF S(2) S(3)]] S(1)])
qed

lemma frep_cong:
  assumes "frep U n A f" "supports U n v X" "\<And>t k. t < n \<Longrightarrow> k < v \<Longrightarrow> f t k = g t k"
  shows "frep U n A g"
proof -
  have "ids_at U t ! i < v" if "t < n" "i < fu_w U" "fu_valid U ! t ! i" for t i
    using supportsD(2,3) [OF assms(2) that(1)] valid_ids_nth(2) that(2,3) by metis
  then show ?thesis using assms(1,3) by (auto simp: frep_def)
qed

lemma exp_rows:
  assumes "rows_ok P n v" "rows_ok N n v" "rows_ok Z n v" "t < n" "k < v"
  shows "exp (log_row T P t k) - exp (log_row T N t k) = task_prob T P N t k"
    "1/2 * (exp (log_row T P t k) + exp (log_row T N t k)) - exp (log_row T Z t k) = nuis_prob T P N Z t k"
  using assms by (simp_all add: rows_ok_def log_row_def task_prob_def nuis_prob_def nth_probs)

lemma call_token:
  assumes ok: "call_ok mode C" and U: "supports U (rows_of_call C) (lg_v (vc_student C)) (call_coords topk False k Ls C)"
    and t: "t < rows_of_call C"
  shows "\<exists>j < length (fu_valid U ! t). fu_valid U ! t ! j \<and> ids_at U t ! j = token_at (vc_tokens C) t"
proof -
  have "token_at (vc_tokens C) t \<in> set (valid_ids (ids_at U t) (fu_valid U ! t))"
    by (simp add: supportsD(4) [OF U t] call_coords_def support_set_def token_at_def)
  moreover have "length (ids_at U t) = length (fu_valid U ! t)" using supportsD(3,5) [OF U t] by simp
  ultimately show ?thesis by (simp add: valid_ids_iff)
qed

lemma nuis_neg:
  "(mode = ''fec'' \<Longrightarrow> g = g') \<Longrightarrow> mode_ref mode X p f (h g) e y adv = mode_ref mode X p f (h g') e y adv"
  by (auto simp: mode_ref_def)

lemma forward_moments_eq:
  assumes ok: "call_ok (va_displacement_mode A) C" and args: "args_ok A T e ca ce" and fwd: "\<not> reversed A"
    and U: "supports U (rows_of_call C) (lg_v (vc_student C))
      (call_coords topk False (nat (va_top_k A)) (call_sources (va_displacement_mode A) (reversed A) C) C)"
  shows "\<exists>ms. flat_moments A (gathered T C R U) = Inr ms \<and> length ms = rows_of_call C \<and> (\<forall>t < rows_of_call C.
    controller_stats (ms ! t) (fu_ids U ! t) (fu_valid U ! t) (tk_vals (vc_tokens C) ! t) (vc_advantages C ! t)
      = call_stats topk False A T e C t
    \<and> fm_projection (ms ! t) = fs_projection (call_stats topk False A T e C t)
    \<and> length (fm_residual (ms ! t)) = length (fu_valid U ! t)
    \<and> (\<forall>i < length (fu_valid U ! t). fm_residual (ms ! t) ! i = (if fu_valid U ! t ! i
        then mode_resid (va_displacement_mode A) (task_prob T (vc_evidence C) (call_base (va_displacement_mode A) C) t)
          (fm_projection (ms ! t)) (nuis_prob T (vc_evidence C) (the (vc_negative C)) (vc_base C) t) (ids_at U t ! i) else 0)))"
proof -
  let ?mode = "va_displacement_mode A" and ?n = "rows_of_call C" and ?v = "lg_v (vc_student C)"
  note D = call_okD [OF ok] and N = call_neg_ok [OF ok]
  have e: "0 < e" "va_projection_epsilon A = Fin e" "va_divergence A = ''forward_kl''"
    using args fwd by (auto simp: args_ok_def reversed_def)
  have base: "rows_ok (call_base ?mode C) ?n ?v" using N(1) D(2) N(3) [symmetric] by simp
  define task where "task = flat_map2 vsub (row_where (fu_valid U) (flat_map vexp (sel_flat T (vc_evidence C) U)))
    (if ?mode = ''evidence_vs_none'' then row_where (fu_valid U) (flat_map vexp (sel_flat T (vc_base C) U))
     else row_where (fu_valid U) (flat_map vexp (sel_flat T (call_neg C) U)))"
  define nuis where "nuis = flat_map2 vsub (flat_map (vscale (1/2)) (flat_map2 vadd
    (row_where (fu_valid U) (flat_map vexp (sel_flat T (vc_evidence C) U)))
    (row_where (fu_valid U) (flat_map vexp (sel_flat T (call_neg C) U))))) (row_where (fu_valid U) (flat_map vexp (sel_flat T (vc_base C) U)))"
  have ft: "frep U ?n task (task_prob T (vc_evidence C) (call_base ?mode C))"
    unfolding task_def by (rule frep_cong [OF moment_rows(1) [OF ok U] U exp_rows(1) [OF D(3) base D(2)]])
  have fn: "frep U ?n nuis (nuis_prob T (vc_evidence C) (call_neg C) (vc_base C))"
    unfolding nuis_def by (rule frep_cong [OF moment_rows(2) [OF ok U] U exp_rows(2) [OF D(3) N(1) D(2)]])
  note S = frep_sel [OF U D(1), of T]
  define M where "M t = forward_moments_at (ft_rows (sel_flat T (vc_student C) U) ! t) (ft_rows task ! t) (fu_valid U ! t)
    (if ?mode = ''fec'' then Some (ft_rows nuis ! t) else None) e" for t
  have len: "length (lg_rows (vc_student C)) = ?n" using D(1) by (simp add: rows_ok_def)
  have len_s: "length (ft_rows (sel_flat T (vc_student C) U)) = ?n" by (simp add: sel_flat_def len)
  have moments: "flat_moments A (gathered T C R U) = Inr (map M [0..<?n])"
    using frep_shape [OF S U] frep_shape [OF ft U] frep_shape [OF fn U] e
    by (simp add: flat_moments_def native_forward_moments_def check_moments_def Let_def call_neg_def [symmetric]
        task_def [symmetric] nuis_def [symmetric] flat_row_opt_def len_s M_def split: if_splits)
  have row: "controller_stats (M t) (fu_ids U ! t) (fu_valid U ! t) (tk_vals (vc_tokens C) ! t) (vc_advantages C ! t)
      = call_stats topk False A T e C t
    \<and> fm_projection (M t) = fs_projection (call_stats topk False A T e C t)
    \<and> length (fm_residual (M t)) = length (fu_valid U ! t)
    \<and> (\<forall>i < length (fu_valid U ! t). fm_residual (M t) ! i = (if fu_valid U ! t ! i
        then mode_resid ?mode (task_prob T (vc_evidence C) (call_base ?mode C) t)
          (fm_projection (M t)) (nuis_prob T (vc_evidence C) (the (vc_negative C)) (vc_base C) t) (ids_at U t ! i) else 0))"
    if t: "t < ?n" for t
  proof -
    let ?ids = "ids_at U t" and ?valid = "fu_valid U ! t" and ?y = "token_at (vc_tokens C) t"
    note SD = supportsD [OF U t]
    obtain j where j: "j < length ?valid" "?valid ! j" "?ids ! j = ?y" using call_token [OF ok U t] by blast
    have z: "lg_rows (vc_student C) ! t \<noteq> []" "length (lg_rows (vc_student C) ! t) = ?v"
      using rows_ok_row [OF D(1) t] by simp_all
    note ok' = SD(2) [folded z(2)]
    have lp: "ft_rows (sel_flat T (vc_student C) U) ! t = sel_log_probs T (lg_rows (vc_student C) ! t) ?ids ?valid"
      using t by (simp add: sel_flat_def len)
    note rt = frep_row [OF ft U t] and rn = frep_row [OF fn U t]
    have neg: "?mode = ''fec'' \<Longrightarrow> call_neg C = the (vc_negative C)" using N(2) by auto
    have lenr: "length (fm_residual (M t)) = length ?valid"
      unfolding M_def by (rule fm_residual_nth(1)) (use rt(1) rn(1) in auto)
    have stats: "call_stats topk False A T e C t = mode_ref ?mode (set (valid_ids ?ids ?valid))
        (\<lambda>k. probs T (lg_rows (vc_student C) ! t) ! k) (task_prob T (vc_evidence C) (call_base ?mode C) t)
        (nuis_prob T (vc_evidence C) (call_neg C) (vc_base C) t) e (?ids ! j) (vc_advantages C ! t)"
      unfolding call_stats_def Let_def SD(4) using fwd neg
      by (simp add: j(3) tensor_rows(5)) (rule nuis_neg [where h = "\<lambda>N. nuis_prob T (vc_evidence C) N (vc_base C) t"], simp)
    have car: "carries (M t) j (call_stats topk False A T e C t)"
      unfolding M_def lp stats by (rule carries_forward [OF z(1) ok' e(1) rt rn j(1,2)])
    have "controller_stats (M t) (map int ?ids) ?valid (int (?ids ! j)) (vc_advantages C ! t) = call_stats topk False A T e C t"
      using controller_stats_ref [OF ok' j(1,2) lenr car [unfolded stats]] by (simp only: stats)
    then have cs: "controller_stats (M t) (fu_ids U ! t) ?valid (tk_vals (vc_tokens C) ! t) (vc_advantages C ! t)
        = call_stats topk False A T e C t"
      using SD(1) j(3) D(8) [OF t] by simp
    have res: "fm_residual (M t) ! i = (if ?valid ! i then mode_resid ?mode (task_prob T (vc_evidence C) (call_base ?mode C) t)
          (fm_projection (M t)) (nuis_prob T (vc_evidence C) (the (vc_negative C)) (vc_base C) t) (?ids ! i) else 0)"
      if i: "i < length ?valid" for i
      using fm_residual_nth(2) [of "ft_rows task ! t" ?valid "if ?mode = ''fec'' then Some (ft_rows nuis ! t) else None" i
          "ft_rows (sel_flat T (vc_student C) U) ! t" e, folded M_def, OF rt(1) _ i] rn(1) rt(2) [OF i] rn(2) [OF i] neg
      by (auto simp: mode_resid_def resid_def)
    show ?thesis using cs car lenr res by (simp add: carries_def)
  qed
  show ?thesis using moments row by (intro exI [of _ "map M [0..<?n]"]) simp
qed

lemma reverse_moments_eq:
  assumes ok: "call_ok (va_displacement_mode A) C" and args: "args_ok A T e ca ce" and rv: "reversed A"
    and U: "supports U (rows_of_call C) (lg_v (vc_student C))
      (call_coords topk False (nat (va_top_k A)) (call_sources (va_displacement_mode A) (reversed A) C) C)"
  shows "\<exists>ms. flat_moments A (gathered T C R U) = Inr ms \<and> length ms = rows_of_call C \<and> (\<forall>t < rows_of_call C.
    controller_stats (ms ! t) (fu_ids U ! t) (fu_valid U ! t) (tk_vals (vc_tokens C) ! t) (vc_advantages C ! t)
      = call_stats topk False A T e C t
    \<and> fm_projection (ms ! t) = fs_projection (call_stats topk False A T e C t))"
proof -
  let ?mode = "va_displacement_mode A" and ?n = "rows_of_call C" and ?v = "lg_v (vc_student C)"
  note D = call_okD [OF ok] and N = call_neg_ok [OF ok]
  have e: "0 < e" "va_projection_epsilon A = Fin e" "va_divergence A \<noteq> ''forward_kl''"
    using args rv by (auto simp: args_ok_def reversed_def)
  define rt where "rt = task_ratio_of ?mode (gathered T C R U)"
  define rn where "rn = nuisance_ratio_of (gathered T C R U)"
  have ft: "frep U ?n rt (task_log T (vc_evidence C) (call_base ?mode C))"
    unfolding rt_def
    by (rule frep_cong [OF moment_rows(3) [OF ok U] U]) (simp add: task_log_def log_row_def)
  have fn: "frep U ?n rn (nuis_log T (vc_evidence C) (call_neg C) (vc_base C))"
    unfolding rn_def
    by (rule frep_cong [OF moment_rows(4) [OF ok U] U]) (simp add: nuis_log_def log_row_def)
  note S = frep_sel [OF U D(1), of T]
  define M where "M t = tangent_controller (reverse_tangent_moments_at (ft_rows (sel_flat T (vc_student C) U) ! t)
    (ft_rows rt ! t) (fu_valid U ! t) (if ?mode = ''fec'' then Some (ft_rows rn ! t) else None) e)" for t
  have len: "length (lg_rows (vc_student C)) = ?n" using D(1) by (simp add: rows_ok_def)
  have len_s: "length (ft_rows (sel_flat T (vc_student C) U)) = ?n" by (simp add: sel_flat_def len)
  have moments: "flat_moments A (gathered T C R U) = Inr (map M [0..<?n])"
    using frep_shape [OF S U] frep_shape [OF ft U] frep_shape [OF fn U] e
    by (simp add: flat_moments_def native_reverse_tangent_moments_def check_moments_def Let_def
        rt_def [symmetric] rn_def [symmetric] flat_row_opt_def len_s M_def split: if_splits)
  have row: "controller_stats (M t) (fu_ids U ! t) (fu_valid U ! t) (tk_vals (vc_tokens C) ! t) (vc_advantages C ! t)
      = call_stats topk False A T e C t
    \<and> fm_projection (M t) = fs_projection (call_stats topk False A T e C t)" if t: "t < ?n" for t
  proof -
    let ?ids = "ids_at U t" and ?valid = "fu_valid U ! t" and ?y = "token_at (vc_tokens C) t"
    note SD = supportsD [OF U t]
    obtain j where j: "j < length ?valid" "?valid ! j" "?ids ! j = ?y" using call_token [OF ok U t] by blast
    have z: "lg_rows (vc_student C) ! t \<noteq> []" "length (lg_rows (vc_student C) ! t) = ?v"
      using rows_ok_row [OF D(1) t] by simp_all
    note ok' = SD(2) [folded z(2)]
    have lp: "ft_rows (sel_flat T (vc_student C) U) ! t = sel_log_probs T (lg_rows (vc_student C) ! t) ?ids ?valid"
      using t by (simp add: sel_flat_def len)
    note r1 = frep_row [OF ft U t] and r2 = frep_row [OF fn U t]
    have neg: "?mode = ''fec'' \<Longrightarrow> call_neg C = the (vc_negative C)" using N(2) by auto
    have lenr: "length (fm_residual (M t)) = length ?valid"
      unfolding M_def tangent_controller_def forward_moment_row.simps
      by (rule tm_residual_length) (use r1(1) r2(1) frep_row(1) [OF S U t] in auto)
    let ?A = "set (valid_ids ?ids ?valid)" and ?p = "\<lambda>k. probs T (lg_rows (vc_student C) ! t) ! k"
    have stats: "call_stats topk False A T e C t = mode_ref ?mode ?A ?p
        (tangent ?A ?p (task_log T (vc_evidence C) (call_base ?mode C) t))
        (tangent ?A ?p (nuis_log T (vc_evidence C) (call_neg C) (vc_base C) t)) e (?ids ! j) (vc_advantages C ! t)"
      unfolding call_stats_def Let_def SD(4) using rv neg
      by (simp add: j(3) tensor_rows(5))
        (rule nuis_neg [where h = "\<lambda>N. tangent X p (nuis_log T (vc_evidence C) N (vc_base C) t)" for X p], simp)
    have car: "carries (M t) j (call_stats topk False A T e C t)"
      unfolding M_def lp stats by (rule carries_reverse [OF z(1) ok' e(1) r1 r2 j(1,2)])
    have "controller_stats (M t) (map int ?ids) ?valid (int (?ids ! j)) (vc_advantages C ! t) = call_stats topk False A T e C t"
      using controller_stats_ref [OF ok' j(1,2) lenr car [unfolded stats]] by (simp only: stats)
    then show ?thesis using SD(1) j(3) D(8) [OF t] car by (simp add: carries_def)
  qed
  show ?thesis using moments row by (intro exI [of _ "map M [0..<?n]"]) simp
qed

section \<open>Losses\<close>

lemma masked_kl_rows:
  assumes U: "supports U n v X" and A: "frep U n A fa" and B: "frep U n B fb" and t: "t < n"
  shows "masked_kl_at T (fu_valid U ! t) (ft_rows A ! t) (ft_rows B ! t) = kl_ref T (X t) (fa t) (fb t)"
  unfolding supportsD(4) [OF U t, symmetric]
  by (rule masked_kl_at_ref [OF supportsD(2) [OF U t]]) (use frep_row [OF A U t] frep_row [OF B U t] in auto)

lemma correction_row:
  assumes U: "supports U n v X" and L: "frep U n L lp" and t: "t < n"
    and res: "length xs = length (fu_valid U ! t)"
      "\<And>i. i < length (fu_valid U ! t) \<Longrightarrow> xs ! i = (if fu_valid U ! t ! i then d (ids_at U t ! i) else 0)"
  shows "- T * w * vsum (vmul xs (ft_rows L ! t)) = corr_ref T w (X t) d (lp t)"
proof -
  note row = frep_row [OF L U t]
  have "vmul xs (ft_rows L ! t) = where_else 0 (fu_valid U ! t) (vmul xs (ft_rows L ! t))"
    using res row(1) by (intro vec_eqI) auto
  also have "vsum \<dots> = (\<Sum>k\<in>X t. d k * lp t k)"
    unfolding supportsD(4) [OF U t, symmetric]
    by (rule vsum_where_else [OF supportsD(2) [OF U t]]) (use res row in auto)
  finally show ?thesis by (simp add: corr_ref_def)
qed

lemma native_geometric_rows:
  assumes U: "supports U n v X" and P: "frep U n P fp" and B: "frep U n B fb" and R: "frep U n R fr"
    and ne: "\<And>t. t < n \<Longrightarrow> X t \<noteq> {}"
  shows "native_geometric_correction P B R w U T
    = Inr (map (\<lambda>t. geo_ref T (clamp 0 1 (w ! t)) (X t) (fp t) (fb t) (fr t)) [0..<n])"
proof -
  have at: "native_geometric_at T (ft_rows P ! t) (ft_rows B ! t) (ft_rows R ! t) (w ! t) (fu_valid U ! t)
      = Some (geo_ref T (clamp 0 1 (w ! t)) (X t) (fp t) (fb t) (fr t))" if t: "t < n" for t
  proof -
    note p = frep_row [OF P U t] and b = frep_row [OF B U t] and r = frep_row [OF R U t]
    have "set (valid_ids (ids_at U t) (fu_valid U ! t)) \<noteq> {}" using ne [OF t] by (simp add: supportsD(4) [OF U t])
    from geometric_correction_at_ref [OF supportsD(2) [OF U t] this p(1) b(1) r(1), of "fp t" "fb t" "fr t" T "clamp 0 1 (w ! t)"]
    show ?thesis
      unfolding native_geometric_at_eq [OF p(1) r(1)] using p(2) b(2) r(2) by (simp add: supportsD(4) [OF U t])
  qed
  have len: "length (ft_rows P) = n" using P by (simp add: frep_def)
  have "map (\<lambda>t. native_geometric_at T (ft_rows P ! t) (ft_rows B ! t) (ft_rows R ! t) (w ! t) (fu_valid U ! t)) [0..<n]
      = map Some (map (\<lambda>t. geo_ref T (clamp 0 1 (w ! t)) (X t) (fp t) (fb t) (fr t)) [0..<n])"
    by (simp add: at)
  then show ?thesis by (simp add: native_geometric_correction_def len Let_def) (auto simp: at)
qed

lemma frep_mode_resid:
  assumes f: "frep U n A f" and g: "frep U n B g"
  shows "frep U n (if mode = ''fec'' then A\<lparr>ft_rows := map (\<lambda>t. vsub (ft_rows A ! t) (vscale (a t) (ft_rows B ! t))) [0..<n]\<rparr>
      else A) (\<lambda>t. mode_resid mode (f t) (a t) (g t))"
  using assms by (auto simp: frep_def mode_resid_def resid_def)

lemma check_flat_truncated_ok:
  assumes "call_ok (va_displacement_mode A) C" "args_ok A T e ca ce"
  shows "check_flat_truncated A (batch_of C) = Inr (ca, ce)"
  using assms by (auto simp: check_flat_truncated_def args_ok_def not_le)

lemma compute_flat_truncated_meets:
  assumes topk: "topk_select topk" and ok: "call_ok (va_displacement_mode A) C" and args: "args_ok A T e ca ce"
  shows "meets topk False A T e ca ce C (compute_flat_truncated topk A (batch_of C))"
proof -
  let ?n = "rows_of_call C" and ?v = "lg_v (vc_student C)" and ?mode = "va_displacement_mode A"
  note D = call_okD [OF ok] and N = call_neg_ok [OF ok]
  obtain R U where G: "gather_flat topk A (batch_of C) = Inr (gathered T C R U)"
    and R: "supports R ?n ?v (call_coords topk False (nat (va_top_k A)) (vc_base C # (if reversed A then [vc_student C] else [])) C)"
    and U: "supports U ?n ?v (call_coords topk False (nat (va_top_k A)) (call_sources ?mode (reversed A) C) C)"
    using gather_flat_eq [OF topk ok args] by blast
  obtain ms where ms: "flat_moments A (gathered T C R U) = Inr ms" "length ms = ?n"
    and stats: "\<And>t. t < ?n \<Longrightarrow> controller_stats (ms ! t) (fu_ids U ! t) (fu_valid U ! t) (tk_vals (vc_tokens C) ! t)
        (vc_advantages C ! t) = call_stats topk False A T e C t"
    and proj: "\<And>t. t < ?n \<Longrightarrow> fm_projection (ms ! t) = fs_projection (call_stats topk False A T e C t)"
    and res: "\<And>t. \<not> reversed A \<Longrightarrow> t < ?n \<Longrightarrow> length (fm_residual (ms ! t)) = length (fu_valid U ! t)
      \<and> (\<forall>i < length (fu_valid U ! t). fm_residual (ms ! t) ! i = (if fu_valid U ! t ! i
        then mode_resid ?mode (task_prob T (vc_evidence C) (call_base ?mode C) t)
          (fm_projection (ms ! t)) (nuis_prob T (vc_evidence C) (the (vc_negative C)) (vc_base C) t) (ids_at U t ! i) else 0))"
    using forward_moments_eq [OF ok args _ U] reverse_moments_eq [OF ok args _ U] by (cases "reversed A") metis+
  define st where "st = map (call_stats topk False A T e C) [0..<?n]"
  have st_eq: "map (\<lambda>t. controller_stats (ms ! t) (fu_ids U ! t) (fu_valid U ! t) (tk_vals (vc_tokens C) ! t)
      (vc_advantages C ! t)) [0..<?n] = st"
    unfolding st_def using stats by (intro map_cong refl) simp
  have scale: "the_real (va_temperature A) = T" "(va_divergence A = ''forward_kl'') = (\<not> reversed A)"
    using args by (auto simp: args_ok_def reversed_def)
  have lens: "(length (vc_advantages C) \<noteq> ?n \<or> length (vc_active C) \<noteq> ?n) = False" using ok by (simp add: call_ok_def)
  note selR = frep_sel [OF R D(1), of T] frep_sel [OF R D(2), of T] and selU = frep_sel [OF U D(1), of T]
  define losses where "losses w = (if \<not> reversed A
       then Inr (map (\<lambda>t. masked_kl_at T (fu_valid R ! t) (ft_rows (sel_flat T (vc_base C) R) ! t)
              (ft_rows (sel_flat T (vc_student C) R) ! t)) [0..<?n],
            map (\<lambda>t. - T * w ! t * vsum (vmul (fm_residual (ms ! t)) (ft_rows (sel_flat T (vc_student C) U) ! t))) [0..<?n])
       else let log_ratio = task_ratio_of ?mode (gathered T C R U);
              log_ratio = (if ?mode = ''fec''
                then log_ratio\<lparr>ft_rows := map (\<lambda>t. vsub (ft_rows log_ratio ! t)
                  (vscale (fm_projection (ms ! t)) (ft_rows (nuisance_ratio_of (gathered T C R U)) ! t))) [0..<?n]\<rparr>
                else log_ratio)
         in rbind (native_geometric_correction (sel_flat T (vc_student C) U) (reverse_base_of ?mode (gathered T C R U))
             log_ratio w U T)
           (\<lambda>evidence. Inr (map (\<lambda>t. masked_kl_at T (fu_valid R ! t) (ft_rows (sel_flat T (vc_student C) R) ! t)
              (ft_rows (sel_flat T (vc_base C) R) ! t)) [0..<?n], evidence)))" for w
  have losses: "losses w = Inr (map (call_reference topk False A T C) [0..<?n],
      map (\<lambda>t. call_evidence topk False A T C (w ! t) (fs_projection (st ! t)) t) [0..<?n])" for w
  proof (cases "reversed A")
    case False
    have "masked_kl_at T (fu_valid R ! t) (ft_rows (sel_flat T (vc_base C) R) ! t) (ft_rows (sel_flat T (vc_student C) R) ! t)
        = call_reference topk False A T C t" if "t < ?n" for t
      using masked_kl_rows [OF R selR(2,1) that] False by (simp add: call_reference_def)
    moreover have "- T * w ! t * vsum (vmul (fm_residual (ms ! t)) (ft_rows (sel_flat T (vc_student C) U) ! t))
        = call_evidence topk False A T C (w ! t) (fs_projection (st ! t)) t" if t: "t < ?n" for t
      using correction_row [OF U selU t, of "fm_residual (ms ! t)" "mode_resid ?mode (task_prob T (vc_evidence C) (call_base ?mode C) t)
          (fm_projection (ms ! t)) (nuis_prob T (vc_evidence C) (the (vc_negative C)) (vc_base C) t)" T "w ! t"]
        res [OF False t] False t by (simp add: call_evidence_def st_def proj Let_def)
    ultimately show ?thesis using False by (simp add: losses_def)
  next
    case True
    have neg: "mode_resid ?mode (task_log T (vc_evidence C) (call_base ?mode C) t) a (nuis_log T (vc_evidence C) (call_neg C) (vc_base C) t)
      = mode_resid ?mode (task_log T (vc_evidence C) (call_base ?mode C) t) a (nuis_log T (vc_evidence C) (the (vc_negative C)) (vc_base C) t)" for a t
      by (rule mode_nuis(2)) (use N(2) in auto)
    have ft: "frep U ?n (task_ratio_of ?mode (gathered T C R U)) (task_log T (vc_evidence C) (call_base ?mode C))"
      by (rule frep_cong [OF moment_rows(3) [OF ok U] U]) (simp add: task_log_def log_row_def)
    have fn: "frep U ?n (nuisance_ratio_of (gathered T C R U)) (nuis_log T (vc_evidence C) (call_neg C) (vc_base C))"
      by (rule frep_cong [OF moment_rows(4) [OF ok U] U]) (simp add: nuis_log_def log_row_def)
    have ne: "call_coords topk False (nat (va_top_k A)) (call_sources ?mode (reversed A) C) C t \<noteq> {}" for t
      by (simp add: call_coords_def support_set_def)
    note geo = native_geometric_rows [OF U selU moment_rows(5) [OF ok U]
        frep_mode_resid [where a = "\<lambda>t. fm_projection (ms ! t)" and mode = ?mode, OF ft fn] ne, unfolded neg]
    have "masked_kl_at T (fu_valid R ! t) (ft_rows (sel_flat T (vc_student C) R) ! t) (ft_rows (sel_flat T (vc_base C) R) ! t)
        = call_reference topk False A T C t" if "t < ?n" for t
      using masked_kl_rows [OF R selR(1,2) that] True by (simp add: call_reference_def Let_def)
    moreover have "geo_ref T (clamp 0 1 (w ! t)) (call_coords topk False (nat (va_top_k A)) (call_sources ?mode (reversed A) C) C t)
        (log_row T (vc_student C) t) (log_row T (call_base ?mode C) t)
        (mode_resid ?mode (task_log T (vc_evidence C) (call_base ?mode C) t) (fm_projection (ms ! t))
          (nuis_log T (vc_evidence C) (the (vc_negative C)) (vc_base C) t))
        = call_evidence topk False A T C (w ! t) (fs_projection (st ! t)) t" if t: "t < ?n" for t
      using True t by (simp add: call_evidence_def st_def proj Let_def)
    ultimately show ?thesis using True by (simp add: losses_def geo Let_def)
  qed
  define mk where "mk w reference_loss evidence_loss = \<lparr>fr_reference_loss = reference_loss,
      fr_evidence_loss = evidence_loss, fr_weights = w, fr_stats = st,
      fr_q0_sample_log_prob = map (\<lambda>t. vsum (where_else 0 (map2 (\<lambda>v k. v \<and> k = tk_vals (vc_tokens C) ! t)
        (fu_valid R ! t) (fu_ids R ! t)) (ft_rows (sel_flat T (vc_base C) R) ! t))) [0..<?n],
      fr_reference_support_size = Some (map (\<lambda>valid. real (count_list valid True)) (fu_valid R)),
      fr_support_size = map (\<lambda>valid. real (count_list valid True)) (fu_valid U),
      fr_reference_support_mass = flat_support_mass (sel_flat T (vc_base C) R) R,
      fr_evidence_support_mass = flat_support_mass (sel_flat T (vc_evidence C) U) U,
      fr_student_support_mass = flat_support_mass (sel_flat T (vc_student C) U) U,
      fr_negative_support_mass = (case negative_source (batch_of C) of None \<Rightarrow> None
        | Some _ \<Rightarrow> Some (flat_support_mass (fg_ln (gathered T C R U)) U))\<rparr>"
    for w reference_loss evidence_loss
  have eq: "compute_flat_truncated topk A (batch_of C) = rbind (flat_weights A ca ce (vc_active C) st) (\<lambda>w.
      rbind (losses w) (\<lambda>(reference_loss, evidence_loss). Inr (mk w reference_loss evidence_loss)))"
    unfolding compute_flat_truncated_def check_flat_truncated_ok [OF ok args] G rbind.simps prod.case ms Let_def
      batch_fields gathered_simps(1-6) lens if_False scale st_eq losses_def mk_def
    by (simp only: gathered_simps)
  show ?thesis
  proof (cases "flat_weights A ca ce (vc_active C) st")
    case (Inl err)
    then show ?thesis using eq by (simp add: meets_def st_def [symmetric] Let_def)
  next
    case (Inr w)
    then show ?thesis
      using eq by (simp add: meets_def st_def [symmetric] Let_def losses mk_def)
  qed
qed

end
