(* ===== verification/NativePackage.thy ===== *)
theory NativePackage
  imports NativeTruncEquiv Trainer
begin

text \<open>
  The native loss against the package: \<open>package_stats\<close>, \<open>weights_at_costs\<close> and
  \<open>package_losses\<close> compose the functions of \<open>risk_aware_opsd/verpo_zpd.py\<close> (theories
  \<open>FullForward\<close>, \<open>FullReverse\<close>, \<open>Controller\<close>, \<open>FullLosses\<close>) into what one native call
  computes, for every displacement mode, divergence and vocabulary mode.
\<close>

section \<open>The composition of the package functions\<close>

definition package_stats ::
  "(nat \<Rightarrow> vec \<Rightarrow> nat list) \<Rightarrow> verpo_args \<Rightarrow> vcall \<Rightarrow> vec \<Rightarrow> (real tok \<times> real tok \<times> real tok) res" where
  "package_stats topk A C advantages =
     (let T = the_real (va_temperature A); c = va_vocab_chunk_size A; vm = va_vocab_mode A; k = TkInt (va_top_k A);
          mode = va_displacement_mode A; S = vc_student C; Z = vc_base C; P = vc_evidence C; N = the (vc_negative C);
          y = vc_tokens C; base = call_base mode C
      in if mode = ''fec''
         then rbind (if reversed A
             then compute_reverse_kl_fec_evidence_stats topk P N Z S y advantages T c (va_projection_epsilon A) vm k
             else compute_fec_evidence_stats topk P N Z S y advantages T c (va_projection_epsilon A) vm k)
           (\<lambda>s. Inr (tok_map fs_benefit s, tok_map fs_fisher_cost s, tok_map fs_projection s))
         else rbind (if reversed A
             then compute_reverse_kl_evidence_stats topk P base S y advantages k T c vm
             else compute_evidence_displacement_stats topk P base S y advantages k T c vm)
           (\<lambda>(benefit, cost, _). Inr (benefit, cost, tok_map (\<lambda>_. 0) benefit)))"

text \<open>The package resolves the costs from the same arguments as the port.\<close>

definition package_weights ::
  "verpo_args \<Rightarrow> real tok \<Rightarrow> real tok \<Rightarrow> bool list \<Rightarrow> bool tok \<Rightarrow> real tok res" where
  "package_weights A benefit cost gate tmask =
     compute_verpo_token_weights benefit cost gate tmask
       \<lparr>cp_cost_alpha = va_cost_alpha A, cp_cost_epsilon = va_cost_epsilon A, cp_tau = Some (va_tau A),
        cp_rho = Some (va_rho A), cp_cost_floor = Some (va_cost_floor A), cp_cost_beta = Some (va_cost_beta A)\<rparr>
       ''paper'' (va_allow_negative_benefit A)"

text \<open>The same weights at costs that are already resolved.\<close>

definition weights_at_costs ::
  "verpo_args \<Rightarrow> real \<Rightarrow> real \<Rightarrow> real tok \<Rightarrow> real tok \<Rightarrow> bool list \<Rightarrow> bool tok \<Rightarrow> real tok res" where
  "weights_at_costs A ca ce benefit cost gate tmask =
     compute_verpo_token_weights benefit cost gate tmask
       \<lparr>cp_cost_alpha = Some (Fin ca), cp_cost_epsilon = Some (Fin ce), cp_tau = None, cp_rho = None,
        cp_cost_floor = None, cp_cost_beta = None\<rparr> ''paper'' (va_allow_negative_benefit A)"

lemma package_weights_at:
  assumes "resolve_cost_parameters A = Inr (ca, ce)"
  shows "package_weights A benefit cost gate tmask = weights_at_costs A ca ce benefit cost gate tmask"
proof -
  have "resolve_cost \<lparr>cp_cost_alpha = va_cost_alpha A, cp_cost_epsilon = va_cost_epsilon A, cp_tau = Some (va_tau A),
      cp_rho = Some (va_rho A), cp_cost_floor = Some (va_cost_floor A), cp_cost_beta = Some (va_cost_beta A)\<rparr>
    = Inr (Fin ca, Fin ce)"
    using assms by (auto simp: resolve_cost_parameters_def resolve_cost_def isfinite_iff split: option.splits if_splits prod.splits)
  then show ?thesis
    by (simp add: package_weights_def weights_at_costs_def compute_verpo_token_weights_def resolve_cost_def)
qed

text \<open>The package has no reference anchor for FEC.\<close>

definition package_losses ::
  "(nat \<Rightarrow> vec \<Rightarrow> nat list) \<Rightarrow> verpo_args \<Rightarrow> vcall \<Rightarrow> real tok \<Rightarrow> real tok \<Rightarrow> (real tok option \<times> real tok) res" where
  "package_losses topk A C W projection =
     (let T = the_real (va_temperature A); c = va_vocab_chunk_size A; vm = va_vocab_mode A; k = TkInt (va_top_k A);
          mode = va_displacement_mode A; S = vc_student C; Z = vc_base C; P = vc_evidence C; N = the (vc_negative C);
          y = Some (vc_tokens C)
      in if mode = ''evidence_vs_none''
         then drop_probs (if reversed A
           then compute_reverse_kl_fixed_teacher_token_losses topk S Z P W T c False vm k y
           else compute_fixed_teacher_token_losses topk S Z Z P W T c False vm k y)
         else if mode = ''fec''
         then rbind (if reversed A
             then compute_reverse_kl_fec_teacher_token_losses topk S P N Z W projection T c vm k y
             else compute_fec_teacher_token_losses topk S P N Z W projection T c vm k y)
           (\<lambda>evidence. Inr (None, evidence))
         else if reversed A
         then drop_probs (compute_reverse_kl_ctr_teacher_token_losses topk S Z P N W T c False vm k y)
         else rbind (compute_contrastive_teacher_token_losses topk S Z P N W T c vm k y)
           (\<lambda>(reference, evidence). Inr (Some reference, evidence)))"

section \<open>Coordinates\<close>

lemma coords_call:
  assumes "set Ls = set Ms" "Ls \<noteq> []" "\<forall>L \<in> set Ls. lg_v L = lg_v (vc_student C)" "0 < k"
  shows "coords topk full (top_k_value (TkInt k)) Ls (vc_tokens C) t = call_coords topk full (nat k) Ms C t"
proof -
  have "lg_v (hd Ls) = lg_v (vc_student C)" using assms(2,3) by (cases Ls) auto
  moreover have "top_k_value (TkInt k) = nat k" using assms(4) by (simp add: top_k_value_def)
  moreover have "support_set topk (nat k) Ls (vc_tokens C) t = support_set topk (nat k) Ms (vc_tokens C) t"
    unfolding support_set_def assms(1) ..
  ultimately show ?thesis by (simp add: coords_def call_coords_def)
qed

lemma use_full_compat:
  assumes "native_use_full_vocab vm k v = Inr full" "0 < v"
  shows "should_use_full_vocab_compat vm (TkInt k) v = Inr full" "0 < k"
  using assms
  by (auto simp: native_use_full_vocab_def native_validate_vocab_def should_use_full_vocab_compat_def
      should_use_full_vocab_def validate_verpo_vocab_config_def nat_le_iff split: if_splits)

lemma call_tensors_ok: "call_ok mode C \<Longrightarrow> tensors_ok (call_tensors C)"
  by (simp add: call_ok_def call_tensors_def)

lemma call_neg_mem: "call_ok mode C \<Longrightarrow> mode \<noteq> ''evidence_vs_none'' \<Longrightarrow> the (vc_negative C) \<in> set (call_tensors C)"
  by (auto simp: call_ok_def call_tensors_def)

lemma call_tensors_v:
  assumes "call_ok mode C" "L \<in> set (call_tensors C)"
  shows "lg_v L = lg_v (vc_student C)"
  using tensors_ok_shape [OF call_tensors_ok [OF assms(1)] assms(2), of "vc_student C"]
  by (simp add: call_tensors_def lg_shape_eq_iff)

lemma call_mem: "vc_student C \<in> set (call_tensors C)" "vc_base C \<in> set (call_tensors C)" "vc_evidence C \<in> set (call_tensors C)"
  by (simp_all add: call_tensors_def)

lemma call_base_mem: "call_ok mode C \<Longrightarrow> call_base mode C \<in> set (call_tensors C)"
  using call_neg_mem by (auto simp: call_base_def call_mem)

section \<open>Statistics\<close>

text \<open>The package takes one advantage per row, the native loss one per token.\<close>

definition spread :: "vcall \<Rightarrow> vec \<Rightarrow> bool" where
  "spread C advantages \<longleftrightarrow> length advantages = lg_n (vc_student C)
     \<and> (\<forall>t < rows_of_call C. vc_advantages C ! t = row_at (lg_s (vc_student C)) advantages t)"

lemma package_stats_eq:
  assumes topk: "topk_select topk" and ok: "call_ok (va_displacement_mode A) C" and args: "args_ok A T e ca ce"
    and full: "native_use_full_vocab (va_vocab_mode A) (va_top_k A) (lg_v (vc_student C)) = Inr full"
    and adv: "spread C advantages"
  defines "st \<equiv> call_stats topk full A T e C"
  shows "package_stats topk A C advantages = Inr (tok_of (vc_student C) (\<lambda>t. fs_benefit (st t)),
    tok_of (vc_student C) (\<lambda>t. fs_fisher_cost (st t)), tok_of (vc_student C) (\<lambda>t. fs_projection (st t)))"
proof -
  let ?mode = "va_displacement_mode A" and ?S = "vc_student C" and ?Z = "vc_base C" and ?P = "vc_evidence C"
  let ?N = "the (vc_negative C)" and ?B = "call_base ?mode C" and ?y = "vc_tokens C"
  note ten = call_tensors_ok [OF ok] and mem = call_mem [of C] and vs = call_tensors_v [OF ok]
  note D = call_okD [OF ok]
  have ids: "ids_ok ?S ?y" using ok by (simp add: call_ok_def)
  note compat = use_full_compat [OF full D(5)]
  have num: "0 < T" "0 < e" "0 < va_vocab_chunk_size A" "va_temperature A = Fin T" "va_projection_epsilon A = Fin e"
    using args by (simp_all add: args_ok_def)
  have len: "length advantages = lg_n ?S" and at: "\<And>t. t < lg_n ?S * lg_s ?S \<Longrightarrow> row_at (lg_s ?S) advantages t = vc_advantages C ! t"
    using adv by (simp_all add: spread_def rows_of_call_def)
  have base: "?B \<in> set (call_tensors C)" by (rule call_base_mem [OF ok])
  have co: "coords topk full (top_k_value (TkInt (va_top_k A))) Ls ?y t = call_coords topk full (nat (va_top_k A)) Ms C t"
    if "set Ls = set Ms" "Ls \<noteq> []" "set Ls \<subseteq> set (call_tensors C)" for Ls Ms t
    by (rule coords_call [OF that(1,2) _ compat(2)]) (use that(3) vs in blast)
  show ?thesis
  proof (cases "?mode = ''fec''")
    case True
    then have N: "?N \<in> set (call_tensors C)" using call_neg_mem [OF ok] by simp
    have B: "?B = ?N" using True by (simp add: call_base_def)
    have sub: "tensors_ok [?P, ?N, ?Z, ?S]" by (rule tensors_ok_sub [OF ten]) (use mem N in auto)
    have X: "coords topk full (top_k_value (TkInt (va_top_k A))) [?P, ?N, ?Z] ?y t
        = call_coords topk full (nat (va_top_k A)) (call_sources ?mode False C) C t"
      "coords topk full (top_k_value (TkInt (va_top_k A))) [?P, ?N, ?Z, ?S] ?y t
        = call_coords topk full (nat (va_top_k A)) (call_sources ?mode True C) C t" for t
      by (rule co; use True mem N in \<open>auto simp: call_sources_def\<close>)+
    have fwd: "tok_of ?S (\<lambda>t. fec_ref (coords topk full (top_k_value (TkInt (va_top_k A))) [?P, ?N, ?Z] ?y t)
        (stu_prob T ?S t) (task_prob T ?P ?N t) (nuis_prob T ?P ?N ?Z t) e (token_at ?y t) (row_at (lg_s ?S) advantages t))
      = tok_of ?S st" if "\<not> reversed A"
      by (rule tok_of_eqI) (use that True in \<open>simp add: st_def call_stats_def Let_def X at mode_ref_def call_base_def\<close>)
    have rvs: "tok_of ?S (\<lambda>t. fec_ref (coords topk full (top_k_value (TkInt (va_top_k A))) [?P, ?N, ?Z, ?S] ?y t)
        (stu_prob T ?S t) (tangent (coords topk full (top_k_value (TkInt (va_top_k A))) [?P, ?N, ?Z, ?S] ?y t) (stu_prob T ?S t) (task_log T ?P ?N t))
        (tangent (coords topk full (top_k_value (TkInt (va_top_k A))) [?P, ?N, ?Z, ?S] ?y t) (stu_prob T ?S t) (nuis_log T ?P ?N ?Z t))
        e (token_at ?y t) (row_at (lg_s ?S) advantages t)) = tok_of ?S st" if "reversed A"
      by (rule tok_of_eqI) (use that True in \<open>simp add: st_def call_stats_def Let_def X at mode_ref_def call_base_def\<close>)
    show ?thesis
      using compute_fec_evidence_stats_eq [OF topk sub ids compat(1) num(1,3,2) len]
        compute_reverse_kl_fec_evidence_stats_eq [OF topk sub ids compat(1) num(1,3,2) len] fwd rvs True
      by (simp add: package_stats_def Let_def num)
  next
    case False
    have sub: "tensors_ok [?P, ?B, ?S]" "tensors_ok [?B, ?P, ?S]"
      by (rule tensors_ok_sub [OF ten], use mem base in auto)+
    have B: "?mode = ''evidence_vs_none'' \<Longrightarrow> ?B = ?Z" "?mode \<noteq> ''evidence_vs_none'' \<Longrightarrow> ?B = ?N"
      by (simp_all add: call_base_def)
    have X: "coords topk full (top_k_value (TkInt (va_top_k A))) [?P, ?B] ?y t
        = call_coords topk full (nat (va_top_k A)) (call_sources ?mode False C) C t"
      "coords topk full (top_k_value (TkInt (va_top_k A))) [?B, ?P, ?S] ?y t
        = call_coords topk full (nat (va_top_k A)) (call_sources ?mode True C) C t" for t
      by (rule co; use False B mem base in \<open>auto simp: call_sources_def\<close>)+
    have ref: "st t = task_ref (call_coords topk full (nat (va_top_k A)) (call_sources ?mode (reversed A) C) C t) (stu_prob T ?S t)
        (if reversed A then tangent (call_coords topk full (nat (va_top_k A)) (call_sources ?mode (reversed A) C) C t)
           (stu_prob T ?S t) (task_log T ?P ?B t) else task_prob T ?P ?B t) (token_at ?y t) (vc_advantages C ! t)" for t
      using False by (simp add: st_def call_stats_def Let_def mode_ref_def)
    show ?thesis
      using compute_evidence_displacement_stats_eq [OF topk sub(1) ids compat(1) num(1,3) len]
        compute_reverse_kl_evidence_stats_eq [OF topk sub(2) ids compat(1) num(1,3) len] False
      by (auto simp: package_stats_def Let_def num X ref task_ref_def at intro!: tok_of_eqI)
  qed
qed

section \<open>Weights\<close>

definition active_is :: "vcall \<Rightarrow> bool list \<Rightarrow> bool tok \<Rightarrow> bool" where
  "active_is C gate tmask \<longleftrightarrow> length gate = lg_n (vc_student C) \<and> wf_tok tmask
     \<and> tok_shape tmask = token_shape (vc_student C) \<and> (\<forall>t < rows_of_call C.
     vc_active C ! t = (row_at (lg_s (vc_student C)) gate t \<and> tk_vals tmask ! t))"

lemma weights_at_costs_flat:
  assumes W: "weights_at_costs A ca ce (tok_of S (\<lambda>t. fs_benefit (st t))) (tok_of S (\<lambda>t. fs_fisher_cost (st t))) gate tmask = Inr W"
    and S: "S = vc_student C" and len: "length (vc_active C) = rows_of_call C" and act: "active_is C gate tmask"
  shows "flat_weights A ca ce (vc_active C) (map st [0..<rows_of_call C]) = Inr (tk_vals W)"
    and "weights_ok S W" and "\<not> va_allow_negative_benefit A \<Longrightarrow> t < rows_of_call C \<Longrightarrow> 0 \<le> tk_vals W ! t \<and> tk_vals W ! t < 1"
proof -
  let ?n = "rows_of_call C"
  have n: "lg_n S * lg_s S = ?n" by (simp add: S rows_of_call_def)
  define ws where "ws = map (\<lambda>t. token_weight (row_at (lg_s S) gate t \<and> tk_vals tmask ! t) ca ce (va_allow_negative_benefit A)
      (fs_benefit (st t)) (fs_fisher_cost (st t))) [0..<?n]"
  have inner: "map (\<lambda>t. token_weight (map (\<lambda>t. row_at (lg_s S) gate t \<and> tk_vals tmask ! t) [0..<?n] ! t) ca ce
      (va_allow_negative_benefit A) (tk_vals (tok_of S (\<lambda>t. fs_benefit (st t))) ! t)
      (tk_vals (tok_of S (\<lambda>t. fs_fisher_cost (st t))) ! t)) [0..<?n] = ws"
    unfolding ws_def by (rule map_cong) (simp_all add: n)
  have resolve: "resolve_cost \<lparr>cp_cost_alpha = Some (Fin ca), cp_cost_epsilon = Some (Fin ce), cp_tau = None,
      cp_rho = None, cp_cost_floor = None, cp_cost_beta = None\<rparr> = Inr (Fin ca, Fin ce)"
    by (simp add: resolve_cost_def)
  have R: "None \<notin> set ws" "\<not> va_allow_negative_benefit A \<Longrightarrow> \<not> list_ex (\<lambda>w. w < 0 \<or> 1 \<le> w) (map the ws)"
    "W = \<lparr>tk_n = lg_n S, tk_s = lg_s S, tk_vals = map the ws\<rparr>"
    using W [unfolded weights_at_costs_def compute_verpo_token_weights_def Let_def resolve rbind.simps prod.case
        the_real.simps tok_of_simps(1,2,5) n inner]
    by (auto split: if_splits)
  have eq: "map2 (\<lambda>act s. token_weight act ca ce (va_allow_negative_benefit A) (fs_benefit s) (fs_fisher_cost s))
      (vc_active C) (map st [0..<?n]) = ws"
    using len act by (intro nth_equalityI) (simp_all add: ws_def active_is_def S)
  show "flat_weights A ca ce (vc_active C) (map st [0..<rows_of_call C]) = Inr (tk_vals W)"
    using R(1,3) eq by (simp add: flat_weights_def)
  have lenw: "length ws = ?n" by (simp add: ws_def)
  then show "weights_ok S W" using R(3) by (simp add: weights_ok_def wf_tok_def tok_shape_def token_shape_def n)
  show "0 \<le> tk_vals W ! t \<and> tk_vals W ! t < 1" if "\<not> va_allow_negative_benefit A" "t < ?n"
  proof -
    have "\<forall>w \<in> set (map the ws). 0 \<le> w \<and> w < 1"
      using R(2) [OF that(1)] unfolding list_ex_iff by (meson not_le not_less)
    moreover have "map the ws ! t \<in> set (map the ws)" using lenw that(2) by (metis length_map nth_mem)
    ultimately show ?thesis unfolding R(3) by (simp only: tok.simps)
  qed
qed

section \<open>Losses\<close>

lemma call_coords_range:
  assumes topk: "topk_select topk" and ok: "call_ok mode C" and Ls: "set Ls \<subseteq> set (call_tensors C)"
    and t: "t < rows_of_call C"
  shows "call_coords topk full k Ls C t \<subseteq> {..<lg_v (vc_student C)}"
proof -
  note D = call_okD [OF ok]
  have "set (topk (min k (lg_v M)) (lg_rows M ! t)) \<subseteq> {..<lg_v (vc_student C)}" if M: "M \<in> set Ls" for M
  proof -
    have M': "M \<in> set (call_tensors C)" using M Ls by blast
    have "length (lg_rows M ! t) = lg_v M"
      using tensors_rows_ok [OF call_tensors_ok [OF ok] M' call_mem(1)] t call_tensors_v [OF ok M']
      by (simp add: rows_ok_def rows_of_call_def)
    then show ?thesis
      using topk_select.topk_range [OF topk, of "min k (lg_v M)" "lg_rows M ! t"] call_tensors_v [OF ok M'] by auto
  qed
  then show ?thesis using D(7) [OF t] by (auto simp: call_coords_def support_set_def token_at_def)
qed

lemma corr_ref_cong:
  "(\<And>k. k \<in> X \<Longrightarrow> d k = d' k) \<Longrightarrow> corr_ref T w X d lp = corr_ref T w X d' lp"
  unfolding corr_ref_def by (metis (mono_tags, lifting) sum.cong)

lemma reverse_entries:
  assumes "should_use_full_vocab_compat vm k (lg_v S) = Inr full"
  shows "compute_reverse_kl_fixed_teacher_token_losses topk S Z P W T c False vm k (Some y)
      = compute_reverse_kl_teacher_token_losses topk S Z Z P W T c False vm k (Some y)"
    and "compute_reverse_kl_ctr_teacher_token_losses topk S Z P N W T c False vm k (Some y)
      = compute_reverse_kl_teacher_token_losses topk S Z N P W T c False vm k (Some y)"
  using assms
  by (cases full; simp add: compute_reverse_kl_fixed_teacher_token_losses_def
      compute_reverse_kl_ctr_teacher_token_losses_def compute_reverse_kl_teacher_token_losses_def
      truncated_reverse_fixed_losses_def truncated_reverse_ctr_losses_def)+

lemma package_losses_eq:
  assumes topk: "topk_select topk" and ok: "call_ok (va_displacement_mode A) C" and args: "args_ok A T e ca ce"
    and full: "native_use_full_vocab (va_vocab_mode A) (va_top_k A) (lg_v (vc_student C)) = Inr full"
    and W: "weights_ok (vc_student C) W" and clamp: "full \<or> \<not> reversed A \<or> (\<forall>t < rows_of_call C. 0 \<le> tk_vals W ! t \<and> tk_vals W ! t \<le> 1)"
  defines "ref \<equiv> tok_of (vc_student C) (call_reference topk full A T C)"
  shows "package_losses topk A C W (tok_of (vc_student C) a) = Inr
    (if va_displacement_mode A = ''fec'' then None else Some ref,
     tok_of (vc_student C) (\<lambda>t. call_evidence topk full A T C (tk_vals W ! t) (a t) t))"
proof -
  let ?mode = "va_displacement_mode A" and ?S = "vc_student C" and ?Z = "vc_base C" and ?P = "vc_evidence C"
  let ?N = "the (vc_negative C)" and ?B = "call_base ?mode C" and ?y = "vc_tokens C" and ?k = "TkInt (va_top_k A)"
  let ?co = "\<lambda>Ls. coords topk full (top_k_value ?k) Ls ?y"
  let ?alpha = "tok_of ?S a"
  note ten = call_tensors_ok [OF ok] and mem = call_mem [of C] and vs = call_tensors_v [OF ok]
  note D = call_okD [OF ok]
  have ids: "ids_ok ?S ?y" using ok by (simp add: call_ok_def)
  note compat = use_full_compat [OF full D(5)]
  have num: "0 < T" "0 < va_vocab_chunk_size A" "va_temperature A = Fin T" using args by (simp_all add: args_ok_def)
  have co: "?co Ls t = call_coords topk full (nat (va_top_k A)) Ms C t"
    if "set Ls = set Ms" "Ls \<noteq> []" "set Ls \<subseteq> set (call_tensors C)" for Ls Ms t
    by (rule coords_call [OF that(1,2) _ compat(2)]) (use that(3) vs in blast)
  have base: "?B \<in> set (call_tensors C)" by (rule call_base_mem [OF ok])
  have alpha: "weights_ok ?S ?alpha" by (simp add: weights_ok_def)
  have n: "lg_n ?S * lg_s ?S = rows_of_call C" by (simp add: rows_of_call_def)
  have w: "(if full then tk_vals W ! t else clamp 0 1 (tk_vals W ! t)) = tk_vals W ! t" if "t < rows_of_call C" "reversed A" for t
    using clamp that by (auto simp: geometric_clamp)
  have R: "?co [?Z] t = call_coords topk full (nat (va_top_k A)) [?Z] C t"
    "?co [?Z, ?S] t = call_coords topk full (nat (va_top_k A)) [?Z, ?S] C t" for t
    by (rule co; use mem in auto)+
  have rows: "rows_ok L (rows_of_call C) (lg_v ?S)" if "L \<in> set (call_tensors C)" for L
    using tensors_rows_ok [OF ten that call_mem(1)] by (simp add: rows_of_call_def)
  have probs: "exp (log_row T P t k) - exp (log_row T N t k) = task_prob T P N t k"
    "1/2 * (exp (log_row T P t k) + exp (log_row T N t k)) - exp (log_row T Z t k) = nuis_prob T P N Z t k"
    if "P \<in> set (call_tensors C)" "N \<in> set (call_tensors C)" "Z \<in> set (call_tensors C)" "t < rows_of_call C" "k < lg_v ?S" for P N Z t k
    using exp_rows [OF rows [OF that(1)] rows [OF that(2)] rows [OF that(3)] that(4,5)] by simp_all
  have range: "k < lg_v ?S" if "set Ls \<subseteq> set (call_tensors C)" "k \<in> call_coords topk full K Ls C t" "t < rows_of_call C"
    for k K Ls t
    using call_coords_range [OF topk ok that(1,3)] that(2) by auto
  show ?thesis
  proof (cases "?mode = ''fec''")
    case True
    then have N: "?N \<in> set (call_tensors C)" using call_neg_mem [OF ok] by simp
    have sub: "tensors_ok [?P, ?N, ?Z, ?S]" by (rule tensors_ok_sub [OF ten]) (use mem N in auto)
    have X: "?co [?P, ?N, ?Z] t = call_coords topk full (nat (va_top_k A)) (call_sources ?mode False C) C t"
      "?co [?P, ?N, ?Z, ?S] t = call_coords topk full (nat (va_top_k A)) (call_sources ?mode True C) C t" for t
      by (rule co; use True mem N in \<open>auto simp: call_sources_def\<close>)+
    have src: "set (call_sources ?mode False C) \<subseteq> set (call_tensors C)" using True mem N by (simp add: call_sources_def)
    have fwd: "tok_of ?S (\<lambda>t. corr_ref T (tk_vals W ! t) (?co [?P, ?N, ?Z] t) (fec_exp T ?P ?N ?Z ?alpha t) (log_row T ?S t))
        = tok_of ?S (\<lambda>t. call_evidence topk full A T C (tk_vals W ! t) (a t) t)" if "\<not> reversed A"
    proof (rule tok_of_eqI, unfold n)
      fix t assume t: "t < rows_of_call C"
      show "corr_ref T (tk_vals W ! t) (?co [?P, ?N, ?Z] t) (fec_exp T ?P ?N ?Z ?alpha t) (log_row T ?S t)
        = call_evidence topk full A T C (tk_vals W ! t) (a t) t"
        unfolding X(1) call_evidence_def Let_def using that True
        by (simp add: call_base_def)
          (rule corr_ref_cong, use range [OF src _ t, unfolded True] probs [OF mem(3) N mem(2) t] t True n in
            \<open>auto simp: fec_exp_def task_exp_def mode_resid_def resid_def\<close>)
    qed
    have rvs: "tok_of ?S (\<lambda>t. geo_ref T (tk_vals W ! t) (?co [?P, ?N, ?Z, ?S] t) (log_row T ?S t) (log_row T ?N t)
        (fec_log T ?P ?N ?Z ?alpha t)) = tok_of ?S (\<lambda>t. call_evidence topk full A T C (tk_vals W ! t) (a t) t)" if "reversed A"
    proof (rule tok_of_eqI, unfold n)
      fix t assume t: "t < rows_of_call C"
      have "fec_log T ?P ?N ?Z ?alpha t = mode_resid ?mode (task_log T ?P ?N t) (a t) (nuis_log T ?P ?N ?Z t)"
        using True t n by (auto simp: fec_log_def mode_resid_def resid_def)
      then show "geo_ref T (tk_vals W ! t) (?co [?P, ?N, ?Z, ?S] t) (log_row T ?S t) (log_row T ?N t) (fec_log T ?P ?N ?Z ?alpha t)
        = call_evidence topk full A T C (tk_vals W ! t) (a t) t"
        unfolding X(2) call_evidence_def Let_def w [OF t that] using that True by (simp add: call_base_def)
    qed
    show ?thesis
      using compute_fec_teacher_token_losses_eq [OF topk sub ids compat(1) num(1,2) W alpha]
        compute_reverse_kl_fec_teacher_token_losses_eq [OF topk sub ids compat(1) num(1,2) W alpha] fwd rvs True
      by (simp add: package_losses_def Let_def num)
  next
    case False
    have sub: "tensors_ok [?Z, ?B, ?P, ?S]" "tensors_ok [?Z, ?P, ?B, ?S]"
      by (rule tensors_ok_sub [OF ten], use mem base in auto)+
    have B: "?mode = ''evidence_vs_none'' \<Longrightarrow> ?B = ?Z" "?mode \<noteq> ''evidence_vs_none'' \<Longrightarrow> ?B = ?N"
      by (simp_all add: call_base_def)
    have X: "?co [?P, ?B] t = call_coords topk full (nat (va_top_k A)) (call_sources ?mode False C) C t"
      "?co [?B, ?P] t = call_coords topk full (nat (va_top_k A)) (call_sources ?mode False C) C t"
      "?co [?B, ?P, ?S] t = call_coords topk full (nat (va_top_k A)) (call_sources ?mode True C) C t" for t
      by (rule co; use False B mem base in \<open>auto simp: call_sources_def\<close>)+
    have src: "set (call_sources ?mode False C) \<subseteq> set (call_tensors C)"
      using False B mem base by (auto simp: call_sources_def)
    have fwd: "corr_ref T (tk_vals W ! t) (call_coords topk full (nat (va_top_k A)) (call_sources ?mode False C) C t)
        (task_exp T ?P ?B t) (log_row T ?S t) = call_evidence topk full A T C (tk_vals W ! t) (a t) t"
      if "\<not> reversed A" "t < rows_of_call C" for t
      unfolding call_evidence_def Let_def using that(1) False
      by (simp add: mode_resid_def)
        (rule corr_ref_cong, use range [OF src _ that(2)] probs(1) [OF mem(3) base mem(2) that(2)] in
          \<open>auto simp: task_exp_def\<close>)
    have rvs: "geo_ref T (tk_vals W ! t) (call_coords topk full (nat (va_top_k A)) (call_sources ?mode True C) C t)
        (log_row T ?S t) (log_row T ?B t) (task_log T ?P ?B t) = call_evidence topk full A T C (tk_vals W ! t) (a t) t"
      if "reversed A" "t < rows_of_call C" for t
      unfolding call_evidence_def Let_def w [OF that(2,1)] using that(1) False by (simp add: mode_resid_def)
    have refs: "kl_ref T (?co [?Z] t) (log_row T ?Z t) (log_row T ?S t) = call_reference topk full A T C t" if "\<not> reversed A" for t
      using that by (simp add: call_reference_def R Let_def)
    have refs': "kl_ref T (?co [?Z, ?S] t) (log_row T ?S t) (log_row T ?Z t) = call_reference topk full A T C t" if "reversed A" for t
      using that by (simp add: call_reference_def R Let_def)
    note F = compute_fixed_teacher_token_losses_eq [OF topk sub(1) ids compat(1) num(1,2) W, unfolded X]
      compute_contrastive_teacher_token_losses_eq [OF topk sub(2) ids compat(1) num(1,2) W, unfolded X]
      compute_reverse_kl_teacher_token_losses_eq [OF topk sub(1) ids compat(1) num(1,2) W, unfolded X]
    have fw: "tok_of ?S (\<lambda>t. corr_ref T (tk_vals W ! t) (call_coords topk full (nat (va_top_k A)) (call_sources ?mode False C) C t)
        (task_exp T ?P ?B t) (log_row T ?S t)) = tok_of ?S (\<lambda>t. call_evidence topk full A T C (tk_vals W ! t) (a t) t)"
      if "\<not> reversed A" by (rule tok_of_eqI) (rule fwd [OF that], simp add: n)
    have rv: "tok_of ?S (\<lambda>t. geo_ref T (tk_vals W ! t) (call_coords topk full (nat (va_top_k A)) (call_sources ?mode True C) C t)
        (log_row T ?S t) (log_row T ?B t) (task_log T ?P ?B t)) = tok_of ?S (\<lambda>t. call_evidence topk full A T C (tk_vals W ! t) (a t) t)"
      if "reversed A" by (rule tok_of_eqI) (rule rvs [OF that], simp add: n)
    have fr: "tok_of ?S (\<lambda>t. kl_ref T (?co [?Z] t) (log_row T ?Z t) (log_row T ?S t)) = ref" if "\<not> reversed A"
      unfolding ref_def by (rule tok_of_eqI) (rule refs [OF that])
    have rr: "tok_of ?S (\<lambda>t. kl_ref T (?co [?Z, ?S] t) (log_row T ?S t) (log_row T ?Z t)) = ref" if "reversed A"
      unfolding ref_def by (rule tok_of_eqI) (rule refs' [OF that])
    show ?thesis
    proof (cases "?mode = ''evidence_vs_none''")
      case evn: True
      show ?thesis
        using F(1) [unfolded B(1) [OF evn]] F(3) [unfolded B(1) [OF evn]] fw [unfolded B(1) [OF evn]]
          rv [unfolded B(1) [OF evn]] fr rr False evn
        by (simp add: package_losses_def Let_def num drop_probs_def reverse_entries [OF compat(1)])
    next
      case other: False
      show ?thesis
        using F(2) F(3) fw rv fr rr False other
        by (simp add: package_losses_def Let_def num drop_probs_def reverse_entries [OF compat(1)] B(2) [OF other])
    qed
  qed
qed

end
