(* ===== verification/NativeProps.thy ===== *)
theory NativeProps
  imports NativePackage StatsProps
begin

text \<open>
  The properties of the veRL port of the loss (\<open>verl/trainer/distillation/verpo_zpd.py\<close> and
  \<open>verpo_topk.py\<close>): agreement with the package on success and on failure, and the hand-written
  backward pass of the chunked log-normaliser.
\<close>

section \<open>One package step\<close>

text \<open>Statistics, then weights, then losses, as the package's callers compose them.\<close>

definition package_verpo ::
  "(nat \<Rightarrow> vec \<Rightarrow> nat list) \<Rightarrow> verpo_args \<Rightarrow> vcall \<Rightarrow> vec \<Rightarrow> bool list \<Rightarrow> bool tok
    \<Rightarrow> (real tok \<times> real tok \<times> real tok \<times> real tok option \<times> real tok) res" where
  "package_verpo topk A C advantages gate tmask =
     rbind (package_stats topk A C advantages) (\<lambda>(benefit, cost, projection).
     rbind (package_weights A benefit cost gate tmask) (\<lambda>weights.
     rbind (package_losses topk A C weights projection) (\<lambda>(reference, evidence).
       Inr (benefit, cost, weights, reference, evidence))))"

text \<open>Both fail, or both return the same statistics, weights and losses; for FEC the package has
  no reference loss.\<close>

definition same_step ::
  "(real tok \<times> real tok \<times> real tok \<times> real tok option \<times> real tok) res \<Rightarrow> flat_result res \<Rightarrow> bool" where
  "same_step p r = (case (p, r) of
       (Inl (ValueError _), Inl (ValueError _)) \<Rightarrow> True
     | (Inr (benefit, cost, weights, reference, evidence), Inr R) \<Rightarrow>
         map fs_benefit (fr_stats R) = tk_vals benefit \<and> map fs_fisher_cost (fr_stats R) = tk_vals cost
         \<and> fr_weights R = tk_vals weights \<and> fr_evidence_loss R = tk_vals evidence
         \<and> (case reference of None \<Rightarrow> True | Some ref \<Rightarrow> fr_reference_loss R = tk_vals ref)
     | _ \<Rightarrow> False)"

lemma call_stats_cost_nonneg:
  assumes topk: "topk_select topk" and ok: "call_ok (va_displacement_mode A) C" and args: "args_ok A T e ca ce"
    and t: "t < rows_of_call C"
  shows "0 \<le> fs_fisher_cost (call_stats topk full A T e C t)"
proof -
  let ?mode = "va_displacement_mode A" and ?S = "vc_student C"
  let ?X = "call_coords topk full (nat (va_top_k A)) (call_sources ?mode (reversed A) C) C t"
  have src: "set (call_sources ?mode (reversed A) C) \<subseteq> set (call_tensors C)"
    using call_neg_mem [OF ok] call_mem [of C] by (auto simp: call_sources_def)
  have "length (lg_rows ?S ! t) = lg_v ?S" "lg_rows ?S ! t \<noteq> []"
    using tensors_rows_ok [OF call_tensors_ok [OF ok] call_mem(1) call_mem(1)] t call_okD(5) [OF ok]
    by (auto simp: rows_ok_def rows_of_call_def)
  then have x: "lg_rows ?S ! t \<noteq> [] \<and> ?X \<subseteq> {..<length (lg_rows ?S ! t)}"
    using call_coords_range [OF topk ok src t] by simp
  have e: "0 < e" using args by (simp add: args_ok_def)
  have "0 \<le> fs_fisher_cost (mode_ref m ?X (stu_prob T ?S t) f g e y a)" for m f g y a
    using subrow.fec_ref_bounds(1) [of "(T, lg_rows ?S ! t, ?X)", OF _ e] subrow.var_nonneg [of "(T, lg_rows ?S ! t, ?X)"] x
    by (simp add: mode_ref_def task_ref_def disp_ref_def stu_prob_def [abs_def])
  then show ?thesis unfolding call_stats_def Let_def .
qed

lemma weights_at_costs_err:
  assumes err: "flat_weights A ca ce (vc_active C) (map st [0..<rows_of_call C]) = Inl x"
    and act: "active_is C gate tmask" and len: "length (vc_active C) = rows_of_call C"
    and c: "0 \<le> ca" "0 < ce"
    and S: "S = vc_student C"
  shows "\<exists>m. x = ValueError m"
    "\<exists>m. weights_at_costs A ca ce (tok_of S (\<lambda>t. fs_benefit (st t))) (tok_of S (\<lambda>t. fs_fisher_cost (st t))) gate tmask
      = Inl (ValueError m)"
proof -
  have "\<exists>m. y = ValueError m" if "weights_at_costs A ca ce (tok_of S (\<lambda>t. fs_benefit (st t)))
      (tok_of S (\<lambda>t. fs_fisher_cost (st t))) gate tmask = Inl y" for y
    using that act c by (auto simp: weights_at_costs_def compute_verpo_token_weights_def Let_def resolve_cost_def
        active_is_def S split: if_splits)
  moreover have "\<exists>y. weights_at_costs A ca ce (tok_of S (\<lambda>t. fs_benefit (st t)))
      (tok_of S (\<lambda>t. fs_fisher_cost (st t))) gate tmask = Inl y"
    using weights_at_costs_flat(1) [OF _ S len act, of A ca ce st] err
    by (cases "weights_at_costs A ca ce (tok_of S (\<lambda>t. fs_benefit (st t))) (tok_of S (\<lambda>t. fs_fisher_cost (st t))) gate tmask")
      auto
  ultimately show "\<exists>m. weights_at_costs A ca ce (tok_of S (\<lambda>t. fs_benefit (st t))) (tok_of S (\<lambda>t. fs_fisher_cost (st t)))
      gate tmask = Inl (ValueError m)" by blast
  show "\<exists>m. x = ValueError m" using err by (auto simp: flat_weights_def Let_def split: if_splits)
qed

lemma weights_at_costs_ok:
  assumes fw: "flat_weights A ca ce (vc_active C) (map st [0..<rows_of_call C]) = Inr w"
    and act: "active_is C gate tmask" and len: "length (vc_active C) = rows_of_call C"
    and c: "0 \<le> ca" "0 < ce"
    and cost: "\<And>t. t < rows_of_call C \<Longrightarrow> 0 \<le> fs_fisher_cost (st t)"
    and S: "S = vc_student C"
  shows "weights_at_costs A ca ce (tok_of S (\<lambda>t. fs_benefit (st t))) (tok_of S (\<lambda>t. fs_fisher_cost (st t))) gate tmask
      = Inr \<lparr>tk_n = lg_n S, tk_s = lg_s S, tk_vals = w\<rparr>"
proof -
  let ?n = "rows_of_call C" and ?neg = "va_allow_negative_benefit A"
  have n: "lg_n S * lg_s S = ?n" by (simp add: S rows_of_call_def)
  define ws where "ws = map (\<lambda>t. token_weight (row_at (lg_s S) gate t \<and> tk_vals tmask ! t) ca ce ?neg
      (fs_benefit (st t)) (fs_fisher_cost (st t))) [0..<?n]"
  have inner: "map (\<lambda>t. token_weight (map (\<lambda>t. row_at (lg_s S) gate t \<and> tk_vals tmask ! t) [0..<?n] ! t) ca ce ?neg
      (tk_vals (tok_of S (\<lambda>t. fs_benefit (st t))) ! t) (tk_vals (tok_of S (\<lambda>t. fs_fisher_cost (st t))) ! t)) [0..<?n] = ws"
    unfolding ws_def by (rule map_cong) (simp_all add: n)
  have "map2 (\<lambda>act s. token_weight act ca ce ?neg (fs_benefit s) (fs_fisher_cost s)) (vc_active C) (map st [0..<?n]) = ws"
    using len act by (intro nth_equalityI) (simp_all add: ws_def active_is_def S)
  then have R: "None \<notin> set ws" "w = map the ws" using fw by (auto simp: flat_weights_def Let_def split: if_splits)
  have b: "0 \<le> the x \<and> the x < 1" if neg: "\<not> ?neg" and x: "x \<in> set ws" for x
  proof -
    obtain t where t: "t < ?n" "x = token_weight (row_at (lg_s S) gate t \<and> tk_vals tmask ! t) ca ce ?neg
        (fs_benefit (st t)) (fs_fisher_cost (st t))" using x by (auto simp: ws_def)
    show ?thesis
      using token_weight_bounds [OF c cost [OF t(1)], of "row_at (lg_s S) gate t \<and> tk_vals tmask ! t" "fs_benefit (st t)"]
        t that by force
  qed
  have "\<not> list_ex (\<lambda>w. w < 0 \<or> 1 \<le> w) (map the ws)" if "\<not> ?neg" using b [OF that] by (force simp: list_ex_iff)
  then show ?thesis
    using R act c n inner
    by (auto simp: weights_at_costs_def compute_verpo_token_weights_def Let_def resolve_cost_def active_is_def S
        rows_of_call_def)
qed

section \<open>The properties\<close>

lemma native_dispatch:
  assumes topk: "topk_select topk" and ok: "call_ok (va_displacement_mode A) C" and args: "args_ok A T e ca ce"
    and full: "native_use_full_vocab (va_vocab_mode A) (va_top_k A) (lg_v (vc_student C)) = Inr full"
  shows "meets topk full A T e ca ce C (compute_flat_verpo_losses topk A (batch_of C))"
proof -
  have v: "ft_v (fb_student (batch_of C)) = lg_v (vc_student C)" and np: "fb_negative_probabilities (batch_of C) = None"
    by (simp_all add: batch_of_def flat_of_def)
  have val: "native_validate_vocab (va_vocab_mode A) (va_top_k A) = Inr ()"
    using full by (cases "native_validate_vocab (va_vocab_mode A) (va_top_k A)") (auto simp: native_use_full_vocab_def)
  show ?thesis
  proof (cases full)
    case True
    then show ?thesis
      using compute_flat_full_meets [OF ok args] full by (simp add: compute_flat_verpo_losses_def val v np)
  next
    case False
    then show ?thesis
      using compute_flat_truncated_meets [OF topk ok args] full by (simp add: compute_flat_verpo_losses_def val v np)
  qed
qed

lemma flat_weights_length:
  "flat_weights A ca ce act stats = Inr w \<Longrightarrow> length w = min (length act) (length stats)"
  by (auto simp: flat_weights_def Let_def split: if_splits)

lemma args_costs: "args_ok A T e ca ce \<Longrightarrow> 0 \<le> ca \<and> 0 < ce"
  by (cases "va_cost_alpha A"; cases "va_cost_epsilon A")
    (auto simp: args_ok_def resolve_cost_parameters_def split: if_splits)

text \<open>C5: the veRL loss computes what the package computes, on every call and all arguments that pass
  the port's own checks: logits of one shape, sampled IDs inside the vocabulary, a known displacement
  mode with the negative logits it needs (given as logits, not as probabilities), and accepted
  controller values. There, for every displacement mode (Fixed, CTR, FEC), Forward and Reverse KL,
  full and truncated vocabulary, \<open>compute_flat_verpo_losses\<close> on the flattened batch fails with a
  \<open>ValueError\<close> exactly when the composition of the package's statistics, token weights (with
  costs the package resolves itself, legacy parameters included) and losses does, and otherwise
  returns the same benefit, Fisher cost, weights, evidence loss and (where the package has one)
  reference loss at every token; for truncated Reverse KL this needs the benefits to be clipped at
  zero.\<close>

theorem native_matches_package:
  assumes topk: "topk_select topk" and ok: "call_ok (va_displacement_mode A) C" and args: "args_ok A T e ca ce"
    and full: "native_use_full_vocab (va_vocab_mode A) (va_top_k A) (lg_v (vc_student C)) = Inr full"
    and adv: "spread C advantages" and act: "active_is C gate tmask"
    and clamp: "full \<or> \<not> reversed A \<or> \<not> va_allow_negative_benefit A"
  shows "same_step (package_verpo topk A C advantages gate tmask) (compute_flat_verpo_losses topk A (batch_of C))"
proof -
  let ?S = "vc_student C" and ?n = "rows_of_call C"
  define st where "st = call_stats topk full A T e C"
  note stats = package_stats_eq [OF topk ok args full adv, folded st_def]
  note meets = native_dispatch [OF topk ok args full, unfolded meets_def Let_def, folded st_def]
  have len: "length (vc_active C) = ?n" using ok by (simp add: call_ok_def)
  have n: "lg_n ?S * lg_s ?S = ?n" by (simp add: rows_of_call_def)
  note c = args_costs [OF args]
  have resolved: "package_weights A = weights_at_costs A ca ce"
    using package_weights_at args unfolding args_ok_def by blast
  have cost: "0 \<le> fs_fisher_cost (st t)" if "t < ?n" for t
    unfolding st_def by (rule call_stats_cost_nonneg [OF topk ok args that])
  show ?thesis
  proof (cases "flat_weights A ca ce (vc_active C) (map st [0..<?n])")
    case (Inl x)
    show ?thesis
      using weights_at_costs_err [OF Inl act len conjunct1 [OF c] conjunct2 [OF c] refl] meets Inl
      by (auto simp: package_verpo_def stats resolved same_step_def)
  next
    case (Inr w)
    let ?W = "\<lparr>tk_n = lg_n ?S, tk_s = lg_s ?S, tk_vals = w\<rparr>"
    note W = weights_at_costs_ok [OF Inr act len conjunct1 [OF c] conjunct2 [OF c] cost refl]
    have Wb: "full \<or> \<not> reversed A \<or> (\<forall>t < ?n. 0 \<le> tk_vals ?W ! t \<and> tk_vals ?W ! t \<le> 1)"
      using clamp weights_at_costs_flat(3) [OF W refl len act] by (auto intro: less_imp_le)
    note L = package_losses_eq [OF topk ok args full weights_at_costs_flat(2) [OF W refl len act] Wb]
    obtain R where R: "compute_flat_verpo_losses topk A (batch_of C) = Inr R" "fr_stats R = map st [0..<?n]"
      "fr_weights R = w" "fr_reference_loss R = map (call_reference topk full A T C) [0..<?n]"
      "fr_evidence_loss R = map (\<lambda>t. call_evidence topk full A T C (w ! t) (fs_projection (map st [0..<?n] ! t)) t) [0..<?n]"
      using meets Inr by auto
    have P: "package_verpo topk A C advantages gate tmask
      = Inr (tok_of ?S (\<lambda>t. fs_benefit (st t)), tok_of ?S (\<lambda>t. fs_fisher_cost (st t)), ?W,
        if va_displacement_mode A = ''fec'' then None else Some (tok_of ?S (call_reference topk full A T C)),
        tok_of ?S (\<lambda>t. call_evidence topk full A T C (tk_vals ?W ! t) (fs_projection (st t)) t))"
      by (simp add: package_verpo_def stats resolved W L)
    show ?thesis
      unfolding P R(1) using R(2-5) by (auto simp: same_step_def n tok_of_def)
  qed
qed

text \<open>A one-token call: the evidence Teacher agrees with the base Teacher.\<close>

definition unit_args :: verpo_args where
  "unit_args = \<lparr>va_tau = Fin 1, va_rho = Fin 1, va_cost_floor = Fin 1, va_cost_beta = Fin 1, va_cost_alpha = Some (Fin 1),
     va_cost_epsilon = Some (Fin 1), va_allow_negative_benefit = False, va_temperature = Fin 1, va_vocab_chunk_size = 1,
     va_divergence = ''reverse_kl'', va_displacement_mode = ''fec'', va_projection_epsilon = Fin 1,
     va_vocab_mode = ''topk_truncated'', va_top_k = 1\<rparr>"

definition unit_call :: vcall where
  "unit_call = \<lparr>vc_student = one_pos [0, 0], vc_base = one_pos [1, 0], vc_evidence = one_pos [0, 2],
     vc_negative = Some (one_pos [0, 3]), vc_tokens = one_id 1, vc_advantages = [1], vc_active = [True]\<rparr>"

lemma unit_call_ok:
  "call_ok (va_displacement_mode unit_args) unit_call" "args_ok unit_args 1 1 1 1"
  "native_use_full_vocab (va_vocab_mode unit_args) (va_top_k unit_args) (lg_v (vc_student unit_call)) = Inr False"
  "spread unit_call [1]" "active_is unit_call [True] (one_tok True)"
  by (simp_all add: unit_args_def unit_call_def call_ok_def valid_mode_def args_ok_def validate_verpo_controller_def
      resolve_cost_parameters_def native_use_full_vocab_def native_validate_vocab_def spread_def active_is_def
      rows_of_call_def row_at_def contrastive_mode_def)

theorem native_matches_package_witness:
  "same_step (package_verpo topk_by_sort unit_args unit_call [1] [True] (one_tok True))
     (compute_flat_verpo_losses topk_by_sort unit_args (batch_of unit_call))"
  by (rule native_matches_package [OF topk_sort_ok unit_call_ok]) (simp add: unit_args_def)

text \<open>with raw signed benefits the truncated Reverse-KL loss of the veRL port clamps the
  weights into \<open>[0, 1]\<close> before the geometric mixture, while the weights it reports are not
  clamped: the evidence loss of every token is that of the package at the clamped weight, and is 0
  at every token whose weight is negative.\<close>

theorem native_reverse_clamps:
  assumes topk: "topk_select topk" and ok: "call_ok (va_displacement_mode A) C" and args: "args_ok A T e ca ce"
    and full: "native_use_full_vocab (va_vocab_mode A) (va_top_k A) (lg_v (vc_student C)) = Inr False"
    and rv: "reversed A" and R: "compute_flat_verpo_losses topk A (batch_of C) = Inr R"
  defines "W \<equiv> \<lparr>tk_n = lg_n (vc_student C), tk_s = lg_s (vc_student C), tk_vals = map (clamp 0 1) (fr_weights R)\<rparr>"
    and "projection \<equiv> \<lparr>tk_n = lg_n (vc_student C), tk_s = lg_s (vc_student C), tk_vals = map fs_projection (fr_stats R)\<rparr>"
  shows "(\<exists>ref evidence. package_losses topk A C W projection = Inr (ref, evidence) \<and> fr_evidence_loss R = tk_vals evidence)
    \<and> (\<forall>t < rows_of_call C. fr_weights R ! t < 0 \<longrightarrow> fr_evidence_loss R ! t = 0)"
proof -
  let ?S = "vc_student C" and ?n = "rows_of_call C"
  define st where "st = call_stats topk False A T e C"
  have n: "lg_n ?S * lg_s ?S = ?n" by (simp add: rows_of_call_def)
  have len: "length (vc_active C) = ?n" using ok by (simp add: call_ok_def)
  from native_dispatch [OF topk ok args full, unfolded meets_def Let_def, folded st_def] R
  have F: "flat_weights A ca ce (vc_active C) (map st [0..<?n]) = Inr (fr_weights R)" "fr_stats R = map st [0..<?n]"
    "fr_evidence_loss R = map (\<lambda>t. call_evidence topk False A T C (fr_weights R ! t) (fs_projection (map st [0..<?n] ! t)) t) [0..<?n]"
    by (auto split: sum.splits)
  have lw: "length (fr_weights R) = ?n" using flat_weights_length [OF F(1)] len by simp
  have W: "weights_ok ?S W" "tk_vals W = map (clamp 0 1) (fr_weights R)"
    using lw by (simp_all add: W_def weights_ok_def wf_tok_def tok_shape_def token_shape_def n)
  have P: "projection = tok_of ?S (\<lambda>t. fs_projection (st t))" by (simp add: projection_def F(2) tok_of_def n)
  have b: "0 \<le> clamp 0 1 x \<and> clamp 0 1 x \<le> 1" for x :: real by (simp add: clamp_def)
  have cl: "call_evidence topk False A T C (clamp 0 1 w) a t = call_evidence topk False A T C w a t" for w a t
    using b [of w] rv by (simp add: call_evidence_def Let_def geometric_clamp)
  have eq: "fr_evidence_loss R = tk_vals (tok_of ?S (\<lambda>t. call_evidence topk False A T C (tk_vals W ! t) (fs_projection (st t)) t))"
    unfolding F(3) W(2) using lw by (simp add: tok_of_def n cl)
  have "\<exists>ref evidence. package_losses topk A C W projection = Inr (ref, evidence) \<and> fr_evidence_loss R = tk_vals evidence"
    unfolding P eq using package_losses_eq [OF topk ok args full W(1), of "\<lambda>t. fs_projection (st t)"] W(2) b lw by simp
  moreover have "fr_evidence_loss R ! t = 0" if "t < ?n" "fr_weights R ! t < 0" for t
  proof -
    have "clamp 0 1 (fr_weights R ! t) = 0" using that(2) by (simp add: clamp_def)
    then show ?thesis unfolding F(3) using that(1) rv by (simp add: call_evidence_def Let_def geo_ref_def)
  qed
  ultimately show ?thesis by blast
qed

text \<open>A truncated Reverse-KL call with raw signed benefits and a negative advantage.\<close>

definition signed_args :: verpo_args where
  "signed_args = unit_args\<lparr>va_allow_negative_benefit := True, va_displacement_mode := ''evidence_vs_none''\<rparr>"

definition signed_call :: vcall where
  "signed_call = unit_call\<lparr>vc_negative := None, vc_advantages := [-1]\<rparr>"

lemma signed_call_ok:
  "call_ok (va_displacement_mode signed_args) signed_call" "args_ok signed_args 1 1 1 1"
  "native_use_full_vocab (va_vocab_mode signed_args) (va_top_k signed_args) (lg_v (vc_student signed_call)) = Inr False"
  "reversed signed_args"
  by (simp_all add: unit_args_def unit_call_def call_ok_def valid_mode_def args_ok_def validate_verpo_controller_def
      resolve_cost_parameters_def native_use_full_vocab_def native_validate_vocab_def rows_of_call_def
      signed_args_def signed_call_def reversed_def)

lemma signed_weight:
  "flat_weights signed_args 1 1 (vc_active signed_call)
     (map (call_stats topk_by_sort False signed_args 1 1 signed_call) [0..<rows_of_call signed_call]) = Inr [- 12/13]"
proof -
  have rows: "rows_of_call signed_call = 1" by (simp add: rows_of_call_def signed_call_def unit_call_def)
  let ?X = "call_coords topk_by_sort False 1 (call_sources ''evidence_vs_none'' True signed_call) signed_call 0"
  have top: "topk_by_sort (Suc 0) [1, 0] = [0]" "topk_by_sort (Suc 0) [0, 2] = [1]"
    by (simp_all add: topk_by_sort_def upt_conv_Cons)
  have sub: "set (topk_by_sort (Suc 0) [0, 0]) \<subseteq> {..<2}"
    using topk_sort.topk_range [of "Suc 0" "[0, 0]"] by (auto simp: numeral_2_eq_2)
  have X: "?X = {..<2}"
    using sub by (auto simp: call_coords_def support_set_def call_sources_def signed_call_def unit_call_def top)
  have p: "stu_prob 1 (one_pos [0, 0]) 0 k = 1/2" if "k < 2" for k
    using that by (cases k) (simp_all add: stu_prob_def probs_def log_probs_def scaled_def log_norm_def logsumexp_def
      vexp_def vshift_def vsum_def exp_minus)
  define r where "r = task_log 1 (one_pos [0, 2]) (one_pos [1, 0]) 0"
  have r: "r 1 = r 0 + 3"
    by (simp add: r_def task_log_def log_row_def log_probs_def vshift_def scaled_def)
  have two: "(\<Sum>k<2. f k) = f 0 + f 1" for f :: "nat \<Rightarrow> real" by (simp add: numeral_2_eq_2)
  have S: "call_stats topk_by_sort False signed_args 1 1 signed_call 0
      = task_ref {..<2} (stu_prob 1 (one_pos [0, 0]) 0) (tangent {..<2} (stu_prob 1 (one_pos [0, 0]) 0) r) 1 (-1)"
    using X by (simp add: call_stats_def Let_def mode_ref_def r_def signed_args_def unit_args_def reversed_def
        signed_call_def unit_call_def call_base_def token_at_def)
  define s where "s = call_stats topk_by_sort False signed_args 1 1 signed_call 0"
  have s: "fs_benefit s = - 3/4" "fs_fisher_cost s = 9/16"
    unfolding s_def S by (simp_all add: task_ref_def disp_ref_def wmean_def wcov_def tangent_def two p r [unfolded One_nat_def] field_simps)
  have "map (call_stats topk_by_sort False signed_args 1 1 signed_call) [0..<1] = [s]" by (simp add: s_def)
  moreover have "vc_active signed_call = [True]" "va_allow_negative_benefit signed_args"
    by (simp_all add: signed_args_def signed_call_def unit_call_def)
  ultimately show ?thesis unfolding rows by (simp add: flat_weights_def token_weight_def s)
qed

theorem native_reverse_clamps_witness:
  "\<exists>R. compute_flat_verpo_losses topk_by_sort signed_args (batch_of signed_call) = Inr R
     \<and> fr_weights R = [- 12/13] \<and> fr_evidence_loss R ! 0 = 0"
proof -
  note ok = topk_sort_ok signed_call_ok(1-3)
  obtain R where R: "compute_flat_verpo_losses topk_by_sort signed_args (batch_of signed_call) = Inr R"
    "fr_weights R = [- 12/13]"
    using native_dispatch [OF ok] signed_weight by (auto simp: meets_def Let_def)
  have "rows_of_call signed_call = 1" by (simp add: rows_of_call_def signed_call_def unit_call_def)
  then show ?thesis using native_reverse_clamps [OF ok signed_call_ok(4) R(1)] R by auto
qed

lemma flat_weights_at:
  assumes "flat_weights A ca ce act stats = Inr w" "t < length act" "t < length stats"
  shows "token_weight (act ! t) ca ce (va_allow_negative_benefit A) (fs_benefit (stats ! t)) (fs_fisher_cost (stats ! t)) = Some (w ! t)"
proof -
  let ?ws = "map2 (\<lambda>a s. token_weight a ca ce (va_allow_negative_benefit A) (fs_benefit s) (fs_fisher_cost s)) act stats"
  have w: "None \<notin> set ?ws" "w = map the ?ws" using assms(1) by (auto simp: flat_weights_def Let_def split: if_splits)
  have "t < length ?ws" using assms by simp
  from nth_mem [OF this] have some: "?ws ! t \<noteq> None" using w(1) by metis
  have "w ! t = the (?ws ! t)" unfolding w(2) by (rule nth_map) fact
  then have "?ws ! t = Some (w ! t)" using some by simp
  moreover have "?ws ! t = token_weight (act ! t) ca ce (va_allow_negative_benefit A) (fs_benefit (stats ! t))
      (fs_fisher_cost (stats ! t))" using assms(2,3) by simp
  ultimately show ?thesis by (simp only:)
qed

text \<open>C38: the veRL loss returns well-formed results on every call and all arguments that pass its own
  checks: logits of one shape, sampled IDs inside the vocabulary, one advantage and one activity flag
  per token, a known displacement mode with the negative logits it needs (given as logits, not as
  probabilities), and accepted controller values. There it fails only with a \<open>ValueError\<close>, and
  otherwise the statistics, weights and both losses have one entry per token, the weight of an
  inactive token is 0, and unless raw signed benefits are allowed every weight lies in \<open>[0, 1)\<close>.\<close>

theorem native_result_well_formed:
  assumes topk: "topk_select topk" and ok: "call_ok (va_displacement_mode A) C" and args: "args_ok A T e ca ce"
    and full: "native_use_full_vocab (va_vocab_mode A) (va_top_k A) (lg_v (vc_student C)) = Inr full"
  shows "case compute_flat_verpo_losses topk A (batch_of C) of
      Inl x \<Rightarrow> \<exists>msg. x = ValueError msg
    | Inr R \<Rightarrow> length (fr_stats R) = rows_of_call C \<and> length (fr_weights R) = rows_of_call C
        \<and> length (fr_reference_loss R) = rows_of_call C \<and> length (fr_evidence_loss R) = rows_of_call C
        \<and> (\<forall>t < rows_of_call C. (\<not> vc_active C ! t \<longrightarrow> fr_weights R ! t = 0)
            \<and> (\<not> va_allow_negative_benefit A \<longrightarrow> 0 \<le> fr_weights R ! t \<and> fr_weights R ! t < 1))"
proof -
  let ?n = "rows_of_call C"
  define st where "st = call_stats topk full A T e C"
  note meets = native_dispatch [OF topk ok args full, unfolded meets_def Let_def, folded st_def]
  have len: "length (vc_active C) = ?n" using ok by (simp add: call_ok_def)
  note c = args_costs [OF args]
  show ?thesis
  proof (cases "flat_weights A ca ce (vc_active C) (map st [0..<?n])")
    case (Inl x)
    then have "\<exists>msg. x = ValueError msg" by (auto simp: flat_weights_def Let_def split: if_splits)
    then show ?thesis using meets Inl by simp
  next
    case (Inr w)
    have lw: "length w = ?n" using flat_weights_length [OF Inr] len by simp
    have at: "(\<not> vc_active C ! t \<longrightarrow> w ! t = 0) \<and> (\<not> va_allow_negative_benefit A \<longrightarrow> 0 \<le> w ! t \<and> w ! t < 1)"
      if t: "t < ?n" for t
    proof -
      have tw: "token_weight (vc_active C ! t) ca ce (va_allow_negative_benefit A) (fs_benefit (st t)) (fs_fisher_cost (st t))
          = Some (w ! t)"
        using flat_weights_at [OF Inr, of t] len t by simp
      have "0 \<le> fs_fisher_cost (st t)" unfolding st_def by (rule call_stats_cost_nonneg [OF topk ok args t])
      from token_weight_bounds [OF conjunct1 [OF c] conjunct2 [OF c] this, of "vc_active C ! t" "fs_benefit (st t)"]
      obtain w' where "token_weight (vc_active C ! t) ca ce False (fs_benefit (st t)) (fs_fisher_cost (st t)) = Some w'"
        "0 \<le> w'" "w' < 1" by blast
      then have "\<not> va_allow_negative_benefit A \<Longrightarrow> 0 \<le> w ! t \<and> w ! t < 1" using tw by simp
      moreover have "\<not> vc_active C ! t \<Longrightarrow> w ! t = 0" using tw by (simp add: token_weight_def)
      ultimately show ?thesis by blast
    qed
    show ?thesis using meets Inr lw at by auto
  qed
qed

theorem native_result_well_formed_witness:
  "\<exists>R. compute_flat_verpo_losses topk_by_sort signed_args (batch_of signed_call) = Inr R \<and> length (fr_evidence_loss R) = 1"
proof -
  note ok = topk_sort_ok signed_call_ok(1-3)
  have "rows_of_call signed_call = 1" by (simp add: rows_of_call_def signed_call_def unit_call_def)
  moreover obtain R where "compute_flat_verpo_losses topk_by_sort signed_args (batch_of signed_call) = Inr R"
    using native_dispatch [OF ok] signed_weight by (auto simp: meets_def Let_def)
  ultimately show ?thesis using native_result_well_formed [OF ok] by simp
qed

section \<open>The hand-written backward pass\<close>

lemma chunked_logsumexp_backward_nth:
  assumes "0 < c" "v < length z"
  shows "chunked_logsumexp_backward (length z) c T z (log_norm T z) g ! v = g * probs T z ! v / T"
proof -
  have "(\<lambda>a b. map (\<lambda>p. g * p / T) (vexp (vshift (scaled T (slice a b z)) (log_norm T z))))
      = (\<lambda>a b. slice a b (map (\<lambda>p. g * p / T) (probs T z)))"
    by (intro ext) (simp add: probs_def log_probs_def vshift_def vexp_def scaled_def slice_def take_map drop_map comp_def)
  then have "chunked_logsumexp_backward (length z) c T z (log_norm T z) g = map (\<lambda>p. g * p / T) (probs T z)"
    unfolding chunked_logsumexp_backward_def Let_def by (simp add: chunk_cat_slice assms(1))
  then show ?thesis using assms(2) by simp
qed

text \<open>C37: the hand-written \<open>_ChunkedLogsumexp.backward\<close> returns the gradient of the forward pass:
  from the saved normaliser and the incoming gradient \<open>g\<close>, its entry \<open>v\<close> is the derivative of
  \<open>g * chunked_logsumexp(z)\<close> in the logit \<open>v\<close>, whatever the chunk size of either pass.\<close>

theorem chunked_backward_is_gradient:
  assumes "0 < c" "0 < c'" "T \<noteq> 0" "v < length z"
  shows "((\<lambda>x. g * the (chunked_logsumexp_at (length z) c T (z[v := x]))) has_real_derivative
    chunked_logsumexp_backward (length z) c' T z (the (chunked_logsumexp_at (length z) c T z)) g ! v) (at (z ! v))"
proof -
  have ne: "z \<noteq> []" using assms(4) by auto
  have fwd: "the (chunked_logsumexp_at (length z) c T (z[v := x])) = log_norm T (z[v := x])" for x
    using chunked_logsumexp_at_eq [OF assms(1), of "z[v := x]" T] ne by simp
  show ?thesis
    using DERIV_cmult [OF log_norm_deriv [OF assms(4,3)], of g]
    by (simp add: fwd chunked_logsumexp_at_eq [OF assms(1) ne] chunked_logsumexp_backward_nth [OF assms(2,4)])
qed

theorem chunked_backward_is_gradient_witness:
  "((\<lambda>x. 2 * the (chunked_logsumexp_at 3 2 1 [0, x, 1])) has_real_derivative
    chunked_logsumexp_backward 3 1 1 [0, 5, 1] (the (chunked_logsumexp_at 3 2 1 [0, 5, 1])) 2 ! 1) (at 5)"
  using chunked_backward_is_gradient [of 2 1 1 1 "[0, 5, 1]" 2] by (simp add: numeral_3_eq_3)

end
