(* ===== verification/Protocol.thy ===== *)
theory Protocol
  imports PyStrings
begin

text \<open>
  The prompts of \<open>verl/trainer/distillation/verpo_protocol.py\<close>: the official math prompt and its
  removal, the Student and Teacher messages, the format gate, and the budgeted Teacher prompt.
  Strings are lists of 8-bit characters. The tokenizer and its chat template are arguments.
\<close>

section \<open>Constants\<close>

definition backslash :: char where "backslash = CHR 0x5C"

definition nl :: string where "nl = [newline]"

definition boxed_instruction :: string where
  "boxed_instruction = ''Present your final answer inside '' @ [backslash] @ ''boxed{}, for example ''
     @ [backslash] @ ''boxed{42}.''"

definition legacy_boxed_instruction :: string where
  "legacy_boxed_instruction = ''Please reason step by step, and put your final answer within '' @ [backslash] @ ''boxed{}.''"

definition teacher_transition :: string where
  "teacher_transition = nl @ nl @ ''After reading the reference solution above, make sure you understand ''
     @ ''the reasoning behind each step.'' @ nl"

definition incorrect_candidate_label :: string where
  "incorrect_candidate_label = ''Incorrect candidate solution:''"

definition truncated_marker :: string where
  "truncated_marker = nl @ ''...[middle of candidate hint truncated to fit Teacher context]...'' @ nl"

definition eval_data_sources :: "string list" where
  "eval_data_sources = [''amc23'', ''aime24'', ''aime25'']"

definition sdpo_template_id :: string where
  "sdpo_template_id = ''sdpo_official_correct_solution_v1''"

definition candidate_hint_template_id :: string where
  "candidate_hint_template_id = ''verpo_contrastive_candidate_hint''"

definition reference_template_id :: string where
  "reference_template_id = ''verpo_contrastive_reference_solution''"

definition sdpo_solution :: "string \<Rightarrow> string" where
  "sdpo_solution s = nl @ ''Correct solution:'' @ nl @ nl @ s @ nl @ nl"

definition sdpo_reprompt :: "string \<Rightarrow> string \<Rightarrow> string \<Rightarrow> string" where
  "sdpo_reprompt prompt solution feedback =
     prompt @ solution @ feedback @ nl @ nl @ ''Correctly solve the original question.'' @ nl"

section \<open>Removing the official prompt\<close>

text \<open>\<open>while text.endswith(suffix): text = text[: -len(suffix)].strip()\<close> for the suffix
  \<open>"\n\n" + instruction\<close>.\<close>

lemma length_strip: "length (strip s) \<le> length s"
  unfolding strip_def by (metis length_dropWhile_le length_rev order_trans)

lemma strip_shorter:
  "suffix (a # xs) s \<Longrightarrow> length (strip (take (length s - length (a # xs)) s)) < length s"
  using length_strip [of "take (length s - length (a # xs)) s"] suffix_length_le [of "a # xs" s] by auto

function strip_instruction :: "string \<Rightarrow> string \<Rightarrow> string" where
  "strip_instruction instruction text =
     (let sfx = newline # newline # instruction
      in if suffix sfx text then strip_instruction instruction (strip (take (length text - length sfx) text))
         else text)"
  by pat_completeness auto
termination
  by (relation "measure (\<lambda>(_, text). length text)") (auto dest: strip_shorter)

declare strip_instruction.simps [simp del]

definition problem_prefix :: string where "problem_prefix = ''Problem: ''"

definition strip_official_math_prompt :: "string \<Rightarrow> string" where
  "strip_official_math_prompt s =
     (let text = strip_instruction legacy_boxed_instruction (strip_instruction boxed_instruction (strip s))
      in if prefix problem_prefix text then strip (drop (length problem_prefix) text) else text)"

section \<open>Messages\<close>

text \<open>What the code reads of a prompt. The content of a message is a string, a list of parts, or
  any other value, given by \<open>str(value or "")\<close>; a part is a dictionary, given by
  \<open>str(item.get("text", ""))\<close>, or another value, given by \<open>str(item)\<close>. The keys of a message
  nobody reads are kept. A prompt is a list, a dictionary or anything else; tuples, which the
  code treats like lists except when it converts them to text, are not modelled.\<close>

datatype part = PDict "string option" | PItem string

datatype content = CText string | CParts "part list" | COther string

record message =
  mg_role :: "string option"
  mg_content :: "content option"
  mg_text :: "string option"
  mg_other :: "(string \<times> string) list"

datatype item = MDict message | MItem string

datatype raw_prompt = RList "item list" | RDict message | ROther content

definition part_text :: "part \<Rightarrow> string" where
  "part_text p = (case p of PDict t \<Rightarrow> (case t of None \<Rightarrow> [] | Some s \<Rightarrow> s) | PItem s \<Rightarrow> s)"

definition content_to_text :: "content \<Rightarrow> string" where
  "content_to_text v = (case v of CText s \<Rightarrow> s | CParts ps \<Rightarrow> join_lines (map part_text ps) | COther s \<Rightarrow> s)"

definition item_part :: "item \<Rightarrow> part" where
  "item_part i = (case i of MDict m \<Rightarrow> PDict (mg_text m) | MItem s \<Rightarrow> PItem s)"

definition message_text :: "message \<Rightarrow> string" where
  "message_text m = (case mg_content m of None \<Rightarrow> [] | Some v \<Rightarrow> content_to_text v)"

definition user_message :: "string \<Rightarrow> message" where
  "user_message s = \<lparr>mg_role = Some ''user'', mg_content = Some (CText s), mg_text = None, mg_other = []\<rparr>"

definition is_dict :: "item \<Rightarrow> bool" where
  "is_dict i = (case i of MDict _ \<Rightarrow> True | MItem _ \<Rightarrow> False)"

definition the_message :: "item \<Rightarrow> message" where
  "the_message i = (case i of MDict m \<Rightarrow> m | MItem s \<Rightarrow> user_message s)"

definition items_text :: "item list \<Rightarrow> string" where
  "items_text is = content_to_text (CParts (map item_part is))"

text \<open>\<open>raw_prompt_to_problem\<close>; \<open>split_sdpg_prompt\<close> comes from another package.\<close>

definition raw_prompt_to_problem :: "(string \<Rightarrow> string) \<Rightarrow> raw_prompt \<Rightarrow> string" where
  "raw_prompt_to_problem split_sdpg raw_prompt =
     (let content = (case raw_prompt of
          RList is \<Rightarrow> if is \<noteq> [] \<and> is_dict (last is) then message_text (the_message (last is))
                     else items_text is
        | RDict m \<Rightarrow> message_text m
        | ROther v \<Rightarrow> content_to_text v)
      in strip_official_math_prompt (if sublist ''[TEACHER_CONTEXT_TOKEN]'' content then split_sdpg content else content))"

definition build_rollout_messages :: "string \<Rightarrow> string option \<Rightarrow> message list" where
  "build_rollout_messages problem data_source =
     (let problem = strip_official_math_prompt problem;
          pre = (if lower (case data_source of None \<Rightarrow> [] | Some d \<Rightarrow> d) \<in> set eval_data_sources then [] else problem_prefix)
      in [user_message (pre @ problem @ nl @ nl @ boxed_instruction)])"

definition build_teacher_messages :: "string \<Rightarrow> string \<Rightarrow> string \<Rightarrow> message list res" where
  "build_teacher_messages problem answer solution =
     (let problem = strip_official_math_prompt problem; solution = strip solution; answer = strip answer
      in if solution = []
         then Inl (ValueError ''VERPO_CONTRASTIVE solution_answer Teacher requires a non-empty reference solution'')
         else if answer = []
         then Inl (ValueError ''VERPO_CONTRASTIVE Teacher requires a non-empty ground-truth answer'')
         else Inr [user_message (problem_prefix @ problem @ nl @ nl
           @ ''Here is a reference solution to this problem:'' @ nl @ ''=== Reference Solution Begin ==='' @ nl
           @ solution @ nl @ nl @ ''Correct final answer: '' @ answer @ nl @ ''=== Reference Solution End ===''
           @ teacher_transition @ nl @ boxed_instruction)])"

text \<open>The messages of a raw prompt, the last of which must be a non-empty user message.\<close>

definition raw_messages :: "string \<Rightarrow> raw_prompt \<Rightarrow> message list res" where
  "raw_messages msg raw_prompt = (case raw_prompt of
       RList is \<Rightarrow>
         if is = [] then Inr [user_message (items_text is)]
         else if \<not> list_all is_dict is then Inl (ValueError msg)
         else Inr (map the_message is)
     | RDict m \<Rightarrow> Inr [m]
     | ROther v \<Rightarrow> Inr [user_message (content_to_text v)])"

definition build_sdpo_teacher_messages :: "raw_prompt \<Rightarrow> string \<Rightarrow> message list res" where
  "build_sdpo_teacher_messages raw_prompt solution =
     (let solution = strip solution in
      if solution = [] then Inl (ValueError ''SDPO Correct solution Teacher requires a non-empty solution'')
      else rbind (raw_messages ''SDPO Teacher raw prompt messages must all be dictionaries'' raw_prompt) (\<lambda>ms.
        if mg_role (last ms) \<noteq> Some ''user''
        then Inl (ValueError ''SDPO Teacher requires the final raw prompt message to have role=user'')
        else let prompt_text = message_text (last ms) in
          if strip prompt_text = [] then Inl (ValueError ''SDPO Teacher requires a non-empty final prompt message'')
          else Inr (butlast ms @ [user_message (sdpo_reprompt prompt_text (sdpo_solution solution) [])])))"

definition build_contrastive_teacher_messages ::
  "string \<Rightarrow> string \<Rightarrow> raw_prompt option \<Rightarrow> string \<Rightarrow> message list res" where
  "build_contrastive_teacher_messages problem candidate_response raw_prompt template_variant =
     (let problem = strip_official_math_prompt problem; candidate = strip candidate_response in
      if candidate = [] then Inl (ValueError ''Contrastive Teacher requires a non-empty candidate response'')
      else if template_variant = sdpo_template_id
      then build_sdpo_teacher_messages
        (case raw_prompt of Some p \<Rightarrow> p | None \<Rightarrow> RList [MDict (user_message problem)]) candidate
      else if template_variant \<noteq> candidate_hint_template_id
      then Inl (ValueError ''Unsupported Teacher prompt template'')
      else case raw_prompt of
        Some p \<Rightarrow> rbind (raw_messages ''Contrastive Teacher raw prompt messages must all be dictionaries'' p) (\<lambda>ms.
          if mg_role (last ms) \<noteq> Some ''user''
          then Inl (ValueError ''Contrastive Teacher requires the final raw prompt message to have role=user'')
          else let prompt_text = message_text (last ms) in
            if strip prompt_text = []
            then Inl (ValueError ''Contrastive Teacher requires a non-empty final raw prompt message'')
            else Inr (butlast ms @ [user_message
              (prompt_text @ nl @ nl @ incorrect_candidate_label @ nl @ nl @ candidate)]))
      | None \<Rightarrow> Inr [user_message (problem_prefix @ problem @ nl @ nl @ incorrect_candidate_label @ nl @ nl
          @ candidate @ nl @ nl @ boxed_instruction)])"

end
