(* ===== verification/Grading.thy ===== *)
theory Grading
  imports Protocol Complex_Main
begin

text \<open>
  Answer extraction and grading of \<open>verl/trainer/distillation/verpo_protocol.py\<close>. \<open>Decimal\<close> of a
  matched numeral is exact, so numbers are rationals; \<open>math_verify\<close> is an argument.
\<close>

section \<open>The last boxed answer\<close>

definition rfind :: "string \<Rightarrow> string \<Rightarrow> nat option" where
  "rfind pat s = (let found = filter (\<lambda>i. prefix pat (drop i s)) [0..<Suc (length s)]
     in if found = [] then None else Some (last found))"

text \<open>The position of the brace that brings the depth back to zero.\<close>

fun match_brace :: "int \<Rightarrow> nat \<Rightarrow> string \<Rightarrow> nat option" where
  "match_brace depth cursor [] = None"
| "match_brace depth cursor (c # s) =
     (if c = CHR ''{'' then match_brace (depth + 1) (Suc cursor) s
      else if c = CHR ''}'' then (if depth - 1 = 0 then Some cursor else match_brace (depth - 1) (Suc cursor) s)
      else match_brace depth (Suc cursor) s)"

definition boxed_tag :: string where "boxed_tag = backslash # ''boxed''"

definition extract_boxed_answer :: "string option \<Rightarrow> string option" where
  "extract_boxed_answer t = (case t of None \<Rightarrow> None | Some s \<Rightarrow>
     (case rfind boxed_tag s of None \<Rightarrow> None | Some index \<Rightarrow>
     (case match_brace 0 index (drop index s) of None \<Rightarrow> None | Some right \<Rightarrow>
       let boxed = take (Suc right - index) (drop index s)
       in if prefix (boxed_tag @ ''{'') boxed \<and> suffix ''}'' boxed
          then Some (strip (take (length boxed - 8) (drop 7 boxed))) else None)))"

section \<open>Normalisation\<close>

text \<open>\<open>s.replace(pat, "")\<close> for a non-empty pattern.\<close>

function remove_all :: "string \<Rightarrow> string \<Rightarrow> string" where
  "remove_all pat [] = []"
| "remove_all pat (c # s) =
     (if pat \<noteq> [] \<and> prefix pat (c # s) then remove_all pat (drop (length pat) (c # s)) else c # remove_all pat s)"
  by pat_completeness auto
termination by (relation "measure (\<lambda>(_, s). length s)") (auto simp: neq_Nil_conv)

text \<open>\<open>s.strip(c)\<close> for one character.\<close>

definition strip_char :: "char \<Rightarrow> string \<Rightarrow> string" where
  "strip_char c s = rev (dropWhile (\<lambda>d. d = c) (rev (dropWhile (\<lambda>d. d = c) s)))"

definition normalize_fallback_string :: "string \<Rightarrow> string" where
  "normalize_fallback_string s = strip (lower (remove_all '' '' (remove_all ''$'' s)))"

text \<open>\<open>value[2:-2]\<close> when the value is enclosed in the two delimiters.\<close>

definition unwrap :: "string \<Rightarrow> string \<Rightarrow> string \<Rightarrow> string" where
  "unwrap opening closing v =
     (if prefix opening v \<and> suffix closing v then strip (take (length v - 4) (drop 2 v)) else v)"

definition strip_answer_wrappers :: "string \<Rightarrow> string" where
  "strip_answer_wrappers s =
     (let value = strip s;
          value = (case extract_boxed_answer (Some value) of Some boxed \<Rightarrow> boxed | None \<Rightarrow> value);
          value = strip (strip_char CHR ''$'' (strip value));
          value = unwrap (backslash # ''('') (backslash # '')'') value;
          value = unwrap (backslash # ''['') (backslash # '']'') value
      in strip (remove_all (backslash # ''right'') (remove_all (backslash # ''left'') value)))"

text \<open>\<open>_DEGREE_SUFFIX_RE.sub("", value)\<close>: no suffix of the list is a suffix of another. A degree
  sign before a final line feed is left, where the numeral expression fails either way.\<close>

definition degree_suffixes :: "string list" where
  "degree_suffixes =
     [''^{'' @ [backslash] @ ''circ}'', ''^{'' @ [backslash] @ ''circ'', ''^'' @ [backslash] @ ''circ}'',
      ''^'' @ [backslash] @ ''circ'', backslash # ''degree'', backslash # ''deg'', [CHR 0xB0]]"

definition remove_degree :: "string \<Rightarrow> string" where
  "remove_degree v = (case filter (\<lambda>d. suffix d v) degree_suffixes of
       [] \<Rightarrow> v | d # _ \<Rightarrow> take (length v - length d) v)"

text \<open>A full match of \<open>_SIMPLE_NUMBER_RE\<close> and its exact value.\<close>

definition decimal_value :: "string \<Rightarrow> string \<Rightarrow> rat" where
  "decimal_value whole fraction = of_nat (int_of_decimal whole) + of_nat (int_of_decimal fraction) / 10 ^ length fraction"

definition unsigned_decimal :: "string \<Rightarrow> rat option" where
  "unsigned_decimal s =
     (let whole = takeWhile is_digit s; rest = dropWhile is_digit s
      in case rest of
        [] \<Rightarrow> if whole \<noteq> [] then Some (decimal_value whole []) else None
      | c # fraction \<Rightarrow>
          if c = CHR ''.'' \<and> list_all is_digit fraction \<and> (whole \<noteq> [] \<or> fraction \<noteq> [])
          then Some (decimal_value whole fraction) else None)"

definition parse_decimal :: "string \<Rightarrow> rat option" where
  "parse_decimal s = (case s of
       [] \<Rightarrow> None
     | c # r \<Rightarrow> if c = CHR ''-'' then map_option uminus (unsigned_decimal r)
               else if c = CHR ''+'' then unsigned_decimal r else unsigned_decimal s)"

definition simple_number :: "string \<Rightarrow> rat option" where
  "simple_number s = parse_decimal (remove_degree (remove_all '','' (remove_all '' '' (strip_answer_wrappers s))))"

section \<open>Grading\<close>

definition dollars :: "string \<Rightarrow> string" where
  "dollars s = (if CHR ''$'' \<in> set s then s else ''$'' @ s @ ''$'')"

text \<open>The argument \<open>math_verify\<close> is \<open>None\<close> when the package is missing; its function takes the
  ground truth and the prediction, and returns \<open>None\<close> when parsing or verifying raises.\<close>

definition grade_boxed_answer ::
  "(string \<Rightarrow> string \<Rightarrow> bool option) option \<Rightarrow> string option \<Rightarrow> string \<Rightarrow> bool res" where
  "grade_boxed_answer math_verify predicted ground_truth = (case predicted of
       None \<Rightarrow> Inr False
     | Some p \<Rightarrow>
         (case (simple_number p, simple_number ground_truth) of
           (Some a, Some b) \<Rightarrow> Inr (a = b)
         | _ \<Rightarrow> (case math_verify of
             None \<Rightarrow> Inl (ModuleNotFoundError ''math_verify is required for VERPO_CONTRASTIVE-aligned grading'')
           | Some verify \<Rightarrow> (case verify (dollars ground_truth) (dollars p) of
               Some b \<Rightarrow> Inr b
             | None \<Rightarrow> Inr (normalize_fallback_string p = normalize_fallback_string ground_truth)))))"

section \<open>The format gate\<close>

definition mcq_styles :: "string list" where
  "mcq_styles = [''mcq'', ''science'', ''sciknoweval'', ''biology'', ''chemistry'', ''material'', ''physics'']"

definition tooluse_styles :: "string list" where
  "tooluse_styles = [''tooluse'', ''tool_use'', ''toolalpaca'']"

text \<open>\<open><answer>\s*(A|B|C|D)\s*</answer>$\<close> at one position; \<open>$\<close> also matches before a final line
  feed.\<close>

definition mcq_at :: "string \<Rightarrow> bool" where
  "mcq_at s \<longleftrightarrow> prefix ''<answer>'' s \<and> (case dropWhile is_space (drop 8 s) of
       [] \<Rightarrow> False
     | c # r \<Rightarrow> c \<in> set ''ABCD'' \<and> dropWhile is_space r \<in> {''</answer>'', ''</answer>'' @ nl})"

definition tooluse_at :: "string \<Rightarrow> bool" where
  "tooluse_at s \<longleftrightarrow> prefix ''Action:'' s \<and> sublist (nl @ ''Action Input:'') (drop 7 s)"

definition search_at :: "(string \<Rightarrow> bool) \<Rightarrow> string \<Rightarrow> bool" where
  "search_at p s \<longleftrightarrow> list_ex p (suffixes s)"

text \<open>The style of a reward model that is not a dictionary, or has none, is empty.\<close>

definition is_sdpo_candidate_format_valid :: "string \<Rightarrow> string \<Rightarrow> bool res" where
  "is_sdpo_candidate_format_valid s model_style =
     (let style = lower (strip model_style) in
      if style \<in> set mcq_styles then Inr (search_at mcq_at s)
      else if style \<in> set tooluse_styles then Inr (search_at tooluse_at s)
      else Inl (ValueError ''Unsupported SDPO reward_model.style for format validation''))"

end
