(* ===== verification/TeacherFields.thy ===== *)
theory TeacherFields
  imports Grading Evidence
begin

text \<open>
  The Teacher inputs of \<open>verl/trainer/distillation/verpo_protocol.py\<close>: the chat-template options,
  the budgeted contrastive prompt, the reference-solution branch and the rollout-evidence branches.
  Nested tensors are lists of rows; the tokenizer is a record of functions.
\<close>

section \<open>Tokenizer and template options\<close>

record tmpl_kwargs =
  tk_enable_thinking :: "bool option"
  tk_rest :: "(string \<times> string) list"

definition resolve_chat_template_kwargs :: "tmpl_kwargs option \<Rightarrow> bool option \<Rightarrow> tmpl_kwargs res" where
  "resolve_chat_template_kwargs kwargs enable_thinking =
     (let resolved = (case kwargs of None \<Rightarrow> \<lparr>tk_enable_thinking = None, tk_rest = []\<rparr> | Some k \<Rightarrow> k) in
      case enable_thinking of
        None \<Rightarrow> Inr resolved
      | Some b \<Rightarrow> (case tk_enable_thinking resolved of
          None \<Rightarrow> Inr (resolved\<lparr>tk_enable_thinking := Some b\<rparr>)
        | Some b' \<Rightarrow> if b' \<noteq> b then Inl (ValueError ''Conflicting enable_thinking chat-template settings'')
                    else Inr resolved))"

record tokenizer =
  tz_apply :: "tmpl_kwargs \<Rightarrow> message list \<Rightarrow> string"
  tz_apply_ids :: "tmpl_kwargs \<Rightarrow> raw_prompt \<Rightarrow> int list"
  tz_encode :: "string \<Rightarrow> int list"
  tz_decode :: "int list \<Rightarrow> string"

section \<open>The budgeted contrastive prompt\<close>

definition truncated_candidate :: "tokenizer \<Rightarrow> string \<Rightarrow> int list \<Rightarrow> int \<Rightarrow> string" where
  "truncated_candidate tz candidate candidate_ids keep =
     (if int (length candidate_ids) \<le> keep then candidate
      else let head_tokens = nat ((keep + 1) div 2); tail_tokens = nat (keep div 2);
               head = tz_decode tz (take head_tokens candidate_ids);
               tail = (if tail_tokens = 0 then []
                       else tz_decode tz (drop (length candidate_ids - tail_tokens) candidate_ids))
           in strip (head @ truncated_marker @ tail))"

text \<open>The binary search for the longest prompt within the budget.\<close>

function bisect_prompt :: "(int \<Rightarrow> int list res) \<Rightarrow> int \<Rightarrow> int \<Rightarrow> int \<Rightarrow> int list \<Rightarrow> int list res" where
  "bisect_prompt render budget low high best =
     (if high < low then Inr best
      else let keep = (low + high) div 2 in
        rbind (render keep) (\<lambda>prompt_ids.
          if int (length prompt_ids) \<le> budget then bisect_prompt render budget (keep + 1) high prompt_ids
          else bisect_prompt render budget low (keep - 1) best))"
  by pat_completeness auto
termination by (relation "measure (\<lambda>(_, _, low, high, _). nat (high - low + 1))") auto

declare bisect_prompt.simps [simp del]

definition render_candidate ::
  "tokenizer \<Rightarrow> tmpl_kwargs \<Rightarrow> string \<Rightarrow> raw_prompt option \<Rightarrow> string \<Rightarrow> string \<Rightarrow> int list res" where
  "render_candidate tz kwargs problem raw_prompt template_variant candidate =
     rbind (build_contrastive_teacher_messages problem candidate raw_prompt template_variant) (\<lambda>messages.
       Inr (tz_encode tz (tz_apply tz kwargs messages)))"

definition budget_contrastive_teacher_prompt ::
  "tokenizer \<Rightarrow> tmpl_kwargs \<Rightarrow> string \<Rightarrow> string \<Rightarrow> int \<Rightarrow> raw_prompt option \<Rightarrow> string \<Rightarrow> (int list \<times> nat \<times> nat) res" where
  "budget_contrastive_teacher_prompt tz kwargs problem candidate max_prompt_tokens raw_prompt template_variant =
     (if max_prompt_tokens \<le> 0 then Inl (ValueError ''Contrastive Teacher prompt has no token budget'')
      else let render = render_candidate tz kwargs problem raw_prompt template_variant in
        rbind (render candidate) (\<lambda>full_prompt_ids.
        if int (length full_prompt_ids) \<le> max_prompt_tokens
        then Inr (full_prompt_ids, length full_prompt_ids, length full_prompt_ids)
        else let candidate_ids = tz_encode tz candidate; render_kept = (\<lambda>keep. render (truncated_candidate tz candidate candidate_ids keep))
        in rbind (render_kept 0) (\<lambda>minimal_prompt_ids.
        if max_prompt_tokens < int (length minimal_prompt_ids)
        then Inl (ValueError ''Fixed contrastive Teacher problem/template plus the exact sampled suffix exceeds the Teacher token budget; refusing to truncate the problem'')
        else rbind (bisect_prompt render_kept max_prompt_tokens 0 (int (length candidate_ids)) minimal_prompt_ids) (\<lambda>best.
          Inr (best, length full_prompt_ids, length best)))))"

section \<open>Rows of Teacher inputs\<close>

record teacher_rows =
  tr_input_ids :: "int list list"
  tr_position_ids :: "nat list list"
  tr_prompt_lengths :: "nat list"

record teacher_row =
  to_ids :: "int list"
  to_kept :: nat
  to_before :: nat
  to_after :: nat

definition rows_of_teacher :: "teacher_row list \<Rightarrow> teacher_rows" where
  "rows_of_teacher rs = \<lparr>tr_input_ids = map to_ids rs, tr_position_ids = map (\<lambda>r. [0..<length (to_ids r)]) rs,
     tr_prompt_lengths = map to_kept rs\<rparr>"

text \<open>The token budget of a prompt, given its sampled response.\<close>

definition prompt_budget :: "int \<Rightarrow> int \<Rightarrow> int list \<Rightarrow> int res" where
  "prompt_budget total_token_budget max_reprompt_tokens response_ids =
     (if response_ids = [] then Inl (ValueError ''empty response; VERPO requires a sampled completion'')
      else if total_token_budget \<le> int (length response_ids)
      then Inl (ValueError ''response exceeds the Teacher budget'')
      else let max_prompt_tokens = total_token_budget - int (length response_ids)
           in Inr (if 0 < max_reprompt_tokens then min max_prompt_tokens max_reprompt_tokens else max_prompt_tokens))"

definition combine_row :: "int list \<Rightarrow> int list \<Rightarrow> nat \<Rightarrow> nat \<Rightarrow> teacher_row res" where
  "combine_row prompt_ids response_ids before after =
     (let combined = prompt_ids @ response_ids
      in if drop (length combined - length response_ids) combined \<noteq> response_ids
         then Inl (AssertionError ''Teacher completion suffix changed during construction'')
         else Inr \<lparr>to_ids = combined, to_kept = length prompt_ids, to_before = before, to_after = after\<rparr>)"

definition as_plain_list :: "'a list \<Rightarrow> nat \<Rightarrow> string \<Rightarrow> 'a list res" where
  "as_plain_list values expected name =
     (if length values \<noteq> expected then Inl (ValueError (name @ '' has an unexpected number of rows'')) else Inr values)"

section \<open>The reference-solution branch\<close>

text \<open>What is read of \<open>reward_model\<close> and \<open>extra_info\<close>; an entry that is not a dictionary reads as
  the empty one. The ground truth is given by its \<open>str\<close>.\<close>

record reward_model =
  rm_ground_truth :: string
  rm_style :: string

record extra_info =
  xi_problem :: content
  xi_solution :: content
  xi_template :: string

definition evidence_row ::
  "tokenizer \<Rightarrow> tmpl_kwargs \<Rightarrow> (string \<Rightarrow> string) \<Rightarrow> int \<Rightarrow> int \<Rightarrow> int list \<Rightarrow> raw_prompt \<Rightarrow> reward_model \<Rightarrow> extra_info
    \<Rightarrow> teacher_row res" where
  "evidence_row tz kwargs split_sdpg budget max_reprompt response_ids raw_prompt reward extra =
     (let problem = strip (content_to_text (xi_problem extra));
          problem = (if problem = [] then raw_prompt_to_problem split_sdpg raw_prompt else problem);
          solution = strip (content_to_text (xi_solution extra))
      in rbind (if xi_template extra = sdpo_template_id then build_sdpo_teacher_messages raw_prompt solution
                else if xi_template extra = reference_template_id
                then build_teacher_messages problem (rm_ground_truth reward) solution
                else Inl (ValueError ''Unsupported Teacher prompt template'')) (\<lambda>messages.
         let prompt_ids = tz_encode tz (tz_apply tz kwargs messages)
         in rbind (prompt_budget budget max_reprompt response_ids) (\<lambda>max_prompt_tokens.
            let kept = drop (length prompt_ids - nat max_prompt_tokens) prompt_ids
            in combine_row kept response_ids (length prompt_ids) (length kept))))"

text \<open>The truncation metrics of a batch.\<close>

record prompt_metrics =
  pm_truncated :: "bool list"
  pm_truncated_tokens :: "int list"
  pm_before :: "nat list"
  pm_after :: "nat list"

definition truncation :: "teacher_row \<Rightarrow> int" where
  "truncation r = int (to_before r) - int (to_after r)"

definition evidence_metrics :: "teacher_row list \<Rightarrow> prompt_metrics" where
  "evidence_metrics rows = \<lparr>pm_truncated = map (\<lambda>r. 0 < truncation r) rows, pm_truncated_tokens = map truncation rows,
     pm_before = map to_before rows, pm_after = map to_kept rows\<rparr>"

definition build_evidence_teacher_fields ::
  "tokenizer \<Rightarrow> (string \<Rightarrow> string) \<Rightarrow> bool \<Rightarrow> int list list \<Rightarrow> raw_prompt list \<Rightarrow> reward_model list \<Rightarrow> extra_info list \<Rightarrow> int
    \<Rightarrow> int \<Rightarrow> tmpl_kwargs option \<Rightarrow> bool option \<Rightarrow> (teacher_rows \<times> prompt_metrics) res" where
  "build_evidence_teacher_fields tz split_sdpg nested responses raw_prompts reward_models extra_infos budget max_reprompt
      kwargs enable_thinking =
     rbind (resolve_chat_template_kwargs kwargs enable_thinking) (\<lambda>kwargs.
     if \<not> nested then Inl (ValueError ''VERPO evidence construction requires nested response tensors'')
     else let n = length responses in
       rbind (as_plain_list raw_prompts n ''raw_prompt'') (\<lambda>raw_prompt_rows.
       rbind (as_plain_list reward_models n ''reward_model'') (\<lambda>reward_rows.
       rbind (as_plain_list extra_infos n ''extra_info'') (\<lambda>extra_rows.
       rbind (rmap (\<lambda>i. evidence_row tz kwargs split_sdpg budget max_reprompt (responses ! i) (raw_prompt_rows ! i)
           (reward_rows ! i) (extra_rows ! i)) [0..<n]) (\<lambda>rows.
         Inr (rows_of_teacher rows, evidence_metrics rows))))))"

section \<open>The rollout-evidence branches\<close>

definition branch_row ::
  "tokenizer \<Rightarrow> tmpl_kwargs \<Rightarrow> (string \<Rightarrow> string) \<Rightarrow> int \<Rightarrow> int \<Rightarrow> string \<Rightarrow> int list \<Rightarrow> raw_prompt \<Rightarrow> string
    \<Rightarrow> teacher_row res" where
  "branch_row tz kwargs split_sdpg budget max_reprompt template_variant response_ids raw_prompt candidate =
     (let problem = raw_prompt_to_problem split_sdpg raw_prompt in
      rbind (prompt_budget budget max_reprompt response_ids) (\<lambda>max_prompt_tokens.
      rbind (if candidate \<noteq> []
             then budget_contrastive_teacher_prompt tz kwargs problem candidate max_prompt_tokens (Some raw_prompt)
                    template_variant
             else let prompt_ids = tz_apply_ids tz kwargs raw_prompt
               in if max_prompt_tokens < int (length prompt_ids)
                  then Inl (ValueError ''Original prompt exceeds unavailable-branch budget'')
                  else Inr (prompt_ids, length prompt_ids, length prompt_ids))
        (\<lambda>(prompt_ids, before, after). combine_row prompt_ids response_ids before after)))"

definition build_branch ::
  "tokenizer \<Rightarrow> tmpl_kwargs \<Rightarrow> (string \<Rightarrow> string) \<Rightarrow> int \<Rightarrow> int \<Rightarrow> string \<Rightarrow> int list list \<Rightarrow> raw_prompt list \<Rightarrow> string list
    \<Rightarrow> teacher_row list res" where
  "build_branch tz kwargs split_sdpg budget max_reprompt template_variant responses raw_prompts candidates =
     rmap (\<lambda>i. branch_row tz kwargs split_sdpg budget max_reprompt template_variant (responses ! i) (raw_prompts ! i)
       (candidates ! i)) [0..<length responses]"

text \<open>The text of the selected row, empty when there is none.\<close>

definition candidate_text :: "string list \<Rightarrow> int \<Rightarrow> string" where
  "candidate_text texts i = (if 0 \<le> i then texts ! nat i else [])"

definition candidate_format_valid :: "bool \<Rightarrow> string \<Rightarrow> string \<Rightarrow> bool res" where
  "candidate_format_valid allow_unboxed s style =
     (if allow_unboxed then Inr (s \<noteq> [])
      else if style \<in> set (mcq_styles @ tooluse_styles) then is_sdpo_candidate_format_valid s style
      else Inr (extract_boxed_answer (Some s) \<noteq> None))"

definition contrastive_metrics :: "teacher_row list list \<Rightarrow> nat \<Rightarrow> prompt_metrics" where
  "contrastive_metrics branches n =
     (let truncated = map (\<lambda>i. foldr max (map (\<lambda>b. truncation (b ! i)) (tl branches)) (truncation (hd branches ! i))) [0..<n]
      in \<lparr>pm_truncated = map (\<lambda>v. 0 < v) truncated, pm_truncated_tokens = truncated,
          pm_before = map (\<lambda>i. foldr max (map (\<lambda>b. to_before (b ! i)) (tl branches)) (to_before (hd branches ! i))) [0..<n],
          pm_after = map (\<lambda>i. foldr min (map (\<lambda>b. to_after (b ! i)) (tl branches)) (to_after (hd branches ! i))) [0..<n]\<rparr>)"

record contrastive_args =
  ca_total_token_budget :: int
  ca_max_reprompt_tokens :: int
  ca_num_negative_hints :: int
  ca_require_negative :: bool
  ca_selection_mode :: string
  ca_kwargs :: "tmpl_kwargs option"
  ca_enable_thinking :: "bool option"
  ca_allow_unboxed :: bool

record contrastive_fields =
  cf_selection :: evidence_selection
  cf_format_valid :: "bool list"
  cf_positive :: teacher_rows
  cf_negative :: "teacher_rows list"
  cf_evidence :: "teacher_rows option"
  cf_metrics :: prompt_metrics

text \<open>The checks before the selection: the correctness flags and the decoded, stripped responses.\<close>

definition check_contrastive ::
  "contrastive_args \<Rightarrow> bool \<Rightarrow> nat \<Rightarrow> raw_prompt list \<Rightarrow> real list \<Rightarrow> bool list option \<Rightarrow> string list \<Rightarrow> unit res" where
  "check_contrastive A nested n raw_prompts rewards correctness uids =
     (if \<not> nested then Inl (ValueError ''VERPO contrastive construction requires nested response tensors'')
      else if ca_num_negative_hints A \<le> 0 then Inl (ValueError ''num_negative_hints must be positive'')
      else rbind (as_plain_list raw_prompts n ''raw_prompt'') (\<lambda>_.
        rbind (as_plain_list uids n ''uid'') (\<lambda>_.
          if length rewards \<noteq> n then Inl (ValueError ''rewards must have one value per response'')
          else if ca_selection_mode A \<noteq> ''correctness'' \<and> ca_selection_mode A \<noteq> ''reward_ranked''
          then Inl (ValueError ''selection_mode must be correctness or reward_ranked'')
          else if ca_selection_mode A = ''correctness'' \<and> correctness = None
          then Inl (ValueError ''selection_mode=correctness requires independent per-rollout correctness'')
          else Inr ())))"

text \<open>The selection and the branches of the positive and the negative Teachers.\<close>

definition evidence_branches ::
  "tokenizer \<Rightarrow> tmpl_kwargs \<Rightarrow> (string \<Rightarrow> string) \<Rightarrow> contrastive_args \<Rightarrow> int list list \<Rightarrow> raw_prompt list
    \<Rightarrow> string list \<Rightarrow> string list \<Rightarrow> bool list \<Rightarrow> bool list \<Rightarrow> string list \<Rightarrow> contrastive_fields res" where
  "evidence_branches tz kwargs split_sdpg A responses raw_prompts uids stable_ids correct format_valid texts =
     rbind (select_rollout_evidence uids stable_ids correct format_valid texts (ca_require_negative A)
         (ca_num_negative_hints A)) (\<lambda>selection.
     let branch = (\<lambda>template candidates. build_branch tz kwargs split_sdpg (ca_total_token_budget A)
           (ca_max_reprompt_tokens A) template responses raw_prompts candidates) in
     rbind (branch sdpo_template_id (map (candidate_text texts) (es_positive selection))) (\<lambda>positive.
     rbind (if ca_require_negative A
         then rmap (\<lambda>k. branch candidate_hint_template_id (map (\<lambda>is. candidate_text texts (is ! k)) (es_negative selection)))
           [0..<nat (ca_num_negative_hints A)]
         else Inr []) (\<lambda>negative.
       Inr \<lparr>cf_selection = selection, cf_format_valid = format_valid, cf_positive = rows_of_teacher positive,
         cf_negative = map rows_of_teacher negative,
         cf_evidence = (if ca_require_negative A then None else Some (rows_of_teacher positive)),
         cf_metrics = contrastive_metrics (positive # negative) (length responses)\<rparr>)))"

definition build_contrastive_evidence_teacher_fields ::
  "tokenizer \<Rightarrow> (string \<Rightarrow> string) \<Rightarrow> (nat \<Rightarrow> string) \<Rightarrow> contrastive_args \<Rightarrow> bool \<Rightarrow> int list list \<Rightarrow> raw_prompt list
    \<Rightarrow> real list \<Rightarrow> bool list option \<Rightarrow> string list \<Rightarrow> reward_model list option \<Rightarrow> string list option
    \<Rightarrow> contrastive_fields res" where
  "build_contrastive_evidence_teacher_fields tz split_sdpg str_nat A nested responses raw_prompts rewards correctness uids
      reward_models rollout_ids =
     rbind (resolve_chat_template_kwargs (ca_kwargs A) (ca_enable_thinking A)) (\<lambda>kwargs.
     let n = length responses in
     rbind (check_contrastive A nested n raw_prompts rewards correctness uids) (\<lambda>_.
     let texts = map (\<lambda>r. strip (tz_decode tz r)) responses in
     rbind (case reward_models of None \<Rightarrow> Inr (replicate n \<lparr>rm_ground_truth = [], rm_style = []\<rparr>)
       | Some ms \<Rightarrow> as_plain_list ms n ''reward_model'') (\<lambda>models.
     rbind (rmap (\<lambda>(s, m). candidate_format_valid (ca_allow_unboxed A) s (rm_style m)) (zip texts models)) (\<lambda>format_valid.
     rbind (case correctness of None \<Rightarrow> Inr (replicate n False)
       | Some c \<Rightarrow> if length c \<noteq> n then Inl (ValueError ''correctness must have one value per response'') else Inr c) (\<lambda>correct.
     if ca_selection_mode A \<noteq> ''correctness''
     then Inl (ValueError ''rollout_group evidence requires verifier correctness, not reward ranking'')
     else let stable_ids = (case rollout_ids of Some ids \<Rightarrow> ids
         | None \<Rightarrow> map (\<lambda>i. uids ! i @ ''_'' @ str_nat i) [0..<n]) in
     evidence_branches tz kwargs split_sdpg A responses raw_prompts uids stable_ids correct format_valid texts)))))"

end
