(* ===== verification/ProtocolProps.thy ===== *)
theory ProtocolProps
  imports TeacherFields EvidenceProps
begin

text \<open>
  The properties of the VERPO protocol: answer extraction and grading, the official prompt, the
  token budget of Teacher prompts, and the rollout-evidence branches.
\<close>

section \<open>Extracting the boxed answer\<close>

text \<open>The brace depth after a string, when it never falls below zero.\<close>

fun braces :: "nat \<Rightarrow> string \<Rightarrow> nat option" where
  "braces k [] = Some k"
| "braces k (c # s) = (if c = CHR ''{'' then braces (Suc k) s
     else if c = CHR ''}'' then (case k of 0 \<Rightarrow> None | Suc j \<Rightarrow> braces j s) else braces k s)"

definition balanced :: "string \<Rightarrow> bool" where
  "balanced s \<longleftrightarrow> braces 0 s = Some 0"

lemma match_brace_inside:
  "braces k s = Some k' \<Longrightarrow> match_brace (1 + int k) cursor (s @ t) = match_brace (1 + int k') (cursor + length s) t"
proof (induction s arbitrary: k cursor)
  case (Cons c s)
  show ?case
  proof (cases "c = CHR ''}''")
    case True
    then obtain j where "k = Suc j" using Cons.prems by (cases k) auto
    then show ?thesis using Cons True by (simp add: add.commute)
  next
    case False
    then show ?thesis using Cons.IH [of "Suc k"] Cons.IH [of k] Cons.prems by (auto simp: algebra_simps)
  qed
qed simp

lemma last_filter_upt:
  assumes "P i" "i < n" "\<And>j. i < j \<Longrightarrow> j < n \<Longrightarrow> \<not> P j"
  shows "filter P [0..<n] \<noteq> [] \<and> last (filter P [0..<n]) = i"
proof -
  have "[0..<n] = [0..<i] @ i # [Suc i..<n]"
    using assms(2) by (metis upt_add_eq_append upt_conv_Cons le_add_diff_inverse less_imp_le_nat zero_le add_0)
  moreover have "filter P [Suc i..<n] = []" using assms(3) by (auto simp: filter_empty_conv)
  ultimately show ?thesis using assms(1) by simp
qed

lemma prefix_drop_sublist: "prefix p (drop j s) \<Longrightarrow> sublist p s"
  unfolding prefix_def sublist_def by (metis append_take_drop_id)

lemma rfind_last:
  assumes "\<not> sublist pat (tl (pat @ t))" "pat \<noteq> []"
  shows "rfind pat (a @ pat @ t) = Some (length a)"
proof -
  let ?s = "a @ pat @ t"
  have later: "\<not> prefix pat (drop j ?s)" if "length a < j" for j
  proof
    assume "prefix pat (drop j ?s)"
    moreover have "drop j ?s = drop (j - Suc (length a)) (tl (pat @ t))"
      using that by (simp add: drop_Suc [symmetric] Suc_diff_Suc)
    ultimately have "sublist pat (tl (pat @ t))"
      using prefix_drop_sublist by metis
    then show False using assms(1) by simp
  qed
  have "filter (\<lambda>i. prefix pat (drop i ?s)) [0..<Suc (length ?s)] \<noteq> []
      \<and> last (filter (\<lambda>i. prefix pat (drop i ?s)) [0..<Suc (length ?s)]) = length a"
    by (rule last_filter_upt) (use later in auto)
  then show ?thesis unfolding rfind_def Let_def by (simp only: if_False conjunct1 conjunct2)
qed

lemma boxed_tag_facts:
  "boxed_tag \<noteq> []" "length boxed_tag = 6" "match_brace 0 cursor (boxed_tag @ CHR ''{'' # t) = match_brace 1 (cursor + 7) t"
  by (simp_all add: boxed_tag_def backslash_def eval_nat_numeral)

lemma no_tag_inside:
  assumes "\<not> sublist boxed_tag t"
  shows "\<not> sublist boxed_tag (tl (boxed_tag @ CHR ''{'' # t))"
  using assms by (simp add: boxed_tag_def backslash_def sublist_Cons_right)

lemma extract_boxed:
  assumes bal: "balanced s" and later: "\<not> sublist boxed_tag (s @ ''}'' @ rest)"
  shows "extract_boxed_answer (Some (before @ boxed_tag @ ''{'' @ s @ ''}'' @ rest)) = Some (strip s)"
proof -
  let ?t = "before @ boxed_tag @ ''{'' @ s @ ''}'' @ rest"
  have find: "rfind boxed_tag ?t = Some (length before)"
    using rfind_last [of boxed_tag "''{'' @ s @ ''}'' @ rest" before] no_tag_inside [OF later] boxed_tag_facts(1) by simp
  have right: "match_brace 0 (length before) (drop (length before) ?t) = Some (length before + 7 + length s)"
    using match_brace_inside [OF bal [unfolded balanced_def], of "length before + 7" "CHR ''}'' # rest"]
    by (simp add: boxed_tag_facts)
  have boxed: "take (Suc (length before + 7 + length s) - length before) (drop (length before) ?t) = boxed_tag @ ''{'' @ s @ ''}''"
    by (simp add: boxed_tag_facts)
  have "strip (take (length (boxed_tag @ ''{'' @ s @ ''}'') - 8) (drop 7 (boxed_tag @ ''{'' @ s @ ''}''))) = strip s"
    by (simp add: boxed_tag_facts)
  moreover have "prefix (boxed_tag @ ''{'') (boxed_tag @ ''{'' @ s @ ''}'')" "suffix ''}'' (boxed_tag @ ''{'' @ s @ ''}'')"
    by (simp_all add: suffix_def)
  ultimately show ?thesis
    unfolding extract_boxed_answer_def find right boxed option.case Let_def by simp
qed

text \<open>\<open>extract_boxed_answer\<close> reads back what was boxed: after any text, the stripped content of
  a \<open>\boxed{...}\<close> whose braces balance is returned, nested braces included, provided no later
  \<open>\boxed\<close> occurs.\<close>

theorem boxed_roundtrip:
  assumes bal: "balanced s" and later: "\<not> sublist boxed_tag (s @ ''}'' @ rest)"
  shows "extract_boxed_answer (Some (before @ boxed_tag @ ''{'' @ s @ ''}'' @ rest)) = Some (strip s)"
  by (rule extract_boxed [OF bal later])

theorem boxed_roundtrip_witness:
  "extract_boxed_answer (Some (''so '' @ boxed_tag @ ''{'' @ ''1{2} '' @ ''}'' @ ''.'')) = Some ''1{2}''"
proof -
  have "balanced ''1{2} ''" by (simp add: balanced_def)
  moreover have "\<not> sublist boxed_tag (''1{2} '' @ ''}'' @ ''.'')"
    by (simp add: boxed_tag_def backslash_def sublist_Cons_right)
  ultimately show ?thesis
    using boxed_roundtrip [of "''1{2} ''" "''.''" "''so ''"] by (simp add: strip_def is_space_def)
qed

section \<open>The official prompt\<close>

definition official :: "string \<Rightarrow> bool" where
  "official q \<longleftrightarrow> q \<noteq> [] \<and> strip q = q \<and> \<not> suffix (newline # newline # boxed_instruction) q
     \<and> \<not> suffix (newline # newline # legacy_boxed_instruction) q \<and> \<not> prefix problem_prefix q
     \<and> \<not> sublist ''[TEACHER_CONTEXT_TOKEN]'' q"

lemma strip_instruction_id: "\<not> suffix (newline # newline # i) s \<Longrightarrow> strip_instruction i s = s"
  by (subst strip_instruction.simps) (simp add: Let_def)

lemma strip_instruction_once:
  assumes "strip s = s" "\<not> suffix (newline # newline # i) s"
  shows "strip_instruction i (s @ newline # newline # i) = s"
proof -
  have "suffix (newline # newline # i) (s @ newline # newline # i)" by (simp add: suffix_def)
  then have "strip_instruction i (s @ newline # newline # i) = strip_instruction i s"
    using assms(1) by (subst strip_instruction.simps) (simp add: Let_def)
  then show ?thesis using strip_instruction_id [OF assms(2)] by simp
qed

lemma sublist_outside:
  assumes "c \<notin> set pat" "pat \<noteq> []"
  shows "sublist pat (xs @ c # ys) \<longleftrightarrow> sublist pat xs \<or> sublist pat ys"
proof
  assume "sublist pat (xs @ c # ys)"
  then obtain u v where uv: "xs @ c # ys = u @ pat @ v" by (auto simp: sublist_def)
  then consider (l) w where "xs = u @ pat @ w" | (r) w where "ys = w @ pat @ v"
    using assms
  proof (cases "length (u @ pat) \<le> length xs")
    case True
    then have "u @ pat = take (length (u @ pat)) xs" using arg_cong [OF uv, of "take (length (u @ pat))"] by simp
    then have "xs = u @ pat @ drop (length (u @ pat)) xs" by (metis append_assoc append_take_drop_id)
    then show ?thesis by (rule that(1))
  next
    case False
    then have n: "length xs < length u + length pat" by simp
    have at: "(u @ pat @ v) ! length xs = c" using uv by (metis nth_append_length)
    have "length xs < length u"
    proof (rule ccontr)
      assume "\<not> length xs < length u"
      then have "(u @ pat @ v) ! length xs = pat ! (length xs - length u)" "length xs - length u < length pat"
        using n by (auto simp: nth_append)
      then show False using at assms(1) nth_mem by metis
    qed
    then have "ys = drop (Suc (length xs)) u @ pat @ v"
      using arg_cong [OF uv, of "drop (Suc (length xs))"] by simp
    then show ?thesis by (rule that(2))
  qed
  then show "sublist pat xs \<or> sublist pat ys" by cases (auto simp: sublist_def)
next
  assume "sublist pat xs \<or> sublist pat ys"
  then show "sublist pat (xs @ c # ys)"
    by (metis sublist_appendI sublist_append_leftI sublist_append_rightI sublist_Cons_right sublist_order.order_trans)
qed

lemma suffix_outside:
  assumes "\<not> suffix (c # s) q" "c \<notin> set p"
  shows "\<not> suffix (c # s) (p @ q)"
proof
  assume "suffix (c # s) (p @ q)"
  then have "suffix (c # s) q \<or> (\<exists>us. suffix us p \<and> c # s = us @ q \<and> us \<noteq> [])"
    by (auto simp: suffix_append)
  then obtain us where "suffix us p" "c # s = us @ q" "us \<noteq> []" using assms(1) by blast
  then have "c \<in> set p" by (cases us) (auto simp: suffix_def)
  then show False using assms(2) by simp
qed

lemma newline_code: "newline = CHR 0x0A"
  by (simp add: newline_def char_of_def bit_iff_odd)

lemma prefix_facts:
  "newline \<notin> set problem_prefix" "problem_prefix = ''Problem:'' @ CHR '' '' # []" "newline \<notin> set ''[TEACHER_CONTEXT_TOKEN]''"
  "\<not> sublist ''[TEACHER_CONTEXT_TOKEN]'' ''Problem:''" "\<not> sublist ''[TEACHER_CONTEXT_TOKEN]'' boxed_instruction"
  "boxed_instruction \<noteq> []" "\<not> is_space (last boxed_instruction)" "\<not> is_space (hd problem_prefix)"
  by (simp_all add: problem_prefix_def newline_code boxed_instruction_def backslash_def is_space_def sublist_Cons_right)

lemma official_content:
  assumes "official q" and pre: "pre = [] \<or> pre = problem_prefix"
  shows "strip_official_math_prompt (pre @ q @ nl @ nl @ boxed_instruction) = q"
    and "\<not> sublist ''[TEACHER_CONTEXT_TOKEN]'' (pre @ q @ nl @ nl @ boxed_instruction)"
proof -
  let ?b = "newline # newline # boxed_instruction"
  have q: "q \<noteq> []" "strip q = q" "\<not> suffix ?b q" "\<not> suffix (newline # newline # legacy_boxed_instruction) q"
    "\<not> prefix problem_prefix q" "\<not> sublist ''[TEACHER_CONTEXT_TOKEN]'' q"
    using assms(1) by (simp_all add: official_def)
  have ends: "\<not> is_space (hd q)" "\<not> is_space (last q)" using strip_ends [of q] q by simp_all
  have hd: "\<not> is_space (hd (pre @ q))" "\<not> is_space (hd (pre @ q @ s))" for s
    using pre ends(1) q(1) prefix_facts(8) by (auto simp: problem_prefix_def)
  have n: "newline \<notin> set pre" using pre prefix_facts(1) by auto
  have stripped: "strip (pre @ q) = pre @ q" by (rule strip_id) (use hd(1) ends(2) q(1) in simp)
  have content: "strip (pre @ q @ ?b) = pre @ q @ ?b"
    by (rule strip_id) (use hd(2) [of ?b] prefix_facts(6,7) q(1) in simp)
  have "strip_instruction boxed_instruction (pre @ q @ ?b) = pre @ q"
    using strip_instruction_once [OF stripped suffix_outside [OF q(3) n]] by simp
  moreover have "strip_instruction legacy_boxed_instruction (pre @ q) = pre @ q"
    by (rule strip_instruction_id) (rule suffix_outside [OF q(4) n])
  moreover have "(if prefix problem_prefix (pre @ q) then strip (drop (length problem_prefix) (pre @ q)) else pre @ q) = q"
    using pre q(2,5) by auto
  ultimately show "strip_official_math_prompt (pre @ q @ nl @ nl @ boxed_instruction) = q"
    by (simp add: strip_official_math_prompt_def nl_def content)
  have "\<not> sublist ''[TEACHER_CONTEXT_TOKEN]'' (pre @ q)"
    using pre q(6) sublist_outside [of "CHR '' ''" "''[TEACHER_CONTEXT_TOKEN]''" "''Problem:''" q] prefix_facts(4)
    by (auto simp: prefix_facts(2))
  then show "\<not> sublist ''[TEACHER_CONTEXT_TOKEN]'' (pre @ q @ nl @ nl @ boxed_instruction)"
    using sublist_outside [OF prefix_facts(3), of "pre @ q" "newline # boxed_instruction"]
      sublist_outside [OF prefix_facts(3), of "[]" boxed_instruction] prefix_facts(5)
    by (simp add: nl_def)
qed

text \<open>the official prompt round-trips: the problem that \<open>build_rollout_messages\<close> puts into the
  Student message, with or without the \<open>Problem: \<close> prefix of its data source, is the one
  \<open>raw_prompt_to_problem\<close> recovers, whenever it is non-empty and does not itself end in a boxed
  instruction, start with the prefix or contain the token of the other prompt format.\<close>

theorem official_prompt_roundtrip:
  assumes "official (strip_official_math_prompt p)"
  shows "raw_prompt_to_problem split_sdpg (RList (map MDict (build_rollout_messages p data_source)))
    = strip_official_math_prompt p"
  using official_content [OF assms]
  by (auto simp: build_rollout_messages_def raw_prompt_to_problem_def Let_def message_text_def the_message_def
      is_dict_def user_message_def content_to_text_def)

lemma no_instruction: "newline \<notin> set s \<Longrightarrow> \<not> suffix (newline # i) s"
  by (auto simp: suffix_def)

theorem official_prompt_roundtrip_witness:
  "raw_prompt_to_problem (\<lambda>s. []) (RList (map MDict (build_rollout_messages ''Problem: 1+1?'' (Some ''train'')))) = ''1+1?''"
proof -
  have n: "strip_instruction i ''Problem: 1+1?'' = ''Problem: 1+1?''" for i
    by (rule strip_instruction_id, rule no_instruction) (simp add: newline_code)
  have "strip_official_math_prompt ''Problem: 1+1?'' = ''1+1?''"
    using n by (simp add: strip_official_math_prompt_def strip_def is_space_def problem_prefix_def)
  moreover have "official ''1+1?''"
    by (simp add: official_def no_instruction [unfolded newline_code] newline_code strip_def is_space_def problem_prefix_def sublist_Cons_right)
  ultimately show ?thesis
    using official_prompt_roundtrip [of "''Problem: 1+1?''" "\<lambda>s. []" "Some ''train''"] by simp
qed

section \<open>The token budget\<close>

lemma strip_empty_iff: "strip s = [] \<longleftrightarrow> list_all is_space s"
proof
  assume "strip s = []"
  then have inner: "\<forall>c \<in> set (dropWhile is_space s). is_space c" by (simp add: strip_def)
  have "dropWhile is_space s = []"
  proof (rule ccontr)
    assume "dropWhile is_space s \<noteq> []"
    then show False using inner hd_dropWhile [of is_space s] list.set_sel(1) by blast
  qed
  then show "list_all is_space s" by (simp add: list_all_iff)
qed (simp add: strip_def list_all_iff dropWhile_eq_Nil_conv [THEN iffD2])

lemma strip_strip: "strip (strip s) = strip s"
proof (rule strip_id)
  show "strip s = [] \<or> \<not> is_space (hd (strip s)) \<and> \<not> is_space (last (strip s))"
    using strip_ends [of s] by argo
qed

lemma truncated_candidate_nonblank:
  "strip candidate \<noteq> [] \<Longrightarrow> strip (truncated_candidate tz candidate ids keep) \<noteq> []"
proof (cases "int (length ids) \<le> keep")
  case False
  have dot: "CHR ''.'' \<in> set truncated_marker" "\<not> is_space CHR ''.''" by (simp_all add: truncated_marker_def is_space_def)
  have "strip (a @ truncated_marker @ b) \<noteq> []" for a b
    unfolding strip_empty_iff list_all_iff using dot by auto
  then show ?thesis using False by (simp add: truncated_candidate_def Let_def strip_strip)
qed (simp add: truncated_candidate_def)

lemma build_contrastive_any_candidate:
  assumes "build_contrastive_teacher_messages problem c raw_prompt template = Inr ms" "strip c' \<noteq> []"
  shows "\<exists>ms'. build_contrastive_teacher_messages problem c' raw_prompt template = Inr ms'"
proof -
  have "strip c \<noteq> []" using assms(1) by (auto simp: build_contrastive_teacher_messages_def Let_def)
  moreover have "\<exists>ms'. build_sdpo_teacher_messages r (strip c') = Inr ms'"
    if "build_sdpo_teacher_messages r (strip c) = Inr ms" for r
    using that assms(2) unfolding build_sdpo_teacher_messages_def Let_def strip_strip
    by (cases "raw_messages ''SDPO Teacher raw prompt messages must all be dictionaries'' r") (auto split: if_splits)
  moreover have "\<exists>ms'. rbind (raw_messages msg p) (\<lambda>ms. if mg_role (last ms) \<noteq> Some ''user'' then Inl x
      else if strip (message_text (last ms)) = [] then Inl y else Inr (f' ms)) = Inr ms'"
    if "rbind (raw_messages msg p) (\<lambda>ms. if mg_role (last ms) \<noteq> Some ''user'' then Inl x
      else if strip (message_text (last ms)) = [] then Inl y else Inr (f ms)) = Inr ms"
    for msg p x y and f f' :: "message list \<Rightarrow> message list"
    using that by (cases "raw_messages msg p") (auto split: if_splits)
  ultimately show ?thesis
    using assms unfolding build_contrastive_teacher_messages_def Let_def by (auto split: if_splits option.splits)
qed

definition longer_within :: "(int \<Rightarrow> int list) \<Rightarrow> int \<Rightarrow> int \<Rightarrow> bool" where
  "longer_within f low high \<longleftrightarrow> (\<forall>i j. low \<le> i \<longrightarrow> i \<le> j \<longrightarrow> j \<le> high \<longrightarrow> length (f i) \<le> length (f j))"

text \<open>A longest prompt: every index that fits is at most one that yields the result.\<close>

definition longest_fit :: "(int \<Rightarrow> int list) \<Rightarrow> int \<Rightarrow> int \<Rightarrow> int \<Rightarrow> int list \<Rightarrow> bool" where
  "longest_fit f low high budget b \<longleftrightarrow>
     (\<forall>j. low \<le> j \<longrightarrow> j \<le> high \<longrightarrow> int (length (f j)) \<le> budget \<longrightarrow> (\<exists>k. j \<le> k \<and> k \<le> high \<and> b = f k))"

lemma bisect_prompt_spec:
  assumes "\<And>k. low \<le> k \<Longrightarrow> k \<le> high \<Longrightarrow> render k = Inr (f k)" "int (length best) \<le> budget"
  shows "\<exists>b. bisect_prompt render budget low high best = Inr b \<and> int (length b) \<le> budget
    \<and> (b = best \<or> (\<exists>k. low \<le> k \<and> k \<le> high \<and> b = f k))
    \<and> (longer_within f low high \<longrightarrow> longest_fit f low high budget b)"
  using assms
proof (induction render budget low high best rule: bisect_prompt.induct)
  case (1 render budget low high best)
  show ?case
  proof (cases "high < low")
    case True
    then show ?thesis using 1(4) by (subst bisect_prompt.simps) (auto simp: longest_fit_def)
  next
    case False
    define keep where "keep = (low + high) div 2"
    have keep: "low \<le> keep" "keep \<le> high" using False by (auto simp: keep_def)
    have r: "render keep = Inr (f keep)" by (rule 1(3) [OF keep])
    show ?thesis
    proof (cases "int (length (f keep)) \<le> budget")
      case fits: True
      have step: "bisect_prompt render budget low high best = bisect_prompt render budget (keep + 1) high (f keep)"
        using False r fits by (subst bisect_prompt.simps) (simp add: Let_def keep_def [symmetric])
      have "render k = Inr (f k)" if "keep + 1 \<le> k" "k \<le> high" for k using 1(3) that keep by simp
      from 1(1) [OF False keep_def fits this fits]
      obtain b where b: "bisect_prompt render budget (keep + 1) high (f keep) = Inr b" "int (length b) \<le> budget"
        "b = f keep \<or> (\<exists>k. keep + 1 \<le> k \<and> k \<le> high \<and> b = f k)"
        "longer_within f (keep + 1) high \<longrightarrow> longest_fit f (keep + 1) high budget b" by blast
      have in_range: "\<exists>k. keep \<le> k \<and> k \<le> high \<and> b = f k"
        using b(3)
      proof
        assume "b = f keep"
        then show ?thesis using keep(2) by blast
      next
        assume "\<exists>k\<ge>keep + 1. k \<le> high \<and> b = f k"
        then obtain k where "keep + 1 \<le> k" "k \<le> high" "b = f k" by blast
        then show ?thesis by (intro exI [of _ k]) simp
      qed
      have "longest_fit f low high budget b" if mono: "longer_within f low high"
        unfolding longest_fit_def
      proof (intro allI impI)
        fix j assume j: "low \<le> j" "j \<le> high" "int (length (f j)) \<le> budget"
        have "longer_within f (keep + 1) high" using mono keep(1) by (simp add: longer_within_def)
        then have "longest_fit f (keep + 1) high budget b" using b(4) by simp
        then show "\<exists>k. j \<le> k \<and> k \<le> high \<and> b = f k"
          using j in_range by (cases "j \<le> keep") (auto simp: longest_fit_def intro: order_trans)
      qed
      moreover have "\<exists>k. low \<le> k \<and> k \<le> high \<and> b = f k"
        using in_range keep(1) by (elim exE conjE, intro exI conjI) simp_all
      ultimately show ?thesis unfolding step using b(1,2) by (intro exI [of _ b]) simp
    next
      case long: False
      have step: "bisect_prompt render budget low high best = bisect_prompt render budget low (keep - 1) best"
        using False r long by (subst bisect_prompt.simps) (simp add: Let_def keep_def [symmetric])
      have "render k = Inr (f k)" if "low \<le> k" "k \<le> keep - 1" for k using 1(3) that keep by simp
      from 1(2) [OF False keep_def long this 1(4)]
      obtain b where b: "bisect_prompt render budget low (keep - 1) best = Inr b" "int (length b) \<le> budget"
        "b = best \<or> (\<exists>k. low \<le> k \<and> k \<le> keep - 1 \<and> b = f k)"
        "longer_within f low (keep - 1) \<longrightarrow> longest_fit f low (keep - 1) budget b" by blast
      have "longest_fit f low high budget b" if mono: "longer_within f low high"
        unfolding longest_fit_def
      proof (intro allI impI)
        fix j assume j: "low \<le> j" "j \<le> high" "int (length (f j)) \<le> budget"
        have "length (f keep) \<le> length (f j)" if "keep \<le> j" using mono keep(1) that j(2) by (simp add: longer_within_def)
        then have "j \<le> keep - 1" using long j(3) by force
        moreover have "longer_within f low (keep - 1)" using mono keep(2) by (simp add: longer_within_def)
        ultimately have "\<exists>k. j \<le> k \<and> k \<le> keep - 1 \<and> b = f k" using b(4) j by (simp add: longest_fit_def)
        then obtain k where "j \<le> k" "k \<le> keep - 1" "b = f k" by blast
        then show "\<exists>k. j \<le> k \<and> k \<le> high \<and> b = f k" using keep(2) by (intro exI [of _ k]) simp
      qed
      moreover have "b = best \<or> (\<exists>k. low \<le> k \<and> k \<le> high \<and> b = f k)"
        using b(3)
      proof
        assume "\<exists>k\<ge>low. k \<le> keep - 1 \<and> b = f k"
        then obtain k where "low \<le> k" "k \<le> keep - 1" "b = f k" by blast
        then show ?thesis using keep(2) by (intro disjI2 exI [of _ k]) simp
      qed simp
      ultimately show ?thesis unfolding step using b(1,2) by (intro exI [of _ b]) simp
    qed
  qed
qed

lemma render_any_candidate:
  assumes "render_candidate tz kwargs problem raw_prompt template c = Inr full" "strip c' \<noteq> []"
  shows "\<exists>ids. render_candidate tz kwargs problem raw_prompt template c' = Inr ids"
proof -
  obtain ms where "build_contrastive_teacher_messages problem c raw_prompt template = Inr ms"
    using assms(1) by (cases "build_contrastive_teacher_messages problem c raw_prompt template") (auto simp: render_candidate_def)
  then show ?thesis using build_contrastive_any_candidate [OF _ assms(2)] by (auto simp: render_candidate_def)
qed

lemma render_nonblank:
  "render_candidate tz kwargs problem raw_prompt template c = Inr full \<Longrightarrow> strip c \<noteq> []"
  by (auto simp: render_candidate_def build_contrastive_teacher_messages_def Let_def)

lemma budget_prompt_cases:
  fixes tz :: tokenizer and kwargs :: tmpl_kwargs and problem candidate template :: string
    and raw_prompt :: "raw_prompt option" and budget :: int
  defines "ids \<equiv> tz_encode tz candidate" and "render \<equiv> render_candidate tz kwargs problem raw_prompt template"
  shows "case budget_contrastive_teacher_prompt tz kwargs problem candidate budget raw_prompt template of
      Inl e \<Rightarrow> budget \<le> 0 \<or> render candidate = Inl e \<or> (\<exists>full least. render candidate = Inr full
        \<and> render (truncated_candidate tz candidate ids 0) = Inr least
        \<and> budget < int (length full) \<and> budget < int (length least))
    | Inr (prompt, before, after) \<Rightarrow> after = length prompt \<and> int after \<le> budget \<and> (\<exists>full. render candidate = Inr full
        \<and> before = length full \<and> (if int before \<le> budget then prompt = full else \<exists>f k.
          (\<forall>j. render (truncated_candidate tz candidate ids j) = Inr (f j)) \<and> 0 \<le> k \<and> k \<le> int (length ids) \<and> prompt = f k
          \<and> (longer_within f 0 (int (length ids)) \<longrightarrow> longest_fit f 0 (int (length ids)) budget prompt)))"
proof (cases "budget \<le> 0")
  case True
  then show ?thesis by (simp add: budget_contrastive_teacher_prompt_def)
next
  case pos: False
  show ?thesis
  proof (cases "render candidate")
    case (Inl e)
    then show ?thesis using pos by (simp add: budget_contrastive_teacher_prompt_def render_def)
  next
    case full: (Inr full)
    show ?thesis
    proof (cases "int (length full) \<le> budget")
      case True
      then show ?thesis using pos full by (simp add: budget_contrastive_teacher_prompt_def render_def)
    next
      case long: False
      define f where "f j = projr (render (truncated_candidate tz candidate ids j))" for j
      have f: "render (truncated_candidate tz candidate ids j) = Inr (f j)" for j
        using render_any_candidate [OF full [unfolded render_def] truncated_candidate_nonblank
            [OF render_nonblank [OF full [unfolded render_def]], of tz ids j]]
        by (auto simp: f_def render_def)
      show ?thesis
      proof (cases "budget < int (length (f 0))")
        case True
        then show ?thesis
          using pos full long f [of 0] by (simp add: budget_contrastive_teacher_prompt_def render_def ids_def)
      next
        case False
        obtain b where b: "bisect_prompt (\<lambda>j. render (truncated_candidate tz candidate ids j)) budget 0 (int (length ids)) (f 0) = Inr b"
          "int (length b) \<le> budget" "b = f 0 \<or> (\<exists>k. 0 \<le> k \<and> k \<le> int (length ids) \<and> b = f k)"
          "longer_within f 0 (int (length ids)) \<longrightarrow> longest_fit f 0 (int (length ids)) budget b"
          using bisect_prompt_spec [of 0 "int (length ids)" "\<lambda>j. render (truncated_candidate tz candidate ids j)" f "f 0" budget]
            f False by auto
        have "budget_contrastive_teacher_prompt tz kwargs problem candidate budget raw_prompt template = Inr (b, length full, length b)"
          using pos full long f [of 0] False b(1)
          by (simp add: budget_contrastive_teacher_prompt_def Let_def render_def ids_def)
        moreover have "\<exists>k. 0 \<le> k \<and> k \<le> int (length ids) \<and> b = f k" using b(3) by auto
        ultimately show ?thesis using full long f b(2,4) by auto
      qed
    qed
  qed
qed

text \<open>C31: the budgeted contrastive prompt is always found or refused. \<open>_budget_contrastive_teacher_prompt\<close>
  (whose binary search terminates on every input) fails only for a non-positive budget, an invalid
  prompt, or when even the prompt without any candidate text is too long; otherwise the prompt
  returned fits the budget, the two counts are the lengths before and after, the full prompt is
  returned unless it is too long, and then the result renders a truncation of the candidate alone,
  the longest one that fits when longer truncations never render shorter.\<close>

theorem budgeted_prompt_spec:
  fixes tz :: tokenizer and kwargs :: tmpl_kwargs and problem candidate template :: string
    and raw_prompt :: "raw_prompt option" and budget :: int
  defines "ids \<equiv> tz_encode tz candidate" and "render \<equiv> render_candidate tz kwargs problem raw_prompt template"
  shows "case budget_contrastive_teacher_prompt tz kwargs problem candidate budget raw_prompt template of
      Inl e \<Rightarrow> budget \<le> 0 \<or> render candidate = Inl e \<or> (\<exists>full least. render candidate = Inr full
        \<and> render (truncated_candidate tz candidate ids 0) = Inr least
        \<and> budget < int (length full) \<and> budget < int (length least))
    | Inr (prompt, before, after) \<Rightarrow> after = length prompt \<and> int after \<le> budget \<and> (\<exists>full. render candidate = Inr full
        \<and> before = length full \<and> (if int before \<le> budget then prompt = full else \<exists>f k.
          (\<forall>j. render (truncated_candidate tz candidate ids j) = Inr (f j)) \<and> 0 \<le> k \<and> k \<le> int (length ids) \<and> prompt = f k
          \<and> (longer_within f 0 (int (length ids)) \<longrightarrow> longest_fit f 0 (int (length ids)) budget prompt)))"
  unfolding ids_def render_def by (rule budget_prompt_cases)

text \<open>A tokenizer with one token per character.\<close>

definition char_tokenizer :: tokenizer where
  "char_tokenizer = \<lparr>tz_apply = (\<lambda>_ ms. concat (map message_text ms)), tz_apply_ids = (\<lambda>_ _. [1, 2]),
     tz_encode = map (\<lambda>c. int (of_char c)), tz_decode = map (\<lambda>i. char_of (nat i))\<rparr>"

definition no_kwargs :: tmpl_kwargs where
  "no_kwargs = \<lparr>tk_enable_thinking = None, tk_rest = []\<rparr>"

lemma char_render:
  assumes "strip c \<noteq> []"
  shows "render_candidate char_tokenizer k ''p'' None candidate_hint_template_id c
    = Inr (map (\<lambda>c. int (of_char c)) (problem_prefix @ ''p'' @ nl @ nl @ incorrect_candidate_label @ nl @ nl
        @ strip c @ nl @ nl @ boxed_instruction))"
proof -
  have n: "strip_instruction i ''p'' = ''p''" for i
    by (rule strip_instruction_id, rule no_instruction) (simp add: newline_code)
  have p: "strip_official_math_prompt ''p'' = ''p''"
    using n by (simp add: strip_official_math_prompt_def strip_def is_space_def problem_prefix_def)
  have t: "candidate_hint_template_id \<noteq> sdpo_template_id" by (simp add: candidate_hint_template_id_def sdpo_template_id_def)
  show ?thesis using assms
    by (simp add: render_candidate_def build_contrastive_teacher_messages_def Let_def p t char_tokenizer_def
        message_text_def user_message_def content_to_text_def)
qed

lemma char_render_length:
  "strip c \<noteq> [] \<Longrightarrow> \<exists>ids. render_candidate char_tokenizer k ''p'' None candidate_hint_template_id c = Inr ids
    \<and> length ids = 111 + length (strip c)"
  by (simp add: char_render)
    (simp add: problem_prefix_def nl_def incorrect_candidate_label_def boxed_instruction_def)

theorem budgeted_prompt_spec_witness:
  "\<exists>prompt before after. budget_contrastive_teacher_prompt char_tokenizer no_kwargs ''p'' (replicate 300 CHR ''a'') 300 None
     candidate_hint_template_id = Inr (prompt, before, after) \<and> 300 < before \<and> after \<le> 300"
proof -
  let ?c = "replicate 300 CHR ''a''"
  let ?r = "render_candidate char_tokenizer no_kwargs ''p'' None candidate_hint_template_id"
  let ?t = "truncated_candidate char_tokenizer ?c (tz_encode char_tokenizer ?c) 0"
  have c: "strip ?c = ?c" by (rule strip_id) (simp add: is_space_def)
  obtain full where full: "?r ?c = Inr full" "300 < length full"
    using char_render_length [of ?c no_kwargs] by (auto simp: c)
  have t0: "?t = ''...[middle of candidate hint truncated to fit Teacher context]...''"
    by (simp add: truncated_candidate_def char_tokenizer_def truncated_marker_def nl_def newline_code strip_def is_space_def)
  have s0: "strip ?t = ?t" unfolding t0 by (rule strip_id) (simp add: is_space_def)
  have "length ?t = 65" unfolding t0 by simp
  then obtain least where least: "?r ?t = Inr least" "length least \<le> 300"
    using char_render_length [of ?t no_kwargs] s0 by fastforce
  show ?thesis
    using budgeted_prompt_spec [where tz = char_tokenizer and kwargs = no_kwargs and problem = "''p''" and candidate = ?c
        and budget = 300 and raw_prompt = None and template = candidate_hint_template_id] full least
    by (cases "budget_contrastive_teacher_prompt char_tokenizer no_kwargs ''p'' ?c 300 None candidate_hint_template_id")
      auto
qed

section \<open>The rollout-evidence branches\<close>

lemma rbind_Inr: "rbind r k = Inr y \<longleftrightarrow> (\<exists>x. r = Inr x \<and> k x = Inr y)"
  by (cases r) auto

lemma prompt_budget_Inr:
  assumes "prompt_budget total_budget max_reprompt r = Inr m"
  shows "r \<noteq> []" "0 < m" "int (length r) + m \<le> total_budget" "0 < max_reprompt \<Longrightarrow> m \<le> max_reprompt"
  using assms by (auto simp: prompt_budget_def Let_def split: if_splits)

lemma combine_row_eq:
  "combine_row p r b a = Inr \<lparr>to_ids = p @ r, to_kept = length p, to_before = b, to_after = a\<rparr>"
  by (simp add: combine_row_def Let_def)

text \<open>A Teacher row: a prompt within the budget followed by the unchanged response; the prompt is the
  original one when there is no candidate, and otherwise the budgeted prompt of the candidate.\<close>

definition teacher_row_ok ::
  "tokenizer \<Rightarrow> tmpl_kwargs \<Rightarrow> (string \<Rightarrow> string) \<Rightarrow> contrastive_args \<Rightarrow> string \<Rightarrow> raw_prompt \<Rightarrow> int list \<Rightarrow> string
    \<Rightarrow> int list \<Rightarrow> nat \<Rightarrow> bool" where
  "teacher_row_ok tz kwargs split_sdpg A template raw_prompt response candidate ids plen \<longleftrightarrow>
     (\<exists>prompt m. ids = prompt @ response \<and> plen = length prompt \<and> response \<noteq> []
       \<and> int (length ids) \<le> ca_total_token_budget A
       \<and> (0 < ca_max_reprompt_tokens A \<longrightarrow> int plen \<le> ca_max_reprompt_tokens A)
       \<and> (if candidate = [] then prompt = tz_apply_ids tz kwargs raw_prompt
          else \<exists>before. budget_contrastive_teacher_prompt tz kwargs (raw_prompt_to_problem split_sdpg raw_prompt)
            candidate m (Some raw_prompt) template = Inr (prompt, before, plen)))"

lemma branch_row_ok:
  assumes "branch_row tz kwargs split_sdpg (ca_total_token_budget A) (ca_max_reprompt_tokens A) template response
    raw_prompt candidate = Inr r"
  shows "teacher_row_ok tz kwargs split_sdpg A template raw_prompt response candidate (to_ids r) (to_kept r)"
proof -
  obtain m where m: "prompt_budget (ca_total_token_budget A) (ca_max_reprompt_tokens A) response = Inr m"
    using assms by (auto simp: branch_row_def Let_def rbind_Inr)
  note B = prompt_budget_Inr [OF m]
  let ?call = "budget_contrastive_teacher_prompt tz kwargs (raw_prompt_to_problem split_sdpg raw_prompt) candidate m
    (Some raw_prompt) template"
  show ?thesis
  proof (cases "candidate = []")
    case True
    then show ?thesis
      using assms B m by (auto simp: branch_row_def Let_def combine_row_eq teacher_row_ok_def split: if_splits)
  next
    case False
    obtain prompt before after where c: "?call = Inr (prompt, before, after)"
      "r = \<lparr>to_ids = prompt @ response, to_kept = length prompt, to_before = before, to_after = after\<rparr>"
      using assms False m by (cases ?call) (auto simp: branch_row_def Let_def combine_row_eq)
    have "after = length prompt \<and> int after \<le> m"
      using budget_prompt_cases [where tz = tz and kwargs = kwargs and problem = "raw_prompt_to_problem split_sdpg raw_prompt"
          and candidate = candidate and budget = m and raw_prompt = "Some raw_prompt" and template = template] c(1) by simp
    then show ?thesis using c B False by (fastforce simp: teacher_row_ok_def)
  qed
qed

lemma build_branch_ok:
  assumes "build_branch tz kwargs split_sdpg (ca_total_token_budget A) (ca_max_reprompt_tokens A) template responses
    raw_prompts candidates = Inr rows" and "t < length responses"
  shows "teacher_row_ok tz kwargs split_sdpg A template (raw_prompts ! t) (responses ! t) (candidates ! t)
    (tr_input_ids (rows_of_teacher rows) ! t) (tr_prompt_lengths (rows_of_teacher rows) ! t)"
proof -
  have r: "length rows = length responses" "branch_row tz kwargs split_sdpg (ca_total_token_budget A)
      (ca_max_reprompt_tokens A) template (responses ! t) (raw_prompts ! t) (candidates ! t) = Inr (rows ! t)"
    using rmap_nth [OF assms(1) [unfolded build_branch_def]] assms(2) by auto
  show ?thesis using branch_row_ok [OF r(2)] r(1) assms(2) by (simp add: rows_of_teacher_def)
qed

lemma check_contrastive_ok:
  "check_contrastive A nested n raw_prompts rewards correctness uids = Inr () \<longleftrightarrow>
     nested \<and> 0 < ca_num_negative_hints A \<and> length raw_prompts = n \<and> length uids = n \<and> length rewards = n
     \<and> (ca_selection_mode A = ''correctness'' \<and> correctness \<noteq> None \<or> ca_selection_mode A = ''reward_ranked'')"
  by (auto simp: check_contrastive_def as_plain_list_def)

lemma contrastive_run:
  assumes run: "build_contrastive_evidence_teacher_fields tz split_sdpg str_nat A nested responses raw_prompts rewards
      (Some correct) uids models rollout_ids = Inr F"
    and kw: "resolve_chat_template_kwargs (ca_kwargs A) (ca_enable_thinking A) = Inr kwargs"
  defines "texts \<equiv> map (\<lambda>r. strip (tz_decode tz r)) responses"
    and "branch \<equiv> build_branch tz kwargs split_sdpg (ca_total_token_budget A) (ca_max_reprompt_tokens A)"
  obtains ids pos neg where "length uids = length responses" "0 < ca_num_negative_hints A"
    "select_rollout_evidence uids ids correct (cf_format_valid F) texts (ca_require_negative A) (ca_num_negative_hints A)
      = Inr (cf_selection F)"
    "branch sdpo_template_id responses raw_prompts (map (candidate_text texts) (es_positive (cf_selection F))) = Inr pos"
    "cf_positive F = rows_of_teacher pos" "cf_negative F = map rows_of_teacher neg"
    "ca_require_negative A \<Longrightarrow> rmap (\<lambda>k. branch candidate_hint_template_id responses raw_prompts
        (map (\<lambda>is. candidate_text texts (is ! k)) (es_negative (cf_selection F)))) [0..<nat (ca_num_negative_hints A)] = Inr neg"
proof -
  have c: "check_contrastive A nested (length responses) raw_prompts rewards (Some correct) uids = Inr ()"
    using run kw by (auto simp: build_contrastive_evidence_teacher_fields_def Let_def rbind_Inr)
  note ok = c [unfolded check_contrastive_ok]
  have "\<exists>ids fv. evidence_branches tz kwargs split_sdpg A responses raw_prompts uids ids correct fv texts = Inr F"
    using run unfolding build_contrastive_evidence_teacher_fields_def Let_def kw rbind.simps c texts_def
    by (auto simp: rbind_Inr split: if_splits)
  then obtain ids fv sel ps ns where
    R: "select_rollout_evidence uids ids correct fv texts (ca_require_negative A) (ca_num_negative_hints A) = Inr sel"
    "branch sdpo_template_id responses raw_prompts (map (candidate_text texts) (es_positive sel)) = Inr ps"
    "(if ca_require_negative A
      then rmap (\<lambda>k. branch candidate_hint_template_id responses raw_prompts
        (map (\<lambda>is. candidate_text texts (is ! k)) (es_negative sel))) [0..<nat (ca_num_negative_hints A)]
      else Inr []) = Inr ns"
    "F = \<lparr>cf_selection = sel, cf_format_valid = fv, cf_positive = rows_of_teacher ps, cf_negative = map rows_of_teacher ns,
      cf_evidence = (if ca_require_negative A then None else Some (rows_of_teacher ps)),
      cf_metrics = contrastive_metrics (ps # ns) (length responses)\<rparr>"
    unfolding evidence_branches_def branch_def Let_def rbind_Inr by blast
  show ?thesis
    by (rule that [of ids ps ns]) (use R ok in simp_all)
qed

lemma select_checks:
  "select_rollout_evidence ids rids cor fv rs req m = Inr E \<Longrightarrow> batch_ok ids rids cor fv rs"
  by (auto simp: select_rollout_evidence_def Let_def batch_ok_def split: if_splits)

text \<open>C21: the Teachers of \<open>build_contrastive_evidence_teacher_fields\<close> see only admissible rollout
  evidence. In every successful batch each Teacher input is a prompt within the token budgets
  followed by the unchanged sampled response; the prompt of the positive Teacher is the original one
  exactly when the target has no correct sibling, and otherwise the budgeted prompt of a correct
  sibling; and each requested negative Teacher uses an incorrect sibling in the same way, and the
  original prompt exactly when there is none. A sibling is another rollout of the same prompt group
  with a valid format and a non-blank response, never the target.\<close>

theorem rollout_teachers_sound:
  assumes run: "build_contrastive_evidence_teacher_fields tz split_sdpg str_nat A nested responses raw_prompts rewards
      (Some correct) uids models rollout_ids = Inr F"
    and kw: "resolve_chat_template_kwargs (ca_kwargs A) (ca_enable_thinking A) = Inr kwargs"
    and t: "t < length responses"
  defines "texts \<equiv> map (\<lambda>r. strip (tz_decode tz r)) responses"
    and "row_ok \<equiv> teacher_row_ok tz kwargs split_sdpg A"
    and "S \<equiv> {i. sibling uids (cf_format_valid F) (map (\<lambda>r. strip (tz_decode tz r)) responses) t i}"
    and "pos \<equiv> es_positive (cf_selection F) ! t" and "neg \<equiv> es_negative (cf_selection F) ! t"
  shows "row_ok sdpo_template_id (raw_prompts ! t) (responses ! t) (candidate_text texts pos)
      (tr_input_ids (cf_positive F) ! t) (tr_prompt_lengths (cf_positive F) ! t)
    \<and> (pos = -1 \<and> (\<forall>i \<in> S. \<not> correct ! i) \<or> (\<exists>i \<in> S. pos = int i \<and> correct ! i))
    \<and> (ca_require_negative A \<longrightarrow> (\<forall>k < nat (ca_num_negative_hints A).
        row_ok candidate_hint_template_id (raw_prompts ! t) (responses ! t) (candidate_text texts (neg ! k))
          (tr_input_ids (cf_negative F ! k) ! t) (tr_prompt_lengths (cf_negative F ! k) ! t)
        \<and> (neg ! k = -1 \<and> (\<forall>i \<in> S. correct ! i) \<or> (\<exists>i \<in> S. neg ! k = int i \<and> \<not> correct ! i))))"
proof -
  obtain ids ps ns where R: "length uids = length responses" "0 < ca_num_negative_hints A"
    "select_rollout_evidence uids ids correct (cf_format_valid F) texts (ca_require_negative A) (ca_num_negative_hints A)
      = Inr (cf_selection F)"
    "build_branch tz kwargs split_sdpg (ca_total_token_budget A) (ca_max_reprompt_tokens A) sdpo_template_id responses
      raw_prompts (map (candidate_text texts) (es_positive (cf_selection F))) = Inr ps"
    "cf_positive F = rows_of_teacher ps" "cf_negative F = map rows_of_teacher ns"
    "ca_require_negative A \<Longrightarrow> rmap (\<lambda>k. build_branch tz kwargs split_sdpg (ca_total_token_budget A)
        (ca_max_reprompt_tokens A) candidate_hint_template_id responses raw_prompts
        (map (\<lambda>is. candidate_text texts (is ! k)) (es_negative (cf_selection F)))) [0..<nat (ca_num_negative_hints A)] = Inr ns"
    by (rule contrastive_run [OF run kw, folded texts_def]) (rule that, assumption+)
  have t': "t < length uids" using t R(1) by simp
  have m: "1 \<le> ca_num_negative_hints A" using R(2) by simp
  from select_sound [OF select_checks [OF R(3)] m, of "ca_require_negative A"] R(3) t'
  have sel: "length (es_positive (cf_selection F)) = length uids" "length (es_negative (cf_selection F)) = length uids"
    "pos = -1 \<and> (\<forall>i \<in> S. \<not> correct ! i) \<or> (\<exists>i \<in> S. pos = int i \<and> correct ! i)"
    "length neg = nat (ca_num_negative_hints A)"
    "\<forall>n \<in> set neg. n = -1 \<and> (\<forall>i \<in> S. correct ! i) \<or> (\<exists>i \<in> S. n = int i \<and> \<not> correct ! i)"
    unfolding pos_def neg_def S_def Let_def texts_def [symmetric] by auto
  have P: "row_ok sdpo_template_id (raw_prompts ! t) (responses ! t) (candidate_text texts pos)
      (tr_input_ids (cf_positive F) ! t) (tr_prompt_lengths (cf_positive F) ! t)"
    using build_branch_ok [OF R(4) t] t' sel(1) by (simp add: row_ok_def R(5) pos_def)
  have N: "row_ok candidate_hint_template_id (raw_prompts ! t) (responses ! t) (candidate_text texts (neg ! k))
      (tr_input_ids (cf_negative F ! k) ! t) (tr_prompt_lengths (cf_negative F ! k) ! t)
      \<and> (neg ! k = -1 \<and> (\<forall>i \<in> S. correct ! i) \<or> (\<exists>i \<in> S. neg ! k = int i \<and> \<not> correct ! i))"
    if "ca_require_negative A" "k < nat (ca_num_negative_hints A)" for k
  proof -
    note Q = rmap_nth [OF R(7) [OF that(1)]]
    have "build_branch tz kwargs split_sdpg (ca_total_token_budget A) (ca_max_reprompt_tokens A) candidate_hint_template_id
      responses raw_prompts (map (\<lambda>is. candidate_text texts (is ! k)) (es_negative (cf_selection F))) = Inr (ns ! k)"
      using Q that(2) by simp
    from build_branch_ok [OF this t] have "row_ok candidate_hint_template_id (raw_prompts ! t) (responses ! t)
        (candidate_text texts (neg ! k)) (tr_input_ids (cf_negative F ! k) ! t) (tr_prompt_lengths (cf_negative F ! k) ! t)"
      using Q that(2) t' sel(2) by (simp add: row_ok_def R(6) neg_def)
    moreover have "neg ! k \<in> set neg" using sel(4) that(2) by simp
    ultimately show ?thesis using sel(5) by blast
  qed
  show ?thesis using P sel(3) N by blast
qed

text \<open>Two rollouts of one prompt, the first of them correct.\<close>

definition pair_args :: contrastive_args where
  "pair_args = \<lparr>ca_total_token_budget = 1000, ca_max_reprompt_tokens = 0, ca_num_negative_hints = 1,
     ca_require_negative = True, ca_selection_mode = ''correctness'', ca_kwargs = None, ca_enable_thinking = None,
     ca_allow_unboxed = True\<rparr>"

definition pair_fields :: "contrastive_fields res" where
  "pair_fields = build_contrastive_evidence_teacher_fields char_tokenizer (\<lambda>s. s) (\<lambda>_. []) pair_args True [[97], [98]]
     [RList [MDict (user_message ''q'')], RList [MDict (user_message ''q'')]] [1, 0] (Some [True, False]) [''p'', ''p''] None
     (Some [''p_0'', ''p_1''])"

lemma pair_run: "\<not> isl pair_fields"
  by code_simp

theorem rollout_teachers_sound_witness:
  "\<exists>F prompt. pair_fields = Inr F \<and> tr_input_ids (cf_positive F) ! 1 = prompt @ [98] \<and> length prompt < 1000"
proof -
  obtain F where F: "pair_fields = Inr F" by (metis pair_run sum.collapse(2))
  have kw: "resolve_chat_template_kwargs (ca_kwargs pair_args) (ca_enable_thinking pair_args)
      = Inr \<lparr>tk_enable_thinking = None, tk_rest = []\<rparr>"
    by (simp add: resolve_chat_template_kwargs_def pair_args_def)
  from rollout_teachers_sound [OF F [unfolded pair_fields_def] kw, of 1] show ?thesis
    by (auto simp: F teacher_row_ok_def pair_args_def split: if_splits)
qed

section \<open>Grading\<close>

text \<open>Sign, whole part, point and fraction.\<close>

definition numeral_text :: "bool \<Rightarrow> string \<Rightarrow> string \<Rightarrow> string" where
  "numeral_text negative whole fraction = (if negative then ''-'' else []) @ whole @ (if fraction = [] then [] else ''.'' @ fraction)"

definition numeral_ok :: "string \<Rightarrow> string \<Rightarrow> bool" where
  "numeral_ok whole fraction \<longleftrightarrow> whole \<noteq> [] \<and> list_all is_digit (whole @ fraction)"

definition numeral_value :: "bool \<Rightarrow> string \<Rightarrow> string \<Rightarrow> rat" where
  "numeral_value negative whole fraction = (if negative then - 1 else 1) * decimal_value whole fraction"

lemma digit_plain:
  assumes "is_digit c"
  shows "\<not> is_space c" "c \<noteq> backslash" "c \<noteq> CHR ''$''" "c \<noteq> CHR '' ''" "c \<noteq> CHR '',''" "c \<noteq> CHR ''-''" "c \<noteq> CHR ''+''"
    "c \<noteq> CHR ''.''"
proof -
  have d: "48 \<le> (of_char c :: nat)" "(of_char c :: nat) \<le> 57"
    using assms by (auto simp: is_digit_def less_eq_char_def)
  then show "\<not> is_space c" by (auto simp: is_space_def Let_def)
  show "c \<noteq> backslash" "c \<noteq> CHR ''$''" "c \<noteq> CHR '' ''" "c \<noteq> CHR '',''" "c \<noteq> CHR ''-''" "c \<noteq> CHR ''+''" "c \<noteq> CHR ''.''"
    using d by (auto simp: backslash_def)
qed

text \<open>A character of a numeral.\<close>

definition plain :: "char \<Rightarrow> bool" where
  "plain c \<longleftrightarrow> is_digit c \<or> c = CHR ''-'' \<or> c = CHR ''.''"

lemma plain_facts:
  "plain c \<Longrightarrow> \<not> is_space c \<and> c \<noteq> backslash \<and> c \<noteq> CHR ''$'' \<and> c \<noteq> CHR '' '' \<and> c \<noteq> CHR '','' \<and> c \<noteq> CHR 0xB0"
  using digit_plain by (auto simp: plain_def is_space_def backslash_def is_digit_def less_eq_char_def)

lemma plain_brace: "plain c \<Longrightarrow> c \<noteq> CHR ''{'' \<and> c \<noteq> CHR ''}''"
  by (auto simp: plain_def is_digit_def less_eq_char_def)

lemma plain_braces: "\<forall>c \<in> set s. plain c \<Longrightarrow> braces k s = Some k"
  by (induction s) (simp_all add: plain_brace)

lemma remove_all_id: "\<forall>c \<in> set s. c \<noteq> d \<Longrightarrow> remove_all (d # pat) s = s"
  by (induction s) auto

lemma rfind_none: "\<forall>c \<in> set s. c \<noteq> d \<Longrightarrow> rfind (d # pat) s = None"
proof -
  assume a: "\<forall>c \<in> set s. c \<noteq> d"
  have "\<not> prefix (d # pat) (drop i s)" for i
  proof
    assume "prefix (d # pat) (drop i s)"
    then have "d \<in> set (drop i s)" by (auto simp: prefix_def)
    then show False using a in_set_dropD by fastforce
  qed
  then show ?thesis by (simp add: rfind_def)
qed

lemma plain_wrappers:
  assumes "\<forall>c \<in> set s. plain c"
  shows "strip_answer_wrappers s = s" "remove_degree s = s" "remove_all '' '' s = s" "remove_all '','' s = s"
    "strip_answer_wrappers (''$'' @ s @ ''$'') = s" "strip_answer_wrappers (boxed_tag @ ''{'' @ s @ ''}'') = s"
proof -
  have f: "\<forall>c \<in> set s. \<not> is_space c \<and> c \<noteq> backslash \<and> c \<noteq> CHR ''$'' \<and> c \<noteq> CHR '' '' \<and> c \<noteq> CHR '','' \<and> c \<noteq> CHR 0xB0"
    using assms plain_facts by blast
  have ends: "s \<noteq> [] \<Longrightarrow> hd s \<in> set s \<and> last s \<in> set s" by simp
  have st: "strip s = s" by (rule strip_id) (use f ends in blast)
  have dr: "s = [] \<or> hd s \<noteq> CHR ''$'' \<and> last s \<noteq> CHR ''$''" using f ends by blast
  then have dl: "dropWhile (\<lambda>d. d = CHR ''$'') s = s" "dropWhile (\<lambda>d. d = CHR ''$'') (rev s) = rev s"
    unfolding dropWhile_eq_self_iff by (auto simp: hd_rev)
  have dollar: "strip_char CHR ''$'' s = s" unfolding strip_char_def dl(1) dl(2) by simp
  have none: "extract_boxed_answer (Some s) = None"
    using rfind_none [of s backslash "''boxed''"] f by (simp add: extract_boxed_answer_def boxed_tag_def)
  have unw: "unwrap (backslash # o') c' s = s" for o' c'
    using f by (cases s) (auto simp: unwrap_def)
  show "remove_all '' '' s = s" "remove_all '','' s = s" by (rule remove_all_id, use f in blast)+
  have rm: "remove_all (backslash # p) s = s" for p by (rule remove_all_id) (use f in blast)
  show "strip_answer_wrappers s = s"
    unfolding strip_answer_wrappers_def Let_def st none option.case dollar unw rm ..
  have "\<forall>c \<in> set s. c \<noteq> backslash" using f by blast
  then have bs: "\<forall>c \<in> set (''$'' @ s @ ''$''). c \<noteq> backslash" by (simp add: backslash_def)
  have none': "extract_boxed_answer (Some (''$'' @ s @ ''$'')) = None"
    using rfind_none [OF bs, of "''boxed''"] by (simp add: extract_boxed_answer_def boxed_tag_def)
  have st': "strip (''$'' @ s @ ''$'') = ''$'' @ s @ ''$''" by (rule strip_id) (simp add: is_space_def)
  have "dropWhile (\<lambda>d. d = CHR ''$'') (s @ ''$'') = (if s = [] then [] else s @ ''$'')"
    using dr by (cases s) simp_all
  moreover have "dropWhile (\<lambda>d. d = CHR ''$'') (rev (s @ ''$'')) = rev s" using dl(2) by simp
  ultimately have dollar': "strip_char CHR ''$'' (''$'' @ s @ ''$'') = s" by (auto simp: strip_char_def)
  show "strip_answer_wrappers (''$'' @ s @ ''$'') = s"
    unfolding strip_answer_wrappers_def Let_def st' none' option.case dollar' st unw rm ..
  have "braces 0 s = Some 0" using plain_braces [OF assms] .
  moreover have "\<not> sublist boxed_tag (s @ ''}'' @ [])"
  proof
    assume "sublist boxed_tag (s @ ''}'' @ [])"
    then obtain u v where "s @ ''}'' = u @ boxed_tag @ v" by (auto simp: sublist_def)
    then have "set boxed_tag \<subseteq> set (s @ ''}'')" by auto
    then have "backslash \<in> set s \<or> backslash = CHR ''}''" by (simp add: boxed_tag_def) blast
    then show False using f by (simp add: backslash_def) blast
  qed
  ultimately have ext: "extract_boxed_answer (Some (boxed_tag @ ''{'' @ s @ ''}'')) = Some s"
    using extract_boxed [of s "[]" "[]"] st by (simp add: balanced_def)
  have stb: "strip (boxed_tag @ ''{'' @ s @ ''}'') = boxed_tag @ ''{'' @ s @ ''}''"
    by (rule strip_id) (simp add: boxed_tag_def backslash_def is_space_def)
  show "strip_answer_wrappers (boxed_tag @ ''{'' @ s @ ''}'') = s"
    unfolding strip_answer_wrappers_def Let_def stb ext option.case st dollar unw rm ..
  have "\<not> suffix d s" if "d \<in> set degree_suffixes" for d
  proof
    assume "suffix d s"
    then have "set d \<subseteq> set s" by (auto simp: suffix_def)
    moreover have "backslash \<in> set d \<or> CHR 0xB0 \<in> set d" using that by (auto simp: degree_suffixes_def)
    ultimately show False using f by blast
  qed
  then have "filter (\<lambda>d. suffix d s) degree_suffixes = []" by (simp add: filter_empty_conv)
  then show "remove_degree s = s" by (simp add: remove_degree_def)
qed

lemma numeral_plain: "numeral_ok w f \<Longrightarrow> \<forall>c \<in> set (numeral_text n w f). plain c"
  by (auto simp: numeral_ok_def numeral_text_def plain_def list_all_iff)

lemma unsigned_decimal_numeral:
  assumes "numeral_ok w f"
  shows "unsigned_decimal (w @ (if f = [] then [] else ''.'' @ f)) = Some (decimal_value w f)"
proof -
  have w: "\<forall>c \<in> set w. is_digit c" "w \<noteq> []" and f: "list_all is_digit f" using assms by (auto simp: numeral_ok_def list_all_iff)
  have dot: "\<not> is_digit CHR ''.''" by (simp add: is_digit_def less_eq_char_def)
  show ?thesis
  proof (cases "f = []")
    case True
    then show ?thesis using w by (simp add: unsigned_decimal_def Let_def takeWhile_eq_all_conv [THEN iffD2] dropWhile_eq_Nil_conv [THEN iffD2])
  next
    case False
    have "takeWhile is_digit (w @ ''.'' @ f) = w" "dropWhile is_digit (w @ ''.'' @ f) = ''.'' @ f"
      using w(1) dot by (simp_all add: takeWhile_append2 dropWhile_append2)
    then show ?thesis using False f w(2) by (simp add: unsigned_decimal_def Let_def)
  qed
qed

lemma parse_numeral:
  assumes "numeral_ok w f"
  shows "parse_decimal (numeral_text n w f) = Some (numeral_value n w f)"
proof -
  obtain c r where w: "w = c # r" using assms by (cases w) (auto simp: numeral_ok_def)
  have "is_digit c" using assms by (simp add: numeral_ok_def w)
  then have "c \<noteq> CHR ''-''" "c \<noteq> CHR ''+''" using digit_plain by auto
  then show ?thesis
    using unsigned_decimal_numeral [OF assms] by (cases n) (simp_all add: parse_decimal_def numeral_text_def numeral_value_def w)
qed

text \<open>The ways a numeral may be written as an answer.\<close>

definition written :: "string \<Rightarrow> string \<Rightarrow> bool" where
  "written t s \<longleftrightarrow> s \<in> {t, ''$'' @ t @ ''$'', boxed_tag @ ''{'' @ t @ ''}''}"

lemma simple_number_written:
  assumes "numeral_ok w f" "written (numeral_text n w f) s"
  shows "simple_number s = Some (numeral_value n w f)"
proof -
  note p = plain_wrappers [OF numeral_plain [OF assms(1)], of n]
  have "strip_answer_wrappers s = numeral_text n w f" using assms(2) p by (auto simp: written_def)
  then show ?thesis unfolding simple_number_def by (simp only: p parse_numeral [OF assms(1)])
qed

text \<open>answers that are decimal numerals are graded by their exact value, without the external
  verifier: whatever \<open>math_verify\<close> does, and whether each answer is bare, between dollars or boxed,
  \<open>grade_boxed_answer\<close> says whether the two rationals are equal (so \<open>0.50\<close> and \<open>0.5\<close> agree).\<close>

theorem numerals_graded_by_value:
  assumes "numeral_ok w f" "numeral_ok w' f'"
    and "written (numeral_text n w f) predicted" "written (numeral_text n' w' f') truth"
  shows "grade_boxed_answer math_verify (Some predicted) truth = Inr (numeral_value n w f = numeral_value n' w' f')"
  using simple_number_written [OF assms(1,3)] simple_number_written [OF assms(2,4)]
  by (simp add: grade_boxed_answer_def)

theorem numerals_graded_by_value_witness:
  "grade_boxed_answer None (Some ''$0.50$'') ''0.5'' = Inr True"
proof -
  have "numeral_value False ''0'' ''50'' = numeral_value False ''0'' ''5''"
    by (simp add: numeral_value_def decimal_value_def int_of_decimal_def)
  then show ?thesis
    using numerals_graded_by_value [of "''0''" "''50''" "''0''" "''5''" False "''$0.50$''" False "''0.5''" None]
    by (simp add: numeral_ok_def written_def numeral_text_def is_digit_def less_eq_char_def)
qed

end
