(* ===== verification/GradientAudit.thy ===== *)
theory GradientAudit
  imports Prelude
begin

text \<open>
  The gradient audit of \<open>verl/trainer/distillation/verpo_gradient_audit.py\<close>: the bounded parameter
  scope, the captured branch gradients and the auditor's state. Tensors are flat vectors of exact
  reals in one process (the all-reduce of a single rank is the identity); the backward pass is an
  argument.
\<close>

section \<open>The bounded parameter scope\<close>

record gparam =
  gp_id :: nat
  gp_size :: nat
  gp_trainable :: bool

type_synonym gmodule = "(string \<times> gparam) list"

text \<open>The loop over the reversed trainable parameters: shared parameters, empty ones and those that
  no longer fit are skipped.\<close>

fun select_tail :: "int \<Rightarrow> int \<Rightarrow> gmodule \<Rightarrow> gmodule \<Rightarrow> int \<Rightarrow> gmodule" where
  "select_tail max_elements max_tensors [] selected count = selected"
| "select_tail max_elements max_tensors ((name, p) # ps) selected count =
     (if gp_id p \<in> (\<lambda>(_, q). gp_id q) ` set selected
      then select_tail max_elements max_tensors ps selected count
      else if int (gp_size p) \<le> 0 \<or> max_elements < count + int (gp_size p)
      then select_tail max_elements max_tensors ps selected count
      else let selected' = selected @ [(name, p)]; count' = count + int (gp_size p)
           in if max_tensors \<le> int (length selected') \<or> max_elements \<le> count' then selected'
              else select_tail max_elements max_tensors ps selected' count')"

definition trainable :: "gmodule \<Rightarrow> gmodule" where
  "trainable m = filter (\<lambda>(_, p). gp_trainable p) m"

definition select_bounded_tail_parameters :: "gmodule \<Rightarrow> int \<Rightarrow> int \<Rightarrow> gmodule res" where
  "select_bounded_tail_parameters m max_elements max_tensors =
     (if max_elements \<le> 0 \<or> max_tensors \<le> 0 then Inl (ValueError ''VERPO gradient-audit limits must be positive'')
      else let selected = select_tail max_elements max_tensors (rev (trainable m)) [] 0
      in if selected = [] then Inl (ValueError ''VERPO gradient audit could not select a trainable tensor'')
         else Inr (rev selected))"

section \<open>The auditor\<close>

record auditor =
  ga_max_batches :: int
  ga_max_elements :: int
  ga_max_tensors :: int
  ga_epsilon :: real
  ga_module :: "gmodule option"
  ga_optimizer :: "nat list option"
  ga_parameters :: "gmodule option"
  ga_index :: int
  ga_armed :: bool

definition init_auditor :: "int \<Rightarrow> int \<Rightarrow> int \<Rightarrow> real \<Rightarrow> auditor res" where
  "init_auditor max_train_batches max_elements max_tensors epsilon =
     (if max_train_batches \<le> 0 then Inl (ValueError ''VERPO gradient_audit_max_steps must be positive when enabled'')
      else Inr \<lparr>ga_max_batches = max_train_batches, ga_max_elements = max_elements, ga_max_tensors = max_tensors,
        ga_epsilon = epsilon, ga_module = None, ga_optimizer = None, ga_parameters = None, ga_index = 0, ga_armed = False\<rparr>)"

text \<open>The optimizer is given by the identities of its parameters.\<close>

definition bind_auditor :: "gmodule \<Rightarrow> nat list \<Rightarrow> auditor \<Rightarrow> auditor" where
  "bind_auditor m optimizer A = A\<lparr>ga_module := Some m, ga_optimizer := Some optimizer\<rparr>"

definition begin_train_batch :: "auditor \<Rightarrow> auditor" where
  "begin_train_batch A = A\<lparr>ga_index := ga_index A + 1, ga_armed := (ga_index A + 1 \<le> ga_max_batches A)\<rparr>"

definition selected_parameters :: "auditor \<Rightarrow> gmodule res \<times> auditor" where
  "selected_parameters A = (case ga_module A of
       None \<Rightarrow> (Inl (RuntimeError ''VERPO gradient auditor is not bound to an actor module''), A)
     | Some m \<Rightarrow> (case ga_parameters A of
         Some ps \<Rightarrow> (Inr ps, A)
       | None \<Rightarrow> (case select_bounded_tail_parameters m (ga_max_elements A) (ga_max_tensors A) of
           Inl e \<Rightarrow> (Inl e, A)
         | Inr ps \<Rightarrow> (Inr ps, A\<lparr>ga_parameters := Some ps\<rparr>))))"

section \<open>Captured gradients\<close>

type_synonym grads = "nat \<Rightarrow> vec option"

definition zero_grad :: "nat list \<Rightarrow> grads \<Rightarrow> grads" where
  "zero_grad optimizer g = (\<lambda>i. if i \<in> set optimizer then None else g i)"

definition snapshot :: "gmodule \<Rightarrow> grads \<Rightarrow> vec list" where
  "snapshot ps g = map (\<lambda>(_, p). case g (gp_id p) of None \<Rightarrow> replicate (gp_size p) 0 | Some v \<Rightarrow> v) ps"

text \<open>The backward pass of a loss adds to the gradients, or raises.\<close>

definition capture ::
  "('l \<Rightarrow> grads \<Rightarrow> unit res \<times> grads) \<Rightarrow> 'l \<Rightarrow> auditor \<times> grads \<Rightarrow> vec list res \<times> auditor \<times> grads" where
  "capture backward loss s = (case s of (A, g) \<Rightarrow> (case ga_optimizer A of
       None \<Rightarrow> (Inl (AssertionError ''''), A, g)
     | Some optimizer \<Rightarrow> (case backward loss (zero_grad optimizer g) of
         (Inl e, g1) \<Rightarrow> (Inl e, A, g1)
       | (Inr _, g1) \<Rightarrow> (case selected_parameters A of
           (Inl e, A1) \<Rightarrow> (Inl e, A1, g1)
         | (Inr ps, A1) \<Rightarrow> (Inr (snapshot ps g1), A1, g1)))))"

definition grad_dot :: "vec list \<Rightarrow> vec list \<Rightarrow> real res" where
  "grad_dot left right =
     (if length left \<noteq> length right then Inl (ValueError ''VERPO gradient snapshots have different parameter scopes'')
      else Inr (sum_list (map2 (\<lambda>l r. vsum (vmul l r)) left right)))"

definition grad_norm :: "real \<Rightarrow> real" where
  "grad_norm square = sqrt (clamp_min 0 square)"

definition grad_cosine :: "real \<Rightarrow> real \<Rightarrow> real \<Rightarrow> real \<Rightarrow> real" where
  "grad_cosine epsilon dot left_square right_square =
     (let denominator = sqrt (clamp_min 0 left_square * clamp_min 0 right_square)
      in if denominator \<le> epsilon then 0 else clamp (-1) 1 (dot / denominator))"

record audit_metrics =
  am_norms :: "real \<times> real \<times> real"
  am_cosines :: "real \<times> real \<times> real"
  am_ratios :: "real \<times> real"
  am_batch_index :: real
  am_tensor_count :: real
  am_element_count :: real

text \<open>The three captures in order; the first that raises ends the sequence.\<close>

definition capture_three ::
  "('l \<Rightarrow> grads \<Rightarrow> unit res \<times> grads) \<Rightarrow> 'l \<Rightarrow> 'l \<Rightarrow> 'l \<Rightarrow> auditor \<times> grads
    \<Rightarrow> (vec list \<times> vec list \<times> vec list) res \<times> auditor \<times> grads" where
  "capture_three backward l1 l2 l3 s0 =
     (case capture backward l1 s0 of (Inl e, s1) \<Rightarrow> (Inl e, s1) | (Inr a, s1) \<Rightarrow>
     (case capture backward l2 s1 of (Inl e, s2) \<Rightarrow> (Inl e, s2) | (Inr b, s2) \<Rightarrow>
     (case capture backward l3 s2 of (Inl e, s3) \<Rightarrow> (Inl e, s3) | (Inr c, s3) \<Rightarrow> (Inr (a, b, c), s3))))"

definition branch_metrics :: "real \<Rightarrow> vec list \<Rightarrow> vec list \<Rightarrow> vec list \<Rightarrow> int \<Rightarrow> gmodule \<Rightarrow> audit_metrics res" where
  "branch_metrics epsilon grpo reference evidence index ps =
     rbind (grad_dot grpo grpo) (\<lambda>gg. rbind (grad_dot reference reference) (\<lambda>rr. rbind (grad_dot evidence evidence) (\<lambda>ee.
     rbind (grad_dot grpo reference) (\<lambda>gr. rbind (grad_dot grpo evidence) (\<lambda>ge. rbind (grad_dot reference evidence) (\<lambda>re.
     if max (grad_norm gg) epsilon = 0 then Inl (ZeroDivisionError ''float division by zero'')
     else Inr \<lparr>am_norms = (grad_norm gg, grad_norm rr, grad_norm ee),
       am_cosines = (grad_cosine epsilon gr gg rr, grad_cosine epsilon ge gg ee, grad_cosine epsilon re rr ee),
       am_ratios = (grad_norm rr / max (grad_norm gg) epsilon, grad_norm ee / max (grad_norm gg) epsilon),
       am_batch_index = of_int index, am_tensor_count = real (length ps),
       am_element_count = real (sum_list (map (\<lambda>(_, p). gp_size p) ps))\<rparr>))))))"

text \<open>\<open>audit\<close>: \<open>None\<close> is the empty dictionary. The gradients are cleared whether or not a capture
  raises. Reals are finite, so the last check of the code never fires.\<close>

definition audit ::
  "('l \<Rightarrow> grads \<Rightarrow> unit res \<times> grads) \<Rightarrow> 'l \<Rightarrow> 'l \<Rightarrow> 'l \<Rightarrow> auditor \<times> grads
    \<Rightarrow> audit_metrics option res \<times> auditor \<times> grads" where
  "audit backward grpo_loss reference_loss evidence_loss s =
     (case s of (A, g) \<Rightarrow>
       if \<not> ga_armed A then (Inr None, A, g)
       else case ga_optimizer A of
         None \<Rightarrow> (Inl (RuntimeError ''VERPO gradient auditor is not bound to an optimizer''), A, g)
       | Some optimizer \<Rightarrow>
         (case capture_three backward grpo_loss reference_loss evidence_loss (A\<lparr>ga_armed := False\<rparr>, g) of
           (Inl e, A1, g1) \<Rightarrow> (Inl e, A1, zero_grad optimizer g1)
         | (Inr (grpo, reference, evidence), A1, g1) \<Rightarrow>
             (rbind (fst (selected_parameters A1)) (\<lambda>ps.
                rbind (branch_metrics (ga_epsilon A1) grpo reference evidence (ga_index A1) ps) (\<lambda>m. Inr (Some m))),
              A1, zero_grad optimizer g1)))"

end
