(* ===== verification/AuditProps.thy ===== *)
theory AuditProps
  imports GradientAudit Fisher "HOL-Library.Sublist"
begin

text \<open>
  The properties of the gradient audit: the bounds of its parameter scope, the exact norms and
  cosines it reports, and the runs of the auditor.
\<close>

section \<open>The scope\<close>

definition scope_size :: "gmodule \<Rightarrow> int" where
  "scope_size ps = sum_list (map (\<lambda>(_, p). int (gp_size p)) ps)"

definition scope_ids :: "gmodule \<Rightarrow> nat list" where
  "scope_ids ps = map (\<lambda>(_, p). gp_id p) ps"

definition scope_ok :: "int \<Rightarrow> int \<Rightarrow> gmodule \<Rightarrow> bool" where
  "scope_ok E N ps \<longleftrightarrow> distinct (scope_ids ps) \<and> (\<forall>(_, p) \<in> set ps. 0 < gp_size p)
     \<and> int (length ps) \<le> N \<and> scope_size ps \<le> E"

lemma scope_simps [simp]:
  "scope_size [] = 0" "scope_size (ps @ qs) = scope_size ps + scope_size qs" "scope_size [(n, p)] = int (gp_size p)"
  "scope_ids [] = []" "scope_ids (ps @ qs) = scope_ids ps @ scope_ids qs" "scope_ids [(n, p)] = [gp_id p]"
  "(\<lambda>(_, q). gp_id q) ` set ps = set (scope_ids ps)"
  by (simp_all add: scope_size_def scope_ids_def)

lemma select_tail_spec:
  assumes "scope_ok E N sel" "int (length sel) < N" "count = scope_size sel"
  shows "\<exists>ext. select_tail E N ps sel count = sel @ ext \<and> subseq ext ps \<and> scope_ok E N (sel @ ext)
    \<and> (sel = [] \<and> ext = [] \<longrightarrow> (\<forall>(_, p) \<in> set ps. gp_size p = 0 \<or> E < int (gp_size p)))"
  using assms
proof (induction E N ps sel count rule: select_tail.induct)
  case (2 E N name p ps sel count)
  show ?case
  proof (cases "gp_id p \<in> (\<lambda>(_, q). gp_id q) ` set sel")
    case True
    have "sel \<noteq> []" using True by auto
    moreover obtain ext where "select_tail E N ps sel count = sel @ ext" "subseq ext ps" "scope_ok E N (sel @ ext)"
      using 2(1) [OF True 2(4,5,6)] by blast
    ultimately show ?thesis using True by (intro exI [of _ ext]) (auto intro: list_emb_Cons)
  next
    case new: False
    show ?thesis
    proof (cases "int (gp_size p) \<le> 0 \<or> E < count + int (gp_size p)")
      case True
      obtain ext where ext: "select_tail E N ps sel count = sel @ ext" "subseq ext ps" "scope_ok E N (sel @ ext)"
        "sel = [] \<and> ext = [] \<longrightarrow> (\<forall>(_, p) \<in> set ps. gp_size p = 0 \<or> E < int (gp_size p))"
        using 2(2) [OF new True 2(4,5,6)] by blast
      have "sel = [] \<longrightarrow> gp_size p = 0 \<or> E < int (gp_size p)" using True 2(6) by auto
      then show ?thesis using new True ext by (intro exI [of _ ext]) (auto intro: list_emb_Cons)
    next
      case False
      let ?sel = "sel @ [(name, p)]" and ?count = "count + int (gp_size p)"
      have ok: "scope_ok E N ?sel" using 2(4,5,6) new False by (auto simp: scope_ok_def)
      show ?thesis
      proof (cases "N \<le> int (length ?sel) \<or> E \<le> ?count")
        case True
        then show ?thesis using new False ok by (intro exI [of _ "[(name, p)]"]) (auto simp: Let_def)
      next
        case more: False
        then have "int (length ?sel) < N" "?count = scope_size ?sel" using 2(6) by auto
        from 2(3) [OF new False refl refl more ok this]
        obtain ext where "select_tail E N ps ?sel ?count = ?sel @ ext" "subseq ext ps" "scope_ok E N (?sel @ ext)" by blast
        then show ?thesis using new False more
          by (intro exI [of _ "(name, p) # ext"]) (auto simp: Let_def)
      qed
    qed
  qed
qed simp

lemma subseq_rev: "subseq xs ys \<Longrightarrow> subseq (rev xs) (rev ys)"
  by (induction rule: list_emb.induct) (auto intro: list_emb_append_mono)

text \<open>the audit scope respects its limits. \<open>select_bounded_tail_parameters\<close> returns a non-empty
  sub-sequence of the trainable parameters in module order, without empty or repeated (shared)
  tensors, with at most the allowed number of tensors and of elements; it fails only for
  non-positive limits or when every trainable tensor is empty or alone exceeds the limit.\<close>

theorem scope_bounds:
  "case select_bounded_tail_parameters m E N of
     Inr ps \<Rightarrow> ps \<noteq> [] \<and> subseq ps (trainable m) \<and> scope_ok E N ps
   | Inl e \<Rightarrow> E \<le> 0 \<or> N \<le> 0 \<or> (\<forall>(_, p) \<in> set (trainable m). gp_size p = 0 \<or> E < int (gp_size p))"
proof (cases "E \<le> 0 \<or> N \<le> 0")
  case True
  then show ?thesis by (auto simp: select_bounded_tail_parameters_def)
next
  case False
  then have "scope_ok E N []" by (simp add: scope_ok_def)
  from select_tail_spec [OF this, of 0 "rev (trainable m)"] False
  obtain ext where ext: "select_tail E N (rev (trainable m)) [] 0 = ext" "subseq ext (rev (trainable m))" "scope_ok E N ext"
    "ext = [] \<longrightarrow> (\<forall>(_, p) \<in> set (trainable m). gp_size p = 0 \<or> E < int (gp_size p))" by auto
  have "subseq (rev ext) (trainable m)" using ext(2) by (metis rev_rev_ident subseq_rev)
  moreover have "scope_ok E N (rev ext)"
    using ext(3) by (simp add: scope_ok_def scope_size_def scope_ids_def rev_map [symmetric])
  ultimately show ?thesis using False ext by (auto simp: select_bounded_tail_parameters_def Let_def)
qed

theorem scope_bounds_witness:
  "select_bounded_tail_parameters [(''a'', \<lparr>gp_id = 1, gp_size = 8, gp_trainable = True\<rparr>),
     (''b'', \<lparr>gp_id = 2, gp_size = 3, gp_trainable = True\<rparr>), (''b2'', \<lparr>gp_id = 2, gp_size = 3, gp_trainable = True\<rparr>)] 5 2
   = Inr [(''b2'', \<lparr>gp_id = 2, gp_size = 3, gp_trainable = True\<rparr>)]"
proof -
  let ?m = "[(''a'', \<lparr>gp_id = 1, gp_size = 8, gp_trainable = True\<rparr>),
     (''b'', \<lparr>gp_id = 2, gp_size = 3, gp_trainable = True\<rparr>), (''b2'', \<lparr>gp_id = 2, gp_size = 3, gp_trainable = True\<rparr>)]"
  have "select_bounded_tail_parameters ?m 5 2 = Inr [(''b2'', \<lparr>gp_id = 2, gp_size = 3, gp_trainable = True\<rparr>)]"
    by (simp add: select_bounded_tail_parameters_def trainable_def)
  then show ?thesis using scope_bounds [where m = ?m and E = 5 and N = 2] by simp
qed

section \<open>Norms and cosines\<close>

lemma dot_square_le:
  fixes xs ys :: vec
  assumes "length xs = length ys"
  shows "(vsum (vmul xs ys))\<^sup>2 \<le> vsum (vmul xs xs) * vsum (vmul ys ys)"
proof (rule quadratic_cs)
  have eq: "vsum (vmul xs xs) - 2 * a * vsum (vmul xs ys) + a * a * vsum (vmul ys ys)
      = (\<Sum>i<length xs. (xs ! i - a * ys ! i)\<^sup>2)" for a
    using assms by (simp add: vsum_vmul sum_distrib_left sum_subtractf sum.distrib power2_eq_square algebra_simps)
  show "0 \<le> vsum (vmul xs xs) - 2 * a * vsum (vmul xs ys) + a * a * vsum (vmul ys ys)" for a
    unfolding eq by (intro sum_nonneg) simp
  show "0 \<le> vsum (vmul ys ys)" by (simp add: vsum_vmul sum_nonneg)
qed

text \<open>The vector of all captured entries.\<close>

definition flatten :: "vec list \<Rightarrow> vec" where
  "flatten = concat"

lemma vsum_vmul_append:
  "length a = length b \<Longrightarrow> vsum (vmul (a @ c) (b @ d)) = vsum (vmul a b) + vsum (vmul c d)"
  by (simp add: vsum_def vmul_def)

lemma grad_dot_flat:
  assumes "list_all2 (\<lambda>a b. length a = length b) xs ys"
  shows "grad_dot xs ys = Inr (vsum (vmul (flatten xs) (flatten ys)))" "length (flatten xs) = length (flatten ys)"
proof -
  have "sum_list (map2 (\<lambda>l r. vsum (vmul l r)) xs ys) = vsum (vmul (flatten xs) (flatten ys))
      \<and> length (flatten xs) = length (flatten ys)"
    using assms
  proof (induction rule: list_all2_induct)
    case Nil
    then show ?case by (simp add: flatten_def vsum_def vmul_def)
  next
    case (Cons a xs b ys)
    then show ?case by (simp add: flatten_def vsum_vmul_append)
  qed
  then show "grad_dot xs ys = Inr (vsum (vmul (flatten xs) (flatten ys)))" "length (flatten xs) = length (flatten ys)"
    using list_all2_lengthD [OF assms] by (simp_all add: grad_dot_def)
qed

definition vnorm :: "vec \<Rightarrow> real" where
  "vnorm xs = sqrt (\<Sum>i<length xs. (xs ! i)\<^sup>2)"

definition vcos :: "real \<Rightarrow> vec \<Rightarrow> vec \<Rightarrow> real" where
  "vcos eps xs ys = (if vnorm xs * vnorm ys \<le> eps then 0
     else (\<Sum>i<length xs. xs ! i * ys ! i) / (vnorm xs * vnorm ys))"

lemma vsum_square: "vsum (vmul xs xs) = (\<Sum>i<length xs. (xs ! i)\<^sup>2)"
  by (simp add: vsum_vmul power2_eq_square)

lemma square_nonneg: "0 \<le> vsum (vmul xs xs)"
  by (simp add: vsum_square sum_nonneg)

lemma grad_norm_eq: "grad_norm (vsum (vmul xs xs)) = vnorm xs"
  using square_nonneg [of xs] by (simp add: grad_norm_def clamp_min_id vnorm_def vsum_square)

lemma vcos_bounds:
  assumes "length xs = length ys" "0 \<le> eps"
  shows "\<bar>vcos eps xs ys\<bar> \<le> 1"
    and "grad_cosine eps (vsum (vmul xs ys)) (vsum (vmul xs xs)) (vsum (vmul ys ys)) = vcos eps xs ys"
proof -
  let ?d = "vnorm xs * vnorm ys"
  have d: "sqrt (vsum (vmul xs xs) * vsum (vmul ys ys)) = ?d" by (simp add: vnorm_def vsum_square real_sqrt_mult)
  have dot: "vsum (vmul xs ys) = (\<Sum>i<length xs. xs ! i * ys ! i)" by (rule vsum_vmul [OF assms(1)])
  have le: "\<bar>vsum (vmul xs ys)\<bar> \<le> ?d"
    using dot_square_le [OF assms(1)] unfolding d [symmetric] by (simp add: real_le_rsqrt)
  have frac: "\<bar>vsum (vmul xs ys) / ?d\<bar> \<le> 1" if "\<not> ?d \<le> eps"
    using le that assms(2) by (simp add: abs_divide divide_le_eq)
  then show "\<bar>vcos eps xs ys\<bar> \<le> 1" using assms(2) by (simp add: vcos_def dot)
  show "grad_cosine eps (vsum (vmul xs ys)) (vsum (vmul xs xs)) (vsum (vmul ys ys)) = vcos eps xs ys"
  proof (cases "?d \<le> eps")
    case True
    then show ?thesis by (simp add: grad_cosine_def clamp_min_id square_nonneg d vcos_def)
  next
    case False
    then have "clamp (-1) 1 (vsum (vmul xs ys) / ?d) = vsum (vmul xs ys) / ?d"
      using frac by (intro clamp_id) linarith+
    then show ?thesis using False by (simp add: grad_cosine_def clamp_min_id square_nonneg d vcos_def dot)
  qed
qed

text \<open>A backward pass that adds the gradient of the loss, as autograd does.\<close>

definition accumulate :: "vec option \<Rightarrow> vec option \<Rightarrow> vec option" where
  "accumulate new old = (case new of None \<Rightarrow> old | Some v \<Rightarrow> (case old of None \<Rightarrow> Some v | Some u \<Rightarrow> Some (vadd u v)))"

definition adds_gradient :: "('l \<Rightarrow> grads \<Rightarrow> unit res \<times> grads) \<Rightarrow> ('l \<Rightarrow> grads) \<Rightarrow> bool" where
  "adds_gradient backward G \<longleftrightarrow> (\<forall>l g. backward l g = (Inr (), \<lambda>i. accumulate (G l i) (g i)))"

definition gradient_fits :: "gmodule \<Rightarrow> grads \<Rightarrow> bool" where
  "gradient_fits ps g \<longleftrightarrow> (\<forall>(_, p) \<in> set ps. \<forall>v. g (gp_id p) = Some v \<longrightarrow> length v = gp_size p)"

lemma selected_again:
  "fst (selected_parameters A) = Inr ps \<Longrightarrow>
     snd (selected_parameters A) = A\<lparr>ga_parameters := Some ps\<rparr> \<and> selected_parameters (A\<lparr>ga_parameters := Some ps\<rparr>)
       = (Inr ps, A\<lparr>ga_parameters := Some ps\<rparr>)"
  by (cases A) (auto simp: selected_parameters_def split: option.splits sum.splits)

lemma capture_eq:
  assumes b: "adds_gradient backward G" and opt: "ga_optimizer A = Some optimizer" and ps: "fst (selected_parameters A) = Inr ps"
    and sub: "set (scope_ids ps) \<subseteq> set optimizer"
  shows "\<exists>g'. capture backward l (A, g) = (Inr (snapshot ps (G l)), A\<lparr>ga_parameters := Some ps\<rparr>, g')"
proof -
  let ?g = "\<lambda>i. accumulate (G l i) (zero_grad optimizer g i)"
  have "?g (gp_id p) = G l (gp_id p)" if "(n, p) \<in> set ps" for n p
  proof -
    have "gp_id p \<in> (\<lambda>(_, q). gp_id q) ` set ps" using that by (rule rev_image_eqI) simp
    then have "gp_id p \<in> set optimizer" using sub unfolding scope_simps by blast
    then show ?thesis by (simp add: zero_grad_def accumulate_def split: option.split)
  qed
  then have "snapshot ps ?g = snapshot ps (G l)" by (auto simp: snapshot_def split: option.splits)
  moreover have "selected_parameters A = (Inr ps, A\<lparr>ga_parameters := Some ps\<rparr>)"
    using selected_again [OF ps] ps by (simp add: prod_eq_iff)
  ultimately show ?thesis
    using b opt by (simp add: capture_def adds_gradient_def)
qed

lemma snapshot_lengths:
  "gradient_fits ps g \<Longrightarrow> list_all2 (\<lambda>v q. length v = gp_size (snd q)) (snapshot ps g) ps"
  by (auto simp: snapshot_def gradient_fits_def list_all2_conv_all_nth split: option.splits prod.splits)
    (metis nth_mem)

lemma snapshots_alike:
  assumes "gradient_fits ps g" "gradient_fits ps h"
  shows "list_all2 (\<lambda>a b. length a = length b) (snapshot ps g) (snapshot ps h)"
  using snapshot_lengths [OF assms(1)] snapshot_lengths [OF assms(2)] by (auto simp: list_all2_conv_all_nth)

text \<open>the audit reports the exact geometry of the branch gradients. When it is armed, and the
  backward pass adds the gradient of each loss, \<open>audit\<close> returns the Euclidean norms of the GRPO,
  reference and evidence gradients over the scope and their pairwise cosines (0 when the product of
  the norms is at most epsilon); every cosine lies in \<open>[-1, 1]\<close> already before the clamp, and no
  earlier accumulated gradient of the scope leaks into a branch.\<close>

theorem audit_metrics_exact:
  assumes armed: "ga_armed A" and opt: "ga_optimizer A = Some optimizer" and scope: "fst (selected_parameters A) = Inr ps"
    and sub: "set (scope_ids ps) \<subseteq> set optimizer" and eps: "0 < ga_epsilon A"
    and b: "adds_gradient backward G" and fits: "\<forall>l \<in> {l1, l2, l3}. gradient_fits ps (G l)"
  defines "x \<equiv> \<lambda>l. flatten (snapshot ps (G l))" and "c \<equiv> \<lambda>l l'. vcos (ga_epsilon A) (flatten (snapshot ps (G l))) (flatten (snapshot ps (G l')))"
  shows "\<exists>M g'. audit backward l1 l2 l3 (A, g) = (Inr (Some M), A\<lparr>ga_armed := False, ga_parameters := Some ps\<rparr>, g')
    \<and> am_norms M = (vnorm (x l1), vnorm (x l2), vnorm (x l3)) \<and> am_cosines M = (c l1 l2, c l1 l3, c l2 l3)
    \<and> \<bar>c l1 l2\<bar> \<le> 1 \<and> \<bar>c l1 l3\<bar> \<le> 1 \<and> \<bar>c l2 l3\<bar> \<le> 1"
proof -
  let ?A = "A\<lparr>ga_armed := False\<rparr>" and ?B = "A\<lparr>ga_armed := False, ga_parameters := Some ps\<rparr>"
  have A: "ga_optimizer ?A = Some optimizer" "fst (selected_parameters ?A) = Inr ps" "ga_optimizer ?B = Some optimizer"
    using opt scope by (auto simp: selected_parameters_def split: option.splits sum.splits)
  have B: "selected_parameters ?B = (Inr ps, ?B)" using selected_again [OF A(2)] by simp
  obtain g1 where c1: "capture backward l1 (?A, g) = (Inr (snapshot ps (G l1)), ?B, g1)"
    using capture_eq [OF b A(1,2) sub, of l1 g] by auto
  obtain g2 where c2: "capture backward l2 (?B, g1) = (Inr (snapshot ps (G l2)), ?B, g2)"
    using capture_eq [OF b A(3) _ sub, of l2 g1] B by auto
  obtain g3 where c3: "capture backward l3 (?B, g2) = (Inr (snapshot ps (G l3)), ?B, g3)"
    using capture_eq [OF b A(3) _ sub, of l3 g2] B by auto
  have dots: "grad_dot (snapshot ps (G l)) (snapshot ps (G l')) = Inr (vsum (vmul (x l) (x l')))"
    "length (x l) = length (x l')" if "l \<in> {l1, l2, l3}" "l' \<in> {l1, l2, l3}" for l l'
    using grad_dot_flat [OF snapshots_alike [of ps "G l" "G l'"]] fits that by (auto simp: x_def)
  have cs: "grad_cosine (ga_epsilon A) (vsum (vmul (x l) (x l'))) (vsum (vmul (x l) (x l))) (vsum (vmul (x l') (x l'))) = c l l'"
    "\<bar>c l l'\<bar> \<le> 1" if "l \<in> {l1, l2, l3}" "l' \<in> {l1, l2, l3}" for l l'
    using vcos_bounds [OF dots(2) [OF that], of "ga_epsilon A"] eps by (simp_all add: c_def x_def)
  have "max (vnorm (x l1)) (ga_epsilon A) \<noteq> 0" using eps by (simp add: max_def)
  then show ?thesis
    using armed opt c1 c2 c3 B dots(1) cs
    by (simp add: audit_def capture_three_def branch_metrics_def grad_norm_eq)
qed

theorem audit_metrics_exact_witness:
  "\<exists>M g'. audit (\<lambda>l g. (Inr (), \<lambda>i. accumulate (if i = 1 then Some [l] else None) (g i))) 1 2 (-1)
     (\<lparr>ga_max_batches = 1, ga_max_elements = 4, ga_max_tensors = 4, ga_epsilon = 1/2,
       ga_module = Some [(''w'', \<lparr>gp_id = 1, gp_size = 1, gp_trainable = True\<rparr>)], ga_optimizer = Some [1],
       ga_parameters = None, ga_index = 1, ga_armed = True\<rparr>, \<lambda>_. Some [7])
     = (Inr (Some M), \<lparr>ga_max_batches = 1, ga_max_elements = 4, ga_max_tensors = 4, ga_epsilon = 1/2,
       ga_module = Some [(''w'', \<lparr>gp_id = 1, gp_size = 1, gp_trainable = True\<rparr>)], ga_optimizer = Some [1],
       ga_parameters = Some [(''w'', \<lparr>gp_id = 1, gp_size = 1, gp_trainable = True\<rparr>)], ga_index = 1, ga_armed = False\<rparr>, g')
     \<and> am_norms M = (1, 2, 1) \<and> am_cosines M = (1, -1, -1)"
proof -
  let ?ps = "[(''w'', \<lparr>gp_id = 1, gp_size = 1, gp_trainable = True\<rparr>)]"
  let ?A = "\<lparr>ga_max_batches = 1, ga_max_elements = 4, ga_max_tensors = 4, ga_epsilon = 1/2, ga_module = Some ?ps,
    ga_optimizer = Some [1], ga_parameters = None, ga_index = 1, ga_armed = True\<rparr>"
  let ?G = "\<lambda>(l :: real) i. if i = (1 :: nat) then Some [l] else None"
  have scope: "fst (selected_parameters ?A) = Inr ?ps"
    by (simp add: selected_parameters_def select_bounded_tail_parameters_def trainable_def)
  have b: "adds_gradient (\<lambda>l g. (Inr (), \<lambda>i. accumulate (?G l i) (g i))) ?G" by (simp add: adds_gradient_def)
  show ?thesis
    using audit_metrics_exact [OF _ _ scope _ _ b, of "[1]" 1 2 "-1" "\<lambda>_. Some [7]"]
    by (simp add: scope_ids_def gradient_fits_def snapshot_def flatten_def vnorm_def vcos_def)
qed

section \<open>Runs of the auditor\<close>

lemma audit_cases:
  "audit backward l1 l2 l3 (A, g) =
     (if ga_armed A \<and> ga_optimizer A \<noteq> None
      then (fst (audit backward l1 l2 l3 (A, g)), snd (audit backward l1 l2 l3 (A, g)))
      else (fst (audit backward l1 l2 l3 (A, g)), A, g))"
  by (auto simp: audit_def split: option.splits)

text \<open>What the captures never change.\<close>

definition same_limits :: "auditor \<Rightarrow> auditor \<Rightarrow> bool" where
  "same_limits A B \<longleftrightarrow> ga_max_batches A = ga_max_batches B \<and> ga_index A = ga_index B \<and> ga_armed A = ga_armed B
     \<and> ga_optimizer A = ga_optimizer B"

lemma selected_limits: "same_limits (snd (selected_parameters A)) A"
  by (auto simp: selected_parameters_def same_limits_def split: option.splits sum.splits)

lemma capture_limits: "same_limits (fst (snd (capture backward l (A, g)))) A"
  using selected_limits [of A]
  by (auto simp: capture_def same_limits_def split: option.splits sum.splits prod.splits)

lemma capture_three_limits: "same_limits (fst (snd (capture_three backward l1 l2 l3 (A, g)))) A"
proof -
  obtain r1 A1 g1 where 1: "capture backward l1 (A, g) = (r1, A1, g1)" by (metis prod_cases3)
  obtain r2 A2 g2 where 2: "capture backward l2 (A1, g1) = (r2, A2, g2)" by (metis prod_cases3)
  obtain r3 A3 g3 where 3: "capture backward l3 (A2, g2) = (r3, A3, g3)" by (metis prod_cases3)
  have "same_limits A1 A" "same_limits A2 A" "same_limits A3 A"
    using capture_limits [of backward l1 A g] capture_limits [of backward l2 A1 g1] capture_limits [of backward l3 A2 g2] 1 2 3
    by (auto simp: same_limits_def)
  then show ?thesis using 1 2 3 by (auto simp: capture_three_def split: sum.splits)
qed

lemma audit_result:
  assumes "ga_armed A" "ga_optimizer A = Some optimizer"
  shows "same_limits (fst (snd (audit backward l1 l2 l3 (A, g)))) (A\<lparr>ga_armed := False\<rparr>)"
    and "i \<in> set optimizer \<Longrightarrow> snd (snd (audit backward l1 l2 l3 (A, g))) i = None"
  using assms capture_three_limits [of backward l1 l2 l3 "A\<lparr>ga_armed := False\<rparr>" g]
  by (auto simp: audit_def zero_grad_def split: sum.splits prod.splits)

lemma audit_idle:
  "\<not> (ga_armed A \<and> ga_optimizer A \<noteq> None) \<Longrightarrow> snd (audit backward l1 l2 l3 (A, g)) = (A, g)"
  by (auto simp: audit_def split: option.splits)

text \<open>The steps of a training run: gradients change outside the audit, the auditor is bound, a batch
  begins, and losses are audited; the number counts the audits that measured.\<close>

inductive auditor_run ::
  "('l \<Rightarrow> grads \<Rightarrow> unit res \<times> grads) \<Rightarrow> auditor \<Rightarrow> nat \<Rightarrow> auditor \<times> grads \<Rightarrow> bool"
  for backward :: "'l \<Rightarrow> grads \<Rightarrow> unit res \<times> grads" and A0 :: auditor where
  start: "auditor_run backward A0 0 (A0, g)"
| train: "auditor_run backward A0 n (A, g) \<Longrightarrow> auditor_run backward A0 n (A, g')"
| bound: "auditor_run backward A0 n (A, g) \<Longrightarrow> auditor_run backward A0 n (bind_auditor m optimizer A, g)"
| batch: "auditor_run backward A0 n (A, g) \<Longrightarrow> auditor_run backward A0 n (begin_train_batch A, g)"
| audited: "auditor_run backward A0 n (A, g) \<Longrightarrow>
    auditor_run backward A0 (if ga_armed A \<and> ga_optimizer A \<noteq> None then Suc n else n) (snd (audit backward l1 l2 l3 (A, g)))"

lemma auditor_run_inv:
  assumes "auditor_run backward A0 n s" "ga_index A0 = 0" "\<not> ga_armed A0" "0 < ga_max_batches A0"
  shows "ga_max_batches (fst s) = ga_max_batches A0
    \<and> int n + of_bool (ga_armed (fst s)) \<le> min (ga_index (fst s)) (ga_max_batches A0)"
  using assms
proof (induction rule: auditor_run.induct)
  case (audited n A g l1 l2 l3)
  then show ?case
  proof (cases "ga_armed A \<and> ga_optimizer A \<noteq> None")
    case True
    then obtain optimizer where "ga_armed A" "ga_optimizer A = Some optimizer" by blast
    from audit_result(1) [OF this, of backward l1 l2 l3 g] show ?thesis using audited True by (simp add: same_limits_def)
  next
    case False
    show ?thesis using audited audit_idle [OF False, of backward l1 l2 l3 g] False by auto
  qed
next
  case (batch n A g)
  then show ?case by (cases "ga_armed A") (auto simp: begin_train_batch_def)
qed (auto simp: bind_auditor_def)

text \<open>C40: the audit stays within its budget and leaves no trace. In every run of the auditor at most
  \<open>max_train_batches\<close> audits measure, and never more than batches have begun; an audit that measures
  disarms the auditor and clears every gradient of the optimizer, also when a capture raises, and any
  other audit changes nothing.\<close>

theorem auditor_bounded_and_clean:
  assumes init: "init_auditor max_batches max_elements max_tensors epsilon = Inr A0"
    and run: "auditor_run backward A0 n (A, g)"
  shows "int n \<le> max_batches \<and> int n \<le> ga_index A \<and> (ga_armed A \<longrightarrow> int n < max_batches \<and> int n < ga_index A)
    \<and> (case audit backward l1 l2 l3 (A, g) of (_, A', g') \<Rightarrow>
        if ga_armed A \<and> ga_optimizer A \<noteq> None
        then \<not> ga_armed A' \<and> (\<forall>i \<in> set (the (ga_optimizer A)). g' i = None) else A' = A \<and> g' = g)"
proof -
  have A0: "ga_index A0 = 0" "\<not> ga_armed A0" "0 < ga_max_batches A0" "ga_max_batches A0 = max_batches"
    using init by (auto simp: init_auditor_def split: if_splits)
  note I = auditor_run_inv [OF run A0(1,2,3)]
  have "case audit backward l1 l2 l3 (A, g) of (_, A', g') \<Rightarrow>
        if ga_armed A \<and> ga_optimizer A \<noteq> None
        then \<not> ga_armed A' \<and> (\<forall>i \<in> set (the (ga_optimizer A)). g' i = None) else A' = A \<and> g' = g"
  proof (cases "ga_armed A \<and> ga_optimizer A \<noteq> None")
    case True
    then obtain optimizer where o: "ga_armed A" "ga_optimizer A = Some optimizer" by blast
    show ?thesis using audit_result(1) [OF o, of backward l1 l2 l3 g] audit_result(2) [OF o, of _ backward l1 l2 l3 g] o by (auto simp: same_limits_def split: prod.split)
  next
    case False
    show ?thesis using audit_idle [OF False, of backward l1 l2 l3 g] False by (auto split: prod.split)
  qed
  moreover have "int n \<le> max_batches \<and> int n \<le> ga_index A \<and> (ga_armed A \<longrightarrow> int n < max_batches \<and> int n < ga_index A)"
    using I A0(4) by (cases "ga_armed A") auto
  ultimately show ?thesis by blast
qed

theorem auditor_bounded_and_clean_witness:
  "\<exists>A0. init_auditor 1 4 4 1 = Inr A0 \<and>
    (case audit (\<lambda>l g. (Inl (RuntimeError ''out of memory''), \<lambda>_. Some [5])) () () ()
        (begin_train_batch (bind_auditor [] [3] A0), \<lambda>_. None) of (_, A', g') \<Rightarrow> \<not> ga_armed A' \<and> g' 3 = None)"
proof -
  obtain A0 where A0: "init_auditor 1 4 4 1 = Inr A0" by (simp add: init_auditor_def)
  let ?b = "\<lambda>l g. (Inl (RuntimeError ''out of memory''), \<lambda>_. Some [5])" and ?A = "begin_train_batch (bind_auditor [] [3] A0)"
  have run: "auditor_run ?b A0 0 (?A, \<lambda>_. None)"
    by (intro auditor_run.batch auditor_run.bound auditor_run.start)
  have "ga_armed ?A \<and> ga_optimizer ?A = Some [3]"
    using A0 by (auto simp: init_auditor_def begin_train_batch_def bind_auditor_def)
  then show ?thesis using auditor_bounded_and_clean [OF A0 run, of "()" "()" "()"] A0 by auto
qed

end
