(* ===== verification/Jagged.thy ===== *)
theory Jagged
  imports Prelude
begin

text \<open>
  Ragged batches of the veRL engine. A nested (jagged) tensor is the list of its rows; a padded
  tensor is a rectangle. The helpers of \<open>verl/verl/trainer/distillation/verpo_zpd.py\<close> that find
  the predictor positions of the response tokens in the packed sequence, select and scatter rows
  there, and \<open>no_padding_2_padding\<close> (\<open>verl/verl/workers/utils/padding.py\<close>), which cuts the
  responses out of a packed output again. Broadcasting follows PyTorch: operands of one length
  combine entry by entry, a length of one is repeated, every other pair raises.
\<close>

section \<open>Nested tensors\<close>

datatype 'a batched = Nested "'a list list" | Padded "'a list list"

fun is_nested :: "'a batched \<Rightarrow> bool" where
  "is_nested (Nested xss) = True"
| "is_nested (Padded xss) = False"

fun nested_rows :: "'a batched \<Rightarrow> 'a list list" where
  "nested_rows (Nested xss) = xss"
| "nested_rows (Padded xss) = xss"

text \<open>\<open>tensor.offsets()\<close>, \<open>tensor.offsets().diff()\<close> and \<open>tensor.values()\<close>; a padded tensor has
  none of them.\<close>

fun offsets_from :: "nat \<Rightarrow> nat list \<Rightarrow> nat list" where
  "offsets_from a [] = [a]"
| "offsets_from a (n # ns) = a # offsets_from (a + n) ns"

definition offsets :: "'a list list \<Rightarrow> nat list" where
  "offsets xss = offsets_from 0 (map length xss)"

definition nested_lens :: "'a batched \<Rightarrow> nat list res" where
  "nested_lens t = (if is_nested t then Inr (map length (nested_rows t)) else Inl (AttributeError ''offsets''))"

definition nested_values :: "'a batched \<Rightarrow> 'a list res" where
  "nested_values t = (if is_nested t then Inr (concat (nested_rows t))
     else Inl (RuntimeError ''values expected sparse tensor layout''))"

text \<open>\<open>to_padded_tensor(fill)\<close>.\<close>

definition pad_row :: "'a \<Rightarrow> nat \<Rightarrow> 'a list \<Rightarrow> 'a list" where
  "pad_row fill n xs = xs @ replicate (n - length xs) fill"

definition max_len :: "'a list list \<Rightarrow> nat" where
  "max_len xss = foldr max (map length xss) 0"

definition pad_rows :: "'a \<Rightarrow> nat \<Rightarrow> 'a list list \<Rightarrow> 'a list list" where
  "pad_rows fill n xss = map (pad_row fill n) xss"

fun to_padded :: "'a \<Rightarrow> 'a batched \<Rightarrow> 'a list list" where
  "to_padded fill (Nested xss) = pad_rows fill (max_len xss) xss"
| "to_padded fill (Padded xss) = xss"

text \<open>\<open>tensor.shape\<close> of a rectangle.\<close>

definition mat_shape :: "'a list list \<Rightarrow> nat list" where
  "mat_shape xss = length xss # (if xss = [] then [] else [length (hd xss)])"

definition broadcast2 :: "('a \<Rightarrow> 'b \<Rightarrow> 'c) \<Rightarrow> 'a list \<Rightarrow> 'b list \<Rightarrow> 'c list res" where
  "broadcast2 f xs ys =
     (if length xs = length ys then Inr (map2 f xs ys)
      else if length xs = 1 then Inr (map (f (hd xs)) ys)
      else if length ys = 1 then Inr (map (\<lambda>x. f x (hd ys)) xs)
      else Inl (RuntimeError ''broadcast''))"

section \<open>Predictor positions\<close>

text \<open>The loop over \<open>zip(offsets, prompt_lens, response_lens, strict=True)\<close>.\<close>

definition strict_zip_error :: err where
  "strict_zip_error = ValueError ''zip() arguments have different lengths''"

fun predictor_pieces :: "nat list \<Rightarrow> int list \<Rightarrow> nat list \<Rightarrow> nat list list res" where
  "predictor_pieces (o1 # os) (p # ps) (r # rs) =
     (if p \<le> 0 then Inl (ValueError ''Every VERPO prompt must contain at least one token'')
      else rbind (predictor_pieces os ps rs)
        (\<lambda>pieces. Inr (map (\<lambda>j. o1 + nat p - 1 + j) [0..<r] # pieces)))"
| "predictor_pieces [] [] [] = Inr []"
| "predictor_pieces _ _ _ = Inl strict_zip_error"

definition response_predictor_indices :: "'a batched \<Rightarrow> int list \<Rightarrow> nat list \<Rightarrow> nat list res" where
  "response_predictor_indices input_ids prompt_lens response_lens =
     (if \<not> is_nested input_ids
      then Inl (ValueError ''VERPO currently requires use_remove_padding=True nested inputs'')
      else rbind (predictor_pieces (butlast (offsets (nested_rows input_ids))) prompt_lens response_lens)
        (\<lambda>pieces. Inr (concat pieces)))"

text \<open>\<open>torch.repeat_interleave(values, response_lens)\<close>; a single repeat count is broadcast.\<close>

definition repeat_rows_over_responses :: "'a list \<Rightarrow> nat list \<Rightarrow> 'a list res" where
  "repeat_rows_over_responses values response_lens =
     (if length response_lens = length values then Inr (concat (map2 replicate response_lens values))
      else if length response_lens = 1 then Inr (concat (map (replicate (hd response_lens)) values))
      else Inl (RuntimeError ''repeats must have the same size as input along dim''))"

definition first_nested_value_per_row :: "'a batched \<Rightarrow> 'a list res" where
  "first_nested_value_per_row values =
     (if \<not> is_nested values then Inl (ValueError ''Expected a nested response tensor'')
      else if list_ex (\<lambda>xs. xs = []) (nested_rows values)
      then Inl (ValueError ''VERPO does not support empty sampled responses'')
      else Inr (map hd (nested_rows values)))"

section \<open>Selecting and scattering rows\<close>

definition narrow_rows :: "'a list \<Rightarrow> nat \<Rightarrow> nat \<Rightarrow> 'a list res" where
  "narrow_rows values start n =
     (if start + n \<le> length values then Inr (take n (drop start values))
      else Inl (RuntimeError ''start + length exceeds dimension size''))"

definition index_rows :: "'a list \<Rightarrow> nat list \<Rightarrow> 'a list res" where
  "index_rows values idx =
     (if list_all (\<lambda>i. i < length values) idx then Inr (map (\<lambda>i. values ! i) idx)
      else Inl (IndexError ''index is out of bounds''))"

definition unit_steps :: "nat list \<Rightarrow> bool" where
  "unit_steps idx = list_all (\<lambda>(a, b). b = a + 1) (zip idx (tl idx))"

definition indexed_rows_view_when_contiguous :: "'a list \<Rightarrow> nat list \<Rightarrow> 'a list res" where
  "indexed_rows_view_when_contiguous values idx =
     (if idx = [] then narrow_rows values 0 0
      else if length idx = 1 \<or> unit_steps idx then narrow_rows values (hd idx) (length idx)
      else index_rows values idx)"

text \<open>\<open>full = torch.zeros(n); full[idx] = values\<close>.\<close>

definition scatter_rows :: "'a \<Rightarrow> nat \<Rightarrow> nat list \<Rightarrow> 'a list \<Rightarrow> 'a list" where
  "scatter_rows zero n idx values = foldl (\<lambda>full (i, x). full[i := x]) (replicate n zero) (zip idx values)"

section \<open>Back to padded responses\<close>

text \<open>\<open>F.pad(xs, (0, n - len))\<close>: zeros on the right, or a cut when the target is shorter.\<close>

definition fpad :: "int \<Rightarrow> vec \<Rightarrow> vec" where
  "fpad pad xs = (if 0 \<le> pad then xs @ replicate (nat pad) 0 else take (nat (int (length xs) + pad)) xs)"

record response_layout =
  rl_prompts :: "int batched"
  rl_responses :: "int batched"
  rl_attention_mask :: "bool list list"
  rl_max_response_len :: int

text \<open>\<open>prompt_lens\<close>, \<open>response_lens\<close> and \<open>max_response_len\<close>. \<open>rl_max_response_len\<close> is the non-tensor
  entry of the batch, -1 when it is absent.\<close>

definition response_lengths :: "response_layout \<Rightarrow> (nat list \<times> nat list \<times> int) res" where
  "response_lengths D =
     (if is_nested (rl_prompts D)
      then rbind (nested_lens (rl_prompts D)) (\<lambda>prompt_lens.
        rbind (nested_lens (rl_responses D)) (\<lambda>response_lens.
        if rl_max_response_len D < 0 \<and> response_lens = [] then Inl (RuntimeError ''max of an empty tensor'')
        else Inr (prompt_lens, response_lens,
          if rl_max_response_len D < 0 then int (foldr max response_lens 0) else rl_max_response_len D)))
      else let width = length (hd (nested_rows (rl_prompts D)));
          prompt_lens = map (\<lambda>m. count_list (take width m) True) (rl_attention_mask D);
          response_lens = map (\<lambda>m. count_list (drop width m) True) (rl_attention_mask D)
        in Inr (prompt_lens, response_lens, int (length (hd (nested_rows (rl_responses D))))))"

definition cut_response :: "int \<Rightarrow> vec \<Rightarrow> nat \<Rightarrow> nat \<Rightarrow> vec" where
  "cut_response max_response_len values resp_len seq_offset =
     fpad (max_response_len - int resp_len) (slice (seq_offset - resp_len - 1) (seq_offset - 1) values)"

text \<open>A packed tensor is a vector over all tokens of the batch; a nested one is read through
  \<open>values()\<close>. \<open>torch.stack\<close> takes rows of one length only.\<close>

definition no_padding_2_padding :: "vec \<Rightarrow> response_layout \<Rightarrow> vec list res" where
  "no_padding_2_padding values D =
     rbind (response_lengths D) (\<lambda>(prompt_lens, response_lens, max_response_len).
     rbind (broadcast2 (+) prompt_lens response_lens) (\<lambda>sequence_lens.
     let sequence_offsets = tl (offsets_from 0 sequence_lens) in
     if sequence_offsets = [] then Inl (IndexError ''index -1 is out of bounds'')
     else if last sequence_offsets \<noteq> length values then Inl (AssertionError ''sequence lengths'')
     else if 0 \<in> set prompt_lens
     then Inl (AssertionError ''seq_offset - resp_len - 1 assumes prompt_len > 0'')
     else if length response_lens \<noteq> length sequence_offsets then Inl strict_zip_error
     else let response_list = map2 (cut_response max_response_len values) response_lens sequence_offsets
     in if list_all (\<lambda>xs. length xs = length (hd response_list)) response_list then Inr response_list
        else Inl (RuntimeError ''stack expects each tensor to be equal size'')))"


section \<open>Packed layouts\<close>

text \<open>A packed batch is given by its prompt lengths and its response values; block \<open>i\<close> of the packed
  tensor holds the values one position to the left of the response tokens.\<close>

definition packed_len :: "(nat \<times> 'a list) list \<Rightarrow> nat" where
  "packed_len L = (\<Sum>(p, v)\<leftarrow>L. p + length v)"

definition packed_block :: "'a \<Rightarrow> nat \<times> 'a list \<Rightarrow> 'a list" where
  "packed_block zero b = replicate (fst b - 1) zero @ snd b @ [zero]"

definition packed :: "'a \<Rightarrow> (nat \<times> 'a list) list \<Rightarrow> 'a list" where
  "packed zero L = concat (map (packed_block zero) L)"

fun positions_from :: "nat \<Rightarrow> (nat \<times> 'a list) list \<Rightarrow> nat list" where
  "positions_from a [] = []"
| "positions_from a ((p, v) # L) = [a + p - 1..<a + p - 1 + length v] @ positions_from (a + p + length v) L"

lemma packed_simps [simp]:
  "packed_len [] = 0" "packed_len ((p, v) # L) = p + length v + packed_len L"
  "packed zero [] = []" "packed zero (b # L) = packed_block zero b @ packed zero L"
  by (simp_all add: packed_len_def packed_def)

lemma length_packed_block [simp]: "0 < fst b \<Longrightarrow> length (packed_block zero b) = fst b + length (snd b)"
  by (simp add: packed_block_def)

lemma offsets_from_not_Nil [simp]: "offsets_from a ns \<noteq> []"
  by (cases ns) simp_all

lemma length_offsets_from [simp]: "length (offsets_from a ns) = Suc (length ns)"
  by (induction ns arbitrary: a) simp_all

lemma hd_offsets_from [simp]: "hd (offsets_from a ns) = a"
  by (cases ns) simp_all

lemma last_offsets_from: "last (offsets_from a ns) = a + sum_list ns"
  by (induction ns arbitrary: a) simp_all

lemma offsets_from_tl: "offsets_from a ns = a # tl (offsets_from a ns)"
  by (cases ns) simp_all

lemma predictor_pieces_packed:
  assumes "\<forall>b \<in> set L. 0 < fst b"
  shows "\<exists>pieces. predictor_pieces (butlast (offsets_from a (map (\<lambda>b. fst b + length (snd b)) L)))
      (map (int \<circ> fst) L) (map (length \<circ> snd) L) = Inr pieces \<and> concat pieces = positions_from a L"
  using assms
proof (induction L arbitrary: a)
  case (Cons b L)
  obtain p v where b: "b = (p, v)" by (cases b)
  obtain pieces where IH: "predictor_pieces (butlast (offsets_from (a + (p + length v))
        (map (\<lambda>b. fst b + length (snd b)) L))) (map (int \<circ> fst) L) (map (length \<circ> snd) L) = Inr pieces"
      "concat pieces = positions_from (a + (p + length v)) L"
    using Cons.IH [of "a + (p + length v)"] Cons.prems by (meson list.set_intros(2))
  have piece: "map ((+) (a + p - Suc 0)) [0..<length v] = [a + p - Suc 0..<a + p - Suc 0 + length v]"
    by (rule nth_equalityI) simp_all
  have "0 < p" using Cons.prems b by simp
  then show ?case using IH b piece by (simp add: comp_def add.assoc)
qed simp

lemma write_block:
  assumes "length w = length v"
  shows "foldl (\<lambda>full (i, x). full[i := x]) (pre @ w @ rest) (zip [length pre..<length pre + length v] v)
    = pre @ v @ rest"
  using assms
proof (induction v arbitrary: pre w)
  case (Cons x v)
  obtain y w' where w: "w = y # w'" "length w' = length v" using Cons.prems by (cases w) auto
  have "foldl (\<lambda>full (i, x). full[i := x]) ((pre @ [x]) @ w' @ rest)
      (zip [length (pre @ [x])..<length (pre @ [x]) + length v] v) = (pre @ [x]) @ v @ rest"
    by (rule Cons.IH) (simp add: w)
  then show ?case by (simp add: w upt_conv_Cons del: upt_Suc)
qed simp

lemma length_positions_from [simp]:
  "length (positions_from a L) = length (concat (map snd L))"
  by (induction a L rule: positions_from.induct) simp_all

lemma scatter_packed_from:
  assumes "\<forall>b \<in> set L. 0 < fst b"
  shows "foldl (\<lambda>full (i, x). full[i := x]) (pre @ replicate (packed_len L) zero)
      (zip (positions_from (length pre) L) (concat (map snd L))) = pre @ packed zero L"
  using assms
proof (induction L arbitrary: pre)
  case (Cons b L)
  obtain p v where b: "b = (p, v)" "0 < p" using Cons.prems by (cases b) auto
  let ?upd = "\<lambda>full (i, x). full[i := x]" and ?n = "packed_len L"
  let ?pre = "pre @ replicate (p - 1) zero"
  have init: "pre @ replicate (packed_len (b # L)) zero
      = ?pre @ replicate (length v) zero @ (zero # replicate ?n zero)"
    using b by (simp add: replicate_add [symmetric] flip: replicate_Suc)
  have idx: "[length pre + p - 1..<length pre + p - 1 + length v] = [length ?pre..<length ?pre + length v]"
    using b by simp
  have written: "foldl ?upd (?pre @ replicate (length v) zero @ (zero # replicate ?n zero))
      (zip [length ?pre..<length ?pre + length v] v) = (pre @ packed_block zero b) @ replicate ?n zero"
    by (subst write_block) (simp_all add: b packed_block_def)
  have "foldl ?upd ((pre @ packed_block zero b) @ replicate ?n zero)
      (zip (positions_from (length (pre @ packed_block zero b)) L) (concat (map snd L)))
    = (pre @ packed_block zero b) @ packed zero L"
    by (rule Cons.IH) (use Cons.prems in simp)
  moreover have "length (pre @ packed_block zero b) = length pre + p + length v" using b by simp
  moreover have "zip (positions_from (length pre) (b # L)) (concat (map snd (b # L)))
      = zip [length ?pre..<length ?pre + length v] v
        @ zip (positions_from (length pre + p + length v) L) (concat (map snd L))"
    using b by (simp add: zip_append)
  ultimately show ?case
    by (simp only: init foldl_append written) simp
qed simp

lemma scatter_packed:
  assumes "\<forall>b \<in> set L. 0 < fst b"
  shows "scatter_rows zero (packed_len L) (positions_from 0 L) (concat (map snd L)) = packed zero L"
  using scatter_packed_from [OF assms, of "[]" zero] by (simp add: scatter_rows_def)

lemma cut_packed_from:
  assumes "\<forall>b \<in> set L. 0 < fst b"
  shows "map2 (cut_response m (pre @ packed 0 L)) (map (length \<circ> snd) L)
      (tl (offsets_from (length pre) (map (\<lambda>b. fst b + length (snd b)) L)))
    = map (\<lambda>b. fpad (m - int (length (snd b))) (snd b)) L"
  using assms
proof (induction L arbitrary: pre)
  case (Cons b L)
  obtain p v where b: "b = (p, v)" "0 < p" using Cons.prems by (cases b) auto
  let ?lens = "map (\<lambda>b. fst b + length (snd b)) L"
  have tail: "offsets_from (length pre + (p + length v)) ?lens
      = (length pre + (p + length v)) # tl (offsets_from (length pre + (p + length v)) ?lens)"
    by (rule offsets_from_tl)
  have IH: "map2 (cut_response m ((pre @ packed_block 0 b) @ packed 0 L)) (map (length \<circ> snd) L)
      (tl (offsets_from (length (pre @ packed_block 0 b)) ?lens))
    = map (\<lambda>b. fpad (m - int (length (snd b))) (snd b)) L"
    by (rule Cons.IH) (use Cons.prems in simp)
  have "slice (length pre + (p + length v) - length v - 1) (length pre + (p + length v) - 1)
      (pre @ packed 0 (b # L)) = v"
    using b by (simp add: slice_def packed_block_def)
  then have "cut_response m (pre @ packed 0 (b # L)) (length v) (length pre + (p + length v))
      = fpad (m - int (length v)) v"
    by (simp add: cut_response_def)
  then show ?case
    using IH b by (simp, subst tail) (simp add: comp_def)
qed simp

lemma scatter_read_back:
  assumes "\<forall>b \<in> set L. 0 < fst b" and "\<forall>b \<in> set L. int (length (snd b)) \<le> m"
  shows "map2 (cut_response m (packed 0 L)) (map (length \<circ> snd) L)
      (tl (offsets_from 0 (map (\<lambda>b. fst b + length (snd b)) L)))
    = pad_rows 0 (nat m) (map snd L)"
  using cut_packed_from [OF assms(1), of m "[]"] assms(2)
  by (simp add: pad_rows_def pad_row_def fpad_def nat_diff_distrib)

lemma unit_steps_nth:
  assumes "k < length idx" and "idx \<noteq> [] \<and> (length idx = 1 \<or> unit_steps idx)"
  shows "idx ! k = hd idx + k"
  using assms(1)
proof (induction k)
  case (Suc k)
  have "idx ! Suc k = idx ! k + 1"
    using assms(2) Suc.prems by (auto simp: unit_steps_def list_all_length nth_tl)
  then show ?case using Suc by simp
qed (simp add: hd_conv_nth assms(2))

lemma view_is_indexing:
  assumes "list_all (\<lambda>i. i < length values) idx"
  shows "indexed_rows_view_when_contiguous values idx = Inr (map (\<lambda>i. values ! i) idx)"
proof (cases "idx \<noteq> [] \<and> (length idx = 1 \<or> unit_steps idx)")
  case True
  have step: "idx ! k = hd idx + k" if "k < length idx" for k
    using that True by (rule unit_steps_nth)
  have "idx ! (length idx - 1) < length values"
    using assms True by (auto simp: list_all_length)
  then have bound: "hd idx + length idx \<le> length values"
    using step [of "length idx - 1"] True by (cases idx) auto
  have "take (length idx) (drop (hd idx) values) = map (\<lambda>i. values ! i) idx"
    by (rule nth_equalityI) (use bound step in auto)
  then show ?thesis
    using True bound by (simp add: indexed_rows_view_when_contiguous_def narrow_rows_def)
next
  case False
  then show ?thesis
    using assms by (auto simp: indexed_rows_view_when_contiguous_def narrow_rows_def index_rows_def)
qed

end
