(* ===== verification/AggLoss.thy ===== *)
theory AggLoss
  imports Jagged Controller
begin

text \<open>
  The loss arithmetic of \<open>verl/verl/trainer/ppo/core_algos.py\<close> that the VERPO batch loss uses:
  \<open>masked_sum\<close> and \<open>masked_mean\<close> (\<open>utils/torch_functional.py\<close>), the aggregation \<open>agg_loss\<close> of
  a micro-batch loss matrix into its share of the global loss, the clipped policy loss
  \<open>compute_policy_loss_vanilla\<close> and \<open>kl_penalty\<close>; and \<open>modulate_advantages\<close>
  (\<open>workers/utils/losses.py\<close>). A matrix is the list of its rows. A scalar loss is a host float: a
  division by zero gives \<open>NaN\<close>, which stands for every non-finite value. Matrices whose rows do not
  line up with the mask are a \<open>RuntimeError\<close>.
\<close>

section \<open>Masked sums\<close>

definition mask_f :: "bool list \<Rightarrow> vec" where
  "mask_f tmask = map of_bool tmask"

definition masked_sum_all :: "vec \<Rightarrow> vec \<Rightarrow> real" where
  "masked_sum_all values tmask = vsum (map2 (\<lambda>v m. (if m \<noteq> 0 then v else 0) * m) values tmask)"

definition pf_div :: "pyfloat \<Rightarrow> real \<Rightarrow> pyfloat" where
  "pf_div x y = (case x of Fin a \<Rightarrow> if y = 0 then NaN else Fin (a / y) | _ \<Rightarrow> NaN)"

definition masked_mean_eps :: "vec \<Rightarrow> vec \<Rightarrow> real" where
  "masked_mean_eps values tmask = masked_sum_all values tmask / (vsum tmask + 1 / 10 ^ 8)"

section \<open>Aggregation\<close>

record batch_info =
  bi_dp_size :: int
  bi_batch_num_tokens :: "int option"
  bi_global_batch_size :: "int option"
  bi_loss_scale_factor :: "int option"

definition flat_mask :: "bool list list \<Rightarrow> vec" where
  "flat_mask loss_mask = mask_f (concat loss_mask)"

definition seq_token_counts :: "bool list list \<Rightarrow> vec" where
  "seq_token_counts loss_mask = map (\<lambda>m. vsum (mask_f m)) loss_mask"

definition seq_token_sums :: "vec list \<Rightarrow> bool list list \<Rightarrow> vec" where
  "seq_token_sums loss_mat loss_mask = map2 (\<lambda>l m. vsum (vmul l (mask_f m))) loss_mat loss_mask"

text \<open>The common end of the sequence modes: \<open>masked_sum(seq_losses, seq_mask) / global_batch_size *
  dp_size\<close>.\<close>

definition seq_mean :: "batch_info \<Rightarrow> vec \<Rightarrow> vec \<Rightarrow> pyfloat res" where
  "seq_mean info seq_losses counts =
     (let seq_mask = map (\<lambda>c. of_bool (0 < c)) counts;
          finish = (\<lambda>n. Inr (pf_mul (pf_div (Fin (masked_sum_all seq_losses seq_mask)) n) (Fin (real_of_int (bi_dp_size info)))))
      in case bi_global_batch_size info of
           Some n \<Rightarrow> finish (real_of_int n)
         | None \<Rightarrow> if 1 < bi_dp_size info
             then Inl (ValueError ''global_batch_size is required when dp_size > 1'')
             else finish (vsum seq_mask))"

definition agg_loss :: "vec list \<Rightarrow> bool list list \<Rightarrow> string \<Rightarrow> batch_info \<Rightarrow> pyfloat res" where
  "agg_loss loss_mat loss_mask mode info =
     (if map length loss_mat \<noteq> map length loss_mask then Inl (RuntimeError ''broadcast'')
      else if mode = ''token-mean''
      then let finish = (\<lambda>n. Inr (pf_mul (pf_div (Fin (masked_sum_all (concat loss_mat) (flat_mask loss_mask))) n)
             (Fin (real_of_int (bi_dp_size info)))))
        in case bi_batch_num_tokens info of
             Some n \<Rightarrow> finish (real_of_int n)
           | None \<Rightarrow> if 1 < bi_dp_size info
               then Inl (ValueError ''(global) batch_num_tokens is required when dp_size > 1'')
               else finish (vsum (flat_mask loss_mask))
      else if mode = ''seq-mean-token-sum'' \<or> mode = ''seq-mean-token-sum-norm''
      then rbind (seq_mean info (seq_token_sums loss_mat loss_mask) (seq_token_counts loss_mask)) (\<lambda>loss.
        if mode = ''seq-mean-token-sum-norm''
        then Inr (pf_div loss (case bi_loss_scale_factor info of
            None \<Rightarrow> real (length (hd loss_mask)) | Some f \<Rightarrow> real_of_int f))
        else Inr loss)
      else if mode = ''seq-mean-token-mean''
      then seq_mean info
        (map2 (\<lambda>s c. s / (c + 1 / 10 ^ 8)) (seq_token_sums loss_mat loss_mask) (seq_token_counts loss_mask))
        (seq_token_counts loss_mask)
      else Inl (ValueError ''Invalid loss_agg_mode''))"

section \<open>The clipped policy loss\<close>

record clip_config =
  cc_clip_ratio :: real
  cc_clip_ratio_low :: "real option"
  cc_clip_ratio_high :: "real option"
  cc_clip_ratio_c :: real

text \<open>One entry of \<open>pg_losses1\<close> to \<open>pg_losses3\<close>, and the loss they give.\<close>

definition clipped_ratio :: "real \<Rightarrow> real \<Rightarrow> real" where
  "clipped_ratio log_prob old_log_prob = exp (clamp (- 20) 20 (log_prob - old_log_prob))"

definition pg_loss_at :: "real \<Rightarrow> real \<Rightarrow> real \<Rightarrow> real \<Rightarrow> real \<Rightarrow> real" where
  "pg_loss_at low high clip_c advantage ratio =
     (let pg_losses1 = - advantage * ratio;
          pg_losses2 = - advantage * clamp (1 - low) (1 + high) ratio;
          clip_pg_losses1 = max pg_losses1 pg_losses2;
          pg_losses3 = - advantage * clip_c;
          clip_pg_losses2 = min pg_losses3 clip_pg_losses1
      in if advantage < 0 then clip_pg_losses2 else clip_pg_losses1)"

definition pg_clipped_at :: "real \<Rightarrow> real \<Rightarrow> real \<Rightarrow> real \<Rightarrow> real" where
  "pg_clipped_at low high advantage ratio =
     of_bool (- advantage * clamp (1 - low) (1 + high) ratio > - advantage * ratio)"

definition pg_clipped_lower_at :: "real \<Rightarrow> real \<Rightarrow> real \<Rightarrow> real \<Rightarrow> real \<Rightarrow> real" where
  "pg_clipped_lower_at low high clip_c advantage ratio =
     of_bool (max (- advantage * ratio) (- advantage * clamp (1 - low) (1 + high) ratio) > - advantage * clip_c)
     * of_bool (advantage < 0)"

definition map2_mat :: "('a \<Rightarrow> 'b \<Rightarrow> 'c) \<Rightarrow> 'a list list \<Rightarrow> 'b list list \<Rightarrow> 'c list list" where
  "map2_mat f = map2 (map2 f)"

record pg_metrics =
  pg_clipfrac :: real
  pg_ppo_kl :: real
  pg_clipfrac_lower :: real

definition compute_policy_loss_vanilla ::
  "clip_config \<Rightarrow> vec list \<Rightarrow> vec list \<Rightarrow> vec list \<Rightarrow> bool list list \<Rightarrow> string \<Rightarrow> batch_info \<Rightarrow> vec list option
    \<Rightarrow> (pyfloat \<times> pg_metrics) res" where
  "compute_policy_loss_vanilla cfg old_log_prob log_prob advantages response_mask mode info is_weights =
     (let low = (case cc_clip_ratio_low cfg of None \<Rightarrow> cc_clip_ratio cfg | Some c \<Rightarrow> c);
          high = (case cc_clip_ratio_high cfg of None \<Rightarrow> cc_clip_ratio cfg | Some c \<Rightarrow> c);
          clip_c = cc_clip_ratio_c cfg
      in if clip_c \<le> 1 then Inl (AssertionError ''The lower bound of the clip_ratio_c for dual-clip PPO should be greater than 1.0'')
      else if map length log_prob \<noteq> map length old_log_prob \<or> map length advantages \<noteq> map length log_prob
        \<or> map length response_mask \<noteq> map length log_prob
        \<or> (case is_weights of None \<Rightarrow> False | Some w \<Rightarrow> map length w \<noteq> map length log_prob)
      then Inl (RuntimeError ''broadcast'')
      else let ratio = map2_mat clipped_ratio log_prob old_log_prob;
          pg_losses = map2_mat (pg_loss_at low high clip_c) advantages ratio;
          pg_losses = (case is_weights of None \<Rightarrow> pg_losses | Some w \<Rightarrow> map2_mat (*) pg_losses w);
          mean = (\<lambda>xs. masked_mean_eps (concat xs) (flat_mask response_mask))
      in rbind (agg_loss pg_losses response_mask mode info) (\<lambda>pg_loss.
        Inr (pg_loss, \<lparr>pg_clipfrac = mean (map2_mat (pg_clipped_at low high) advantages ratio),
          pg_ppo_kl = mean (map2_mat (\<lambda>p q. - clamp (- 20) 20 (p - q)) log_prob old_log_prob),
          pg_clipfrac_lower = mean (map2_mat (pg_clipped_lower_at low high clip_c) advantages ratio)\<rparr>)))"

section \<open>KL penalty\<close>

definition kl_penalty_forward_at :: "string \<Rightarrow> real \<Rightarrow> real \<Rightarrow> real res" where
  "kl_penalty_forward_at kind logprob ref_logprob =
     (if kind = ''kl'' \<or> kind = ''k1'' then Inr (logprob - ref_logprob)
      else if kind = ''abs'' then Inr \<bar>logprob - ref_logprob\<bar>
      else if kind = ''mse'' \<or> kind = ''k2'' then Inr (1/2 * (logprob - ref_logprob)\<^sup>2)
      else if kind = ''low_var_kl'' \<or> kind = ''k3''
      then let kl = clamp (- 20) 20 (ref_logprob - logprob); ratio = exp kl; kld = ratio - kl - 1
        in Inr (clamp (- 10) 10 kld)
      else Inl (NotImplementedError kind))"

text \<open>The value of the penalty; the \<open>+\<close> suffix replaces the gradient only, by that of the
  \<open>k2\<close> estimator: its value is \<open>backward - backward.detach() + forward\<close>.\<close>

definition kl_penalty_at :: "string \<Rightarrow> real \<Rightarrow> real \<Rightarrow> real res" where
  "kl_penalty_at kind logprob ref_logprob =
     (let plus = kind \<noteq> [] \<and> last kind = CHR ''+'';
          base = (if plus then butlast kind else kind)
      in rbind (kl_penalty_forward_at base logprob ref_logprob) (\<lambda>forward_score.
        if \<not> plus then Inr forward_score
        else let backward_score = 1/2 * (logprob - ref_logprob)\<^sup>2
          in Inr (backward_score - backward_score + forward_score)))"

fun all_results :: "'a res list \<Rightarrow> 'a list res" where
  "all_results [] = Inr []"
| "all_results (r # rs) = rbind r (\<lambda>x. rbind (all_results rs) (\<lambda>xs. Inr (x # xs)))"

definition kl_penalty :: "string \<Rightarrow> vec list \<Rightarrow> vec list \<Rightarrow> vec list res" where
  "kl_penalty kind logprob ref_logprob =
     (if map length logprob \<noteq> map length ref_logprob then Inl (RuntimeError ''broadcast'')
      else rbind (kl_penalty_forward_at (if kind \<noteq> [] \<and> last kind = CHR ''+'' then butlast kind else kind) 0 0)
        (\<lambda>_. all_results (map2 (\<lambda>ps qs. all_results (map2 (kl_penalty_at kind) ps qs)) logprob ref_logprob)))"

section \<open>Advantage modulation\<close>

definition modulate_advantages :: "vec list \<Rightarrow> vec list \<Rightarrow> pyfloat \<Rightarrow> vec list res" where
  "modulate_advantages advantages weights coefficient =
     (if map length advantages \<noteq> map length weights
      then Inl (ValueError ''advantages and weights must have identical shapes'')
      else if \<not> isfinite coefficient \<and> concat weights \<noteq> []
      then Inl (ValueError ''advantage modulation scale must be finite'')
      else Inr (map2_mat (\<lambda>a w. a * (1 + the_real coefficient * w)) advantages weights))"


section \<open>Aggregation as a quotient\<close>

text \<open>The specification of \<open>agg_loss\<close>: the sum of the row losses over the divisor of the mode.\<close>

definition loss_agg_modes :: "string list" where
  "loss_agg_modes = [''token-mean'', ''seq-mean-token-sum'', ''seq-mean-token-sum-norm'', ''seq-mean-token-mean'']"

definition row_loss :: "string \<Rightarrow> vec \<Rightarrow> bool list \<Rightarrow> real" where
  "row_loss mode l m =
     (if mode = ''seq-mean-token-mean'' then vsum (vmul l (mask_f m)) / (vsum (mask_f m) + 1 / 10 ^ 8)
      else vsum (vmul l (mask_f m)))"

definition loss_total :: "string \<Rightarrow> vec list \<Rightarrow> bool list list \<Rightarrow> real" where
  "loss_total mode loss_mat loss_mask = (\<Sum>(l, m)\<leftarrow>zip loss_mat loss_mask. row_loss mode l m)"

definition token_count :: "bool list list \<Rightarrow> nat" where
  "token_count loss_mask = (\<Sum>m\<leftarrow>loss_mask. count_list m True)"

definition row_count :: "bool list list \<Rightarrow> nat" where
  "row_count loss_mask = length (filter (\<lambda>m. True \<in> set m) loss_mask)"

definition agg_divisor :: "string \<Rightarrow> real \<Rightarrow> real \<Rightarrow> real \<Rightarrow> real" where
  "agg_divisor mode tokens rows factor =
     (if mode = ''token-mean'' then tokens else if mode = ''seq-mean-token-sum-norm'' then rows * factor else rows)"

lemma vsum_mask_f: "vsum (mask_f m) = real (count_list m True)"
  by (induction m) (auto simp: vsum_def mask_f_def)

lemma length_mask_f [simp]: "length (mask_f m) = length m"
  by (simp add: mask_f_def)

lemma count_list_pos: "0 < count_list m x \<longleftrightarrow> x \<in> set m"
  by (induction m) auto

lemma concat_lengths: "map length A = map length B \<Longrightarrow> length (concat A) = length (concat B)"
  by (simp add: length_concat)

lemma masked_sum_mask: "masked_sum_all v m = vsum (vmul v m)"
proof -
  have "map2 (\<lambda>v m. (if m \<noteq> 0 then v else 0) * m) v m = map2 (*) v m"
    by (rule map_cong) auto
  then show ?thesis by (simp only: masked_sum_all_def vmul_def)
qed

lemma vsum_append: "vsum (xs @ ys) = vsum xs + vsum ys"
  by (simp add: vsum_def)

lemma vsum_simps [simp]: "vsum [] = 0" "vsum (x # xs) = x + vsum xs"
  by (simp_all add: vsum_def)

lemma masked_sum_concat:
  assumes "map length loss_mat = map length loss_mask"
  shows "masked_sum_all (concat loss_mat) (flat_mask loss_mask) = vsum (seq_token_sums loss_mat loss_mask)"
proof -
  have "list_all2 (\<lambda>l m. length l = length m) loss_mat loss_mask"
    using assms by (auto simp: list_all2_conv_all_nth list_eq_iff_nth_eq)
  then show ?thesis
    unfolding masked_sum_mask
  proof (induction loss_mat loss_mask rule: list_all2_induct)
    case (Cons l loss_mat m loss_mask)
    have "flat_mask (m # loss_mask) = mask_f m @ flat_mask loss_mask"
      by (simp add: flat_mask_def mask_f_def)
    then have "vmul (concat (l # loss_mat)) (flat_mask (m # loss_mask))
        = vmul l (mask_f m) @ vmul (concat loss_mat) (flat_mask loss_mask)"
      using Cons.hyps by (simp add: vmul_def zip_append)
    then show ?case using Cons.IH by (simp add: vsum_append seq_token_sums_def)
  qed (simp add: vmul_def seq_token_sums_def)
qed

lemma unmasked_row: "True \<notin> set m \<Longrightarrow> vsum (vmul l (mask_f m)) = 0"
proof (induction m arbitrary: l)
  case (Cons b m)
  then show ?case by (cases l) (auto simp: vmul_def mask_f_def)
qed (simp add: vmul_def mask_f_def)

text \<open>Rows without a token of the mask drop out of the sequence sums by themselves.\<close>

lemma seq_masked_sum:
  assumes "\<And>l m. True \<notin> set m \<Longrightarrow> f (vsum (vmul l (mask_f m))) (vsum (mask_f m)) = 0"
  shows "masked_sum_all (map2 f (seq_token_sums loss_mat loss_mask) (seq_token_counts loss_mask))
      (map (\<lambda>c. of_bool (0 < c)) (seq_token_counts loss_mask))
    = (\<Sum>(l, m)\<leftarrow>zip loss_mat loss_mask. f (vsum (vmul l (mask_f m))) (vsum (mask_f m)))"
  unfolding masked_sum_mask
proof (induction loss_mask arbitrary: loss_mat)
  case (Cons m loss_mask)
  then show ?case
    using assms [of m] count_list_pos [of m True]
    by (cases loss_mat) (auto simp: seq_token_sums_def seq_token_counts_def vmul_def vsum_mask_f)
qed (simp add: seq_token_sums_def seq_token_counts_def vmul_def)

lemma masked_row_counts:
  "vsum (flat_mask loss_mask) = real (token_count loss_mask)"
  "vsum (map (\<lambda>c. of_bool (0 < c)) (seq_token_counts loss_mask)) = real (row_count loss_mask)"
proof -
  show "vsum (flat_mask loss_mask) = real (token_count loss_mask)"
    by (induction loss_mask) (simp_all add: flat_mask_def token_count_def vsum_mask_f)
  show "vsum (map (\<lambda>c. of_bool (0 < c)) (seq_token_counts loss_mask)) = real (row_count loss_mask)"
    by (induction loss_mask)
      (simp_all add: seq_token_counts_def row_count_def vsum_mask_f count_list_pos)
qed

lemma agg_loss_eq:
  assumes shape: "map length loss_mat = map length loss_mask" and mode: "mode \<in> set loss_agg_modes"
    and tokens: "bi_batch_num_tokens info = Some n \<and> tokens = real_of_int n
      \<or> bi_batch_num_tokens info = None \<and> bi_dp_size info \<le> 1 \<and> tokens = real (token_count loss_mask)"
    and rows: "bi_global_batch_size info = Some k \<and> rows = real_of_int k
      \<or> bi_global_batch_size info = None \<and> bi_dp_size info \<le> 1 \<and> rows = real (row_count loss_mask)"
    and factor: "factor = (case bi_loss_scale_factor info of None \<Rightarrow> real (length (hd loss_mask)) | Some f \<Rightarrow> real_of_int f)"
    and divisor: "agg_divisor mode tokens rows factor \<noteq> 0"
  shows "agg_loss loss_mat loss_mask mode info
    = Inr (Fin (loss_total mode loss_mat loss_mask / agg_divisor mode tokens rows factor * real_of_int (bi_dp_size info)))"
proof -
  have seq: "seq_mean info (map2 f (seq_token_sums loss_mat loss_mask) (seq_token_counts loss_mask))
      (seq_token_counts loss_mask) = Inr (Fin ((\<Sum>(l, m)\<leftarrow>zip loss_mat loss_mask.
        f (vsum (vmul l (mask_f m))) (vsum (mask_f m))) / rows * real_of_int (bi_dp_size info)))"
    if "rows \<noteq> 0" and "\<And>l m. True \<notin> set m \<Longrightarrow> f (vsum (vmul l (mask_f m))) (vsum (mask_f m)) = 0" for f
    using rows that seq_masked_sum [of f loss_mat loss_mask] masked_row_counts(2) [of loss_mask]
    by (auto simp: seq_mean_def Let_def pf_div_def)
  have len: "length (seq_token_sums loss_mat loss_mask) = length (seq_token_counts loss_mask)"
    using map_eq_imp_length_eq [OF shape] by (simp add: seq_token_sums_def seq_token_counts_def)
  have fst_id: "map2 (\<lambda>s c. s) (seq_token_sums loss_mat loss_mask) (seq_token_counts loss_mask)
      = seq_token_sums loss_mat loss_mask"
    using map_fst_zip [OF len] by (simp add: case_prod_unfold)
  have total: "vsum (seq_token_sums loss_mat loss_mask) = (\<Sum>(l, m)\<leftarrow>zip loss_mat loss_mask. vsum (vmul l (mask_f m)))"
    by (simp add: vsum_def seq_token_sums_def)
  have sums: "seq_mean info (seq_token_sums loss_mat loss_mask) (seq_token_counts loss_mask)
      = Inr (Fin (vsum (seq_token_sums loss_mat loss_mask) / rows * real_of_int (bi_dp_size info)))" if "rows \<noteq> 0"
    using seq [OF that, of "\<lambda>s c. s"] unmasked_row by (simp add: fst_id total)
  consider "mode = ''token-mean''" | "mode = ''seq-mean-token-sum''" | "mode = ''seq-mean-token-sum-norm''"
    | "mode = ''seq-mean-token-mean''" using mode by (auto simp: loss_agg_modes_def)
  then show ?thesis
  proof cases
    case 1
    then show ?thesis
      using shape tokens divisor masked_sum_concat [OF shape] masked_row_counts(1) [of loss_mask]
      by (auto simp: agg_loss_def agg_divisor_def loss_total_def row_loss_def total pf_div_def Let_def)
  next
    case 2
    then show ?thesis using shape divisor sums
      by (simp add: agg_loss_def agg_divisor_def loss_total_def row_loss_def total)
  next
    case 3
    then show ?thesis using shape divisor sums factor
      by (simp add: agg_loss_def agg_divisor_def loss_total_def row_loss_def total pf_div_def)
  next
    case 4
    have "seq_mean info (map2 (\<lambda>s c. s / (c + 1 / 10 ^ 8)) (seq_token_sums loss_mat loss_mask)
        (seq_token_counts loss_mask)) (seq_token_counts loss_mask)
      = Inr (Fin (loss_total mode loss_mat loss_mask / rows * real_of_int (bi_dp_size info)))"
      using seq [of "\<lambda>s c. s / (c + 1 / 10 ^ 8)"] divisor unmasked_row 4
      by (simp add: agg_divisor_def loss_total_def row_loss_def)
    then show ?thesis using 4 shape by (simp add: agg_loss_def agg_divisor_def)
  qed
qed

text \<open>Row losses add up over micro-batches.\<close>

lemma loss_total_append:
  assumes "length mat1 = length mask1"
  shows "loss_total mode (mat1 @ mat2) (mask1 @ mask2) = loss_total mode mat1 mask1 + loss_total mode mat2 mask2"
  using assms by (simp add: loss_total_def zip_append)

lemma loss_total_concat:
  assumes "list_all (\<lambda>(mat, tmask). length mat = length tmask) batches"
  shows "loss_total mode (concat (map fst batches)) (concat (map snd batches))
    = (\<Sum>(mat, tmask)\<leftarrow>batches. loss_total mode mat tmask)"
  using assms
proof (induction batches)
  case (Cons b batches)
  then show ?case by (auto simp: loss_total_append case_prod_unfold)
qed (simp add: loss_total_def)

lemma mask_counts_concat:
  "token_count (concat masks) = (\<Sum>tmask\<leftarrow>masks. token_count tmask)"
  "row_count (concat masks) = (\<Sum>tmask\<leftarrow>masks. row_count tmask)"
  by (induction masks) (simp_all add: token_count_def row_count_def)

end
