(* ===== verification/NativeBatch.thy ===== *)
theory NativeBatch
  imports NativeTruncated AggLoss ActorTeacher
begin

text \<open>
  From a packed micro-batch to token losses: the logits processor of
  \<open>verl/verl/trainer/distillation/verpo_zpd.py\<close>. It evaluates the Teacher on the plain and the
  hinted prompts (\<open>_teacher_forward\<close>, through the actor-side shadow when there is one), picks the
  rows that predict response tokens, mixes the negative Teachers, calls
  \<open>compute_flat_verpo_losses\<close> and scatters its values back to the packed sequence.

  The network is an argument: \<open>module A inputs\<close> are the raw logits of the module with the parameters
  of the actor \<open>A\<close>, and \<open>reference\<close> those of the frozen reference engine. A step that swaps the
  shadow into the actor returns the actor it leaves behind. Timings are not modelled.
\<close>

section \<open>Steps on the actor\<close>

type_synonym 'a step = "actor \<Rightarrow> 'a res \<times> actor"

definition lift :: "'a res \<Rightarrow> 'a step" where
  "lift r A = (r, A)"

definition sbind :: "'a step \<Rightarrow> ('a \<Rightarrow> 'b step) \<Rightarrow> 'b step" where
  "sbind m k A = (case m A of (Inl e, A1) \<Rightarrow> (Inl e, A1) | (Inr x, A1) \<Rightarrow> k x A1)"

section \<open>Teacher forward\<close>

text \<open>Raw module output by its number of dimensions, with the vocabulary size.\<close>

datatype raw_output = Logits2 nat "vec list" | Logits3 nat "vec list list" | LogitsOther

fun flatten_logits :: "raw_output \<Rightarrow> flat res" where
  "flatten_logits (Logits2 v rows) = Inr \<lparr>ft_v = v, ft_rows = rows\<rparr>"
| "flatten_logits (Logits3 v blocks) = Inr \<lparr>ft_v = v, ft_rows = concat blocks\<rparr>"
| "flatten_logits LogitsOther = Inl (ValueError ''Expected flattened logits [N, V]'')"

record engines =
  en_module :: "actor \<Rightarrow> int batched \<Rightarrow> raw_output"
  en_reference :: "int batched \<Rightarrow> raw_output"
  en_actor_teacher :: "actor_teacher option"

definition teacher_forward :: "engines \<Rightarrow> int batched \<Rightarrow> flat step" where
  "teacher_forward E inputs A =
     (case en_actor_teacher E of
        None \<Rightarrow> (flatten_logits (en_reference E inputs), A)
      | Some S \<Rightarrow>
          (let (r, A1) = forward_context S (\<lambda>A0. (Inr (en_module E A0 inputs), A0)) A
           in (rbind r flatten_logits, A1)))"

section \<open>Batch data\<close>

text \<open>The entries \<open>PREFIX_input_ids\<close> (with its position IDs) and \<open>PREFIX_prompt_lengths\<close> of a
  hinted prompt.\<close>

record teacher_entry =
  tb_input_ids :: "int batched"
  tb_prompt_lengths :: "int list option"

record verpo_data = response_layout +
  vd_input_ids :: "int batched"
  vd_temperature :: "real option"
  vd_teachers :: "(string \<times> teacher_entry) list"
  vd_response_mask :: "bool batched"
  vd_advantages :: "real batched"
  vd_evidence_rollout_gate :: "bool list"

definition teacher_data :: "string \<Rightarrow> ('m) verpo_data_scheme \<Rightarrow> int batched res" where
  "teacher_data pre D =
     (case map_of (vd_teachers D) pre of
        None \<Rightarrow> Inl (KeyError pre)
      | Some entry \<Rightarrow> (case vd_temperature D of
            None \<Rightarrow> Inl (KeyError ''temperature'') | Some _ \<Rightarrow> Inr (tb_input_ids entry)))"

definition teacher_prompt_lengths :: "string \<Rightarrow> ('m) verpo_data_scheme \<Rightarrow> int list res" where
  "teacher_prompt_lengths pre D =
     (case Option.bind (map_of (vd_teachers D) pre) tb_prompt_lengths of
        None \<Rightarrow> Inl (KeyError pre) | Some lens \<Rightarrow> Inr lens)"

fun nat_digits :: "nat \<Rightarrow> string" where
  "nat_digits n = (if n < 10 then [char_of (48 + n)] else nat_digits (n div 10) @ [char_of (48 + n mod 10)])"

declare nat_digits.simps [simp del]

definition negative_prefix :: "nat \<Rightarrow> string" where
  "negative_prefix i = ''verpo_negative_'' @ nat_digits i"

section \<open>Selected rows\<close>

definition select_flat :: "flat \<Rightarrow> nat list \<Rightarrow> flat res" where
  "select_flat L idx = rbind (indexed_rows_view_when_contiguous (ft_rows L) idx) (\<lambda>rows. Inr (L\<lparr>ft_rows := rows\<rparr>))"

text \<open>\<open>_teacher_forward\<close> on a hinted prompt with the positions of its response tokens.\<close>

definition hinted_forward ::
  "engines \<Rightarrow> ('m) verpo_data_scheme \<Rightarrow> string \<Rightarrow> nat list \<Rightarrow> (flat \<times> nat list) step" where
  "hinted_forward E D pre response_lens =
     sbind (lift (teacher_data pre D)) (\<lambda>inputs.
     sbind (teacher_forward E inputs) (\<lambda>logits.
     sbind (lift (rbind (teacher_prompt_lengths pre D)
         (\<lambda>lens. response_predictor_indices inputs lens response_lens))) (\<lambda>idx.
     lift (Inr (logits, idx)))))"

section \<open>The negative mixture\<close>

text \<open>\<open>_accumulate_indexed_teacher_probabilities_\<close>. The two loops of one row: the running normaliser
  over chunks, and the weighted probabilities added to the accumulator.\<close>

definition accumulate_row :: "nat \<Rightarrow> real \<Rightarrow> real \<Rightarrow> vec \<Rightarrow> vec \<Rightarrow> vec option" where
  "accumulate_row c scale weight acc z =
     (let n = length z in
      map_option (\<lambda>log_z. vadd acc (vscale weight (chunk_cat n c (\<lambda>a b. vexp (log_probs_chunk scale log_z z a b)))))
        (chunk_lse n c (\<lambda>a b. slice a b (scaled scale z))))"

definition accumulate_probabilities ::
  "flat \<Rightarrow> flat \<Rightarrow> nat list \<Rightarrow> real \<Rightarrow> int \<Rightarrow> real \<Rightarrow> flat res" where
  "accumulate_probabilities accumulator logits idx scale chunk_size weight =
     (if flat_shape accumulator \<noteq> [length idx, ft_v logits]
      then Inl (ValueError ''accumulator shape must match indexed Teacher response logits'')
      else if scale \<le> 0 \<or> chunk_size \<le> 0 \<or> weight \<le> 0
      then Inl (ValueError ''temperature, vocab_chunk_size, and weight must be positive'')
      else if ft_v logits = 0 then Inl (ValueError ''Teacher logits must have a non-empty vocabulary'')
      else rbind (index_rows (ft_rows logits) idx) (\<lambda>rows.
        Inr (accumulator\<lparr>ft_rows := map2 (\<lambda>acc z. the (accumulate_row (nat chunk_size) scale weight acc z))
          (ft_rows accumulator) rows\<rparr>)))"

text \<open>The running \<open>logaddexp\<close> of log-probabilities, outside the truncated mode.\<close>

definition add_log_probs :: "real \<Rightarrow> flat \<Rightarrow> nat list \<Rightarrow> flat option \<Rightarrow> flat option res" where
  "add_log_probs scale logits idx acc =
     rbind (index_rows (ft_rows logits) idx) (\<lambda>rows.
     let component = logits\<lparr>ft_rows := map (log_probs scale) rows\<rparr> in
     case acc of
       None \<Rightarrow> Inr (Some component)
     | Some a \<Rightarrow> if flat_shape a \<noteq> flat_shape component then Inl (RuntimeError ''broadcast'')
         else Inr (Some (flat_map2 (map2 logaddexp) a component)))"

record negatives =
  ng_logits :: "flat option"
  ng_probabilities :: "flat option"
  ng_logsumexp :: "flat option"

definition no_negatives :: negatives where
  "no_negatives = \<lparr>ng_logits = None, ng_probabilities = None, ng_logsumexp = None\<rparr>"

text \<open>One turn of the loop over the negative hints; with one hint the truncated mode leaves the loop,
  which has no second turn.\<close>

definition negative_step ::
  "engines \<Rightarrow> ('m) verpo_data_scheme \<Rightarrow> nat list \<Rightarrow> nat \<Rightarrow> bool \<Rightarrow> real \<Rightarrow> int \<Rightarrow> nat \<Rightarrow> nat \<Rightarrow> negatives
    \<Rightarrow> negatives step" where
  "negative_step E D response_lens n_actor truncated scale chunk_size count i G =
     sbind (hinted_forward E D (negative_prefix i) response_lens) (\<lambda>(logits, idx).
     lift (if n_actor \<noteq> length idx
       then Inl (AssertionError ''Student and negative Teacher response suffixes are not aligned'')
       else if truncated \<and> count = 1
       then rbind (select_flat logits idx) (\<lambda>rows. Inr (G\<lparr>ng_logits := Some rows, ng_probabilities := None\<rparr>))
       else if truncated
       then let acc = (case ng_probabilities G of Some q \<Rightarrow> q
             | None \<Rightarrow> \<lparr>ft_v = ft_v logits, ft_rows = replicate (length idx) (replicate (ft_v logits) 0)\<rparr>)
         in rbind (accumulate_probabilities acc logits idx scale chunk_size (1 / real count))
           (\<lambda>q. Inr (G\<lparr>ng_probabilities := Some q\<rparr>))
       else rbind (add_log_probs scale logits idx (ng_logsumexp G)) (\<lambda>l. Inr (G\<lparr>ng_logsumexp := l\<rparr>))))"

fun negative_loop ::
  "(nat \<Rightarrow> negatives \<Rightarrow> negatives step) \<Rightarrow> nat list \<Rightarrow> negatives \<Rightarrow> negatives step" where
  "negative_loop step [] G = lift (Inr G)"
| "negative_loop step (i # is) G = sbind (step i G) (negative_loop step is)"

text \<open>The negative Teacher the loss reads: logits, or probabilities.\<close>

definition negative_teacher :: "bool \<Rightarrow> real \<Rightarrow> nat \<Rightarrow> negatives \<Rightarrow> (flat option \<times> flat option) res" where
  "negative_teacher truncated scale count G =
     (if truncated \<and> count = 1
      then (case ng_logits G of
          None \<Rightarrow> Inl (AssertionError ''The single negative Teacher is required'')
        | Some L \<Rightarrow> Inr (Some L, ng_probabilities G))
      else if truncated
      then (case ng_probabilities G of
          None \<Rightarrow> Inl (AssertionError ''At least one negative Teacher is required'')
        | Some q \<Rightarrow> Inr (None, Some q))
      else (case ng_logsumexp G of
          None \<Rightarrow> Inl (AssertionError ''At least one negative Teacher is required'')
        | Some L \<Rightarrow> Inr (Some (flat_map (\<lambda>row. vscale scale (vshift row (ln (real count)))) L), None)))"

section \<open>The processor\<close>

record verpo_config =
  vc_args :: verpo_args
  vc_num_negative_hints :: nat
  vc_lambda_ref :: real
  vc_lambda_evi :: real
  vc_advantage_modulation :: string
  vc_modulation_lambda :: pyfloat

text \<open>The inputs of the loss that depend on the Teachers: evidence rows, and the negative Teacher.\<close>

record hinted_rows =
  hr_evidence :: flat
  hr_count :: nat
  hr_negative_logits :: "flat option"
  hr_negative_probabilities :: "flat option"

definition evidence_rows ::
  "engines \<Rightarrow> ('m) verpo_data_scheme \<Rightarrow> string \<Rightarrow> nat list \<Rightarrow> (flat \<times> nat) step" where
  "evidence_rows E D pre response_lens =
     sbind (hinted_forward E D pre response_lens) (\<lambda>(logits, idx).
     sbind (lift (select_flat logits idx)) (\<lambda>rows. lift (Inr (rows, length idx))))"

definition hinted_teachers ::
  "engines \<Rightarrow> verpo_config \<Rightarrow> ('m) verpo_data_scheme \<Rightarrow> nat list \<Rightarrow> nat \<Rightarrow> nat \<Rightarrow> hinted_rows step" where
  "hinted_teachers E cfg D response_lens n_actor v =
     (let P = vc_args cfg; count = vc_num_negative_hints cfg; scale = the_real (va_temperature P) in
      if va_displacement_mode P = ''evidence_vs_none''
      then sbind (evidence_rows E D ''verpo_evidence'' response_lens) (\<lambda>(rows, n).
        lift (Inr \<lparr>hr_evidence = rows, hr_count = n, hr_negative_logits = None, hr_negative_probabilities = None\<rparr>))
      else sbind (evidence_rows E D ''verpo_positive'' response_lens) (\<lambda>(rows, n).
        sbind (lift (native_use_full_vocab (va_vocab_mode P) (va_top_k P) v)) (\<lambda>use_full.
        sbind (negative_loop (negative_step E D response_lens n_actor (\<not> use_full) scale (va_vocab_chunk_size P) count)
            [0..<count] no_negatives) (\<lambda>G.
        sbind (lift (negative_teacher (\<not> use_full) scale count G)) (\<lambda>(L, q).
        lift (Inr \<lparr>hr_evidence = rows, hr_count = n, hr_negative_logits = L, hr_negative_probabilities = q\<rparr>))))))"

text \<open>\<open>full_outputs\<close>: every value of the result, scattered to the packed sequence.\<close>

definition zero_stats :: fec_stats where
  "zero_stats = \<lparr>fs_benefit = 0, fs_fisher_cost = 0, fs_displacement_norm = 0, fs_task_norm = 0,
     fs_nuisance_norm = 0, fs_cosine = 0, fs_projection = 0, fs_residual_cov = 0, fs_alignment = 0\<rparr>"

definition scatter_result :: "nat \<Rightarrow> nat list \<Rightarrow> flat_result \<Rightarrow> flat_result" where
  "scatter_result n idx R = (let put = scatter_rows 0 n idx in
     \<lparr>fr_reference_loss = put (fr_reference_loss R), fr_evidence_loss = put (fr_evidence_loss R),
      fr_weights = put (fr_weights R), fr_stats = scatter_rows zero_stats n idx (fr_stats R),
      fr_q0_sample_log_prob = put (fr_q0_sample_log_prob R),
      fr_reference_support_size = map_option put (fr_reference_support_size R),
      fr_support_size = put (fr_support_size R),
      fr_reference_support_mass = put (fr_reference_support_mass R),
      fr_evidence_support_mass = put (fr_evidence_support_mass R),
      fr_student_support_mass = put (fr_student_support_mass R),
      fr_negative_support_mass = map_option put (fr_negative_support_mass R)\<rparr>)"

definition student_distribution :: "verpo_config \<Rightarrow> flat \<Rightarrow> flat" where
  "student_distribution cfg student =
     (let T = the_real (va_temperature (vc_args cfg)) in
      if T \<noteq> 1 then flat_map (map (\<lambda>x. x * T)) student else student)"

text \<open>The packed token data: sampled IDs, advantages and the token gate.\<close>

definition token_inputs :: "('m) verpo_data_scheme \<Rightarrow> nat list \<Rightarrow> (int list \<times> vec \<times> bool list) res" where
  "token_inputs D response_lens =
     rbind (nested_values (rl_responses D)) (\<lambda>sampled_ids.
     rbind (nested_values (vd_response_mask D)) (\<lambda>response_mask.
     rbind (first_nested_value_per_row (vd_advantages D)) (\<lambda>row_advantages.
     rbind (repeat_rows_over_responses row_advantages response_lens) (\<lambda>token_advantages.
     rbind (repeat_rows_over_responses (vd_evidence_rollout_gate D) response_lens) (\<lambda>gate.
     rbind (broadcast2 (\<and>) gate response_mask) (\<lambda>token_gate.
     Inr (sampled_ids, token_advantages, token_gate)))))))"

definition verpo_logits_processor ::
  "(nat \<Rightarrow> vec \<Rightarrow> nat list) \<Rightarrow> engines \<Rightarrow> verpo_config \<Rightarrow> flat \<Rightarrow> ('m) verpo_data_scheme \<Rightarrow> flat_result step" where
  "verpo_logits_processor topk E cfg student D =
     sbind (teacher_forward E (vd_input_ids D)) (\<lambda>q0.
     sbind (lift (nested_lens (rl_prompts D))) (\<lambda>prompt_lens.
     sbind (lift (nested_lens (rl_responses D))) (\<lambda>response_lens.
     sbind (lift (response_predictor_indices (vd_input_ids D) (map int prompt_lens) response_lens)) (\<lambda>actor_indices.
     sbind (lift (select_flat q0 actor_indices)) (\<lambda>q0_rows.
     sbind (hinted_teachers E cfg D response_lens (length actor_indices) (ft_v student)) (\<lambda>H.
     lift (if length actor_indices \<noteq> hr_count H
       then Inl (AssertionError ''Student and evidence Teacher response suffixes are not aligned'')
       else rbind (token_inputs D response_lens) (\<lambda>(sampled_ids, token_advantages, token_gate).
         rbind (select_flat (student_distribution cfg student) actor_indices) (\<lambda>student_rows.
         rbind (compute_flat_verpo_losses topk (vc_args cfg)
           \<lparr>fb_student = student_rows, fb_base = q0_rows, fb_evidence = hr_evidence H,
            fb_sampled_token_ids = sampled_ids, fb_token_advantages = token_advantages,
            fb_active_token_mask = token_gate, fb_negative_logits = hr_negative_logits H,
            fb_negative_probabilities = hr_negative_probabilities H\<rparr>) (\<lambda>outputs.
         Inr (scatter_result (length (ft_rows student)) actor_indices outputs)))))))))))"

end
