(* ===== verification/BatchMix.thy ===== *)
theory BatchMix
  imports NativeBatch TeacherProps FullLossesRef
begin

text \<open>
  Facts about the logits processor: a Teacher forward is a function of its inputs that leaves the
  actor alone, a hinted prompt selects one Teacher row per response token, and the negative Teacher
  is the uniform mixture of the hinted Teachers in probability space, whatever the vocabulary mode.
\<close>

section \<open>Steps that keep the actor\<close>

lemma snd_lift [simp]: "snd (lift r A) = A" and fst_lift [simp]: "fst (lift r A) = r"
  by (simp_all add: lift_def)

lemma snd_sbind [simp]: "snd (m A) = A \<Longrightarrow> (\<And>x. snd (k x A) = A) \<Longrightarrow> snd (sbind m k A) = A"
  by (simp add: sbind_def split: prod.splits sum.splits) (metis snd_conv)

lemma fst_sbind [simp]: "snd (m A) = A \<Longrightarrow> fst (sbind m k A) = rbind (fst (m A)) (\<lambda>x. fst (k x A))"
  by (cases "m A"; cases "fst (m A)") (simp_all add: sbind_def)

lemma case_prod_step [simp]:
  "(\<And>a b. snd (f a b A) = A) \<Longrightarrow> snd ((case x of (a, b) \<Rightarrow> f a b) A) = A"
  by (cases x) simp

section \<open>Teacher forward\<close>

text \<open>The shadow has a value for every trainable parameter of a well-formed actor.\<close>

definition teacher_ready :: "engines \<Rightarrow> actor \<Rightarrow> bool" where
  "teacher_ready E A \<longleftrightarrow> (case en_actor_teacher E of None \<Rightarrow> True
     | Some S \<Rightarrow> wf_actor A \<and> fst ` set (named_trainable_parameters A) \<subseteq> fst ` set (te_shadow S))"

text \<open>The logits a Teacher forward sees: those of the reference engine, or of the module with the
  trainable parameters of the actor replaced by the shadow.\<close>

definition teacher_logits :: "engines \<Rightarrow> actor \<Rightarrow> int batched \<Rightarrow> flat res" where
  "teacher_logits E A inputs = flatten_logits (case en_actor_teacher E of
       None \<Rightarrow> en_reference E inputs
     | Some S \<Rightarrow> en_module E
         (overwrite (map_of (te_shadow S) |` (fst ` set (named_trainable_parameters A))) A) inputs)"

lemma teacher_forward_eq:
  assumes "teacher_ready E A"
  shows "teacher_forward E inputs A = (teacher_logits E A inputs, A)"
proof (cases "en_actor_teacher E")
  case None
  then show ?thesis by (simp add: teacher_forward_def teacher_logits_def)
next
  case (Some S)
  let ?body = "\<lambda>A0. (Inr (en_module E A0 inputs) :: raw_output res, A0)"
  have "keeps_frozen ?body" by (simp add: keeps_frozen_def)
  with Some assms have "snd (forward_context S ?body A) = A
    \<and> fst (forward_context S ?body A) = Inr (en_module E
        (overwrite (map_of (te_shadow S) |` (fst ` set (named_trainable_parameters A))) A) inputs)"
    using forward_context_eq [of A ?body S] by (simp add: teacher_ready_def)
  then show ?thesis
    using Some by (simp add: teacher_forward_def teacher_logits_def case_prod_beta Let_def)
qed

lemma snd_hinted_forward [simp]: "teacher_ready E A \<Longrightarrow> snd (hinted_forward E D pre lens A) = A"
  by (simp add: hinted_forward_def teacher_forward_eq)

text \<open>The Teacher rows of a hinted prompt, one per response token.\<close>

definition hinted_flat :: "engines \<Rightarrow> actor \<Rightarrow> ('m) verpo_data_scheme \<Rightarrow> string \<Rightarrow> nat list \<Rightarrow> flat res" where
  "hinted_flat E A D pre response_lens =
     rbind (teacher_data pre D) (\<lambda>inputs.
     rbind (teacher_logits E A inputs) (\<lambda>logits.
     rbind (teacher_prompt_lengths pre D) (\<lambda>lens.
     rbind (response_predictor_indices inputs lens response_lens) (\<lambda>idx.
     rbind (index_rows (ft_rows logits) idx) (\<lambda>rows. Inr (logits\<lparr>ft_rows := rows\<rparr>))))))"

lemma view_cases:
  "indexed_rows_view_when_contiguous xs idx = Inr rows \<Longrightarrow> list_all (\<lambda>i. i < length xs) idx
    \<Longrightarrow> index_rows xs idx = Inr rows"
  using view_is_indexing [of xs idx] by (simp add: index_rows_def)

lemma view_in_range:
  assumes "indexed_rows_view_when_contiguous xs idx = Inr rows"
  shows "list_all (\<lambda>i. i < length xs) idx"
proof (cases "idx \<noteq> [] \<and> (length idx = 1 \<or> unit_steps idx)")
  case True
  have step: "idx ! k = hd idx + k" if "k < length idx" for k
    using that True by (rule unit_steps_nth)
  have "hd idx + length idx \<le> length xs"
    using assms True by (simp add: indexed_rows_view_when_contiguous_def narrow_rows_def split: if_splits)
  then show ?thesis using step by (auto simp: list_all_length)
next
  case False
  then show ?thesis
    using assms by (auto simp: indexed_rows_view_when_contiguous_def index_rows_def split: if_splits)
qed

lemma view_eq_index: "indexed_rows_view_when_contiguous xs idx = Inr rows \<longleftrightarrow> index_rows xs idx = Inr rows"
  using view_in_range [of xs idx rows] view_cases [of xs idx rows] view_is_indexing [of xs idx]
  by (auto simp: index_rows_def split: if_splits)

lemma select_flat_iff:
  "select_flat L idx = Inr M \<longleftrightarrow> (\<exists>rows. index_rows (ft_rows L) idx = Inr rows \<and> M = L\<lparr>ft_rows := rows\<rparr>)"
  by (auto simp: select_flat_def view_eq_index)

lemma hinted_forward_flat:
  assumes "teacher_ready E A" and "fst (hinted_forward E D pre lens A) = Inr (logits, idx)"
  shows "hinted_flat E A D pre lens = rbind (index_rows (ft_rows logits) idx) (\<lambda>rows. Inr (logits\<lparr>ft_rows := rows\<rparr>))"
  using assms by (auto simp: hinted_forward_def hinted_flat_def teacher_forward_eq)

lemma index_rows_length: "index_rows xs idx = Inr rows \<Longrightarrow> length rows = length idx"
  by (auto simp: index_rows_def split: if_splits)

lemma index_rows_set: "index_rows xs idx = Inr rows \<Longrightarrow> set rows \<subseteq> set xs"
  by (auto simp: index_rows_def list_all_iff split: if_splits)


section \<open>The mixture\<close>

lemma accumulate_row_eq:
  assumes "0 < c" "z \<noteq> []"
  shows "accumulate_row c T w acc z = Some (vadd acc (vscale w (probs T z)))"
proof -
  have "chunk_lse (length z) c (\<lambda>a b. slice a b (scaled T z)) = Some (log_norm T z)"
    using chunk_lse_slice [of c "scaled T z"] assms by (auto simp: log_norm_def simp flip: length_greater_0_conv)
  moreover have "chunk_cat (length z) c (\<lambda>a b. vexp (log_probs_chunk T (log_norm T z) z a b)) = probs T z"
    using assms(1) by (simp add: slice_simps chunk_cat_slice)
  ultimately show ?thesis by (simp add: accumulate_row_def)
qed

text \<open>An accumulator of \<open>n\<close> rows over a vocabulary of \<open>v\<close>, by its entries.\<close>

definition table :: "nat \<Rightarrow> nat \<Rightarrow> (nat \<Rightarrow> nat \<Rightarrow> real) \<Rightarrow> flat" where
  "table n v f = \<lparr>ft_v = v, ft_rows = map (\<lambda>t. map (f t) [0..<v]) [0..<n]\<rparr>"

lemma table_simps [simp]:
  "ft_v (table n v f) = v" "length (ft_rows (table n v f)) = n" "flat_shape (table n v f) = [n, v]"
  "t < n \<Longrightarrow> ft_rows (table n v f) ! t = map (f t) [0..<v]"
  by (simp_all add: table_def flat_shape_def)

lemma table_eqI:
  assumes "ft_v L = v" "length (ft_rows L) = n" "\<And>t. t < n \<Longrightarrow> length (ft_rows L ! t) = v"
    "\<And>t k. t < n \<Longrightarrow> k < v \<Longrightarrow> ft_rows L ! t ! k = f t k"
  shows "L = table n v f"
  using assms by (auto simp: table_def intro!: flat.equality nth_equalityI)

text \<open>One network has one vocabulary.\<close>

definition one_vocab :: "engines \<Rightarrow> actor \<Rightarrow> nat \<Rightarrow> bool" where
  "one_vocab E A v \<longleftrightarrow> (\<forall>inputs L. teacher_logits E A inputs = Inr L \<longrightarrow> wf_flat L \<and> ft_v L = v)"

lemma hinted_flat_ok:
  assumes "one_vocab E A v" "hinted_flat E A D pre lens = Inr L"
  shows "wf_flat L" "ft_v L = v"
  using assms by (auto simp: one_vocab_def hinted_flat_def wf_flat_def dest!: index_rows_set)

text \<open>Row \<open>t\<close> of the negative hint \<open>i\<close>.\<close>

definition negative_row :: "engines \<Rightarrow> actor \<Rightarrow> ('m) verpo_data_scheme \<Rightarrow> nat list \<Rightarrow> nat \<Rightarrow> nat \<Rightarrow> vec" where
  "negative_row E A D lens t i = ft_rows (projr (hinted_flat E A D (negative_prefix i) lens)) ! t"

lemma snd_negative_step [simp]:
  "teacher_ready E A \<Longrightarrow> snd (negative_step E D lens n tr T c count i G A) = A"
  by (simp add: negative_step_def case_prod_beta)

lemma snd_negative_loop [simp]:
  "(\<And>i G. snd (f i G A) = A) \<Longrightarrow> snd (negative_loop f is G A) = A"
  by (induction "is" arbitrary: G) simp_all

text \<open>A step that returns has read one row of the hint per response token.\<close>

lemma negative_stepE:
  assumes ready: "teacher_ready E A" and vocab: "one_vocab E A v"
    and step: "fst (negative_step E D lens n tr T c count i G A) = Inr G'"
  obtains L idx M where "hinted_flat E A D (negative_prefix i) lens = Inr M"
    "index_rows (ft_rows L) idx = Inr (ft_rows M)" "ft_v L = v" "ft_v M = v" "length idx = n"
    "length (ft_rows M) = n" "\<And>t. t < n \<Longrightarrow> ft_rows M ! t = negative_row E A D lens t i"
    "\<And>t. t < n \<Longrightarrow> length (negative_row E A D lens t i) = v"
    "(if tr \<and> count = 1 then Inr (G\<lparr>ng_logits := Some M, ng_probabilities := None\<rparr>)
      else if tr
      then rbind (accumulate_probabilities (case ng_probabilities G of Some q \<Rightarrow> q | None \<Rightarrow> table n v (\<lambda>_ _. 0))
          L idx T c (1 / real count)) (\<lambda>q. Inr (G\<lparr>ng_probabilities := Some q\<rparr>))
      else rbind (add_log_probs T L idx (ng_logsumexp G)) (\<lambda>l. Inr (G\<lparr>ng_logsumexp := l\<rparr>))) = Inr G'"
proof -
  obtain L idx where h: "fst (hinted_forward E D (negative_prefix i) lens A) = Inr (L, idx)"
    and body: "(if n \<noteq> length idx
       then Inl (AssertionError ''Student and negative Teacher response suffixes are not aligned'')
       else if tr \<and> count = 1
       then rbind (select_flat L idx) (\<lambda>rows. Inr (G\<lparr>ng_logits := Some rows, ng_probabilities := None\<rparr>))
       else if tr
       then let acc = (case ng_probabilities G of Some q \<Rightarrow> q
             | None \<Rightarrow> \<lparr>ft_v = ft_v L, ft_rows = replicate (length idx) (replicate (ft_v L) 0)\<rparr>)
         in rbind (accumulate_probabilities acc L idx T c (1 / real count))
           (\<lambda>q. Inr (G\<lparr>ng_probabilities := Some q\<rparr>))
       else rbind (add_log_probs T L idx (ng_logsumexp G)) (\<lambda>l. Inr (G\<lparr>ng_logsumexp := l\<rparr>))) = Inr G'"
    using step ready that by (simp add: negative_step_def split_paired_Ex del: split_paired_All) blast
  have L: "wf_flat L" "ft_v L = v"
    using h vocab ready by (auto simp: hinted_forward_def teacher_forward_eq one_vocab_def)
  have n: "length idx = n" using body by (simp split: if_splits)
  obtain rows where rows: "index_rows (ft_rows L) idx = Inr rows"
    using body n by (auto simp: select_flat_iff accumulate_probabilities_def add_log_probs_def Let_def split: if_splits)
  let ?M = "L\<lparr>ft_rows := rows\<rparr>"
  have M: "hinted_flat E A D (negative_prefix i) lens = Inr ?M"
    using hinted_forward_flat [OF ready h] rows by simp
  have len: "length rows = n" using index_rows_length [OF rows] n by simp
  have zero: "\<lparr>ft_v = v, ft_rows = replicate n (replicate v 0)\<rparr> = table n v (\<lambda>_ _. 0)"
    by (rule table_eqI) simp_all
  have select: "select_flat L idx = Inr ?M" using rows by (simp add: select_flat_iff)
  have row: "length (rows ! t) = v" if "t < n" for t
    using index_rows_set [OF rows] L len that by (auto simp: wf_flat_def dest!: nth_mem)
  show thesis
  proof (rule that [OF M])
    show "(if tr \<and> count = 1 then Inr (G\<lparr>ng_logits := Some ?M, ng_probabilities := None\<rparr>)
      else if tr
      then rbind (accumulate_probabilities (case ng_probabilities G of Some q \<Rightarrow> q | None \<Rightarrow> table n v (\<lambda>_ _. 0))
          L idx T c (1 / real count)) (\<lambda>q. Inr (G\<lparr>ng_probabilities := Some q\<rparr>))
      else rbind (add_log_probs T L idx (ng_logsumexp G)) (\<lambda>l. Inr (G\<lparr>ng_logsumexp := l\<rparr>))) = Inr G'"
      using body n select zero L(2) by (cases "ng_probabilities G") (auto simp: Let_def split: if_splits)
  qed (use rows L n len row M in \<open>simp_all add: negative_row_def\<close>)
qed

lemma accumulate_table:
  assumes "accumulate_probabilities (table n v f) L idx T c w = Inr q" "index_rows (ft_rows L) idx = Inr rows"
    "ft_v L = v" "length idx = n" "\<And>t. t < n \<Longrightarrow> length (rows ! t) = v"
  shows "q = table n v (\<lambda>t k. f t k + w * probs T (rows ! t) ! k)" and "0 < v"
proof -
  have c: "0 < c" and v: "v \<noteq> 0" and q: "q = (table n v f)\<lparr>ft_rows := map2 (\<lambda>acc z. the (accumulate_row (nat c) T w acc z))
      (ft_rows (table n v f)) rows\<rparr>"
    using assms(1-4) by (auto simp: accumulate_probabilities_def split: if_splits)
  have len: "length rows = n" using index_rows_length [OF assms(2)] assms(4) by simp
  have entry: "the (accumulate_row (nat c) T w (map (f t) [0..<v]) (rows ! t))
      = vadd (map (f t) [0..<v]) (vscale w (probs T (rows ! t)))" if "t < n" for t
    using accumulate_row_eq [of "nat c" "rows ! t" T w] c v assms(5) [OF that] by fastforce
  show "q = table n v (\<lambda>t k. f t k + w * probs T (rows ! t) ! k)"
    by (rule table_eqI) (simp_all add: q len entry assms(5))
  show "0 < v" using v by simp
qed

lemma add_log_probs_table:
  assumes "add_log_probs T L idx acc = Inr l" "index_rows (ft_rows L) idx = Inr rows"
    "ft_v L = v" "length idx = n" "\<And>t. t < n \<Longrightarrow> length (rows ! t) = v"
    and acc: "acc = None \<and> f = (\<lambda>_ _. 0) \<or> acc = Some (table n v (\<lambda>t k. ln (f t k)))
      \<and> (\<forall>t<n. \<forall>k<v. 0 < f t k)"
  shows "l = Some (table n v (\<lambda>t k. ln (f t k + probs T (rows ! t) ! k)))"
proof -
  have len: "length rows = n" using index_rows_length [OF assms(2)] assms(4) by simp
  have component: "L\<lparr>ft_rows := map (log_probs T) rows\<rparr> = table n v (\<lambda>t k. ln (probs T (rows ! t) ! k))"
    by (rule table_eqI) (simp_all add: assms(3,5) len ln_probs)
  from acc show ?thesis
  proof
    assume "acc = None \<and> f = (\<lambda>_ _. 0)"
    then show ?thesis using assms(1,2) component by (simp add: add_log_probs_def)
  next
    assume a: "acc = Some (table n v (\<lambda>t k. ln (f t k))) \<and> (\<forall>t<n. \<forall>k<v. 0 < f t k)"
    have "flat_map2 (map2 logaddexp) (table n v (\<lambda>t k. ln (f t k))) (table n v (\<lambda>t k. ln (probs T (rows ! t) ! k)))
        = table n v (\<lambda>t k. ln (f t k + probs T (rows ! t) ! k))"
      by (rule table_eqI) (use a probs_pos assms(5) in \<open>simp_all add: flat_map2_def logaddexp_def\<close>)
    then show ?thesis using assms(1,2) component a by (simp add: add_log_probs_def Let_def)
  qed
qed

text \<open>The sum over the hints of a list of their probabilities.\<close>

definition hint_sum ::
  "engines \<Rightarrow> actor \<Rightarrow> ('m) verpo_data_scheme \<Rightarrow> nat list \<Rightarrow> real \<Rightarrow> nat list \<Rightarrow> nat \<Rightarrow> nat \<Rightarrow> real" where
  "hint_sum E A D lens T is t k = (\<Sum>i\<leftarrow>is. probs T (negative_row E A D lens t i) ! k)"

lemma hint_sum_simps [simp]:
  "hint_sum E A D lens T [] t k = 0"
  "hint_sum E A D lens T (i # is) t k = probs T (negative_row E A D lens t i) ! k + hint_sum E A D lens T is t k"
  by (simp_all add: hint_sum_def)

lemma loop_cons:
  assumes "snd (f i G A) = A" "fst (negative_loop f (i # is) G A) = Inr G'"
  obtains G1 where "fst (f i G A) = Inr G1" "fst (negative_loop f is G1 A) = Inr G'"
  using assms by auto

lemma loop_probabilities:
  assumes ready: "teacher_ready E A" and vocab: "one_vocab E A v" and count: "count \<noteq> 1"
    and loop: "fst (negative_loop (negative_step E D lens n True T c count) is G A) = Inr G'"
    and acc: "ng_probabilities G = None \<and> f = (\<lambda>_ _. 0) \<or> ng_probabilities G = Some (table n v f)"
  shows "ng_probabilities G' = None \<and> is = []
    \<or> ng_probabilities G' = Some (table n v (\<lambda>t k. f t k + hint_sum E A D lens T is t k / real count))"
  using loop acc
proof (induction "is" arbitrary: G f)
  case Nil
  then show ?case by auto
next
  case (Cons i "is")
  obtain G1 where one: "fst (negative_step E D lens n True T c count i G A) = Inr G1"
    and rest: "fst (negative_loop (negative_step E D lens n True T c count) is G1 A) = Inr G'"
    using loop_cons [OF snd_negative_step [OF ready] Cons.prems(1)] by blast
  obtain L idx M where "hinted_flat E A D (negative_prefix i) lens = Inr M"
    and M: "index_rows (ft_rows L) idx = Inr (ft_rows M)" "ft_v L = v" and "ft_v M = v"
    and idx: "length idx = n" and "length (ft_rows M) = n"
    and row: "\<And>t. t < n \<Longrightarrow> ft_rows M ! t = negative_row E A D lens t i"
      "\<And>t. t < n \<Longrightarrow> length (negative_row E A D lens t i) = v"
    and cond: "(if True \<and> count = 1 then Inr (G\<lparr>ng_logits := Some M, ng_probabilities := None\<rparr>)
      else if True
      then rbind (accumulate_probabilities (case ng_probabilities G of Some q \<Rightarrow> q | None \<Rightarrow> table n v (\<lambda>_ _. 0))
          L idx T c (1 / real count)) (\<lambda>q. Inr (G\<lparr>ng_probabilities := Some q\<rparr>))
      else rbind (add_log_probs T L idx (ng_logsumexp G)) (\<lambda>l. Inr (G\<lparr>ng_logsumexp := l\<rparr>))) = Inr G1"
    by (rule negative_stepE [OF ready vocab one]) (rule that, assumption+)
  have body: "rbind (accumulate_probabilities (case ng_probabilities G of Some q \<Rightarrow> q | None \<Rightarrow> table n v (\<lambda>_ _. 0))
          L idx T c (1 / real count)) (\<lambda>q. Inr (G\<lparr>ng_probabilities := Some q\<rparr>)) = Inr G1"
    using cond count by simp
  let ?f = "\<lambda>t k. f t k + 1 / real count * probs T (negative_row E A D lens t i) ! k"
  have "(case ng_probabilities G of Some q \<Rightarrow> q | None \<Rightarrow> table n v (\<lambda>_ _. 0)) = table n v f"
    using Cons.prems(2) by auto
  then obtain q where q: "accumulate_probabilities (table n v f) L idx T c (1 / real count) = Inr q"
      "G1 = G\<lparr>ng_probabilities := Some q\<rparr>"
    using body by auto
  have "q = table n v (\<lambda>t k. f t k + 1 / real count * probs T (ft_rows M ! t) ! k)"
    using accumulate_table(1) [OF q(1) M(1,2) idx] row by simp
  also have "\<dots> = table n v ?f" by (rule table_eqI) (simp_all add: row(1))
  finally have "ng_probabilities G1 = Some (table n v ?f)" using q(2) by simp
  from Cons.IH [OF rest disjI2 [OF this]] have
    "ng_probabilities G' = Some (table n v (\<lambda>t k. ?f t k + hint_sum E A D lens T is t k / real count))
      \<or> ng_probabilities G' = None \<and> is = [] \<and> ng_probabilities G1 = None" 
    using rest \<open>ng_probabilities G1 = Some (table n v ?f)\<close> by (cases "is") auto
  then show ?case
    using \<open>ng_probabilities G1 = _\<close> by (auto simp: add_divide_distrib add.assoc)
qed

lemma loop_logsumexp:
  assumes ready: "teacher_ready E A" and vocab: "one_vocab E A v"
    and loop: "fst (negative_loop (negative_step E D lens n False T c count) is G A) = Inr G'"
    and acc: "ng_logsumexp G = None \<and> f = (\<lambda>_ _. 0) \<or> ng_logsumexp G = Some (table n v (\<lambda>t k. ln (f t k)))
      \<and> (\<forall>t<n. \<forall>k<v. 0 < f t k)"
  shows "ng_logsumexp G' = None \<and> is = []
    \<or> ng_logsumexp G' = Some (table n v (\<lambda>t k. ln (f t k + hint_sum E A D lens T is t k)))
      \<and> (\<forall>t<n. \<forall>k<v. 0 < f t k + hint_sum E A D lens T is t k)"
  using loop acc
proof (induction "is" arbitrary: G f)
  case Nil
  then show ?case by auto
next
  case (Cons i "is")
  obtain G1 where one: "fst (negative_step E D lens n False T c count i G A) = Inr G1"
    and rest: "fst (negative_loop (negative_step E D lens n False T c count) is G1 A) = Inr G'"
    using loop_cons [OF snd_negative_step [OF ready] Cons.prems(1)] by blast
  obtain L idx M where "hinted_flat E A D (negative_prefix i) lens = Inr M"
    and M: "index_rows (ft_rows L) idx = Inr (ft_rows M)" "ft_v L = v" and "ft_v M = v"
    and idx: "length idx = n" and "length (ft_rows M) = n"
    and row: "\<And>t. t < n \<Longrightarrow> ft_rows M ! t = negative_row E A D lens t i"
      "\<And>t. t < n \<Longrightarrow> length (negative_row E A D lens t i) = v"
    and cond: "(if False \<and> count = 1 then Inr (G\<lparr>ng_logits := Some M, ng_probabilities := None\<rparr>)
      else if False
      then rbind (accumulate_probabilities (case ng_probabilities G of Some q \<Rightarrow> q | None \<Rightarrow> table n v (\<lambda>_ _. 0))
          L idx T c (1 / real count)) (\<lambda>q. Inr (G\<lparr>ng_probabilities := Some q\<rparr>))
      else rbind (add_log_probs T L idx (ng_logsumexp G)) (\<lambda>l. Inr (G\<lparr>ng_logsumexp := l\<rparr>))) = Inr G1"
    by (rule negative_stepE [OF ready vocab one]) (rule that, assumption+)
  have body: "rbind (add_log_probs T L idx (ng_logsumexp G)) (\<lambda>l. Inr (G\<lparr>ng_logsumexp := l\<rparr>)) = Inr G1"
    using cond by simp
  let ?f = "\<lambda>t k. f t k + probs T (negative_row E A D lens t i) ! k"
  obtain l where l: "add_log_probs T L idx (ng_logsumexp G) = Inr l" "G1 = G\<lparr>ng_logsumexp := l\<rparr>"
    using body by auto
  have "l = Some (table n v (\<lambda>t k. ln (f t k + probs T (ft_rows M ! t) ! k)))"
    using add_log_probs_table [OF l(1) M(1,2) idx] Cons.prems(2) row by simp
  also have "table n v (\<lambda>t k. ln (f t k + probs T (ft_rows M ! t) ! k)) = table n v (\<lambda>t k. ln (?f t k))"
    by (rule table_eqI) (simp_all add: row(1))
  finally have l1: "ng_logsumexp G1 = Some (table n v (\<lambda>t k. ln (?f t k)))" using l(2) by simp
  have pos: "\<forall>t<n. \<forall>k<v. 0 < ?f t k"
    using Cons.prems(2) row(2) by (auto intro!: add_nonneg_pos probs_pos intro: less_imp_le)
  have "ng_logsumexp G' = None \<and> is = []
    \<or> ng_logsumexp G' = Some (table n v (\<lambda>t k. ln (?f t k + hint_sum E A D lens T is t k)))
      \<and> (\<forall>t<n. \<forall>k<v. 0 < ?f t k + hint_sum E A D lens T is t k)"
    by (rule Cons.IH [OF rest]) (use l1 pos in blast)
  moreover have "is = [] \<Longrightarrow> ng_logsumexp G' = ng_logsumexp G1" using rest by simp
  ultimately show ?case using l1 by (auto simp: add.assoc)
qed

lemma loop_rows:
  assumes ready: "teacher_ready E A" and vocab: "one_vocab E A v"
    and loop: "fst (negative_loop (negative_step E D lens n tr T c count) is G A) = Inr G'"
  shows "\<forall>i \<in> set is. \<forall>t<n. length (negative_row E A D lens t i) = v"
  using loop
proof (induction "is" arbitrary: G)
  case (Cons i "is")
  obtain G1 where one: "fst (negative_step E D lens n tr T c count i G A) = Inr G1"
    and rest: "fst (negative_loop (negative_step E D lens n tr T c count) is G1 A) = Inr G'"
    using loop_cons [OF snd_negative_step [OF ready] Cons.prems(1)] by blast
  have "\<forall>t<n. length (negative_row E A D lens t i) = v"
    by (rule negative_stepE [OF ready vocab one]) blast
  then show ?case using Cons.IH [OF rest] by simp
qed simp

lemma hint_sum_total:
  assumes "\<forall>i \<in> set is. length (negative_row E A D lens t i) = v" "0 < v"
  shows "(\<Sum>k<v. hint_sum E A D lens T is t k) = real (length is)"
  using assms(1)
proof (induction "is")
  case (Cons i "is")
  have "negative_row E A D lens t i \<noteq> []" using Cons.prems assms(2) by auto
  then show ?case
    using Cons probs_total_sum [of "negative_row E A D lens t i" T] by (simp add: sum.distrib)
qed simp

text \<open>The probability the negative Teacher gives to entry \<open>k\<close> of row \<open>t\<close>: as it is passed, or
  the Softmax of the logits it is passed as.\<close>

definition negative_prob :: "real \<Rightarrow> flat option \<Rightarrow> flat option \<Rightarrow> nat \<Rightarrow> nat \<Rightarrow> real" where
  "negative_prob T L q t k =
     (case q of Some q \<Rightarrow> ft_rows q ! t ! k | None \<Rightarrow> probs T (ft_rows (the L) ! t) ! k)"

lemma mixture_probs:
  assumes T: "T \<noteq> 0" and v: "k < v" and pos: "\<And>k. k < v \<Longrightarrow> 0 < f k" and total: "(\<Sum>k<v. f k) = c" and c: "0 < c"
  shows "probs T (vscale T (vshift (map (\<lambda>k. ln (f k)) [0..<v]) (ln c))) ! k = f k / c"
proof -
  let ?z = "vscale T (vshift (map (\<lambda>k. ln (f k)) [0..<v]) (ln c))"
  have entry: "exp (?z ! k / T) = f k / c" if "k < v" for k
    using T pos [OF that] c that by (simp add: exp_diff)
  have len: "length ?z = v" by simp
  have "(\<Sum>k<length ?z. exp (?z ! k / T)) = (\<Sum>k<v. f k / c)"
    unfolding len by (rule sum.cong [OF refl]) (rule entry, simp)
  then have "(\<Sum>k<length ?z. exp (?z ! k / T)) = 1"
    using total c by (simp add: sum_divide_distrib [symmetric])
  then show ?thesis using v entry [OF v] nth_probs_quotient [of k ?z T] by simp
qed

lemma negative_teacher_mixture:
  assumes ready: "teacher_ready E A" and vocab: "one_vocab E A v" and T: "T \<noteq> 0"
    and loop: "fst (negative_loop (negative_step E D lens n tr T c count) [0..<count] no_negatives A) = Inr G"
    and teacher: "negative_teacher tr T count G = Inr (L, q)" and t: "t < n" and k: "k < v"
  shows "negative_prob T L q t k = hint_sum E A D lens T [0..<count] t k / real count"
proof -
  consider (one) "tr" "count = 1" | (many) "tr" "count \<noteq> 1" | (full) "\<not> tr" by blast
  then show ?thesis
  proof cases
    case one
    then obtain G1 where step: "fst (negative_step E D lens n tr T c count 0 no_negatives A) = Inr G1"
      and "fst (negative_loop (negative_step E D lens n tr T c count) [] G1 A) = Inr G"
      using loop_cons [of "negative_step E D lens n tr T c count" 0 no_negatives A "[]" G] ready loop by auto
    then have G: "G1 = G" by simp
    obtain M where M: "ft_rows M ! t = negative_row E A D lens t 0" "ng_logits G = Some M" "ng_probabilities G = None"
      by (rule negative_stepE [OF ready vocab step]) (rule that, use one G t in auto)
    show ?thesis using teacher one by (auto simp: M negative_teacher_def negative_prob_def)
  next
    case many
    have "ng_probabilities G = None \<and> [0..<count] = []
      \<or> ng_probabilities G = Some (table n v (\<lambda>t k. 0 + hint_sum E A D lens T [0..<count] t k / real count))"
      by (rule loop_probabilities [OF ready vocab many(2), where G = no_negatives and f = "\<lambda>_ _. 0"])
        (use loop many in \<open>simp_all add: no_negatives_def\<close>)
    then show ?thesis
      using teacher many t k by (auto simp: negative_teacher_def negative_prob_def split: option.splits)
  next
    case full
    have "ng_logsumexp G = None \<and> [0..<count] = []
      \<or> ng_logsumexp G = Some (table n v (\<lambda>t k. ln (0 + hint_sum E A D lens T [0..<count] t k)))
        \<and> (\<forall>t<n. \<forall>k<v. 0 < 0 + hint_sum E A D lens T [0..<count] t k)"
      by (rule loop_logsumexp [OF ready vocab, where G = no_negatives and f = "\<lambda>_ _. 0"])
        (use loop full in \<open>simp_all add: no_negatives_def\<close>)
    then have sums: "ng_logsumexp G = Some (table n v (\<lambda>t k. ln (hint_sum E A D lens T [0..<count] t k)))"
        "\<forall>k<v. 0 < hint_sum E A D lens T [0..<count] t k" "[0..<count] = [] \<Longrightarrow> False"
      using teacher full t k by (auto simp: negative_teacher_def)
    have total: "(\<Sum>k<v. hint_sum E A D lens T [0..<count] t k) = real count"
      using hint_sum_total [of "[0..<count]" E A D lens t v T] loop_rows [OF ready vocab loop] t k by simp
    have "0 < real count" using sums(3) by (cases count) simp_all
    then show ?thesis
      using mixture_probs [OF T k _ total] sums teacher full t
      by (auto simp: negative_teacher_def negative_prob_def flat_map_def)
  qed
qed

section \<open>The processor\<close>

lemma snd_hinted_teachers [simp]:
  "teacher_ready E A \<Longrightarrow> snd (hinted_teachers E cfg D lens n v A) = A"
  by (simp add: hinted_teachers_def evidence_rows_def Let_def)

definition evidence_prefix :: "verpo_config \<Rightarrow> string" where
  "evidence_prefix cfg =
     (if va_displacement_mode (vc_args cfg) = ''evidence_vs_none'' then ''verpo_evidence'' else ''verpo_positive'')"

lemma evidence_rows_flat:
  assumes ready: "teacher_ready E A" and run: "fst (evidence_rows E D pre lens A) = Inr (L, n)"
  shows "hinted_flat E A D pre lens = Inr L"
proof -
  obtain logits idx where "fst (hinted_forward E D pre lens A) = Inr (logits, idx)"
      "select_flat logits idx = Inr L"
    using run ready by (simp add: evidence_rows_def split_paired_Ex) blast
  then show ?thesis using hinted_forward_flat [OF ready, of D pre lens logits idx] by (auto simp: select_flat_iff)
qed

lemma hinted_teachers_spec:
  assumes ready: "teacher_ready E A" and vocab: "one_vocab E A v" and T: "the_real (va_temperature (vc_args cfg)) \<noteq> 0"
    and run: "fst (hinted_teachers E cfg D lens n v0 A) = Inr H"
  shows "hinted_flat E A D (evidence_prefix cfg) lens = Inr (hr_evidence H)"
    and "va_displacement_mode (vc_args cfg) = ''evidence_vs_none''
      \<Longrightarrow> hr_negative_logits H = None \<and> hr_negative_probabilities H = None"
    and "va_displacement_mode (vc_args cfg) \<noteq> ''evidence_vs_none'' \<Longrightarrow> t < n \<Longrightarrow> k < v
      \<Longrightarrow> negative_prob (the_real (va_temperature (vc_args cfg))) (hr_negative_logits H) (hr_negative_probabilities H) t k
        = hint_sum E A D lens (the_real (va_temperature (vc_args cfg))) [0..<vc_num_negative_hints cfg] t k
          / real (vc_num_negative_hints cfg)"
proof -
  let ?P = "vc_args cfg" and ?T = "the_real (va_temperature (vc_args cfg))" and ?c = "vc_num_negative_hints cfg"
  have evidence: "snd (evidence_rows E D pre lens A) = A" for pre
    using ready by (simp add: evidence_rows_def)
  note negative_loop.simps [simp del]
  have "hinted_flat E A D (evidence_prefix cfg) lens = Inr (hr_evidence H)
    \<and> (if va_displacement_mode ?P = ''evidence_vs_none''
       then hr_negative_logits H = None \<and> hr_negative_probabilities H = None
       else \<exists>tr G. fst (negative_loop (negative_step E D lens n tr ?T (va_vocab_chunk_size ?P) ?c) [0..<?c] no_negatives A)
           = Inr G \<and> negative_teacher tr ?T ?c G = Inr (hr_negative_logits H, hr_negative_probabilities H))"
  proof (cases "va_displacement_mode ?P = ''evidence_vs_none''")
    case True
    obtain L m where "fst (evidence_rows E D ''verpo_evidence'' lens A) = Inr (L, m)"
      "H = \<lparr>hr_evidence = L, hr_count = m, hr_negative_logits = None, hr_negative_probabilities = None\<rparr>"
      using run True evidence by (auto simp: hinted_teachers_def Let_def)
    then show ?thesis using evidence_rows_flat [OF ready] True by (simp add: evidence_prefix_def)
  next
    case False
    obtain L m tr G Ln q where "fst (evidence_rows E D ''verpo_positive'' lens A) = Inr (L, m)"
      and loop: "fst (negative_loop (negative_step E D lens n tr ?T (va_vocab_chunk_size ?P) ?c) [0..<?c] no_negatives A) = Inr G"
        "negative_teacher tr ?T ?c G = Inr (Ln, q)"
      and "H = \<lparr>hr_evidence = L, hr_count = m, hr_negative_logits = Ln, hr_negative_probabilities = q\<rparr>"
      using run False evidence ready by (auto simp: hinted_teachers_def Let_def)
    then show ?thesis using evidence_rows_flat [OF ready] False by (auto simp: evidence_prefix_def)
  qed
  then show "hinted_flat E A D (evidence_prefix cfg) lens = Inr (hr_evidence H)"
    and "va_displacement_mode ?P = ''evidence_vs_none'' \<Longrightarrow> hr_negative_logits H = None \<and> hr_negative_probabilities H = None"
    and "va_displacement_mode ?P \<noteq> ''evidence_vs_none'' \<Longrightarrow> t < n \<Longrightarrow> k < v
      \<Longrightarrow> negative_prob ?T (hr_negative_logits H) (hr_negative_probabilities H) t k
        = hint_sum E A D lens ?T [0..<?c] t k / real ?c"
    using negative_teacher_mixture [OF ready vocab T] by (simp_all split: if_splits) blast
qed

text \<open>The batch of flat rows a processor call hands to the loss.\<close>

definition processor_batch ::
  "engines \<Rightarrow> verpo_config \<Rightarrow> flat \<Rightarrow> ('m) verpo_data_scheme \<Rightarrow> actor \<Rightarrow> nat list \<Rightarrow> flat_batch \<Rightarrow> bool" where
  "processor_batch E cfg student D A idx B \<longleftrightarrow>
     (let lens = map length (nested_rows (rl_responses D)); S = student_distribution cfg student in
      response_predictor_indices (vd_input_ids D) (map (\<lambda>xs. int (length xs)) (nested_rows (rl_prompts D))) lens = Inr idx
      \<and> index_rows (ft_rows S) idx = Inr (ft_rows (fb_student B)) \<and> ft_v (fb_student B) = ft_v student
      \<and> (\<exists>q0. teacher_logits E A (vd_input_ids D) = Inr q0 \<and> index_rows (ft_rows q0) idx = Inr (ft_rows (fb_base B)))
      \<and> hinted_flat E A D (evidence_prefix cfg) lens = Inr (fb_evidence B)
      \<and> token_inputs D lens = Inr (fb_sampled_token_ids B, fb_token_advantages B, fb_active_token_mask B))"

lemma student_distribution_v [simp]: "ft_v (student_distribution cfg student) = ft_v student"
  by (simp add: student_distribution_def flat_map_def Let_def)

lemma logits_processor_eq:
  assumes ready: "teacher_ready E A" and vocab: "one_vocab E A v" and T: "the_real (va_temperature (vc_args cfg)) \<noteq> 0"
    and run: "fst (verpo_logits_processor topk E cfg student D A) = Inr R"
  shows "\<exists>idx B outputs. processor_batch E cfg student D A idx B
    \<and> compute_flat_verpo_losses topk (vc_args cfg) B = Inr outputs
    \<and> R = scatter_result (length (ft_rows student)) idx outputs
    \<and> (if va_displacement_mode (vc_args cfg) = ''evidence_vs_none''
       then fb_negative_logits B = None \<and> fb_negative_probabilities B = None
       else \<forall>t<length idx. \<forall>k<v. negative_prob (the_real (va_temperature (vc_args cfg)))
           (fb_negative_logits B) (fb_negative_probabilities B) t k
         = hint_sum E A D (map length (nested_rows (rl_responses D))) (the_real (va_temperature (vc_args cfg)))
             [0..<vc_num_negative_hints cfg] t k / real (vc_num_negative_hints cfg))"
proof -
  let ?lens = "map length (nested_rows (rl_responses D))"
  obtain q0 idx q0r H ids adv gate sr outputs where
    q0: "teacher_logits E A (vd_input_ids D) = Inr q0"
    and idx: "response_predictor_indices (vd_input_ids D) (map (\<lambda>xs. int (length xs)) (nested_rows (rl_prompts D))) ?lens = Inr idx"
    and sel: "select_flat q0 idx = Inr q0r"
    and H: "fst (hinted_teachers E cfg D ?lens (length idx) (ft_v student) A) = Inr H"
    and tok: "token_inputs D ?lens = Inr (ids, adv, gate)"
    and sr: "select_flat (student_distribution cfg student) idx = Inr sr"
    and out: "compute_flat_verpo_losses topk (vc_args cfg) \<lparr>fb_student = sr, fb_base = q0r, fb_evidence = hr_evidence H,
            fb_sampled_token_ids = ids, fb_token_advantages = adv,
            fb_active_token_mask = gate, fb_negative_logits = hr_negative_logits H,
            fb_negative_probabilities = hr_negative_probabilities H\<rparr> = Inr outputs"
    and R: "R = scatter_result (length (ft_rows student)) idx outputs"
    using run ready by (auto simp: verpo_logits_processor_def teacher_forward_eq nested_lens_def comp_def
        split: if_splits)
  note H' = hinted_teachers_spec [OF ready vocab T H]
  let ?B = "\<lparr>fb_student = sr, fb_base = q0r, fb_evidence = hr_evidence H,
            fb_sampled_token_ids = ids, fb_token_advantages = adv,
            fb_active_token_mask = gate, fb_negative_logits = hr_negative_logits H,
            fb_negative_probabilities = hr_negative_probabilities H\<rparr>"
  have "processor_batch E cfg student D A idx ?B"
    using q0 idx sel sr tok H'(1) by (auto simp: processor_batch_def Let_def select_flat_iff)
  moreover have "if va_displacement_mode (vc_args cfg) = ''evidence_vs_none''
       then fb_negative_logits ?B = None \<and> fb_negative_probabilities ?B = None
       else \<forall>t<length idx. \<forall>k<v. negative_prob (the_real (va_temperature (vc_args cfg)))
           (fb_negative_logits ?B) (fb_negative_probabilities ?B) t k
         = hint_sum E A D ?lens (the_real (va_temperature (vc_args cfg)))
             [0..<vc_num_negative_hints cfg] t k / real (vc_num_negative_hints cfg)"
    using H'(2,3) by simp
  ultimately show ?thesis using out R by blast
qed

end
