(* ===== verification/BatchLoss.thy ===== *)
theory BatchLoss
  imports NativeBatch
begin

text \<open>
  The loss of a micro-batch: \<open>ppo_loss\<close> (\<open>verl/verl/workers/utils/losses.py\<close>), the routing counts
  that normalise the evidence loss (\<open>_refresh_verpo_global_routing_counts\<close> of
  \<open>verl/verl/workers/engine_workers.py\<close>), and the final loss \<open>verpo_zpd_ppo_loss\<close> of
  \<open>verl/verl/trainer/distillation/verpo_zpd.py\<close>. The registry of policy losses is an argument; its
  entry \<open>vanilla\<close> is \<open>compute_policy_loss_vanilla\<close>. An all-reduce over the data-parallel group
  is the sum over the ranks of the group.
\<close>

section \<open>The micro-batch\<close>

record verpo_batch = verpo_data +
  vb_old_log_probs :: "real batched"
  vb_rollout_is_weights :: "real batched option"
  vb_ref_log_prob :: "real batched option"
  vb_dp_size :: int
  vb_batch_num_tokens :: "int option"
  vb_global_batch_size :: "int option"
  vb_outcome_positive :: "bool list"
  vb_evidence_batch_num_tokens :: "int list option"
  vb_evidence_global_batch_size :: "int list option"
  vb_fec_correct_token_count :: "int list option"
  vb_fec_wrong_token_count :: "int list option"

text \<open>Outputs of the model on the packed batch, with the entries of the logits processor.\<close>

record model_output =
  mo_log_probs :: vec
  mo_entropy :: "vec option"
  mo_verpo :: flat_result

section \<open>The policy loss\<close>

type_synonym policy_fn = "vec list \<Rightarrow> vec list \<Rightarrow> vec list \<Rightarrow> bool list list \<Rightarrow> string \<Rightarrow> batch_info
  \<Rightarrow> vec list option \<Rightarrow> (pyfloat \<times> pg_metrics) res"

record ppo_config =
  pc_loss_agg_mode :: string
  pc_loss_scale_factor :: "int option"
  pc_loss_mode :: string
  pc_policy_losses :: "string \<Rightarrow> policy_fn option"
  pc_entropy_coeff :: real
  pc_use_kl_loss :: bool
  pc_kl_loss_type :: string
  pc_kl_loss_coef :: real

definition global_batch_info :: "ppo_config \<Rightarrow> ('m) verpo_batch_scheme \<Rightarrow> batch_info" where
  "global_batch_info cfg D =
     \<lparr>bi_dp_size = vb_dp_size D, bi_batch_num_tokens = vb_batch_num_tokens D,
      bi_global_batch_size = vb_global_batch_size D, bi_loss_scale_factor = pc_loss_scale_factor cfg\<rparr>"

definition padded_mask :: "('m) verpo_data_scheme \<Rightarrow> bool list list" where
  "padded_mask D = to_padded False (vd_response_mask D)"

definition opt_padding :: "vec option \<Rightarrow> response_layout \<Rightarrow> vec list option res" where
  "opt_padding values D = (case values of None \<Rightarrow> Inr None
     | Some v \<Rightarrow> rbind (no_padding_2_padding v D) (\<lambda>m. Inr (Some m)))"

definition layout_of :: "('m) response_layout_scheme \<Rightarrow> response_layout" where
  "layout_of D = response_layout.truncate D"

record ppo_metrics =
  pm_pg :: pg_metrics
  pm_pg_loss :: pyfloat
  pm_entropy_loss :: "pyfloat option"
  pm_kl_loss :: "pyfloat option"

definition entropy_term ::
  "ppo_config \<Rightarrow> ('m) verpo_batch_scheme \<Rightarrow> vec list option \<Rightarrow> pyfloat \<Rightarrow> (pyfloat \<times> pyfloat option) res" where
  "entropy_term cfg D entropy policy_loss =
     (case entropy of
        None \<Rightarrow> Inr (policy_loss, None)
      | Some mat \<Rightarrow> rbind (agg_loss mat (padded_mask D) (pc_loss_agg_mode cfg) (global_batch_info cfg D))
          (\<lambda>e. Inr (pf_add policy_loss (pf_mul (Fin (- pc_entropy_coeff cfg)) e), Some e)))"

definition kl_term ::
  "ppo_config \<Rightarrow> ('m) verpo_batch_scheme \<Rightarrow> vec list \<Rightarrow> vec list option \<Rightarrow> pyfloat
    \<Rightarrow> (pyfloat \<times> pyfloat option) res" where
  "kl_term cfg D log_prob reference policy_loss =
     (if \<not> pc_use_kl_loss cfg then Inr (policy_loss, None)
      else rbind (case reference of
          Some r \<Rightarrow> Inr r
        | None \<Rightarrow> (case vb_ref_log_prob D of
              None \<Rightarrow> Inl (KeyError ''ref_log_prob'') | Some t \<Rightarrow> Inr (to_padded 0 t))) (\<lambda>ref_log_prob.
        rbind (kl_penalty (pc_kl_loss_type cfg) log_prob ref_log_prob) (\<lambda>kld.
        rbind (agg_loss kld (padded_mask D) (pc_loss_agg_mode cfg) (global_batch_info cfg D)) (\<lambda>kl_loss.
          Inr (pf_add policy_loss (pf_mul kl_loss (Fin (pc_kl_loss_coef cfg))), Some kl_loss)))))"

definition ppo_loss ::
  "ppo_config \<Rightarrow> model_output \<Rightarrow> ('m) verpo_batch_scheme \<Rightarrow> vec option \<Rightarrow> vec list option
    \<Rightarrow> (pyfloat \<times> ppo_metrics) res" where
  "ppo_loss cfg out D reference_log_probs advantages_override =
     rbind (no_padding_2_padding (mo_log_probs out) (layout_of D)) (\<lambda>log_prob.
     rbind (opt_padding reference_log_probs (layout_of D)) (\<lambda>reference.
     rbind (opt_padding (mo_entropy out) (layout_of D)) (\<lambda>entropy.
     let old_log_prob = to_padded 0 (vb_old_log_probs D);
         padded_advantages = to_padded 0 (vd_advantages D) in
     rbind (case advantages_override of
         None \<Rightarrow> Inr padded_advantages
       | Some a \<Rightarrow> if map length a \<noteq> map length padded_advantages
           then Inl (ValueError ''advantages_override must have the same padded shape as advantages'')
           else Inr a) (\<lambda>advantages.
     rbind (case pc_policy_losses cfg (pc_loss_mode cfg) of
         None \<Rightarrow> Inl (ValueError ''Unsupported loss mode'')
       | Some policy_loss_fn \<Rightarrow> policy_loss_fn old_log_prob log_prob advantages (padded_mask D) (pc_loss_agg_mode cfg)
           (global_batch_info cfg D) (map_option (to_padded 0) (vb_rollout_is_weights D))) (\<lambda>(pg_loss, pg).
     rbind (entropy_term cfg D entropy pg_loss) (\<lambda>(policy_loss, entropy_loss).
     rbind (kl_term cfg D log_prob reference policy_loss) (\<lambda>(policy_loss, kl_loss).
       Inr (policy_loss, \<lparr>pm_pg = pg, pm_pg_loss = pg_loss, pm_entropy_loss = entropy_loss,
         pm_kl_loss = kl_loss\<rparr>))))))))"

section \<open>Routing counts\<close>

text \<open>The four local counts of \<open>_refresh_verpo_global_routing_counts\<close>; \<open>unbind\<close> gives the rows.\<close>

record routing_counts =
  rc_tokens :: int
  rc_rows :: int
  rc_correct_tokens :: int
  rc_wrong_tokens :: int

definition local_routing_counts :: "('m) verpo_batch_scheme \<Rightarrow> routing_counts res" where
  "local_routing_counts D =
     (let counts = map (\<lambda>m. int (count_list m True)) (nested_rows (vd_response_mask D));
          gate = vd_evidence_rollout_gate D; positive = vb_outcome_positive D;
          routed = (\<lambda>bs. sum_list (map2 (\<lambda>c b. c * of_bool b) counts bs))
      in if length counts \<noteq> length gate
         then Inl (ValueError ''VERPO response masks and rollout gates must have the same batch size'')
         else if length positive \<noteq> length gate then Inl (RuntimeError ''broadcast'')
         else Inr \<lparr>rc_tokens = routed gate,
           rc_rows = sum_list (map2 (\<lambda>c b. of_bool (b \<and> 0 < c)) counts gate),
           rc_correct_tokens = routed (map2 (\<and>) gate positive),
           rc_wrong_tokens = routed (map2 (\<lambda>g p. g \<and> \<not> p) gate positive)\<rparr>)"

text \<open>The same counts after the all-reduce, repeated over the rows of the rank.\<close>

definition refresh_routing_counts :: "routing_counts list \<Rightarrow> ('m) verpo_batch_scheme \<Rightarrow> ('m) verpo_batch_scheme" where
  "refresh_routing_counts all_ranks D =
     (let n = length (vd_evidence_rollout_gate D);
          total = (\<lambda>f. replicate n (sum_list (map f all_ranks)))
      in D\<lparr>vb_evidence_batch_num_tokens := Some (total rc_tokens),
           vb_evidence_global_batch_size := Some (total rc_rows),
           vb_fec_correct_token_count := Some (total rc_correct_tokens),
           vb_fec_wrong_token_count := Some (total rc_wrong_tokens)\<rparr>)"

section \<open>The VERPO loss\<close>

definition repeated_global_count :: "int list option \<Rightarrow> string \<Rightarrow> int \<Rightarrow> int \<Rightarrow> int res" where
  "repeated_global_count entry key dp_size fallback =
     (case entry of
        Some (value # _) \<Rightarrow> Inr value
      | _ \<Rightarrow> if 1 < dp_size then Inl (ValueError (''Missing global VERPO routing count: '' @ key))
          else Inr fallback)"

definition gated_mask :: "bool list list \<Rightarrow> bool list \<Rightarrow> bool list list res" where
  "gated_mask response_mask gate = broadcast2 (\<lambda>m g. map (\<lambda>b. b \<and> g) m) response_mask gate"

definition modulated_advantages ::
  "verpo_config \<Rightarrow> model_output \<Rightarrow> ('m) verpo_batch_scheme \<Rightarrow> vec list option res" where
  "modulated_advantages vcfg out D =
     (if vc_advantage_modulation vcfg \<noteq> ''multiplicative_w'' then Inr None
      else rbind (no_padding_2_padding (fr_weights (mo_verpo out)) (layout_of D)) (\<lambda>weights.
        let padded_advantages = to_padded 0 (vd_advantages D) in
        if map length padded_advantages \<noteq> map length weights
        then Inl (ValueError ''VERPO advantage modulation requires weights and advantages to have the same padded shape'')
        else rbind (modulate_advantages padded_advantages weights (vc_modulation_lambda vcfg)) (\<lambda>a. Inr (Some a))))"

record batch_metrics =
  bm_ppo :: ppo_metrics
  bm_grpo_loss :: pyfloat
  bm_reference_loss :: pyfloat
  bm_evidence_loss :: pyfloat
  bm_audit :: "(string \<times> real) list"

definition evidence_agg ::
  "ppo_config \<Rightarrow> ('m) verpo_batch_scheme \<Rightarrow> vec list \<Rightarrow> bool list list \<Rightarrow> pyfloat res" where
  "evidence_agg cfg D losses evidence_mask =
     rbind (repeated_global_count (vb_evidence_batch_num_tokens D) ''verpo_evidence_batch_num_tokens'' (vb_dp_size D)
       (int (token_count evidence_mask))) (\<lambda>tokens.
     rbind (repeated_global_count (vb_evidence_global_batch_size D) ''verpo_evidence_global_batch_size'' (vb_dp_size D)
       (int (row_count evidence_mask))) (\<lambda>rows.
     let info = (global_batch_info cfg D)\<lparr>bi_batch_num_tokens := Some tokens, bi_global_batch_size := Some rows\<rparr>
     in if 0 < (if pc_loss_agg_mode cfg = ''token-mean'' then tokens else rows)
        then agg_loss losses evidence_mask (pc_loss_agg_mode cfg) info
        else Inr (Fin (vsum (concat losses) * 0))))"

definition verpo_zpd_ppo_loss ::
  "ppo_config \<Rightarrow> verpo_config \<Rightarrow> (pyfloat \<Rightarrow> pyfloat \<Rightarrow> pyfloat \<Rightarrow> (string \<times> real) list res) option \<Rightarrow> model_output
    \<Rightarrow> ('m) verpo_batch_scheme \<Rightarrow> (pyfloat \<times> batch_metrics) res" where
  "verpo_zpd_ppo_loss cfg vcfg auditor out D =
     (let response_mask = padded_mask D; R = mo_verpo out in
      rbind (modulated_advantages vcfg out D) (\<lambda>advantages_override.
      rbind (ppo_loss cfg out D (Some (fr_q0_sample_log_prob R)) advantages_override) (\<lambda>(grpo_loss, ppo).
      rbind (gated_mask response_mask (vd_evidence_rollout_gate D)) (\<lambda>evidence_mask.
      rbind (no_padding_2_padding (fr_reference_loss R) (layout_of D)) (\<lambda>reference_losses.
      rbind (no_padding_2_padding (fr_evidence_loss R) (layout_of D)) (\<lambda>evidence_losses.
      rbind (agg_loss reference_losses response_mask (pc_loss_agg_mode cfg) (global_batch_info cfg D)) (\<lambda>reference_loss.
      rbind (evidence_agg cfg D evidence_losses evidence_mask) (\<lambda>evidence_loss.
      let scaled_reference = pf_mul (Fin (vc_lambda_ref vcfg)) reference_loss;
          scaled_evidence = pf_mul (Fin (vc_lambda_evi vcfg)) evidence_loss in
      rbind (case auditor of None \<Rightarrow> Inr [] | Some audit \<Rightarrow> audit grpo_loss scaled_reference scaled_evidence)
        (\<lambda>audit_metrics.
      Inr (pf_add (pf_add grpo_loss scaled_reference) scaled_evidence,
        \<lparr>bm_ppo = ppo, bm_grpo_loss = grpo_loss, bm_reference_loss = reference_loss,
         bm_evidence_loss = evidence_loss, bm_audit = audit_metrics\<rparr>))))))))))"

end
