(* ===== verification/BatchProps.thy ===== *)
theory BatchProps
  imports "HOL-Library.Multiset" BatchMix BatchLoss Trainer NativeProps
begin

text \<open>
  The properties of a native training step over packed batches: the logits processor evaluates the
  Teachers on the response tokens and mixes the negative hints, its outputs come back at the response
  positions, the aggregated losses do not depend on the split into ranks and micro-batches, and the
  clipped policy loss agrees with the package's.
\<close>

section \<open>The logits processor\<close>

lemma snd_processor [simp]:
  "teacher_ready E A \<Longrightarrow> snd (verpo_logits_processor topk E cfg student D A) = A"
  by (simp add: verpo_logits_processor_def teacher_forward_eq)

text \<open>C7: a call of the logits processor leaves the actor as it was, and what it returns is
  \<open>compute_flat_verpo_losses\<close> on one row per response token, scattered back to the packed
  sequence: the Student row and the Teacher row of the plain prompt at the position that predicts the
  token, the Teacher row of the hinted prompt, and, outside the fixed mode, a negative Teacher whose
  probability of every vocabulary entry is the average over the negative hints, in the truncated
  mode (one hint or several) as in the exact mode.\<close>

theorem processor_mixes_teachers:
  assumes ready: "teacher_ready E A" and vocab: "one_vocab E A v"
    and T: "the_real (va_temperature (vc_args cfg)) \<noteq> 0"
    and run: "verpo_logits_processor topk E cfg student D A = (Inr R, A')"
  shows "A' = A \<and> (\<exists>idx B outputs. processor_batch E cfg student D A idx B
    \<and> compute_flat_verpo_losses topk (vc_args cfg) B = Inr outputs
    \<and> R = scatter_result (length (ft_rows student)) idx outputs
    \<and> (if va_displacement_mode (vc_args cfg) = ''evidence_vs_none''
       then fb_negative_logits B = None \<and> fb_negative_probabilities B = None
       else \<forall>t<length idx. \<forall>k<v. negative_prob (the_real (va_temperature (vc_args cfg)))
           (fb_negative_logits B) (fb_negative_probabilities B) t k
         = (\<Sum>i<vc_num_negative_hints cfg. probs (the_real (va_temperature (vc_args cfg)))
             (negative_row E A D (map length (nested_rows (rl_responses D))) t i) ! k)
           / real (vc_num_negative_hints cfg)))"
proof -
  have A': "fst (verpo_logits_processor topk E cfg student D A) = Inr R" "A' = A"
    using run snd_processor [OF ready, of topk cfg student D] by simp_all
  have upto: "hint_sum E A D lens T [0..<c] t k = (\<Sum>i<c. probs T (negative_row E A D lens t i) ! k)" for lens T c t k
    by (simp add: hint_sum_def interv_sum_list_conv_sum_set_nat atLeast0LessThan)
  show ?thesis
    using logits_processor_eq [OF ready vocab T A'(1)] A'(2) by (simp only: upto simp_thms)
qed

text \<open>One prompt token, one response token, two negative hints.\<close>

definition sample_engines :: engines where
  "sample_engines = \<lparr>en_module = \<lambda>_ _. LogitsOther,
     en_reference = \<lambda>inputs. Logits2 2 (map (\<lambda>x. [real_of_int x, 0]) (concat (nested_rows inputs))),
     en_actor_teacher = None\<rparr>"

definition sample_verpo_config :: "string \<Rightarrow> verpo_config" where
  "sample_verpo_config vocab =
     \<lparr>vc_args = \<lparr>va_tau = Fin 1, va_rho = Fin 1, va_cost_floor = Fin 0, va_cost_beta = Fin 1,
        va_cost_alpha = None, va_cost_epsilon = None, va_allow_negative_benefit = False, va_temperature = Fin 1,
        va_vocab_chunk_size = 2, va_divergence = ''forward_kl'', va_displacement_mode = ''reward_ranked'',
        va_projection_epsilon = Fin 1, va_vocab_mode = vocab, va_top_k = 1\<rparr>,
      vc_num_negative_hints = 2, vc_lambda_ref = 1, vc_lambda_evi = 1, vc_advantage_modulation = ''none'',
      vc_modulation_lambda = Fin 0\<rparr>"

definition sample_data :: verpo_data where
  "sample_data = \<lparr>rl_prompts = Nested [[1]], rl_responses = Nested [[0]], rl_attention_mask = [],
     rl_max_response_len = - 1, vd_input_ids = Nested [[1, 0]], vd_temperature = Some 1,
     vd_teachers = map (\<lambda>(pre, xs). (pre, \<lparr>tb_input_ids = Nested [xs @ [0]], tb_prompt_lengths = Some [int (length xs)]\<rparr>))
       [(''verpo_positive'', [4, 5]), (''verpo_negative_0'', [2]), (''verpo_negative_1'', [6, 6, 3])],
     vd_response_mask = Nested [[True]], vd_advantages = Nested [[1]], vd_evidence_rollout_gate = [False]\<rparr>"

definition sample_negative :: vec where
  "sample_negative = vscale 1 (vshift (map2 logaddexp (log_probs 1 [2, 0]) (log_probs 1 [3, 0])) (ln 2))"

lemma sample_negative_length: "length sample_negative = 2"
  by (simp add: sample_negative_def)

definition sample_call :: vcall where
  "sample_call = \<lparr>vc_student = one_pos [0, 0], vc_base = one_pos [1, 0], vc_evidence = one_pos [5, 0],
     vc_negative = Some (one_pos sample_negative), vc_tokens = one_id 0, vc_advantages = [1], vc_active = [False]\<rparr>"

lemma sample_prefixes:
  "negative_prefix 0 = ''verpo_negative_0''" "negative_prefix 1 = ''verpo_negative_1''"
  by code_simp+

lemma sample_hints:
  "hinted_forward sample_engines sample_data ''verpo_positive'' [1] [] = (Inr (\<lparr>ft_v = 2, ft_rows = [[4, 0], [5, 0], [0, 0]]\<rparr>, [1]), [])"
  "hinted_forward sample_engines sample_data (negative_prefix 0) [1] [] = (Inr (\<lparr>ft_v = 2, ft_rows = [[2, 0], [0, 0]]\<rparr>, [0]), [])"
  "hinted_forward sample_engines sample_data (negative_prefix (Suc 0)) [1] []
    = (Inr (\<lparr>ft_v = 2, ft_rows = [[6, 0], [6, 0], [3, 0], [0, 0]]\<rparr>, [2]), [])"
  using sample_prefixes
  by (simp_all add: hinted_forward_def sbind_def lift_def teacher_forward_def sample_engines_def sample_data_def
      teacher_data_def teacher_prompt_lengths_def response_predictor_indices_def offsets_def)

lemma sample_processor:
  "verpo_logits_processor topk_by_sort sample_engines (sample_verpo_config ''full'')
     \<lparr>ft_v = 2, ft_rows = [[0, 0], [0, 0]]\<rparr> sample_data []
   = (rbind (compute_flat_verpo_losses topk_by_sort (vc_args (sample_verpo_config ''full'')) (batch_of sample_call))
       (\<lambda>outputs. Inr (scatter_result 2 [0] outputs)), [])"
proof -
  let ?cfg = "sample_verpo_config ''full''"
  have q0: "teacher_forward sample_engines (vd_input_ids sample_data) [] = (Inr \<lparr>ft_v = 2, ft_rows = [[1, 0], [0, 0]]\<rparr>, [])"
    by (simp add: teacher_forward_def sample_engines_def sample_data_def)
  have negatives: "hinted_teachers sample_engines ?cfg sample_data [1] 1 2 []
    = (Inr \<lparr>hr_evidence = \<lparr>ft_v = 2, ft_rows = [[5, 0]]\<rparr>, hr_count = 1,
        hr_negative_logits = Some \<lparr>ft_v = 2, ft_rows = [sample_negative]\<rparr>, hr_negative_probabilities = None\<rparr>, [])"
    by (simp add: hinted_teachers_def evidence_rows_def sbind_def lift_def sample_hints [unfolded One_nat_def] sample_verpo_config_def
        select_flat_def indexed_rows_view_when_contiguous_def narrow_rows_def native_use_full_vocab_def
        native_validate_vocab_def upt_conv_Cons negative_step_def add_log_probs_def index_rows_def no_negatives_def
        negative_teacher_def flat_shape_def flat_map2_def flat_map_def sample_negative_def)
  have tokens: "token_inputs sample_data [1] = Inr ([0], [1], [False])"
    by (simp add: token_inputs_def sample_data_def nested_values_def first_nested_value_per_row_def
        repeat_rows_over_responses_def broadcast2_def)
  have idx: "response_predictor_indices (vd_input_ids sample_data) [1] [1] = Inr [0]"
    "nested_lens (rl_prompts sample_data) = Inr [1]" "nested_lens (rl_responses sample_data) = Inr [1]"
    by (simp_all add: response_predictor_indices_def offsets_def sample_data_def nested_lens_def)
  have student: "student_distribution ?cfg L = L" for L
    by (simp add: student_distribution_def sample_verpo_config_def)
  show ?thesis
    by (simp add: verpo_logits_processor_def sbind_def lift_def q0 idx [unfolded One_nat_def]
        negatives [unfolded One_nat_def] tokens [unfolded One_nat_def] student select_flat_def
        indexed_rows_view_when_contiguous_def narrow_rows_def batch_of_def sample_call_def flat_of_def
        sample_negative_length numeral_2_eq_2 [symmetric])
qed

lemma sample_processor_runs:
  "\<exists>R. verpo_logits_processor topk_by_sort sample_engines (sample_verpo_config ''full'')
     \<lparr>ft_v = 2, ft_rows = [[0, 0], [0, 0]]\<rparr> sample_data [] = (Inr R, [])"
proof -
  let ?A = "vc_args (sample_verpo_config ''full'')"
  have ok: "call_ok (va_displacement_mode ?A) sample_call" "args_ok ?A 1 1 1 1"
    "native_use_full_vocab (va_vocab_mode ?A) (va_top_k ?A) (lg_v (vc_student sample_call)) = Inr True"
    using sample_negative_length
    by (simp_all add: sample_verpo_config_def sample_call_def call_ok_def valid_mode_def args_ok_def
        validate_verpo_controller_def resolve_cost_parameters_def native_use_full_vocab_def native_validate_vocab_def
        rows_of_call_def contrastive_mode_def)
  have "flat_weights ?A 1 1 (vc_active sample_call) [x] = Inr [0]" for x
    by (simp add: flat_weights_def sample_call_def token_weight_def)
  then obtain outputs where "compute_flat_verpo_losses topk_by_sort ?A (batch_of sample_call) = Inr outputs"
    using native_dispatch [OF topk_sort_ok ok]
    by (auto simp: meets_def Let_def rows_of_call_def sample_call_def)
  then show ?thesis using sample_processor by simp
qed

theorem processor_mixes_teachers_witness:
  "\<exists>R idx B. verpo_logits_processor topk_by_sort sample_engines (sample_verpo_config ''full'')
      \<lparr>ft_v = 2, ft_rows = [[0, 0], [0, 0]]\<rparr> sample_data [] = (Inr R, [])
    \<and> processor_batch sample_engines (sample_verpo_config ''full'') \<lparr>ft_v = 2, ft_rows = [[0, 0], [0, 0]]\<rparr>
        sample_data [] idx B
    \<and> (\<forall>t<length idx. \<forall>k<2. negative_prob 1 (fb_negative_logits B) (fb_negative_probabilities B) t k
        = (\<Sum>i<2. probs 1 (negative_row sample_engines [] sample_data [1] t i) ! k) / 2)"
proof -
  let ?cfg = "sample_verpo_config ''full''" and ?S = "\<lparr>ft_v = 2, ft_rows = [[0, 0], [0, 0]]\<rparr>"
  obtain R where run: "verpo_logits_processor topk_by_sort sample_engines ?cfg ?S sample_data [] = (Inr R, [])"
    using sample_processor_runs by blast
  have ready: "teacher_ready sample_engines []" by (simp add: teacher_ready_def sample_engines_def)
  have vocab: "one_vocab sample_engines [] 2"
    by (auto simp: one_vocab_def teacher_logits_def sample_engines_def wf_flat_def)
  have cfg: "the_real (va_temperature (vc_args ?cfg)) = 1" "vc_num_negative_hints ?cfg = 2"
      "va_displacement_mode (vc_args ?cfg) \<noteq> ''evidence_vs_none''"
      "map length (nested_rows (rl_responses sample_data)) = [1]"
    by (simp_all add: sample_verpo_config_def sample_data_def)
  show ?thesis
    using processor_mixes_teachers [OF ready vocab _ run] cfg run by auto
qed


section \<open>Back to the response positions\<close>

lemma max_len_upper: "ys \<in> set yss \<Longrightarrow> length ys \<le> max_len yss"
  by (induction yss) (auto simp: max_len_def)

lemma foldr_max_len: "foldr max (map length yss) 0 = max_len yss"
  by (simp add: max_len_def)

text \<open>C39: what the processor scatters to the packed sequence, \<open>no_padding_2_padding\<close> reads back: on
  nested prompts and responses (any number of rows, non-empty prompts, responses of any lengths, the
  input rows as long as prompt and response together) the predictor positions exist, and scattering
  per-token values there and cutting the responses out again gives the values of every row, padded
  with zeros to the width of the batch.\<close>

theorem packed_values_roundtrip:
  assumes prompts: "rl_prompts D = Nested xss" and responses: "rl_responses D = Nested yss"
    and len: "length xss = length yss" and batch: "yss \<noteq> []" and nonempty: "[] \<notin> set xss"
    and input: "map length zss = map2 (\<lambda>xs ys. length xs + length ys) xss yss"
    and vs: "map length vss = map length yss"
    and width: "rl_max_response_len D < 0 \<or> (\<forall>ys \<in> set yss. int (length ys) \<le> rl_max_response_len D)"
  shows "\<exists>idx. response_predictor_indices (Nested zss) (map (\<lambda>xs. int (length xs)) xss) (map length yss) = Inr idx
    \<and> no_padding_2_padding (scatter_rows 0 (length (concat zss)) idx (concat vss)) D
      = Inr (pad_rows 0 (if rl_max_response_len D < 0 then max_len yss else nat (rl_max_response_len D)) vss)"
proof -
  define L where "L = zip (map length xss) vss"
  define m where "m = (if rl_max_response_len D < 0 then int (max_len yss) else rl_max_response_len D)"
  have lvs: "length vss = length xss" using map_eq_imp_length_eq [OF vs] len by simp
  have L: "map fst L = map length xss" "map snd L = vss" using lvs by (simp_all add: L_def)
  have fst_L: "map (int \<circ> fst) L = map (\<lambda>xs. int (length xs)) xss"
    using arg_cong [OF L(1), of "map int"] by (simp add: comp_def)
  have snd_L: "map (length \<circ> snd) L = map length yss"
    using arg_cong [OF L(2), of "map length"] vs by (simp add: comp_def)
  have lens: "map (\<lambda>b. fst b + length (snd b)) L = map length zss"
  proof -
    have "map (\<lambda>b. fst b + length (snd b)) L = map2 (+) (map fst L) (map (length \<circ> snd) L)"
      by (simp add: zip_map_map comp_def split_def zip_same_conv_map)
    then show ?thesis
      unfolding L(1) snd_L by (simp add: input zip_map_map comp_def split_def)
  qed
  have pos: "\<forall>b \<in> set L. 0 < fst b" using nonempty by (auto simp: L_def dest!: set_zip_leftD)
  have total: "packed_len L = length (concat zss)"
    using arg_cong [OF lens, of sum_list] by (simp add: packed_len_def length_concat split_def)
  have bound: "int (length v) \<le> m" if "v \<in> set vss" for v
  proof -
    have "length v \<in> length ` set yss" using arg_cong [OF vs, of set] that by (metis image_eqI list.set_map)
    then show ?thesis using width max_len_upper by (fastforce simp: m_def)
  qed
  obtain pieces where pieces: "predictor_pieces (butlast (offsets_from 0 (map length zss)))
      (map (\<lambda>xs. int (length xs)) xss) (map length yss) = Inr pieces" "concat pieces = positions_from 0 L"
    using predictor_pieces_packed [OF pos, of 0] unfolding lens fst_L snd_L by blast
  then have idx: "response_predictor_indices (Nested zss) (map (\<lambda>xs. int (length xs)) xss) (map length yss)
      = Inr (positions_from 0 L)"
    by (simp add: response_predictor_indices_def offsets_def)
  have scattered: "scatter_rows 0 (length (concat zss)) (positions_from 0 L) (concat vss) = packed 0 L"
    using scatter_packed [OF pos, of 0] total L(2) by simp
  have size: "length (packed 0 L :: vec) = length (concat zss)"
    using pos unfolding total [symmetric]
    by (induction L) auto
  have cut: "map2 (cut_response m (packed 0 L)) (map length yss) (tl (offsets_from 0 (map length zss)))
      = pad_rows 0 (nat m) vss"
    using scatter_read_back [OF pos, of m] bound L(2) unfolding snd_L lens
    by (metis L(2) in_set_conv_nth length_map nth_map)
  have add: "map2 (+) (map length xss) (map length yss) = map length zss"
    by (simp add: input zip_map_map comp_def split_def)
  have "length zss = length yss" using arg_cong [OF input, of length] len by simp
  then have size_offs: "length (tl (offsets_from 0 (map length zss))) = length yss" by simp
  then have ne: "tl (offsets_from 0 (map length zss)) \<noteq> []" using batch by (metis length_0_conv)
  have last_offs: "last (tl (offsets_from 0 (map length zss))) = length (concat zss)"
    using last_tl [of "offsets_from 0 (map length zss)"] ne last_offsets_from [of 0 "map length zss"]
    by (simp add: length_concat)
  have widths: "list_all (\<lambda>xs. length xs = length (hd (pad_rows 0 (nat m) vss))) (pad_rows 0 (nat m) vss)"
  proof -
    have "length xs = nat m" if "xs \<in> set (pad_rows 0 (nat m) vss)" for xs
      using that bound by (fastforce simp: pad_rows_def pad_row_def)
    moreover have "hd (pad_rows 0 (nat m) vss) \<in> set (pad_rows 0 (nat m) vss)"
      using lvs len batch by (intro hd_in_set) (auto simp: pad_rows_def)
    ultimately show ?thesis by (auto simp: list_all_iff)
  qed
  have "response_lengths D = Inr (map length xss, map length yss, m)"
    using prompts responses batch by (simp add: response_lengths_def nested_lens_def m_def foldr_max_len)
  then have "no_padding_2_padding (packed 0 L) D = Inr (pad_rows 0 (nat m) vss)"
    using add len ne last_offs size_offs size nonempty cut widths
    by (simp add: no_padding_2_padding_def broadcast2_def Let_def image_iff)
  moreover have "nat m = (if rl_max_response_len D < 0 then max_len yss else nat (rl_max_response_len D))"
    by (simp add: m_def)
  ultimately show ?thesis using idx scattered by auto
qed

theorem packed_values_roundtrip_witness:
  "\<exists>idx. response_predictor_indices (Nested [[1, 0, 1], [2, 3 :: int]]) [1, 2] [2, 0] = Inr idx
    \<and> no_padding_2_padding (scatter_rows 0 5 idx [1/2, 1/3])
        \<lparr>rl_prompts = Nested [[1], [2, 3]], rl_responses = Nested [[0, 1], []], rl_attention_mask = [],
         rl_max_response_len = 3\<rparr>
      = Inr [[1/2, 1/3, 0], [0, 0, 0]]"
  using packed_values_roundtrip [of "\<lparr>rl_prompts = Nested [[1], [2, 3]], rl_responses = Nested [[0, 1], []],
      rl_attention_mask = [], rl_max_response_len = 3\<rparr>" "[[1], [2, 3]]" "[[0, 1], []]" "[[1, 0, 1], [2, 3]]"
      "[[1/2, 1/3], []]"]
  by (simp add: pad_rows_def pad_row_def numeral_eq_Suc)

section \<open>Aggregation over ranks and micro-batches\<close>

lemma counts_positive: "0 < row_count tmask \<longleftrightarrow> 0 < token_count tmask"
  by (induction tmask) (auto simp: row_count_def token_count_def count_list_pos)

lemma agg_divisor_nonzero:
  assumes "0 < tokens" "0 < rows" "mode = ''seq-mean-token-sum-norm'' \<Longrightarrow> factor \<noteq> 0"
  shows "agg_divisor mode tokens rows factor \<noteq> 0"
  using assms by (auto simp: agg_divisor_def)

lemma sum_list_rescale:
  "c \<noteq> 0 \<Longrightarrow> sum_list (map (\<lambda>(a, b). f a b / d * c) xs) / c = sum_list (map (\<lambda>(a, b). f a b) xs) / (d :: real)"
  by (induction xs) (auto simp: add_divide_distrib)

text \<open>\<open>agg_loss\<close> does not depend on the split of a batch. In each of its four modes, let the rows of
  a batch be spread over micro-batches of any number of ranks, each aggregated with the token count and
  the sequence count of the whole batch and the size of the data-parallel group: the sum over all
  micro-batches, divided by that size (gradients accumulate over micro-batches and are averaged over
  ranks), is what one process gets for the whole batch without any global information. The mode
  normalised by a constant needs that constant (its default is the width of the micro-batch).\<close>

theorem agg_loss_partition:
  assumes mode: "mode \<in> set loss_agg_modes" and dp: "0 < dp"
    and shape: "list_all (\<lambda>(mat, tmask). map length mat = map length tmask) batches"
    and some: "\<exists>(mat, tmask) \<in> set batches. \<exists>m \<in> set tmask. True \<in> set m"
    and factor: "mode = ''seq-mean-token-sum-norm'' \<longrightarrow> (\<exists>f. factor = Some f \<and> f \<noteq> 0)"
    and info: "info = \<lparr>bi_dp_size = dp, bi_batch_num_tokens = Some (\<Sum>(mat, tmask)\<leftarrow>batches. int (token_count tmask)),
      bi_global_batch_size = Some (\<Sum>(mat, tmask)\<leftarrow>batches. int (row_count tmask)), bi_loss_scale_factor = factor\<rparr>"
  shows "\<exists>ls. map (\<lambda>(mat, tmask). agg_loss mat tmask mode info) batches = map (\<lambda>l. Inr (Fin l)) ls
    \<and> agg_loss (concat (map fst batches)) (concat (map snd batches)) mode
        \<lparr>bi_dp_size = 1, bi_batch_num_tokens = None, bi_global_batch_size = None, bi_loss_scale_factor = factor\<rparr>
      = Inr (Fin (sum_list ls / real_of_int dp))"
proof -
  let ?mats = "concat (map fst batches)" and ?masks = "concat (map snd batches)"
  define tokens where "tokens = real (token_count ?masks)"
  define rows where "rows = real (row_count ?masks)"
  define F where "F = (case factor of None \<Rightarrow> real (length (hd ?masks)) | Some f \<Rightarrow> real_of_int f)"
  have total: "(\<Sum>(mat, tmask)\<leftarrow>batches. int (token_count tmask)) = int (token_count ?masks)"
    "(\<Sum>(mat, tmask)\<leftarrow>batches. int (row_count tmask)) = int (row_count ?masks)"
    by (induction batches) (auto simp: token_count_def row_count_def)
  obtain mat0 mask0 m0 where "(mat0, mask0) \<in> set batches" "m0 \<in> set mask0" "True \<in> set m0"
    using some by blast
  then have "m0 \<in> set (filter (\<lambda>m. True \<in> set m) ?masks)" by (auto intro!: bexI [of _ "(mat0, mask0)"])
  then have "0 < row_count ?masks" unfolding row_count_def by (rule length_pos_if_in_set)
  then have pos: "0 < tokens" "0 < rows" using counts_positive [of ?masks] by (simp_all add: tokens_def rows_def)
  have nz: "agg_divisor mode tokens rows F \<noteq> 0"
    by (rule agg_divisor_nonzero [OF pos]) (use factor F_def in auto)
  have norm_factor: "agg_divisor mode tokens rows F = agg_divisor mode tokens rows
      (case factor of None \<Rightarrow> real (length (hd tmask)) | Some f \<Rightarrow> real_of_int f)" for tmask :: "bool list list"
    using factor by (auto simp: agg_divisor_def F_def)
  have each: "agg_loss mat tmask mode info
      = Inr (Fin (loss_total mode mat tmask / agg_divisor mode tokens rows F * real_of_int dp))"
    if "(mat, tmask) \<in> set batches" for mat tmask
    using agg_loss_eq [of mat tmask mode info _ tokens _ rows] that shape mode nz norm_factor [of tmask]
    by (auto simp: info total tokens_def rows_def list_all_iff)
  let ?ls = "map (\<lambda>(mat, tmask). loss_total mode mat tmask / agg_divisor mode tokens rows F * real_of_int dp) batches"
  have "map (\<lambda>(mat, tmask). agg_loss mat tmask mode info) batches = map (\<lambda>l. Inr (Fin l)) ?ls"
    using each by auto
  moreover have "sum_list ?ls / real_of_int dp = loss_total mode ?mats ?masks / agg_divisor mode tokens rows F"
  proof -
    have "list_all (\<lambda>(mat, tmask). length mat = length tmask) batches"
      using shape by (auto simp: list_all_iff dest!: map_eq_imp_length_eq)
    from loss_total_concat [OF this, of mode] show ?thesis
      using sum_list_rescale [of "real_of_int dp" "loss_total mode"] dp by simp
  qed
  moreover have "agg_loss ?mats ?masks mode \<lparr>bi_dp_size = 1, bi_batch_num_tokens = None,
      bi_global_batch_size = None, bi_loss_scale_factor = factor\<rparr>
    = Inr (Fin (loss_total mode ?mats ?masks / agg_divisor mode tokens rows F))"
  proof -
    have "map length ?mats = map length ?masks"
      using shape by (induction batches) auto
    then show ?thesis
      using agg_loss_eq [of ?mats ?masks mode "\<lparr>bi_dp_size = 1, bi_batch_num_tokens = None,
        bi_global_batch_size = None, bi_loss_scale_factor = factor\<rparr>" _ tokens _ rows F] mode nz
      by (simp add: tokens_def rows_def F_def)
  qed
  ultimately show ?thesis by (intro exI [of _ ?ls] conjI) (simp_all only:)
qed

theorem agg_loss_partition_witness:
  "\<exists>ls. map (\<lambda>(mat, tmask). agg_loss mat tmask ''seq-mean-token-sum'' \<lparr>bi_dp_size = 2, bi_batch_num_tokens = Some 2,
        bi_global_batch_size = Some 2, bi_loss_scale_factor = None\<rparr>)
      [([[1, 2]], [[True, False]]), ([[3]], [[True]])] = map (\<lambda>l. Inr (Fin l)) ls
    \<and> agg_loss [[1, 2], [3]] [[True, False], [True]] ''seq-mean-token-sum''
        \<lparr>bi_dp_size = 1, bi_batch_num_tokens = None, bi_global_batch_size = None, bi_loss_scale_factor = None\<rparr>
      = Inr (Fin (sum_list ls / 2))"
  using agg_loss_partition [of "''seq-mean-token-sum''" 2 "[([[1, 2]], [[True, False]]), ([[3]], [[True]])]" None
      "\<lparr>bi_dp_size = 2, bi_batch_num_tokens = Some 2, bi_global_batch_size = Some 2, bi_loss_scale_factor = None\<rparr>"]
  by (simp add: loss_agg_modes_def token_count_def row_count_def)

section \<open>The VERPO loss over a global batch\<close>

definition evidence_mask_of :: "('m) verpo_batch_scheme \<Rightarrow> bool list list" where
  "evidence_mask_of D = map2 (\<lambda>m g. map (\<lambda>b. b \<and> g) m) (padded_mask D) (vd_evidence_rollout_gate D)"

definition padded_values :: "vec \<Rightarrow> ('m) verpo_batch_scheme \<Rightarrow> vec list" where
  "padded_values values D = projr (no_padding_2_padding values (layout_of D))"

lemma count_pad_row [simp]: "count_list (pad_row False n m) True = count_list m True"
proof -
  have "count_list (replicate k False) True = 0" for k by (induction k) simp_all
  then show ?thesis by (simp add: pad_row_def)
qed

lemma padded_counts: "map (\<lambda>m. count_list m True) (padded_mask D) = map (\<lambda>m. count_list m True) (nested_rows (vd_response_mask D))"
  by (cases "vd_response_mask D") (simp_all add: padded_mask_def pad_rows_def)

lemma gated_count: "count_list (map (\<lambda>b. b \<and> g) m) True = (if g then count_list m True else 0)"
  by (induction m) auto

text \<open>The counts the ranks exchange are those of the gated mask.\<close>

lemma routing_counts_of_mask:
  assumes "local_routing_counts D = Inr c"
  shows "length (padded_mask D) = length (vd_evidence_rollout_gate D)"
    and "rc_tokens c = int (token_count (evidence_mask_of D))" and "rc_rows c = int (row_count (evidence_mask_of D))"
proof -
  let ?counts = "map (\<lambda>m. int (count_list m True)) (nested_rows (vd_response_mask D))" and ?g = "vd_evidence_rollout_gate D"
  have c: "length ?counts = length ?g" "rc_tokens c = sum_list (map2 (\<lambda>c b. c * of_bool b) ?counts ?g)"
      "rc_rows c = sum_list (map2 (\<lambda>c b. of_bool (b \<and> 0 < c)) ?counts ?g)"
    using assms by (auto simp: local_routing_counts_def Let_def split: if_splits)
  have counts: "?counts = map (\<lambda>m. int (count_list m True)) (padded_mask D)"
    using arg_cong [OF padded_counts [of D], of "map int"] by (simp add: comp_def)
  then show len: "length (padded_mask D) = length ?g" using c(1) by (metis length_map)
  have "sum_list (map2 (\<lambda>c b. c * of_bool b) (map (\<lambda>m. int (count_list m True)) M) g)
      = int (token_count (map2 (\<lambda>m g. map (\<lambda>b. b \<and> g) m) M g))" for M g
    by (induction M g rule: list_induct2') (simp_all add: token_count_def gated_count)
  then show "rc_tokens c = int (token_count (evidence_mask_of D))"
    unfolding c(2) counts evidence_mask_of_def .
  have "sum_list (map2 (\<lambda>c b. of_bool (b \<and> 0 < c)) (map (\<lambda>m. int (count_list m True)) M) g)
      = int (row_count (map2 (\<lambda>m g. map (\<lambda>b. b \<and> g) m) M g))" for M g
    by (induction M g rule: list_induct2') (auto simp: row_count_def count_list_pos)
  then show "rc_rows c = int (row_count (evidence_mask_of D))"
    unfolding c(3) counts evidence_mask_of_def .
qed

lemma verpo_lossD:
  assumes "verpo_zpd_ppo_loss cfg vcfg aud out D = Inr (l, m)"
    and len: "length (padded_mask D) = length (vd_evidence_rollout_gate D)"
  shows "agg_loss (padded_values (fr_reference_loss (mo_verpo out)) D) (padded_mask D) (pc_loss_agg_mode cfg)
      (global_batch_info cfg D) = Inr (bm_reference_loss m)"
    and "evidence_agg cfg D (padded_values (fr_evidence_loss (mo_verpo out)) D) (evidence_mask_of D)
      = Inr (bm_evidence_loss m)"
    and "l = pf_add (pf_add (bm_grpo_loss m) (pf_mul (Fin (vc_lambda_ref vcfg)) (bm_reference_loss m)))
      (pf_mul (Fin (vc_lambda_evi vcfg)) (bm_evidence_loss m))"
proof -
  have mask: "gated_mask (padded_mask D) (vd_evidence_rollout_gate D) = Inr (evidence_mask_of D)"
    using len by (simp add: gated_mask_def broadcast2_def evidence_mask_of_def)
  note run = assms(1) [unfolded verpo_zpd_ppo_loss_def Let_def]
  show "agg_loss (padded_values (fr_reference_loss (mo_verpo out)) D) (padded_mask D) (pc_loss_agg_mode cfg)
      (global_batch_info cfg D) = Inr (bm_reference_loss m)"
    and "evidence_agg cfg D (padded_values (fr_evidence_loss (mo_verpo out)) D) (evidence_mask_of D)
      = Inr (bm_evidence_loss m)"
    and "l = pf_add (pf_add (bm_grpo_loss m) (pf_mul (Fin (vc_lambda_ref vcfg)) (bm_reference_loss m)))
      (pf_mul (Fin (vc_lambda_evi vcfg)) (bm_evidence_loss m))"
    using run mask by (auto simp: padded_values_def)
qed

lemma agg_loss_shape: "agg_loss mat tmask mode info = Inr x \<Longrightarrow> map length mat = map length tmask"
  by (simp add: agg_loss_def split: if_splits)

text \<open>The divisor of a configuration, without its default width.\<close>

definition config_divisor :: "ppo_config \<Rightarrow> int \<Rightarrow> int \<Rightarrow> real" where
  "config_divisor cfg tokens rows = agg_divisor (pc_loss_agg_mode cfg) (real_of_int tokens) (real_of_int rows)
     (case pc_loss_scale_factor cfg of None \<Rightarrow> 1 | Some f \<Rightarrow> real_of_int f)"

definition config_ok :: "ppo_config \<Rightarrow> bool" where
  "config_ok cfg \<longleftrightarrow> pc_loss_agg_mode cfg \<in> set loss_agg_modes
     \<and> (pc_loss_agg_mode cfg = ''seq-mean-token-sum-norm'' \<longrightarrow> (\<exists>f. pc_loss_scale_factor cfg = Some f \<and> f \<noteq> 0))"

lemma agg_loss_config:
  assumes cfg: "config_ok cfg" and run: "agg_loss mat tmask (pc_loss_agg_mode cfg) info = Inr x"
    and info: "info = \<lparr>bi_dp_size = dp, bi_batch_num_tokens = Some G, bi_global_batch_size = Some N,
      bi_loss_scale_factor = pc_loss_scale_factor cfg\<rparr>" and pos: "0 < G" "0 < N"
  shows "x = Fin (loss_total (pc_loss_agg_mode cfg) mat tmask / config_divisor cfg G N * real_of_int dp)"
proof -
  let ?F = "case pc_loss_scale_factor cfg of None \<Rightarrow> real (length (hd tmask)) | Some f \<Rightarrow> real_of_int f"
  have d: "agg_divisor (pc_loss_agg_mode cfg) (real_of_int G) (real_of_int N) ?F = config_divisor cfg G N"
    using cfg by (auto simp: config_divisor_def config_ok_def agg_divisor_def)
  have "agg_divisor (pc_loss_agg_mode cfg) (real_of_int G) (real_of_int N) ?F \<noteq> 0"
    by (rule agg_divisor_nonzero) (use pos cfg in \<open>auto simp: config_ok_def\<close>)
  then show ?thesis
    using agg_loss_eq [OF agg_loss_shape [OF run], of "pc_loss_agg_mode cfg" info G "real_of_int G" N "real_of_int N" ?F]
      run cfg by (simp add: info d config_ok_def)
qed

lemma evidence_agg_config:
  assumes cfg: "config_ok cfg" and run: "evidence_agg cfg D mat tmask = Inr x"
    and counts: "vb_evidence_batch_num_tokens D = Some (T # xs)" "vb_evidence_global_batch_size D = Some (K # ys)"
    and pos: "0 < T \<longleftrightarrow> 0 < K"
  shows "x = Fin (if 0 < T
    then loss_total (pc_loss_agg_mode cfg) mat tmask / config_divisor cfg T K * real_of_int (vb_dp_size D) else 0)"
proof (cases "0 < T")
  case True
  have "agg_loss mat tmask (pc_loss_agg_mode cfg) ((global_batch_info cfg D)\<lparr>bi_batch_num_tokens := Some T,
      bi_global_batch_size := Some K\<rparr>) = Inr x"
    using run counts True pos by (simp add: evidence_agg_def repeated_global_count_def Let_def split: if_splits)
  from agg_loss_config [OF cfg this, of "vb_dp_size D" T K] True pos show ?thesis
    by (simp add: global_batch_info_def)
next
  case False
  then show ?thesis
    using run counts pos by (auto simp: evidence_agg_def repeated_global_count_def Let_def split: if_splits)
qed

text \<open>A micro-batch selects rows of the batch of its rank; these are the entries the routing counts
  and the evidence loss read.\<close>

definition micro_batch_of :: "('m) verpo_batch_scheme \<Rightarrow> nat list \<Rightarrow> ('m) verpo_batch_scheme \<Rightarrow> bool" where
  "micro_batch_of D idx M \<longleftrightarrow> idx \<noteq> []
     \<and> nested_rows (vd_response_mask M) = map ((!) (nested_rows (vd_response_mask D))) idx
     \<and> vd_evidence_rollout_gate M = map ((!) (vd_evidence_rollout_gate D)) idx
     \<and> vb_evidence_batch_num_tokens M = map_option (\<lambda>xs. map ((!) xs) idx) (vb_evidence_batch_num_tokens D)
     \<and> vb_evidence_global_batch_size M = map_option (\<lambda>xs. map ((!) xs) idx) (vb_evidence_global_batch_size D)"

text \<open>One optimizer step: for every data-parallel rank its batch and its micro-batches (the rows of each,
  the outputs of the model, the micro-batch, and the loss and metrics the code returns). The ranks
  exchange their routing counts before the batch is split; the micro-batches of a rank take each of
  its rows once.\<close>

type_synonym micro_run = "nat list \<times> model_output \<times> verpo_batch \<times> pyfloat \<times> batch_metrics"

definition step_runs :: "(verpo_batch \<times> micro_run list) list \<Rightarrow> micro_run list" where
  "step_runs ranks = concat (map snd ranks)"

definition rank_step :: "ppo_config \<Rightarrow> verpo_config \<Rightarrow> (pyfloat \<Rightarrow> pyfloat \<Rightarrow> pyfloat \<Rightarrow> (string \<times> real) list res) option
    \<Rightarrow> int \<Rightarrow> int \<Rightarrow> int \<Rightarrow> routing_counts list \<Rightarrow> verpo_batch \<Rightarrow> micro_run list \<Rightarrow> bool" where
  "rank_step cfg vcfg aud dp G N counts D runs \<longleftrightarrow>
     mset (concat (map fst runs)) = mset [0..<length (vd_evidence_rollout_gate D)]
     \<and> (\<forall>(idx, out, M, l, m) \<in> set runs. micro_batch_of (refresh_routing_counts counts D) idx M
         \<and> verpo_zpd_ppo_loss cfg vcfg aud out M = Inr (l, m)
         \<and> vb_dp_size M = dp \<and> vb_batch_num_tokens M = Some G \<and> vb_global_batch_size M = Some N)"

definition step_batch :: "ppo_config \<Rightarrow> verpo_config \<Rightarrow> (pyfloat \<Rightarrow> pyfloat \<Rightarrow> pyfloat \<Rightarrow> (string \<times> real) list res) option
    \<Rightarrow> int \<Rightarrow> int \<Rightarrow> (verpo_batch \<times> micro_run list) list \<Rightarrow> bool" where
  "step_batch cfg vcfg aud G N ranks \<longleftrightarrow>
     (\<exists>counts. map (local_routing_counts \<circ> fst) ranks = map Inr counts
       \<and> (\<forall>(D, runs) \<in> set ranks. rank_step cfg vcfg aud (int (length ranks)) G N counts D runs))"

definition routed_masks :: "(verpo_batch \<times> micro_run list) list \<Rightarrow> bool list list" where
  "routed_masks ranks = concat (map (\<lambda>(idx, out, M, _). evidence_mask_of M) (step_runs ranks))"

lemma loss_total_sum:
  assumes "\<forall>r \<in> set runs. h r = loss_total mode (M r) (V r) / d * c \<and> length (M r) = length (V r)" "c \<noteq> 0"
  shows "sum_list (map h runs) / c = loss_total mode (concat (map M runs)) (concat (map V runs)) / d"
  using assms(1)
proof (induction runs)
  case (Cons r runs)
  then show ?case using assms(2) by (simp add: loss_total_append add_divide_distrib)
qed (simp add: loss_total_def)

text \<open>The rows of a batch with their gates, and the counts read off them.\<close>

definition gated_rows :: "('m) verpo_batch_scheme \<Rightarrow> (bool list \<times> bool) list" where
  "gated_rows D = zip (nested_rows (vd_response_mask D)) (vd_evidence_rollout_gate D)"

lemma counts_of_gated_rows:
  "token_count (evidence_mask_of D) = (\<Sum>(m, g)\<leftarrow>gated_rows D. if g then count_list m True else 0)"
  "row_count (evidence_mask_of D) = (\<Sum>(m, g)\<leftarrow>gated_rows D. of_bool (g \<and> 0 < count_list m True))"
proof -
  have t: "token_count (map2 (\<lambda>m g. map (\<lambda>b. b \<and> g) m) A g) = (\<Sum>(m, g)\<leftarrow>zip B g. if g then count_list m True else 0)"
    and r: "row_count (map2 (\<lambda>m g. map (\<lambda>b. b \<and> g) m) A g) = (\<Sum>(m, g)\<leftarrow>zip B g. of_bool (g \<and> 0 < count_list m True))"
    if "map (\<lambda>m. count_list m True) A = map (\<lambda>m. count_list m True) B" for A B g
  proof -
    from that have "list_all2 (\<lambda>a b. count_list a True = count_list b True) A B"
      by (auto simp: list_all2_conv_all_nth list_eq_iff_nth_eq)
    then have "token_count (map2 (\<lambda>m g. map (\<lambda>b. b \<and> g) m) A g) = (\<Sum>(m, g)\<leftarrow>zip B g. if g then count_list m True else 0)
      \<and> row_count (map2 (\<lambda>m g. map (\<lambda>b. b \<and> g) m) A g) = (\<Sum>(m, g)\<leftarrow>zip B g. of_bool (g \<and> 0 < count_list m True))"
    proof (induction A B arbitrary: g rule: list_all2_induct)
      case (Cons a A b B)
      have "True \<in> set (map (\<lambda>b. b \<and> h) a) \<longleftrightarrow> h \<and> 0 < count_list b True" for h
        using count_list_pos [of a True] Cons.hyps(1) by auto
      with Cons show ?case
        by (cases g) (auto simp: token_count_def row_count_def gated_count split: prod.splits)
    qed (simp add: token_count_def row_count_def)
    then show "token_count (map2 (\<lambda>m g. map (\<lambda>b. b \<and> g) m) A g) = (\<Sum>(m, g)\<leftarrow>zip B g. if g then count_list m True else 0)"
      "row_count (map2 (\<lambda>m g. map (\<lambda>b. b \<and> g) m) A g) = (\<Sum>(m, g)\<leftarrow>zip B g. of_bool (g \<and> 0 < count_list m True))"
      by simp_all
  qed
  show "token_count (evidence_mask_of D) = (\<Sum>(m, g)\<leftarrow>gated_rows D. if g then count_list m True else 0)"
    "row_count (evidence_mask_of D) = (\<Sum>(m, g)\<leftarrow>gated_rows D. of_bool (g \<and> 0 < count_list m True))"
    unfolding evidence_mask_of_def gated_rows_def by (rule t [OF padded_counts] r [OF padded_counts])+
qed

lemma refresh_rows [simp]:
  "vd_response_mask (refresh_routing_counts counts D) = vd_response_mask D"
  "vd_evidence_rollout_gate (refresh_routing_counts counts D) = vd_evidence_rollout_gate D"
  by (simp_all add: refresh_routing_counts_def Let_def)

lemma micro_rows:
  assumes "micro_batch_of (refresh_routing_counts counts D) idx M" and "set idx \<subseteq> {..<length (vd_evidence_rollout_gate D)}"
    and "length (nested_rows (vd_response_mask D)) = length (vd_evidence_rollout_gate D)"
  shows "gated_rows M = map ((!) (gated_rows D)) idx"
proof -
  have "gated_rows M = map (\<lambda>i. (nested_rows (vd_response_mask D) ! i, vd_evidence_rollout_gate D ! i)) idx"
    using assms(1) by (simp add: micro_batch_of_def gated_rows_def zip_map_map zip_same_conv_map)
  also have "\<dots> = map ((!) (gated_rows D)) idx"
    using assms(2,3) by (intro map_cong) (auto simp: gated_rows_def)
  finally show ?thesis .
qed

lemma rows_below:
  assumes "mset (concat (map fst runs)) = mset [0..<n]" "r \<in> set runs"
  shows "set (fst r) \<subseteq> {..<n}"
proof -
  have "set (concat (map fst runs)) = set [0..<n]" using assms(1) by (rule mset_eq_setD)
  with assms(2) show ?thesis by auto
qed

lemma rank_rows:
  assumes c: "local_routing_counts D = Inr c" and run: "rank_step cfg vcfg aud dp G N counts D runs"
  shows "mset (concat (map (\<lambda>(idx, out, M, _). gated_rows M) runs)) = mset (gated_rows D)"
proof -
  let ?n = "length (vd_evidence_rollout_gate D)"
  have len: "length (nested_rows (vd_response_mask D)) = ?n"
    using routing_counts_of_mask(1) [OF c] arg_cong [OF padded_counts [of D], of length] by simp
  have perm: "mset (concat (map fst runs)) = mset [0..<?n]"
    and micro: "\<forall>(idx, out, M, l, m) \<in> set runs. micro_batch_of (refresh_routing_counts counts D) idx M"
    using run by (auto simp: rank_step_def)
  have "map (\<lambda>(idx, out, M, _). gated_rows M) runs = map (\<lambda>r. map ((!) (gated_rows D)) (fst r)) runs"
    using micro rows_below [OF perm] micro_rows [OF _ _ len] by (intro map_cong) fastforce+
  then have "concat (map (\<lambda>(idx, out, M, _). gated_rows M) runs) = map ((!) (gated_rows D)) (concat (map fst runs))"
    by (simp only: map_concat map_map comp_def)
  then have "mset (concat (map (\<lambda>(idx, out, M, _). gated_rows M) runs))
      = image_mset ((!) (gated_rows D)) (mset [0..<?n])" by (simp only: mset_map perm)
  also have "\<dots> = mset (map ((!) (gated_rows D)) [0..<length (gated_rows D)])"
    by (simp add: gated_rows_def len)
  finally show ?thesis by (simp only: map_nth)
qed

lemma token_count_append: "token_count (xs @ ys) = token_count xs + token_count ys"
  and row_count_append: "row_count (xs @ ys) = row_count xs + row_count ys"
  by (simp_all add: token_count_def row_count_def)

lemma counts_of_rows:
  fixes runs :: "micro_run list"
  assumes "mset (concat (map (\<lambda>(idx, out, M, _). gated_rows M) runs)) = mset (gated_rows (D :: verpo_batch))"
  shows "token_count (concat (map (\<lambda>(idx, out, M, _). evidence_mask_of M) runs)) = token_count (evidence_mask_of D)"
    and "row_count (concat (map (\<lambda>(idx, out, M, _). evidence_mask_of M) runs)) = row_count (evidence_mask_of D)"
proof -
  have perm: "sum_list (map F (concat (map (\<lambda>(idx, out, M, _). gated_rows M) runs))) = sum_list (map F (gated_rows D))"
    for F :: "bool list \<times> bool \<Rightarrow> nat"
  proof -
    have "sum_list (map F xs) = sum_mset (image_mset F (mset xs))" for xs
      by (simp add: sum_mset_sum_list flip: mset_map)
    then show ?thesis by (simp only: assms)
  qed
  have "token_count (concat (map (\<lambda>(idx, out, M, _). evidence_mask_of M) runs))
      = (\<Sum>(m, g)\<leftarrow>concat (map (\<lambda>(idx, out, M, _). gated_rows M) runs). if g then count_list m True else 0)" for runs :: "micro_run list"
    by (induction runs) (auto simp: token_count_append counts_of_gated_rows, simp add: token_count_def)
  then show "token_count (concat (map (\<lambda>(idx, out, M, _). evidence_mask_of M) runs)) = token_count (evidence_mask_of D)"
    unfolding counts_of_gated_rows by (simp only: perm)
  have "row_count (concat (map (\<lambda>(idx, out, M, _). evidence_mask_of M) runs))
      = (\<Sum>(m, g)\<leftarrow>concat (map (\<lambda>(idx, out, M, _). gated_rows M) runs). of_bool (g \<and> 0 < count_list m True))" for runs :: "micro_run list"
    by (induction runs) (auto simp: row_count_append counts_of_gated_rows, simp add: row_count_def)
  then show "row_count (concat (map (\<lambda>(idx, out, M, _). evidence_mask_of M) runs)) = row_count (evidence_mask_of D)"
    unfolding counts_of_gated_rows by (simp only: perm)
qed

text \<open>What the exchange gives every rank: the numbers of routed tokens and rows of the whole step.\<close>

lemma step_counts:
  assumes "step_batch cfg vcfg aud G N ranks"
  shows "token_count (routed_masks ranks) = (\<Sum>(D, runs)\<leftarrow>ranks. token_count (evidence_mask_of D))"
    and "row_count (routed_masks ranks) = (\<Sum>(D, runs)\<leftarrow>ranks. row_count (evidence_mask_of D))"
    and "\<exists>counts. sum_list (map rc_tokens counts) = int (token_count (routed_masks ranks))
      \<and> sum_list (map rc_rows counts) = int (row_count (routed_masks ranks))
      \<and> (\<forall>(D, runs) \<in> set ranks. rank_step cfg vcfg aud (int (length ranks)) G N counts D runs)"
proof -
  from assms obtain counts where c: "map (local_routing_counts \<circ> fst) ranks = map Inr counts"
    and all: "\<forall>(D, runs) \<in> set ranks. rank_step cfg vcfg aud (int (length ranks)) G N counts D runs"
    unfolding step_batch_def by blast
  have rows: "mset (concat (map (\<lambda>(idx, out, M, _). gated_rows M) (snd r))) = mset (gated_rows (fst r))"
    if r: "r \<in> set ranks" for r
  proof -
    have "local_routing_counts (fst r) \<in> set (map (local_routing_counts \<circ> fst) ranks)" using r by simp
    then obtain k where "local_routing_counts (fst r) = Inr k" unfolding c by auto
    from rank_rows [OF this] show ?thesis using all r by (cases r) fastforce
  qed
  have per_rank: "token_count (concat (map (\<lambda>(idx, out, M, _). evidence_mask_of M) (snd r))) = token_count (evidence_mask_of (fst r))"
    "row_count (concat (map (\<lambda>(idx, out, M, _). evidence_mask_of M) (snd r))) = row_count (evidence_mask_of (fst r))"
    if "r \<in> set ranks" for r
    by (rule counts_of_rows [OF rows [OF that]])+
  show tokens: "token_count (routed_masks ranks) = (\<Sum>(D, runs)\<leftarrow>ranks. token_count (evidence_mask_of D))"
    using per_rank(1) by (induction ranks) (auto simp: routed_masks_def step_runs_def token_count_append, simp add: token_count_def)
  show gated: "row_count (routed_masks ranks) = (\<Sum>(D, runs)\<leftarrow>ranks. row_count (evidence_mask_of D))"
    using per_rank(2) by (induction ranks) (auto simp: routed_masks_def step_runs_def row_count_append, simp add: row_count_def)
  have "sum_list (map rc_tokens counts) = int (\<Sum>(D, runs)\<leftarrow>ranks. token_count (evidence_mask_of D))
      \<and> sum_list (map rc_rows counts) = int (\<Sum>(D, runs)\<leftarrow>ranks. row_count (evidence_mask_of D))"
    using c
  proof (induction ranks arbitrary: counts)
    case (Cons r ranks)
    then obtain k ks where "counts = k # ks" "local_routing_counts (fst r) = Inr k"
      "map (local_routing_counts \<circ> fst) ranks = map Inr ks" by (cases counts) (auto simp: comp_def)
    then show ?case
      using Cons.IH routing_counts_of_mask(2,3) [of "fst r" k] by (cases r) (simp add: comp_def)
  qed simp
  then show "\<exists>counts. sum_list (map rc_tokens counts) = int (token_count (routed_masks ranks))
      \<and> sum_list (map rc_rows counts) = int (row_count (routed_masks ranks))
      \<and> (\<forall>(D, runs) \<in> set ranks. rank_step cfg vcfg aud (int (length ranks)) G N counts D runs)"
    using all tokens gated by (intro exI [of _ counts]) simp
qed

text \<open>The share of one micro-batch in the step.\<close>

lemma step_member:
  assumes cfg: "config_ok cfg" and pos: "0 < G" "0 < N" and step: "step_batch cfg vcfg aud G N ranks"
    and r: "(idx, out, M, l, m) \<in> set (step_runs ranks)"
  defines "R \<equiv> padded_values (fr_reference_loss (mo_verpo out)) M" and "E \<equiv> padded_values (fr_evidence_loss (mo_verpo out)) M"
    and "T \<equiv> int (token_count (routed_masks ranks))" and "K \<equiv> int (row_count (routed_masks ranks))"
  shows "bm_reference_loss m = Fin (loss_total (pc_loss_agg_mode cfg) R (padded_mask M) / config_divisor cfg G N * real (length ranks))"
    and "bm_evidence_loss m = Fin (if 0 < T then loss_total (pc_loss_agg_mode cfg) E (evidence_mask_of M)
        / config_divisor cfg T K * real (length ranks) else 0)"
    and "l = pf_add (pf_add (bm_grpo_loss m) (pf_mul (Fin (vc_lambda_ref vcfg)) (bm_reference_loss m)))
      (pf_mul (Fin (vc_lambda_evi vcfg)) (bm_evidence_loss m))"
    and "length R = length (padded_mask M)" and "0 < T \<Longrightarrow> length E = length (evidence_mask_of M)"
proof -
  have TK: "0 < T \<longleftrightarrow> 0 < K" using counts_positive by (simp add: T_def K_def)
  from step_counts(3) [OF step] obtain counts
    where sums: "sum_list (map rc_tokens counts) = T" "sum_list (map rc_rows counts) = K"
      and all: "\<forall>(D, runs) \<in> set ranks. rank_step cfg vcfg aud (int (length ranks)) G N counts D runs"
    unfolding T_def K_def by blast
  from r obtain D runs where D: "(D, runs) \<in> set ranks" "(idx, out, M, l, m) \<in> set runs"
    by (auto simp: step_runs_def)
  with all have rank: "rank_step cfg vcfg aud (int (length ranks)) G N counts D runs" by fast
  then have run: "micro_batch_of (refresh_routing_counts counts D) idx M"
      "verpo_zpd_ppo_loss cfg vcfg aud out M = Inr (l, m)" "vb_dp_size M = int (length ranks)"
      "vb_batch_num_tokens M = Some G" "vb_global_batch_size M = Some N"
    using D(2) unfolding rank_step_def by fast+
  have sub: "set idx \<subseteq> {..<length (vd_evidence_rollout_gate D)}"
    using rows_below [OF _ D(2)] rank by (auto simp: rank_step_def)
  have len: "length (padded_mask M) = length (vd_evidence_rollout_gate M)"
    using run(1) arg_cong [OF padded_counts [of M], of length] by (simp add: micro_batch_of_def)
  obtain i ks where idx: "idx = i # ks" using run(1) by (cases idx) (auto simp: micro_batch_of_def)
  obtain xs ys where heads: "vb_evidence_batch_num_tokens M = Some (T # xs)" "vb_evidence_global_batch_size M = Some (K # ys)"
    using run(1) sub by (simp add: micro_batch_of_def refresh_routing_counts_def Let_def idx sums)
  note d = verpo_lossD [OF run(2) len, folded R_def E_def]
  show "bm_reference_loss m = Fin (loss_total (pc_loss_agg_mode cfg) R (padded_mask M) / config_divisor cfg G N * real (length ranks))"
    using agg_loss_config [OF cfg d(1), of "int (length ranks)" G N] run pos by (simp add: global_batch_info_def)
  show "bm_evidence_loss m = Fin (if 0 < T then loss_total (pc_loss_agg_mode cfg) E (evidence_mask_of M)
        / config_divisor cfg T K * real (length ranks) else 0)"
    using evidence_agg_config [OF cfg d(2) heads TK] run(3) by simp
  show "l = pf_add (pf_add (bm_grpo_loss m) (pf_mul (Fin (vc_lambda_ref vcfg)) (bm_reference_loss m)))
      (pf_mul (Fin (vc_lambda_evi vcfg)) (bm_evidence_loss m))" by (rule d(3))
  show "length R = length (padded_mask M)"
    using map_eq_imp_length_eq [OF agg_loss_shape [OF d(1)]] .
  show "length E = length (evidence_mask_of M)" if routed: "0 < T"
  proof -
    obtain info where "agg_loss E (evidence_mask_of M) (pc_loss_agg_mode cfg) info = Inr (bm_evidence_loss m)"
      using d(2) heads routed TK by (auto simp: evidence_agg_def repeated_global_count_def Let_def split: if_splits)
    then show ?thesis by (rule map_eq_imp_length_eq [OF agg_loss_shape])
  qed
qed

text \<open>C6: one optimizer step of VERPO over its data-parallel ranks: every rank counts its routed tokens
  and rows, the counts are summed over the ranks and stored in each batch before it is split, and the
  micro-batches of a rank take each of its rows once. For a known aggregation mode (with a nonzero
  \<open>loss_scale_factor\<close> in the mode \<open>seq-mean-token-sum-norm\<close>) and positive global counts
  of the engine, the loss of every micro-batch is its policy loss plus \<open>lambda_ref\<close> times its
  reference loss plus \<open>lambda_evi\<close> times its evidence loss; and over the whole step (the sum over
  micro-batches, averaged over the ranks) the reference losses add up to the reference loss of all
  response tokens over the engine's global count, and the evidence losses to the evidence loss of
  exactly the tokens routed to evidence, over the number of those tokens (or of the rows that have
  some) on all ranks: no rank's share depends on how many of its own rows are routed, a micro-batch
  with none contributes zero, and when nothing is routed anywhere the evidence term is zero. Those
  numbers are those of the rows the ranks held before the split.\<close>

theorem verpo_loss_global:
  assumes cfg: "config_ok cfg" and pos: "0 < G" "0 < N" and ranks: "ranks \<noteq> []"
    and step: "step_batch cfg vcfg aud G N ranks"
  shows "(\<forall>(idx, out, M, l, m) \<in> set (step_runs ranks). l = pf_add (pf_add (bm_grpo_loss m)
        (Fin (vc_lambda_ref vcfg * the_real (bm_reference_loss m)))) (Fin (vc_lambda_evi vcfg * the_real (bm_evidence_loss m))))
    \<and> (\<Sum>(idx, out, M, l, m)\<leftarrow>step_runs ranks. the_real (bm_reference_loss m)) / real (length ranks)
      = loss_total (pc_loss_agg_mode cfg)
          (concat (map (\<lambda>(idx, out, M, _). padded_values (fr_reference_loss (mo_verpo out)) M) (step_runs ranks)))
          (concat (map (\<lambda>(idx, out, M, _). padded_mask M) (step_runs ranks))) / config_divisor cfg G N
    \<and> (\<Sum>(idx, out, M, l, m)\<leftarrow>step_runs ranks. the_real (bm_evidence_loss m)) / real (length ranks)
      = (if 0 < token_count (routed_masks ranks) then loss_total (pc_loss_agg_mode cfg)
          (concat (map (\<lambda>(idx, out, M, _). padded_values (fr_evidence_loss (mo_verpo out)) M) (step_runs ranks)))
          (routed_masks ranks)
          / config_divisor cfg (int (token_count (routed_masks ranks))) (int (row_count (routed_masks ranks))) else 0)
    \<and> token_count (routed_masks ranks) = (\<Sum>(D, runs)\<leftarrow>ranks. token_count (evidence_mask_of D))
    \<and> row_count (routed_masks ranks) = (\<Sum>(D, runs)\<leftarrow>ranks. row_count (evidence_mask_of D))"
    (is "?losses \<and> ?reference \<and> ?evidence \<and> ?tokens \<and> ?rows")
proof (intro conjI)
  note mem = step_member [OF cfg pos step]
  have dp: "real (length ranks) \<noteq> 0" using ranks by simp
  show ?losses using mem(1-3) by fastforce
  show ?reference by (rule loss_total_sum [OF _ dp]) (use mem(1,4) in auto)
  show ?evidence
  proof (cases "0 < token_count (routed_masks ranks)")
    case True
    have "(\<Sum>(idx, out, M, l, m)\<leftarrow>step_runs ranks. the_real (bm_evidence_loss m)) / real (length ranks)
      = loss_total (pc_loss_agg_mode cfg)
          (concat (map (\<lambda>(idx, out, M, _). padded_values (fr_evidence_loss (mo_verpo out)) M) (step_runs ranks)))
          (concat (map (\<lambda>(idx, out, M, _). evidence_mask_of M) (step_runs ranks)))
          / config_divisor cfg (int (token_count (routed_masks ranks))) (int (row_count (routed_masks ranks)))"
      by (rule loss_total_sum [OF _ dp]) (use mem(2,5) True in auto)
    then show ?thesis using True by (simp flip: routed_masks_def)
  next
    case False
    have "map (\<lambda>(idx, out, M, l, m). the_real (bm_evidence_loss m)) (step_runs ranks) = map (\<lambda>_. 0) (step_runs ranks)"
      using mem(2) False by (intro map_cong) auto
    from arg_cong [OF this, of sum_list] have "(\<Sum>(idx, out, M, l, m)\<leftarrow>step_runs ranks. the_real (bm_evidence_loss m)) = 0"
      by (simp only: sum_list_0)
    then show ?thesis using False by simp
  qed
  show ?tokens ?rows by (rule step_counts [OF step])+
qed

section \<open>The clipped policy loss\<close>

lemma concat_map2_mat:
  assumes "map length A = map length B"
  shows "concat (map2_mat f A B) = map2 f (concat A) (concat B)"
proof -
  have "list_all2 (\<lambda>xs ys. length xs = length ys) A B"
    using assms by (auto simp: list_all2_conv_all_nth list_eq_iff_nth_eq)
  then show ?thesis
    by (induction A B rule: list_all2_induct) (simp_all add: map2_mat_def)
qed

lemma lengths_map2_mat:
  assumes "map length A = map length B"
  shows "map length (map2_mat f A B) = map length A"
proof -
  have "list_all2 (\<lambda>xs ys. length xs = length ys) A B"
    using assms by (auto simp: list_all2_conv_all_nth list_eq_iff_nth_eq)
  then show ?thesis
    by (induction A B rule: list_all2_induct) (simp_all add: map2_mat_def)
qed

lemma token_total:
  "map length mat = map length tmask \<Longrightarrow> loss_total ''token-mean'' mat tmask = vsum (vmul (concat mat) (flat_mask tmask))"
  using masked_sum_concat [of mat tmask]
  by (simp add: loss_total_def row_loss_def masked_sum_mask seq_token_sums_def vsum_def)

text \<open>Below the dual clip, a token's loss is the negated pessimistic surrogate of the package; above it
  the loss is the bound.\<close>

lemma pg_loss_at_eq:
  assumes "\<bar>p - q\<bar> \<le> 20" and low: "0 \<le> low" and c: "1 < c"
  shows "0 \<le> a \<or> exp (p - q) \<le> c \<Longrightarrow> pg_loss_at low high c a (clipped_ratio p q) = - clipped_objective low high p q a"
    and "a < 0 \<Longrightarrow> c < exp (p - q) \<Longrightarrow> pg_loss_at low high c a (clipped_ratio p q) = - a * c"
proof -
  have r: "clipped_ratio p q = exp (p - q)" using assms by (simp add: clipped_ratio_def clamp_id)
  have neg: "max (- a * x) (- a * y) = - min (x * a) (y * a)" for x y :: real
    by (simp add: max_def min_def mult.commute)
  show "pg_loss_at low high c a (clipped_ratio p q) = - clipped_objective low high p q a" if "0 \<le> a \<or> exp (p - q) \<le> c"
  proof (cases "0 \<le> a")
    case True
    then show ?thesis unfolding pg_loss_at_def clipped_objective_def Let_def r neg by simp
  next
    case False
    have "- a * c \<ge> - min (exp (p - q) * a) (clamp (1 - low) (1 + high) (exp (p - q)) * a)"
    proof -
      have "exp (p - q) \<le> c" using that False by simp
      moreover have "clamp (1 - low) (1 + high) (exp (p - q)) \<le> c"
        using calculation low c by (simp add: clamp_def min_le_iff_disj)
      ultimately show ?thesis
        using False by (simp add: min_def mult.commute mult_left_mono_neg)
    qed
    then show ?thesis using False unfolding pg_loss_at_def clipped_objective_def Let_def r neg by simp
  qed
  show "pg_loss_at low high c a (clipped_ratio p q) = - a * c" if "a < 0" "c < exp (p - q)"
  proof -
    have "- a * c \<le> - a * exp (p - q)" using that by (simp add: mult_left_mono_neg)
    then show ?thesis using that unfolding pg_loss_at_def Let_def r by (simp add: min_def max_def)
  qed
qed

definition tok_of_mat :: "'a list list \<Rightarrow> 'a tok" where
  "tok_of_mat mat = \<lparr>tk_n = length mat, tk_s = (case mat of [] \<Rightarrow> 0 | xs # _ \<Rightarrow> length xs), tk_vals = concat mat\<rparr>"

lemma tok_of_mat_shape: "map length A = map length B \<Longrightarrow> tok_shape (tok_of_mat A) = tok_shape (tok_of_mat B)"
  by (cases A; cases B) (auto simp: tok_of_mat_def tok_shape_def dest: map_eq_imp_length_eq)

text \<open>on a batch of its own (token-mean aggregation, no global counts) the native clipped policy loss is
  the package's \<open>grpo_policy_loss\<close>, as long as no log-ratio is beyond 20 and no token with a negative
  advantage has a ratio above the dual-clip bound; the configuration may give the two clip widths
  separately or by \<open>clip_ratio\<close>.\<close>

theorem policy_loss_matches_package:
  assumes shape: "map length log_prob = map length old" "map length advantages = map length old"
      "map length tmask = map length old"
    and some: "0 < token_count tmask" and c: "1 < cc_clip_ratio_c cfg"
    and low: "low = (case cc_clip_ratio_low cfg of None \<Rightarrow> cc_clip_ratio cfg | Some x \<Rightarrow> x)" "0 \<le> low"
    and high: "high = (case cc_clip_ratio_high cfg of None \<Rightarrow> cc_clip_ratio cfg | Some x \<Rightarrow> x)"
    and region: "\<forall>t<length (concat old). \<bar>concat log_prob ! t - concat old ! t\<bar> \<le> 20
      \<and> (0 \<le> concat advantages ! t \<or> exp (concat log_prob ! t - concat old ! t) \<le> cc_clip_ratio_c cfg)"
    and info: "info = \<lparr>bi_dp_size = 1, bi_batch_num_tokens = None, bi_global_batch_size = None, bi_loss_scale_factor = f\<rparr>"
  shows "\<exists>l pg. compute_policy_loss_vanilla cfg old log_prob advantages tmask ''token-mean'' info None = Inr (Fin l, pg)
    \<and> grpo_policy_loss (tok_of_mat log_prob) (tok_of_mat old) (tok_of_mat advantages) (tok_of_mat tmask) low high = Inr l"
proof -
  let ?c = "cc_clip_ratio_c cfg" and ?n = "length (concat old)"
  let ?losses = "map2_mat (pg_loss_at low high ?c) advantages (map2_mat clipped_ratio log_prob old)"
  define obj where "obj = map (\<lambda>t. clipped_objective low high (concat log_prob ! t) (concat old ! t) (concat advantages ! t)) [0..<?n]"
  note lens = concat_lengths [OF shape(1)] concat_lengths [OF shape(2)] concat_lengths [OF shape(3)]
  have ratio: "map length (map2_mat clipped_ratio log_prob old) = map length old"
    using lengths_map2_mat [OF shape(1)] shape(1) by simp
  have losses: "map length ?losses = map length old"
    using lengths_map2_mat [of advantages "map2_mat clipped_ratio log_prob old"] shape(2) ratio by simp
  have "concat ?losses = map2 (pg_loss_at low high ?c) (concat advantages) (concat (map2_mat clipped_ratio log_prob old))"
    by (rule concat_map2_mat) (simp only: shape(2) ratio)
  also have "\<dots> = map2 (pg_loss_at low high ?c) (concat advantages) (map2 clipped_ratio (concat log_prob) (concat old))"
    by (simp only: concat_map2_mat [OF shape(1)])
  also have "\<dots> = map uminus obj"
    unfolding obj_def by (rule nth_equalityI) (use lens region pg_loss_at_eq(1) [OF _ low(2) c] in auto)
  finally have flat: "concat ?losses = map uminus obj" .
  have mask: "length (flat_mask tmask) = ?n" using lens by (simp add: flat_mask_def)
  have neg: "vsum (vmul (map uminus xs) ys) = - vsum (vmul xs ys)" for xs ys
    by (induction xs ys rule: list_induct2') (simp_all add: vmul_def)
  have agg: "agg_loss ?losses tmask ''token-mean'' info
      = Inr (Fin (- (vsum (vmul obj (flat_mask tmask)) / real (token_count tmask))))"
    using agg_loss_eq [of ?losses tmask "''token-mean''" info _ "real (token_count tmask)" _ "real (row_count tmask)"]
      losses shape(3) some token_total [of ?losses tmask]
    by (simp add: info agg_divisor_def loss_agg_modes_def flat neg)
  have "grpo_policy_loss (tok_of_mat log_prob) (tok_of_mat old) (tok_of_mat advantages) (tok_of_mat tmask) low high
      = Inr (- (vsum (vmul obj (flat_mask tmask)) / real (token_count tmask)))"
  proof -
    have "tok_shape (tok_of_mat log_prob) = tok_shape (tok_of_mat old)"
      "tok_shape (tok_of_mat old) = tok_shape (tok_of_mat advantages)"
      "tok_shape (tok_of_mat advantages) = tok_shape (tok_of_mat tmask)"
      by (rule tok_of_mat_shape, simp add: shape)+
    moreover have "max (vsum (flat_mask tmask)) 1 = real (token_count tmask)"
      using some masked_row_counts(1) [of tmask] by simp
    ultimately show ?thesis
      using lens by (simp add: grpo_policy_loss_def masked_mean_def Let_def tok_of_mat_def tok_shape_def flat_mask_def
        mask_f_def obj_def)
  qed
  then show ?thesis
    using agg shape c by (auto simp: compute_policy_loss_vanilla_def low(1) [symmetric] high [symmetric] Let_def)
qed

theorem policy_loss_matches_package_witness:
  "\<exists>l pg. compute_policy_loss_vanilla \<lparr>cc_clip_ratio = 1/5, cc_clip_ratio_low = None, cc_clip_ratio_high = Some (1/4),
      cc_clip_ratio_c = 3\<rparr> [[0, 0]] [[1, 0]] [[1, - 1]] [[True, True]] ''token-mean''
      \<lparr>bi_dp_size = 1, bi_batch_num_tokens = None, bi_global_batch_size = None, bi_loss_scale_factor = None\<rparr> None
      = Inr (Fin l, pg)
    \<and> grpo_policy_loss (tok_of_mat [[1, 0]]) (tok_of_mat [[0, 0]]) (tok_of_mat [[1, - 1]]) (tok_of_mat [[True, True]])
        (1/5) (1/4) = Inr l"
  by (rule policy_loss_matches_package)
    (auto simp: token_count_def less_Suc_eq numeral_eq_Suc)

text \<open>Two micro-batches of one row each; only the first is routed to evidence.\<close>

definition sample_ppo :: ppo_config where
  "sample_ppo = \<lparr>pc_loss_agg_mode = ''token-mean'', pc_loss_scale_factor = None, pc_loss_mode = ''vanilla'',
     pc_policy_losses = [''vanilla'' \<mapsto> compute_policy_loss_vanilla \<lparr>cc_clip_ratio = 1/5, cc_clip_ratio_low = None,
       cc_clip_ratio_high = None, cc_clip_ratio_c = 3\<rparr>],
     pc_entropy_coeff = 0, pc_use_kl_loss = False, pc_kl_loss_type = ''k3'', pc_kl_loss_coef = 0\<rparr>"

definition sample_micro :: "bool \<Rightarrow> verpo_batch" where
  "sample_micro gate = \<lparr>rl_prompts = Nested [[1]], rl_responses = Nested [[0, 1]], rl_attention_mask = [],
     rl_max_response_len = - 1, vd_input_ids = Nested [[1, 0, 1]], vd_temperature = Some 1, vd_teachers = [],
     vd_response_mask = Nested [[True, True]], vd_advantages = Nested [[1, 1]], vd_evidence_rollout_gate = [gate],
     vb_old_log_probs = Nested [[0, 0]], vb_rollout_is_weights = None, vb_ref_log_prob = None, vb_dp_size = 2,
     vb_batch_num_tokens = Some 4, vb_global_batch_size = Some 2, vb_outcome_positive = [True],
     vb_evidence_batch_num_tokens = Some [2], vb_evidence_global_batch_size = Some [1],
     vb_fec_correct_token_count = None, vb_fec_wrong_token_count = None\<rparr>"

definition sample_output :: model_output where
  "sample_output = \<lparr>mo_log_probs = [0, 0, 0], mo_entropy = None, mo_verpo =
     \<lparr>fr_reference_loss = [1, 1, 0], fr_evidence_loss = [1, 2, 0], fr_weights = [0, 0, 0], fr_stats = [],
      fr_q0_sample_log_prob = [0, 0, 0], fr_reference_support_size = None, fr_support_size = [],
      fr_reference_support_mass = [], fr_evidence_support_mass = [], fr_student_support_mass = [],
      fr_negative_support_mass = None\<rparr>\<rparr>"

lemma sample_micro_runs:
  "\<exists>l m. verpo_zpd_ppo_loss sample_ppo (sample_verpo_config ''full'') None sample_output (sample_micro gate) = Inr (l, m)"
proof -
  let ?D = "sample_micro gate"
  have pad: "no_padding_2_padding [x, y, z] (layout_of ?D) = Inr [[x, y]]" for x y z
    by (simp add: no_padding_2_padding_def response_lengths_def nested_lens_def broadcast2_def cut_response_def fpad_def
        slice_def layout_of_def sample_micro_def response_layout.truncate_def)
  have mask: "padded_mask ?D = [[True, True]]" and gated: "gated_mask [[True, True]] (vd_evidence_rollout_gate ?D) = Inr [[gate, gate]]"
    by (simp_all add: padded_mask_def sample_micro_def pad_rows_def pad_row_def max_len_def gated_mask_def broadcast2_def)
  have agg: "\<exists>x. agg_loss [[a, b]] [[c, d]] ''token-mean'' (global_batch_info sample_ppo ?D\<lparr>bi_batch_num_tokens := Some n,
      bi_global_batch_size := k\<rparr>) = Inr x" for a b c d n k
    by (simp add: agg_loss_def Let_def)
  have info: "(global_batch_info sample_ppo ?D)\<lparr>bi_batch_num_tokens := Some 4, bi_global_batch_size := Some 2\<rparr>
      = global_batch_info sample_ppo ?D"
    by (simp add: global_batch_info_def sample_micro_def)
  obtain ref where ref: "agg_loss [[1, 1]] [[True, True]] ''token-mean'' (global_batch_info sample_ppo ?D) = Inr ref"
    using agg [where a = 1 and b = 1 and c = True and d = True and n = 4 and k = "Some 2"] info by auto
  obtain evi where evi: "evidence_agg sample_ppo ?D [[1, 2]] [[gate, gate]] = Inr evi"
    using agg [where a = 1 and b = 2 and c = gate and d = gate and n = 2 and k = "Some 1"]
    by (auto simp: evidence_agg_def repeated_global_count_def sample_micro_def sample_ppo_def)
  have fields: "to_padded 0 (vb_old_log_probs ?D) = [[0, 0]]" "to_padded 0 (vd_advantages ?D) = [[1, 1]]"
    "vb_rollout_is_weights ?D = None"
    by (simp_all add: sample_micro_def pad_rows_def pad_row_def max_len_def)
  have vanilla: "\<exists>x. compute_policy_loss_vanilla \<lparr>cc_clip_ratio = 1/5, cc_clip_ratio_low = None,
      cc_clip_ratio_high = None, cc_clip_ratio_c = 3\<rparr> [[0, 0]] [[0, 0]] [[1, 1]] [[True, True]] ''token-mean''
      (global_batch_info cfg ?D) None = Inr x" for cfg
    by (simp add: compute_policy_loss_vanilla_def agg_loss_def Let_def map2_mat_def global_batch_info_def sample_micro_def)
  have policy: "\<exists>x. ppo_loss sample_ppo sample_output ?D (Some [0, 0, 0]) None = Inr x"
    using vanilla [of sample_ppo]
    by (simp add: ppo_loss_def sample_output_def sample_ppo_def opt_padding_def pad entropy_term_def kl_term_def mask
        fields Let_def)
  show ?thesis
    using policy ref evi
    by (auto simp: verpo_zpd_ppo_loss_def modulated_advantages_def sample_verpo_config_def sample_output_def pad mask gated
        sample_ppo_def)
qed

lemma sample_micro_counts:
  "local_routing_counts (sample_micro gate) = Inr \<lparr>rc_tokens = 2 * of_bool gate, rc_rows = of_bool gate,
     rc_correct_tokens = 2 * of_bool gate, rc_wrong_tokens = 0\<rparr>"
  by (simp add: local_routing_counts_def sample_micro_def)

text \<open>Two ranks with one row each; the second row is not routed to evidence.\<close>

theorem verpo_loss_global_witness:
  "\<exists>l m l' m'. step_batch sample_ppo (sample_verpo_config ''full'') None 4 2
      [(sample_micro True, [([0], sample_output, sample_micro True, l, m)]),
       (sample_micro False, [([0], sample_output, sample_micro False, l', m')])]
    \<and> (the_real (bm_evidence_loss m) + the_real (bm_evidence_loss m')) / 2 = 3/2"
proof -
  obtain l m l' m' where r: "verpo_zpd_ppo_loss sample_ppo (sample_verpo_config ''full'') None sample_output (sample_micro True)
      = Inr (l, m)"
    "verpo_zpd_ppo_loss sample_ppo (sample_verpo_config ''full'') None sample_output (sample_micro False) = Inr (l', m')"
    using sample_micro_runs [of True] sample_micro_runs [of False] by blast
  define ranks :: "(verpo_batch \<times> micro_run list) list" where "ranks = [(sample_micro True, [([0], sample_output, sample_micro True, l, m)]),
    (sample_micro False, [([0], sample_output, sample_micro False, l', m')])]"
  have fields: "vb_dp_size (sample_micro g) = 2" "vb_batch_num_tokens (sample_micro g) = Some 4"
    "vb_global_batch_size (sample_micro g) = Some 2" "length (vd_evidence_rollout_gate (sample_micro g)) = 1" for g
    by (simp_all add: sample_micro_def)
  let ?count = "\<lambda>g. \<lparr>rc_tokens = 2 * of_bool g, rc_rows = of_bool g, rc_correct_tokens = 2 * of_bool g, rc_wrong_tokens = 0\<rparr>"
  have micro: "micro_batch_of (refresh_routing_counts [?count True, ?count False] (sample_micro g)) [0] (sample_micro g)" for g
    by (simp add: micro_batch_of_def refresh_routing_counts_def sample_micro_def)
  have step: "step_batch sample_ppo (sample_verpo_config ''full'') None 4 2 ranks"
    unfolding step_batch_def rank_step_def
    by (rule exI [of _ "[?count True, ?count False]"])
      (use micro [of True] micro [of False] in \<open>simp add: ranks_def r fields sample_micro_counts\<close>)
  have cfg: "config_ok sample_ppo" by (simp add: config_ok_def sample_ppo_def loss_agg_modes_def)
  have vals: "padded_values [1, 2, 0] (sample_micro g) = [[1, 2]]" "evidence_mask_of (sample_micro g) = [[g, g]]" for g
    by (simp_all add: padded_values_def no_padding_2_padding_def response_lengths_def nested_lens_def broadcast2_def
        cut_response_def fpad_def slice_def layout_of_def sample_micro_def response_layout.truncate_def
        evidence_mask_of_def padded_mask_def pad_rows_def pad_row_def max_len_def)
  have "(the_real (bm_evidence_loss m) + the_real (bm_evidence_loss m')) / 2 = 3/2"
    using verpo_loss_global [OF cfg _ _ _ step]
    by (simp add: ranks_def step_runs_def routed_masks_def vals config_divisor_def agg_divisor_def sample_ppo_def
        loss_total_def row_loss_def sample_output_def vmul_def mask_f_def token_count_def row_count_def)
  with step show ?thesis unfolding ranks_def by blast
qed

end
