(* ===== verification/Monitoring.thy ===== *)
theory Monitoring
  imports BatchLoss "HOL-Library.AList" "HOL-Library.State_Monad"
begin

text \<open>
  The monitoring of a training step. \<open>verpo_zpd_ppo_loss\<close> writes, per micro-batch, raw counts and sums
  over masked tokens into its metrics, under keys with the prefix \<open>_verpo_internal/\<close>; the metrics
  of the micro-batches, ranks and mini-batches are merged (\<open>append_to_dict\<close>,
  \<open>allgather_dict_into_dict\<close>, \<open>train_mini_batch\<close>), and \<open>_finalize_verpo_monitoring\<close>
  (\<open>verl/verl/workers/engine_workers.py\<close>) turns the totals into the reported metrics. A dictionary is
  an association list; a reader that pops keys is a state monad over it. Timings and device memory
  are arguments.
\<close>

section \<open>Metric values and dictionaries\<close>

datatype metric = Num real | Tensor vec | Items "metric list"

type_synonym metrics = "(string \<times> metric) list"

fun flatten_metric_numbers :: "metric \<Rightarrow> vec" where
  "flatten_metric_numbers (Num x) = [x]"
| "flatten_metric_numbers (Tensor xs) = xs"
| "flatten_metric_numbers (Items ms) = concat (map flatten_metric_numbers ms)"

definition internal_prefix :: string where
  "internal_prefix = ''_verpo_internal/''"

abbreviation internal :: "string \<Rightarrow> string" where
  "internal name \<equiv> internal_prefix @ name"

definition is_internal :: "string \<Rightarrow> bool" where
  "is_internal key = (take (length internal_prefix) key = internal_prefix)"

section \<open>Token masks and values\<close>

record monitor_batch = verpo_batch +
  mn_contrastive_available :: "bool list option"
  mn_group_gate :: "bool list"
  mn_available_group_gate :: "bool list"

record token_masks =
  tm_response :: "bool list list"
  tm_evidence :: "bool list list"
  tm_available :: "bool list list"
  tm_mixed_success :: "bool list list"
  tm_mixed_failure :: "bool list list"
  tm_fec :: "bool list list"
  tm_fec_correct :: "bool list list"
  tm_fec_wrong :: "bool list list"

definition token_masks_of :: "verpo_config \<Rightarrow> ('m) monitor_batch_scheme \<Rightarrow> token_masks res" where
  "token_masks_of vcfg D =
     (let response = padded_mask D; gate = vd_evidence_rollout_gate D; positive = vb_outcome_positive D;
          available_rows = (case mn_contrastive_available D of None \<Rightarrow> map (\<lambda>_. True) gate | Some a \<Rightarrow> a);
          fec_enabled = (va_displacement_mode (vc_args vcfg) = ''fec'');
          zeros_like = map (map (\<lambda>_. False)) in
      rbind (gated_mask response gate) (\<lambda>evidence.
      rbind (gated_mask response available_rows) (\<lambda>available.
      rbind (gated_mask available (mn_group_gate D)) (\<lambda>mixed.
      rbind (gated_mask mixed positive) (\<lambda>mixed_success.
      rbind (gated_mask mixed (map Not positive)) (\<lambda>mixed_failure.
      rbind (if fec_enabled then gated_mask evidence positive else Inr (zeros_like evidence)) (\<lambda>fec_correct.
      rbind (if fec_enabled then gated_mask evidence (map Not positive) else Inr (zeros_like evidence)) (\<lambda>fec_wrong.
      Inr \<lparr>tm_response = response, tm_evidence = evidence, tm_available = available,
        tm_mixed_success = mixed_success, tm_mixed_failure = mixed_failure,
        tm_fec = (if fec_enabled then available else zeros_like available),
        tm_fec_correct = fec_correct, tm_fec_wrong = fec_wrong\<rparr>))))))))"

record token_values =
  tv_reference_loss :: "vec list"
  tv_evidence_loss :: "vec list"
  tv_weights :: "vec list"
  tv_benefit :: "vec list"
  tv_fisher_cost :: "vec list"
  tv_displacement_norm :: "vec list"
  tv_task_norm :: "vec list"
  tv_nuisance_norm :: "vec list"
  tv_fec_cosine :: "vec list"
  tv_fec_projection :: "vec list"
  tv_fec_residual_covariance :: "vec list"
  tv_alignment :: "vec list"

definition token_values_of :: "model_output \<Rightarrow> ('m) verpo_batch_scheme \<Rightarrow> token_values res" where
  "token_values_of out D =
     (let R = mo_verpo out; pad = (\<lambda>v. no_padding_2_padding v (layout_of D)); stat = (\<lambda>f. pad (map f (fr_stats R))) in
      rbind (pad (fr_reference_loss R)) (\<lambda>reference_loss.
      rbind (pad (fr_evidence_loss R)) (\<lambda>evidence_loss.
      rbind (pad (fr_weights R)) (\<lambda>weights.
      rbind (stat fs_benefit) (\<lambda>benefit.
      rbind (stat fs_fisher_cost) (\<lambda>fisher_cost.
      rbind (stat fs_displacement_norm) (\<lambda>displacement_norm.
      rbind (stat fs_task_norm) (\<lambda>task_norm.
      rbind (stat fs_nuisance_norm) (\<lambda>nuisance_norm.
      rbind (stat fs_cosine) (\<lambda>fec_cosine.
      rbind (stat fs_projection) (\<lambda>fec_projection.
      rbind (stat fs_residual_cov) (\<lambda>fec_residual_covariance.
      rbind (stat fs_alignment) (\<lambda>alignment.
      Inr \<lparr>tv_reference_loss = reference_loss, tv_evidence_loss = evidence_loss, tv_weights = weights,
        tv_benefit = benefit, tv_fisher_cost = fisher_cost, tv_displacement_norm = displacement_norm,
        tv_task_norm = task_norm, tv_nuisance_norm = nuisance_norm, tv_fec_cosine = fec_cosine,
        tv_fec_projection = fec_projection, tv_fec_residual_covariance = fec_residual_covariance,
        tv_alignment = alignment\<rparr>)))))))))))))"

text \<open>\<open>float(None)\<close> is a \<open>TypeError\<close>; the configuration sets both cost parameters to finite values.\<close>

definition benefit_cost_ratio :: "verpo_config \<Rightarrow> token_values \<Rightarrow> vec list res" where
  "benefit_cost_ratio vcfg V =
     (case (va_cost_alpha (vc_args vcfg), va_cost_epsilon (vc_args vcfg)) of
        (Some alpha, Some epsilon) \<Rightarrow>
          (let movement_cost = map (map (\<lambda>c. the_real alpha * c + the_real epsilon)) (tv_fisher_cost V);
               controller_benefit = (if va_allow_negative_benefit (vc_args vcfg) then tv_benefit V
                 else map (map (clamp_min 0)) (tv_benefit V))
           in Inr (map2_mat (\<lambda>b c. b / clamp_min float32_tiny c) controller_benefit movement_cost))
      | _ \<Rightarrow> Inl (TypeError ''float() argument must be a string or a real number''))"

section \<open>Raw totals of a micro-batch\<close>

text \<open>\<open>values.masked_select(mask)\<close>, and \<open>mask & test(values)\<close>.\<close>

definition select_masked :: "vec list \<Rightarrow> bool list list \<Rightarrow> vec" where
  "select_masked mat tmask = map fst (filter snd (zip (concat mat) (concat tmask)))"

definition mask_where :: "(real \<Rightarrow> bool) \<Rightarrow> vec list \<Rightarrow> bool list list \<Rightarrow> bool list list" where
  "mask_where p = map2_mat (\<lambda>x b. b \<and> p x)"

definition effective_weight_threshold :: real where
  "effective_weight_threshold = 1 / 1000"

definition raw_count :: "string \<times> bool list list \<Rightarrow> string \<times> metric" where
  "raw_count = (\<lambda>(name, tmask). (internal (''count/'' @ name), Items [Num (real (token_count tmask))]))"

definition raw_sum :: "string \<times> vec list \<times> bool list list \<Rightarrow> string \<times> metric" where
  "raw_sum = (\<lambda>(name, mat, tmask). (internal (''sum/'' @ name), Items [Num (vsum (select_masked mat tmask))]))"

definition count_payloads :: "token_masks \<Rightarrow> token_values \<Rightarrow> (string \<times> bool list list) list" where
  "count_payloads M V =
     (let available = tm_available M; w = tv_weights V;
          negative_benefit = mask_where (\<lambda>x. x < 0) (tv_benefit V) available;
          positive_benefit = mask_where (\<lambda>x. 0 < x) (tv_benefit V) available
      in [(''reference'', tm_response M), (''evidence'', tm_evidence M), (''available'', available),
          (''weight'', available), (''fec'', tm_fec M), (''fec_correct'', tm_fec_correct M),
          (''fec_wrong'', tm_fec_wrong M), (''mixed_success'', tm_mixed_success M),
          (''mixed_failure'', tm_mixed_failure M),
          (''weight_zero'', mask_where (\<lambda>x. x = 0) w available),
          (''weight_nonzero'', mask_where (\<lambda>x. 0 < x) w available),
          (''weight_effective'', mask_where (\<lambda>x. effective_weight_threshold < x) w available),
          (''weight_gt_05'', mask_where (\<lambda>x. 1/2 < x) w available),
          (''weight_negative'', mask_where (\<lambda>x. x < 0) w available),
          (''weight_ge_one'', mask_where (\<lambda>x. 1 \<le> x) w available),
          (''benefit_negative'', negative_benefit), (''benefit_positive'', positive_benefit),
          (''negative_benefit_effective'', mask_where (\<lambda>x. effective_weight_threshold < x) w negative_benefit),
          (''fec_sign_pass'', map2_mat (\<or>) (mask_where (\<lambda>x. 0 < x) (tv_alignment V) (tm_fec_correct M))
             (mask_where (\<lambda>x. x < 0) (tv_alignment V) (tm_fec_wrong M)))])"

definition sum_payloads ::
  "verpo_config \<Rightarrow> token_masks \<Rightarrow> token_values \<Rightarrow> vec list \<Rightarrow> (string \<times> vec list \<times> bool list list) list" where
  "sum_payloads vcfg M V ratio =
     (let available = tm_available M; evidence = tm_evidence M; w = tv_weights V;
          negative_benefit = mask_where (\<lambda>x. x < 0) (tv_benefit V) available in
      [(''reference_loss'', tv_reference_loss V, tm_response M),
       (''scaled_reference_loss'', map (vscale (vc_lambda_ref vcfg)) (tv_reference_loss V), tm_response M),
       (''evidence_loss'', tv_evidence_loss V, evidence),
       (''scaled_evidence_loss'', map (vscale (vc_lambda_evi vcfg)) (tv_evidence_loss V), evidence),
       (''evidence_displacement'', tv_displacement_norm V, available),
       (''accepted_movement'', map2_mat (*) w (tv_displacement_norm V), available),
       (''weight'', w, available), (''benefit'', tv_benefit V, available),
       (''negative_benefit'', tv_benefit V, negative_benefit), (''negative_benefit_weight'', w, negative_benefit),
       (''fisher_cost'', tv_fisher_cost V, available),
       (''fec_task_norm'', tv_task_norm V, tm_fec M), (''fec_nuisance_norm'', tv_nuisance_norm V, tm_fec M),
       (''fec_cosine'', tv_fec_cosine V, tm_fec M), (''fec_projection'', tv_fec_projection V, tm_fec M),
       (''fec_residual_covariance'', tv_fec_residual_covariance V, tm_fec M),
       (''fec_correct_alignment'', tv_alignment V, tm_fec_correct M),
       (''fec_wrong_alignment'', tv_alignment V, tm_fec_wrong M),
       (''benefit_cost_ratio'', ratio, available),
       (''mixed_success_weight'', w, tm_mixed_success M), (''mixed_failure_weight'', w, tm_mixed_failure M),
       (''selected_benefit'', tv_benefit V, evidence), (''selected_cost'', tv_fisher_cost V, evidence),
       (''selected_displacement'', tv_displacement_norm V, evidence), (''selected_weight'', w, evidence)])"

definition topk_payloads :: "model_output \<Rightarrow> ('m) verpo_batch_scheme \<Rightarrow> bool list list
    \<Rightarrow> (string \<times> vec list \<times> bool list list) list res" where
  "topk_payloads out D evidence =
     (let R = mo_verpo out; present = (\<lambda>(name, values). (case values of None \<Rightarrow> Inr []
            | Some v \<Rightarrow> rbind (no_padding_2_padding v (layout_of D)) (\<lambda>mat. Inr [(name, mat, evidence)])))
      in rbind (all_results (map present
        [(''topk_support_size'', Some (fr_support_size R)),
         (''topk_reference_support_mass'', Some (fr_reference_support_mass R)),
         (''topk_evidence_support_mass'', Some (fr_evidence_support_mass R)),
         (''topk_negative_support_mass'', fr_negative_support_mass R),
         (''topk_student_support_mass'', Some (fr_student_support_mass R))])) (\<lambda>xs. Inr (concat xs)))"

text \<open>Timings (0 when a step did not record one) and peak memory in bytes, where the device reports it.\<close>

record runtime_stats =
  rs_times :: "string \<Rightarrow> real option"
  rs_memory_allocated :: "real option"
  rs_memory_reserved :: "real option"

definition runtime_payloads :: "runtime_stats \<Rightarrow> metrics" where
  "runtime_payloads S =
     map (\<lambda>name. (internal (''time/'' @ name), Items [Num (case rs_times S name of None \<Rightarrow> 0 | Some t \<Rightarrow> t)]))
       [''student'', ''qref'', ''q0'', ''qe'']
     @ map (\<lambda>(name, bytes). (internal (''max/'' @ name),
         Items [Num (case bytes of None \<Rightarrow> 0 | Some b \<Rightarrow> b / 1024 ^ 3)]))
       [(''memory_allocated'', rs_memory_allocated S), (''memory_reserved'', rs_memory_reserved S)]"

text \<open>The entries of a batch share its size, and all padded tensors are cut from one layout: values or
  masks of another shape than the response mask are an error.\<close>

definition values_fit :: "token_masks \<Rightarrow> token_values \<Rightarrow> bool" where
  "values_fit M V =
     (list_all (\<lambda>mat. map length mat = map length (tm_response M))
        [tv_reference_loss V, tv_evidence_loss V, tv_weights V, tv_benefit V, tv_fisher_cost V,
         tv_displacement_norm V, tv_task_norm V, tv_nuisance_norm V, tv_fec_cosine V, tv_fec_projection V,
         tv_fec_residual_covariance V, tv_alignment V]
      \<and> list_all (\<lambda>mask. map length mask = map length (tm_response M))
        [tm_evidence M, tm_available M, tm_mixed_success M, tm_mixed_failure M, tm_fec M, tm_fec_correct M,
         tm_fec_wrong M])"

definition raw_monitoring ::
  "verpo_config \<Rightarrow> runtime_stats \<Rightarrow> model_output \<Rightarrow> ('m) monitor_batch_scheme \<Rightarrow> metrics res" where
  "raw_monitoring vcfg S out D =
     rbind (token_masks_of vcfg D) (\<lambda>M.
     rbind (token_values_of out D) (\<lambda>V.
     rbind (benefit_cost_ratio vcfg V) (\<lambda>ratio.
     if \<not> values_fit M V then Inl (RuntimeError ''broadcast'')
     else rbind (topk_payloads out D (tm_evidence M)) (\<lambda>topk_payload.
       Inr (map raw_count (count_payloads M V) @ map raw_sum (sum_payloads vcfg M V ratio) @ map raw_sum topk_payload
         @ [(internal ''weight_values'', Items (map Num (select_masked (tv_weights V) (tm_available M))))]
         @ runtime_payloads S)))))"

section \<open>Row rates and modulation metrics\<close>

text \<open>\<open>globally_weighted_row_mean\<close>; the metric is summed over micro-batches and averaged over ranks.\<close>

definition global_row_count :: "ppo_config \<Rightarrow> ('m) verpo_batch_scheme \<Rightarrow> int" where
  "global_row_count cfg D = (case bi_global_batch_size (global_batch_info cfg D) of
     Some n \<Rightarrow> n | None \<Rightarrow> int (row_count (padded_mask D)))"

definition globally_weighted_row_mean :: "ppo_config \<Rightarrow> ('m) verpo_batch_scheme \<Rightarrow> bool list \<Rightarrow> real" where
  "globally_weighted_row_mean cfg D flags =
     (let rows = global_row_count cfg D in
      if rows \<le> 0 then 0
      else real (count_list flags True) / real_of_int rows * real_of_int (bi_dp_size (global_batch_info cfg D)))"

record row_rates =
  rr_group_gate_rate :: real
  rr_available_group_gate_rate :: real
  rr_evidence_rollout_gate_rate :: real

definition row_rates_of :: "ppo_config \<Rightarrow> ('m) monitor_batch_scheme \<Rightarrow> row_rates" where
  "row_rates_of cfg D =
     (let mean = globally_weighted_row_mean cfg D in
      \<lparr>rr_group_gate_rate = mean (mn_group_gate D), rr_available_group_gate_rate = mean (mn_available_group_gate D),
       rr_evidence_rollout_gate_rate = mean (vd_evidence_rollout_gate D)\<rparr>)"

text \<open>The metrics of advantage modulation; none without an active token.\<close>

record modulation_metrics =
  mm_scale :: real
  mm_scale_min :: real
  mm_scale_max :: real
  mm_weight_zero_rate :: real
  mm_success_scale :: real
  mm_failure_scale :: real

definition vmean :: "vec \<Rightarrow> real" where
  "vmean xs = vsum xs / real (length xs)"

definition modulation_metrics_of ::
  "verpo_config \<Rightarrow> vec list \<Rightarrow> bool list list \<Rightarrow> bool list \<Rightarrow> modulation_metrics option res" where
  "modulation_metrics_of vcfg weights response_mask outcome_positive =
     (let scale = map (map (\<lambda>w. 1 + the_real (vc_modulation_lambda vcfg) * w)) weights;
          active_scale = select_masked scale response_mask; active_weights = select_masked weights response_mask;
          mean_or_zero = (\<lambda>tmask. let s = select_masked scale tmask in if s = [] then 0 else vmean s) in
      if active_scale = [] then Inr None
      else rbind (gated_mask response_mask outcome_positive) (\<lambda>success.
        rbind (gated_mask response_mask (map Not outcome_positive)) (\<lambda>failure.
        Inr (Some \<lparr>mm_scale = vmean active_scale, mm_scale_min = foldr min active_scale (hd active_scale),
          mm_scale_max = foldr max active_scale (hd active_scale),
          mm_weight_zero_rate = vmean (map (\<lambda>w. of_bool (w = 0)) active_weights),
          mm_success_scale = mean_or_zero success, mm_failure_scale = mean_or_zero failure\<rparr>))))"

section \<open>Merging the metrics of a step\<close>

text \<open>\<open>append_to_dict\<close> without a prefix: a list extends the entry, anything else is appended.\<close>

fun items_of :: "metric \<Rightarrow> metric list" where
  "items_of (Items ms) = ms"
| "items_of m = [m]"

definition extend_entry :: "metrics \<Rightarrow> string \<times> metric \<Rightarrow> metrics" where
  "extend_entry data = (\<lambda>(key, val). AList.update key
     (Items ((case map_of data key of None \<Rightarrow> [] | Some old \<Rightarrow> items_of old) @ items_of val)) data)"

definition append_to_dict :: "metrics \<Rightarrow> metrics \<Rightarrow> metrics" where
  "append_to_dict data new_data = foldl extend_entry data new_data"

text \<open>\<open>allgather_dict_into_dict\<close> appends the value of every rank under its key.\<close>

definition allgather_dict_into_dict :: "metrics list \<Rightarrow> metrics" where
  "allgather_dict_into_dict ranks =
     foldl (\<lambda>data rank_data. append_to_dict data (map (\<lambda>(key, val). (key, Items [val])) rank_data)) [] ranks"

text \<open>\<open>list(chain.from_iterable(val))\<close>.\<close>

fun chain_values :: "metric \<Rightarrow> metric res" where
  "chain_values (Items ms) =
     (if list_all (\<lambda>m. case m of Num _ \<Rightarrow> False | _ \<Rightarrow> True) ms
      then Inr (Items (concat (map (\<lambda>m. case m of Tensor xs \<Rightarrow> map Num xs | _ \<Rightarrow> items_of m) ms)))
      else Inl (TypeError ''object is not iterable''))"
| "chain_values m = Inr m"

definition merge_ranks :: "metrics list \<Rightarrow> metrics res" where
  "merge_ranks ranks =
     all_results (map (\<lambda>(key, val). rbind (chain_values val) (\<lambda>v. Inr (key, v))) (allgather_dict_into_dict ranks))"

text \<open>The metrics of one call of \<open>train_mini_batch\<close>: mini-batches, ranks, micro-batches.\<close>

definition merge_step :: "metrics list list list \<Rightarrow> metrics res" where
  "merge_step minis =
     rbind (all_results (map (\<lambda>ranks. merge_ranks (map (foldl append_to_dict []) ranks)) minis))
       (\<lambda>outputs. Inr (foldl append_to_dict [] outputs))"

section \<open>The reported metrics\<close>

text \<open>\<open>metrics.pop(key, default)\<close> flattened, \<open>total\<close> and \<open>ratio_with_count\<close>.\<close>

definition pop_metric :: "string \<Rightarrow> metric \<Rightarrow> (metrics, vec) state" where
  "pop_metric name dflt = State (\<lambda>M. (flatten_metric_numbers
     (case map_of M (internal name) of None \<Rightarrow> dflt | Some m \<Rightarrow> m), AList.delete (internal name) M))"

definition pop_total :: "string \<Rightarrow> (metrics, real) state" where
  "pop_total name = map_state vsum (pop_metric name (Items []))"

definition ratio_with_count :: "string \<Rightarrow> real \<Rightarrow> (metrics, real) state" where
  "ratio_with_count numerator c = map_state (\<lambda>value. if 0 < c then value / c else 0) (pop_total numerator)"

text \<open>Python's \<open>round\<close> to an integer, half to even, and \<open>torch.quantile\<close> (linear interpolation).\<close>

definition py_round :: "real \<Rightarrow> int" where
  "py_round x = (let n = \<lfloor>x\<rfloor>; r = x - real_of_int n in
     if r < 1/2 \<or> r = 1/2 \<and> even n then n else n + 1)"

definition quantile :: "real \<Rightarrow> vec \<Rightarrow> real" where
  "quantile q xs = (let s = sort xs; pos = q * real (length xs - 1); lower = nat \<lfloor>pos\<rfloor>; upper = nat \<lceil>pos\<rceil> in
     s ! lower + (pos - real lower) * (s ! upper - s ! lower))"

definition weight_quantile :: "vec \<Rightarrow> real \<Rightarrow> real" where
  "weight_quantile weights q = (if weights = [] then 0 else quantile q weights)"

text \<open>The expressions of the \<open>finalized\<close> dictionary.\<close>

datatype metric_entry = Ratio string real | Given real | TotalOf string | MaxOf string

fun eval_entry :: "metric_entry \<Rightarrow> (metrics, real res) state" where
  "eval_entry (Ratio numerator c) = map_state Inr (ratio_with_count numerator c)"
| "eval_entry (Given x) = State_Monad.return (Inr x)"
| "eval_entry (TotalOf name) = map_state Inr (pop_total name)"
| "eval_entry (MaxOf name) = map_state (\<lambda>xs. if xs = [] then Inl (ValueError ''max() arg is an empty sequence'')
     else Inr (foldr max xs (hd xs))) (pop_metric name (Items [Num 0]))"

definition count_names :: "string list" where
  "count_names = [''count/reference'', ''count/evidence'', ''count/available'', ''count/weight'', ''count/fec'',
     ''count/fec_correct'', ''count/fec_wrong'', ''count/mixed_success'', ''count/mixed_failure'',
     ''count/benefit_negative'', ''count/benefit_positive'']"

text \<open>The four ratios computed before the dictionary, with their denominators.\<close>

definition early_ratios :: "(string \<times> string) list" where
  "early_ratios = [(''sum/reference_loss'', ''count/reference''), (''sum/evidence_loss'', ''count/evidence''),
     (''sum/selected_benefit'', ''count/evidence''), (''sum/selected_cost'', ''count/evidence'')]"

definition finalized_entries :: "(string \<Rightarrow> real) \<Rightarrow> (string \<Rightarrow> real) \<Rightarrow> vec \<Rightarrow> (string \<times> metric_entry) list" where
  "finalized_entries c e weights =
     (let reference_count = c ''count/reference''; evidence_count = c ''count/evidence'';
          available_count = c ''count/available''; weight_count = c ''count/weight''; fec_count = c ''count/fec'';
          fec_correct_count = c ''count/fec_correct''; fec_wrong_count = c ''count/fec_wrong'';
          benefit_negative_count = c ''count/benefit_negative'';
          benefit_positive_count = c ''count/benefit_positive'';
          reference_loss = e ''sum/reference_loss''; evidence_loss = e ''sum/evidence_loss'';
          selected_benefit = e ''sum/selected_benefit''; selected_cost = e ''sum/selected_cost'';
          whole = (\<lambda>x. Given (real_of_int (py_round x))) in
      [(''verpo/reference_loss'', Given reference_loss), (''verpo/evidence_loss_signed'', Given evidence_loss),
       (''verpo/evidence_loss'', Given evidence_loss),
       (''verpo/lambda_ref_scaled_loss'', Ratio ''sum/scaled_reference_loss'' reference_count),
       (''verpo/lambda_evi_scaled_loss'', Ratio ''sum/scaled_evidence_loss'' evidence_count),
       (''verpo/reference_fkl'', Given reference_loss),
       (''verpo/reference_l1'', Ratio ''sum/reference_l1'' reference_count),
       (''verpo/reference_l2'', Ratio ''sum/reference_l2'' reference_count),
       (''verpo/evidence_displacement_l2'', Ratio ''sum/evidence_displacement'' evidence_count),
       (''verpo/accepted_evidence_movement'', Ratio ''sum/accepted_movement'' evidence_count),
       (''verpo/weight_mean'', Ratio ''sum/weight'' weight_count),
       (''verpo/weight_effective_threshold'', Given effective_weight_threshold),
       (''verpo/weight_median'', Given (weight_quantile weights (1/2))),
       (''verpo/weight_p10'', Given (weight_quantile weights (1/10))),
       (''verpo/weight_p90'', Given (weight_quantile weights (9/10))),
       (''verpo/weight_zero_fraction'', Ratio ''count/weight_zero'' weight_count),
       (''verpo/weight_nonzero_fraction'', Ratio ''count/weight_nonzero'' weight_count),
       (''verpo/weight_effective_coverage'', Ratio ''count/weight_effective'' weight_count),
       (''verpo/weight_gt_05_fraction'', Ratio ''count/weight_gt_05'' weight_count),
       (''verpo/weight_negative_fraction'', Ratio ''count/weight_negative'' weight_count),
       (''verpo/weight_ge_one_fraction'', Ratio ''count/weight_ge_one'' weight_count),
       (''verpo/benefit_mean'', Ratio ''sum/benefit'' evidence_count),
       (''verpo/benefit_negative_fraction'',
         Given (if 0 < weight_count then benefit_negative_count / weight_count else 0)),
       (''verpo/benefit_positive_fraction'',
         Given (if 0 < weight_count then benefit_positive_count / weight_count else 0)),
       (''verpo/negative_benefit_mean'', Ratio ''sum/negative_benefit'' benefit_negative_count),
       (''verpo/negative_benefit_weight_mean'', Ratio ''sum/negative_benefit_weight'' benefit_negative_count),
       (''verpo/negative_benefit_effective_coverage'', Ratio ''count/negative_benefit_effective'' benefit_negative_count),
       (''verpo/fisher_cost_mean'', Ratio ''sum/fisher_cost'' evidence_count),
       (''verpo/fec_task_displacement_l2'', Ratio ''sum/fec_task_norm'' fec_count),
       (''verpo/fec_nuisance_displacement_l2'', Ratio ''sum/fec_nuisance_norm'' fec_count),
       (''verpo/fec_task_nuisance_fisher_cosine'', Ratio ''sum/fec_cosine'' fec_count),
       (''verpo/fec_nuisance_projection_coefficient'', Ratio ''sum/fec_projection'' fec_count),
       (''verpo/fec_residual_nuisance_fisher_covariance'', Ratio ''sum/fec_residual_covariance'' fec_count),
       (''verpo/fec_correct_alignment_mean'', Ratio ''sum/fec_correct_alignment'' fec_correct_count),
       (''verpo/fec_wrong_alignment_mean'', Ratio ''sum/fec_wrong_alignment'' fec_wrong_count),
       (''verpo/fec_joint_sign_pass_rate'', Ratio ''count/fec_sign_pass'' (fec_correct_count + fec_wrong_count)),
       (''verpo/benefit_cost_ratio_mean'', Ratio ''sum/benefit_cost_ratio'' evidence_count),
       (''verpo/mixed_success_weight_mean'', Ratio ''sum/mixed_success_weight'' (c ''count/mixed_success'')),
       (''verpo/mixed_failure_weight_mean'', Ratio ''sum/mixed_failure_weight'' (c ''count/mixed_failure'')),
       (''verpo/student_forward_time_seconds'', TotalOf ''time/student''),
       (''verpo/qref_forward_time_seconds'', TotalOf ''time/qref''),
       (''verpo/q0_forward_time_seconds'', TotalOf ''time/q0''),
       (''verpo/qe_forward_time_seconds'', TotalOf ''time/qe''),
       (''verpo/peak_memory_allocated_gb'', MaxOf ''max/memory_allocated''),
       (''verpo/peak_memory_reserved_gb'', MaxOf ''max/memory_reserved''),
       (''verpo/reference_token_count'', whole reference_count),
       (''verpo/evidence_token_count'', whole evidence_count),
       (''verpo/weight_token_count'', whole available_count),
       (''verpo_zpd/selected_benefit'', Given selected_benefit), (''verpo_zpd/selected_cost'', Given selected_cost),
       (''verpo_zpd/selected_displacement_norm'', Ratio ''sum/selected_displacement'' evidence_count),
       (''verpo_zpd/selected_weight'', Ratio ''sum/selected_weight'' evidence_count),
       (''verpo_zpd/selected_token_count'', whole evidence_count),
       (''verpo_zpd/benefit_cost_ratio'', Given (if 0 < selected_cost then selected_benefit / selected_cost else 0))])"

definition topk_names :: "string list" where
  "topk_names = [''topk_support_size'', ''topk_reference_support_mass'', ''topk_evidence_support_mass'',
     ''topk_negative_support_mass'', ''topk_student_support_mass'']"

definition topk_entries :: "metrics \<Rightarrow> real \<Rightarrow> (string \<times> metric_entry) list" where
  "topk_entries M evidence_count =
     map (\<lambda>name. (''verpo_zpd/'' @ name, Ratio (''sum/'' @ name) evidence_count))
       (filter (\<lambda>name. map_of M (internal (''sum/'' @ name)) \<noteq> None) topk_names)"

definition lookup_total :: "string list \<Rightarrow> vec \<Rightarrow> string \<Rightarrow> real" where
  "lookup_total names totals name = the (map_of (zip names totals) name)"

definition alignment_margin :: "(string \<times> real) list \<Rightarrow> string \<times> real" where
  "alignment_margin finalized = (''verpo/fec_alignment_margin'',
     the (map_of finalized ''verpo/fec_correct_alignment_mean'') - the (map_of finalized ''verpo/fec_wrong_alignment_mean''))"

definition finalize_verpo_monitoring :: "metrics \<Rightarrow> metrics res" where
  "finalize_verpo_monitoring M =
     (if \<not> list_ex (\<lambda>(key, _). is_internal key) M then Inr M
      else let (counts, M1) = run_state (State_Monad.traverse_list pop_total count_names) M;
          c = lookup_total count_names counts;
          (early, M2) = run_state (State_Monad.traverse_list (\<lambda>(num, den). ratio_with_count num (c den)) early_ratios) M1;
          e = lookup_total (map fst early_ratios) early;
          (weights, M3) = run_state (pop_metric ''weight_values'' (Items [])) M2
        in if int (length weights) \<noteq> py_round (c ''count/weight'')
           then Inl (ValueError ''VERPO weight count does not match the gathered token weights'')
           else let entries = finalized_entries c e weights;
               (vals, M4) = run_state (State_Monad.traverse_list eval_entry (map snd entries)) M3
             in rbind (all_results vals) (\<lambda>xs.
               let finalized = zip (map fst entries) xs;
                 topk = topk_entries M4 (c ''count/evidence'');
                 (tvals, M5) = run_state (State_Monad.traverse_list eval_entry (map snd topk)) M4
               in rbind (all_results tvals) (\<lambda>txs.
               Inr (foldl (\<lambda>D (key, x). AList.update key (Items [Num x]) D) M5
                 (finalized @ [alignment_margin finalized] @ zip (map fst topk) txs)))))"

end
