(* ===== verification/MonitoringFacts.thy ===== *)
theory MonitoringFacts
  imports Monitoring
begin

text \<open>
  Facts about the monitoring dictionaries: what a sequence of pops reads and leaves (the locale
  \<open>popping\<close>, interpreted on the three readers of \<open>_finalize_verpo_monitoring\<close>), what merging keeps
  of the flattened values of a key, and the keys of a micro-batch's raw totals.
\<close>

section \<open>Reading by popping\<close>

definition flat_metric :: "metrics \<Rightarrow> string \<Rightarrow> vec" where
  "flat_metric M key = flatten_metric_numbers (case map_of M key of None \<Rightarrow> Items [] | Some m \<Rightarrow> m)"

definition tot :: "metrics \<Rightarrow> string \<Rightarrow> real" where
  "tot M name = vsum (flat_metric M (internal name))"

definition delete_all :: "string list \<Rightarrow> metrics \<Rightarrow> metrics" where
  "delete_all names M = filter (\<lambda>p. fst p \<notin> set (map internal names)) M"

lemma delete_all_Nil [simp]: "delete_all [] M = M"
  by (simp add: delete_all_def)

lemma delete_all_append: "delete_all ns (delete_all ms M) = delete_all (ms @ ns) M"
  by (auto simp: delete_all_def intro: filter_cong)

lemma AList_delete_all: "AList.delete (internal name) M = delete_all [name] M"
  by (auto simp: AList.delete_eq delete_all_def intro: filter_cong)

lemma map_of_delete_all: "map_of (delete_all ns M) key = (if key \<in> set (map internal ns) then None else map_of M key)"
  by (induction M) (auto simp: delete_all_def)

lemma internal_inj [simp]: "internal a = internal b \<longleftrightarrow> a = b"
  by simp

lemma flat_delete_all: "name \<notin> set ns \<Longrightarrow> flat_metric (delete_all ns M) (internal name) = flat_metric M (internal name)"
  by (auto simp: flat_metric_def map_of_delete_all)

locale popping =
  fixes f :: "'x \<Rightarrow> (metrics, 'y) state" and p :: "metrics \<Rightarrow> 'x \<Rightarrow> 'y" and reads :: "'x \<Rightarrow> string list"
  assumes run: "run_state (f x) M = (p M x, delete_all (reads x) M)"
    and frame: "set (reads x) \<inter> set ns = {} \<Longrightarrow> p (delete_all ns M) x = p M x"
begin

lemma run_traverse:
  "distinct (concat (map reads xs)) \<Longrightarrow>
    run_state (State_Monad.traverse_list f xs) M = (map (p M) xs, delete_all (concat (map reads xs)) M)"
proof (induction xs arbitrary: M)
  case (Cons x xs)
  have "p (delete_all (reads x) M) y = p M y" if "y \<in> set xs" for y
    using Cons.prems that by (intro frame) auto
  then show ?case
    using Cons by (simp add: run delete_all_append)
qed simp

end

lemma run_pop_metric:
  "run_state (pop_metric name dflt) M
    = (flatten_metric_numbers (case map_of M (internal name) of None \<Rightarrow> dflt | Some m \<Rightarrow> m), delete_all [name] M)"
  by (simp add: pop_metric_def AList_delete_all)

lemma run_map_state: "run_state (map_state g m) M = (g (fst (run_state m M)), snd (run_state m M))"
  by (cases m) (simp add: state.map_sel split_beta map_prod_def)

interpretation totals: popping pop_total tot "\<lambda>name. [name]"
  by unfold_locales
    (auto simp: pop_total_def run_map_state run_pop_metric tot_def flat_metric_def map_of_delete_all)

definition ratio_of :: "real \<Rightarrow> real \<Rightarrow> real" where
  "ratio_of num den = (if 0 < den then num / den else 0)"

lemma run_ratio: "run_state (ratio_with_count n c) M = (ratio_of (tot M n) c, delete_all [n] M)"
  by (simp add: ratio_with_count_def run_map_state totals.run ratio_of_def)

interpretation ratios: popping "\<lambda>(n, d). ratio_with_count n (c d)" "\<lambda>M (n, d). ratio_of (tot M n) (c d)" "\<lambda>(n, d). [n]"
  for c :: "string \<Rightarrow> real"
  by unfold_locales (auto simp: run_ratio tot_def flat_delete_all split: prod.splits)

fun entry_reads :: "metric_entry \<Rightarrow> string list" where
  "entry_reads (Ratio name c) = [name]"
| "entry_reads (Given x) = []"
| "entry_reads (TotalOf name) = [name]"
| "entry_reads (MaxOf name) = [name]"

fun entry_value :: "metrics \<Rightarrow> metric_entry \<Rightarrow> real res" where
  "entry_value M (Ratio name c) = Inr (ratio_of (tot M name) c)"
| "entry_value M (Given x) = Inr x"
| "entry_value M (TotalOf name) = Inr (tot M name)"
| "entry_value M (MaxOf name) =
     (let xs = flatten_metric_numbers (case map_of M (internal name) of None \<Rightarrow> Items [Num 0] | Some m \<Rightarrow> m) in
      if xs = [] then Inl (ValueError ''max() arg is an empty sequence'') else Inr (foldr max xs (hd xs)))"

interpretation entries: popping eval_entry entry_value entry_reads
proof
  show "run_state (eval_entry x) M = (entry_value M x, delete_all (entry_reads x) M)" for x M
    by (cases x) (simp_all add: run_map_state run_ratio totals.run run_pop_metric Let_def)
  show "entry_value (delete_all ns M) x = entry_value M x" if "set (entry_reads x) \<inter> set ns = {}" for x ns M
    using that by (cases x) (auto simp: tot_def flat_delete_all map_of_delete_all)
qed

section \<open>Merging keeps flattened values\<close>

lemma concat_map_concat: "concat (map f (concat xss)) = concat (map (\<lambda>xs. concat (map f xs)) xss)"
  by (induction xss) simp_all

lemma flatten_items_of: "concat (map flatten_metric_numbers (items_of m)) = flatten_metric_numbers m"
  by (cases m) simp_all

lemma flat_extend_entry:
  "flat_metric (extend_entry data (key, val)) k
    = flat_metric data k @ (if k = key then flatten_metric_numbers val else [])"
  by (auto simp: extend_entry_def flat_metric_def AList.update_conv flatten_items_of split: option.splits)

lemma flat_metric_Nil [simp]: "flat_metric [] k = []"
  by (simp add: flat_metric_def)

lemma flat_metric_Cons:
  "flat_metric ((key, val) # D) k = (if k = key then flatten_metric_numbers val else flat_metric D k)"
  by (simp add: flat_metric_def)

lemma flat_metric_absent: "key \<notin> fst ` set D \<Longrightarrow> flat_metric D key = []"
  by (simp add: flat_metric_def map_of_eq_None_iff [THEN iffD2])

lemma append_to_dict_Cons: "append_to_dict data (p # new_data) = append_to_dict (extend_entry data p) new_data"
  by (simp add: append_to_dict_def)

lemma append_to_dict_Nil [simp]: "append_to_dict data [] = data"
  by (simp add: append_to_dict_def)

lemma flat_append_to_dict:
  "distinct (map fst new_data) \<Longrightarrow>
    flat_metric (append_to_dict data new_data) k = flat_metric data k @ flat_metric new_data k"
  by (induction new_data arbitrary: data)
    (auto simp: append_to_dict_Cons flat_extend_entry flat_metric_Cons flat_metric_absent)

lemma keys_extend_entry: "fst ` set (extend_entry data p) = insert (fst p) (fst ` set data)"
  by (cases p) (simp add: extend_entry_def AList.dom_update)

lemma distinct_extend_entry: "distinct (map fst data) \<Longrightarrow> distinct (map fst (extend_entry data p))"
  by (cases p) (simp add: extend_entry_def AList.distinct_update)

lemma keys_append_to_dict: "fst ` set (append_to_dict data new_data) = fst ` set data \<union> fst ` set new_data"
  by (induction new_data arbitrary: data) (auto simp: append_to_dict_Cons keys_extend_entry)

lemma distinct_append_to_dict: "distinct (map fst data) \<Longrightarrow> distinct (map fst (append_to_dict data new_data))"
  by (induction new_data arbitrary: data) (auto simp: append_to_dict_Cons distinct_extend_entry)

text \<open>Folding a list of dictionaries with distinct keys into one.\<close>

lemma fold_append_to_dict:
  assumes "\<forall>D \<in> set Ds. distinct (map fst D)" and "distinct (map fst data)"
  shows "distinct (map fst (foldl append_to_dict data Ds))"
    and "fst ` set (foldl append_to_dict data Ds) = fst ` set data \<union> (\<Union>D \<in> set Ds. fst ` set D)"
    and "flat_metric (foldl append_to_dict data Ds) k = flat_metric data k @ concat (map (\<lambda>D. flat_metric D k) Ds)"
  using assms
  by (induction Ds arbitrary: data) (auto simp: distinct_append_to_dict keys_append_to_dict flat_append_to_dict)

text \<open>Dictionaries all of whose values are lists.\<close>

definition items_only :: "metrics \<Rightarrow> bool" where
  "items_only D = (\<forall>(key, m) \<in> set D. \<exists>ms. m = Items ms)"

lemma set_AList_update: "set (AList.update k v D) \<subseteq> insert (k, v) (set D)"
  by (induction D) auto

lemma items_only_extend: "items_only data \<Longrightarrow> items_only (extend_entry data p)"
  unfolding items_only_def
proof (intro ballI)
  fix q assume "\<forall>(key, m) \<in> set data. \<exists>ms. m = Items ms" and "q \<in> set (extend_entry data p)"
  then show "case q of (key, m) \<Rightarrow> \<exists>ms. m = Items ms"
    using set_AList_update by (cases p) (force simp: extend_entry_def)
qed

lemma items_only_append: "items_only data \<Longrightarrow> items_only (append_to_dict data new_data)"
  by (induction new_data arbitrary: data) (auto simp: append_to_dict_Cons items_only_extend)

lemma items_only_fold: "items_only data \<Longrightarrow> items_only (foldl append_to_dict data Ds)"
  by (induction Ds arbitrary: data) (auto simp: items_only_append)

text \<open>After the gather a value is the list of the ranks' lists.\<close>

definition gathered :: "metrics \<Rightarrow> bool" where
  "gathered D = (\<forall>(key, m) \<in> set D. \<exists>mss. m = Items (map Items mss))"

lemma gathered_extend:
  assumes "gathered data"
  shows "gathered (extend_entry data (key, Items [Items ms]))"
proof -
  have "\<exists>mss. (case map_of data key of None \<Rightarrow> [] | Some old \<Rightarrow> items_of old) = map Items mss"
  proof (cases "map_of data key")
    case (Some old)
    then show ?thesis using assms by (fastforce simp: gathered_def dest: map_of_SomeD)
  qed simp
  then obtain mss where "(case map_of data key of None \<Rightarrow> [] | Some old \<Rightarrow> items_of old) = map Items mss" ..
  then have upd: "extend_entry data (key, Items [Items ms]) = AList.update key (Items (map Items (mss @ [ms]))) data"
    by (simp add: extend_entry_def)
  have "(\<exists>mss. m = Items (map Items mss))" if "(k, m) \<in> set (extend_entry data (key, Items [Items ms]))" for k m
    using that set_AList_update [of key "Items (map Items (mss @ [ms]))" data] assms
    unfolding upd gathered_def by blast
  then show ?thesis by (auto simp: gathered_def)
qed

definition wrap_rank :: "metrics \<Rightarrow> metrics" where
  "wrap_rank = map (\<lambda>(key, val). (key, Items [val]))"

lemma wrap_rank_simps [simp]:
  "map fst (wrap_rank R) = map fst R" "fst ` set (wrap_rank R) = fst ` set R"
  "flat_metric (wrap_rank R) k = flat_metric R k"
proof -
  show "map fst (wrap_rank R) = map fst R" by (induction R) (auto simp: wrap_rank_def)
  then show "fst ` set (wrap_rank R) = fst ` set R" by (metis list.set_map)
  show "flat_metric (wrap_rank R) k = flat_metric R k"
    by (induction R) (auto simp: wrap_rank_def flat_metric_Cons)
qed

lemma gathered_append: "gathered data \<Longrightarrow> items_only R \<Longrightarrow> gathered (append_to_dict data (wrap_rank R))"
proof (induction R arbitrary: data)
  case (Cons q R)
  then obtain key ms where q: "q = (key, Items ms)" by (cases q) (auto simp: items_only_def)
  have "wrap_rank (q # R) = (key, Items [Items ms]) # wrap_rank R" by (simp add: wrap_rank_def q)
  then show ?case
    using Cons gathered_extend by (simp add: append_to_dict_Cons items_only_def)
qed (simp add: wrap_rank_def)

lemma allgather_fold: "allgather_dict_into_dict ranks = foldl append_to_dict [] (map wrap_rank ranks)"
  by (simp add: allgather_dict_into_dict_def wrap_rank_def foldl_map)

lemma gathered_allgather:
  assumes "\<forall>R \<in> set ranks. items_only R"
  shows "gathered (allgather_dict_into_dict ranks)"
proof -
  have "gathered data \<Longrightarrow> gathered (foldl append_to_dict data (map wrap_rank ranks))" for data
    using assms by (induction ranks arbitrary: data) (auto simp: gathered_append)
  from this [of "[]"] show ?thesis by (simp add: allgather_fold gathered_def)
qed

lemma chain_gathered: "chain_values (Items (map Items mss)) = Inr (Items (concat mss))"
  by (auto simp: list_all_iff comp_def)

lemma all_results_Inr: "(\<forall>x \<in> set xs. g x = Inr (h x)) \<Longrightarrow> all_results (map g xs) = Inr (map h xs)"
  by (induction xs) auto

lemma merge_ranks_total:
  assumes "\<forall>R \<in> set ranks. items_only R \<and> distinct (map fst R)"
  shows "\<exists>D. merge_ranks ranks = Inr D \<and> distinct (map fst D) \<and> fst ` set D = (\<Union>R \<in> set ranks. fst ` set R)
    \<and> (\<forall>k. flat_metric D k = concat (map (\<lambda>R. flat_metric R k) ranks))"
proof -
  define A where "A = allgather_dict_into_dict ranks"
  have wrapped: "\<forall>D \<in> set (map wrap_rank ranks). distinct (map fst D)" using assms by auto
  note folded = fold_append_to_dict [OF wrapped, of "[]", folded allgather_fold A_def]
  define chained where "chained = (\<lambda>(key :: string, m). (key, projr (chain_values m)))"
  have A: "\<exists>mss. m = Items (map Items mss)" if "(key, m) \<in> set A" for key m
    using gathered_allgather [of ranks] assms that by (auto simp: A_def gathered_def)
  have "merge_ranks ranks = Inr (map chained A)"
    unfolding merge_ranks_def A_def [symmetric]
    by (rule all_results_Inr) (auto simp: chained_def dest!: A simp del: chain_values.simps simp: chain_gathered)
  moreover have keys: "map fst (map chained A) = map fst A"
    by (simp add: chained_def split_beta)
  moreover have "flat_metric (map chained A) k = flat_metric A k" for k
    using A
    by (induction A) (fastforce simp: chained_def flat_metric_Cons chain_gathered comp_def concat_map_concat
      simp del: chain_values.simps)+
  moreover have "distinct (map fst A)" "fst ` set A = (\<Union>R \<in> set ranks. fst ` set R)"
    "\<And>k. flat_metric A k = concat (map (\<lambda>R. flat_metric R k) ranks)"
    using folded by (simp_all add: comp_def)
  ultimately show ?thesis
    by (metis list.set_map)
qed

lemma merge_step_total:
  assumes "\<forall>m \<in> set (concat (concat minis)). distinct (map fst m)"
  shows "\<exists>G. merge_step minis = Inr G \<and> distinct (map fst G)
    \<and> fst ` set G = (\<Union>m \<in> set (concat (concat minis)). fst ` set m)
    \<and> (\<forall>k. flat_metric G k = concat (map (\<lambda>m. flat_metric m k) (concat (concat minis))))"
proof -
  let ?rank = "foldl append_to_dict []"
  have rank: "distinct (map fst (?rank micros))" "fst ` set (?rank micros) = (\<Union>m \<in> set micros. fst ` set m)"
      "flat_metric (?rank micros) k = concat (map (\<lambda>m. flat_metric m k) micros)" "items_only (?rank micros)"
    if "micros \<in> set ranks" "ranks \<in> set minis" for micros ranks k
  proof -
    have "\<forall>D \<in> set micros. distinct (map fst D)" using that assms by fastforce
    from fold_append_to_dict [OF this, of "[]"] items_only_fold [of "[]"]
    show "distinct (map fst (?rank micros))" "fst ` set (?rank micros) = (\<Union>m \<in> set micros. fst ` set m)"
      "flat_metric (?rank micros) k = concat (map (\<lambda>m. flat_metric m k) micros)" "items_only (?rank micros)"
      by (simp_all add: items_only_def)
  qed
  define out where "out = (\<lambda>ranks. projr (merge_ranks (map ?rank ranks)))"
  have mini: "merge_ranks (map ?rank ranks) = Inr (out ranks) \<and> distinct (map fst (out ranks))
      \<and> fst ` set (out ranks) = (\<Union>m \<in> set (concat ranks). fst ` set m)
      \<and> (\<forall>k. flat_metric (out ranks) k = concat (map (\<lambda>m. flat_metric m k) (concat ranks)))"
    if "ranks \<in> set minis" for ranks
  proof -
    have "\<forall>R \<in> set (map ?rank ranks). items_only R \<and> distinct (map fst R)" using rank that by auto
    from merge_ranks_total [OF this] obtain D where D: "merge_ranks (map ?rank ranks) = Inr D" "distinct (map fst D)"
      "fst ` set D = (\<Union>R \<in> set (map ?rank ranks). fst ` set R)"
      "\<And>k. flat_metric D k = concat (map (\<lambda>R. flat_metric R k) (map ?rank ranks))" by blast
    have "flat_metric D k = concat (map (\<lambda>m. flat_metric m k) (concat ranks))" for k
    proof -
      have "map (\<lambda>R. flat_metric R k) (map ?rank ranks) = map (\<lambda>micros. concat (map (\<lambda>m. flat_metric m k) micros)) ranks"
        using rank that by simp
      then show ?thesis by (simp only: D(4) concat_map_concat)
    qed
    moreover have "fst ` set D = (\<Union>m \<in> set (concat ranks). fst ` set m)"
      using rank that by (simp add: D(3))
    ultimately show ?thesis using D by (simp add: out_def)
  qed
  have outs: "\<forall>D \<in> set (map out minis). distinct (map fst D)" using mini by auto
  have step: "merge_step minis = Inr (?rank (map out minis))"
    using mini all_results_Inr [of minis "\<lambda>ranks. merge_ranks (map ?rank ranks)" out]
    by (simp add: merge_step_def)
  have flat: "flat_metric (?rank (map out minis)) k = concat (map (\<lambda>m. flat_metric m k) (concat (concat minis)))" for k
  proof -
    have "map (\<lambda>D. flat_metric D k) (map out minis) = map (\<lambda>ranks. concat (map (\<lambda>m. flat_metric m k) (concat ranks))) minis"
      using mini by simp
    then have "flat_metric (?rank (map out minis)) k = concat (map (\<lambda>ranks. concat (map (\<lambda>m. flat_metric m k) (concat ranks))) minis)"
      using fold_append_to_dict(3) [OF outs, of "[]" k] by (simp only: flat_metric_Nil append_Nil distinct.simps list.map)
    then show ?thesis by (simp only: concat_map_concat [of _ minis] concat_map_concat)
  qed
  have "fst ` set (?rank (map out minis)) = (\<Union>m \<in> set (concat (concat minis)). fst ` set m)"
    using fold_append_to_dict(2) [OF outs, of "[]"] mini by simp
  then show ?thesis
    using step flat fold_append_to_dict(1) [OF outs, of "[]"] by (intro exI [of _ "?rank (map out minis)"]) simp
qed

section \<open>The dictionary of a micro-batch\<close>

definition count_payload_names :: "string list" where
  "count_payload_names = [''reference'', ''evidence'', ''available'', ''weight'', ''fec'', ''fec_correct'', ''fec_wrong'',
     ''mixed_success'', ''mixed_failure'', ''weight_zero'', ''weight_nonzero'', ''weight_effective'', ''weight_gt_05'',
     ''weight_negative'', ''weight_ge_one'', ''benefit_negative'', ''benefit_positive'', ''negative_benefit_effective'',
     ''fec_sign_pass'']"

definition sum_payload_names :: "string list" where
  "sum_payload_names = [''reference_loss'', ''scaled_reference_loss'', ''evidence_loss'', ''scaled_evidence_loss'',
     ''evidence_displacement'', ''accepted_movement'', ''weight'', ''benefit'', ''negative_benefit'',
     ''negative_benefit_weight'', ''fisher_cost'', ''fec_task_norm'', ''fec_nuisance_norm'', ''fec_cosine'',
     ''fec_projection'', ''fec_residual_covariance'', ''fec_correct_alignment'', ''fec_wrong_alignment'',
     ''benefit_cost_ratio'', ''mixed_success_weight'', ''mixed_failure_weight'', ''selected_benefit'',
     ''selected_cost'', ''selected_displacement'', ''selected_weight'']"

definition raw_names :: "string list \<Rightarrow> string list" where
  "raw_names topk = map ((@) ''count/'') count_payload_names @ map ((@) ''sum/'') (sum_payload_names @ topk)
     @ [''weight_values''] @ map ((@) ''time/'') [''student'', ''qref'', ''q0'', ''qe'']
     @ map ((@) ''max/'') [''memory_allocated'', ''memory_reserved'']"

lemma count_payloads_names: "map fst (count_payloads M V) = count_payload_names"
  by (simp add: count_payloads_def count_payload_names_def Let_def)

lemma sum_payloads_names: "map fst (sum_payloads vcfg M V ratio) = sum_payload_names"
  by (simp add: sum_payloads_def sum_payload_names_def Let_def)

lemma topk_payloads_names:
  assumes "topk_payloads out D ev = Inr P"
  shows "map fst P = topk_names \<or> map fst P = filter (\<lambda>n. n \<noteq> ''topk_negative_support_mass'') topk_names"
  using assms
  by (cases "fr_negative_support_mass (mo_verpo out)") (auto simp: topk_payloads_def topk_names_def Let_def)

lemma map_fst_raw: "map fst (map raw_count xs) = map internal (map ((@) ''count/'') (map fst xs))"
  "map fst (map raw_sum ys) = map internal (map ((@) ''sum/'') (map fst ys))"
  by (simp_all add: raw_count_def raw_sum_def split_beta comp_def)

lemma map_fst_runtime: "map fst (runtime_payloads S)
    = map internal (map ((@) ''time/'') [''student'', ''qref'', ''q0'', ''qe'']
        @ map ((@) ''max/'') [''memory_allocated'', ''memory_reserved''])"
  by (simp add: runtime_payloads_def)

lemma payload_names_distinct: "distinct count_payload_names" "distinct sum_payload_names" "distinct topk_names"
  "set topk_names \<inter> set sum_payload_names = {}"
  by (simp_all add: count_payload_names_def sum_payload_names_def topk_names_def)

lemma distinct_raw_names: "distinct topk \<Longrightarrow> set topk \<subseteq> set topk_names \<Longrightarrow> distinct (raw_names topk)"
  using payload_names_distinct by (auto simp: raw_names_def distinct_map inj_on_def)

lemma raw_monitoringE:
  assumes "raw_monitoring vcfg S out D = Inr m" and "token_masks_of vcfg D = Inr M" and "token_values_of out D = Inr V"
  obtains ratio P where "benefit_cost_ratio vcfg V = Inr ratio" "values_fit M V" "topk_payloads out D (tm_evidence M) = Inr P"
    "m = map raw_count (count_payloads M V) @ map raw_sum (sum_payloads vcfg M V ratio @ P)
      @ (internal ''weight_values'', Items (map Num (select_masked (tv_weights V) (tm_available M)))) # runtime_payloads S"
  using assms by (auto simp: raw_monitoring_def split: if_splits)

lemma raw_monitoring_names:
  assumes "raw_monitoring vcfg S out D = Inr m" and "token_masks_of vcfg D = Inr M" and "token_values_of out D = Inr V"
  shows "\<exists>topk. map fst m = map internal (raw_names topk) \<and> set topk \<subseteq> set topk_names \<and> distinct (map fst m)"
proof -
  obtain ratio P where P: "topk_payloads out D (tm_evidence M) = Inr P"
    and m: "m = map raw_count (count_payloads M V) @ map raw_sum (sum_payloads vcfg M V ratio @ P)
      @ (internal ''weight_values'', Items (map Num (select_masked (tv_weights V) (tm_available M)))) # runtime_payloads S"
    using assms by (rule raw_monitoringE)
  have keys: "map fst m = map internal (raw_names (map fst P))"
    unfolding m map_append map_fst_raw list.map(2) map_fst_runtime count_payloads_names sum_payloads_names raw_names_def
    by simp
  have topk: "distinct (map fst P)" "set (map fst P) \<subseteq> set topk_names"
    using topk_payloads_names [OF P] payload_names_distinct(3) by (metis distinct_filter, metis filter_is_subset order_refl)
  then have "distinct (raw_names (map fst P))" by (rule distinct_raw_names)
  moreover have "inj_on internal A" for A by (rule inj_onI) simp
  ultimately show ?thesis using topk(2) unfolding keys by (simp only: distinct_map) blast
qed

lemma flat_metric_mem: "distinct (map fst D) \<Longrightarrow> (key, v) \<in> set D \<Longrightarrow> flat_metric D key = flatten_metric_numbers v"
  by (simp add: flat_metric_def)

text \<open>The totals of a micro-batch by name.\<close>

lemma raw_totals:
  assumes raw: "raw_monitoring vcfg S out D = Inr m" "token_masks_of vcfg D = Inr M" "token_values_of out D = Inr V"
  shows "(name, tmask) \<in> set (count_payloads M V) \<Longrightarrow> tot m (''count/'' @ name) = real (token_count tmask)"
    and "benefit_cost_ratio vcfg V = Inr ratio \<Longrightarrow> (name, mat, tmask) \<in> set (sum_payloads vcfg M V ratio)
      \<Longrightarrow> tot m (''sum/'' @ name) = vsum (select_masked mat tmask)"
    and "flat_metric m (internal ''weight_values'') = select_masked (tv_weights V) (tm_available M)"
    and "n \<in> {''max/memory_allocated'', ''max/memory_reserved''} \<Longrightarrow> flat_metric m (internal n) \<noteq> []"
proof -
  obtain r P where r: "benefit_cost_ratio vcfg V = Inr r"
    and m: "m = map raw_count (count_payloads M V) @ map raw_sum (sum_payloads vcfg M V r @ P)
      @ (internal ''weight_values'', Items (map Num (select_masked (tv_weights V) (tm_available M)))) # runtime_payloads S"
    using raw by (rule raw_monitoringE)
  have distinct: "distinct (map fst m)" using raw_monitoring_names [OF raw] by blast
  note mem = flat_metric_mem [OF distinct]
  show "tot m (''count/'' @ name) = real (token_count tmask)" if "(name, tmask) \<in> set (count_payloads M V)"
  proof -
    have "raw_count (name, tmask) \<in> set m" using that by (auto simp: m)
    from mem [OF this [unfolded raw_count_def prod.case]] show ?thesis by (simp add: tot_def vsum_def)
  qed
  show "tot m (''sum/'' @ name) = vsum (select_masked mat tmask)"
    if "benefit_cost_ratio vcfg V = Inr ratio" "(name, mat, tmask) \<in> set (sum_payloads vcfg M V ratio)"
  proof -
    have "raw_sum (name, mat, tmask) \<in> set m" using that r by (auto simp: m)
    from mem [OF this [unfolded raw_sum_def prod.case]] show ?thesis by (simp add: tot_def vsum_def)
  qed
  have nums: "concat (map (flatten_metric_numbers \<circ> Num) xs) = xs" for xs by (induction xs) simp_all
  have "(internal ''weight_values'', Items (map Num (select_masked (tv_weights V) (tm_available M)))) \<in> set m"
    by (simp add: m)
  from mem [OF this] show "flat_metric m (internal ''weight_values'') = select_masked (tv_weights V) (tm_available M)"
    by (simp add: nums)
  have runtime: "set (runtime_payloads S) \<subseteq> set m" unfolding m by auto
  show "flat_metric m (internal n) \<noteq> []" if "n \<in> {''max/memory_allocated'', ''max/memory_reserved''}"
  proof -
    have "\<exists>x. (internal n, Items [Num x]) \<in> set (runtime_payloads S)"
      using that by (elim insertE emptyE) (simp_all add: runtime_payloads_def)
    then obtain x where "(internal n, Items [Num x]) \<in> set m" using runtime by blast
    from mem [OF this] show ?thesis by simp
  qed
qed

section \<open>Finalizing\<close>

lemma lookup_total_map [simp]: "n \<in> set names \<Longrightarrow> lookup_total names (map f names) n = f n"
  by (simp add: lookup_total_def map_of_zip_map)

definition early_value :: "metrics \<Rightarrow> string \<Rightarrow> real" where
  "early_value M n = ratio_of (tot M n) (tot M (the (map_of early_ratios n)))"

definition final_entries :: "metrics \<Rightarrow> (string \<times> metric_entry) list" where
  "final_entries M = finalized_entries (tot M) (early_value M) (flat_metric M (internal ''weight_values''))"

definition final_names :: "string list" where
  "final_names = map fst (finalized_entries (\<lambda>_. 0) (\<lambda>_. 0) [])"

definition entry_names :: "string list" where
  "entry_names = concat (map entry_reads (map snd (finalized_entries (\<lambda>_. 0) (\<lambda>_. 0) [])))"

lemma finalized_names: "map fst (finalized_entries c e ws) = final_names"
  by (simp only: final_names_def finalized_entries_def Let_def list.map fst_conv)

lemma finalized_reads: "concat (map entry_reads (map snd (finalized_entries c e ws))) = entry_names"
  by (simp only: entry_names_def finalized_entries_def Let_def list.map snd_conv entry_reads.simps)

lemma finalized_entries_cong:
  assumes "\<And>n. n \<in> set count_names \<Longrightarrow> c n = c' n" and "\<And>n. n \<in> set (map fst early_ratios) \<Longrightarrow> e n = e' n"
  shows "finalized_entries c e ws = finalized_entries c' e' ws"
proof -
  have "c ''count/reference'' = c' ''count/reference''" "c ''count/evidence'' = c' ''count/evidence''"
    "c ''count/available'' = c' ''count/available''" "c ''count/weight'' = c' ''count/weight''"
    "c ''count/fec'' = c' ''count/fec''" "c ''count/fec_correct'' = c' ''count/fec_correct''"
    "c ''count/fec_wrong'' = c' ''count/fec_wrong''" "c ''count/mixed_success'' = c' ''count/mixed_success''"
    "c ''count/mixed_failure'' = c' ''count/mixed_failure''" "c ''count/benefit_negative'' = c' ''count/benefit_negative''"
    "c ''count/benefit_positive'' = c' ''count/benefit_positive''"
    by (rule assms(1), simp add: count_names_def)+
  moreover have "e ''sum/reference_loss'' = e' ''sum/reference_loss''" "e ''sum/evidence_loss'' = e' ''sum/evidence_loss''"
    "e ''sum/selected_benefit'' = e' ''sum/selected_benefit''" "e ''sum/selected_cost'' = e' ''sum/selected_cost''"
    by (rule assms(2), simp add: early_ratios_def)+
  ultimately show ?thesis by (simp only: finalized_entries_def)
qed

definition read_names :: "string list" where
  "read_names = count_names @ map fst early_ratios @ [''weight_values''] @ entry_names @ map ((@) ''sum/'') topk_names"

lemma all_raw_names_read: "set (raw_names topk_names) \<subseteq> set read_names"
  by (simp add: raw_names_def count_payload_names_def sum_payload_names_def read_names_def entry_names_def
    finalized_entries_def Let_def count_names_def early_ratios_def topk_names_def)

lemmas names_defs = final_names_def entry_names_def finalized_entries_def read_names_def count_names_def early_ratios_def
  topk_names_def

lemma read_names_distinct: "distinct read_names"
  by (simp add: names_defs Let_def)

lemma reported_names_distinct: "distinct (final_names @ ''verpo/fec_alignment_margin'' # map ((@) ''verpo_zpd/'') topk_names)"
  by (simp add: names_defs Let_def)

lemma reported_not_internal:
  "list_all (\<lambda>k. \<not> is_internal k) (final_names @ ''verpo/fec_alignment_margin'' # map ((@) ''verpo_zpd/'') topk_names)"
  by (simp add: names_defs Let_def is_internal_def internal_prefix_def)

lemma raw_names_read: "set topk \<subseteq> set topk_names \<Longrightarrow> set (raw_names topk) \<subseteq> set read_names"
  by (rule order_trans [OF _ all_raw_names_read], unfold raw_names_def set_append set_map)
    (intro Un_mono image_mono order_refl)

end
