(* ===== verification/MonitoringProps.thy ===== *)
theory MonitoringProps
  imports MonitoringFacts
begin

text \<open>
  The reported metrics of a step: \<open>_finalize_verpo_monitoring\<close> on the merged totals of its
  micro-batches gives quotients over all tokens of the step and leaves no internal key behind.
\<close>

section \<open>Finalizing a dictionary\<close>

abbreviation report :: "metrics \<Rightarrow> (string \<times> real) list \<Rightarrow> metrics" where
  "report \<equiv> foldl (\<lambda>D (key, x). AList.update key (Items [Num x]) D)"

lemma map_of_report:
  "distinct (map fst xs) \<Longrightarrow>
    map_of (report M xs) k = (case map_of xs k of Some x \<Rightarrow> Some (Items [Num x]) | None \<Rightarrow> map_of M k)"
proof (induction xs arbitrary: M)
  case (Cons p xs)
  have "map_of xs (fst p) = None" using Cons.prems by (simp add: map_of_eq_None_iff)
  then show ?case
    using Cons by (cases p) (auto simp: AList.update_conv' split: option.splits)
qed simp

lemma keys_report: "fst ` set (report M xs) = fst ` set M \<union> fst ` set xs"
proof (induction xs arbitrary: M)
  case (Cons p xs)
  then show ?case by (cases p) (simp add: AList.dom_update)
qed simp

lemma keys_delete_all: "key \<in> fst ` set (delete_all ns M) \<longleftrightarrow> key \<in> fst ` set M \<and> key \<notin> set (map internal ns)"
  by (force simp: delete_all_def)

lemma tot_delete_all: "name \<notin> set ns \<Longrightarrow> tot (delete_all ns M) name = tot M name"
  by (simp add: tot_def flat_delete_all)

lemma max_entries:
  "list_all (\<lambda>(key, e). case e of MaxOf n \<Rightarrow> n \<in> {''max/memory_allocated'', ''max/memory_reserved''} | _ \<Rightarrow> True)
    (finalized_entries c e ws)"
  by (simp add: finalized_entries_def Let_def)

lemma max_entry_names:
  "(key, MaxOf n) \<in> set (finalized_entries c e ws) \<Longrightarrow> n \<in> {''max/memory_allocated'', ''max/memory_reserved''}"
  using bspec [OF max_entries [of c e ws, unfolded list_all_iff], of "(key, MaxOf n)"] by simp

lemma entry_value_total:
  assumes "\<And>n. x = MaxOf n \<Longrightarrow> flat_metric G (internal n) \<noteq> []"
  shows "\<exists>v. entry_value G x = Inr v"
proof (cases x)
  case (MaxOf n)
  then have "flat_metric G (internal n) \<noteq> []" using assms by simp
  then show ?thesis
    by (cases "map_of G (internal n)") (auto simp: MaxOf flat_metric_def Let_def)
qed simp_all

lemma results_of_total:
  assumes "\<And>x. x \<in> set xs \<Longrightarrow> \<exists>v. f x = Inr v"
  shows "all_results (map f xs) = Inr (map (\<lambda>x. projr (f x)) xs)"
  using all_results_Inr [of xs f "\<lambda>x. projr (f x)"] assms by fastforce

lemma read_parts:
  "distinct count_names" "distinct (map fst early_ratios)" "distinct entry_names" "distinct (map ((@) ''sum/'') topk_names)"
  "set count_names \<inter> set (map fst early_ratios) = {}"
  "''weight_values'' \<notin> set (count_names @ map fst early_ratios)"
  "set entry_names \<inter> set (count_names @ map fst early_ratios @ [''weight_values'']) = {}"
  "set (map ((@) ''sum/'') topk_names) \<inter> set (count_names @ map fst early_ratios @ [''weight_values''] @ entry_names) = {}"
  using read_names_distinct [unfolded read_names_def distinct_append] by auto

lemma finalize_eq:
  assumes internal: "\<exists>key \<in> fst ` set G. is_internal key"
    and weights: "real (length (flat_metric G (internal ''weight_values''))) = tot G ''count/weight''"
    and memory: "\<And>n. n \<in> {''max/memory_allocated'', ''max/memory_reserved''} \<Longrightarrow> flat_metric G (internal n) \<noteq> []"
  shows "\<exists>F. finalize_verpo_monitoring G = Inr F
    \<and> (\<forall>(key, e) \<in> set (final_entries G). map_of F key = Some (Items [Num (projr (entry_value G e))]))
    \<and> (\<forall>key \<in> fst ` set F. is_internal key \<longrightarrow> key \<in> fst ` set G \<and> key \<notin> internal ` set read_names)"
proof -
  define ws where "ws = flat_metric G (internal ''weight_values'')"
  define M1 where "M1 = delete_all count_names G"
  define M2 where "M2 = delete_all (map fst early_ratios) M1"
  define M3 where "M3 = delete_all [''weight_values''] M2"
  define M4 where "M4 = delete_all entry_names M3"
  let ?c = "lookup_total count_names (map (tot G) count_names)"
  let ?early = "map (\<lambda>(n, d). ratio_of (tot M1 n) (?c d)) early_ratios"
  let ?e = "lookup_total (map fst early_ratios) ?early"
  have names: "concat (map (\<lambda>n. [n]) ns) = ns" for ns :: "string list" by (induction ns) simp_all
  have counts: "run_state (State_Monad.traverse_list pop_total count_names) G = (map (tot G) count_names, M1)"
    using totals.run_traverse [of count_names G] read_parts(1) by (simp only: names M1_def)
  have "concat (map (\<lambda>(n, d). [n]) early_ratios) = map fst early_ratios" by (simp add: early_ratios_def)
  then have early: "run_state (State_Monad.traverse_list (\<lambda>(num, den). ratio_with_count num (?c den)) early_ratios) M1
      = (?early, M2)"
    using ratios.run_traverse [of early_ratios ?c M1] read_parts(2) by (simp only: M2_def)
  have tot_M1: "tot M1 n = tot G n" if "n \<in> set (map fst early_ratios)" for n
    using that read_parts(5) unfolding M1_def by (intro tot_delete_all) blast
  have c: "?c n = tot G n" if "n \<in> set count_names" for n using that by simp
  have early_eq: "?early = map (early_value G) (map fst early_ratios)"
  proof -
    have "\<forall>p \<in> set early_ratios. (case p of (n, d) \<Rightarrow> ratio_of (tot M1 n) (?c d)) = early_value G (fst p)"
      using tot_M1 c by (simp add: early_ratios_def early_value_def count_names_def)
    then show ?thesis by simp
  qed
  have e: "?e n = early_value G n" if "n \<in> set (map fst early_ratios)" for n
    using that unfolding early_eq by (rule lookup_total_map)
  have weight: "run_state (pop_metric ''weight_values'' (Items [])) M2 = (ws, M3)"
  proof -
    have "flat_metric M2 (internal ''weight_values'') = ws"
      using read_parts(6) by (simp add: M2_def M1_def flat_delete_all ws_def)
    then show ?thesis by (simp add: run_pop_metric M3_def flat_metric_def)
  qed
  have entries_eq: "finalized_entries ?c ?e ws = final_entries G"
    unfolding final_entries_def ws_def [symmetric] by (rule finalized_entries_cong) (rule c e, assumption)+
  define es where "es = map snd (final_entries G)"
  have reads: "concat (map entry_reads es) = entry_names"
    unfolding es_def final_entries_def by (rule finalized_reads)
  have values_G: "entry_value M3 x = entry_value G x" if "x \<in> set es" for x
  proof -
    have M3: "M3 = delete_all (count_names @ map fst early_ratios @ [''weight_values'']) G"
      by (simp add: M3_def M2_def M1_def delete_all_append)
    have "set (entry_reads x) \<subseteq> set entry_names" using that unfolding reads [symmetric] by auto
    then show ?thesis
      unfolding M3 using read_parts(7) by (intro entries.frame) blast
  qed
  have vals: "run_state (State_Monad.traverse_list eval_entry es) M3 = (map (entry_value G) es, M4)"
    using entries.run_traverse [of es M3] read_parts(3) values_G by (simp add: reads M4_def)
  have total: "\<exists>v. entry_value G x = Inr v" if mem: "x \<in> set es" for x
  proof (rule entry_value_total)
    fix n assume "x = MaxOf n"
    then obtain key where "(key, MaxOf n) \<in> set (final_entries G)"
      using mem unfolding es_def by fastforce
    then show "flat_metric G (internal n) \<noteq> []"
      unfolding final_entries_def by (intro memory) (rule max_entry_names)
  qed
  define xs where "xs = map (\<lambda>x. projr (entry_value G x)) es"
  have results: "all_results (map (entry_value G) es) = Inr xs"
    unfolding xs_def by (rule results_of_total) (rule total)
  define finalized where "finalized = zip (map fst (final_entries G)) xs"
  define tks where "tks = filter (\<lambda>name. map_of M4 (internal (''sum/'' @ name)) \<noteq> None) topk_names"
  define topk where "topk = topk_entries M4 (?c ''count/evidence'')"
  have topk: "map fst topk = map ((@) ''verpo_zpd/'') tks" "concat (map entry_reads (map snd topk)) = map ((@) ''sum/'') tks"
    by (simp_all add: topk_def topk_entries_def tks_def comp_def names)
  have tks: "distinct tks" "set tks \<subseteq> set topk_names" using payload_names_distinct(3) by (auto simp: tks_def)
  define M5 where "M5 = delete_all (map ((@) ''sum/'') tks) M4"
  have tvals: "run_state (State_Monad.traverse_list eval_entry (map snd topk)) M4 = (map (entry_value M4) (map snd topk), M5)"
    using entries.run_traverse [of "map snd topk" M4] tks(1) unfolding topk(2) M5_def
    by (simp add: distinct_map inj_on_def)
  define txs where "txs = map (\<lambda>x. projr (entry_value M4 x)) (map snd topk)"
  have tresults: "all_results (map (entry_value M4) (map snd topk)) = Inr txs"
    unfolding txs_def by (rule results_of_total) (auto simp: topk_def topk_entries_def)
  define F where "F = report M5 (finalized @ [alignment_margin finalized] @ zip (map fst topk) txs)"
  have count: "int (length ws) = py_round (?c ''count/weight'')"
  proof -
    have "?c ''count/weight'' = real (length ws)" using c [of "''count/weight''"] weights by (simp add: count_names_def ws_def)
    then show ?thesis by (simp add: py_round_def)
  qed
  have guard: "list_ex (\<lambda>(key, _). is_internal key) G" using internal by (force simp: list_ex_iff)
  have final: "finalize_verpo_monitoring G = Inr F"
    unfolding finalize_verpo_monitoring_def Let_def
    by (simp add: guard counts early weight entries_eq count es_def [symmetric] vals results finalized_def [symmetric]
        topk_def [symmetric] tvals tresults [unfolded map_map] F_def)
  have keys_finalized: "map fst finalized = final_names"
    by (simp add: finalized_def xs_def es_def) (simp add: final_entries_def finalized_names)
  have keys_topk: "map fst (zip (map fst topk) txs) = map ((@) ''verpo_zpd/'') tks"
    by (simp add: txs_def map_fst_zip topk(1) [symmetric] del: map_map)
  have distinct_keys: "distinct (map fst (finalized @ [alignment_margin finalized] @ zip (map fst topk) txs))"
    using reported_names_distinct tks
    unfolding map_append keys_finalized keys_topk by (auto simp: alignment_margin_def distinct_map inj_on_def)
  have lookup: "map_of F key = Some (Items [Num (projr (entry_value G x))])" if "(key, x) \<in> set (final_entries G)" for key x
  proof -
    have "(key, projr (entry_value G x)) \<in> set finalized"
      using that by (force simp: finalized_def xs_def es_def in_set_zip in_set_conv_nth)
    then have "(key, projr (entry_value G x)) \<in> set (finalized @ [alignment_margin finalized] @ zip (map fst topk) txs)" by simp
    from map_of_is_SomeI [OF distinct_keys this] show ?thesis
      unfolding F_def map_of_report [OF distinct_keys] by simp
  qed
  have left: "key \<in> fst ` set G \<and> key \<notin> internal ` set read_names" if "key \<in> fst ` set F" "is_internal key" for key
  proof -
    have "\<not> is_internal k" if "k \<in> set (final_names @ ''verpo/fec_alignment_margin'' # map ((@) ''verpo_zpd/'') tks)" for k
      using reported_not_internal that tks(2) by (auto simp: list_all_iff)
    moreover have "fst ` set (finalized @ [alignment_margin finalized] @ zip (map fst topk) txs)
        = set (final_names @ ''verpo/fec_alignment_margin'' # map ((@) ''verpo_zpd/'') tks)"
      unfolding set_map [symmetric] map_append keys_finalized keys_topk by (simp add: alignment_margin_def)
    ultimately have "key \<in> fst ` set M5" using that unfolding F_def keys_report by blast
    then have "key \<in> fst ` set M4" "key \<notin> internal ` set (map ((@) ''sum/'') tks)"
      by (simp_all add: M5_def keys_delete_all image_image)
    moreover have "key \<notin> internal ` set (map ((@) ''sum/'') topk_names)"
    proof
      assume "key \<in> internal ` set (map ((@) ''sum/'') topk_names)"
      then obtain n where n: "n \<in> set topk_names" "key = internal (''sum/'' @ n)" by auto
      then have "n \<in> set tks" using calculation(1) by (auto simp: tks_def map_of_eq_None_iff)
      then show False using calculation(2) n(2) by simp
    qed
    ultimately show ?thesis
      by (auto simp: M4_def M3_def M2_def M1_def keys_delete_all read_names_def)
  qed
  show ?thesis using final lookup left by blast
qed

section \<open>A training step\<close>

lemma length_filter_zip: "length xs = length bs \<Longrightarrow> length (filter snd (zip xs bs)) = count_list bs True"
  by (induction xs bs rule: list_induct2) auto

lemma length_select_masked:
  "map length mat = map length tmask \<Longrightarrow> length (select_masked mat tmask) = token_count tmask"
  using concat_lengths [of mat tmask]
  by (simp add: select_masked_def length_filter_zip token_count_def count_list_concat)

lemma vsum_concat: "vsum (concat xss) = (\<Sum>xs\<leftarrow>xss. vsum xs)"
  by (induction xss) (simp_all add: vsum_def)

text \<open>A micro-batch: its inputs, masks, values and raw dictionary.\<close>

type_synonym micro = "runtime_stats \<times> model_output \<times> monitor_batch \<times> token_masks \<times> token_values \<times> metrics"

definition micro_run :: "verpo_config \<Rightarrow> micro \<Rightarrow> bool" where
  "micro_run vcfg = (\<lambda>(S, out, D, M, V, m). raw_monitoring vcfg S out D = Inr m
     \<and> token_masks_of vcfg D = Inr M \<and> token_values_of out D = Inr V)"

definition pooled_sum :: "micro list \<Rightarrow> (token_values \<Rightarrow> vec list) \<Rightarrow> (token_masks \<Rightarrow> bool list list) \<Rightarrow> real" where
  "pooled_sum runs f sel = (\<Sum>(S, out, D, M, V, m)\<leftarrow>runs. vsum (select_masked (f V) (sel M)))"

definition pooled_count :: "micro list \<Rightarrow> (token_masks \<Rightarrow> token_values \<Rightarrow> bool list list) \<Rightarrow> real" where
  "pooled_count runs sel = (\<Sum>(S, out, D, M, V, m)\<leftarrow>runs. real (token_count (sel M V)))"

definition pooled_mean ::
  "micro list \<Rightarrow> (token_values \<Rightarrow> vec list) \<Rightarrow> (token_masks \<Rightarrow> bool list list) \<Rightarrow> (token_masks \<Rightarrow> bool list list) \<Rightarrow> real" where
  "pooled_mean runs f sel den = ratio_of (pooled_sum runs f sel) (pooled_count runs (\<lambda>M V. den M))"

definition reports :: "metrics \<Rightarrow> string \<Rightarrow> real \<Rightarrow> bool" where
  "reports F key x = (map_of F key = Some (Items [Num x]))"

lemma step_totals:
  assumes runs: "list_all (micro_run vcfg) runs"
    and minis: "concat (concat minis) = map (\<lambda>(S, out, D, M, V, m). m) runs" and some: "runs \<noteq> []"
  obtains G F where "merge_step minis = Inr G" "finalize_verpo_monitoring G = Inr F"
    "\<forall>key \<in> fst ` set F. \<not> is_internal key"
    "\<And>key e. (key, e) \<in> set (final_entries G) \<Longrightarrow> reports F key (projr (entry_value G e))"
    "\<And>name sel. (\<And>M V. (name, sel M V) \<in> set (count_payloads M V)) \<Longrightarrow> tot G (''count/'' @ name) = pooled_count runs sel"
    "\<And>name f sel. (\<And>M V r. (name, f V, sel M) \<in> set (sum_payloads vcfg M V r))
      \<Longrightarrow> tot G (''sum/'' @ name) = pooled_sum runs f sel"
    "flat_metric G (internal ''weight_values'')
      = concat (map (\<lambda>(S, out, D, M, V, m). select_masked (tv_weights V) (tm_available M)) runs)"
    "\<And>name. internal name \<notin> (\<Union>m \<in> set (concat (concat minis)). fst ` set m) \<Longrightarrow> tot G name = 0"
proof -
  let ?m = "\<lambda>(S, out, D, M, V, m). m :: metrics"
  have run: "raw_monitoring vcfg S out D = Inr m" "token_masks_of vcfg D = Inr M" "token_values_of out D = Inr V"
    if "(S, out, D, M, V, m) \<in> set runs" for S out D M V m
    using runs that by (auto simp: list_all_iff micro_run_def)
  have names: "\<exists>topk. map fst m = map internal (raw_names topk) \<and> set topk \<subseteq> set topk_names \<and> distinct (map fst m)"
    if "m \<in> set (map ?m runs)" for m
    using that run raw_monitoring_names by fastforce
  have "\<forall>m \<in> set (concat (concat minis)). distinct (map fst m)" unfolding minis using names by blast
  from merge_step_total [OF this] obtain G where G: "merge_step minis = Inr G" "distinct (map fst G)"
    "fst ` set G = (\<Union>m \<in> set (map ?m runs). fst ` set m)"
    "\<And>k. flat_metric G k = concat (map (\<lambda>m. flat_metric m k) (map ?m runs))"
    unfolding minis by blast
  have tot_G: "tot G name = (\<Sum>r\<leftarrow>runs. tot (?m r) name)" for name
    by (simp add: tot_def G(4) vsum_concat comp_def)
  have counts: "tot G (''count/'' @ name) = pooled_count runs sel"
    if "\<And>M V. (name, sel M V) \<in> set (count_payloads M V)" for name sel
    unfolding tot_G pooled_count_def
    by (rule arg_cong [where f = sum_list], rule map_cong [OF refl]) (use run raw_totals(1) that in fastforce)
  have sums: "tot G (''sum/'' @ name) = pooled_sum runs f sel"
    if mem: "\<And>M V r. (name, f V, sel M) \<in> set (sum_payloads vcfg M V r)" for name f sel
    unfolding tot_G pooled_sum_def
  proof (rule arg_cong [where f = sum_list], rule map_cong [OF refl], clarify)
    fix S out D M V m assume "(S, out, D, M, V, m) \<in> set runs"
    note r = run [OF this]
    obtain ratio where "benefit_cost_ratio vcfg V = Inr ratio" using r by (rule raw_monitoringE)
    from raw_totals(2) [OF r this mem] show "tot m (''sum/'' @ name) = vsum (select_masked (f V) (sel M))" .
  qed
  have ws: "flat_metric G (internal ''weight_values'')
      = concat (map (\<lambda>(S, out, D, M, V, m). select_masked (tv_weights V) (tm_available M)) runs)"
    unfolding G(4) map_map
    by (rule arg_cong [where f = concat], rule map_cong [OF refl]) (use run raw_totals(3) in fastforce)
  have len: "length (flat_metric G (internal ''weight_values'')) = (\<Sum>(S, out, D, M, V, m)\<leftarrow>runs. token_count (tm_available M))"
    unfolding ws length_concat map_map
  proof (rule arg_cong [where f = sum_list], rule map_cong [OF refl], clarify)
    fix S out D M V m assume "(S, out, D, M, V, m) \<in> set runs"
    from run [OF this] have "values_fit M V" by (rule raw_monitoringE)
    then show "(length \<circ> (\<lambda>(S, out, D, M, V, m). select_masked (tv_weights V) (tm_available M))) (S, out, D, M, V, m)
        = token_count (tm_available M)"
      by (simp add: values_fit_def length_select_masked)
  qed
  have weights: "real (length (flat_metric G (internal ''weight_values''))) = tot G ''count/weight''"
  proof -
    have "tot G ''count/weight'' = pooled_count runs (\<lambda>M V. tm_available M)"
      using counts [of "''weight''"] by (simp add: count_payloads_def Let_def)
    moreover have "real (sum_list (map f xs)) = (\<Sum>x\<leftarrow>xs. real (f x))" for f :: "micro \<Rightarrow> nat" and xs
      by (induction xs) simp_all
    ultimately show ?thesis unfolding len pooled_count_def by (simp add: case_prod_unfold)
  qed
  obtain S out D M V m where "hd runs = (S, out, D, M, V, m)" by (cases "hd runs")
  then have first: "(S, out, D, M, V, m) \<in> set runs" using some by (metis hd_in_set)
  have memory: "flat_metric G (internal n) \<noteq> []" if n: "n \<in> {''max/memory_allocated'', ''max/memory_reserved''}" for n
  proof -
    have "flat_metric m (internal n) \<noteq> []" by (rule raw_totals(4) [OF run [OF first] n])
    then show ?thesis using first unfolding G(4) by force
  qed
  have m: "m \<in> set (map ?m runs)" using first by force
  have internal_G: "\<exists>key \<in> fst ` set G. is_internal key"
  proof -
    have "internal ''weight_values'' \<in> fst ` set m" using run [OF first] by (rule raw_monitoringE) force
    then have "internal ''weight_values'' \<in> fst ` set G" unfolding G(3) using m by blast
    then show ?thesis by (rule rev_bexI) (simp add: is_internal_def)
  qed
  from finalize_eq [OF internal_G weights memory] obtain F where F: "finalize_verpo_monitoring G = Inr F"
    "\<And>key e. (key, e) \<in> set (final_entries G) \<Longrightarrow> reports F key (projr (entry_value G e))"
    "\<And>key. key \<in> fst ` set F \<Longrightarrow> is_internal key \<Longrightarrow> key \<in> fst ` set G \<and> key \<notin> internal ` set read_names"
    by (fastforce simp: reports_def)
  have clean: "\<forall>key \<in> fst ` set F. \<not> is_internal key"
  proof (intro ballI notI)
    fix key assume "key \<in> fst ` set F" "is_internal key"
    note k = F(3) [OF this]
    then obtain m' where "m' \<in> set (map ?m runs)" "key \<in> fst ` set m'" unfolding G(3) by blast
    then obtain topk where "key \<in> internal ` set (raw_names topk)" "set topk \<subseteq> set topk_names"
      using names by (metis list.set_map)
    then show False using k raw_names_read by blast
  qed
  have absent: "tot G name = 0" if "internal name \<notin> (\<Union>m \<in> set (concat (concat minis)). fst ` set m)" for name
    using that flat_metric_absent [of "internal name" G] unfolding G(3) minis by (simp add: tot_def vsum_def)
  show thesis by (rule that [OF G(1) F(1) clean F(2) counts sums ws absent])
qed

lemma ratio_of_zero: "ratio_of 0 c = 0"
  by (simp add: ratio_of_def)

text \<open>No micro-batch writes the totals of the reference norms.\<close>

lemma raw_names_prefix: "set topk \<subseteq> set topk_names \<Longrightarrow> ''sum/'' @ n \<in> set (raw_names topk) \<Longrightarrow>
    n \<in> set (sum_payload_names @ topk_names)"
  by (auto simp: raw_names_def)

lemma reference_norms_absent:
  assumes runs: "list_all (micro_run vcfg) runs"
    and minis: "concat (concat minis) = map (\<lambda>(S, out, D, M, V, m). m) runs"
  shows "internal ''sum/reference_l1'' \<notin> (\<Union>m \<in> set (concat (concat minis)). fst ` set m)"
    and "internal ''sum/reference_l2'' \<notin> (\<Union>m \<in> set (concat (concat minis)). fst ` set m)"
proof -
  have "n \<in> set (sum_payload_names @ topk_names)"
    if n: "internal (''sum/'' @ n) \<in> (\<Union>m \<in> set (concat (concat minis)). fst ` set m)" for n
  proof -
    obtain m' where m': "m' \<in> set (map (\<lambda>(S, out, D, M, V, m). m) runs)" "internal (''sum/'' @ n) \<in> fst ` set m'"
      using n unfolding minis by blast
    from m'(1) obtain r where "r \<in> set runs" "m' = (\<lambda>(S, out, D, M, V, m). m) r"
      unfolding set_map by (elim imageE)
    with m'(2) obtain S out D M V m where m: "(S, out, D, M, V, m) \<in> set runs" "internal (''sum/'' @ n) \<in> set (map fst m)"
      by (cases r) simp
    then have "raw_monitoring vcfg S out D = Inr m" "token_masks_of vcfg D = Inr M" "token_values_of out D = Inr V"
      using runs by (auto simp: list_all_iff micro_run_def)
    from raw_monitoring_names [OF this] obtain topk where "map fst m = map internal (raw_names topk)"
      "set topk \<subseteq> set topk_names" by blast
    with m(2) have "''sum/'' @ n \<in> set (raw_names topk)" by auto
    then show ?thesis using \<open>set topk \<subseteq> set topk_names\<close> by (rule raw_names_prefix [rotated])
  qed
  moreover have "''reference_l1'' \<notin> set (sum_payload_names @ topk_names)"
    "''reference_l2'' \<notin> set (sum_payload_names @ topk_names)"
    by (simp_all add: sum_payload_names_def topk_names_def)
  ultimately show "internal ''sum/reference_l1'' \<notin> (\<Union>m \<in> set (concat (concat minis)). fst ` set m)"
    and "internal ''sum/reference_l2'' \<notin> (\<Union>m \<in> set (concat (concat minis)). fst ` set m)"
    by (metis append.simps(1,2))+
qed

text \<open>C8: whatever the split of a step into mini-batches, ranks and micro-batches, merging and finalizing
  its dictionaries succeeds, removes every internal key, and reports quotients over all tokens of
  the step: losses over the response and the routed tokens, weights (mean, median, fraction of
  non-zero ones) over the available tokens, selected benefit and cost over the routed tokens. The metrics
  named means of benefit and of Fisher cost are something else: sums over the available tokens
  divided by the number of routed ones; and the reference norms are always 0.\<close>

theorem monitoring_pools_tokens:
  assumes runs: "list_all (micro_run vcfg) runs"
    and minis: "concat (concat minis) = map (\<lambda>(S, out, D, M, V, m). m) runs" and some: "runs \<noteq> []"
  shows "\<exists>G F. merge_step minis = Inr G \<and> finalize_verpo_monitoring G = Inr F
    \<and> (\<forall>key \<in> fst ` set F. \<not> is_internal key)
    \<and> reports F ''verpo/reference_loss'' (pooled_mean runs tv_reference_loss tm_response tm_response)
    \<and> reports F ''verpo/evidence_loss'' (pooled_mean runs tv_evidence_loss tm_evidence tm_evidence)
    \<and> reports F ''verpo/weight_mean'' (pooled_mean runs tv_weights tm_available tm_available)
    \<and> reports F ''verpo/weight_median''
        (weight_quantile (concat (map (\<lambda>(S, out, D, M, V, m). select_masked (tv_weights V) (tm_available M)) runs)) (1/2))
    \<and> reports F ''verpo/weight_nonzero_fraction''
        (ratio_of (pooled_count runs (\<lambda>M V. mask_where (\<lambda>x. 0 < x) (tv_weights V) (tm_available M)))
          (pooled_count runs (\<lambda>M V. tm_available M)))
    \<and> reports F ''verpo/mixed_success_weight_mean'' (pooled_mean runs tv_weights tm_mixed_success tm_mixed_success)
    \<and> reports F ''verpo_zpd/selected_benefit'' (pooled_mean runs tv_benefit tm_evidence tm_evidence)
    \<and> reports F ''verpo_zpd/selected_cost'' (pooled_mean runs tv_fisher_cost tm_evidence tm_evidence)
    \<and> reports F ''verpo/benefit_mean'' (pooled_mean runs tv_benefit tm_available tm_evidence)
    \<and> reports F ''verpo/fisher_cost_mean'' (pooled_mean runs tv_fisher_cost tm_available tm_evidence)
    \<and> reports F ''verpo/reference_l1'' 0 \<and> reports F ''verpo/reference_l2'' 0"
proof -
  obtain G F where G: "merge_step minis = Inr G" "finalize_verpo_monitoring G = Inr F"
    "\<forall>key \<in> fst ` set F. \<not> is_internal key"
    and entry: "\<And>key e. (key, e) \<in> set (final_entries G) \<Longrightarrow> reports F key (projr (entry_value G e))"
    and counts: "\<And>name sel. (\<And>M V. (name, sel M V) \<in> set (count_payloads M V)) \<Longrightarrow> tot G (''count/'' @ name) = pooled_count runs sel"
    and sums: "\<And>name f sel. (\<And>M V r. (name, f V, sel M) \<in> set (sum_payloads vcfg M V r))
      \<Longrightarrow> tot G (''sum/'' @ name) = pooled_sum runs f sel"
    and ws: "flat_metric G (internal ''weight_values'')
      = concat (map (\<lambda>(S, out, D, M, V, m). select_masked (tv_weights V) (tm_available M)) runs)"
    and absent: "\<And>name. internal name \<notin> (\<Union>m \<in> set (concat (concat minis)). fst ` set m) \<Longrightarrow> tot G name = 0"
    using step_totals [OF runs minis some] by blast
  have c: "tot G ''count/reference'' = pooled_count runs (\<lambda>M V. tm_response M)"
    "tot G ''count/evidence'' = pooled_count runs (\<lambda>M V. tm_evidence M)"
    "tot G ''count/weight'' = pooled_count runs (\<lambda>M V. tm_available M)"
    "tot G ''count/mixed_success'' = pooled_count runs (\<lambda>M V. tm_mixed_success M)"
    "tot G ''count/weight_nonzero'' = pooled_count runs (\<lambda>M V. mask_where (\<lambda>x. 0 < x) (tv_weights V) (tm_available M))"
    using counts [of "''reference''" "\<lambda>M V. tm_response M"] counts [of "''evidence''" "\<lambda>M V. tm_evidence M"]
      counts [of "''weight''" "\<lambda>M V. tm_available M"] counts [of "''mixed_success''" "\<lambda>M V. tm_mixed_success M"]
      counts [of "''weight_nonzero''" "\<lambda>M V. mask_where (\<lambda>x. 0 < x) (tv_weights V) (tm_available M)"]
    by (simp_all add: count_payloads_def Let_def)
  have s: "tot G ''sum/reference_loss'' = pooled_sum runs tv_reference_loss tm_response"
    "tot G ''sum/evidence_loss'' = pooled_sum runs tv_evidence_loss tm_evidence"
    "tot G ''sum/weight'' = pooled_sum runs tv_weights tm_available"
    "tot G ''sum/mixed_success_weight'' = pooled_sum runs tv_weights tm_mixed_success"
    "tot G ''sum/selected_benefit'' = pooled_sum runs tv_benefit tm_evidence"
    "tot G ''sum/selected_cost'' = pooled_sum runs tv_fisher_cost tm_evidence"
    "tot G ''sum/benefit'' = pooled_sum runs tv_benefit tm_available"
    "tot G ''sum/fisher_cost'' = pooled_sum runs tv_fisher_cost tm_available"
    using sums [of "''reference_loss''" tv_reference_loss tm_response] sums [of "''evidence_loss''" tv_evidence_loss tm_evidence]
      sums [of "''weight''" tv_weights tm_available] sums [of "''mixed_success_weight''" tv_weights tm_mixed_success]
      sums [of "''selected_benefit''" tv_benefit tm_evidence] sums [of "''selected_cost''" tv_fisher_cost tm_evidence]
      sums [of "''benefit''" tv_benefit tm_available] sums [of "''fisher_cost''" tv_fisher_cost tm_available]
    by (simp_all add: sum_payloads_def Let_def)
  have l: "tot G ''sum/reference_l1'' = 0" "tot G ''sum/reference_l2'' = 0"
    by (rule absent; use reference_norms_absent [OF runs minis] in blast)+
  have early: "early_value G ''sum/reference_loss'' = pooled_mean runs tv_reference_loss tm_response tm_response"
    "early_value G ''sum/evidence_loss'' = pooled_mean runs tv_evidence_loss tm_evidence tm_evidence"
    "early_value G ''sum/selected_benefit'' = pooled_mean runs tv_benefit tm_evidence tm_evidence"
    "early_value G ''sum/selected_cost'' = pooled_mean runs tv_fisher_cost tm_evidence tm_evidence"
    by (simp_all add: early_value_def early_ratios_def s c pooled_mean_def)
  note final = final_entries_def finalized_entries_def Let_def early c ws
  have "reports F ''verpo/reference_loss'' (pooled_mean runs tv_reference_loss tm_response tm_response)"
    using entry [of "''verpo/reference_loss''" "Given (early_value G ''sum/reference_loss'')"] by (simp add: final)
  moreover have "reports F ''verpo/evidence_loss'' (pooled_mean runs tv_evidence_loss tm_evidence tm_evidence)"
    using entry [of "''verpo/evidence_loss''" "Given (early_value G ''sum/evidence_loss'')"] by (simp add: final)
  moreover have "reports F ''verpo/weight_mean'' (pooled_mean runs tv_weights tm_available tm_available)"
    using entry [of "''verpo/weight_mean''" "Ratio ''sum/weight'' (tot G ''count/weight'')"]
    by (simp add: final s pooled_mean_def)
  moreover have "reports F ''verpo/weight_median''
      (weight_quantile (concat (map (\<lambda>(S, out, D, M, V, m). select_masked (tv_weights V) (tm_available M)) runs)) (1/2))"
    using entry [of "''verpo/weight_median''" "Given (weight_quantile (flat_metric G (internal ''weight_values'')) (1/2))"]
    by (simp add: final)
  moreover have "reports F ''verpo/weight_nonzero_fraction''
      (ratio_of (pooled_count runs (\<lambda>M V. mask_where (\<lambda>x. 0 < x) (tv_weights V) (tm_available M)))
        (pooled_count runs (\<lambda>M V. tm_available M)))"
    using entry [of "''verpo/weight_nonzero_fraction''" "Ratio ''count/weight_nonzero'' (tot G ''count/weight'')"]
    by (simp add: final)
  moreover have "reports F ''verpo/mixed_success_weight_mean'' (pooled_mean runs tv_weights tm_mixed_success tm_mixed_success)"
    using entry [of "''verpo/mixed_success_weight_mean''" "Ratio ''sum/mixed_success_weight'' (tot G ''count/mixed_success'')"]
    by (simp add: final s pooled_mean_def)
  moreover have "reports F ''verpo_zpd/selected_benefit'' (pooled_mean runs tv_benefit tm_evidence tm_evidence)"
    using entry [of "''verpo_zpd/selected_benefit''" "Given (early_value G ''sum/selected_benefit'')"] by (simp add: final)
  moreover have "reports F ''verpo_zpd/selected_cost'' (pooled_mean runs tv_fisher_cost tm_evidence tm_evidence)"
    using entry [of "''verpo_zpd/selected_cost''" "Given (early_value G ''sum/selected_cost'')"] by (simp add: final)
  moreover have "reports F ''verpo/benefit_mean'' (pooled_mean runs tv_benefit tm_available tm_evidence)"
    using entry [of "''verpo/benefit_mean''" "Ratio ''sum/benefit'' (tot G ''count/evidence'')"]
    by (simp add: final s pooled_mean_def)
  moreover have "reports F ''verpo/fisher_cost_mean'' (pooled_mean runs tv_fisher_cost tm_available tm_evidence)"
    using entry [of "''verpo/fisher_cost_mean''" "Ratio ''sum/fisher_cost'' (tot G ''count/evidence'')"]
    by (simp add: final s pooled_mean_def)
  moreover have "reports F ''verpo/reference_l1'' 0" "reports F ''verpo/reference_l2'' 0"
    using entry [of "''verpo/reference_l1''" "Ratio ''sum/reference_l1'' (tot G ''count/reference'')"]
      entry [of "''verpo/reference_l2''" "Ratio ''sum/reference_l2'' (tot G ''count/reference'')"]
    by (simp_all add: final l ratio_of_zero)
  ultimately show ?thesis using G by blast
qed

text \<open>Two ranks with one row of two tokens each, both available; only the first row is routed. Its benefit
  is 1, that of the other row 3.\<close>

definition mon_config :: verpo_config where
  "mon_config = \<lparr>vc_args = \<lparr>va_tau = Fin 1, va_rho = Fin 1, va_cost_floor = Fin 0, va_cost_beta = Fin 1,
      va_cost_alpha = Some (Fin 1), va_cost_epsilon = Some (Fin 1), va_allow_negative_benefit = False,
      va_temperature = Fin 1, va_vocab_chunk_size = 2, va_divergence = ''forward_kl'', va_displacement_mode = ''fec'',
      va_projection_epsilon = Fin 1, va_vocab_mode = ''full'', va_top_k = 1\<rparr>,
    vc_num_negative_hints = 1, vc_lambda_ref = 1, vc_lambda_evi = 1, vc_advantage_modulation = ''none'',
    vc_modulation_lambda = Fin 0\<rparr>"

definition mon_runtime :: runtime_stats where
  "mon_runtime = \<lparr>rs_times = \<lambda>_. None, rs_memory_allocated = None, rs_memory_reserved = None\<rparr>"

definition mon_stat :: "real \<Rightarrow> fec_stats" where
  "mon_stat b = \<lparr>fs_benefit = b, fs_fisher_cost = 0, fs_displacement_norm = 0, fs_task_norm = 0, fs_nuisance_norm = 0,
     fs_cosine = 0, fs_projection = 0, fs_residual_cov = 0, fs_alignment = 0\<rparr>"

definition mon_output :: "real \<Rightarrow> model_output" where
  "mon_output b = \<lparr>mo_log_probs = [0, 0, 0], mo_entropy = None, mo_verpo =
     \<lparr>fr_reference_loss = [1, 1, 0], fr_evidence_loss = [1, 1, 0], fr_weights = [1/2, 1, 0],
      fr_stats = [mon_stat b, mon_stat b, mon_stat 0], fr_q0_sample_log_prob = [0, 0, 0],
      fr_reference_support_size = None, fr_support_size = [2, 2, 0], fr_reference_support_mass = [1, 1, 0],
      fr_evidence_support_mass = [1, 1, 0], fr_student_support_mass = [1, 1, 0], fr_negative_support_mass = None\<rparr>\<rparr>"

definition mon_batch :: "bool \<Rightarrow> monitor_batch" where
  "mon_batch gate = \<lparr>rl_prompts = Nested [[1]], rl_responses = Nested [[0, 1]], rl_attention_mask = [],
     rl_max_response_len = - 1, vd_input_ids = Nested [[1, 0, 1]], vd_temperature = Some 1, vd_teachers = [],
     vd_response_mask = Nested [[True, True]], vd_advantages = Nested [[1, 1]], vd_evidence_rollout_gate = [gate],
     vb_old_log_probs = Nested [[0, 0]], vb_rollout_is_weights = None, vb_ref_log_prob = None, vb_dp_size = 2,
     vb_batch_num_tokens = Some 4, vb_global_batch_size = Some 2, vb_outcome_positive = [True],
     vb_evidence_batch_num_tokens = Some [2], vb_evidence_global_batch_size = Some [1],
     vb_fec_correct_token_count = Some [2], vb_fec_wrong_token_count = Some [0],
     mn_contrastive_available = None, mn_group_gate = [gate], mn_available_group_gate = [gate]\<rparr>"

definition mon_masks :: "bool \<Rightarrow> token_masks" where
  "mon_masks g = \<lparr>tm_response = [[True, True]], tm_evidence = [[g, g]], tm_available = [[True, True]],
     tm_mixed_success = [[g, g]], tm_mixed_failure = [[False, False]], tm_fec = [[True, True]],
     tm_fec_correct = [[g, g]], tm_fec_wrong = [[False, False]]\<rparr>"

definition mon_values :: "real \<Rightarrow> token_values" where
  "mon_values b = \<lparr>tv_reference_loss = [[1, 1]], tv_evidence_loss = [[1, 1]], tv_weights = [[1/2, 1]],
     tv_benefit = [[b, b]], tv_fisher_cost = [[0, 0]], tv_displacement_norm = [[0, 0]], tv_task_norm = [[0, 0]],
     tv_nuisance_norm = [[0, 0]], tv_fec_cosine = [[0, 0]], tv_fec_projection = [[0, 0]],
     tv_fec_residual_covariance = [[0, 0]], tv_alignment = [[0, 0]]\<rparr>"

lemma mon_masks_of: "token_masks_of mon_config (mon_batch g) = Inr (mon_masks g)"
  by (simp add: token_masks_of_def mon_config_def mon_batch_def padded_mask_def pad_rows_def pad_row_def max_len_def
      gated_mask_def broadcast2_def mon_masks_def Let_def)

lemma mon_padding: "no_padding_2_padding [x, y, z] (layout_of (mon_batch g)) = Inr [[x, y]]"
  by (simp add: no_padding_2_padding_def response_lengths_def nested_lens_def broadcast2_def cut_response_def fpad_def
      slice_def layout_of_def mon_batch_def response_layout.truncate_def)

lemma mon_values_of: "token_values_of (mon_output b) (mon_batch g) = Inr (mon_values b)"
  by (simp add: token_values_of_def mon_output_def mon_stat_def mon_padding mon_values_def)

lemma mon_run: "\<exists>m. micro_run mon_config (S, mon_output b, mon_batch g, mon_masks g, mon_values b, m)"
proof -
  have "\<exists>P. topk_payloads (mon_output b) (mon_batch g) ev = Inr P" for ev
    by (simp add: topk_payloads_def mon_output_def mon_padding)
  moreover have "\<exists>r. benefit_cost_ratio mon_config (mon_values b) = Inr r"
    by (simp add: benefit_cost_ratio_def mon_config_def)
  moreover have "values_fit (mon_masks g) (mon_values b)"
    by (simp add: values_fit_def mon_masks_def mon_values_def)
  ultimately show ?thesis
    by (auto simp: micro_run_def raw_monitoring_def mon_masks_of mon_values_of)
qed

theorem monitoring_pools_tokens_witness:
  "\<exists>m1 m2 G F. raw_monitoring mon_config mon_runtime (mon_output 1) (mon_batch True) = Inr m1
    \<and> raw_monitoring mon_config mon_runtime (mon_output 3) (mon_batch False) = Inr m2
    \<and> merge_step [[[m1], [m2]]] = Inr G \<and> finalize_verpo_monitoring G = Inr F
    \<and> reports F ''verpo_zpd/selected_benefit'' 1 \<and> reports F ''verpo/benefit_mean'' 4"
proof -
  obtain m1 m2 where m: "micro_run mon_config (mon_runtime, mon_output 1, mon_batch True, mon_masks True, mon_values 1, m1)"
    "micro_run mon_config (mon_runtime, mon_output 3, mon_batch False, mon_masks False, mon_values 3, m2)"
    using mon_run by blast
  let ?runs = "[(mon_runtime, mon_output 1, mon_batch True, mon_masks True, mon_values 1, m1),
    (mon_runtime, mon_output 3, mon_batch False, mon_masks False, mon_values 3, m2)]"
  have mean: "pooled_mean ?runs tv_benefit tm_evidence tm_evidence = 1" "pooled_mean ?runs tv_benefit tm_available tm_evidence = 4"
    by (simp_all add: pooled_mean_def pooled_sum_def pooled_count_def ratio_of_def mon_masks_def mon_values_def
        select_masked_def token_count_def vsum_def)
  have "list_all (micro_run mon_config) ?runs" "concat (concat [[[m1], [m2]]]) = map (\<lambda>(S, out, D, M, V, m). m) ?runs"
    using m by simp_all
  from monitoring_pools_tokens [OF this] mean m show ?thesis by (auto simp: micro_run_def)
qed

end
