(* ===== verification/VerpoConfig.thy ===== *)
theory VerpoConfig
  imports ActorTeacher NativeLosses
begin

text \<open>
  The configuration of a VERPO run in the veRL port
  (\<open>verl/workers/config/actor.py\<close>): what \<open>VerpoZPDConfig\<close>, \<open>PaperBaselineConfig\<close>
  and \<open>ActorConfig\<close> accept, and the check of \<open>verl/utils/config.py\<close> on the reward-side KL. A
  dataclass is a record; \<open>__post_init__\<close> returns the instance it leaves behind or the error it raises.
  \<open>controller_args\<close> are the arguments the logits processor passes from the configuration to
  the flat losses.
\<close>

section \<open>The VERPO section\<close>

record zpd_config =
  zc_enabled :: bool
  zc_teacher_mode :: string
  zc_teacher_sync_interval :: int
  zc_teacher_ema_decay :: pyfloat
  zc_divergence :: string
  zc_displacement_mode :: string
  zc_group_zpd_enabled :: bool
  zc_group_zpd_epsilon :: pyfloat
  zc_group_zpd_mode :: string
  zc_sibling_selection_mode :: string
  zc_evidence_rollout_scope :: string
  zc_evidence_source :: string
  zc_contrastive_num_negative_hints :: int
  zc_smoke_allow_unboxed_contrastive :: bool
  zc_projection_epsilon :: pyfloat
  zc_lambda_ref :: pyfloat
  zc_lambda_evi :: pyfloat
  zc_advantage_modulation :: string
  zc_advantage_modulation_lambda :: pyfloat
  zc_cost_alpha :: "pyfloat option"
  zc_cost_epsilon :: "pyfloat option"
  zc_tau :: pyfloat
  zc_rho :: pyfloat
  zc_cost_floor :: pyfloat
  zc_cost_beta :: pyfloat
  zc_allow_negative_benefit :: bool
  zc_temperature :: pyfloat
  zc_vocab_chunk_size :: int
  zc_vocab_mode :: string
  zc_top_k :: int
  zc_teacher_max_token_len_per_gpu :: int
  zc_teacher_max_reprompt_len :: int
  zc_gradient_audit_enabled :: bool
  zc_gradient_audit_max_steps :: int
  zc_gradient_audit_max_parameter_elements :: int
  zc_gradient_audit_max_parameter_tensors :: int

definition default_zpd_config :: zpd_config where
  "default_zpd_config = \<lparr>zc_enabled = False, zc_teacher_mode = ''fixed_initial'', zc_teacher_sync_interval = 10,
     zc_teacher_ema_decay = Fin (95/100), zc_divergence = ''forward_kl'', zc_displacement_mode = ''evidence_vs_none'',
     zc_group_zpd_enabled = False, zc_group_zpd_epsilon = Fin 0, zc_group_zpd_mode = ''binary_mixed'',
     zc_sibling_selection_mode = ''correctness'', zc_evidence_rollout_scope = ''all'',
     zc_evidence_source = ''rollout_group'', zc_contrastive_num_negative_hints = 1,
     zc_smoke_allow_unboxed_contrastive = False, zc_projection_epsilon = Fin (1 / 10 ^ 8), zc_lambda_ref = Fin (1/10),
     zc_lambda_evi = Fin (1/2), zc_advantage_modulation = ''none'', zc_advantage_modulation_lambda = Fin 0,
     zc_cost_alpha = None, zc_cost_epsilon = None, zc_tau = Fin 1, zc_rho = Fin (1 / 10 ^ 4),
     zc_cost_floor = Fin (1/1000), zc_cost_beta = Fin 1, zc_allow_negative_benefit = False, zc_temperature = Fin 1,
     zc_vocab_chunk_size = 4096, zc_vocab_mode = ''topk_truncated'', zc_top_k = 128,
     zc_teacher_max_token_len_per_gpu = 40960, zc_teacher_max_reprompt_len = 0, zc_gradient_audit_enabled = False,
     zc_gradient_audit_max_steps = 0, zc_gradient_audit_max_parameter_elements = 1000000,
     zc_gradient_audit_max_parameter_tensors = 16\<rparr>"

text \<open>The sequence of guards is a list of conditions with their messages; the first that holds is
  raised.\<close>

fun first_error :: "(bool \<times> string) list \<Rightarrow> unit res" where
  "first_error [] = Inr ()"
| "first_error ((bad, message) # guards) = (if bad then Inl (ValueError message) else first_error guards)"

lemma first_error_Inr [simp]: "first_error guards = Inr u \<longleftrightarrow> list_all (\<lambda>(bad, message). \<not> bad) guards"
  by (induction guards rule: first_error.induct) auto

definition in_unit_interval :: "pyfloat \<Rightarrow> bool" where
  "in_unit_interval x \<longleftrightarrow> isfinite x \<and> 0 < the_real x \<and> the_real x < 1"

text \<open>The Teacher mode: \<open>snapshot_anchor\<close> is an old name of \<open>snapshot\<close>.\<close>

definition teacher_mode_of :: "string \<Rightarrow> string" where
  "teacher_mode_of s = (let mode = lower (strip s) in if mode = ''snapshot_anchor'' then ''snapshot'' else mode)"

definition teacher_guards :: "zpd_config \<Rightarrow> (bool \<times> string) list" where
  "teacher_guards C =
     [(teacher_mode_of (zc_teacher_mode C) \<notin> {''fixed_initial'', ''snapshot'', ''ema''},
        ''VERPO teacher_mode must be fixed_initial, snapshot, or ema''),
      (zc_teacher_sync_interval C \<le> 0, ''VERPO teacher_sync_interval must be positive''),
      (\<not> in_unit_interval (zc_teacher_ema_decay C), ''VERPO teacher_ema_decay must be in (0, 1)'')]"

text \<open>The cost parameters: derived from the legacy fields when neither is given.\<close>

definition effective_cost :: "zpd_config \<Rightarrow> (pyfloat \<times> pyfloat) res" where
  "effective_cost C =
     (case (zc_cost_alpha C, zc_cost_epsilon C) of
        (None, None) \<Rightarrow> Inr (pf_mul (zc_tau C) (zc_cost_beta C),
          pf_mul (zc_tau C) (pf_add (zc_rho C) (zc_cost_floor C)))
      | (Some alpha, Some epsilon) \<Rightarrow> Inr (alpha, epsilon)
      | _ \<Rightarrow> Inl (ValueError ''VERPO cost_alpha and cost_epsilon must be set together''))"

text \<open>The guards after it; the float fields below the finiteness guard are read by \<open>the_real\<close>.\<close>

definition reward_ranked_siblings :: "zpd_config \<Rightarrow> bool" where
  "reward_ranked_siblings C \<longleftrightarrow>
     zc_sibling_selection_mode C = ''reward_ranked'' \<or> zc_displacement_mode C = ''reward_ranked''"

definition mode_guards :: "zpd_config \<Rightarrow> pyfloat \<Rightarrow> pyfloat \<Rightarrow> (bool \<times> string) list" where
  "mode_guards C alpha epsilon =
     [(list_ex (\<lambda>x. \<not> isfinite x) [zc_lambda_ref C, zc_lambda_evi C, zc_advantage_modulation_lambda C, zc_tau C,
         zc_rho C, zc_cost_floor C, zc_cost_beta C, zc_temperature C, zc_group_zpd_epsilon C, alpha, epsilon],
       ''VERPO floating-point configuration values must be finite''),
      (the_real alpha < 0 \<or> the_real epsilon \<le> 0, ''VERPO cost_alpha must be nonnegative and cost_epsilon positive''),
      (zc_divergence C \<notin> {''forward_kl'', ''reverse_kl''}, ''VERPO divergence must be forward_kl or reverse_kl''),
      (zc_advantage_modulation C \<notin> {''none'', ''multiplicative_w''},
       ''VERPO advantage_modulation must be none or multiplicative_w''),
      (zc_displacement_mode C \<notin> {''evidence_vs_none'', ''correct_vs_incorrect'', ''reward_ranked'', ''fec''},
       ''VERPO displacement_mode must be evidence_vs_none, correct_vs_incorrect, reward_ranked, or fec''),
      (zc_group_zpd_mode C \<notin> {''binary_mixed'', ''reward_ranked''},
       ''VERPO group_zpd_mode must be binary_mixed or reward_ranked''),
      (the_real (zc_group_zpd_epsilon C) < 0, ''VERPO group_zpd_epsilon must be nonnegative''),
      (zc_sibling_selection_mode C \<notin> {''correctness'', ''reward_ranked''},
       ''VERPO sibling_selection_mode must be correctness or reward_ranked''),
      (zc_evidence_rollout_scope C \<notin> {''all'', ''wrong_only''},
       ''VERPO evidence_rollout_scope must be all or wrong_only''),
      (zc_contrastive_num_negative_hints C \<le> 0, ''VERPO contrastive_num_negative_hints must be positive''),
      (reward_ranked_siblings C
         \<and> (zc_group_zpd_mode C \<noteq> ''reward_ranked'' \<or> zc_sibling_selection_mode C \<noteq> ''reward_ranked''
            \<or> zc_evidence_rollout_scope C \<noteq> ''all'' \<or> zc_contrastive_num_negative_hints C \<noteq> 1),
       ''VERPO reward-ranked protocol mismatch'')]"

definition limit_guards :: "zpd_config \<Rightarrow> (bool \<times> string) list" where
  "limit_guards C =
     [(\<not> isfinite (zc_projection_epsilon C) \<or> the_real (zc_projection_epsilon C) \<le> 0,
       ''VERPO projection_epsilon must be finite and positive''),
      (list_ex (\<lambda>x. the_real x < 0) [zc_lambda_ref C, zc_lambda_evi C, zc_advantage_modulation_lambda C, zc_rho C,
         zc_cost_floor C, zc_cost_beta C], ''VERPO coefficients and cost parameters must be nonnegative''),
      (zc_advantage_modulation C = ''none'' \<and> the_real (zc_advantage_modulation_lambda C) \<noteq> 0,
       ''VERPO advantage_modulation_lambda must be zero when modulation is none''),
      (zc_advantage_modulation C = ''multiplicative_w'' \<and> zc_displacement_mode C \<noteq> ''fec'',
       ''multiplicative_w advantage modulation requires displacement_mode=fec''),
      (the_real (zc_tau C) \<le> 0 \<or> the_real (zc_temperature C) \<le> 0, ''VERPO tau and temperature must be positive''),
      (the_real (zc_rho C) + the_real (zc_cost_floor C) \<le> 0, ''VERPO rho + cost_floor must be positive''),
      (zc_vocab_chunk_size C \<le> 0 \<or> zc_teacher_max_token_len_per_gpu C \<le> 0, ''VERPO token limits must be positive''),
      (zc_teacher_max_reprompt_len C < 0, ''VERPO teacher_max_reprompt_len must be nonnegative''),
      (zc_vocab_mode C \<notin> {''full'', ''topk_truncated''}, ''VERPO vocab_mode must be full or topk_truncated''),
      (zc_top_k C \<le> 0, ''VERPO top_k must be positive''),
      (zc_gradient_audit_max_steps C < 0, ''VERPO gradient_audit_max_steps must be nonnegative''),
      (zc_gradient_audit_enabled C \<and> zc_gradient_audit_max_steps C \<le> 0,
       ''VERPO gradient_audit_max_steps must be positive when gradient audit is enabled''),
      (zc_gradient_audit_max_parameter_elements C \<le> 0,
       ''VERPO gradient_audit_max_parameter_elements must be positive''),
      (zc_gradient_audit_max_parameter_tensors C \<le> 0,
       ''VERPO gradient_audit_max_parameter_tensors must be positive'')]"

definition zpd_post_init :: "zpd_config \<Rightarrow> zpd_config res" where
  "zpd_post_init C =
     rbind (first_error (teacher_guards C)) (\<lambda>_.
     rbind (effective_cost C) (\<lambda>(alpha, epsilon).
     rbind (first_error (mode_guards C alpha epsilon)) (\<lambda>_.
     rbind (first_error (limit_guards C)) (\<lambda>_.
       Inr (C\<lparr>zc_teacher_mode := teacher_mode_of (zc_teacher_mode C),
         zc_cost_alpha := Some alpha, zc_cost_epsilon := Some epsilon\<rparr>)))))"

text \<open>The call of the flat losses by the logits processor.\<close>

definition controller_args :: "zpd_config \<Rightarrow> verpo_args" where
  "controller_args C = \<lparr>va_tau = zc_tau C, va_rho = zc_rho C, va_cost_floor = zc_cost_floor C,
     va_cost_beta = zc_cost_beta C, va_cost_alpha = zc_cost_alpha C, va_cost_epsilon = zc_cost_epsilon C,
     va_allow_negative_benefit = zc_allow_negative_benefit C, va_temperature = zc_temperature C,
     va_vocab_chunk_size = zc_vocab_chunk_size C, va_divergence = zc_divergence C,
     va_displacement_mode = zc_displacement_mode C, va_projection_epsilon = zc_projection_epsilon C,
     va_vocab_mode = zc_vocab_mode C, va_top_k = zc_top_k C\<rparr>"

section \<open>The baselines\<close>

record paper_config =
  pb_enabled :: bool
  pb_objective :: string
  pb_divergence :: string
  pb_jsd_alpha :: pyfloat
  pb_top_k :: int
  pb_add_tail_bucket :: bool
  pb_success_reward_threshold :: pyfloat
  pb_teacher_ema_decay :: pyfloat
  pb_temperature :: pyfloat
  pb_is_clip :: pyfloat
  pb_entropy_beta :: pyfloat
  pb_entropy_support :: string
  pb_sibling_selection :: string
  pb_teacher_max_token_len_per_gpu :: int
  pb_max_reprompt_len :: int
  pb_prompt_profile :: string

definition paper_guards :: "paper_config \<Rightarrow> string \<Rightarrow> (bool \<times> string) list" where
  "paper_guards B objective =
     [(objective \<notin> {''sdpo'', ''srpo''}, ''paper_baseline.objective must be sdpo or srpo''),
      (pb_divergence B \<noteq> ''jsd'', ''paper SDPO/SRPO baselines require JSD''),
      (list_ex (\<lambda>x. \<not> isfinite x) [pb_jsd_alpha B, pb_success_reward_threshold B, pb_teacher_ema_decay B,
         pb_temperature B, pb_is_clip B, pb_entropy_beta B], ''paper baseline floating-point values must be finite''),
      (\<not> in_unit_interval (pb_jsd_alpha B), ''paper_baseline.jsd_alpha must be in (0, 1)''),
      (\<not> in_unit_interval (pb_teacher_ema_decay B), ''paper_baseline.teacher_ema_decay must be in (0, 1)''),
      (pb_top_k B \<le> 0, ''paper_baseline.top_k must be positive''),
      (\<not> pb_add_tail_bucket B, ''paper SDPO/SRPO requires the top-K tail bucket''),
      (the_real (pb_temperature B) \<le> 0 \<or> the_real (pb_is_clip B) \<le> 0 \<or> the_real (pb_entropy_beta B) \<le> 0,
       ''paper baseline temperature, IS clip, and entropy beta must be positive''),
      (pb_entropy_support B \<noteq> ''full_vocab'', ''paper SRPO entropy must use the full Teacher vocabulary''),
      (pb_sibling_selection B \<noteq> ''first_correct'', ''paper baseline sibling_selection must be first_correct''),
      (pb_teacher_max_token_len_per_gpu B \<le> 0 \<or> pb_max_reprompt_len B \<le> 0,
       ''paper baseline Teacher token limits must be positive''),
      (pb_prompt_profile B \<notin> {''sdpo_official_v2'', ''srpo_v1''}, ''paper_baseline.prompt_profile is unsupported'')]"

definition paper_post_init :: "paper_config \<Rightarrow> paper_config res" where
  "paper_post_init B =
     (let objective = lower (strip (pb_objective B)) in
      rbind (first_error (paper_guards B objective)) (\<lambda>_. Inr (B\<lparr>pb_objective := objective\<rparr>)))"

section \<open>The actor\<close>

text \<open>\<open>MISSING\<close> is the string \<open>???\<close>; a missing rollout number is \<open>None\<close>. The fields the checks do
  not read are left out.\<close>

record actor_config =
  ac_strategy :: string
  ac_rollout_n :: "int option"
  ac_loss_mode :: string
  ac_verpo :: zpd_config
  ac_paper :: paper_config
  ac_loss_agg_mode :: string
  ac_use_kl_loss :: bool
  ac_kl_loss_coef :: pyfloat
  ac_use_dynamic_bsz :: bool
  ac_ppo_mini_batch_size :: int
  ac_ppo_micro_batch_size :: "int option"
  ac_ppo_micro_batch_size_per_gpu :: "int option"
  ac_sp_size :: int

definition paper_loss_modes :: "(string \<times> string) list" where
  "paper_loss_modes = [(''sdpo_jsd'', ''sdpo''), (''srpo_jsd'', ''srpo'')]"

definition valid_loss_agg_modes :: "string list" where
  "valid_loss_agg_modes = [''token-mean'', ''seq-mean-token-sum'', ''seq-mean-token-mean'', ''seq-mean-token-sum-norm'']"

definition objective_guards :: "actor_config \<Rightarrow> (bool \<times> string) list" where
  "objective_guards A =
     (let verpo = zc_enabled (ac_verpo A); paper = pb_enabled (ac_paper A);
          paper_mode = map_of paper_loss_modes (ac_loss_mode A) in
     [(ac_loss_mode A \<notin> {''ppo'', ''verpo_zpd'', ''sdpo_jsd'', ''srpo_jsd''},
       ''actor.loss_mode must be ppo, verpo_zpd, sdpo_jsd, or srpo_jsd''),
      ((ac_loss_mode A = ''verpo_zpd'') \<noteq> verpo,
       ''actor.loss_mode=verpo_zpd and actor.verpo.enabled=true must be set together''),
      ((paper_mode \<noteq> None) \<noteq> paper,
       ''actor.loss_mode=sdpo_jsd/srpo_jsd and actor.paper_baseline.enabled=true must be set together''),
      (paper \<and> Some (pb_objective (ac_paper A)) \<noteq> paper_mode,
       ''paper baseline objective does not match actor.loss_mode''),
      (paper \<and> verpo, ''paper SDPO/SRPO baselines cannot enable VERPO-ZPD''),
      (paper \<and> ac_loss_agg_mode A \<noteq> ''token-mean'', ''paper SDPO/SRPO baselines require token-mean aggregation''),
      (paper \<and> ac_use_kl_loss A, ''paper SDPO/SRPO baselines require actor.use_kl_loss=false''),
      (verpo \<and> ac_kl_loss_coef A \<noteq> Fin 0,
       ''VERPO-ZPD owns reference anchoring through actor.verpo.lambda_ref'')])"

definition micro_batch_checks :: "actor_config \<Rightarrow> unit res" where
  "micro_batch_checks A =
     (if ac_use_dynamic_bsz A then Inr ()
      else case (ac_ppo_micro_batch_size A, ac_ppo_micro_batch_size_per_gpu A) of
        (Some _, Some _) \<Rightarrow> Inl (ValueError ''[actor] You have set both micro batch sizes'')
      | (None, None) \<Rightarrow> Inl (AssertionError ''[actor] Please set at least one of the micro batch sizes'')
      | _ \<Rightarrow> Inr ())"

definition actor_post_init :: "actor_config \<Rightarrow> unit res" where
  "actor_post_init A =
     (if ac_strategy A = ''???'' \<or> ac_rollout_n A = None then Inl (AssertionError [])
      else rbind (first_error (objective_guards A)) (\<lambda>_.
        rbind (micro_batch_checks A) (\<lambda>_.
        if ac_loss_agg_mode A \<notin> set valid_loss_agg_modes then Inl (ValueError ''Invalid loss_agg_mode'') else Inr ())))"

text \<open>\<open>ActorConfig.validate\<close>; a class without \<open>ulysses_sequence_parallel_size\<close> has
  \<open>ac_sp_size = 1\<close>.\<close>

definition actor_validate :: "actor_config \<Rightarrow> int \<Rightarrow> int \<Rightarrow> unit res" where
  "actor_validate A n_gpus train_batch_size =
     (if ac_use_dynamic_bsz A then Inr ()
      else if train_batch_size < ac_ppo_mini_batch_size A
      then Inl (ValueError ''train_batch_size must be >= actor.ppo_mini_batch_size'')
      else case ac_ppo_micro_batch_size A of
        None \<Rightarrow> Inr ()
      | Some micro \<Rightarrow>
          if micro = 0 then Inl (ZeroDivisionError ''integer modulo by zero'')
          else if ac_ppo_mini_batch_size A mod micro \<noteq> 0
          then Inl (ValueError ''ppo_mini_batch_size must be divisible by ppo_micro_batch_size'')
          else if micro * ac_sp_size A < n_gpus
          then Inl (ValueError ''ppo_micro_batch_size * ulysses_sequence_parallel_size must be >= n_gpus'')
          else Inr ())"

text \<open>The reward-side KL of the algorithm section.\<close>

definition validate_verpo_reward_kl_disabled :: "actor_config \<Rightarrow> bool \<Rightarrow> pyfloat \<Rightarrow> unit res" where
  "validate_verpo_reward_kl_disabled A use_kl_in_reward reward_kl_coef =
     (if \<not> zc_enabled (ac_verpo A) then Inr ()
      else if use_kl_in_reward \<or> reward_kl_coef \<noteq> Fin 0
      then Inl (ValueError ''VERPO-ZPD owns reference anchoring through actor.verpo.lambda_ref'')
      else Inr ())"

end
