(* ===== verification/ConfigProps.thy ===== *)
theory ConfigProps
  imports VerpoConfig NativeProps
begin

text \<open>
  What the configuration checks of \<open>VerpoConfig\<close> guarantee: an accepted configuration is a fixed
  point of its own checks, no guard of the controller, the gates, the Teacher or the flat losses can
  fail on it, and the reference anchor has one owner.
\<close>

section \<open>Accepted configurations\<close>

lemma zpd_post_init_iff:
  "zpd_post_init C0 = Inr C \<longleftrightarrow>
     (\<exists>alpha epsilon. effective_cost C0 = Inr (alpha, epsilon) \<and> first_error (teacher_guards C0) = Inr ()
       \<and> first_error (mode_guards C0 alpha epsilon) = Inr () \<and> first_error (limit_guards C0) = Inr ()
       \<and> C = C0\<lparr>zc_teacher_mode := teacher_mode_of (zc_teacher_mode C0),
           zc_cost_alpha := Some alpha, zc_cost_epsilon := Some epsilon\<rparr>)"
  by (auto simp: zpd_post_init_def split: prod.splits)

lemma teacher_mode_idem:
  "teacher_mode_of s \<in> {''fixed_initial'', ''snapshot'', ''ema''}
    \<Longrightarrow> teacher_mode_of (teacher_mode_of s) = teacher_mode_of s \<and> lower (strip (teacher_mode_of s)) = teacher_mode_of s"
proof -
  have "lower (strip m) = m \<and> teacher_mode_of m = m" if "m \<in> {''fixed_initial'', ''snapshot'', ''ema''}" for m
  proof -
    have "lower (strip ''fixed_initial'') = ''fixed_initial''" "lower (strip ''snapshot'') = ''snapshot''"
      "lower (strip ''ema'') = ''ema''" by code_simp+
    then show ?thesis using that by (auto simp: teacher_mode_of_def)
  qed
  then show "teacher_mode_of s \<in> {''fixed_initial'', ''snapshot'', ''ema''} \<Longrightarrow> ?thesis" by blast
qed

text \<open>The facts the rest of the program reads off an accepted configuration.\<close>

lemma accepted_facts:
  assumes "zpd_post_init C0 = Inr C"
  shows "zc_teacher_mode C \<in> {''fixed_initial'', ''snapshot'', ''ema''}" "lower (strip (zc_teacher_mode C)) = zc_teacher_mode C"
    "0 < zc_teacher_sync_interval C" "in_unit_interval (zc_teacher_ema_decay C)"
    "list_all isfinite [zc_lambda_ref C, zc_lambda_evi C, zc_tau C, zc_rho C, zc_cost_floor C, zc_cost_beta C, zc_temperature C,
       zc_group_zpd_epsilon C, zc_projection_epsilon C]"
    "0 < the_real (zc_tau C)" "0 < the_real (zc_temperature C)" "0 \<le> the_real (zc_group_zpd_epsilon C)"
    "0 < the_real (zc_projection_epsilon C)" "0 < zc_vocab_chunk_size C" "0 < zc_top_k C"
    "zc_vocab_mode C \<in> {''full'', ''topk_truncated''}" "zc_divergence C \<in> {''forward_kl'', ''reverse_kl''}"
    "zc_displacement_mode C \<in> {''evidence_vs_none'', ''correct_vs_incorrect'', ''reward_ranked'', ''fec''}"
    "zc_group_zpd_mode C \<in> {''binary_mixed'', ''reward_ranked''}" "zc_evidence_rollout_scope C \<in> {''all'', ''wrong_only''}"
    "zc_sibling_selection_mode C \<in> {''correctness'', ''reward_ranked''}" "0 < zc_contrastive_num_negative_hints C"
    "reward_ranked_siblings C \<Longrightarrow> zc_sibling_selection_mode C = ''reward_ranked''"
    "\<exists>alpha epsilon. zc_cost_alpha C = Some (Fin alpha) \<and> zc_cost_epsilon C = Some (Fin epsilon) \<and> 0 \<le> alpha \<and> 0 < epsilon"
proof -
  obtain alpha epsilon where run: "effective_cost C0 = Inr (alpha, epsilon)" "first_error (teacher_guards C0) = Inr ()"
    "first_error (mode_guards C0 alpha epsilon) = Inr ()" "first_error (limit_guards C0) = Inr ()"
    and C: "C = C0\<lparr>zc_teacher_mode := teacher_mode_of (zc_teacher_mode C0),
        zc_cost_alpha := Some alpha, zc_cost_epsilon := Some epsilon\<rparr>"
    using assms unfolding zpd_post_init_iff by blast
  note T = run(2) [unfolded first_error_Inr teacher_guards_def, simplified]
  note M = run(3) [unfolded first_error_Inr mode_guards_def, simplified]
  note L = run(4) [unfolded first_error_Inr limit_guards_def, simplified]
  have "teacher_mode_of (zc_teacher_mode C0) \<in> {''fixed_initial'', ''snapshot'', ''ema''}" using T by simp
  then show "zc_teacher_mode C \<in> {''fixed_initial'', ''snapshot'', ''ema''}" "lower (strip (zc_teacher_mode C)) = zc_teacher_mode C"
    using teacher_mode_idem by (simp_all add: C del: insert_iff)
  show "0 < zc_teacher_sync_interval C" "in_unit_interval (zc_teacher_ema_decay C)" using T by (simp_all add: C)
  show "list_all isfinite [zc_lambda_ref C, zc_lambda_evi C, zc_tau C, zc_rho C, zc_cost_floor C, zc_cost_beta C, zc_temperature C,
       zc_group_zpd_epsilon C, zc_projection_epsilon C]" using M L by (simp add: C)
  show "0 < the_real (zc_tau C)" "0 < the_real (zc_temperature C)" "0 < the_real (zc_projection_epsilon C)"
    "0 < zc_vocab_chunk_size C" "0 < zc_top_k C" "zc_vocab_mode C \<in> {''full'', ''topk_truncated''}"
    using L by (simp_all add: C not_le)
  show "0 \<le> the_real (zc_group_zpd_epsilon C)" "zc_divergence C \<in> {''forward_kl'', ''reverse_kl''}"
    "zc_displacement_mode C \<in> {''evidence_vs_none'', ''correct_vs_incorrect'', ''reward_ranked'', ''fec''}"
    "zc_group_zpd_mode C \<in> {''binary_mixed'', ''reward_ranked''}" "zc_evidence_rollout_scope C \<in> {''all'', ''wrong_only''}"
    "zc_sibling_selection_mode C \<in> {''correctness'', ''reward_ranked''}" "0 < zc_contrastive_num_negative_hints C"
    using M by (simp_all add: C not_less)
  show "reward_ranked_siblings C \<Longrightarrow> zc_sibling_selection_mode C = ''reward_ranked''"
    using M by (simp add: C reward_ranked_siblings_def)
  show "\<exists>alpha epsilon. zc_cost_alpha C = Some (Fin alpha) \<and> zc_cost_epsilon C = Some (Fin epsilon) \<and> 0 \<le> alpha \<and> 0 < epsilon"
  proof -
    have "isfinite alpha" "isfinite epsilon" "\<not> the_real alpha < 0" "0 < the_real epsilon" using M by simp_all
    then show ?thesis by (auto simp: C isfinite_iff)
  qed
qed

lemma zpd_post_init_idem:
  assumes run: "zpd_post_init C0 = Inr C"
  shows "zpd_post_init C = Inr C"
proof -
  obtain alpha epsilon where R: "effective_cost C0 = Inr (alpha, epsilon)" "first_error (teacher_guards C0) = Inr ()"
    "first_error (mode_guards C0 alpha epsilon) = Inr ()" "first_error (limit_guards C0) = Inr ()"
    and C: "C = C0\<lparr>zc_teacher_mode := teacher_mode_of (zc_teacher_mode C0),
        zc_cost_alpha := Some alpha, zc_cost_epsilon := Some epsilon\<rparr>"
    using run unfolding zpd_post_init_iff by blast
  have "teacher_mode_of (zc_teacher_mode C) = zc_teacher_mode C"
    using accepted_facts(1,2) [OF run] by (auto simp: teacher_mode_of_def)
  moreover have "first_error (teacher_guards C) = Inr ()"
    using accepted_facts(1,3,4) [OF run] calculation by (simp add: teacher_guards_def not_le)
  moreover have "mode_guards C = mode_guards C0" "limit_guards C = limit_guards C0" "effective_cost C = Inr (alpha, epsilon)"
    by (simp_all add: C mode_guards_def limit_guards_def reward_ranked_siblings_def effective_cost_def fun_eq_iff)
  ultimately show ?thesis unfolding zpd_post_init_iff using R by (simp add: C)
qed

lemma accepted_args:
  assumes run: "zpd_post_init C0 = Inr C"
  shows "\<exists>ca ce. args_ok (controller_args C) (the_real (zc_temperature C)) (the_real (zc_projection_epsilon C)) ca ce"
proof -
  note A = accepted_facts [OF run]
  obtain alpha epsilon where c: "zc_cost_alpha C = Some (Fin alpha)" "zc_cost_epsilon C = Some (Fin epsilon)" "0 \<le> alpha" "0 < epsilon"
    using A(20) by blast
  have "args_ok (controller_args C) (the_real (zc_temperature C)) (the_real (zc_projection_epsilon C)) alpha epsilon"
    using A(5-10,13) c
    by (auto simp: args_ok_def validate_verpo_controller_def resolve_cost_parameters_def controller_args_def isfinite_iff not_le)
  then show ?thesis by blast
qed

text \<open>With clamped benefits no weight divides by zero.\<close>

lemma flat_weights_total:
  assumes "\<forall>s \<in> set stats. 0 \<le> fs_fisher_cost s" "0 \<le> ca" "0 < ce" "\<not> va_allow_negative_benefit P"
  shows "\<exists>w. flat_weights P ca ce active stats = Inr w"
proof -
  have "token_weight a ca ce False (fs_benefit s) (fs_fisher_cost s) \<noteq> None" if s: "s \<in> set stats" for a s
  proof -
    have "0 \<le> ca * fs_fisher_cost s" using assms(1,2) s by simp
    moreover have "0 \<le> clamp_min 0 (fs_benefit s)" by (simp add: clamp_min_def)
    ultimately have "clamp_min 0 (fs_benefit s) + (ca * fs_fisher_cost s + ce) \<noteq> 0" using assms(3) by linarith
    then show ?thesis by (simp add: token_weight_def Let_def)
  qed
  then have "None \<notin> set (map2 (\<lambda>a s. token_weight a ca ce False (fs_benefit s) (fs_fisher_cost s)) active stats)"
    by (auto dest!: set_zip_rightD simp: eq_commute [of None]) (metis option.distinct(1))
  then show ?thesis using assms(4) by (simp add: flat_weights_def Let_def)
qed

section \<open>The configuration and the step\<close>

text \<open>C10: the checks that read an accepted configuration again agree with it. The checks of
  \<open>VerpoZPDConfig\<close> leave an accepted configuration unchanged when they run again; with clamped
  benefits the flat losses accept its controller values and return a result on every call that has
  logits of one shape, sampled IDs inside the vocabulary, per-token inputs of matching lengths and,
  where the displacement mode needs them, negative logits, whatever the vocabulary mode, divergence
  and displacement mode; a moving Teacher is initialised in the configured mode on every actor with
  a trainable parameter; and the group gate and the rollout scope return a result on inputs of
  matching lengths. Nothing is claimed of the selection of sibling evidence, which refuses the
  reward-ranked protocol.\<close>

theorem accepted_config_runs:
  assumes accepted: "zpd_post_init C0 = Inr C" and topk: "topk_select topk"
  shows "zpd_post_init C = Inr C
    \<and> (\<forall>K. call_ok (zc_displacement_mode C) K \<and> \<not> zc_allow_negative_benefit C
        \<longrightarrow> (\<exists>R. compute_flat_verpo_losses topk (controller_args C) (batch_of K) = Inr R))
    \<and> (\<forall>A. zc_teacher_mode C \<noteq> ''fixed_initial'' \<and> clone_trainable_parameters A \<noteq> []
        \<longrightarrow> (\<exists>S. init_teacher A (zc_teacher_mode C) (zc_teacher_sync_interval C) (zc_teacher_ema_decay C) = Inr S
              \<and> te_mode S = zc_teacher_mode C))
    \<and> (\<forall>rewards uids positive. length uids = length rewards \<and> length positive = length rewards
        \<longrightarrow> (\<exists>gate scoped. compute_group_zpd_gate_by_uid rewards uids (zc_group_zpd_mode C) 1 (the_real (zc_group_zpd_epsilon C))
                = Inr gate
              \<and> apply_evidence_rollout_scope gate positive (zc_evidence_rollout_scope C) = Inr scoped))"
proof -
  note A = accepted_facts [OF accepted]
  let ?P = "controller_args C"
  obtain ca ce where args: "args_ok ?P (the_real (zc_temperature C)) (the_real (zc_projection_epsilon C)) ca ce"
    using accepted_args [OF accepted] by blast
  have losses: "\<exists>R. compute_flat_verpo_losses topk ?P (batch_of K) = Inr R"
    if K: "call_ok (zc_displacement_mode C) K" and clamped: "\<not> zc_allow_negative_benefit C" for K
  proof -
    have ok: "call_ok (va_displacement_mode ?P) K" using K by (simp add: controller_args_def)
    obtain full where full: "native_use_full_vocab (va_vocab_mode ?P) (va_top_k ?P) (lg_v (vc_student K)) = Inr full"
      using A(11,12) by (auto simp: native_use_full_vocab_def native_validate_vocab_def controller_args_def)
    let ?stats = "map (call_stats topk full ?P (the_real (zc_temperature C)) (the_real (zc_projection_epsilon C)) K) [0..<rows_of_call K]"
    have "\<forall>s \<in> set ?stats. 0 \<le> fs_fisher_cost s" using call_stats_cost_nonneg [OF topk ok args] by auto
    moreover have "\<not> va_allow_negative_benefit ?P" using clamped by (simp add: controller_args_def)
    ultimately obtain w where "flat_weights ?P ca ce (vc_active K) ?stats = Inr w"
      using flat_weights_total args_costs [OF args] by blast
    then show ?thesis using native_dispatch [OF topk ok args full] by (auto simp: meets_def Let_def)
  qed
  have teacher: "\<exists>S. init_teacher A (zc_teacher_mode C) (zc_teacher_sync_interval C) (zc_teacher_ema_decay C) = Inr S
      \<and> te_mode S = zc_teacher_mode C"
    if "zc_teacher_mode C \<noteq> ''fixed_initial''" "clone_trainable_parameters A \<noteq> []" for A
    using that A(1-4) by (auto simp: init_teacher_def in_unit_interval_def Let_def)
  have gates: "\<exists>gate scoped. compute_group_zpd_gate_by_uid rewards uids (zc_group_zpd_mode C) 1 (the_real (zc_group_zpd_epsilon C))
        = Inr gate \<and> apply_evidence_rollout_scope gate positive (zc_evidence_rollout_scope C) = Inr scoped"
    if "length uids = length rewards" "length positive = length rewards" for rewards uids and positive :: "bool list"
    using that A(8,15,16) by (auto simp: compute_group_zpd_gate_by_uid_def classify_reward_ranked_groups_def
        apply_evidence_rollout_scope_def Let_def not_less)
  show ?thesis using zpd_post_init_idem [OF accepted] losses teacher gates by blast
qed

definition ema_fec_config :: zpd_config where
  "ema_fec_config = default_zpd_config\<lparr>zc_enabled := True, zc_teacher_mode := '' EMA'', zc_displacement_mode := ''fec'',
     zc_divergence := ''reverse_kl'', zc_group_zpd_enabled := True\<rparr>"

lemma ema_fec_accepted: "\<exists>C. zpd_post_init ema_fec_config = Inr C \<and> zc_displacement_mode C = ''fec''
    \<and> \<not> zc_allow_negative_benefit C \<and> zc_teacher_mode C = ''ema''"
proof -
  have m: "teacher_mode_of '' EMA'' = ''ema''" by code_simp
  show ?thesis
    by (simp add: zpd_post_init_iff ema_fec_config_def default_zpd_config_def m teacher_guards_def effective_cost_def
        mode_guards_def limit_guards_def in_unit_interval_def reward_ranked_siblings_def)
qed

theorem accepted_config_runs_witness:
  "\<exists>C. zpd_post_init ema_fec_config = Inr C
    \<and> (\<exists>R. compute_flat_verpo_losses topk_by_sort (controller_args C) (batch_of unit_call) = Inr R)"
proof -
  obtain C where C: "zpd_post_init ema_fec_config = Inr C" "zc_displacement_mode C = ''fec''" "\<not> zc_allow_negative_benefit C"
    using ema_fec_accepted by blast
  have "call_ok (zc_displacement_mode C) unit_call" using unit_call_ok(1) C(2) by (simp add: unit_args_def)
  then show ?thesis using accepted_config_runs [OF C(1) topk_sort_ok] C by blast
qed

section \<open>The actor\<close>

text \<open>An accepted actor that runs VERPO has one reference anchor, the one VERPO weighs by
  \<open>lambda_ref\<close>: neither the actor nor, after the check of the algorithm section, the reward carries
  another Kullback-Leibler term, no baseline is enabled, and the aggregation mode is known.\<close>

theorem verpo_owns_anchor:
  assumes actor: "actor_post_init A = Inr ()" and reward: "validate_verpo_reward_kl_disabled A use_kl_in_reward coef = Inr ()"
    and on: "zc_enabled (ac_verpo A)"
  shows "ac_loss_mode A = ''verpo_zpd'' \<and> ac_kl_loss_coef A = Fin 0 \<and> \<not> use_kl_in_reward \<and> coef = Fin 0
    \<and> \<not> pb_enabled (ac_paper A) \<and> ac_loss_agg_mode A \<in> set valid_loss_agg_modes"
proof -
  have G: "list_all (\<lambda>(bad, message). \<not> bad) (objective_guards A)" "ac_loss_agg_mode A \<in> set valid_loss_agg_modes"
    using actor by (auto simp: actor_post_init_def split: if_splits)
  have "ac_loss_mode A = ''verpo_zpd''" "ac_kl_loss_coef A = Fin 0" "\<not> pb_enabled (ac_paper A)"
    using G(1) on by (auto simp: objective_guards_def Let_def)
  then show ?thesis using reward on G(2) by (auto simp: validate_verpo_reward_kl_disabled_def split: if_splits)
qed

end
