(* ===== verification/Routing.thy ===== *)
theory Routing
  imports BatchLoss VerpoConfig TeacherFields
begin

text \<open>
  The trainer's side of a VERPO step (\<open>verl/trainer/ppo/v1/trainer_base.py\<close>): outcomes without
  shaped rewards, the choice of reward-variable groups, and
  \<open>_prepare_verpo_teacher_inputs\<close>, which turns a batch of sampled rollouts into the gates, the
  Teacher prompts, the global counts and the metrics of the step. The queue that stores the batch, the
  audit file and the statistics file are input and output around it.
\<close>

section \<open>Outcomes\<close>

text \<open>A row of \<open>extra_fields\<close>: a dictionary with its entry \<open>reward_extra_info\<close>, if it has one, or
  another object.\<close>

datatype extra_field = NotADict | ExtraDict "(string \<times> pyfloat) list option"

fun reward_info :: "extra_field \<Rightarrow> (string \<times> pyfloat) list" where
  "reward_info (ExtraDict (Some info)) = info"
| "reward_info _ = []"

fun positive_value :: "pyfloat \<Rightarrow> bool" where
  "positive_value (Fin x) \<longleftrightarrow> 1 - 1 / 10 ^ 6 \<le> x"
| "positive_value PosInf \<longleftrightarrow> True"
| "positive_value _ \<longleftrightarrow> False"

definition outcome_row :: "bool \<Rightarrow> extra_field \<Rightarrow> real \<Rightarrow> bool res" where
  "outcome_row require_independent_acc extra_field reward =
     (case map_of (reward_info extra_field) ''acc'' of
        Some acc \<Rightarrow> Inr (positive_value acc)
      | None \<Rightarrow>
          if require_independent_acc
          then Inl (ValueError ''Correctness-dependent VERPO routing requires reward_extra_info.acc for rollout'')
          else Inr (positive_value (Fin reward)))"

definition resolve_verpo_outcome_positive :: "real list \<Rightarrow> extra_field list option \<Rightarrow> bool \<Rightarrow> bool list res" where
  "resolve_verpo_outcome_positive rewards extra_fields require_independent_acc =
     (case extra_fields of
        None \<Rightarrow>
          if require_independent_acc
          then Inl (ValueError ''Correctness-dependent VERPO routing requires reward_extra_info.acc in extra_fields'')
          else Inr (map (\<lambda>r. 1 - 1 / 10 ^ 6 \<le> r) rewards)
      | Some rows \<Rightarrow>
          if length rows \<noteq> length rewards
          then Inl (ValueError ''VERPO extra_fields must contain one entry per rollout'')
          else rmap (\<lambda>(extra_field, reward). outcome_row require_independent_acc extra_field reward) (zip rows rewards))"

section \<open>Reward-variable groups\<close>

definition group_uid :: "string \<Rightarrow> string" where
  "group_uid key = hd (split_underscore key)"

definition reward_groups :: "string list \<Rightarrow> pyfloat list \<Rightarrow> (string \<times> (string \<times> pyfloat) list) list" where
  "reward_groups keys sequence_rewards =
     foldl (\<lambda>grouped (key, reward). setdefault_append (group_uid key) (key, reward) grouped) [] (zip keys sequence_rewards)"

definition variable_group :: "int option \<Rightarrow> real \<Rightarrow> (string \<times> pyfloat) list \<Rightarrow> bool" where
  "variable_group expected_group_size min_reward_range rows =
     (let rewards = map snd rows; values_of = map the_real rewards in
      (case expected_group_size of None \<Rightarrow> True | Some n \<Rightarrow> int (length rows) = n)
      \<and> list_all isfinite rewards
      \<and> min_reward_range < foldr max (tl values_of) (hd values_of) - foldr min (tl values_of) (hd values_of))"

record group_counts =
  gc_generated_groups :: nat
  gc_accepted_groups :: nat
  gc_constant_groups :: nat
  gc_excess_variable_groups :: nat

definition select_reward_variable_groups ::
  "string list \<Rightarrow> pyfloat list \<Rightarrow> real \<Rightarrow> int \<Rightarrow> int option \<Rightarrow> (string list \<times> string list \<times> group_counts) res" where
  "select_reward_variable_groups keys sequence_rewards min_reward_range max_groups expected_group_size =
     (if length keys \<noteq> length sequence_rewards
      then Inl (ValueError ''keys and sequence_rewards must have the same length'')
      else if min_reward_range < 0 then Inl (ValueError ''min_reward_range must be non-negative'')
      else if max_groups \<le> 0 then Inl (ValueError ''max_groups must be positive'')
      else if case expected_group_size of None \<Rightarrow> False | Some n \<Rightarrow> n \<le> 0
      then Inl (ValueError ''expected_group_size must be positive when provided'')
      else let
        grouped = reward_groups keys sequence_rewards;
        accepts = (\<lambda>(uid, rows). variable_group expected_group_size min_reward_range rows);
        accepted_uids = map fst (filter accepts grouped);
        constant_uids = map fst (filter (\<lambda>g. \<not> accepts g) grouped);
        selected_uids = take (nat max_groups) accepted_uids
      in Inr (filter (\<lambda>key. group_uid key \<in> set selected_uids) keys,
           filter (\<lambda>key. group_uid key \<notin> set selected_uids) keys,
           \<lparr>gc_generated_groups = length grouped, gc_accepted_groups = length selected_uids,
             gc_constant_groups = length constant_uids,
             gc_excess_variable_groups = length accepted_uids - length selected_uids\<rparr>))"

section \<open>Routing of a batch\<close>

text \<open>The rows of a batch in the queue, and the rollout section of the configuration.\<close>

record rollout_batch =
  rb_keys :: "string list"
  rb_nested :: bool
  rb_responses :: "int list list"
  rb_response_mask :: "bool list list"
  rb_rm_scores :: "vec list"
  rb_raw_prompt :: "raw_prompt list"
  rb_reward_model :: "reward_model list"
  rb_extra_fields :: "extra_field list option"

record rollout_settings =
  ro_temperature :: pyfloat
  ro_thinking_system_prompt :: bool
  ro_teacher_chat_template_kwargs :: tmpl_kwargs
  ro_teacher_enable_thinking :: "bool option"

text \<open>\<open>abs(a - b) > 1e-8\<close>; every comparison with NaN is false.\<close>

fun temperature_differs :: "pyfloat \<Rightarrow> pyfloat \<Rightarrow> bool" where
  "temperature_differs (Fin a) (Fin b) \<longleftrightarrow> 1 / 10 ^ 8 < \<bar>a - b\<bar>"
| "temperature_differs NaN b \<longleftrightarrow> False"
| "temperature_differs a NaN \<longleftrightarrow> False"
| "temperature_differs a b \<longleftrightarrow> a \<noteq> b"

definition prompt_uid :: "string \<Rightarrow> string res" where
  "prompt_uid key =
     (let parts = rsplit2 key in
      if length parts \<noteq> 3 then Inl (ValueError ''Unexpected rollout key format for VERPO grouping'')
      else Inr (hd parts))"

definition teacher_kwargs :: "rollout_settings \<Rightarrow> tmpl_kwargs" where
  "teacher_kwargs RS =
     (case (ro_teacher_enable_thinking RS, tk_enable_thinking (ro_teacher_chat_template_kwargs RS)) of
        (Some b, None) \<Rightarrow> (ro_teacher_chat_template_kwargs RS)\<lparr>tk_enable_thinking := Some b\<rparr>
      | _ \<Rightarrow> ro_teacher_chat_template_kwargs RS)"

definition requires_acc :: "zpd_config \<Rightarrow> bool" where
  "requires_acc C \<longleftrightarrow>
     (zc_group_zpd_enabled C \<and> zc_group_zpd_mode C = ''binary_mixed'')
     \<or> zc_sibling_selection_mode C = ''correctness'' \<or> zc_evidence_rollout_scope C = ''wrong_only''"

definition raw_group_gate :: "zpd_config \<Rightarrow> real list \<Rightarrow> bool list \<Rightarrow> string list \<Rightarrow> bool list res" where
  "raw_group_gate C rewards outcome_positive uids =
     (if zc_group_zpd_enabled C
      then compute_group_zpd_gate_by_uid
             (if zc_group_zpd_mode C = ''binary_mixed'' then map of_bool outcome_positive else rewards)
             uids (zc_group_zpd_mode C) 1 (the_real (zc_group_zpd_epsilon C))
      else Inr (map (\<lambda>_. True) rewards))"

definition evidence_args :: "zpd_config \<Rightarrow> rollout_settings \<Rightarrow> contrastive_args" where
  "evidence_args C RS =
     \<lparr>ca_total_token_budget = zc_teacher_max_token_len_per_gpu C, ca_max_reprompt_tokens = zc_teacher_max_reprompt_len C,
      ca_num_negative_hints = zc_contrastive_num_negative_hints C,
      ca_require_negative = (zc_displacement_mode C \<noteq> ''evidence_vs_none''),
      ca_selection_mode = zc_sibling_selection_mode C, ca_kwargs = Some (teacher_kwargs RS), ca_enable_thinking = None,
      ca_allow_unboxed = zc_smoke_allow_unboxed_contrastive C\<rparr>"

definition batch_routing_counts :: "bool list list \<Rightarrow> bool list \<Rightarrow> bool list \<Rightarrow> routing_counts" where
  "batch_routing_counts response_mask gate positive =
     (let counts = map (\<lambda>m. int (length (filter id m))) response_mask;
          tokens = (\<lambda>flags. sum_list (map2 (\<lambda>c b. c * of_bool b) counts flags))
      in \<lparr>rc_tokens = tokens gate, rc_rows = sum_list (map2 (\<lambda>g c. of_bool (g \<and> 0 < c)) gate counts),
          rc_correct_tokens = tokens (map2 (\<and>) gate positive),
          rc_wrong_tokens = tokens (map2 (\<lambda>g p. g \<and> \<not> p) gate positive)\<rparr>)"

text \<open>The fields the step writes back to the queue, with the classification of the groups.\<close>

record routing =
  rt_uids :: "string list"
  rt_rewards :: "real list"
  rt_outcome_positive :: "bool list"
  rt_group_state :: "row_state list"
  rt_fields :: contrastive_fields
  rt_group_gate :: "bool list"
  rt_available_gate :: "bool list"
  rt_evidence_gate :: "bool list"
  rt_counts :: routing_counts

definition rt_available :: "routing \<Rightarrow> bool list" where
  "rt_available R = es_available (cf_selection (rt_fields R))"

definition route_batch ::
  "tokenizer \<Rightarrow> (string \<Rightarrow> string) \<Rightarrow> (nat \<Rightarrow> string) \<Rightarrow> zpd_config \<Rightarrow> rollout_settings \<Rightarrow> rollout_batch \<Rightarrow> routing res" where
  "route_batch tz split_sdpg str_nat C RS B =
     (if zc_evidence_source C \<noteq> ''rollout_group''
      then Inl (ValueError ''public VERPO requires evidence_source=rollout_group'')
      else if ro_thinking_system_prompt RS
      then Inl (ValueError ''The VERPO_CONTRASTIVE protocol requires thinking_system_prompt=false'')
      else if temperature_differs (ro_temperature RS) (zc_temperature C)
      then Inl (ValueError ''VERPO requires rollout.temperature == actor.verpo.temperature'')
      else let rewards = map sum_list (rb_rm_scores B) in
      rbind (rmap prompt_uid (rb_keys B)) (\<lambda>uids.
      rbind (classify_reward_ranked_groups rewards (Some uids) None 0) (\<lambda>group_state.
      rbind (resolve_verpo_outcome_positive rewards (rb_extra_fields B) (requires_acc C)) (\<lambda>outcome_positive.
      rbind (raw_group_gate C rewards outcome_positive uids) (\<lambda>group_gate.
      rbind (build_contrastive_evidence_teacher_fields tz split_sdpg str_nat (evidence_args C RS) (rb_nested B)
          (rb_responses B) (rb_raw_prompt B) rewards (Some outcome_positive) uids (Some (rb_reward_model B))
          (Some (rb_keys B))) (\<lambda>fields.
      let available_gate = map2 (\<and>) group_gate (es_available (cf_selection fields)) in
      rbind (apply_evidence_rollout_scope available_gate outcome_positive (zc_evidence_rollout_scope C)) (\<lambda>evidence_gate.
        Inr \<lparr>rt_uids = uids, rt_rewards = rewards, rt_outcome_positive = outcome_positive, rt_group_state = group_state,
          rt_fields = fields, rt_group_gate = group_gate, rt_available_gate = available_gate,
          rt_evidence_gate = evidence_gate,
          rt_counts = batch_routing_counts (rb_response_mask B) evidence_gate outcome_positive\<rparr>)))))))"

section \<open>The metrics\<close>

definition rate :: "bool list \<Rightarrow> real" where
  "rate flags = mean_of (map of_bool flags)"

definition group_fraction :: "string list \<Rightarrow> bool list \<Rightarrow> real" where
  "group_fraction uids active =
     (let groups = length (remdups uids); tagged = remdups (map fst (filter snd (zip uids active)))
      in if groups = 0 then 0 else real (length tagged) / real groups)"

definition grouped_outcomes :: "string list \<Rightarrow> bool list \<Rightarrow> (string \<times> bool list) list" where
  "grouped_outcomes uids positive =
     foldl (\<lambda>grouped (uid, p). setdefault_append uid p grouped) [] (zip uids positive)"

definition mixed_metrics :: "string list \<Rightarrow> bool list \<Rightarrow> (string \<times> real) list" where
  "mixed_metrics uids positive =
     (let groups = map snd (grouped_outcomes uids positive);
          group_count = int (length (remdups uids));
          all_positive_groups = int (length (filter (list_all id) groups));
          all_negative_groups = int (length (filter (\<lambda>values_of. \<not> list_ex id values_of) groups));
          mixed_groups = group_count - all_positive_groups - all_negative_groups;
          fraction = (\<lambda>k. if group_count = 0 then 0 else real_of_int k / real_of_int group_count)
      in [(''verpo/group_all_positive_fraction'', fraction all_positive_groups),
          (''verpo/group_all_negative_fraction'', fraction all_negative_groups),
          (''verpo/group_mixed_fraction'', fraction mixed_groups)])"

text \<open>The rewards of the selected siblings, over the rows with a positive and a first negative one.\<close>

definition sibling_metrics :: "real list \<Rightarrow> evidence_selection \<Rightarrow> (string \<times> real) list" where
  "sibling_metrics rewards E =
     (let negative_indices = map hd (es_negative E);
          valid_rows = filter (\<lambda>t. es_available E ! t \<and> 0 \<le> es_positive E ! t \<and> 0 \<le> negative_indices ! t)
            [0..<length (es_positive E)];
          preferred = map (\<lambda>t. rewards ! nat (es_positive E ! t)) valid_rows;
          dispreferred = map (\<lambda>t. rewards ! nat (negative_indices ! t)) valid_rows
      in if valid_rows = [] then []
         else [(''verpo/preferred_reward_mean'', mean_of preferred),
               (''verpo/dispreferred_reward_mean'', mean_of dispreferred),
               (''verpo/selected_reward_gap_mean'', mean_of (vsub preferred dispreferred))])"

text \<open>The minimum of an empty batch raises.\<close>

definition routing_metrics :: "zpd_config \<Rightarrow> routing \<Rightarrow> (string \<times> real) list res" where
  "routing_metrics C R =
     (if rt_rewards R = [] then Inl (RuntimeError ''min(): Expected reduction dim to be specified'')
      else let rewards = rt_rewards R; fraction = group_fraction (rt_uids R);
        groups = rt_group_state R; prompts = cf_metrics (rt_fields R);
        group_rate = rate (rt_group_gate R); evidence_rate = rate (rt_evidence_gate R);
        available_rate = rate (rt_available R)
      in Inr ([(''verpo/group_gate_rate'', group_rate),
         (''verpo/available_group_gate_rate'', rate (rt_available_gate R)),
         (''verpo/evidence_rollout_gate_rate'', evidence_rate),
         (''verpo/contrastive_available_rate'', available_rate),
         (''verpo/policy_reward_mean'', mean_of rewards),
         (''verpo/policy_reward_min'', foldr min (tl rewards) (hd rewards)),
         (''verpo/policy_reward_max'', foldr max (tl rewards) (hd rewards)),
         (''verpo/accuracy_mean'', rate (rt_outcome_positive R))]
       @ sibling_metrics rewards (cf_selection (rt_fields R))
       @ [(''verpo/group_all_one_fraction'', fraction (map rs_all_one groups)),
         (''verpo/group_all_zero_fraction'', fraction (map rs_all_zero groups)),
         (''verpo/group_all_negative_one_fraction'', fraction (map rs_all_negative_one groups)),
         (''verpo/group_zero_variance_fraction'', fraction (map rs_zero_variance groups)),
         (''verpo/group_reward_ranked_zpd_fraction'', fraction (map rs_zpd_gate groups))]
       @ mixed_metrics (rt_uids R) (rt_outcome_positive R)
       @ [(''verpo_zpd/group_gate_fraction'', group_rate),
         (''verpo_zpd/evidence_rollout_gate_fraction'', evidence_rate),
         (''verpo_zpd/contrastive_available_fraction'', available_rate),
         (''verpo/teacher_prompt_truncated_rate'', rate (pm_truncated prompts)),
         (''verpo/teacher_prompt_truncated_tokens_mean'', mean_of (map real_of_int (pm_truncated_tokens prompts))),
         (''verpo/group_zpd_enabled'', of_bool (zc_group_zpd_enabled C))]))"

definition prepare_verpo_teacher_inputs ::
  "tokenizer \<Rightarrow> (string \<Rightarrow> string) \<Rightarrow> (nat \<Rightarrow> string) \<Rightarrow> zpd_config \<Rightarrow> rollout_settings \<Rightarrow> rollout_batch
    \<Rightarrow> (routing \<times> (string \<times> real) list) res" where
  "prepare_verpo_teacher_inputs tz split_sdpg str_nat C RS B =
     rbind (route_batch tz split_sdpg str_nat C RS B) (\<lambda>R.
     rbind (routing_metrics C R) (\<lambda>new_metrics. Inr (R, new_metrics)))"

end
