(* ===== verification/RoutingProps.thy ===== *)
theory RoutingProps
  imports Routing ConfigProps ProtocolProps ControlProps BatchProps
begin

text \<open>
  Properties of the trainer's routing: which rollouts receive evidence, that its global token counts
  are those the workers reduce, the configurations it refuses, and the choice of reward-variable
  groups.
\<close>

section \<open>A successful run\<close>

lemma prepare_runs:
  assumes run: "prepare_verpo_teacher_inputs tz split_sdpg str_nat C RS B = Inr (R, new_metrics)"
  shows "rmap prompt_uid (rb_keys B) = Inr (rt_uids R)" "rt_rewards R = map sum_list (rb_rm_scores B)"
    "classify_reward_ranked_groups (rt_rewards R) (Some (rt_uids R)) None 0 = Inr (rt_group_state R)"
    "resolve_verpo_outcome_positive (rt_rewards R) (rb_extra_fields B) (requires_acc C) = Inr (rt_outcome_positive R)"
    "raw_group_gate C (rt_rewards R) (rt_outcome_positive R) (rt_uids R) = Inr (rt_group_gate R)"
    "build_contrastive_evidence_teacher_fields tz split_sdpg str_nat (evidence_args C RS) (rb_nested B) (rb_responses B)
      (rb_raw_prompt B) (rt_rewards R) (Some (rt_outcome_positive R)) (rt_uids R) (Some (rb_reward_model B))
      (Some (rb_keys B)) = Inr (rt_fields R)"
    "rt_available_gate R = map2 (\<and>) (rt_group_gate R) (rt_available R)"
    "apply_evidence_rollout_scope (rt_available_gate R) (rt_outcome_positive R) (zc_evidence_rollout_scope C) = Inr (rt_evidence_gate R)"
    "rt_counts R = batch_routing_counts (rb_response_mask B) (rt_evidence_gate R) (rt_outcome_positive R)"
proof -
  have "route_batch tz split_sdpg str_nat C RS B = Inr R"
    using run by (auto simp: prepare_verpo_teacher_inputs_def)
  then obtain rewards uids group_state positive gate fields scoped where S:
    "rewards = map sum_list (rb_rm_scores B)" "rmap prompt_uid (rb_keys B) = Inr uids"
    "classify_reward_ranked_groups rewards (Some uids) None 0 = Inr group_state"
    "resolve_verpo_outcome_positive rewards (rb_extra_fields B) (requires_acc C) = Inr positive"
    "raw_group_gate C rewards positive uids = Inr gate"
    "build_contrastive_evidence_teacher_fields tz split_sdpg str_nat (evidence_args C RS) (rb_nested B) (rb_responses B)
      (rb_raw_prompt B) rewards (Some positive) uids (Some (rb_reward_model B)) (Some (rb_keys B)) = Inr fields"
    "apply_evidence_rollout_scope (map2 (\<and>) gate (es_available (cf_selection fields))) positive (zc_evidence_rollout_scope C) = Inr scoped"
    "R = \<lparr>rt_uids = uids, rt_rewards = rewards, rt_outcome_positive = positive, rt_group_state = group_state,
          rt_fields = fields, rt_group_gate = gate, rt_available_gate = map2 (\<and>) gate (es_available (cf_selection fields)),
          rt_evidence_gate = scoped, rt_counts = batch_routing_counts (rb_response_mask B) scoped positive\<rparr>"
    unfolding route_batch_def Let_def by (auto split: if_splits)
  then show "rmap prompt_uid (rb_keys B) = Inr (rt_uids R)" "rt_rewards R = map sum_list (rb_rm_scores B)"
    "classify_reward_ranked_groups (rt_rewards R) (Some (rt_uids R)) None 0 = Inr (rt_group_state R)"
    "resolve_verpo_outcome_positive (rt_rewards R) (rb_extra_fields B) (requires_acc C) = Inr (rt_outcome_positive R)"
    "raw_group_gate C (rt_rewards R) (rt_outcome_positive R) (rt_uids R) = Inr (rt_group_gate R)"
    "build_contrastive_evidence_teacher_fields tz split_sdpg str_nat (evidence_args C RS) (rb_nested B) (rb_responses B)
      (rb_raw_prompt B) (rt_rewards R) (Some (rt_outcome_positive R)) (rt_uids R) (Some (rb_reward_model B))
      (Some (rb_keys B)) = Inr (rt_fields R)"
    "rt_available_gate R = map2 (\<and>) (rt_group_gate R) (rt_available R)"
    "apply_evidence_rollout_scope (rt_available_gate R) (rt_outcome_positive R) (zc_evidence_rollout_scope C) = Inr (rt_evidence_gate R)"
    "rt_counts R = batch_routing_counts (rb_response_mask B) (rt_evidence_gate R) (rt_outcome_positive R)"
    by (simp_all add: rt_available_def)
qed

lemma scoped_at:
  assumes "apply_evidence_rollout_scope gate positive scope = Inr scoped" "t < length gate"
  shows "length positive = length gate"
    "scoped ! t \<longleftrightarrow> gate ! t \<and> (scope = ''wrong_only'' \<longrightarrow> \<not> positive ! t)"
  using assms by (auto simp: apply_evidence_rollout_scope_def split: if_splits)

lemma scoped_length: "apply_evidence_rollout_scope gate positive scope = Inr scoped \<Longrightarrow> length scoped = length gate"
  by (auto simp: apply_evidence_rollout_scope_def split: if_splits)

lemma outcome_length:
  "resolve_verpo_outcome_positive rewards rows req = Inr positive \<Longrightarrow> length positive = length rewards"
  by (auto simp: resolve_verpo_outcome_positive_def dest: rmap_nth split: option.splits if_splits)

text \<open>The selection made for a successful batch.\<close>

lemma contrastive_selection:
  assumes "build_contrastive_evidence_teacher_fields tz split_sdpg str_nat A nested responses raw_prompts rewards
      (Some correct) uids models rollout_ids = Inr F"
  shows "ca_selection_mode A = ''correctness''"
    and "\<exists>ids. length uids = length responses \<and> 1 \<le> ca_num_negative_hints A
      \<and> select_rollout_evidence uids ids correct (cf_format_valid F) (map (\<lambda>r. strip (tz_decode tz r)) responses)
          (ca_require_negative A) (ca_num_negative_hints A) = Inr (cf_selection F)"
proof -
  show "ca_selection_mode A = ''correctness''"
    using assms by (auto simp: build_contrastive_evidence_teacher_fields_def Let_def split: if_splits)
  obtain kwargs where kw: "resolve_chat_template_kwargs (ca_kwargs A) (ca_enable_thinking A) = Inr kwargs"
    using assms by (auto simp: build_contrastive_evidence_teacher_fields_def)
  show "\<exists>ids. length uids = length responses \<and> 1 \<le> ca_num_negative_hints A
      \<and> select_rollout_evidence uids ids correct (cf_format_valid F) (map (\<lambda>r. strip (tz_decode tz r)) responses)
          (ca_require_negative A) (ca_num_negative_hints A) = Inr (cf_selection F)"
    by (rule contrastive_run [OF assms kw]) auto
qed

text \<open>An open group gate.\<close>

lemma group_gate_at:
  assumes gate: "raw_group_gate C rewards positive uids = Inr gate" and on: "zc_group_zpd_enabled C"
    and len: "length positive = length rewards" and t: "t < length rewards" "gate ! t"
  shows "zc_group_zpd_mode C = ''binary_mixed'' \<Longrightarrow> (\<exists>j \<in> set (rows_of uids (uids ! t)). positive ! j)
      \<and> (\<exists>j \<in> set (rows_of uids (uids ! t)). \<not> positive ! j)"
    and "zc_group_zpd_mode C = ''reward_ranked'' \<Longrightarrow>
      the_real (zc_group_zpd_epsilon C) < variance_of (map (\<lambda>j. rewards ! j) (rows_of uids (uids ! t)))"
proof -
  let ?g = "\<lambda>v. map (\<lambda>j. v ! j) (rows_of uids (uids ! t))"
  have in_range: "j < length uids" if "j \<in> set (rows_of uids k)" for j k using that by (simp add: rows_of_def)
  have run: "compute_group_zpd_gate_by_uid (if zc_group_zpd_mode C = ''binary_mixed'' then map of_bool positive else rewards)
      uids (zc_group_zpd_mode C) 1 (the_real (zc_group_zpd_epsilon C)) = Inr gate"
    using gate on by (simp add: raw_group_gate_def)
  show "the_real (zc_group_zpd_epsilon C) < variance_of (?g rewards)" if mode: "zc_group_zpd_mode C = ''reward_ranked''"
  proof -
    have "length uids = length rewards" "gate = map rs_zpd_gate (classify_groups rewards uids (the_real (zc_group_zpd_epsilon C)))"
      using run mode by (auto simp: compute_group_zpd_gate_by_uid_def classify_reward_ranked_groups_def split: if_splits)
    then have "rs_zpd_gate (group_state (?g rewards) (the_real (zc_group_zpd_epsilon C)))"
      using t by (simp add: classify_groups_nth)
    then show ?thesis unfolding zpd_gate_iff if_variance by simp
  qed
  show "(\<exists>j \<in> set (rows_of uids (uids ! t)). positive ! j) \<and> (\<exists>j \<in> set (rows_of uids (uids ! t)). \<not> positive ! j)"
    if mode: "zc_group_zpd_mode C = ''binary_mixed''"
  proof -
    define bits :: "real list" where "bits = map (\<lambda>r. of_bool (1 - 1 / 10 ^ 6 \<le> r)) (map of_bool positive :: real list)"
    have at: "bits ! j = of_bool (positive ! j)" if "j < length positive" for j using that by (simp add: bits_def)
    have L: "length uids = length bits" "gate = map rs_zpd_gate (classify_groups bits uids (the_real (zc_group_zpd_epsilon C)))"
      using run mode by (auto simp: compute_group_zpd_gate_by_uid_def classify_reward_ranked_groups_def Let_def bits_def split: if_splits)
    moreover have "length bits = length rewards" using len by (simp add: bits_def)
    ultimately have "rs_zpd_gate (group_state (?g bits) (the_real (zc_group_zpd_epsilon C)))"
      using t by (simp add: classify_groups_nth)
    then have open_at: "\<exists>r \<in> set (?g bits). 1 / 10 ^ 6 < \<bar>r - c\<bar>" if "c \<in> {1, 0, -1}" for c
      using that unfolding zpd_gate_iff not_all_close by blast
    have "\<exists>j \<in> set (rows_of uids (uids ! t)). 1 / 10 ^ 6 < \<bar>bits ! j - 0\<bar>" "\<exists>j \<in> set (rows_of uids (uids ! t)). 1 / 10 ^ 6 < \<bar>bits ! j - 1\<bar>"
      using open_at [of 0] open_at [of 1] by simp_all
    moreover have "j < length positive" if "j \<in> set (rows_of uids (uids ! t))" for j
      using in_range [OF that] L(1) by (simp add: bits_def)
    ultimately show ?thesis by (fastforce simp: at of_bool_def split: if_splits)
  qed
qed

section \<open>Routed rollouts\<close>

text \<open>C9: a rollout routed to the evidence loss has its evidence. Whenever
  \<open>_prepare_verpo_teacher_inputs\<close> returns and opens the gate of a row, the row has a positive sibling: a
  correct, well-formed rollout of the same prompt other than itself, and in the contrastive modes each of its
  negative hints comes from an incorrect one; under \<open>wrong_only\<close> the row itself is incorrect; with the
  group gate on, its prompt group holds positive and other rollouts (binary mode) or varies by more than the
  tolerance (ranked mode); and the prompt is the one of its rollout key.\<close>

theorem routed_rows_have_evidence:
  assumes run: "prepare_verpo_teacher_inputs tz split_sdpg str_nat C RS B = Inr (R, new_metrics)"
    and t: "t < length (rt_evidence_gate R)" and routed: "rt_evidence_gate R ! t"
  defines "texts \<equiv> map (\<lambda>r. strip (tz_decode tz r)) (rb_responses B)" and "E \<equiv> cf_selection (rt_fields R)"
    and "uids \<equiv> rt_uids R" and "positive \<equiv> rt_outcome_positive R"
  defines "evidence \<equiv> sibling uids (cf_format_valid (rt_fields R)) texts t" and "peers \<equiv> set (rows_of uids (uids ! t))"
  shows "(\<exists>i. es_positive E ! t = int i \<and> evidence i \<and> positive ! i)
    \<and> (zc_displacement_mode C \<noteq> ''evidence_vs_none'' \<longrightarrow> (\<forall>k < nat (zc_contrastive_num_negative_hints C).
        \<exists>i. es_negative E ! t ! k = int i \<and> evidence i \<and> \<not> positive ! i))
    \<and> (zc_evidence_rollout_scope C = ''wrong_only'' \<longrightarrow> \<not> positive ! t)
    \<and> (zc_group_zpd_enabled C \<and> zc_group_zpd_mode C = ''binary_mixed'' \<longrightarrow> (\<exists>j \<in> peers. positive ! j) \<and> (\<exists>j \<in> peers. \<not> positive ! j))
    \<and> (zc_group_zpd_enabled C \<and> zc_group_zpd_mode C = ''reward_ranked'' \<longrightarrow>
        the_real (zc_group_zpd_epsilon C) < variance_of (map (\<lambda>j. rt_rewards R ! j) (rows_of uids (uids ! t))))
    \<and> prompt_uid (rb_keys B ! t) = Inr (uids ! t)"
proof -
  note P = prepare_runs [OF run]
  obtain ids where S: "length uids = length (rb_responses B)" "1 \<le> ca_num_negative_hints (evidence_args C RS)"
    "select_rollout_evidence uids ids positive (cf_format_valid (rt_fields R)) texts (ca_require_negative (evidence_args C RS))
      (ca_num_negative_hints (evidence_args C RS)) = Inr E"
    using contrastive_selection(2) [OF P(6)] unfolding uids_def positive_def texts_def E_def by blast
  have m: "1 \<le> zc_contrastive_num_negative_hints C" using S(2) by (simp add: evidence_args_def)
  have gate_len: "length (rt_evidence_gate R) = length (rt_available_gate R)"
    by (rule scoped_length [OF P(8)])
  have tg: "t < length (rt_available_gate R)" using t gate_len by simp
  note sc = scoped_at [OF P(8) tg]
  have tt: "t < length (rt_group_gate R)" "t < length (rt_available R)" using tg by (simp_all add: P(7))
  have open_gates: "rt_group_gate R ! t" "rt_available R ! t" and wrong: "zc_evidence_rollout_scope C = ''wrong_only'' \<longrightarrow> \<not> positive ! t"
    using routed sc(2) tg tt by (simp_all add: P(7) positive_def)
  have lens: "length (rt_outcome_positive R) = length (rt_rewards R)" using outcome_length [OF P(4)] .
  have tr: "t < length (rt_rewards R)" using sc(1) tg lens by simp
  have keys: "prompt_uid (rb_keys B ! t) = Inr (uids ! t)" and tu: "t < length uids"
  proof -
    have "length uids = length (rt_rewards R)"
      using P(3) by (auto simp: classify_reward_ranked_groups_def uids_def split: if_splits)
    then show "t < length uids" using tr by simp
    then show "prompt_uid (rb_keys B ! t) = Inr (uids ! t)" using rmap_nth [OF P(1)] by (simp add: uids_def)
  qed
  have sound: "length (es_reason E) = length uids"
    "es_positive E ! t = -1 \<and> (\<forall>i \<in> {i. evidence i}. \<not> positive ! i) \<or> (\<exists>i \<in> {i. evidence i}. es_positive E ! t = int i \<and> positive ! i)"
    "length (es_negative E ! t) = nat (zc_contrastive_num_negative_hints C)"
    "\<forall>n \<in> set (es_negative E ! t). n = -1 \<and> (\<forall>i \<in> {i. evidence i}. positive ! i) \<or> (\<exists>i \<in> {i. evidence i}. n = int i \<and> \<not> positive ! i)"
    "es_reason E ! t = (if \<forall>i \<in> {i. evidence i}. \<not> positive ! i then 1
      else if zc_displacement_mode C \<noteq> ''evidence_vs_none'' \<and> (\<forall>i \<in> {i. evidence i}. positive ! i) then 2 else 0)"
    using select_sound [OF select_checks [OF S(3)] S(2), of "ca_require_negative (evidence_args C RS)"] S(3) tu
    unfolding evidence_def Let_def by (auto simp: evidence_args_def)
  have "es_reason E ! t = 0" using open_gates(2) tt(2) sound(1) tu
    by (simp add: rt_available_def es_available_def E_def)
  then have some: "\<not> (\<forall>i \<in> {i. evidence i}. \<not> positive ! i)"
    and some_neg: "zc_displacement_mode C \<noteq> ''evidence_vs_none'' \<Longrightarrow> \<not> (\<forall>i \<in> {i. evidence i}. positive ! i)"
    using sound(5) by (auto split: if_splits)
  have "\<exists>i. es_positive E ! t = int i \<and> evidence i \<and> positive ! i" using sound(2) some by blast
  moreover have "\<exists>i. es_negative E ! t ! k = int i \<and> evidence i \<and> \<not> positive ! i"
    if "zc_displacement_mode C \<noteq> ''evidence_vs_none''" "k < nat (zc_contrastive_num_negative_hints C)" for k
    using sound(4) some_neg [OF that(1)] nth_mem [of k "es_negative E ! t"] that(2) sound(3) by auto
  ultimately show ?thesis
    using wrong keys group_gate_at [OF P(5) _ lens tr open_gates(1)] unfolding peers_def uids_def positive_def by blast
qed

text \<open>Three rollouts of one prompt, two of them correct.\<close>

definition trio_config :: zpd_config where
  "trio_config = default_zpd_config\<lparr>zc_enabled := True, zc_displacement_mode := ''fec'', zc_group_zpd_enabled := True,
     zc_smoke_allow_unboxed_contrastive := True, zc_evidence_rollout_scope := ''all''\<rparr>"

definition trio_settings :: rollout_settings where
  "trio_settings = \<lparr>ro_temperature = Fin 1, ro_thinking_system_prompt = False,
     ro_teacher_chat_template_kwargs = \<lparr>tk_enable_thinking = None, tk_rest = []\<rparr>, ro_teacher_enable_thinking = Some False\<rparr>"

definition trio_batch :: rollout_batch where
  "trio_batch = \<lparr>rb_keys = [''p_0_0'', ''p_1_0'', ''p_2_0''], rb_nested = True, rb_responses = [[97], [98], [99]],
     rb_response_mask = [[True, True], [True], [True, False]], rb_rm_scores = [[0, 1], [1], [0, 0]],
     rb_raw_prompt = replicate 3 (RList [MDict (user_message ''q'')]),
     rb_reward_model = replicate 3 \<lparr>rm_ground_truth = [], rm_style = []\<rparr>,
     rb_extra_fields = Some (map (\<lambda>a. ExtraDict (Some [(''acc'', a)])) [Fin 1, Fin 1, Fin 0])\<rparr>"

lemma trio_uids: "rmap prompt_uid (rb_keys trio_batch) = Inr [''p'', ''p'', ''p'']"
  by code_simp

lemma trio_outcomes:
  "resolve_verpo_outcome_positive (map sum_list (rb_rm_scores trio_batch)) (rb_extra_fields trio_batch) (requires_acc trio_config)
    = Inr [True, True, False]"
  by (simp add: resolve_verpo_outcome_positive_def trio_batch_def outcome_row_def)

lemma trio_gate: "raw_group_gate trio_config (map sum_list (rb_rm_scores trio_batch)) [True, True, False] [''p'', ''p'', ''p'']
    = Inr [True, True, True]"
  by (simp add: raw_group_gate_def trio_config_def default_zpd_config_def compute_group_zpd_gate_by_uid_def
      classify_reward_ranked_groups_def classify_groups_def group_rows_def assign_rows_def group_state_def
      variance_of_def mean_of_def all_close_def Let_def power2_eq_square)

lemma trio_fields:
  "case build_contrastive_evidence_teacher_fields char_tokenizer (\<lambda>s. s) (\<lambda>_. []) (evidence_args trio_config trio_settings)
      (rb_nested trio_batch) (rb_responses trio_batch) (rb_raw_prompt trio_batch) (map sum_list (rb_rm_scores trio_batch))
      (Some [True, True, False]) [''p'', ''p'', ''p''] (Some (rb_reward_model trio_batch)) (Some (rb_keys trio_batch)) of
    Inl e \<Rightarrow> False | Inr F \<Rightarrow> es_available (cf_selection F) = [True, True, False]"
  by code_simp

lemma trio_routes:
  "\<exists>R new_metrics. prepare_verpo_teacher_inputs char_tokenizer (\<lambda>s. s) (\<lambda>_. []) trio_config trio_settings trio_batch = Inr (R, new_metrics)
    \<and> rt_evidence_gate R = [True, True, False] \<and> rt_outcome_positive R = [True, True, False]"
proof -
  let ?rewards = "map sum_list (rb_rm_scores trio_batch)" and ?uids = "[''p'', ''p'', ''p'']"
  obtain F where F: "build_contrastive_evidence_teacher_fields char_tokenizer (\<lambda>s. s) (\<lambda>_. []) (evidence_args trio_config trio_settings)
      (rb_nested trio_batch) (rb_responses trio_batch) (rb_raw_prompt trio_batch) ?rewards
      (Some [True, True, False]) ?uids (Some (rb_reward_model trio_batch)) (Some (rb_keys trio_batch)) = Inr F"
    "es_available (cf_selection F) = [True, True, False]"
    using trio_fields by (auto split: sum.splits)
  have n: "length (rb_rm_scores trio_batch) = 3" by (simp add: trio_batch_def)
  obtain G where G: "classify_reward_ranked_groups ?rewards (Some ?uids) None 0 = Inr G"
    by (simp add: classify_reward_ranked_groups_def n)
  have guards: "zc_evidence_source trio_config = ''rollout_group''" "\<not> ro_thinking_system_prompt trio_settings"
    "\<not> temperature_differs (ro_temperature trio_settings) (zc_temperature trio_config)"
    "zc_evidence_rollout_scope trio_config = ''all''"
    by (simp_all add: trio_config_def trio_settings_def default_zpd_config_def)
  obtain R where R: "route_batch char_tokenizer (\<lambda>s. s) (\<lambda>_. []) trio_config trio_settings trio_batch = Inr R"
    "rt_evidence_gate R = [True, True, False]" "rt_outcome_positive R = [True, True, False]" "rt_rewards R = ?rewards"
    using guards by (simp add: route_batch_def trio_uids G trio_outcomes trio_gate F apply_evidence_rollout_scope_def Let_def)
  have "?rewards \<noteq> []" using n by auto
  then have "\<exists>m. routing_metrics trio_config R = Inr m" unfolding routing_metrics_def Let_def by (simp add: R(4))
  then show ?thesis using R by (auto simp: prepare_verpo_teacher_inputs_def)
qed

theorem routed_rows_have_evidence_witness:
  "\<exists>R new_metrics. prepare_verpo_teacher_inputs char_tokenizer (\<lambda>s. s) (\<lambda>_. []) trio_config trio_settings trio_batch = Inr (R, new_metrics)
    \<and> (\<exists>i. es_positive (cf_selection (rt_fields R)) ! 0 = int i \<and> i \<noteq> 0 \<and> rt_outcome_positive R ! i)"
proof -
  obtain R m where R: "prepare_verpo_teacher_inputs char_tokenizer (\<lambda>s. s) (\<lambda>_. []) trio_config trio_settings trio_batch = Inr (R, m)"
    "rt_evidence_gate R = [True, True, False]"
    using trio_routes by blast
  show ?thesis using routed_rows_have_evidence [OF R(1), of 0] R by (auto simp: sibling_def)
qed

section \<open>Configurations that never run\<close>

text \<open>C33: the reward-ranked protocol is accepted by the configuration and refused by every step. A
  configuration with \<open>displacement_mode=reward_ranked\<close> (or reward-ranked siblings) must also select
  siblings by reward to be accepted, and then \<open>_prepare_verpo_teacher_inputs\<close> raises on every
  batch, because the evidence of a rollout group is always chosen by correctness.\<close>

theorem reward_ranked_never_runs:
  assumes accepted: "zpd_post_init C0 = Inr C" and ranked: "reward_ranked_siblings C"
  shows "\<exists>e. prepare_verpo_teacher_inputs tz split_sdpg str_nat C RS B = Inl e"
proof -
  have "zc_sibling_selection_mode C = ''reward_ranked''" using accepted_facts(19) [OF accepted ranked] .
  then have "ca_selection_mode (evidence_args C RS) \<noteq> ''correctness''" by (simp add: evidence_args_def)
  then have "prepare_verpo_teacher_inputs tz split_sdpg str_nat C RS B \<noteq> Inr (R, m)" for R m
    by (metis contrastive_selection(1) prepare_runs(6))
  then show ?thesis by (cases "prepare_verpo_teacher_inputs tz split_sdpg str_nat C RS B") auto
qed

definition ranked_config :: zpd_config where
  "ranked_config = trio_config\<lparr>zc_displacement_mode := ''reward_ranked'', zc_group_zpd_mode := ''reward_ranked'',
     zc_sibling_selection_mode := ''reward_ranked''\<rparr>"

theorem reward_ranked_never_runs_witness:
  "\<exists>C e. zpd_post_init ranked_config = Inr C \<and> zc_displacement_mode C = ''reward_ranked''
    \<and> prepare_verpo_teacher_inputs char_tokenizer (\<lambda>s. s) (\<lambda>_. []) C trio_settings trio_batch = Inl e"
proof -
  have m: "teacher_mode_of ''fixed_initial'' = ''fixed_initial''" by code_simp
  have "\<exists>C. zpd_post_init ranked_config = Inr C \<and> reward_ranked_siblings C \<and> zc_displacement_mode C = ''reward_ranked''"
    by (simp add: zpd_post_init_iff ranked_config_def trio_config_def default_zpd_config_def m teacher_guards_def effective_cost_def
        mode_guards_def limit_guards_def in_unit_interval_def reward_ranked_siblings_def)
  then show ?thesis using reward_ranked_never_runs by blast
qed

section \<open>Global counts\<close>

lemma count_true: "count_list m True = length (filter id m)"
  by (induction m) auto

lemma map2_flip: "map2 f xs ys = map2 (\<lambda>y x. f x y) ys xs"
  by (induction xs ys rule: list_induct2') auto

lemma local_counts_eq:
  assumes "length (nested_rows (vd_response_mask D)) = length (vd_evidence_rollout_gate D)"
    "length (vb_outcome_positive D) = length (vd_evidence_rollout_gate D)"
  shows "local_routing_counts D = Inr (batch_routing_counts (nested_rows (vd_response_mask D)) (vd_evidence_rollout_gate D) (vb_outcome_positive D))"
  using assms by (simp add: local_routing_counts_def batch_routing_counts_def Let_def count_true
      map2_flip [of "\<lambda>g c. of_bool (g \<and> 0 < c)"])

definition add_counts :: "routing_counts \<Rightarrow> routing_counts \<Rightarrow> routing_counts" where
  "add_counts a b = \<lparr>rc_tokens = rc_tokens a + rc_tokens b, rc_rows = rc_rows a + rc_rows b,
     rc_correct_tokens = rc_correct_tokens a + rc_correct_tokens b, rc_wrong_tokens = rc_wrong_tokens a + rc_wrong_tokens b\<rparr>"

lemma batch_counts_append:
  assumes "length g1 = length m1" "length p1 = length m1"
  shows "batch_routing_counts (m1 @ m2) (g1 @ g2) (p1 @ p2) = add_counts (batch_routing_counts m1 g1 p1) (batch_routing_counts m2 g2 p2)"
  using assms by (simp add: batch_routing_counts_def add_counts_def Let_def)

lemma split_batch_counts:
  assumes "\<forall>(m, g, p) \<in> set parts. length g = length m \<and> length p = length m"
  shows "batch_routing_counts (concat (map fst parts)) (concat (map (fst \<circ> snd) parts)) (concat (map (snd \<circ> snd) parts))
    = foldr (\<lambda>(m, g, p). add_counts (batch_routing_counts m g p)) parts \<lparr>rc_tokens = 0, rc_rows = 0, rc_correct_tokens = 0, rc_wrong_tokens = 0\<rparr>"
  using assms
proof (induction parts)
  case Nil
  show ?case by (simp add: batch_routing_counts_def)
next
  case (Cons x parts)
  then show ?case by (cases x) (simp add: batch_counts_append)
qed

lemma split_tokens:
  "length ps = length gs \<Longrightarrow> sum_list (map2 (\<lambda>c b. c * of_bool b) cs gs)
    = sum_list (map2 (\<lambda>c b. c * of_bool b) cs (map2 (\<and>) gs ps)) + (sum_list (map2 (\<lambda>c b. c * of_bool b) cs (map2 (\<lambda>g p. g \<and> \<not> p) gs ps)) :: int)"
proof (induction ps gs arbitrary: cs rule: list_induct2)
  case (Cons p ps g gs)
  then show ?case by (cases cs) (auto simp: of_bool_def)
qed simp

definition sum_counts :: "routing_counts list \<Rightarrow> routing_counts" where
  "sum_counts cs = \<lparr>rc_tokens = sum_list (map rc_tokens cs), rc_rows = sum_list (map rc_rows cs),
     rc_correct_tokens = sum_list (map rc_correct_tokens cs), rc_wrong_tokens = sum_list (map rc_wrong_tokens cs)\<rparr>"

lemma sum_counts_simps:
  "sum_counts [] = \<lparr>rc_tokens = 0, rc_rows = 0, rc_correct_tokens = 0, rc_wrong_tokens = 0\<rparr>"
  "sum_counts (c # cs) = add_counts c (sum_counts cs)"
  by (simp_all add: sum_counts_def add_counts_def)

lemma sum_counts_foldr:
  "sum_counts (map f xs) = foldr (\<lambda>x. add_counts (f x)) xs \<lparr>rc_tokens = 0, rc_rows = 0, rc_correct_tokens = 0, rc_wrong_tokens = 0\<rparr>"
  by (induction xs) (simp_all add: sum_counts_simps)

lemma concat_length_eq:
  "\<forall>D \<in> set Ds. length (f D) = length (g D) \<Longrightarrow> length (concat (map f Ds)) = length (concat (map g Ds))"
  by (induction Ds) auto

text \<open>the trainer and the workers agree on the global routing counts. However the rows of a
  routed batch are spread over ranks, the count each worker computes on its rows
  (\<open>_refresh_verpo_global_routing_counts\<close>) exists and their all-reduced sums are the counts the
  trainer wrote for the whole batch; and the routed tokens split into those of correct and of incorrect
  rollouts.\<close>

theorem global_counts_agree:
  assumes run: "prepare_verpo_teacher_inputs tz split_sdpg str_nat C RS B = Inr (R, new_metrics)"
    and ranks: "list_all (\<lambda>D. length (vd_evidence_rollout_gate D) = length (nested_rows (vd_response_mask D))
        \<and> length (vb_outcome_positive D) = length (nested_rows (vd_response_mask D))) Ds"
    and rows: "concat (map (\<lambda>D. nested_rows (vd_response_mask D)) Ds) = rb_response_mask B"
      "concat (map vd_evidence_rollout_gate Ds) = rt_evidence_gate R" "concat (map vb_outcome_positive Ds) = rt_outcome_positive R"
  shows "(\<exists>locals. map local_routing_counts Ds = map Inr locals \<and> sum_counts locals = rt_counts R)
    \<and> rc_tokens (rt_counts R) = rc_correct_tokens (rt_counts R) + rc_wrong_tokens (rt_counts R)"
proof -
  let ?parts = "map (\<lambda>D. (nested_rows (vd_response_mask D), vd_evidence_rollout_gate D, vb_outcome_positive D)) Ds"
  let ?counts = "\<lambda>D. batch_routing_counts (nested_rows (vd_response_mask D)) (vd_evidence_rollout_gate D) (vb_outcome_positive D)"
  have counts: "rt_counts R = batch_routing_counts (rb_response_mask B) (rt_evidence_gate R) (rt_outcome_positive R)"
    by (rule prepare_runs(9) [OF run])
  have "\<forall>(m, g, p) \<in> set ?parts. length g = length m \<and> length p = length m" using ranks by (auto simp: list_all_iff)
  from split_batch_counts [OF this] have "sum_counts (map ?counts Ds) = rt_counts R"
    by (simp add: counts comp_def rows sum_counts_foldr foldr_map)
  moreover have "map local_routing_counts Ds = map Inr (map ?counts Ds)"
    using ranks by (auto simp: list_all_iff intro: local_counts_eq)
  moreover have "length (rt_outcome_positive R) = length (rt_evidence_gate R)"
    using concat_length_eq [of Ds vb_outcome_positive vd_evidence_rollout_gate] ranks by (simp add: rows list_all_iff)
  then have "rc_tokens (rt_counts R) = rc_correct_tokens (rt_counts R) + rc_wrong_tokens (rt_counts R)"
    unfolding counts batch_routing_counts_def Let_def by (simp add: split_tokens [symmetric])
  ultimately show ?thesis by blast
qed

definition trio_rank :: "nat \<Rightarrow> verpo_batch" where
  "trio_rank r = (sample_micro True)\<lparr>
     vd_response_mask := Nested (if r = 0 then [[True, True], [True]] else [[True, False]]),
     vd_evidence_rollout_gate := (if r = 0 then [True, True] else [False]),
     vb_outcome_positive := (if r = 0 then [True, True] else [False])\<rparr>"

theorem global_counts_agree_witness:
  "\<exists>R new_metrics locals. prepare_verpo_teacher_inputs char_tokenizer (\<lambda>s. s) (\<lambda>_. []) trio_config trio_settings trio_batch
      = Inr (R, new_metrics) \<and> map local_routing_counts [trio_rank 0, trio_rank 1] = map Inr locals \<and> sum_counts locals = rt_counts R"
proof -
  obtain R m where R: "prepare_verpo_teacher_inputs char_tokenizer (\<lambda>s. s) (\<lambda>_. []) trio_config trio_settings trio_batch = Inr (R, m)"
    "rt_evidence_gate R = [True, True, False]" "rt_outcome_positive R = [True, True, False]"
    using trio_routes by blast
  have "\<exists>locals. map local_routing_counts [trio_rank 0, trio_rank 1] = map Inr locals \<and> sum_counts locals = rt_counts R"
    using global_counts_agree [OF R(1), of "[trio_rank 0, trio_rank 1]"] by (simp add: R trio_rank_def trio_batch_def)
  then show ?thesis using R(1) by blast
qed

section \<open>Reward-variable groups\<close>

lemma reward_groups_snoc:
  "reward_groups (map fst (rows @ [(k, r)])) (map snd (rows @ [(k, r)]))
    = setdefault_append (group_uid k) (k, r) (reward_groups (map fst rows) (map snd rows))"
  by (simp add: reward_groups_def zip_map_fst_snd)

lemma reward_groups_spec:
  "distinct (map fst (reward_groups (map fst rows) (map snd rows)))
    \<and> (\<forall>u. map_of (reward_groups (map fst rows) (map snd rows)) u
        = (if u \<in> group_uid ` fst ` set rows then Some (filter (\<lambda>(k, r). group_uid k = u) rows) else None))"
proof (induction rows rule: rev_induct)
  case Nil
  show ?case by (simp add: reward_groups_def)
next
  case (snoc x rows)
  obtain k r where x: "x = (k, r)" by (cases x)
  let ?G = "reward_groups (map fst rows) (map snd rows)"
  have d: "distinct (map fst (setdefault_append (group_uid k) (k, r) ?G))"
    using snoc by (auto simp: keys_setdefault_append)
  have none: "filter (\<lambda>(k, r). group_uid k = u) rows = []" if "u \<notin> group_uid ` fst ` set rows" for u
    using that by (force simp: filter_empty_conv)
  have "map_of (setdefault_append (group_uid k) (k, r) ?G) u
      = (if u \<in> group_uid ` fst ` set (rows @ [x]) then Some (filter (\<lambda>(k, r). group_uid k = u) (rows @ [x])) else None)" for u
    using snoc none [of u] by (auto simp: map_of_setdefault_append x split: option.splits if_splits)
  then show ?case using d unfolding x reward_groups_snoc by blast
qed

text \<open>The extremes of a nonempty list are entries.\<close>

lemma extreme_in:
  assumes "xs \<noteq> []"
  shows "foldr max (tl xs) (hd xs) \<in> set (xs :: real list)" "foldr min (tl xs) (hd xs) \<in> set xs"
proof -
  have "foldr max ys y \<in> insert y (set ys)" "foldr min ys y \<in> insert y (set ys)" for ys and y :: real
    by (induction ys) (auto simp: max_def min_def)
  then show "foldr max (tl xs) (hd xs) \<in> set xs" "foldr min (tl xs) (hd xs) \<in> set xs"
    using assms by (metis list.collapse list.simps(15))+
qed

text \<open>the dynamic sampler keeps whole groups that can teach something. A successful
  \<open>select_reward_variable_groups\<close> splits the keys, in order, into kept and dropped ones, never divides a
  group between the two, keeps at most \<open>max_groups\<close> groups, and every kept group is complete, has finite
  rewards and two rollouts whose rewards differ by more than \<open>min_reward_range\<close>; a group is dropped
  only when it is not such a group or the limit is reached, and the counts add up.\<close>

theorem reward_groups_selected:
  assumes run: "select_reward_variable_groups keys rewards width max_groups expected = Inr (kept, dropped, counts)"
  defines "uids \<equiv> set (map group_uid kept)" and "rows_in \<equiv> \<lambda>u. filter (\<lambda>(k, r). group_uid k = u) (zip keys rewards)"
  shows "kept = filter (\<lambda>k. group_uid k \<in> uids) keys \<and> dropped = filter (\<lambda>k. group_uid k \<notin> uids) keys
    \<and> int (card uids) \<le> max_groups \<and> card uids = gc_accepted_groups counts
    \<and> (\<forall>u \<in> uids. (\<forall>n. expected = Some n \<longrightarrow> int (length (rows_in u)) = n)
        \<and> (\<forall>(k, r) \<in> set (rows_in u). isfinite r)
        \<and> (\<exists>(k, r) \<in> set (rows_in u). \<exists>(k', r') \<in> set (rows_in u). width < the_real r - the_real r'))
    \<and> (\<forall>k \<in> set dropped. variable_group expected width (rows_in (group_uid k)) \<longrightarrow> int (card uids) = max_groups)
    \<and> gc_generated_groups counts = gc_accepted_groups counts + gc_constant_groups counts + gc_excess_variable_groups counts"
proof -
  let ?G = "reward_groups keys rewards" and ?ok = "\<lambda>(u, rows). variable_group expected width rows"
  have len: "length keys = length rewards" and w: "0 \<le> width" and m: "0 < max_groups"
    using run by (auto simp: select_reward_variable_groups_def split: if_splits)
  define accepted where "accepted = map fst (filter ?ok ?G)"
  define selected where "selected = take (nat max_groups) accepted"
  have R: "kept = filter (\<lambda>k. group_uid k \<in> set selected) keys" "dropped = filter (\<lambda>k. group_uid k \<notin> set selected) keys"
    "gc_generated_groups counts = length ?G" "gc_accepted_groups counts = length selected"
    "gc_constant_groups counts = length (filter (\<lambda>g. \<not> ?ok g) ?G)"
    "gc_excess_variable_groups counts = length accepted - length selected"
    using run by (auto simp: select_reward_variable_groups_def Let_def accepted_def selected_def split: if_splits option.splits)
  have zk: "map fst (zip keys rewards) = keys" "map snd (zip keys rewards) = rewards" using len by simp_all
  note spec = reward_groups_spec [of "zip keys rewards", unfolded zk]
  have G: "(u, rows) \<in> set ?G \<longleftrightarrow> u \<in> group_uid ` set keys \<and> rows = rows_in u" for u rows
    using spec map_of_eq_Some_iff [of ?G u rows] arg_cong [OF zk(1), of set] by (auto simp: rows_in_def split: if_splits)
  have acc: "u \<in> set accepted \<longleftrightarrow> u \<in> group_uid ` set keys \<and> variable_group expected width (rows_in u)" for u
    unfolding accepted_def by (auto simp: G image_iff)
  have "distinct accepted" using spec by (simp add: accepted_def distinct_map_filter)
  then have d: "distinct selected" by (simp add: selected_def)
  have sub: "set selected \<subseteq> set accepted" by (simp add: selected_def set_take_subset)
  have uids: "uids = set selected"
    using sub acc unfolding uids_def R(1) by fastforce
  have card: "card uids = length selected" using d by (simp add: uids distinct_card)
  have most: "int (length selected) \<le> max_groups" using m by (simp add: selected_def)
  have full: "int (length selected) = max_groups" if "set selected \<noteq> set accepted"
    using that m by (auto simp: selected_def min_def split: if_splits)
  have group_ok: "(\<forall>n. expected = Some n \<longrightarrow> int (length (rows_in u)) = n) \<and> (\<forall>(k, r) \<in> set (rows_in u). isfinite r)
      \<and> (\<exists>(k, r) \<in> set (rows_in u). \<exists>(k', r') \<in> set (rows_in u). width < the_real r - the_real r')" if u: "u \<in> uids" for u
  proof -
    have "u \<in> set accepted" using u sub by (simp add: uids subsetD)
    then have v: "variable_group expected width (rows_in u)" and "u \<in> group_uid ` set keys" by (simp_all only: acc)
    then obtain k where k: "k \<in> set keys" "group_uid k = u" by auto
    then have "k \<in> fst ` set (zip keys rewards)" by (metis zk(1) list.set_map)
    then obtain r where "(k, r) \<in> set (rows_in u)" by (auto simp: rows_in_def k(2))
    then have ne: "rows_in u \<noteq> []" by auto
    let ?v = "map the_real (map snd (rows_in u))"
    have "foldr max (tl ?v) (hd ?v) \<in> set ?v" "foldr min (tl ?v) (hd ?v) \<in> set ?v"
      using extreme_in [of ?v] ne by simp_all
    then obtain k r k' r' where "(k, r) \<in> set (rows_in u)" "foldr max (tl ?v) (hd ?v) = the_real r"
      "(k', r') \<in> set (rows_in u)" "foldr min (tl ?v) (hd ?v) = the_real r'" by auto
    then show ?thesis using v by (fastforce simp: variable_group_def Let_def list_all_iff split: option.splits)
  qed
  have "int (card uids) = max_groups" if "k \<in> set dropped" "variable_group expected width (rows_in (group_uid k))" for k
    using that full acc [of "group_uid k"] by (auto simp: R(2) card)
  moreover have "length ?G = length accepted + length (filter (\<lambda>g. \<not> ?ok g) ?G)"
    by (simp add: accepted_def sum_length_filter_compl)
  then have "gc_generated_groups counts = gc_accepted_groups counts + gc_constant_groups counts + gc_excess_variable_groups counts"
    by (simp add: R(3-6) selected_def)
  ultimately show ?thesis using R(1,2,4) card most group_ok by (simp add: uids)
qed

lemma two_groups_run:
  "select_reward_variable_groups [''a_0_0'', ''a_1_0'', ''b_0_0''] [Fin 1, Fin 0, Fin 1] 0 1 None
    = Inr ([''a_0_0'', ''a_1_0''], [''b_0_0''],
        \<lparr>gc_generated_groups = 2, gc_accepted_groups = 1, gc_constant_groups = 1, gc_excess_variable_groups = 0\<rparr>)"
  by (simp add: select_reward_variable_groups_def reward_groups_def group_uid_def variable_group_def Let_def)

theorem reward_groups_selected_witness:
  "\<exists>kept dropped counts. select_reward_variable_groups [''a_0_0'', ''a_1_0'', ''b_0_0''] [Fin 1, Fin 0, Fin 1] 0 1 None
      = Inr (kept, dropped, counts) \<and> card (set (map group_uid kept)) = 1"
  using reward_groups_selected [OF two_groups_run] two_groups_run by auto

end
