(* ===== verification/Balance.thy ===== *)
theory Balance
  imports Evidence "HOL-Library.Multiset"
begin

text \<open>
  Sequence-length balancing of the training engine (\<open>verl/utils/seqlen_balancing.py\<close>): the
  Karmarkar-Karp differencing method over a heap, the greedy assignment, the checked entry point, the
  rearrangement of a batch into micro-batches and its inverse. Sequence lengths and workloads are
  unbounded Python integers. The heap is Python's \<open>heapq\<close>, modelled as its two sifting loops.
\<close>

section \<open>Heaps\<close>

text \<open>\<open>heapq._siftdown\<close> from position \<open>pos\<close> towards the root, with the item in hand.\<close>

fun sift_down :: "('a \<Rightarrow> 'a \<Rightarrow> bool) \<Rightarrow> 'a \<Rightarrow> 'a list \<Rightarrow> nat \<Rightarrow> 'a list" where
  "sift_down lt newitem heap pos =
     (if pos = 0 then heap[pos := newitem]
      else let parentpos = (pos - 1) div 2 in
        if lt newitem (heap ! parentpos) then sift_down lt newitem (heap[pos := heap ! parentpos]) parentpos
        else heap[pos := newitem])"

declare sift_down.simps [simp del]

text \<open>\<open>heapq._siftup\<close> from the root: the smaller child moves up until a leaf is reached.\<close>

function sift_up :: "('a \<Rightarrow> 'a \<Rightarrow> bool) \<Rightarrow> 'a \<Rightarrow> 'a list \<Rightarrow> nat \<Rightarrow> 'a list" where
  "sift_up lt newitem heap pos =
     (let child = 2 * pos + 1 in
      if child < length heap
      then let child = (if child + 1 < length heap \<and> \<not> lt (heap ! child) (heap ! (child + 1)) then child + 1 else child)
        in sift_up lt newitem (heap[pos := heap ! child]) child
      else sift_down lt newitem (heap[pos := newitem]) pos)"
  by auto
termination by (relation "measure (\<lambda>(lt, newitem, heap, pos). length heap - pos)") (auto simp: Let_def)

declare sift_up.simps [simp del]

definition heappush :: "('a \<Rightarrow> 'a \<Rightarrow> bool) \<Rightarrow> 'a \<Rightarrow> 'a list \<Rightarrow> 'a list" where
  "heappush lt item heap = sift_down lt item (heap @ [item]) (length heap)"

text \<open>A nonempty heap; the caller tests the length.\<close>

definition heappop :: "('a \<Rightarrow> 'a \<Rightarrow> bool) \<Rightarrow> 'a list \<Rightarrow> 'a \<times> 'a list" where
  "heappop lt heap =
     (let lastelt = last heap; heap = butlast heap in
      if heap = [] then (lastelt, []) else (heap ! 0, sift_up lt lastelt (heap[0 := lastelt]) 0))"

lemma mset_swap_in:
  "i < length xs \<Longrightarrow> j < length xs \<Longrightarrow> i \<noteq> j \<Longrightarrow> mset (xs[i := xs ! j, j := x]) = mset (xs[i := x])"
  using mset_swap [of i "xs[i := x]" j] by (simp add: list_update_swap [of j i])

lemma mset_sift_down: "pos < length heap \<Longrightarrow> mset (sift_down lt newitem heap pos) = mset (heap[pos := newitem])"
proof (induction lt newitem heap pos rule: sift_down.induct)
  case (1 lt newitem heap pos)
  show ?case
  proof (cases "pos = 0 \<or> \<not> lt newitem (heap ! ((pos - 1) div 2))")
    case True
    then show ?thesis by (subst sift_down.simps) (auto simp: Let_def)
  next
    case False
    then have p: "pos \<noteq> 0" "lt newitem (heap ! ((pos - 1) div 2))" by auto
    then have "(pos - 1) div 2 < pos" by auto
    with 1(2) p show ?thesis
      by (subst sift_down.simps) (simp add: Let_def 1(1) mset_swap_in)
  qed
qed

lemma mset_sift_up: "pos < length heap \<Longrightarrow> mset (sift_up lt newitem heap pos) = mset (heap[pos := newitem])"
proof (induction lt newitem heap pos rule: sift_up.induct)
  case (1 lt newitem heap pos)
  let ?c = "if 2 * pos + 1 + 1 < length heap \<and> \<not> lt (heap ! (2 * pos + 1)) (heap ! (2 * pos + 1 + 1))
    then 2 * pos + 1 + 1 else 2 * pos + 1"
  show ?case
  proof (cases "2 * pos + 1 < length heap")
    case True
    then have c: "?c < length heap" "?c \<noteq> pos" by auto
    have "mset (sift_up lt newitem heap pos) = mset (sift_up lt newitem (heap[pos := heap ! ?c]) ?c)"
      using True by (subst sift_up.simps) (simp add: Let_def)
    also have "\<dots> = mset (heap[pos := heap ! ?c, ?c := newitem])"
      using 1(1) [OF refl True refl] c by simp
    also have "\<dots> = mset (heap[pos := newitem])" using mset_swap_in [OF 1(2) c(1)] c(2) by metis
    finally show ?thesis .
  next
    case False
    then show ?thesis using 1(2) by (subst sift_up.simps) (simp add: Let_def mset_sift_down)
  qed
qed

text \<open>What the differencing method needs of its queue: no state is lost or invented.\<close>

locale multiset_queue =
  fixes push :: "'a \<Rightarrow> 'a list \<Rightarrow> 'a list" and pop :: "'a list \<Rightarrow> 'a \<times> 'a list"
  assumes mset_push: "mset (push x q) = add_mset x (mset q)"
    and mset_pop: "q \<noteq> [] \<Longrightarrow> add_mset (fst (pop q)) (mset (snd (pop q))) = mset q"
begin

lemma length_push: "length (push x q) = Suc (length q)"
  using mset_push [of x q] by (metis size_add_mset size_mset)

lemma length_pop: "q \<noteq> [] \<Longrightarrow> Suc (length (snd (pop q))) = length q"
  using mset_pop [of q] by (metis size_add_mset size_mset)

lemma pop_pop:
  assumes "1 < length q" "pop q = (x, q1)" "pop q1 = (y, q2)"
  shows "mset q = add_mset x (add_mset y (mset q2))" "length q = Suc (Suc (length q2))"
proof -
  have "q \<noteq> []" using assms(1) by auto
  then have q: "mset q = add_mset x (mset q1)" using mset_pop [of q] assms(2) by simp
  have "length q = Suc (length q1)" using length_pop [of q] assms(2) \<open>q \<noteq> []\<close> by simp
  then have "q1 \<noteq> []" using assms(1) by auto
  then show "mset q = add_mset x (add_mset y (mset q2))" "length q = Suc (Suc (length q2))"
    using mset_pop [of q1] length_pop [of q1] assms(3) q \<open>length q = Suc (length q1)\<close> by simp_all
qed

end

interpretation heapq: multiset_queue "heappush lt" "heappop lt" for lt
proof
  show "mset (heappush lt x q) = add_mset x (mset q)" for x and q :: "'a list"
    by (simp add: heappush_def mset_sift_down)
  show "add_mset (fst (heappop lt q)) (mset (snd (heappop lt q))) = mset q" if "q \<noteq> []" for q :: "'a list"
  proof (cases "butlast q")
    case Nil
    then have "q = [last q]" using that by (metis append_butlast_last_id append_Nil)
    then have "mset q = {#last q#}" by (metis mset_single_iff_right)
    then show ?thesis using Nil by (simp add: heappop_def Let_def)
  next
    case (Cons b bs)
    then have "mset q = add_mset (last q) (mset (b # bs))"
      using that append_butlast_last_id [of q] by (metis mset_append mset_single_iff add_mset_add_single mset.simps(2) union_commute)
    then show ?thesis using Cons by (simp add: heappop_def Let_def mset_sift_up)
  qed
qed

section \<open>Sets and states\<close>

text \<open>The class \<open>Set\<close>: a sum and the items \<open>(idx, val)\<close> it was built from, ordered by sum, then by
  the number of items, then by the items.\<close>

datatype item_set = ItemSet (is_sum: int) (is_items: "(nat \<times> int) list")

text \<open>\<open>Set.__lt__\<close>.\<close>

definition set_less :: "item_set \<Rightarrow> item_set \<Rightarrow> bool" where
  "set_less a b \<longleftrightarrow>
     (if is_sum a \<noteq> is_sum b then is_sum a < is_sum b
      else if length (is_items a) \<noteq> length (is_items b) then length (is_items a) < length (is_items b)
      else is_items a < is_items b)"

instantiation item_set :: linorder
begin

definition less_item_set :: "item_set \<Rightarrow> item_set \<Rightarrow> bool" where
  "less_item_set a b \<longleftrightarrow> set_less a b"

definition less_eq_item_set :: "item_set \<Rightarrow> item_set \<Rightarrow> bool" where
  "less_eq_item_set a b \<longleftrightarrow> a < b \<or> a = b"

instance
  by standard (auto simp: set_less_def less_item_set_def less_eq_item_set_def intro: item_set.expand split: if_splits)

end

definition empty_set :: item_set where "empty_set = ItemSet 0 []"

definition set_add :: "nat \<Rightarrow> int \<Rightarrow> item_set \<Rightarrow> item_set" where
  "set_add idx v s = ItemSet (is_sum s + v) (is_items s @ [(idx, v)])"

definition set_merge :: "item_set \<Rightarrow> item_set \<Rightarrow> item_set" where
  "set_merge s other = foldl (\<lambda>s (idx, v). set_add idx v s) s (is_items other)"

text \<open>The class \<open>State\<close>: \<open>k\<close> sets in decreasing order. \<open>sorted(..., reverse=True)\<close> is stable, but equal
  sets have equal items.\<close>

type_synonym kk_state = "item_set list"

definition sorted_reverse :: "item_set list \<Rightarrow> item_set list" where
  "sorted_reverse sets = rev (sort sets)"

definition init_state :: "(nat \<times> int) list \<Rightarrow> nat \<Rightarrow> kk_state res" where
  "init_state items k =
     (if length items \<notin> {1, k} then Inl (AssertionError ''not in [1, k]'')
      else if k < length items then Inl (IndexError ''list index out of range'')
      else Inr (sorted_reverse (map (\<lambda>(idx, v). set_add idx v empty_set) items @ replicate (k - length items) empty_set)))"

definition get_partitions :: "kk_state \<Rightarrow> nat list list" where
  "get_partitions st = map (\<lambda>s. map fst (is_items s)) st"

definition state_merge :: "kk_state \<Rightarrow> kk_state \<Rightarrow> kk_state" where
  "state_merge st other = sorted_reverse (map2 set_merge st (rev other))"

definition state_spread :: "kk_state \<Rightarrow> int" where
  "state_spread st = is_sum (hd st) - is_sum (last st)"

definition state_lt :: "kk_state \<Rightarrow> kk_state \<Rightarrow> bool" where
  "state_lt st other = (if state_spread st \<noteq> state_spread other then state_spread st > state_spread other else hd st > hd other)"

section \<open>The differencing method\<close>

text \<open>The loop that merges the two states with the largest spread.\<close>

function kk_loop :: "kk_state list \<Rightarrow> kk_state list" where
  "kk_loop states_pq =
     (if 1 < length states_pq
      then let (state0, q1) = heappop state_lt states_pq; (state1, q2) = heappop state_lt q1
        in kk_loop (heappush state_lt (state_merge state0 state1) q2)
      else states_pq)"
  by auto
termination
proof (relation "measure length")
  fix q state0 q1 and xy and state1 q2 and uv
  assume *: "1 < length (q :: kk_state list)" "xy = heappop state_lt q" "(state0, q1) = xy"
    "uv = heappop state_lt q1" "(state1, q2) = uv"
  from heapq.pop_pop [of q state_lt state0 q1 state1 q2] *
  show "(heappush state_lt (state_merge state0 state1) q2, q) \<in> measure length"
    by (simp add: heapq.length_push)
qed simp

declare kk_loop.simps [simp del]

definition push_states :: "kk_state list \<Rightarrow> kk_state list" where
  "push_states sts = foldl (\<lambda>q st. heappush state_lt st q) [] sts"

definition kk_groups :: "(int \<times> nat) list \<Rightarrow> nat \<Rightarrow> bool \<Rightarrow> (nat \<times> int) list list res" where
  "kk_groups sorted_seqlen k equal_size =
     (let items = map (\<lambda>(seqlen, idx). (idx, seqlen)) sorted_seqlen in
      if \<not> equal_size then Inr (map (\<lambda>it. [it]) items)
      else if k = 0 then Inl (ZeroDivisionError ''integer modulo by zero'')
      else if length items mod k \<noteq> 0 then Inl (AssertionError ''not divisible'')
      else Inr (map (\<lambda>offset. slice offset (offset + k) items) (range_from 0 (length items) k)))"

definition karmarkar_karp :: "int list \<Rightarrow> nat \<Rightarrow> bool \<Rightarrow> nat list list res" where
  "karmarkar_karp seqlens k equal_size =
     rbind (kk_groups (sort (zip seqlens [0..<length seqlens])) k equal_size) (\<lambda>groups.
     rbind (rmap (\<lambda>items. init_state items k) groups) (\<lambda>sts.
     case kk_loop (push_states sts) of
       [] \<Rightarrow> Inl (IndexError ''list index out of range'')
     | final_state # _ \<Rightarrow>
         let partitions = get_partitions final_state in
         if equal_size \<and> list_ex (\<lambda>p. length p * k \<noteq> length seqlens) partitions
         then Inl (AssertionError ''partition size'') else Inr partitions))"

definition check_and_sort_partitions :: "nat \<Rightarrow> nat \<Rightarrow> nat list list \<Rightarrow> nat list list res" where
  "check_and_sort_partitions n k partitions =
     (if length partitions \<noteq> k then Inl (AssertionError ''number of partitions'')
      else if [] \<in> set partitions then Inl (AssertionError ''the partition is empty'')
      else if set (concat partitions) \<noteq> {..<n} then Inl (AssertionError ''seen_idx'')
      else Inr (map sort partitions))"

definition get_seqlen_balanced_partitions :: "int list \<Rightarrow> nat \<Rightarrow> bool \<Rightarrow> nat list list res" where
  "get_seqlen_balanced_partitions seqlens k equal_size =
     (if length seqlens < k then Inl (AssertionError ''number of items < k_partitions'')
      else rbind (karmarkar_karp seqlens k equal_size) (check_and_sort_partitions (length seqlens) k))"

section \<open>Greedy assignment\<close>

text \<open>The index of the first smallest sum; \<open>None\<close> without partitions.\<close>

definition first_min_index :: "int list \<Rightarrow> nat option" where
  "first_min_index totals =
     foldl (\<lambda>min_idx j. case min_idx of None \<Rightarrow> Some j | Some i \<Rightarrow> if totals ! j < totals ! i then Some j else Some i)
       None [0..<length totals]"

fun greedy_loop :: "(int \<times> nat) list \<Rightarrow> nat list list \<Rightarrow> int list \<Rightarrow> nat list list res" where
  "greedy_loop [] partitions totals = Inr partitions"
| "greedy_loop ((seqlen, i) # rest) partitions totals =
     (case first_min_index totals of
        None \<Rightarrow> Inl (TypeError ''list indices must be integers or slices'')
      | Some m \<Rightarrow> greedy_loop rest (partitions[m := partitions ! m @ [i]]) (totals[m := totals ! m + seqlen]))"

definition greedy_partition :: "int list \<Rightarrow> nat \<Rightarrow> bool \<Rightarrow> nat list list res" where
  "greedy_partition seqlens k equal_size =
     (let bias = (if equal_size then sum_list seqlens + 1 else 0);
          biased = map (\<lambda>(i, seqlen). (seqlen + bias, i)) (enumerate 0 seqlens)
      in rbind (greedy_loop biased (replicate k []) (replicate k 0)) (\<lambda>partitions.
        if equal_size \<and> list_ex (\<lambda>p. length p * k \<noteq> length seqlens) partitions
        then Inl (AssertionError ''partition size'') else Inr partitions))"

end
