(* ===== verification/MicroBatch.thy ===== *)
theory MicroBatch
  imports Balance
begin

text \<open>
  Dynamic micro-batches (\<open>verl/utils/seqlen_balancing.py\<close>): \<open>rearrange_micro_batches\<close>,
  \<open>restore_dynamic_batch\<close>, the partition that keeps prompt groups together, and the imbalance
  report. A micro-batch is the list of the row indices it selects; the all-reduce of the number of
  micro-batches is the maximum with the counts of the other ranks, which are an argument.
\<close>

section \<open>Workloads and divisions\<close>

definition calculate_workload :: "int list \<Rightarrow> int list" where
  "calculate_workload seqlens = map (\<lambda>s. 24576 * s + s ^ 2) seqlens"

text \<open>Python's floor division is \<open>div\<close>, also on negative operands.\<close>

definition ceildiv :: "int \<Rightarrow> int \<Rightarrow> int" where
  "ceildiv a b = - (a div (- b))"

definition roundup_divisible :: "int \<Rightarrow> int \<Rightarrow> int" where
  "roundup_divisible a b = ((a + b - 1) div b) * b"

section \<open>Rearrangement\<close>

text \<open>The two forms of a batch: lengths of nested rows, or a padded attention mask and its width.\<close>

datatype batch_lens = NestedLens "nat list" | PaddedLens nat "bool list list"

fun seq_len_effective :: "batch_lens \<Rightarrow> int list" where
  "seq_len_effective (NestedLens lens) = map int lens"
| "seq_len_effective (PaddedLens width masks) = map (\<lambda>m. int (length (filter id m))) masks"

fun max_seq_len :: "batch_lens \<Rightarrow> int res" where
  "max_seq_len (NestedLens []) = Inl (ValueError ''max() iterable argument is empty'')"
| "max_seq_len (NestedLens (n # lens)) = Inr (int (foldl max n lens))"
| "max_seq_len (PaddedLens width masks) = Inr (int width)"

record micro_options =
  mi_max_token_len :: int
  mi_other_ranks :: "int list option"
  mi_num_batches_divided_by :: "int option"
  mi_min_num_micro_batch :: "int option"
  mi_use_dynamic_bsz_balance :: bool
  mi_force_group_size :: nat

definition num_micro_batches :: "micro_options \<Rightarrow> int \<Rightarrow> int \<Rightarrow> int res" where
  "num_micro_batches M total_seqlen num_groups =
     (if mi_max_token_len M = 0 then Inl (ZeroDivisionError ''integer division or modulo by zero'')
      else let count = min num_groups (ceildiv total_seqlen (mi_max_token_len M));
        count = (case mi_min_num_micro_batch M of None \<Rightarrow> count | Some m \<Rightarrow> max m count);
        count = (case mi_other_ranks M of None \<Rightarrow> count | Some others \<Rightarrow> foldl max count others)
      in rbind (case mi_num_batches_divided_by M of
            None \<Rightarrow> Inr count
          | Some d \<Rightarrow> if d = 0 then Inl (ZeroDivisionError ''integer division or modulo by zero'')
                      else Inr (roundup_divisible count d))
        (\<lambda>count. if num_groups < count then Inl (AssertionError ''num_micro_batches <= num_groups'') else Inr count))"

text \<open>\<open>xs[::n]\<close>, and the rows of the groups of a partition.\<close>

definition stride :: "nat \<Rightarrow> 'a list \<Rightarrow> 'a list" where
  "stride n xs = map (\<lambda>i. xs ! i) (range_from 0 (length xs) n)"

definition group_rows_of :: "nat \<Rightarrow> nat list \<Rightarrow> nat list" where
  "group_rows_of group_size group_idxs = concat (map (\<lambda>g. [g * group_size..<g * group_size + group_size]) group_idxs)"

definition group_workloads :: "nat \<Rightarrow> int list \<Rightarrow> int list" where
  "group_workloads group_size workloads = map (\<lambda>first. sum_list (slice first (first + group_size) workloads)) (range_from 0 (length workloads) group_size)"

definition partition_key :: "nat \<Rightarrow> int list \<Rightarrow> nat list \<Rightarrow> int \<times> nat" where
  "partition_key group_size workloads part =
     (sum_list (map (\<lambda>idx. workloads ! (idx div group_size)) (stride group_size part)),
      if part = [] then 0 else hd part)"

text \<open>A stable sort in reverse order, and the smaller micro-batches at both ends.\<close>

definition dynamic_order :: "nat \<Rightarrow> int list \<Rightarrow> nat list list \<Rightarrow> nat list list" where
  "dynamic_order group_size workloads partitions =
     (let ordered = rev (sort_key (partition_key group_size workloads) (rev partitions))
      in rev (stride 2 ordered) @ stride 2 (drop 1 ordered))"

definition rearrange_micro_batches :: "micro_options \<Rightarrow> batch_lens \<Rightarrow> nat list list res" where
  "rearrange_micro_batches M batch =
     rbind (max_seq_len batch) (\<lambda>longest.
     if mi_max_token_len M < longest
     then Inl (AssertionError ''max_token_len must be greater than the sequence length'')
     else let lens = seq_len_effective batch; group_size = mi_force_group_size M in
     if group_size = 0 then Inl (ZeroDivisionError ''integer modulo by zero'')
     else if length lens mod group_size \<noteq> 0 then Inl (AssertionError ''Batch size must be divisible by force_group_size'')
     else let num_groups = length lens div group_size in
     rbind (num_micro_batches M (sum_list lens) (int num_groups)) (\<lambda>count.
     let workloads = (if 1 < group_size then group_workloads group_size (calculate_workload lens) else calculate_workload lens) in
     rbind (get_seqlen_balanced_partitions workloads (nat count) False) (\<lambda>partitions.
     let micro_bsz_idx = (if 1 < group_size then map (group_rows_of group_size) partitions else partitions)
     in Inr (if mi_use_dynamic_bsz_balance M then dynamic_order group_size workloads micro_bsz_idx else micro_bsz_idx))))"

text \<open>\<open>index_select_tensor_dict\<close> on one field of the batch.\<close>

definition index_select :: "'a list \<Rightarrow> nat list \<Rightarrow> 'a list" where
  "index_select rows indices = map (\<lambda>i. rows ! i) indices"

section \<open>Restoring the order\<close>

definition get_reverse_idx :: "nat list \<Rightarrow> nat list res" where
  "get_reverse_idx idx_map =
     (if list_ex (\<lambda>idx. length idx_map \<le> idx) idx_map then Inl (IndexError ''list assignment index out of range'')
      else Inr (foldl (\<lambda>reverse_idx_map (i, idx). reverse_idx_map[idx := i]) idx_map (enumerate 0 idx_map)))"

definition restore_dynamic_batch :: "'a list \<Rightarrow> nat list list \<Rightarrow> 'a list res" where
  "restore_dynamic_batch rows batch_idx_list =
     (let indices = concat batch_idx_list in
      if length indices \<noteq> length rows then Inl (AssertionError ''number of indices'')
      else rbind (get_reverse_idx indices) (\<lambda>revert_indices. Inr (index_select rows revert_indices)))"

section \<open>Groups of one prompt\<close>

text \<open>The runs of equal uids, with their rows.\<close>

fun uid_runs :: "nat \<Rightarrow> 'u list \<Rightarrow> 'u option \<Rightarrow> nat list \<Rightarrow> nat list list \<Rightarrow> nat list list" where
  "uid_runs i [] current_uid current_indices groups =
     (if current_indices = [] then groups else groups @ [current_indices])"
| "uid_runs i (uid # uids) current_uid current_indices groups =
     (if Some uid \<noteq> current_uid
      then uid_runs (i + 1) uids (Some uid) [i] (if current_indices = [] then groups else groups @ [current_indices])
      else uid_runs (i + 1) uids current_uid (current_indices @ [i]) groups)"

definition get_group_balanced_partitions :: "int list \<Rightarrow> 'u list \<Rightarrow> nat \<Rightarrow> nat list list res" where
  "get_group_balanced_partitions seqlens uids k =
     (if length seqlens \<noteq> length uids then Inl (AssertionError ''seqlen_list and uid_list must have same length'')
      else let groups = uid_runs 0 uids None [] [] in
      if length groups < k then Inl (AssertionError ''Number of uid groups must be >= k_partitions'')
      else let workloads = map (\<lambda>indices. sum_list (map (\<lambda>i. hd (calculate_workload [seqlens ! i])) indices)) groups in
      rbind (get_seqlen_balanced_partitions workloads k True) (\<lambda>group_partitions.
        Inr (map (\<lambda>group_partition. sort (concat (map (\<lambda>g. groups ! g) group_partition))) group_partitions)))"

section \<open>The imbalance report\<close>

definition log_seqlen_unbalance :: "int list \<Rightarrow> nat list list \<Rightarrow> string \<Rightarrow> (string \<times> real) list res" where
  "log_seqlen_unbalance seqlens partitions prefix_name =
     (if partitions = [] then Inl (ZeroDivisionError ''integer division or modulo by zero'')
      else let batch_size = length seqlens div length partitions in
      if batch_size = 0 then Inl (ValueError ''range() arg 3 must not be zero'')
      else let
        totals = map (\<lambda>offset. sum_list (slice offset (offset + batch_size) seqlens)) (range_from 0 (length seqlens) batch_size);
        balanced = map (\<lambda>p. sum_list (map (\<lambda>i. seqlens ! i) p)) partitions;
        least = (\<lambda>xs. foldl min (hd xs) (tl xs)); greatest = (\<lambda>xs. foldl max (hd xs) (tl xs));
        name = (\<lambda>s. prefix_name @ ''/'' @ s)
      in Inr [(name ''min'', of_int (least totals)), (name ''max'', of_int (greatest totals)),
         (name ''minmax_diff'', of_int (greatest totals - least totals)), (name ''balanced_min'', of_int (least balanced)),
         (name ''balanced_max'', of_int (greatest balanced)),
         (name ''mean'', of_int (sum_list totals) / real (length partitions))])"

end
