(* ===== verification/BalanceProps.thy ===== *)
theory BalanceProps
  imports MicroBatch
begin

text \<open>
  Properties of sequence-length balancing: the differencing method distributes every index once over
  nonempty (or equally large) partitions whose sums differ by at most one item, the greedy method
  is balanced in size, micro-batches are a rearrangement of the batch that the restoring step undoes,
  and prompt groups stay together.
\<close>

section \<open>Item sets\<close>

definition set_ok :: "item_set \<Rightarrow> bool" where
  "set_ok s \<longleftrightarrow> is_sum s = sum_list (map snd (is_items s)) \<and> (\<forall>(idx, v) \<in> set (is_items s). 0 \<le> v)"

lemma set_merge_simp [simp]:
  "is_items (set_merge s t) = is_items s @ is_items t"
  "is_sum (set_merge s t) = is_sum s + sum_list (map snd (is_items t))"
proof -
  have "is_items (foldl (\<lambda>s (idx, v). set_add idx v s) s xs) = is_items s @ xs
      \<and> is_sum (foldl (\<lambda>s (idx, v). set_add idx v s) s xs) = is_sum s + sum_list (map snd xs)" for xs
    by (induction xs arbitrary: s) (auto simp: set_add_def)
  then show "is_items (set_merge s t) = is_items s @ is_items t"
    "is_sum (set_merge s t) = is_sum s + sum_list (map snd (is_items t))" by (simp_all add: set_merge_def)
qed

lemma set_merge_ok: "set_ok s \<Longrightarrow> set_ok t \<Longrightarrow> set_ok (set_merge s t) \<and> is_sum (set_merge s t) = is_sum s + is_sum t"
  by (auto simp: set_ok_def)

lemma set_ok_sum_nonneg: "set_ok s \<Longrightarrow> 0 \<le> is_sum s"
  by (fastforce simp: set_ok_def intro!: sum_list_nonneg)

lemma item_set_le_sum: "a \<le> b \<Longrightarrow> is_sum a \<le> is_sum b" for a b :: item_set
  by (auto simp: less_eq_item_set_def less_item_set_def set_less_def split: if_splits)

text \<open>Below an empty set there are only empty sets.\<close>

lemma below_empty: "a \<le> b \<Longrightarrow> is_items b = [] \<Longrightarrow> set_ok a \<Longrightarrow> set_ok b \<Longrightarrow> is_items a = []" for a b :: item_set
  using set_ok_sum_nonneg [of a] by (auto simp: less_eq_item_set_def less_item_set_def set_less_def set_ok_def split: if_splits)

section \<open>States\<close>

definition num_items :: "kk_state \<Rightarrow> nat" where
  "num_items st = sum_list (map (\<lambda>s. length (is_items s)) st)"

definition used :: "kk_state \<Rightarrow> nat" where
  "used st = length (filter (\<lambda>s. is_items s \<noteq> []) st)"

definition state_items :: "kk_state \<Rightarrow> (nat \<times> int) multiset" where
  "state_items st = mset (concat (map is_items st))"

text \<open>\<open>k\<close> well-formed sets in decreasing order, whose sums differ by at most \<open>M\<close>, as many of them
  used as there are items to use.\<close>

definition state_ok :: "nat \<Rightarrow> int \<Rightarrow> kk_state \<Rightarrow> bool" where
  "state_ok k M st \<longleftrightarrow> length st = k \<and> (\<forall>s \<in> set st. set_ok s) \<and> sorted (rev st)
     \<and> (\<forall>s \<in> set st. \<forall>t \<in> set st. is_sum s - is_sum t \<le> M) \<and> min k (num_items st) \<le> used st"

lemma mset_sorted_reverse [simp]: "mset (sorted_reverse sets) = mset sets"
  by (simp add: sorted_reverse_def)

lemma sorted_reverse_facts [simp]:
  "set (sorted_reverse sets) = set sets" "length (sorted_reverse sets) = length sets" "sorted (rev (sorted_reverse sets))"
  by (simp_all add: sorted_reverse_def)

lemma sum_list_mset_eq: "mset xs = mset ys \<Longrightarrow> sum_list (map f xs) = (sum_list (map f ys) :: nat)"
  by (metis mset_map sum_mset_sum_list)

lemma reverse_invariants [simp]:
  "num_items (sorted_reverse sets) = num_items sets" "used (sorted_reverse sets) = used sets"
  "state_items (sorted_reverse sets) = state_items sets"
proof -
  show "num_items (sorted_reverse sets) = num_items sets"
    unfolding num_items_def by (rule sum_list_mset_eq) simp
  have "mset (filter (\<lambda>s. is_items s \<noteq> []) (sorted_reverse sets)) = mset (filter (\<lambda>s. is_items s \<noteq> []) sets)"
    by (simp add: mset_filter)
  then show "used (sorted_reverse sets) = used sets" unfolding used_def by (metis size_mset)
  show "state_items (sorted_reverse sets) = state_items sets"
    unfolding state_items_def mset_concat sum_mset_sum_list [symmetric] mset_map mset_sorted_reverse ..
qed

lemma concat_merge:
  "length a = length b \<Longrightarrow> mset (concat (map is_items (map2 set_merge a b))) = mset (concat (map is_items a)) + mset (concat (map is_items b))"
  by (induction a b rule: list_induct2) auto

lemma state_merge_items:
  assumes "length a = length b"
  shows "state_items (state_merge a b) = state_items a + state_items b"
proof -
  have "mset (concat (map is_items (rev b))) = state_items b"
    by (simp add: state_items_def mset_concat rev_map [symmetric])
  then show ?thesis
    using concat_merge [of a "rev b"] assms unfolding state_merge_def reverse_invariants by (simp add: state_items_def)
qed

lemma num_items_size: "num_items st = size (state_items st)"
  by (simp add: num_items_def state_items_def length_concat comp_def)

lemma used_prefix:
  assumes "sorted (rev st)" "\<forall>s \<in> set st. set_ok s" "i < length st"
  shows "is_items (st ! i) \<noteq> [] \<longleftrightarrow> i < used st"
  using assms
proof (induction st arbitrary: i)
  case (Cons s st)
  have le: "t \<le> s" if "t \<in> set st" for t using Cons.prems(1) that by (auto simp: sorted_append)
  have IH: "is_items (st ! i) \<noteq> [] \<longleftrightarrow> i < used st" if "i < length st" for i
    using Cons.IH [of i] Cons.prems that by (auto simp: sorted_append)
  show ?case
  proof (cases "is_items s = []")
    case True
    then have none: "is_items t = []" if "t \<in> set st" for t
      using below_empty [OF le [OF that]] Cons.prems(2) that by auto
    then have "used (s # st) = 0" using True by (simp add: used_def filter_empty_conv)
    moreover have "is_items ((s # st) ! i) = []" using True none Cons.prems(3) by (cases i) auto
    ultimately show ?thesis by simp
  next
    case False
    then have "used (s # st) = Suc (used st)" by (simp add: used_def)
    then show ?thesis using False IH Cons.prems(3) by (cases i) auto
  qed
qed simp

lemma used_card: "used st = card {i. i < length st \<and> is_items (st ! i) \<noteq> []}"
  by (simp add: used_def length_filter_conv_card)

lemma cover_card:
  assumes "p \<le> k" "q \<le> k"
  shows "min k (p + q) \<le> card {i. i < k \<and> (i < p \<or> k - q \<le> i)}"
proof (cases "p + q \<le> k")
  case True
  have "{i. i < k \<and> (i < p \<or> k - q \<le> i)} = {..<p} \<union> {k - q..<k}" using assms True by auto
  moreover have "card ({..<p} \<union> {k - q..<k}) = p + q"
    using assms True by (subst card_Un_disjoint) auto
  ultimately show ?thesis by simp
next
  case False
  then have "{i. i < k \<and> (i < p \<or> k - q \<le> i)} = {..<k}" by auto
  then show ?thesis by simp
qed

lemma state_merge_ok:
  assumes a: "state_ok k M a" and b: "state_ok k M b"
  shows "state_ok k M (state_merge a b)"
proof -
  note A = a [unfolded state_ok_def] and B = b [unfolded state_ok_def]
  let ?m = "map2 set_merge a (rev b)"
  have len: "length a = k" "length (rev b) = k" using A B by simp_all
  have at: "?m ! i = set_merge (a ! i) (rev b ! i)" if "i < k" for i using that len by simp
  have ok_at: "set_ok (a ! i)" "set_ok (rev b ! i)" if "i < k" for i
    using A B that nth_mem [of i a] nth_mem [of i "rev b"] by auto
  have sum_at: "is_sum (?m ! i) = is_sum (a ! i) + is_sum (rev b ! i)" if "i < k" for i
    using set_merge_ok [OF ok_at [OF that]] by (simp add: at that)
  have in_m: "\<exists>i < k. s = ?m ! i" if "s \<in> set ?m" for s
    using that len by (metis in_set_conv_nth length_map length_zip min.idem)
  have ok: "\<forall>s \<in> set ?m. set_ok s"
    using set_merge_ok ok_at at in_m by metis
  have down: "is_sum (a ! j) \<le> is_sum (a ! i)" if "i \<le> j" "j < k" for i j
  proof (rule item_set_le_sum)
    have "rev a ! (k - 1 - j) \<le> rev a ! (k - 1 - i)"
      using A that by (intro sorted_nth_mono) auto
    then show "a ! j \<le> a ! i" using that len by (simp add: rev_nth)
  qed
  have up: "is_sum (rev b ! i) \<le> is_sum (rev b ! j)" if "i \<le> j" "j < k" for i j
    using B that by (intro item_set_le_sum sorted_nth_mono) auto
  have close: "is_sum (a ! i) - is_sum (a ! j) \<le> M" "is_sum (rev b ! i) - is_sum (rev b ! j) \<le> M" if "i < k" "j < k" for i j
    using A B len that nth_mem [of i a] nth_mem [of j a] nth_mem [of i "rev b"] nth_mem [of j "rev b"] by auto
  have diff: "is_sum (?m ! i) - is_sum (?m ! j) \<le> M" if "i < k" "j < k" for i j
  proof (cases "i \<le> j")
    case True
    then show ?thesis using sum_at that up [OF True that(2)] close(1) [OF that] by simp
  next
    case False
    then show ?thesis using sum_at that down [of j i] close(2) [OF that] by simp
  qed
  have rs: "is_items (rev b ! i) \<noteq> [] \<longleftrightarrow> k - used b \<le> i" if "i < k" for i
  proof -
    have "used b \<le> k" using B by (auto simp: used_def)
    moreover have "rev b ! i = b ! (k - 1 - i)" using that B by (simp add: rev_nth)
    ultimately show ?thesis using used_prefix [of b "k - 1 - i"] B that by auto
  qed
  have it: "is_items (?m ! i) \<noteq> [] \<longleftrightarrow> i < used a \<or> k - used b \<le> i" if "i < k" for i
    using at [OF that] rs [OF that] used_prefix [of a i] A len(1) that by simp
  have "length ?m = k" using len by simp
  then have "{i. i < length ?m \<and> is_items (?m ! i) \<noteq> []} = {i. i < k \<and> (i < used a \<or> k - used b \<le> i)}"
    using it by (intro Collect_cong conj_cong) (simp_all only:)
  then have "used ?m = card {i. i < k \<and> (i < used a \<or> k - used b \<le> i)}" using used_card [of ?m] by simp
  then have "min k (used a + used b) \<le> used ?m"
    using cover_card [of "used a" k "used b"] len by (simp add: used_def length_filter_le [THEN order_trans])
  moreover have "num_items ?m = num_items a + num_items b"
    using state_merge_items [of a b] len by (simp add: num_items_size state_merge_def)
  ultimately have "min k (num_items ?m) \<le> used ?m" using A B by auto
  moreover have "is_sum s - is_sum t \<le> M" if "s \<in> set ?m" "t \<in> set ?m" for s t
    using in_m [OF that(1)] in_m [OF that(2)] diff by metis
  ultimately show ?thesis using ok \<open>length ?m = k\<close> by (simp add: state_ok_def state_merge_def)
qed

section \<open>The differencing loop\<close>

text \<open>The loop ends with one state; what every state satisfies and merging keeps, it satisfies, and a
  measure that merging adds up is the sum over the states it started from.\<close>

lemma kk_loop_rule:
  assumes "q \<noteq> []" and inv: "\<forall>st \<in> set q. I st"
    and merge: "\<And>a b. I a \<Longrightarrow> I b \<Longrightarrow> I (state_merge a b) \<and> items (state_merge a b) = items a + items b"
  shows "\<exists>st. kk_loop q = [st] \<and> I st \<and> items st = (\<Sum>s \<in># mset q. items s :: 'm :: comm_monoid_add)"
  using assms(1,2)
proof (induction q rule: kk_loop.induct)
  case (1 q)
  show ?case
  proof (cases "1 < length q")
    case True
    obtain a q1 where pop1: "heappop state_lt q = (a, q1)" by (cases "heappop state_lt q") auto
    obtain b q2 where pop2: "heappop state_lt q1 = (b, q2)" by (cases "heappop state_lt q1") auto
    let ?q = "heappush state_lt (state_merge a b) q2"
    note m = heapq.pop_pop(1) [OF True pop1 pop2]
    have ab: "I a" "I b" "\<forall>st \<in> set q2. I st"
      using 1(3) arg_cong [OF m, of set_mset] by auto
    have push: "mset ?q = add_mset (state_merge a b) (mset q2)" by (rule heapq.mset_push)
    have "set ?q = insert (state_merge a b) (set q2)" using arg_cong [OF push, of set_mset] by simp
    then have "?q \<noteq> []" "\<forall>st \<in> set ?q. I st" using ab merge [OF ab(1,2)] by (metis empty_iff insertCI list.set(1), simp)
    from 1(1) [OF True pop1 [symmetric] refl pop2 [symmetric] refl this]
    obtain st where st: "kk_loop ?q = [st]" "I st" "items st = (\<Sum>s \<in># mset ?q. items s)" by auto
    have "kk_loop q = [st]" using True st(1) by (subst kk_loop.simps) (simp add: pop1 pop2)
    moreover have "items st = (\<Sum>s \<in># mset q. items s)"
      using st(3) merge [OF ab(1,2)] unfolding push m by (simp add: add.assoc)
    ultimately show ?thesis using st(2) by blast
  next
    case False
    then obtain st where "q = [st]" using 1(2) by (cases q; cases "tl q") auto
    then show ?thesis using 1(3) by (subst kk_loop.simps) simp
  qed
qed

lemma mset_push_states: "mset (push_states sts) = mset sts"
proof -
  have "mset (foldl (\<lambda>q st. heappush state_lt st q) q sts) = mset q + mset sts" for q
    by (induction sts arbitrary: q) (simp_all add: heapq.mset_push)
  then show ?thesis by (simp add: push_states_def)
qed

section \<open>The first states\<close>

lemma init_single:
  assumes k: "1 \<le> k" and v: "0 \<le> v" "v \<le> M"
  shows "\<exists>st. init_state [(idx, v)] k = Inr st \<and> state_ok k M st \<and> state_items st = {#(idx, v)#}"
proof -
  let ?sets = "set_add idx v empty_set # replicate (k - 1) empty_set"
  have "init_state [(idx, v)] k = Inr (sorted_reverse ?sets)" using k by (simp add: init_state_def)
  moreover have "set_ok s" if "s \<in> set ?sets" for s
    using that v by (auto simp: set_ok_def set_add_def empty_set_def)
  moreover have "is_sum s - is_sum t \<le> M" if "s \<in> set ?sets" "t \<in> set ?sets" for s t
    using that v by (auto simp: set_add_def empty_set_def)
  moreover have "used ?sets = 1" "state_items ?sets = {#(idx, v)#}" "length ?sets = k"
    using k by (simp_all add: used_def state_items_def set_add_def empty_set_def)
  ultimately show ?thesis by (simp add: state_ok_def num_items_size)
qed

lemma init_full:
  assumes k: "length its = k" and v: "\<forall>(idx, v) \<in> set its. 0 \<le> v \<and> v \<le> M"
  shows "\<exists>st. init_state its k = Inr st \<and> state_ok k M st \<and> state_items st = mset its
    \<and> (\<forall>s \<in> set st. length (is_items s) = 1)"
proof -
  let ?sets = "map (\<lambda>(idx, v). set_add idx v empty_set) its"
  have one: "is_items (set_add idx v empty_set) = [(idx, v)]" "is_sum (set_add idx v empty_set) = v" for idx v
    by (simp_all add: set_add_def empty_set_def)
  have "init_state its k = Inr (sorted_reverse ?sets)" using k by (simp add: init_state_def)
  moreover have "set_ok s \<and> length (is_items s) = 1" if "s \<in> set ?sets" for s
    using that v by (auto simp: set_ok_def one)
  moreover have range: "0 \<le> is_sum s \<and> is_sum s \<le> M" if "s \<in> set ?sets" for s
    using that v by (auto simp: one)
  have "is_sum s - is_sum t \<le> M" if "s \<in> set ?sets" "t \<in> set ?sets" for s t
    using range [OF that(1)] range [OF that(2)] by simp
  moreover have "used ?sets = k" using k by (simp add: used_def one filter_map comp_def case_prod_beta)
  moreover have "concat (map is_items ?sets) = its" by (induction its) (auto simp: one)
  then have "state_items ?sets = mset its" by (simp only: state_items_def)
  ultimately show ?thesis using k by (auto simp: state_ok_def)
qed

lemma rmap_all:
  assumes "\<forall>x \<in> set xs. \<exists>y. f x = Inr y \<and> Q x y"
  shows "\<exists>ys. rmap f xs = Inr ys \<and> list_all2 Q xs ys"
  using assms by (induction xs) auto

lemma range_from_chunks:
  assumes "0 < k" "k dvd n" "k dvd s"
  shows "\<forall>x \<in> set (range_from s n k). x + k \<le> n"
  using assms
proof (induction s n k rule: range_from.induct)
  case (1 s n k)
  show ?case
  proof (cases "s < n")
    case True
    then have "s + k \<le> n" using 1(3,4) by (metis dvd_diff_nat le_imp_diff_is_add less_imp_le_nat nat_dvd_not_less not_le zero_less_diff add.commute add_diff_cancel_left' diff_le_mono2 le_diff_conv2)
    then show ?thesis using True 1 by (subst range_from.simps) simp
  next
    case False
    then show ?thesis by (subst range_from.simps) simp
  qed
qed

section \<open>The partitions\<close>

definition uniform :: "kk_state \<Rightarrow> bool" where
  "uniform st \<longleftrightarrow> (\<exists>c. \<forall>s \<in> set st. length (is_items s) = c)"

lemma uniform_merge: "uniform a \<Longrightarrow> uniform b \<Longrightarrow> uniform (state_merge a b)"
proof -
  assume "uniform a" "uniform b"
  then obtain c d where "\<forall>s \<in> set a. length (is_items s) = c" "\<forall>s \<in> set b. length (is_items s) = d"
    by (auto simp: uniform_def)
  then have "\<forall>s \<in> set (map2 set_merge a (rev b)). length (is_items s) = c + d"
    by (auto elim!: in_set_zipE)
  then show ?thesis by (auto simp: uniform_def state_merge_def)
qed

definition swapped :: "int list \<Rightarrow> (nat \<times> int) list" where
  "swapped seqlens = map (\<lambda>(seqlen, idx). (idx, seqlen)) (sort (zip seqlens [0..<length seqlens]))"

lemma swapped_facts:
  "length (swapped seqlens) = length seqlens" "mset (map fst (swapped seqlens)) = mset [0..<length seqlens]"
  "(idx, v) \<in> set (swapped seqlens) \<Longrightarrow> idx < length seqlens \<and> v = seqlens ! idx"
proof -
  show "length (swapped seqlens) = length seqlens" by (simp add: swapped_def)
  have "map fst (swapped seqlens) = map snd (sort (zip seqlens [0..<length seqlens]))"
    by (simp add: swapped_def case_prod_beta comp_def)
  then have "mset (map fst (swapped seqlens)) = mset (map snd (zip seqlens [0..<length seqlens]))"
    by (metis mset_map mset_sort)
  then show "mset (map fst (swapped seqlens)) = mset [0..<length seqlens]" by simp
  show "(idx, v) \<in> set (swapped seqlens) \<Longrightarrow> idx < length seqlens \<and> v = seqlens ! idx"
    by (auto simp: swapped_def set_zip)
qed

text \<open>The states of the first heap.\<close>

lemma kk_start:
  assumes k: "1 \<le> k" and eq: "equal \<Longrightarrow> k dvd length seqlens" and v: "\<forall>(idx, v) \<in> set (swapped seqlens). 0 \<le> v \<and> v \<le> M"
  shows "\<exists>groups sts. kk_groups (sort (zip seqlens [0..<length seqlens])) k equal = Inr groups
    \<and> rmap (\<lambda>items. init_state items k) groups = Inr sts
    \<and> (\<forall>st \<in> set sts. state_ok k M st \<and> (equal \<longrightarrow> uniform st))
    \<and> (\<Sum>st \<in># mset sts. state_items st) = mset (swapped seqlens)"
proof -
  define Q where "Q its st \<longleftrightarrow> state_ok k M st \<and> state_items st = mset its \<and> (equal \<longrightarrow> uniform st)" for its st
  have sums: "(\<Sum>st \<in># mset sts. state_items st) = mset (concat groups)" if "list_all2 Q groups sts" for groups sts
    using that by (induction rule: list_all2_induct) (auto simp: Q_def)
  have finish: ?thesis if g: "kk_groups (sort (zip seqlens [0..<length seqlens])) k equal = Inr groups"
      and c: "concat groups = swapped seqlens"
      and each: "\<forall>its \<in> set groups. \<exists>st. init_state its k = Inr st \<and> Q its st" for groups
  proof -
    obtain sts where S: "rmap (\<lambda>items. init_state items k) groups = Inr sts" "list_all2 Q groups sts"
      using rmap_all [OF each] by blast
    have "\<forall>st \<in> set sts. state_ok k M st \<and> (equal \<longrightarrow> uniform st)"
      using S(2) by (induction rule: list_all2_induct) (auto simp: Q_def)
    then show ?thesis using g S sums [OF S(2)] c by auto
  qed
  show ?thesis
  proof (cases equal)
    case False
    let ?groups = "map (\<lambda>it. [it]) (swapped seqlens)"
    have "kk_groups (sort (zip seqlens [0..<length seqlens])) k equal = Inr ?groups"
      using False by (simp add: kk_groups_def swapped_def)
    moreover have "concat ?groups = swapped seqlens" by (induction "swapped seqlens") simp_all
    moreover have "\<forall>its \<in> set ?groups. \<exists>st. init_state its k = Inr st \<and> Q its st"
      using init_single [OF k] v False by (fastforce simp: Q_def)
    ultimately show ?thesis by (rule finish)
  next
    case True
    let ?n = "length seqlens"
    let ?groups = "map (\<lambda>offset. slice offset (offset + k) (swapped seqlens)) (range_from 0 ?n k)"
    have chunks: "\<forall>x \<in> set (range_from 0 ?n k). x + k \<le> ?n"
      by (rule range_from_chunks) (use k eq True in auto)
    have "kk_groups (sort (zip seqlens [0..<?n])) k equal = Inr ?groups"
      using True k eq by (auto simp: kk_groups_def swapped_def Let_def dvd_eq_mod_eq_0)
    moreover have "concat ?groups = swapped seqlens"
      using chunk_cat_slice [of k "swapped seqlens" ?n] k chunks
      by (simp add: chunk_cat_def swapped_facts(1) cong: map_cong)
    moreover have "\<forall>its \<in> set ?groups. \<exists>st. init_state its k = Inr st \<and> Q its st"
    proof
      fix its assume "its \<in> set ?groups"
      then obtain x where x: "x + k \<le> ?n" "its = slice x (x + k) (swapped seqlens)" using chunks by auto
      have "length its = k" "set its \<subseteq> set (swapped seqlens)"
        using x by (auto simp: slice_def swapped_facts(1) dest!: in_set_takeD in_set_dropD)
      then obtain st where "init_state its k = Inr st" "state_ok k M st" "state_items st = mset its"
        "\<forall>s \<in> set st. length (is_items s) = 1"
        using init_full [of its k M] v by blast
      then show "\<exists>st. init_state its k = Inr st \<and> Q its st" by (auto simp: Q_def uniform_def)
    qed
    ultimately show ?thesis by (rule finish)
  qed
qed

lemma kk_result:
  assumes k: "1 \<le> k" "k \<le> length seqlens" and eq: "equal \<Longrightarrow> k dvd length seqlens"
    and v: "\<forall>s \<in> set seqlens. 0 \<le> s \<and> s \<le> M"
  shows "\<exists>st. karmarkar_karp seqlens k equal = Inr (get_partitions st) \<and> state_ok k M st
    \<and> state_items st = mset (swapped seqlens) \<and> (equal \<longrightarrow> (\<forall>s \<in> set st. length (is_items s) * k = length seqlens))"
proof -
  have v': "\<forall>(idx, v) \<in> set (swapped seqlens). 0 \<le> v \<and> v \<le> M" using swapped_facts(3) v by fastforce
  obtain groups sts where S: "kk_groups (sort (zip seqlens [0..<length seqlens])) k equal = Inr groups"
    "rmap (\<lambda>items. init_state items k) groups = Inr sts"
    "\<forall>st \<in> set sts. state_ok k M st \<and> (equal \<longrightarrow> uniform st)"
    "(\<Sum>st \<in># mset sts. state_items st) = mset (swapped seqlens)"
    using kk_start [OF k(1) eq v'] by blast
  have "sts \<noteq> []" using S(4) swapped_facts(1) [of seqlens] k by (auto simp del: length_0_conv)
  then have ne: "push_states sts \<noteq> []" using mset_push_states [of sts] by (metis mset_zero_iff)
  have set_eq: "set (push_states sts) = set sts" using mset_push_states by (metis set_mset_mset)
  define I where "I st \<longleftrightarrow> state_ok k M st \<and> (equal \<longrightarrow> uniform st)" for st
  have start: "\<forall>st \<in> set (push_states sts). I st" using S(3) by (simp add: set_eq I_def)
  have merge: "I (state_merge a b) \<and> state_items (state_merge a b) = state_items a + state_items b" if "I a" "I b" for a b
  proof -
    have "length a = length b" using that by (simp add: I_def state_ok_def)
    then show ?thesis using that state_merge_ok uniform_merge by (simp add: I_def state_merge_items)
  qed
  obtain st where st: "kk_loop (push_states sts) = [st]" "I st"
    "state_items st = (\<Sum>s \<in># mset (push_states sts). state_items s)"
    using kk_loop_rule [OF ne start merge] by blast
  have items: "state_items st = mset (swapped seqlens)" using st(3) S(4) by (simp add: mset_push_states)
  have sizes: "length (is_items s) * k = length seqlens" if eq: "equal" and mem: "s \<in> set st" for s
  proof -
    obtain c where c: "\<forall>s \<in> set st. length (is_items s) = c" using st(2) eq by (auto simp: I_def uniform_def)
    then have "num_items st = c * length st" by (simp add: num_items_def sum_list_const_mult cong: map_cong) (simp add: map_replicate_const sum_list_replicate)
    then show ?thesis using c mem st(2) items swapped_facts(1) [of seqlens] by (auto simp: num_items_size I_def state_ok_def)
  qed
  have "karmarkar_karp seqlens k equal = Inr (get_partitions st)"
    using S(1,2) st(1) sizes by (auto simp: karmarkar_karp_def get_partitions_def list_ex_iff)
  then show ?thesis using st(2) items sizes unfolding I_def by blast
qed

definition load :: "int list \<Rightarrow> nat list \<Rightarrow> int" where
  "load seqlens part = sum_list (map (\<lambda>i. seqlens ! i) part)"

lemma load_sort [simp]: "load seqlens (sort part) = load seqlens part"
  unfolding load_def by (metis mset_map mset_sort sum_mset_sum_list)

lemma load_mset: "mset p = mset q \<Longrightarrow> load seqlens p = load seqlens q"
  unfolding load_def by (metis mset_map sum_mset_sum_list)

lemma part_load:
  assumes "state_items st = mset (swapped seqlens)" "s \<in> set st" "set_ok s"
  shows "load seqlens (map fst (is_items s)) = is_sum s"
proof -
  have "set (is_items s) \<subseteq> set (swapped seqlens)"
    using arg_cong [OF assms(1), of set_mset] assms(2) by (auto simp: state_items_def)
  then have "v = seqlens ! idx" if "(idx, v) \<in> set (is_items s)" for idx v
    using that swapped_facts(3) by blast
  then have "map (\<lambda>i. seqlens ! i) (map fst (is_items s)) = map snd (is_items s)" by auto
  then show ?thesis using assms(3) by (simp only: load_def set_ok_def)
qed

lemma balanced_partitions:
  assumes k: "1 \<le> k" "k \<le> length seqlens" and eq: "equal \<Longrightarrow> k dvd length seqlens"
    and v: "\<forall>s \<in> set seqlens. 0 \<le> s \<and> s \<le> M"
  shows "\<exists>P. get_seqlen_balanced_partitions seqlens k equal = Inr P \<and> length P = k
    \<and> mset (concat P) = mset [0..<length seqlens] \<and> (\<forall>p \<in> set P. p \<noteq> [] \<and> sorted p)
    \<and> (equal \<longrightarrow> (\<forall>p \<in> set P. length p * k = length seqlens))
    \<and> (\<forall>p \<in> set P. \<forall>q \<in> set P. load seqlens p - load seqlens q \<le> M)"
proof -
  obtain st where st: "karmarkar_karp seqlens k equal = Inr (get_partitions st)" "state_ok k M st"
    "state_items st = mset (swapped seqlens)" "equal \<longrightarrow> (\<forall>s \<in> set st. length (is_items s) * k = length seqlens)"
    using kk_result [OF k eq v] by blast
  let ?P = "get_partitions st"
  have len: "length ?P = k" using st(2) by (simp add: get_partitions_def state_ok_def)
  have conc: "mset (concat ?P) = mset [0..<length seqlens]"
  proof -
    have "concat ?P = map fst (concat (map is_items st))" by (simp add: get_partitions_def map_concat comp_def)
    then have "mset (concat ?P) = image_mset fst (state_items st)" by (simp add: state_items_def)
    then show ?thesis using swapped_facts(2) [of seqlens] by (simp add: st(3))
  qed
  have "min k (num_items st) \<le> used st" "length st = k" using st(2) by (simp_all add: state_ok_def)
  moreover have "num_items st = length seqlens" using st(3) swapped_facts(1) [of seqlens] by (simp add: num_items_size)
  ultimately have "length st \<le> length (filter (\<lambda>s. is_items s \<noteq> []) st)" using k by (simp add: used_def)
  then have used: "\<forall>s \<in> set st. is_items s \<noteq> []"
    by (metis (mono_tags, lifting) le_antisym length_filter_le length_filter_less not_less)
  have "check_and_sort_partitions (length seqlens) k ?P = Inr (map sort ?P)"
  proof -
    have "[] \<notin> set ?P" using used by (auto simp: get_partitions_def)
    moreover have "set (concat ?P) = {..<length seqlens}"
      using conc by (metis atLeast_upt set_mset_mset)
    ultimately show ?thesis using len by (simp add: check_and_sort_partitions_def)
  qed
  then have run: "get_seqlen_balanced_partitions seqlens k equal = Inr (map sort ?P)"
    using st(1) k by (simp add: get_seqlen_balanced_partitions_def)
  have "mset (concat (map sort xs)) = mset (concat xs)" for xs :: "nat list list"
    by (induction xs) simp_all
  then have "mset (concat (map sort ?P)) = mset [0..<length seqlens]" using conc by simp
  moreover have "load seqlens p - load seqlens q \<le> M" if mem: "p \<in> set (map sort ?P)" "q \<in> set (map sort ?P)" for p q
  proof -
    obtain s t where st': "s \<in> set st" "p = sort (map fst (is_items s))" "t \<in> set st" "q = sort (map fst (is_items t))"
      using mem by (auto simp: get_partitions_def)
    then show ?thesis using st(2) part_load [OF st(3)] by (simp add: state_ok_def)
  qed
  moreover have "sort xs = [] \<longleftrightarrow> xs = []" for xs :: "nat list" by (metis length_0_conv length_sort)
  then have "\<forall>p \<in> set (map sort ?P). p \<noteq> [] \<and> sorted p" using used by (auto simp: get_partitions_def)
  moreover have "equal \<longrightarrow> (\<forall>p \<in> set (map sort ?P). length p * k = length seqlens)" using st(4) by (auto simp: get_partitions_def)
  moreover have "length (map sort ?P) = k" using len by simp
  ultimately show ?thesis using run by blast
qed

text \<open>C13: the balanced partitions are partitions and are balanced. On nonnegative lengths, with at least one
  partition, at least as many items as partitions and, for equal sizes, a divisible number of items,
  \<open>get_seqlen_balanced_partitions\<close> trips none of its assertions: it returns \<open>k\<close> nonempty increasing
  lists that together hold every index exactly once, all of the same length when equal sizes are
  asked for, and the loads of any two of them differ by at most the largest single length.\<close>

theorem seqlen_partitions_balanced:
  assumes "1 \<le> k" and "k \<le> length seqlens" and "equal \<Longrightarrow> k dvd length seqlens" and "\<forall>s \<in> set seqlens. 0 \<le> s"
  shows "\<exists>P. get_seqlen_balanced_partitions seqlens k equal = Inr P \<and> length P = k
    \<and> mset (concat P) = mset [0..<length seqlens] \<and> (\<forall>p \<in> set P. p \<noteq> [] \<and> sorted p)
    \<and> (equal \<longrightarrow> (\<forall>p \<in> set P. length p * k = length seqlens))
    \<and> (\<forall>p \<in> set P. \<forall>q \<in> set P. load seqlens p - load seqlens q \<le> Max (set seqlens))"
  by (rule balanced_partitions) (use assms in auto)

theorem seqlen_partitions_balanced_witness:
  "\<exists>P. get_seqlen_balanced_partitions [3, 1, 2, 2] 2 True = Inr P \<and> (\<forall>p \<in> set P. length p = 2)"
proof -
  have "2 dvd length [3, 1, 2, 2 :: int]" by simp
  from seqlen_partitions_balanced [of 2 "[3, 1, 2, 2]" True, OF _ _ this] show ?thesis by fastforce
qed

section \<open>Greedy assignment\<close>

lemma first_min_index_least:
  assumes "totals \<noteq> []"
  shows "\<exists>m < length totals. first_min_index totals = Some m \<and> (\<forall>j < length totals. totals ! m \<le> totals ! j)"
proof -
  have main: "n \<noteq> 0 \<longrightarrow> (\<exists>m < n. foldl (\<lambda>min_idx j. case min_idx of None \<Rightarrow> Some j | Some i \<Rightarrow> if totals ! j < totals ! i then Some j else Some i)
       None [0..<n] = Some m \<and> (\<forall>j < n. totals ! m \<le> totals ! j))" for n
  proof (induction n)
    case (Suc n)
    have le: "totals ! n \<le> totals ! j" if "\<forall>j < n. totals ! m \<le> totals ! j" "totals ! n < totals ! m" "j < n" for m j
      using that by fastforce
    show ?case using Suc le by (cases "n = 0") (auto simp: less_Suc_eq)
  qed simp
  show ?thesis using main [of "length totals"] assms unfolding first_min_index_def by simp
qed

text \<open>With the bias \<open>b\<close> above every load, the partition with the least biased total is one of the
  shortest, so the sizes never differ by more than one.\<close>

definition greedy_ok :: "int list \<Rightarrow> int \<Rightarrow> nat list list \<Rightarrow> int list \<Rightarrow> bool" where
  "greedy_ok seqlens b partitions totals \<longleftrightarrow> length totals = length partitions
     \<and> (\<forall>j < length partitions. totals ! j = b * int (length (partitions ! j)) + load seqlens (partitions ! j)
          \<and> 0 \<le> load seqlens (partitions ! j) \<and> load seqlens (partitions ! j) < b)
     \<and> (\<forall>i < length partitions. \<forall>j < length partitions. length (partitions ! i) \<le> Suc (length (partitions ! j)))"

lemma shortest_of_least:
  assumes "b * int x + u \<le> b * int y + v" "0 \<le> u" "u < b" "0 \<le> v" "v < b"
  shows "x \<le> y"
proof (rule ccontr)
  assume "\<not> x \<le> y"
  then have "b * (int y + 1) \<le> b * int x" using assms(2,3) by (intro mult_left_mono) auto
  then have "b * int y + b \<le> b * int x" by (simp add: distrib_left)
  then show False using assms by linarith
qed

lemma sum_concat_le:
  assumes "distinct (concat ps)" "set (concat ps) \<subseteq> {..<n}" "length seqlens = n" "\<forall>s \<in> set seqlens. 0 \<le> s" "p \<in> set ps"
  shows "0 \<le> load seqlens p \<and> load seqlens p \<le> sum_list seqlens"
proof -
  have d: "distinct p" "set p \<subseteq> {..<n}" using assms(1,2,5) by (auto simp: distinct_concat_iff)
  have nn: "0 \<le> seqlens ! i" if "i < n" for i using that assms(3,4) by simp
  have "load seqlens p = (\<Sum>i \<in> set p. seqlens ! i)" using d(1) by (simp add: load_def sum_list_distinct_conv_sum_set)
  moreover have "(\<Sum>i \<in> set p. seqlens ! i) \<le> (\<Sum>i < n. seqlens ! i)"
    using d(2) nn by (intro sum_mono2) auto
  moreover have "(\<Sum>i < n. seqlens ! i) = sum_list seqlens" using assms(3) by (simp add: sum_list_sum_nth atLeast0LessThan)
  moreover have "0 \<le> (\<Sum>i \<in> set p. seqlens ! i)" using d(2) nn by (intro sum_nonneg) auto
  ultimately show ?thesis by simp
qed

lemma mset_concat_split:
  "m < length ps \<Longrightarrow> mset (concat ps) = mset (concat (take m ps)) + mset (ps ! m) + mset (concat (drop (Suc m) ps))"
  using id_take_nth_drop [of m ps] by (metis concat.simps(2) concat_append mset_append add.assoc)

lemma distinct_sub_upt: "mset xs + M = mset [0..<n] \<Longrightarrow> distinct xs \<and> set xs \<subseteq> {..<n}"
proof -
  assume *: "mset xs + M = mset [0..<n]"
  obtain ys where "M = mset ys" by (metis ex_mset)
  then have eq: "mset (xs @ ys) = mset [0..<n]" using * by simp
  then have "distinct (xs @ ys)" by (metis mset_eq_imp_distinct_iff distinct_upt)
  moreover have "set (xs @ ys) = {..<n}" using eq by (metis atLeast_upt set_mset_mset)
  ultimately show ?thesis by auto
qed

lemma greedy_loop_ok:
  assumes "greedy_ok seqlens b partitions totals" "partitions \<noteq> []" "b = sum_list seqlens + 1"
    and "mset (concat partitions) + mset (map snd items) = mset [0..<length seqlens]"
    and "\<forall>(v, i) \<in> set items. v = seqlens ! i + b" and nn: "\<forall>s \<in> set seqlens. 0 \<le> s"
  shows "\<exists>P. greedy_loop items partitions totals = Inr P \<and> length P = length partitions
    \<and> mset (concat P) = mset [0..<length seqlens]
    \<and> (\<forall>i < length P. \<forall>j < length P. length (P ! i) \<le> Suc (length (P ! j)))"
  using assms(1,2,4,5)
proof (induction items arbitrary: partitions totals)
  case Nil
  then show ?case by (simp add: greedy_ok_def)
next
  case (Cons x items)
  obtain v i where x: "x = (v, i)" by (cases x)
  then have v: "v = seqlens ! i + b" using Cons.prems(4) by simp
  note G = Cons.prems(1) [unfolded greedy_ok_def]
  have "totals \<noteq> []" using G Cons.prems(2) by auto
  then obtain m where m: "m < length partitions" "first_min_index totals = Some m"
    "\<forall>j < length partitions. totals ! m \<le> totals ! j"
    using first_min_index_least [of totals] G by auto
  let ?P = "partitions[m := partitions ! m @ [i]]" and ?T = "totals[m := totals ! m + v]"
  have conc: "mset (concat ?P) = add_mset i (mset (concat partitions))"
    using m(1) by (simp add: upd_conv_take_nth_drop mset_concat_split [of m partitions])
  have all: "mset (concat ?P) + mset (map snd items) = mset [0..<length seqlens]"
    using Cons.prems(3) by (simp add: conc x)
  have d: "distinct (concat ?P)" "set (concat ?P) \<subseteq> {..<length seqlens}"
    using distinct_sub_upt [OF all] by simp_all
  have at: "totals ! j = b * int (length (partitions ! j)) + load seqlens (partitions ! j)"
    "0 \<le> load seqlens (partitions ! j)" "load seqlens (partitions ! j) < b" if "j < length partitions" for j
    using G that by simp_all
  have close: "length (partitions ! j) \<le> Suc (length (partitions ! j'))" if "j < length partitions" "j' < length partitions" for j j'
    using G that by simp
  have shortest: "length (partitions ! m) \<le> length (partitions ! j)" if j: "j < length partitions" for j
  proof (rule shortest_of_least)
    show "b * int (length (partitions ! m)) + load seqlens (partitions ! m)
        \<le> b * int (length (partitions ! j)) + load seqlens (partitions ! j)"
      using m(3) [rule_format, OF j] at(1) [OF m(1)] at(1) [OF j] by linarith
  qed (use at m(1) j in auto)
  have bound: "0 \<le> load seqlens (?P ! j) \<and> load seqlens (?P ! j) < b" if "j < length partitions" for j
    using sum_concat_le [OF d refl nn, of "?P ! j"] that assms(3) by fastforce
  have "greedy_ok seqlens b ?P ?T"
    unfolding greedy_ok_def
  proof (intro conjI allI impI)
    show "length ?T = length ?P" using G by simp
    fix j assume j: "j < length ?P"
    show "?T ! j = b * int (length (?P ! j)) + load seqlens (?P ! j)"
      using at(1) [of j] G j m(1) v by (cases "j = m") (simp_all add: load_def algebra_simps)
    show "0 \<le> load seqlens (?P ! j)" "load seqlens (?P ! j) < b" using bound j by simp_all
    fix j' assume "j' < length ?P"
    then show "length (?P ! j) \<le> Suc (length (?P ! j'))"
      using close [of j j'] shortest [of j'] close [of j m] j m(1) by (cases "j = m"; cases "j' = m") auto
  qed
  from Cons.IH [OF this _ all] Cons.prems(2,4) m(2) show ?case by (simp add: x)
qed

lemma sum_list_below:
  "\<forall>q \<in> set P. f q \<le> c \<Longrightarrow> sum_list (map f P) \<le> length P * c \<and> (p \<in> set P \<and> f p < c \<longrightarrow> sum_list (map f P) < length P * (c :: nat))"
  by (induction P) auto

lemma sum_list_above:
  "\<forall>q \<in> set P. c \<le> f q \<Longrightarrow> length P * c \<le> sum_list (map f P) \<and> (p \<in> set P \<and> c < f p \<longrightarrow> length P * (c :: nat) < sum_list (map f P))"
  by (induction P) auto

lemma even_sizes:
  assumes "\<forall>i < length P. \<forall>j < length P. length (P ! i) \<le> Suc (length (P ! j))" "sum_list (map length P) = length P * c" "p \<in> set P"
  shows "length p = c"
proof -
  have close: "length q \<le> Suc (length r)" if "q \<in> set P" "r \<in> set P" for q r
    using assms(1) that by (metis in_set_conv_nth)
  have "\<not> length p < c"
  proof
    assume p: "length p < c"
    then have "length q \<le> c" if "q \<in> set P" for q using close [OF that assms(3)] by simp
    then show False using sum_list_below [of P length c p] p assms(2,3) by simp
  qed
  moreover have "\<not> c < length p"
  proof
    assume p: "c < length p"
    then have "c \<le> length q" if "q \<in> set P" for q using close [OF assms(3) that] by simp
    then show False using sum_list_above [of P c length p] p assms(2,3) by simp
  qed
  ultimately show ?thesis by simp
qed

text \<open>the greedy assignment with equal sizes trips neither of its assertions. On nonnegative lengths
  whose number is a multiple of \<open>k\<close>, adding the bias of one more than their sum to every item makes
  the partition with the smallest total a shortest one, so all \<open>k\<close> partitions end with \<open>n / k\<close> items and
  hold every index once.\<close>

theorem greedy_partition_equal:
  assumes k: "1 \<le> k" "k dvd length seqlens" and nn: "\<forall>s \<in> set seqlens. 0 \<le> s"
  shows "\<exists>P. greedy_partition seqlens k True = Inr P \<and> length P = k
    \<and> mset (concat P) = mset [0..<length seqlens] \<and> (\<forall>p \<in> set P. length p * k = length seqlens)"
proof -
  let ?b = "sum_list seqlens + 1" and ?n = "length seqlens"
  let ?items = "map (\<lambda>(i, seqlen). (seqlen + ?b, i)) (enumerate 0 seqlens)"
  have "0 \<le> sum_list seqlens" using nn by (intro sum_list_nonneg) auto
  then have pos: "0 < ?b" by simp
  have "greedy_ok seqlens ?b (replicate k []) (replicate k 0)"
    using pos by (simp add: greedy_ok_def load_def)
  moreover have "map snd ?items = [0..<?n]"
    by (simp add: comp_def case_prod_beta flip: map_fst_enumerate [of 0 seqlens])
  moreover have "\<forall>(v, i) \<in> set ?items. v = seqlens ! i + ?b" by (auto simp: in_set_enumerate_eq)
  ultimately obtain P where P: "greedy_loop ?items (replicate k []) (replicate k 0) = Inr P" "length P = k"
    "mset (concat P) = mset [0..<?n]" "\<forall>i < length P. \<forall>j < length P. length (P ! i) \<le> Suc (length (P ! j))"
    using greedy_loop_ok [of seqlens ?b "replicate k []" "replicate k 0" ?items] k nn by auto
  obtain c where c: "?n = k * c" using k(2) by (elim dvdE)
  have "sum_list (map length P) = ?n" using arg_cong [OF P(3), of size] by (simp add: length_concat)
  then have "length p * k = ?n" if "p \<in> set P" for p
    using even_sizes [OF P(4) _ that, of c] P(2) c by simp
  then have "greedy_partition seqlens k True = Inr P"
    using P(1) by (auto simp: greedy_partition_def Let_def list_ex_iff)
  then show ?thesis using P \<open>\<And>p. p \<in> set P \<Longrightarrow> length p * k = ?n\<close> by blast
qed

theorem greedy_partition_equal_witness:
  "\<exists>P. greedy_partition [3, 1, 2, 2] 2 True = Inr P \<and> (\<forall>p \<in> set P. length p = 2)"
proof -
  have "2 dvd length [3, 1, 2, 2 :: int]" by simp
  from greedy_partition_equal [OF _ this] show ?thesis by fastforce
qed

section \<open>Micro-batches\<close>

lemma range_from_2: "range_from (s + 2) (n + 2) 2 = map (\<lambda>i. i + 2) (range_from s n 2)"
proof (induction s n "2 :: nat" rule: range_from.induct)
  case (1 s n)
  show ?case
  proof (cases "s < n")
    case True
    then show ?thesis using 1 by (subst (1 2) range_from.simps) simp
  next
    case False
    then show ?thesis by (subst (1 2) range_from.simps) simp
  qed
qed

lemma stride_2 [simp]: "stride 2 [] = []" "stride 2 [x] = [x]" "stride 2 (x # y # xs) = x # stride 2 xs"
proof -
  show "stride 2 [] = []" "stride 2 [x] = [x]"
    by (simp_all add: stride_def range_from.simps [of 0] range_from.simps [of "Suc (Suc 0)"])
  have "range_from 0 (length (x # y # xs)) 2 = 0 # map (\<lambda>i. i + 2) (range_from 0 (length xs) 2)"
    using range_from_2 [of 0 "length xs"] by (subst range_from.simps) simp
  then show "stride 2 (x # y # xs) = x # stride 2 xs" by (simp add: stride_def)
qed

lemma mset_strides: "mset (stride 2 xs) + mset (stride 2 (drop 1 xs)) = mset xs"
proof (induction xs rule: induct_list012)
  case (3 x y zs)
  then show ?case by (cases zs) simp_all
qed simp_all

lemma mset_dynamic_order [simp]: "mset (dynamic_order g w P) = mset P"
  using mset_strides [of "rev (sort_key (partition_key g w) (rev P))"] by (simp add: dynamic_order_def Let_def)

lemma no_partitions: "get_seqlen_balanced_partitions W 0 False \<noteq> Inr P"
proof
  assume run: "get_seqlen_balanced_partitions W 0 False = Inr P"
  show False
  proof (cases "swapped W")
    case Nil
    then have "W = []" using swapped_facts(1) [of W] by simp
    then show False using run
      by (simp add: get_seqlen_balanced_partitions_def karmarkar_karp_def kk_groups_def push_states_def kk_loop.simps)
  next
    case (Cons it its)
    then have "map (\<lambda>(seqlen, idx). (idx, seqlen)) (sort (zip W [0..<length W])) = it # its" by (simp add: swapped_def)
    then show False using run
      by (auto simp: get_seqlen_balanced_partitions_def karmarkar_karp_def kk_groups_def init_state_def)
  qed
qed

lemma partitions_of_run:
  assumes run: "get_seqlen_balanced_partitions W k False = Inr P" and nn: "\<forall>w \<in> set W. 0 \<le> w"
  shows "length P = k \<and> 1 \<le> k \<and> mset (concat P) = mset [0..<length W] \<and> (\<forall>p \<in> set P. p \<noteq> [])"
proof -
  have "k \<noteq> 0" using run no_partitions by (cases k) auto
  then have "1 \<le> k" by simp
  moreover have "k \<le> length W" using run by (auto simp: get_seqlen_balanced_partitions_def split: if_splits)
  ultimately show ?thesis using balanced_partitions [of k W False "Max (set W)"] run nn by auto
qed

lemma group_rows_perm: "mset xs = mset ys \<Longrightarrow> mset (group_rows_of g xs) = mset (group_rows_of g ys)"
proof -
  assume *: "mset xs = mset ys"
  have "mset (group_rows_of g zs) = (\<Sum>a \<in># mset zs. mset [a * g..<a * g + g])" for zs
    by (induction zs) (simp_all add: group_rows_of_def)
  then show ?thesis using * by simp
qed

lemma group_rows_upt: "group_rows_of g [0..<m] = [0..<m * g]"
proof (induction m)
  case (Suc m)
  have "[0..<m * g + g] = [0..<m * g] @ [m * g..<m * g + g]" by (rule upt_add_eq_append) simp
  then show ?case using Suc by (simp add: group_rows_of_def add.commute)
qed (simp add: group_rows_of_def)

lemma concat_group_rows: "concat (map (group_rows_of g) P) = group_rows_of g (concat P)"
  by (induction P) (simp_all add: group_rows_of_def)

lemma group_rows_closed:
  assumes "0 < g" "i \<in> set (group_rows_of g xs)" "j div g = i div g"
  shows "j \<in> set (group_rows_of g xs)"
proof -
  obtain a where a: "a \<in> set xs" "a * g \<le> i" "i < a * g + g" using assms(2) by (auto simp: group_rows_of_def)
  have "i div g = a" using a(2,3) by (intro div_nat_eqI) (simp_all add: mult.commute)
  then have "a * g \<le> j \<and> j < a * g + g"
    using assms(1,3) by (metis div_less_iff_less_mult le_refl less_eq_div_iff_mult_less_eq lessI mult_Suc add.commute)
  then show ?thesis using a(1) by (auto simp: group_rows_of_def)
qed

lemma workloads_nonneg: "\<forall>l \<in> set lens. 0 \<le> l \<Longrightarrow> \<forall>w \<in> set (calculate_workload lens). 0 \<le> w"
  by (auto simp: calculate_workload_def)

lemma lens_nonneg: "\<forall>l \<in> set (seq_len_effective batch). 0 \<le> l"
  by (cases batch) auto

lemma length_range_from: "0 < g \<Longrightarrow> length (range_from s (s + m * g) g) = m"
proof (induction m arbitrary: s)
  case 0
  then show ?case by (subst range_from.simps) simp
next
  case (Suc m)
  have "range_from s (s + Suc m * g) g = s # range_from (s + g) (s + g + m * g) g"
    using Suc.prems by (subst range_from.simps) (simp add: algebra_simps)
  then show ?case using Suc by simp
qed

text \<open>What a run of \<open>rearrange_micro_batches\<close> returns.\<close>

lemma rearranged:
  assumes run: "rearrange_micro_batches M batch = Inr P"
  defines "n \<equiv> length (seq_len_effective batch)" and "g \<equiv> mi_force_group_size M"
  shows "mset (concat P) = mset [0..<n] \<and> (\<forall>p \<in> set P. p \<noteq> [] \<and> (\<forall>i \<in> set p. \<forall>j < n. j div g = i div g \<longrightarrow> j \<in> set p))"
proof -
  let ?lens = "seq_len_effective batch"
  let ?W = "if 1 < g then group_workloads g (calculate_workload ?lens) else calculate_workload ?lens"
  obtain count parts where R: "0 < g" "n mod g = 0"
    "get_seqlen_balanced_partitions ?W (nat count) False = Inr parts"
    "P = (let idx = if 1 < g then map (group_rows_of g) parts else parts
          in if mi_use_dynamic_bsz_balance M then dynamic_order g ?W idx else idx)"
    using run unfolding rearrange_micro_batches_def Let_def n_def g_def by (auto split: if_splits)
  have wl: "\<forall>w \<in> set (calculate_workload ?lens). 0 \<le> w" by (intro workloads_nonneg lens_nonneg)
  then have nn: "\<forall>w \<in> set ?W. 0 \<le> w"
    by (auto simp: group_workloads_def slice_def intro!: sum_list_nonneg dest!: in_set_takeD in_set_dropD)
  have lenW: "length ?W = n div g"
  proof (cases "1 < g")
    case True
    have "length (calculate_workload ?lens) = 0 + (n div g) * g" using R(2) by (simp add: calculate_workload_def n_def mod_0_imp_dvd)
    then show ?thesis using True length_range_from [of g 0 "n div g"] by (simp add: group_workloads_def)
  next
    case False
    then have "g = 1" using R(1) by simp
    then show ?thesis by (simp add: calculate_workload_def n_def)
  qed
  define idx where "idx = (if 1 < g then map (group_rows_of g) parts else parts)"
  note Q = partitions_of_run [OF R(3) nn, unfolded lenW]
  have perm: "mset (concat idx) = mset [0..<n]"
  proof (cases "1 < g")
    case True
    have "mset (concat idx) = mset (group_rows_of g [0..<n div g])"
      using Q True by (simp add: idx_def concat_group_rows group_rows_perm)
    then show ?thesis using R(2) by (simp add: group_rows_upt mod_0_imp_dvd)
  next
    case False
    then have "g = 1" using R(1) by simp
    then show ?thesis using Q by (simp add: idx_def)
  qed
  have closed: "p \<noteq> [] \<and> (\<forall>i \<in> set p. \<forall>j < n. j div g = i div g \<longrightarrow> j \<in> set p)" if p: "p \<in> set idx" for p
  proof (cases "1 < g")
    case True
    then obtain q where q: "q \<in> set parts" "p = group_rows_of g q" using p by (auto simp: idx_def)
    have "q \<noteq> []" using Q q(1) by blast
    then have "p \<noteq> []" using True by (cases q) (simp_all add: q(2) group_rows_of_def)
    then show ?thesis using group_rows_closed [OF R(1)] q(2) by blast
  next
    case False
    then have "g = 1" using R(1) by simp
    then show ?thesis using Q p by (auto simp: idx_def)
  qed
  have "mset P = mset idx" using R(4) unfolding idx_def Let_def by simp
  moreover have "mset (concat zs) = (\<Sum>z \<in># mset zs. mset z)" for zs :: "nat list list"
    by (induction zs) simp_all
  ultimately have "mset (concat P) = mset (concat idx)" "set P = set idx" by (simp, metis set_mset_mset)
  then show ?thesis using perm closed by simp
qed

section \<open>Restoring the order\<close>

lemma reverse_loop:
  assumes "distinct xs" "\<forall>x \<in> set xs. x < length r"
  shows "let result = foldl (\<lambda>r (i, idx). r[idx := i]) r (enumerate s xs) in length result = length r \<and> (\<forall>j < length xs. result ! (xs ! j) = s + j) \<and> (\<forall>y. y \<notin> set xs \<longrightarrow> result ! y = r ! y)"
  using assms unfolding Let_def
proof (induction xs arbitrary: r s)
  case (Cons x xs)
  let ?r = "r[x := s]"
  from Cons.IH [of ?r "Suc s"] Cons.prems
  have IH: "length (foldl (\<lambda>r (i, idx). r[idx := i]) ?r (enumerate (Suc s) xs)) = length r"
    "\<forall>j < length xs. foldl (\<lambda>r (i, idx). r[idx := i]) ?r (enumerate (Suc s) xs) ! (xs ! j) = Suc s + j"
    "\<forall>y. y \<notin> set xs \<longrightarrow> foldl (\<lambda>r (i, idx). r[idx := i]) ?r (enumerate (Suc s) xs) ! y = ?r ! y" by auto
  then show ?case using Cons.prems by (auto simp: nth_Cons split: nat.split)
qed simp

lemma restore_permutation:
  assumes perm: "mset (concat P) = mset [0..<length rows]"
  shows "restore_dynamic_batch (index_select rows (concat P)) P = Inr rows"
proof -
  let ?xs = "concat P" and ?n = "length rows"
  have len: "length ?xs = ?n" using perm by (metis length_upt minus_nat.diff_0 size_mset)
  have d: "distinct ?xs" using perm by (metis distinct_upt mset_eq_imp_distinct_iff)
  have set_xs: "set ?xs = {..<?n}" using perm by (metis atLeast_upt set_mset_mset)
  obtain rev where rev: "get_reverse_idx ?xs = Inr rev" "length rev = ?n" "\<forall>j < ?n. rev ! (?xs ! j) = j"
  proof
    let ?r = "foldl (\<lambda>r (i, idx). r[idx := i]) ?xs (enumerate 0 ?xs)"
    have in_range: "\<forall>x \<in> set ?xs. x < length ?xs" using set_xs len by auto
    then have "\<not> list_ex (\<lambda>idx. length ?xs \<le> idx) ?xs" by (metis list_ex_iff not_le)
    then show "get_reverse_idx ?xs = Inr ?r" by (simp add: get_reverse_idx_def)
    show "length ?r = ?n" "\<forall>j < ?n. ?r ! (?xs ! j) = j"
      using reverse_loop [OF d in_range, of 0] len by (simp_all add: Let_def)
  qed
  have "index_select (index_select rows ?xs) rev = rows"
  proof (rule nth_equalityI)
    show "length (index_select (index_select rows ?xs) rev) = length rows" by (simp add: index_select_def rev(2))
    fix v assume "v < length (index_select (index_select rows ?xs) rev)"
    then have v: "v < ?n" by (simp add: index_select_def rev(2))
    then obtain j where j: "j < ?n" "?xs ! j = v" using set_xs len by (metis in_set_conv_nth lessThan_iff)
    have "rev ! v = j" using rev(3) j by auto
    then show "index_select (index_select rows ?xs) rev ! v = rows ! v"
      using v j by (simp add: index_select_def rev(2) len)
  qed
  then show ?thesis by (simp add: restore_dynamic_batch_def rev(1) index_select_def len)
qed

text \<open>C12: micro-batching loses nothing and can be undone. Whenever \<open>rearrange_micro_batches\<close> returns,
  its index lists hold every row of the batch exactly once, none is empty, whatever minimal number of
  micro-batches was asked for, rows of one forced
  group stay in one micro-batch; and whatever a forward pass computes row by row on the micro-batches,
  concatenating its outputs and applying \<open>restore_dynamic_batch\<close> gives the outputs in the order of the
  batch.\<close>

theorem micro_batches_restore:
  assumes run: "rearrange_micro_batches M batch = Inr P" and rows: "length rows = length (seq_len_effective batch)"
  shows "mset (concat P) = mset [0..<length rows]
    \<and> (\<forall>p \<in> set P. p \<noteq> [] \<and> (\<forall>i \<in> set p. \<forall>j < length rows.
        j div mi_force_group_size M = i div mi_force_group_size M \<longrightarrow> j \<in> set p))
    \<and> restore_dynamic_batch (concat (map (\<lambda>p. map f (index_select rows p)) P)) P = Inr (map f rows)"
proof -
  note R = rearranged [OF run, folded rows]
  have "concat (map (\<lambda>p. map f (index_select rows p)) P) = map f (index_select rows (concat P))"
    by (induction P) (simp_all add: index_select_def)
  also have "\<dots> = index_select (map f rows) (concat P)"
  proof -
    have "set (concat P) = {..<length rows}" using R by (metis atLeast_upt set_mset_mset)
    then show ?thesis by (auto simp: index_select_def)
  qed
  finally show ?thesis using R restore_permutation [of P "map f rows"] by simp
qed

text \<open>With the default options it returns on every nonempty batch whose rows fit, with as many
  micro-batches as the token budget asks for, or one per row.\<close>

definition plain_options :: "int \<Rightarrow> micro_options" where
  "plain_options max_token_len = \<lparr>mi_max_token_len = max_token_len, mi_other_ranks = None,
     mi_num_batches_divided_by = None, mi_min_num_micro_batch = None, mi_use_dynamic_bsz_balance = True,
     mi_force_group_size = 1\<rparr>"

lemma ceildiv_ceiling: "b \<noteq> 0 \<Longrightarrow> ceildiv a b = \<lceil>real_of_int a / real_of_int b\<rceil>"
proof -
  assume "b \<noteq> 0"
  have "a div (- b) = (- a) div b" by (metis div_minus_minus minus_minus)
  moreover have "\<lfloor>real_of_int (- a) / real_of_int b\<rfloor> = (- a) div b" by (rule floor_divide_of_int_eq)
  ultimately show ?thesis by (simp add: ceildiv_def ceiling_def)
qed

lemma micro_batches_exist:
  assumes fits: "max_seq_len batch = Inr longest" "longest \<le> limit" and some: "0 < sum_list (seq_len_effective batch)" and pos: "0 < limit"
  shows "\<exists>P. rearrange_micro_batches (plain_options limit) batch = Inr P
    \<and> int (length P) = min (int (length (seq_len_effective batch))) \<lceil>real_of_int (sum_list (seq_len_effective batch)) / real_of_int limit\<rceil>"
proof -
  let ?lens = "seq_len_effective batch" and ?n = "length (seq_len_effective batch)"
  let ?count = "min (int ?n) (ceildiv (sum_list ?lens) limit)"
  have n: "0 < ?n" using some by (cases ?lens) auto
  have c: "0 < ceildiv (sum_list ?lens) limit" using some pos by (simp add: ceildiv_ceiling)
  have "0 < ?count" using n c by simp
  then have k: "1 \<le> nat ?count" "nat ?count \<le> length (calculate_workload ?lens)"
    by (linarith, simp add: calculate_workload_def)
  have nn: "\<forall>w \<in> set (calculate_workload ?lens). 0 \<le> w" by (intro workloads_nonneg lens_nonneg)
  obtain parts where parts: "get_seqlen_balanced_partitions (calculate_workload ?lens) (nat ?count) False = Inr parts"
    "length parts = nat ?count"
    using balanced_partitions [OF k, of False "Max (set (calculate_workload ?lens))"] nn by auto
  have count: "num_micro_batches (plain_options limit) (sum_list ?lens) (int ?n) = Inr ?count"
    using pos by (simp add: num_micro_batches_def plain_options_def)
  have "rearrange_micro_batches (plain_options limit) batch = Inr (dynamic_order 1 (calculate_workload ?lens) parts)"
    using fits count parts(1) by (simp add: rearrange_micro_batches_def plain_options_def Let_def)
  moreover have "length (dynamic_order 1 (calculate_workload ?lens) parts) = nat ?count"
    using parts(2) mset_dynamic_order [of 1 "calculate_workload ?lens" parts] by (metis size_mset)
  moreover have "int (nat ?count) = ?count" using k(1) by simp
  ultimately show ?thesis using pos by (auto simp: ceildiv_ceiling)
qed

theorem micro_batches_restore_witness:
  "\<exists>P. rearrange_micro_batches (plain_options 10) (NestedLens [6, 6, 6]) = Inr P
    \<and> restore_dynamic_batch (concat (map (\<lambda>p. map Suc (index_select [10, 20, 30] p)) P)) P = Inr [11, 21, 31]"
proof -
  obtain P where P: "rearrange_micro_batches (plain_options 10) (NestedLens [6, 6, 6]) = Inr P"
    using micro_batches_exist [of "NestedLens [6, 6, 6]" 6 10] by auto
  then show ?thesis using micro_batches_restore [OF P, of "[10, 20, 30]" Suc] by auto
qed

text \<open>A minimal number of micro-batches above the number of groups is not met by empty ones: it raises.\<close>

lemma forced_count_raises:
  assumes "mi_min_num_micro_batch M = Some m" "num_groups < m" "mi_max_token_len M \<noteq> 0" "mi_num_batches_divided_by M = None"
  shows "num_micro_batches M total_seqlen num_groups = Inl (AssertionError ''num_micro_batches <= num_groups'')"
proof -
  have grows: "c \<le> foldl max c xs" for c :: int and xs
  proof (induction xs arbitrary: c)
    case (Cons x xs)
    show ?case using Cons [of "max c x"] by simp
  qed simp
  let ?own = "max m (min num_groups (ceildiv total_seqlen (mi_max_token_len M)))"
  show ?thesis
  proof (cases "mi_other_ranks M")
    case None
    then show ?thesis using assms by (simp add: num_micro_batches_def)
  next
    case (Some others)
    have "num_groups < foldl max ?own others" using grows [of ?own others] assms(2) by linarith
    then show ?thesis using assms Some by (simp add: num_micro_batches_def)
  qed
qed

text \<open>The token budget is not a bound of a micro-batch: three rows of six tokens under a budget of ten
  make two micro-batches, one of twelve tokens.\<close>

lemma micro_batch_over_budget:
  "\<exists>P. rearrange_micro_batches (plain_options 10) (NestedLens [6, 6, 6]) = Inr P \<and> (\<exists>p \<in> set P. 10 < load [6, 6, 6] p)"
proof -
  obtain P where P: "rearrange_micro_batches (plain_options 10) (NestedLens [6, 6, 6]) = Inr P" "int (length P) = 2"
    using micro_batches_exist [of "NestedLens [6, 6, 6]" 6 10] by (auto simp: ceiling_unique)
  obtain p q where pq: "P = [p, q]" using P(2) by (auto simp: length_Suc_conv numeral_2_eq_2)
  have perm: "mset p + mset q = mset [0, 1, 2]" using rearranged [OF P(1)] by (simp add: pq upt_rec)
  have "load [6, 6, 6] (p @ q) = load [6, 6, 6] [0, 1, 2]" by (rule load_mset) (simp add: perm)
  then have total: "load [6, 6, 6] p + load [6, 6, 6] q = 18" by (simp add: load_def)
  have six: "load [6, 6, 6] r = 6 * int (length r)" if "set r \<subseteq> {0, 1, 2}" for r
    using that by (induction r) (auto simp: load_def)
  have "set p \<union> set q = {0, 1, 2}" using arg_cong [OF perm, of set_mset] by simp
  then have "set p \<subseteq> {0, 1, 2}" "set q \<subseteq> {0, 1, 2}" by (blast, blast)
  then have "10 < load [6, 6, 6] p \<or> 10 < load [6, 6, 6] q" using total six [of p] six [of q] by presburger
  then show ?thesis using P(1) pq by auto
qed

section \<open>Groups of one prompt\<close>

text \<open>Uids in contiguous runs, and the rows of the runs.\<close>

definition uids_of_runs :: "('u \<times> nat) list \<Rightarrow> 'u list" where
  "uids_of_runs runs = concat (map (\<lambda>(u, n). replicate n u) runs)"

fun blocks :: "nat \<Rightarrow> ('u \<times> nat) list \<Rightarrow> nat list list" where
  "blocks i [] = []"
| "blocks i ((u, n) # runs) = [i..<i + n] # blocks (i + n) runs"

lemma uid_runs_replicate:
  "uid_runs i (replicate n u @ uids) (Some u) idxs groups = uid_runs (i + n) uids (Some u) (idxs @ [i..<i + n]) groups"
proof (induction n arbitrary: i idxs)
  case (Suc n)
  have "[i..<i + Suc n] = i # [Suc i..<Suc i + n]" by (simp add: upt_conv_Cons)
  then show ?case using Suc [of "Suc i" "idxs @ [i]"] by simp
qed simp

lemma uid_runs_blocks:
  assumes "distinct (map fst runs)" "\<forall>(u, n) \<in> set runs. 0 < n" "current \<notin> Some ` fst ` set runs"
  shows "uid_runs i (uids_of_runs runs) current idxs groups = groups @ (if idxs = [] then [] else [idxs]) @ blocks i runs"
  using assms
proof (induction runs arbitrary: i current idxs groups)
  case Nil
  then show ?case by (simp add: uids_of_runs_def)
next
  case (Cons x runs)
  obtain u n where x: "x = (u, Suc n)" using Cons.prems(2) by (cases x) (auto simp: gr0_conv_Suc)
  have uids: "uids_of_runs (x # runs) = u # replicate n u @ uids_of_runs runs" by (simp add: uids_of_runs_def x)
  have "current \<noteq> Some u" using Cons.prems(3) x by auto
  then have "uid_runs i (uids_of_runs (x # runs)) current idxs groups
      = uid_runs (i + 1 + n) (uids_of_runs runs) (Some u) ([i] @ [i + 1..<i + 1 + n]) (if idxs = [] then groups else groups @ [idxs])"
    unfolding uids by (simp add: uid_runs_replicate)
  also have "[i] @ [i + 1..<i + 1 + n] = [i..<i + Suc n]" by (simp add: upt_conv_Cons)
  also have "uid_runs (i + 1 + n) (uids_of_runs runs) (Some u) [i..<i + Suc n] (if idxs = [] then groups else groups @ [idxs])
      = (if idxs = [] then groups else groups @ [idxs]) @ [[i..<i + Suc n]] @ blocks (i + 1 + n) runs"
    using Cons.IH [of "Some u" "i + 1 + n" "[i..<i + Suc n]"] Cons.prems x by (auto simp: image_iff)
  finally show ?case by (simp add: x)
qed

lemma blocks_facts: "length (blocks i runs) = length runs" "concat (blocks i runs) = [i..<i + length (uids_of_runs runs)]"
proof (induction runs arbitrary: i)
  case (Cons x runs)
  obtain u n where x: "x = (u, n)" by (cases x)
  case 1
  show ?case using Cons(1) by (simp add: x)
  case 2
  show ?case using Cons(2) [of "i + n"] upt_add_eq_append [of i "i + n" "length (uids_of_runs runs)"]
    by (simp add: x uids_of_runs_def add.assoc)
qed (simp_all add: uids_of_runs_def)

lemma block_uid:
  assumes "g < length runs" "j \<in> set (blocks i runs ! g)"
  shows "i \<le> j \<and> j - i < length (uids_of_runs runs) \<and> uids_of_runs runs ! (j - i) = fst (runs ! g)"
  using assms
proof (induction runs arbitrary: i g)
  case (Cons x runs)
  obtain u n where x: "x = (u, n)" by (cases x)
  have uids: "uids_of_runs (x # runs) = replicate n u @ uids_of_runs runs" by (simp add: uids_of_runs_def x)
  show ?case
  proof (cases g)
    case 0
    then show ?thesis using Cons.prems(2) unfolding uids by (auto simp: x nth_append)
  next
    case (Suc h)
    from Cons.IH [of h "i + n"] Cons.prems Suc
    have "i + n \<le> j" "j - (i + n) < length (uids_of_runs runs)" "uids_of_runs runs ! (j - (i + n)) = fst (runs ! h)" by (simp_all add: x)
    then show ?thesis unfolding uids by (auto simp: Suc nth_append)
  qed
qed simp

text \<open>C14: rollouts of one prompt stay on one rank. When the rows of a prompt are contiguous and the number
  of prompts is a multiple of the number of partitions, \<open>get_group_balanced_partitions\<close> succeeds: its
  partitions hold every row once, and a partition that holds a row holds every row of the same uid.\<close>

theorem prompt_groups_stay_together:
  assumes uids: "uids = uids_of_runs runs" "distinct (map fst runs)" "\<forall>(u, n) \<in> set runs. 0 < n"
    and k: "1 \<le> k" "k \<le> length runs" "k dvd length runs"
    and lens: "length seqlens = length uids" "\<forall>s \<in> set seqlens. 0 \<le> s"
  shows "\<exists>P. get_group_balanced_partitions seqlens uids k = Inr P \<and> length P = k
    \<and> mset (concat P) = mset [0..<length uids]
    \<and> (\<forall>p \<in> set P. \<forall>a \<in> set p. \<forall>b < length uids. uids ! a = uids ! b \<longrightarrow> b \<in> set p)"
proof -
  let ?G = "blocks 0 runs"
  have groups: "uid_runs 0 uids None [] [] = ?G" using uid_runs_blocks [OF uids(2,3), of None 0 "[]" "[]"] by (auto simp: uids(1))
  have G: "length ?G = length runs" "concat ?G = [0..<length uids]" using blocks_facts [of 0 runs] by (simp_all add: uids(1))
  let ?W = "map (\<lambda>indices. sum_list (map (\<lambda>i. hd (calculate_workload [seqlens ! i])) indices)) ?G"
  have idx: "i < length seqlens" if "ix \<in> set ?G" "i \<in> set ix" for i ix
    using that arg_cong [OF G(2), of set] lens(1) by auto
  have "0 \<le> w" if "w \<in> set ?W" for w
    using that idx lens(2) by (auto simp: calculate_workload_def intro!: sum_list_nonneg)
  then have nn: "\<forall>w \<in> set ?W. 0 \<le> w \<and> w \<le> Max (set ?W)" by simp
  obtain Q where Q: "get_seqlen_balanced_partitions ?W k True = Inr Q" "length Q = k" "mset (concat Q) = mset [0..<length runs]"
    using balanced_partitions [of k ?W True "Max (set ?W)"] k nn G(1) by auto
  let ?P = "map (\<lambda>group_partition. sort (concat (map (\<lambda>g. ?G ! g) group_partition))) Q"
  have run: "get_group_balanced_partitions seqlens uids k = Inr ?P"
    using Q(1) lens(1) k(2) G(1) by (simp add: get_group_balanced_partitions_def groups Let_def)
  have all: "mset (concat ?P) = mset [0..<length uids]"
  proof -
    have "mset (concat ?P) = mset (concat (map (\<lambda>g. ?G ! g) (concat Q)))"
      by (induction Q) simp_all
    also have "\<dots> = (\<Sum>g \<in># mset (concat Q). mset (?G ! g))"
      by (induction "concat Q") (simp_all add: mset_concat sum_mset_sum_list [symmetric] comp_def)
    also have "\<dots> = mset (concat (map (\<lambda>g. ?G ! g) [0..<length ?G]))"
      unfolding Q(3) G(1) by (simp add: mset_concat sum_mset_sum_list [symmetric] comp_def)
    finally show ?thesis by (simp only: map_nth G(2))
  qed
  have part: "g < length runs" if "q \<in> set Q" "g \<in> set q" for q g
    using that Q(3) by (metis UN_I atLeastLessThan_iff set_concat set_mset_mset set_upt)
  have uid_at: "j < length uids \<and> uids ! j = fst (runs ! g)" if "g < length runs" "j \<in> set (?G ! g)" for g j
    using block_uid [OF that] by (simp add: uids(1))
  have "b \<in> set p" if p: "p \<in> set ?P" "a \<in> set p" and b: "b < length uids" "uids ! a = uids ! b" for p a b
  proof -
    obtain q g where q: "q \<in> set Q" "p = sort (concat (map (\<lambda>g. ?G ! g) q))" "g \<in> set q" "a \<in> set (?G ! g)"
      using p by auto
    have "b \<in> set (concat ?G)" using b(1) by (simp add: G(2))
    then obtain ix where ix: "ix \<in> set ?G" "b \<in> set ix" by auto
    from ix(1) obtain h where "h < length ?G" "?G ! h = ix" unfolding in_set_conv_nth by blast
    then have h: "h < length runs" "b \<in> set (?G ! h)" using G(1) ix(2) by simp_all
    have "fst (runs ! g) = fst (runs ! h)" using uid_at [OF part [OF q(1,3)] q(4)] uid_at [OF h] b(2) by simp
    then have "g = h" using uids(2) part [OF q(1,3)] h(1) by (metis distinct_conv_nth length_map nth_map)
    then show ?thesis using q h(2) by auto
  qed
  then show ?thesis using run all Q(2) by auto
qed

theorem prompt_groups_stay_together_witness:
  "\<exists>P. get_group_balanced_partitions [5, 1, 2, 2] [''p'', ''p'', ''q'', ''q''] 2 = Inr P
    \<and> (\<forall>p \<in> set P. 0 \<in> set p \<longrightarrow> 1 \<in> set p)"
proof -
  have u: "[''p'', ''p'', ''q'', ''q''] = uids_of_runs [(''p'', 2), (''q'', 2)]"
    by (simp add: uids_of_runs_def numeral_2_eq_2)
  obtain P where P: "get_group_balanced_partitions [5, 1, 2, 2] [''p'', ''p'', ''q'', ''q''] 2 = Inr P"
    "\<forall>p \<in> set P. \<forall>a \<in> set p. \<forall>b < length [''p'', ''p'', ''q'', ''q'']. [''p'', ''p'', ''q'', ''q''] ! a = [''p'', ''p'', ''q'', ''q''] ! b \<longrightarrow> b \<in> set p"
    using prompt_groups_stay_together [OF u, of 2 "[5, 1, 2, 2]"] by auto
  have "1 \<in> set p" if "p \<in> set P" "0 \<in> set p" for p
    using P(2) [rule_format, OF that, of 1] by simp
  then show ?thesis using P(1) by blast
qed

end
