(* ===== verification/Advantage.thy ===== *)
theory Advantage
  imports AggLoss Evidence
begin

text \<open>
  Advantage estimators (\<open>verl/trainer/ppo/core_algos.py\<close>), with the group statistics of
  \<open>verl/utils/groupwise.py\<close> and the whitening of \<open>verl/utils/torch_functional.py\<close>. A token matrix is
  the list of its rows; an estimator returns the pair of advantages and returns. The numerical
  constants are the defaults of the signatures, which the dispatcher never overrides.
\<close>

type_synonym mat = "vec list"
type_synonym adv_result = "(mat \<times> mat) res"

section \<open>Rows and groups\<close>

definition row_sums :: "mat \<Rightarrow> vec" where
  "row_sums token_level_rewards = map vsum token_level_rewards"

text \<open>\<open>scores.unsqueeze(-1) * response_mask\<close>, and the product of a token matrix with the mask.\<close>

definition mask_rows :: "vec \<Rightarrow> bool list list \<Rightarrow> mat res" where
  "mask_rows scores response_mask = broadcast2 (\<lambda>s m. map (\<lambda>b. s * of_bool b) m) scores response_mask"

definition mask_mat :: "mat \<Rightarrow> bool list list \<Rightarrow> mat" where
  "mask_mat = map2_mat (\<lambda>x b. x * of_bool b)"

definition outcome_result :: "vec \<Rightarrow> bool list list \<Rightarrow> adv_result" where
  "outcome_result scores response_mask = rbind (mask_rows scores response_mask) (\<lambda>a. Inr (a, a))"

text \<open>The dictionary \<open>id2score\<close> of the entries of each group, in row order, and a statistic of the
  group of every row.\<close>

definition id_table :: "'k list \<Rightarrow> 'a list \<Rightarrow> ('k \<times> 'a list) list" where
  "id_table index xs = foldl (\<lambda>d (k, x). setdefault_append k x d) [] (zip index xs)"

definition per_row :: "('a list \<Rightarrow> 'b) \<Rightarrow> 'k list \<Rightarrow> 'a list \<Rightarrow> 'b list" where
  "per_row f index xs =
     (let table = map (\<lambda>(k, ys). (k, f ys)) (id_table index xs)
      in map (\<lambda>k. the (map_of table k)) (take (length xs) index))"

definition std_of :: "vec \<Rightarrow> real" where
  "std_of xs = sqrt (sum_list (map (\<lambda>x. (x - mean_of xs) ^ 2) xs) / (real (length xs) - 1))"

definition index_error :: err where "index_error = IndexError ''index is out of bounds''"

section \<open>Group-relative outcome estimators\<close>

definition adv_epsilon :: real where "adv_epsilon = 1 / 10 ^ 6"

definition grpo_stats :: "vec \<Rightarrow> real \<times> real" where
  "grpo_stats scores = (if length scores = 1 then (0, 1) else (mean_of scores, std_of scores))"

definition grpo_score :: "bool \<Rightarrow> real \<Rightarrow> real \<times> real \<Rightarrow> real" where
  "grpo_score norm_adv_by_std s stats =
     (case stats of (mean, std) \<Rightarrow> if norm_adv_by_std then (s - mean) / (std + adv_epsilon) else s - mean)"

definition compute_grpo_outcome_advantage :: "mat \<Rightarrow> bool list list \<Rightarrow> 'k list \<Rightarrow> bool \<Rightarrow> adv_result" where
  "compute_grpo_outcome_advantage token_level_rewards response_mask index norm_adv_by_std =
     (let scores = row_sums token_level_rewards in
      if length index < length scores then Inl index_error
      else outcome_result (map2 (grpo_score norm_adv_by_std) scores (per_row grpo_stats index scores)) response_mask)"

definition group_mean :: "vec \<Rightarrow> real" where
  "group_mean scores = (if length scores = 1 then 0 else mean_of scores)"

definition rloo_score :: "real \<Rightarrow> vec \<Rightarrow> real" where
  "rloo_score s scores =
     (let n = real (length scores)
      in if 1 < length scores then s * n / (n - 1) - group_mean scores * n / (n - 1) else s)"

definition compute_rloo_outcome_advantage :: "mat \<Rightarrow> bool list list \<Rightarrow> 'k list \<Rightarrow> adv_result" where
  "compute_rloo_outcome_advantage token_level_rewards response_mask index =
     (let scores = row_sums token_level_rewards in
      if length index < length scores then Inl index_error
      else outcome_result (map2 rloo_score scores (per_row id index scores)) response_mask)"

text \<open>\<open>alpha\<close> is the batch size over the number of nonzero scores; \<open>f_norm\<close> is 1.\<close>

definition compute_gpg_outcome_advantage :: "mat \<Rightarrow> bool list list \<Rightarrow> 'k list \<Rightarrow> adv_result" where
  "compute_gpg_outcome_advantage token_level_rewards response_mask index =
     (let scores = row_sums token_level_rewards;
          m = length (filter (\<lambda>s. s \<noteq> 0) scores);
          alpha = real (length scores) / real (max m 1)
      in if length index < length scores then Inl index_error
      else outcome_result (map2 (\<lambda>s mean. alpha * (s - mean)) scores (per_row group_mean index scores)) response_mask)"

text \<open>The length-weighted baseline divides by the total length of the group, which is zero when every
  response of the group is empty.\<close>

definition opo_baseline :: "(real \<times> nat) list \<Rightarrow> pyfloat" where
  "opo_baseline rows =
     (if length rows = 1 then Fin 0
      else pf_div (Fin (\<Sum>(s, n)\<leftarrow>rows. real n * s)) (\<Sum>(s, n)\<leftarrow>rows. real n))"

fun pf_minus :: "pyfloat \<Rightarrow> pyfloat" where
  "pf_minus (Fin x) = Fin (- x)" | "pf_minus PosInf = NegInf" | "pf_minus NegInf = PosInf" | "pf_minus NaN = NaN"

definition compute_opo_outcome_advantage :: "mat \<Rightarrow> bool list list \<Rightarrow> 'k list \<Rightarrow> pyfloat list list res" where
  "compute_opo_outcome_advantage token_level_rewards response_mask index =
     (let scores = row_sums token_level_rewards; lens = map (\<lambda>m. count_list m True) response_mask in
      if length index < length scores \<or> length lens < length scores then Inl index_error
      else broadcast2 (\<lambda>s m. map (\<lambda>b. pf_mul s (Fin (of_bool b))) m)
        (map2 (\<lambda>s b. pf_add (Fin s) (pf_minus b)) scores (per_row opo_baseline index (zip scores lens))) response_mask)"

text \<open>Pass@k: only the best response of a group gets a nonzero advantage. \<open>torch.topk\<close> may return any of
  several best responses; their advantage is then zero.\<close>

definition best_two :: "(nat \<times> real) list \<Rightarrow> nat \<times> real \<times> real" where
  "best_two rows = (let ordered = sort_key (\<lambda>(i, r). - r) rows in (fst (ordered ! 0), snd (ordered ! 0), snd (ordered ! 1)))"

definition passk_group :: "bool \<Rightarrow> (nat \<times> real) list \<Rightarrow> (nat \<times> real) res" where
  "passk_group norm_adv_by_std rows =
     (if length rows < 2 then Inl (ValueError ''Pass@k requires at least 2 samples per group.'')
      else case best_two rows of (i_max, r_max, r_second_max) \<Rightarrow>
        let advantage = r_max - r_second_max
        in Inr (i_max, if norm_adv_by_std then advantage / (std_of (map snd rows) + adv_epsilon) else advantage))"

definition compute_grpo_passk_outcome_advantage :: "mat \<Rightarrow> bool list list \<Rightarrow> 'k list \<Rightarrow> bool \<Rightarrow> adv_result" where
  "compute_grpo_passk_outcome_advantage token_level_rewards response_mask index norm_adv_by_std =
     (let scores = row_sums token_level_rewards in
      if length index < length scores then Inl index_error
      else rbind (rmap (\<lambda>(k, rows). passk_group norm_adv_by_std rows) (id_table index (enumerate 0 scores))) (\<lambda>best.
        outcome_result (foldl (\<lambda>advantages (i, a). advantages[i := a]) (replicate (length scores) 0) best) response_mask))"

section \<open>Vectorised group statistics\<close>

text \<open>The coercion of an object array of strings to \<open>int64\<close>.\<close>

definition int64_of :: "string \<Rightarrow> int option" where
  "int64_of s = (case py_int s of None \<Rightarrow> None | Some n \<Rightarrow> if - (2 ^ 63) \<le> n \<and> n < 2 ^ 63 then Some n else None)"

text \<open>\<open>np.unique(labels, return_inverse=True)[1]\<close>.\<close>

definition unique_inverse :: "'k :: linorder list \<Rightarrow> int list" where
  "unique_inverse labels =
     (let uniques = sort (remdups labels) in map (\<lambda>x. int (length (takeWhile (\<lambda>u. u \<noteq> x) uniques))) labels)"

datatype group_labels = IntLabels "int list" | StrLabels "string list"

fun as_torch_index :: "group_labels \<Rightarrow> int list" where
  "as_torch_index (IntLabels ns) = ns"
| "as_torch_index (StrLabels labels) =
     (if list_all (\<lambda>s. int64_of s \<noteq> None) labels then map (\<lambda>s. the (int64_of s)) labels else unique_inverse labels)"

text \<open>The entries of group \<open>g\<close>, and one entry per group of the three result tensors.\<close>

definition members :: "int list \<Rightarrow> 'a list \<Rightarrow> nat \<Rightarrow> 'a list" where
  "members gidx xs g = map snd (filter (\<lambda>(k, x). k = int g) (zip gidx xs))"

definition group_mean_std :: "vec \<Rightarrow> int list \<Rightarrow> real \<Rightarrow> (vec \<times> vec \<times> vec) res" where
  "group_mean_std scores gidx eps =
     (if length scores \<noteq> length gidx then Inl (ValueError ''scores and gidx length mismatch'')
      else let groups = (if gidx = [] then 0 else Max (set gidx) + 1) in
      if groups = 0 then Inr ([], [], [])
      else if list_ex (\<lambda>g. g < 0) gidx then Inl (RuntimeError ''index out of range in self'')
      else let ids = [0..<nat groups];
        count = map (\<lambda>g. real (length (members gidx scores g))) ids;
        mean = map (\<lambda>g. sum_list (members gidx scores g) / max (count ! g) 1) ids;
        centered = map2 (\<lambda>s g. s - mean ! nat g) scores gidx;
        var_num = map (\<lambda>g. sum_list (members gidx (map (\<lambda>c. c * c) centered) g)) ids;
        std = map (\<lambda>g. sqrt (max (var_num ! g / max (count ! g - 1) 1) eps)) ids
      in Inr (map (\<lambda>g. if count ! g \<le> 1 then 0 else mean ! g) ids,
              map (\<lambda>g. if count ! g \<le> 1 then 1 else std ! g) ids, count))"

definition compute_grpo_vectorized_outcome_advantage :: "mat \<Rightarrow> bool list list \<Rightarrow> group_labels \<Rightarrow> bool \<Rightarrow> adv_result" where
  "compute_grpo_vectorized_outcome_advantage token_level_rewards response_mask index norm_adv_by_std =
     (let scores = row_sums token_level_rewards; g = as_torch_index index in
      rbind (group_mean_std scores g 0) (\<lambda>(mean_g, std_g, count).
      if list_ex (\<lambda>k. int (length mean_g) \<le> k \<or> k < - int (length mean_g)) g then Inl index_error
      else outcome_result
        (map2 (\<lambda>s k. grpo_score norm_adv_by_std s (mean_g ! nat k, std_g ! nat k)) scores g) response_mask))"

definition compute_rloo_vectorized_outcome_advantage :: "mat \<Rightarrow> bool list list \<Rightarrow> 'k :: linorder list \<Rightarrow> adv_result" where
  "compute_rloo_vectorized_outcome_advantage token_level_rewards response_mask index =
     (let scores = row_sums token_level_rewards; inv = unique_inverse index in
      if length inv \<noteq> length scores then Inl (RuntimeError ''weights should be 1-d and have the same length as input'')
      else let c = map (\<lambda>k. real (length (members inv inv (nat k)))) inv;
        totals = map (\<lambda>k. sum_list (members inv scores (nat k))) inv;
        adv = map2 (\<lambda>(n, s) t. (n * s - t) / max (n - 1) 1 * of_bool (1 < n)) (zip c scores) totals
      in outcome_result adv response_mask)"

end
