(* ===== verification/TokenAdvantage.thy ===== *)
theory TokenAdvantage
  imports Advantage
begin

text \<open>
  Token-level advantage estimators (\<open>verl/trainer/ppo/core_algos.py\<close>): generalized advantage
  estimation, REINFORCE++ and its baseline variant, ReMax, GDPO, and the optimal token baselines, with
  the whitening of \<open>verl/utils/torch_functional.py\<close>. Token matrices of different shapes are a
  \<open>RuntimeError\<close>.
\<close>

section \<open>Whitening\<close>

definition masked_var :: "mat \<Rightarrow> bool list list \<Rightarrow> real res" where
  "masked_var values tmask =
     (let mean = masked_mean_eps (concat values) (flat_mask tmask);
          centered = map (\<lambda>x. (x - mean) ^ 2) (concat values);
          variance = masked_mean_eps centered (flat_mask tmask);
          mask_sum = vsum (flat_mask tmask)
      in if mask_sum = 0 then Inl (ValueError ''At least one element in the mask has to be 1.'')
      else if mask_sum = 1 then Inl (ValueError ''The sum of the mask is one, which can cause a division by zero.'')
      else Inr (variance * (mask_sum / (mask_sum - 1))))"

definition masked_whiten :: "mat \<Rightarrow> bool list list \<Rightarrow> mat res" where
  "masked_whiten values tmask =
     (if map length values \<noteq> map length tmask then Inl (RuntimeError ''broadcast'')
      else rbind (masked_var values tmask) (\<lambda>var.
        let mean = masked_mean_eps (concat values) (flat_mask tmask)
        in Inr (map (map (\<lambda>x. (x - mean) * (1 / sqrt (var + 1 / 10 ^ 8)))) values)))"

section \<open>Generalized advantage estimation\<close>

text \<open>One row of the reversed loop: the advantages, and the variables \<open>nextvalues\<close> and \<open>lastgaelam\<close>.\<close>

fun gae_row :: "real \<Rightarrow> real \<Rightarrow> (real \<times> real \<times> bool) list \<Rightarrow> vec \<times> real \<times> real" where
  "gae_row gamma lam [] = ([], 0, 0)"
| "gae_row gamma lam ((r, v, b) # rest) =
     (case gae_row gamma lam rest of (advantages, nextvalues, lastgaelam) \<Rightarrow>
      let m = of_bool b;
          delta = r + gamma * nextvalues - v;
          lastgaelam_new = delta + gamma * lam * lastgaelam;
          nextvalues = v * m + (1 - m) * nextvalues;
          lastgaelam = lastgaelam_new * m + (1 - m) * lastgaelam
      in (lastgaelam # advantages, nextvalues, lastgaelam))"

definition gae_advantages :: "real \<Rightarrow> real \<Rightarrow> mat \<Rightarrow> mat \<Rightarrow> bool list list \<Rightarrow> mat" where
  "gae_advantages gamma lam token_level_rewards values response_mask =
     map (\<lambda>(r, v, m). fst (gae_row gamma lam (zip r (zip v m)))) (zip token_level_rewards (zip values response_mask))"

definition compute_gae_advantage_return :: "mat \<Rightarrow> mat \<Rightarrow> bool list list \<Rightarrow> real \<Rightarrow> real \<Rightarrow> adv_result" where
  "compute_gae_advantage_return token_level_rewards values response_mask gamma lam =
     (if map length values \<noteq> map length token_level_rewards \<or> map length response_mask \<noteq> map length token_level_rewards
      then Inl (RuntimeError ''broadcast'')
      else if [] \<in> set token_level_rewards then Inl (RuntimeError ''stack expects a non-empty TensorList'')
      else let advantages = gae_advantages gamma lam token_level_rewards values response_mask;
        returns = map2_mat (+) advantages values
      in rbind (masked_whiten advantages response_mask) (\<lambda>advantages. Inr (advantages, returns)))"

section \<open>REINFORCE++ and ReMax\<close>

fun discounted_row :: "real \<Rightarrow> (real \<times> bool) list \<Rightarrow> vec \<times> real" where
  "discounted_row gamma [] = ([], 0)"
| "discounted_row gamma ((r, b) # rest) =
     (case discounted_row gamma rest of (returns, running_return) \<Rightarrow>
      let running_return = r + gamma * running_return
      in (running_return # returns, running_return * of_bool b))"

definition compute_reinforce_plus_plus_outcome_advantage :: "mat \<Rightarrow> bool list list \<Rightarrow> real \<Rightarrow> adv_result" where
  "compute_reinforce_plus_plus_outcome_advantage token_level_rewards response_mask gamma =
     (if map length response_mask \<noteq> map length token_level_rewards then Inl (RuntimeError ''broadcast'')
      else let returns = map2 (\<lambda>r m. fst (discounted_row gamma (zip r m))) token_level_rewards response_mask
      in rbind (masked_whiten returns response_mask) (\<lambda>advantages. Inr (mask_mat advantages response_mask, returns)))"

definition compute_reinforce_plus_plus_baseline_outcome_advantage :: "mat \<Rightarrow> bool list list \<Rightarrow> 'k list \<Rightarrow> adv_result" where
  "compute_reinforce_plus_plus_baseline_outcome_advantage token_level_rewards response_mask index =
     (let scores = row_sums token_level_rewards in
      if length index < length scores then Inl index_error
      else if map length response_mask \<noteq> map length token_level_rewards then Inl (RuntimeError ''broadcast'')
      else let centered = map2 (-) scores (per_row group_mean index scores);
        tiled = map2 (\<lambda>s m. map (\<lambda>b. s * of_bool b) m) centered response_mask
      in rbind (masked_whiten tiled response_mask) (\<lambda>white.
        Inr (mask_mat white response_mask, mask_mat white response_mask)))"

text \<open>\<open>flip, cumsum, flip\<close>: the sums of the suffixes.\<close>

fun suffix_sums :: "vec \<Rightarrow> vec" where
  "suffix_sums [] = []"
| "suffix_sums (x # xs) = (x + vsum xs) # suffix_sums xs"

definition reward_to_go :: "mat \<Rightarrow> bool list list \<Rightarrow> mat" where
  "reward_to_go token_level_rewards response_mask = map suffix_sums (mask_mat token_level_rewards response_mask)"

definition compute_remax_outcome_advantage :: "mat \<Rightarrow> vec \<Rightarrow> bool list list \<Rightarrow> adv_result" where
  "compute_remax_outcome_advantage token_level_rewards reward_baselines response_mask =
     (if map length response_mask \<noteq> map length token_level_rewards \<or> length reward_baselines \<noteq> length response_mask
      then Inl (RuntimeError ''broadcast'')
      else let returns = reward_to_go token_level_rewards response_mask;
        baselines = map2 (\<lambda>b m. map (\<lambda>x. b * of_bool x) m) reward_baselines response_mask
      in Inr (map2_mat (-) returns baselines, returns))"

section \<open>Decoupled normalisation\<close>

text \<open>The reward component of a row, placed at the last valid token; index -1 of an empty response is the
  last position.\<close>

definition place_score :: "nat \<Rightarrow> bool list \<Rightarrow> real \<Rightarrow> vec res" where
  "place_score width attention score =
     (let n = count_list attention True; pos = (if n = 0 then width - 1 else n - 1)
      in if width = 0 \<or> width < n then Inl index_error else Inr ((replicate width 0)[pos := score]))"

definition gdpo_scores :: "(string \<times> vec) list \<Rightarrow> string list \<Rightarrow> bool list list \<Rightarrow> bool list list \<Rightarrow> mat list res" where
  "gdpo_scores components reward_keys response_attention response_mask =
     (rmap (\<lambda>key. case map_of components key of
          None \<Rightarrow> Inl (AssertionError ''GDPO reward key not found in non_tensor_batch'')
        | Some component \<Rightarrow> if length component \<noteq> length response_mask \<or> length response_attention \<noteq> length response_mask
            then Inl (RuntimeError ''shape mismatch'')
            else rmap (\<lambda>(m, attention, score). place_score (length m) attention score)
              (zip response_mask (zip response_attention component))) reward_keys)"

definition compute_gdpo_outcome_advantage ::
  "mat list \<Rightarrow> vec option \<Rightarrow> bool list list \<Rightarrow> 'k list \<Rightarrow> bool \<Rightarrow> adv_result" where
  "compute_gdpo_outcome_advantage score_list reward_weights response_mask index norm_adv_by_std =
     (let weights = (case reward_weights of None \<Rightarrow> replicate (length score_list) 1 | Some w \<Rightarrow> w) in
      rbind (rmap (\<lambda>scores. compute_grpo_outcome_advantage scores response_mask index norm_adv_by_std) score_list) (\<lambda>normalized.
      if length weights < length normalized then Inl index_error
      else case map2 (\<lambda>w (a, returns). map (vscale w) a) weights normalized of
        [] \<Rightarrow> Inl (TypeError ''unsupported operand type(s)'')
      | first # rest \<Rightarrow>
          rbind (masked_whiten (foldl (map2_mat (+)) first rest) response_mask) (\<lambda>white.
            Inr (mask_mat white response_mask, mask_mat white response_mask))))"

section \<open>Optimal token baselines\<close>

text \<open>The path-variance proxy: \<open>1 - 2 pi + sum_pi_squared\<close>, scaled by the squared importance weights,
  and its cumulative sums over the masked tokens.\<close>

fun prefix_sums :: "real \<Rightarrow> vec \<Rightarrow> vec" where
  "prefix_sums acc [] = []"
| "prefix_sums acc (x # xs) = (acc + x) # prefix_sums (acc + x) xs"

definition w_per_timestep :: "mat \<Rightarrow> mat \<Rightarrow> mat option \<Rightarrow> mat" where
  "w_per_timestep old_log_probs sum_pi_squared rollout_is_weights =
     (let w = map2_mat (\<lambda>lp s. 1 - 2 * exp lp + s) old_log_probs sum_pi_squared
      in case rollout_is_weights of None \<Rightarrow> w | Some rho \<Rightarrow> map2_mat (\<lambda>w r. w * r ^ 2) w rho)"

definition w_cumulative :: "mat \<Rightarrow> mat \<Rightarrow> mat option \<Rightarrow> bool list list \<Rightarrow> mat" where
  "w_cumulative old_log_probs sum_pi_squared rollout_is_weights response_mask =
     map (prefix_sums 0) (mask_mat (w_per_timestep old_log_probs sum_pi_squared rollout_is_weights) response_mask)"

definition otb_epsilon :: real where "otb_epsilon = 1 / 10 ^ 8"

text \<open>The longest trajectory, when it is the only one of its length, and the second length.\<close>

definition zero_tail :: "nat list \<Rightarrow> nat list \<Rightarrow> (nat \<times> nat) option" where
  "zero_tail rows lens =
     (let sorted_lengths = sort lens; max_length = last sorted_lengths; second = last (butlast sorted_lengths);
          longest = filter (\<lambda>(i, n). n = max_length) (zip rows lens)
      in if length longest = 1 \<and> second < max_length then Some (fst (hd longest), second) else None)"

definition clear_tail :: "nat \<Rightarrow> pyfloat list \<Rightarrow> pyfloat list" where
  "clear_tail second row = take second row @ replicate (length row - second) (Fin 0)"

text \<open>One group: the baseline of every time step for all its rows, and the cleared tail. A group of one
  row keeps the baseline zero.\<close>

definition group_baseline :: "(nat \<Rightarrow> vec) \<Rightarrow> (nat \<Rightarrow> vec) \<Rightarrow> nat \<Rightarrow> nat list \<Rightarrow> pyfloat list" where
  "group_baseline weighted_returns weights width rows =
     map (\<lambda>t. pf_div (Fin (\<Sum>i\<leftarrow>rows. weighted_returns i ! t)) ((\<Sum>i\<leftarrow>rows. weights i ! t) + otb_epsilon)) [0..<width]"

definition assign_baseline :: "bool \<Rightarrow> (nat list \<Rightarrow> pyfloat list) \<Rightarrow> (nat \<Rightarrow> nat) \<Rightarrow> pyfloat list list \<Rightarrow> nat list \<Rightarrow> pyfloat list list" where
  "assign_baseline handle_zero_tail base row_length baselines rows =
     (if length rows = 1 then baselines
      else let baselines = foldl (\<lambda>bs i. bs[i := base rows]) baselines rows
      in case zero_tail rows (map row_length rows) of
           Some (i, second) \<Rightarrow> if handle_zero_tail then baselines[i := clear_tail second (baselines ! i)] else baselines
         | None \<Rightarrow> baselines)"

definition adv_minus :: "real \<Rightarrow> pyfloat \<Rightarrow> bool \<Rightarrow> pyfloat" where
  "adv_minus g b m = pf_mul (pf_add (Fin g) (pf_minus b)) (Fin (of_bool m))"

definition compute_optimal_token_baseline_advantage ::
  "mat \<Rightarrow> bool list list \<Rightarrow> 'k list \<Rightarrow> mat \<Rightarrow> mat \<Rightarrow> mat option \<Rightarrow> bool \<Rightarrow> (pyfloat list list \<times> mat) res" where
  "compute_optimal_token_baseline_advantage token_level_rewards response_mask index old_log_probs sum_pi_squared rollout_is_weights handle_zero_tail =
     (let shape = map length token_level_rewards; batch_size = length token_level_rewards in
      if map length response_mask \<noteq> shape \<or> map length old_log_probs \<noteq> shape \<or> map length sum_pi_squared \<noteq> shape
        \<or> (case rollout_is_weights of None \<Rightarrow> False | Some rho \<Rightarrow> map length rho \<noteq> shape)
      then Inl (RuntimeError ''broadcast'')
      else if length index < batch_size then Inl index_error
      else let
        returns = reward_to_go token_level_rewards response_mask;
        w = w_cumulative old_log_probs sum_pi_squared rollout_is_weights response_mask;
        seq_len = (case token_level_rewards of [] \<Rightarrow> 0 | r # _ \<Rightarrow> length r);
        weighted = map2_mat (*) (map2_mat (*) returns w) (map mask_f response_mask);
        weights = map2_mat (*) w (map mask_f response_mask);
        groups = map snd (group_rows (take batch_size index));
        baselines = foldl (assign_baseline handle_zero_tail (group_baseline (\<lambda>i. weighted ! i) (\<lambda>i. weights ! i) seq_len)
            (\<lambda>i. count_list (response_mask ! i) True)) (replicate batch_size (replicate seq_len (Fin 0))) groups
      in Inr (map (\<lambda>(g, b, m). map (\<lambda>(x, y, z). adv_minus x y z) (zip g (zip b m))) (zip returns (zip baselines response_mask)), returns))"

text \<open>The multi-turn form works on the masked tokens of every row, moved to the front.\<close>

definition compress :: "bool list \<Rightarrow> 'a list \<Rightarrow> 'a list" where
  "compress m xs = map fst (filter snd (zip xs m))"

fun expand :: "'a \<Rightarrow> bool list \<Rightarrow> 'a list \<Rightarrow> 'a list" where
  "expand fill [] xs = []"
| "expand fill (b # m) xs =
     (if b then (case xs of [] \<Rightarrow> fill # expand fill m [] | x # rest \<Rightarrow> x # expand fill m rest) else fill # expand fill m xs)"

definition compute_multi_turn_optimal_token_baseline_advantage ::
  "mat \<Rightarrow> bool list list \<Rightarrow> 'k list \<Rightarrow> mat \<Rightarrow> mat \<Rightarrow> mat option \<Rightarrow> bool \<Rightarrow> (pyfloat list list \<times> mat) res" where
  "compute_multi_turn_optimal_token_baseline_advantage token_level_rewards response_mask index old_log_probs sum_pi_squared rollout_is_weights handle_zero_tail =
     (let shape = map length token_level_rewards; batch_size = length token_level_rewards in
      if map length response_mask \<noteq> shape \<or> map length old_log_probs \<noteq> shape \<or> map length sum_pi_squared \<noteq> shape
        \<or> (case rollout_is_weights of None \<Rightarrow> False | Some rho \<Rightarrow> map length rho \<noteq> shape)
      then Inl (RuntimeError ''broadcast'')
      else if length index < batch_size then Inl index_error
      else let
        token_returns = reward_to_go token_level_rewards response_mask;
        w = w_cumulative old_log_probs sum_pi_squared rollout_is_weights response_mask;
        lens = map (\<lambda>m. count_list m True) response_mask;
        max_response_length = foldr max lens 0;
        all_w = map2 (\<lambda>m x. pad_row 0 max_response_length (compress m x)) response_mask w;
        all_returns = map2 (\<lambda>m x. pad_row 0 max_response_length (compress m x)) response_mask token_returns;
        weighted = map2_mat (*) all_returns all_w;
        groups = map snd (foldl (\<lambda>d (i, k). if lens ! i = 0 then d else setdefault_append k i d) [] (enumerate 0 (take batch_size index)));
        baselines = foldl (assign_baseline handle_zero_tail (group_baseline (\<lambda>i. weighted ! i) (\<lambda>i. all_w ! i) max_response_length)
            (\<lambda>i. lens ! i)) (replicate batch_size (replicate max_response_length (Fin 0))) groups;
        all_advantages = map2 (map2 (\<lambda>g b. pf_add (Fin g) (pf_minus b))) all_returns baselines
      in Inr (map2 (\<lambda>m a. map2 (\<lambda>x b. pf_mul x (Fin (of_bool b))) (expand (Fin 0) m a) m) response_mask all_advantages, token_returns))"

end
