(* ===== verification/AdvantageStep.thy ===== *)
theory AdvantageStep
  imports TokenAdvantage "HOL-Library.AList"
begin

text \<open>
  The advantage step of the trainer: the KL penalty on the rewards with its controllers
  (\<open>core_algos.py\<close>, \<open>ray_trainer.py\<close>), the dispatch \<open>compute_advantage\<close>, the multi-trajectory form
  for GRPO (\<open>v1/utils.py\<close>), and \<open>_compute_advantage\<close> of \<open>v1/trainer_base.py\<close> without rollout correction.
  A batch has at least one row.
\<close>

section \<open>KL control\<close>

datatype kl_controller = FixedKL (kl_value: real) | AdaptiveKL (kl_value: real) (kl_target: real) (kl_horizon: real)

definition get_kl_controller :: "string \<Rightarrow> real \<Rightarrow> real \<Rightarrow> real \<Rightarrow> kl_controller res" where
  "get_kl_controller kind kl_coef target_kl horizon =
     (if kind = ''fixed'' then Inr (FixedKL kl_coef)
      else if kind = ''adaptive''
      then if \<not> 0 < horizon then Inl (AssertionError ''horizon must be larger than 0'') else Inr (AdaptiveKL kl_coef target_kl horizon)
      else Inl (NotImplementedError []))"

fun kl_update :: "kl_controller \<Rightarrow> real \<Rightarrow> nat \<Rightarrow> kl_controller res" where
  "kl_update (FixedKL v) current_kl n_steps = Inr (FixedKL v)"
| "kl_update (AdaptiveKL v target horizon) current_kl n_steps =
     (if target = 0 \<or> horizon = 0 then Inl (ZeroDivisionError ''float division by zero'')
      else let proportional_error = clamp (- 1 / 5) (1 / 5) (current_kl / target - 1);
        mult = 1 + proportional_error * real n_steps / horizon
      in Inr (AdaptiveKL (v * mult) target horizon))"

record kl_outcome =
  ko_rewards :: mat
  ko_controller :: kl_controller
  ko_metrics :: "(string \<times> real) list"

definition apply_kl_penalty :: "mat \<Rightarrow> bool list list \<Rightarrow> mat \<Rightarrow> mat \<Rightarrow> kl_controller \<Rightarrow> string \<Rightarrow> kl_outcome res" where
  "apply_kl_penalty token_level_scores response_mask old_log_probs ref_log_prob kl_ctrl kind =
     rbind (kl_penalty kind old_log_probs ref_log_prob) (\<lambda>kld.
     if map length response_mask \<noteq> map length kld \<or> map length token_level_scores \<noteq> map length kld
     then Inl (RuntimeError ''broadcast'')
     else let kld = mask_mat kld response_mask; beta = kl_value kl_ctrl;
       token_level_rewards = map2_mat (\<lambda>s d. s - beta * d) token_level_scores kld;
       current_kl = mean_of (map2 (\<lambda>d m. masked_mean_eps d (mask_f m)) kld response_mask)
     in rbind (kl_update kl_ctrl current_kl (length token_level_scores)) (\<lambda>ctrl.
       Inr \<lparr>ko_rewards = token_level_rewards, ko_controller = ctrl,
         ko_metrics = [(''actor/reward_kl_penalty'', current_kl), (''actor/reward_kl_penalty_coeff'', beta)]\<rparr>))"

definition compute_rewards :: "mat \<Rightarrow> mat \<Rightarrow> mat \<Rightarrow> real \<Rightarrow> mat res" where
  "compute_rewards token_level_scores old_log_prob ref_log_prob kl_ratio =
     (if map length old_log_prob \<noteq> map length ref_log_prob \<or> map length token_level_scores \<noteq> map length ref_log_prob
      then Inl (RuntimeError ''broadcast'')
      else Inr (map2_mat (\<lambda>s d. s - d * kl_ratio) token_level_scores (map2_mat (-) old_log_prob ref_log_prob)))"

section \<open>Dispatch\<close>

record adv_batch =
  ab_token_level_rewards :: mat
  ab_response_mask :: "bool list list"
  ab_uid :: "string list option"
  ab_values :: "mat option"
  ab_reward_baselines :: "vec option"
  ab_old_log_probs :: "mat option"
  ab_sum_pi_squared :: "mat option"
  ab_rollout_is_weights :: "mat option"
  ab_components :: "(string \<times> vec) list"
  ab_response_attention :: "bool list list option"

record adv_config =
  ag_gamma :: real
  ag_norm_adv_by_std_in_grpo :: bool
  ag_gdpo_reward_keys :: "string list"
  ag_gdpo_reward_weights :: "vec option"

definition fin_mat :: "mat \<Rightarrow> pyfloat list list" where
  "fin_mat a = map (map Fin) a"

definition need :: "err \<Rightarrow> 'a option \<Rightarrow> ('a \<Rightarrow> 'b res) \<Rightarrow> 'b res" where
  "need e x k = (case x of None \<Rightarrow> Inl e | Some v \<Rightarrow> k v)"

definition missing_argument :: err where
  "missing_argument = TypeError ''missing a required positional argument''"

definition estimator_names :: "string list" where
  "estimator_names = [''gae'', ''grpo'', ''reinforce_plus_plus'', ''reinforce_plus_plus_baseline'', ''remax'', ''rloo'', ''opo'',
     ''grpo_passk'', ''gpg'', ''rloo_vectorized'', ''grpo_vectorized'', ''optimal_token_baseline'',
     ''tir_optimal_token_baseline'', ''gdpo'']"

text \<open>The estimators reached through the registry. The advantages of OPO and of the token baselines may be
  \<open>NaN\<close>; OPO returns one matrix twice.\<close>

definition registered_estimator :: "adv_batch \<Rightarrow> string \<Rightarrow> adv_config \<Rightarrow> (pyfloat list list \<times> pyfloat list list) res" where
  "registered_estimator B name C =
     (let r = ab_token_level_rewards B; m = ab_response_mask B;
          both = (\<lambda>x. rbind x (\<lambda>(a, returns). Inr (fin_mat a, fin_mat returns)));
          otb = (\<lambda>f. need (AssertionError ''sum_pi_squared'') (ab_sum_pi_squared B) (\<lambda>s.
            need (KeyError ''old_log_probs'') (ab_old_log_probs B) (\<lambda>lp.
            need missing_argument (ab_uid B) (\<lambda>uid.
            rbind (f r m uid lp s (ab_rollout_is_weights B) True) (\<lambda>(a, returns). Inr (a, fin_mat returns))))))
      in if name \<notin> set estimator_names then Inl (ValueError ''Unknown advantage estimator simply'')
      else if name = ''reinforce_plus_plus'' then both (compute_reinforce_plus_plus_outcome_advantage r m (ag_gamma C))
      else if name = ''remax''
      then need missing_argument (ab_reward_baselines B) (\<lambda>b. both (compute_remax_outcome_advantage r b m))
      else if name = ''optimal_token_baseline'' then otb compute_optimal_token_baseline_advantage
      else if name = ''tir_optimal_token_baseline'' then otb compute_multi_turn_optimal_token_baseline_advantage
      else need missing_argument (ab_uid B) (\<lambda>uid.
        if name = ''reinforce_plus_plus_baseline'' then both (compute_reinforce_plus_plus_baseline_outcome_advantage r m uid)
        else if name = ''rloo'' then both (compute_rloo_outcome_advantage r m uid)
        else if name = ''opo'' then rbind (compute_opo_outcome_advantage r m uid) (\<lambda>a. Inr (a, a))
        else if name = ''grpo_passk'' then both (compute_grpo_passk_outcome_advantage r m uid (ag_norm_adv_by_std_in_grpo C))
        else if name = ''gpg'' then both (compute_gpg_outcome_advantage r m uid)
        else if name = ''rloo_vectorized'' then both (compute_rloo_vectorized_outcome_advantage r m uid)
        else if name = ''grpo_vectorized''
        then if ab_reward_baselines B \<noteq> None then Inl (TypeError ''got an unexpected keyword argument'')
          else both (compute_grpo_vectorized_outcome_advantage r m (StrLabels uid) True)
        else if ag_gdpo_reward_keys C = [] then Inl (AssertionError ''GDPO requires algorithm.gdpo_reward_keys'')
        else need (KeyError ''prompts'') (ab_response_attention B) (\<lambda>attention.
          rbind (gdpo_scores (ab_components B) (ag_gdpo_reward_keys C) attention m) (\<lambda>score_list.
          both (compute_gdpo_outcome_advantage score_list (ag_gdpo_reward_weights C) m uid True)))))"

definition compute_advantage ::
  "adv_batch \<Rightarrow> string \<Rightarrow> real \<Rightarrow> real \<Rightarrow> bool \<Rightarrow> adv_config \<Rightarrow> (pyfloat list list \<times> pyfloat list list) res" where
  "compute_advantage B name gamma lam norm_adv_by_std C =
     (let both = (\<lambda>x. rbind x (\<lambda>(a, returns). Inr (fin_mat a, fin_mat returns))) in
      if name = ''gae''
      then need (KeyError ''values'') (ab_values B) (\<lambda>v.
        both (compute_gae_advantage_return (ab_token_level_rewards B) v (ab_response_mask B) gamma lam))
      else if name = ''grpo''
      then need (KeyError ''uid'') (ab_uid B) (\<lambda>uid.
        both (compute_grpo_outcome_advantage (ab_token_level_rewards B) (ab_response_mask B) uid norm_adv_by_std))
      else registered_estimator B name C)"

section \<open>Several trajectories per session\<close>

text \<open>The session and the output index of a row key \<open>{uid}_{session_id}_{index}\<close>.\<close>

definition session_of :: "string \<Rightarrow> (string \<times> int) res" where
  "session_of key =
     (let fields_of = rsplit2 key in
      if length fields_of \<noteq> 3 then Inl (AssertionError ''Unexpected key format'')
      else case py_int (fields_of ! 2) of
          None \<Rightarrow> Inl (ValueError ''invalid literal for int() with base 10'')
        | Some index \<Rightarrow> Inr (fields_of ! 0 @ ''_'' @ fields_of ! 1, index))"

definition final_sessions :: "(string \<times> int) list \<Rightarrow> (string \<times> int \<times> nat) list" where
  "final_sessions sessions =
     foldl (\<lambda>final (i, session_key, index).
         if (case map_of final session_key of None \<Rightarrow> True | Some (best, _) \<Rightarrow> best < index)
         then AList.update session_key (index, i) final else final)
       [] (enumerate 0 sessions)"

definition position_of :: "'k \<Rightarrow> 'k list \<Rightarrow> nat" where
  "position_of k keys = length (takeWhile (\<lambda>x. x \<noteq> k) keys)"

definition pick_rows :: "nat list \<Rightarrow> 'a list \<Rightarrow> 'a list" where
  "pick_rows rows xs = map (\<lambda>i. xs ! i) rows"

definition select_idxs :: "adv_batch \<Rightarrow> nat list \<Rightarrow> adv_batch res" where
  "select_idxs B rows =
     (if list_ex (\<lambda>i. length (ab_token_level_rewards B) \<le> i) rows then Inl index_error
      else Inr \<lparr>ab_token_level_rewards = pick_rows rows (ab_token_level_rewards B),
        ab_response_mask = pick_rows rows (ab_response_mask B), ab_uid = map_option (pick_rows rows) (ab_uid B),
        ab_values = map_option (pick_rows rows) (ab_values B),
        ab_reward_baselines = map_option (pick_rows rows) (ab_reward_baselines B),
        ab_old_log_probs = map_option (pick_rows rows) (ab_old_log_probs B),
        ab_sum_pi_squared = map_option (pick_rows rows) (ab_sum_pi_squared B),
        ab_rollout_is_weights = map_option (pick_rows rows) (ab_rollout_is_weights B),
        ab_components = map (\<lambda>(k, xs). (k, pick_rows rows xs)) (ab_components B),
        ab_response_attention = map_option (pick_rows rows) (ab_response_attention B)\<rparr>)"

text \<open>\<open>response_mask.argmax(dim=1)\<close> on one row: the first masked-in position, or 0.\<close>

definition first_nnz :: "bool list \<Rightarrow> nat" where
  "first_nnz m = (if True \<in> set m then length (takeWhile Not m) else 0)"

definition compute_advantage_for_multi_trajectories ::
  "adv_batch \<Rightarrow> string list \<Rightarrow> string \<Rightarrow> real \<Rightarrow> real \<Rightarrow> bool \<Rightarrow> adv_config \<Rightarrow> (pyfloat list list \<times> pyfloat list list) res" where
  "compute_advantage_for_multi_trajectories B batch_keys name gamma lam norm_adv_by_std C =
     (if name \<noteq> ''grpo'' then compute_advantage B name gamma lam norm_adv_by_std C
      else rbind (rmap session_of batch_keys) (\<lambda>sessions.
        let final = final_sessions sessions;
          final_indices = map (snd \<circ> snd) final;
          row_to_local_index = map (\<lambda>(session_key, _). position_of session_key (map fst final)) sessions
        in rbind (select_idxs B final_indices) (\<lambda>F.
        rbind (compute_advantage F name gamma lam norm_adv_by_std C) (\<lambda>(advantages, _).
        if [] \<in> set (ab_response_mask F) then Inl (IndexError ''argmax(): Expected reduction dim 1 to have non-zero size'')
        else let final_scores = map2 (\<lambda>a m. a ! first_nnz m) advantages (ab_response_mask F);
          row_scores = map (\<lambda>j. final_scores ! j) row_to_local_index
        in rbind (broadcast2 (\<lambda>s m. map (\<lambda>b. pf_mul s (Fin (of_bool b))) m) row_scores (ab_response_mask B)) (\<lambda>scores.
          Inr (scores, scores))))))"

section \<open>The trainer's step\<close>

text \<open>The fields of the queue are nested rows; the padding entries are 0 and \<open>False\<close>.\<close>

record adv_fields =
  af_uid :: "string list"
  af_response_mask :: "bool list list"
  af_rm_scores :: "vec list"
  af_old_log_probs :: "vec list option"
  af_ref_log_prob :: "vec list option"
  af_values :: "vec list option"

record adv_output =
  ao_advantages :: "pyfloat list list"
  ao_returns :: "pyfloat list list"
  ao_token_level_rewards :: "vec list option"
  ao_controller :: "kl_controller"
  ao_metrics :: "(string \<times> real) list"

definition padded :: "'a \<Rightarrow> 'a list list \<Rightarrow> 'a list list" where
  "padded fill rows = pad_rows fill (max_len rows) rows"

definition response_to_nested :: "'a list list \<Rightarrow> bool list list \<Rightarrow> 'a list list res" where
  "response_to_nested rows response_mask =
     (if length response_mask < length rows then Inl index_error
      else Inr (map2 (\<lambda>row m. take (length m) row) rows response_mask))"

definition penalised_rewards :: "bool \<Rightarrow> kl_controller \<Rightarrow> string \<Rightarrow> adv_fields \<Rightarrow> kl_outcome res" where
  "penalised_rewards use_kl_in_reward kl_ctrl kind D =
     (let scores = padded 0 (af_rm_scores D) in
      if \<not> use_kl_in_reward then Inr \<lparr>ko_rewards = scores, ko_controller = kl_ctrl, ko_metrics = []\<rparr>
      else
          need (KeyError ''old_log_probs'') (af_old_log_probs D) (\<lambda>lp.
          need (KeyError ''ref_log_prob'') (af_ref_log_prob D) (\<lambda>ref.
            apply_kl_penalty scores (padded False (af_response_mask D)) (padded 0 lp) (padded 0 ref) kl_ctrl kind)))"

definition trainer_compute_advantage ::
  "bool \<Rightarrow> kl_controller \<Rightarrow> string \<Rightarrow> string list \<Rightarrow> adv_fields \<Rightarrow> string \<Rightarrow> real \<Rightarrow> real \<Rightarrow> adv_config \<Rightarrow> adv_output res" where
  "trainer_compute_advantage use_kl_in_reward kl_ctrl kind batch_keys D name gamma lam C =
     rbind (penalised_rewards use_kl_in_reward kl_ctrl kind D) (\<lambda>K.
     let B = \<lparr>ab_token_level_rewards = ko_rewards K, ab_response_mask = padded False (af_response_mask D),
         ab_uid = Some (af_uid D), ab_values = map_option (padded 0) (af_values D), ab_reward_baselines = None,
         ab_old_log_probs = map_option (padded 0) (af_old_log_probs D), ab_sum_pi_squared = None,
         ab_rollout_is_weights = None, ab_components = [], ab_response_attention = None\<rparr>
     in rbind (compute_advantage_for_multi_trajectories B batch_keys name gamma lam (ag_norm_adv_by_std_in_grpo C) C) (\<lambda>(advantages, returns).
     rbind (response_to_nested advantages (af_response_mask D)) (\<lambda>advantages.
     rbind (response_to_nested returns (af_response_mask D)) (\<lambda>returns.
     rbind (response_to_nested (ko_rewards K) (af_response_mask D)) (\<lambda>rewards.
       Inr \<lparr>ao_advantages = advantages, ao_returns = returns,
         ao_token_level_rewards = (if use_kl_in_reward then Some rewards else None),
         ao_controller = ko_controller K, ao_metrics = ko_metrics K\<rparr>)))))"

end
