(* ===== verification/AdvantageProps.thy ===== *)
theory AdvantageProps
  imports AdvantageStep
begin

text \<open>
  Properties of the advantage step: the group-relative scores, the vectorised forms, leave-one-out
  baselines, generalized advantage estimation over masked tokens, the optimal token baselines, and the
  broadcast of a session's final score over its trajectories.
\<close>

section \<open>Group tables\<close>

definition entries :: "'k list \<Rightarrow> 'a list \<Rightarrow> 'k \<Rightarrow> 'a list" where
  "entries index xs k = map snd (filter (\<lambda>(k', x). k' = k) (zip index xs))"

lemma setdefault_table:
  "distinct (map fst (foldl (\<lambda>d (k, x). setdefault_append k x d) [] rows))
    \<and> (\<forall>k. map_of (foldl (\<lambda>d (k, x). setdefault_append k x d) [] rows) k =
        (if k \<in> fst ` set rows then Some (map snd (filter (\<lambda>(k', x). k' = k) rows)) else None))"
proof (induction rows rule: rev_induct)
  case (snoc row rows)
  obtain k x where row: "row = (k, x)" by force
  let ?d = "foldl (\<lambda>d (k, x). setdefault_append k x d) [] rows"
  have keys: "fst ` set ?d = fst ` set rows"
    using snoc by (metis (no_types, lifting) map_of_eq_None_iff option.distinct(1) subsetI subset_antisym)
  have none: "filter (\<lambda>(k', x). k' = u) rows = []" if "u \<notin> fst ` set rows" for u
    using that by (force simp: filter_empty_conv)
  show ?case using snoc none keys
    by (auto simp: row keys_setdefault_append map_of_setdefault_append)
qed simp

lemma id_table_of:
  "map_of (id_table index xs) k = (if k \<in> fst ` set (zip index xs) then Some (entries index xs k) else None)"
  using setdefault_table [of "zip index xs"] unfolding id_table_def entries_def by blast

lemma map_of_map_snd: "map_of (map (\<lambda>(k, ys). (k, f ys)) d) k = map_option f (map_of d k)"
  by (induction d) auto

lemma per_row_nth [simp]:
  assumes "length xs \<le> length index"
  shows "length (per_row f index xs) = length xs"
    and "i < length xs \<Longrightarrow> per_row f index xs ! i = f (entries index xs (index ! i))"
proof -
  show "length (per_row f index xs) = length xs" using assms by (simp add: per_row_def)
  assume i: "i < length xs"
  then have "(index ! i, xs ! i) \<in> set (zip index xs)" using assms by (auto simp: set_zip)
  then have "index ! i \<in> fst ` set (zip index xs)" by force
  then show "per_row f index xs ! i = f (entries index xs (index ! i))"
    using i assms by (simp add: per_row_def map_of_map_snd id_table_of)
qed

lemma entries_nth: "length xs \<le> length index \<Longrightarrow> entries index xs k = map (\<lambda>i. xs ! i) (filter (\<lambda>i. index ! i = k) [0..<length xs])"
proof -
  assume le: "length xs \<le> length index"
  have "zip index xs = map (\<lambda>i. (index ! i, xs ! i)) [0..<length xs]"
    using le by (intro nth_equalityI) auto
  then show ?thesis by (simp add: entries_def filter_map comp_def)
qed

section \<open>Group-relative scores\<close>

definition group_of :: "'k list \<Rightarrow> nat \<Rightarrow> nat \<Rightarrow> nat list" where
  "group_of index n i = filter (\<lambda>j. index ! j = index ! i) [0..<n]"

definition group_score :: "bool \<Rightarrow> 'k list \<Rightarrow> vec \<Rightarrow> nat \<Rightarrow> real" where
  "group_score norm_adv index rewards i =
     grpo_score norm_adv (rewards ! i) (grpo_stats (map (\<lambda>j. rewards ! j) (group_of index (length rewards) i)))"

definition spread_scores :: "(nat \<Rightarrow> real) \<Rightarrow> bool list list \<Rightarrow> mat" where
  "spread_scores score response_mask =
     map (\<lambda>i. map (\<lambda>b. if b then score i else 0) (response_mask ! i)) [0..<length response_mask]"

lemma outcome_result_spread:
  assumes "length scores = length response_mask"
  shows "outcome_result scores response_mask
    = Inr (spread_scores (\<lambda>i. scores ! i) response_mask, spread_scores (\<lambda>i. scores ! i) response_mask)"
proof -
  have "map2 (\<lambda>s m. map (\<lambda>b. s * of_bool b) m) scores response_mask = spread_scores (\<lambda>i. scores ! i) response_mask"
    using assms by (intro nth_equalityI) (auto simp: spread_scores_def)
  then show ?thesis using assms by (simp add: outcome_result_def mask_rows_def broadcast2_def)
qed

lemma spread_scores_cong: "(\<And>i. i < length response_mask \<Longrightarrow> f i = g i) \<Longrightarrow> spread_scores f response_mask = spread_scores g response_mask"
  by (auto simp: spread_scores_def)

lemma grpo_run:
  assumes "length response_mask = length R" "length R \<le> length index"
  shows "compute_grpo_outcome_advantage R response_mask index norm_adv
    = Inr (spread_scores (group_score norm_adv index (row_sums R)) response_mask,
           spread_scores (group_score norm_adv index (row_sums R)) response_mask)"
proof -
  let ?s = "map2 (grpo_score norm_adv) (row_sums R) (per_row grpo_stats index (row_sums R))"
  have "compute_grpo_outcome_advantage R response_mask index norm_adv = outcome_result ?s response_mask"
    using assms by (simp add: compute_grpo_outcome_advantage_def row_sums_def Let_def)
  also have "\<dots> = Inr (spread_scores (\<lambda>i. ?s ! i) response_mask, spread_scores (\<lambda>i. ?s ! i) response_mask)"
    using assms by (intro outcome_result_spread) (simp add: row_sums_def)
  also have "spread_scores (\<lambda>i. ?s ! i) response_mask = spread_scores (group_score norm_adv index (row_sums R)) response_mask"
    using assms by (intro spread_scores_cong) (simp add: row_sums_def group_score_def group_of_def entries_nth)
  finally show ?thesis .
qed

lemma sum_square_le: "(sum_list ys)\<^sup>2 \<le> real (length ys) * sum_list (map (\<lambda>y. y\<^sup>2) ys)" for ys :: "real list"
proof (induction ys)
  case (Cons y ys)
  let ?n = "real (length ys)" and ?S = "sum_list ys" and ?Q = "sum_list (map (\<lambda>y. y\<^sup>2) ys)"
  have "2 * y * ?S \<le> ?n * y\<^sup>2 + ?Q"
  proof (cases "ys = []")
    case False
    then have n: "0 < ?n" by simp
    have "0 \<le> (?n * y - ?S)\<^sup>2 / ?n" using n by simp
    also have "\<dots> = ?n * y\<^sup>2 - 2 * y * ?S + ?S\<^sup>2 / ?n" using n by (simp add: power2_eq_square field_simps)
    finally have "2 * y * ?S \<le> ?n * y\<^sup>2 + ?S\<^sup>2 / ?n" by simp
    moreover have "?S\<^sup>2 / ?n \<le> ?Q" using Cons.IH n by (simp add: field_simps)
    ultimately show ?thesis by linarith
  qed simp
  then show ?case using Cons.IH by (simp add: power2_eq_square algebra_simps)
qed simp

lemma centred_sum: "xs \<noteq> [] \<Longrightarrow> sum_list (map (\<lambda>x. x - mean_of xs) xs) = 0"
  by (simp add: sum_list_subtractf mean_of_def sum_list_triv)

lemma std_of_nonneg: "0 \<le> std_of xs"
  by (cases xs) (auto simp: std_of_def intro!: divide_nonneg_nonneg add_nonneg_nonneg sum_list_nonneg)

text \<open>No entry of a sample is further than \<open>(n - 1) / sqrt n\<close> standard deviations from the mean.\<close>

lemma deviation_bound:
  assumes "a \<in> set xs" "2 \<le> length xs"
  shows "\<bar>a - mean_of xs\<bar> \<le> std_of xs * ((real (length xs) - 1) / sqrt (real (length xs)))"
proof -
  let ?n = "real (length xs)" and ?d = "\<lambda>x. x - mean_of xs" and ?V = "sum_list (map (\<lambda>x. (x - mean_of xs)\<^sup>2) xs)"
  have n: "1 < ?n" using assms(2) by simp
  have split: "sum_list (map f xs) = f a + sum_list (map f (remove1 a xs))" for f :: "real \<Rightarrow> real"
    using assms(1) by (rule sum_list_map_remove1)
  have len: "real (length (remove1 a xs)) = ?n - 1" using assms by (simp add: length_remove1)
  have "?d a = - sum_list (map ?d (remove1 a xs))" using split [of ?d] centred_sum [of xs] assms(2) by fastforce
  then have "(?d a)\<^sup>2 \<le> (?n - 1) * sum_list (map (\<lambda>x. (?d x)\<^sup>2) (remove1 a xs))"
    using sum_square_le [of "map ?d (remove1 a xs)"] len by (simp add: comp_def)
  also have "sum_list (map (\<lambda>x. (?d x)\<^sup>2) (remove1 a xs)) = ?V - (?d a)\<^sup>2" using split [of "\<lambda>x. (?d x)\<^sup>2"] by simp
  finally have le: "?n * (?d a)\<^sup>2 \<le> (?n - 1) * ?V" by (simp add: algebra_simps)
  have "?V = (?n - 1) * (std_of xs)\<^sup>2"
  proof -
    have "0 \<le> ?V" by (rule sum_list_nonneg) auto
    then have "(std_of xs)\<^sup>2 = ?V / (?n - 1)" using n by (simp add: std_of_def)
    then show ?thesis using n by simp
  qed
  then have le2: "?n * (?d a)\<^sup>2 \<le> (?n - 1) * ((?n - 1) * (std_of xs)\<^sup>2)" using le by simp
  have "(std_of xs * ((?n - 1) / sqrt ?n))\<^sup>2 = (?n - 1) * ((?n - 1) * (std_of xs)\<^sup>2) / ?n"
    using n by (simp add: power_mult_distrib power_divide) (simp add: power2_eq_square)
  moreover have "(?d a)\<^sup>2 \<le> (?n - 1) * ((?n - 1) * (std_of xs)\<^sup>2) / ?n"
  proof -
    have "(?d a)\<^sup>2 * ?n \<le> (?n - 1) * ((?n - 1) * (std_of xs)\<^sup>2)" using le2 by (metis mult.commute)
    moreover have "0 < ?n" using n by linarith
    ultimately show ?thesis by (metis pos_le_divide_eq)
  qed
  ultimately have "(?d a)\<^sup>2 \<le> (std_of xs * ((?n - 1) / sqrt ?n))\<^sup>2" by simp
  then show ?thesis
    using std_of_nonneg [of xs] n by (metis abs_le_square_iff abs_of_nonneg divide_nonneg_nonneg less_eq_real_def linorder_not_le
        mult_nonneg_nonneg of_nat_0_le_iff real_sqrt_ge_zero diff_ge_0_iff_ge)
qed

lemma group_of_self: "i < n \<Longrightarrow> i \<in> set (group_of index n i)"
  by (simp add: group_of_def)

lemma group_of_same: "index ! i = index ! j \<Longrightarrow> group_of index n i = group_of index n j"
  by (simp add: group_of_def)

lemma adv_epsilon_pos: "0 < adv_epsilon"
  by (simp add: adv_epsilon_def)

lemma group_score_big:
  assumes "2 \<le> length (group_of index (length rewards) i)"
  defines "xs \<equiv> map (\<lambda>j. rewards ! j) (group_of index (length rewards) i)"
  shows "group_score norm_adv index rewards i
    = (rewards ! i - mean_of xs) * (if norm_adv then 1 / (std_of xs + adv_epsilon) else 1)"
  using assms by (simp add: group_score_def grpo_score_def grpo_stats_def)

lemma group_scale_pos: "0 < (if norm_adv then 1 / (std_of xs + adv_epsilon) else 1 :: real)"
  using std_of_nonneg [of xs] adv_epsilon_pos by simp

text \<open>C27: group-relative advantages. For every batch with one uid and one mask row per reward row, the
  GRPO estimator returns one score per row on the masked-in tokens and zero elsewhere, and the scores of
  a prompt group of at least two rows add up to zero, are ordered like the rewards of the group, vanish
  when these are equal, and with normalisation lie strictly within \<open>(g - 1) / sqrt g\<close> for a group of
  \<open>g\<close>; a row alone in its group keeps its reward, divided by \<open>1 + epsilon\<close> under normalisation.\<close>

theorem grpo_group_relative:
  assumes "length response_mask = length R" "length R \<le> length index"
  shows "\<exists>score. compute_grpo_outcome_advantage R response_mask index norm_adv
      = Inr (spread_scores score response_mask, spread_scores score response_mask)
    \<and> (\<forall>i < length R. let members = group_of index (length R) i; g = length members in
        (if g = 1 then score i = vsum (R ! i) / (if norm_adv then 1 + adv_epsilon else 1)
         else (\<Sum>j\<leftarrow>members. score j) = 0
           \<and> (\<forall>j \<in> set members. score i \<le> score j \<longleftrightarrow> vsum (R ! i) \<le> vsum (R ! j))
           \<and> ((\<forall>j \<in> set members. vsum (R ! j) = vsum (R ! i)) \<longrightarrow> score i = 0)
           \<and> (norm_adv \<longrightarrow> \<bar>score i\<bar> < (real g - 1) / sqrt (real g))))"
proof (intro exI conjI allI impI)
  let ?s = "group_score norm_adv index (row_sums R)"
  show "compute_grpo_outcome_advantage R response_mask index norm_adv
      = Inr (spread_scores ?s response_mask, spread_scores ?s response_mask)"
    by (rule grpo_run) fact+
  fix i assume i: "i < length R"
  let ?m = "group_of index (length R) i" and ?x = "\<lambda>j. row_sums R ! j"
  let ?g = "length ?m" and ?xs = "map ?x ?m" and ?c = "\<lambda>xs. if norm_adv then 1 / (std_of xs + adv_epsilon) else 1"
  have row: "?x j = vsum (R ! j)" if "j \<in> set ?m" for j using that by (simp add: group_of_def row_sums_def)
  have len: "length (row_sums R) = length R" by (simp add: row_sums_def)
  have self: "i \<in> set ?m" by (rule group_of_self) fact
  show "let members = ?m; g = length members in
        (if g = 1 then ?s i = vsum (R ! i) / (if norm_adv then 1 + adv_epsilon else 1)
         else (\<Sum>j\<leftarrow>members. ?s j) = 0
           \<and> (\<forall>j \<in> set members. ?s i \<le> ?s j \<longleftrightarrow> vsum (R ! i) \<le> vsum (R ! j))
           \<and> ((\<forall>j \<in> set members. vsum (R ! j) = vsum (R ! i)) \<longrightarrow> ?s i = 0)
           \<and> (norm_adv \<longrightarrow> \<bar>?s i\<bar> < (real g - 1) / sqrt (real g)))"
  proof (cases "?g = 1")
    case True
    then show ?thesis using row [OF self] by (simp add: group_score_def grpo_score_def grpo_stats_def len)
  next
    case False
    have "?g \<noteq> 0" using self by auto
    then have g: "2 \<le> ?g" using False by linarith
    have score: "?s j = (?x j - mean_of ?xs) * ?c ?xs" if "j \<in> set ?m" for j
    proof -
      have "index ! j = index ! i" using that by (simp add: group_of_def)
      from group_of_same [OF this] show ?thesis using group_score_big [of index "row_sums R" j norm_adv] g by (simp add: len)
    qed
    have pos: "0 < ?c ?xs" by (rule group_scale_pos)
    have "(\<Sum>j\<leftarrow>?m. ?s j) = (\<Sum>j\<leftarrow>?m. (?x j - mean_of ?xs) * ?c ?xs)"
      by (intro arg_cong [of _ _ sum_list] map_cong refl score)
    also have "\<dots> = sum_list (map (\<lambda>x. x - mean_of ?xs) ?xs) * ?c ?xs"
      by (simp only: sum_list_mult_const map_map comp_def)
    also have "\<dots> = 0" using centred_sum [of ?xs] self by (cases ?m) auto
    finally have zero: "(\<Sum>j\<leftarrow>?m. ?s j) = 0" .
    have order: "?s i \<le> ?s j \<longleftrightarrow> vsum (R ! i) \<le> vsum (R ! j)" if "j \<in> set ?m" for j
      using pos unfolding score [OF self] score [OF that] row [OF self] row [OF that] by (simp add: mult_le_cancel_right)
    have flat: "?s i = 0" if "\<forall>j \<in> set ?m. vsum (R ! j) = vsum (R ! i)"
    proof -
      have "?s j = ?s i" if j: "j \<in> set ?m" for j
        unfolding score [OF j] score [OF self] row [OF j] row [OF self]
        using bspec [OF \<open>\<forall>j \<in> set ?m. vsum (R ! j) = vsum (R ! i)\<close> j] by (rule arg_cong)
      then have "map ?s ?m = map (\<lambda>_. ?s i) ?m" by (intro map_cong refl)
      then have "(\<Sum>j\<leftarrow>?m. ?s i) = 0" using zero by (simp only:)
      then have "real ?g * ?s i = 0" by (simp only: sum_list_triv)
      moreover have "real ?g \<noteq> 0" using g by linarith
      ultimately show ?thesis by (metis mult_eq_0_iff)
    qed
    have bound: "\<bar>?s i\<bar> < (real ?g - 1) / sqrt (real ?g)" if norm_adv
    proof -
      have b: "\<bar>?x i - mean_of ?xs\<bar> \<le> std_of ?xs * ((real ?g - 1) / sqrt (real ?g))"
        using deviation_bound [of "?x i" ?xs] self g by simp
      also have "\<dots> < (std_of ?xs + adv_epsilon) * ((real ?g - 1) / sqrt (real ?g))"
        using adv_epsilon_pos g by (intro mult_strict_right_mono divide_pos_pos) (linarith, linarith, auto)
      finally have lt: "\<bar>?x i - mean_of ?xs\<bar> < (std_of ?xs + adv_epsilon) * ((real ?g - 1) / sqrt (real ?g))" .
      have p: "0 < std_of ?xs + adv_epsilon" using std_of_nonneg [of ?xs] adv_epsilon_pos by linarith
      have "\<bar>?s i\<bar> = \<bar>?x i - mean_of ?xs\<bar> / (std_of ?xs + adv_epsilon)"
      proof -
        have "?s i = (?x i - mean_of ?xs) * (1 / (std_of ?xs + adv_epsilon))" using score [OF self] that by (simp only: if_True)
        then show ?thesis using p by (simp add: abs_mult)
      qed
      moreover have "\<bar>?x i - mean_of ?xs\<bar> / (std_of ?xs + adv_epsilon) < (real ?g - 1) / sqrt (real ?g)"
        using lt pos_divide_less_eq [OF p] by (metis mult.commute)
      ultimately show ?thesis by (rule ord_eq_less_trans)
    qed
    show ?thesis using False zero order flat bound unfolding Let_def by simp
  qed
qed

theorem grpo_group_relative_witness:
  "\<exists>score. compute_grpo_outcome_advantage [[0, 1], [0, 0]] [[True, True], [True, False]] [''p'', ''p''] True
      = Inr (spread_scores score [[True, True], [True, False]], spread_scores score [[True, True], [True, False]])
    \<and> score 0 + score 1 = 0 \<and> score 1 < score 0"
proof -
  have g: "group_of [''p'', ''p''] (Suc (Suc 0)) 0 = [0, 1]" by (simp add: group_of_def upt_rec)
  obtain score where run: "compute_grpo_outcome_advantage [[0, 1], [0, 0]] [[True, True], [True, False]] [''p'', ''p''] True
      = Inr (spread_scores score [[True, True], [True, False]], spread_scores score [[True, True], [True, False]])"
    and all: "\<forall>i < length [[0, 1], [0, 0 :: real]]. let members = group_of [''p'', ''p''] (length [[0, 1], [0, 0 :: real]]) i; g = length members in
        (if g = 1 then score i = vsum ([[0, 1], [0, 0]] ! i) / (if True then 1 + adv_epsilon else 1)
         else (\<Sum>j\<leftarrow>members. score j) = 0
           \<and> (\<forall>j \<in> set members. score i \<le> score j \<longleftrightarrow> vsum ([[0, 1], [0, 0]] ! i) \<le> vsum ([[0, 1], [0, 0]] ! j))
           \<and> ((\<forall>j \<in> set members. vsum ([[0, 1], [0, 0]] ! j) = vsum ([[0, 1], [0, 0]] ! i)) \<longrightarrow> score i = 0)
           \<and> (True \<longrightarrow> \<bar>score i\<bar> < (real g - 1) / sqrt (real g)))"
    using grpo_group_relative [of "[[True, True], [True, False]]" "[[0, 1], [0, 0]]" "[''p'', ''p'']" True] by auto
  have "score 0 + score 1 = 0 \<and> (score 0 \<le> score 1 \<longleftrightarrow> (1 :: real) \<le> 0)"
    using all [rule_format, of 0] by (simp add: g Let_def vsum_def)
  then show ?thesis using run by auto
qed

section \<open>Vectorised statistics\<close>

lemma members_entries: "members gidx xs g = entries gidx xs (int g)"
  by (simp add: members_def entries_def)

lemma length_takeWhile_neq:
  "x \<in> set us \<Longrightarrow> length (takeWhile (\<lambda>u. u \<noteq> x) us) < length us \<and> us ! length (takeWhile (\<lambda>u. u \<noteq> x) us) = x"
  by (induction us) auto

lemma unique_inverse_facts:
  "length (unique_inverse labels) = length labels"
  "i < length labels \<Longrightarrow> j < length labels \<Longrightarrow> unique_inverse labels ! i = unique_inverse labels ! j \<longleftrightarrow> labels ! i = labels ! j"
  "k \<in> set (unique_inverse labels) \<Longrightarrow> 0 \<le> k"
proof -
  show "length (unique_inverse labels) = length labels" by (simp add: unique_inverse_def)
  show "k \<in> set (unique_inverse labels) \<Longrightarrow> 0 \<le> k" by (auto simp: unique_inverse_def)
  assume ij: "i < length labels" "j < length labels"
  let ?u = "sort (remdups labels)"
  let ?pos = "\<lambda>i. length (takeWhile (\<lambda>u. u \<noteq> labels ! i) ?u)"
  have position: "unique_inverse labels ! i = int (?pos i)" "?u ! ?pos i = labels ! i" if i: "i < length labels" for i
  proof -
    show "unique_inverse labels ! i = int (?pos i)" using i by (simp add: unique_inverse_def Let_def)
    have "labels ! i \<in> set ?u" using i by simp
    from length_takeWhile_neq [OF this] show "?u ! ?pos i = labels ! i" by (rule conjunct2)
  qed
  show "unique_inverse labels ! i = unique_inverse labels ! j \<longleftrightarrow> labels ! i = labels ! j"
  proof
    assume "unique_inverse labels ! i = unique_inverse labels ! j"
    then have eq: "?pos i = ?pos j" unfolding position(1) [OF ij(1)] position(1) [OF ij(2)] by (rule of_nat_eq_iff [THEN iffD1])
    have "labels ! i = ?u ! ?pos i" by (rule position(2) [OF ij(1), symmetric])
    also have "\<dots> = ?u ! ?pos j" by (rule arg_cong [OF eq])
    also have "\<dots> = labels ! j" by (rule position(2) [OF ij(2)])
    finally show "labels ! i = labels ! j" .
  next
    assume "labels ! i = labels ! j"
    then show "unique_inverse labels ! i = unique_inverse labels ! j"
      unfolding position(1) [OF ij(1)] position(1) [OF ij(2)] by (rule arg_cong)
  qed
qed

lemma entries_same_pattern:
  assumes "length xs \<le> length index" "length xs \<le> length index'" "i < length xs"
    and "\<And>j. j < length xs \<Longrightarrow> index ! j = index ! i \<longleftrightarrow> index' ! j = index' ! i"
  shows "entries index xs (index ! i) = entries index' xs (index' ! i)"
proof -
  have "filter (\<lambda>j. index ! j = index ! i) [0..<length xs] = filter (\<lambda>j. index' ! j = index' ! i) [0..<length xs]"
    using assms(4) by (intro filter_cong) auto
  then show ?thesis using assms by (simp add: entries_nth)
qed

lemma group_mean_std_run:
  assumes len: "length gidx = length scores" and nonneg: "\<forall>k \<in> set gidx. 0 \<le> k"
  shows "\<exists>mean std count. group_mean_std scores gidx 0 = Inr (mean, std, count)
    \<and> (\<forall>i < length scores. nat (gidx ! i) < length mean
        \<and> (mean ! nat (gidx ! i), std ! nat (gidx ! i)) = grpo_stats (entries gidx scores (gidx ! i)))"
proof (cases "gidx = []")
  case True
  then show ?thesis using len by (simp add: group_mean_std_def)
next
  case False
  let ?G = "nat (Max (set gidx) + 1)" and ?m = "members gidx scores"
  have "0 \<le> Max (set gidx)" using False nonneg by (meson List.finite_set Max_ge hd_in_set order_trans)
  then have G: "Max (set gidx) + 1 \<noteq> 0" by simp
  define count where "count = map (\<lambda>g. real (length (?m g))) [0..<?G]"
  define mean where "mean = map (\<lambda>g. sum_list (?m g) / max (count ! g) 1) [0..<?G]"
  define centered where "centered = map2 (\<lambda>s g. s - mean ! nat g) scores gidx"
  define var_num where "var_num = map (\<lambda>g. sum_list (members gidx (map (\<lambda>c. c * c) centered) g)) [0..<?G]"
  define std where "std = map (\<lambda>g. sqrt (max (var_num ! g / max (count ! g - 1) 1) 0)) [0..<?G]"
  have noneg: "\<not> list_ex (\<lambda>g. g < 0) gidx" using nonneg by (force simp: list_ex_iff)
  have run: "group_mean_std scores gidx 0 = Inr (map (\<lambda>g. if count ! g \<le> 1 then 0 else mean ! g) [0..<?G],
      map (\<lambda>g. if count ! g \<le> 1 then 1 else std ! g) [0..<?G], count)"
    using len False G noneg
    by (simp add: group_mean_std_def Let_def count_def mean_def centered_def var_num_def std_def)
  have each: "nat (gidx ! i) < ?G \<and> (map (\<lambda>g. if count ! g \<le> 1 then 0 else mean ! g) [0..<?G] ! nat (gidx ! i),
      map (\<lambda>g. if count ! g \<le> 1 then 1 else std ! g) [0..<?G] ! nat (gidx ! i)) = grpo_stats (entries gidx scores (gidx ! i))"
    if i: "i < length scores" for i
  proof -
    let ?k = "gidx ! i" and ?E = "entries gidx scores (gidx ! i)"
    have mem: "?k \<in> set gidx" using i len by simp
    then have k: "0 \<le> ?k" "?k \<le> Max (set gidx)" using nonneg by auto
    then have lt: "nat ?k < ?G" by auto
    have E: "?m (nat ?k) = ?E" using k by (simp add: members_entries)
    have cnt: "count ! nat ?k = real (length ?E)" using lt E by (simp add: count_def)
    have "filter (\<lambda>j. gidx ! j = ?k) [0..<length scores] \<noteq> []" using i by (auto simp: filter_empty_conv)
    then have pos: "1 \<le> length ?E" using len by (simp add: entries_nth Suc_le_eq)
    have mn: "mean ! nat ?k = mean_of ?E" using lt E cnt pos by (simp add: mean_def mean_of_def)
    have "members gidx (map (\<lambda>c. c * c) centered) (nat ?k) = map (\<lambda>x. (x - mean_of ?E)\<^sup>2) ?E"
    proof -
      have "length centered = length scores" using len by (simp add: centered_def)
      then have "members gidx (map (\<lambda>c. c * c) centered) (nat ?k)
          = map (\<lambda>j. (scores ! j - mean ! nat (gidx ! j))\<^sup>2) (filter (\<lambda>j. gidx ! j = ?k) [0..<length scores])"
        using k len by (simp add: members_entries entries_nth) (simp add: centered_def power2_eq_square)
      also have "\<dots> = map (\<lambda>j. (scores ! j - mean_of ?E)\<^sup>2) (filter (\<lambda>j. gidx ! j = ?k) [0..<length scores])"
        using mn by (intro map_cong) auto
      also have "\<dots> = map (\<lambda>x. (x - mean_of ?E)\<^sup>2) ?E" using len by (simp add: entries_nth)
      finally show ?thesis .
    qed
    then have var: "var_num ! nat ?k = sum_list (map (\<lambda>x. (x - mean_of ?E)\<^sup>2) ?E)" using lt by (simp add: var_num_def)
    have "0 \<le> sum_list (map (\<lambda>x. (x - mean_of ?E)\<^sup>2) ?E)" by (rule sum_list_nonneg) auto
    then have sd: "std ! nat ?k = std_of ?E" if "1 < length ?E"
      using that lt var cnt by (simp add: std_def std_of_def)
    show ?thesis using lt cnt pos mn sd by (auto simp: grpo_stats_def)
  qed
  show ?thesis
  proof (rule exI, rule exI, rule exI, intro conjI allI impI)
    show "group_mean_std scores gidx 0 = Inr (map (\<lambda>g. if count ! g \<le> 1 then 0 else mean ! g) [0..<?G],
      map (\<lambda>g. if count ! g \<le> 1 then 1 else std ! g) [0..<?G], count)" by (rule run)
  qed (use each in \<open>simp_all only: length_map length_upt diff_zero\<close>)
qed

lemma grpo_vectorized_run:
  assumes len: "length response_mask = length R" "length gidx = length R" "length index = length R"
    and g: "as_torch_index labels = gidx" "\<forall>k \<in> set gidx. 0 \<le> k"
    and pattern: "\<And>i j. i < length R \<Longrightarrow> j < length R \<Longrightarrow> gidx ! j = gidx ! i \<longleftrightarrow> index ! j = index ! i"
  shows "compute_grpo_vectorized_outcome_advantage R response_mask labels norm_adv
    = compute_grpo_outcome_advantage R response_mask index norm_adv"
proof -
  let ?s = "row_sums R"
  have l: "length gidx = length ?s" "length index = length ?s" using len by (simp_all add: row_sums_def)
  obtain mean std cnt where ms: "group_mean_std ?s gidx 0 = Inr (mean, std, cnt)"
    "\<forall>i < length ?s. nat (gidx ! i) < length mean
        \<and> (mean ! nat (gidx ! i), std ! nat (gidx ! i)) = grpo_stats (entries gidx ?s (gidx ! i))"
    using group_mean_std_run [OF l(1) g(2)] by blast
  have inb: "\<not> list_ex (\<lambda>k. int (length mean) \<le> k \<or> k < - int (length mean)) gidx"
  proof
    assume "list_ex (\<lambda>k. int (length mean) \<le> k \<or> k < - int (length mean)) gidx"
    then obtain i where i: "i < length gidx" "int (length mean) \<le> gidx ! i \<or> gidx ! i < - int (length mean)"
      by (auto simp: list_ex_iff in_set_conv_nth)
    moreover have "0 \<le> gidx ! i" using i(1) g(2) by simp
    ultimately show False using ms(2) l(1) by fastforce
  qed
  have "map2 (\<lambda>s k. grpo_score norm_adv s (mean ! nat k, std ! nat k)) ?s gidx
      = map2 (grpo_score norm_adv) ?s (per_row grpo_stats index ?s)"
  proof (rule nth_equalityI)
    fix i assume "i < length (map2 (\<lambda>s k. grpo_score norm_adv s (mean ! nat k, std ! nat k)) ?s gidx)"
    then have i: "i < length ?s" by simp
    have "entries gidx ?s (gidx ! i) = entries index ?s (index ! i)"
      using i l pattern len by (intro entries_same_pattern) (simp_all add: row_sums_def)
    then show "map2 (\<lambda>s k. grpo_score norm_adv s (mean ! nat k, std ! nat k)) ?s gidx ! i
        = map2 (grpo_score norm_adv) ?s (per_row grpo_stats index ?s) ! i"
      using i l ms(2) by simp
  qed (use l in simp)
  then show ?thesis
    using ms(1) inb l by (simp add: compute_grpo_vectorized_outcome_advantage_def compute_grpo_outcome_advantage_def g(1) Let_def)
qed

text \<open>the vectorised GRPO estimator is the loop. On string uids of which one is not an integer literal,
  or whose integer values are nonnegative and distinct for distinct uids, both estimators return the same
  result.\<close>

theorem grpo_vectorized_agrees:
  assumes len: "length response_mask = length R" "length uids = length R"
    and ints: "\<And>u. list_all (\<lambda>s. int64_of s \<noteq> None) uids \<Longrightarrow> u \<in> set uids \<Longrightarrow> 0 \<le> the (int64_of u)"
    and inj: "list_all (\<lambda>s. int64_of s \<noteq> None) uids \<Longrightarrow> inj_on (\<lambda>s. the (int64_of s)) (set uids)"
  shows "compute_grpo_vectorized_outcome_advantage R response_mask (StrLabels uids) norm_adv
    = compute_grpo_outcome_advantage R response_mask uids norm_adv"
proof (rule grpo_vectorized_run [OF len(1) _ len(2) refl])
  show "length (as_torch_index (StrLabels uids)) = length R" using len by (simp add: unique_inverse_facts(1))
  show "\<forall>k \<in> set (as_torch_index (StrLabels uids)). 0 \<le> k" using ints unique_inverse_facts(3) by auto
  show "as_torch_index (StrLabels uids) ! j = as_torch_index (StrLabels uids) ! i \<longleftrightarrow> uids ! j = uids ! i"
    if "i < length R" "j < length R" for i j
  proof (cases "list_all (\<lambda>s. int64_of s \<noteq> None) uids")
    case True
    have mem: "uids ! i \<in> set uids" "uids ! j \<in> set uids" using that len by simp_all
    show ?thesis using that len True inj_on_eq_iff [OF inj [OF True] mem(2,1)] by simp
  next
    case False
    then show ?thesis using that len unique_inverse_facts(2) [of j uids i] by simp
  qed
qed

theorem grpo_vectorized_agrees_witness:
  "compute_grpo_vectorized_outcome_advantage [[1], [0], [2]] [[True], [True], [True]] (StrLabels [''a-1'', ''b-2'', ''a-1'']) True
    = compute_grpo_outcome_advantage [[1], [0], [2]] [[True], [True], [True]] [''a-1'', ''b-2'', ''a-1''] True"
proof (rule grpo_vectorized_agrees)
  have "int64_of ''a-1'' = None" by code_simp
  then show "0 \<le> the (int64_of u)" if "list_all (\<lambda>s. int64_of s \<noteq> None) [''a-1'', ''b-2'', ''a-1'']" for u
    using that by simp
  show "inj_on (\<lambda>s. the (int64_of s)) (set [''a-1'', ''b-2'', ''a-1''])"
    if "list_all (\<lambda>s. int64_of s \<noteq> None) [''a-1'', ''b-2'', ''a-1'']"
    using that \<open>int64_of ''a-1'' = None\<close> by simp
qed simp_all

text \<open>Two uids that are the same integer literal are one group of the vectorised form and two of the
  loop.\<close>

lemma vectorized_merges_literals:
  "as_torch_index (StrLabels [''1'', ''01'']) = [1, 1]"
  "id_table [''1'', ''01''] [0 :: nat, 1] = [(''1'', [0]), (''01'', [1])]"
  by code_simp+

section \<open>Leave-one-out baselines\<close>

lemma leave_one_out:
  fixes x :: "nat \<Rightarrow> real"
  assumes "distinct js" "i \<in> set js" "1 < length js"
  shows "x i * real (length js) / (real (length js) - 1) - (\<Sum>j\<leftarrow>js. x j) / (real (length js) - 1)
    = x i - mean_of (map x (filter (\<lambda>j. j \<noteq> i) js))"
proof -
  have rem: "filter (\<lambda>j. j \<noteq> i) js = remove1 i js" 
    unfolding distinct_remove1_removeAll [OF assms(1)] removeAll_filter_not_eq by (rule filter_cong) auto
  have sum: "(\<Sum>j\<leftarrow>js. x j) = x i + (\<Sum>j\<leftarrow>remove1 i js. x j)" using assms(2) by (rule sum_list_map_remove1)
  have len: "real (length (remove1 i js)) = real (length js) - 1" using assms by (simp add: length_remove1 of_nat_diff)
  let ?n = "real (length js)" and ?S = "\<Sum>j\<leftarrow>remove1 i js. x j"
  have ne: "?n - 1 \<noteq> 0" using assms(3) by simp
  have "x i * ?n / (?n - 1) - (x i + ?S) / (?n - 1) = (x i * (?n - 1) - ?S) / (?n - 1)"
    by (simp add: diff_divide_distrib [symmetric] algebra_simps)
  also have "\<dots> = x i - ?S / (?n - 1)" using ne by (simp add: diff_divide_distrib)
  finally show ?thesis unfolding rem sum mean_of_def length_map len .
qed

text \<open>RLOO subtracts the mean of the other rows. On a batch with one uid and one mask row per reward row,
  both RLOO estimators give every row of a prompt group of two or more its reward minus the mean
  reward of the other rows of the group; a row alone in its group keeps its whole reward in the
  loop and gets zero in the vectorised form.\<close>

theorem rloo_leave_one_out:
  fixes index :: "'k :: linorder list"
  assumes len: "length response_mask = length R" "length index = length R"
  shows "\<exists>s t. compute_rloo_outcome_advantage R response_mask index = Inr (spread_scores s response_mask, spread_scores s response_mask)
    \<and> compute_rloo_vectorized_outcome_advantage R response_mask index = Inr (spread_scores t response_mask, spread_scores t response_mask)
    \<and> (\<forall>i < length R. let others = filter (\<lambda>j. j \<noteq> i) (group_of index (length R) i) in
        if others = [] then s i = vsum (R ! i) \<and> t i = 0
        else s i = vsum (R ! i) - mean_of (map (\<lambda>j. vsum (R ! j)) others) \<and> t i = s i)"
proof -
  let ?r = "row_sums R" and ?inv = "unique_inverse index"
  have l: "length ?r = length R" by (simp add: row_sums_def)
  define s where "s = map2 rloo_score ?r (per_row id index ?r)"
  define c where "c = map (\<lambda>k. real (length (members ?inv ?inv (nat k)))) ?inv"
  define t where "t = map2 (\<lambda>(n, s) t. (n * s - t) / max (n - 1) 1 * of_bool (1 < n)) (zip c ?r)
      (map (\<lambda>k. sum_list (members ?inv ?r (nat k))) ?inv)"
  have lens: "length s = length R" "length t = length R"
    using len l by (simp_all add: s_def t_def c_def unique_inverse_facts(1))
  have "compute_rloo_outcome_advantage R response_mask index = outcome_result s response_mask"
    using len l by (simp add: compute_rloo_outcome_advantage_def s_def Let_def)
  moreover have "compute_rloo_vectorized_outcome_advantage R response_mask index = outcome_result t response_mask"
    using len l by (simp add: compute_rloo_vectorized_outcome_advantage_def t_def c_def Let_def unique_inverse_facts(1))
  moreover have "let others = filter (\<lambda>j. j \<noteq> i) (group_of index (length R) i) in
        if others = [] then s ! i = vsum (R ! i) \<and> t ! i = 0
        else s ! i = vsum (R ! i) - mean_of (map (\<lambda>j. vsum (R ! j)) others) \<and> t ! i = s ! i"
    if i: "i < length R" for i
  proof -
    let ?g = "group_of index (length R) i" and ?x = "\<lambda>j. vsum (R ! j)"
    have self: "i \<in> set ?g" and dist: "distinct ?g" using i by (simp_all add: group_of_def)
    have E: "entries index ?r (index ! i) = map ?x ?g"
      using len l by (simp add: entries_nth group_of_def) (simp add: row_sums_def)
    have k: "0 \<le> ?inv ! i" using i len by (intro unique_inverse_facts(3) [of _ index]) (simp add: unique_inverse_facts(1))
    have pattern: "?inv ! j = ?inv ! i \<longleftrightarrow> index ! j = index ! i" if "j < length R" for j
      using that i len by (intro unique_inverse_facts(2)) simp_all
    have same: "entries ?inv xs (?inv ! i) = entries index xs (index ! i)" if "length xs = length R" for xs :: "'z list"
      using that i len pattern by (intro entries_same_pattern) (simp_all add: unique_inverse_facts(1))
    have cnt: "length (members ?inv ?inv (nat (?inv ! i))) = length ?g"
      using k same [of ?inv] len i by (simp add: members_entries unique_inverse_facts(1) entries_nth group_of_def)
    have tot: "members ?inv ?r (nat (?inv ! i)) = map ?x ?g"
      using k same [of ?r] E l by (simp add: members_entries)
    have si: "s ! i = rloo_score (?x i) (map ?x ?g)" using i len l E by (simp add: s_def) (simp add: row_sums_def)
    have ti: "t ! i = (real (length ?g) * ?x i - sum_list (map ?x ?g)) / max (real (length ?g) - 1) 1 * of_bool (1 < real (length ?g))"
      using i len l cnt tot by (simp add: t_def c_def unique_inverse_facts(1)) (simp add: row_sums_def)
    show ?thesis
    proof (cases "1 < length ?g")
      case True
      have n: "real (length ?g) - 1 \<noteq> 0" "1 < real (length ?g)" using True by simp_all
      have "s ! i = ?x i * real (length ?g) / (real (length ?g) - 1) - (\<Sum>j\<leftarrow>?g. ?x j) / (real (length ?g) - 1)"
        using True n self unfolding si rloo_score_def group_mean_def Let_def by (auto simp: mean_of_def)
      moreover have "t ! i = ?x i * real (length ?g) / (real (length ?g) - 1) - (\<Sum>j\<leftarrow>?g. ?x j) / (real (length ?g) - 1)"
      proof -
        have "max (real (length ?g) - 1) 1 = real (length ?g) - 1" using True by (intro max_absorb1) linarith
        then show ?thesis using n unfolding ti by (simp add: diff_divide_distrib mult.commute)
      qed
      moreover have "filter (\<lambda>j. j \<noteq> i) ?g \<noteq> []"
      proof
        assume "filter (\<lambda>j. j \<noteq> i) ?g = []"
        then have "set ?g \<subseteq> {i}" by (auto simp: filter_empty_conv)
        then have "card (set ?g) \<le> 1" using card_mono [of "{i}" "set ?g"] by simp
        then show False using distinct_card [OF dist] True by simp
      qed
      ultimately show ?thesis using leave_one_out [OF dist self True, of ?x] by (simp add: Let_def)
    next
      case False
      have g: "?g = [i]" using self False by (cases ?g) (auto simp: Suc_le_eq)
      show ?thesis using False unfolding si ti g by (simp add: rloo_score_def)
    qed
  qed
  ultimately show ?thesis using outcome_result_spread [of s response_mask] outcome_result_spread [of t response_mask] lens len
    by (intro exI [of _ "\<lambda>i. s ! i"] exI [of _ "\<lambda>i. t ! i"]) simp
qed

theorem rloo_leave_one_out_witness:
  "\<exists>s t. compute_rloo_outcome_advantage [[3], [1], [5]] [[True], [True], [True]] [''p'', ''p'', ''q''] = Inr (spread_scores s [[True], [True], [True]], spread_scores s [[True], [True], [True]])
    \<and> compute_rloo_vectorized_outcome_advantage [[3], [1], [5]] [[True], [True], [True]] [''p'', ''p'', ''q''] = Inr (spread_scores t [[True], [True], [True]], spread_scores t [[True], [True], [True]])
    \<and> s 0 = 2 \<and> t 0 = 2 \<and> s 2 = 5 \<and> t 2 = 0"
proof -
  let ?R = "[[3], [1], [5 :: real]]" and ?M = "[[True], [True], [True]]" and ?u = "[''p'', ''p'', ''q'']"
  have g: "group_of ?u (Suc (Suc (Suc 0))) 0 = [0, 1]" "group_of ?u (Suc (Suc (Suc 0))) 2 = [2]"
    by (simp_all add: group_of_def upt_rec)
  obtain s t where run: "compute_rloo_outcome_advantage ?R ?M ?u = Inr (spread_scores s ?M, spread_scores s ?M)"
    "compute_rloo_vectorized_outcome_advantage ?R ?M ?u = Inr (spread_scores t ?M, spread_scores t ?M)"
    and all: "\<forall>i < length ?R. let others = filter (\<lambda>j. j \<noteq> i) (group_of ?u (length ?R) i) in
        if others = [] then s i = vsum (?R ! i) \<and> t i = 0
        else s i = vsum (?R ! i) - mean_of (map (\<lambda>j. vsum (?R ! j)) others) \<and> t i = s i"
    using rloo_leave_one_out [of ?M ?R ?u] by auto
  have "s 0 = 2 \<and> t 0 = 2 \<and> s 2 = 5 \<and> t 2 = 0"
    using all [rule_format, of 0] all [rule_format, of 2] by (simp add: g Let_def vsum_def mean_of_def)
  then show ?thesis using run by blast
qed

end
