(* ===== verification/SessionProps.thy ===== *)
theory SessionProps
  imports AdvantageProps "HOL-Library.Multiset"
begin

text \<open>
  The advantage step of a VERPO run: GRPO over sessions with several trajectories, from the nested
  fields of the queue to the nested advantages.
\<close>

section \<open>Final rows\<close>

text \<open>Row \<open>i\<close> is the final one of its session: no row of the session has a larger output index, and none
  before it the same.\<close>

definition is_final :: "(string \<times> int) list \<Rightarrow> nat \<Rightarrow> bool" where
  "is_final sessions i \<longleftrightarrow> i < length sessions \<and> (\<forall>j < length sessions. fst (sessions ! j) = fst (sessions ! i)
     \<longrightarrow> snd (sessions ! j) < snd (sessions ! i) \<or> (snd (sessions ! j) = snd (sessions ! i) \<and> i \<le> j))"

lemma final_sessions_snoc:
  "final_sessions (ss @ [(k, index)]) =
    (if (case map_of (final_sessions ss) k of None \<Rightarrow> True | Some (best, _) \<Rightarrow> best < index)
     then AList.update k (index, length ss) (final_sessions ss) else final_sessions ss)"
  by (simp add: final_sessions_def enumerate_append_eq)

lemma final_sessions_spec:
  "distinct (map fst (final_sessions ss)) \<and> fst ` set (final_sessions ss) = fst ` set ss
    \<and> (\<forall>k index i. map_of (final_sessions ss) k = Some (index, i) \<longrightarrow> is_final ss i \<and> ss ! i = (k, index))"
proof (induction ss rule: rev_induct)
  case Nil
  show ?case by (simp add: final_sessions_def)
next
  case (snoc s ss)
  obtain k index where s: "s = (k, index)" by force
  let ?F = "final_sessions ss"
  have IH: "distinct (map fst ?F)" "fst ` set ?F = fst ` set ss"
    and entry: "\<And>k index i. map_of ?F k = Some (index, i) \<Longrightarrow> is_final ss i \<and> ss ! i = (k, index)" using snoc by blast+
  have old: "is_final (ss @ [s]) i \<and> (ss @ [s]) ! i = (k', index')"
    if e: "map_of ?F k' = Some (index', i)" and le: "k' = k \<Longrightarrow> index \<le> index'" for k' index' i
  proof -
    have i: "i < length ss" "ss ! i = (k', index')" and fin: "is_final ss i" using entry [OF e] by (auto simp: is_final_def)
    have "is_final (ss @ [s]) i"
      using fin i le by (auto simp: is_final_def nth_append less_Suc_eq s)
    then show ?thesis using i by (simp add: nth_append)
  qed
  show ?case
  proof (cases "case map_of ?F k of None \<Rightarrow> True | Some (best, _) \<Rightarrow> best < index")
    case True
    then have new: "final_sessions (ss @ [s]) = AList.update k (index, length ss) ?F"
      by (simp add: s final_sessions_snoc)
    have "is_final (ss @ [s]) (length ss)"
    proof -
      have "snd (ss ! j) < index" if j: "j < length ss" "fst (ss ! j) = k" for j
      proof (cases "map_of ?F k")
        case None
        then have "k \<notin> fst ` set ss" using IH(2) by (simp add: map_of_eq_None_iff)
        then show ?thesis using j by (metis image_eqI nth_mem)
      next
        case (Some e)
        obtain best i where e: "e = (best, i)" by force
        have "is_final ss i" "ss ! i = (k, best)" using entry [of k best i] Some e by simp_all
        then have "snd (ss ! j) \<le> best" using j by (auto simp: is_final_def)
        also have "best < index" using True Some e by simp
        finally show ?thesis .
      qed
      then show ?thesis by (auto simp: is_final_def nth_append s less_Suc_eq)
    qed
    then have "is_final (ss @ [s]) i \<and> (ss @ [s]) ! i = (k', index')"
      if "map_of (final_sessions (ss @ [s])) k' = Some (index', i)" for k' index' i
      using that [unfolded new update_conv'] old [of k' index' i] by (cases "k' = k") (auto simp: s)
    moreover have "distinct (map fst (final_sessions (ss @ [s])))" unfolding new by (rule distinct_update) (rule IH(1))
    moreover have "fst ` set (final_sessions (ss @ [s])) = fst ` set (ss @ [s])"
      unfolding new by (simp add: dom_update IH(2) s)
    ultimately show ?thesis by blast
  next
    case False
    then obtain best i where b: "map_of ?F k = Some (best, i)" "index \<le> best" by (auto split: option.splits)
    have same: "final_sessions (ss @ [s]) = ?F" using False by (simp add: s final_sessions_snoc)
    have all: "is_final (ss @ [s]) j \<and> (ss @ [s]) ! j = (k', index')" if "map_of ?F k' = Some (index', j)" for k' index' j
    proof -
      have "index \<le> index'" if "k' = k" using that \<open>map_of ?F k' = Some (index', j)\<close> b by simp
      from old [OF \<open>map_of ?F k' = Some (index', j)\<close> this] show ?thesis .
    qed
    have keys: "fst ` set ss = fst ` set (ss @ [s])"
    proof -
      have "k \<in> fst ` set ?F" using b(1) by (metis map_of_eq_None_iff option.distinct(1))
      then show ?thesis using IH(2) by (auto simp: s)
    qed
    show ?thesis unfolding same
    proof (intro conjI allI impI)
      show "distinct (map fst ?F)" by (rule IH(1))
      show "fst ` set ?F = fst ` set (ss @ [s])" by (rule trans [OF IH(2) keys])
      fix k' index' j assume "map_of ?F k' = Some (index', j)"
      from all [OF this] show "is_final (ss @ [s]) j" "(ss @ [s]) ! j = (k', index')" by simp_all
    qed
  qed
qed

definition session_members :: "(string \<times> int) list \<Rightarrow> string list \<Rightarrow> string \<Rightarrow> nat list" where
  "session_members sessions uids uid = filter (\<lambda>j. is_final sessions j \<and> uids ! j = uid) [0..<length sessions]"

lemma final_indices_spec:
  fixes ss :: "(string \<times> int) list"
  defines "fin \<equiv> map (snd \<circ> snd) (final_sessions ss)"
  shows "mset fin = mset (filter (is_final ss) [0..<length ss])"
    and "i < length ss \<Longrightarrow> \<exists>p < length fin. position_of (fst (ss ! i)) (map fst (final_sessions ss)) = p
      \<and> is_final ss (fin ! p) \<and> fst (ss ! (fin ! p)) = fst (ss ! i)"
proof -
  let ?F = "final_sessions ss"
  note spec = final_sessions_spec [of ss]
  have entry: "is_final ss (snd (snd e)) \<and> ss ! (snd (snd e)) = (fst e, fst (snd e))" if "e \<in> set ?F" for e
  proof -
    obtain k index i where e: "e = (k, index, i)" by (metis prod_cases3)
    have "distinct (map fst ?F)" using spec by blast
    then have "map_of ?F k = Some (index, i)" using that e by (simp add: map_of_eq_Some_iff)
    then show ?thesis using spec e by auto
  qed
  have keys: "map fst ?F = map (\<lambda>i. fst (ss ! i)) fin"
    unfolding fin_def map_map using entry by (intro map_cong refl) simp
  have "distinct (map (\<lambda>i. fst (ss ! i)) fin)" unfolding keys [symmetric] using spec by blast
  then have dist: "distinct fin" by (rule distinct_map [THEN iffD1, THEN conjunct1])
  have final_unique: "i = j" if "is_final ss i" "is_final ss j" "fst (ss ! i) = fst (ss ! j)" for i j
  proof -
    have "i < length ss" "j < length ss" using that by (simp_all add: is_final_def)
    then show ?thesis
      using that(1) [unfolded is_final_def, THEN conjunct2, rule_format, OF _ that(3) [symmetric]]
        that(2) [unfolded is_final_def, THEN conjunct2, rule_format, OF _ that(3)] by auto
  qed
  have at: "\<exists>p < length fin. position_of (fst (ss ! i)) (map fst ?F) = p
      \<and> is_final ss (fin ! p) \<and> fst (ss ! (fin ! p)) = fst (ss ! i)" if i: "i < length ss" for i
  proof -
    let ?p = "position_of (fst (ss ! i)) (map fst ?F)"
    have "fst (ss ! i) \<in> set (map fst ?F)" using spec i by (metis image_eqI nth_mem set_map)
    from length_takeWhile_neq [OF this] have lt: "?p < length ?F" and "map fst ?F ! ?p = fst (ss ! i)" by (simp_all add: position_of_def)
    then have p: "?p < length ?F" "fst (?F ! ?p) = fst (ss ! i)" using nth_map [OF lt] by simp_all
    then show ?thesis using entry [of "?F ! ?p"] by (auto simp: fin_def)
  qed
  show "i < length ss \<Longrightarrow> \<exists>p < length fin. position_of (fst (ss ! i)) (map fst ?F) = p
      \<and> is_final ss (fin ! p) \<and> fst (ss ! (fin ! p)) = fst (ss ! i)" by (rule at)
  have "set fin = set (filter (is_final ss) [0..<length ss])"
  proof
    show "set fin \<subseteq> set (filter (is_final ss) [0..<length ss])" using entry by (auto simp: fin_def is_final_def)
    show "set (filter (is_final ss) [0..<length ss]) \<subseteq> set fin"
    proof
      fix i assume "i \<in> set (filter (is_final ss) [0..<length ss])"
      then have i: "i < length ss" "is_final ss i" by auto
      obtain p where "p < length fin" "is_final ss (fin ! p)" "fst (ss ! (fin ! p)) = fst (ss ! i)" using at [OF i(1)] by blast
      then show "i \<in> set fin" using final_unique i(2) by (metis nth_mem)
    qed
  qed
  moreover have "distinct (filter (is_final ss) [0..<length ss])" by simp
  ultimately show "mset fin = mset (filter (is_final ss) [0..<length ss])"
    using set_eq_iff_mset_eq_distinct [OF dist] by blast
qed

lemma grpo_stats_mset: "mset xs = mset ys \<Longrightarrow> grpo_stats xs = grpo_stats ys"
proof -
  assume m: "mset xs = mset ys"
  have mean: "mean_of xs = mean_of ys" using m by (metis mean_of_def mset_eq_length sum_mset_sum_list)
  have "mset (map (\<lambda>x. (x - mean_of ys)\<^sup>2) xs) = mset (map (\<lambda>x. (x - mean_of ys)\<^sup>2) ys)" using m by simp
  then have "std_of xs = std_of ys" unfolding std_of_def mean using mset_eq_length [OF m] by (metis sum_mset_sum_list)
  then show ?thesis using mean mset_eq_length [OF m] by (simp add: grpo_stats_def)
qed

text \<open>The score of a final row among the final rows of its uid.\<close>

definition session_score :: "bool \<Rightarrow> (string \<times> int) list \<Rightarrow> string list \<Rightarrow> vec \<Rightarrow> nat \<Rightarrow> real" where
  "session_score norm_adv sessions uids rewards f =
     grpo_score norm_adv (rewards ! f) (grpo_stats (map (\<lambda>j. rewards ! j) (session_members sessions uids (uids ! f))))"

lemma selected_score:
  assumes fin: "mset fin = mset (filter (is_final ss) [0..<length ss])"
    and p: "p < length fin" and lens: "length uids = length ss" "length rewards = length ss"
  shows "group_score norm_adv (pick_rows fin uids) (pick_rows fin rewards) p = session_score norm_adv ss uids rewards (fin ! p)"
proof -
  let ?f = "fin ! p" and ?js = "group_of (pick_rows fin uids) (length fin) p"
  have lt: "j < length ss" if "j \<in> set fin" for j using that fin by (metis (no_types, lifting) atLeastLessThan_iff filter_is_subset mset_eq_setD set_upt subsetD)
  have at: "pick_rows fin xs ! q = xs ! (fin ! q)" if "q < length fin" for q and xs :: "'z list" using that by (simp add: pick_rows_def)
  have js: "?js = filter (\<lambda>q. uids ! (fin ! q) = uids ! ?f) [0..<length fin]"
    unfolding group_of_def using p by (intro filter_cong) (simp_all add: at)
  have "map (\<lambda>q. fin ! q) ?js = filter (\<lambda>j. uids ! j = uids ! ?f) fin"
    unfolding js using filter_map [of "\<lambda>j. uids ! j = uids ! ?f" "\<lambda>q. fin ! q" "[0..<length fin]"] by (simp add: comp_def map_nth)
  then have "map (\<lambda>q. rewards ! (fin ! q)) ?js = map (\<lambda>j. rewards ! j) (filter (\<lambda>j. uids ! j = uids ! ?f) fin)"
    by (metis (no_types, lifting) map_map comp_apply map_cong)
  moreover have "map (\<lambda>q. pick_rows fin rewards ! q) ?js = map (\<lambda>q. rewards ! (fin ! q)) ?js"
    by (intro map_cong refl at) (simp add: group_of_def)
  ultimately have rows: "map (\<lambda>q. pick_rows fin rewards ! q) ?js = map (\<lambda>j. rewards ! j) (filter (\<lambda>j. uids ! j = uids ! ?f) fin)" by simp
  have "mset (filter (\<lambda>j. uids ! j = uids ! ?f) fin) = mset (session_members ss uids (uids ! ?f))"
    unfolding session_members_def by (simp add: fin filter_filter_mset conj_commute conj_left_commute)
  then have "mset (map (\<lambda>q. pick_rows fin rewards ! q) ?js) = mset (map (\<lambda>j. rewards ! j) (session_members ss uids (uids ! ?f)))"
    unfolding rows by simp
  from grpo_stats_mset [OF this] show ?thesis
    using p by (simp add: group_score_def session_score_def at) (simp add: pick_rows_def)
qed

section \<open>From fields to advantages\<close>

lemma padded_facts:
  "length (padded fill rows) = length rows"
  "i < length rows \<Longrightarrow> padded fill rows ! i = pad_row fill (max_len rows) (rows ! i)"
  by (simp_all add: padded_def pad_rows_def)

lemma max_len_ge: "m \<in> set rows \<Longrightarrow> length m \<le> max_len rows"
  unfolding max_len_def by (induction rows) auto

lemma take_pad_row: "take (length xs) (pad_row fill n xs) = xs"
  by (simp add: pad_row_def)

lemma vsum_pad_row: "vsum (pad_row 0 n xs) = vsum xs"
  by (simp add: pad_row_def vsum_def sum_list_replicate)

lemma first_nnz_padded:
  "True \<in> set m \<Longrightarrow> first_nnz (pad_row False n m) < length (pad_row False n m) \<and> pad_row False n m ! first_nnz (pad_row False n m)"
proof -
  assume "True \<in> set m"
  then have mem: "True \<in> set (pad_row False n m)" by (simp add: pad_row_def)
  have "takeWhile Not xs = takeWhile (\<lambda>u. u \<noteq> True) xs" for xs by (rule takeWhile_cong) auto
  then show ?thesis using length_takeWhile_neq [OF mem] mem by (simp add: first_nnz_def)
qed

lemma no_nnz: "True \<notin> set m \<Longrightarrow> j < length m \<Longrightarrow> \<not> m ! j"
  by (metis (full_types) nth_mem)

text \<open>The whole step under the GRPO setting, without a penalty on the rewards: what it asks of the fields.\<close>

definition step_fields_ok :: "string list \<Rightarrow> adv_fields \<Rightarrow> (string \<times> int) list \<Rightarrow> bool" where
  "step_fields_ok keys D sessions \<longleftrightarrow> rmap session_of keys = Inr sessions
     \<and> length (af_uid D) = length keys \<and> length (af_response_mask D) = length keys \<and> length (af_rm_scores D) = length keys
     \<and> (\<exists>m \<in> set (af_response_mask D). m \<noteq> [])"

lemma multi_trajectory_run:
  assumes ok: "rmap session_of keys = Inr ss" and uid: "ab_uid B = Some uids"
    and lens: "length uids = length keys" "length (ab_response_mask B) = length keys" "length (ab_token_level_rewards B) = length keys"
    and ne: "[] \<notin> set (ab_response_mask B)"
  defines "rewards \<equiv> row_sums (ab_token_level_rewards B)"
  shows "\<exists>A. compute_advantage_for_multi_trajectories B keys ''grpo'' gamma lam norm_adv C = Inr (A, A) \<and> length A = length keys
    \<and> (\<forall>i < length keys. \<exists>f. is_final ss f \<and> fst (ss ! f) = fst (ss ! i) \<and>
        A ! i = map (\<lambda>b. Fin (if b \<and> True \<in> set (ab_response_mask B ! f) then session_score norm_adv ss uids rewards f else 0))
          (ab_response_mask B ! i))"
proof -
  let ?n = "length keys" and ?M = "ab_response_mask B" and ?F = "final_sessions ss"
  let ?fin = "map (snd \<circ> snd) ?F"
  have n: "length ss = ?n" using rmap_nth [OF ok] by simp
  note spec = final_indices_spec [where ss = ss]
  have lt: "f < ?n" if "f \<in> set ?fin" for f
    using that spec(1) n by (metis (no_types, lifting) atLeastLessThan_iff filter_is_subset mset_eq_setD set_upt subsetD)
  define G where "G = \<lparr>ab_token_level_rewards = pick_rows ?fin (ab_token_level_rewards B), ab_response_mask = pick_rows ?fin ?M,
      ab_uid = map_option (pick_rows ?fin) (ab_uid B), ab_values = map_option (pick_rows ?fin) (ab_values B),
      ab_reward_baselines = map_option (pick_rows ?fin) (ab_reward_baselines B),
      ab_old_log_probs = map_option (pick_rows ?fin) (ab_old_log_probs B),
      ab_sum_pi_squared = map_option (pick_rows ?fin) (ab_sum_pi_squared B),
      ab_rollout_is_weights = map_option (pick_rows ?fin) (ab_rollout_is_weights B),
      ab_components = map (\<lambda>(k, xs). (k, pick_rows ?fin xs)) (ab_components B),
      ab_response_attention = map_option (pick_rows ?fin) (ab_response_attention B)\<rparr>"
  have "\<forall>j \<in> set ?fin. \<not> length (ab_token_level_rewards B) \<le> j" using lt lens(3) by (metis not_le)
  then have "\<not> list_ex (\<lambda>j. length (ab_token_level_rewards B) \<le> j) ?fin" unfolding list_ex_iff by blast
  then have sel: "select_idxs B ?fin = Inr G" unfolding select_idxs_def G_def by (simp only: if_False)
  have Gm: "ab_response_mask G = pick_rows ?fin ?M" "ab_uid G = Some (pick_rows ?fin uids)"
    "ab_token_level_rewards G = pick_rows ?fin (ab_token_level_rewards B)" by (simp_all add: G_def uid)
  let ?score = "group_score norm_adv (pick_rows ?fin uids) (pick_rows ?fin rewards)"
  have sums: "row_sums (ab_token_level_rewards G) = pick_rows ?fin rewards"
    using lt lens(3) by (simp add: Gm rewards_def row_sums_def pick_rows_def)
  let ?scattered = "spread_scores ?score (pick_rows ?fin ?M)"
  have adv: "compute_advantage G ''grpo'' gamma lam norm_adv C = Inr (fin_mat ?scattered, fin_mat ?scattered)"
  proof -
    have "compute_grpo_outcome_advantage (ab_token_level_rewards G) (ab_response_mask G) (pick_rows ?fin uids) norm_adv
        = Inr (spread_scores (group_score norm_adv (pick_rows ?fin uids) (row_sums (ab_token_level_rewards G))) (ab_response_mask G),
               spread_scores (group_score norm_adv (pick_rows ?fin uids) (row_sums (ab_token_level_rewards G))) (ab_response_mask G))"
      by (rule grpo_run) (simp_all add: Gm pick_rows_def)
    then show ?thesis by (simp add: compute_advantage_def need_def Gm(2) sums) (simp add: Gm(1))
  qed
  have neG: "[] \<notin> set (ab_response_mask G)"
  proof
    assume "[] \<in> set (ab_response_mask G)"
    then obtain j where j: "j \<in> set ?fin" "?M ! j = []" unfolding Gm pick_rows_def by (metis imageE set_map)
    then show False using ne lt [OF j(1)] lens(2) by (metis nth_mem)
  qed
  let ?fs = "map2 (\<lambda>a m. a ! first_nnz m) (fin_mat ?scattered) (pick_rows ?fin ?M)"
  let ?row = "map (\<lambda>(session_key, _). position_of session_key (map fst ?F)) ss"
  let ?A = "map2 (\<lambda>s m. map (\<lambda>b. pf_mul s (Fin (of_bool b))) m) (map (\<lambda>j. ?fs ! j) ?row) ?M"
  have run: "compute_advantage_for_multi_trajectories B keys ''grpo'' gamma lam norm_adv C = Inr (?A, ?A)"
    using neG lens(2) n
    by (simp add: compute_advantage_for_multi_trajectories_def ok sel adv Gm(1) broadcast2_def Let_def)
  have "\<exists>f. is_final ss f \<and> fst (ss ! f) = fst (ss ! i) \<and>
        ?A ! i = map (\<lambda>b. Fin (if b \<and> True \<in> set (?M ! f) then session_score norm_adv ss uids rewards f else 0)) (?M ! i)"
    if i: "i < ?n" for i
  proof -
    obtain p where p: "p < length ?fin" "position_of (fst (ss ! i)) (map fst ?F) = p" "is_final ss (?fin ! p)" "fst (ss ! (?fin ! p)) = fst (ss ! i)"
      using spec(2) [of i] i n by auto
    let ?f = "?fin ! p"
    have f: "?f < ?n" using p(3) n by (simp add: is_final_def)
    have score: "?score p = session_score norm_adv ss uids rewards ?f"
      using lens n by (intro selected_score [OF spec(1) p(1)]) (simp_all add: rewards_def row_sums_def)
    have "?fs ! p = Fin (if True \<in> set (?M ! ?f) then session_score norm_adv ss uids rewards ?f else 0)"
    proof -
      let ?m = "?M ! ?f"
      have m: "pick_rows ?fin ?M ! p = ?m" using p(1) by (simp add: pick_rows_def)
      have row: "fin_mat ?scattered ! p = map (\<lambda>b. Fin (if b then ?score p else 0)) ?m"
        using p(1) by (simp add: fin_mat_def spread_scores_def pick_rows_def)
      have len: "length (fin_mat ?scattered) = length ?fin" "length (pick_rows ?fin ?M) = length ?fin"
        by (simp_all add: fin_mat_def spread_scores_def pick_rows_def)
      have "?m \<noteq> []" using ne f lens(2) by (metis nth_mem)
      show ?thesis
      proof (cases "True \<in> set ?m")
        case True
        have "first_nnz ?m < length ?m \<and> ?m ! first_nnz ?m" using first_nnz_padded [OF True, of 0] by (simp add: pad_row_def)
        then show ?thesis using p(1) len True by (simp add: m row score)
      next
        case False
        then show ?thesis using p(1) len \<open>?m \<noteq> []\<close> no_nnz [OF False, of 0] by (simp add: m row first_nnz_def)
      qed
    qed
    moreover have "?row ! i = p" using i n p(2) by (simp add: case_prod_unfold)
    ultimately have "?A ! i = map (\<lambda>b. pf_mul (Fin (if True \<in> set (?M ! ?f) then session_score norm_adv ss uids rewards ?f else 0)) (Fin (of_bool b))) (?M ! i)"
      using i n lens(2) by simp
    also have "\<dots> = map (\<lambda>b. Fin (if b \<and> True \<in> set (?M ! ?f) then session_score norm_adv ss uids rewards ?f else 0)) (?M ! i)"
      by (intro map_cong refl) auto
    finally show ?thesis using p(3,4) by blast
  qed
  then show ?thesis using run lens(2) n by (intro exI [of _ ?A]) simp
qed

text \<open>C11: a step of GRPO advantages, from nested fields to nested advantages. When every row key names a
  session and an output index and some response is nonempty, the trainer's step without a penalty on
  the rewards succeeds; no padding shows in its result; and the tokens of a row carry, where the mask is
  set, one number: the group-relative score of the final row of the row's session, computed among the
  final rows of the sessions of the same prompt (zero when that final row has no masked-in token). The
  rewards of the other rows of a session have no influence.\<close>

theorem session_advantages:
  assumes ok: "step_fields_ok keys D sessions"
  shows "\<exists>out. trainer_compute_advantage False kl_ctrl kind keys D ''grpo'' gamma lam C = Inr out
    \<and> ao_returns out = ao_advantages out \<and> ao_controller out = kl_ctrl \<and> length (ao_advantages out) = length keys
    \<and> (\<forall>i < length keys. \<exists>f. is_final sessions f \<and> fst (sessions ! f) = fst (sessions ! i) \<and>
        ao_advantages out ! i = map (\<lambda>b. Fin (if b \<and> True \<in> set (af_response_mask D ! f)
            then session_score (ag_norm_adv_by_std_in_grpo C) sessions (af_uid D) (map vsum (af_rm_scores D)) f else 0))
          (af_response_mask D ! i))"
proof -
  let ?n = "length keys" and ?masks = "af_response_mask D" and ?pm = "padded False (af_response_mask D)"
  let ?score = "session_score (ag_norm_adv_by_std_in_grpo C) sessions (af_uid D) (map vsum (af_rm_scores D))"
  define B where "B = \<lparr>ab_token_level_rewards = padded 0 (af_rm_scores D), ab_response_mask = ?pm,
         ab_uid = Some (af_uid D), ab_values = map_option (padded 0) (af_values D), ab_reward_baselines = None,
         ab_old_log_probs = map_option (padded 0) (af_old_log_probs D), ab_sum_pi_squared = None,
         ab_rollout_is_weights = None, ab_components = [], ab_response_attention = None\<rparr>"
  have lens: "rmap session_of keys = Inr sessions" "length (af_uid D) = ?n" "length ?masks = ?n" "length (af_rm_scores D) = ?n"
    and some: "\<exists>m \<in> set ?masks. m \<noteq> []" using ok by (simp_all add: step_fields_ok_def)
  have n: "length sessions = ?n" using rmap_nth [OF lens(1)] by simp
  have "0 < max_len ?masks" using some max_len_ge [of _ ?masks] by (metis length_greater_0_conv order_less_le_trans)
  then have ne: "[] \<notin> set (ab_response_mask B)" by (auto simp: B_def padded_def pad_rows_def pad_row_def)
  have sums: "row_sums (ab_token_level_rewards B) = map vsum (af_rm_scores D)"
    by (simp add: B_def row_sums_def padded_def pad_rows_def vsum_pad_row comp_def)
  obtain A where A: "compute_advantage_for_multi_trajectories B keys ''grpo'' gamma lam (ag_norm_adv_by_std_in_grpo C) C = Inr (A, A)"
    "length A = ?n"
    and rows: "\<forall>i < ?n. \<exists>f. is_final sessions f \<and> fst (sessions ! f) = fst (sessions ! i) \<and>
        A ! i = map (\<lambda>b. Fin (if b \<and> True \<in> set (ab_response_mask B ! f) then ?score f else 0)) (ab_response_mask B ! i)"
    using multi_trajectory_run [OF lens(1), of B "af_uid D" gamma lam "ag_norm_adv_by_std_in_grpo C" C] lens ne
    unfolding sums by (auto simp: B_def padded_facts)
  let ?cut = "map2 (\<lambda>row m. take (length m) row) A ?masks"
  have nested: "response_to_nested A ?masks = Inr ?cut" using A(2) lens(3) by (simp add: response_to_nested_def)
  obtain rewards where rw: "response_to_nested (padded 0 (af_rm_scores D)) ?masks = Inr rewards"
    using lens by (simp add: response_to_nested_def padded_facts)
  let ?out = "\<lparr>ao_advantages = ?cut, ao_returns = ?cut, ao_token_level_rewards = None, ao_controller = kl_ctrl, ao_metrics = []\<rparr>"
  have run: "trainer_compute_advantage False kl_ctrl kind keys D ''grpo'' gamma lam C = Inr ?out"
    using A(1) nested rw unfolding B_def by (simp add: trainer_compute_advantage_def penalised_rewards_def)
  have "\<exists>f. is_final sessions f \<and> fst (sessions ! f) = fst (sessions ! i) \<and>
      ?cut ! i = map (\<lambda>b. Fin (if b \<and> True \<in> set (?masks ! f) then ?score f else 0)) (?masks ! i)" if i: "i < ?n" for i
  proof -
    obtain f where f: "is_final sessions f" "fst (sessions ! f) = fst (sessions ! i)"
      and row: "A ! i = map (\<lambda>b. Fin (if b \<and> True \<in> set (ab_response_mask B ! f) then ?score f else 0)) (ab_response_mask B ! i)"
      using rows i by blast
    have fn: "f < ?n" using f(1) n by (simp add: is_final_def)
    have "True \<in> set (ab_response_mask B ! f) \<longleftrightarrow> True \<in> set (?masks ! f)"
      using fn lens(3) by (auto simp: B_def padded_facts pad_row_def)
    moreover have "take (length (?masks ! i)) (ab_response_mask B ! i) = ?masks ! i"
      using i lens(3) by (simp add: B_def padded_facts take_pad_row)
    ultimately have "?cut ! i = map (\<lambda>b. Fin (if b \<and> True \<in> set (?masks ! f) then ?score f else 0)) (?masks ! i)"
      using i A(2) lens(3) by (simp add: row take_map)
    then show ?thesis using f by blast
  qed
  then show ?thesis using run A(2) lens(3) by (intro exI [of _ ?out]) simp
qed

definition two_turns :: adv_fields where
  "two_turns = \<lparr>af_uid = [''p'', ''p'', ''p''], af_response_mask = [[True], [True, False], [True]],
     af_rm_scores = [[9], [1, 0], [0]], af_old_log_probs = None, af_ref_log_prob = None, af_values = None\<rparr>"

theorem session_advantages_witness:
  "\<exists>out x. trainer_compute_advantage False (FixedKL 0) ''kl'' [''p_0_0'', ''p_0_1'', ''p_1_0''] two_turns ''grpo'' 1 1
      \<lparr>ag_gamma = 1, ag_norm_adv_by_std_in_grpo = False, ag_gdpo_reward_keys = [], ag_gdpo_reward_weights = None\<rparr> = Inr out
    \<and> ao_advantages out ! 0 = [Fin x] \<and> ao_advantages out ! 1 = [Fin x, Fin 0] \<and> x = 1 / 2"
proof -
  let ?C = "\<lparr>ag_gamma = 1, ag_norm_adv_by_std_in_grpo = False, ag_gdpo_reward_keys = [], ag_gdpo_reward_weights = None\<rparr> :: adv_config"
  let ?S = "[(''p_0'', 0), (''p_0'', 1), (''p_1'', 0)] :: (string \<times> int) list"
  have "rmap session_of [''p_0_0'', ''p_0_1'', ''p_1_0''] = Inr ?S" by code_simp
  then have ok: "step_fields_ok [''p_0_0'', ''p_0_1'', ''p_1_0''] two_turns ?S" by (simp add: step_fields_ok_def two_turns_def)
  have fin: "is_final ?S 1" "is_final ?S 2" "\<not> is_final ?S 0" by (simp_all add: is_final_def less_Suc_eq numeral_eq_Suc)
  have only: "f = 1" if "is_final ?S f" "fst (?S ! f) = ''p_0''" for f
  proof -
    have "f < 3" using that(1) by (simp add: is_final_def)
    then consider "f = 0" | "f = 1" | "f = 2" by linarith
    then show ?thesis using that fin(3) by cases auto
  qed
  have members: "session_members ?S [''p'', ''p'', ''p''] ''p'' = [1, 2]"
    using fin by (simp add: session_members_def upt_rec numeral_2_eq_2)
  have score: "session_score False ?S [''p'', ''p'', ''p''] [9, 1, 0] 1 = 1 / 2"
    by (simp add: session_score_def members grpo_score_def grpo_stats_def mean_of_def)
  obtain out where out: "trainer_compute_advantage False (FixedKL 0) ''kl'' [''p_0_0'', ''p_0_1'', ''p_1_0''] two_turns ''grpo'' 1 1 ?C = Inr out"
    and rows: "\<forall>i < length [''p_0_0'', ''p_0_1'', ''p_1_0'']. \<exists>f. is_final ?S f \<and> fst (?S ! f) = fst (?S ! i) \<and>
        ao_advantages out ! i = map (\<lambda>b. Fin (if b \<and> True \<in> set (af_response_mask two_turns ! f)
            then session_score (ag_norm_adv_by_std_in_grpo ?C) ?S (af_uid two_turns) (map vsum (af_rm_scores two_turns)) f else 0))
          (af_response_mask two_turns ! i)"
    using session_advantages [OF ok, of "FixedKL 0" "''kl''" 1 1 ?C] by blast
  obtain f where f: "is_final ?S f \<and> fst (?S ! f) = fst (?S ! 0)" and a0: "ao_advantages out ! 0
      = map (\<lambda>b. Fin (if b \<and> True \<in> set (af_response_mask two_turns ! f)
            then session_score (ag_norm_adv_by_std_in_grpo ?C) ?S (af_uid two_turns) (map vsum (af_rm_scores two_turns)) f else 0))
          (af_response_mask two_turns ! 0)" using rows [rule_format, of 0] by force
  obtain g where g: "is_final ?S g \<and> fst (?S ! g) = fst (?S ! 1)" and a1: "ao_advantages out ! 1
      = map (\<lambda>b. Fin (if b \<and> True \<in> set (af_response_mask two_turns ! g)
            then session_score (ag_norm_adv_by_std_in_grpo ?C) ?S (af_uid two_turns) (map vsum (af_rm_scores two_turns)) g else 0))
          (af_response_mask two_turns ! 1)" using rows [rule_format, of 1] by force
  have fg: "f = 1" "g = 1" using only f g by simp_all
  have "session_score (ag_norm_adv_by_std_in_grpo ?C) ?S (af_uid two_turns) (map vsum (af_rm_scores two_turns)) 1 = 1 / 2"
    using score by (simp add: two_turns_def)
  then have "ao_advantages out ! 0 = [Fin (1 / 2)]" "ao_advantages out ! 1 = [Fin (1 / 2), Fin 0]"
    unfolding a0 a1 fg by (simp_all add: two_turns_def)
  then show ?thesis using out by blast
qed

text \<open>four registered estimators never run in this step. The step hands the dispatch neither reward
  baselines nor squared-probability sums nor prompts, so ReMax, both optimal token baselines and GDPO end
  in an exception for every batch and every configuration.\<close>

theorem step_lacks_inputs:
  "trainer_compute_advantage False kl_ctrl kind keys D ''remax'' gamma lam C = Inl (TypeError ''missing a required positional argument'')
    \<and> trainer_compute_advantage False kl_ctrl kind keys D ''optimal_token_baseline'' gamma lam C = Inl (AssertionError ''sum_pi_squared'')
    \<and> trainer_compute_advantage False kl_ctrl kind keys D ''tir_optimal_token_baseline'' gamma lam C = Inl (AssertionError ''sum_pi_squared'')
    \<and> trainer_compute_advantage False kl_ctrl kind keys D ''gdpo'' gamma lam C
      = Inl (if ag_gdpo_reward_keys C = [] then AssertionError ''GDPO requires algorithm.gdpo_reward_keys'' else KeyError ''prompts'')"
  by (simp add: trainer_compute_advantage_def penalised_rewards_def compute_advantage_for_multi_trajectories_def
      compute_advantage_def registered_estimator_def estimator_names_def need_def missing_argument_def Let_def)

end
