(* ===== verification/TokenAdvantageProps.thy ===== *)
theory TokenAdvantageProps
  imports AdvantageProps
begin

text \<open>
  Properties of the token-level estimators: generalized advantage estimation skips masked-out tokens,
  and the two optimal token baselines agree on single-turn responses.
\<close>

section \<open>Generalized advantage estimation\<close>

text \<open>The advantage of token \<open>k\<close> of a response without gaps: the discounted sum of the temporal
  differences from \<open>k\<close> on, the value after the last token being zero.\<close>

definition gae_sum :: "real \<Rightarrow> real \<Rightarrow> vec \<Rightarrow> vec \<Rightarrow> nat \<Rightarrow> real" where
  "gae_sum gamma lam r v k = (\<Sum>l = k..<length r. (gamma * lam) ^ (l - k)
     * (r ! l + gamma * (if Suc l < length v then v ! Suc l else 0) - v ! l))"

lemma gae_sum_Suc: "gae_sum gamma lam (x # r) (y # v) (Suc k) = gae_sum gamma lam r v k"
  unfolding gae_sum_def length_Cons sum.shift_bounds_Suc_ivl by (simp cong: if_cong)

lemma gae_sum_0: "length r = length v \<Longrightarrow> gae_sum gamma lam (x # r) (y # v) 0
    = x + gamma * (if v = [] then 0 else hd v) - y + gamma * lam * gae_sum gamma lam r v 0"
proof -
  assume len: "length r = length v"
  let ?t = "\<lambda>r v l. r ! l + gamma * (if Suc l < length v then v ! Suc l else 0) - v ! l"
  have "gae_sum gamma lam (x # r) (y # v) 0 = (\<Sum>l = 0..<Suc (length r). (gamma * lam) ^ l * ?t (x # r) (y # v) l)"
    by (simp add: gae_sum_def)
  also have "\<dots> = ?t (x # r) (y # v) 0 + (\<Sum>l = 0..<length r. (gamma * lam) ^ Suc l * ?t (x # r) (y # v) (Suc l))"
    by (simp only: sum.atLeast0_lessThan_Suc_shift comp_def) simp
  also have "(\<Sum>l = 0..<length r. (gamma * lam) ^ Suc l * ?t (x # r) (y # v) (Suc l))
      = gamma * lam * (\<Sum>l = 0..<length r. (gamma * lam) ^ l * ?t r v l)"
    by (simp add: sum_distrib_left mult.assoc cong: if_cong)
  also have "?t (x # r) (y # v) 0 = x + gamma * (if v = [] then 0 else hd v) - y"
    by (simp add: hd_conv_nth)
  finally show ?thesis by (simp add: gae_sum_def)
qed

lemma compress_simps [simp]:
  "compress [] xs = []" "compress m [] = []"
  "compress (b # m) (x # xs) = (if b then x # compress m xs else compress m xs)"
  by (simp_all add: compress_def)

lemma length_compress_eq: "length xs = length m \<Longrightarrow> length ys = length m \<Longrightarrow> length (compress m xs) = length (compress m ys)"
  by (induction xs m arbitrary: ys rule: list_induct2) (auto simp: length_Suc_conv)

lemma gae_row_compress:
  assumes "length r = length m" "length v = length m"
  shows "gae_row gamma lam (zip r (zip v m)) = (a, nextv, lastg) \<Longrightarrow>
      length a = length m
    \<and> compress m a = map (gae_sum gamma lam (compress m r) (compress m v)) [0..<length (compress m r)]
    \<and> nextv = (if compress m v = [] then 0 else hd (compress m v))
    \<and> lastg = gae_sum gamma lam (compress m r) (compress m v) 0"
  using assms
proof (induction m arbitrary: r v a nextv lastg)
  case Nil
  then show ?case by (simp add: gae_sum_def)
next
  case (Cons b m)
  obtain x r' y v' where r: "r = x # r'" and v: "v = y # v'" using Cons.prems(2,3) by (auto simp: length_Suc_conv)
  have len: "length r' = length m" "length v' = length m" using Cons.prems(2,3) r v by simp_all
  obtain a' n' g' where rec: "gae_row gamma lam (zip r' (zip v' m)) = (a', n', g')" by (metis prod_cases3)
  note IH = Cons.IH [OF rec len]
  have lc: "length (compress m r') = length (compress m v')" using len by (rule length_compress_eq)
  have upt: "map f [0..<Suc n] = f 0 # map (\<lambda>k. f (Suc k)) [0..<n]" for f :: "nat \<Rightarrow> real" and n
    by (simp add: upt_conv_Cons map_Suc_upt [symmetric] comp_def del: upt_Suc)
  show ?case
  proof (cases b)
    case True
    then show ?thesis using Cons.prems(1) IH lc by (auto simp: r v rec upt gae_sum_0 gae_sum_Suc Let_def simp del: upt_Suc)
  next
    case False
    then show ?thesis using Cons.prems(1) IH by (auto simp: r v rec Let_def)
  qed
qed

text \<open>With \<open>lambda = 1\<close> the differences telescope to the discounted rewards.\<close>

lemma gae_sum_lambda_1:
  "length r = length v \<Longrightarrow> k < length r \<Longrightarrow> gae_sum gamma 1 r v k + v ! k = (\<Sum>l = k..<length r. gamma ^ (l - k) * r ! l)"
proof (induction r arbitrary: v k)
  case (Cons x r)
  obtain y v' where v: "v = y # v'" using Cons.prems(1) by (cases v) auto
  have len: "length r = length v'" using Cons.prems(1) v by simp
  show ?case
  proof (cases k)
    case (Suc k')
    then show ?thesis using Cons.IH [OF len, of k'] Cons.prems(2)
      by (simp add: v gae_sum_Suc sum.shift_bounds_Suc_ivl del: sum.op_ivl_Suc)
  next
    case 0
    have "(\<Sum>l = 0..<length (x # r). gamma ^ l * (x # r) ! l) = x + gamma * (\<Sum>l = 0..<length r. gamma ^ l * r ! l)"
      unfolding length_Cons sum.atLeast0_lessThan_Suc_shift by (simp add: sum_distrib_left mult.assoc)
    moreover have "gae_sum gamma 1 r v' 0 + (if v' = [] then 0 else hd v') = (\<Sum>l = 0..<length r. gamma ^ l * r ! l)"
    proof (cases v')
      case Nil
      then show ?thesis using len by (simp add: gae_sum_def)
    next
      case (Cons z zs)
      then show ?thesis using Cons.IH [OF len, of 0] len by simp
    qed
    then have "gamma * gae_sum gamma 1 r v' 0 + gamma * (if v' = [] then 0 else hd v') = gamma * (\<Sum>l = 0..<length r. gamma ^ l * r ! l)"
      by (metis distrib_left)
    ultimately show ?thesis using gae_sum_0 [OF len, of gamma 1 x y] unfolding v 0 by (simp del: sum.op_ivl_Suc length_Cons)
  qed
qed simp

lemma masked_mean_nonneg: "\<forall>x \<in> set xs. 0 \<le> x \<Longrightarrow> 0 \<le> masked_mean_eps xs (mask_f m)"
proof -
  assume nn: "\<forall>x \<in> set xs. 0 \<le> x"
  have "0 \<le> masked_sum_all xs (mask_f m)"
    unfolding masked_sum_all_def vsum_def mask_f_def using nn by (intro sum_list_nonneg) (auto elim!: in_set_zipE intro!: mult_nonneg_nonneg)
  moreover have "0 \<le> vsum (mask_f m)" by (simp add: vsum_mask_f)
  ultimately show ?thesis by (simp add: masked_mean_eps_def)
qed

lemma masked_var_nonneg: "masked_var values tmask = Inr var \<Longrightarrow> 0 \<le> var"
proof -
  assume run: "masked_var values tmask = Inr var"
  define s where "s = vsum (flat_mask tmask)"
  have nat: "s = real (count_list (concat tmask) True)" by (simp add: s_def flat_mask_def vsum_mask_f)
  obtain mean where var: "var = masked_mean_eps (map (\<lambda>x. (x - mean)\<^sup>2) (concat values)) (flat_mask tmask) * (s / (s - 1))"
    and ne: "s \<noteq> 0" "s \<noteq> 1"
    using run by (auto simp: masked_var_def Let_def s_def split: if_splits)
  have "2 \<le> s" using nat ne by (cases "count_list (concat tmask) True"; cases "count_list (concat tmask) True - 1") auto
  then have "0 \<le> s / (s - 1)" by simp
  moreover have "0 \<le> masked_mean_eps (map (\<lambda>x. (x - mean)\<^sup>2) (concat values)) (flat_mask tmask)"
    unfolding flat_mask_def by (rule masked_mean_nonneg) auto
  ultimately show ?thesis unfolding var by (metis mult_nonneg_nonneg)
qed

lemma masked_whiten_affine:
  assumes "masked_whiten values tmask = Inr white"
  shows "\<exists>mu c. 0 < c \<and> white = map (map (\<lambda>x. c * (x - mu))) values"
proof -
  obtain var mu where var: "masked_var values tmask = Inr var"
    and white: "white = map (map (\<lambda>x. (x - mu) * (1 / sqrt (var + 1 / 10 ^ 8)))) values"
    using assms by (auto simp: masked_whiten_def Let_def split: if_splits)
  have "0 < var + 1 / 10 ^ 8" using masked_var_nonneg [OF var] by (simp add: add_nonneg_pos)
  then have "0 < 1 / sqrt (var + 1 / 10 ^ 8)" by simp
  moreover have "white = map (map (\<lambda>x. 1 / sqrt (var + 1 / 10 ^ 8) * (x - mu))) values"
    unfolding white by (simp add: mult.commute)
  ultimately show ?thesis by blast
qed

lemma compress_map: "compress m (map f xs) = map f (compress m xs)"
  by (simp add: compress_def zip_map1 filter_map comp_def case_prod_unfold)

lemma compress_map2: "length xs = length m \<Longrightarrow> length ys = length m \<Longrightarrow>
    compress m (map2 f xs ys) = map2 f (compress m xs) (compress m ys)"
  by (induction xs m arbitrary: ys rule: list_induct2) (auto simp: length_Suc_conv)

text \<open>C28: generalized advantage estimation works on the response without its masked-out tokens. When the
  estimator returns, then on the masked-in tokens of every row its returns are the discounted sums of
  the temporal differences between consecutive masked-in tokens, plus the value, whatever stands at
  the masked-out ones; with \<open>lambda = 1\<close> they are the discounted rewards of the masked-in tokens that
  follow; and the advantages are one increasing affine image, the same for the whole batch, of these sums.\<close>

theorem gae_skips_masked_tokens:
  assumes run: "compute_gae_advantage_return R V M gamma lam = Inr (adv, ret)"
  shows "\<exists>mu c. 0 < c \<and> (\<forall>i < length R. let r = compress (M ! i) (R ! i); v = compress (M ! i) (V ! i) in
      compress (M ! i) (ret ! i) = map (\<lambda>k. gae_sum gamma lam r v k + v ! k) [0..<length r]
    \<and> compress (M ! i) (adv ! i) = map (\<lambda>k. c * (gae_sum gamma lam r v k - mu)) [0..<length r]
    \<and> (lam = 1 \<longrightarrow> compress (M ! i) (ret ! i) = map (\<lambda>k. \<Sum>l = k..<length r. gamma ^ (l - k) * r ! l) [0..<length r]))"
proof -
  let ?A = "gae_advantages gamma lam R V M"
  have shape: "map length V = map length R" "map length M = map length R" and ret: "ret = map2_mat (+) ?A V"
    and white: "masked_whiten ?A M = Inr adv"
    using run by (auto simp: compute_gae_advantage_return_def Let_def split: if_splits)
  obtain mu c where c: "0 < c" and adv: "adv = map (map (\<lambda>x. c * (x - mu))) ?A"
    using masked_whiten_affine [OF white] by blast
  have n: "length V = length R" "length M = length R" using shape by (metis length_map)+
  have "let r = compress (M ! i) (R ! i); v = compress (M ! i) (V ! i) in
      compress (M ! i) (ret ! i) = map (\<lambda>k. gae_sum gamma lam r v k + v ! k) [0..<length r]
    \<and> compress (M ! i) (adv ! i) = map (\<lambda>k. c * (gae_sum gamma lam r v k - mu)) [0..<length r]
    \<and> (lam = 1 \<longrightarrow> compress (M ! i) (ret ! i) = map (\<lambda>k. \<Sum>l = k..<length r. gamma ^ (l - k) * r ! l) [0..<length r])"
    if i: "i < length R" for i
  proof -
    have li: "length (R ! i) = length (M ! i)" "length (V ! i) = length (M ! i)"
      using i shape n by (metis nth_map)+
    obtain a nextv lastg where row: "gae_row gamma lam (zip (R ! i) (zip (V ! i) (M ! i))) = (a, nextv, lastg)" by (metis prod_cases3)
    note facts = gae_row_compress [OF li row]
    have Ai: "?A ! i = a" using i n row by (simp add: gae_advantages_def)
    have lA: "length ?A = length R" using n by (simp add: gae_advantages_def)
    have reti: "ret ! i = map2 (+) a (V ! i)" using i n lA Ai by (simp add: ret map2_mat_def)
    have advi: "adv ! i = map (\<lambda>x. c * (x - mu)) a" using i lA Ai by (simp add: adv)
    let ?r = "compress (M ! i) (R ! i)" and ?v = "compress (M ! i) (V ! i)"
    have lrv: "length ?r = length ?v" using li by (intro length_compress_eq) auto
    have r1: "compress (M ! i) (ret ! i) = map (\<lambda>k. gae_sum gamma lam ?r ?v k + ?v ! k) [0..<length ?r]"
      unfolding reti using facts li lrv by (subst compress_map2) (auto intro!: nth_equalityI)
    have r2: "compress (M ! i) (adv ! i) = map (\<lambda>k. c * (gae_sum gamma lam ?r ?v k - mu)) [0..<length ?r]"
      unfolding advi compress_map using facts by simp
    have r3: "compress (M ! i) (ret ! i) = map (\<lambda>k. \<Sum>l = k..<length ?r. gamma ^ (l - k) * ?r ! l) [0..<length ?r]" if "lam = 1"
      unfolding r1 that by (intro map_cong refl gae_sum_lambda_1 [OF lrv]) simp
    show ?thesis unfolding Let_def using r1 r2 r3 by blast
  qed
  then show ?thesis using c by blast
qed

theorem gae_skips_masked_tokens_witness:
  "\<exists>adv ret. compute_gae_advantage_return [[1, 7, 2]] [[0, 9, 1]] [[True, False, True]] 1 1 = Inr (adv, ret)
    \<and> compress [True, False, True] (ret ! 0) = [3, 2]"
proof -
  have "vsum (flat_mask [[True, False, True]]) = 2" by (simp add: flat_mask_def mask_f_def vsum_def)
  then obtain adv ret where run: "compute_gae_advantage_return [[1, 7, 2]] [[0, 9, 1]] [[True, False, True]] 1 1 = Inr (adv, ret)"
    by (auto simp: compute_gae_advantage_return_def gae_advantages_def masked_whiten_def masked_var_def Let_def)
  from gae_skips_masked_tokens [OF run] have "compress [True, False, True] (ret ! 0)
      = map (\<lambda>k. \<Sum>l = k..<length [1, 2 :: real]. 1 ^ (l - k) * [1, 2] ! l) [0..<length [1, 2 :: real]]"
    by (auto simp: Let_def)
  then have "compress [True, False, True] (ret ! 0) = [3, 2]" by (simp add: upt_rec)
  then show ?thesis using run by blast
qed

section \<open>Where the estimators differ\<close>

text \<open>REINFORCE++ resets its return at every masked-out token, not only after the end of the response: the
  reward of a later turn does not reach the turns before an observation, which generalized advantage
  estimation credits.\<close>

lemma discounted_row_forgets_later_turns:
  "fst (discounted_row 1 [(0, True), (0, False), (1, True)]) = [0, 1, 1]"
  "map (gae_sum 1 1 [0, 1] [0, 0]) [0, 1] = [1, 1]"
  by (simp_all add: gae_sum_def Let_def atLeastLessThan_nat_numeral)

text \<open>The option \<open>norm_adv_by_std_in_grpo\<close> reaches the loop form of GRPO only: through the registry the
  vectorised form and GDPO always normalise.\<close>

lemma registry_ignores_normalisation:
  "compute_advantage B ''grpo_vectorized'' gamma lam norm_adv (C\<lparr>ag_norm_adv_by_std_in_grpo := b\<rparr>)
    = compute_advantage B ''grpo_vectorized'' gamma lam norm_adv' C"
  "compute_advantage B ''gdpo'' gamma lam norm_adv (C\<lparr>ag_norm_adv_by_std_in_grpo := b\<rparr>)
    = compute_advantage B ''gdpo'' gamma lam norm_adv' C"
  by (simp_all add: compute_advantage_def registered_estimator_def Let_def cong: if_cong)

end
