(* ===== verification/BaselineProps.thy ===== *)
theory BaselineProps
  imports TokenAdvantageProps "HOL-Library.Multiset"
begin

text \<open>
  The optimal token baselines: on single-turn responses, whose mask is a prefix of the row, the
  multi-turn estimator and the single-turn estimator return the same advantages.
\<close>

section \<open>One group at a time\<close>

definition final_row ::
  "bool \<Rightarrow> (nat list \<Rightarrow> pyfloat list) \<Rightarrow> (nat \<Rightarrow> nat) \<Rightarrow> nat list \<Rightarrow> nat \<Rightarrow> pyfloat list \<Rightarrow> pyfloat list" where
  "final_row h base row_length rows i old =
     (if length rows = 1 then old
      else case zero_tail rows (map row_length rows) of
          Some (j, second) \<Rightarrow> if h \<and> i = j then clear_tail second (base rows) else base rows
        | None \<Rightarrow> base rows)"

lemma foldl_update_nth:
  "length (foldl (\<lambda>bs i. bs[i := x]) bs rows) = length bs"
  "i < length bs \<Longrightarrow> foldl (\<lambda>bs i. bs[i := x]) bs rows ! i = (if i \<in> set rows then x else bs ! i)"
  by (induction rows arbitrary: bs) (auto simp: nth_list_update)

lemma zero_tail_member: "zero_tail rows lens = Some (j, second) \<Longrightarrow> j \<in> set rows"
proof -
  assume z: "zero_tail rows lens = Some (j, second)"
  let ?l = "filter (\<lambda>(i, n). n = last (sort lens)) (zip rows lens)"
  have "length ?l = 1" "j = fst (hd ?l)" using z by (auto simp: zero_tail_def Let_def split: if_splits)
  then have "hd ?l \<in> set ?l" by (intro hd_in_set) auto
  then have "hd ?l \<in> set (zip rows lens)" by simp
  then have "(fst (hd ?l), snd (hd ?l)) \<in> set (zip rows lens)" by (simp only: prod.collapse)
  from set_zip_leftD [OF this] show ?thesis unfolding \<open>j = fst (hd ?l)\<close> .
qed

lemma assign_baseline_nth:
  assumes "i < length bs" "distinct rows"
  shows "length (assign_baseline h base row_length bs rows) = length bs"
    and "assign_baseline h base row_length bs rows ! i = (if i \<in> set rows then final_row h base row_length rows i (bs ! i) else bs ! i)"
  using assms zero_tail_member [of rows "map row_length rows"]
  by (auto simp: assign_baseline_def final_row_def foldl_update_nth nth_list_update Let_def split: option.splits)

lemma assign_fold:
  assumes "i < length bs" "\<forall>g \<in> set groups. distinct g" "distinct groups"
    and "\<And>g. g \<in> set groups \<Longrightarrow> i \<in> set g \<Longrightarrow> g = G"
  shows "foldl (assign_baseline h base row_length) bs groups ! i
    = (if G \<in> set groups \<and> i \<in> set G then final_row h base row_length G i (bs ! i) else bs ! i)"
  using assms
proof (induction groups arbitrary: bs)
  case (Cons g groups)
  let ?bs = "assign_baseline h base row_length bs g"
  have g: "distinct g" using Cons.prems(2) by simp
  have "i < length ?bs" using Cons.prems(1) assign_baseline_nth(1) [OF Cons.prems(1) g] by simp
  from Cons.IH [OF this] have IH: "foldl (assign_baseline h base row_length) ?bs groups ! i
      = (if G \<in> set groups \<and> i \<in> set G then final_row h base row_length G i (?bs ! i) else ?bs ! i)"
    using Cons.prems by simp
  show ?case
  proof (cases "i \<in> set g")
    case True
    then have "g = G" using Cons.prems(4) by simp
    moreover from this have "G \<notin> set groups" using Cons.prems(3) by simp
    ultimately show ?thesis using IH True assign_baseline_nth(2) [OF Cons.prems(1) g, of h base row_length] by simp
  next
    case False
    then show ?thesis using IH assign_baseline_nth(2) [OF Cons.prems(1) g, of h base row_length] by auto
  qed
qed simp

text \<open>The groups of the two estimators: the rows of a key that satisfy \<open>P\<close>.\<close>

definition key_rows :: "(nat \<Rightarrow> bool) \<Rightarrow> 'k list \<Rightarrow> 'k \<Rightarrow> nat list" where
  "key_rows P index k = filter (\<lambda>i. index ! i = k \<and> P i) [0..<length index]"

lemma filtered_table:
  "foldl (\<lambda>d (i, k). if P i then setdefault_append k i d else d) d rows
    = foldl (\<lambda>d (k, i). setdefault_append k i d) d (map (\<lambda>(i, k). (k, i)) (filter (\<lambda>(i, k). P i) rows))"
  by (induction rows arbitrary: d) auto

lemma groups_of_table:
  assumes "groups = map snd (foldl (\<lambda>d (i, k). if P i then setdefault_append k i d else d) [] (enumerate 0 index))"
  shows "distinct groups" and "set groups = {key_rows P index k |k. key_rows P index k \<noteq> []}"
proof -
  let ?rows = "map (\<lambda>(i, k). (k, i)) (filter (\<lambda>(i, k). P i) (enumerate 0 index))"
  let ?d = "foldl (\<lambda>d (k, i). setdefault_append k i d) [] ?rows"
  have groups: "groups = map snd ?d" unfolding assms filtered_table by simp
  have entry: "map snd (filter (\<lambda>(k', x). k' = k) ?rows) = key_rows P index k" for k
  proof -
    have e: "enumerate 0 index = map (\<lambda>i. (i, index ! i)) [0..<length index]"
      by (rule nth_equalityI) (simp_all add: nth_enumerate_eq)
    show ?thesis unfolding e key_rows_def
      by (simp add: filter_map comp_def case_prod_unfold conj_commute)
  qed
  have keys: "k \<in> fst ` set ?rows \<longleftrightarrow> key_rows P index k \<noteq> []" for k
  proof -
    have "k \<in> fst ` set ?rows \<longleftrightarrow> filter (\<lambda>(k', x). k' = k) ?rows \<noteq> []" by (force simp: filter_empty_conv)
    also have "\<dots> \<longleftrightarrow> map snd (filter (\<lambda>(k', x). k' = k) ?rows) \<noteq> []" by simp
    finally show ?thesis unfolding entry .
  qed
  have dist: "distinct (map fst ?d)" and map: "\<And>k. map_of ?d k = (if k \<in> fst ` set ?rows then Some (key_rows P index k) else None)"
    using setdefault_table [of ?rows] entry by auto
  have sub: "(k, g) \<in> set ?d \<longleftrightarrow> key_rows P index k \<noteq> [] \<and> g = key_rows P index k" for k g
    using map_of_eq_Some_iff [OF dist, of k g] map [of k] keys [of k] by auto
  show set: "set groups = {key_rows P index k |k. key_rows P index k \<noteq> []}"
  proof (rule set_eqI)
    fix g
    have "g \<in> set groups \<longleftrightarrow> (\<exists>k. (k, g) \<in> set ?d)" unfolding groups by force
    then show "g \<in> set groups \<longleftrightarrow> g \<in> {key_rows P index k |k. key_rows P index k \<noteq> []}"
      unfolding sub by blast
  qed
  have "inj_on snd (set ?d)"
  proof (rule inj_onI)
    fix x y assume xy: "x \<in> set ?d" "y \<in> set ?d" "snd x = snd y"
    obtain k g where x: "x = (k, g)" by force
    obtain k' g' where y: "y = (k', g')" by force
    have "g = key_rows P index k" "g' = key_rows P index k'" "g \<noteq> []" "g = g'"
      using xy unfolding x y sub by simp_all
    then have "hd g \<in> set (key_rows P index k)" "hd g \<in> set (key_rows P index k')" by (metis hd_in_set)+
    then have "k = k'" by (simp add: key_rows_def)
    then show "x = y" using \<open>g = g'\<close> by (simp add: x y)
  qed
  moreover have "distinct ?d" using dist by (rule distinct_map [THEN iffD1, THEN conjunct1])
  ultimately show "distinct groups" unfolding groups by (simp add: distinct_map)
qed

lemma group_rows_table: "group_rows index = foldl (\<lambda>d (i, k). if True then setdefault_append k i d else d) [] (enumerate 0 index)"
  by (simp add: group_rows_def)

text \<open>The baseline of row \<open>i\<close> after all groups.\<close>

lemma baselines_nth:
  assumes groups: "groups = map snd (foldl (\<lambda>d (i, k). if P i then setdefault_append k i d else d) [] (enumerate 0 index))"
    and i: "i < length bs" "length bs = length index"
  shows "foldl (assign_baseline h base row_length) bs groups ! i
    = (if P i then final_row h base row_length (key_rows P index (index ! i)) i (bs ! i) else bs ! i)"
proof -
  note tab = groups_of_table [OF groups]
  let ?G = "key_rows P index (index ! i)"
  have mem: "i \<in> set ?G \<longleftrightarrow> P i" using i by (simp add: key_rows_def)
  have "?G \<in> set groups \<longleftrightarrow> ?G \<noteq> []" unfolding tab(2) mem_Collect_eq by metis
  then have "?G \<in> set groups \<and> i \<in> set ?G \<longleftrightarrow> P i" using mem by auto
  moreover have "g = ?G" if "g \<in> set groups" "i \<in> set g" for g
    using that unfolding tab(2) by (auto simp: key_rows_def)
  moreover have "\<forall>g \<in> set groups. distinct g" unfolding tab(2) by (auto simp: key_rows_def)
  ultimately show ?thesis using assign_fold [OF i(1) _ tab(1), of ?G h base row_length] by simp
qed

section \<open>Prefix masks\<close>

lemma compress_prefix: "n \<le> length xs \<Longrightarrow> compress (replicate n True @ replicate k False) xs = take n xs"
proof (induction n arbitrary: xs)
  case 0
  have "compress (replicate k False) xs = []" for xs :: "'a list"
    by (induction k arbitrary: xs) (auto simp: compress_def filter_empty_conv dest: set_zip_rightD)
  then show ?case by simp
next
  case (Suc n)
  then show ?case by (cases xs) auto
qed

lemma expand_prefix: "n \<le> length xs \<Longrightarrow> expand fill (replicate n True @ replicate k False) xs = take n xs @ replicate k fill"
proof (induction n arbitrary: xs)
  case 0
  have "expand fill (replicate k False) xs = replicate k fill" for xs
    by (induction k arbitrary: xs) auto
  then show ?case by simp
next
  case (Suc n)
  then show ?case by (cases xs) auto
qed

lemma count_prefix: "count_list (replicate n True @ replicate k False) True = n"
  by (induction n) (simp_all add: count_list_0_iff)

section \<open>Tails\<close>

lemma sort_with_zeros:
  fixes f :: "nat \<Rightarrow> nat"
  shows "sort (map f rows) = replicate (length (filter (\<lambda>i. f i = 0) rows)) 0 @ sort (map f (filter (\<lambda>i. f i \<noteq> 0) rows))"
proof (rule properties_for_sort)
  show "mset (replicate (length (filter (\<lambda>i. f i = 0) rows)) 0 @ sort (map f (filter (\<lambda>i. f i \<noteq> 0) rows))) = mset (map f rows)"
    by (induction rows) auto
  show "sorted (replicate (length (filter (\<lambda>i. f i = 0) rows)) 0 @ sort (map f (filter (\<lambda>i. f i \<noteq> 0) rows)))"
    by (simp add: sorted_append)
qed

lemma last_sort_max: "xs \<noteq> [] \<Longrightarrow> last (sort xs) \<in> set xs" for xs :: "nat list"
  by (metis last_in_set set_sort length_0_conv length_sort)

text \<open>Rows of length zero change neither the two largest lengths nor the longest rows.\<close>

lemma zero_tail_nonzero:
  fixes f :: "nat \<Rightarrow> nat"
  defines "nz rows \<equiv> filter (\<lambda>i. f i \<noteq> 0) rows"
  assumes two: "2 \<le> length (nz rows)"
  shows "zero_tail rows (map f rows) = zero_tail (nz rows) (map f (nz rows))"
proof -
  let ?s = "sort (map f (nz rows))" and ?z = "replicate (length (filter (\<lambda>i. f i = 0) rows)) (0 :: nat)"
  have all: "sort (map f rows) = ?z @ ?s" unfolding nz_def by (rule sort_with_zeros)
  have len: "length ?s = length (nz rows)" by simp
  then have ne: "?s \<noteq> []" "butlast ?s \<noteq> []" using two by (auto simp: length_greater_0_conv [symmetric] simp del: length_greater_0_conv)
  have last: "last (?z @ ?s) = last ?s" "last (butlast (?z @ ?s)) = last (butlast ?s)" using ne by (simp_all add: butlast_append)
  have "last ?s \<in> set (map f (nz rows))" using ne(1) by (intro last_sort_max) auto
  then have pos: "last ?s \<noteq> 0" by (auto simp: nz_def)
  have longest: "filter (\<lambda>(i, n). n = m) (zip xs (map f xs)) = map (\<lambda>i. (i, f i)) (filter (\<lambda>i. f i = m) xs)" for m xs
    by (induction xs) auto
  have "filter (\<lambda>i. f i = last ?s) rows = filter (\<lambda>i. f i = last ?s) (nz rows)"
    using pos by (auto simp: nz_def intro!: filter_cong)
  then show ?thesis by (simp add: zero_tail_def Let_def all last longest)
qed

text \<open>A single row with tokens among empty ones is cleared from its first position on.\<close>

lemma zero_tail_single:
  fixes f :: "nat \<Rightarrow> nat"
  assumes one: "filter (\<lambda>i. f i \<noteq> 0) rows = [i]" and two: "2 \<le> length rows"
  shows "zero_tail rows (map f rows) = Some (i, 0)"
proof -
  let ?z = "replicate (length (filter (\<lambda>i. f i = 0) rows)) (0 :: nat)"
  have all: "sort (map f rows) = ?z @ [f i]" using sort_with_zeros [of f rows] unfolding one by simp
  have "length (sort (map f rows)) = length rows" by simp
  then have "length (?z @ [f i]) = length rows" unfolding all .
  then have z: "?z \<noteq> []" using two by auto
  then have "last ?z = 0" by (metis in_set_replicate last_in_set)
  then have last: "last (sort (map f rows)) = f i" "last (butlast (sort (map f rows))) = 0"
    using z unfolding all by simp_all
  have "i \<in> set (filter (\<lambda>i. f i \<noteq> 0) rows)" unfolding one by simp
  then have "f i \<noteq> 0" by simp
  have longest: "filter (\<lambda>(i, n). n = m) (zip xs (map f xs)) = map (\<lambda>i. (i, f i)) (filter (\<lambda>i. f i = m) xs)" for m xs
    by (induction xs) auto
  have "filter (\<lambda>j. f j = f i) rows = filter (\<lambda>j. f j = f i) (filter (\<lambda>i. f i \<noteq> 0) rows)"
    using \<open>f i \<noteq> 0\<close> by (auto intro!: filter_cong)
  then have "filter (\<lambda>j. f j = f i) rows = [i]" unfolding one by simp
  then show ?thesis using \<open>f i \<noteq> 0\<close> unfolding zero_tail_def Let_def last longest by simp
qed

section \<open>The two baselines of a row\<close>

lemma sum_nonzero_rows: "(\<And>j. j \<in> set rows \<Longrightarrow> f j = 0 \<Longrightarrow> x j = 0) \<Longrightarrow> (\<Sum>j\<leftarrow>rows. x j) = (\<Sum>j\<leftarrow>filter (\<lambda>j. f j \<noteq> 0) rows. x j)"
  for f :: "nat \<Rightarrow> nat" and x :: "nat \<Rightarrow> real"
  by (induction rows) auto

definition same_tokens ::
  "(nat \<Rightarrow> nat) \<Rightarrow> nat list \<Rightarrow> (nat \<Rightarrow> vec) \<Rightarrow> (nat \<Rightarrow> vec) \<Rightarrow> nat \<Rightarrow> bool" where
  "same_tokens f rows x x' t \<longleftrightarrow> (\<forall>j \<in> set rows. (f j = 0 \<longrightarrow> x j ! t = 0) \<and> (f j \<noteq> 0 \<longrightarrow> x j ! t = x' j ! t))"

lemma same_tokens_sum:
  assumes "same_tokens f rows x x' t"
  shows "(\<Sum>j\<leftarrow>rows. x j ! t) = (\<Sum>j\<leftarrow>filter (\<lambda>j. f j \<noteq> 0) rows. x' j ! t)"
proof -
  have "(\<Sum>j\<leftarrow>rows. x j ! t) = (\<Sum>j\<leftarrow>filter (\<lambda>j. f j \<noteq> 0) rows. x j ! t)"
    using assms by (intro sum_nonzero_rows) (auto simp: same_tokens_def)
  also have "\<dots> = (\<Sum>j\<leftarrow>filter (\<lambda>j. f j \<noteq> 0) rows. x' j ! t)"
    using assms by (intro arg_cong [of _ _ sum_list] map_cong refl) (auto simp: same_tokens_def)
  finally show ?thesis .
qed

lemma group_baseline_agree:
  assumes "same_tokens f rows x x' t" "same_tokens f rows w w' t" "t < width" "t < width'"
  shows "group_baseline x w width rows ! t = group_baseline x' w' width' (filter (\<lambda>j. f j \<noteq> 0) rows) ! t"
  using assms same_tokens_sum [OF assms(1)] same_tokens_sum [OF assms(2)] by (simp add: group_baseline_def)

lemma length_group_baseline [simp]: "length (group_baseline x w width rows) = width"
  by (simp add: group_baseline_def)

lemma clear_tail_nth: "t < length row \<Longrightarrow> clear_tail second row ! t = (if t < second then row ! t else Fin 0)"
  by (simp add: clear_tail_def nth_append)

lemma final_row_agree:
  assumes i: "i \<in> set rows" "f i \<noteq> 0" and t: "t < width" "t < width'"
    and same: "same_tokens f rows x x' t" "same_tokens f rows w w' t"
  shows "final_row True (group_baseline x w width) f rows i (replicate width (Fin 0)) ! t
    = final_row True (group_baseline x' w' width') f (filter (\<lambda>j. f j \<noteq> 0) rows) i (replicate width' (Fin 0)) ! t"
proof -
  let ?nz = "filter (\<lambda>j. f j \<noteq> 0) rows"
  note base = group_baseline_agree [OF same t]
  have mem: "i \<in> set ?nz" using i by simp
  consider "length ?nz = 1" | "2 \<le> length ?nz" using mem by (cases ?nz; cases "tl ?nz") auto
  then show ?thesis
  proof cases
    case 1
    then obtain a where a: "?nz = [a]" by (cases ?nz) auto
    have "i \<in> set [a]" using mem unfolding a .
    then have one: "?nz = [i]" using a by simp
    then show ?thesis
    proof (cases "length rows = 1")
      case True
      then show ?thesis using t 1 by (simp add: final_row_def)
    next
      case False
      then have "2 \<le> length rows" using i(1) by (cases rows) (auto simp: Suc_le_eq)
      from zero_tail_single [OF one this] show ?thesis using False t 1 by (simp add: final_row_def clear_tail_nth)
    qed
  next
    case 2
    then have "length rows \<noteq> 1" using length_filter_le [of "\<lambda>j. f j \<noteq> 0" rows] by linarith
    moreover have "length ?nz \<noteq> 1" using 2 by linarith
    ultimately show ?thesis using zero_tail_nonzero [of f rows] 2 base t
      by (simp add: final_row_def clear_tail_nth split: option.splits)
  qed
qed

lemma final_row_finite:
  assumes t: "t < width" and nonneg: "\<forall>j \<in> set rows. 0 \<le> w j ! t"
  shows "\<exists>b. final_row h (group_baseline x w width) f rows i (replicate width (Fin 0)) ! t = Fin b"
proof -
  have "0 \<le> (\<Sum>j\<leftarrow>rows. w j ! t)" using nonneg by (intro sum_list_nonneg) auto
  then have "(\<Sum>j\<leftarrow>rows. w j ! t) + otb_epsilon \<noteq> 0" by (simp add: otb_epsilon_def)
  then have "\<exists>b. group_baseline x w width rows ! t = Fin b" using t by (simp add: group_baseline_def pf_div_def)
  then show ?thesis using t by (auto simp: final_row_def clear_tail_nth split: option.splits)
qed

lemma final_row_length: "length (final_row h (group_baseline x w width) f rows i (replicate width (Fin 0))) = width"
  by (auto simp: final_row_def clear_tail_def split: option.splits)

section \<open>Rectangles\<close>

definition rect :: "nat \<Rightarrow> nat \<Rightarrow> 'a list list \<Rightarrow> bool" where
  "rect n width A \<longleftrightarrow> length A = n \<and> (\<forall>i < n. length (A ! i) = width)"

lemma rect_shape: "rect n width A \<Longrightarrow> map length A = replicate n width"
  by (intro nth_equalityI) (auto simp: rect_def)

lemma rect_map2 [simp]: "rect n width A \<Longrightarrow> rect n width B \<Longrightarrow> rect n width (map2_mat f A B)"
  by (simp add: rect_def map2_mat_def)

lemma rect_map2_nth [simp]:
  "rect n width A \<Longrightarrow> rect n width B \<Longrightarrow> i < n \<Longrightarrow> t < width \<Longrightarrow> map2_mat f A B ! i ! t = f (A ! i ! t) (B ! i ! t)"
  by (simp add: rect_def map2_mat_def)

lemma length_sums [simp]: "length (suffix_sums xs) = length xs" "length (prefix_sums acc xs) = length xs"
  by (induction xs arbitrary: acc) auto

lemma prefix_sums_nonneg: "\<forall>x \<in> set xs. 0 \<le> x \<Longrightarrow> 0 \<le> acc \<Longrightarrow> \<forall>y \<in> set (prefix_sums acc xs). 0 \<le> y"
proof (induction xs arbitrary: acc)
  case (Cons x xs)
  have "\<forall>x \<in> set xs. 0 \<le> x" "0 \<le> acc + x" using Cons.prems by simp_all
  from Cons.IH [OF this] have "\<forall>y \<in> set (prefix_sums (acc + x) xs). 0 \<le> y" .
  then show ?case using \<open>0 \<le> acc + x\<close> unfolding prefix_sums.simps list.set by blast
qed simp

lemma rect_reward_to_go: "rect n width R \<Longrightarrow> rect n width M \<Longrightarrow> rect n width (reward_to_go R M)"
  using rect_map2 [of n width R M "\<lambda>x b. x * of_bool b"] by (simp add: reward_to_go_def mask_mat_def rect_def)

text \<open>The proxy \<open>1 - 2 pi + sum_pi_squared\<close> is at least \<open>(1 - pi)\<^sup>2\<close> on real probabilities; only its sign
  is needed.\<close>

lemma w_cumulative_facts:
  assumes "rect n width lp" "rect n width s2" "rect n width M" "\<And>rho. weights = Some rho \<Longrightarrow> rect n width rho"
    and nonneg: "\<forall>i < n. \<forall>t < width. 0 \<le> 1 - 2 * exp (lp ! i ! t) + s2 ! i ! t"
  shows "rect n width (w_cumulative lp s2 weights M)"
    and "i < n \<Longrightarrow> t < width \<Longrightarrow> 0 \<le> w_cumulative lp s2 weights M ! i ! t"
proof -
  let ?w = "w_per_timestep lp s2 weights"
  have w: "rect n width ?w" using assms by (auto simp: w_per_timestep_def Let_def split: option.splits)
  have nn: "0 \<le> ?w ! i ! t" if "i < n" "t < width" for i t
  proof -
    let ?f = "\<lambda>lp s. 1 - 2 * exp lp + s"
    have inner: "rect n width (map2_mat ?f lp s2)" by (rule rect_map2) fact+
    have val: "map2_mat ?f lp s2 ! i ! t = 1 - 2 * exp (lp ! i ! t) + s2 ! i ! t" by (rule rect_map2_nth) fact+
    show ?thesis
    proof (cases weights)
      case None
      then show ?thesis using nonneg that val by (simp add: w_per_timestep_def Let_def)
    next
      case (Some rho)
      have "map2_mat (\<lambda>w r. w * r\<^sup>2) (map2_mat ?f lp s2) rho ! i ! t = map2_mat ?f lp s2 ! i ! t * (rho ! i ! t)\<^sup>2"
        by (rule rect_map2_nth) (fact inner assms(4) [OF Some] that)+
      then show ?thesis using nonneg that unfolding w_per_timestep_def Let_def Some option.case val by simp
    qed
  qed
  have mw: "rect n width (mask_mat ?w M)" unfolding mask_mat_def by (rule rect_map2) fact+
  then show "rect n width (w_cumulative lp s2 weights M)" by (simp add: w_cumulative_def rect_def)
  assume i: "i < n" and t: "t < width"
  have "\<forall>x \<in> set (mask_mat ?w M ! i). 0 \<le> x"
  proof
    fix x assume "x \<in> set (mask_mat ?w M ! i)"
    then obtain u where u: "u < width" "mask_mat ?w M ! i ! u = x" using mw i by (auto simp: in_set_conv_nth rect_def)
    have "mask_mat ?w M ! i ! u = ?w ! i ! u * of_bool (M ! i ! u)"
      unfolding mask_mat_def by (rule rect_map2_nth) fact+
    then show "0 \<le> x" using nn [OF i u(1)] u(2) by simp
  qed
  from prefix_sums_nonneg [OF this, of 0] have "\<forall>y \<in> set (w_cumulative lp s2 weights M ! i). 0 \<le> y"
    using mw i by (simp add: w_cumulative_def rect_def)
  moreover have "w_cumulative lp s2 weights M ! i ! t \<in> set (w_cumulative lp s2 weights M ! i)"
    using mw i t by (intro nth_mem) (simp add: w_cumulative_def rect_def)
  ultimately show "0 \<le> w_cumulative lp s2 weights M ! i ! t" by blast
qed

section \<open>The estimators on prefix masks\<close>

definition prefix_masks :: "nat \<Rightarrow> nat list \<Rightarrow> bool list list" where
  "prefix_masks width lens = map (\<lambda>k. replicate k True @ replicate (width - k) False) lens"

lemma prefix_masks_facts:
  assumes "\<forall>k \<in> set lens. k \<le> width"
  shows "rect (length lens) width (prefix_masks width lens)"
    and "i < length lens \<Longrightarrow> t < width \<Longrightarrow> prefix_masks width lens ! i ! t \<longleftrightarrow> t < lens ! i"
    and "i < length lens \<Longrightarrow> count_list (prefix_masks width lens ! i) True = lens ! i"
    and "map (\<lambda>m. count_list m True) (prefix_masks width lens) = lens"
proof -
  show "rect (length lens) width (prefix_masks width lens)" using assms by (simp add: rect_def prefix_masks_def)
  show "i < length lens \<Longrightarrow> t < width \<Longrightarrow> prefix_masks width lens ! i ! t \<longleftrightarrow> t < lens ! i"
    by (simp add: prefix_masks_def nth_append)
  show "i < length lens \<Longrightarrow> count_list (prefix_masks width lens ! i) True = lens ! i"
    using count_prefix by (simp add: prefix_masks_def)
  show "map (\<lambda>m. count_list m True) (prefix_masks width lens) = lens"
    using count_prefix by (intro nth_equalityI) (simp_all add: prefix_masks_def)
qed

lemma foldr_max_ge: "k \<in> set lens \<Longrightarrow> k \<le> foldr max lens (0 :: nat)"
  by (induction lens) auto

lemma foldr_max_le: "\<forall>k \<in> set lens. k \<le> width \<Longrightarrow> foldr max lens 0 \<le> (width :: nat)"
  by (induction lens) auto

text \<open>The single-turn estimator, row by row.\<close>

lemma otb_run:
  fixes h :: bool
  assumes R: "rect n width R" "rect n width lp" "rect n width s2" "\<And>rho. weights = Some rho \<Longrightarrow> rect n width rho"
    and M: "rect n width M" and index: "length index = n"
  defines "w \<equiv> w_cumulative lp s2 weights M" and "ret \<equiv> reward_to_go R M"
  defines "mass \<equiv> map2_mat (*) w (map mask_f M)"
  defines "weighted \<equiv> map2_mat (*) (map2_mat (*) ret w) (map mask_f M)"
  defines "B \<equiv> \<lambda>i. final_row h (group_baseline (\<lambda>j. weighted ! j) (\<lambda>j. mass ! j) width) (\<lambda>j. count_list (M ! j) True)
      (key_rows (\<lambda>_. True) index (index ! i)) i (replicate width (Fin 0))"
  shows "\<exists>A. compute_optimal_token_baseline_advantage R M index lp s2 weights h = Inr (A, ret) \<and> length A = n
    \<and> (\<forall>i < n. A ! i = map (\<lambda>t. adv_minus (ret ! i ! t) (B i ! t) (M ! i ! t)) [0..<width])"
proof -
  have n: "length R = n" "length M = n" using R M by (simp_all add: rect_def)
  have shapes: "map length M = map length R" "map length lp = map length R" "map length s2 = map length R"
    "\<And>rho. weights = Some rho \<Longrightarrow> map length rho = map length R"
    using R M by (simp_all add: rect_shape)
  have sl: "(case R of [] \<Rightarrow> 0 | r # _ \<Rightarrow> length r) = (if n = 0 then 0 else width)"
    using R(1) by (cases R) (auto simp: rect_def)
  let ?base = "\<lambda>wd. group_baseline (\<lambda>j. weighted ! j) (\<lambda>j. mass ! j) wd"
  let ?bs = "\<lambda>wd. foldl (assign_baseline h (?base wd) (\<lambda>j. count_list (M ! j) True)) (replicate n (replicate wd (Fin 0))) (map snd (group_rows index))"
  let ?A = "map (\<lambda>(g, b, m). map (\<lambda>(x, y, z). adv_minus x y z) (zip g (zip b m))) (zip ret (zip (?bs (if n = 0 then 0 else width)) M))"
  have run: "compute_optimal_token_baseline_advantage R M index lp s2 weights h = Inr (?A, ret)"
    using shapes index n
    by (simp add: compute_optimal_token_baseline_advantage_def Let_def sl w_def ret_def mass_def weighted_def split: option.split)
  have bsi: "?bs width ! i = B i" if i: "i < n" for i
    unfolding B_def group_rows_table
    using baselines_nth [OF refl, of i "replicate n (replicate width (Fin 0))" index h "?base width" "\<lambda>j. count_list (M ! j) True" "\<lambda>_. True"] i index
    by simp
  have lret: "rect n width ret" unfolding ret_def by (rule rect_reward_to_go) fact+
  have lbs: "length (?bs wd) = n" for wd
  proof -
    have keep: "length (foldl (assign_baseline h b f) bs groups) = length bs" for b f bs groups
      by (induction groups arbitrary: bs) (auto simp: assign_baseline_def foldl_update_nth Let_def split: option.splits)
    show ?thesis by (simp add: keep)
  qed
  have "?A ! i = map (\<lambda>t. adv_minus (ret ! i ! t) (B i ! t) (M ! i ! t)) [0..<width]" if i: "i < n" for i
  proof -
    have "length (B i) = width" unfolding B_def by (rule final_row_length)
    then show ?thesis using i lret M lbs bsi [OF i] n by (intro nth_equalityI) (simp_all add: rect_def)
  qed
  moreover have "length ?A = n" using lret lbs n by (simp add: rect_def)
  ultimately show ?thesis using run by blast
qed

text \<open>The multi-turn estimator on prefix masks, row by row.\<close>

lemma pad_take_nth: "t < m \<Longrightarrow> k \<le> m \<Longrightarrow> k \<le> length xs \<Longrightarrow> pad_row fill m (take k xs) ! t = (if t < k then xs ! t else fill)"
  by (simp add: pad_row_def nth_append)

lemma tir_run:
  fixes h :: bool and lens :: "nat list" and width :: nat
  assumes R: "rect n width R" "rect n width lp" "rect n width s2" "\<And>rho. weights = Some rho \<Longrightarrow> rect n width rho"
    and index: "length index = n" and lens: "length lens = n" "\<forall>k \<in> set lens. k \<le> width"
  defines "M \<equiv> prefix_masks width lens" and "mx \<equiv> foldr max lens 0"
  defines "w \<equiv> w_cumulative lp s2 weights M" and "ret \<equiv> reward_to_go R M"
  defines "aw \<equiv> map2 (\<lambda>k x. pad_row 0 mx (take k x)) lens w" and "ar \<equiv> map2 (\<lambda>k x. pad_row 0 mx (take k x)) lens ret"
  defines "B \<equiv> \<lambda>i. if lens ! i = 0 then replicate mx (Fin 0)
      else final_row h (group_baseline (\<lambda>j. map2_mat (*) ar aw ! j) (\<lambda>j. aw ! j) mx) (\<lambda>j. lens ! j)
        (key_rows (\<lambda>j. lens ! j \<noteq> 0) index (index ! i)) i (replicate mx (Fin 0))"
  shows "\<exists>A. compute_multi_turn_optimal_token_baseline_advantage R M index lp s2 weights h = Inr (A, ret) \<and> length A = n
    \<and> (\<forall>i < n. A ! i = map (\<lambda>t. if t < lens ! i then pf_mul (pf_add (Fin (ret ! i ! t)) (pf_minus (B i ! t))) (Fin 1) else Fin 0) [0..<width])"
proof -
  note pm = prefix_masks_facts [OF lens(2), folded M_def, unfolded lens(1)]
  have n: "length R = n" "length M = n" using R pm by (simp_all add: rect_def)
  have shapes: "map length M = map length R" "map length lp = map length R" "map length s2 = map length R"
    "\<And>rho. weights = Some rho \<Longrightarrow> map length rho = map length R"
    using R pm(1) by (simp_all add: rect_shape)
  have lret: "rect n width ret" unfolding ret_def by (rule rect_reward_to_go) fact+
  have lw: "rect n width w"
  proof -
    have "rect n width (w_per_timestep lp s2 weights)" using R by (auto simp: w_per_timestep_def Let_def split: option.splits)
    then have "rect n width (mask_mat (w_per_timestep lp s2 weights) M)" unfolding mask_mat_def using pm(1) by (rule rect_map2)
    then show ?thesis by (simp add: w_def w_cumulative_def rect_def)
  qed
  have k: "lens ! i \<le> width" "lens ! i \<le> mx" if "i < n" for i
    using lens that foldr_max_ge [of "lens ! i" lens] by (simp_all add: mx_def)
  have comp: "map2 (\<lambda>m x. pad_row 0 mx (compress m x)) M X = map2 (\<lambda>k x. pad_row 0 mx (take k x)) lens X" if "rect n width X" for X :: mat
  proof (rule nth_equalityI)
    fix i assume "i < length (map2 (\<lambda>m x. pad_row 0 mx (compress m x)) M X)"
    then have i: "i < n" using n that by (simp add: rect_def)
    have "compress (M ! i) (X ! i) = take (lens ! i) (X ! i)"
      using i lens(1) that k [OF i] compress_prefix [of "lens ! i" "X ! i" "width - lens ! i"]
      by (simp add: M_def prefix_masks_def rect_def)
    then show "map2 (\<lambda>m x. pad_row 0 mx (compress m x)) M X ! i = map2 (\<lambda>k x. pad_row 0 mx (take k x)) lens X ! i"
      using i n lens(1) that by (simp add: rect_def)
  qed (use n lens(1) in simp)
  let ?base = "group_baseline (\<lambda>j. map2_mat (*) ar aw ! j) (\<lambda>j. aw ! j) mx"
  let ?gs = "map snd (foldl (\<lambda>d (i, k). if lens ! i \<noteq> 0 then setdefault_append k i d else d) [] (enumerate 0 index))"
  let ?bs = "foldl (assign_baseline h ?base (\<lambda>j. lens ! j)) (replicate n (replicate mx (Fin 0))) ?gs"
  let ?adv = "map2 (map2 (\<lambda>g b. pf_add (Fin g) (pf_minus b))) ar ?bs"
  let ?A = "map2 (\<lambda>m a. map2 (\<lambda>x b. pf_mul x (Fin (of_bool b))) (expand (Fin 0) m a) m) M ?adv"
  have flip: "(\<lambda>d (i, k). if lens ! i = 0 then d else setdefault_append k i d) = (\<lambda>d (i, k). if lens ! i \<noteq> 0 then setdefault_append k i d else d)"
    by (auto simp: fun_eq_iff)
  have wc: "(case weights of None \<Rightarrow> False | Some rho \<Rightarrow> map length rho \<noteq> map length R) \<longleftrightarrow> False"
    using shapes(4) by (auto split: option.splits)
  have run: "compute_multi_turn_optimal_token_baseline_advantage R M index lp s2 weights h = Inr (?A, ret)"
    using shapes index n
    by (simp add: compute_multi_turn_optimal_token_baseline_advantage_def Let_def pm(4) comp [OF lret, unfolded ret_def mx_def]
        comp [OF lw, unfolded w_def mx_def] wc flip aw_def ar_def w_def ret_def mx_def)
  have bsi: "?bs ! i = B i" if i: "i < n" for i
    using baselines_nth [OF refl, of i "replicate n (replicate mx (Fin 0))" index h ?base "\<lambda>j. lens ! j" "\<lambda>j. lens ! j \<noteq> 0"] i index
    by (simp add: B_def)
  have lbs: "length ?bs = n"
  proof -
    have keep: "length (foldl (assign_baseline h b f) bs groups) = length bs" for b f bs groups
      by (induction groups arbitrary: bs) (auto simp: assign_baseline_def foldl_update_nth Let_def split: option.splits)
    show ?thesis by (simp add: keep)
  qed
  have "?A ! i = map (\<lambda>t. if t < lens ! i then pf_mul (pf_add (Fin (ret ! i ! t)) (pf_minus (B i ! t))) (Fin 1) else Fin 0) [0..<width]"
    if i: "i < n" for i
  proof -
    let ?k = "lens ! i" and ?a = "map2 (\<lambda>g b. pf_add (Fin g) (pf_minus b)) (ar ! i) (B i)"
    have lB: "length (B i) = mx" using final_row_length by (simp add: B_def)
    have lar: "ar ! i = pad_row 0 mx (take ?k (ret ! i))" using i lret lens(1) by (simp add: ar_def rect_def)
    have larl: "length (ar ! i) = mx" using k [OF i] lret i unfolding lar by (simp add: pad_row_def rect_def)
    have "expand (Fin 0) (M ! i) ?a = take ?k ?a @ replicate (width - ?k) (Fin 0)"
      using i lens(1) k [OF i] larl lB expand_prefix [of ?k ?a "Fin 0" "width - ?k"] by (simp add: M_def prefix_masks_def)
    moreover have "?A ! i = map2 (\<lambda>x b. pf_mul x (Fin (of_bool b))) (expand (Fin 0) (M ! i) ?a) (M ! i)"
      using i n lbs bsi [OF i] lret lens(1) by (simp add: ar_def rect_def)
    ultimately have row: "?A ! i = map2 (\<lambda>x b. pf_mul x (Fin (of_bool b))) (take ?k ?a @ replicate (width - ?k) (Fin 0)) (M ! i)" by simp
    have lM: "length (M ! i) = width" using pm(1) i by (simp add: rect_def)
    show ?thesis
    proof (rule nth_equalityI)
      show "length (?A ! i) = length (map (\<lambda>t. if t < ?k then pf_mul (pf_add (Fin (ret ! i ! t)) (pf_minus (B i ! t))) (Fin 1) else Fin 0) [0..<width])"
        unfolding row using lM k [OF i] larl lB by simp
      fix t assume "t < length (?A ! i)"
      then have t: "t < width" unfolding row using lM by simp
      have lr: "length (ret ! i) = width" using lret i by (simp add: rect_def)
      have a: "?a ! t = pf_add (Fin (ret ! i ! t)) (pf_minus (B i ! t))" if "t < ?k"
        using that k [OF i] larl lB lr pad_take_nth [of t mx ?k "ret ! i" 0] by (simp add: lar)
      show "?A ! i ! t = map (\<lambda>t. if t < ?k then pf_mul (pf_add (Fin (ret ! i ! t)) (pf_minus (B i ! t))) (Fin 1) else Fin 0) [0..<width] ! t"
        unfolding row using t lM k [OF i] larl lB a pm(2) [OF i t] by (simp add: nth_append)
    qed
  qed
  moreover have "length ?A = n" using n lbs lret lens(1) by (simp add: ar_def rect_def)
  ultimately show ?thesis using run by blast
qed

text \<open>C29: the multi-turn optimal token baseline is the single-turn one where both apply. On rectangular
  batches whose masks are prefixes of the rows (of any lengths, zero included), with nonnegative path
  weights, and with the tail of the longest trajectory cleared, both estimators return the same
  advantages and the same returns.\<close>

theorem token_baselines_agree:
  assumes R: "rect n width R" "rect n width lp" "rect n width s2" "\<And>rho. weights = Some rho \<Longrightarrow> rect n width rho"
    and index: "length index = n" and lens: "length lens = n" "\<forall>k \<in> set lens. k \<le> width"
    and nonneg: "\<forall>i < n. \<forall>t < width. 0 \<le> 1 - 2 * exp (lp ! i ! t) + s2 ! i ! t"
  shows "compute_multi_turn_optimal_token_baseline_advantage R (prefix_masks width lens) index lp s2 weights True
    = compute_optimal_token_baseline_advantage R (prefix_masks width lens) index lp s2 weights True"
proof -
  let ?M = "prefix_masks width lens" and ?mx = "foldr max lens 0"
  note pm = prefix_masks_facts [OF lens(2), unfolded lens(1)]
  let ?w = "w_cumulative lp s2 weights ?M" and ?ret = "reward_to_go R ?M"
  let ?mass = "map2_mat (*) ?w (map mask_f ?M)" and ?weighted = "map2_mat (*) (map2_mat (*) ?ret ?w) (map mask_f ?M)"
  let ?aw = "map2 (\<lambda>k x. pad_row 0 ?mx (take k x)) lens ?w" and ?ar = "map2 (\<lambda>k x. pad_row 0 ?mx (take k x)) lens ?ret"
  let ?rows = "\<lambda>i. key_rows (\<lambda>_. True) index (index ! i)"
  let ?count = "\<lambda>j. count_list (?M ! j) True"
  let ?B = "\<lambda>i. final_row True (group_baseline (\<lambda>j. ?weighted ! j) (\<lambda>j. ?mass ! j) width) ?count (?rows i) i (replicate width (Fin 0))"
  let ?C = "\<lambda>i. if lens ! i = 0 then replicate ?mx (Fin 0)
      else final_row True (group_baseline (\<lambda>j. map2_mat (*) ?ar ?aw ! j) (\<lambda>j. ?aw ! j) ?mx) (\<lambda>j. lens ! j)
        (key_rows (\<lambda>j. lens ! j \<noteq> 0) index (index ! i)) i (replicate ?mx (Fin 0))"
  have lw: "rect n width ?w" and wnn: "\<And>i t. i < n \<Longrightarrow> t < width \<Longrightarrow> 0 \<le> ?w ! i ! t"
    using w_cumulative_facts [OF R(2,3) pm(1) R(4) nonneg] by blast+
  have lret: "rect n width ?ret" by (rule rect_reward_to_go) (rule R(1), rule pm(1))
  have lf: "rect n width (map mask_f ?M)" using pm(1) by (simp add: rect_def)
  have f: "map mask_f ?M ! j ! t = of_bool (t < lens ! j)" if "j < n" "t < width" for j t
    using that pm(1) pm(2) [OF that] by (simp add: rect_def mask_f_def)
  have mass: "?mass ! j ! t = ?w ! j ! t * of_bool (t < lens ! j)" if "j < n" "t < width" for j t
    using rect_map2_nth [OF lw lf that, of "(*)"] f [OF that] by simp
  have weighted: "?weighted ! j ! t = ?ret ! j ! t * ?w ! j ! t * of_bool (t < lens ! j)" if "j < n" "t < width" for j t
    using rect_map2_nth [OF rect_map2 [OF lret lw] lf that, of "(*)"] rect_map2_nth [OF lret lw that, of "(*)"] f [OF that] by simp
  have k: "lens ! j \<le> width" "lens ! j \<le> ?mx" if "j < n" for j
    using lens that foldr_max_ge [of "lens ! j" lens] by simp_all
  have mx: "?mx \<le> width" using foldr_max_le [OF lens(2)] .
  have larw: "rect n ?mx ?ar" "rect n ?mx ?aw"
    using lret lw lens(1) k by (simp_all add: rect_def pad_row_def)
  have aw: "?aw ! j ! t = ?w ! j ! t * of_bool (t < lens ! j)" and ar: "?ar ! j ! t = ?ret ! j ! t * of_bool (t < lens ! j)"
    if "j < n" "t < ?mx" for j t
    using that lens(1) lret lw k [OF that(1)] by (simp_all add: rect_def pad_take_nth)
  have prod: "map2_mat (*) ?ar ?aw ! j ! t = ?ret ! j ! t * ?w ! j ! t * of_bool (t < lens ! j)" if "j < n" "t < ?mx" for j t
    using rect_map2_nth [OF larw that, of "(*)"] aw [OF that] ar [OF that] by simp
  have rows_n: "j < n" if "j \<in> set (?rows i)" for i j using that index by (simp add: key_rows_def)
  have cnt: "map ?count (?rows i) = map (\<lambda>j. lens ! j) (?rows i)" for i
    using rows_n pm(3) by (intro map_cong refl) simp
  have Beq: "?B i = final_row True (group_baseline (\<lambda>j. ?weighted ! j) (\<lambda>j. ?mass ! j) width) (\<lambda>j. lens ! j) (?rows i) i (replicate width (Fin 0))" for i
    by (simp add: final_row_def cnt)
  have nz: "key_rows (\<lambda>j. lens ! j \<noteq> 0) index (index ! i) = filter (\<lambda>j. lens ! j \<noteq> 0) (?rows i)" for i
    by (simp add: key_rows_def conj_commute)
  have agree: "?B i ! t = ?C i ! t" if i: "i < n" and t: "t < lens ! i" for i t
  proof -
    have tw: "t < width" "t < ?mx" using t k [OF i] by linarith+
    have "same_tokens (\<lambda>j. lens ! j) (?rows i) (\<lambda>j. ?weighted ! j) (\<lambda>j. map2_mat (*) ?ar ?aw ! j) t"
      unfolding same_tokens_def using rows_n weighted [OF _ tw(1)] prod [OF _ tw(2)] by simp
    moreover have "same_tokens (\<lambda>j. lens ! j) (?rows i) (\<lambda>j. ?mass ! j) (\<lambda>j. ?aw ! j) t"
      unfolding same_tokens_def using rows_n mass [OF _ tw(1)] aw [OF _ tw(2)] by simp
    moreover have "i \<in> set (?rows i)" using i index by (simp add: key_rows_def)
    ultimately show ?thesis using final_row_agree [of i "?rows i" "\<lambda>j. lens ! j" t width ?mx] t tw unfolding Beq nz by simp
  qed
  have finite: "\<exists>b. ?B i ! t = Fin b" if i: "i < n" and t: "t < width" for i t
    unfolding Beq using rows_n mass [OF _ t] wnn [OF _ t] by (intro final_row_finite [OF t]) simp
  obtain A where A: "compute_optimal_token_baseline_advantage R ?M index lp s2 weights True = Inr (A, ?ret)" "length A = n"
    "\<forall>i < n. A ! i = map (\<lambda>t. adv_minus (?ret ! i ! t) (?B i ! t) (?M ! i ! t)) [0..<width]"
    using otb_run [OF R pm(1) index, where h = True] by blast
  obtain A' where A': "compute_multi_turn_optimal_token_baseline_advantage R ?M index lp s2 weights True = Inr (A', ?ret)" "length A' = n"
    "\<forall>i < n. A' ! i = map (\<lambda>t. if t < lens ! i then pf_mul (pf_add (Fin (?ret ! i ! t)) (pf_minus (?C i ! t))) (Fin 1) else Fin 0) [0..<width]"
    using tir_run [OF R index lens, where h = True] by blast
  have "A' ! i = A ! i" if i: "i < n" for i
  proof -
    have "(if t < lens ! i then pf_mul (pf_add (Fin (?ret ! i ! t)) (pf_minus (?C i ! t))) (Fin 1) else Fin 0)
        = adv_minus (?ret ! i ! t) (?B i ! t) (?M ! i ! t)" if t: "t < width" for t
    proof (cases "t < lens ! i")
      case True
      then show ?thesis using agree [OF i True] pm(2) [OF i t] by (simp add: adv_minus_def)
    next
      case False
      obtain b where "?B i ! t = Fin b" using finite [OF i t] by blast
      then show ?thesis using False pm(2) [OF i t] by (simp add: adv_minus_def)
    qed
    then show ?thesis using A(3) A'(3) i by simp
  qed
  then have "A' = A" using A(2) A'(2) by (intro nth_equalityI) simp_all
  then show ?thesis using A(1) A'(1) by simp
qed

theorem token_baselines_agree_witness:
  "compute_multi_turn_optimal_token_baseline_advantage [[0, 1], [3, 0]] (prefix_masks 2 [2, 1]) [''p'', ''p''] [[0, 0], [0, 0]] [[1, 2], [1, 1]] None True
    = compute_optimal_token_baseline_advantage [[0, 1], [3, 0]] (prefix_masks 2 [2, 1]) [''p'', ''p''] [[0, 0], [0, 0]] [[1, 2], [1, 1]] None True"
  by (rule token_baselines_agree [where n = 2]) (simp_all add: rect_def less_Suc_eq numeral_2_eq_2)

end
