(* ===== verification/PyValue.thy ===== *)
theory PyValue
  imports PyStrings "HOL-Library.AList"
begin

text \<open>
  Dynamic Python values: what \<open>json.loads\<close> and \<open>yaml.safe_load\<close> return, with string keys. A dictionary is
  the list of its items in insertion order; equality, truth and the conversions \<open>int\<close>, \<open>float\<close> and
  \<open>str\<close> are those of Python, up to the rounding of floats.
\<close>

datatype val = VNone | VBool bool | VInt int | VFloat pyfloat | VStr string | VList "val list" | VDict "(string \<times> val) list"

type_synonym dict = "(string \<times> val) list"

section \<open>Dictionaries\<close>

fun as_dict :: "val \<Rightarrow> dict option" where
  "as_dict (VDict d) = Some d"
| "as_dict _ = None"

fun as_str :: "val \<Rightarrow> string option" where
  "as_str (VStr s) = Some s"
| "as_str _ = None"

text \<open>\<open>d.get(key, default)\<close>, \<open>d[key]\<close>, and \<open>d.update(e)\<close>.\<close>

definition dget :: "dict \<Rightarrow> string \<Rightarrow> val \<Rightarrow> val" where
  "dget d key other = (case map_of d key of None \<Rightarrow> other | Some v \<Rightarrow> v)"

definition dict_item :: "dict \<Rightarrow> string \<Rightarrow> val res" where
  "dict_item d key = (case map_of d key of None \<Rightarrow> Inl (KeyError key) | Some v \<Rightarrow> Inr v)"

definition dict_update :: "dict \<Rightarrow> dict \<Rightarrow> dict" where
  "dict_update d e = foldl (\<lambda>d (k, v). AList.update k v d) d e"

lemma map_of_dict_update: "map_of (dict_update d e) = map_of d ++ map_of (rev e)"
proof (induction e arbitrary: d)
  case (Cons kv e)
  obtain k v where kv: "kv = (k, v)" by fastforce
  have "dict_update d (kv # e) = dict_update (AList.update k v d) e" by (simp add: dict_update_def kv)
  then show ?case by (simp add: Cons kv AList.update_conv' map_add_def fun_eq_iff split: option.splits)
qed (simp add: dict_update_def)

lemma map_of_rev_distinct: "distinct (map fst e) \<Longrightarrow> map_of (rev e) = map_of e"
  by (metis (no_types, lifting) distinct_rev map_of_inject_set rev_map set_rev)

lemma distinct_dict_update: "distinct (map fst d) \<Longrightarrow> distinct (map fst (dict_update d e))"
proof (induction e arbitrary: d)
  case (Cons kv e)
  obtain k v where kv: "kv = (k, v)" by fastforce
  show ?case using Cons.IH [of "AList.update k v d"] Cons.prems distinct_update [of d k v]
    by (simp add: dict_update_def kv)
qed (simp add: dict_update_def)

section \<open>Equality\<close>

text \<open>A number, for the comparison of booleans, integers and floats with each other.\<close>

fun numeric :: "val \<Rightarrow> pyfloat option" where
  "numeric (VBool b) = Some (Fin (of_bool b))"
| "numeric (VInt n) = Some (Fin (real_of_int n))"
| "numeric (VFloat x) = Some x"
| "numeric _ = None"

text \<open>The equality of items of a container, where one NaN object equals itself.\<close>

fun val_eq :: "val \<Rightarrow> val \<Rightarrow> bool" where
  "val_eq (VDict d) (VDict e) \<longleftrightarrow>
     length d = length e \<and> list_all (\<lambda>(k, v). case map_of e k of None \<Rightarrow> False | Some w \<Rightarrow> val_eq v w) d"
| "val_eq (VList xs) (VList ys) \<longleftrightarrow> list_all2 val_eq xs ys"
| "val_eq (VStr s) (VStr t) \<longleftrightarrow> s = t"
| "val_eq VNone VNone \<longleftrightarrow> True"
| "val_eq x y \<longleftrightarrow> numeric x \<noteq> None \<and> numeric x = numeric y"

text \<open>Keys occur once in every dictionary of the value.\<close>

fun wf_val :: "val \<Rightarrow> bool" where
  "wf_val (VDict d) \<longleftrightarrow> distinct (map fst d) \<and> list_all (\<lambda>(k, v). wf_val v) d"
| "wf_val (VList xs) \<longleftrightarrow> list_all wf_val xs"
| "wf_val _ \<longleftrightarrow> True"

lemma val_eq_refl: "wf_val v \<Longrightarrow> val_eq v v"
proof (induction v rule: wf_val.induct)
  case (1 d)
  have "map_of d k = Some v" if "(k, v) \<in> set d" for k v
    using that 1(2) by simp
  then show ?case using 1 by (fastforce simp: list_all_iff)
next
  case (2 xs)
  then show ?case by (auto simp: list_all_iff list_all2_same)
qed auto

section \<open>Truth and conversions\<close>

fun truthy :: "val \<Rightarrow> bool" where
  "truthy VNone = False"
| "truthy (VBool b) = b"
| "truthy (VInt n) = (n \<noteq> 0)"
| "truthy (VFloat x) = (x \<noteq> Fin 0)"
| "truthy (VStr s) = (s \<noteq> [])"
| "truthy (VList xs) = (xs \<noteq> [])"
| "truthy (VDict d) = (d \<noteq> [])"

text \<open>Python's \<open>float\<close> on a string: an infinity, a NaN, or a decimal with an optional exponent; underscores
  stand between digits only.\<close>

definition digit_run :: "string \<Rightarrow> string option" where
  "digit_run s = (if s = [] then Some []
     else let parts = split_underscore s in if list_all isdecimal parts then Some (concat parts) else None)"

definition split_char :: "char \<Rightarrow> string \<Rightarrow> string \<times> string option" where
  "split_char c s = (takeWhile (\<lambda>d. d \<noteq> c) s,
     case dropWhile (\<lambda>d. d \<noteq> c) s of [] \<Rightarrow> None | _ # r \<Rightarrow> Some r)"

definition sign_of :: "string \<Rightarrow> bool \<times> string" where
  "sign_of t = (case t of [] \<Rightarrow> (False, []) | c # cs \<Rightarrow>
     if c = CHR ''-'' then (True, cs) else if c = CHR ''+'' then (False, cs) else (False, t))"

definition unsigned_float :: "string \<Rightarrow> real option" where
  "unsigned_float s =
     (let (mantissa, exponent) = split_char (CHR ''e'') s;
          (whole, fraction) = split_char (CHR ''.'') mantissa
      in case (digit_run whole, digit_run (case fraction of None \<Rightarrow> [] | Some f \<Rightarrow> f),
           case exponent of None \<Rightarrow> Some 0 | Some e \<Rightarrow> (if snd (sign_of e) = [] then None else
             map_option (\<lambda>d. (if fst (sign_of e) then - 1 else 1) * int (int_of_decimal d)) (digit_run (snd (sign_of e))))) of
        (Some w, Some f, Some e) \<Rightarrow>
          if w = [] \<and> f = [] then None
          else Some (real (int_of_decimal (w @ f)) / 10 ^ length f * (if 0 \<le> e then 10 ^ nat e else 1 / 10 ^ nat (- e)))
      | _ \<Rightarrow> None)"

definition float_of_str :: "string \<Rightarrow> pyfloat option" where
  "float_of_str s =
     (let (negative, body) = sign_of (lower (strip s)) in
      if body = ''inf'' \<or> body = ''infinity'' then Some (if negative then NegInf else PosInf)
      else if body = ''nan'' then Some NaN
      else map_option (\<lambda>x. Fin (if negative then - x else x)) (unsigned_float body))"

text \<open>\<open>float(v)\<close> and \<open>int(v)\<close>; the latter truncates towards zero.\<close>

fun to_float :: "val \<Rightarrow> pyfloat res" where
  "to_float (VBool b) = Inr (Fin (of_bool b))"
| "to_float (VInt n) = Inr (Fin (real_of_int n))"
| "to_float (VFloat x) = Inr x"
| "to_float (VStr s) = (case float_of_str s of None \<Rightarrow> Inl (ValueError ''could not convert string to float'') | Some x \<Rightarrow> Inr x)"
| "to_float _ = Inl (TypeError ''float() argument must be a string or a real number'')"

fun to_int :: "val \<Rightarrow> int res" where
  "to_int (VBool b) = Inr (of_bool b)"
| "to_int (VInt n) = Inr n"
| "to_int (VFloat (Fin x)) = Inr (if 0 \<le> x then \<lfloor>x\<rfloor> else \<lceil>x\<rceil>)"
| "to_int (VFloat NaN) = Inl (ValueError ''cannot convert float NaN to integer'')"
| "to_int (VFloat _) = Inl (OverflowError ''cannot convert float infinity to integer'')"
| "to_int (VStr s) = (case py_int s of None \<Rightarrow> Inl (ValueError ''invalid literal for int() with base 10'') | Some n \<Rightarrow> Inr n)"
| "to_int _ = Inl (TypeError ''int() argument must be a string, a bytes-like object or a real number'')"

text \<open>\<open>str(v)\<close>; the representation of floats and containers is an argument.\<close>

fun decimal_digits :: "nat \<Rightarrow> string" where
  "decimal_digits n = (if n < 10 then [char_of (48 + n)] else decimal_digits (n div 10) @ [char_of (48 + n mod 10)])"

definition decimal_of_int :: "int \<Rightarrow> string" where
  "decimal_of_int n = (if n < 0 then CHR ''-'' # decimal_digits (nat (- n)) else decimal_digits (nat n))"

fun to_str :: "(val \<Rightarrow> string) \<Rightarrow> val \<Rightarrow> string" where
  "to_str repr (VStr s) = s"
| "to_str repr VNone = ''None''"
| "to_str repr (VBool b) = (if b then ''True'' else ''False'')"
| "to_str repr (VInt n) = decimal_of_int n"
| "to_str repr v = repr v"

end
