(* ===== verification/SdpoReward.thy ===== *)
theory SdpoReward
  imports PyValue Grading "HOL-Library.Multiset"
begin

text \<open>
  The format-gated rewards of \<open>sdpo_verl_reward.py\<close> and the data contract of \<open>sdpo_data.py\<close>.
  \<open>json.loads\<close> is an argument: it returns a value, or \<open>None\<close> for a \<open>JSONDecodeError\<close>, the one
  exception the code catches, or raises another one (a \<open>ValueError\<close> for an integer of too many digits,
  a \<open>RecursionError\<close> for deep nesting), which no \<open>except\<close> clause of the code catches. The
  representation of floats and containers in \<open>str\<close> is an argument too; \<open>str\<close> and the comparison
  of values do not raise. The prediction and the feedback are kept as values instead of their rendering.
\<close>

type_synonym loader = "string \<Rightarrow> val option res"

section \<open>Multiple choice\<close>

definition science_sources :: "string list" where
  "science_sources = [''sciknoweval'', ''biology'', ''chemistry'', ''material'', ''physics'']"

datatype prediction = PredText string | PredCalls "string list" dict

datatype feedback = ParseFailure | ActionsMismatch "string list" "string list" | InputsMismatch dict dict

record sdpo_score =
  ss_score :: real
  ss_acc :: real
  ss_pred :: prediction
  ss_incorrect_format :: nat
  ss_feedback :: "feedback list"

definition science_answer :: "string \<Rightarrow> string" where
  "science_answer solution = strip (hd (split_on ''</answer>'' (last (split_on ''<answer>'' solution))))"

definition science_score :: "string \<Rightarrow> string \<Rightarrow> sdpo_score" where
  "science_score solution ground_truth =
     (let answer = science_answer solution;
          correct_format = search_at mcq_at solution;
          correct = of_bool (answer = strip ground_truth)
      in \<lparr>ss_score = correct * of_bool correct_format, ss_acc = correct, ss_pred = PredText answer,
        ss_incorrect_format = (if correct_format then 0 else 1), ss_feedback = []\<rparr>)"

section \<open>Tool use\<close>

text \<open>The word characters \<open>\w\<close> of the first 256 code points.\<close>

definition is_word :: "char \<Rightarrow> bool" where
  "is_word c \<longleftrightarrow> (let n = (of_char c :: nat) in (48 \<le> n \<and> n \<le> 57) \<or> (65 \<le> n \<and> n \<le> 90) \<or> n = 95 \<or> (97 \<le> n \<and> n \<le> 122)
     \<or> n \<in> {170, 178, 179, 181, 185, 186, 188, 189, 190} \<or> (192 \<le> n \<and> n \<noteq> 215 \<and> n \<noteq> 247))"

text \<open>\<open>re.findall(r"Action:\s*(\w+)", text)\<close>: the matches are scanned from left to right and do not
  overlap.\<close>

function extract_actions :: "string \<Rightarrow> string list" where
  "extract_actions s =
     (case s of [] \<Rightarrow> [] | _ # r \<Rightarrow>
        let t = dropWhile is_space (drop 7 s); word = takeWhile is_word t in
        if prefix ''Action:'' s \<and> word \<noteq> [] then word # extract_actions (dropWhile is_word t) else extract_actions r)"
  by pat_completeness auto

lemma length_dropWhile_drop: "length (dropWhile P (dropWhile Q (drop n s))) \<le> length s - n"
  using length_dropWhile_le [of P "dropWhile Q (drop n s)"] length_dropWhile_le [of Q "drop n s"] by simp

termination extract_actions
proof (relation "measure length")
  fix s x r t xb
  assume s: "s = x # r" and t: "t = dropWhile is_space (drop 7 s)"
    and p: "prefix ''Action:'' s \<and> xb \<noteq> []"
  have "length (dropWhile is_word t) \<le> length s - 7" unfolding t by (rule length_dropWhile_drop)
  then show "(dropWhile is_word t, s) \<in> measure length" using s by simp
qed auto

declare extract_actions.simps [simp del]

text \<open>\<open>re.findall(r"Action Input:\s*({.*?})", text, re.DOTALL)\<close>: a block ends at the first closing
  brace.\<close>

function input_blocks :: "string \<Rightarrow> string list" where
  "input_blocks s =
     (case s of [] \<Rightarrow> [] | _ # r \<Rightarrow>
        let t = dropWhile is_space (drop 13 s) in
        if prefix ''Action Input:'' s \<and> prefix ''{'' t \<and> CHR ''}'' \<in> set t
        then (takeWhile (\<lambda>c. c \<noteq> CHR ''}'') t @ ''}'') # input_blocks (drop 1 (dropWhile (\<lambda>c. c \<noteq> CHR ''}'') t))
        else input_blocks r)"
  by pat_completeness auto

termination input_blocks
proof (relation "measure length")
  fix s x r t
  assume s: "s = x # r" and t: "t = dropWhile is_space (drop 13 s)"
  have "length (dropWhile (\<lambda>c. c \<noteq> CHR ''}'') t) \<le> length s - 13" unfolding t by (rule length_dropWhile_drop)
  then show "(drop 1 (dropWhile (\<lambda>c. c \<noteq> CHR ''}'') t), s) \<in> measure length" using s by simp
qed auto

declare input_blocks.simps [simp del]

fun merge_blocks :: "loader \<Rightarrow> dict \<Rightarrow> string list \<Rightarrow> dict res" where
  "merge_blocks loads combined [] = Inr combined"
| "merge_blocks loads combined (block # blocks) =
     rbind (loads block) (\<lambda>parsed.
     merge_blocks loads (case Option.bind parsed as_dict of None \<Rightarrow> combined | Some d \<Rightarrow> dict_update combined d) blocks)"

definition extract_action_inputs :: "loader \<Rightarrow> string \<Rightarrow> dict res" where
  "extract_action_inputs loads s = merge_blocks loads [] (input_blocks s)"

text \<open>One item of the ground truth: its action and its inputs; items that are not dictionaries are skipped.\<close>

definition gold_call :: "loader \<Rightarrow> (val \<Rightarrow> string) \<Rightarrow> dict \<Rightarrow> (string \<times> dict) res" where
  "gold_call loads repr item =
     (let raw_input = dget item ''Action_Input'' VNone in
      rbind (case as_str raw_input of Some s \<Rightarrow> loads s | None \<Rightarrow> Inr (Some raw_input)) (\<lambda>parsed_input.
        Inr (to_str repr (dget item ''Action'' (VStr [])),
          case Option.bind parsed_input as_dict of None \<Rightarrow> [] | Some d \<Rightarrow> d)))"

definition gold_calls :: "loader \<Rightarrow> (val \<Rightarrow> string) \<Rightarrow> val list \<Rightarrow> (string list \<times> dict) res" where
  "gold_calls loads repr gold =
     rbind (rmap (gold_call loads repr) (List.map_filter as_dict gold)) (\<lambda>calls.
       Inr (map fst calls, foldl (\<lambda>inputs (_, d). dict_update inputs d) [] calls))"

definition tooluse_score :: "loader \<Rightarrow> (val \<Rightarrow> string) \<Rightarrow> string \<Rightarrow> val \<Rightarrow> sdpo_score res" where
  "tooluse_score loads repr solution ground_truth =
     rbind (case as_str ground_truth of Some s \<Rightarrow> loads s | None \<Rightarrow> Inr (Some ground_truth)) (\<lambda>parsed.
     case parsed of
        Some (VList gold) \<Rightarrow>
          rbind (gold_calls loads repr gold) (\<lambda>(gold_actions, gold_inputs).
          let pred_actions = extract_actions solution in
          rbind (extract_action_inputs loads solution) (\<lambda>pred_inputs.
          let actions_correct = mset pred_actions = mset gold_actions;
              inputs_correct = val_eq (VDict pred_inputs) (VDict gold_inputs);
              correct_format = search_at tooluse_at solution;
              correct = of_bool (actions_correct \<and> inputs_correct)
          in Inr \<lparr>ss_score = correct * of_bool correct_format, ss_acc = correct, ss_pred = PredCalls pred_actions pred_inputs,
             ss_incorrect_format = (if correct_format then 0 else 1),
             ss_feedback = (if actions_correct then [] else [ActionsMismatch pred_actions gold_actions])
               @ (if inputs_correct then [] else [InputsMismatch pred_inputs gold_inputs])\<rparr>))
      | _ \<Rightarrow> Inr \<lparr>ss_score = 0, ss_acc = 0, ss_pred = PredText [], ss_incorrect_format = 1, ss_feedback = [ParseFailure]\<rparr>)"

definition sdpo_compute_score ::
  "loader \<Rightarrow> (val \<Rightarrow> string) \<Rightarrow> string \<Rightarrow> string \<Rightarrow> val \<Rightarrow> sdpo_score res" where
  "sdpo_compute_score loads repr data_source solution ground_truth =
     (let source = lower (strip data_source) in
      if source \<in> set science_sources then Inr (science_score solution (to_str repr ground_truth))
      else if source = ''tooluse'' then tooluse_score loads repr solution ground_truth
      else Inl (ValueError ''SDPO Section 3 reward style not found''))"

section \<open>The data contract\<close>

definition dataset_names :: "string list" where
  "dataset_names = [''biology'', ''chemistry'', ''material'', ''physics'', ''tooluse'']"

record sdpo_row =
  sr_record_id :: string
  sr_data_source :: string
  sr_prompt :: "(string \<times> string) list"
  sr_ability :: string
  sr_style :: string
  sr_ground_truth :: string
  sr_split :: string
  sr_index :: string
  sr_problem :: string
  sr_dataset :: string
  sr_evidence_source :: string
  sr_source_revision :: string

definition source_revision :: string where
  "source_revision = ''7c457fc1b1f636ae794eb0362ba37d4743b06fbc''"

text \<open>\<open>parse_rows\<close> on the decoded text: a JSON array, or one object per non-blank line.\<close>

definition all_dicts :: "val list \<Rightarrow> dict list option" where
  "all_dicts vs = (if list_all (\<lambda>v. as_dict v \<noteq> None) vs then Some (List.map_filter as_dict vs) else None)"

definition parse_rows :: "loader \<Rightarrow> string \<Rightarrow> dict list res" where
  "parse_rows loads s =
     rbind (rbind (loads s) (\<lambda>whole. case whole of
         Some v \<Rightarrow> Inr v
       | None \<Rightarrow> rbind (rmap (\<lambda>line. rbind (loads line) (\<lambda>parsed.
               case parsed of None \<Rightarrow> Inl (ValueError ''JSONDecodeError'') | Some v \<Rightarrow> Inr v))
             (filter (\<lambda>line. strip line \<noteq> []) (splitlines s))) (\<lambda>vs. Inr (VList vs)))) (\<lambda>parsed.
     let parsed = (case parsed of VDict d \<Rightarrow> VList [VDict d] | _ \<Rightarrow> parsed) in
     case parsed of
       VList vs \<Rightarrow> (case all_dicts vs of
           None \<Rightarrow> Inl (ValueError ''source must be an array or JSONL sequence of objects'')
         | Some rows \<Rightarrow> Inr rows)
     | _ \<Rightarrow> Inl (ValueError ''source must be an array or JSONL sequence of objects''))"

definition record_index :: "(val \<Rightarrow> string) \<Rightarrow> nat \<Rightarrow> dict \<Rightarrow> string" where
  "record_index repr index row = to_str repr (dget row ''idx'' (VInt (int index)))"

definition row_messages :: "dict \<Rightarrow> string \<Rightarrow> (string \<times> string) list" where
  "row_messages row prompt =
     (case as_str (dget row ''system'' VNone) of
        Some system \<Rightarrow> if strip system \<noteq> [] then [(''system'', system)] else [] | None \<Rightarrow> []) @ [(''user'', prompt)]"

definition convert_row :: "(val \<Rightarrow> string) \<Rightarrow> string \<Rightarrow> string \<Rightarrow> nat \<Rightarrow> dict \<Rightarrow> string list \<Rightarrow> sdpo_row res" where
  "convert_row repr dataset split index row seen =
     (let answer = dget row ''answer'' VNone in
      case as_str (dget row ''prompt'' VNone) of
        None \<Rightarrow> Inl (ValueError ''missing prompt or verifier answer'')
      | Some prompt \<Rightarrow>
          if strip prompt = [] \<or> answer = VNone then Inl (ValueError ''missing prompt or verifier answer'')
          else let tool = dataset = ''tooluse'';
            record_id = ''sdpo_'' @ dataset @ ''_'' @ split @ ''_'' @ record_index repr index row
          in if record_id \<in> set seen then Inl (ValueError ''duplicate record ID'')
          else Inr \<lparr>sr_record_id = record_id, sr_data_source = (if tool then ''tooluse'' else ''sciknoweval''),
            sr_prompt = row_messages row prompt, sr_ability = (if tool then ''tooluse'' else ''mcq''),
            sr_style = (if tool then ''tooluse'' else ''mcq''), sr_ground_truth = to_str repr answer, sr_split = split,
            sr_index = record_index repr index row, sr_problem = prompt, sr_dataset = dataset,
            sr_evidence_source = ''rollout_group'', sr_source_revision = source_revision\<rparr>)"

fun convert_loop :: "(val \<Rightarrow> string) \<Rightarrow> string \<Rightarrow> string \<Rightarrow> nat \<Rightarrow> string list \<Rightarrow> dict list \<Rightarrow> sdpo_row list res" where
  "convert_loop repr dataset split index seen [] = Inr []"
| "convert_loop repr dataset split index seen (row # rows) =
     rbind (convert_row repr dataset split index row seen) (\<lambda>r.
     rbind (convert_loop repr dataset split (Suc index) (sr_record_id r # seen) rows) (\<lambda>rs. Inr (r # rs)))"

definition convert_rows :: "(val \<Rightarrow> string) \<Rightarrow> dict list \<Rightarrow> string \<Rightarrow> string \<Rightarrow> sdpo_row list res" where
  "convert_rows repr rows dataset split =
     (if dataset \<notin> set dataset_names \<or> split \<notin> {''train'', ''test''} then Inl (ValueError ''unknown dataset or split'')
      else convert_loop repr dataset split 0 [] rows)"

end
