(* ===== verification/SdpoProps.thy ===== *)
theory SdpoProps
  imports SdpoReward
begin

text \<open>
  Properties of the format-gated rewards: when a multiple-choice answer scores, a transcript of the
  expected calls scores, and every converted row can be scored, with the format gate that the Teacher
  protocol applies to the same row.
\<close>

section \<open>Occurrences\<close>

lemma find_sub_None: "find_sub pat s = None \<longleftrightarrow> \<not> sublist pat s"
  by (induction pat s rule: find_sub.induct) (auto simp: sublist_Cons_right split: if_splits)

lemma find_sub_least: "prefix pat (drop j s) \<Longrightarrow> j \<le> length s \<Longrightarrow> \<exists>i. find_sub pat s = Some i \<and> i \<le> j"
proof (induction pat s arbitrary: j rule: find_sub.induct)
  case (2 pat c s)
  then show ?case by (cases j) fastforce+
qed auto

lemma find_sub_first: "find_sub (h # p) (w @ h # p @ e) = Some (length w)" if "h \<notin> set w"
  using that by (induction w) auto

lemma split_on_nonempty [simp]: "split_on sep s \<noteq> []"
  by (subst split_on.simps) (auto split: option.splits)

lemma last_split:
  assumes "h \<notin> set p" "\<not> sublist (h # p) t"
  shows "last (split_on (h # p) (w @ h # p @ t)) = t"
proof (induction "length w" arbitrary: w rule: less_induct)
  case less
  let ?s = "w @ h # p @ t" and ?n = "Suc (length p)"
  have "prefix (h # p) (drop (length w) ?s)" by simp
  then obtain i where i: "find_sub (h # p) ?s = Some i" "i \<le> length w"
    using find_sub_least [of "h # p" "length w" ?s] by auto
  have at: "prefix (h # p) (drop i ?s)" using find_sub_Some [OF i(1)] by simp
  have step: "last (split_on (h # p) ?s) = last (split_on (h # p) (drop (i + ?n) ?s))"
    by (subst split_on.simps) (simp add: i(1))
  show ?case
  proof (cases "i = length w")
    case True
    have "split_on (h # p) t = [t]" using assms(2) by (subst split_on.simps) (simp add: find_sub_None [symmetric])
    then show ?thesis using step True by simp
  next
    case False
    have "i + ?n \<le> length w"
    proof (rule ccontr)
      assume "\<not> i + ?n \<le> length w"
      then have k: "0 < length w - i" "length w - i < ?n" using False i(2) by auto
      have "h = drop i ?s ! (length w - i)" using i(2) by (simp add: nth_append)
      also have "\<dots> = (h # p) ! (length w - i)"
        using at k unfolding prefix_def by (metis length_Cons nth_append)
      also have "\<dots> \<in> set p" using k by (cases "length w - i") auto
      finally show False using assms(1) by simp
    qed
    then have "drop (i + ?n) ?s = drop (i + ?n) w @ h # p @ t" and "length (drop (i + ?n) w) < length w" by auto
    then show ?thesis using step less by simp
  qed
qed

lemma hd_split: "h \<notin> set w \<Longrightarrow> hd (split_on (h # p) (w @ h # p @ e)) = w"
  by (subst split_on.simps) (simp add: find_sub_first)

lemma no_sublist_append: "hd pat \<notin> set w \<Longrightarrow> pat \<noteq> [] \<Longrightarrow> \<not> sublist pat s \<Longrightarrow> \<not> sublist pat (w @ s)"
  by (induction w) (auto simp: sublist_Cons_right prefix_Cons)

section \<open>Multiple choice\<close>

definition choice_text :: "string \<Rightarrow> char \<Rightarrow> string \<Rightarrow> string \<Rightarrow> string" where
  "choice_text u c v e = ''<answer>'' @ u @ c # v @ ''</answer>'' @ e"

definition choice_ok :: "string \<Rightarrow> char \<Rightarrow> string \<Rightarrow> string \<Rightarrow> bool" where
  "choice_ok u c v e \<longleftrightarrow> list_all is_space u \<and> c \<in> set ''ABCD'' \<and> list_all is_space v \<and> e \<in> {[], nl}"

lemma dropWhile_spaces: "list_all is_space u \<Longrightarrow> \<not> is_space c \<Longrightarrow> dropWhile is_space (u @ c # s) = c # s"
  by (induction u) auto

lemma choices_not_space: "c \<in> set ''ABCD'' \<Longrightarrow> \<not> is_space c \<and> c \<noteq> CHR ''<''"
  by (auto simp: is_space_def)

lemma bracket_not_space: "\<not> is_space (CHR ''<'')"
  by (simp add: is_space_def)

lemma mcq_at_iff: "mcq_at s \<longleftrightarrow> (\<exists>u c v e. s = choice_text u c v e \<and> choice_ok u c v e)"
proof
  assume "mcq_at s"
  then obtain t where s: "s = ''<answer>'' @ t"
    and t: "case dropWhile is_space t of [] \<Rightarrow> False
      | c # r \<Rightarrow> c \<in> set ''ABCD'' \<and> dropWhile is_space r \<in> {''</answer>'', ''</answer>'' @ nl}"
    by (auto simp: mcq_at_def prefix_def)
  then obtain c r where cr: "dropWhile is_space t = c # r" "c \<in> set ''ABCD''"
    and r: "dropWhile is_space r \<in> {''</answer>'', ''</answer>'' @ nl}" by (auto split: list.splits)
  from r obtain e where e: "dropWhile is_space r = ''</answer>'' @ e" "e \<in> {[], nl}" by auto
  have "t = takeWhile is_space t @ c # takeWhile is_space r @ ''</answer>'' @ e"
    by (metis cr(1) e(1) takeWhile_dropWhile_id)
  then have "s = choice_text (takeWhile is_space t) c (takeWhile is_space r) e"
    unfolding s choice_text_def by simp
  moreover have "choice_ok (takeWhile is_space t) c (takeWhile is_space r) e"
    using cr(2) e(2) by (auto simp: choice_ok_def list_all_iff dest: set_takeWhileD)
  ultimately show "\<exists>u c v e. s = choice_text u c v e \<and> choice_ok u c v e" by blast
next
  assume "\<exists>u c v e. s = choice_text u c v e \<and> choice_ok u c v e"
  then obtain u c v e where s: "s = choice_text u c v e" and ok: "choice_ok u c v e" by blast
  have "dropWhile is_space (u @ c # v @ ''</answer>'' @ e) = c # v @ ''</answer>'' @ e"
    and "dropWhile is_space (v @ ''</answer>'' @ e) = ''</answer>'' @ e"
    using ok choices_not_space [of c] dropWhile_spaces [of v "CHR ''<''" "''/answer>'' @ e"] bracket_not_space
    by (auto simp: choice_ok_def dropWhile_spaces)
  then show "mcq_at s" using ok by (auto simp: s choice_text_def mcq_at_def choice_ok_def)
qed

lemma search_at_iff: "search_at p s \<longleftrightarrow> (\<exists>pre t. s = pre @ t \<and> p t)"
  by (auto simp: search_at_def list_ex_iff in_set_conv_nth set_suffixes_eq suffix_def)

lemma science_answer_choice:
  assumes "choice_ok u c v e"
  shows "science_answer (pre @ choice_text u c v e) = [c]"
proof -
  let ?w = "u @ c # v"
  have w: "CHR ''<'' \<notin> set ?w"
    using assms choices_not_space [of c] bracket_not_space by (auto simp: choice_ok_def list_all_iff)
  have e: "\<not> sublist ''<answer>'' (''</answer>'' @ e)"
    using assms by (auto simp: choice_ok_def sublist_Cons_right nl_def newline_def)
  have "\<not> sublist ''<answer>'' (?w @ ''</answer>'' @ e)"
    by (rule no_sublist_append) (use w e in auto)
  then have last: "last (split_on ''<answer>'' (pre @ choice_text u c v e)) = ?w @ ''</answer>'' @ e"
    using last_split [of "CHR ''<''" "''answer>''" "?w @ ''</answer>'' @ e" pre] by (simp add: choice_text_def)
  have "hd (split_on ''</answer>'' (?w @ ''</answer>'' @ e)) = ?w"
    using hd_split [OF w, of "''/answer>''" e] by simp
  moreover have "strip ?w = [c]"
  proof -
    have "dropWhile is_space ?w = c # v" "dropWhile is_space (rev v @ [c]) = [c]"
      using assms choices_not_space [of c] dropWhile_spaces [of u c v] dropWhile_spaces [of "rev v" c "[]"]
      by (auto simp: choice_ok_def)
    then show ?thesis by (simp add: strip_def)
  qed
  ultimately show ?thesis unfolding science_answer_def last by simp
qed

text \<open>C20: A multiple-choice solution scores 1 exactly when it ends, up to one line feed, with
  \<open><answer> X </answer>\<close> for one of the letters A to D, and X is the ground truth; otherwise it scores 0.
  The accuracy is 0 or 1, and the score is the accuracy gated by the format.\<close>

theorem science_reward_exact:
  assumes "lower (strip data_source) \<in> set science_sources"
  shows "\<exists>r. sdpo_compute_score loads repr data_source solution ground_truth = Inr r
    \<and> ss_acc r \<in> {0, 1} \<and> ss_score r = ss_acc r * (1 - real (ss_incorrect_format r))
    \<and> ss_score r = of_bool (\<exists>pre u c v e. solution = pre @ ''<answer>'' @ u @ c # v @ ''</answer>'' @ e
        \<and> list_all is_space u \<and> c \<in> set ''ABCD'' \<and> list_all is_space v \<and> e \<in> {[], nl}
        \<and> strip (to_str repr ground_truth) = [c])"
proof -
  let ?r = "science_score solution (to_str repr ground_truth)"
  have run: "sdpo_compute_score loads repr data_source solution ground_truth = Inr ?r"
    using assms by (simp add: sdpo_compute_score_def Let_def)
  have "science_answer solution = strip (to_str repr ground_truth) \<and> search_at mcq_at solution
    \<longleftrightarrow> (\<exists>pre u c v e. solution = pre @ choice_text u c v e \<and> choice_ok u c v e \<and> strip (to_str repr ground_truth) = [c])"
    using science_answer_choice by (fastforce simp: search_at_iff mcq_at_iff)
  then have score: "ss_score ?r = of_bool (\<exists>pre u c v e. solution = pre @ choice_text u c v e \<and> choice_ok u c v e
      \<and> strip (to_str repr ground_truth) = [c])"
    by (simp add: science_score_def Let_def flip: of_bool_conj)
  have "ss_acc ?r \<in> {0, 1} \<and> ss_score ?r = ss_acc ?r * (1 - real (ss_incorrect_format ?r))"
    by (simp add: science_score_def Let_def)
  then show ?thesis using run score unfolding choice_text_def choice_ok_def
    by (intro exI [of _ ?r]) (simp only: conj_assoc simp_thms)
qed

theorem science_reward_exact_witness:
  "\<exists>r. sdpo_compute_score (\<lambda>_. Inr None) (\<lambda>_. []) '' physics '' ''so <answer> B</answer>'' (VStr ''B'') = Inr r \<and> ss_score r = 1"
proof -
  have "lower (strip '' physics '') \<in> set science_sources"
    by (simp add: lower_def lower_char_def strip_def is_space_def Let_def science_sources_def)
  from science_reward_exact [OF this, of "\<lambda>_. Inr None" "\<lambda>_. []" "''so <answer> B</answer>''" "VStr ''B''"]
  obtain r where r: "sdpo_compute_score (\<lambda>_. Inr None) (\<lambda>_. []) '' physics '' ''so <answer> B</answer>'' (VStr ''B'') = Inr r"
    "ss_score r = of_bool (\<exists>pre u c v e. ''so <answer> B</answer>'' = pre @ ''<answer>'' @ u @ c # v @ ''</answer>'' @ e
        \<and> list_all is_space u \<and> c \<in> set ''ABCD'' \<and> list_all is_space v \<and> e \<in> {[], nl}
        \<and> strip (to_str (\<lambda>_. []) (VStr ''B'')) = [c])" by blast
  have "ss_score r = 1" unfolding r(2) of_bool_eq_1_iff
    by (intro exI [of _ "''so ''"] exI [of _ "'' ''"] exI [of _ "CHR ''B''"] exI [of _ "[]"], simp add: strip_def is_space_def)
  then show ?thesis using r(1) by blast
qed

section \<open>Converted rows\<close>

lemma convert_row_result:
  assumes "convert_row repr dataset split index row seen = Inr r"
  obtains p where "map_of row ''prompt'' = Some (VStr p)" "strip p \<noteq> []" "last (sr_prompt r) = (''user'', p)"
    "sr_record_id r \<notin> set seen" "sr_data_source r = (if dataset = ''tooluse'' then ''tooluse'' else ''sciknoweval'')"
    "sr_style r = (if dataset = ''tooluse'' then ''tooluse'' else ''mcq'')"
    "sr_ground_truth r = to_str repr (dget row ''answer'' VNone)" "dget row ''answer'' VNone \<noteq> VNone"
proof (cases "dget row ''prompt'' VNone")
  case (VStr p)
  then have "map_of row ''prompt'' = Some (VStr p)" by (auto simp: dget_def split: option.splits)
  then show ?thesis using assms VStr
    by (intro that [of p]) (auto simp: convert_row_def row_messages_def Let_def split: if_splits)
qed (use assms in \<open>auto simp: convert_row_def Let_def\<close>)

lemma convert_loop_spec:
  "convert_loop repr dataset split index seen rows = Inr out \<Longrightarrow>
    length out = length rows \<and> distinct (map sr_record_id out) \<and> set (map sr_record_id out) \<inter> set seen = {}
    \<and> (\<forall>i < length rows. \<exists>taken. convert_row repr dataset split (index + i) (rows ! i) taken = Inr (out ! i))"
proof (induction rows arbitrary: index seen out)
  case (Cons row rows)
  then obtain r rs where r: "convert_row repr dataset split index row seen = Inr r"
    and rs: "convert_loop repr dataset split (Suc index) (sr_record_id r # seen) rows = Inr rs" and out: "out = r # rs"
    by auto
  from r have "sr_record_id r \<notin> set seen" by (rule convert_row_result)
  moreover note Cons.IH [OF rs]
  moreover have "\<exists>taken. convert_row repr dataset split (index + i) ((row # rows) ! i) taken = Inr (out ! i)"
    if "i < length (row # rows)" for i
    using that r Cons.IH [OF rs] unfolding out by (cases i) auto
  ultimately show ?case unfolding out by auto
qed simp

lemma convert_rows_fields:
  assumes "F = {''idx'', ''prompt'', ''system'', ''answer''}"
  shows "convert_loop repr dataset split index seen (map (filter (\<lambda>(k, v). k \<in> F)) rows)
    = convert_loop repr dataset split index seen rows"
proof (induction rows arbitrary: index seen)
  case (Cons row rows)
  have keys: "''idx'' \<in> F" "''prompt'' \<in> F" "''system'' \<in> F" "''answer'' \<in> F" by (simp_all add: assms)
  have "map_of (filter (\<lambda>(k, v). k \<in> F) row) k = map_of row k" if "k \<in> F" for k
    using that by (induction row) auto
  then have get: "dget (filter (\<lambda>(k, v). k \<in> F) row) k other = dget row k other" if "k \<in> F" for k other
    using that by (simp add: dget_def)
  have "convert_row repr dataset split index (filter (\<lambda>(k, v). k \<in> F) row) seen = convert_row repr dataset split index row seen"
    unfolding convert_row_def row_messages_def record_index_def get [OF keys(1)] get [OF keys(2)] get [OF keys(3)] get [OF keys(4)] ..
  then show ?case by (simp add: Cons)
qed simp

text \<open>Errors of the tool-use reward are errors of \<open>json.loads\<close>.\<close>

lemma merge_blocks_error: "merge_blocks loads combined blocks = Inl e \<Longrightarrow> \<exists>block \<in> set blocks. loads block = Inl e"
  by (induction loads combined blocks rule: merge_blocks.induct) (auto simp: rbind_Inl_iff)

lemma rmap_error: "rmap f xs = Inl e \<Longrightarrow> \<exists>x \<in> set xs. f x = Inl e"
  by (induction xs) (auto simp: rbind_Inl_iff)

lemma gold_call_error: "gold_call loads repr item = Inl e \<Longrightarrow> \<exists>s. map_of item ''Action_Input'' = Some (VStr s) \<and> loads s = Inl e"
  by (cases "dget item ''Action_Input'' VNone")
    (auto simp: gold_call_def rbind_Inl_iff dget_def Let_def split: option.splits)

lemma map_filter_dict: "d \<in> set (List.map_filter as_dict vs) \<Longrightarrow> VDict d \<in> set vs"
proof (induction vs)
  case (Cons v vs)
  then show ?case by (cases v) (auto simp: List.map_filter_simps)
qed (simp add: List.map_filter_simps)

text \<open>The texts a score parses: the ground truth, the inputs of its items, the input blocks of the solution.\<close>

definition parsed_texts :: "loader \<Rightarrow> string \<Rightarrow> string \<Rightarrow> string set" where
  "parsed_texts loads solution ground_truth = {ground_truth} \<union> set (input_blocks solution)
     \<union> {s. \<exists>gold item. loads ground_truth = Inr (Some (VList gold)) \<and> VDict item \<in> set gold
          \<and> map_of item ''Action_Input'' = Some (VStr s)}"

lemma tooluse_score_error:
  assumes "tooluse_score loads repr solution (VStr ground_truth) = Inl e"
  shows "\<exists>s \<in> parsed_texts loads solution ground_truth. loads s = Inl e"
proof (cases "loads ground_truth")
  case (Inr parsed)
  then obtain gold where gold: "parsed = Some (VList gold)"
    using assms by (auto simp: tooluse_score_def rbind_Inl_iff split: option.splits val.splits)
  show ?thesis
  proof (cases "gold_calls loads repr gold")
    case (Inl e')
    then have "e' = e" using assms Inr gold by (simp add: tooluse_score_def)
    then have "rmap (gold_call loads repr) (List.map_filter as_dict gold) = Inl e"
      using Inl by (auto simp: gold_calls_def rbind_Inl_iff)
    from rmap_error [OF this] gold_call_error map_filter_dict obtain item s where
      "VDict item \<in> set gold" "map_of item ''Action_Input'' = Some (VStr s)" "loads s = Inl e" by blast
    then show ?thesis using Inr gold by (auto simp: parsed_texts_def)
  next
    case (Inr calls)
    then have "extract_action_inputs loads solution = Inl e"
      using assms \<open>loads ground_truth = Inr parsed\<close> gold
      by (auto simp: tooluse_score_def Let_def rbind_Inl_iff split: prod.splits)
    then show ?thesis unfolding extract_action_inputs_def parsed_texts_def using merge_blocks_error by blast
  qed
qed (use assms in \<open>auto simp: tooluse_score_def parsed_texts_def\<close>)

lemma tooluse_score_format:
  assumes "tooluse_score loads repr solution (VStr ground_truth) = Inr score"
  shows "ss_incorrect_format score = 0
      \<longleftrightarrow> search_at tooluse_at solution \<and> (\<exists>gold. loads ground_truth = Inr (Some (VList gold)))"
    and "0 < ss_score score \<Longrightarrow> search_at tooluse_at solution"
proof -
  obtain parsed where parsed: "loads ground_truth = Inr parsed" using assms by (auto simp: tooluse_score_def)
  let ?goal = "(ss_incorrect_format score = 0
      \<longleftrightarrow> search_at tooluse_at solution \<and> (\<exists>gold. loads ground_truth = Inr (Some (VList gold))))
    \<and> (0 < ss_score score \<longrightarrow> search_at tooluse_at solution)"
  have failed: ?goal if "\<nexists>gold. parsed = Some (VList gold)"
  proof -
    have "score = \<lparr>ss_score = 0, ss_acc = 0, ss_pred = PredText [], ss_incorrect_format = 1, ss_feedback = [ParseFailure]\<rparr>"
      using assms parsed that unfolding tooluse_score_def
      by (cases parsed; cases "the parsed") simp_all
    then show ?goal using parsed that by simp
  qed
  have scored: ?goal if gold: "parsed = Some (VList gold)" for gold
  proof -
    obtain actions inputs where calls: "gold_calls loads repr gold = Inr (actions, inputs)"
      using assms parsed gold by (auto simp: tooluse_score_def)
    obtain pred where "extract_action_inputs loads solution = Inr pred"
      using assms parsed gold calls by (auto simp: tooluse_score_def Let_def)
    then have "ss_incorrect_format score = (if search_at tooluse_at solution then 0 else 1)"
      "\<exists>c. ss_score score = c * of_bool (search_at tooluse_at solution)"
      using assms parsed gold calls unfolding tooluse_score_def by (auto simp: Let_def simp del: val_eq.simps)
    then show ?goal using parsed gold by (cases "search_at tooluse_at solution") auto
  qed
  show "ss_incorrect_format score = 0
      \<longleftrightarrow> search_at tooluse_at solution \<and> (\<exists>gold. loads ground_truth = Inr (Some (VList gold)))"
    and "0 < ss_score score \<Longrightarrow> search_at tooluse_at solution"
    using failed scored by blast+
qed

text \<open>C17: A conversion that succeeds keeps every row and its order, gives distinct record IDs, ends every
  prompt with the problem of its row, and reads no field besides the index, the prompt, the system
  message and the answer. For every converted row and every solution the reward returns a score, or,
  for a tool-use row only, raises the exception other than a \<open>JSONDecodeError\<close> that \<open>json.loads\<close>
  raised on the ground truth, on the inputs of one of its items or on an input block of the solution.
  The format flag of the score is the format gate the Teacher protocol applies to the row's style, for
  a tool-use row under the condition that its ground truth is a JSON array, and a positive score
  implies the gate.\<close>

theorem converted_rows_scorable:
  assumes "convert_rows repr rows dataset split = Inr out"
  shows "length out = length rows \<and> distinct (map sr_record_id out)
    \<and> convert_rows repr (map (filter (\<lambda>(k, v). k \<in> {''idx'', ''prompt'', ''system'', ''answer''})) rows) dataset split = Inr out
    \<and> (\<forall>i < length rows. let r = out ! i in
        (\<exists>p. map_of (rows ! i) ''prompt'' = Some (VStr p) \<and> last (sr_prompt r) = (''user'', p))
        \<and> (case sdpo_compute_score loads repr (sr_data_source r) solution (VStr (sr_ground_truth r)) of
            Inr score \<Rightarrow> (\<exists>gate. is_sdpo_candidate_format_valid solution (sr_style r) = Inr gate
              \<and> (ss_incorrect_format score = 0
                  \<longleftrightarrow> gate \<and> (dataset = ''tooluse'' \<longrightarrow> (\<exists>gold. loads (sr_ground_truth r) = Inr (Some (VList gold)))))
              \<and> (0 < ss_score score \<longrightarrow> gate))
          | Inl e \<Rightarrow> dataset = ''tooluse'' \<and> (\<exists>s \<in> parsed_texts loads solution (sr_ground_truth r). loads s = Inl e)))"
proof -
  from assms have loop: "convert_loop repr dataset split 0 [] rows = Inr out"
    and known: "dataset \<in> set dataset_names" "split \<in> {''train'', ''test''}" by (auto simp: convert_rows_def split: if_splits)
  note spec = convert_loop_spec [OF loop]
  have same: "convert_rows repr (map (filter (\<lambda>(k, v). k \<in> {''idx'', ''prompt'', ''system'', ''answer''})) rows) dataset split = Inr out"
    using assms unfolding convert_rows_def convert_rows_fields [OF refl] .
  have lower: "lower (strip ''tooluse'') = ''tooluse''" "lower (strip ''sciknoweval'') = ''sciknoweval''" "lower (strip ''mcq'') = ''mcq''"
    by (simp_all add: lower_def lower_char_def strip_def is_space_def Let_def)
  have row: "let r = out ! i in
        (\<exists>p. map_of (rows ! i) ''prompt'' = Some (VStr p) \<and> last (sr_prompt r) = (''user'', p))
        \<and> (case sdpo_compute_score loads repr (sr_data_source r) solution (VStr (sr_ground_truth r)) of
            Inr score \<Rightarrow> (\<exists>gate. is_sdpo_candidate_format_valid solution (sr_style r) = Inr gate
              \<and> (ss_incorrect_format score = 0
                  \<longleftrightarrow> gate \<and> (dataset = ''tooluse'' \<longrightarrow> (\<exists>gold. loads (sr_ground_truth r) = Inr (Some (VList gold)))))
              \<and> (0 < ss_score score \<longrightarrow> gate))
          | Inl e \<Rightarrow> dataset = ''tooluse'' \<and> (\<exists>s \<in> parsed_texts loads solution (sr_ground_truth r). loads s = Inl e))"
    if i: "i < length rows" for i
  proof -
    obtain taken where "convert_row repr dataset split (0 + i) (rows ! i) taken = Inr (out ! i)" using spec i by blast
    then obtain p where p: "map_of (rows ! i) ''prompt'' = Some (VStr p)" "last (sr_prompt (out ! i)) = (''user'', p)"
      and src: "sr_data_source (out ! i) = (if dataset = ''tooluse'' then ''tooluse'' else ''sciknoweval'')"
      and style: "sr_style (out ! i) = (if dataset = ''tooluse'' then ''tooluse'' else ''mcq'')"
      by (rule convert_row_result)
    show ?thesis
    proof (cases "dataset = ''tooluse''")
      case True
      have gate: "is_sdpo_candidate_format_valid solution (sr_style (out ! i)) = Inr (search_at tooluse_at solution)"
        using True style by (simp add: is_sdpo_candidate_format_valid_def lower mcq_styles_def tooluse_styles_def Let_def)
      have "sdpo_compute_score loads repr (sr_data_source (out ! i)) solution (VStr (sr_ground_truth (out ! i)))
          = tooluse_score loads repr solution (VStr (sr_ground_truth (out ! i)))"
        using True src by (simp add: sdpo_compute_score_def lower science_sources_def Let_def)
      then show ?thesis
        using p gate True tooluse_score_error [of loads repr solution "sr_ground_truth (out ! i)"]
          tooluse_score_format [of loads repr solution "sr_ground_truth (out ! i)"]
        by (simp add: Let_def split: sum.split)
    next
      case False
      show ?thesis using p src style False
        by (auto simp: Let_def sdpo_compute_score_def lower science_sources_def is_sdpo_candidate_format_valid_def
            mcq_styles_def science_score_def)
    qed
  qed
  show ?thesis using spec same row by blast
qed

theorem converted_rows_scorable_witness:
  "\<exists>out. convert_rows (\<lambda>_. []) [[(''prompt'', VStr ''Q''), (''answer'', VStr ''A'')], [(''prompt'', VStr ''R''), (''answer'', VStr ''C'')]]
     ''biology'' ''train'' = Inr out \<and> length out = 2 \<and> distinct (map sr_record_id out)"
proof -
  let ?rows = "[[(''prompt'', VStr ''Q''), (''answer'', VStr ''A'')], [(''prompt'', VStr ''R''), (''answer'', VStr ''C'')]]"
  obtain out where run: "convert_rows (\<lambda>_. []) ?rows ''biology'' ''train'' = Inr out"
    by (simp add: convert_rows_def dataset_names_def convert_row_def dget_def record_index_def decimal_of_int_def strip_def is_space_def)
  from converted_rows_scorable [OF run, of "\<lambda>_. Inr None" "[]"] show ?thesis using run by auto
qed

text \<open>An exception on an input block of a solution is the exception of the reward.\<close>

lemma uncaught_block:
  assumes "loads ground_truth = Inr (Some (VList []))" "input_blocks solution = block # blocks" "loads block = Inl e"
  shows "tooluse_score loads repr solution (VStr ground_truth) = Inl e"
  using assms by (simp add: tooluse_score_def gold_calls_def extract_action_inputs_def List.map_filter_simps)

section \<open>Transcripts of tool calls\<close>

text \<open>A transcript in the registered format: an action line and an input line per call. A call is the name,
  the JSON text of its inputs and the inputs.\<close>

type_synonym tool_call = "string \<times> string \<times> dict"

definition render_call :: "tool_call \<Rightarrow> string" where
  "render_call call = (case call of (name, inputs, _) \<Rightarrow> ''Action: '' @ name @ nl @ ''Action Input: '' @ inputs @ nl)"

definition tool_call_ok :: "loader \<Rightarrow> tool_call \<Rightarrow> bool" where
  "tool_call_ok loads call \<longleftrightarrow> (case call of (name, inputs, d) \<Rightarrow> name \<noteq> [] \<and> list_all is_word name
     \<and> (\<exists>body. inputs = ''{'' @ body @ ''}'' \<and> CHR ''}'' \<notin> set body \<and> \<not> sublist ''Action:'' body)
     \<and> loads inputs = Inr (Some (VDict d)) \<and> wf_val (VDict d))"

definition gold_item :: "tool_call \<Rightarrow> val" where
  "gold_item call = (case call of (name, inputs, _) \<Rightarrow> VDict [(''Action'', VStr name), (''Action_Input'', VStr inputs)])"

lemma prefix_before: "prefix p (x @ a # s) \<Longrightarrow> a \<notin> set p \<Longrightarrow> prefix p x"
proof (induction x arbitrary: p)
  case Nil
  then show ?case by (cases p) auto
next
  case (Cons c x)
  then show ?case by (cases p) auto
qed

lemma word_not_space: "is_word c \<Longrightarrow> \<not> is_space c"
  by (auto simp: is_word_def is_space_def Let_def)

lemma newline_CHR: "newline = CHR 0x0A"
  unfolding newline_def by (simp add: char_of_def bit_Suc bit_Suc_0_iff)

lemma specials: "is_space (CHR '' '')" "\<not> is_word (CHR '' '')" "\<not> is_word newline" "is_space newline"
    "\<not> is_space (CHR ''{'')" "newline \<notin> set ''Action:''" "newline \<notin> set ''Action Input:''"
    "CHR ''}'' \<notin> set ''Action:''" "CHR ''}'' \<noteq> newline"
  by (simp_all add: is_space_def is_word_def newline_CHR)

lemma actions_step: "\<not> prefix ''Action:'' (c # s) \<Longrightarrow> extract_actions (c # s) = extract_actions s"
  by (subst extract_actions.simps) (auto simp: Let_def)

lemma actions_skip:
  "\<not> sublist ''Action:'' w \<Longrightarrow> a \<notin> set ''Action:'' \<Longrightarrow> extract_actions (w @ a # s) = extract_actions s"
proof (induction w)
  case Nil
  then show ?case using actions_step [of a s] by (auto simp: prefix_Cons)
next
  case (Cons c w)
  then have "\<not> prefix ''Action:'' ((c # w) @ a # s)" using prefix_before [of "''Action:''" "c # w" a s] by blast
  then show ?case using Cons actions_step [of c "w @ a # s"] by (auto simp: sublist_Cons_right)
qed

lemma actions_hit:
  assumes "name \<noteq> []" "list_all is_word name" "\<not> is_word a"
  shows "extract_actions (''Action: '' @ name @ a # s) = name # extract_actions (a # s)"
proof -
  have "dropWhile is_space (name @ a # s) = name @ a # s"
    using assms word_not_space by (cases name) auto
  moreover have "takeWhile is_word (name @ a # s) = name" "dropWhile is_word (name @ a # s) = a # s"
    using assms by (auto simp: takeWhile_append dropWhile_append list_all_iff)
  ultimately show ?thesis
    using assms(1) specials(1) by (subst extract_actions.simps) (simp add: Let_def)
qed

lemma inputs_step: "\<not> prefix ''Action Input:'' (c # s) \<Longrightarrow> input_blocks (c # s) = input_blocks s"
  by (subst input_blocks.simps) (auto simp: Let_def)

lemma inputs_skip:
  "\<not> sublist ''Action Input:'' w \<Longrightarrow> a \<notin> set ''Action Input:'' \<Longrightarrow> input_blocks (w @ a # s) = input_blocks s"
proof (induction w)
  case Nil
  then show ?case using inputs_step [of a s] by (auto simp: prefix_Cons)
next
  case (Cons c w)
  then have "\<not> prefix ''Action Input:'' ((c # w) @ a # s)" using prefix_before [of "''Action Input:''" "c # w" a s] by blast
  then show ?case using Cons inputs_step [of c "w @ a # s"] by (auto simp: sublist_Cons_right)
qed

lemma inputs_hit:
  assumes "CHR ''}'' \<notin> set body"
  shows "input_blocks (''Action Input: '' @ ''{'' @ body @ ''}'' @ s) = (''{'' @ body @ ''}'') # input_blocks s"
proof -
  let ?P = "\<lambda>c. c \<noteq> CHR ''}''"
  have "takeWhile ?P (body @ CHR ''}'' # s) = body" "dropWhile ?P (body @ CHR ''}'' # s) = CHR ''}'' # s"
    using assms by (induction body) auto
  then show ?thesis using specials(1,5)
    by (subst input_blocks.simps) (simp add: Let_def)
qed

lemma render_scan:
  assumes "tool_call_ok loads call"
  shows "extract_actions (render_call call @ s) = fst call # extract_actions s"
    and "input_blocks (render_call call @ s) = fst (snd call) # input_blocks s"
proof -
  obtain name inputs d where call: "call = (name, inputs, d)" by (cases call)
  with assms obtain body where name: "name \<noteq> []" "list_all is_word name"
    and inputs: "inputs = ''{'' @ body @ ''}''" and body: "CHR ''}'' \<notin> set body" "\<not> sublist ''Action:'' body"
    by (auto simp: tool_call_ok_def)
  have nl: "nl = [newline]" by (simp add: nl_def)
  have "\<not> sublist ''Action:'' (nl @ ''Action Input: {'' @ body)"
    using body(2) by (simp add: nl newline_CHR sublist_Cons_right)
  then have "extract_actions ((nl @ ''Action Input: {'' @ body) @ CHR ''}'' # nl @ s) = extract_actions (nl @ s)"
    using specials(8) by (rule actions_skip)
  also have "extract_actions (nl @ s) = extract_actions s"
    using actions_skip [of "[]" newline s] specials(6) by (simp add: nl)
  finally show "extract_actions (render_call call @ s) = fst call # extract_actions s"
    using actions_hit [OF name specials(3), of "''Action Input: {'' @ body @ CHR ''}'' # nl @ s"]
    by (simp add: call render_call_def inputs nl)
  have "\<not> sublist ''Action Input:'' name"
    using name(2) specials(2) set_mono_sublist [of "''Action Input:''" name] by (auto simp: list_all_iff)
  then have "\<not> sublist ''Action Input:'' (''Action: '' @ name)" by (simp add: sublist_Cons_right)
  then have "input_blocks ((''Action: '' @ name) @ newline # ''Action Input: '' @ inputs @ nl @ s)
      = input_blocks (''Action Input: '' @ inputs @ nl @ s)"
    using specials(7) by (rule inputs_skip)
  also have "\<dots> = inputs # input_blocks (nl @ s)"
    using inputs_hit [OF body(1), of "nl @ s"] by (simp add: inputs)
  also have "input_blocks (nl @ s) = input_blocks s"
    using inputs_skip [of "[]" newline s] specials(7) by (simp add: nl)
  finally show "input_blocks (render_call call @ s) = fst (snd call) # input_blocks s"
    by (simp add: call render_call_def nl)
qed

lemma transcript_scan:
  "list_all (tool_call_ok loads) calls \<Longrightarrow> extract_actions (concat (map render_call calls)) = map fst calls
    \<and> input_blocks (concat (map render_call calls)) = map (\<lambda>call. fst (snd call)) calls"
  by (induction calls) (auto simp: render_scan extract_actions.simps [of "[]"] input_blocks.simps [of "[]"])

lemma wf_dict_update: "wf_val (VDict d) \<Longrightarrow> wf_val (VDict e) \<Longrightarrow> wf_val (VDict (dict_update d e))"
proof -
  assume d: "wf_val (VDict d)" and e: "wf_val (VDict e)"
  have distinct: "distinct (map fst (dict_update d e))" using d by (simp add: distinct_dict_update)
  have "wf_val v" if "(k, v) \<in> set (dict_update d e)" for k v
  proof -
    have "map_of (dict_update d e) k = Some v" using that distinct by simp
    then have "map_of d k = Some v \<or> map_of (rev e) k = Some v" by (auto simp: map_of_dict_update map_add_Some_iff)
    then have "(k, v) \<in> set d \<union> set e" using map_of_SomeD by fastforce
    then show ?thesis using d e by (auto simp: list_all_iff)
  qed
  then show ?thesis using distinct by (auto simp: list_all_iff)
qed

lemma wf_updates: "wf_val (VDict d) \<Longrightarrow> \<forall>e \<in> set es. wf_val (VDict e) \<Longrightarrow> wf_val (VDict (foldl dict_update d es))"
  by (induction es arbitrary: d) (auto simp del: wf_val.simps intro: wf_dict_update)

lemma transcript_inputs:
  assumes "list_all (tool_call_ok loads) calls"
  shows "extract_action_inputs loads (concat (map render_call calls))
      = Inr (foldl dict_update [] (map (\<lambda>call. snd (snd call)) calls))"
    and "gold_calls loads repr (map gold_item calls)
      = Inr (map fst calls, foldl dict_update [] (map (\<lambda>call. snd (snd call)) calls))"
proof -
  have "merge_blocks loads D (map (\<lambda>call. fst (snd call)) calls) = Inr (foldl dict_update D (map (\<lambda>call. snd (snd call)) calls))" for D
    using assms by (induction calls arbitrary: D) (auto simp: tool_call_ok_def)
  then show "extract_action_inputs loads (concat (map render_call calls))
      = Inr (foldl dict_update [] (map (\<lambda>call. snd (snd call)) calls))"
    unfolding extract_action_inputs_def using transcript_scan [OF assms] by simp
  have item: "gold_call loads repr [(''Action'', VStr (fst call)), (''Action_Input'', VStr (fst (snd call)))]
      = Inr (fst call, snd (snd call))" if "tool_call_ok loads call" for call
    using that by (auto simp: tool_call_ok_def gold_call_def dget_def)
  have "List.map_filter as_dict (map gold_item calls)
      = map (\<lambda>call. [(''Action'', VStr (fst call)), (''Action_Input'', VStr (fst (snd call)))]) calls"
    by (induction calls) (auto simp: gold_item_def)
  moreover have "rmap (gold_call loads repr) (map (\<lambda>call. [(''Action'', VStr (fst call)), (''Action_Input'', VStr (fst (snd call)))]) calls)
      = Inr (map (\<lambda>call. (fst call, snd (snd call))) calls)"
    using assms by (induction calls) (simp_all add: item)
  ultimately have calls: "rmap (gold_call loads repr) (List.map_filter as_dict (map gold_item calls))
      = Inr (map (\<lambda>call. (fst call, snd (snd call))) calls)" by simp
  have "foldl (\<lambda>inputs (_, d). dict_update inputs d) D (map (\<lambda>call. (fst call, snd (snd call))) calls)
      = foldl dict_update D (map (\<lambda>call. snd (snd call)) calls)" for D
    by (induction calls arbitrary: D) auto
  then show "gold_calls loads repr (map gold_item calls)
      = Inr (map fst calls, foldl dict_update [] (map (\<lambda>call. snd (snd call)) calls))"
    unfolding gold_calls_def calls by (simp add: comp_def)
qed

text \<open>A transcript that makes the expected tool calls, one action line and one input line per call with
  inputs that hold no nested object, scores 1 and gets no feedback.\<close>

theorem transcript_scores:
  assumes "list_all (tool_call_ok loads) calls" and "calls \<noteq> []"
    and "loads ground_truth = Inr (Some (VList (map gold_item calls)))" and "lower (strip data_source) = ''tooluse''"
  shows "\<exists>r. sdpo_compute_score loads repr data_source (concat (map render_call calls)) (VStr ground_truth) = Inr r
    \<and> ss_score r = 1 \<and> ss_acc r = 1 \<and> ss_incorrect_format r = 0 \<and> ss_feedback r = []"
proof -
  let ?s = "concat (map render_call calls)" and ?d = "foldl dict_update [] (map (\<lambda>call. snd (snd call)) calls)"
  have "wf_val (VDict ?d)"
    by (rule wf_updates) (use assms(1) in \<open>auto simp: list_all_iff tool_call_ok_def simp del: wf_val.simps, simp\<close>)
  then have eq: "val_eq (VDict ?d) (VDict ?d)" by (rule val_eq_refl)
  obtain name inputs d rest where calls: "calls = (name, inputs, d) # rest" using assms(2) by (metis neq_Nil_conv prod_cases3)
  have "tooluse_at ?s"
  proof -
    have "drop 7 ?s = ('' '' @ name) @ (nl @ ''Action Input:'') @ ('' '' @ inputs @ nl @ concat (map render_call rest))"
      by (simp add: calls render_call_def)
    then have "sublist (nl @ ''Action Input:'') (drop 7 ?s)" by (metis sublist_appendI)
    moreover have "prefix ''Action:'' ?s" by (simp add: calls render_call_def)
    ultimately show ?thesis unfolding tooluse_at_def by blast
  qed
  then have format: "search_at tooluse_at ?s" unfolding search_at_iff by (metis append_Nil)
  have source: "''tooluse'' \<notin> set science_sources" by (simp add: science_sources_def)
  have actions: "extract_actions ?s = map fst calls" using transcript_scan [OF assms(1)] by blast
  have "sdpo_compute_score loads repr data_source ?s (VStr ground_truth) = tooluse_score loads repr ?s (VStr ground_truth)"
    using assms(4) source by (simp add: sdpo_compute_score_def)
  moreover have "tooluse_score loads repr ?s (VStr ground_truth) = Inr \<lparr>ss_score = 1, ss_acc = 1,
      ss_pred = PredCalls (map fst calls) ?d, ss_incorrect_format = 0, ss_feedback = []\<rparr>"
    unfolding tooluse_score_def using assms(3) format eq
    by (simp add: transcript_inputs [OF assms(1)] actions Let_def del: val_eq.simps)
  ultimately show ?thesis by simp
qed

theorem transcript_scores_witness:
  "\<exists>r. sdpo_compute_score (\<lambda>s. Inr (Some (if s = ''{1}'' then VDict [(''q'', VInt 1)] else VList [gold_item (''find'', ''{1}'', [])])))
     (\<lambda>_. []) ''tooluse'' (''Action: find'' @ nl @ ''Action Input: {1}'' @ nl) (VStr ''gold'') = Inr r \<and> ss_score r = 1"
proof -
  let ?loads = "\<lambda>s. Inr (Some (if s = ''{1}'' then VDict [(''q'', VInt 1)] else VList [gold_item (''find'', ''{1}'', [])]))"
  let ?calls = "[(''find'', ''{1}'', [(''q'', VInt 1)])]"
  have ok: "list_all (tool_call_ok ?loads) ?calls"
    by (simp add: tool_call_ok_def is_word_def exI [of _ "''1''"] sublist_Cons_right)
  have "lower (strip ''tooluse'') = ''tooluse''" by (simp add: lower_def lower_char_def strip_def is_space_def Let_def)
  from transcript_scores [OF ok _ _ this, of "''gold''" "\<lambda>_. []"] show ?thesis
    by (auto simp: gold_item_def render_call_def)
qed

text \<open>A block of inputs ends at the first closing brace, so inputs with a nested object are never parsed
  as a whole.\<close>

lemma blocks_one_brace: "block \<in> set (input_blocks s) \<Longrightarrow> CHR ''}'' \<notin> set (butlast block)"
proof (induction s rule: input_blocks.induct)
  case (1 s)
  show ?case
  proof (cases s)
    case Nil
    then show ?thesis using 1(3) by (simp add: input_blocks.simps [of "[]"])
  next
    case (Cons c r)
    then show ?thesis using 1 input_blocks.simps [of s]
      by (auto simp: Let_def butlast_append dest: set_takeWhileD split: if_splits)
  qed
qed

end
