(* ===== verification/LaunchConfig.thy ===== *)
theory LaunchConfig
  imports PyValue VerpoConfig
begin

text \<open>
  The launch configuration (\<open>verpo_launch_config.py\<close>): overlays merged over the base document, dotted
  overrides, validation, launch matrices, and the environment of the engine. A document is the value
  \<open>yaml.safe_load\<close> returns for a file under the configuration root; the parsed files, the YAML parser of
  overrides, the digests and the representation of floats and containers are arguments. A
  \<open>VerpoLaunchConfigError\<close> is a \<open>ValueError\<close>.
\<close>

section \<open>The pure controls\<close>

text \<open>The fields of \<open>VERPOConfig\<close> its \<open>__post_init__\<close> reads.\<close>

record verpo_controls =
  vc_evidence_source :: string
  vc_divergence :: string
  vc_displacement_mode :: string
  vc_lambda_ref :: pyfloat
  vc_lambda_evi :: pyfloat
  vc_teacher_mode :: string
  vc_teacher_sync_interval :: int
  vc_teacher_ema_decay :: pyfloat
  vc_vocab_mode :: string
  vc_top_k :: int
  vc_cost_alpha :: pyfloat
  vc_cost_epsilon :: pyfloat

definition controls_guards :: "verpo_controls \<Rightarrow> (bool \<times> string) list" where
  "controls_guards V =
     [(vc_evidence_source V \<noteq> ''rollout_group'', ''public VERPO evidence_source must be rollout_group''),
      (vc_divergence V \<notin> {''forward_kl'', ''reverse_kl''}, ''divergence must be forward_kl or reverse_kl''),
      (vc_displacement_mode V \<notin> {''evidence_vs_none'', ''correct_vs_incorrect'', ''reward_ranked'', ''fec''},
       ''unsupported displacement_mode''),
      (vc_teacher_mode V \<notin> {''fixed_initial'', ''snapshot'', ''ema''}, ''teacher_mode must be fixed_initial, snapshot, or ema''),
      (vc_teacher_sync_interval V \<le> 0 \<or> \<not> in_unit_interval (vc_teacher_ema_decay V), ''invalid Teacher synchronization settings''),
      (vc_vocab_mode V \<notin> {''full'', ''topk_truncated''} \<or> vc_top_k V \<le> 0, ''invalid vocabulary settings''),
      (pf_neg (vc_lambda_ref V) \<or> pf_neg (vc_lambda_evi V), ''VERPO coefficients must be nonnegative''),
      (pf_neg (vc_cost_alpha V) \<or> pf_nonpos (vc_cost_epsilon V), ''cost_alpha must be nonnegative and cost_epsilon positive'')]"

definition verpo_post_init :: "verpo_controls \<Rightarrow> unit res" where
  "verpo_post_init V = first_error (controls_guards V)"

section \<open>Merging and overriding\<close>

fun deep_merge :: "dict \<Rightarrow> dict \<Rightarrow> dict" where
  "deep_merge base [] = base"
| "deep_merge base ((key, VDict v) # overlay) =
     deep_merge (AList.update key
       (case map_of base key of Some (VDict b) \<Rightarrow> VDict (deep_merge b v) | _ \<Rightarrow> VDict v) base) overlay"
| "deep_merge base ((key, v) # overlay) = deep_merge (AList.update key v base) overlay"

text \<open>The assignment of \<open>_set_dotted\<close>: a missing or non-dictionary part of the path becomes a dictionary.\<close>

fun set_path :: "string list \<Rightarrow> val \<Rightarrow> dict \<Rightarrow> dict" where
  "set_path [] v d = d"
| "set_path [k] v d = AList.update k v d"
| "set_path (k # ks) v d = AList.update k (VDict (set_path ks v (case map_of d k of Some (VDict e) \<Rightarrow> e | _ \<Rightarrow> []))) d"

definition set_dotted :: "(string \<Rightarrow> val res) \<Rightarrow> dict \<Rightarrow> string \<Rightarrow> dict res" where
  "set_dotted yaml config expression =
     (case split_char (CHR ''='') expression of
        (_, None) \<Rightarrow> Inl (ValueError ''override must be PATH=VALUE'')
      | (path, Some raw) \<Rightarrow>
          if path = [] \<or> prefix ''pgr.'' (lower path) \<or> prefix ''opsd.'' (lower path)
          then Inl (ValueError ''removed legacy fields are not accepted'')
          else rbind (yaml raw) (\<lambda>v. Inr (set_path (split_on ''.'' path) v config)))"

section \<open>Documents\<close>

record config_source =
  cs_kind :: string
  cs_identifier :: string
  cs_path :: string
  cs_sha256 :: string

definition document_of :: "val \<Rightarrow> dict res" where
  "document_of v = (if \<not> truthy v then Inr [] else case as_dict v of
     None \<Rightarrow> Inl (AttributeError ''object has no attribute get'') | Some d \<Rightarrow> Inr d)"

definition overlay_path :: "string \<Rightarrow> string \<Rightarrow> string" where
  "overlay_path kind identifier =
     (if kind = ''finetuning'' \<or> kind = ''hardware'' then kind else kind @ ''s'') @ ''/'' @ identifier @ ''.yaml''"

definition load_overlay ::
  "(string \<Rightarrow> val option) \<Rightarrow> (string \<Rightarrow> string) \<Rightarrow> string \<Rightarrow> string \<Rightarrow> (dict \<times> config_source) res" where
  "load_overlay files sha kind identifier =
     (let path = overlay_path kind identifier in
      case files path of None \<Rightarrow> Inl (ValueError ''unknown config'')
      | Some v \<Rightarrow> rbind (document_of v) (\<lambda>document.
        if dget document ''kind'' VNone \<noteq> VStr kind \<or> dget document ''id'' VNone \<noteq> VStr identifier
        then Inl (ValueError ''inconsistent kind/id metadata'')
        else case as_dict (dget document ''config'' (VDict [])) of
          None \<Rightarrow> Inl (ValueError ''config must be a mapping'')
        | Some overlay \<Rightarrow>
            if list_ex (\<lambda>(key, v). lower key \<in> {''pgr'', ''opsd''}) overlay
            then Inl (ValueError ''removed legacy section present'')
            else Inr (overlay, \<lparr>cs_kind = kind, cs_identifier = identifier, cs_path = ''configs/verpo/'' @ path, cs_sha256 = sha path\<rparr>)))"

definition load_defaults ::
  "(string \<Rightarrow> val option) \<Rightarrow> (string \<Rightarrow> string) \<Rightarrow> (val \<Rightarrow> string) \<Rightarrow> (dict \<times> config_source) res" where
  "load_defaults files sha repr =
     (case files ''base.yaml'' of None \<Rightarrow> Inl (FileNotFoundError ''base.yaml'')
      | Some v \<Rightarrow> rbind (document_of v) (\<lambda>document.
        case as_dict (dget document ''config'' (VDict [])) of
          None \<Rightarrow> Inl (ValueError ''base config must contain a mapping'')
        | Some config \<Rightarrow> Inr (config, \<lparr>cs_kind = ''base'', cs_identifier = to_str repr (dget document ''id'' (VStr ''base'')),
            cs_path = ''configs/verpo/base.yaml'', cs_sha256 = sha ''base.yaml''\<rparr>)))"

section \<open>Validation\<close>

text \<open>Building blocks: a guard, a section, \<open>v in {...}\<close> for a set of strings, the numeric readings of a
  required field.\<close>

definition reject :: "bool \<Rightarrow> string \<Rightarrow> unit res" where
  "reject bad message = (if bad then Inl (ValueError message) else Inr ())"

definition section_of :: "dict \<Rightarrow> string \<Rightarrow> dict" where
  "section_of config name = (case map_of config name of Some (VDict d) \<Rightarrow> d | _ \<Rightarrow> [])"

fun member_of :: "val \<Rightarrow> string list \<Rightarrow> bool res" where
  "member_of (VStr s) names = Inr (s \<in> set names)"
| "member_of (VList xs) names = Inl (TypeError ''unhashable type'')"
| "member_of (VDict d) names = Inl (TypeError ''unhashable type'')"
| "member_of v names = Inr False"

definition float_item :: "dict \<Rightarrow> string \<Rightarrow> pyfloat res" where
  "float_item d key = rbind (dict_item d key) to_float"

definition int_item :: "dict \<Rightarrow> string \<Rightarrow> int res" where
  "int_item d key = rbind (dict_item d key) to_int"

definition py_mod :: "int \<Rightarrow> int \<Rightarrow> int res" where
  "py_mod a b = (if b = 0 then Inl (ZeroDivisionError ''integer modulo by zero'') else Inr (a mod b))"

definition allowed_sections :: "string list" where
  "allowed_sections = [''identity'', ''execution'', ''model'', ''finetuning'', ''hardware'', ''protocol'', ''teacher'',
     ''method'', ''zpd'', ''reward'', ''audit'', ''runtime'']"

definition required_sections :: "string list" where
  "required_sections = [''identity'', ''model'', ''finetuning'', ''hardware'', ''protocol'', ''teacher'', ''method'',
     ''zpd'', ''reward'', ''audit'']"

definition identity_keys :: "string list" where
  "identity_keys = [''model'', ''finetuning'', ''hardware'', ''protocol'', ''teacher'', ''arm'']"

text \<open>\<open>isinstance(value, (int, float)) and not math.isfinite(value)\<close>, over the items of the sections.\<close>

fun nonfinite :: "val \<Rightarrow> bool" where
  "nonfinite (VFloat x) \<longleftrightarrow> \<not> isfinite x"
| "nonfinite _ \<longleftrightarrow> False"

definition check_sections :: "dict \<Rightarrow> unit res" where
  "check_sections config =
     rbind (reject (\<not> set (map fst config) \<subseteq> set allowed_sections) ''unknown semantic sections'') (\<lambda>_.
     rbind (reject (list_ex (\<lambda>name. Option.bind (map_of config name) as_dict = None) required_sections)
       ''missing semantic section'') (\<lambda>_.
     rbind (reject (list_ex (\<lambda>key. \<not> truthy (dget (section_of config ''identity'') key VNone)) identity_keys)
       ''identity key is required'') (\<lambda>_.
     reject (list_ex (\<lambda>(name, values). case as_dict values of None \<Rightarrow> False | Some d \<Rightarrow> list_ex (\<lambda>(k, v). nonfinite v) d) config)
       ''value must be finite'')))"

definition controls_of :: "(val \<Rightarrow> string) \<Rightarrow> dict \<Rightarrow> dict \<Rightarrow> verpo_controls res" where
  "controls_of repr method teacher =
     (let strs = (\<lambda>d key other. to_str repr (dget d key (VStr other)));
          floats = (\<lambda>d key other. to_float (dget d key (VFloat (Fin other))));
          ints = (\<lambda>d key other. to_int (dget d key (VInt other))) in
      rbind (floats method ''lambda_ref'' (1/10)) (\<lambda>lambda_ref. rbind (floats method ''lambda_evi'' (1/2)) (\<lambda>lambda_evi.
      rbind (ints teacher ''sync_interval'' 10) (\<lambda>sync_interval. rbind (floats teacher ''ema_decay'' (95/100)) (\<lambda>ema_decay.
      rbind (floats method ''temperature'' 1) (\<lambda>_. rbind (ints method ''top_k'' 128) (\<lambda>top_k.
      rbind (ints method ''vocab_chunk_size'' 4096) (\<lambda>_. rbind (floats method ''cost_alpha'' (25/10000)) (\<lambda>cost_alpha.
      rbind (floats method ''cost_epsilon'' (25/1000000)) (\<lambda>cost_epsilon.
        Inr \<lparr>vc_evidence_source = strs method ''evidence_source'' ''rollout_group'',
          vc_divergence = strs method ''divergence'' ''forward_kl'', vc_displacement_mode = strs method ''displacement'' ''fec'',
          vc_lambda_ref = lambda_ref, vc_lambda_evi = lambda_evi, vc_teacher_mode = strs teacher ''mode'' ''fixed_initial'',
          vc_teacher_sync_interval = sync_interval, vc_teacher_ema_decay = ema_decay,
          vc_vocab_mode = strs method ''vocab_mode'' ''full'', vc_top_k = top_k, vc_cost_alpha = cost_alpha,
          vc_cost_epsilon = cost_epsilon\<rparr>))))))))))"

definition check_method :: "(val \<Rightarrow> string) \<Rightarrow> dict \<Rightarrow> unit res" where
  "check_method repr config =
     (let method = section_of config ''method''; objective = to_str repr (dget method ''objective'' (VStr ''verpo'')) in
      rbind (reject (objective \<notin> {''verpo'', ''pure_grpo'', ''sdpo'', ''srpo''}) ''unsupported method.objective'') (\<lambda>_.
      if objective = ''verpo'' then rbind (controls_of repr method (section_of config ''teacher'')) verpo_post_init else Inr ()))"

definition expected_reward :: dict where
  "expected_reward = [(''correct_reward'', VFloat (Fin 1)), (''valid_wrong_reward'', VFloat (Fin 0)),
     (''format_invalid_reward'', VFloat (Fin 0)), (''length_aware_enabled'', VBool False)]"

definition check_scopes :: "dict \<Rightarrow> unit res" where
  "check_scopes config =
     (let method = section_of config ''method''; zpd = section_of config ''zpd'' in
      rbind (rbind (dict_item (section_of config ''finetuning'') ''mode'') (\<lambda>v. member_of v [''full'', ''lora''])) (\<lambda>ok.
      rbind (reject (\<not> ok) ''finetuning.mode must be full or lora'') (\<lambda>_.
      rbind (reject (dget method ''evidence_source'' VNone \<noteq> VStr ''rollout_group'') ''public launches require rollout_group evidence'') (\<lambda>_.
      rbind (reject (dget zpd ''sibling_selection'' VNone \<noteq> VStr ''correctness'')
        ''rollout_group evidence requires verifier correctness'') (\<lambda>_.
      rbind (member_of (dget zpd ''evidence_scope'' VNone) [''all'', ''wrong_only'']) (\<lambda>ok.
      rbind (reject (\<not> ok) ''invalid evidence scope'') (\<lambda>_.
      rbind (reject (dget (section_of config ''identity'') ''arm'' VNone = VStr ''fec_fkl_wrong_only''
          \<and> dget zpd ''evidence_scope'' VNone \<noteq> VStr ''wrong_only'') ''wrong-only arm must retain wrong_only scope'') (\<lambda>_.
      rbind (member_of (dget method ''advantage_modulation'' (VStr ''none'')) [''none'', ''multiplicative_w'']) (\<lambda>ok.
      rbind (reject (\<not> ok) ''invalid advantage modulation'') (\<lambda>_.
      rbind (reject (dget method ''advantage_modulation'' VNone = VStr ''multiplicative_w''
          \<and> dget method ''displacement'' VNone \<noteq> VStr ''fec'') ''advantage modulation requires FEC'') (\<lambda>_.
      rbind (reject (truthy (dget (section_of config ''audit'') ''gradient_enabled'' VNone))
        ''gradient audit is not a supported public launcher option'') (\<lambda>_.
      reject (list_ex (\<lambda>(key, v). \<not> val_eq (dget (section_of config ''reward'') key VNone) v) expected_reward)
        ''reward overrides are unsupported''))))))))))))"

definition positive_keys :: "string list" where
  "positive_keys = [''total_training_steps'', ''rollout_n'', ''mini_batch_trajectories'', ''max_prompt_length'', ''max_response_length'']"

fun pf_neq :: "pyfloat \<Rightarrow> pyfloat \<Rightarrow> bool" where
  "pf_neq NaN y = True"
| "pf_neq x NaN = True"
| "pf_neq x y = (x \<noteq> y)"

definition check_protocol :: "(val \<Rightarrow> string) \<Rightarrow> dict \<Rightarrow> unit res" where
  "check_protocol repr config =
     (let method = section_of config ''method''; protocol = section_of config ''protocol'';
          hardware = section_of config ''hardware'' in
      rbind (float_item method ''temperature'') (\<lambda>t. rbind (float_item protocol ''rollout_temperature'') (\<lambda>r.
      rbind (reject (pf_neq t r) ''method.temperature must equal protocol.rollout_temperature'') (\<lambda>_.
      rbind (rmap (\<lambda>key. rbind (int_item protocol key) (\<lambda>n. reject (n \<le> 0) ''protocol key must be positive'')) positive_keys) (\<lambda>_.
      rbind (int_item protocol ''mini_batch_trajectories'') (\<lambda>mini. rbind (int_item protocol ''rollout_n'') (\<lambda>n.
      rbind (py_mod mini n) (\<lambda>m.
      rbind (reject (m \<noteq> 0) ''mini_batch_trajectories must be divisible by rollout_n'') (\<lambda>_.
      rbind (int_item protocol ''global_prompt_batch'') (\<lambda>prompts.
      rbind (py_mod (prompts * n) mini) (\<lambda>m.
      rbind (reject (m \<noteq> 0) ''trajectory batch must be divisible by mini_batch_trajectories'') (\<lambda>_.
      rbind (to_float (dget method ''advantage_modulation_lambda'' (VInt 0))) (\<lambda>l.
      rbind (reject (pf_neg l) ''advantage modulation coefficient must be nonnegative'') (\<lambda>_.
      rbind (reject (prompts \<le> 0 \<or> n \<le> 0) ''protocol batch and rollout_n must be positive'') (\<lambda>_.
      rbind (float_item hardware ''vllm_gpu_memory_utilization'') (\<lambda>u.
      rbind (reject (\<not> (isfinite u \<and> 0 < the_real u \<and> the_real u \<le> 6/10)) ''colocated rollout utilization must be in (0, 0.60]'') (\<lambda>_.
      rbind (to_int (dget hardware ''gpu_count'' (VInt 1))) (\<lambda>g.
      rbind (reject (g \<le> 0) ''global_prompt_batch must divide evenly across GPUs'') (\<lambda>_.
      rbind (int_item hardware ''gpu_count'') (\<lambda>g. rbind (py_mod prompts g) (\<lambda>m.
      rbind (reject (m \<noteq> 0) ''global_prompt_batch must divide evenly across GPUs'') (\<lambda>_.
      rbind (dict_item (section_of config ''identity'') ''protocol'') (\<lambda>p.
      reject (prefix ''rlcsd'' (to_str repr p)) ''RLCSD is archival and cannot be launched'')))))))))))))))))))))))"

definition validate_launch :: "(val \<Rightarrow> string) \<Rightarrow> dict \<Rightarrow> unit res" where
  "validate_launch repr config =
     rbind (check_sections config) (\<lambda>_. rbind (check_method repr config) (\<lambda>_. rbind (check_scopes config) (\<lambda>_.
     check_protocol repr config)))"

section \<open>Resolution\<close>

record resolved_launch =
  rl_config :: dict
  rl_config_hash :: string
  rl_sources :: "config_source list"
  rl_cli_overrides :: "string list"

fun merge_axes ::
  "(string \<Rightarrow> val option) \<Rightarrow> (string \<Rightarrow> string) \<Rightarrow> (string \<times> string option) list \<Rightarrow> dict \<Rightarrow> config_source list
    \<Rightarrow> (dict \<times> config_source list) res" where
  "merge_axes files sha [] config sources = Inr (config, sources)"
| "merge_axes files sha ((kind, None) # axes) config sources = Inl (ValueError (kind @ '' is required''))"
| "merge_axes files sha ((kind, Some identifier) # axes) config sources =
     rbind (load_overlay files sha kind identifier) (\<lambda>(overlay, source).
     merge_axes files sha axes (deep_merge config overlay) (sources @ [source]))"

definition set_identity :: "(string \<times> string option) list \<Rightarrow> dict \<Rightarrow> dict res" where
  "set_identity axes config =
     (let identity = map (\<lambda>(kind, v). (kind, case v of None \<Rightarrow> VNone | Some s \<Rightarrow> VStr s)) axes in
      case map_of config ''identity'' of
        None \<Rightarrow> Inr (AList.update ''identity'' (VDict identity) config)
      | Some (VDict d) \<Rightarrow> Inr (AList.update ''identity'' (VDict (dict_update d identity)) config)
      | Some _ \<Rightarrow> Inl (AttributeError ''object has no attribute update''))"

fun has_path :: "val \<Rightarrow> string list \<Rightarrow> bool" where
  "has_path v [] = True"
| "has_path (VDict d) (k # ks) = (case map_of d k of None \<Rightarrow> False | Some v \<Rightarrow> has_path v ks)"
| "has_path v (k # ks) = False"

fun apply_overrides :: "(string \<Rightarrow> val res) \<Rightarrow> string list \<Rightarrow> dict \<Rightarrow> dict res" where
  "apply_overrides yaml [] config = Inr config"
| "apply_overrides yaml (expression # expressions) config =
     (if \<not> has_path (VDict config) (split_on ''.'' (fst (split_char (CHR ''='') expression)))
      then Inl (ValueError ''unknown semantic field'')
      else rbind (set_dotted yaml config expression) (apply_overrides yaml expressions))"

definition resolve_verpo_launch ::
  "(string \<Rightarrow> val option) \<Rightarrow> (string \<Rightarrow> string) \<Rightarrow> (val \<Rightarrow> string) \<Rightarrow> (string \<Rightarrow> val res) \<Rightarrow> (dict \<Rightarrow> string)
    \<Rightarrow> (string \<times> string option) list \<Rightarrow> string list \<Rightarrow> resolved_launch res" where
  "resolve_verpo_launch files sha repr yaml hash axes cli_overrides =
     rbind (load_defaults files sha repr) (\<lambda>(config, source).
     rbind (merge_axes files sha axes config [source]) (\<lambda>(config, sources).
     rbind (set_identity axes config) (\<lambda>config.
     rbind (apply_overrides yaml cli_overrides config) (\<lambda>config.
     rbind (validate_launch repr config) (\<lambda>_.
       Inr \<lparr>rl_config = config, rl_config_hash = hash config, rl_sources = sources, rl_cli_overrides = cli_overrides\<rparr>)))))"

text \<open>The axes of the keyword arguments, in the order of the merge.\<close>

definition launch_axes :: "string \<Rightarrow> string \<Rightarrow> string \<Rightarrow> string option \<Rightarrow> string option \<Rightarrow> string \<Rightarrow> (string \<times> string option) list" where
  "launch_axes model finetuning hardware protocol teacher arm =
     [(''model'', Some model), (''finetuning'', Some finetuning), (''hardware'', Some hardware), (''protocol'', protocol),
      (''teacher'', teacher), (''arm'', Some arm)]"

section \<open>Launch matrices\<close>

record matrix_cell =
  mc_identifier :: string
  mc_protocol :: val
  mc_teacher :: val
  mc_arm :: string
  mc_overrides :: "val list"

record matrix_spec =
  ms_identifier :: string
  ms_cells :: "matrix_cell list"
  ms_overrides :: "string list"

fun iterate :: "val \<Rightarrow> val list res" where
  "iterate (VList xs) = Inr xs"
| "iterate (VStr s) = Inr (map (\<lambda>c. VStr [c]) s)"
| "iterate (VDict d) = Inr (map (\<lambda>(k, v). VStr k) d)"
| "iterate _ = Inl (TypeError ''object is not iterable'')"

definition matrix_cell_of :: "(val \<Rightarrow> string) \<Rightarrow> val \<Rightarrow> matrix_cell res" where
  "matrix_cell_of repr v =
     (case as_dict v of None \<Rightarrow> Inl (TypeError ''indices must be integers'')
      | Some cell \<Rightarrow>
          rbind (dict_item cell ''identifier'') (\<lambda>identifier. rbind (dict_item cell ''arm'') (\<lambda>arm.
          rbind (iterate (dget cell ''overrides'' (VList []))) (\<lambda>overrides.
            Inr \<lparr>mc_identifier = to_str repr identifier, mc_protocol = dget cell ''protocol'' VNone,
              mc_teacher = dget cell ''teacher'' VNone, mc_arm = to_str repr arm, mc_overrides = overrides\<rparr>))))"

definition cross_cells :: "string list \<Rightarrow> string list \<Rightarrow> string list \<Rightarrow> matrix_cell list" where
  "cross_cells protocols teachers arms =
     concat (map (\<lambda>protocol. concat (map (\<lambda>teacher. map (\<lambda>arm.
       \<lparr>mc_identifier = protocol @ ''__'' @ teacher @ ''__'' @ arm, mc_protocol = VStr protocol, mc_teacher = VStr teacher,
        mc_arm = arm, mc_overrides = []\<rparr>) arms) teachers)) protocols)"

definition load_launch_matrix_spec :: "(string \<Rightarrow> val option) \<Rightarrow> (val \<Rightarrow> string) \<Rightarrow> string \<Rightarrow> matrix_spec res" where
  "load_launch_matrix_spec files repr matrix =
     (case files (''matrices/'' @ matrix @ ''.yaml'') of None \<Rightarrow> Inl (ValueError ''unknown matrix'')
      | Some v \<Rightarrow> rbind (document_of v) (\<lambda>document.
        if dget document ''kind'' VNone \<noteq> VStr ''matrix'' then Inl (ValueError ''not a matrix'')
        else let strings = (\<lambda>key. rbind (iterate (dget document key (VList []))) (\<lambda>vs. Inr (map (to_str repr) vs))) in
        rbind (strings ''protocols'') (\<lambda>protocols. rbind (strings ''teachers'') (\<lambda>teachers. rbind (strings ''arms'') (\<lambda>arms.
        rbind (iterate (dget document ''cells'' (VList []))) (\<lambda>vs. rbind (rmap (matrix_cell_of repr) vs) (\<lambda>cells.
        let cells = (if cells = [] then cross_cells protocols teachers arms else cells);
          cells = (if cells = [] then map (\<lambda>arm. \<lparr>mc_identifier = arm, mc_protocol = VNone, mc_teacher = VNone, mc_arm = arm,
            mc_overrides = []\<rparr>) arms else cells)
        in if cells = [] then Inl (ValueError ''matrix has no cells'')
        else rbind (strings ''overrides'') (\<lambda>overrides.
          Inr \<lparr>ms_identifier = to_str repr (dget document ''id'' (VStr matrix)), ms_cells = cells, ms_overrides = overrides\<rparr>))))))))"

section \<open>Projections\<close>

text \<open>\<open>native_verl_projection\<close> on the text the engine prints.\<close>

definition native_projection :: "(string \<Rightarrow> val res) \<Rightarrow> string \<Rightarrow> dict res" where
  "native_projection yaml rendered =
     (case find_sub (''# hydra_arguments'' @ [newline]) rendered of
        None \<Rightarrow> Inl (IndexError ''list index out of range'')
      | Some i \<Rightarrow>
          foldl (\<lambda>projection argument. rbind projection (\<lambda>p.
              if CHR ''='' \<in> set argument then set_dotted yaml p (dropWhile (\<lambda>c. c = CHR ''+'') argument) else Inr p))
            (Inr []) (splitlines (drop (i + 18) rendered)))"

definition trl_verpo_projection :: "dict \<Rightarrow> dict res" where
  "trl_verpo_projection config =
     rmap (\<lambda>key. rbind (dict_item config key) (\<lambda>v. Inr (key, v))) [''model'', ''protocol'', ''teacher'', ''method'', ''zpd'', ''reward'']"

definition engine_fields :: "(string \<times> (string \<times> string) list) list" where
  "engine_fields =
     [(''identity'',
        [(''model'', ''MODEL_ID''), (''status'', ''CONFIG_STATUS'')]),
      (''model'',
        [(''hf_id'', ''MODEL_REPO''), (''revision'', ''MODEL_REVISION''),
         (''trust_remote_code'', ''MODEL_TRUST_REMOTE_CODE''),
         (''prompt_template_version'', ''PROMPT_TEMPLATE_VERSION''),
         (''chat_template_thinking_control'', ''CHAT_TEMPLATE_THINKING_CONTROL'')]),
      (''hardware'',
        [(''gpu_count'', ''EXPECTED_GPUS''), (''gpu_name_substring'', ''GPU_NAME_SUBSTRING''),
         (''gpu_memory_mib_min'', ''GPU_MEMORY_MIN_MIB''), (''gpu_memory_mib_max'', ''GPU_MEMORY_MAX_MIB''),
         (''rollout_backend'', ''ROLLOUT_BACKEND''),
         (''actor_micro_batch_per_gpu'', ''ACTOR_MICRO_BATCH_PER_GPU''),
         (''vllm_gpu_memory_utilization'', ''VLLM_GPU_MEMORY_UTILIZATION''),
         (''rollout_enforce_eager'', ''ROLLOUT_ENFORCE_EAGER''),
         (''free_cache_engine'', ''FREE_CACHE_ENGINE''),
         (''tensor_model_parallel_size'', ''TENSOR_MODEL_PARALLEL_SIZE'')]),
      (''protocol'',
        [(''rollout_n'', ''ROLLOUT_N''), (''mini_batch_trajectories'', ''MINI_BATCH_TRAJECTORIES''),
         (''max_prompt_length'', ''MAX_PROMPT_LENGTH''), (''max_response_length'', ''MAX_RESPONSE_LENGTH''),
         (''validation_response_length'', ''VAL_RESPONSE_LENGTH''),
         (''teacher_max_token_len_per_gpu'', ''TEACHER_MAX_TOKEN_LEN_PER_GPU''),
         (''max_model_len'', ''MAX_MODEL_LEN''), (''validation_batch'', ''VAL_BATCH''),
         (''validation_n'', ''VAL_N''), (''rollout_temperature'', ''ROLLOUT_TEMPERATURE''),
         (''rollout_top_p'', ''ROLLOUT_TOP_P''), (''rollout_top_k'', ''ROLLOUT_TOP_K''),
         (''validation_temperature'', ''VAL_TEMPERATURE''), (''validation_top_p'', ''VAL_TOP_P''),
         (''validation_top_k'', ''VAL_TOP_K''), (''rollout_importance_clip'', ''ROLLOUT_IMPORTANCE_CLIP''),
         (''max_reprompt_length'', ''MAX_REPROMPT_LENGTH''), (''learning_rate'', ''LEARNING_RATE''),
         (''weight_decay'', ''WEIGHT_DECAY''), (''warmup_steps'', ''WARMUP_STEPS''),
         (''scheduler'', ''LR_SCHEDULER''), (''grad_clip'', ''ACTOR_GRAD_CLIP''),
         (''ppo_epochs'', ''PPO_EPOCHS''), (''save_frequency'', ''SAVE_FREQUENCY''),
         (''validation_frequency'', ''VALIDATION_FREQUENCY''),
         (''total_training_steps'', ''TOTAL_TRAINING_STEPS''), (''logging_frequency'', ''LOGGING_FREQUENCY''),
         (''validation_before_training'', ''VALIDATION_BEFORE_TRAINING''),
         (''train_shuffle'', ''TRAIN_SHUFFLE''), (''actor_shuffle'', ''ACTOR_SHUFFLE''),
         (''data_seed'', ''DATA_SEED''), (''seed'', ''SEED''),
         (''normalize_advantage_by_std'', ''NORMALIZE_ADVANTAGE_BY_STD''),
         (''clip_ratio_high'', ''CLIP_RATIO_HIGH''), (''filter_groups_enabled'', ''FILTER_GROUPS_ENABLED''),
         (''train_max_samples'', ''TRAIN_MAX_SAMPLES''),
         (''student_enable_thinking'', ''STUDENT_ENABLE_THINKING''),
         (''teacher_enable_thinking'', ''TEACHER_ENABLE_THINKING''),
         (''validation_enable_thinking'', ''VALIDATION_ENABLE_THINKING''), (''reward_mode'', ''REWARD_MODE'')]),
      (''method'',
        [(''divergence'', ''DIVERGENCE''), (''displacement'', ''DISPLACEMENT_MODE''),
         (''lambda_ref'', ''LAMBDA_REF''), (''lambda_evi'', ''LAMBDA_EVI''),
         (''advantage_modulation'', ''ADVANTAGE_MODULATION''),
         (''advantage_modulation_lambda'', ''ADVANTAGE_MODULATION_LAMBDA''),
         (''temperature'', ''TEMPERATURE''), (''vocab_mode'', ''VOCAB_MODE''), (''top_k'', ''TOP_K''),
         (''vocab_chunk_size'', ''VOCAB_CHUNK_SIZE''), (''cost_alpha'', ''COST_ALPHA''),
         (''cost_epsilon'', ''COST_EPSILON''), (''evidence_source'', ''EVIDENCE_SOURCE'')]),
      (''zpd'',
        [(''group_enabled'', ''GROUP_ZPD_ENABLED''), (''group_epsilon'', ''GROUP_ZPD_EPSILON''),
         (''group_mode'', ''GROUP_ZPD_MODE''), (''sibling_selection'', ''SIBLING_SELECTION_MODE''),
         (''evidence_scope'', ''EVIDENCE_ROLLOUT_SCOPE''),
         (''contrastive_num_negative_hints'', ''CONTRASTIVE_NUM_NEGATIVE_HINTS''),
         (''projection_epsilon'', ''PROJECTION_EPSILON''),
         (''allow_negative_benefit'', ''ALLOW_NEGATIVE_BENEFIT'')]),
      (''teacher'',
        [(''mode'', ''TEACHER_MODE''), (''sync_interval'', ''TEACHER_SYNC_INTERVAL''),
         (''ema_decay'', ''TEACHER_EMA_DECAY'')]),
      (''runtime'',
        [(''save_training_rollouts'', ''SAVE_TRAINING_ROLLOUTS'')]),
      (''finetuning'',
        [(''lora_rank'', ''LORA_RANK''), (''lora_alpha'', ''LORA_ALPHA''),
         (''target_modules'', ''TARGET_MODULES'')])]"

text \<open>The values read off the sections. \<open>runtime\<close>, the one section of the table that the validation does not
  require to be a dictionary, is taken to be one.\<close>

definition field_values :: "dict \<Rightarrow> string \<times> (string \<times> string) list \<Rightarrow> dict res" where
  "field_values config entry = (case entry of (name, pairs) \<Rightarrow>
     rbind (dict_item config name) (\<lambda>v. case as_dict v of
       None \<Rightarrow> Inl (TypeError ''argument is not iterable'')
     | Some d \<Rightarrow> Inr (List.map_filter (\<lambda>(key, var). map_option (\<lambda>x. (''VERPO_'' @ var, x)) (map_of d key)) pairs)))"

definition render_value :: "(val \<Rightarrow> string) \<Rightarrow> val \<Rightarrow> string" where
  "render_value repr v = (case v of VBool b \<Rightarrow> lower (to_str repr v) | _ \<Rightarrow> to_str repr v)"

definition beta_engine_environment :: "(val \<Rightarrow> string) \<Rightarrow> dict \<Rightarrow> (string \<times> string) list res" where
  "beta_engine_environment repr config =
     rbind (dict_item config ''method'') (\<lambda>_.
     rbind (rmap (field_values config) engine_fields) (\<lambda>values.
     let method = section_of config ''method''; finetuning = section_of config ''finetuning'' in
     rbind (dict_item method ''objective'') (\<lambda>objective.
     rbind (dict_item (section_of config ''identity'') ''arm'') (\<lambda>arm.
     rbind (dict_item (section_of config ''protocol'') ''project_name'') (\<lambda>project.
     rbind (member_of objective [''sdpo'', ''srpo'']) (\<lambda>paper.
     rbind (dict_item (section_of config ''model'') ''prompt_template_version'') (\<lambda>profile.
     rbind (dict_item (section_of config ''teacher'') ''ema_decay'') (\<lambda>decay.
     rbind (dict_item finetuning ''mode'') (\<lambda>mode.
     rbind (if mode = VStr ''lora'' then dict_item finetuning ''lora_rank'' else Inr (VInt 0)) (\<lambda>rank.
       Inr (map (\<lambda>(k, v). (k, render_value repr v)) (dict_update (foldl dict_update [] values)
         [(''QWEN3_TRAINING_OBJECTIVE'', objective), (''VERPO_EXPERIMENT_ID'', arm), (''VERPO_PROJECT_NAME'', project),
          (''PAPER_BASELINE_ENABLED'', VBool paper), (''PAPER_BASELINE_OBJECTIVE'', if paper then objective else VStr ''sdpo''),
          (''PAPER_BASELINE_PROMPT_PROFILE'', profile), (''PAPER_BASELINE_EMA_DECAY'', decay), (''VERPO_LORA_RANK'', rank)]))))))))))))"

end
