(* ===== verification/LaunchProps.thy ===== *)
theory LaunchProps
  imports LaunchConfig
begin

text \<open>
  Properties of the launch configuration: what a resolved launch guarantees, which of the merged documents
  a value comes from, and the environment of the engine.
\<close>

section \<open>Paths\<close>

fun at_path :: "val \<Rightarrow> string list \<Rightarrow> val option" where
  "at_path v [] = Some v"
| "at_path (VDict d) (k # ks) = (case map_of d k of None \<Rightarrow> None | Some v \<Rightarrow> at_path v ks)"
| "at_path v (k # ks) = None"

text \<open>A document touches a path when it has a value at a point of the path below which it says nothing.\<close>

fun touches :: "val \<Rightarrow> string list \<Rightarrow> bool" where
  "touches (VDict d) (k # ks) = (case map_of d k of None \<Rightarrow> False | Some v \<Rightarrow> touches v ks)"
| "touches v ks = True"

definition is_leaf :: "val \<Rightarrow> bool" where
  "is_leaf v \<longleftrightarrow> as_dict v = None"

lemma map_of_update: "map_of (AList.update k v d) k' = (if k' = k then Some v else map_of d k')"
  by (simp add: AList.update_conv')

lemma deep_merge_lookup:
  "distinct (map fst overlay) \<Longrightarrow> map_of (deep_merge base overlay) k =
    (case map_of overlay k of None \<Rightarrow> map_of base k
     | Some (VDict v) \<Rightarrow> Some (VDict (case map_of base k of Some (VDict b) \<Rightarrow> deep_merge b v | _ \<Rightarrow> v))
     | Some v \<Rightarrow> Some v)"
proof (induction overlay arbitrary: base)
  case (Cons kv overlay)
  obtain key v where kv: "kv = (key, v)" by fastforce
  have none: "map_of overlay key = None" using Cons.prems by (simp add: kv map_of_eq_None_iff)
  show ?case using Cons none by (cases v) (auto simp: kv map_of_update split: option.splits val.splits)
qed simp

lemma wf_item: "wf_val (VDict d) \<Longrightarrow> map_of d k = Some v \<Longrightarrow> wf_val v"
proof -
  assume d: "wf_val (VDict d)" and "map_of d k = Some v"
  then have kv: "(k, v) \<in> set d" by (intro map_of_SomeD)
  have "\<forall>x \<in> set d. case x of (k, v) \<Rightarrow> wf_val v" using d unfolding wf_val.simps list_all_iff by (rule conjunct2)
  from bspec [OF this kv] show ?thesis by simp
qed

lemma merge_leaf:
  "wf_val (VDict overlay) \<Longrightarrow> ks \<noteq> [] \<Longrightarrow> at_path (VDict overlay) ks = Some v \<Longrightarrow> is_leaf v \<Longrightarrow>
    at_path (VDict (deep_merge base overlay)) ks = Some v"
proof (induction ks arbitrary: base overlay)
  case (Cons k ks)
  have distinct: "distinct (map fst overlay)" using Cons.prems(1) by simp
  from Cons.prems(3) obtain w where w: "map_of overlay k = Some w" "at_path w ks = Some v"
    by (auto split: option.splits)
  show ?case
  proof (cases w)
    case (VDict e)
    have "wf_val (VDict e)" using wf_item [OF Cons.prems(1) w(1)] VDict by simp
    moreover have "ks \<noteq> []" using w(2) Cons.prems(4) VDict by (auto simp: is_leaf_def)
    ultimately have "at_path (VDict (deep_merge b e)) ks = Some v" for b
      using Cons.IH w(2) Cons.prems(4) VDict by blast
    then show ?thesis using w VDict by (auto simp: deep_merge_lookup [OF distinct] split: option.splits val.splits)
  qed (use w in \<open>auto simp: deep_merge_lookup [OF distinct]\<close>)
qed simp

lemma merge_keep:
  "wf_val (VDict overlay) \<Longrightarrow> \<not> touches (VDict overlay) ks \<Longrightarrow> at_path (VDict base) ks = Some v \<Longrightarrow>
    at_path (VDict (deep_merge base overlay)) ks = Some v"
proof (induction ks arbitrary: base overlay)
  case (Cons k ks)
  have distinct: "distinct (map fst overlay)" using Cons.prems(1) by simp
  show ?case
  proof (cases "map_of overlay k")
    case (Some w)
    then have "\<not> touches w ks" using Cons.prems(2) by simp
    then obtain e where w: "w = VDict e" and "ks \<noteq> []" by (cases w; cases ks) auto
    from Cons.prems(3) obtain u where u: "map_of base k = Some u" "at_path u ks = Some v" by (auto split: option.splits)
    then obtain b where b: "u = VDict b" using \<open>ks \<noteq> []\<close> by (cases u; cases ks) auto
    have "wf_val (VDict e)" using wf_item [OF Cons.prems(1) Some] w by simp
    then have "at_path (VDict (deep_merge b e)) ks = Some v"
      by (rule Cons.IH) (use \<open>\<not> touches w ks\<close> w u b in simp_all)
    then show ?thesis using Some w u b by (simp add: deep_merge_lookup [OF distinct])
  qed (use Cons.prems(3) in \<open>simp add: deep_merge_lookup [OF distinct]\<close>)
qed simp

lemma set_path_same: "ks \<noteq> [] \<Longrightarrow> at_path (VDict (set_path ks v d)) ks = Some v"
  by (induction ks v d rule: set_path.induct) (auto simp: map_of_update)

lemma set_path_other: "ks \<parallel> ls \<Longrightarrow> at_path (VDict d) ls = Some w \<Longrightarrow> at_path (VDict (set_path ks v d)) ls = Some w"
proof (induction ks v d arbitrary: ls rule: set_path.induct)
  case (2 k v d)
  then show ?case by (cases ls) (auto simp: map_of_update parallel_def)
next
  case (3 k k' ks v d)
  then obtain l ls' where ls: "ls = l # ls'" by (cases ls) auto
  show ?case
  proof (cases "l = k")
    case True
    then obtain u where u: "map_of d k = Some u" "at_path u ls' = Some w" using 3 ls by (auto split: option.splits)
    have par: "k' # ks \<parallel> ls'" using 3(2) True ls by (simp add: parallel_def)
    then obtain m ms where "ls' = m # ms" by (cases ls') auto
    then obtain e where "u = VDict e" using u(2) by (cases u) auto
    then show ?thesis using 3(1) [OF par] u True ls by (simp add: map_of_update)
  qed (use 3 ls in \<open>simp add: map_of_update\<close>)
qed auto

section \<open>Where a value comes from\<close>

definition override_path :: "string \<Rightarrow> string list" where
  "override_path expression = split_on ''.'' (fst (split_char (CHR ''='') expression))"

text \<open>The overlays of these axes say nothing about the path.\<close>

definition quiet :: "(string \<Rightarrow> val option) \<Rightarrow> (string \<Rightarrow> string) \<Rightarrow> string list \<Rightarrow> (string \<times> string option) list \<Rightarrow> bool" where
  "quiet files sha ks = list_all (\<lambda>(kind, x). case x of None \<Rightarrow> True
     | Some ident \<Rightarrow> (case load_overlay files sha kind ident of Inl _ \<Rightarrow> True
         | Inr (overlay, _) \<Rightarrow> wf_val (VDict overlay) \<and> \<not> touches (VDict overlay) ks))"

lemma merge_axes_append:
  "merge_axes files sha (xs @ ys) config sources
    = rbind (merge_axes files sha xs config sources) (\<lambda>(config, sources). merge_axes files sha ys config sources)"
proof (induction xs arbitrary: config sources)
  case (Cons x xs)
  obtain kind y where x: "x = (kind, y)" by fastforce
  show ?case
  proof (cases y)
    case (Some ident)
    show ?thesis by (cases "load_overlay files sha kind ident") (auto simp: x Some Cons split_beta)
  qed (simp add: x)
qed simp

lemma merge_axes_keep:
  "merge_axes files sha axes config sources = Inr (merged, srcs) \<Longrightarrow> quiet files sha ks axes \<Longrightarrow>
    at_path (VDict config) ks = Some v \<Longrightarrow> at_path (VDict merged) ks = Some v"
proof (induction axes arbitrary: config sources)
  case (Cons x axes)
  then obtain kind ident overlay src where x: "x = (kind, Some ident)"
    and load: "load_overlay files sha kind ident = Inr (overlay, src)"
    and rest: "merge_axes files sha axes (deep_merge config overlay) (sources @ [src]) = Inr (merged, srcs)"
    by (cases x; cases "snd x") auto
  have wf: "wf_val (VDict overlay)" "\<not> touches (VDict overlay) ks" and q: "quiet files sha ks axes"
    using Cons.prems(2) by (simp_all add: quiet_def x load del: wf_val.simps)
  have "at_path (VDict (deep_merge config overlay)) ks = Some v" using wf Cons.prems(3) by (rule merge_keep)
  then show ?case by (rule Cons.IH [OF rest q])
qed simp

lemma set_identity_keep:
  assumes "set_identity axes config = Inr config'" "ks \<noteq> []" "hd ks \<noteq> ''identity''"
  shows "at_path (VDict config') ks = at_path (VDict config) ks"
  using assms by (cases ks) (auto simp: set_identity_def Let_def map_of_update split: option.splits val.splits)

lemma set_dotted_result:
  assumes "set_dotted yaml config expression = Inr config'"
  shows "\<exists>raw v. snd (split_char (CHR ''='') expression) = Some raw \<and> yaml raw = Inr v
    \<and> config' = set_path (override_path expression) v config"
  using assms by (auto simp: set_dotted_def override_path_def split: prod.splits option.splits if_splits)

lemma overrides_keep:
  "apply_overrides yaml expressions config = Inr config' \<Longrightarrow> list_all (\<lambda>e. override_path e \<parallel> ks) expressions \<Longrightarrow>
    at_path (VDict config) ks = Some v \<Longrightarrow> at_path (VDict config') ks = Some v"
proof (induction expressions arbitrary: config)
  case (Cons e expressions)
  then obtain config1 where c1: "set_dotted yaml config e = Inr config1" "apply_overrides yaml expressions config1 = Inr config'"
    by (auto split: if_splits)
  from set_dotted_result [OF c1(1)] obtain w where "config1 = set_path (override_path e) w config" by blast
  then have "at_path (VDict config1) ks = Some v" using set_path_other Cons.prems by simp
  then show ?case using Cons.IH c1(2) Cons.prems(2) by simp
qed simp

lemma resolve_run:
  assumes "resolve_verpo_launch files sha repr yaml hash axes cli_overrides = Inr r"
  obtains base source merged sources config where
    "load_defaults files sha repr = Inr (base, source)" "merge_axes files sha axes base [source] = Inr (merged, sources)"
    "set_identity axes merged = Inr config" "apply_overrides yaml cli_overrides config = Inr (rl_config r)"
    "validate_launch repr (rl_config r) = Inr ()" "rl_config_hash r = hash (rl_config r)"
  using assms by (auto simp: resolve_verpo_launch_def)

text \<open>A leaf of the overlay of an axis, outside the identity.\<close>

lemma overlay_applies:
  assumes "resolve_verpo_launch files sha repr yaml hash (before @ (kind, Some ident) # after) cli_overrides = Inr r"
    and "load_overlay files sha kind ident = Inr (overlay, src)" and "wf_val (VDict overlay)"
    and "at_path (VDict overlay) ks = Some v" and "is_leaf v" and "ks \<noteq> []" and "hd ks \<noteq> ''identity''"
    and "quiet files sha ks after" and "list_all (\<lambda>e. override_path e \<parallel> ks) cli_overrides"
  shows "at_path (VDict (rl_config r)) ks = Some v"
proof -
  from assms(1) obtain base source merged sources config where
    merged: "merge_axes files sha (before @ (kind, Some ident) # after) base [source] = Inr (merged, sources)"
    and config: "set_identity (before @ (kind, Some ident) # after) merged = Inr config"
    and final: "apply_overrides yaml cli_overrides config = Inr (rl_config r)" by (rule resolve_run)
  from merged obtain c1 s1 where
    rest: "merge_axes files sha after (deep_merge c1 overlay) (s1 @ [src]) = Inr (merged, sources)"
    by (auto simp: merge_axes_append assms(2))
  have "at_path (VDict (deep_merge c1 overlay)) ks = Some v" using assms(3,6,4,5) by (rule merge_leaf)
  then have "at_path (VDict merged) ks = Some v" by (rule merge_axes_keep [OF rest assms(8)])
  then have "at_path (VDict config) ks = Some v" using set_identity_keep [OF config assms(6,7)] by simp
  then show ?thesis by (rule overrides_keep [OF final assms(9)])
qed

text \<open>A value of the base document that no overlay and no override says anything about.\<close>

lemma base_applies:
  assumes "resolve_verpo_launch files sha repr yaml hash axes cli_overrides = Inr r"
    and "load_defaults files sha repr = Inr (base, src)" and "at_path (VDict base) ks = Some v"
    and "ks \<noteq> []" and "hd ks \<noteq> ''identity''" and "quiet files sha ks axes"
    and "list_all (\<lambda>e. override_path e \<parallel> ks) cli_overrides"
  shows "at_path (VDict (rl_config r)) ks = Some v"
proof -
  from assms(1,2) obtain merged sources config where
    merged: "merge_axes files sha axes base [src] = Inr (merged, sources)"
    and config: "set_identity axes merged = Inr config"
    and final: "apply_overrides yaml cli_overrides config = Inr (rl_config r)" by (auto elim: resolve_run)
  have "at_path (VDict merged) ks = Some v" by (rule merge_axes_keep [OF merged assms(6,3)])
  then have "at_path (VDict config) ks = Some v" using set_identity_keep [OF config assms(4,5)] by simp
  then show ?thesis by (rule overrides_keep [OF final assms(7)])
qed

text \<open>An override sets its path, unless a later one says something about it.\<close>

lemma override_applies:
  assumes "resolve_verpo_launch files sha repr yaml hash axes (before @ e # after) = Inr r"
    and "list_all (\<lambda>e'. override_path e' \<parallel> override_path e) after"
  shows "\<exists>raw v. snd (split_char (CHR ''='') e) = Some raw \<and> yaml raw = Inr v
    \<and> at_path (VDict (rl_config r)) (override_path e) = Some v"
proof -
  from assms(1) obtain config where "apply_overrides yaml (before @ e # after) config = Inr (rl_config r)" by (rule resolve_run)
  then obtain c1 where c1: "apply_overrides yaml (e # after) c1 = Inr (rl_config r)"
    by (induction before arbitrary: config) (auto split: if_splits)
  then obtain c2 where c2: "set_dotted yaml c1 e = Inr c2" "apply_overrides yaml after c2 = Inr (rl_config r)"
    by (auto split: if_splits)
  have "override_path e \<noteq> []" by (subst override_path_def, subst split_on.simps) (simp split: option.splits)
  with set_dotted_result [OF c2(1)] show ?thesis
    using set_path_same overrides_keep [OF c2(2) assms(2)] by (metis (no_types))
qed

text \<open>The identity names the axes.\<close>

lemma identity_applies:
  assumes "resolve_verpo_launch files sha repr yaml hash axes cli_overrides = Inr r"
    and "distinct (map fst axes)" and "(kind, Some ident) \<in> set axes"
    and "list_all (\<lambda>e. override_path e \<parallel> [''identity'', kind]) cli_overrides"
  shows "at_path (VDict (rl_config r)) [''identity'', kind] = Some (VStr ident)"
proof -
  from assms(1) obtain merged config where config: "set_identity axes merged = Inr config"
    and final: "apply_overrides yaml cli_overrides config = Inr (rl_config r)" by (rule resolve_run)
  define names where "names = map (\<lambda>(kind, v). (kind, case v of None \<Rightarrow> VNone | Some s \<Rightarrow> VStr s)) axes"
  have d: "distinct (map fst names)" using assms(2) by (simp add: names_def comp_def split_def)
  have "map_of names kind = Some (VStr ident)"
    by (rule map_of_is_SomeI [OF d]) (use assms(3) in \<open>force simp: names_def\<close>)
  then have "at_path (VDict config) [''identity'', kind] = Some (VStr ident)"
    using config map_of_rev_distinct [OF d]
    by (auto simp: set_identity_def Let_def map_of_update map_of_dict_update map_add_def
        simp flip: names_def split: option.splits val.splits)
  then show ?thesis by (rule overrides_keep [OF final assms(4)])
qed

text \<open>C16: Later documents win over earlier ones, and a merge loses nothing else. Outside the section
  \<open>identity\<close>, a leaf of the overlay of an axis is the value of the resolved configuration, unless a
  later axis or an override says something about its path, and so is every value of the base document
  about whose path no axis and no override says anything. An override always wins over the documents:
  its path holds the parsed value, unless a later override says something about it. In the section
  \<open>identity\<close> the name of every axis replaces what the documents say, and only an override can
  replace it.\<close>

theorem launch_precedence:
  assumes run: "resolve_verpo_launch files sha repr yaml hash axes cli_overrides = Inr r"
  shows "(\<forall>before kind ident after overlay src ks v. axes = before @ (kind, Some ident) # after
        \<and> load_overlay files sha kind ident = Inr (overlay, src) \<and> wf_val (VDict overlay)
        \<and> at_path (VDict overlay) ks = Some v \<and> is_leaf v \<and> ks \<noteq> [] \<and> hd ks \<noteq> ''identity''
        \<and> quiet files sha ks after \<and> list_all (\<lambda>e. override_path e \<parallel> ks) cli_overrides
        \<longrightarrow> at_path (VDict (rl_config r)) ks = Some v)
    \<and> (\<forall>base src ks v. load_defaults files sha repr = Inr (base, src) \<and> at_path (VDict base) ks = Some v
        \<and> ks \<noteq> [] \<and> hd ks \<noteq> ''identity'' \<and> quiet files sha ks axes \<and> list_all (\<lambda>e. override_path e \<parallel> ks) cli_overrides
        \<longrightarrow> at_path (VDict (rl_config r)) ks = Some v)
    \<and> (\<forall>before e after. cli_overrides = before @ e # after \<and> list_all (\<lambda>e'. override_path e' \<parallel> override_path e) after
        \<longrightarrow> (\<exists>raw v. snd (split_char (CHR ''='') e) = Some raw \<and> yaml raw = Inr v
              \<and> at_path (VDict (rl_config r)) (override_path e) = Some v))
    \<and> (\<forall>kind ident. distinct (map fst axes) \<and> (kind, Some ident) \<in> set axes
        \<and> list_all (\<lambda>e. override_path e \<parallel> [''identity'', kind]) cli_overrides
        \<longrightarrow> at_path (VDict (rl_config r)) [''identity'', kind] = Some (VStr ident))"
proof (intro conjI allI impI; elim conjE)
  fix before kind ident after overlay src ks v
  assume "axes = before @ (kind, Some ident) # after"
  from overlay_applies [OF run [unfolded this]] show "at_path (VDict (rl_config r)) ks = Some v"
    if "load_overlay files sha kind ident = Inr (overlay, src)" "wf_val (VDict overlay)"
      "at_path (VDict overlay) ks = Some v" "is_leaf v" "ks \<noteq> []" "hd ks \<noteq> ''identity''"
      "quiet files sha ks after" "list_all (\<lambda>e. override_path e \<parallel> ks) cli_overrides"
    using that by blast
next
  fix before e after
  assume "cli_overrides = before @ e # after"
  from override_applies [OF run [unfolded this]] show "\<exists>raw v. snd (split_char (CHR ''='') e) = Some raw \<and> yaml raw = Inr v
      \<and> at_path (VDict (rl_config r)) (override_path e) = Some v"
    if "list_all (\<lambda>e'. override_path e' \<parallel> override_path e) after" using that by blast
qed (blast intro: base_applies [OF run] identity_applies [OF run])+

section \<open>What validation guarantees\<close>

lemma reject_Inr [simp]: "reject bad message = Inr u \<longleftrightarrow> \<not> bad"
  by (simp add: reject_def)

lemma py_mod_Inr [simp]: "py_mod a b = Inr m \<longleftrightarrow> b \<noteq> 0 \<and> m = a mod b"
  by (auto simp: py_mod_def)

lemma pf_neq_same: "\<not> pf_neq x y \<Longrightarrow> x = y"
  by (cases x; cases y) auto

lemma rmap_units: "rmap f xs = Inr ys \<Longrightarrow> x \<in> set xs \<Longrightarrow> \<exists>y. f x = Inr y"
  using rmap_nth [of f xs ys] by (auto simp: in_set_conv_nth)

definition batch_plan :: "dict \<Rightarrow> int \<Rightarrow> int \<Rightarrow> int \<Rightarrow> int \<Rightarrow> bool" where
  "batch_plan c prompts n mini gpus \<longleftrightarrow>
     int_item (section_of c ''protocol'') ''global_prompt_batch'' = Inr prompts
     \<and> int_item (section_of c ''protocol'') ''rollout_n'' = Inr n
     \<and> int_item (section_of c ''protocol'') ''mini_batch_trajectories'' = Inr mini
     \<and> int_item (section_of c ''hardware'') ''gpu_count'' = Inr gpus"

lemma check_protocol_batch:
  assumes "check_protocol repr c = Inr ()"
  shows "\<exists>prompts n mini gpus. batch_plan c prompts n mini gpus \<and> 0 < prompts \<and> 0 < n \<and> 0 < mini \<and> 0 < gpus
    \<and> n dvd mini \<and> mini dvd prompts * n \<and> gpus dvd prompts"
proof -
  let ?protocol = "section_of c ''protocol''" and ?hardware = "section_of c ''hardware''"
  from assms obtain us prompts n mini gpus g where
    us: "rmap (\<lambda>key. rbind (int_item ?protocol key) (\<lambda>n. reject (n \<le> 0) ''protocol key must be positive'')) positive_keys = Inr us"
    and items: "int_item ?protocol ''mini_batch_trajectories'' = Inr mini" "int_item ?protocol ''rollout_n'' = Inr n"
      "int_item ?protocol ''global_prompt_batch'' = Inr prompts" "int_item ?hardware ''gpu_count'' = Inr gpus"
    and dv: "mini mod n = 0" "prompts * n mod mini = 0" "prompts mod gpus = 0" "mini \<noteq> 0" "n \<noteq> 0" "gpus \<noteq> 0"
    and pos: "0 < prompts" "0 < n" and g: "to_int (dget ?hardware ''gpu_count'' (VInt 1)) = Inr g" "0 < g"
    unfolding check_protocol_def Let_def rbind_Inr_iff reject_Inr py_mod_Inr by force
  have "''mini_batch_trajectories'' \<in> set positive_keys" by (simp add: positive_keys_def)
  from rmap_units [OF us this] have "0 < mini" using items(1) by (auto simp: reject_def split: if_splits)
  moreover have "gpus = g"
    using g(1) items(4) by (auto simp: int_item_def dict_item_def dget_def split: option.splits)
  ultimately show ?thesis using items dv pos g(2) unfolding batch_plan_def by (blast intro: mod_0_imp_dvd)
qed

lemma check_scopes_facts:
  assumes "check_scopes c = Inr ()"
  shows "dget (section_of c ''method'') ''evidence_source'' VNone = VStr ''rollout_group''"
    "dget (section_of c ''zpd'') ''sibling_selection'' VNone = VStr ''correctness''"
    "\<not> truthy (dget (section_of c ''audit'') ''gradient_enabled'' VNone)"
    "list_all (\<lambda>(key, v). val_eq (dget (section_of c ''reward'') key VNone) v) expected_reward"
  using assms unfolding check_scopes_def Let_def rbind_Inr_iff reject_Inr
  by (auto simp: list_all_iff list_ex_iff)

text \<open>C15: A resolved launch has a consistent batch plan: prompts, rollouts, mini-batches and GPUs are
  positive, every mini-batch holds whole prompt groups, the batch is a whole number of mini-batches,
  and the prompts are shared evenly by the GPUs. The training and the rollout temperature agree, the
  evidence comes from sibling rollouts selected by correctness, the gradient audit is off, the rewards
  are the registered ones, the protocol and the teacher were given, and with the VERPO objective the
  method and teacher sections are controls that \<open>VERPOConfig\<close> accepts.\<close>

theorem launch_validated:
  assumes "resolve_verpo_launch files sha repr yaml hash (launch_axes model finetuning hardware protocol teacher arm) cli_overrides = Inr r"
  shows "let c = rl_config r; method = section_of c ''method'' in
    (\<exists>prompts n mini gpus. batch_plan c prompts n mini gpus \<and> 0 < prompts \<and> 0 < n \<and> 0 < mini \<and> 0 < gpus
      \<and> n dvd mini \<and> mini dvd prompts * n \<and> gpus dvd prompts)
    \<and> (\<exists>t. float_item method ''temperature'' = Inr t \<and> float_item (section_of c ''protocol'') ''rollout_temperature'' = Inr t)
    \<and> dget method ''evidence_source'' VNone = VStr ''rollout_group''
    \<and> dget (section_of c ''zpd'') ''sibling_selection'' VNone = VStr ''correctness''
    \<and> \<not> truthy (dget (section_of c ''audit'') ''gradient_enabled'' VNone)
    \<and> list_all (\<lambda>(key, v). val_eq (dget (section_of c ''reward'') key VNone) v) expected_reward
    \<and> protocol \<noteq> None \<and> teacher \<noteq> None
    \<and> (to_str repr (dget method ''objective'' (VStr ''verpo'')) = ''verpo''
        \<longrightarrow> (\<exists>V. controls_of repr method (section_of c ''teacher'') = Inr V \<and> verpo_post_init V = Inr ()))"
proof -
  let ?c = "rl_config r"
  from assms obtain base source merged sources where
    merged: "merge_axes files sha (launch_axes model finetuning hardware protocol teacher arm) base [source] = Inr (merged, sources)"
    and valid: "validate_launch repr ?c = Inr ()" by (rule resolve_run)
  from valid have "check_method repr ?c = Inr ()" and scopes: "check_scopes ?c = Inr ()" and proto: "check_protocol repr ?c = Inr ()"
    by (auto simp: validate_launch_def)
  then have controls: "to_str repr (dget (section_of ?c ''method'') ''objective'' (VStr ''verpo'')) = ''verpo''
      \<longrightarrow> (\<exists>V. controls_of repr (section_of ?c ''method'') (section_of ?c ''teacher'') = Inr V \<and> verpo_post_init V = Inr ())"
    by (auto simp: check_method_def Let_def)
  from proto obtain t t' where "float_item (section_of ?c ''method'') ''temperature'' = Inr t"
    "float_item (section_of ?c ''protocol'') ''rollout_temperature'' = Inr t'" "\<not> pf_neq t t'"
    unfolding check_protocol_def Let_def rbind_Inr_iff reject_Inr by blast
  then have temp: "\<exists>t. float_item (section_of ?c ''method'') ''temperature'' = Inr t
      \<and> float_item (section_of ?c ''protocol'') ''rollout_temperature'' = Inr t" using pf_neq_same by blast
  have given: "protocol \<noteq> None \<and> teacher \<noteq> None"
    using merged by (cases protocol; cases teacher) (auto simp: launch_axes_def)
  show ?thesis unfolding Let_def
    using check_protocol_batch [OF proto] temp check_scopes_facts [OF scopes] given controls by blast
qed

section \<open>The actor's configuration\<close>

text \<open>The VERPO section the native engine receives for controls the launcher accepted: the public defaults
  with the fields the controls set.\<close>

definition port_config :: "verpo_controls \<Rightarrow> zpd_config" where
  "port_config V = default_zpd_config\<lparr>zc_enabled := True, zc_teacher_mode := vc_teacher_mode V,
     zc_teacher_sync_interval := vc_teacher_sync_interval V, zc_teacher_ema_decay := vc_teacher_ema_decay V,
     zc_divergence := vc_divergence V, zc_displacement_mode := vc_displacement_mode V,
     zc_evidence_source := vc_evidence_source V, zc_group_zpd_mode := ''reward_ranked'',
     zc_sibling_selection_mode := ''correctness'', zc_lambda_ref := vc_lambda_ref V, zc_lambda_evi := vc_lambda_evi V,
     zc_cost_alpha := Some (vc_cost_alpha V), zc_cost_epsilon := Some (vc_cost_epsilon V),
     zc_vocab_mode := vc_vocab_mode V, zc_top_k := vc_top_k V\<rparr>"

lemma pf_neg_real: "isfinite x \<Longrightarrow> \<not> pf_neg x \<longleftrightarrow> 0 \<le> the_real x" "isfinite x \<Longrightarrow> \<not> pf_nonpos x \<longleftrightarrow> 0 < the_real x"
proof -
  show "isfinite x \<Longrightarrow> \<not> pf_neg x \<longleftrightarrow> 0 \<le> the_real x" by (cases x) auto
  show "isfinite x \<Longrightarrow> \<not> pf_nonpos x \<longleftrightarrow> 0 < the_real x" by (cases x) auto
qed

text \<open>Controls with finite coefficients that the launcher accepts are accepted by the actor's
  configuration exactly when the displacement is not the reward-ranked one: the launcher insists on
  siblings selected by correctness, which the actor refuses for that displacement.\<close>

theorem launch_port_agreement:
  assumes "verpo_post_init V = Inr ()" and "list_all isfinite [vc_lambda_ref V, vc_lambda_evi V, vc_cost_alpha V, vc_cost_epsilon V]"
  shows "(\<exists>C. zpd_post_init (port_config V) = Inr C) \<longleftrightarrow> vc_displacement_mode V \<noteq> ''reward_ranked''"
proof -
  have fin: "isfinite (vc_lambda_ref V)" "isfinite (vc_lambda_evi V)" "isfinite (vc_cost_alpha V)" "isfinite (vc_cost_epsilon V)"
    using assms(2) by simp_all
  have guards: "vc_evidence_source V = ''rollout_group''" "vc_divergence V \<in> {''forward_kl'', ''reverse_kl''}"
    "vc_displacement_mode V \<in> {''evidence_vs_none'', ''correct_vs_incorrect'', ''reward_ranked'', ''fec''}"
    "vc_teacher_mode V \<in> {''fixed_initial'', ''snapshot'', ''ema''}" "0 < vc_teacher_sync_interval V"
    "in_unit_interval (vc_teacher_ema_decay V)" "vc_vocab_mode V \<in> {''full'', ''topk_truncated''}" "0 < vc_top_k V"
    "\<not> pf_neg (vc_lambda_ref V)" "\<not> pf_neg (vc_lambda_evi V)" "\<not> pf_neg (vc_cost_alpha V)" "\<not> pf_nonpos (vc_cost_epsilon V)"
    using assms(1) unfolding verpo_post_init_def controls_guards_def first_error_Inr by simp_all
  have mode: "teacher_mode_of (vc_teacher_mode V) \<in> {''fixed_initial'', ''snapshot'', ''ema''}"
    using guards(4) by (auto simp: teacher_mode_of_def lower_def lower_char_def strip_def is_space_def Let_def)
  have real: "0 \<le> the_real (vc_lambda_ref V)" "0 \<le> the_real (vc_lambda_evi V)" "0 \<le> the_real (vc_cost_alpha V)"
    "0 < the_real (vc_cost_epsilon V)"
    using pf_neg_real fin guards(9-12) by blast+
  have "first_error (teacher_guards (port_config V)) = Inr ()"
    unfolding teacher_guards_def first_error_Inr using mode guards(5,6) by (simp add: port_config_def)
  moreover have "effective_cost (port_config V) = Inr (vc_cost_alpha V, vc_cost_epsilon V)"
    by (simp add: effective_cost_def port_config_def)
  moreover have "first_error (mode_guards (port_config V) (vc_cost_alpha V) (vc_cost_epsilon V)) = Inr ()
      \<longleftrightarrow> vc_displacement_mode V \<noteq> ''reward_ranked''"
    unfolding mode_guards_def first_error_Inr reward_ranked_siblings_def
    using guards(2,3) real fin by (auto simp: port_config_def default_zpd_config_def)
  moreover have "first_error (limit_guards (port_config V)) = Inr ()"
    unfolding limit_guards_def first_error_Inr using guards(7,8) real by (auto simp: port_config_def default_zpd_config_def)
  ultimately show ?thesis using guards(1) by (simp add: zpd_post_init_def port_config_def default_zpd_config_def)
qed

theorem launch_port_agreement_witness:
  "\<nexists>C. zpd_post_init (port_config \<lparr>vc_evidence_source = ''rollout_group'', vc_divergence = ''forward_kl'',
     vc_displacement_mode = ''reward_ranked'', vc_lambda_ref = Fin 0, vc_lambda_evi = Fin 1, vc_teacher_mode = ''ema'',
     vc_teacher_sync_interval = 10, vc_teacher_ema_decay = Fin (1/2), vc_vocab_mode = ''full'', vc_top_k = 1,
     vc_cost_alpha = Fin 0, vc_cost_epsilon = Fin 1\<rparr>) = Inr C"
  by (subst launch_port_agreement) (simp_all add: verpo_post_init_def controls_guards_def in_unit_interval_def)

section \<open>The environment of the engine\<close>

lemma foldl_update_lookup:
  assumes "\<forall>e \<in> set es. \<forall>w. (k, w) \<in> set e \<longrightarrow> w = v"
  shows "map_of (foldl dict_update d es) k = (if \<exists>e \<in> set es. k \<in> fst ` set e then Some v else map_of d k)"
  using assms
proof (induction es arbitrary: d)
  case (Cons e es)
  have e: "map_of (rev e) k = (if k \<in> fst ` set e then Some v else None)"
  proof (cases "map_of (rev e) k")
    case None
    then show ?thesis by (simp add: map_of_eq_None_iff)
  next
    case (Some w)
    then have "(k, w) \<in> set e" by (metis map_of_SomeD set_rev)
    then show ?thesis using Some Cons.prems by force
  qed
  show ?case using Cons by (auto simp: map_of_dict_update map_add_def e)
qed simp

definition flat_fields :: "(string \<times> string \<times> string) list" where
  "flat_fields = concat (map (\<lambda>(name, pairs). map (\<lambda>(key, var). (var, name, key)) pairs) engine_fields)"

lemma distinct_variables: "distinct (map fst flat_fields)"
  by code_simp

lemma variable_unique:
  assumes "(name, pairs) \<in> set engine_fields" "(key, var) \<in> set pairs"
    and "(name', pairs') \<in> set engine_fields" "(key', var) \<in> set pairs'"
  shows "name' = name \<and> key' = key"
proof -
  have "(var, name, key) \<in> set flat_fields" "(var, name', key') \<in> set flat_fields"
    using assms unfolding flat_fields_def by force+
  moreover have "inj_on fst (set flat_fields)" using distinct_variables by (simp add: distinct_map)
  ultimately have "(var, name, key) = (var, name', key')" by (metis fst_conv inj_onD)
  then show ?thesis by simp
qed

lemma later_variables:
  assumes "(name, pairs) \<in> set engine_fields" "(key, var) \<in> set pairs" "var \<noteq> ''LORA_RANK''"
  shows "''VERPO_'' @ var \<notin> {''QWEN3_TRAINING_OBJECTIVE'', ''VERPO_EXPERIMENT_ID'', ''VERPO_PROJECT_NAME'',
    ''PAPER_BASELINE_ENABLED'', ''PAPER_BASELINE_OBJECTIVE'', ''PAPER_BASELINE_PROMPT_PROFILE'', ''PAPER_BASELINE_EMA_DECAY'',
    ''VERPO_LORA_RANK''}"
proof -
  have "list_all (\<lambda>(var, _). var \<noteq> ''EXPERIMENT_ID'' \<and> var \<noteq> ''PROJECT_NAME'') flat_fields" by code_simp
  moreover have "(var, name, key) \<in> set flat_fields" using assms unfolding flat_fields_def by force
  ultimately show ?thesis using assms(3) by (auto simp: list_all_iff)
qed

lemma map_of_render: "map_of (map (\<lambda>(k, v). (k, f v)) d) k = map_option f (map_of d k)"
  by (induction d) auto

text \<open>A variable of the engine carries the configured value of the one field it stands for, and is absent
  when the field is: no two fields share a variable, and nothing but the LoRA rank is replaced.\<close>

theorem engine_environment:
  assumes "beta_engine_environment repr config = Inr env"
    and "(name, pairs) \<in> set engine_fields" and "(key, var) \<in> set pairs" and "var \<noteq> ''LORA_RANK''"
  shows "map_of env (''VERPO_'' @ var) = map_option (render_value repr) (map_of (section_of config name) key)"
proof -
  let ?k = "''VERPO_'' @ var" and ?x = "map_of (section_of config name) key"
  from assms(1) obtain vals extra where vals: "rmap (field_values config) engine_fields = Inr vals"
    and env: "env = map (\<lambda>(k, v). (k, render_value repr v)) (dict_update (foldl dict_update [] vals) extra)"
    and extra: "map fst extra = [''QWEN3_TRAINING_OBJECTIVE'', ''VERPO_EXPERIMENT_ID'', ''VERPO_PROJECT_NAME'',
      ''PAPER_BASELINE_ENABLED'', ''PAPER_BASELINE_OBJECTIVE'', ''PAPER_BASELINE_PROMPT_PROFILE'', ''PAPER_BASELINE_EMA_DECAY'',
      ''VERPO_LORA_RANK'']"
    unfolding beta_engine_environment_def Let_def rbind_Inr_iff sum.inject
    apply (elim exE conjE)
    apply (rule that)
      apply assumption
     apply (erule sym)
    apply simp
    done
  have "?k \<notin> fst ` set (rev extra)" 
  proof -
    have "fst ` set (rev extra) = set (map fst extra)" by simp
    then show ?thesis using later_variables [OF assms(2-4)] unfolding extra by simp
  qed
  then have lookup: "map_of (dict_update (foldl dict_update [] vals) extra) ?k = map_of (foldl dict_update [] vals) ?k"
    by (simp add: map_of_dict_update map_add_def map_of_eq_None_iff [THEN iffD2])
  have entry: "\<exists>d. map_of config n = Some (VDict d) \<and> vals ! i
      = List.map_filter (\<lambda>(key, var). map_option (\<lambda>x. (''VERPO_'' @ var, x)) (map_of d key)) ps"
    if "i < length engine_fields" "engine_fields ! i = (n, ps)" for i n ps
  proof -
    have "field_values config (n, ps) = Inr (vals ! i)" using rmap_nth [OF vals] that by metis
    then obtain u where "map_of config n = Some u" and u: "(case as_dict u of None \<Rightarrow> Inl (TypeError ''argument is not iterable'')
        | Some d \<Rightarrow> Inr (List.map_filter (\<lambda>(key, var). map_option (\<lambda>x. (''VERPO_'' @ var, x)) (map_of d key)) ps)) = Inr (vals ! i)"
      by (auto simp: field_values_def dict_item_def split: option.splits)
    then show ?thesis by (cases u) auto
  qed
  have all: "w = the ?x \<and> ?x \<noteq> None" if "e \<in> set vals" "(?k, w) \<in> set e" for e w
  proof -
    from that obtain i where i: "i < length engine_fields" "vals ! i = e" using rmap_nth [OF vals] by (metis in_set_conv_nth)
    obtain n ps where nps: "engine_fields ! i = (n, ps)" by fastforce
    from entry [OF i(1) nps] that i(2) obtain d key' where d: "map_of config n = Some (VDict d)"
      and key': "(key', var) \<in> set ps" "map_of d key' = Some w"
      by (auto simp: map_filter_def)
    have "(n, ps) \<in> set engine_fields" using i(1) nps nth_mem by metis
    from variable_unique [OF assms(2,3) this key'(1)] show ?thesis using d key'(2) by (simp add: section_of_def)
  qed
  have some: "\<exists>e \<in> set vals. ?k \<in> fst ` set e" if x: "?x = Some x" for x
  proof -
    from assms(2) obtain i where i: "i < length engine_fields" "engine_fields ! i = (name, pairs)" by (metis in_set_conv_nth)
    from entry [OF i] obtain d where d: "map_of config name = Some (VDict d)"
      and e: "vals ! i = List.map_filter (\<lambda>(key, var). map_option (\<lambda>x. (''VERPO_'' @ var, x)) (map_of d key)) pairs" by blast
    have "(?k, x) \<in> set (vals ! i)" using assms(3) x d unfolding e by (force simp: map_filter_def section_of_def)
    moreover have "vals ! i \<in> set vals" using rmap_nth [OF vals] i(1) by simp
    ultimately show ?thesis by force
  qed
  have "map_of (foldl dict_update [] vals) ?k = ?x"
    using foldl_update_lookup [of vals ?k "the ?x" "[]"] all some by (cases ?x) force+
  then show ?thesis unfolding env map_of_render lookup by (rule arg_cong)
qed

section \<open>A sample launch\<close>

definition sample_base :: dict where
  "sample_base =
     [(''identity'', VDict []), (''model'', VDict [(''prompt_template_version'', VStr ''v2'')]), (''finetuning'', VDict [(''mode'', VStr ''full'')]),
      (''hardware'', VDict [(''gpu_count'', VInt 2), (''vllm_gpu_memory_utilization'', VFloat (Fin (1/2)))]),
      (''protocol'', VDict [(''rollout_temperature'', VFloat (Fin 1)), (''total_training_steps'', VInt 7), (''rollout_n'', VInt 2),
        (''mini_batch_trajectories'', VInt 4), (''max_prompt_length'', VInt 9), (''max_response_length'', VInt 9),
        (''global_prompt_batch'', VInt 4), (''project_name'', VStr ''p'')]),
      (''teacher'', VDict [(''ema_decay'', VFloat (Fin (1/2)))]),
      (''method'', VDict [(''objective'', VStr ''verpo''), (''evidence_source'', VStr ''rollout_group''), (''temperature'', VInt 1)]),
      (''zpd'', VDict [(''sibling_selection'', VStr ''correctness''), (''evidence_scope'', VStr ''all'')]),
      (''reward'', VDict expected_reward), (''audit'', VDict []), (''runtime'', VDict [])]"

definition sample_document :: "string \<Rightarrow> string \<Rightarrow> dict \<Rightarrow> string \<times> val" where
  "sample_document kind ident config =
     (overlay_path kind ident, VDict [(''kind'', VStr kind), (''id'', VStr ident), (''config'', VDict config)])"

definition sample_files :: "string \<Rightarrow> val option" where
  "sample_files = map_of ((''base.yaml'', VDict [(''config'', VDict sample_base)]) # map (\<lambda>(kind, ident, config). sample_document kind ident config)
     [(''model'', ''m'', []), (''finetuning'', ''full'', []), (''hardware'', ''h'', []), (''protocol'', ''p'', []), (''teacher'', ''t'', []),
      (''arm'', ''a'', [(''method'', VDict [(''lambda_evi'', VInt 1)])])])"

abbreviation sample_axes :: "(string \<times> string option) list" where
  "sample_axes \<equiv> launch_axes ''m'' ''full'' ''h'' (Some ''p'') (Some ''t'') ''a''"

lemma sample_paths:
  "overlay_path ''model'' ''m'' = ''models/m.yaml''" "overlay_path ''finetuning'' ''full'' = ''finetuning/full.yaml''"
  "overlay_path ''hardware'' ''h'' = ''hardware/h.yaml''" "overlay_path ''protocol'' ''p'' = ''protocols/p.yaml''"
  "overlay_path ''teacher'' ''t'' = ''teachers/t.yaml''" "overlay_path ''arm'' ''a'' = ''arms/a.yaml''"
  by (simp_all add: overlay_path_def)

lemma sample_overlays:
  "\<exists>s. load_overlay sample_files (\<lambda>_. []) ''model'' ''m'' = Inr ([], s)"
  "\<exists>s. load_overlay sample_files (\<lambda>_. []) ''finetuning'' ''full'' = Inr ([], s)"
  "\<exists>s. load_overlay sample_files (\<lambda>_. []) ''hardware'' ''h'' = Inr ([], s)"
  "\<exists>s. load_overlay sample_files (\<lambda>_. []) ''protocol'' ''p'' = Inr ([], s)"
  "\<exists>s. load_overlay sample_files (\<lambda>_. []) ''teacher'' ''t'' = Inr ([], s)"
  "\<exists>s. load_overlay sample_files (\<lambda>_. []) ''arm'' ''a'' = Inr ([(''method'', VDict [(''lambda_evi'', VInt 1)])], s)"
  by (simp_all add: load_overlay_def sample_paths sample_files_def sample_document_def document_of_def dget_def lower_def
      lower_char_def Let_def)

definition sample_launch_config :: dict where
  "sample_launch_config = AList.update ''identity'' (VDict [(''model'', VStr ''m''), (''finetuning'', VStr ''full''), (''hardware'', VStr ''h''),
       (''protocol'', VStr ''p''), (''teacher'', VStr ''t''), (''arm'', VStr ''a'')])
     (deep_merge sample_base [(''method'', VDict [(''lambda_evi'', VInt 1)])])"

lemma sample_sections:
  "section_of sample_launch_config ''identity'' = [(''model'', VStr ''m''), (''finetuning'', VStr ''full''), (''hardware'', VStr ''h''),
       (''protocol'', VStr ''p''), (''teacher'', VStr ''t''), (''arm'', VStr ''a'')]"
  "section_of sample_launch_config ''model'' = [(''prompt_template_version'', VStr ''v2'')]"
  "section_of sample_launch_config ''finetuning'' = [(''mode'', VStr ''full'')]"
  "section_of sample_launch_config ''hardware'' = [(''gpu_count'', VInt 2), (''vllm_gpu_memory_utilization'', VFloat (Fin (1/2)))]"
  "section_of sample_launch_config ''protocol'' = [(''rollout_temperature'', VFloat (Fin 1)), (''total_training_steps'', VInt 7),
     (''rollout_n'', VInt 2), (''mini_batch_trajectories'', VInt 4), (''max_prompt_length'', VInt 9), (''max_response_length'', VInt 9),
     (''global_prompt_batch'', VInt 4), (''project_name'', VStr ''p'')]"
  "section_of sample_launch_config ''teacher'' = [(''ema_decay'', VFloat (Fin (1/2)))]"
  "section_of sample_launch_config ''method'' = [(''objective'', VStr ''verpo''), (''evidence_source'', VStr ''rollout_group''),
     (''temperature'', VInt 1), (''lambda_evi'', VInt 1)]"
  "section_of sample_launch_config ''zpd'' = [(''sibling_selection'', VStr ''correctness''), (''evidence_scope'', VStr ''all'')]"
  "section_of sample_launch_config ''reward'' = expected_reward"
  "section_of sample_launch_config ''audit'' = []"
  by (simp_all add: sample_launch_config_def sample_base_def section_of_def)

lemma sample_valid: "validate_launch (\<lambda>_. []) sample_launch_config = Inr ()"
proof -
  have "check_sections sample_launch_config = Inr ()"
    unfolding check_sections_def sample_sections
    by (simp add: sample_launch_config_def sample_base_def expected_reward_def allowed_sections_def required_sections_def identity_keys_def dget_def)
  moreover have "check_method (\<lambda>_. []) sample_launch_config = Inr ()"
    unfolding check_method_def sample_sections
    by (simp add: dget_def controls_of_def Let_def verpo_post_init_def controls_guards_def in_unit_interval_def)
  moreover have "check_scopes sample_launch_config = Inr ()"
    unfolding check_scopes_def sample_sections
    by (simp add: dget_def dict_item_def reject_def expected_reward_def Let_def)
  moreover have "check_protocol (\<lambda>_. []) sample_launch_config = Inr ()"
    unfolding check_protocol_def sample_sections
    by (simp add: dget_def dict_item_def reject_def float_item_def int_item_def py_mod_def positive_keys_def Let_def)
  ultimately show ?thesis by (simp add: validate_launch_def)
qed

lemma sample_resolves:
  "\<exists>r. resolve_verpo_launch sample_files (\<lambda>_. []) (\<lambda>_. []) (\<lambda>_. Inr VNone) (\<lambda>_. []) sample_axes [] = Inr r \<and> rl_config r = sample_launch_config"
proof -
  have "\<exists>s. load_defaults sample_files (\<lambda>_. []) (\<lambda>_. []) = Inr (sample_base, s)"
    by (simp add: load_defaults_def sample_files_def document_of_def dget_def)
  moreover have "\<exists>srcs. merge_axes sample_files (\<lambda>_. []) sample_axes sample_base [s]
      = Inr (deep_merge sample_base [(''method'', VDict [(''lambda_evi'', VInt 1)])], srcs)" for s
    using sample_overlays by (auto simp: launch_axes_def simp del: deep_merge.simps(2,3))
  moreover have "set_identity sample_axes (deep_merge sample_base [(''method'', VDict [(''lambda_evi'', VInt 1)])]) = Inr sample_launch_config"
    by (simp add: set_identity_def launch_axes_def sample_launch_config_def sample_base_def dict_update_def Let_def)
  ultimately show ?thesis using sample_valid by (fastforce simp: resolve_verpo_launch_def)
qed

text \<open>The arm's value overridden by the same one.\<close>

lemma sample_overridden:
  "\<exists>r. resolve_verpo_launch sample_files (\<lambda>_. []) (\<lambda>_. []) (\<lambda>_. Inr (VInt 1)) (\<lambda>_. []) sample_axes [''method.lambda_evi=1''] = Inr r"
proof -
  obtain r where "resolve_verpo_launch sample_files (\<lambda>_. []) (\<lambda>_. []) (\<lambda>_. Inr VNone) (\<lambda>_. []) sample_axes [] = Inr r"
    "rl_config r = sample_launch_config" using sample_resolves by blast
  moreover have "apply_overrides (\<lambda>_. Inr (VInt 1)) [''method.lambda_evi=1''] sample_launch_config = Inr sample_launch_config"
    by (simp add: set_dotted_def split_char_def sample_launch_config_def sample_base_def split_on.simps lower_def lower_char_def Let_def)
  ultimately show ?thesis unfolding resolve_verpo_launch_def by (auto simp del: apply_overrides.simps(2))
qed

theorem launch_precedence_witness:
  "\<exists>r. resolve_verpo_launch sample_files (\<lambda>_. []) (\<lambda>_. []) (\<lambda>_. Inr (VInt 1)) (\<lambda>_. []) sample_axes [''method.lambda_evi=1''] = Inr r
    \<and> at_path (VDict (rl_config r)) [''method'', ''lambda_evi''] = Some (VInt 1)
    \<and> at_path (VDict (rl_config r)) [''hardware'', ''gpu_count''] = Some (VInt 2)
    \<and> at_path (VDict (rl_config r)) [''identity'', ''arm''] = Some (VStr ''a'')"
proof -
  obtain r where r: "resolve_verpo_launch sample_files (\<lambda>_. []) (\<lambda>_. []) (\<lambda>_. Inr (VInt 1)) (\<lambda>_. []) sample_axes
      [''method.lambda_evi=1''] = Inr r" using sample_overridden by blast
  note P = launch_precedence [OF r]
  have path: "override_path ''method.lambda_evi=1'' = [''method'', ''lambda_evi'']"
    by (simp add: override_path_def split_char_def split_on.simps)
  obtain s where base: "load_defaults sample_files (\<lambda>_. []) (\<lambda>_. []) = Inr (sample_base, s)"
    by (simp add: load_defaults_def sample_files_def document_of_def dget_def)
  have par: "list_all (\<lambda>e. override_path e \<parallel> ks) [''method.lambda_evi=1'']" if "hd ks \<noteq> ''method''" "ks \<noteq> []" for ks
    using that by (cases ks) (simp_all add: path parallel_def)
  have "at_path (VDict sample_base) [''hardware'', ''gpu_count''] = Some (VInt 2)" by (simp add: sample_base_def)
  moreover have "quiet sample_files (\<lambda>_. []) [''hardware'', ''gpu_count''] sample_axes"
    using sample_overlays by (auto simp: quiet_def launch_axes_def)
  ultimately have "at_path (VDict (rl_config r)) [''hardware'', ''gpu_count''] = Some (VInt 2)"
    by (intro conjunct1 [OF conjunct2 [OF P], rule_format, of sample_base s] conjI base par) simp_all
  moreover have "at_path (VDict (rl_config r)) [''method'', ''lambda_evi''] = Some (VInt 1)"
    using conjunct1 [OF conjunct2 [OF conjunct2 [OF P]], rule_format, of "[]" "''method.lambda_evi=1''" "[]"] by (simp add: path)
  moreover have "at_path (VDict (rl_config r)) [''identity'', ''arm''] = Some (VStr ''a'')"
    by (intro conjunct2 [OF conjunct2 [OF conjunct2 [OF P]], rule_format] conjI par) (simp_all add: launch_axes_def)
  ultimately show ?thesis using r by blast
qed

theorem launch_validated_witness:
  "\<exists>r prompts n mini gpus. resolve_verpo_launch sample_files (\<lambda>_. []) (\<lambda>_. []) (\<lambda>_. Inr VNone) (\<lambda>_. []) sample_axes [] = Inr r
    \<and> batch_plan (rl_config r) prompts n mini gpus \<and> n dvd mini \<and> gpus dvd prompts"
proof -
  obtain r where r: "resolve_verpo_launch sample_files (\<lambda>_. []) (\<lambda>_. []) (\<lambda>_. Inr VNone) (\<lambda>_. []) sample_axes [] = Inr r"
    using sample_resolves by blast
  from launch_validated [OF r] show ?thesis using r unfolding Let_def by blast
qed

lemma sample_environment: "\<exists>env. beta_engine_environment (\<lambda>_. []) sample_launch_config = Inr env"
proof -
  have item: "map_of sample_launch_config n = Some (VDict (section_of sample_launch_config n))"
    if "n \<in> {''identity'', ''model'', ''hardware'', ''protocol'', ''method'', ''zpd'', ''teacher'', ''runtime'', ''finetuning''}" for n
    using that by (auto simp: section_of_def sample_launch_config_def sample_base_def)
  have "list_all (\<lambda>(n, ps). n \<in> {''identity'', ''model'', ''hardware'', ''protocol'', ''method'', ''zpd'', ''teacher'', ''runtime'', ''finetuning''})
      engine_fields" by code_simp
  then have known: "\<forall>(n, ps) \<in> set engine_fields. n \<in> {''identity'', ''model'', ''hardware'', ''protocol'', ''method'', ''zpd'', ''teacher'', ''runtime'', ''finetuning''}"
    by (simp only: list_all_iff)
  have "\<exists>vals. rmap (field_values sample_launch_config) es = Inr vals" if "set es \<subseteq> set engine_fields" for es
    using that
  proof (induction es)
    case (Cons e es)
    obtain n ps where e: "e = (n, ps)" by fastforce
    have mem: "(n, ps) \<in> set engine_fields" using Cons.prems e by simp
    have "map_of sample_launch_config n = Some (VDict (section_of sample_launch_config n))"
      by (rule item) (use bspec [OF known mem] in simp)
    then have "\<exists>d. field_values sample_launch_config e = Inr d" unfolding e field_values_def by (simp add: dict_item_def)
    moreover obtain vals where "rmap (field_values sample_launch_config) es = Inr vals" using Cons by force
    ultimately show ?case by auto
  qed simp
  then obtain vals where "rmap (field_values sample_launch_config) engine_fields = Inr vals" by blast
  moreover have "dict_item sample_launch_config ''method'' = Inr (VDict (section_of sample_launch_config ''method''))"
    using item [of "''method''"] by (simp add: dict_item_def)
  ultimately show ?thesis unfolding beta_engine_environment_def sample_sections by (simp add: dict_item_def)
qed

theorem engine_environment_witness:
  "\<exists>env. beta_engine_environment (\<lambda>_. []) sample_launch_config = Inr env \<and> map_of env ''VERPO_ROLLOUT_N'' = Some ''2''"
proof -
  obtain env where env: "beta_engine_environment (\<lambda>_. []) sample_launch_config = Inr env" using sample_environment by blast
  obtain pairs where "(''protocol'', pairs) \<in> set engine_fields" "(''rollout_n'', ''ROLLOUT_N'') \<in> set pairs"
    by (simp add: engine_fields_def)
  from engine_environment [OF env this] show ?thesis
    using env by (auto simp: sample_sections render_value_def decimal_of_int_def char_of_def bit_Suc bit_Suc_0_iff)
qed

text \<open>A configuration without \<open>method.objective\<close> is validated as a VERPO launch, but has no environment.\<close>

lemma objective_required:
  assumes "map_of (section_of config ''method'') ''objective'' = None"
  shows "\<nexists>env. beta_engine_environment repr config = Inr env"
  using assms by (simp add: beta_engine_environment_def dict_item_def)

end
