(* ===== verification/EmaTeacher.thy ===== *)
theory EmaTeacher
  imports ActorTeacher TopkSupport PyValue
begin

text \<open>
  The EMA Teacher of the package (\<open>ema_teacher.py\<close>): the update of the shadow, its checkpoint, the
  diagnostics of a token, their aggregation over the routed and the selected tokens, and the drift of
  the shadow from the Student. Tensors are those of \<open>ActorTeacher\<close>; \<open>torch.topk\<close> is an argument. A
  dictionary of token tensors is the list of the records of its positions. A JSON file is the value it
  encodes, and conversions between float types are identities.
\<close>

section \<open>The shadow\<close>

text \<open>A checked decay, then one in-place update per matched name.\<close>

definition ema_decay_ok :: "pyfloat \<Rightarrow> bool" where
  "ema_decay_ok decay \<longleftrightarrow> isfinite decay \<and> 0 \<le> the_real decay \<and> the_real decay \<le> 1"

definition update_ema_shadow :: "tensor_dict \<Rightarrow> tensor_dict \<Rightarrow> pyfloat \<Rightarrow> tensor_dict res" where
  "update_ema_shadow shadow named_parameters decay =
     (if \<not> ema_decay_ok decay then Inl (ValueError ''EMA decay must be in [0, 1]'')
      else Inr (foldl (\<lambda>shadow (name, student_value).
          case map_of shadow name of None \<Rightarrow> shadow
          | Some ema_value \<Rightarrow> AList.update name (ema_tensor (the_real decay) ema_value student_value) shadow)
        shadow named_parameters))"

section \<open>Checkpoints\<close>

record ema_metadata =
  em_ema_decay :: pyfloat
  em_ema_update_count :: int
  em_student_initial_fingerprint :: string
  em_ema_teacher_enabled :: bool
  em_ema_update_after_optimizer_step :: bool
  em_ema_initialization :: string
  em_format_version :: string

definition new_metadata :: "pyfloat \<Rightarrow> int \<Rightarrow> string \<Rightarrow> ema_metadata" where
  "new_metadata decay update_count fp = \<lparr>em_ema_decay = decay, em_ema_update_count = update_count,
     em_student_initial_fingerprint = fp, em_ema_teacher_enabled = True, em_ema_update_after_optimizer_step = True,
     em_ema_initialization = ''student_initial_weights'', em_format_version = ''ema_teacher_checkpoint_v2''\<rparr>"

text \<open>\<open>json.dumps(asdict(metadata))\<close> as the dictionary it encodes.\<close>

definition metadata_dict :: "ema_metadata \<Rightarrow> dict" where
  "metadata_dict m = [(''ema_decay'', VFloat (em_ema_decay m)), (''ema_update_count'', VInt (em_ema_update_count m)),
     (''student_initial_fingerprint'', VStr (em_student_initial_fingerprint m)),
     (''ema_teacher_enabled'', VBool (em_ema_teacher_enabled m)),
     (''ema_update_after_optimizer_step'', VBool (em_ema_update_after_optimizer_step m)),
     (''ema_initialization'', VStr (em_ema_initialization m)), (''format_version'', VStr (em_format_version m))]"

text \<open>What a tensor file holds, and the three files of a directory.\<close>

datatype saved_tensors = SavedDict tensor_dict | SavedOther

record ema_files =
  ef_parameters :: "saved_tensors option"
  ef_buffers :: "saved_tensors option"
  ef_metadata :: "val option"

definition save_ema_checkpoint :: "tensor_dict \<Rightarrow> tensor_dict \<Rightarrow> ema_metadata \<Rightarrow> ema_files" where
  "save_ema_checkpoint parameters buffers metadata = \<lparr>ef_parameters = Some (SavedDict parameters),
     ef_buffers = Some (SavedDict buffers), ef_metadata = Some (VDict (metadata_dict metadata))\<rparr>"

definition parse_metadata :: "(val \<Rightarrow> string) \<Rightarrow> val \<Rightarrow> ema_metadata res" where
  "parse_metadata repr raw =
     (case as_dict raw of None \<Rightarrow> Inl (TypeError ''indices must be integers'')
      | Some d \<Rightarrow>
          rbind (rbind (dict_item d ''ema_decay'') to_float) (\<lambda>decay.
          rbind (rbind (dict_item d ''ema_update_count'') to_int) (\<lambda>count.
          rbind (dict_item d ''student_initial_fingerprint'') (\<lambda>fp.
            Inr \<lparr>em_ema_decay = decay, em_ema_update_count = count, em_student_initial_fingerprint = to_str repr fp,
              em_ema_teacher_enabled = truthy (dget d ''ema_teacher_enabled'' (VBool True)),
              em_ema_update_after_optimizer_step = truthy (dget d ''ema_update_after_optimizer_step'' (VBool True)),
              em_ema_initialization = to_str repr (dget d ''ema_initialization'' (VStr ''student_initial_weights'')),
              em_format_version = to_str repr (dget d ''format_version'' (VStr ''ema_teacher_checkpoint_v2''))\<rparr>))))"

text \<open>\<open>math.isclose(a, b, rel_tol=0.0, abs_tol=1e-12)\<close>.\<close>

fun isclose :: "pyfloat \<Rightarrow> pyfloat \<Rightarrow> bool" where
  "isclose (Fin a) (Fin b) \<longleftrightarrow> \<bar>a - b\<bar> \<le> 1 / 10 ^ 12"
| "isclose NaN y \<longleftrightarrow> False"
| "isclose x y \<longleftrightarrow> x = y"

definition load_ema_checkpoint ::
  "(val \<Rightarrow> string) \<Rightarrow> ema_files \<Rightarrow> pyfloat option \<Rightarrow> int option \<Rightarrow> (tensor_dict \<times> tensor_dict \<times> ema_metadata) res" where
  "load_ema_checkpoint repr files expected_decay expected_update_count =
     (case (ef_parameters files, ef_buffers files, ef_metadata files) of
        (Some parameters, Some buffers, Some raw) \<Rightarrow>
          rbind (parse_metadata repr raw) (\<lambda>metadata.
          if (case expected_decay of None \<Rightarrow> False | Some d \<Rightarrow> \<not> isclose (em_ema_decay metadata) d)
          then Inl (ValueError ''EMA teacher decay mismatch'')
          else if (case expected_update_count of None \<Rightarrow> False | Some n \<Rightarrow> em_ema_update_count metadata \<noteq> n)
          then Inl (ValueError ''EMA teacher update count mismatch'')
          else case (parameters, buffers) of
            (SavedDict ps, SavedDict bs) \<Rightarrow> Inr (ps, bs, metadata)
          | _ \<Rightarrow> Inl (ValueError ''invalid EMA teacher tensor state''))
      | _ \<Rightarrow> Inl (FileNotFoundError ''missing EMA teacher checkpoint state''))"

section \<open>Diagnostics of a token\<close>

definition float_tiny :: real where "float_tiny = 1 / 2 ^ 126"

record ema_row =
  er_qe_student_fkl :: real
  er_qe_student_l1 :: real
  er_qe_student_l2 :: real
  er_q0_student_fkl :: real
  er_q0_student_l1 :: real
  er_q0_student_l2 :: real
  er_qe_q0_jsd :: real
  er_qe_q0_l1 :: real
  er_qe_q0_l2 :: real
  er_anchor_evidence :: "real \<times> bool"
  er_anchor_total :: "real \<times> bool"
  er_evidence_total :: "real \<times> bool"
  er_max_error :: real
  er_mean_error :: real

definition gather_ids :: "nat list \<Rightarrow> vec \<Rightarrow> vec" where
  "gather_ids ids z = map (\<lambda>i. z ! i) ids"

definition forward_kl_row :: "vec \<Rightarrow> vec \<Rightarrow> vec \<Rightarrow> real" where
  "forward_kl_row q_probs q_log_probs p_log_probs = clamp_min 0 (vsum (vmul q_probs (vsub q_log_probs p_log_probs)))"

definition jsd_row :: "vec \<Rightarrow> vec \<Rightarrow> vec \<Rightarrow> vec \<Rightarrow> real" where
  "jsd_row left_probs left_log_probs right_probs right_log_probs =
     (let mixture = vscale (1/2) (vadd left_probs right_probs);
          mixture_log = map (\<lambda>m. ln (clamp_min float_tiny m)) mixture;
          left_kl = vsum (vmul left_probs (vsub left_log_probs mixture_log));
          right_kl = vsum (vmul right_probs (vsub right_log_probs mixture_log))
      in clamp_min 0 (1/2 * (left_kl + right_kl)))"

definition l1_norm :: "vec \<Rightarrow> real" where "l1_norm xs = vsum (map abs xs)"
definition l2_norm :: "vec \<Rightarrow> real" where "l2_norm xs = sqrt (vsum (vsquare xs))"

definition cosine_row :: "vec \<Rightarrow> vec \<Rightarrow> real \<times> bool" where
  "cosine_row xs ys =
     (let ok = 0 < l2_norm xs \<and> 0 < l2_norm ys
      in (if ok then vsum (vmul xs ys) / clamp_min float_tiny (l2_norm xs * l2_norm ys) else 0, ok))"

definition ema_row_at :: "vec \<Rightarrow> vec \<Rightarrow> vec \<Rightarrow> ema_row" where
  "ema_row_at student q0 qe =
     (let sl = log_probs 1 student; sp = vexp sl; q0l = log_probs 1 q0; q0p = vexp q0l; qel = log_probs 1 qe; qep = vexp qel;
          anchor = vsub q0p sp; evidence = vsub qep q0p; total = vsub qep sp;
          decomposition_error = map abs (vsub (vsub total anchor) evidence)
      in \<lparr>er_qe_student_fkl = forward_kl_row qep qel sl, er_qe_student_l1 = l1_norm total, er_qe_student_l2 = l2_norm total,
        er_q0_student_fkl = forward_kl_row q0p q0l sl, er_q0_student_l1 = l1_norm anchor, er_q0_student_l2 = l2_norm anchor,
        er_qe_q0_jsd = jsd_row qep qel q0p q0l, er_qe_q0_l1 = l1_norm evidence, er_qe_q0_l2 = l2_norm evidence,
        er_anchor_evidence = cosine_row anchor evidence, er_anchor_total = cosine_row anchor total,
        er_evidence_total = cosine_row evidence total, er_max_error = Max (set decomposition_error),
        er_mean_error = vsum decomposition_error / real (length decomposition_error)\<rparr>)"

definition compute_ema_token_diagnostics ::
  "(nat \<Rightarrow> vec \<Rightarrow> nat list) \<Rightarrow> logits \<Rightarrow> logits \<Rightarrow> logits \<Rightarrow> int \<Rightarrow> ema_row list res" where
  "compute_ema_token_diagnostics topk student q0 qe top_k =
     (if \<not> (lg_shape student = lg_shape q0 \<and> lg_shape q0 = lg_shape qe)
      then Inl (ValueError ''Student, q0, and qe logits must have identical shapes'')
      else if lg_v student = 0 then Inl (IndexError ''max(): Expected reduction dim to have non-zero size'')
      else let k = min (nat (max top_k 1)) (lg_v student) in
        Inr (map (\<lambda>t. let ids = topk k (lg_rows qe ! t) in
            ema_row_at (gather_ids ids (lg_rows student ! t)) (gather_ids ids (lg_rows q0 ! t)) (gather_ids ids (lg_rows qe ! t)))
          [0..<lg_n student * lg_s student]))"

section \<open>Aggregation\<close>

definition count_of :: "bool list \<Rightarrow> real" where
  "count_of m = real (count_list m True)"

definition rate_of :: "real \<Rightarrow> real \<Rightarrow> real" where
  "rate_of numerator denominator = (if denominator = 0 then 0 else numerator / denominator)"

definition select_values :: "bool list \<Rightarrow> 'a list \<Rightarrow> 'a list" where
  "select_values m xs = map snd (filter fst (zip m xs))"

text \<open>\<open>torch.quantile\<close> with linear interpolation, of a non-empty list.\<close>

definition ema_quantile :: "vec \<Rightarrow> real \<Rightarrow> real" where
  "ema_quantile xs q =
     (let ys = sort xs; pos = q * real (length xs - 1); lo = nat \<lfloor>pos\<rfloor>; hi = nat \<lceil>pos\<rceil>
      in ys ! lo + (pos - real lo) * (ys ! hi - ys ! lo))"

text \<open>The metrics with their values and validity. Every entry is finite, and the masks and the diagnostics
  have one shape: shapes that would be broadcast are an error of the model.\<close>

definition ema_metrics :: "(string \<times> (ema_row \<Rightarrow> real) \<times> (ema_row \<Rightarrow> bool)) list" where
  "ema_metrics =
     [(''qe_student_fkl'', er_qe_student_fkl, \<lambda>_. True), (''qe_student_l1'', er_qe_student_l1, \<lambda>_. True),
      (''qe_student_l2'', er_qe_student_l2, \<lambda>_. True), (''q0_student_fkl'', er_q0_student_fkl, \<lambda>_. True),
      (''q0_student_l1'', er_q0_student_l1, \<lambda>_. True), (''q0_student_l2'', er_q0_student_l2, \<lambda>_. True),
      (''qe_q0_jsd'', er_qe_q0_jsd, \<lambda>_. True), (''qe_q0_l1'', er_qe_q0_l1, \<lambda>_. True), (''qe_q0_l2'', er_qe_q0_l2, \<lambda>_. True),
      (''cosine_anchor_evidence'', \<lambda>r. fst (er_anchor_evidence r), \<lambda>r. snd (er_anchor_evidence r)),
      (''cosine_anchor_total'', \<lambda>r. fst (er_anchor_total r), \<lambda>r. snd (er_anchor_total r)),
      (''cosine_evidence_total'', \<lambda>r. fst (er_evidence_total r), \<lambda>r. snd (er_evidence_total r)),
      (''decomposition_mean_abs_error'', er_mean_error, \<lambda>_. True)]"

definition metric_entries :: "ema_row list \<Rightarrow> string \<times> (ema_row \<Rightarrow> real) \<times> (ema_row \<Rightarrow> bool) \<Rightarrow> (string \<times> real) list" where
  "metric_entries rows metric = (case metric of (name, f, ok) \<Rightarrow>
     let numerator = vsum (map f (filter ok rows)); denominator = real (length (filter ok rows));
         pre = (if name = ''qe_q0_jsd'' then ''selected_jsd'' else ''selected_'' @ name)
     in [(pre @ ''_numerator'', numerator), (pre @ ''_denominator'', denominator),
         (if name \<noteq> ''qe_q0_jsd'' then pre else ''selected_jsd_mean'', rate_of numerator denominator)]
       @ (if prefix ''cosine_'' name
          then [(name @ ''_numerator'', numerator), (name @ ''_denominator'', denominator), (name, rate_of numerator denominator)]
          else []))"

definition entry_of :: "(string \<times> real) list \<Rightarrow> string \<Rightarrow> real" where
  "entry_of result key = the (map_of result key)"

text \<open>The coverages, and the entries computed from the result so far.\<close>

definition rate_entries :: "bool list \<Rightarrow> bool list \<Rightarrow> bool list \<Rightarrow> (string \<times> real) list" where
  "rate_entries all_valid routed selected =
     [(''route_token_rate'', rate_of (count_of routed) (count_of all_valid)),
      (''selected_token_coverage_within_routed'', rate_of (count_of selected) (count_of routed)),
      (''total_selected_token_coverage'', rate_of (count_of selected) (count_of all_valid)),
      (''all_valid_token_count'', count_of all_valid), (''routed_token_count'', count_of routed),
      (''selected_token_count'', count_of selected)]"

definition tail_entries :: "(string \<times> real) list \<Rightarrow> ema_row list \<Rightarrow> vec \<Rightarrow> (string \<times> real) list" where
  "tail_entries result rows outside_jsd =
     (let jsd = map er_qe_q0_jsd rows;
          outside_mean = rate_of (vsum outside_jsd) (real (length outside_jsd));
          scale = entry_of result ''route_token_rate'' * entry_of result ''selected_token_coverage_within_routed''
      in [(''selected_jsd_p50'', if jsd = [] then 0 else ema_quantile jsd (1/2)),
         (''selected_jsd_p90'', if jsd = [] then 0 else ema_quantile jsd (9/10)),
         (''outside_jsd_numerator'', vsum outside_jsd), (''outside_jsd_denominator'', real (length outside_jsd)),
         (''outside_jsd_mean'', outside_mean),
         (''jsd_concentration_ratio'', if 0 < outside_mean then entry_of result ''selected_jsd_mean'' / outside_mean else 0),
         (''decomposition_max_abs_error'', if rows = [] then 0 else Max (set (map er_max_error rows))),
         (''anchor_mass'', scale * entry_of result ''selected_q0_student_l1''),
         (''evidence_mass'', scale * entry_of result ''selected_qe_q0_l1''),
         (''total_gradient_proxy_mass'', scale * entry_of result ''selected_qe_student_l1'')])"

definition aggregate_ema_token_diagnostics ::
  "ema_row list \<Rightarrow> bool list \<Rightarrow> bool list \<Rightarrow> bool list \<Rightarrow> (string \<times> real) list res" where
  "aggregate_ema_token_diagnostics diagnostics all_valid_mask routed_mask selected_mask =
     (if \<not> (length routed_mask = length all_valid_mask \<and> length selected_mask = length all_valid_mask
         \<and> length diagnostics = length all_valid_mask)
      then Inl (RuntimeError ''The size of tensor a must match the size of tensor b'')
      else let routed = map2 (\<and>) routed_mask all_valid_mask; selected = map2 (\<and>) selected_mask routed;
        outside = map2 (\<lambda>r s. r \<and> \<not> s) routed selected;
        rows = select_values selected diagnostics;
        result = rate_entries all_valid_mask routed selected @ concat (map (metric_entries rows) ema_metrics)
      in Inr (result @ tail_entries result rows (map er_qe_q0_jsd (select_values outside diagnostics))))"

section \<open>Drift\<close>

text \<open>The four sums over the matched names, and the metrics.\<close>

definition drift_sums :: "tensor_dict \<Rightarrow> tensor_dict \<Rightarrow> real \<times> real \<times> real \<times> real \<times> nat" where
  "drift_sums shadow named_parameters =
     foldl (\<lambda>(difference, student, ema, dot, matched) (name, s).
         case map_of shadow name of None \<Rightarrow> (difference, student, ema, dot, matched)
         | Some e \<Rightarrow> (difference + vsum (vsquare (vsub (tn_data e) (tn_data s))), student + vsum (vsquare (tn_data s)),
             ema + vsum (vsquare (tn_data e)), dot + vsum (vmul (tn_data e) (tn_data s)), Suc matched))
       (0, 0, 0, 0, 0) named_parameters"

definition compute_ema_parameter_drift :: "tensor_dict \<Rightarrow> tensor_dict \<Rightarrow> (string \<times> real) list" where
  "compute_ema_parameter_drift shadow named_parameters =
     (case drift_sums shadow named_parameters of (difference, student, ema, dot, matched) \<Rightarrow>
        let l2 = sqrt (max difference 0); student_l2 = sqrt (max student 0); ema_l2 = sqrt (max ema 0)
        in [(''ema_student_parameter_l2'', l2),
            (''ema_student_parameter_relative_l2'', if 0 < student_l2 then l2 / student_l2 else 0),
            (''ema_student_parameter_cosine'', if 0 < student_l2 \<and> 0 < ema_l2 then dot / (student_l2 * ema_l2) else 0),
            (''ema_student_parameter_matched_count'', real matched)])"

end
