(* ===== verification/EmaProps.thy ===== *)
theory EmaProps
  imports EmaTeacher
begin

text \<open>
  Properties of the EMA Teacher's diagnostics: the bounds of the token metrics, the masses of the
  aggregation, and the checkpoint.
\<close>

section \<open>Distributions on the selected tokens\<close>

lemma probs_row:
  assumes "z \<noteq> []"
  shows "\<forall>i < length z. 0 < probs 1 z ! i" "(\<Sum>i<length z. probs 1 z ! i) = 1"
    "\<forall>i < length z. ln (probs 1 z ! i) = log_probs 1 z ! i" "length (probs 1 z) = length z"
  using probs_pos [of _ z 1] probs_total [OF assms, of 1] ln_probs [of _ z 1] by (simp_all add: vsum_nth)

text \<open>Gibbs' inequality: the clamp of a divergence is idle.\<close>

lemma gibbs:
  fixes p q :: "nat \<Rightarrow> real"
  assumes "\<forall>i < n. 0 < p i" "\<forall>i < n. 0 < q i" "(\<Sum>i<n. p i) = 1" "(\<Sum>i<n. q i) = 1"
  shows "0 \<le> (\<Sum>i<n. q i * (ln (q i) - ln (p i)))"
proof -
  have "q i - p i \<le> q i * (ln (q i) - ln (p i))" if "i < n" for i
  proof -
    have pos: "0 < p i" "0 < q i" using assms that by auto
    have "ln (p i / q i) \<le> p i / q i - 1" using pos by (intro ln_le_minus_one) simp
    then have "q i * ln (p i / q i) \<le> q i * (p i / q i - 1)" using pos by (intro mult_left_mono) auto
    then show ?thesis using pos by (simp add: ln_div algebra_simps)
  qed
  then have "(\<Sum>i<n. q i - p i) \<le> (\<Sum>i<n. q i * (ln (q i) - ln (p i)))" by (intro sum_mono) auto
  then show ?thesis using assms(3,4) by (simp add: sum_subtractf)
qed

lemma mixture_half:
  fixes p q :: "nat \<Rightarrow> real"
  assumes "\<forall>i < n. 0 < p i" "\<forall>i < n. 0 < q i" "(\<Sum>i<n. p i) = 1"
  shows "(\<Sum>i<n. p i * (ln (p i) - ln (max t (1/2 * (p i + q i))))) \<le> ln 2"
proof -
  have "p i * (ln (p i) - ln (max t (1/2 * (p i + q i)))) \<le> p i * ln 2" if "i < n" for i
  proof -
    have pos: "0 < p i" "0 < q i" using assms that by auto
    then have "p i / 2 \<le> max t (1/2 * (p i + q i))" by (intro max.coboundedI2) simp
    then have "ln (p i / 2) \<le> ln (max t (1/2 * (p i + q i)))" using pos by (subst ln_le_cancel_iff) auto
    then have "ln (p i) - ln (max t (1/2 * (p i + q i))) \<le> ln 2" using pos by (simp add: ln_div)
    then show ?thesis using pos by (intro mult_left_mono) auto
  qed
  then have "(\<Sum>i<n. p i * (ln (p i) - ln (max t (1/2 * (p i + q i))))) \<le> (\<Sum>i<n. p i * ln 2)" by (intro sum_mono) auto
  also have "\<dots> = ln 2" using assms(3) by (simp flip: sum_distrib_right)
  finally show ?thesis .
qed

lemma dot_le_norms:
  fixes xs ys :: vec
  assumes "length xs = length ys"
  shows "\<bar>vsum (vmul xs ys)\<bar> \<le> l2_norm xs * l2_norm ys"
proof -
  have eq: "vsum (vmul xs xs) - 2 * a * vsum (vmul xs ys) + a * a * vsum (vmul ys ys)
      = (\<Sum>i<length xs. (xs ! i - a * ys ! i)\<^sup>2)" for a
    using assms by (simp add: vsum_vmul sum_distrib_left sum_subtractf sum.distrib power2_eq_square algebra_simps)
  have "(vsum (vmul xs ys))\<^sup>2 \<le> vsum (vmul xs xs) * vsum (vmul ys ys)"
  proof (rule quadratic_cs)
    show "0 \<le> vsum (vmul xs xs) - 2 * a * vsum (vmul xs ys) + a * a * vsum (vmul ys ys)" for a
      unfolding eq by (intro sum_nonneg) simp
    show "0 \<le> vsum (vmul ys ys)" by (simp add: vsum_vmul sum_nonneg)
  qed
  moreover have "vsum (vsquare zs) = vsum (vmul zs zs)" for zs :: vec
    by (induction zs) (auto simp: vsquare_def vmul_def vsum_def)
  ultimately show ?thesis unfolding l2_norm_def by (simp add: real_sqrt_mult [symmetric] real_le_rsqrt)
qed

lemma cosine_row_le: "length xs = length ys \<Longrightarrow> \<bar>fst (cosine_row xs ys)\<bar> \<le> 1"
proof -
  assume len: "length xs = length ys"
  let ?d = "clamp_min float_tiny (l2_norm xs * l2_norm ys)"
  have "0 < ?d" by (simp add: clamp_min_def float_tiny_def)
  moreover have "\<bar>vsum (vmul xs ys)\<bar> \<le> ?d" using dot_le_norms [OF len] by (simp add: clamp_min_def)
  ultimately show ?thesis by (simp add: cosine_row_def Let_def abs_divide)
qed

section \<open>The diagnostics of a position\<close>

lemma vsum_weighted:
  "length a = n \<Longrightarrow> length b = n \<Longrightarrow> length c = n \<Longrightarrow> vsum (vmul a (vsub b c)) = (\<Sum>i<n. a ! i * (b ! i - c ! i))"
  by (simp add: vsum_vmul vsub_def)

lemma l1_norm_sum: "l1_norm xs = (\<Sum>i<length xs. \<bar>xs ! i\<bar>)"
  by (simp add: l1_norm_def vsum_nth)

lemma half_mean_le: "a \<le> l \<Longrightarrow> b \<le> l \<Longrightarrow> 1/2 * (a + b) \<le> l" for a b l :: real
  by simp

lemma ema_row_facts:
  assumes "length a = n" "length b = n" "length c = n" "0 < n"
  shows "er_qe_student_fkl (ema_row_at a b c)
      = (\<Sum>i<n. probs 1 c ! i * (ln (probs 1 c ! i) - ln (probs 1 a ! i)))"
    and "0 \<le> er_qe_student_fkl (ema_row_at a b c)" "0 \<le> er_q0_student_fkl (ema_row_at a b c)"
    and "0 \<le> er_qe_q0_jsd (ema_row_at a b c)" "er_qe_q0_jsd (ema_row_at a b c) \<le> ln 2"
    and "\<bar>fst (er_anchor_evidence (ema_row_at a b c))\<bar> \<le> 1" "\<bar>fst (er_anchor_total (ema_row_at a b c))\<bar> \<le> 1"
      "\<bar>fst (er_evidence_total (ema_row_at a b c))\<bar> \<le> 1"
    and "er_max_error (ema_row_at a b c) = 0" "er_mean_error (ema_row_at a b c) = 0"
    and "er_qe_student_l1 (ema_row_at a b c) \<le> er_q0_student_l1 (ema_row_at a b c) + er_qe_q0_l1 (ema_row_at a b c)"
    and "er_qe_student_l1 (ema_row_at a b c) \<le> 2"
proof -
  have ne: "a \<noteq> []" "b \<noteq> []" "c \<noteq> []" using assms by auto
  note A = probs_row [OF ne(1), unfolded assms(1)] and B = probs_row [OF ne(2), unfolded assms(2)]
    and C = probs_row [OF ne(3), unfolded assms(3)]
  note len = A(4) B(4) C(4) assms(1-3)
  have kl: "vsum (vmul (probs 1 y) (vsub (log_probs 1 y) (log_probs 1 x)))
      = (\<Sum>i<n. probs 1 y ! i * (ln (probs 1 y ! i) - ln (probs 1 x ! i)))"
    if "length x = n" "length y = n" for x y
  proof -
    have ne: "x \<noteq> []" "y \<noteq> []" using that assms(4) by auto
    have "length (probs 1 y) = n" using probs_row(4) [OF ne(2)] that by simp
    then have "vsum (vmul (probs 1 y) (vsub (log_probs 1 y) (log_probs 1 x)))
        = (\<Sum>i<n. probs 1 y ! i * (log_probs 1 y ! i - log_probs 1 x ! i))"
      using that by (intro vsum_weighted) simp_all
    also have "\<dots> = (\<Sum>i<n. probs 1 y ! i * (ln (probs 1 y ! i) - ln (probs 1 x ! i)))"
      using probs_row(3) [OF ne(1)] probs_row(3) [OF ne(2)] that by (intro sum.cong refl arg_cong2 [of _ _ _ _ "(*)"] arg_cong2 [of _ _ _ _ "(-)"]) auto
    finally show ?thesis .
  qed
  have fkl: "er_qe_student_fkl (ema_row_at a b c) = max 0 (\<Sum>i<n. probs 1 c ! i * (ln (probs 1 c ! i) - ln (probs 1 a ! i)))"
    unfolding ema_row_at_def Let_def ema_row.simps vexp_log_probs forward_kl_row_def clamp_min_def kl [OF assms(1,3)] ..
  then show "er_qe_student_fkl (ema_row_at a b c) = (\<Sum>i<n. probs 1 c ! i * (ln (probs 1 c ! i) - ln (probs 1 a ! i)))"
    using gibbs [OF A(1) C(1) A(2) C(2)] by simp
  show "0 \<le> er_qe_student_fkl (ema_row_at a b c)" using fkl by simp
  show "0 \<le> er_q0_student_fkl (ema_row_at a b c)" "0 \<le> er_qe_q0_jsd (ema_row_at a b c)"
    unfolding ema_row_at_def Let_def ema_row.simps forward_kl_row_def jsd_row_def clamp_min_def by (rule max.cobounded1)+
  let ?p = "probs 1 b" and ?q = "probs 1 c"
  let ?mix = "map (\<lambda>m. ln (clamp_min float_tiny m)) (vscale (1/2) (vadd ?q ?p))"
  have mix: "length ?mix = n" "\<forall>i < n. ?mix ! i = ln (max float_tiny (1/2 * (?q ! i + ?p ! i)))"
    using len by (simp_all add: vscale_def vadd_def clamp_min_def)
  have "vsum (vmul ?q (vsub (log_probs 1 c) ?mix)) \<le> ln 2"
    using mixture_half [OF C(1) B(1) C(2), of float_tiny] vsum_weighted [of ?q n "log_probs 1 c" ?mix] mix len C(3) by simp
  moreover have "vsum (vmul ?p (vsub (log_probs 1 b) ?mix)) \<le> ln 2"
    using mixture_half [OF B(1) C(1) B(2), of float_tiny] vsum_weighted [of ?p n "log_probs 1 b" ?mix] mix len B(3)
    by (simp add: add.commute)
  ultimately have "1/2 * (vsum (vmul ?q (vsub (log_probs 1 c) ?mix)) + vsum (vmul ?p (vsub (log_probs 1 b) ?mix))) \<le> ln 2" by (rule half_mean_le)
  then show "er_qe_q0_jsd (ema_row_at a b c) \<le> ln 2"
    unfolding ema_row_at_def Let_def ema_row.simps jsd_row_def vexp_log_probs clamp_min_def [of 0] by simp
  show "\<bar>fst (er_anchor_evidence (ema_row_at a b c))\<bar> \<le> 1" "\<bar>fst (er_anchor_total (ema_row_at a b c))\<bar> \<le> 1"
    "\<bar>fst (er_evidence_total (ema_row_at a b c))\<bar> \<le> 1"
    unfolding ema_row_at_def Let_def ema_row.simps vexp_log_probs
    by (rule cosine_row_le; use len in \<open>simp add: vsub_def\<close>)+
  let ?s = "probs 1 a"
  have "map abs (vsub (vsub (vsub ?q ?s) (vsub ?p ?s)) (vsub ?q ?p)) = replicate n 0"
    using len by (auto intro!: nth_equalityI simp: vsub_def)
  then show "er_max_error (ema_row_at a b c) = 0" "er_mean_error (ema_row_at a b c) = 0"
    unfolding ema_row_at_def Let_def ema_row.simps vexp_log_probs using assms(4) by (simp_all add: vsum_def sum_list_replicate)
  have l1: "er_qe_student_l1 (ema_row_at a b c) = (\<Sum>i<n. \<bar>?q ! i - ?s ! i\<bar>)"
    "er_q0_student_l1 (ema_row_at a b c) = (\<Sum>i<n. \<bar>?p ! i - ?s ! i\<bar>)"
    "er_qe_q0_l1 (ema_row_at a b c) = (\<Sum>i<n. \<bar>?q ! i - ?p ! i\<bar>)"
    unfolding ema_row_at_def Let_def ema_row.simps vexp_log_probs l1_norm_sum using len by (simp_all add: vsub_def)
  have "(\<Sum>i<n. \<bar>?q ! i - ?s ! i\<bar>) \<le> (\<Sum>i<n. \<bar>?p ! i - ?s ! i\<bar> + \<bar>?q ! i - ?p ! i\<bar>)" by (intro sum_mono) auto
  then show "er_qe_student_l1 (ema_row_at a b c) \<le> er_q0_student_l1 (ema_row_at a b c) + er_qe_q0_l1 (ema_row_at a b c)"
    by (simp add: l1 sum.distrib)
  have "(\<Sum>i<n. \<bar>?q ! i - ?s ! i\<bar>) \<le> (\<Sum>i<n. ?q ! i + ?s ! i)" using A(1) C(1) by (intro sum_mono) force
  then show "er_qe_student_l1 (ema_row_at a b c) \<le> 2" using A(2) C(2) by (simp add: l1 sum.distrib)
qed

lemma ema_rows:
  assumes "compute_ema_token_diagnostics topk student q0 qe top_k = Inr rows" and "topk_select topk" and "wf_logits qe"
  shows "length rows = lg_n student * lg_s student"
    and "\<forall>t < length rows. \<exists>ids. ids = topk (min (nat (max top_k 1)) (lg_v student)) (lg_rows qe ! t) \<and> ids \<noteq> []
      \<and> rows ! t = ema_row_at (gather_ids ids (lg_rows student ! t)) (gather_ids ids (lg_rows q0 ! t)) (gather_ids ids (lg_rows qe ! t))"
proof -
  let ?k = "min (nat (max top_k 1)) (lg_v student)"
  from assms(1) have shapes: "lg_shape student = lg_shape q0" "lg_shape q0 = lg_shape qe" and v: "0 < lg_v student"
    and rows: "rows = map (\<lambda>t. let ids = topk ?k (lg_rows qe ! t) in
            ema_row_at (gather_ids ids (lg_rows student ! t)) (gather_ids ids (lg_rows q0 ! t)) (gather_ids ids (lg_rows qe ! t)))
          [0..<lg_n student * lg_s student]"
    by (auto simp: compute_ema_token_diagnostics_def Let_def split: if_splits)
  then show "length rows = lg_n student * lg_s student" by simp
  have "topk ?k (lg_rows qe ! t) \<noteq> []" if "t < lg_n student * lg_s student" for t
  proof -
    have "length (lg_rows qe ! t) = lg_v student"
      using wf_logits_row [OF assms(3), of t] that shapes by (simp add: lg_shape_eq_iff)
    then have "length (topk ?k (lg_rows qe ! t)) = ?k" using topk_select.topk_length [OF assms(2)] by simp
    then show ?thesis using v by auto
  qed
  then show "\<forall>t < length rows. \<exists>ids. ids = topk ?k (lg_rows qe ! t) \<and> ids \<noteq> []
      \<and> rows ! t = ema_row_at (gather_ids ids (lg_rows student ! t)) (gather_ids ids (lg_rows q0 ! t)) (gather_ids ids (lg_rows qe ! t))"
    unfolding rows by (simp add: Let_def)
qed

lemma ema_row_cases:
  assumes "compute_ema_token_diagnostics topk student q0 qe top_k = Inr rows" and "topk_select topk" and "wf_logits qe"
    and "r \<in> set rows"
  obtains a b c where "length a = length b" "length b = length c" "0 < length c" "r = ema_row_at a b c"
proof -
  from assms(4) obtain t where t: "t < length rows" "r = rows ! t" by (metis in_set_conv_nth)
  from ema_rows(2) [OF assms(1-3)] t(1) obtain ids where "ids \<noteq> []"
    "r = ema_row_at (gather_ids ids (lg_rows student ! t)) (gather_ids ids (lg_rows q0 ! t)) (gather_ids ids (lg_rows qe ! t))"
    unfolding t(2) by blast
  then show thesis by (intro that) (auto simp: gather_ids_def)
qed

text \<open>C18: At every position the divergence from the Student is the Kullback-Leibler divergence on the
  selected tokens and the clamp is idle, the Jensen-Shannon divergence lies between 0 and \<open>ln 2\<close>, the
  cosines lie between -1 and 1, the displacement splits exactly into its anchor and evidence parts,
  and its mass is at most theirs and at most 2.\<close>

theorem ema_diagnostics_bounds:
  assumes "compute_ema_token_diagnostics topk student q0 qe top_k = Inr rows" and "topk_select topk" and "wf_logits qe"
  shows "length rows = lg_n student * lg_s student \<and> (\<forall>t < length rows. let r = rows ! t;
      ids = topk (min (nat (max top_k 1)) (lg_v student)) (lg_rows qe ! t);
      p = probs 1 (gather_ids ids (lg_rows student ! t)); q = probs 1 (gather_ids ids (lg_rows qe ! t)) in
    er_qe_student_fkl r = (\<Sum>i<length ids. q ! i * (ln (q ! i) - ln (p ! i))) \<and> 0 \<le> er_qe_student_fkl r
    \<and> 0 \<le> er_qe_q0_jsd r \<and> er_qe_q0_jsd r \<le> ln 2
    \<and> \<bar>fst (er_anchor_evidence r)\<bar> \<le> 1 \<and> \<bar>fst (er_anchor_total r)\<bar> \<le> 1 \<and> \<bar>fst (er_evidence_total r)\<bar> \<le> 1
    \<and> er_max_error r = 0 \<and> er_mean_error r = 0
    \<and> er_qe_student_l1 r \<le> er_q0_student_l1 r + er_qe_q0_l1 r \<and> er_qe_student_l1 r \<le> 2)"
proof -
  have "let r = rows ! t;
      ids = topk (min (nat (max top_k 1)) (lg_v student)) (lg_rows qe ! t);
      p = probs 1 (gather_ids ids (lg_rows student ! t)); q = probs 1 (gather_ids ids (lg_rows qe ! t)) in
    er_qe_student_fkl r = (\<Sum>i<length ids. q ! i * (ln (q ! i) - ln (p ! i))) \<and> 0 \<le> er_qe_student_fkl r
    \<and> 0 \<le> er_qe_q0_jsd r \<and> er_qe_q0_jsd r \<le> ln 2
    \<and> \<bar>fst (er_anchor_evidence r)\<bar> \<le> 1 \<and> \<bar>fst (er_anchor_total r)\<bar> \<le> 1 \<and> \<bar>fst (er_evidence_total r)\<bar> \<le> 1
    \<and> er_max_error r = 0 \<and> er_mean_error r = 0
    \<and> er_qe_student_l1 r \<le> er_q0_student_l1 r + er_qe_q0_l1 r \<and> er_qe_student_l1 r \<le> 2" if "t < length rows" for t
  proof -
    from ema_rows(2) [OF assms] that obtain ids where ids: "ids = topk (min (nat (max top_k 1)) (lg_v student)) (lg_rows qe ! t)" "ids \<noteq> []"
      and r: "rows ! t = ema_row_at (gather_ids ids (lg_rows student ! t)) (gather_ids ids (lg_rows q0 ! t)) (gather_ids ids (lg_rows qe ! t))"
      by blast
    have len: "length (gather_ids ids z) = length ids" for z by (simp add: gather_ids_def)
    have pos: "0 < length ids" using ids(2) by simp
    show ?thesis unfolding Let_def r ids(1) [symmetric]
      by (intro conjI ema_row_facts [OF len len len pos])
  qed
  then show ?thesis using ema_rows(1) [OF assms] by blast
qed

definition sample_logits :: "vec \<Rightarrow> logits" where
  "sample_logits z = \<lparr>lg_n = 1, lg_s = 1, lg_v = length z, lg_rows = [z]\<rparr>"

lemma sample_diagnostics:
  "compute_ema_token_diagnostics topk_by_sort (sample_logits [0, 0]) (sample_logits [0, 1]) (sample_logits [1, 0]) 2
    = Inr [ema_row_at (gather_ids (topk_by_sort 2 [1, 0]) [0, 0]) (gather_ids (topk_by_sort 2 [1, 0]) [0, 1])
        (gather_ids (topk_by_sort 2 [1, 0]) [1, 0])]"
  by (simp add: compute_ema_token_diagnostics_def sample_logits_def lg_shape_def Let_def numeral_2_eq_2)

lemma sample_logits_wf: "wf_logits (sample_logits z)"
  by (simp add: sample_logits_def wf_logits_def)

theorem ema_diagnostics_bounds_witness:
  "\<exists>r. compute_ema_token_diagnostics topk_by_sort (sample_logits [0, 0]) (sample_logits [0, 1]) (sample_logits [1, 0]) 2 = Inr [r]
    \<and> er_qe_q0_jsd r \<le> ln 2 \<and> er_max_error r = 0"
  using ema_diagnostics_bounds [OF sample_diagnostics topk_sort.topk_select_axioms sample_logits_wf] sample_diagnostics
  unfolding Let_def by auto

section \<open>Masses\<close>

lemma select_values_nth:
  "length m = length xs \<Longrightarrow> select_values m xs = map ((!) xs) (filter ((!) m) [0..<length xs])"
proof (induction xs arbitrary: m rule: rev_induct)
  case (snoc x xs)
  then obtain m' b where m: "m = m' @ [b]" "length m' = length xs" by (cases m rule: rev_cases) auto
  have "map ((!) (xs @ [x])) (filter ((!) (m' @ [b])) [0..<length xs]) = map ((!) xs) (filter ((!) m') [0..<length xs])"
    using m(2) by (auto intro!: map_cong filter_cong simp: nth_append)
  moreover have "(m' @ [b]) ! length xs = b" "(xs @ [x]) ! length xs = x" using m(2) nth_append_length [of m' b "[]"] by simp_all
  ultimately show ?case using snoc.IH [OF m(2)] m by (simp add: select_values_def)
qed (simp add: select_values_def)

lemma vsum_selected:
  assumes "length m = length xs"
  shows "vsum (map f (select_values m xs)) = (\<Sum>t | t < length xs \<and> m ! t. f (xs ! t))"
    and "real (length (select_values m xs)) = real (card {t. t < length xs \<and> m ! t})"
proof -
  have d: "distinct (filter ((!) m) [0..<length xs])" "set (filter ((!) m) [0..<length xs]) = {t. t < length xs \<and> m ! t}" by auto
  then show "vsum (map f (select_values m xs)) = (\<Sum>t | t < length xs \<and> m ! t. f (xs ! t))"
    unfolding select_values_nth [OF assms] vsum_def
    using sum_list_distinct_conv_sum_set [OF d(1), of "\<lambda>t. f (xs ! t)"] by (simp add: comp_def)
  show "real (length (select_values m xs)) = real (card {t. t < length xs \<and> m ! t})"
    unfolding select_values_nth [OF assms] using distinct_card [OF d(1)] d(2) by simp
qed

lemma count_of_card: "count_of m = real (card {t. t < length m \<and> m ! t})"
  by (simp add: count_of_def count_list_eq_length_filter length_filter_conv_card)

lemma entries_of_metrics:
  "map_of (concat (map (metric_entries rows) ema_metrics)) ''selected_qe_student_l1''
    = Some (rate_of (vsum (map er_qe_student_l1 rows)) (real (length rows)))"
  "map_of (concat (map (metric_entries rows) ema_metrics)) ''selected_q0_student_l1''
    = Some (rate_of (vsum (map er_q0_student_l1 rows)) (real (length rows)))"
  "map_of (concat (map (metric_entries rows) ema_metrics)) ''selected_qe_q0_l1''
    = Some (rate_of (vsum (map er_qe_q0_l1 rows)) (real (length rows)))"
  "map_of (concat (map (metric_entries rows) ema_metrics)) ''anchor_mass'' = None"
  "map_of (concat (map (metric_entries rows) ema_metrics)) ''evidence_mass'' = None"
  "map_of (concat (map (metric_entries rows) ema_metrics)) ''total_gradient_proxy_mass'' = None"
  by (simp_all add: ema_metrics_def metric_entries_def Let_def)

lemma aggregate_entries:
  fixes rows all_valid routed selected outside_jsd
  defines "R \<equiv> rate_entries all_valid routed selected @ concat (map (metric_entries rows) ema_metrics)"
  defines "scale \<equiv> rate_of (count_of routed) (count_of all_valid) * rate_of (count_of selected) (count_of routed)"
    and "result \<equiv> R @ tail_entries R rows outside_jsd"
  shows "entry_of result ''anchor_mass'' = scale * rate_of (vsum (map er_q0_student_l1 rows)) (real (length rows))"
    "entry_of result ''evidence_mass'' = scale * rate_of (vsum (map er_qe_q0_l1 rows)) (real (length rows))"
    "entry_of result ''total_gradient_proxy_mass'' = scale * rate_of (vsum (map er_qe_student_l1 rows)) (real (length rows))"
    "entry_of result ''total_selected_token_coverage'' = rate_of (count_of selected) (count_of all_valid)"
    "entry_of result ''route_token_rate'' = rate_of (count_of routed) (count_of all_valid)"
    "entry_of result ''selected_token_coverage_within_routed'' = rate_of (count_of selected) (count_of routed)"
proof -
  have R: "entry_of R ''selected_q0_student_l1'' = rate_of (vsum (map er_q0_student_l1 rows)) (real (length rows))"
    "entry_of R ''selected_qe_q0_l1'' = rate_of (vsum (map er_qe_q0_l1 rows)) (real (length rows))"
    "entry_of R ''selected_qe_student_l1'' = rate_of (vsum (map er_qe_student_l1 rows)) (real (length rows))"
    "entry_of R ''route_token_rate'' = rate_of (count_of routed) (count_of all_valid)"
    "entry_of R ''selected_token_coverage_within_routed'' = rate_of (count_of selected) (count_of routed)"
    "entry_of R ''total_selected_token_coverage'' = rate_of (count_of selected) (count_of all_valid)"
    unfolding R_def entry_of_def rate_entries_def by (simp_all add: entries_of_metrics)
  have none: "map_of R ''anchor_mass'' = None" "map_of R ''evidence_mass'' = None" "map_of R ''total_gradient_proxy_mass'' = None"
    unfolding R_def rate_entries_def by (simp_all add: entries_of_metrics)
  show "entry_of result ''anchor_mass'' = scale * rate_of (vsum (map er_q0_student_l1 rows)) (real (length rows))"
    "entry_of result ''evidence_mass'' = scale * rate_of (vsum (map er_qe_q0_l1 rows)) (real (length rows))"
    "entry_of result ''total_gradient_proxy_mass'' = scale * rate_of (vsum (map er_qe_student_l1 rows)) (real (length rows))"
    unfolding result_def scale_def entry_of_def [of "R @ _"] tail_entries_def Let_def R by (simp_all add: map_add_def none)
  show "entry_of result ''total_selected_token_coverage'' = rate_of (count_of selected) (count_of all_valid)"
    "entry_of result ''route_token_rate'' = rate_of (count_of routed) (count_of all_valid)"
    "entry_of result ''selected_token_coverage_within_routed'' = rate_of (count_of selected) (count_of routed)"
    unfolding result_def R_def entry_of_def rate_entries_def by simp_all
qed

lemma scale_masses:
  fixes r s n :: real and V :: real
  assumes "0 \<le> s" "s \<le> r" "r \<le> n" "s = 0 \<Longrightarrow> V = 0"
  shows "rate_of r n * rate_of s r * rate_of V s = rate_of V n" "rate_of r n * rate_of s r = rate_of s n"
    "0 \<le> rate_of s r \<and> rate_of s r \<le> 1"
  using assms by (auto simp: rate_of_def divide_simps)

text \<open>C19: The gradient masses the aggregation reports are sums over the selected tokens divided by the
  number of all valid tokens, whatever tokens were routed; the coverages are rates and multiply up;
  and on the diagnostics of a batch the total mass is at most the anchor mass and the evidence mass
  together.\<close>

theorem ema_gradient_masses:
  assumes "compute_ema_token_diagnostics topk student q0 qe top_k = Inr rows" and "topk_select topk" and "wf_logits qe"
    and "aggregate_ema_token_diagnostics rows all_valid_mask routed_mask selected_mask = Inr result"
  shows "let S = {t. t < length rows \<and> all_valid_mask ! t \<and> routed_mask ! t \<and> selected_mask ! t}; N = count_of all_valid_mask in
    entry_of result ''anchor_mass'' = rate_of (\<Sum>t \<in> S. er_q0_student_l1 (rows ! t)) N
    \<and> entry_of result ''evidence_mass'' = rate_of (\<Sum>t \<in> S. er_qe_q0_l1 (rows ! t)) N
    \<and> entry_of result ''total_gradient_proxy_mass'' = rate_of (\<Sum>t \<in> S. er_qe_student_l1 (rows ! t)) N
    \<and> entry_of result ''total_selected_token_coverage'' = rate_of (real (card S)) N
    \<and> entry_of result ''route_token_rate'' * entry_of result ''selected_token_coverage_within_routed''
        = entry_of result ''total_selected_token_coverage''
    \<and> entry_of result ''total_gradient_proxy_mass'' \<le> entry_of result ''anchor_mass'' + entry_of result ''evidence_mass''"
proof -
  define routed where "routed = map2 (\<and>) routed_mask all_valid_mask"
  define selected where "selected = map2 (\<and>) selected_mask routed"
  define picked where "picked = select_values selected rows"
  define S where "S = {t. t < length rows \<and> all_valid_mask ! t \<and> routed_mask ! t \<and> selected_mask ! t}"
  define N where "N = count_of all_valid_mask"
  have "length routed_mask = length all_valid_mask \<and> length selected_mask = length all_valid_mask
    \<and> length rows = length all_valid_mask" (is ?fits)
  proof (rule ccontr)
    assume "\<not> ?fits"
    then have "aggregate_ema_token_diagnostics rows all_valid_mask routed_mask selected_mask
        = Inl (RuntimeError ''The size of tensor a must match the size of tensor b'')"
      unfolding aggregate_ema_token_diagnostics_def by (rule if_P)
    with assms(4) show False by simp
  qed
  then have len: "length routed_mask = length all_valid_mask" "length selected_mask = length all_valid_mask"
    "length rows = length all_valid_mask" by simp_all
  have lens: "length selected = length rows" "length routed = length rows" using len by (simp_all add: selected_def routed_def)
  have S: "{t. t < length rows \<and> selected ! t} = S" using len by (auto simp: S_def selected_def routed_def)
  have V: "vsum (map f picked) = (\<Sum>t \<in> S. f (rows ! t))" for f :: "ema_row \<Rightarrow> real"
    using vsum_selected(1) [OF lens(1), of f] by (simp add: picked_def S)
  have n: "real (length picked) = real (card S)" "count_of selected = real (card S)"
    using vsum_selected(2) [OF lens(1)] count_of_card [of selected] lens by (simp_all add: picked_def S)
  have "card S \<le> card {t. t < length routed \<and> routed ! t}"
    using len by (intro card_mono) (auto simp: S_def routed_def)
  then have sr: "real (card S) \<le> count_of routed" by (simp add: count_of_card)
  have "card {t. t < length routed \<and> routed ! t} \<le> card {t. t < length all_valid_mask \<and> all_valid_mask ! t}"
    using len by (intro card_mono) (auto simp: routed_def)
  then have rn: "count_of routed \<le> N" by (simp add: count_of_card N_def)
  note scale = scale_masses [of "real (card S)" "count_of routed" N, OF _ sr rn]
  define outside_jsd where "outside_jsd = map er_qe_q0_jsd (select_values (map2 (\<lambda>r s. r \<and> \<not> s) routed selected) rows)"
  have result: "result = (rate_entries all_valid_mask routed selected @ concat (map (metric_entries picked) ema_metrics))
      @ tail_entries (rate_entries all_valid_mask routed selected @ concat (map (metric_entries picked) ema_metrics)) picked outside_jsd"
    using assms(4) len unfolding outside_jsd_def
    by (auto simp: aggregate_ema_token_diagnostics_def Let_def simp flip: routed_def selected_def picked_def)
  have fin: "finite S" by (simp add: S_def)
  have masses: "entry_of result ''anchor_mass'' = rate_of (\<Sum>t \<in> S. er_q0_student_l1 (rows ! t)) N"
    "entry_of result ''evidence_mass'' = rate_of (\<Sum>t \<in> S. er_qe_q0_l1 (rows ! t)) N"
    "entry_of result ''total_gradient_proxy_mass'' = rate_of (\<Sum>t \<in> S. er_qe_student_l1 (rows ! t)) N"
    unfolding result aggregate_entries N_def [symmetric] n V using scale(1) fin by simp_all
  have cover: "entry_of result ''total_selected_token_coverage'' = rate_of (real (card S)) N"
    "entry_of result ''route_token_rate'' * entry_of result ''selected_token_coverage_within_routed'' = rate_of (real (card S)) N"
    unfolding result aggregate_entries N_def [symmetric] n using scale(2) [of 0] by simp_all
  have "er_qe_student_l1 r \<le> er_q0_student_l1 r + er_qe_q0_l1 r" if "r \<in> set rows" for r
    using ema_row_cases [OF assms(1-3) that] ema_row_facts(11) by metis
  then have "(\<Sum>t \<in> S. er_qe_student_l1 (rows ! t)) \<le> (\<Sum>t \<in> S. er_q0_student_l1 (rows ! t) + er_qe_q0_l1 (rows ! t))"
    by (intro sum_mono) (simp add: S_def)
  moreover have "0 \<le> N" by (simp add: N_def count_of_def)
  ultimately have "entry_of result ''total_gradient_proxy_mass'' \<le> entry_of result ''anchor_mass'' + entry_of result ''evidence_mass''"
    unfolding masses by (simp add: rate_of_def sum.distrib divide_right_mono flip: add_divide_distrib)
  then show ?thesis unfolding Let_def S_def [symmetric] N_def [symmetric] using masses cover by simp
qed

theorem ema_gradient_masses_witness:
  "\<exists>rows result. compute_ema_token_diagnostics topk_by_sort (sample_logits [0, 0]) (sample_logits [0, 1]) (sample_logits [1, 0]) 2 = Inr rows
    \<and> aggregate_ema_token_diagnostics rows [True] [True] [True] = Inr result
    \<and> entry_of result ''total_gradient_proxy_mass'' \<le> entry_of result ''anchor_mass'' + entry_of result ''evidence_mass''"
proof -
  let ?rows = "[ema_row_at (gather_ids (topk_by_sort 2 [1, 0]) [0, 0]) (gather_ids (topk_by_sort 2 [1, 0]) [0, 1])
        (gather_ids (topk_by_sort 2 [1, 0]) [1, 0])]"
  obtain result where r: "aggregate_ema_token_diagnostics ?rows [True] [True] [True] = Inr result"
    by (simp add: aggregate_ema_token_diagnostics_def Let_def)
  from ema_gradient_masses [OF sample_diagnostics topk_sort.topk_select_axioms sample_logits_wf r] show ?thesis
    using sample_diagnostics r unfolding Let_def by blast
qed

section \<open>Checkpoints\<close>

text \<open>
  A saved checkpoint loads back what was saved when the expectations agree, and is refused otherwise.
\<close>

theorem ema_checkpoint_roundtrip:
  "load_ema_checkpoint repr (save_ema_checkpoint parameters buffers metadata) decay update_count =
    (if (case decay of None \<Rightarrow> False | Some d \<Rightarrow> \<not> isclose (em_ema_decay metadata) d)
     then Inl (ValueError ''EMA teacher decay mismatch'')
     else if (case update_count of None \<Rightarrow> False | Some n \<Rightarrow> em_ema_update_count metadata \<noteq> n)
     then Inl (ValueError ''EMA teacher update count mismatch'')
     else Inr (parameters, buffers, metadata))"
proof -
  have "parse_metadata repr (VDict (metadata_dict metadata)) = Inr metadata"
    by (simp add: parse_metadata_def metadata_dict_def dict_item_def dget_def)
  then show ?thesis by (simp add: load_ema_checkpoint_def save_ema_checkpoint_def)
qed

end
