(* ===== verification/Spec2Isabelle.thy ===== *)
theory Spec2Isabelle
  imports StatsProps LossProps ControlProps EvidenceProps ZpdProps TeacherProps NativeProps ProtocolProps AuditProps BatchProps MonitoringProps ConfigProps RoutingProps BalanceProps SessionProps BaselineProps SdpoProps LaunchProps EmaProps
begin

text \<open>
  Verification of VERPO, the evidence-corrected policy optimisation of the package
  \<open>risk_aware_opsd\<close> (directory \<open>src/risk_aware_opsd/\<close>) and of its port into the vendored
  veRL framework (\<open>src/verl/verl/trainer/distillation/\<close>). The rest of the repository is that
  framework, launch scripts and tests.

  The program. A training step runs a Student over a batch of sampled rollouts and several Teachers
  over the same tokens with different hints. \<open>rollout_evidence.py\<close> chooses, for every rollout,
  sibling rollouts of its prompt group to build those hints from. \<open>length_aware_reward.py\<close> turns
  correctness and length into rewards and classifies prompt groups; \<open>verpo_zpd.py\<close> opens or
  closes the evidence gate of a group on them, computes per-token statistics of the Teachers'
  displacement (benefit and Fisher cost), turns them into token weights, and computes the reference
  and evidence losses, over the whole vocabulary in chunks. \<open>verpo_topk.py\<close> is the truncated
  counterpart on Top-K supports, to which every function of \<open>verpo_zpd.py\<close> dispatches.
  \<open>verpo_trainer.py\<close> composes the losses by configuration. \<open>zpd_dataset.py\<close> builds prompt
  profiles from saved rollouts for data selection. Around training, \<open>verpo_launch_config.py\<close> merges
  the documents of a launch (model, hardware, protocol, teacher, arm) over a base, validates the result
  and turns it into the environment of the engine; \<open>sdpo_data.py\<close> converts the five data sets and
  \<open>sdpo_verl_reward.py\<close> scores their solutions; \<open>ema_teacher.py\<close> keeps and measures an averaged
  Teacher.

  The port. \<open>distillation/verpo_protocol.py\<close> grades rollouts by their boxed answer and turns the
  selected sibling evidence into Teacher prompts that fit a token budget.
  \<open>distillation/snapshot_teacher.py\<close> keeps the Teacher as a shadow of the actor's trainable
  parameters, copied or averaged on a schedule of applied optimizer steps, and swaps it into the actor
  for a forward pass. \<open>distillation/verpo_topk.py\<close> computes the chunked normaliser with a
  hand-written backward pass; \<open>distillation/verpo_zpd.py\<close> computes gates, statistics, weights and
  losses in one pass over flat token rows, exact or truncated; its logits processor runs the Teachers
  over the hinted prompts of a batch and mixes the negative ones, and its batch loss combines the
  gated losses with the clipped policy loss. \<open>verpo_gradient_audit.py\<close> measures, for a bounded set
  of parameters, the gradients of the loss branches. Around them, from the framework: the configuration
  of the actor (\<open>workers/config/actor.py\<close>) accepts or rejects a VERPO setting; the trainer
  (\<open>trainer/ppo/v1/trainer_base.py\<close>) selects the prompt groups, prepares the Teacher fields of a
  step and counts the routed rows and tokens of the batch; \<open>utils/seqlen_balancing.py\<close> cuts the
  batch into balanced shares and micro-batches and restores the order; the advantage step
  (\<open>ray_trainer.py\<close>, \<open>v1/utils.py\<close>, \<open>utils/groupwise.py\<close>, \<open>core_algos.py\<close>) turns token rewards into
  advantages, per rollout or per session of several trajectories; each rank aggregates its losses
  (\<open>trainer/ppo/core_algos.py\<close>, \<open>workers/utils/losses.py\<close>), and the workers merge and finish the
  metrics (\<open>workers/engine_workers.py\<close>).

  The theories, in dependency order.

    Prelude: results and errors (\<open>rbind\<close>, \<open>rmap\<close>), host floats, loops over \<open>range(0, n, c)\<close> and chunked
      sums, element-wise vector operations, and the named collections \<open>vec_defs\<close>,
      \<open>slice_simps\<close>, \<open>vec_len\<close>.
    PyStrings: the Python string operations the port uses (\<open>strip\<close>, \<open>startswith\<close>,
      \<open>rfind\<close>, \<open>replace\<close>, \<open>partition\<close>, ...), over 8-bit characters.
    Fisher: the abstract specification: weighted means and covariances under a probability row, the
      ridge projection, the statistics \<open>fec_ref\<close> and \<open>disp_ref\<close>, the tangent \<open>F(p) r\<close>; the
      locales \<open>mass_row\<close> (a subprobability row) and \<open>full_mass_row\<close> (a probability row) with the
      facts proved once for both vocabulary modes.
    Softmax: tensors, Softmax rows, \<open>_chunked_vocab_logsumexp\<close>, \<open>marginalize_teacher_logits\<close>.
    TopkSupport, TopkGather, TopkMoments, TopkStats, TopkLosses, Diagnostics: \<open>verpo_topk.py\<close>,
      function by function: support construction, gathers under full normalisation, Fisher moments,
      statistics, losses, support diagnostics. \<open>torch.topk\<close> is an argument; the locale
      \<open>topk_select\<close> states its documented contract, and \<open>topk_by_sort\<close> instantiates it.
    FullForward, FullReverse, FullLosses: the statistics and losses of \<open>verpo_zpd.py\<close>, with their
      dispatch to the truncated functions.
    LengthReward, Controller: \<open>length_aware_reward.py\<close>, and the gates and token weights of
      \<open>verpo_zpd.py\<close>.
    Trainer: \<open>masked_mean\<close>, \<open>grpo_policy_loss\<close> and \<open>VERPOTrainer.compute_verpo_loss\<close>.
    Evidence, ZpdDataset: \<open>rollout_evidence.py\<close> and \<open>zpd_dataset.py\<close>.
    TopkStatsRef, TopkLossesRef, FullLossesRef, LossFacts: the refinement lemmas: every entry point
      returns the abstract statistic or loss (\<open>fec_ref\<close>, \<open>disp_ref\<close>, \<open>kl_ref\<close>, \<open>corr_ref\<close>,
      \<open>geo_ref\<close>) over the coordinates it uses, and the calculus of those losses.
    ActorTeacher: \<open>snapshot_teacher.py\<close>: the actor's named tensors, the shadow, the schedule of
      \<open>after_optimizer_step\<close>, the forward context, the fingerprint, saving and loading.
    NativeTopk, NativeLosses, NativeTruncated: the port's \<open>verpo_topk.py\<close> (the normaliser and its
      backward pass) and the flat losses of its \<open>verpo_zpd.py\<close>: validation, gates, the exact
      path, the truncated path and their dispatch \<open>compute_flat_verpo_losses\<close>.
    NativeRef, NativeTruncRef, NativeEquiv, NativeTruncEquiv, NativePackage: the refinement lemmas of
      the port, to the same abstract statistics and losses, and from there to the package.
    Protocol, Grading, TeacherFields: \<open>verpo_protocol.py\<close>: prompts and answer extraction; the
      grading of numerals and delegation to \<open>math_verify\<close>; evidence branches, the Teacher prompt
      with its budget search, and the Teacher fields of a batch. The tokenizer, \<open>math_verify\<close> and
      \<open>split_sdpg_prompt\<close> are arguments.
    GradientAudit: \<open>verpo_gradient_audit.py\<close>: the scope, the captures, the metrics and the
      auditor's state; the backward pass is an argument.
    Jagged: packed token rows: the predictor positions of a response, the padding of packed values and
      \<open>no_padding_2_padding\<close> (\<open>workers/utils/padding.py\<close>).
    AggLoss: \<open>agg_loss\<close> in its aggregation modes, masked sums, \<open>kl_penalty\<close> and
      \<open>compute_policy_loss_vanilla\<close>, with the global counts of a batch split over ranks and micro-batches.
    NativeBatch: the logits processor of the port: the Teachers of a ragged batch and the mixture of the
      negative hints; the network is an argument. BatchLoss: the batch loss with its gates and metrics.
      BatchMix: the lemmas on both.
    Monitoring: the totals a micro-batch reports, their merge over micro-batches and ranks, and the
      finished metrics (\<open>workers/engine_workers.py\<close>, \<open>utils/py_functional.py\<close>); MonitoringFacts: lemmas.
    VerpoConfig: \<open>VerpoZPDConfig\<close>, \<open>PaperBaselineConfig\<close> and \<open>ActorConfig\<close> with their checks.
    Routing: outcome resolution, reward-variable groups, and the Teacher inputs, counts and metrics of a
      step (\<open>_prepare_verpo_teacher_inputs\<close>).
    Balance: the Karmarkar-Karp differencing method over Python's binary heap (its two sifting loops; the
      locale \<open>multiset_queue\<close> states what the method needs of its queue), the greedy assignment and
      the checked entry point. MicroBatch: micro-batches and their inverse, prompt-group partitions and
      the imbalance report.
    Advantage: the outcome-level estimators of \<open>core_algos.py\<close> over group statistics: GRPO and
      leave-one-out with their vectorised forms, pass@k, GPG and OPO. TokenAdvantage: generalized
      advantage estimation, REINFORCE++, ReMax, GDPO and the two optimal token baselines. AdvantageStep:
      the KL penalty on rewards with its controllers, the registry, \<open>compute_advantage\<close>, the form
      for several trajectories per session, and the step over the nested fields of the queue.
    PyValue: dynamic values, as parsed from JSON or YAML, with Python's equality, truth and conversions.
    LaunchConfig: \<open>verpo_launch_config.py\<close>: the controls, merging, overrides, validation, resolution,
      matrices and the engine's environment. SdpoReward: \<open>sdpo_verl_reward.py\<close> and \<open>sdpo_data.py\<close>.
      EmaTeacher: \<open>ema_teacher.py\<close> over the tensors of ActorTeacher.
    Fixtures: small inputs for the witnesses. StatsProps, LossProps, ControlProps, EvidenceProps,
      ZpdProps, TeacherProps, NativeProps, ProtocolProps, AuditProps, BatchProps, MonitoringProps,
      ConfigProps, RoutingProps, BalanceProps, AdvantageProps, TokenAdvantageProps, BaselineProps,
      SessionProps, LaunchProps, SdpoProps, EmaProps, and this theory: the properties C1 to C40 with their
      witnesses, and further theorems of the same components.

  What the properties show. C1 and C2: the statistics functions return the abstract statistics, in
  full mode over the vocabulary and in truncated mode over the Top-K union with the sampled token;
  C3: with K at least the vocabulary size truncation is exact; C4: costs, cosines and covariances
  are bounded; C22: the support. C23, C24, C25 and C26: the losses are the stated divergences and
  corrections, in both vocabulary modes, and over the full vocabulary their gradients on the Student
  logits of a position. C30: group gates. C32: the selection of evidence. C33: an accepted
  configuration that always raises. For the port, C5: on calls whose arguments pass the port's
  checks the flat losses are the package's statistics, weights and losses on the same tokens, its
  costs resolved by the package; C7 and C39: the logits processor hands every response token the
  Teachers of its own row, and packed values come back to their places; C37: the hand-written
  backward pass is the gradient of the normaliser; C38: a result of such a call has the shape of its
  input. C21 and C31: Teacher prompts are built from graded siblings only, the original prompt
  stands in exactly when there is none, and they never hold the target, and the budget search ends
  with the longest fitting prompt. C34, C35, C36: the snapshot schedule, that a refresh comes within
  the interval, and that the actor is restored after a forward pass whatever it raises. C40: the
  audited scope is bounded and the gradients are clear after every audit. Across components: C6: the
  losses of one optimizer step, over all ranks and micro-batches, add up to the loss of its tokens
  over the numbers of tokens and rows routed on all ranks, which the exchange hands to each; C8: the
  reported means pool the tokens of all ranks; C9: a routed row has the evidence its branch needs;
  C10: what VerpoZPDConfig accepts, the checks that read the same settings again accept too. C11:
  the final trajectory of each session is scored against the other sessions of its prompt, and its
  score reaches all tokens of the session; C27, C28 and C29: the estimators are the stated group
  scores, temporal-difference sums over the unmasked tokens, and, on single-turn responses, one and
  the same token baseline. C13, C12 and C14: the shares of the ranks are balanced partitions, micro-
  batching can be undone, prompt groups are not split. C15 and C16: a resolved launch has a
  consistent batch plan and accepted controls, and later axes win over earlier ones and overrides
  over both, without losing anything else, the identity fields apart. C17 and C20: every converted
  data row is scored behind the format gate of its style, unless the JSON parser raises an exception
  the reward does not catch, and a multiple-choice answer scores exactly when it ends with the right
  tagged letter. C18 and C19: the diagnostics of the EMA Teacher are the stated divergences within
  their bounds, and the reported masses are sums over the selected tokens per valid token. Further
  theorems of the same strength, without a number, stand beside them.

  Modelling decisions. Tensor entries are exact real numbers: rounding, overflow and NaN inside
  tensors are not modelled, so an \<open>isfinite\<close> test of a tensor holds by construction except where
  the code itself can divide by zero or take the logarithm of an empty sum; there the model has an
  option and the error branch. Host floats that are tested for finiteness are \<open>pyfloat\<close> values.
  Logits have the shape rows x positions x vocabulary and are records of rows; token tensors keep
  their two dimensions, so every shape test of the code is a test of the model. \<open>detach\<close>,
  devices and dtypes other than the int64 test of token IDs are identities; gradients are the
  derivatives of the returned value in one Student logit. Error messages keep their fixed part.
  Strings are lists of 8-bit characters; SHA-256, the JSON and YAML parsers and the text
  of floats and containers are arguments. The JSON parser returns a value, no value (a caught
  \<open>JSONDecodeError\<close>) or another exception; limits on the digits of an integer or on recursion
  outside the parser are not modelled. The actor of \<open>ActorTeacher\<close> and
  \<open>GradientAudit\<close> lives in one process: distributed reductions are those of a world of size
  one. In \<open>AggLoss\<close>, \<open>Monitoring\<close> and \<open>MicroBatch\<close> the ranks are explicit: an all-reduce is the
  sum, or the maximum, over the ranks' values, which are arguments. A prompt of the protocol is a list, a dictionary or a single value, never a tuple. There is no
  fuel: every loop is a structural recursion or has a proved measure (\<open>range_from\<close> on the
  remaining length, \<open>split_lines\<close> on the remaining string, \<open>bisect_prompt\<close> on the width
  of the search interval, \<open>kk_loop\<close> on the number of queued states, \<open>sift_up\<close> on the distance to
  the end of the heap).

  Not modelled. Of the port: the sidecar files of the weight audit and the measured timings, and
  \<open>distillation/losses.py\<close>. Of the routing step: its audit and statistics files. Of
  the advantage step: rollout correction and the PF-PPO resampling of a batch. Of the package: the
  shell command of a launch and its dry run, \<open>math_text_protocol.py\<close> (the port's protocol is
  modelled), the TRL entry point, the trainer's checkpoint methods. The scripts and the rest of the vendored framework: file systems,
  processes, workers, rollout servers and models.
\<close>

section \<open>The FEC step\<close>

lemma tok_map_simps [simp]:
  "tk_n (tok_map f A) = tk_n A" "tk_s (tok_map f A) = tk_s A" "tk_vals (tok_map f A) = map f (tk_vals A)"
  "tok_shape (tok_map f A) = tok_shape A" "wf_tok (tok_map f A) = wf_tok A"
  by (simp_all add: tok_map_def tok_shape_def wf_tok_def)

lemma fec_costs_nonneg:
  assumes topk: "topk_select topk" and ten: "tensors_ok [P, N, Z, S]" and ids: "ids_ok S y"
    and t: "t < lg_n S * lg_s S" and e: "0 < e"
  shows "0 \<le> fs_fisher_cost (fec_ref (coords topk full k [P, N, Z] y t) (stu_prob T S t) f g e v a)"
proof -
  have "coords topk full k [P, N, Z] y t \<subseteq> {..<length (lg_rows S ! t)}"
    by (rule coords_sub(1) [OF topk ten _ _ _ ids t]) simp_all
  moreover have "lg_rows S ! t \<noteq> []" by (rule tensors_ok_row(2) [OF ten _ _ t]) simp_all
  ultimately show ?thesis
    using subrow.fec_ref_bounds(1) [of "(T, lg_rows S ! t, coords topk full k [P, N, Z] y t)" e f g v a] e
    by (simp add: stu_prob_def [abs_def])
qed

text \<open>What the loss returns once its two token losses are known.\<close>

lemma compute_verpo_loss_fec:
  assumes "lc_displacement_mode cfg = ''fec''" and "lc_divergence cfg = ''forward_kl''"
    and "lb_positive B = Some P" "lb_negative B = Some N" "lb_no_evidence B = Some Z"
    and "lb_evidence_weights B = Some W" "lb_nuisance_projection B = Some alpha"
    and "tok_shape W = token_shape S" and n: "0 < lg_n S * lg_s S"
    and loss: "compute_fec_teacher_token_losses topk S P N Z W alpha (lc_temperature cfg) (lc_vocab_chunk_size cfg)
      (lc_vocab_mode cfg) (lc_top_k cfg) (lb_sampled_token_ids B) = Inr (tok_of S f)"
  shows "\<exists>m. compute_verpo_loss topk cfg S B = Inr (lm_total_loss m, m) \<and> lm_reference_loss m = 0
    \<and> lm_evidence_loss m = (\<Sum>t<lg_n S * lg_s S. f t) / real (lg_n S * lg_s S)
    \<and> lm_total_loss m = lc_lambda_evi cfg * lm_evidence_loss m"
proof -
  have ne: "tk_vals (tok_of S f) \<noteq> []" "tk_vals (tok_map (\<lambda>_. 0 :: real) (tok_of S f)) \<noteq> []"
    using n by (simp_all add: tok_of_def)
  have "vsum (tk_vals (tok_of S f)) = (\<Sum>t<lg_n S * lg_s S. f t)"
    "vsum (tk_vals (tok_map (\<lambda>_. 0) (tok_of S f))) = 0"
    by (simp_all add: vsum_nth tok_of_def)
  then show ?thesis
    using assms masked_mean_all [OF ne(1)] masked_mean_all [OF ne(2)]
    by (simp add: compute_verpo_loss_def fec_branch_def Let_def)
qed

text \<open>one Forward-KL FEC step goes through: under the calling contract the statistics are
  computed, their benefit and Fisher cost are accepted by the token controller, whose weights lie
  in [0, 1), and the trainer's loss with these weights and the projection of the statistics is
  \<open>lambda_evi\<close> times the mean over all positions of the FEC correction, with a zero reference
  term.\<close>

theorem fec_step_total:
  assumes topk: "topk_select topk" and ten: "tensors_ok [P, N, Z, S]" and ids: "ids_ok S y"
    and cfg: "lc_displacement_mode cfg = ''fec''" "lc_divergence cfg = ''forward_kl''" "0 < lc_temperature cfg"
      "0 < lc_vocab_chunk_size cfg"
    and mode: "should_use_full_vocab_compat (lc_vocab_mode cfg) (lc_top_k cfg) (lg_v S) = Inr full"
    and B: "lb_positive B = Some P" "lb_negative B = Some N" "lb_no_evidence B = Some Z"
      "lb_sampled_token_ids B = Some y"
    and n: "0 < lg_n S * lg_s S" and adv: "length adv = lg_n S" and gate: "length gate = lg_n S"
    and tmask: "wf_tok tmask" "tok_shape tmask = token_shape S"
    and cost: "resolve_cost C = Inr (Fin a, Fin eps)" "0 \<le> a" "0 < eps" and e: "0 < e"
  defines "T \<equiv> lc_temperature cfg"
    and "A \<equiv> coords topk full (top_k_value (lc_top_k cfg)) [P, N, Z] y"
  shows "\<exists>st W m. compute_fec_evidence_stats topk P N Z S y adv T (lc_vocab_chunk_size cfg) (Fin e)
        (lc_vocab_mode cfg) (lc_top_k cfg) = Inr st
    \<and> compute_verpo_token_weights (tok_map fs_benefit st) (tok_map fs_fisher_cost st) gate tmask C ''paper'' False
      = Inr W
    \<and> (\<forall>w \<in> set (tk_vals W). 0 \<le> w \<and> w < 1)
    \<and> compute_verpo_loss topk cfg S (B\<lparr>lb_evidence_weights := Some W,
        lb_nuisance_projection := Some (tok_map fs_projection st)\<rparr>) = Inr (lm_total_loss m, m)
    \<and> lm_reference_loss m = 0 \<and> lm_total_loss m = lc_lambda_evi cfg * lm_evidence_loss m
    \<and> lm_evidence_loss m = (\<Sum>t<lg_n S * lg_s S. corr_ref T (tk_vals W ! t) (A t)
        (fec_exp T P N Z (tok_map fs_projection st) t) (log_row T S t)) / real (lg_n S * lg_s S)"
proof -
  define st where "st = tok_of S (\<lambda>t. fec_ref (A t) (stu_prob T S t) (task_prob T P N t)
      (nuis_prob T P N Z t) e (token_at y t) (row_at (lg_s S) adv t))"
  let ?b = "tok_map fs_benefit st" and ?c = "tok_map fs_fisher_cost st"
  let ?W = "\<lparr>tk_n = tk_n ?b, tk_s = tk_s ?b,
    tk_vals = map (weight_ref ?b ?c gate tmask a eps) [0..<length (tk_vals ?b)]\<rparr> :: real tok"
  have stats: "compute_fec_evidence_stats topk P N Z S y adv T (lc_vocab_chunk_size cfg) (Fin e)
      (lc_vocab_mode cfg) (lc_top_k cfg) = Inr st"
    using compute_fec_evidence_stats_eq [OF topk ten ids mode _ cfg(4) e adv, of T] cfg(3)
    by (simp add: st_def T_def A_def)
  have c: "0 \<le> tk_vals ?c ! t" if "t < lg_n S * lg_s S" for t
    using fec_costs_nonneg [OF topk ten ids that e] that by (simp add: st_def A_def)
  have inputs: "weight_inputs_ok ?b ?c gate tmask C a eps"
    using c tmask gate cost by (auto simp: weight_inputs_ok_def st_def list_all_length)
  note W = compute_verpo_token_weights_eq [OF inputs]
  have bounds: "0 \<le> w \<and> w < 1" if "w \<in> set (tk_vals ?W)" for w
  proof -
    have "w \<in> set (map (weight_ref ?b ?c gate tmask a eps) [0..<length (tk_vals ?b)])"
      using that by (simp only: tok.select_convs)
    then obtain t where "t < length (tk_vals ?b)" and w: "w = weight_ref ?b ?c gate tmask a eps t"
      by (auto simp only: set_map set_upt atLeastLessThan_iff)
    then have t: "t < lg_n S * lg_s S" "w = weight_ref ?b ?c gate tmask a eps t"
      by (simp_all add: st_def)
    obtain active where "token_weight active a eps False (tk_vals ?b ! t) (tk_vals ?c ! t) = Some w"
      using token_weight_bounds [OF cost(2,3) c [OF t(1)], of "row_at (tk_s ?b) gate t \<and> tk_vals tmask ! t" "tk_vals ?b ! t"]
      by (auto simp: t(2) weight_ref_def Let_def split: if_splits)
    then show ?thesis using token_weight_bounds [OF cost(2,3) c [OF t(1)], of active "tk_vals ?b ! t"] by auto
  qed
  have Wok: "weights_ok S ?W" "weights_ok S (tok_map fs_projection st)"
    by (simp_all add: weights_ok_def st_def wf_tok_def tok_shape_def token_shape_def)
  let ?B = "B\<lparr>lb_evidence_weights := Some ?W, lb_nuisance_projection := Some (tok_map fs_projection st)\<rparr>"
  have loss: "compute_fec_teacher_token_losses topk S P N Z ?W (tok_map fs_projection st) (lc_temperature cfg)
      (lc_vocab_chunk_size cfg) (lc_vocab_mode cfg) (lc_top_k cfg) (lb_sampled_token_ids ?B)
    = Inr (tok_of S (\<lambda>t. corr_ref T (tk_vals ?W ! t) (A t) (fec_exp T P N Z (tok_map fs_projection st) t) (log_row T S t)))"
    using compute_fec_teacher_token_losses_eq [OF topk ten ids mode cfg(3,4) Wok] B(4)
    by (simp add: T_def A_def)
  show ?thesis
    using compute_verpo_loss_fec [OF cfg(1,2) _ _ _ _ _ _ n loss] B Wok stats W bounds
    by (simp add: weights_ok_def) blast
qed

text \<open>A one-position FEC batch.\<close>

definition sample_config :: "string \<Rightarrow> string \<Rightarrow> string \<Rightarrow> loss_config" where
  "sample_config mode divergence vocab = \<lparr>lc_displacement_mode = mode, lc_divergence = divergence, lc_temperature = 1,
     lc_vocab_chunk_size = 2, lc_vocab_mode = vocab, lc_top_k = TkInt 1, lc_lambda_ref = 1, lc_lambda_evi = 1\<rparr>"

definition sample_batch :: loss_batch where
  "sample_batch = \<lparr>lb_reference = one_pos [0, 0], lb_base = None, lb_evidence = None,
     lb_positive = Some (one_pos [1, 0]), lb_negative = Some (one_pos [0, 3]),
     lb_no_evidence = Some (one_pos [2, 0]), lb_sampled_token_ids = Some (one_id 1),
     lb_evidence_weights = None, lb_nuisance_projection = None\<rparr>"

theorem fec_step_total_witness:
  "\<exists>(st :: fec_stats tok) W m. compute_verpo_token_weights (tok_map fs_benefit st) (tok_map fs_fisher_cost st) [True] (one_tok True)
      \<lparr>cp_cost_alpha = Some (Fin 1), cp_cost_epsilon = Some (Fin 1), cp_tau = None, cp_rho = None,
       cp_cost_floor = None, cp_cost_beta = None\<rparr> ''paper'' False = Inr W
    \<and> compute_verpo_loss topk_by_sort (sample_config ''fec'' ''forward_kl'' ''full'') (one_pos [0, 0])
       (sample_batch\<lparr>lb_evidence_weights := Some W, lb_nuisance_projection := Some (tok_map fs_projection st)\<rparr>)
      = Inr (lm_total_loss m, m) \<and> lm_reference_loss m = 0"
  using fec_step_total [of topk_by_sort "one_pos [1, 0]" "one_pos [0, 3]" "one_pos [2, 0]" "one_pos [0, 0]" "one_id 1"
      "sample_config ''fec'' ''forward_kl'' ''full''" True sample_batch "[1]" "[True]" "one_tok True"
      "\<lparr>cp_cost_alpha = Some (Fin 1), cp_cost_epsilon = Some (Fin 1), cp_tau = None, cp_rho = None,
       cp_cost_floor = None, cp_cost_beta = None\<rparr>" 1 1 1]
  by (simp add: sample_config_def sample_batch_def resolve_cost_def) blast

section \<open>Configurations whose loss raises\<close>

text \<open>in FEC mode with the Reverse KL \<open>compute_verpo_loss\<close> never returns: whenever its
  correction can be computed, the reference loss it averages next is unbound.\<close>

theorem reverse_fec_unbound:
  assumes topk: "topk_select topk" and ten: "tensors_ok [P, N, Z, S]" and ids: "ids_ok S y"
    and cfg: "lc_displacement_mode cfg = ''fec''" "lc_divergence cfg \<noteq> ''forward_kl''" "0 < lc_temperature cfg"
      "0 < lc_vocab_chunk_size cfg"
    and mode: "should_use_full_vocab_compat (lc_vocab_mode cfg) (lc_top_k cfg) (lg_v S) = Inr full"
    and B: "lb_positive B = Some P" "lb_negative B = Some N" "lb_no_evidence B = Some Z"
      "lb_sampled_token_ids B = Some y" "lb_evidence_weights B = Some W" "lb_nuisance_projection B = Some alpha"
    and W: "weights_ok S W" "weights_ok S alpha"
  shows "compute_verpo_loss topk cfg S B = Inl (UnboundLocalError ''ref'')"
  using compute_reverse_kl_fec_teacher_token_losses_eq [OF topk ten ids mode cfg(3,4) W] cfg B W
  by (simp add: compute_verpo_loss_def fec_branch_def Let_def weights_ok_def)

theorem reverse_fec_unbound_witness:
  "compute_verpo_loss topk_by_sort (sample_config ''fec'' ''reverse_kl'' ''full'') (one_pos [0, 0])
     (sample_batch\<lparr>lb_evidence_weights := Some (one_tok (1/2)), lb_nuisance_projection := Some (one_tok 0)\<rparr>)
   = Inl (UnboundLocalError ''ref'')"
  by (rule reverse_fec_unbound [of topk_by_sort "one_pos [1, 0]" "one_pos [0, 3]" "one_pos [2, 0]" "one_pos [0, 0]"
      "one_id 1" _ True _ "one_tok (1/2)" "one_tok 0"]) (simp_all add: sample_config_def sample_batch_def)

text \<open>in truncated vocabulary mode the Fixed and contrastive Reverse-KL losses of
  \<open>compute_verpo_loss\<close> always raise \<open>ValueError\<close>, whatever the batch holds: the trainer leaves
  \<open>return_interpolated_probs\<close> at its default, which those functions refuse.\<close>

theorem reverse_truncated_raises:
  assumes cfg: "lc_displacement_mode cfg \<in> {''evidence_vs_none'', ''correct_vs_incorrect'', ''reward_ranked''}"
      "lc_divergence cfg \<noteq> ''forward_kl''"
    and mode: "should_use_full_vocab_compat (lc_vocab_mode cfg) (lc_top_k cfg) (lg_v S) = Inr False"
  shows "\<exists>e. compute_verpo_loss topk cfg S B = Inl (ValueError e)"
  using assms
  by (auto simp: compute_verpo_loss_def fixed_branch_def contrastive_branch_def drop_probs_def Let_def
      compute_reverse_kl_fixed_teacher_token_losses_def compute_reverse_kl_ctr_teacher_token_losses_def
      split: option.splits)

theorem reverse_truncated_raises_witness:
  "\<exists>e. compute_verpo_loss topk_by_sort (sample_config ''reward_ranked'' ''reverse_kl'' ''topk_truncated'')
     (one_pos [0, 0]) sample_batch = Inl (ValueError e)"
  by (rule reverse_truncated_raises) (simp_all add: sample_config_def)

section \<open>Policy loss\<close>

text \<open>the clipped policy loss is defined for tensors of one shape; on policy it is minus the
  masked mean of the advantages, and off policy it is bounded below: no token gains more than
  \<open>1 + clip_high\<close> times a positive, or \<open>1 - clip_low\<close> times a negative, advantage.\<close>

theorem policy_loss_spec:
  assumes wf: "wf_tok new" "wf_tok old" "wf_tok adv" "wf_tok tmask"
    and shape: "tok_shape old = tok_shape new" "tok_shape adv = tok_shape new" "tok_shape tmask = tok_shape new"
    and clip: "0 \<le> lo" "0 \<le> hi"
  defines "n \<equiv> length (tk_vals new)" and "w \<equiv> \<lambda>t. of_bool (tk_vals tmask ! t)"
  shows "\<exists>l. grpo_policy_loss new old adv tmask lo hi = Inr l
    \<and> (new = old \<longrightarrow> l = - (\<Sum>t<n. w t * tk_vals adv ! t) / max (\<Sum>t<n. w t) 1)
    \<and> - (\<Sum>t<n. w t * ((if 0 \<le> tk_vals adv ! t then 1 + hi else 1 - lo) * tk_vals adv ! t)) / max (\<Sum>t<n. w t) 1 \<le> l"
proof -
  have len: "length (tk_vals old) = n" "length (tk_vals adv) = n" "length (tk_vals tmask) = n"
    using wf shape by (auto simp: wf_tok_def tok_shape_def n_def)
  let ?o = "\<lambda>t. clipped_objective lo hi (tk_vals new ! t) (tk_vals old ! t) (tk_vals adv ! t)"
  let ?D = "max (\<Sum>t<n. w t) 1"
  have res: "grpo_policy_loss new old adv tmask lo hi = Inr (- (\<Sum>t<n. w t * ?o t) / ?D)"
    using shape len
    by (simp add: grpo_policy_loss_def masked_mean_def Let_def vsum_nth tok_shape_def w_def n_def mult.commute)
  have self: "?o t = tk_vals adv ! t" if "new = old" for t
    using that clip by (simp add: clipped_objective_def clamp_def)
  have "(\<Sum>t<n. w t * ?o t) \<le> (\<Sum>t<n. w t * ((if 0 \<le> tk_vals adv ! t then 1 + hi else 1 - lo) * tk_vals adv ! t))"
    using clipped_objective_le [OF clip] by (intro sum_mono mult_left_mono) (auto simp: w_def)
  moreover have "0 < ?D" by simp
  ultimately have "- (\<Sum>t<n. w t * ((if 0 \<le> tk_vals adv ! t then 1 + hi else 1 - lo) * tk_vals adv ! t)) / ?D
      \<le> - (\<Sum>t<n. w t * ?o t) / ?D"
    by (intro divide_right_mono) auto
  then show ?thesis using res self by auto
qed

theorem policy_loss_spec_witness:
  "\<exists>l. grpo_policy_loss (one_tok 0) (one_tok 0) (one_tok 2) (one_tok True) (1/5) (1/5) = Inr l \<and> l = -2"
  using policy_loss_spec [of "one_tok 0" "one_tok 0" "one_tok 2" "one_tok True" "1/5" "1/5"] by auto

end
